(* ===== verification/Prelude.thy ===== *)
theory Prelude
  imports Main "HOL-Library.Word" "HOL-Library.Code_Target_Numeral"
begin

text \<open>
  Shared vocabulary of the SIL Kit development: machine integer types, results of fallible
  operations, association lists in the role of the code's dictionaries, and the generic lemmas
  on lists and words that the component theories use.
\<close>

named_theorems codec_field \<open>composition rules for one field of a wire message\<close>
named_theorems safe_intro \<open>introduction rules for memory-safe readers\<close>
named_theorems codec_defs \<open>definitions of the well-formedness of message fields\<close>

type_synonym u8 = "8 word"
type_synonym u16 = "16 word"
type_synonym u32 = "32 word"
type_synonym u64 = "64 word"
type_synonym bytes = "u8 list"

subsection \<open>Fallible computations\<close>

text \<open>
  A C++ function that may throw becomes a function into \<open>'e + 'a\<close>: \<open>Inl\<close> is the exception.
  \<open>bindE\<close> runs the second computation only when the first returned.
\<close>

definition bindE :: "'e + 'a \<Rightarrow> ('a \<Rightarrow> 'e + 'b) \<Rightarrow> 'e + 'b" where
  "bindE m f = (case m of Inl e \<Rightarrow> Inl e | Inr x \<Rightarrow> f x)"

lemma bindE_simps [simp]: "bindE (Inl e) f = Inl e" "bindE (Inr x) f = f x"
  by (simp_all add: bindE_def)

lemma bindE_eq_Inr_iff: "bindE m f = Inr y \<longleftrightarrow> (\<exists>x. m = Inr x \<and> f x = Inr y)"
  by (cases m) auto

lemma bindE_Inr_E [elim!]:
  assumes "bindE m f = Inr y" obtains x where "m = Inr x" "f x = Inr y"
  using assms by (auto simp: bindE_eq_Inr_iff)

subsection \<open>Lists\<close>

definition resize :: "nat \<Rightarrow> 'a \<Rightarrow> 'a list \<Rightarrow> 'a list" where
  "resize n d xs = take n xs @ replicate (n - length xs) d"

lemma length_resize [simp]: "length (resize n d xs) = n"
  by (simp add: resize_def)

lemma resize_same [simp]: "resize (length xs) d xs = xs"
  by (simp add: resize_def)

definition overwrite :: "nat \<Rightarrow> 'a list \<Rightarrow> 'a list \<Rightarrow> 'a list" where
  "overwrite pos bs xs = take pos xs @ bs @ drop (pos + length bs) xs"

lemma length_overwrite:
  "pos + length bs \<le> length xs \<Longrightarrow> length (overwrite pos bs xs) = length xs"
  by (simp add: overwrite_def)

lemma overwrite_resize_end [simp]:
  "overwrite (length xs) bs (resize (length xs + length bs) d xs) = xs @ bs"
  by (simp add: overwrite_def resize_def)

lemma strict_prefix_append_cases:
  assumes "zs @ us = xs @ ys" "us \<noteq> []"
  obtains (first) vs where "xs = zs @ vs" "vs \<noteq> []"
    | (second) vs where "zs = xs @ vs" "ys = vs @ us"
proof -
  from assms(1) consider vs where "zs = xs @ vs" "vs @ us = ys"
    | vs where "zs @ vs = xs" "us = vs @ ys"
    by (auto simp: append_eq_append_conv2)
  then show thesis
  proof cases
    case 1
    then show thesis using second by blast
  next
    case 2
    then show thesis using first second by (cases "vs = []") auto
  qed
qed

text \<open>\<^verbatim>\<open>std::to_string\<close> on non-negative integers.\<close>

fun nat_to_string :: "nat \<Rightarrow> string" where
  "nat_to_string n =
     (if n < 10 then [char_of (48 + n)]
      else nat_to_string (n div 10) @ [char_of (48 + n mod 10)])"

declare nat_to_string.simps [simp del]

subsection \<open>Little-endian bytes of words\<close>

fun le_bytes :: "nat \<Rightarrow> 'a::len word \<Rightarrow> bytes" where
  "le_bytes 0 w = []"
| "le_bytes (Suc n) w = ucast w # le_bytes n (drop_bit 8 w)"

fun of_le_bytes :: "bytes \<Rightarrow> 'a::len word" where
  "of_le_bytes [] = 0"
| "of_le_bytes (b # bs) = or (ucast b) (push_bit 8 (of_le_bytes bs))"

lemma length_le_bytes [simp]: "length (le_bytes n w) = n"
  by (induction n w rule: le_bytes.induct) auto

lemma of_le_bytes_le_bytes: "of_le_bytes (le_bytes n w) = take_bit (8 * n) w"
proof (induction n w rule: le_bytes.induct)
  case (1 w)
  then show ?case by simp
next
  case (2 n w)
  show ?case
    by (rule bit_eqI)
      (auto simp: 2 bit_or_iff bit_push_bit_iff bit_take_bit_iff bit_ucast_iff bit_drop_bit_eq
        not_le)
qed

lemma of_le_bytes_full [simp]:
  fixes w :: "'a::len word"
  assumes "LENGTH('a) \<le> 8 * n"
  shows "of_le_bytes (le_bytes n w) = w"
  using assms by (simp add: of_le_bytes_le_bytes take_bit_word_eq_self)

end
