(* ===== verification/Wire_Codec.thy ===== *)
theory Wire_Codec
  imports Wire_Buffer
begin

text \<open>
  What the serialisers promise. \<open>writes p bs\<close>: the writer \<open>p\<close> appends exactly the bytes \<open>bs\<close> to
  every buffer whose write position is at its end. \<open>reads g bs x\<close>: the reader \<open>g\<close>, positioned before
  \<open>bs\<close>, returns \<open>x\<close> and stops behind \<open>bs\<close>, whatever surrounds them. \<open>rejects g bs\<close>: on a buffer
  that ends inside \<open>bs\<close> the reader throws \<^verbatim>\<open>end_of_buffer\<close>. \<open>safe_reader g\<close>: on arbitrary bytes the
  reader leaves storage and write position alone and never moves the read position past the end.
  The locales \<open>wire_codec\<close> and \<open>strict_codec\<close> package these promises for one type.
\<close>

definition wf_buffer :: "MessageBuffer \<Rightarrow> bool" where
  "wf_buffer b \<longleftrightarrow> wPos b = length (storage b)"

definition append_bytes :: "bytes \<Rightarrow> MessageBuffer \<Rightarrow> MessageBuffer" where
  "append_bytes bs b = b\<lparr>storage := storage b @ bs, wPos := wPos b + length bs\<rparr>"

definition writes :: "writer \<Rightarrow> bytes \<Rightarrow> bool" where
  "writes p bs \<longleftrightarrow> (\<forall>b. wf_buffer b \<longrightarrow> p b = Inr (append_bytes bs b))"

definition reads :: "'a reader \<Rightarrow> bytes \<Rightarrow> 'a \<Rightarrow> bool" where
  "reads g bs x \<longleftrightarrow> (\<forall>b pre post. storage b = pre @ bs @ post \<longrightarrow> rPos b = length pre \<longrightarrow>
     g b = Inr (x, b\<lparr>rPos := length pre + length bs\<rparr>))"

definition rejects :: "'a reader \<Rightarrow> bytes \<Rightarrow> bool" where
  "rejects g bs \<longleftrightarrow> (\<forall>b pre zs us. storage b = pre @ zs \<longrightarrow> rPos b = length pre \<longrightarrow>
     bs = zs @ us \<longrightarrow> us \<noteq> [] \<longrightarrow> g b = Inl end_of_buffer)"

definition safe_reader :: "'a reader \<Rightarrow> bool" where
  "safe_reader g \<longleftrightarrow> (\<forall>b x b'. g b = Inr (x, b') \<longrightarrow> rPos b \<le> length (storage b) \<longrightarrow>
     (\<exists>n. b' = b\<lparr>rPos := rPos b + n\<rparr> \<and> rPos b + n \<le> length (storage b)))"

lemma append_bytes_simps [simp]:
  "wf_buffer (append_bytes bs b) \<longleftrightarrow> wf_buffer b"
  "append_bytes [] b = b"
  "append_bytes cs (append_bytes bs b) = append_bytes (bs @ cs) b"
  "storage (append_bytes bs b) = storage b @ bs"
  by (auto simp: append_bytes_def wf_buffer_def)

section \<open>Writers\<close>

lemma writes_put_raw: "writes (put_raw bs) bs"
  by (auto simp: writes_def put_raw_def wf_buffer_def append_bytes_def overwrite_def resize_def)

lemma writes_put_block: "writes (put_block bs) bs"
  by (auto simp: writes_def put_block_def wf_buffer_def append_bytes_def overwrite_def resize_def)

lemma writes_put_int: "writes (put_int (w :: 'a::len word)) (le_bytes (LENGTH('a) div 8) w)"
  unfolding put_int_def by (rule writes_put_raw)

lemma writes_Nil: "writes (put_all []) []"
  by (simp add: writes_def)

lemma writes_Cons: "writes p bs \<Longrightarrow> writes (put_all ps) cs \<Longrightarrow> writes (put_all (p # ps)) (bs @ cs)"
  by (auto simp: writes_def)

lemma writes_unique: "writes p bs \<Longrightarrow> writes p cs \<Longrightarrow> bs = cs"
proof -
  assume "writes p bs" "writes p cs"
  moreover have "wf_buffer empty_MessageBuffer"
    by (simp add: wf_buffer_def empty_MessageBuffer_def)
  ultimately have "append_bytes bs empty_MessageBuffer = append_bytes cs empty_MessageBuffer"
    by (auto simp: writes_def)
  then have "storage (append_bytes bs empty_MessageBuffer) = storage (append_bytes cs empty_MessageBuffer)"
    by simp
  then show "bs = cs" by simp
qed

section \<open>Readers\<close>

lemma reads_get_raw: "length bs = n \<Longrightarrow> reads (get_raw n) bs bs"
  by (auto simp: reads_def get_raw_def)

lemma rejects_get_raw: "length bs = n \<Longrightarrow> rejects (get_raw n) bs"
  by (auto simp: rejects_def get_raw_def)

lemma reads_return: "x = y \<Longrightarrow> reads (get_return y) [] x"
  by (auto simp: reads_def get_return_def)

lemma rejects_return: "rejects (get_return y) []"
  by (auto simp: rejects_def)

lemma readsD:
  "reads g bs x \<Longrightarrow> storage b = pre @ bs @ post \<Longrightarrow> rPos b = length pre \<Longrightarrow>
     g b = Inr (x, b\<lparr>rPos := length pre + length bs\<rparr>)"
  unfolding reads_def by blast

lemma reads_to:
  "reads g bs x \<Longrightarrow> storage b = pre @ bs @ post \<Longrightarrow> rPos b = length pre \<Longrightarrow>
     p = length pre + length bs \<Longrightarrow> g b = Inr (x, b\<lparr>rPos := p\<rparr>)"
  using readsD[of g bs x b pre post] by simp

lemma rejectsD:
  "rejects g bs \<Longrightarrow> storage b = pre @ zs \<Longrightarrow> rPos b = length pre \<Longrightarrow> bs = zs @ us \<Longrightarrow>
     us \<noteq> [] \<Longrightarrow> g b = Inl end_of_buffer"
  unfolding rejects_def by blast

lemma reads_bind:
  assumes "reads g bs x" "reads (k x) cs y"
  shows "reads (get_bind g k) (bs @ cs) y"
  unfolding reads_def
proof (intro allI impI)
  fix b :: MessageBuffer and pre post
  assume st: "storage b = pre @ (bs @ cs) @ post" and rp: "rPos b = length pre"
  let ?b = "b\<lparr>rPos := length pre + length bs\<rparr>"
  have "g b = Inr (x, ?b)"
    using st rp by (intro readsD[OF assms(1)]) auto
  moreover have "k x ?b = Inr (y, ?b\<lparr>rPos := length (pre @ bs) + length cs\<rparr>)"
    using st by (intro readsD[OF assms(2)]) auto
  ultimately show "get_bind g k b = Inr (y, b\<lparr>rPos := length pre + length (bs @ cs)\<rparr>)"
    by (simp add: get_bind_def add.assoc)
qed

lemma rejects_bind:
  assumes "reads g bs x" "rejects g bs" "rejects (k x) cs"
  shows "rejects (get_bind g k) (bs @ cs)"
  unfolding rejects_def
proof (intro allI impI)
  fix b :: MessageBuffer and pre zs us
  assume st: "storage b = pre @ zs" and rp: "rPos b = length pre"
    and eq: "bs @ cs = zs @ us" and ne: "us \<noteq> []"
  let ?b = "b\<lparr>rPos := length pre + length bs\<rparr>"
  from eq[symmetric] ne show "get_bind g k b = Inl end_of_buffer"
  proof (cases rule: strict_prefix_append_cases)
    case (first vs)
    then have "g b = Inl end_of_buffer" by (intro rejectsD[OF assms(2) st rp])
    then show ?thesis by (simp add: get_bind_def)
  next
    case (second vs)
    have "g b = Inr (x, ?b)"
      using st rp second by (intro readsD[OF assms(1)]) auto
    moreover have "k x ?b = Inl end_of_buffer"
      using st second ne by (intro rejectsD[OF assms(3), of _ "pre @ bs" vs us]) auto
    ultimately show ?thesis by (simp add: get_bind_def)
  qed
qed

lemma safe_readerD:
  assumes "safe_reader g" "g b = Inr (x, b')" "rPos b \<le> length (storage b)"
  obtains n where "b' = b\<lparr>rPos := rPos b + n\<rparr>" "rPos b + n \<le> length (storage b)"
  using assms unfolding safe_reader_def by blast

lemma safe_return [safe_intro]: "safe_reader (get_return x)"
  by (auto simp: safe_reader_def get_return_def intro!: exI[of _ 0])

lemma safe_fail [safe_intro]: "safe_reader (\<lambda>b. Inl e)"
  by (simp add: safe_reader_def)

lemma safe_raw [safe_intro]: "safe_reader (get_raw n)"
  by (auto simp: safe_reader_def get_raw_def split: if_splits)

lemma safe_check_left [safe_intro]: "safe_reader (check_left n)"
  by (auto simp: safe_reader_def check_left_def split: if_splits intro!: exI[of _ 0])

lemma safe_bind [safe_intro]:
  assumes "safe_reader g" "\<And>x. safe_reader (k x)"
  shows "safe_reader (get_bind g k)"
  unfolding safe_reader_def
proof (intro allI impI)
  fix b y b'
  assume run: "get_bind g k b = Inr (y, b')" and le: "rPos b \<le> length (storage b)"
  from run obtain x b1 where g: "g b = Inr (x, b1)" and k: "k x b1 = Inr (y, b')"
    by (auto simp: get_bind_def)
  from safe_readerD[OF assms(1) g le] obtain n
    where b1: "b1 = b\<lparr>rPos := rPos b + n\<rparr>" "rPos b + n \<le> length (storage b)" .
  then have "rPos b1 \<le> length (storage b1)" by simp
  from safe_readerD[OF assms(2) k this] obtain m
    where "b' = b1\<lparr>rPos := rPos b1 + m\<rparr>" "rPos b1 + m \<le> length (storage b1)" .
  with b1 show "\<exists>n. b' = b\<lparr>rPos := rPos b + n\<rparr> \<and> rPos b + n \<le> length (storage b)"
    by (intro exI[of _ "n + m"]) (simp add: add.assoc)
qed

lemma safe_get_int [safe_intro]: "safe_reader get_int"
  by (auto simp: safe_reader_def get_int_def get_raw_def bindE_def split: if_splits)

lemma safe_get_bool [safe_intro]: "safe_reader get_bool"
  by (auto simp: safe_reader_def get_bool_def get_raw_def bindE_def split: if_splits
      intro!: exI[of _ 1])

lemma safe_get_n [safe_intro]: "safe_reader g \<Longrightarrow> safe_reader (get_n n g)"
  by (induction n) (auto intro: safe_intro)

lemma safe_get_vector [safe_intro]: "safe_reader g \<Longrightarrow> safe_reader (get_vector g)"
  unfolding get_vector_def by (intro safe_intro)

lemma safe_get_string [safe_intro]: "safe_reader get_string"
  unfolding get_string_def by (intro safe_intro)

lemma safe_get_bytes [safe_intro]: "safe_reader get_bytes"
  unfolding get_bytes_def by (intro safe_intro)

section \<open>The contract of a serialiser\<close>

text \<open>
  \<open>rt ws g x\<close>: what the writers \<open>ws\<close> append in this order, the reader \<open>g\<close> reads back as \<open>x\<close>, and
  refuses when it is cut short.
\<close>

definition rt :: "writer list \<Rightarrow> 'a reader \<Rightarrow> 'a \<Rightarrow> bool" where
  "rt ws g x \<longleftrightarrow> (\<exists>bs. writes (put_all ws) bs \<and> reads g bs x \<and> rejects g bs)"

definition rt1 :: "writer list \<Rightarrow> 'a reader \<Rightarrow> 'a \<Rightarrow> bool" where
  "rt1 ws g x \<longleftrightarrow> (\<exists>bs. bs \<noteq> [] \<and> writes (put_all ws) bs \<and> reads g bs x \<and> rejects g bs)"

lemma rt_Nil [codec_field]: "y = x \<Longrightarrow> rt [] (get_return y) x"
  unfolding rt_def by (intro exI[of _ "[]"] conjI writes_Nil reads_return rejects_return) auto

lemma rt_block [codec_field]: "n = length bs \<Longrightarrow> rt [put_block bs] (get_raw n) bs"
  using writes_Cons[OF writes_put_block writes_Nil, of bs]
  unfolding rt_def by (intro exI[of _ bs]) (simp add: reads_get_raw rejects_get_raw)

locale wire_codec =
  fixes put :: "'a \<Rightarrow> writer" and get :: "'a reader" and ok :: "'a \<Rightarrow> bool"
  assumes roundtrip: "ok x \<Longrightarrow> \<exists>bs. bs \<noteq> [] \<and> writes (put x) bs \<and> reads get bs x"
    and safe [safe_intro]: "safe_reader get"

text \<open>
  The same promises seen from a fresh buffer: what \<^verbatim>\<open>Serialize\<close> writes into an empty buffer is read
  back and consumed entirely; every proper prefix of it is refused; and a reader that is given
  arbitrary bytes from the network stays inside them.
\<close>

definition roundtrips :: "('a \<Rightarrow> writer) \<Rightarrow> 'a reader \<Rightarrow> 'a \<Rightarrow> bool" where
  "roundtrips put get x \<longleftrightarrow> (\<exists>b. put x empty_MessageBuffer = Inr b \<and>
     get b = Inr (x, b\<lparr>rPos := length (storage b)\<rparr>))"

definition rejects_truncation :: "('a \<Rightarrow> writer) \<Rightarrow> 'a reader \<Rightarrow> 'a \<Rightarrow> bool" where
  "rejects_truncation put get x \<longleftrightarrow> (\<forall>b n. put x empty_MessageBuffer = Inr b \<longrightarrow>
     n < length (storage b) \<longrightarrow> get (MessageBuffer_of (take n (storage b))) = Inl end_of_buffer)"

definition in_bounds :: "'a reader \<Rightarrow> bool" where
  "in_bounds get \<longleftrightarrow> (\<forall>bs x b. get (MessageBuffer_of bs) = Inr (x, b) \<longrightarrow>
     storage b = bs \<and> wPos b = length bs \<and> rPos b \<le> length bs)"

text \<open>All three together, for every value that fits into the length fields of the message.\<close>

definition codec_correct :: "('a \<Rightarrow> writer) \<Rightarrow> 'a reader \<Rightarrow> ('a \<Rightarrow> bool) \<Rightarrow> bool" where
  "codec_correct put get ok \<longleftrightarrow>
     (\<forall>x. ok x \<longrightarrow> roundtrips put get x \<and> rejects_truncation put get x) \<and> in_bounds get"

text \<open>A serialiser that sends \<open>f x\<close> for \<open>x\<close>.\<close>

definition codec_correct_upto :: "('a \<Rightarrow> 'a) \<Rightarrow> ('a \<Rightarrow> writer) \<Rightarrow> 'a reader \<Rightarrow> ('a \<Rightarrow> bool) \<Rightarrow> bool" where
  "codec_correct_upto f put get ok \<longleftrightarrow>
     (\<forall>x. ok x \<longrightarrow> (\<exists>b. put x empty_MessageBuffer = Inr b \<and> get b = Inr (f x, b\<lparr>rPos := length (storage b)\<rparr>)) \<and>
        rejects_truncation put get x) \<and> in_bounds get"

lemma codec_correct_uptoI:
  assumes "codec_correct put get ok" "\<And>x. ok' x \<Longrightarrow> ok (f x)" "\<And>x. ok' x \<Longrightarrow> put (f x) = put x"
  shows "codec_correct_upto f put get ok'"
proof -
  have "roundtrips put get (f x)" "rejects_truncation put get (f x)" if "ok' x" for x
    using assms(1,2) that by (simp_all add: codec_correct_def)
  then show ?thesis using assms(1,3) by (simp add: codec_correct_def codec_correct_upto_def roundtrips_def rejects_truncation_def)
qed

lemma wf_empty [simp]: "wf_buffer empty_MessageBuffer"
  by (simp add: wf_buffer_def empty_MessageBuffer_def)

lemma rPos_empty [simp]: "rPos (append_bytes bs empty_MessageBuffer) = 0"
    "storage empty_MessageBuffer = []"
  by (simp_all add: append_bytes_def empty_MessageBuffer_def)

lemma roundtripsI: "writes (put x) bs \<Longrightarrow> reads get bs x \<Longrightarrow> roundtrips put get x"
  unfolding roundtrips_def writes_def
  using readsD[of get bs x "append_bytes bs empty_MessageBuffer" "[]" "[]"] by auto

lemma rejects_truncationI:
  assumes "writes (put x) bs" "rejects get bs"
  shows "rejects_truncation put get x"
  unfolding rejects_truncation_def
proof (intro allI impI)
  fix b n
  assume "put x empty_MessageBuffer = Inr b" "n < length (storage b)"
  then have "storage b = bs" "n < length bs"
    using assms(1) by (auto simp: writes_def)
  then show "get (MessageBuffer_of (take n (storage b))) = Inl end_of_buffer"
    by (intro rejectsD[OF assms(2), where pre = "[]" and us = "drop n bs"])
      (auto simp: MessageBuffer_of_def)
qed

lemma in_boundsI: "safe_reader get \<Longrightarrow> in_bounds get"
  unfolding in_bounds_def
proof (intro allI impI)
  fix bs x b
  assume "safe_reader get" and run: "get (MessageBuffer_of bs) = Inr (x, b)"
  from safe_readerD[OF this] obtain n where "b = MessageBuffer_of bs\<lparr>rPos := n\<rparr>" "n \<le> length bs"
    by (auto simp: MessageBuffer_of_def)
  then show "storage b = bs \<and> wPos b = length bs \<and> rPos b \<le> length bs"
    by (simp add: MessageBuffer_of_def)
qed

context wire_codec
begin

lemma fresh: "ok x \<Longrightarrow> roundtrips put get x"
  using roundtripsI[of put x _ get] roundtrip[of x] by auto

lemma bounded: "in_bounds get"
  by (rule in_boundsI[OF safe])

end

locale strict_codec = wire_codec +
  assumes strict: "ok x \<Longrightarrow> writes (put x) bs \<Longrightarrow> rejects get bs"
begin

lemma truncated: "ok x \<Longrightarrow> rejects_truncation put get x"
  using roundtrip[of x] strict[of x] rejects_truncationI[of put x _ get] by auto

lemma correct: "codec_correct put get ok"
  unfolding codec_correct_def using fresh truncated bounded by blast

lemma first_field [codec_field]:
  assumes "ok v" "rt ws (k v) x"
  shows "rt1 (put v # ws) (get_bind get k) x"
proof -
  from assms(1) obtain bs where bs: "bs \<noteq> []" "writes (put v) bs" "reads get bs v" "rejects get bs"
    using roundtrip strict by blast
  from assms(2) obtain cs where cs: "writes (put_all ws) cs" "reads (k v) cs x" "rejects (k v) cs"
    unfolding rt_def by blast
  have "writes (put_all (put v # ws)) (bs @ cs)" using bs cs by (intro writes_Cons)
  moreover have "reads (get_bind get k) (bs @ cs) x" using bs cs by (intro reads_bind)
  moreover have "rejects (get_bind get k) (bs @ cs)" using bs cs by (intro rejects_bind)
  ultimately show ?thesis using bs(1) unfolding rt1_def by blast
qed

lemma field [codec_field]:
  assumes "ok v" "rt ws (k v) x"
  shows "rt (put v # ws) (get_bind get k) x"
  using first_field[of v ws k x] assms unfolding rt_def rt1_def by blast

lemma elements:
  assumes "\<forall>x\<in>set xs. ok x"
  shows "\<exists>bs. length xs \<le> length bs \<and> writes (put_all (map put xs)) bs \<and>
     reads (get_n (length xs) get) bs xs \<and> rejects (get_n (length xs) get) bs"
  using assms
proof (induction xs)
  case Nil
  then show ?case
    by (intro exI[of _ "[]"] conjI) (simp_all add: writes_def reads_return rejects_return)
next
  case (Cons x xs)
  then obtain bs where bs: "bs \<noteq> []" "writes (put x) bs" "reads get bs x" "rejects get bs"
    using roundtrip strict by force
  from Cons obtain cs where cs: "length xs \<le> length cs" "writes (put_all (map put xs)) cs"
      "reads (get_n (length xs) get) cs xs" "rejects (get_n (length xs) get) cs"
    by auto
  have "reads (get_bind (get_n (length xs) get) (\<lambda>xs. get_return (x # xs))) (cs @ []) (x # xs)"
    using cs by (intro reads_bind reads_return) auto
  moreover have "rejects (get_bind (get_n (length xs) get) (\<lambda>xs. get_return (x # xs))) (cs @ [])"
    using cs by (intro rejects_bind rejects_return)
  ultimately have "reads (get_n (length (x # xs)) get) (bs @ cs) (x # xs)"
      "rejects (get_n (length (x # xs)) get) (bs @ cs)"
    using bs by (auto intro!: reads_bind rejects_bind)
  moreover have "writes (put_all (map put (x # xs))) (bs @ cs)"
    using bs cs by (simp add: writes_Cons)
  moreover have "length (x # xs) \<le> length (bs @ cs)" using bs(1) cs(1) by (cases bs) auto
  ultimately show ?case by blast
qed

end

lemma strict_codecI:
  assumes "\<And>x. ok x \<Longrightarrow> rt1 (ws x) get x" "\<And>x. ok x \<Longrightarrow> put x = put_all (ws x)" "safe_reader get"
  shows "strict_codec put get ok"
proof
  fix x
  assume "ok x"
  then show "\<exists>bs. bs \<noteq> [] \<and> writes (put x) bs \<and> reads get bs x"
    using assms(1)[of x] by (auto simp: assms(2) rt1_def)
next
  show "safe_reader get" by fact
next
  fix x bs
  assume "ok x" "writes (put x) bs"
  then show "rejects get bs"
    using assms(1)[of x] by (auto simp: assms(2) rt1_def dest: writes_unique)
qed

section \<open>Elementary types\<close>

lemma strict_codec_int:
  assumes "8 dvd LENGTH('a::len)"
  shows "strict_codec (put_int :: 'a word \<Rightarrow> writer) get_int (\<lambda>_. True)"
proof
  fix w :: "'a word" and bs
  let ?n = "LENGTH('a) div 8"
  have pos: "0 < ?n" using assms by (metis dvd_div_eq_0_iff len_gt_0 not_gr_zero)
  have "reads (get_bind (get_raw ?n) (\<lambda>bs. get_return (of_le_bytes bs :: 'a word)))
      (le_bytes ?n w @ []) w"
    using assms by (intro reads_bind[OF reads_get_raw] reads_return) auto
  then have rd: "reads get_int (le_bytes ?n w) w"
    by (simp add: get_int_def[abs_def] get_bind_def get_return_def reads_def)
  moreover have "le_bytes ?n w \<noteq> []" using pos by (metis length_le_bytes list.size(3) not_gr_zero)
  ultimately show "\<exists>bs. bs \<noteq> [] \<and> writes (put_int w) bs \<and> reads get_int bs w"
    using writes_put_int by blast
  have rj: "rejects (get_int :: 'a word reader) (le_bytes ?n w)"
    using rejects_get_raw[of "le_bytes ?n w" ?n] by (simp add: rejects_def get_int_def)
  assume "writes (put_int w) bs"
  then show "rejects (get_int :: 'a word reader) bs"
    using rj writes_unique[OF writes_put_int] by blast
qed (rule safe_get_int)

interpretation u8: strict_codec "put_int :: u8 \<Rightarrow> writer" get_int "\<lambda>_. True"
  by (rule strict_codec_int) simp

interpretation u16: strict_codec "put_int :: u16 \<Rightarrow> writer" get_int "\<lambda>_. True"
  by (rule strict_codec_int) simp

interpretation u32: strict_codec "put_int :: u32 \<Rightarrow> writer" get_int "\<lambda>_. True"
  by (rule strict_codec_int) simp

interpretation u64: strict_codec "put_int :: u64 \<Rightarrow> writer" get_int "\<lambda>_. True"
  by (rule strict_codec_int) simp

interpretation bool: strict_codec put_bool get_bool "\<lambda>_. True"
proof
  fix t bs
  have rd: "reads get_bool [if t then 1 else 0] t" for t
    by (auto simp: reads_def get_bool_def get_raw_def)
  then show "\<exists>bs. bs \<noteq> [] \<and> writes (put_bool t) bs \<and> reads get_bool bs t"
    unfolding put_bool_def using writes_put_raw by blast
  assume "writes (put_bool t) bs"
  then have "bs = [if t then 1 else 0]"
    unfolding put_bool_def using writes_put_raw writes_unique by blast
  then show "rejects get_bool bs"
    by (auto simp: rejects_def get_bool_def get_raw_def Cons_eq_append_conv split: if_splits)
qed (rule safe_get_bool)

interpretation duration: strict_codec put_duration get_duration "\<lambda>_. True"
  unfolding put_duration_def[abs_def] get_duration_def by (fact u64.strict_codec_axioms)

interpretation pointer: strict_codec put_pointer get_pointer "\<lambda>_. True"
  unfolding put_pointer_def[abs_def] get_pointer_def by (fact u64.strict_codec_axioms)

definition ok_bytes :: "bytes \<Rightarrow> bool" where
  "ok_bytes bs \<longleftrightarrow> length bs \<le> uint32_max"

lemma unat_of_nat_u32: "n \<le> uint32_max \<Longrightarrow> unat (of_nat n :: u32) = n"
  by (simp add: uint32_max_def unat_of_nat)

interpretation bytes: strict_codec put_bytes get_bytes ok_bytes
proof (rule strict_codecI)
  fix bs
  assume "ok_bytes bs"
  then have len: "length bs \<le> uint32_max" by (simp add: ok_bytes_def)
  then show "put_bytes bs = put_all [put_int (of_nat (length bs) :: u32), put_block bs]"
    by (simp add: put_bytes_def fun_eq_iff)
  show "rt1 [put_int (of_nat (length bs) :: u32), put_block bs] get_bytes bs"
    unfolding get_bytes_def by (intro codec_field) (simp_all add: unat_of_nat_u32 len)
qed (rule safe_get_bytes)

definition ok_string :: "string \<Rightarrow> bool" where
  "ok_string s \<longleftrightarrow> length s \<le> uint32_max"

lemma rt_block_map [codec_field]:
  assumes "n = length bs" "f bs = x"
  shows "rt [put_block bs] (get_bind (get_raw n) (\<lambda>bs. get_return (f bs))) x"
proof -
  have "reads (get_bind (get_raw n) (\<lambda>bs. get_return (f bs))) (bs @ []) x"
    using assms by (intro reads_bind[OF reads_get_raw] reads_return) auto
  moreover have "rejects (get_bind (get_raw n) (\<lambda>bs. get_return (f bs))) (bs @ [])"
    using assms by (intro rejects_bind[OF reads_get_raw] rejects_get_raw rejects_return) auto
  ultimately show ?thesis
    using writes_Cons[OF writes_put_block writes_Nil, of bs] unfolding rt_def by blast
qed

lemma char_of_unat_of_char [simp]: "char_of (unat (of_nat (of_char c) :: u8)) = c"
  by (simp add: unat_of_nat)

interpretation string: strict_codec put_string get_string ok_string
proof (rule strict_codecI)
  fix s
  assume "ok_string s"
  then have len: "length s \<le> uint32_max" by (simp add: ok_string_def)
  then show "put_string s = put_all [put_int (of_nat (length s) :: u32),
      put_block (map (\<lambda>c. of_nat (of_char c)) s)]"
    by (simp add: put_string_def fun_eq_iff)
  show "rt1 [put_int (of_nat (length s) :: u32), put_block (map (\<lambda>c. of_nat (of_char c)) s)] get_string s"
    unfolding get_string_def by (intro codec_field) (simp_all add: unat_of_nat_u32 len comp_def)
qed (rule safe_get_string)

text \<open>A fixed-size array of bytes is read back when its length is the declared one.\<close>

lemma array_codec: "0 < n \<Longrightarrow> n \<le> uint32_max \<Longrightarrow> strict_codec put_array (get_array n) (\<lambda>bs. length bs = n)"
proof (rule strict_codecI[where ws = "\<lambda>bs. [put_block bs]"])
  fix bs :: bytes
  assume "0 < n" "n \<le> uint32_max" "length bs = n"
  then show "put_array bs = put_all [put_block bs]"
    by (simp add: put_array_def put_block_def Let_def fun_eq_iff)
  show "rt1 [put_block bs] (get_array n) bs"
    unfolding rt1_def get_array_def using \<open>0 < n\<close> \<open>length bs = n\<close>
    by (intro exI[of _ bs]) (use writes_Cons[OF writes_put_block writes_Nil, of bs] in
      \<open>auto simp: reads_get_raw rejects_get_raw\<close>)
qed (simp_all add: get_array_def safe_raw)

text \<open>
  A time point survives the wire exactly when it is a whole number of microseconds; in general its
  sub-microsecond part is cut off towards zero.
\<close>

definition ok_time_point :: "u64 \<Rightarrow> bool" where
  "ok_time_point t \<longleftrightarrow> 1000 dvd sint t"

lemma to_microseconds_mult:
  "to_microseconds t * 1000 = of_int (sgn (sint t) * (\<bar>sint t\<bar> div 1000) * 1000)"
  by (simp add: to_microseconds_def)

lemma to_microseconds_exact: "ok_time_point t \<Longrightarrow> to_microseconds t * 1000 = t"
proof -
  assume "ok_time_point t"
  then obtain k where k: "sint t = 1000 * k" by (auto simp: ok_time_point_def)
  have "sgn (sint t) * (\<bar>sint t\<bar> div 1000) * 1000 = sint t"
    unfolding k by (cases k rule: linorder_cases[of _ 0]) (auto simp: abs_mult sgn_mult)
  then show ?thesis unfolding to_microseconds_mult by simp
qed

lemma sint_microseconds:
  "sint (to_microseconds t * 1000) = sgn (sint t) * (\<bar>sint t\<bar> div 1000) * 1000"
proof -
  let ?k = "sgn (sint t) * (\<bar>sint t\<bar> div 1000) * 1000"
  have range: "- (2 ^ 63) \<le> sint t" "sint t < 2 ^ 63" using sint_ge[of t] sint_lt[of t] by simp_all
  have "?k = sint t - sgn (sint t) * (\<bar>sint t\<bar> mod 1000)"
    by (cases "sint t" rule: linorder_cases[of _ 0]) (auto simp: minus_mod_eq_mult_div [symmetric] algebra_simps)
  moreover have "0 \<le> \<bar>sint t\<bar> mod 1000" "\<bar>sint t\<bar> mod 1000 \<le> \<bar>sint t\<bar>"
    by (simp_all add: zmod_le_nonneg_dividend)
  ultimately have "- (2 ^ 63) \<le> ?k" "?k < 2 ^ 63"
    using range by (cases "sint t" rule: linorder_cases[of _ 0]; simp)+
  moreover have "sint (word_of_int k :: u64) = k" if "- (2 ^ 63) \<le> k" "k < 2 ^ 63" for k
    using that by (simp add: signed_of_int signed_take_bit_int_eq_self)
  ultimately show ?thesis unfolding to_microseconds_mult by blast
qed

lemma microseconds_error:
  "\<bar>sint t - sint (to_microseconds t * 1000)\<bar> < 1000" "\<bar>sint (to_microseconds t * 1000)\<bar> \<le> \<bar>sint t\<bar>"
  "to_microseconds t * 1000 = t \<longleftrightarrow> ok_time_point t"
proof -
  have eq: "sint t - sint (to_microseconds t * 1000) = sgn (sint t) * (\<bar>sint t\<bar> mod 1000)"
    unfolding sint_microseconds
    by (cases "sint t" rule: linorder_cases[of _ 0]) (auto simp: minus_mult_div_eq_mod [symmetric] algebra_simps)
  have m: "0 \<le> \<bar>sint t\<bar> mod 1000" "\<bar>sint t\<bar> mod 1000 < 1000" by simp_all
  show "\<bar>sint t - sint (to_microseconds t * 1000)\<bar> < 1000"
    unfolding eq using m by (cases "sint t" rule: linorder_cases[of _ 0]) auto
  show "\<bar>sint (to_microseconds t * 1000)\<bar> \<le> \<bar>sint t\<bar>"
    using eq m zmod_le_nonneg_dividend[of "\<bar>sint t\<bar>" 1000]
    by (cases "sint t" rule: linorder_cases[of _ 0]) auto
  have "1000 dvd sint (to_microseconds t * 1000)" unfolding sint_microseconds by simp
  then show "to_microseconds t * 1000 = t \<longleftrightarrow> ok_time_point t"
    using to_microseconds_exact by (metis ok_time_point_def)
qed

text \<open>A time point as it arrives.\<close>

definition whole_microseconds :: "u64 \<Rightarrow> u64" where
  "whole_microseconds t = to_microseconds t * 1000"

lemma ok_whole_microseconds [simp]: "ok_time_point (whole_microseconds t)"
  unfolding ok_time_point_def whole_microseconds_def sint_microseconds by simp

lemma to_microseconds_whole [simp]: "to_microseconds (whole_microseconds t) = to_microseconds t"
proof -
  let ?s = "sgn (sint t)" and ?q = "\<bar>sint t\<bar> div 1000"
  have "sgn (?s * ?q * 1000) * (\<bar>?s * ?q * 1000\<bar> div 1000) = ?s * ?q"
    by (cases "sint t" rule: linorder_cases[of _ 0]; cases "?q = 0") (auto simp: abs_mult sgn_mult sgn_if)
  then show ?thesis unfolding to_microseconds_def[of "whole_microseconds t"] unfolding whole_microseconds_def sint_microseconds
    by (simp add: to_microseconds_def)
qed

lemma whole_microseconds_error: "\<bar>sint t - sint (whole_microseconds t)\<bar> < 1000" "whole_microseconds t = t \<longleftrightarrow> 1000 dvd sint t"
  unfolding whole_microseconds_def by (simp_all add: microseconds_error ok_time_point_def)

lemma time_point_received:
  "\<exists>b. put_time_point t empty_MessageBuffer = Inr b \<and>
     get_time_point b = Inr (to_microseconds t * 1000, b\<lparr>rPos := length (storage b)\<rparr>)"
proof -
  have "rt1 [put_int (to_microseconds t)] get_time_point (to_microseconds t * 1000)"
    unfolding get_time_point_def by (intro codec_field) simp_all
  then obtain bs where "writes (put_all [put_int (to_microseconds t)]) bs"
      "reads get_time_point bs (to_microseconds t * 1000)" by (auto simp: rt1_def)
  moreover have "put_all [put_int (to_microseconds t)] = put_time_point t"
    by (auto simp: put_time_point_def put_int_def put_raw_def Let_def)
  ultimately show ?thesis
    using readsD[of get_time_point bs _ "append_bytes bs empty_MessageBuffer" "[]" "[]"]
    by (auto simp: writes_def)
qed

interpretation time_point: strict_codec put_time_point get_time_point ok_time_point
proof (rule strict_codecI)
  fix t
  assume "ok_time_point t"
  show "put_time_point t = put_all [put_int (to_microseconds t)]"
    by (simp add: put_time_point_def put_int_def put_raw_def Let_def fun_eq_iff)
  show "rt1 [put_int (to_microseconds t)] get_time_point t"
    unfolding get_time_point_def
    by (intro codec_field) (simp_all add: to_microseconds_exact \<open>ok_time_point t\<close>)
qed (unfold get_time_point_def, intro safe_intro)

definition ok_vector :: "('a \<Rightarrow> bool) \<Rightarrow> 'a list \<Rightarrow> bool" where
  "ok_vector ok xs \<longleftrightarrow> length xs \<le> uint32_max \<and> (\<forall>x\<in>set xs. ok x)"

lemma reads_check_left:
  assumes "reads g bs x" "n \<le> length bs"
  shows "reads (get_bind (check_left n) (\<lambda>_. g)) bs x"
  unfolding reads_def
proof (intro allI impI)
  fix b :: MessageBuffer and pre post
  assume "storage b = pre @ bs @ post" "rPos b = length pre"
  then show "get_bind (check_left n) (\<lambda>_. g) b = Inr (x, b\<lparr>rPos := length pre + length bs\<rparr>)"
    using assms(2) readsD[OF assms(1)] by (simp add: get_bind_def check_left_def)
qed

lemma rejects_check_left: "rejects g bs \<Longrightarrow> rejects (get_bind (check_left n) (\<lambda>_. g)) bs"
  unfolding rejects_def get_bind_def check_left_def by simp

context strict_codec
begin

lemma vector_codec: "strict_codec (put_vector put) (get_vector get) (ok_vector ok)"
proof (rule strict_codecI)
  fix xs
  assume "ok_vector ok xs"
  then have len: "length xs \<le> uint32_max" and all: "\<forall>x\<in>set xs. ok x"
    by (auto simp: ok_vector_def)
  then show "put_vector put xs = put_all (put_int (of_nat (length xs) :: u32) # map put xs)"
    by (simp add: put_vector_def fun_eq_iff)
  obtain bs where bs: "length xs \<le> length bs" "writes (put_all (map put xs)) bs"
      "reads (get_n (length xs) get) bs xs" "rejects (get_n (length xs) get) bs"
    using elements[OF all] by blast
  have "rt (map put xs) (get_bind (check_left (length xs)) (\<lambda>_. get_n (length xs) get)) xs"
    unfolding rt_def using bs by (blast intro: reads_check_left rejects_check_left)
  then show "rt1 (put_int (of_nat (length xs) :: u32) # map put xs) (get_vector get) xs"
    unfolding get_vector_def by (intro u32.first_field) (simp_all add: unat_of_nat_u32 len)
qed (rule safe_get_vector[OF safe])

end

interpretation strings: strict_codec "put_vector put_string" "get_vector get_string" "ok_vector ok_string"
  by (rule string.vector_codec)

interpretation string_pair: strict_codec put_string_pair get_string_pair
    "\<lambda>kv. ok_string (fst kv) \<and> ok_string (snd kv)"
  by (rule strict_codecI[where ws = "\<lambda>kv. [put_string (fst kv), put_string (snd kv)]"])
    (auto simp: put_string_pair_def get_string_pair_def intro!: codec_field safe_intro)

definition ok_string_map :: "(string \<times> string) list \<Rightarrow> bool" where
  "ok_string_map m \<longleftrightarrow> length m \<le> uint32_max \<and> sorted_wrt (<) (map fst m) \<and>
     (\<forall>kv\<in>set m. ok_string (fst kv) \<and> ok_string (snd kv))"

lemma map_insert_greater: "\<forall>kv\<in>set m. fst kv < k \<Longrightarrow> map_insert (k, v) m = m @ [(k, v)]"
proof (induction m)
  case Nil
  then show ?case by simp
next
  case (Cons kv m)
  then show ?case by (cases kv) auto
qed

lemma foldl_map_insert:
  "sorted_wrt (<) (map fst (acc @ m)) \<Longrightarrow> foldl (\<lambda>m kv. map_insert kv m) acc m = acc @ m"
proof (induction m arbitrary: acc)
  case Nil
  then show ?case by simp
next
  case (Cons kv m)
  obtain k v where kv: "kv = (k, v)" by (cases kv)
  have "map_insert kv acc = acc @ [kv]"
    using Cons.prems unfolding kv by (intro map_insert_greater) (auto simp: sorted_wrt_append)
  moreover have "sorted_wrt (<) (map fst ((acc @ [kv]) @ m))" using Cons.prems by simp
  ultimately show ?case using Cons.IH[of "acc @ [kv]"] by simp
qed

text \<open>
  Both kinds of map are streamed as a count and that many pairs, and rebuilt by a function that
  checks the count.
\<close>

lemma map_codec:
  assumes "\<And>m. ok m \<Longrightarrow> length m \<le> uint32_max \<and> (\<forall>kv\<in>set m. ok_string (fst kv) \<and> ok_string (snd kv)) \<and>
      rebuild (of_nat (length m)) m = get_return m"
    and "\<And>n kvs. safe_reader (rebuild n kvs)"
  shows "strict_codec (\<lambda>m. put_all (put_int (of_nat (length m) :: u32) # map put_string_pair m))
     (get_bind get_int (\<lambda>n :: u32. get_bind (get_n (unat n) get_string_pair) (rebuild n))) ok"
proof (rule strict_codecI)
  fix m
  assume "ok m"
  with assms(1) have len: "length m \<le> uint32_max"
    and all: "\<forall>kv\<in>set m. ok_string (fst kv) \<and> ok_string (snd kv)"
    and k: "rebuild (of_nat (length m)) m = get_return m" by auto
  obtain bs where bs: "writes (put_all (map put_string_pair m)) bs"
      "reads (get_n (length m) get_string_pair) bs m" "rejects (get_n (length m) get_string_pair) bs"
    using string_pair.elements[OF all] by blast
  let ?n = "of_nat (length m) :: u32" and ?pairs = "get_n (length m) get_string_pair"
  have "reads (get_bind ?pairs (rebuild ?n)) (bs @ []) m"
    using bs by (intro reads_bind[where x = m]) (simp_all add: k reads_return)
  moreover have "rejects (get_bind ?pairs (rebuild ?n)) (bs @ [])"
    using bs by (intro rejects_bind[where x = m]) (simp_all add: k rejects_return)
  ultimately have "rt (map put_string_pair m) (get_bind ?pairs (rebuild ?n)) m"
    unfolding rt_def using bs(1) by (intro exI[of _ bs]) simp
  then show "rt1 (put_int ?n # map put_string_pair m)
      (get_bind get_int (\<lambda>n :: u32. get_bind (get_n (unat n) get_string_pair) (rebuild n))) m"
    by (intro u32.first_field) (simp_all only: unat_of_nat_u32[OF len])
qed (use assms(2) in \<open>auto intro!: safe_intro\<close>)

interpretation string_map: strict_codec put_string_map get_string_map ok_string_map
  unfolding put_string_map_def[abs_def] get_string_map_def
proof (rule map_codec)
  show "safe_reader (map_of_pairs n kvs)" for n kvs
    by (auto simp: map_of_pairs_def Let_def intro: safe_intro)
qed (use foldl_map_insert[of "[]"] in \<open>auto simp: ok_string_map_def map_of_pairs_def unat_of_nat_u32 Let_def\<close>)

definition ok_string_unordered_map :: "(string \<times> string) list \<Rightarrow> bool" where
  "ok_string_unordered_map m \<longleftrightarrow> length m \<le> uint32_max \<and> distinct (map fst m) \<and>
     (\<forall>kv\<in>set m. ok_string (fst kv) \<and> ok_string (snd kv))"

lemma update_fresh: "k \<notin> fst ` set m \<Longrightarrow> AList.update k v m = m @ [(k, v)]"
  by (induction m) auto

lemma foldl_update:
  "distinct (map fst (acc @ m)) \<Longrightarrow>
     foldl (\<lambda>m kv. AList.update (fst kv) (snd kv) m) acc m = acc @ m"
proof (induction m arbitrary: acc)
  case Nil
  then show ?case by simp
next
  case (Cons kv m)
  have "AList.update (fst kv) (snd kv) acc = acc @ [kv]"
    using Cons.prems by (subst update_fresh) auto
  moreover have "distinct (map fst ((acc @ [kv]) @ m))" using Cons.prems by simp
  ultimately show ?case using Cons.IH[of "acc @ [kv]"] by simp
qed

interpretation string_unordered_map:
  strict_codec put_string_unordered_map get_string_unordered_map ok_string_unordered_map
  unfolding put_string_unordered_map_def[abs_def] get_string_unordered_map_def
proof (rule map_codec)
  show "safe_reader (unordered_map_of_pairs n kvs)" for n kvs
    by (auto simp: unordered_map_of_pairs_def Let_def intro: safe_intro)
qed (use foldl_update[of "[] :: (string \<times> string) list"] in
    \<open>auto simp: ok_string_unordered_map_def unordered_map_of_pairs_def unat_of_nat_u32 Let_def\<close>)

text \<open>
  The rule for messages: a message whose writer streams the fields \<open>ws\<close> in order satisfies the
  contract when the reader takes the fields in the same order and is safe.
\<close>

lemma messageI:
  assumes "\<And>x. put x = put_all (ws x)" "\<And>x. ok x \<Longrightarrow> rt1 (ws x) get x" "safe_reader get"
  shows "strict_codec put get ok"
  using assms by (intro strict_codecI)

interpretation Uuid: strict_codec put_Uuid get_Uuid "\<lambda>_. True"
  by (rule messageI[OF put_Uuid_def]; unfold get_Uuid_def)
    (intro codec_field safe_intro; simp)+


section \<open>Fields added in later releases\<close>

text \<open>
  Some messages grew a last field. Its reader looks whether bytes are left and keeps the default of
  the field when an older peer did not send it. Such a message satisfies \<open>wire_codec\<close> but is not
  strict: cut exactly before the new field it is accepted, with the default.
\<close>

definition get_if_left :: "nat \<Rightarrow> 'a \<Rightarrow> 'a reader \<Rightarrow> 'a reader" where
  "get_if_left n d g b = (if n \<le> RemainingBytesLeft b then g b else Inr (d, b))"

lemma safe_if_left [safe_intro]: "safe_reader g \<Longrightarrow> safe_reader (get_if_left n d g)"
  by (auto simp: safe_reader_def get_if_left_def split: if_splits intro!: exI[of _ 0])

text \<open>
  \<open>rtn ws g x\<close>: as \<open>rt\<close>, without the refusal of truncated input. \<open>rt_end ws g x\<close>: the reader returns
  \<open>x\<close> when the bytes written by \<open>ws\<close> are the last ones of the buffer.
\<close>

named_theorems tail_field \<open>composition rules for messages with optional last fields\<close>

definition rtn :: "writer list \<Rightarrow> 'a reader \<Rightarrow> 'a \<Rightarrow> bool" where
  "rtn ws g x \<longleftrightarrow> (\<exists>bs. writes (put_all ws) bs \<and> reads g bs x)"

definition rtn1 :: "writer list \<Rightarrow> 'a reader \<Rightarrow> 'a \<Rightarrow> bool" where
  "rtn1 ws g x \<longleftrightarrow> (\<exists>bs. bs \<noteq> [] \<and> writes (put_all ws) bs \<and> reads g bs x)"

definition reads_end :: "'a reader \<Rightarrow> bytes \<Rightarrow> 'a \<Rightarrow> bool" where
  "reads_end g bs x \<longleftrightarrow> (\<forall>b pre. storage b = pre @ bs \<longrightarrow> rPos b = length pre \<longrightarrow>
     g b = Inr (x, b\<lparr>rPos := length pre + length bs\<rparr>))"

definition rt_end :: "writer list \<Rightarrow> 'a reader \<Rightarrow> 'a \<Rightarrow> bool" where
  "rt_end ws g x \<longleftrightarrow> (\<exists>bs. writes (put_all ws) bs \<and> reads_end g bs x)"

lemma rtn_Nil [tail_field]: "y = x \<Longrightarrow> rtn [] (get_return y) x"
  using rt_Nil[of y x] unfolding rt_def rtn_def by blast

lemma rt_end_Nil [tail_field]: "y = x \<Longrightarrow> rt_end [] (get_return y) x"
  unfolding rt_end_def reads_end_def
  by (intro exI[of _ "[]"]) (auto simp: writes_Nil get_return_def)

lemma rt_end_default [tail_field]:
  assumes "0 < n" "rt_end [] (k d) x"
  shows "rt_end [] (get_bind (get_if_left n d g) k) x"
proof -
  from assms(2) obtain bs where "writes (put_all []) bs" "reads_end (k d) bs x"
    by (auto simp: rt_end_def)
  moreover from this(1) have "bs = []" using writes_Nil writes_unique by blast
  ultimately have "reads_end (get_bind (get_if_left n d g) k) [] x"
    using assms(1) by (auto simp: reads_end_def get_bind_def get_if_left_def RemainingBytesLeft_def)
  then show ?thesis using writes_Nil by (auto simp: rt_end_def)
qed

lemma reads_bind_end:
  assumes "reads g bs x" "reads_end (k x) cs y"
  shows "reads_end (get_bind g k) (bs @ cs) y"
  unfolding reads_end_def
proof (intro allI impI)
  fix b :: MessageBuffer and pre
  assume st: "storage b = pre @ (bs @ cs)" and rp: "rPos b = length pre"
  let ?b = "b\<lparr>rPos := length pre + length bs\<rparr>"
  have "g b = Inr (x, ?b)"
    using st rp by (intro readsD[OF assms(1)]) auto
  moreover have "k x ?b = Inr (y, ?b\<lparr>rPos := length (pre @ bs) + length cs\<rparr>)"
    using st assms(2)[unfolded reads_end_def, rule_format, of ?b "pre @ bs"] by simp
  ultimately show "get_bind g k b = Inr (y, b\<lparr>rPos := length pre + length (bs @ cs)\<rparr>)"
    by (simp add: get_bind_def add.assoc)
qed

lemma reads_if_left: "reads g bs x \<Longrightarrow> n \<le> length bs \<Longrightarrow> reads (get_if_left n d g) bs x"
  by (auto simp: reads_def get_if_left_def RemainingBytesLeft_def)

context wire_codec
begin

lemma first_field_n [tail_field]:
  assumes "ok v" "rtn ws (k v) x"
  shows "rtn1 (put v # ws) (get_bind get k) x"
proof -
  from assms(1) obtain bs where bs: "bs \<noteq> []" "writes (put v) bs" "reads get bs v"
    using roundtrip by blast
  from assms(2) obtain cs where cs: "writes (put_all ws) cs" "reads (k v) cs x"
    unfolding rtn_def by blast
  show ?thesis
    unfolding rtn1_def using bs cs by (intro exI[of _ "bs @ cs"]) (auto intro: writes_Cons reads_bind)
qed

lemma field_n [tail_field]:
  assumes "ok v" "rtn ws (k v) x"
  shows "rtn (put v # ws) (get_bind get k) x"
  using first_field_n[where v = v and k = k and x = x, OF assms] unfolding rtn_def rtn1_def by blast

lemma field_end [tail_field]:
  assumes "ok v" "rt_end ws (k v) x"
  shows "rt_end (put v # ws) (get_bind get k) x"
proof -
  from assms(1) obtain bs where bs: "writes (put v) bs" "reads get bs v" using roundtrip by blast
  from assms(2) obtain cs where cs: "writes (put_all ws) cs" "reads_end (k v) cs x"
    unfolding rt_end_def by blast
  show ?thesis unfolding rt_end_def using bs cs by (intro exI[of _ "bs @ cs"]) (auto intro: writes_Cons reads_bind_end)
qed

lemma field_if_left [tail_field]:
  assumes "ok v" "rtn ws (k v) x" "n \<le> 1"
  shows "rtn (put v # ws) (get_bind (get_if_left n d get) k) x"
proof -
  from assms(1) obtain bs where bs: "bs \<noteq> []" "writes (put v) bs" "reads get bs v"
    using roundtrip by blast
  then have "n \<le> length bs" using assms(3) by (cases bs) auto
  then have "reads (get_if_left n d get) bs v" using bs by (intro reads_if_left)
  moreover from assms(2) obtain cs where cs: "writes (put_all ws) cs" "reads (k v) cs x"
    unfolding rtn_def by blast
  ultimately show ?thesis
    unfolding rtn_def using bs cs by (intro exI[of _ "bs @ cs"]) (auto intro: writes_Cons reads_bind)
qed

end

lemma rt_endD:
  assumes "rt_end ws g x"
  shows "\<exists>b. put_all ws empty_MessageBuffer = Inr b \<and> g b = Inr (x, b\<lparr>rPos := length (storage b)\<rparr>)"
proof -
  from assms obtain bs where bs: "writes (put_all ws) bs" "reads_end g bs x" by (auto simp: rt_end_def)
  then show ?thesis
    unfolding writes_def reads_end_def
    by (intro exI[of _ "append_bytes bs empty_MessageBuffer"] conjI) simp_all
qed

lemma growing_messageI:
  assumes "\<And>x. put x = put_all (ws x)" "\<And>x. ok x \<Longrightarrow> rtn1 (ws x) get x" "safe_reader get"
  shows "wire_codec put get ok"
  using assms by unfold_locales (auto simp: rtn1_def)

end
