(* ===== verification/Bus_Messages.thy ===== *)
theory Bus_Messages
  imports Wire_Codec
begin

text \<open>
  The messages of the four bus services with their serialisers: CAN (services/can/CanSerdes.cpp),
  Ethernet (services/ethernet/EthernetSerdes.cpp), LIN (services/lin/LinSerdes.cpp) and FlexRay
  (services/flexray/FlexraySerdes.cpp). Each structure of wire/ and include/silkit/services is a
  record, the enumerations are integers of their underlying type (any value of which may arrive),
  \<open>put_T\<close> and \<open>get_T\<close> are the streaming operators, \<open>ok_T\<close> says which values fit into the length
  fields, and the interpretation \<open>T: strict_codec\<close> discharges the contract of a serialiser.
\<close>

section \<open>CAN\<close>

record WireCanFrame =
  cf_canId :: u32
  cf_flags :: u32
  cf_dlc :: u16
  cf_sdt :: u8
  cf_vcid :: u8
  cf_af :: u32
  cf_dataField :: bytes

record WireCanFrameEvent =
  cfe_timestamp :: u64
  cfe_frame :: WireCanFrame
  cfe_direction :: u8
  cfe_userContext :: u64

definition put_WireCanFrameEvent :: "WireCanFrameEvent \<Rightarrow> writer" where
  "put_WireCanFrameEvent msg = put_all
     [put_duration (cfe_timestamp msg), put_int (cf_canId (cfe_frame msg)),
      put_int (cf_flags (cfe_frame msg)), put_int (cf_dlc (cfe_frame msg)),
      put_int (cf_sdt (cfe_frame msg)), put_int (cf_vcid (cfe_frame msg)),
      put_int (cf_af (cfe_frame msg)), put_bytes (cf_dataField (cfe_frame msg)),
      put_int (cfe_direction msg), put_pointer (cfe_userContext msg)]"

definition get_WireCanFrameEvent :: "WireCanFrameEvent reader" where
  "get_WireCanFrameEvent =
     get_bind get_duration (\<lambda>timestamp. get_bind get_int (\<lambda>canId :: u32.
     get_bind get_int (\<lambda>flags :: u32. get_bind get_int (\<lambda>dlc :: u16.
     get_bind get_int (\<lambda>sdt :: u8. get_bind get_int (\<lambda>vcid :: u8.
     get_bind get_int (\<lambda>af :: u32. get_bind get_bytes (\<lambda>dataField.
     get_bind get_int (\<lambda>direction :: u8. get_bind get_pointer (\<lambda>userContext.
     get_return \<lparr>cfe_timestamp = timestamp, cfe_frame = \<lparr>cf_canId = canId,
       cf_flags = flags, cf_dlc = dlc, cf_sdt = sdt, cf_vcid = vcid, cf_af = af,
       cf_dataField = dataField\<rparr>, cfe_direction = direction,
       cfe_userContext = userContext\<rparr>))))))))))"

definition ok_WireCanFrameEvent :: "WireCanFrameEvent \<Rightarrow> bool" where
  "ok_WireCanFrameEvent msg \<longleftrightarrow>
     ok_bytes (cf_dataField (cfe_frame msg))"

interpretation WireCanFrameEvent: strict_codec put_WireCanFrameEvent get_WireCanFrameEvent ok_WireCanFrameEvent
  by (rule messageI[OF put_WireCanFrameEvent_def]; unfold get_WireCanFrameEvent_def)
    (intro codec_field safe_intro; simp add: ok_WireCanFrameEvent_def)+

record CanFrameTransmitEvent =
  cte_canId :: u32
  cte_timestamp :: u64
  cte_status :: u32
  cte_userContext :: u64

definition put_CanFrameTransmitEvent :: "CanFrameTransmitEvent \<Rightarrow> writer" where
  "put_CanFrameTransmitEvent ack = put_all
     [put_int (cte_canId ack), put_duration (cte_timestamp ack), put_int (cte_status ack),
      put_pointer (cte_userContext ack)]"

definition get_CanFrameTransmitEvent :: "CanFrameTransmitEvent reader" where
  "get_CanFrameTransmitEvent =
     get_bind get_int (\<lambda>canId :: u32. get_bind get_duration (\<lambda>timestamp.
     get_bind get_int (\<lambda>status :: u32. get_bind get_pointer (\<lambda>userContext.
     get_return \<lparr>cte_canId = canId, cte_timestamp = timestamp, cte_status = status,
       cte_userContext = userContext\<rparr>))))"

interpretation CanFrameTransmitEvent: strict_codec put_CanFrameTransmitEvent get_CanFrameTransmitEvent "\<lambda>_. True"
  by (rule messageI[OF put_CanFrameTransmitEvent_def]; unfold get_CanFrameTransmitEvent_def)
    (intro codec_field safe_intro; simp)+

record CanControllerStatus =
  ccs_timestamp :: u64
  ccs_controllerState :: u32
  ccs_errorState :: u32

definition put_CanControllerStatus :: "CanControllerStatus \<Rightarrow> writer" where
  "put_CanControllerStatus msg = put_all
     [put_duration (ccs_timestamp msg), put_int (ccs_controllerState msg),
      put_int (ccs_errorState msg)]"

definition get_CanControllerStatus :: "CanControllerStatus reader" where
  "get_CanControllerStatus =
     get_bind get_duration (\<lambda>timestamp.
     get_bind get_int (\<lambda>controllerState :: u32.
     get_bind get_int (\<lambda>errorState :: u32.
     get_return \<lparr>ccs_timestamp = timestamp, ccs_controllerState = controllerState,
       ccs_errorState = errorState\<rparr>)))"

interpretation CanControllerStatus: strict_codec put_CanControllerStatus get_CanControllerStatus "\<lambda>_. True"
  by (rule messageI[OF put_CanControllerStatus_def]; unfold get_CanControllerStatus_def)
    (intro codec_field safe_intro; simp)+

record CanConfigureBaudrate =
  ccb_baudRate :: u32
  ccb_fdBaudRate :: u32
  ccb_xlBaudRate :: u32

definition put_CanConfigureBaudrate :: "CanConfigureBaudrate \<Rightarrow> writer" where
  "put_CanConfigureBaudrate msg = put_all
     [put_int (ccb_baudRate msg), put_int (ccb_fdBaudRate msg), put_int (ccb_xlBaudRate msg)]"

definition get_CanConfigureBaudrate :: "CanConfigureBaudrate reader" where
  "get_CanConfigureBaudrate =
     get_bind get_int (\<lambda>baudRate :: u32. get_bind get_int (\<lambda>fdBaudRate :: u32.
     get_bind get_int (\<lambda>xlBaudRate :: u32.
     get_return \<lparr>ccb_baudRate = baudRate, ccb_fdBaudRate = fdBaudRate,
       ccb_xlBaudRate = xlBaudRate\<rparr>)))"

interpretation CanConfigureBaudrate: strict_codec put_CanConfigureBaudrate get_CanConfigureBaudrate "\<lambda>_. True"
  by (rule messageI[OF put_CanConfigureBaudrate_def]; unfold get_CanConfigureBaudrate_def)
    (intro codec_field safe_intro; simp)+

text \<open>The two one-bit flags of \<^verbatim>\<open>CanSetControllerMode\<close> are copied as the byte that holds them.\<close>

record CanSetControllerMode =
  csm_flags :: u8
  csm_mode :: u32

definition put_CanSetControllerMode :: "CanSetControllerMode \<Rightarrow> writer" where
  "put_CanSetControllerMode msg = put_all
     [put_int (csm_flags msg), put_int (csm_mode msg)]"

definition get_CanSetControllerMode :: "CanSetControllerMode reader" where
  "get_CanSetControllerMode =
     get_bind get_int (\<lambda>flags :: u8. get_bind get_int (\<lambda>mode :: u32.
     get_return \<lparr>csm_flags = flags, csm_mode = mode\<rparr>))"

interpretation CanSetControllerMode: strict_codec put_CanSetControllerMode get_CanSetControllerMode "\<lambda>_. True"
  by (rule messageI[OF put_CanSetControllerMode_def]; unfold get_CanSetControllerMode_def)
    (intro codec_field safe_intro; simp)+

section \<open>Ethernet\<close>

record WireEthernetFrame =
  ef_raw :: bytes

definition put_WireEthernetFrame :: "WireEthernetFrame \<Rightarrow> writer" where
  "put_WireEthernetFrame msg = put_all
     [put_bytes (ef_raw msg)]"

definition get_WireEthernetFrame :: "WireEthernetFrame reader" where
  "get_WireEthernetFrame =
     get_bind get_bytes (\<lambda>raw.
     get_return \<lparr>ef_raw = raw\<rparr>)"

definition ok_WireEthernetFrame :: "WireEthernetFrame \<Rightarrow> bool" where
  "ok_WireEthernetFrame msg \<longleftrightarrow>
     ok_bytes (ef_raw msg)"

interpretation WireEthernetFrame: strict_codec put_WireEthernetFrame get_WireEthernetFrame ok_WireEthernetFrame
  by (rule messageI[OF put_WireEthernetFrame_def]; unfold get_WireEthernetFrame_def)
    (intro codec_field safe_intro; simp add: ok_WireEthernetFrame_def)+

record WireEthernetFrameEvent =
  efe_timestamp :: u64
  efe_frame :: WireEthernetFrame
  efe_direction :: u8
  efe_userContext :: u64

definition put_WireEthernetFrameEvent :: "WireEthernetFrameEvent \<Rightarrow> writer" where
  "put_WireEthernetFrameEvent msg = put_all
     [put_duration (efe_timestamp msg), put_WireEthernetFrame (efe_frame msg),
      put_int (efe_direction msg), put_pointer (efe_userContext msg)]"

definition get_WireEthernetFrameEvent :: "WireEthernetFrameEvent reader" where
  "get_WireEthernetFrameEvent =
     get_bind get_duration (\<lambda>timestamp. get_bind get_WireEthernetFrame (\<lambda>frame.
     get_bind get_int (\<lambda>direction :: u8. get_bind get_pointer (\<lambda>userContext.
     get_return \<lparr>efe_timestamp = timestamp, efe_frame = frame,
       efe_direction = direction, efe_userContext = userContext\<rparr>))))"

definition ok_WireEthernetFrameEvent :: "WireEthernetFrameEvent \<Rightarrow> bool" where
  "ok_WireEthernetFrameEvent msg \<longleftrightarrow>
     ok_WireEthernetFrame (efe_frame msg)"

interpretation WireEthernetFrameEvent: strict_codec put_WireEthernetFrameEvent get_WireEthernetFrameEvent ok_WireEthernetFrameEvent
  by (rule messageI[OF put_WireEthernetFrameEvent_def]; unfold get_WireEthernetFrameEvent_def)
    (intro codec_field safe_intro; simp add: ok_WireEthernetFrameEvent_def)+

record EthernetFrameTransmitEvent =
  ete_timestamp :: u64
  ete_status :: u32
  ete_userContext :: u64

definition put_EthernetFrameTransmitEvent :: "EthernetFrameTransmitEvent \<Rightarrow> writer" where
  "put_EthernetFrameTransmitEvent ack = put_all
     [put_duration (ete_timestamp ack), put_int (ete_status ack),
      put_pointer (ete_userContext ack)]"

definition get_EthernetFrameTransmitEvent :: "EthernetFrameTransmitEvent reader" where
  "get_EthernetFrameTransmitEvent =
     get_bind get_duration (\<lambda>timestamp. get_bind get_int (\<lambda>status :: u32.
     get_bind get_pointer (\<lambda>userContext.
     get_return \<lparr>ete_timestamp = timestamp, ete_status = status,
       ete_userContext = userContext\<rparr>)))"

interpretation EthernetFrameTransmitEvent: strict_codec put_EthernetFrameTransmitEvent get_EthernetFrameTransmitEvent "\<lambda>_. True"
  by (rule messageI[OF put_EthernetFrameTransmitEvent_def]; unfold get_EthernetFrameTransmitEvent_def)
    (intro codec_field safe_intro; simp)+

record EthernetStatus =
  es_timestamp :: u64
  es_state :: u32
  es_bitrate :: u32

definition put_EthernetStatus :: "EthernetStatus \<Rightarrow> writer" where
  "put_EthernetStatus msg = put_all
     [put_duration (es_timestamp msg), put_int (es_state msg), put_int (es_bitrate msg)]"

definition get_EthernetStatus :: "EthernetStatus reader" where
  "get_EthernetStatus =
     get_bind get_duration (\<lambda>timestamp. get_bind get_int (\<lambda>state :: u32.
     get_bind get_int (\<lambda>bitrate :: u32.
     get_return \<lparr>es_timestamp = timestamp, es_state = state,
       es_bitrate = bitrate\<rparr>)))"

interpretation EthernetStatus: strict_codec put_EthernetStatus get_EthernetStatus "\<lambda>_. True"
  by (rule messageI[OF put_EthernetStatus_def]; unfold get_EthernetStatus_def)
    (intro codec_field safe_intro; simp)+

record EthernetSetMode =
  esm_mode :: u8

definition put_EthernetSetMode :: "EthernetSetMode \<Rightarrow> writer" where
  "put_EthernetSetMode msg = put_all
     [put_int (esm_mode msg)]"

definition get_EthernetSetMode :: "EthernetSetMode reader" where
  "get_EthernetSetMode =
     get_bind get_int (\<lambda>mode :: u8.
     get_return \<lparr>esm_mode = mode\<rparr>)"

interpretation EthernetSetMode: strict_codec put_EthernetSetMode get_EthernetSetMode "\<lambda>_. True"
  by (rule messageI[OF put_EthernetSetMode_def]; unfold get_EthernetSetMode_def)
    (intro codec_field safe_intro; simp)+

text \<open>
  Frames are padded with zeros to the minimum size of 60 bytes when they enter the library
  (\<^verbatim>\<open>MakeWireEthernetFrame\<close>, through the padding constructor of \<^verbatim>\<open>Util::SharedVector\<close>).
\<close>

definition SharedVector_padded :: "bytes \<Rightarrow> nat \<Rightarrow> bytes" where
  "SharedVector_padded span minimumSize =
     resize (max (length span) minimumSize) 0 span"

definition MakeWireEthernetFrame :: "bytes \<Rightarrow> WireEthernetFrame" where
  "MakeWireEthernetFrame raw = \<lparr>ef_raw = SharedVector_padded raw 60\<rparr>"

definition ToEthernetFrame :: "WireEthernetFrame \<Rightarrow> bytes" where
  "ToEthernetFrame frame = ef_raw frame"

section \<open>LIN\<close>

interpretation lin_data: strict_codec put_array "get_array 8" "\<lambda>bs. length bs = 8"
  by (rule array_codec) (simp_all add: uint32_max_def)

record LinFrame =
  lf_id :: u8
  lf_checksumModel :: u8
  lf_dataLength :: u8
  lf_data :: bytes

definition put_LinFrame :: "LinFrame \<Rightarrow> writer" where
  "put_LinFrame frame = put_all
     [put_int (lf_id frame), put_int (lf_checksumModel frame), put_int (lf_dataLength frame),
      put_array (lf_data frame)]"

definition get_LinFrame :: "LinFrame reader" where
  "get_LinFrame =
     get_bind get_int (\<lambda>id :: u8. get_bind get_int (\<lambda>checksumModel :: u8.
     get_bind get_int (\<lambda>dataLength :: u8. get_bind (get_array 8) (\<lambda>data.
     get_return \<lparr>lf_id = id, lf_checksumModel = checksumModel,
       lf_dataLength = dataLength, lf_data = data\<rparr>))))"

definition ok_LinFrame :: "LinFrame \<Rightarrow> bool" where
  "ok_LinFrame frame \<longleftrightarrow>
     length (lf_data frame) = 8"

interpretation LinFrame: strict_codec put_LinFrame get_LinFrame ok_LinFrame
  by (rule messageI[OF put_LinFrame_def]; unfold get_LinFrame_def)
    (intro codec_field safe_intro; simp add: ok_LinFrame_def)+

record LinSendFrameRequest =
  lsf_frame :: LinFrame
  lsf_responseType :: u8

definition put_LinSendFrameRequest :: "LinSendFrameRequest \<Rightarrow> writer" where
  "put_LinSendFrameRequest req = put_all
     [put_LinFrame (lsf_frame req), put_int (lsf_responseType req)]"

definition get_LinSendFrameRequest :: "LinSendFrameRequest reader" where
  "get_LinSendFrameRequest =
     get_bind get_LinFrame (\<lambda>frame. get_bind get_int (\<lambda>responseType :: u8.
     get_return \<lparr>lsf_frame = frame, lsf_responseType = responseType\<rparr>))"

definition ok_LinSendFrameRequest :: "LinSendFrameRequest \<Rightarrow> bool" where
  "ok_LinSendFrameRequest req \<longleftrightarrow>
     ok_LinFrame (lsf_frame req)"

interpretation LinSendFrameRequest: strict_codec put_LinSendFrameRequest get_LinSendFrameRequest ok_LinSendFrameRequest
  by (rule messageI[OF put_LinSendFrameRequest_def]; unfold get_LinSendFrameRequest_def)
    (intro codec_field safe_intro; simp add: ok_LinSendFrameRequest_def)+

record LinSendFrameHeaderRequest =
  lsh_timestamp :: u64
  lsh_id :: u8

definition put_LinSendFrameHeaderRequest :: "LinSendFrameHeaderRequest \<Rightarrow> writer" where
  "put_LinSendFrameHeaderRequest header = put_all
     [put_duration (lsh_timestamp header), put_int (lsh_id header)]"

definition get_LinSendFrameHeaderRequest :: "LinSendFrameHeaderRequest reader" where
  "get_LinSendFrameHeaderRequest =
     get_bind get_duration (\<lambda>timestamp. get_bind get_int (\<lambda>id :: u8.
     get_return \<lparr>lsh_timestamp = timestamp, lsh_id = id\<rparr>))"

interpretation LinSendFrameHeaderRequest: strict_codec put_LinSendFrameHeaderRequest get_LinSendFrameHeaderRequest "\<lambda>_. True"
  by (rule messageI[OF put_LinSendFrameHeaderRequest_def]; unfold get_LinSendFrameHeaderRequest_def)
    (intro codec_field safe_intro; simp)+

record LinTransmission =
  lt_timestamp :: u64
  lt_frame :: LinFrame
  lt_status :: u8

definition put_LinTransmission :: "LinTransmission \<Rightarrow> writer" where
  "put_LinTransmission transmission = put_all
     [put_duration (lt_timestamp transmission), put_LinFrame (lt_frame transmission),
      put_int (lt_status transmission)]"

definition get_LinTransmission :: "LinTransmission reader" where
  "get_LinTransmission =
     get_bind get_duration (\<lambda>timestamp. get_bind get_LinFrame (\<lambda>frame.
     get_bind get_int (\<lambda>status :: u8.
     get_return \<lparr>lt_timestamp = timestamp, lt_frame = frame, lt_status = status\<rparr>)))"

definition ok_LinTransmission :: "LinTransmission \<Rightarrow> bool" where
  "ok_LinTransmission transmission \<longleftrightarrow>
     ok_LinFrame (lt_frame transmission)"

interpretation LinTransmission: strict_codec put_LinTransmission get_LinTransmission ok_LinTransmission
  by (rule messageI[OF put_LinTransmission_def]; unfold get_LinTransmission_def)
    (intro codec_field safe_intro; simp add: ok_LinTransmission_def)+

record LinWakeupPulse =
  lwp_timestamp :: u64
  lwp_direction :: u8

definition put_LinWakeupPulse :: "LinWakeupPulse \<Rightarrow> writer" where
  "put_LinWakeupPulse pulse = put_all
     [put_duration (lwp_timestamp pulse), put_int (lwp_direction pulse)]"

definition get_LinWakeupPulse :: "LinWakeupPulse reader" where
  "get_LinWakeupPulse =
     get_bind get_duration (\<lambda>timestamp. get_bind get_int (\<lambda>direction :: u8.
     get_return \<lparr>lwp_timestamp = timestamp, lwp_direction = direction\<rparr>))"

interpretation LinWakeupPulse: strict_codec put_LinWakeupPulse get_LinWakeupPulse "\<lambda>_. True"
  by (rule messageI[OF put_LinWakeupPulse_def]; unfold get_LinWakeupPulse_def)
    (intro codec_field safe_intro; simp)+

record LinFrameResponse =
  lfr_frame :: LinFrame
  lfr_responseMode :: u8

definition put_LinFrameResponse :: "LinFrameResponse \<Rightarrow> writer" where
  "put_LinFrameResponse response = put_all
     [put_LinFrame (lfr_frame response), put_int (lfr_responseMode response)]"

definition get_LinFrameResponse :: "LinFrameResponse reader" where
  "get_LinFrameResponse =
     get_bind get_LinFrame (\<lambda>frame. get_bind get_int (\<lambda>responseMode :: u8.
     get_return \<lparr>lfr_frame = frame, lfr_responseMode = responseMode\<rparr>))"

definition ok_LinFrameResponse :: "LinFrameResponse \<Rightarrow> bool" where
  "ok_LinFrameResponse response \<longleftrightarrow>
     ok_LinFrame (lfr_frame response)"

interpretation LinFrameResponse: strict_codec put_LinFrameResponse get_LinFrameResponse ok_LinFrameResponse
  by (rule messageI[OF put_LinFrameResponse_def]; unfold get_LinFrameResponse_def)
    (intro codec_field safe_intro; simp add: ok_LinFrameResponse_def)+

interpretation LinFrameResponse_vector: strict_codec "put_vector put_LinFrameResponse" "get_vector get_LinFrameResponse"
    "ok_vector ok_LinFrameResponse"
  by (rule LinFrameResponse.vector_codec)

record WireLinControllerConfig =
  lcc_controllerMode :: u8
  lcc_baudRate :: u32
  lcc_frameResponses :: "LinFrameResponse list"
  lcc_simulationMode :: u8

definition put_WireLinControllerConfig :: "WireLinControllerConfig \<Rightarrow> writer" where
  "put_WireLinControllerConfig config = put_all
     [put_int (lcc_controllerMode config), put_int (lcc_baudRate config),
      put_vector put_LinFrameResponse (lcc_frameResponses config),
      put_int (lcc_simulationMode config)]"

definition get_WireLinControllerConfig :: "WireLinControllerConfig reader" where
  "get_WireLinControllerConfig =
     get_bind get_int (\<lambda>controllerMode :: u8.
     get_bind get_int (\<lambda>baudRate :: u32.
     get_bind (get_vector get_LinFrameResponse) (\<lambda>frameResponses.
     get_bind (get_if_left 1 0 get_int) (\<lambda>simulationMode :: u8.
     get_return \<lparr>lcc_controllerMode = controllerMode, lcc_baudRate = baudRate,
       lcc_frameResponses = frameResponses, lcc_simulationMode = simulationMode\<rparr>))))"

definition ok_WireLinControllerConfig :: "WireLinControllerConfig \<Rightarrow> bool" where
  "ok_WireLinControllerConfig config \<longleftrightarrow>
     ok_vector ok_LinFrameResponse (lcc_frameResponses config)"

interpretation WireLinControllerConfig: wire_codec put_WireLinControllerConfig get_WireLinControllerConfig ok_WireLinControllerConfig
  by (rule growing_messageI[OF put_WireLinControllerConfig_def]; unfold get_WireLinControllerConfig_def)
    (intro tail_field safe_intro; simp add: ok_WireLinControllerConfig_def)+

lemma WireLinControllerConfig_legacy:
  assumes "ok_WireLinControllerConfig config"
  shows "rt_end
     [put_int (lcc_controllerMode config), put_int (lcc_baudRate config),
      put_vector put_LinFrameResponse (lcc_frameResponses config)]
     get_WireLinControllerConfig (config\<lparr>lcc_simulationMode := 0\<rparr>)"
  using assms unfolding get_WireLinControllerConfig_def ok_WireLinControllerConfig_def
  by (intro tail_field) simp_all

record LinControllerStatusUpdate =
  lcs_timestamp :: u64
  lcs_status :: u32

definition put_LinControllerStatusUpdate :: "LinControllerStatusUpdate \<Rightarrow> writer" where
  "put_LinControllerStatusUpdate msg = put_all
     [put_duration (lcs_timestamp msg), put_int (lcs_status msg)]"

definition get_LinControllerStatusUpdate :: "LinControllerStatusUpdate reader" where
  "get_LinControllerStatusUpdate =
     get_bind get_duration (\<lambda>timestamp. get_bind get_int (\<lambda>status :: u32.
     get_return \<lparr>lcs_timestamp = timestamp, lcs_status = status\<rparr>))"

interpretation LinControllerStatusUpdate: strict_codec put_LinControllerStatusUpdate get_LinControllerStatusUpdate "\<lambda>_. True"
  by (rule messageI[OF put_LinControllerStatusUpdate_def]; unfold get_LinControllerStatusUpdate_def)
    (intro codec_field safe_intro; simp)+

record LinFrameResponseUpdate =
  lfu_frameResponses :: "LinFrameResponse list"

definition put_LinFrameResponseUpdate :: "LinFrameResponseUpdate \<Rightarrow> writer" where
  "put_LinFrameResponseUpdate update = put_all
     [put_vector put_LinFrameResponse (lfu_frameResponses update)]"

definition get_LinFrameResponseUpdate :: "LinFrameResponseUpdate reader" where
  "get_LinFrameResponseUpdate =
     get_bind (get_vector get_LinFrameResponse) (\<lambda>frameResponses.
     get_return \<lparr>lfu_frameResponses = frameResponses\<rparr>)"

definition ok_LinFrameResponseUpdate :: "LinFrameResponseUpdate \<Rightarrow> bool" where
  "ok_LinFrameResponseUpdate update \<longleftrightarrow>
     ok_vector ok_LinFrameResponse (lfu_frameResponses update)"

interpretation LinFrameResponseUpdate: strict_codec put_LinFrameResponseUpdate get_LinFrameResponseUpdate ok_LinFrameResponseUpdate
  by (rule messageI[OF put_LinFrameResponseUpdate_def]; unfold get_LinFrameResponseUpdate_def)
    (intro codec_field safe_intro; simp add: ok_LinFrameResponseUpdate_def)+

section \<open>FlexRay\<close>

record FlexrayHeader =
  fh_flags :: u8
  fh_frameId :: u16
  fh_payloadLength :: u8
  fh_headerCrc :: u16
  fh_cycleCount :: u8

definition put_FlexrayHeader :: "FlexrayHeader \<Rightarrow> writer" where
  "put_FlexrayHeader header = put_all
     [put_int (fh_flags header), put_int (fh_frameId header),
      put_int (fh_payloadLength header), put_int (fh_headerCrc header),
      put_int (fh_cycleCount header)]"

definition get_FlexrayHeader :: "FlexrayHeader reader" where
  "get_FlexrayHeader =
     get_bind get_int (\<lambda>flags :: u8. get_bind get_int (\<lambda>frameId :: u16.
     get_bind get_int (\<lambda>payloadLength :: u8.
     get_bind get_int (\<lambda>headerCrc :: u16. get_bind get_int (\<lambda>cycleCount :: u8.
     get_return \<lparr>fh_flags = flags, fh_frameId = frameId,
       fh_payloadLength = payloadLength, fh_headerCrc = headerCrc,
       fh_cycleCount = cycleCount\<rparr>)))))"

interpretation FlexrayHeader: strict_codec put_FlexrayHeader get_FlexrayHeader "\<lambda>_. True"
  by (rule messageI[OF put_FlexrayHeader_def]; unfold get_FlexrayHeader_def)
    (intro codec_field safe_intro; simp)+

record WireFlexrayFrame =
  ff_header :: FlexrayHeader
  ff_payload :: bytes

definition put_WireFlexrayFrame :: "WireFlexrayFrame \<Rightarrow> writer" where
  "put_WireFlexrayFrame frame = put_all
     [put_FlexrayHeader (ff_header frame), put_bytes (ff_payload frame)]"

definition get_WireFlexrayFrame :: "WireFlexrayFrame reader" where
  "get_WireFlexrayFrame =
     get_bind get_FlexrayHeader (\<lambda>header. get_bind get_bytes (\<lambda>payload.
     get_return \<lparr>ff_header = header, ff_payload = payload\<rparr>))"

definition ok_WireFlexrayFrame :: "WireFlexrayFrame \<Rightarrow> bool" where
  "ok_WireFlexrayFrame frame \<longleftrightarrow>
     ok_bytes (ff_payload frame)"

interpretation WireFlexrayFrame: strict_codec put_WireFlexrayFrame get_WireFlexrayFrame ok_WireFlexrayFrame
  by (rule messageI[OF put_WireFlexrayFrame_def]; unfold get_WireFlexrayFrame_def)
    (intro codec_field safe_intro; simp add: ok_WireFlexrayFrame_def)+

record WireFlexrayFrameEvent =
  ffe_timestamp :: u64
  ffe_channel :: u32
  ffe_frame :: WireFlexrayFrame

definition put_WireFlexrayFrameEvent :: "WireFlexrayFrameEvent \<Rightarrow> writer" where
  "put_WireFlexrayFrameEvent msg = put_all
     [put_duration (ffe_timestamp msg), put_int (ffe_channel msg),
      put_WireFlexrayFrame (ffe_frame msg)]"

definition get_WireFlexrayFrameEvent :: "WireFlexrayFrameEvent reader" where
  "get_WireFlexrayFrameEvent =
     get_bind get_duration (\<lambda>timestamp. get_bind get_int (\<lambda>channel :: u32.
     get_bind get_WireFlexrayFrame (\<lambda>frame.
     get_return \<lparr>ffe_timestamp = timestamp, ffe_channel = channel,
       ffe_frame = frame\<rparr>)))"

definition ok_WireFlexrayFrameEvent :: "WireFlexrayFrameEvent \<Rightarrow> bool" where
  "ok_WireFlexrayFrameEvent msg \<longleftrightarrow>
     ok_WireFlexrayFrame (ffe_frame msg)"

interpretation WireFlexrayFrameEvent: strict_codec put_WireFlexrayFrameEvent get_WireFlexrayFrameEvent ok_WireFlexrayFrameEvent
  by (rule messageI[OF put_WireFlexrayFrameEvent_def]; unfold get_WireFlexrayFrameEvent_def)
    (intro codec_field safe_intro; simp add: ok_WireFlexrayFrameEvent_def)+

record WireFlexrayFrameTransmitEvent =
  fte_timestamp :: u64
  fte_txBufferIndex :: u16
  fte_channel :: u32
  fte_frame :: WireFlexrayFrame

definition put_WireFlexrayFrameTransmitEvent :: "WireFlexrayFrameTransmitEvent \<Rightarrow> writer" where
  "put_WireFlexrayFrameTransmitEvent msg = put_all
     [put_duration (fte_timestamp msg), put_int (fte_txBufferIndex msg),
      put_int (fte_channel msg), put_WireFlexrayFrame (fte_frame msg)]"

definition get_WireFlexrayFrameTransmitEvent :: "WireFlexrayFrameTransmitEvent reader" where
  "get_WireFlexrayFrameTransmitEvent =
     get_bind get_duration (\<lambda>timestamp.
     get_bind get_int (\<lambda>txBufferIndex :: u16.
     get_bind get_int (\<lambda>channel :: u32. get_bind get_WireFlexrayFrame (\<lambda>frame.
     get_return \<lparr>fte_timestamp = timestamp, fte_txBufferIndex = txBufferIndex,
       fte_channel = channel, fte_frame = frame\<rparr>))))"

definition ok_WireFlexrayFrameTransmitEvent :: "WireFlexrayFrameTransmitEvent \<Rightarrow> bool" where
  "ok_WireFlexrayFrameTransmitEvent msg \<longleftrightarrow>
     ok_WireFlexrayFrame (fte_frame msg)"

interpretation WireFlexrayFrameTransmitEvent: strict_codec put_WireFlexrayFrameTransmitEvent get_WireFlexrayFrameTransmitEvent ok_WireFlexrayFrameTransmitEvent
  by (rule messageI[OF put_WireFlexrayFrameTransmitEvent_def]; unfold get_WireFlexrayFrameTransmitEvent_def)
    (intro codec_field safe_intro; simp add: ok_WireFlexrayFrameTransmitEvent_def)+

record FlexraySymbolEvent =
  fse_timestamp :: u64
  fse_channel :: u32
  fse_pattern :: u8

definition put_FlexraySymbolEvent :: "FlexraySymbolEvent \<Rightarrow> writer" where
  "put_FlexraySymbolEvent symbol = put_all
     [put_duration (fse_timestamp symbol), put_int (fse_channel symbol),
      put_int (fse_pattern symbol)]"

definition get_FlexraySymbolEvent :: "FlexraySymbolEvent reader" where
  "get_FlexraySymbolEvent =
     get_bind get_duration (\<lambda>timestamp. get_bind get_int (\<lambda>channel :: u32.
     get_bind get_int (\<lambda>pattern :: u8.
     get_return \<lparr>fse_timestamp = timestamp, fse_channel = channel,
       fse_pattern = pattern\<rparr>)))"

interpretation FlexraySymbolEvent: strict_codec put_FlexraySymbolEvent get_FlexraySymbolEvent "\<lambda>_. True"
  by (rule messageI[OF put_FlexraySymbolEvent_def]; unfold get_FlexraySymbolEvent_def)
    (intro codec_field safe_intro; simp)+

text \<open>\<^verbatim>\<open>FlexraySymbolTransmitEvent\<close> adds nothing to its base class and is streamed as such.\<close>

record FlexraySymbolTransmitEvent =
  fst_symbol :: FlexraySymbolEvent

definition put_FlexraySymbolTransmitEvent :: "FlexraySymbolTransmitEvent \<Rightarrow> writer" where
  "put_FlexraySymbolTransmitEvent ack = put_all
     [put_FlexraySymbolEvent (fst_symbol ack)]"

definition get_FlexraySymbolTransmitEvent :: "FlexraySymbolTransmitEvent reader" where
  "get_FlexraySymbolTransmitEvent =
     get_bind get_FlexraySymbolEvent (\<lambda>symbol.
     get_return \<lparr>fst_symbol = symbol\<rparr>)"

interpretation FlexraySymbolTransmitEvent: strict_codec put_FlexraySymbolTransmitEvent get_FlexraySymbolTransmitEvent "\<lambda>_. True"
  by (rule messageI[OF put_FlexraySymbolTransmitEvent_def]; unfold get_FlexraySymbolTransmitEvent_def)
    (intro codec_field safe_intro; simp)+

record FlexrayCycleStartEvent =
  fcs_timestamp :: u64
  fcs_cycleCounter :: u8

definition put_FlexrayCycleStartEvent :: "FlexrayCycleStartEvent \<Rightarrow> writer" where
  "put_FlexrayCycleStartEvent msg = put_all
     [put_duration (fcs_timestamp msg), put_int (fcs_cycleCounter msg)]"

definition get_FlexrayCycleStartEvent :: "FlexrayCycleStartEvent reader" where
  "get_FlexrayCycleStartEvent =
     get_bind get_duration (\<lambda>timestamp. get_bind get_int (\<lambda>cycleCounter :: u8.
     get_return \<lparr>fcs_timestamp = timestamp, fcs_cycleCounter = cycleCounter\<rparr>))"

interpretation FlexrayCycleStartEvent: strict_codec put_FlexrayCycleStartEvent get_FlexrayCycleStartEvent "\<lambda>_. True"
  by (rule messageI[OF put_FlexrayCycleStartEvent_def]; unfold get_FlexrayCycleStartEvent_def)
    (intro codec_field safe_intro; simp)+

record FlexrayHostCommand =
  fhc_command :: u8

definition put_FlexrayHostCommand :: "FlexrayHostCommand \<Rightarrow> writer" where
  "put_FlexrayHostCommand cmd = put_all
     [put_int (fhc_command cmd)]"

definition get_FlexrayHostCommand :: "FlexrayHostCommand reader" where
  "get_FlexrayHostCommand =
     get_bind get_int (\<lambda>command :: u8.
     get_return \<lparr>fhc_command = command\<rparr>)"

interpretation FlexrayHostCommand: strict_codec put_FlexrayHostCommand get_FlexrayHostCommand "\<lambda>_. True"
  by (rule messageI[OF put_FlexrayHostCommand_def]; unfold get_FlexrayHostCommand_def)
    (intro codec_field safe_intro; simp)+

record FlexrayClusterParameters =
  fcp_gColdstartAttempts :: u8
  fcp_gCycleCountMax :: u8
  fcp_gdActionPointOffset :: u16
  fcp_gdDynamicSlotIdlePhase :: u16
  fcp_gdMiniSlot :: u16
  fcp_gdMiniSlotActionPointOffset :: u16
  fcp_gdStaticSlot :: u16
  fcp_gdSymbolWindow :: u16
  fcp_gdSymbolWindowActionPointOffset :: u16
  fcp_gdTSSTransmitter :: u16
  fcp_gdWakeupTxActive :: u16
  fcp_gdWakeupTxIdle :: u16
  fcp_gListenNoise :: u8
  fcp_gMacroPerCycle :: u16
  fcp_gMaxWithoutClockCorrectionFatal :: u8
  fcp_gMaxWithoutClockCorrectionPassive :: u8
  fcp_gNumberOfMiniSlots :: u16
  fcp_gNumberOfStaticSlots :: u16
  fcp_gPayloadLengthStatic :: u16
  fcp_gSyncFrameIDCountMax :: u8

definition put_FlexrayClusterParameters :: "FlexrayClusterParameters \<Rightarrow> writer" where
  "put_FlexrayClusterParameters clusterParam = put_all
     [put_int (fcp_gColdstartAttempts clusterParam), put_int (fcp_gCycleCountMax clusterParam),
      put_int (fcp_gdActionPointOffset clusterParam),
      put_int (fcp_gdDynamicSlotIdlePhase clusterParam), put_int (fcp_gdMiniSlot clusterParam),
      put_int (fcp_gdMiniSlotActionPointOffset clusterParam),
      put_int (fcp_gdStaticSlot clusterParam), put_int (fcp_gdSymbolWindow clusterParam),
      put_int (fcp_gdSymbolWindowActionPointOffset clusterParam),
      put_int (fcp_gdTSSTransmitter clusterParam), put_int (fcp_gdWakeupTxActive clusterParam),
      put_int (fcp_gdWakeupTxIdle clusterParam), put_int (fcp_gListenNoise clusterParam),
      put_int (fcp_gMacroPerCycle clusterParam),
      put_int (fcp_gMaxWithoutClockCorrectionFatal clusterParam),
      put_int (fcp_gMaxWithoutClockCorrectionPassive clusterParam),
      put_int (fcp_gNumberOfMiniSlots clusterParam),
      put_int (fcp_gNumberOfStaticSlots clusterParam),
      put_int (fcp_gPayloadLengthStatic clusterParam),
      put_int (fcp_gSyncFrameIDCountMax clusterParam)]"

definition get_FlexrayClusterParameters :: "FlexrayClusterParameters reader" where
  "get_FlexrayClusterParameters =
     get_bind get_int (\<lambda>gColdstartAttempts :: u8.
     get_bind get_int (\<lambda>gCycleCountMax :: u8.
     get_bind get_int (\<lambda>gdActionPointOffset :: u16.
     get_bind get_int (\<lambda>gdDynamicSlotIdlePhase :: u16.
     get_bind get_int (\<lambda>gdMiniSlot :: u16.
     get_bind get_int (\<lambda>gdMiniSlotActionPointOffset :: u16.
     get_bind get_int (\<lambda>gdStaticSlot :: u16.
     get_bind get_int (\<lambda>gdSymbolWindow :: u16.
     get_bind get_int (\<lambda>gdSymbolWindowActionPointOffset :: u16.
     get_bind get_int (\<lambda>gdTSSTransmitter :: u16.
     get_bind get_int (\<lambda>gdWakeupTxActive :: u16.
     get_bind get_int (\<lambda>gdWakeupTxIdle :: u16.
     get_bind get_int (\<lambda>gListenNoise :: u8.
     get_bind get_int (\<lambda>gMacroPerCycle :: u16.
     get_bind get_int (\<lambda>gMaxWithoutClockCorrectionFatal :: u8.
     get_bind get_int (\<lambda>gMaxWithoutClockCorrectionPassive :: u8.
     get_bind get_int (\<lambda>gNumberOfMiniSlots :: u16.
     get_bind get_int (\<lambda>gNumberOfStaticSlots :: u16.
     get_bind get_int (\<lambda>gPayloadLengthStatic :: u16.
     get_bind get_int (\<lambda>gSyncFrameIDCountMax :: u8.
     get_return \<lparr>fcp_gColdstartAttempts = gColdstartAttempts,
       fcp_gCycleCountMax = gCycleCountMax, fcp_gdActionPointOffset = gdActionPointOffset,
       fcp_gdDynamicSlotIdlePhase = gdDynamicSlotIdlePhase, fcp_gdMiniSlot = gdMiniSlot,
       fcp_gdMiniSlotActionPointOffset = gdMiniSlotActionPointOffset,
       fcp_gdStaticSlot = gdStaticSlot, fcp_gdSymbolWindow = gdSymbolWindow,
       fcp_gdSymbolWindowActionPointOffset = gdSymbolWindowActionPointOffset,
       fcp_gdTSSTransmitter = gdTSSTransmitter, fcp_gdWakeupTxActive = gdWakeupTxActive,
       fcp_gdWakeupTxIdle = gdWakeupTxIdle, fcp_gListenNoise = gListenNoise,
       fcp_gMacroPerCycle = gMacroPerCycle,
       fcp_gMaxWithoutClockCorrectionFatal = gMaxWithoutClockCorrectionFatal,
       fcp_gMaxWithoutClockCorrectionPassive = gMaxWithoutClockCorrectionPassive,
       fcp_gNumberOfMiniSlots = gNumberOfMiniSlots,
       fcp_gNumberOfStaticSlots = gNumberOfStaticSlots,
       fcp_gPayloadLengthStatic = gPayloadLengthStatic,
       fcp_gSyncFrameIDCountMax = gSyncFrameIDCountMax\<rparr>))))))))))))))))))))"

interpretation FlexrayClusterParameters: strict_codec put_FlexrayClusterParameters get_FlexrayClusterParameters "\<lambda>_. True"
  by (rule messageI[OF put_FlexrayClusterParameters_def]; unfold get_FlexrayClusterParameters_def)
    (intro codec_field safe_intro; simp)+

record FlexrayNodeParameters =
  fnp_pAllowHaltDueToClock :: u8
  fnp_pAllowPassiveToActive :: u8
  fnp_pChannels :: u32
  fnp_pClusterDriftDamping :: u8
  fnp_pdAcceptedStartupRange :: u32
  fnp_pdListenTimeout :: u32
  fnp_pKeySlotId :: u16
  fnp_pKeySlotOnlyEnabled :: u8
  fnp_pKeySlotUsedForStartup :: u8
  fnp_pKeySlotUsedForSync :: u8
  fnp_pLatestTx :: u16
  fnp_pMacroInitialOffsetA :: u8
  fnp_pMacroInitialOffsetB :: u8
  fnp_pMicroInitialOffsetA :: u32
  fnp_pMicroInitialOffsetB :: u32
  fnp_pMicroPerCycle :: u32
  fnp_pOffsetCorrectionOut :: u32
  fnp_pOffsetCorrectionStart :: u16
  fnp_pRateCorrectionOut :: u32
  fnp_pWakeupChannel :: u32
  fnp_pWakeupPattern :: u8
  fnp_pdMicrotick :: u32
  fnp_pSamplesPerMicrotick :: u8

definition put_FlexrayNodeParameters :: "FlexrayNodeParameters \<Rightarrow> writer" where
  "put_FlexrayNodeParameters nodeParams = put_all
     [put_int (fnp_pAllowHaltDueToClock nodeParams),
      put_int (fnp_pAllowPassiveToActive nodeParams), put_int (fnp_pChannels nodeParams),
      put_int (fnp_pClusterDriftDamping nodeParams),
      put_int (fnp_pdAcceptedStartupRange nodeParams),
      put_int (fnp_pdListenTimeout nodeParams), put_int (fnp_pKeySlotId nodeParams),
      put_int (fnp_pKeySlotOnlyEnabled nodeParams),
      put_int (fnp_pKeySlotUsedForStartup nodeParams),
      put_int (fnp_pKeySlotUsedForSync nodeParams), put_int (fnp_pLatestTx nodeParams),
      put_int (fnp_pMacroInitialOffsetA nodeParams),
      put_int (fnp_pMacroInitialOffsetB nodeParams),
      put_int (fnp_pMicroInitialOffsetA nodeParams),
      put_int (fnp_pMicroInitialOffsetB nodeParams), put_int (fnp_pMicroPerCycle nodeParams),
      put_int (fnp_pOffsetCorrectionOut nodeParams),
      put_int (fnp_pOffsetCorrectionStart nodeParams),
      put_int (fnp_pRateCorrectionOut nodeParams), put_int (fnp_pWakeupChannel nodeParams),
      put_int (fnp_pWakeupPattern nodeParams), put_int (fnp_pdMicrotick nodeParams),
      put_int (fnp_pSamplesPerMicrotick nodeParams)]"

definition get_FlexrayNodeParameters :: "FlexrayNodeParameters reader" where
  "get_FlexrayNodeParameters =
     get_bind get_int (\<lambda>pAllowHaltDueToClock :: u8.
     get_bind get_int (\<lambda>pAllowPassiveToActive :: u8.
     get_bind get_int (\<lambda>pChannels :: u32.
     get_bind get_int (\<lambda>pClusterDriftDamping :: u8.
     get_bind get_int (\<lambda>pdAcceptedStartupRange :: u32.
     get_bind get_int (\<lambda>pdListenTimeout :: u32.
     get_bind get_int (\<lambda>pKeySlotId :: u16.
     get_bind get_int (\<lambda>pKeySlotOnlyEnabled :: u8.
     get_bind get_int (\<lambda>pKeySlotUsedForStartup :: u8.
     get_bind get_int (\<lambda>pKeySlotUsedForSync :: u8.
     get_bind get_int (\<lambda>pLatestTx :: u16.
     get_bind get_int (\<lambda>pMacroInitialOffsetA :: u8.
     get_bind get_int (\<lambda>pMacroInitialOffsetB :: u8.
     get_bind get_int (\<lambda>pMicroInitialOffsetA :: u32.
     get_bind get_int (\<lambda>pMicroInitialOffsetB :: u32.
     get_bind get_int (\<lambda>pMicroPerCycle :: u32.
     get_bind get_int (\<lambda>pOffsetCorrectionOut :: u32.
     get_bind get_int (\<lambda>pOffsetCorrectionStart :: u16.
     get_bind get_int (\<lambda>pRateCorrectionOut :: u32.
     get_bind get_int (\<lambda>pWakeupChannel :: u32.
     get_bind get_int (\<lambda>pWakeupPattern :: u8.
     get_bind get_int (\<lambda>pdMicrotick :: u32.
     get_bind get_int (\<lambda>pSamplesPerMicrotick :: u8.
     get_return \<lparr>fnp_pAllowHaltDueToClock = pAllowHaltDueToClock,
       fnp_pAllowPassiveToActive = pAllowPassiveToActive, fnp_pChannels = pChannels,
       fnp_pClusterDriftDamping = pClusterDriftDamping,
       fnp_pdAcceptedStartupRange = pdAcceptedStartupRange,
       fnp_pdListenTimeout = pdListenTimeout, fnp_pKeySlotId = pKeySlotId,
       fnp_pKeySlotOnlyEnabled = pKeySlotOnlyEnabled,
       fnp_pKeySlotUsedForStartup = pKeySlotUsedForStartup,
       fnp_pKeySlotUsedForSync = pKeySlotUsedForSync, fnp_pLatestTx = pLatestTx,
       fnp_pMacroInitialOffsetA = pMacroInitialOffsetA,
       fnp_pMacroInitialOffsetB = pMacroInitialOffsetB,
       fnp_pMicroInitialOffsetA = pMicroInitialOffsetA,
       fnp_pMicroInitialOffsetB = pMicroInitialOffsetB, fnp_pMicroPerCycle = pMicroPerCycle,
       fnp_pOffsetCorrectionOut = pOffsetCorrectionOut,
       fnp_pOffsetCorrectionStart = pOffsetCorrectionStart,
       fnp_pRateCorrectionOut = pRateCorrectionOut, fnp_pWakeupChannel = pWakeupChannel,
       fnp_pWakeupPattern = pWakeupPattern, fnp_pdMicrotick = pdMicrotick,
       fnp_pSamplesPerMicrotick = pSamplesPerMicrotick\<rparr>)))))))))))))))))))))))"

interpretation FlexrayNodeParameters: strict_codec put_FlexrayNodeParameters get_FlexrayNodeParameters "\<lambda>_. True"
  by (rule messageI[OF put_FlexrayNodeParameters_def]; unfold get_FlexrayNodeParameters_def)
    (intro codec_field safe_intro; simp)+

record FlexrayTxBufferConfig =
  ftc_channels :: u32
  ftc_slotId :: u16
  ftc_offset :: u8
  ftc_repetition :: u8
  ftc_hasPayloadPreambleIndicator :: bool
  ftc_headerCrc :: u16
  ftc_transmissionMode :: u8

definition put_FlexrayTxBufferConfig :: "FlexrayTxBufferConfig \<Rightarrow> writer" where
  "put_FlexrayTxBufferConfig config = put_all
     [put_int (ftc_channels config), put_int (ftc_slotId config), put_int (ftc_offset config),
      put_int (ftc_repetition config), put_bool (ftc_hasPayloadPreambleIndicator config),
      put_int (ftc_headerCrc config), put_int (ftc_transmissionMode config)]"

definition get_FlexrayTxBufferConfig :: "FlexrayTxBufferConfig reader" where
  "get_FlexrayTxBufferConfig =
     get_bind get_int (\<lambda>channels :: u32. get_bind get_int (\<lambda>slotId :: u16.
     get_bind get_int (\<lambda>offset :: u8. get_bind get_int (\<lambda>repetition :: u8.
     get_bind get_bool (\<lambda>hasPayloadPreambleIndicator.
     get_bind get_int (\<lambda>headerCrc :: u16.
     get_bind get_int (\<lambda>transmissionMode :: u8.
     get_return \<lparr>ftc_channels = channels, ftc_slotId = slotId, ftc_offset = offset,
       ftc_repetition = repetition,
       ftc_hasPayloadPreambleIndicator = hasPayloadPreambleIndicator,
       ftc_headerCrc = headerCrc, ftc_transmissionMode = transmissionMode\<rparr>)))))))"

interpretation FlexrayTxBufferConfig: strict_codec put_FlexrayTxBufferConfig get_FlexrayTxBufferConfig "\<lambda>_. True"
  by (rule messageI[OF put_FlexrayTxBufferConfig_def]; unfold get_FlexrayTxBufferConfig_def)
    (intro codec_field safe_intro; simp)+

interpretation FlexrayTxBufferConfig_vector: strict_codec "put_vector put_FlexrayTxBufferConfig" "get_vector get_FlexrayTxBufferConfig"
    "ok_vector (\<lambda>_. True)"
  by (rule FlexrayTxBufferConfig.vector_codec)

record FlexrayControllerConfig =
  fcc_clusterParams :: FlexrayClusterParameters
  fcc_nodeParams :: FlexrayNodeParameters
  fcc_bufferConfigs :: "FlexrayTxBufferConfig list"

definition put_FlexrayControllerConfig :: "FlexrayControllerConfig \<Rightarrow> writer" where
  "put_FlexrayControllerConfig config = put_all
     [put_FlexrayClusterParameters (fcc_clusterParams config),
      put_FlexrayNodeParameters (fcc_nodeParams config),
      put_vector put_FlexrayTxBufferConfig (fcc_bufferConfigs config)]"

definition get_FlexrayControllerConfig :: "FlexrayControllerConfig reader" where
  "get_FlexrayControllerConfig =
     get_bind get_FlexrayClusterParameters (\<lambda>clusterParams.
     get_bind get_FlexrayNodeParameters (\<lambda>nodeParams.
     get_bind (get_vector get_FlexrayTxBufferConfig) (\<lambda>bufferConfigs.
     get_return \<lparr>fcc_clusterParams = clusterParams, fcc_nodeParams = nodeParams,
       fcc_bufferConfigs = bufferConfigs\<rparr>)))"

definition ok_FlexrayControllerConfig :: "FlexrayControllerConfig \<Rightarrow> bool" where
  "ok_FlexrayControllerConfig config \<longleftrightarrow>
     ok_vector (\<lambda>_. True) (fcc_bufferConfigs config)"

interpretation FlexrayControllerConfig: strict_codec put_FlexrayControllerConfig get_FlexrayControllerConfig ok_FlexrayControllerConfig
  by (rule messageI[OF put_FlexrayControllerConfig_def]; unfold get_FlexrayControllerConfig_def)
    (intro codec_field safe_intro; simp add: ok_FlexrayControllerConfig_def)+

record FlexrayTxBufferConfigUpdate =
  fcu_txBufferIndex :: u16
  fcu_txBufferConfig :: FlexrayTxBufferConfig

definition put_FlexrayTxBufferConfigUpdate :: "FlexrayTxBufferConfigUpdate \<Rightarrow> writer" where
  "put_FlexrayTxBufferConfigUpdate update = put_all
     [put_int (fcu_txBufferIndex update), put_FlexrayTxBufferConfig (fcu_txBufferConfig update)]"

definition get_FlexrayTxBufferConfigUpdate :: "FlexrayTxBufferConfigUpdate reader" where
  "get_FlexrayTxBufferConfigUpdate =
     get_bind get_int (\<lambda>txBufferIndex :: u16.
     get_bind get_FlexrayTxBufferConfig (\<lambda>txBufferConfig.
     get_return \<lparr>fcu_txBufferIndex = txBufferIndex,
       fcu_txBufferConfig = txBufferConfig\<rparr>))"

interpretation FlexrayTxBufferConfigUpdate: strict_codec put_FlexrayTxBufferConfigUpdate get_FlexrayTxBufferConfigUpdate "\<lambda>_. True"
  by (rule messageI[OF put_FlexrayTxBufferConfigUpdate_def]; unfold get_FlexrayTxBufferConfigUpdate_def)
    (intro codec_field safe_intro; simp)+

record WireFlexrayTxBufferUpdate =
  ftu_txBufferIndex :: u16
  ftu_payloadDataValid :: bool
  ftu_payload :: bytes

definition put_WireFlexrayTxBufferUpdate :: "WireFlexrayTxBufferUpdate \<Rightarrow> writer" where
  "put_WireFlexrayTxBufferUpdate update = put_all
     [put_int (ftu_txBufferIndex update), put_bool (ftu_payloadDataValid update),
      put_bytes (ftu_payload update)]"

definition get_WireFlexrayTxBufferUpdate :: "WireFlexrayTxBufferUpdate reader" where
  "get_WireFlexrayTxBufferUpdate =
     get_bind get_int (\<lambda>txBufferIndex :: u16.
     get_bind get_bool (\<lambda>payloadDataValid. get_bind get_bytes (\<lambda>payload.
     get_return \<lparr>ftu_txBufferIndex = txBufferIndex,
       ftu_payloadDataValid = payloadDataValid, ftu_payload = payload\<rparr>)))"

definition ok_WireFlexrayTxBufferUpdate :: "WireFlexrayTxBufferUpdate \<Rightarrow> bool" where
  "ok_WireFlexrayTxBufferUpdate update \<longleftrightarrow>
     ok_bytes (ftu_payload update)"

interpretation WireFlexrayTxBufferUpdate: strict_codec put_WireFlexrayTxBufferUpdate get_WireFlexrayTxBufferUpdate ok_WireFlexrayTxBufferUpdate
  by (rule messageI[OF put_WireFlexrayTxBufferUpdate_def]; unfold get_WireFlexrayTxBufferUpdate_def)
    (intro codec_field safe_intro; simp add: ok_WireFlexrayTxBufferUpdate_def)+

record FlexrayPocStatusEvent =
  fps_timestamp :: u64
  fps_state :: u8
  fps_chiHaltRequest :: bool
  fps_coldstartNoise :: bool
  fps_freeze :: bool
  fps_chiReadyRequest :: bool
  fps_errorMode :: u8
  fps_slotMode :: u8
  fps_startupState :: u8
  fps_wakeupStatus :: u8

definition put_FlexrayPocStatusEvent :: "FlexrayPocStatusEvent \<Rightarrow> writer" where
  "put_FlexrayPocStatusEvent msg = put_all
     [put_duration (fps_timestamp msg), put_bool (fps_chiHaltRequest msg),
      put_bool (fps_coldstartNoise msg), put_int (fps_errorMode msg),
      put_bool (fps_freeze msg), put_int (fps_slotMode msg), put_int (fps_startupState msg),
      put_int (fps_state msg), put_int (fps_wakeupStatus msg),
      put_bool (fps_chiReadyRequest msg)]"

definition get_FlexrayPocStatusEvent :: "FlexrayPocStatusEvent reader" where
  "get_FlexrayPocStatusEvent =
     get_bind get_duration (\<lambda>timestamp. get_bind get_bool (\<lambda>chiHaltRequest.
     get_bind get_bool (\<lambda>coldstartNoise. get_bind get_int (\<lambda>errorMode :: u8.
     get_bind get_bool (\<lambda>freeze. get_bind get_int (\<lambda>slotMode :: u8.
     get_bind get_int (\<lambda>startupState :: u8. get_bind get_int (\<lambda>state :: u8.
     get_bind get_int (\<lambda>wakeupStatus :: u8.
     get_bind get_bool (\<lambda>chiReadyRequest.
     get_return \<lparr>fps_timestamp = timestamp, fps_state = state,
       fps_chiHaltRequest = chiHaltRequest, fps_coldstartNoise = coldstartNoise,
       fps_freeze = freeze, fps_chiReadyRequest = chiReadyRequest, fps_errorMode = errorMode,
       fps_slotMode = slotMode, fps_startupState = startupState,
       fps_wakeupStatus = wakeupStatus\<rparr>))))))))))"

interpretation FlexrayPocStatusEvent: strict_codec put_FlexrayPocStatusEvent get_FlexrayPocStatusEvent "\<lambda>_. True"
  by (rule messageI[OF put_FlexrayPocStatusEvent_def]; unfold get_FlexrayPocStatusEvent_def)
    (intro codec_field safe_intro; simp)+

end
