(* ===== verification/VAsio_Messages.thy ===== *)
theory VAsio_Messages
  imports Wire_Codec
begin

text \<open>
  The messages of the VAsio transport itself (core/vasio/VAsioDatatypes.hpp) with the serialisers of
  VAsioSerdes.cpp and the backward compatible ones of VAsioSerdes_Protocol30.cpp. The handshake
  messages consult the protocol version of the buffer: at version 3.0 the legacy structures
  (suffix \<open>_v30\<close>) are streamed and converted.
\<close>

section \<open>Addresses, headers and peers\<close>

record EndpointAddress =
  ea_participant :: u64
  ea_endpoint :: u64

definition put_EndpointAddress :: "EndpointAddress \<Rightarrow> writer" where
  "put_EndpointAddress addr = put_all
     [put_int (ea_participant addr), put_int (ea_endpoint addr)]"

definition get_EndpointAddress :: "EndpointAddress reader" where
  "get_EndpointAddress =
     get_bind get_int (\<lambda>participant :: u64. get_bind get_int (\<lambda>endpoint :: u64.
     get_return \<lparr>ea_participant = participant, ea_endpoint = endpoint\<rparr>))"

interpretation EndpointAddress: strict_codec put_EndpointAddress get_EndpointAddress "\<lambda>_. True"
  by (rule messageI[OF put_EndpointAddress_def]; unfold get_EndpointAddress_def)
    (intro codec_field safe_intro; simp)+

record RegistryMsgHeader =
  rh_preamble :: u32
  rh_versionHigh :: u16
  rh_versionLow :: u16

definition put_RegistryMsgHeader :: "RegistryMsgHeader \<Rightarrow> writer" where
  "put_RegistryMsgHeader header = put_all
     [put_int (rh_preamble header), put_int (rh_versionHigh header),
      put_int (rh_versionLow header)]"

definition get_RegistryMsgHeader :: "RegistryMsgHeader reader" where
  "get_RegistryMsgHeader =
     get_bind get_int (\<lambda>preamble :: u32. get_bind get_int (\<lambda>versionHigh :: u16.
     get_bind get_int (\<lambda>versionLow :: u16.
     get_return \<lparr>rh_preamble = preamble, rh_versionHigh = versionHigh,
       rh_versionLow = versionLow\<rparr>)))"

interpretation RegistryMsgHeader: strict_codec put_RegistryMsgHeader get_RegistryMsgHeader "\<lambda>_. True"
  by (rule messageI[OF put_RegistryMsgHeader_def]; unfold get_RegistryMsgHeader_def)
    (intro codec_field safe_intro; simp)+

definition REGISTRY_MESSAGE_HEADER_PREAMBLE_VALUE :: u32 where
  "REGISTRY_MESSAGE_HEADER_PREAMBLE_VALUE = 0x2d424956"

text \<open>The default constructor of \<^verbatim>\<open>RegistryMsgHeader\<close>.\<close>

definition default_RegistryMsgHeader :: RegistryMsgHeader where
  "default_RegistryMsgHeader =
     \<lparr>rh_preamble = REGISTRY_MESSAGE_HEADER_PREAMBLE_VALUE,
      rh_versionHigh = major CurrentProtocolVersion, rh_versionLow = minor CurrentProtocolVersion\<rparr>"

definition ExtractProtocolVersion :: "RegistryMsgHeader \<Rightarrow> ProtocolVersion" where
  "ExtractProtocolVersion header = \<lparr>major = rh_versionHigh header, minor = rh_versionLow header\<rparr>"

definition MakeRegistryMsgHeader :: "ProtocolVersion \<Rightarrow> RegistryMsgHeader" where
  "MakeRegistryMsgHeader version =
     default_RegistryMsgHeader\<lparr>rh_versionHigh := major version, rh_versionLow := minor version\<rparr>"

abbreviation v30 :: ProtocolVersion where "v30 \<equiv> \<lparr>major = 3, minor = 0\<rparr>"
abbreviation v31 :: ProtocolVersion where "v31 \<equiv> \<lparr>major = 3, minor = 1\<rparr>"

definition ProtocolVersionSupported :: "RegistryMsgHeader \<Rightarrow> bool" where
  "ProtocolVersionSupported header =
     (let version = ExtractProtocolVersion header
      in if version = v30 then True else if version = v31 then True else False)"

definition MapVersionToRelease :: "RegistryMsgHeader \<Rightarrow> string" where
  "MapVersionToRelease registryMsgHeader =
     (let version = ExtractProtocolVersion registryMsgHeader
      in if major version = 1 then ''< v2.0.0''
         else if version = \<lparr>major = 2, minor = 0\<rparr> then ''v2.0.0 - v3.4.0''
         else if version = \<lparr>major = 2, minor = 1\<rparr> then ''v3.4.1 - v3.99.21''
         else if version = v30 then ''v3.99.22''
         else if version = v31 then ''v3.99.23 - current''
         else ''Unknown version range'')"

record VAsioPeerInfo =
  pi_participantName :: string
  pi_participantId :: u64
  pi_acceptorUris :: "string list"
  pi_capabilities :: string

definition put_VAsioPeerInfo :: "VAsioPeerInfo \<Rightarrow> writer" where
  "put_VAsioPeerInfo peerInfo = put_all
     [put_string (pi_participantName peerInfo), put_int (pi_participantId peerInfo),
      put_vector put_string (pi_acceptorUris peerInfo), put_string (pi_capabilities peerInfo)]"

definition get_VAsioPeerInfo :: "VAsioPeerInfo reader" where
  "get_VAsioPeerInfo =
     get_bind get_string (\<lambda>participantName.
     get_bind get_int (\<lambda>participantId :: u64.
     get_bind (get_vector get_string) (\<lambda>acceptorUris.
     get_bind get_string (\<lambda>capabilities.
     get_return \<lparr>pi_participantName = participantName, pi_participantId = participantId,
       pi_acceptorUris = acceptorUris, pi_capabilities = capabilities\<rparr>))))"

definition ok_VAsioPeerInfo :: "VAsioPeerInfo \<Rightarrow> bool" where
  "ok_VAsioPeerInfo peerInfo \<longleftrightarrow>
     ok_string (pi_participantName peerInfo) \<and>
     ok_vector ok_string (pi_acceptorUris peerInfo) \<and> ok_string (pi_capabilities peerInfo)"

interpretation VAsioPeerInfo: strict_codec put_VAsioPeerInfo get_VAsioPeerInfo ok_VAsioPeerInfo
  by (rule messageI[OF put_VAsioPeerInfo_def]; unfold get_VAsioPeerInfo_def)
    (intro codec_field safe_intro; simp add: ok_VAsioPeerInfo_def)+

interpretation VAsioPeerInfo_vector: strict_codec "put_vector put_VAsioPeerInfo" "get_vector get_VAsioPeerInfo"
    "ok_vector ok_VAsioPeerInfo"
  by (rule VAsioPeerInfo.vector_codec)

record VAsioMsgSubscriber =
  vs_receiverIdx :: u64
  vs_networkName :: string
  vs_msgTypeName :: string
  vs_version :: u32

definition put_VAsioMsgSubscriber :: "VAsioMsgSubscriber \<Rightarrow> writer" where
  "put_VAsioMsgSubscriber subscriber = put_all
     [put_int (vs_receiverIdx subscriber), put_string (vs_networkName subscriber),
      put_string (vs_msgTypeName subscriber), put_int (vs_version subscriber)]"

definition get_VAsioMsgSubscriber :: "VAsioMsgSubscriber reader" where
  "get_VAsioMsgSubscriber =
     get_bind get_int (\<lambda>receiverIdx :: u64. get_bind get_string (\<lambda>networkName.
     get_bind get_string (\<lambda>msgTypeName. get_bind get_int (\<lambda>version :: u32.
     get_return \<lparr>vs_receiverIdx = receiverIdx, vs_networkName = networkName,
       vs_msgTypeName = msgTypeName, vs_version = version\<rparr>))))"

definition ok_VAsioMsgSubscriber :: "VAsioMsgSubscriber \<Rightarrow> bool" where
  "ok_VAsioMsgSubscriber subscriber \<longleftrightarrow>
     ok_string (vs_networkName subscriber) \<and> ok_string (vs_msgTypeName subscriber)"

interpretation VAsioMsgSubscriber: strict_codec put_VAsioMsgSubscriber get_VAsioMsgSubscriber ok_VAsioMsgSubscriber
  by (rule messageI[OF put_VAsioMsgSubscriber_def]; unfold get_VAsioMsgSubscriber_def)
    (intro codec_field safe_intro; simp add: ok_VAsioMsgSubscriber_def)+

interpretation VAsioMsgSubscriber_vector: strict_codec "put_vector put_VAsioMsgSubscriber" "get_vector get_VAsioMsgSubscriber"
    "ok_vector ok_VAsioMsgSubscriber"
  by (rule VAsioMsgSubscriber.vector_codec)

record SubscriptionAcknowledge =
  sa_status :: u8
  sa_subscriber :: VAsioMsgSubscriber

definition put_SubscriptionAcknowledge :: "SubscriptionAcknowledge \<Rightarrow> writer" where
  "put_SubscriptionAcknowledge ack = put_all
     [put_int (sa_status ack), put_VAsioMsgSubscriber (sa_subscriber ack)]"

definition get_SubscriptionAcknowledge :: "SubscriptionAcknowledge reader" where
  "get_SubscriptionAcknowledge =
     get_bind get_int (\<lambda>status :: u8.
     get_bind get_VAsioMsgSubscriber (\<lambda>subscriber.
     get_return \<lparr>sa_status = status, sa_subscriber = subscriber\<rparr>))"

definition ok_SubscriptionAcknowledge :: "SubscriptionAcknowledge \<Rightarrow> bool" where
  "ok_SubscriptionAcknowledge ack \<longleftrightarrow>
     ok_VAsioMsgSubscriber (sa_subscriber ack)"

interpretation SubscriptionAcknowledge: strict_codec put_SubscriptionAcknowledge get_SubscriptionAcknowledge ok_SubscriptionAcknowledge
  by (rule messageI[OF put_SubscriptionAcknowledge_def]; unfold get_SubscriptionAcknowledge_def)
    (intro codec_field safe_intro; simp add: ok_SubscriptionAcknowledge_def)+

record RemoteParticipantConnectRequest =
  rp_messageHeader :: RegistryMsgHeader
  rp_requestOrigin :: VAsioPeerInfo
  rp_requestTarget :: VAsioPeerInfo
  rp_status :: u8

definition put_RemoteParticipantConnectRequest :: "RemoteParticipantConnectRequest \<Rightarrow> writer" where
  "put_RemoteParticipantConnectRequest msg = put_all
     [put_RegistryMsgHeader (rp_messageHeader msg), put_VAsioPeerInfo (rp_requestOrigin msg),
      put_VAsioPeerInfo (rp_requestTarget msg), put_int (rp_status msg)]"

definition get_RemoteParticipantConnectRequest :: "RemoteParticipantConnectRequest reader" where
  "get_RemoteParticipantConnectRequest =
     get_bind get_RegistryMsgHeader (\<lambda>messageHeader.
     get_bind get_VAsioPeerInfo (\<lambda>requestOrigin.
     get_bind get_VAsioPeerInfo (\<lambda>requestTarget.
     get_bind get_int (\<lambda>status :: u8.
     get_return \<lparr>rp_messageHeader = messageHeader, rp_requestOrigin = requestOrigin,
       rp_requestTarget = requestTarget, rp_status = status\<rparr>))))"

definition ok_RemoteParticipantConnectRequest :: "RemoteParticipantConnectRequest \<Rightarrow> bool" where
  "ok_RemoteParticipantConnectRequest msg \<longleftrightarrow>
     ok_VAsioPeerInfo (rp_requestOrigin msg) \<and> ok_VAsioPeerInfo (rp_requestTarget msg)"

interpretation RemoteParticipantConnectRequest: strict_codec put_RemoteParticipantConnectRequest get_RemoteParticipantConnectRequest ok_RemoteParticipantConnectRequest
  by (rule messageI[OF put_RemoteParticipantConnectRequest_def]; unfold get_RemoteParticipantConnectRequest_def)
    (intro codec_field safe_intro; simp add: ok_RemoteParticipantConnectRequest_def)+

section \<open>The legacy structures of protocol 3.0\<close>

interpretation preamble_bytes: strict_codec put_array "get_array 4" "\<lambda>bs. length bs = 4"
  by (rule array_codec) (simp_all add: uint32_max_def)

record RegistryMsgHeader_v30 =
  oh_preambel :: bytes
  oh_versionHigh :: u16
  oh_versionLow :: u16

definition put_RegistryMsgHeader_v30 :: "RegistryMsgHeader_v30 \<Rightarrow> writer" where
  "put_RegistryMsgHeader_v30 header = put_all
     [put_array (oh_preambel header), put_int (oh_versionHigh header),
      put_int (oh_versionLow header)]"

definition get_RegistryMsgHeader_v30 :: "RegistryMsgHeader_v30 reader" where
  "get_RegistryMsgHeader_v30 =
     get_bind (get_array 4) (\<lambda>preambel. get_bind get_int (\<lambda>versionHigh :: u16.
     get_bind get_int (\<lambda>versionLow :: u16.
     get_return \<lparr>oh_preambel = preambel, oh_versionHigh = versionHigh,
       oh_versionLow = versionLow\<rparr>)))"

definition ok_RegistryMsgHeader_v30 :: "RegistryMsgHeader_v30 \<Rightarrow> bool" where
  "ok_RegistryMsgHeader_v30 header \<longleftrightarrow>
     length (oh_preambel header) = 4"

interpretation RegistryMsgHeader_v30: strict_codec put_RegistryMsgHeader_v30 get_RegistryMsgHeader_v30 ok_RegistryMsgHeader_v30
  by (rule messageI[OF put_RegistryMsgHeader_v30_def]; unfold get_RegistryMsgHeader_v30_def)
    (intro codec_field safe_intro; simp add: ok_RegistryMsgHeader_v30_def)+

record VAsioMsgSubscriber_v30 =
  os_receiverIdx :: u64
  os_networkName :: string
  os_msgTypeName :: string

definition put_VAsioMsgSubscriber_v30 :: "VAsioMsgSubscriber_v30 \<Rightarrow> writer" where
  "put_VAsioMsgSubscriber_v30 subscriber = put_all
     [put_int (os_receiverIdx subscriber), put_string (os_networkName subscriber),
      put_string (os_msgTypeName subscriber)]"

definition get_VAsioMsgSubscriber_v30 :: "VAsioMsgSubscriber_v30 reader" where
  "get_VAsioMsgSubscriber_v30 =
     get_bind get_int (\<lambda>receiverIdx :: u64. get_bind get_string (\<lambda>networkName.
     get_bind get_string (\<lambda>msgTypeName.
     get_return \<lparr>os_receiverIdx = receiverIdx, os_networkName = networkName,
       os_msgTypeName = msgTypeName\<rparr>)))"

definition ok_VAsioMsgSubscriber_v30 :: "VAsioMsgSubscriber_v30 \<Rightarrow> bool" where
  "ok_VAsioMsgSubscriber_v30 subscriber \<longleftrightarrow>
     ok_string (os_networkName subscriber) \<and> ok_string (os_msgTypeName subscriber)"

interpretation VAsioMsgSubscriber_v30: strict_codec put_VAsioMsgSubscriber_v30 get_VAsioMsgSubscriber_v30 ok_VAsioMsgSubscriber_v30
  by (rule messageI[OF put_VAsioMsgSubscriber_v30_def]; unfold get_VAsioMsgSubscriber_v30_def)
    (intro codec_field safe_intro; simp add: ok_VAsioMsgSubscriber_v30_def)+

interpretation VAsioMsgSubscriber_v30_vector: strict_codec "put_vector put_VAsioMsgSubscriber_v30" "get_vector get_VAsioMsgSubscriber_v30"
    "ok_vector ok_VAsioMsgSubscriber_v30"
  by (rule VAsioMsgSubscriber_v30.vector_codec)

record VAsioPeerInfo_v30 =
  op_participantName :: string
  op_participantId :: u64
  op_acceptorHost :: string
  op_acceptorPort :: u16

definition put_VAsioPeerInfo_v30 :: "VAsioPeerInfo_v30 \<Rightarrow> writer" where
  "put_VAsioPeerInfo_v30 peerInfo = put_all
     [put_string (op_participantName peerInfo), put_int (op_participantId peerInfo),
      put_string (op_acceptorHost peerInfo), put_int (op_acceptorPort peerInfo)]"

definition get_VAsioPeerInfo_v30 :: "VAsioPeerInfo_v30 reader" where
  "get_VAsioPeerInfo_v30 =
     get_bind get_string (\<lambda>participantName.
     get_bind get_int (\<lambda>participantId :: u64.
     get_bind get_string (\<lambda>acceptorHost.
     get_bind get_int (\<lambda>acceptorPort :: u16.
     get_return \<lparr>op_participantName = participantName, op_participantId = participantId,
       op_acceptorHost = acceptorHost, op_acceptorPort = acceptorPort\<rparr>))))"

definition ok_VAsioPeerInfo_v30 :: "VAsioPeerInfo_v30 \<Rightarrow> bool" where
  "ok_VAsioPeerInfo_v30 peerInfo \<longleftrightarrow>
     ok_string (op_participantName peerInfo) \<and> ok_string (op_acceptorHost peerInfo)"

interpretation VAsioPeerInfo_v30: strict_codec put_VAsioPeerInfo_v30 get_VAsioPeerInfo_v30 ok_VAsioPeerInfo_v30
  by (rule messageI[OF put_VAsioPeerInfo_v30_def]; unfold get_VAsioPeerInfo_v30_def)
    (intro codec_field safe_intro; simp add: ok_VAsioPeerInfo_v30_def)+

interpretation VAsioPeerInfo_v30_vector: strict_codec "put_vector put_VAsioPeerInfo_v30" "get_vector get_VAsioPeerInfo_v30"
    "ok_vector ok_VAsioPeerInfo_v30"
  by (rule VAsioPeerInfo_v30.vector_codec)

record VAsioPeerUri_v30 =
  ou_participantName :: string
  ou_participantId :: u64
  ou_acceptorUris :: "string list"

definition put_VAsioPeerUri_v30 :: "VAsioPeerUri_v30 \<Rightarrow> writer" where
  "put_VAsioPeerUri_v30 peerUri = put_all
     [put_string (ou_participantName peerUri), put_int (ou_participantId peerUri),
      put_vector put_string (ou_acceptorUris peerUri)]"

definition get_VAsioPeerUri_v30 :: "VAsioPeerUri_v30 reader" where
  "get_VAsioPeerUri_v30 =
     get_bind get_string (\<lambda>participantName.
     get_bind get_int (\<lambda>participantId :: u64.
     get_bind (get_vector get_string) (\<lambda>acceptorUris.
     get_return \<lparr>ou_participantName = participantName, ou_participantId = participantId,
       ou_acceptorUris = acceptorUris\<rparr>)))"

definition ok_VAsioPeerUri_v30 :: "VAsioPeerUri_v30 \<Rightarrow> bool" where
  "ok_VAsioPeerUri_v30 peerUri \<longleftrightarrow>
     ok_string (ou_participantName peerUri) \<and> ok_vector ok_string (ou_acceptorUris peerUri)"

interpretation VAsioPeerUri_v30: strict_codec put_VAsioPeerUri_v30 get_VAsioPeerUri_v30 ok_VAsioPeerUri_v30
  by (rule messageI[OF put_VAsioPeerUri_v30_def]; unfold get_VAsioPeerUri_v30_def)
    (intro codec_field safe_intro; simp add: ok_VAsioPeerUri_v30_def)+

interpretation VAsioPeerUri_v30_vector: strict_codec "put_vector put_VAsioPeerUri_v30" "get_vector get_VAsioPeerUri_v30"
    "ok_vector ok_VAsioPeerUri_v30"
  by (rule VAsioPeerUri_v30.vector_codec)

record ParticipantAnnouncement_v30 =
  oa_messageHeader :: RegistryMsgHeader_v30
  oa_peerInfo :: VAsioPeerInfo_v30
  oa_peerUri :: VAsioPeerUri_v30

definition put_ParticipantAnnouncement_v30 :: "ParticipantAnnouncement_v30 \<Rightarrow> writer" where
  "put_ParticipantAnnouncement_v30 announcement = put_all
     [put_RegistryMsgHeader_v30 (oa_messageHeader announcement),
      put_VAsioPeerInfo_v30 (oa_peerInfo announcement),
      put_VAsioPeerUri_v30 (oa_peerUri announcement)]"

definition get_ParticipantAnnouncement_v30 :: "ParticipantAnnouncement_v30 reader" where
  "get_ParticipantAnnouncement_v30 =
     get_bind get_RegistryMsgHeader_v30 (\<lambda>messageHeader.
     get_bind get_VAsioPeerInfo_v30 (\<lambda>peerInfo.
     get_bind get_VAsioPeerUri_v30 (\<lambda>peerUri.
     get_return \<lparr>oa_messageHeader = messageHeader, oa_peerInfo = peerInfo,
       oa_peerUri = peerUri\<rparr>)))"

definition ok_ParticipantAnnouncement_v30 :: "ParticipantAnnouncement_v30 \<Rightarrow> bool" where
  "ok_ParticipantAnnouncement_v30 announcement \<longleftrightarrow>
     ok_RegistryMsgHeader_v30 (oa_messageHeader announcement) \<and>
     ok_VAsioPeerInfo_v30 (oa_peerInfo announcement) \<and>
     ok_VAsioPeerUri_v30 (oa_peerUri announcement)"

interpretation ParticipantAnnouncement_v30: strict_codec put_ParticipantAnnouncement_v30 get_ParticipantAnnouncement_v30 ok_ParticipantAnnouncement_v30
  by (rule messageI[OF put_ParticipantAnnouncement_v30_def]; unfold get_ParticipantAnnouncement_v30_def)
    (intro codec_field safe_intro; simp add: ok_ParticipantAnnouncement_v30_def)+

record KnownParticipants_v30 =
  ko_messageHeader :: RegistryMsgHeader_v30
  ko_peerInfos :: "VAsioPeerInfo_v30 list"
  ko_peerUris :: "VAsioPeerUri_v30 list"

definition put_KnownParticipants_v30 :: "KnownParticipants_v30 \<Rightarrow> writer" where
  "put_KnownParticipants_v30 participants = put_all
     [put_RegistryMsgHeader_v30 (ko_messageHeader participants),
      put_vector put_VAsioPeerInfo_v30 (ko_peerInfos participants),
      put_vector put_VAsioPeerUri_v30 (ko_peerUris participants)]"

definition get_KnownParticipants_v30 :: "KnownParticipants_v30 reader" where
  "get_KnownParticipants_v30 =
     get_bind get_RegistryMsgHeader_v30 (\<lambda>messageHeader.
     get_bind (get_vector get_VAsioPeerInfo_v30) (\<lambda>peerInfos.
     get_bind (get_if_left 1 [] (get_vector get_VAsioPeerUri_v30)) (\<lambda>peerUris.
     get_return \<lparr>ko_messageHeader = messageHeader, ko_peerInfos = peerInfos,
       ko_peerUris = peerUris\<rparr>)))"

definition ok_KnownParticipants_v30 :: "KnownParticipants_v30 \<Rightarrow> bool" where
  "ok_KnownParticipants_v30 participants \<longleftrightarrow>
     ok_RegistryMsgHeader_v30 (ko_messageHeader participants) \<and>
     ok_vector ok_VAsioPeerInfo_v30 (ko_peerInfos participants) \<and>
     ok_vector ok_VAsioPeerUri_v30 (ko_peerUris participants)"

interpretation KnownParticipants_v30: wire_codec put_KnownParticipants_v30 get_KnownParticipants_v30 ok_KnownParticipants_v30
  by (rule growing_messageI[OF put_KnownParticipants_v30_def]; unfold get_KnownParticipants_v30_def)
    (intro tail_field safe_intro; simp add: ok_KnownParticipants_v30_def)+

lemma KnownParticipants_v30_legacy:
  assumes "ok_KnownParticipants_v30 participants"
  shows "rt_end
     [put_RegistryMsgHeader_v30 (ko_messageHeader participants),
      put_vector put_VAsioPeerInfo_v30 (ko_peerInfos participants)]
     get_KnownParticipants_v30 (participants\<lparr>ko_peerUris := []\<rparr>)"
  using assms unfolding get_KnownParticipants_v30_def ok_KnownParticipants_v30_def
  by (intro tail_field) simp_all

record ParticipantAnnouncementReply_v30 =
  or_subscribers :: "VAsioMsgSubscriber_v30 list"

definition put_ParticipantAnnouncementReply_v30 :: "ParticipantAnnouncementReply_v30 \<Rightarrow> writer" where
  "put_ParticipantAnnouncementReply_v30 reply = put_all
     [put_vector put_VAsioMsgSubscriber_v30 (or_subscribers reply)]"

definition get_ParticipantAnnouncementReply_v30 :: "ParticipantAnnouncementReply_v30 reader" where
  "get_ParticipantAnnouncementReply_v30 =
     get_bind (get_vector get_VAsioMsgSubscriber_v30) (\<lambda>subscribers.
     get_return \<lparr>or_subscribers = subscribers\<rparr>)"

definition ok_ParticipantAnnouncementReply_v30 :: "ParticipantAnnouncementReply_v30 \<Rightarrow> bool" where
  "ok_ParticipantAnnouncementReply_v30 reply \<longleftrightarrow>
     ok_vector ok_VAsioMsgSubscriber_v30 (or_subscribers reply)"

interpretation ParticipantAnnouncementReply_v30: strict_codec put_ParticipantAnnouncementReply_v30 get_ParticipantAnnouncementReply_v30 ok_ParticipantAnnouncementReply_v30
  by (rule messageI[OF put_ParticipantAnnouncementReply_v30_def]; unfold get_ParticipantAnnouncementReply_v30_def)
    (intro codec_field safe_intro; simp add: ok_ParticipantAnnouncementReply_v30_def)+

text \<open>The default member initialisers of the legacy structures.\<close>

definition default_RegistryMsgHeader_v30 :: RegistryMsgHeader_v30 where
  "default_RegistryMsgHeader_v30 =
     \<lparr>oh_preambel = [0x56, 0x49, 0x42, 0x2d], oh_versionHigh = 3, oh_versionLow = 0\<rparr>"

definition default_VAsioPeerInfo_v30 :: VAsioPeerInfo_v30 where
  "default_VAsioPeerInfo_v30 =
     \<lparr>op_participantName = [], op_participantId = 0, op_acceptorHost = [], op_acceptorPort = 0\<rparr>"

section \<open>The handshake messages of the current protocol\<close>

record ParticipantAnnouncement =
  pa_messageHeader :: RegistryMsgHeader
  pa_peerInfo :: VAsioPeerInfo
  pa_simulationName :: string

record ParticipantAnnouncementReply =
  pr_remoteHeader :: RegistryMsgHeader
  pr_status :: u8
  pr_subscribers :: "VAsioMsgSubscriber list"
  pr_diagnostic :: string

record KnownParticipants =
  kp_messageHeader :: RegistryMsgHeader
  kp_peerInfos :: "VAsioPeerInfo list"

text \<open>Conversions between the two generations.\<close>

definition PeerUri_of_PeerInfo :: "VAsioPeerInfo \<Rightarrow> VAsioPeerUri_v30" where
  "PeerUri_of_PeerInfo info =
     \<lparr>ou_participantName = pi_participantName info, ou_participantId = pi_participantId info,
      ou_acceptorUris = pi_acceptorUris info\<rparr>"

definition PeerInfo_of_PeerUri :: "VAsioPeerUri_v30 \<Rightarrow> VAsioPeerInfo" where
  "PeerInfo_of_PeerUri uri =
     \<lparr>pi_participantName = ou_participantName uri, pi_participantId = ou_participantId uri,
      pi_acceptorUris = ou_acceptorUris uri, pi_capabilities = []\<rparr>"

definition SerializeV30_ParticipantAnnouncement :: "ParticipantAnnouncement \<Rightarrow> writer" where
  "SerializeV30_ParticipantAnnouncement announcement =
     put_ParticipantAnnouncement_v30
       \<lparr>oa_messageHeader = default_RegistryMsgHeader_v30, oa_peerInfo = default_VAsioPeerInfo_v30,
        oa_peerUri = PeerUri_of_PeerInfo (pa_peerInfo announcement)\<rparr>"

definition DeserializeV30_ParticipantAnnouncement :: "ParticipantAnnouncement reader" where
  "DeserializeV30_ParticipantAnnouncement =
     get_bind get_ParticipantAnnouncement_v30 (\<lambda>oldAnnouncement. get_return
       \<lparr>pa_messageHeader = default_RegistryMsgHeader
          \<lparr>rh_versionHigh := oh_versionHigh (oa_messageHeader oldAnnouncement),
           rh_versionLow := oh_versionLow (oa_messageHeader oldAnnouncement)\<rparr>,
        pa_peerInfo = PeerInfo_of_PeerUri (oa_peerUri oldAnnouncement), pa_simulationName = []\<rparr>)"

definition SerializeV30_ParticipantAnnouncementReply :: "ParticipantAnnouncementReply \<Rightarrow> writer" where
  "SerializeV30_ParticipantAnnouncementReply reply =
     put_ParticipantAnnouncementReply_v30
       \<lparr>or_subscribers = map (\<lambda>subscriber.
          \<lparr>os_receiverIdx = vs_receiverIdx subscriber, os_networkName = vs_networkName subscriber,
           os_msgTypeName = vs_msgTypeName subscriber\<rparr>) (pr_subscribers reply)\<rparr>"

definition DeserializeV30_ParticipantAnnouncementReply :: "ParticipantAnnouncementReply reader" where
  "DeserializeV30_ParticipantAnnouncementReply =
     get_bind get_ParticipantAnnouncementReply_v30 (\<lambda>oldReply. get_return
       \<lparr>pr_remoteHeader = default_RegistryMsgHeader\<lparr>rh_versionHigh := 3, rh_versionLow := 0\<rparr>,
        pr_status = 1,
        pr_subscribers = map (\<lambda>subscriber.
          \<lparr>vs_receiverIdx = os_receiverIdx subscriber, vs_networkName = os_networkName subscriber,
           vs_msgTypeName = os_msgTypeName subscriber, vs_version = 0\<rparr>) (or_subscribers oldReply),
        pr_diagnostic = []\<rparr>)"

definition SerializeV30_KnownParticipants :: "KnownParticipants \<Rightarrow> writer" where
  "SerializeV30_KnownParticipants participants =
     put_KnownParticipants_v30
       \<lparr>ko_messageHeader = default_RegistryMsgHeader_v30\<lparr>oh_versionHigh := 3, oh_versionLow := 0\<rparr>,
        ko_peerInfos = [], ko_peerUris = map PeerUri_of_PeerInfo (kp_peerInfos participants)\<rparr>"

definition DeserializeV30_KnownParticipants :: "KnownParticipants reader" where
  "DeserializeV30_KnownParticipants =
     get_bind get_KnownParticipants_v30 (\<lambda>oldParticipants. get_return
       \<lparr>kp_messageHeader = default_RegistryMsgHeader\<lparr>rh_versionHigh := 3, rh_versionLow := 0\<rparr>,
        kp_peerInfos = map PeerInfo_of_PeerUri (ko_peerUris oldParticipants)\<rparr>)"

text \<open>
  The operators dispatch on the version of the buffer. The announcement, being the first message of
  a handshake, also sets that version from its own header when it is written.
\<close>

definition put_ParticipantAnnouncement :: "ParticipantAnnouncement \<Rightarrow> writer" where
  "put_ParticipantAnnouncement announcement b =
     (let b = SetProtocolVersion (ExtractProtocolVersion (pa_messageHeader announcement)) b
      in if GetProtocolVersion b = v30
         then SerializeV30_ParticipantAnnouncement announcement b
         else put_all
           [put_RegistryMsgHeader (pa_messageHeader announcement),
            put_VAsioPeerInfo (pa_peerInfo announcement), put_string (pa_simulationName announcement)] b)"

definition get_default_ParticipantAnnouncement :: "ParticipantAnnouncement reader" where
  "get_default_ParticipantAnnouncement =
     get_bind get_RegistryMsgHeader (\<lambda>messageHeader. get_bind get_VAsioPeerInfo (\<lambda>peerInfo.
     get_bind (get_if_left 1 [] get_string) (\<lambda>simulationName.
     get_return \<lparr>pa_messageHeader = messageHeader, pa_peerInfo = peerInfo,
       pa_simulationName = simulationName\<rparr>)))"

definition get_ParticipantAnnouncement :: "ParticipantAnnouncement reader" where
  "get_ParticipantAnnouncement b =
     (if GetProtocolVersion b = v30 then DeserializeV30_ParticipantAnnouncement b
      else get_default_ParticipantAnnouncement b)"

definition put_ParticipantAnnouncementReply :: "ParticipantAnnouncementReply \<Rightarrow> writer" where
  "put_ParticipantAnnouncementReply reply b =
     (if GetProtocolVersion b = v30 then SerializeV30_ParticipantAnnouncementReply reply b
      else put_all
        [put_RegistryMsgHeader (pr_remoteHeader reply), put_int (pr_status reply),
         put_vector put_VAsioMsgSubscriber (pr_subscribers reply), put_string (pr_diagnostic reply)] b)"

definition get_default_ParticipantAnnouncementReply :: "ParticipantAnnouncementReply reader" where
  "get_default_ParticipantAnnouncementReply =
     get_bind get_RegistryMsgHeader (\<lambda>remoteHeader. get_bind get_int (\<lambda>status :: u8.
     get_bind (get_vector get_VAsioMsgSubscriber) (\<lambda>subscribers.
     get_bind (get_if_left 1 [] get_string) (\<lambda>diagnostic.
     get_return \<lparr>pr_remoteHeader = remoteHeader, pr_status = status,
       pr_subscribers = subscribers, pr_diagnostic = diagnostic\<rparr>))))"

definition get_ParticipantAnnouncementReply :: "ParticipantAnnouncementReply reader" where
  "get_ParticipantAnnouncementReply b =
     (if GetProtocolVersion b = v30 then DeserializeV30_ParticipantAnnouncementReply b
      else get_default_ParticipantAnnouncementReply b)"

definition put_KnownParticipants :: "KnownParticipants \<Rightarrow> writer" where
  "put_KnownParticipants participants b =
     (if GetProtocolVersion b = v30 then SerializeV30_KnownParticipants participants b
      else put_all
        [put_RegistryMsgHeader (kp_messageHeader participants),
         put_vector put_VAsioPeerInfo (kp_peerInfos participants)] b)"

definition get_default_KnownParticipants :: "KnownParticipants reader" where
  "get_default_KnownParticipants =
     get_bind get_RegistryMsgHeader (\<lambda>messageHeader.
     get_bind (get_vector get_VAsioPeerInfo) (\<lambda>peerInfos.
     get_return \<lparr>kp_messageHeader = messageHeader, kp_peerInfos = peerInfos\<rparr>))"

definition get_KnownParticipants :: "KnownParticipants reader" where
  "get_KnownParticipants b =
     (if GetProtocolVersion b = v30 then DeserializeV30_KnownParticipants b
      else get_default_KnownParticipants b)"

section \<open>Proxy messages\<close>

record ProxyMessageHeader =
  ph_version :: u8

record ProxyMessage =
  pm_header :: ProxyMessageHeader
  pm_source :: string
  pm_destination :: string
  pm_payload :: bytes

definition proxy_unsupported :: wire_error where
  "proxy_unsupported = ProtocolError ''ProxyMessage is not supported in protocol versions < 3.1''"

definition put_ProxyMessageHeader :: "ProxyMessageHeader \<Rightarrow> writer" where
  "put_ProxyMessageHeader msg b =
     (if version_less (GetProtocolVersion b) v31 then Inl proxy_unsupported
      else put_int (ph_version msg) b)"

definition get_ProxyMessageHeader :: "ProxyMessageHeader reader" where
  "get_ProxyMessageHeader b =
     (if version_less (GetProtocolVersion b) v31 then Inl proxy_unsupported
      else get_bind get_int (\<lambda>version :: u8. get_return \<lparr>ph_version = version\<rparr>) b)"

definition put_ProxyMessage :: "ProxyMessage \<Rightarrow> writer" where
  "put_ProxyMessage msg b =
     (if version_less (GetProtocolVersion b) v31 then Inl proxy_unsupported
      else put_all
        [put_ProxyMessageHeader (pm_header msg), put_string (pm_source msg),
         put_string (pm_destination msg), put_bytes (pm_payload msg)] b)"

definition get_ProxyMessage :: "ProxyMessage reader" where
  "get_ProxyMessage b =
     (if version_less (GetProtocolVersion b) v31 then Inl proxy_unsupported
      else get_bind get_ProxyMessageHeader (\<lambda>header. get_bind get_string (\<lambda>source.
           get_bind get_string (\<lambda>destination. get_bind get_bytes (\<lambda>payload.
           get_return \<lparr>pm_header = header, pm_source = source, pm_destination = destination,
             pm_payload = payload\<rparr>)))) b)"

end
