(* ===== verification/Serialized_Message.thy ===== *)
theory Serialized_Message
  imports VAsio_Messages
begin

text \<open>
  Framing of messages: \<^verbatim>\<open>SerializedMessage\<close> (core/vasio/SerializedMessage.cpp and .hpp) puts the
  network headers in front of a serialised message, patches the total size into the first four
  bytes when the storage is released, and parses the headers of a received blob. The locale
  \<open>versioned_codec\<close> is the contract the framing relies on: a serialiser for buffers of one protocol
  version, whose reader may return an older view of the message. Every \<open>wire_codec\<close> satisfies it.
\<close>

section \<open>Message kinds\<close>

abbreviation SubscriptionAnnouncement_kind :: u8 where "SubscriptionAnnouncement_kind \<equiv> 1"
abbreviation SubscriptionAcknowledge_kind :: u8 where "SubscriptionAcknowledge_kind \<equiv> 2"
abbreviation SilKitMwMsg :: u8 where "SilKitMwMsg \<equiv> 3"
abbreviation SilKitSimMsg :: u8 where "SilKitSimMsg \<equiv> 4"
abbreviation SilKitRegistryMessage :: u8 where "SilKitRegistryMessage \<equiv> 5"
abbreviation SilKitProxyMessage :: u8 where "SilKitProxyMessage \<equiv> 6"

text \<open>
  The message types that the traits distinguish. \<open>T_Other\<close> stands for every type that no
  specialisation names.
\<close>

datatype message_type =
    T_ParticipantAnnouncement | T_ParticipantAnnouncementReply | T_KnownParticipants
  | T_RemoteParticipantConnectRequest | T_SubscriptionAcknowledge | T_VAsioMsgSubscriber
  | T_ProxyMessage | T_NextSimTask | T_ParticipantStatus | T_WireDataMessageEvent
  | T_FunctionCall | T_FunctionCallResponse | T_WireCanFrameEvent | T_WireEthernetFrameEvent
  | T_Other

fun messageKind :: "message_type \<Rightarrow> u8" where
  "messageKind T_ParticipantAnnouncement = SilKitRegistryMessage"
| "messageKind T_ParticipantAnnouncementReply = SilKitRegistryMessage"
| "messageKind T_KnownParticipants = SilKitRegistryMessage"
| "messageKind T_RemoteParticipantConnectRequest = SilKitRegistryMessage"
| "messageKind T_SubscriptionAcknowledge = SubscriptionAcknowledge_kind"
| "messageKind T_VAsioMsgSubscriber = SubscriptionAnnouncement_kind"
| "messageKind T_ProxyMessage = SilKitProxyMessage"
| "messageKind _ = SilKitMwMsg"

fun registryMessageKind :: "message_type \<Rightarrow> u8" where
  "registryMessageKind T_ParticipantAnnouncement = 1"
| "registryMessageKind T_ParticipantAnnouncementReply = 2"
| "registryMessageKind T_KnownParticipants = 3"
| "registryMessageKind T_RemoteParticipantConnectRequest = 4"
| "registryMessageKind _ = 0"

datatype MessageAggregationKind = UserDataMessage | FlushAggregationMessage | OtherMessage

fun aggregationKind :: "message_type \<Rightarrow> MessageAggregationKind" where
  "aggregationKind T_NextSimTask = FlushAggregationMessage"
| "aggregationKind T_ParticipantStatus = FlushAggregationMessage"
| "aggregationKind T_WireDataMessageEvent = UserDataMessage"
| "aggregationKind T_FunctionCall = UserDataMessage"
| "aggregationKind T_FunctionCallResponse = UserDataMessage"
| "aggregationKind T_WireCanFrameEvent = UserDataMessage"
| "aggregationKind T_WireEthernetFrameEvent = UserDataMessage"
| "aggregationKind _ = OtherMessage"

definition IsMwOrSim :: "u8 \<Rightarrow> bool" where
  "IsMwOrSim kind \<longleftrightarrow> kind = SilKitMwMsg \<or> kind = SilKitSimMsg"

section \<open>The framed message\<close>

record SerializedMessage =
  sm_messageSize :: u32
  sm_messageKind :: u8
  sm_registryKind :: u8
  sm_aggregationKind :: MessageAggregationKind
  sm_endpointAddress :: EndpointAddress
  sm_remoteIndex :: u64
  sm_registryMessageHeader :: RegistryMsgHeader
  sm_proxyMessageHeader :: ProxyMessageHeader
  sm_buffer :: MessageBuffer

text \<open>
  The members before any constructor body runs. (The proxy header has no initialiser; its value
  is read only for proxy messages, after it was set.)
\<close>

definition blank_SerializedMessage :: "MessageBuffer \<Rightarrow> SerializedMessage" where
  "blank_SerializedMessage b =
     \<lparr>sm_messageSize = 0, sm_messageKind = 0, sm_registryKind = 0,
      sm_aggregationKind = OtherMessage,
      sm_endpointAddress = \<lparr>ea_participant = 0, ea_endpoint = 0\<rparr>, sm_remoteIndex = 0,
      sm_registryMessageHeader = default_RegistryMsgHeader,
      sm_proxyMessageHeader = \<lparr>ph_version = 0\<rparr>, sm_buffer = b\<rparr>"

definition WriteNetworkHeaders :: "SerializedMessage \<Rightarrow> wire_error + SerializedMessage" where
  "WriteNetworkHeaders m =
     bindE (put_all
       ([put_int (sm_messageSize m), put_int (sm_messageKind m)] @
        (if sm_messageKind m = SilKitRegistryMessage then [put_int (sm_registryKind m)] else []) @
        (if IsMwOrSim (sm_messageKind m)
         then [put_int (sm_remoteIndex m), put_EndpointAddress (sm_endpointAddress m)] else []))
       (sm_buffer m)) (\<lambda>b. Inr (m\<lparr>sm_buffer := b\<rparr>))"

text \<open>
  \<^verbatim>\<open>PeekRegistryMessageHeader\<close> copies the eight bytes behind the read position with memcpy, without
  looking at the size of the storage, and parses the copy.
\<close>

definition PeekRegistryMessageHeader :: "MessageBuffer \<Rightarrow> wire_error + RegistryMsgHeader" where
  "PeekRegistryMessageHeader buffer =
     (let data = PeekData buffer; readPos = rPos buffer
      in if readPos + 8 > length data then Inl out_of_bounds_read
         else bindE (get_RegistryMsgHeader (MessageBuffer_of (take 8 (drop readPos data))))
                (\<lambda>(header, _). Inr header))"

definition PeekProxyMessageHeader :: "MessageBuffer \<Rightarrow> wire_error + ProxyMessageHeader \<times> MessageBuffer" where
  "PeekProxyMessageHeader buffer =
     (let (r, b) = with_peeker get_ProxyMessageHeader buffer in bindE r (\<lambda>header. Inr (header, b)))"

definition read_registry_header :: "SerializedMessage \<Rightarrow> wire_error + SerializedMessage" where
  "read_registry_header m =
     bindE (get_int (sm_buffer m)) (\<lambda>(kind :: u8, b).
       let m = m\<lparr>sm_registryKind := kind, sm_buffer := b\<rparr>;
           peeked = bindE (PeekRegistryMessageHeader b)
             (\<lambda>header. Inr (m\<lparr>sm_registryMessageHeader := header\<rparr>))
       in if kind = 1 \<or> kind = 3 \<or> kind = 4 then peeked
          else if kind = 2 then
            (if GetProtocolVersion b = v31 then peeked
             else if GetProtocolVersion b = v30
             then Inr (m\<lparr>sm_registryMessageHeader :=
                      default_RegistryMsgHeader\<lparr>rh_versionHigh := 3, rh_versionLow := 0\<rparr>\<rparr>)
             else Inl (ProtocolError
               ''SerializedMessage: Unsupported protocol version encountered during handshake''))
          else if kind = 0 then Inl (ProtocolError
            ''SerializedMessage: ReadNetworkHeaders() encountered RegistryMessageKind::Invalid'')
          else Inr m)"

definition ReadNetworkHeaders :: "SerializedMessage \<Rightarrow> wire_error + SerializedMessage" where
  "ReadNetworkHeaders m =
     bindE (get_int (sm_buffer m)) (\<lambda>(size :: u32, b).
     bindE (get_int b) (\<lambda>(kind :: u8, b).
     bindE (let m = m\<lparr>sm_messageSize := size, sm_messageKind := kind, sm_buffer := b\<rparr>
            in if kind = SilKitRegistryMessage then read_registry_header m else Inr m) (\<lambda>m.
     bindE (if kind = SilKitProxyMessage
            then bindE (PeekProxyMessageHeader (sm_buffer m))
                   (\<lambda>(header, b). Inr (m\<lparr>sm_proxyMessageHeader := header, sm_buffer := b\<rparr>))
            else Inr m) (\<lambda>m.
     if IsMwOrSim kind
     then bindE (get_int (sm_buffer m)) (\<lambda>(remoteIndex :: u64, b).
          bindE (get_EndpointAddress b) (\<lambda>(endpointAddress, b).
          Inr (m\<lparr>sm_remoteIndex := remoteIndex, sm_endpointAddress := endpointAddress,
                 sm_buffer := b\<rparr>)))
     else Inr m))))"

text \<open>The constructors: without and with an explicit protocol version, and with an address.\<close>

definition frame_message ::
    "message_type \<Rightarrow> ('a \<Rightarrow> writer) \<Rightarrow> 'a \<Rightarrow> SerializedMessage \<Rightarrow> wire_error + SerializedMessage" where
  "frame_message T put message m =
     bindE (WriteNetworkHeaders (m\<lparr>sm_messageKind := messageKind T,
              sm_registryKind := registryMessageKind T, sm_aggregationKind := aggregationKind T\<rparr>)) (\<lambda>m.
     bindE (put message (sm_buffer m)) (\<lambda>b. ReadNetworkHeaders (m\<lparr>sm_buffer := b\<rparr>)))"

definition SerializedMessage_of ::
    "message_type \<Rightarrow> ('a \<Rightarrow> writer) \<Rightarrow> 'a \<Rightarrow> wire_error + SerializedMessage" where
  "SerializedMessage_of T put message =
     frame_message T put message (blank_SerializedMessage empty_MessageBuffer)"

definition SerializedMessage_versioned ::
    "ProtocolVersion \<Rightarrow> message_type \<Rightarrow> ('a \<Rightarrow> writer) \<Rightarrow> 'a \<Rightarrow> wire_error + SerializedMessage" where
  "SerializedMessage_versioned version T put message =
     frame_message T put message
       (blank_SerializedMessage (SetProtocolVersion version empty_MessageBuffer))"

definition SerializedMessage_addressed ::
    "message_type \<Rightarrow> ('a \<Rightarrow> writer) \<Rightarrow> 'a \<Rightarrow> EndpointAddress \<Rightarrow> u64 \<Rightarrow> wire_error + SerializedMessage" where
  "SerializedMessage_addressed T put message endpointAddress remoteIndex =
     frame_message T put message ((blank_SerializedMessage empty_MessageBuffer)
       \<lparr>sm_remoteIndex := remoteIndex, sm_endpointAddress := endpointAddress\<rparr>)"

definition SerializedMessage_of_blob :: "bytes \<Rightarrow> wire_error + SerializedMessage" where
  "SerializedMessage_of_blob blob = ReadNetworkHeaders (blank_SerializedMessage (MessageBuffer_of blob))"

definition SerializedMessage_ReleaseStorage :: "SerializedMessage \<Rightarrow> wire_error + bytes" where
  "SerializedMessage_ReleaseStorage m =
     (let buffer = fst (ReleaseStorage (sm_buffer m))
      in if length buffer > uint32_max
         then Inl (SilKitError ''SerializedMessage::Serialize: message buffer is too large'')
         else Inr (overwrite 0 (le_bytes 4 (of_nat (length buffer) :: u32)) buffer))"

definition SerializedMessage_Deserialize :: "'a reader \<Rightarrow> SerializedMessage \<Rightarrow> wire_error + 'a \<times> SerializedMessage" where
  "SerializedMessage_Deserialize get m =
     bindE (get (sm_buffer m)) (\<lambda>(x, b). Inr (x, m\<lparr>sm_buffer := b\<rparr>))"

definition SerializedMessage_SetProtocolVersion :: "ProtocolVersion \<Rightarrow> SerializedMessage \<Rightarrow> SerializedMessage" where
  "SerializedMessage_SetProtocolVersion version m =
     m\<lparr>sm_buffer := SetProtocolVersion version (sm_buffer m)\<rparr>"

definition wrong_kind :: "SerializedMessage \<Rightarrow> wire_error" where
  "wrong_kind m = SilKitError (''SerializedMessage::GetEndpointAddress called on wrong message kind: '' @
     nat_to_string (unat (sm_messageKind m)))"

definition GetRemoteIndex :: "SerializedMessage \<Rightarrow> wire_error + u64" where
  "GetRemoteIndex m =
     (if \<not> IsMwOrSim (sm_messageKind m)
      then Inl (wrong_kind m)
      else Inr (sm_remoteIndex m))"

definition GetEndpointAddress :: "SerializedMessage \<Rightarrow> wire_error + EndpointAddress" where
  "GetEndpointAddress m =
     (if \<not> IsMwOrSim (sm_messageKind m)
      then Inl (wrong_kind m)
      else Inr (sm_endpointAddress m))"

section \<open>The contract of a serialiser at one protocol version\<close>

definition writes_at :: "ProtocolVersion \<Rightarrow> writer \<Rightarrow> bytes \<Rightarrow> bool" where
  "writes_at v p bs \<longleftrightarrow> (\<forall>b. wf_buffer b \<longrightarrow> protocolVersion b = v \<longrightarrow> p b = Inr (append_bytes bs b))"

definition reads_at :: "ProtocolVersion \<Rightarrow> 'a reader \<Rightarrow> bytes \<Rightarrow> 'a \<Rightarrow> bool" where
  "reads_at v g bs x \<longleftrightarrow> (\<forall>b pre. protocolVersion b = v \<longrightarrow> storage b = pre @ bs \<longrightarrow>
     rPos b = length pre \<longrightarrow> g b = Inr (x, b\<lparr>rPos := length pre + length bs\<rparr>))"

lemma writes_at: "writes p bs \<Longrightarrow> writes_at v p bs"
  by (simp add: writes_at_def writes_def)

lemma reads_at: "reads g bs x \<Longrightarrow> reads_at v g bs x"
  unfolding reads_at_def using readsD[of g bs x _ _ "[]"] by auto

locale versioned_codec =
  fixes v :: ProtocolVersion and put :: "'a \<Rightarrow> writer" and get :: "'a reader"
    and ok :: "'a \<Rightarrow> bool" and view :: "'a \<Rightarrow> 'a"
  assumes carries: "ok x \<Longrightarrow> \<exists>bs. writes_at v (put x) bs \<and> reads_at v get bs (view x)"

context wire_codec
begin

lemma versioned: "versioned_codec v put get ok (\<lambda>x. x)"
proof
  show "\<exists>bs. writes_at v (put x) bs \<and> reads_at v get bs x" if "ok x" for x
  proof -
    from roundtrip[OF that] obtain bs where "writes (put x) bs" "reads get bs x" by blast
    then show ?thesis by (intro exI[of _ bs] conjI writes_at reads_at)
  qed
qed

end

lemma version_append_bytes [simp]: "protocolVersion (append_bytes bs b) = protocolVersion b"
    "rPos (append_bytes bs b) = rPos b"
    "protocolVersion empty_MessageBuffer = CurrentProtocolVersion"
    "rPos empty_MessageBuffer = 0"
  by (simp_all add: append_bytes_def empty_MessageBuffer_def)

section \<open>Headers\<close>

text \<open>The bytes of the network headers of an addressed (service) message.\<close>

definition mw_header :: "u32 \<Rightarrow> u64 \<Rightarrow> EndpointAddress \<Rightarrow> bytes" where
  "mw_header n idx addr = le_bytes 4 n @ [SilKitMwMsg] @ le_bytes 8 idx @
     le_bytes 8 (ea_participant addr) @ le_bytes 8 (ea_endpoint addr)"

lemma reads_int: "8 dvd LENGTH('a) \<Longrightarrow> n = LENGTH('a) div 8 \<Longrightarrow> reads get_int (le_bytes n (w :: 'a::len word)) w"
  using strict_codec_int[where 'a = 'a] writes_put_int writes_unique
  by (metis strict_codec.axioms(1) wire_codec.roundtrip)

lemma reads_u8: "reads get_int [w] (w :: u8)"
  using reads_int[of 1 w] by simp

lemma writes_u8: "writes (put_int (w :: u8)) [w]"
  using writes_put_int[of w] by simp

lemma writes_EndpointAddress:
  "writes (put_EndpointAddress addr) (le_bytes 8 (ea_participant addr) @ le_bytes 8 (ea_endpoint addr))"
  unfolding put_EndpointAddress_def
  using writes_Cons[OF writes_put_int[of "ea_participant addr"]
      writes_Cons[OF writes_put_int[of "ea_endpoint addr"] writes_Nil]] by simp

lemma reads_EndpointAddress:
  "reads get_EndpointAddress (le_bytes 8 (ea_participant addr) @ le_bytes 8 (ea_endpoint addr)) addr"
  using EndpointAddress.roundtrip[of addr] writes_EndpointAddress writes_unique by blast

lemma write_mw_headers:
  assumes "sm_messageKind m = SilKitMwMsg" "wf_buffer (sm_buffer m)"
  shows "WriteNetworkHeaders m = Inr (m\<lparr>sm_buffer := append_bytes
     (mw_header (sm_messageSize m) (sm_remoteIndex m) (sm_endpointAddress m)) (sm_buffer m)\<rparr>)"
proof -
  have "writes (put_all [put_int (sm_messageSize m), put_int (sm_messageKind m),
      put_int (sm_remoteIndex m), put_EndpointAddress (sm_endpointAddress m)])
      (mw_header (sm_messageSize m) (sm_remoteIndex m) (sm_endpointAddress m))"
    using writes_Cons[OF writes_put_int[of "sm_messageSize m"] writes_Cons[OF writes_u8[of "sm_messageKind m"]
        writes_Cons[OF writes_put_int[of "sm_remoteIndex m"]
          writes_Cons[OF writes_EndpointAddress[of "sm_endpointAddress m"] writes_Nil]]]]
    by (simp add: mw_header_def assms(1))
  then show ?thesis
    using assms by (simp add: WriteNetworkHeaders_def writes_def IsMwOrSim_def)
qed

lemma read_mw_headers:
  assumes "storage (sm_buffer m) = mw_header n idx addr @ bs" "rPos (sm_buffer m) = 0"
  shows "ReadNetworkHeaders m = Inr (m\<lparr>sm_messageSize := n, sm_messageKind := SilKitMwMsg,
     sm_remoteIndex := idx, sm_endpointAddress := addr,
     sm_buffer := sm_buffer m\<lparr>rPos := length (mw_header n idx addr)\<rparr>\<rparr>)"
proof -
  let ?b = "sm_buffer m" and ?a = "le_bytes 8 (ea_participant addr) @ le_bytes 8 (ea_endpoint addr)"
  have 1: "get_int ?b = Inr (n, ?b\<lparr>rPos := 4\<rparr>)"
    by (rule reads_to[OF reads_int[of 4 n], where pre = "[]" and post = "[SilKitMwMsg] @ le_bytes 8 idx @ ?a @ bs"])
      (simp_all add: assms mw_header_def)
  have 2: "get_int (?b\<lparr>rPos := 4\<rparr>) = Inr (SilKitMwMsg, (?b\<lparr>rPos := 4\<rparr>)\<lparr>rPos := 5\<rparr>)"
    by (rule reads_to[OF reads_u8, where pre = "le_bytes 4 n" and post = "le_bytes 8 idx @ ?a @ bs"])
      (simp_all add: assms mw_header_def)
  have 3: "get_int (?b\<lparr>rPos := 5\<rparr>) = Inr (idx, (?b\<lparr>rPos := 5\<rparr>)\<lparr>rPos := 13\<rparr>)"
    by (rule reads_to[OF reads_int[of 8 idx], where pre = "le_bytes 4 n @ [SilKitMwMsg]" and post = "?a @ bs"])
      (simp_all add: assms mw_header_def)
  have 4: "get_EndpointAddress (?b\<lparr>rPos := 13\<rparr>) = Inr (addr, (?b\<lparr>rPos := 13\<rparr>)\<lparr>rPos := 29\<rparr>)"
    by (rule reads_to[OF reads_EndpointAddress[of addr],
          where pre = "le_bytes 4 n @ [SilKitMwMsg] @ le_bytes 8 idx" and post = bs])
      (simp_all add: assms mw_header_def)
  have "length (mw_header n idx addr) = 29" by (simp add: mw_header_def)
  then show ?thesis
    using 1 2 3 4 by (simp add: ReadNetworkHeaders_def IsMwOrSim_def Let_def)
qed

section \<open>Framing and unframing\<close>

text \<open>
  What happens to a message between two participants: it is framed with the address of its sender,
  the storage is released to the socket, the receiver parses the headers of the blob, learns the
  address and deserialises the body.
\<close>

definition transmit ::
    "message_type \<Rightarrow> ('a \<Rightarrow> writer) \<Rightarrow> 'a reader \<Rightarrow> EndpointAddress \<Rightarrow> u64 \<Rightarrow> 'a \<Rightarrow>
     wire_error + EndpointAddress \<times> u64 \<times> 'a" where
  "transmit T put get addr idx x =
     bindE (SerializedMessage_addressed T put x addr idx) (\<lambda>m.
     bindE (SerializedMessage_ReleaseStorage m) (\<lambda>blob.
     bindE (SerializedMessage_of_blob blob) (\<lambda>m.
     bindE (GetEndpointAddress m) (\<lambda>a.
     bindE (GetRemoteIndex m) (\<lambda>i.
     bindE (SerializedMessage_Deserialize get m) (\<lambda>(y, _). Inr (a, i, y)))))))"

definition frame_fits :: "message_type \<Rightarrow> ('a \<Rightarrow> writer) \<Rightarrow> 'a \<Rightarrow> EndpointAddress \<Rightarrow> u64 \<Rightarrow> bool" where
  "frame_fits T put x addr idx \<longleftrightarrow>
     (case SerializedMessage_addressed T put x addr idx of
        Inl _ \<Rightarrow> False | Inr m \<Rightarrow> length (storage (sm_buffer m)) \<le> uint32_max)"

lemma release_mw:
  assumes "storage (sm_buffer m) = mw_header k idx addr @ bs"
    and "length (mw_header k idx addr @ bs) \<le> uint32_max"
  shows "SerializedMessage_ReleaseStorage m =
     Inr (mw_header (of_nat (length (mw_header k idx addr @ bs))) idx addr @ bs)"
proof -
  have len: "length (storage (sm_buffer m)) = length (mw_header k idx addr @ bs)"
    by (simp only: assms(1))
  have "overwrite 0 (le_bytes 4 w) (mw_header k idx addr @ bs) = mw_header w idx addr @ bs" for w :: u32
    by (simp add: overwrite_def mw_header_def)
  then show ?thesis
    using assms(2) unfolding SerializedMessage_ReleaseStorage_def ReleaseStorage_def Let_def fst_conv len
    by (simp only: assms(1)) simp
qed

context versioned_codec
begin

lemma addressed:
  assumes "ok x" "messageKind T = SilKitMwMsg" "v = CurrentProtocolVersion"
  obtains bs m where "SerializedMessage_addressed T put x addr idx = Inr m"
    "storage (sm_buffer m) = mw_header 0 idx addr @ bs" "reads_at v get bs (view x)"
    "writes_at v (put x) bs"
proof -
  from carries[OF assms(1)] obtain bs where bs: "writes_at v (put x) bs" "reads_at v get bs (view x)"
    by blast
  let ?m = "(blank_SerializedMessage empty_MessageBuffer)
    \<lparr>sm_remoteIndex := idx, sm_endpointAddress := addr, sm_messageKind := messageKind T,
     sm_registryKind := registryMessageKind T, sm_aggregationKind := aggregationKind T\<rparr>"
  let ?b = "append_bytes (mw_header 0 idx addr) empty_MessageBuffer"
  have w: "WriteNetworkHeaders ?m = Inr (?m\<lparr>sm_buffer := ?b\<rparr>)"
    by (subst write_mw_headers) (simp_all add: assms(2) blank_SerializedMessage_def)
  have b: "put x ?b = Inr (append_bytes bs ?b)"
    using bs(1) assms(3) by (simp add: writes_at_def)
  have st: "storage (append_bytes bs ?b) = mw_header 0 idx addr @ bs" "rPos (append_bytes bs ?b) = 0"
    by simp_all
  have "SerializedMessage_addressed T put x addr idx =
      ReadNetworkHeaders (?m\<lparr>sm_buffer := append_bytes bs ?b\<rparr>)"
    by (simp add: SerializedMessage_addressed_def frame_message_def w b)
  also have "\<dots> = Inr (?m\<lparr>sm_messageSize := 0, sm_messageKind := SilKitMwMsg, sm_remoteIndex := idx,
      sm_endpointAddress := addr,
      sm_buffer := (append_bytes bs ?b)\<lparr>rPos := length (mw_header 0 idx addr)\<rparr>\<rparr>)" (is "_ = Inr ?M")
    by (subst read_mw_headers[of _ 0 idx addr bs]) simp_all
  finally have "SerializedMessage_addressed T put x addr idx = Inr ?M" .
  moreover have "storage (sm_buffer ?M) = mw_header 0 idx addr @ bs" by simp
  ultimately show thesis using bs(2,1) by (rule that)
qed

lemma transmitted:
  assumes "ok x" "messageKind T = SilKitMwMsg" "v = CurrentProtocolVersion" "frame_fits T put x addr idx"
  shows "transmit T put get addr idx x = Inr (addr, idx, view x)"
proof -
  obtain bs m where m: "SerializedMessage_addressed T put x addr idx = Inr m"
      "storage (sm_buffer m) = mw_header 0 idx addr @ bs" and rd: "reads_at v get bs (view x)"
    using addressed[OF assms(1-3)] .
  define len where "len = (of_nat (length (mw_header 0 idx addr @ bs)) :: u32)"
  have fits: "length (mw_header 0 idx addr @ bs) \<le> uint32_max"
    using assms(4) m by (simp add: frame_fits_def)
  have rel: "SerializedMessage_ReleaseStorage m = Inr (mw_header len idx addr @ bs)"
    using release_mw[OF m(2) fits] by (simp only: len_def)
  let ?b = "MessageBuffer_of (mw_header len idx addr @ bs)"
  note r = read_mw_headers[of "blank_SerializedMessage ?b" len idx addr bs]
  have "get (?b\<lparr>rPos := length (mw_header len idx addr)\<rparr>) =
      Inr (view x, ?b\<lparr>rPos := length (mw_header len idx addr) + length bs\<rparr>)"
    using rd assms(3) by (simp add: reads_at_def MessageBuffer_of_def)
  then show ?thesis
    using r by (simp add: transmit_def m rel SerializedMessage_of_blob_def blank_SerializedMessage_def
        GetEndpointAddress_def GetRemoteIndex_def SerializedMessage_Deserialize_def IsMwOrSim_def
        MessageBuffer_of_def)
qed

lemma blob_size:
  assumes "ok x" "messageKind T = SilKitMwMsg" "v = CurrentProtocolVersion"
    "SerializedMessage_addressed T put x addr idx = Inr m" "SerializedMessage_ReleaseStorage m = Inr blob"
  shows "of_le_bytes (take 4 blob) = (of_nat (length blob) :: u32) \<and> 29 \<le> length blob \<and>
     length blob \<le> uint32_max"
proof -
  obtain bs where st: "storage (sm_buffer m) = mw_header 0 idx addr @ bs"
    using addressed[OF assms(1-3), of addr idx] assms(4) by (metis Inr_inject)
  have fits: "length (mw_header 0 idx addr @ bs) \<le> uint32_max"
    using assms(5) st by (auto simp: SerializedMessage_ReleaseStorage_def ReleaseStorage_def Let_def
        split: if_splits)
  have "blob = mw_header (of_nat (length (mw_header 0 idx addr @ bs))) idx addr @ bs"
    using release_mw[OF st fits] assms(5) by simp
  then show ?thesis using fits by (simp add: mw_header_def)
qed

end

end
