(* ===== verification/VAsio_Handshake.thy ===== *)
theory VAsio_Handshake
  imports Serialized_Message
begin

text \<open>
  The handshake messages at the two supported protocol versions. Each interpretation of
  \<open>versioned_codec\<close> says what a peer that speaks that version reads from what was written: at
  version 3.1 the message itself, at version 3.0 the part of it that the legacy structures carry.
  The second half is about framed registry messages, whose headers are peeked at on arrival.
\<close>

lemma put_all_single [simp]: "bindE m (put_all []) = m"
  by (cases m) auto

lemma versionedI:
  assumes "\<And>x b. ok x \<Longrightarrow> protocolVersion b = v \<Longrightarrow> put x b = put_all (ws x) b"
    and "\<And>b. protocolVersion b = v \<Longrightarrow> get b = get' b"
    and "\<And>x. ok x \<Longrightarrow> rtn (ws x) get' (view x)"
  shows "versioned_codec v put get ok view"
proof
  fix x
  assume x: "ok x"
  from assms(3)[OF this] obtain bs where bs: "writes (put_all (ws x)) bs" "reads get' bs (view x)"
    by (auto simp: rtn_def)
  have "writes_at v (put x) bs" using bs(1) by (auto simp: writes_at_def writes_def assms(1) x)
  moreover have "reads_at v get bs (view x)"
    using reads_at[OF bs(2), of v] by (auto simp: reads_at_def assms(2))
  ultimately show "\<exists>bs. writes_at v (put x) bs \<and> reads_at v get bs (view x)" by blast
qed

section \<open>Announcements\<close>

definition ok_ParticipantAnnouncement :: "ProtocolVersion \<Rightarrow> ParticipantAnnouncement \<Rightarrow> bool" where
  "ok_ParticipantAnnouncement v a \<longleftrightarrow> ExtractProtocolVersion (pa_messageHeader a) = v \<and>
     ok_VAsioPeerInfo (pa_peerInfo a) \<and> ok_string (pa_simulationName a)"

text \<open>What a 3.0 peer learns: capabilities and simulation name did not exist yet.\<close>

definition legacy_PeerInfo :: "VAsioPeerInfo \<Rightarrow> VAsioPeerInfo" where
  "legacy_PeerInfo info = info\<lparr>pi_capabilities := []\<rparr>"

definition legacy_ParticipantAnnouncement :: "ParticipantAnnouncement \<Rightarrow> ParticipantAnnouncement" where
  "legacy_ParticipantAnnouncement a =
     \<lparr>pa_messageHeader = MakeRegistryMsgHeader v30, pa_peerInfo = legacy_PeerInfo (pa_peerInfo a),
      pa_simulationName = []\<rparr>"

lemma PeerInfo_of_PeerUri_of_PeerInfo [simp]:
  "PeerInfo_of_PeerUri (PeerUri_of_PeerInfo info) = legacy_PeerInfo info"
  by (simp add: PeerInfo_of_PeerUri_def PeerUri_of_PeerInfo_def legacy_PeerInfo_def)

lemma ok_string_Nil [simp]: "ok_string []"
  by (simp add: ok_string_def)

lemma ok_PeerUri [simp]: "ok_VAsioPeerInfo info \<Longrightarrow> ok_VAsioPeerUri_v30 (PeerUri_of_PeerInfo info)"
  by (simp add: ok_VAsioPeerInfo_def ok_VAsioPeerUri_v30_def PeerUri_of_PeerInfo_def)

lemma ok_legacy_defaults [simp]:
  "ok_RegistryMsgHeader_v30 default_RegistryMsgHeader_v30"
  "ok_VAsioPeerInfo_v30 default_VAsioPeerInfo_v30"
  by (simp_all add: ok_RegistryMsgHeader_v30_def default_RegistryMsgHeader_v30_def
      ok_VAsioPeerInfo_v30_def default_VAsioPeerInfo_v30_def)

lemma SetProtocolVersion_same [simp]: "protocolVersion b = v \<Longrightarrow> SetProtocolVersion v b = b"
  for b :: MessageBuffer
  by (simp add: SetProtocolVersion_def)

interpretation announcement_v31: versioned_codec v31 put_ParticipantAnnouncement
    get_ParticipantAnnouncement "ok_ParticipantAnnouncement v31" "\<lambda>a. a"
proof (rule versionedI[where get' = get_default_ParticipantAnnouncement and
      ws = "\<lambda>a. [put_RegistryMsgHeader (pa_messageHeader a), put_VAsioPeerInfo (pa_peerInfo a),
        put_string (pa_simulationName a)]"])
  show "rtn [put_RegistryMsgHeader (pa_messageHeader a), put_VAsioPeerInfo (pa_peerInfo a),
      put_string (pa_simulationName a)] get_default_ParticipantAnnouncement a"
    if "ok_ParticipantAnnouncement v31 a" for a
    unfolding get_default_ParticipantAnnouncement_def
    using that by (intro tail_field) (simp_all add: ok_ParticipantAnnouncement_def)
qed (simp_all add: put_ParticipantAnnouncement_def get_ParticipantAnnouncement_def Let_def
    ok_ParticipantAnnouncement_def GetProtocolVersion_def)

interpretation announcement_v30: versioned_codec v30 put_ParticipantAnnouncement
    get_ParticipantAnnouncement "ok_ParticipantAnnouncement v30" legacy_ParticipantAnnouncement
proof (rule versionedI[where get' = DeserializeV30_ParticipantAnnouncement and
      ws = "\<lambda>a. [SerializeV30_ParticipantAnnouncement a]"])
  show "rtn [SerializeV30_ParticipantAnnouncement a] DeserializeV30_ParticipantAnnouncement
      (legacy_ParticipantAnnouncement a)" if "ok_ParticipantAnnouncement v30 a" for a
    unfolding DeserializeV30_ParticipantAnnouncement_def SerializeV30_ParticipantAnnouncement_def
    using that by (intro tail_field) (simp_all add: ok_ParticipantAnnouncement_v30_def
        ok_ParticipantAnnouncement_def ok_RegistryMsgHeader_v30_def legacy_ParticipantAnnouncement_def MakeRegistryMsgHeader_def
        default_RegistryMsgHeader_v30_def)
qed (simp_all add: put_ParticipantAnnouncement_def get_ParticipantAnnouncement_def Let_def
    ok_ParticipantAnnouncement_def GetProtocolVersion_def)

section \<open>Replies\<close>

definition ok_ParticipantAnnouncementReply :: "ParticipantAnnouncementReply \<Rightarrow> bool" where
  "ok_ParticipantAnnouncementReply r \<longleftrightarrow>
     ok_vector ok_VAsioMsgSubscriber (pr_subscribers r) \<and> ok_string (pr_diagnostic r)"

text \<open>
  The 3.0 reply consists of the subscribers without their version; status, header and diagnostic
  are made up by the reader.
\<close>

definition legacy_ParticipantAnnouncementReply ::
    "ParticipantAnnouncementReply \<Rightarrow> ParticipantAnnouncementReply" where
  "legacy_ParticipantAnnouncementReply r =
     \<lparr>pr_remoteHeader = MakeRegistryMsgHeader v30, pr_status = 1,
      pr_subscribers = map (\<lambda>s. s\<lparr>vs_version := 0\<rparr>) (pr_subscribers r), pr_diagnostic = []\<rparr>"

interpretation reply_v31: versioned_codec v31 put_ParticipantAnnouncementReply
    get_ParticipantAnnouncementReply ok_ParticipantAnnouncementReply "\<lambda>r. r"
proof (rule versionedI[where get' = get_default_ParticipantAnnouncementReply and
      ws = "\<lambda>r. [put_RegistryMsgHeader (pr_remoteHeader r), put_int (pr_status r),
        put_vector put_VAsioMsgSubscriber (pr_subscribers r), put_string (pr_diagnostic r)]"])
  show "rtn [put_RegistryMsgHeader (pr_remoteHeader r), put_int (pr_status r),
      put_vector put_VAsioMsgSubscriber (pr_subscribers r), put_string (pr_diagnostic r)]
      get_default_ParticipantAnnouncementReply r" if "ok_ParticipantAnnouncementReply r" for r
    unfolding get_default_ParticipantAnnouncementReply_def
    using that by (intro tail_field) (simp_all add: ok_ParticipantAnnouncementReply_def)
qed (simp_all add: put_ParticipantAnnouncementReply_def get_ParticipantAnnouncementReply_def
    GetProtocolVersion_def)

interpretation reply_v30: versioned_codec v30 put_ParticipantAnnouncementReply
    get_ParticipantAnnouncementReply ok_ParticipantAnnouncementReply legacy_ParticipantAnnouncementReply
proof (rule versionedI[where get' = DeserializeV30_ParticipantAnnouncementReply and
      ws = "\<lambda>r. [SerializeV30_ParticipantAnnouncementReply r]"])
  show "rtn [SerializeV30_ParticipantAnnouncementReply r] DeserializeV30_ParticipantAnnouncementReply
      (legacy_ParticipantAnnouncementReply r)" if "ok_ParticipantAnnouncementReply r" for r
    unfolding DeserializeV30_ParticipantAnnouncementReply_def SerializeV30_ParticipantAnnouncementReply_def
    using that by (intro tail_field) (auto simp: ok_ParticipantAnnouncementReply_v30_def ok_vector_def
        ok_ParticipantAnnouncementReply_def ok_VAsioMsgSubscriber_def ok_VAsioMsgSubscriber_v30_def
        legacy_ParticipantAnnouncementReply_def MakeRegistryMsgHeader_def)
qed (simp_all add: put_ParticipantAnnouncementReply_def get_ParticipantAnnouncementReply_def
    GetProtocolVersion_def)

section \<open>Known participants\<close>

definition ok_KnownParticipants :: "KnownParticipants \<Rightarrow> bool" where
  "ok_KnownParticipants k \<longleftrightarrow> ok_vector ok_VAsioPeerInfo (kp_peerInfos k)"

definition legacy_KnownParticipants :: "KnownParticipants \<Rightarrow> KnownParticipants" where
  "legacy_KnownParticipants k =
     \<lparr>kp_messageHeader = MakeRegistryMsgHeader v30,
      kp_peerInfos = map legacy_PeerInfo (kp_peerInfos k)\<rparr>"

interpretation known_v31: versioned_codec v31 put_KnownParticipants get_KnownParticipants
    ok_KnownParticipants "\<lambda>k. k"
proof (rule versionedI[where get' = get_default_KnownParticipants and
      ws = "\<lambda>k. [put_RegistryMsgHeader (kp_messageHeader k), put_vector put_VAsioPeerInfo (kp_peerInfos k)]"])
  show "rtn [put_RegistryMsgHeader (kp_messageHeader k), put_vector put_VAsioPeerInfo (kp_peerInfos k)]
      get_default_KnownParticipants k" if "ok_KnownParticipants k" for k
    unfolding get_default_KnownParticipants_def
    using that by (intro tail_field) (simp_all add: ok_KnownParticipants_def)
qed (simp_all add: put_KnownParticipants_def get_KnownParticipants_def GetProtocolVersion_def)

interpretation known_v30: versioned_codec v30 put_KnownParticipants get_KnownParticipants
    ok_KnownParticipants legacy_KnownParticipants
proof (rule versionedI[where get' = DeserializeV30_KnownParticipants and
      ws = "\<lambda>k. [SerializeV30_KnownParticipants k]"])
  show "rtn [SerializeV30_KnownParticipants k] DeserializeV30_KnownParticipants
      (legacy_KnownParticipants k)" if "ok_KnownParticipants k" for k
    unfolding DeserializeV30_KnownParticipants_def SerializeV30_KnownParticipants_def
    using that by (intro tail_field) (auto simp: ok_KnownParticipants_v30_def ok_vector_def
        ok_KnownParticipants_def legacy_KnownParticipants_def MakeRegistryMsgHeader_def
        ok_RegistryMsgHeader_v30_def default_RegistryMsgHeader_v30_def)
qed (simp_all add: put_KnownParticipants_def get_KnownParticipants_def GetProtocolVersion_def)

section \<open>Proxy messages\<close>

definition ok_ProxyMessage :: "ProxyMessage \<Rightarrow> bool" where
  "ok_ProxyMessage m \<longleftrightarrow> ok_string (pm_source m) \<and> ok_string (pm_destination m) \<and> ok_bytes (pm_payload m)"

definition get_proxy_fields :: "ProxyMessage reader" where
  "get_proxy_fields = get_bind get_int (\<lambda>version. get_bind get_string (\<lambda>source.
     get_bind get_string (\<lambda>destination. get_bind get_bytes (\<lambda>payload.
     get_return \<lparr>pm_header = \<lparr>ph_version = version\<rparr>, pm_source = source,
       pm_destination = destination, pm_payload = payload\<rparr>))))"

lemma get_bind_assoc: "get_bind (get_bind g k) h b = get_bind g (\<lambda>x. get_bind (k x) h) b"
  by (cases "g b") (auto simp: get_bind_def)

lemma get_bind_return: "get_bind (get_return x) k = k x"
  by (simp add: get_bind_def get_return_def fun_eq_iff)

interpretation proxy_v31: versioned_codec v31 put_ProxyMessage get_ProxyMessage ok_ProxyMessage "\<lambda>m. m"
proof (rule versionedI[where get' = get_proxy_fields and
      ws = "\<lambda>m. [put_int (ph_version (pm_header m)), put_string (pm_source m),
        put_string (pm_destination m), put_bytes (pm_payload m)]"])
  show "rtn [put_int (ph_version (pm_header m)), put_string (pm_source m),
      put_string (pm_destination m), put_bytes (pm_payload m)] get_proxy_fields m"
    if "ok_ProxyMessage m" for m
    unfolding get_proxy_fields_def
    using that by (intro tail_field) (simp_all add: ok_ProxyMessage_def)
  show "get_ProxyMessage b = get_proxy_fields b" if "protocolVersion b = v31" for b :: MessageBuffer
  proof -
    have h: "get_ProxyMessageHeader b =
        get_bind get_int (\<lambda>version. get_return \<lparr>ph_version = version\<rparr>) b"
      using that by (simp add: get_ProxyMessageHeader_def GetProtocolVersion_def version_less_def)
    have "get_bind get_ProxyMessageHeader k b =
        get_bind (get_bind get_int (\<lambda>version. get_return \<lparr>ph_version = version\<rparr>)) k b"
      for k :: "ProxyMessageHeader \<Rightarrow> ProxyMessage reader"
      by (simp only: get_bind_def[of get_ProxyMessageHeader] h
          get_bind_def[of "get_bind get_int (\<lambda>version. get_return \<lparr>ph_version = version\<rparr>)"])
    then show ?thesis
      using that by (simp add: get_ProxyMessage_def get_proxy_fields_def GetProtocolVersion_def
          version_less_def get_bind_assoc get_bind_return)
  qed
qed (simp add: put_ProxyMessage_def put_ProxyMessageHeader_def GetProtocolVersion_def version_less_def)

section \<open>Framed registry messages\<close>

definition header_bytes :: "RegistryMsgHeader \<Rightarrow> bytes" where
  "header_bytes h = le_bytes 4 (rh_preamble h) @ le_bytes 2 (rh_versionHigh h) @ le_bytes 2 (rh_versionLow h)"

definition registry_prefix :: "u32 \<Rightarrow> u8 \<Rightarrow> bytes" where
  "registry_prefix n rk = le_bytes 4 n @ [SilKitRegistryMessage, rk]"

lemma length_header_bytes [simp]: "length (header_bytes h) = 8" "length (registry_prefix n rk) = 6"
  by (simp_all add: header_bytes_def registry_prefix_def)

lemma writes_header: "writes (put_RegistryMsgHeader h) (header_bytes h)"
  unfolding put_RegistryMsgHeader_def header_bytes_def
  using writes_Cons[OF writes_put_int[of "rh_preamble h"] writes_Cons[OF
      writes_put_int[of "rh_versionHigh h"] writes_Cons[OF writes_put_int[of "rh_versionLow h"] writes_Nil]]]
  by simp

lemma reads_header: "reads get_RegistryMsgHeader (header_bytes h) h"
  using RegistryMsgHeader.roundtrip[of h] writes_header[of h] writes_unique by blast

lemma peek_header:
  assumes "storage b = pre @ header_bytes h @ post" "rPos b = length pre"
  shows "PeekRegistryMessageHeader b = Inr h"
proof -
  have "get_RegistryMsgHeader (MessageBuffer_of (header_bytes h)) =
      Inr (h, (MessageBuffer_of (header_bytes h))\<lparr>rPos := 8\<rparr>)"
    by (rule reads_to[OF reads_header, where pre = "[]" and post = "[]"])
      (simp_all add: MessageBuffer_of_def)
  then show ?thesis using assms by (simp add: PeekRegistryMessageHeader_def PeekData_def Let_def)
qed

locale registry_codec = versioned_codec v put get ok view
  for v and put :: "'a \<Rightarrow> writer" and get ok and view :: "'a \<Rightarrow> 'a" +
  fixes T :: message_type and hdr :: "'a \<Rightarrow> RegistryMsgHeader"
  assumes kinds: "messageKind T = SilKitRegistryMessage"
      "registryMessageKind T = 2 \<and> v = v31 \<or> registryMessageKind T \<in> {1, 3, 4}"
    and starts_with_header: "ok x \<Longrightarrow> writes_at v (put x) bs \<Longrightarrow> \<exists>rest. bs = header_bytes (hdr x) @ rest"
begin

lemma write_registry_headers:
  assumes "wf_buffer b"
  shows "WriteNetworkHeaders (blank_SerializedMessage b
     \<lparr>sm_messageKind := messageKind T, sm_registryKind := registryMessageKind T,
      sm_aggregationKind := aggregationKind T\<rparr>) =
   Inr (blank_SerializedMessage (append_bytes (registry_prefix 0 (registryMessageKind T)) b)
     \<lparr>sm_messageKind := messageKind T, sm_registryKind := registryMessageKind T,
      sm_aggregationKind := aggregationKind T\<rparr>)"
proof -
  have "writes (put_all [put_int (0 :: u32), put_int SilKitRegistryMessage, put_int (registryMessageKind T)])
      (registry_prefix 0 (registryMessageKind T))"
    using writes_Cons[OF writes_put_int[of "0 :: u32"] writes_Cons[OF writes_u8[of SilKitRegistryMessage]
        writes_Cons[OF writes_u8[of "registryMessageKind T"] writes_Nil]]]
    by (simp add: registry_prefix_def)
  then show ?thesis
    using assms by (simp add: WriteNetworkHeaders_def writes_def IsMwOrSim_def kinds(1)
        blank_SerializedMessage_def)
qed

lemma read_registry_headers:
  assumes "storage (sm_buffer m) = registry_prefix n (registryMessageKind T) @ header_bytes h @ rest"
    and "rPos (sm_buffer m) = 0"
    and "registryMessageKind T = 2 \<Longrightarrow> protocolVersion (sm_buffer m) = v31"
  shows "ReadNetworkHeaders m = Inr (m\<lparr>sm_messageSize := n, sm_messageKind := SilKitRegistryMessage,
     sm_registryKind := registryMessageKind T, sm_registryMessageHeader := h,
     sm_buffer := (sm_buffer m)\<lparr>rPos := 6\<rparr>\<rparr>)"
proof -
  let ?b = "sm_buffer m" and ?k = "registryMessageKind T" and ?r = "header_bytes h @ rest"
  have 1: "get_int ?b = Inr (n, ?b\<lparr>rPos := 4\<rparr>)"
    by (rule reads_to[OF reads_int[of 4 n], where pre = "[]" and post = "[SilKitRegistryMessage, ?k] @ ?r"])
      (simp_all add: assms(1,2) registry_prefix_def)
  have 2: "get_int (?b\<lparr>rPos := 4\<rparr>) = Inr (SilKitRegistryMessage, (?b\<lparr>rPos := 4\<rparr>)\<lparr>rPos := 5\<rparr>)"
    by (rule reads_to[OF reads_u8, where pre = "le_bytes 4 n" and post = "[?k] @ ?r"])
      (simp_all add: assms(1,2) registry_prefix_def)
  have 3: "get_int (?b\<lparr>rPos := 5\<rparr>) = Inr (?k, (?b\<lparr>rPos := 5\<rparr>)\<lparr>rPos := 6\<rparr>)"
    by (rule reads_to[OF reads_u8, where pre = "le_bytes 4 n @ [SilKitRegistryMessage]" and post = ?r])
      (simp_all add: assms(1,2) registry_prefix_def)
  have 4: "PeekRegistryMessageHeader (?b\<lparr>rPos := 6\<rparr>) = Inr h"
    by (rule peek_header[where pre = "registry_prefix n ?k" and post = rest]) (simp_all add: assms(1))
  from kinds(2) assms(3) have "?k = 1 \<or> ?k = 3 \<or> ?k = 4 \<or> ?k = 2 \<and> GetProtocolVersion (?b\<lparr>rPos := 6\<rparr>) = v31"
    by (auto simp: GetProtocolVersion_def)
  then have "read_registry_header (m\<lparr>sm_messageSize := n, sm_messageKind := SilKitRegistryMessage,
      sm_buffer := ?b\<lparr>rPos := 5\<rparr>\<rparr>) = Inr (m\<lparr>sm_messageSize := n, sm_messageKind := SilKitRegistryMessage,
      sm_registryKind := ?k, sm_registryMessageHeader := h, sm_buffer := ?b\<lparr>rPos := 6\<rparr>\<rparr>)"
    using 3 4 by (auto simp: read_registry_header_def Let_def)
  then show ?thesis using 1 2 by (simp add: ReadNetworkHeaders_def Let_def IsMwOrSim_def)
qed

end

text \<open>
  A registry message on its way: framed for a protocol version, released, parsed by the receiver
  (which learns kind and header), and deserialised once the version of the peer is known.
\<close>

definition handshake ::
    "ProtocolVersion \<Rightarrow> message_type \<Rightarrow> ('a \<Rightarrow> writer) \<Rightarrow> 'a reader \<Rightarrow> 'a \<Rightarrow>
     wire_error + u8 \<times> RegistryMsgHeader \<times> 'a" where
  "handshake v T put get x =
     bindE (SerializedMessage_versioned v T put x) (\<lambda>m.
     bindE (SerializedMessage_ReleaseStorage m) (\<lambda>blob.
     bindE (SerializedMessage_of_blob blob) (\<lambda>m.
     bindE (SerializedMessage_Deserialize get (SerializedMessage_SetProtocolVersion v m)) (\<lambda>(y, _).
     Inr (sm_registryKind m, sm_registryMessageHeader m, y)))))"

definition handshake_fits :: "ProtocolVersion \<Rightarrow> message_type \<Rightarrow> ('a \<Rightarrow> writer) \<Rightarrow> 'a \<Rightarrow> bool" where
  "handshake_fits v T put x \<longleftrightarrow>
     (case SerializedMessage_versioned v T put x of
        Inl _ \<Rightarrow> False | Inr m \<Rightarrow> length (storage (sm_buffer m)) \<le> uint32_max)"

lemma release_registry:
  assumes "storage (sm_buffer m) = registry_prefix k rk @ bs" "length (registry_prefix k rk @ bs) \<le> uint32_max"
  shows "SerializedMessage_ReleaseStorage m =
     Inr (registry_prefix (of_nat (length (registry_prefix k rk @ bs))) rk @ bs)"
proof -
  have len: "length (storage (sm_buffer m)) = length (registry_prefix k rk @ bs)"
    by (simp only: assms(1))
  have "overwrite 0 (le_bytes 4 w) (registry_prefix k rk @ bs) = registry_prefix w rk @ bs" for w :: u32
    by (simp add: overwrite_def registry_prefix_def)
  then show ?thesis
    using assms(2) unfolding SerializedMessage_ReleaseStorage_def ReleaseStorage_def Let_def fst_conv len
    by (simp only: assms(1)) simp
qed

context registry_codec
begin

lemma framed:
  assumes "ok x"
  obtains rest m where "SerializedMessage_versioned v T put x = Inr m"
    "storage (sm_buffer m) = registry_prefix 0 (registryMessageKind T) @ header_bytes (hdr x) @ rest"
    "reads_at v get (header_bytes (hdr x) @ rest) (view x)"
proof -
  from carries[OF assms] obtain bs where bs: "writes_at v (put x) bs" "reads_at v get bs (view x)"
    by blast
  from starts_with_header[OF assms bs(1)] obtain rest where rest: "bs = header_bytes (hdr x) @ rest" by blast
  let ?start = "SetProtocolVersion v empty_MessageBuffer"
  let ?m = "\<lambda>b. (blank_SerializedMessage b)\<lparr>sm_messageKind := messageKind T,
    sm_registryKind := registryMessageKind T, sm_aggregationKind := aggregationKind T\<rparr>"
  let ?b = "append_bytes (registry_prefix 0 (registryMessageKind T)) ?start"
  have b0: "wf_buffer ?start" "protocolVersion ?start = v" "rPos ?start = 0" "storage ?start = []"
    by (simp_all add: SetProtocolVersion_def wf_buffer_def empty_MessageBuffer_def)
  have "put x ?b = Inr (append_bytes bs ?b)"
    using bs(1) b0 by (simp add: writes_at_def del: append_bytes_simps(3))
  then have "SerializedMessage_versioned v T put x = ReadNetworkHeaders (?m (append_bytes bs ?b))"
    using write_registry_headers[OF b0(1)]
    by (simp add: SerializedMessage_versioned_def frame_message_def blank_SerializedMessage_def)
  also have "\<dots> = Inr ((?m (append_bytes bs ?b))\<lparr>sm_messageSize := 0, sm_messageKind := SilKitRegistryMessage,
      sm_registryKind := registryMessageKind T, sm_registryMessageHeader := hdr x,
      sm_buffer := (append_bytes bs ?b)\<lparr>rPos := 6\<rparr>\<rparr>)" (is "_ = Inr ?M")
    using kinds(2) by (subst read_registry_headers[of _ 0 "hdr x" rest])
      (auto simp: b0 rest blank_SerializedMessage_def SetProtocolVersion_def)
  finally have "SerializedMessage_versioned v T put x = Inr ?M" .
  moreover have "storage (sm_buffer ?M) = registry_prefix 0 (registryMessageKind T) @ header_bytes (hdr x) @ rest"
    by (simp add: b0 rest)
  ultimately show thesis using bs(2)[unfolded rest] by (rule that)
qed

lemma handshaken:
  assumes "ok x" "handshake_fits v T put x"
  shows "handshake v T put get x = Inr (registryMessageKind T, hdr x, view x)"
proof -
  let ?k = "registryMessageKind T"
  obtain rest m where m: "SerializedMessage_versioned v T put x = Inr m"
      "storage (sm_buffer m) = registry_prefix 0 ?k @ header_bytes (hdr x) @ rest"
    and rd: "reads_at v get (header_bytes (hdr x) @ rest) (view x)" using framed[OF assms(1)] .
  let ?bs = "header_bytes (hdr x) @ rest"
  define len where "len = (of_nat (length (registry_prefix 0 ?k @ ?bs)) :: u32)"
  have rel: "SerializedMessage_ReleaseStorage m = Inr (registry_prefix len ?k @ ?bs)"
    using release_registry[OF m(2)] assms(2) m by (simp add: handshake_fits_def len_def)
  let ?b = "MessageBuffer_of (registry_prefix len ?k @ ?bs)"
  have r: "SerializedMessage_of_blob (registry_prefix len ?k @ ?bs) =
      Inr ((blank_SerializedMessage ?b)\<lparr>sm_messageSize := len, sm_messageKind := SilKitRegistryMessage,
        sm_registryKind := ?k, sm_registryMessageHeader := hdr x, sm_buffer := ?b\<lparr>rPos := 6\<rparr>\<rparr>)"
    unfolding SerializedMessage_of_blob_def
    by (subst read_registry_headers[of _ len "hdr x" rest])
      (simp_all add: blank_SerializedMessage_def MessageBuffer_of_def CurrentProtocolVersion_def)
  have "get (SetProtocolVersion v (?b\<lparr>rPos := 6\<rparr>)) =
      Inr (view x, (SetProtocolVersion v (?b\<lparr>rPos := 6\<rparr>))\<lparr>rPos := 6 + length ?bs\<rparr>)"
    using rd[unfolded reads_at_def, rule_format, of "SetProtocolVersion v (?b\<lparr>rPos := 6\<rparr>)"
        "registry_prefix len ?k"] by (simp add: SetProtocolVersion_def MessageBuffer_of_def)
  then show ?thesis
    by (simp add: handshake_def m rel r SerializedMessage_Deserialize_def
        SerializedMessage_SetProtocolVersion_def)
qed

end

text \<open>The four kinds of registry messages and, for the announcement, both versions.\<close>

lemma header_first:
  assumes "writes_at v p bs" "\<And>b. protocolVersion b = v \<Longrightarrow> p b = put_all (put_RegistryMsgHeader h # ws) b"
    and "writes (put_all ws) cs"
  shows "\<exists>rest. bs = header_bytes h @ rest"
proof -
  let ?b = "SetProtocolVersion v empty_MessageBuffer"
  have b: "wf_buffer ?b" "protocolVersion ?b = v" "storage ?b = []"
    by (simp_all add: SetProtocolVersion_def wf_buffer_def empty_MessageBuffer_def)
  have "put_all (put_RegistryMsgHeader h # ws) ?b = Inr (append_bytes (header_bytes h @ cs) ?b)"
    using writes_Cons[OF writes_header assms(3)] b by (simp add: writes_def)
  then have "append_bytes bs ?b = append_bytes (header_bytes h @ cs) ?b"
    using assms(1,2) b by (simp add: writes_at_def)
  then have "storage (append_bytes bs ?b) = storage (append_bytes (header_bytes h @ cs) ?b)" by simp
  then show ?thesis using b by simp
qed

interpretation registry_announcement_v31: registry_codec v31 put_ParticipantAnnouncement
    get_ParticipantAnnouncement "ok_ParticipantAnnouncement v31" "\<lambda>a. a"
    T_ParticipantAnnouncement pa_messageHeader
proof
  fix a bs
  assume ok: "ok_ParticipantAnnouncement v31 a" and w: "writes_at v31 (put_ParticipantAnnouncement a) bs"
  let ?ws = "[put_VAsioPeerInfo (pa_peerInfo a), put_string (pa_simulationName a)]"
  have "rtn ?ws (get_bind get_VAsioPeerInfo (\<lambda>i. get_bind get_string (\<lambda>s. get_return (i, s))))
      (pa_peerInfo a, pa_simulationName a)"
    using ok by (intro tail_field) (simp_all add: ok_ParticipantAnnouncement_def)
  then obtain cs where cs: "writes (put_all ?ws) cs" by (auto simp: rtn_def)
  show "\<exists>rest. bs = header_bytes (pa_messageHeader a) @ rest"
    using ok by (intro header_first[OF w _ cs]) (simp add: put_ParticipantAnnouncement_def Let_def
        ok_ParticipantAnnouncement_def GetProtocolVersion_def)
qed simp_all

interpretation registry_reply_v31: registry_codec v31 put_ParticipantAnnouncementReply
    get_ParticipantAnnouncementReply ok_ParticipantAnnouncementReply "\<lambda>r. r"
    T_ParticipantAnnouncementReply pr_remoteHeader
proof
  fix r bs
  assume ok: "ok_ParticipantAnnouncementReply r" and w: "writes_at v31 (put_ParticipantAnnouncementReply r) bs"
  let ?ws = "[put_int (pr_status r), put_vector put_VAsioMsgSubscriber (pr_subscribers r),
    put_string (pr_diagnostic r)]"
  have "rtn ?ws (get_bind get_int (\<lambda>n. get_bind (get_vector get_VAsioMsgSubscriber) (\<lambda>i.
      get_bind get_string (\<lambda>s. get_return (n, i, s))))) (pr_status r, pr_subscribers r, pr_diagnostic r)"
    using ok by (intro tail_field) (simp_all add: ok_ParticipantAnnouncementReply_def)
  then obtain cs where cs: "writes (put_all ?ws) cs" by (auto simp: rtn_def)
  show "\<exists>rest. bs = header_bytes (pr_remoteHeader r) @ rest"
    by (intro header_first[OF w _ cs]) (simp add: put_ParticipantAnnouncementReply_def GetProtocolVersion_def)
qed simp_all

interpretation registry_known_v31: registry_codec v31 put_KnownParticipants get_KnownParticipants
    ok_KnownParticipants "\<lambda>k. k" T_KnownParticipants kp_messageHeader
proof
  fix k bs
  assume ok: "ok_KnownParticipants k" and w: "writes_at v31 (put_KnownParticipants k) bs"
  let ?ws = "[put_vector put_VAsioPeerInfo (kp_peerInfos k)]"
  have "rtn ?ws (get_bind (get_vector get_VAsioPeerInfo) get_return) (kp_peerInfos k)"
    using ok by (intro tail_field) (simp_all add: ok_KnownParticipants_def)
  then obtain cs where cs: "writes (put_all ?ws) cs" by (auto simp: rtn_def)
  show "\<exists>rest. bs = header_bytes (kp_messageHeader k) @ rest"
    by (intro header_first[OF w _ cs]) (simp add: put_KnownParticipants_def GetProtocolVersion_def)
qed simp_all

text \<open>
  The legacy header has the bytes of the current one: the preamble of four characters is the
  little-endian integer. So a receiver finds the version of a 3.0 announcement in the same place.
\<close>

lemma legacy_header_bytes:
  "writes (put_RegistryMsgHeader_v30 default_RegistryMsgHeader_v30) (header_bytes (MakeRegistryMsgHeader v30))"
proof -
  have "writes (put_array [0x56, 0x49, 0x42, 0x2d]) [0x56, 0x49, 0x42, 0x2d]"
    using writes_put_block by (simp add: writes_def put_array_def uint32_max_def)
  moreover have "[0x56, 0x49, 0x42, 0x2d] = le_bytes 4 REGISTRY_MESSAGE_HEADER_PREAMBLE_VALUE"
    by code_simp
  ultimately have "writes (put_array [0x56, 0x49, 0x42, 0x2d]) (le_bytes 4 REGISTRY_MESSAGE_HEADER_PREAMBLE_VALUE)"
    by metis
  from writes_Cons[OF this writes_Cons[OF writes_put_int[of "3 :: u16"]
        writes_Cons[OF writes_put_int[of "0 :: u16"] writes_Nil]]]
  show ?thesis
    by (simp add: put_RegistryMsgHeader_v30_def default_RegistryMsgHeader_v30_def header_bytes_def
        MakeRegistryMsgHeader_def default_RegistryMsgHeader_def)
qed

interpretation registry_announcement_v30: registry_codec v30 put_ParticipantAnnouncement
    get_ParticipantAnnouncement "ok_ParticipantAnnouncement v30" legacy_ParticipantAnnouncement
    T_ParticipantAnnouncement "\<lambda>a. MakeRegistryMsgHeader v30"
proof
  fix a bs
  assume ok: "ok_ParticipantAnnouncement v30 a" and w: "writes_at v30 (put_ParticipantAnnouncement a) bs"
  let ?ws = "[put_VAsioPeerInfo_v30 default_VAsioPeerInfo_v30,
    put_VAsioPeerUri_v30 (PeerUri_of_PeerInfo (pa_peerInfo a))]"
  have "rtn ?ws (get_bind get_VAsioPeerInfo_v30 (\<lambda>i. get_bind get_VAsioPeerUri_v30 (\<lambda>s. get_return (i, s))))
      (default_VAsioPeerInfo_v30, PeerUri_of_PeerInfo (pa_peerInfo a))"
    using ok by (intro tail_field) (simp_all add: ok_ParticipantAnnouncement_def)
  then obtain cs where cs: "writes (put_all ?ws) cs" by (auto simp: rtn_def)
  let ?b = "SetProtocolVersion v30 empty_MessageBuffer"
  have b: "wf_buffer ?b" "protocolVersion ?b = v30" "storage ?b = []"
    by (simp_all add: SetProtocolVersion_def wf_buffer_def empty_MessageBuffer_def)
  have "put_ParticipantAnnouncement a ?b =
      put_all (put_RegistryMsgHeader_v30 default_RegistryMsgHeader_v30 # ?ws) ?b"
    using ok b by (simp add: put_ParticipantAnnouncement_def Let_def ok_ParticipantAnnouncement_def
        GetProtocolVersion_def SerializeV30_ParticipantAnnouncement_def put_ParticipantAnnouncement_v30_def)
  also have "\<dots> = Inr (append_bytes (header_bytes (MakeRegistryMsgHeader v30) @ cs) ?b)"
    using writes_Cons[OF legacy_header_bytes cs] b by (simp add: writes_def)
  finally have "append_bytes bs ?b = append_bytes (header_bytes (MakeRegistryMsgHeader v30) @ cs) ?b"
    using w b by (simp add: writes_at_def)
  then have "storage (append_bytes bs ?b) =
      storage (append_bytes (header_bytes (MakeRegistryMsgHeader v30) @ cs) ?b)" by simp
  then show "\<exists>rest. bs = header_bytes (MakeRegistryMsgHeader v30) @ rest" using b by simp
qed simp_all

text \<open>
  A 3.0 reply has no header, but a received blob is parsed as if the protocol version were the
  current one. For a reply without subscribers the eight bytes that are peeked at reach four bytes
  past the end of the blob.
\<close>

definition empty_legacy_reply :: bytes where
  "empty_legacy_reply = [10, 0, 0, 0, SilKitRegistryMessage, 2, 0, 0, 0, 0]"

lemma empty_legacy_reply_sent:
  "bindE (SerializedMessage_versioned v30 T_ParticipantAnnouncementReply
     put_ParticipantAnnouncementReply
       \<lparr>pr_remoteHeader = MakeRegistryMsgHeader v30, pr_status = 1, pr_subscribers = [], pr_diagnostic = []\<rparr>)
     SerializedMessage_ReleaseStorage = Inr empty_legacy_reply"
  by code_simp

lemma empty_legacy_reply_received: "SerializedMessage_of_blob empty_legacy_reply = Inl out_of_bounds_read"
  by code_simp

section \<open>Properties of the handshake\<close>

text \<open>
  C31. The handshake at the current version: an announcement, a reply or a list of known
  participants arrives as it was sent, and the receiver learns its kind and registry header (with the
  version of the sender) before it deserialises the body.
\<close>

theorem current_handshake:
  "(\<forall>a. ok_ParticipantAnnouncement v31 a \<longrightarrow>
      handshake_fits v31 T_ParticipantAnnouncement put_ParticipantAnnouncement a \<longrightarrow>
      handshake v31 T_ParticipantAnnouncement put_ParticipantAnnouncement get_ParticipantAnnouncement a =
        Inr (1, pa_messageHeader a, a)) \<and>
   (\<forall>r. ok_ParticipantAnnouncementReply r \<longrightarrow>
      handshake_fits v31 T_ParticipantAnnouncementReply put_ParticipantAnnouncementReply r \<longrightarrow>
      handshake v31 T_ParticipantAnnouncementReply put_ParticipantAnnouncementReply
        get_ParticipantAnnouncementReply r = Inr (2, pr_remoteHeader r, r)) \<and>
   (\<forall>k. ok_KnownParticipants k \<longrightarrow> handshake_fits v31 T_KnownParticipants put_KnownParticipants k \<longrightarrow>
      handshake v31 T_KnownParticipants put_KnownParticipants get_KnownParticipants k =
        Inr (3, kp_messageHeader k, k))"
  using registry_announcement_v31.handshaken registry_reply_v31.handshaken registry_known_v31.handshaken by simp

definition sample_announcement :: "ProtocolVersion \<Rightarrow> ParticipantAnnouncement" where
  "sample_announcement v = \<lparr>pa_messageHeader = MakeRegistryMsgHeader v,
     pa_peerInfo = \<lparr>pi_participantName = ''A'', pi_participantId = 7, pi_acceptorUris = [], pi_capabilities = ''{}''\<rparr>,
     pa_simulationName = ''S''\<rparr>"

lemma sample_announcement_ok: "ok_ParticipantAnnouncement v (sample_announcement v)"
  by (simp add: ok_ParticipantAnnouncement_def sample_announcement_def ExtractProtocolVersion_def
      MakeRegistryMsgHeader_def ok_VAsioPeerInfo_def ok_string_def ok_vector_def uint32_max_def)

lemma sample_announcement_fits:
  "handshake_fits v31 T_ParticipantAnnouncement put_ParticipantAnnouncement (sample_announcement v31)"
  "handshake_fits v30 T_ParticipantAnnouncement put_ParticipantAnnouncement (sample_announcement v30)"
  by code_simp+

theorem current_handshake_witness:
  "handshake v31 T_ParticipantAnnouncement put_ParticipantAnnouncement get_ParticipantAnnouncement
     (sample_announcement v31) = Inr (1, MakeRegistryMsgHeader v31, sample_announcement v31)"
  using current_handshake sample_announcement_ok[of v31] sample_announcement_fits(1)
  by (auto simp: sample_announcement_def)

text \<open>
  C32. The announcement of a 3.0 participant: its legacy header has the bytes of the current one,
  so the receiver recognises the version and reads name, identifier and acceptor addresses; the
  capabilities and the simulation name, which 3.0 does not have, come out empty.
\<close>

theorem legacy_announcement:
  assumes "ok_ParticipantAnnouncement v30 a"
    and "handshake_fits v30 T_ParticipantAnnouncement put_ParticipantAnnouncement a"
  shows "handshake v30 T_ParticipantAnnouncement put_ParticipantAnnouncement get_ParticipantAnnouncement a =
     Inr (1, MakeRegistryMsgHeader v30,
          \<lparr>pa_messageHeader = MakeRegistryMsgHeader v30, pa_peerInfo = (pa_peerInfo a)\<lparr>pi_capabilities := []\<rparr>,
           pa_simulationName = []\<rparr>)"
  using registry_announcement_v30.handshaken[OF assms]
  by (simp add: legacy_ParticipantAnnouncement_def legacy_PeerInfo_def)

theorem legacy_announcement_witness:
  "handshake v30 T_ParticipantAnnouncement put_ParticipantAnnouncement get_ParticipantAnnouncement
     (sample_announcement v30) = Inr (1, MakeRegistryMsgHeader v30, legacy_ParticipantAnnouncement (sample_announcement v30))"
  using legacy_announcement[OF sample_announcement_ok sample_announcement_fits(2)]
  by (simp add: legacy_ParticipantAnnouncement_def legacy_PeerInfo_def)

text \<open>
  The reply of a 3.0 registry without subscribers has ten bytes, but parsing its headers copies
  the eight bytes from offset six on, four of them outside of the blob.
\<close>

lemma legacy_reply_read_out_of_bounds:
  "bindE (SerializedMessage_versioned v30 T_ParticipantAnnouncementReply put_ParticipantAnnouncementReply
     \<lparr>pr_remoteHeader = MakeRegistryMsgHeader v30, pr_status = 1, pr_subscribers = [], pr_diagnostic = []\<rparr>)
     SerializedMessage_ReleaseStorage = Inr [10, 0, 0, 0, 5, 2, 0, 0, 0, 0] \<and>
   SerializedMessage_of_blob [10, 0, 0, 0, 5, 2, 0, 0, 0, 0] = Inl out_of_bounds_read"
  using empty_legacy_reply_sent empty_legacy_reply_received by (simp add: empty_legacy_reply_def)

end
