(* ===== verification/Ring_Buffer.thy ===== *)
theory Ring_Buffer
  imports Prelude
begin

text \<open>
  The ring buffer that collects the bytes received from a socket (core/vasio/RingBuffer.cpp), and
  the queue of bytes it implements. \<^verbatim>\<open>size_t\<close> counts are natural numbers; the one subtraction that
  may wrap around is written out. The locale \<open>byte_queue\<close> is the interface its client, the peer,
  relies on; the interpretation at the end discharges its laws for the ring buffer.
\<close>

section \<open>The ring buffer\<close>

record RingBuffer =
  rb_buffer :: bytes
  rb_size :: nat
  rb_wPos :: nat
  rb_rPos :: nat

text \<open>
  Exceptions leave the object as it is when they are thrown, so an error carries the state. The
  modulus by a capacity of zero is undefined behaviour.
\<close>

datatype ring_error = buffer_size_exceeded | modulo_zero

type_synonym 'a ring_result = "(ring_error \<times> RingBuffer) + 'a"

definition RingBuffer_new :: "nat \<Rightarrow> RingBuffer" where
  "RingBuffer_new capacity = \<lparr>rb_buffer = replicate capacity 0, rb_size = 0, rb_wPos = 0, rb_rPos = 0\<rparr>"

definition Capacity :: "RingBuffer \<Rightarrow> nat" where
  "Capacity rb = length (rb_buffer rb)"

definition Empty :: "RingBuffer \<Rightarrow> bool" where
  "Empty rb \<longleftrightarrow> rb_size rb = 0"

definition SizeCheck :: "RingBuffer \<Rightarrow> RingBuffer ring_result" where
  "SizeCheck rb = (if rb_size rb > Capacity rb then Inl (buffer_size_exceeded, rb) else Inr rb)"

definition AdvanceWPos :: "nat \<Rightarrow> RingBuffer \<Rightarrow> RingBuffer ring_result" where
  "AdvanceWPos numBytes rb =
     (if Capacity rb = 0 then Inl (modulo_zero, rb)
      else SizeCheck (rb\<lparr>rb_wPos := (rb_wPos rb + numBytes) mod Capacity rb,
                         rb_size := rb_size rb + numBytes\<rparr>))"

definition AdvanceRPos :: "nat \<Rightarrow> RingBuffer \<Rightarrow> RingBuffer ring_result" where
  "AdvanceRPos numBytes rb =
     (if Capacity rb = 0 then Inl (modulo_zero, rb)
      else SizeCheck (rb\<lparr>rb_rPos := (rb_rPos rb + numBytes) mod Capacity rb,
                         rb_size := (if numBytes \<le> rb_size rb then rb_size rb - numBytes
                                     else 2 ^ 64 + rb_size rb - numBytes)\<rparr>))"

text \<open>\<^verbatim>\<open>Peek(elem)\<close> fills a vector of \<open>n\<close> bytes; \<open>None\<close> is the result false.\<close>

definition Peek :: "nat \<Rightarrow> RingBuffer \<Rightarrow> bytes option" where
  "Peek n rb =
     (if n > rb_size rb then None
      else let numBytesArrayOne = min (Capacity rb - rb_rPos rb) n;
               arrayOne = take numBytesArrayOne (drop (rb_rPos rb) (rb_buffer rb))
           in Some (if numBytesArrayOne < n
                    then arrayOne @ take (n - numBytesArrayOne) (rb_buffer rb) else arrayOne))"

definition Read :: "nat \<Rightarrow> RingBuffer \<Rightarrow> (bytes option \<times> RingBuffer) ring_result" where
  "Read n rb =
     (case Peek n rb of
        None \<Rightarrow> Inr (None, rb)
      | Some elem \<Rightarrow> bindE (AdvanceRPos n rb) (\<lambda>rb. Inr (Some elem, rb)))"

definition GetFreeMemorySizeArrayOne :: "RingBuffer \<Rightarrow> nat" where
  "GetFreeMemorySizeArrayOne rb =
     (if Empty rb then Capacity rb - rb_wPos rb
      else min (Capacity rb - rb_wPos rb) (Capacity rb - rb_size rb))"

definition GetFreeMemorySizeArrayTwo :: "RingBuffer \<Rightarrow> nat" where
  "GetFreeMemorySizeArrayTwo rb =
     (if Empty rb then rb_wPos rb
      else (Capacity rb - rb_size rb) - GetFreeMemorySizeArrayOne rb)"

text \<open>The writing buffers as pairs of offset and length; empty ones are left out.\<close>

definition GetWritingBuffers :: "RingBuffer \<Rightarrow> (nat \<times> nat) list" where
  "GetWritingBuffers rb =
     (if GetFreeMemorySizeArrayOne rb > 0 then [(rb_wPos rb, GetFreeMemorySizeArrayOne rb)] else []) @
     (if GetFreeMemorySizeArrayTwo rb > 0 then [(0, GetFreeMemorySizeArrayTwo rb)] else [])"

definition Reserve :: "nat \<Rightarrow> RingBuffer \<Rightarrow> RingBuffer" where
  "Reserve newCapacity rb =
     (if newCapacity \<le> Capacity rb then rb
      else let newBuffer = (case Peek (rb_size rb) rb of None \<Rightarrow> replicate (rb_size rb) 0 | Some elem \<Rightarrow> elem)
           in rb\<lparr>rb_buffer := resize newCapacity 0 newBuffer, rb_rPos := 0, rb_wPos := rb_size rb\<rparr>)"

text \<open>
  A read from the socket stores the received bytes into the writing buffers, in order, before its
  completion handler advances the write position.
\<close>

fun scatter :: "(nat \<times> nat) list \<Rightarrow> bytes \<Rightarrow> bytes \<Rightarrow> bytes" where
  "scatter [] bs buf = buf"
| "scatter ((pos, len) # bufs) bs buf = scatter bufs (drop len bs) (overwrite pos (take len bs) buf)"

definition receive :: "bytes \<Rightarrow> RingBuffer \<Rightarrow> RingBuffer" where
  "receive bs rb = rb\<lparr>rb_buffer := scatter (GetWritingBuffers rb) bs (rb_buffer rb)\<rparr>"

definition Write :: "bytes \<Rightarrow> RingBuffer \<Rightarrow> RingBuffer ring_result" where
  "Write bs rb = AdvanceWPos (length bs) (receive bs rb)"

section \<open>Contents and invariant\<close>

definition rb_inv :: "RingBuffer \<Rightarrow> bool" where
  "rb_inv rb \<longleftrightarrow> 0 < Capacity rb \<and> rb_size rb \<le> Capacity rb \<and> rb_rPos rb < Capacity rb \<and>
     rb_wPos rb = (rb_rPos rb + rb_size rb) mod Capacity rb"

definition contents :: "RingBuffer \<Rightarrow> bytes" where
  "contents rb = map (\<lambda>i. rb_buffer rb ! ((rb_rPos rb + i) mod Capacity rb)) [0..<rb_size rb]"

lemma length_contents [simp]: "length (contents rb) = rb_size rb"
  by (simp add: contents_def)

lemma nth_contents [simp]:
  "i < rb_size rb \<Longrightarrow> contents rb ! i = rb_buffer rb ! ((rb_rPos rb + i) mod Capacity rb)"
  by (simp add: contents_def)

lemma mod_wrap: "r < c \<Longrightarrow> i \<le> c \<Longrightarrow> (r + i) mod c = (if r + i < c then r + i else r + i - c)" for c :: nat
  by (cases "r + i < c") (auto simp: le_mod_geq)

lemma Peek_eq: "rb_inv rb \<Longrightarrow> Peek n rb = (if n \<le> rb_size rb then Some (take n (contents rb)) else None)"
proof (cases "n \<le> rb_size rb")
  case True
  assume inv: "rb_inv rb"
  then have le: "n \<le> Capacity rb" and r: "rb_rPos rb < Capacity rb" using True by (auto simp: rb_inv_def)
  let ?c = "Capacity rb - rb_rPos rb"
  let ?one = "take (min ?c n) (drop (rb_rPos rb) (rb_buffer rb))"
  have "(if min ?c n < n then ?one @ take (n - min ?c n) (rb_buffer rb) else ?one) = take n (contents rb)"
    (is "?l = _")
  proof (rule nth_equalityI)
    show len: "length ?l = length (take n (contents rb))"
      using True le r by (auto simp: Capacity_def)
    fix i
    assume "i < length ?l"
    then have i: "i < n" using len True by simp
    then show "?l ! i = take n (contents rb) ! i"
      using True le r mod_wrap[OF r, of i]
      by (auto simp: nth_append Capacity_def min_def add.commute)
  qed
  then show ?thesis using True by (simp add: Peek_def Let_def)
qed (simp add: Peek_def)

lemma nth_overwrite:
  "pos + length bs \<le> length xs \<Longrightarrow> i < length xs \<Longrightarrow>
     overwrite pos bs xs ! i = (if pos \<le> i \<and> i < pos + length bs then bs ! (i - pos) else xs ! i)"
  by (auto simp: overwrite_def nth_append min_def)

lemma overwrite_Nil [simp]: "overwrite pos [] xs = xs"
  by (simp add: overwrite_def)

lemma free_sizes:
  assumes "rb_inv rb"
  shows "GetFreeMemorySizeArrayOne rb = min (Capacity rb - rb_wPos rb) (Capacity rb - rb_size rb)"
    and "GetFreeMemorySizeArrayTwo rb = (Capacity rb - rb_size rb) - GetFreeMemorySizeArrayOne rb"
  using assms by (auto simp: GetFreeMemorySizeArrayOne_def GetFreeMemorySizeArrayTwo_def Empty_def rb_inv_def)

lemma free_total:
  "rb_inv rb \<Longrightarrow> GetFreeMemorySizeArrayOne rb + GetFreeMemorySizeArrayTwo rb = Capacity rb - rb_size rb"
  by (simp add: free_sizes)

lemma scatter_writing_buffers:
  "scatter (GetWritingBuffers rb) bs buf =
     overwrite 0 (take (GetFreeMemorySizeArrayTwo rb) (drop (GetFreeMemorySizeArrayOne rb) bs))
       (overwrite (rb_wPos rb) (take (GetFreeMemorySizeArrayOne rb) bs) buf)"
  by (simp add: GetWritingBuffers_def)

text \<open>Where byte \<open>j\<close> of the memory comes from, seen from the write position.\<close>

lemma nth_receive:
  assumes inv: "rb_inv rb" and fits: "rb_size rb + length bs \<le> Capacity rb" and j: "j < Capacity rb"
  defines "d \<equiv> if rb_wPos rb \<le> j then j - rb_wPos rb else j + Capacity rb - rb_wPos rb"
  shows "rb_buffer (receive bs rb) ! j = (if d < length bs then bs ! d else rb_buffer rb ! j)"
    and "length (rb_buffer (receive bs rb)) = Capacity rb"
proof -
  let ?c = "Capacity rb" and ?w = "rb_wPos rb" and ?s = "rb_size rb" and ?r = "rb_rPos rb"
  define one two where "one = GetFreeMemorySizeArrayOne rb" and "two = GetFreeMemorySizeArrayTwo rb"
  have r: "?r < ?c" and s: "?s \<le> ?c" and w: "?w = (if ?r + ?s < ?c then ?r + ?s else ?r + ?s - ?c)"
    using inv mod_wrap[of ?r ?c ?s] by (auto simp: rb_inv_def)
  have one: "one = min (?c - ?w) (?c - ?s)" and two: "two = ?c - ?s - one"
    using free_sizes[OF inv] by (simp_all add: one_def two_def)
  have wc: "?w < ?c" using w r s by auto
  have wrap: "?r + ?s < ?c \<Longrightarrow> one = ?c - ?w" "?r + ?s \<ge> ?c \<Longrightarrow> one = ?c - ?s"
    using one w r s by (auto simp: min_def)
  have len: "length (take one bs) = min one (length bs)"
      "length (take two (drop one bs)) = min two (length bs - one)" by simp_all
  let ?first = "overwrite ?w (take one bs) (rb_buffer rb)"
  have fit1: "?w + length (take one bs) \<le> length (rb_buffer rb)"
    using one wc by (auto simp: Capacity_def min_def)
  then have len1: "length ?first = ?c" by (simp add: length_overwrite Capacity_def)
  have fit2: "0 + length (take two (drop one bs)) \<le> length ?first"
    unfolding len1 using two s by auto
  then show "length (rb_buffer (receive bs rb)) = ?c"
    using len1 by (simp add: receive_def scatter_writing_buffers length_overwrite one_def[symmetric] two_def[symmetric])
  have "rb_buffer (receive bs rb) ! j =
      (if j < min (length bs - one) two then drop one bs ! j
       else if ?w \<le> j \<and> j < ?w + min (length bs) one then bs ! (j - ?w) else rb_buffer rb ! j)"
    using j fit1 fit2 len1
    by (auto simp: receive_def scatter_writing_buffers one_def[symmetric] two_def[symmetric]
        nth_overwrite Capacity_def)
  also have "\<dots> = (if d < length bs then bs ! d else rb_buffer rb ! j)"
    using fits j w r s wrap two wc unfolding d_def
    by (auto simp: not_le min_def add.commute split: if_splits)
  finally show "rb_buffer (receive bs rb) ! j = (if d < length bs then bs ! d else rb_buffer rb ! j)" .
qed

lemma receive_simps [simp]:
  "rb_size (receive bs rb) = rb_size rb" "rb_wPos (receive bs rb) = rb_wPos rb"
  "rb_rPos (receive bs rb) = rb_rPos rb"
  by (simp_all add: receive_def)

lemma Capacity_receive:
  "rb_inv rb \<Longrightarrow> rb_size rb + length bs \<le> Capacity rb \<Longrightarrow> Capacity (receive bs rb) = Capacity rb"
  using nth_receive(2)[of rb bs 0] by (simp add: rb_inv_def Capacity_def)

section \<open>The interface of the ring buffer\<close>

text \<open>
  A queue of bytes: writing appends, peeking shows a prefix, reading removes it, and the bytes are
  not affected when the capacity grows.
\<close>

locale byte_queue =
  fixes inv :: "'q \<Rightarrow> bool" and bytes_of :: "'q \<Rightarrow> bytes" and capacity :: "'q \<Rightarrow> nat"
    and push :: "bytes \<Rightarrow> 'q \<Rightarrow> 'e + 'q" and peek :: "nat \<Rightarrow> 'q \<Rightarrow> bytes option"
    and pop :: "nat \<Rightarrow> 'q \<Rightarrow> 'e + bytes option \<times> 'q" and reserve :: "nat \<Rightarrow> 'q \<Rightarrow> 'q"
  assumes within: "inv q \<Longrightarrow> length (bytes_of q) \<le> capacity q"
    and push_law: "inv q \<Longrightarrow> length (bytes_of q) + length bs \<le> capacity q \<Longrightarrow>
      \<exists>q'. push bs q = Inr q' \<and> inv q' \<and> bytes_of q' = bytes_of q @ bs \<and> capacity q' = capacity q"
    and peek_law: "inv q \<Longrightarrow> peek n q =
      (if n \<le> length (bytes_of q) then Some (take n (bytes_of q)) else None)"
    and pop_law: "inv q \<Longrightarrow> n \<le> length (bytes_of q) \<Longrightarrow>
      \<exists>q'. pop n q = Inr (Some (take n (bytes_of q)), q') \<and> inv q' \<and>
        bytes_of q' = drop n (bytes_of q) \<and> capacity q' = capacity q"
    and reserve_law: "inv q \<Longrightarrow> inv (reserve n q) \<and> bytes_of (reserve n q) = bytes_of q \<and>
      capacity (reserve n q) = max n (capacity q)"
begin

text \<open>Bytes come out in the order in which they were put in, however they were cut into pieces.\<close>

lemma pop_after_push:
  assumes "inv q" "bytes_of q = []" "length bs \<le> capacity q"
  shows "\<exists>q1 q2. push bs q = Inr q1 \<and> pop (length bs) q1 = Inr (Some bs, q2) \<and> inv q2 \<and> bytes_of q2 = []"
proof -
  from push_law[OF assms(1), of bs] assms obtain q1
    where q1: "push bs q = Inr q1" "inv q1" "bytes_of q1 = bs" by auto
  with pop_law[OF q1(2), of "length bs"] show ?thesis by auto
qed

lemma pieces_append:
  assumes "inv q" "length (bytes_of q) + length (concat cs) \<le> capacity q"
  shows "\<exists>q'. foldl (\<lambda>r c. bindE r (push c)) (Inr q) cs = Inr q' \<and> inv q' \<and>
     bytes_of q' = bytes_of q @ concat cs"
  using assms
proof (induction cs arbitrary: q)
  case Nil
  then show ?case by simp
next
  case (Cons c cs)
  from push_law[OF Cons.prems(1), of c] Cons.prems(2) obtain q1
    where "push c q = Inr q1" "inv q1" "bytes_of q1 = bytes_of q @ c" "capacity q1 = capacity q" by auto
  with Cons.IH[of q1] Cons.prems(2) show ?case by auto
qed

end

lemma write_ring:
  assumes "rb_inv rb" "rb_size rb + length bs \<le> Capacity rb"
  shows "\<exists>rb'. Write bs rb = Inr rb' \<and> rb_inv rb' \<and> contents rb' = contents rb @ bs \<and>
     Capacity rb' = Capacity rb"
proof -
  let ?c = "Capacity rb" and ?rb = "receive bs rb"
  let ?rb' = "?rb\<lparr>rb_wPos := (rb_wPos rb + length bs) mod ?c, rb_size := rb_size rb + length bs\<rparr>"
  have cap: "Capacity ?rb = ?c" "Capacity ?rb' = ?c"
    using Capacity_receive[OF assms] by (simp_all add: Capacity_def)
  have "Write bs rb = Inr ?rb'"
    using assms cap by (simp add: Write_def AdvanceWPos_def SizeCheck_def rb_inv_def Capacity_def)
  moreover have "rb_inv ?rb'"
    using assms cap by (simp add: rb_inv_def mod_add_left_eq add.assoc)
  moreover have "contents ?rb' = contents rb @ bs"
  proof (rule nth_equalityI)
    fix i
    assume "i < length (contents ?rb')"
    then have i: "i < rb_size rb + length bs" by simp
    let ?j = "(rb_rPos rb + i) mod ?c"
    have r: "rb_rPos rb < ?c" and w: "rb_wPos rb = (rb_rPos rb + rb_size rb) mod ?c" and s: "rb_size rb \<le> ?c"
      using assms(1) by (auto simp: rb_inv_def)
    have j: "?j < ?c" using r by simp
    have "rb_buffer ?rb ! ?j = (if i < rb_size rb then rb_buffer rb ! ?j else bs ! (i - rb_size rb))"
      unfolding nth_receive(1)[OF assms j] w
      using i r s assms(2) mod_wrap[OF r, of i] mod_wrap[OF r, of "rb_size rb"] by auto
    then show "contents ?rb' ! i = (contents rb @ bs) ! i"
      using i cap by (simp add: nth_append)
  qed simp
  ultimately show ?thesis using cap by blast
qed

lemma read_ring:
  assumes "rb_inv rb" "n \<le> rb_size rb"
  shows "\<exists>rb'. Read n rb = Inr (Some (take n (contents rb)), rb') \<and> rb_inv rb' \<and>
     contents rb' = drop n (contents rb) \<and> Capacity rb' = Capacity rb"
proof -
  let ?c = "Capacity rb"
  let ?rb' = "rb\<lparr>rb_rPos := (rb_rPos rb + n) mod ?c, rb_size := rb_size rb - n\<rparr>"
  have cap: "Capacity ?rb' = ?c" by (simp add: Capacity_def)
  have inv: "rb_size rb \<le> ?c" "0 < ?c" "rb_rPos rb < ?c" "rb_wPos rb = (rb_rPos rb + rb_size rb) mod ?c"
    using assms(1) by (auto simp: rb_inv_def)
  have "Read n rb = Inr (Some (take n (contents rb)), ?rb')"
    using assms inv cap by (simp add: Read_def Peek_eq AdvanceRPos_def SizeCheck_def)
  moreover have "((rb_rPos rb + n) mod ?c + (rb_size rb - n)) mod ?c = (rb_rPos rb + rb_size rb) mod ?c"
    unfolding mod_add_left_eq using assms(2) by simp
  then have "rb_inv ?rb'"
    using inv cap unfolding rb_inv_def by auto
  moreover have "contents ?rb' = drop n (contents rb)"
    using assms(2) cap by (intro nth_equalityI) (auto simp: mod_add_left_eq add.assoc)
  ultimately show ?thesis using cap by blast
qed

lemma reserve_ring:
  assumes "rb_inv rb"
  shows "rb_inv (Reserve n rb) \<and> contents (Reserve n rb) = contents rb \<and>
     Capacity (Reserve n rb) = max n (Capacity rb)"
proof (cases "n \<le> Capacity rb")
  case True
  then show ?thesis using assms by (simp add: Reserve_def)
next
  case False
  then have eq: "Reserve n rb =
      rb\<lparr>rb_buffer := resize n 0 (contents rb), rb_rPos := 0, rb_wPos := rb_size rb\<rparr>" (is "_ = ?rb'")
    using assms by (simp add: Reserve_def Peek_eq)
  have cap: "Capacity ?rb' = n" by (simp add: Capacity_def)
  have "rb_size rb < n" using assms False by (auto simp: rb_inv_def)
  moreover from this have "contents ?rb' = contents rb"
    using cap by (intro nth_equalityI) (auto simp: resize_def nth_append)
  ultimately show ?thesis using cap False unfolding eq by (simp add: rb_inv_def)
qed

interpretation ring: byte_queue rb_inv contents Capacity Write Peek Read Reserve
proof
  show "length (contents q) \<le> Capacity q" if "rb_inv q" for q
    using that by (simp add: rb_inv_def)
qed (use write_ring read_ring reserve_ring Peek_eq in auto)

lemma new_ring:
  "0 < n \<Longrightarrow> rb_inv (RingBuffer_new n) \<and> contents (RingBuffer_new n) = [] \<and>
     Capacity (RingBuffer_new n) = n \<and> rb_size (RingBuffer_new n) = 0"
  by (simp add: RingBuffer_new_def rb_inv_def Capacity_def contents_def)

section \<open>Exceptions\<close>

text \<open>
  Advancing too far throws, but only after the object was changed: the invariant is gone for good.
\<close>

lemma AdvanceWPos_overflow:
  assumes "rb_inv rb" "Capacity rb < rb_size rb + n"
  shows "\<exists>rb'. AdvanceWPos n rb = Inl (buffer_size_exceeded, rb') \<and> \<not> rb_inv rb'"
  using assms by (simp add: AdvanceWPos_def SizeCheck_def rb_inv_def Capacity_def)

lemma Capacity_receive_any: "rb_inv rb \<Longrightarrow> Capacity (receive bs rb) = Capacity rb"
proof -
  assume inv: "rb_inv rb"
  let ?w = "rb_wPos rb" and ?one = "GetFreeMemorySizeArrayOne rb" and ?two = "GetFreeMemorySizeArrayTwo rb"
  have "?w < Capacity rb" "?one \<le> Capacity rb - ?w" "?two \<le> Capacity rb"
    using inv free_sizes[OF inv] by (auto simp: rb_inv_def)
  then have 1: "?w + length (take ?one bs) \<le> length (rb_buffer rb)"
      and 2: "0 + length (take ?two (drop ?one bs)) \<le> length (rb_buffer rb)"
    by (auto simp: Capacity_def min_def)
  show ?thesis
    unfolding Capacity_def receive_def scatter_writing_buffers
    using 2 by (simp add: length_overwrite[OF 1] length_overwrite)
qed

lemma Write_overflow:
  assumes "rb_inv rb" "Capacity rb < rb_size rb + length bs"
  shows "\<exists>rb'. Write bs rb = Inl (buffer_size_exceeded, rb')"
  using assms Capacity_receive_any[OF assms(1), of bs]
  by (simp add: Write_def AdvanceWPos_def SizeCheck_def rb_inv_def Capacity_def)

section \<open>Refinement of a queue of bytes\<close>

text \<open>
  Any sequence of operations, with the results it produces: \<open>Inl\<close> when an operation throws. The
  specification keeps the bytes in order and knows the capacity, nothing else.
\<close>

datatype ring_op = OpWrite bytes | OpPeek nat | OpRead nat | OpReserve nat

fun ring_exec :: "ring_op list \<Rightarrow> RingBuffer \<Rightarrow> ring_error + bytes option list" where
  "ring_exec [] rb = Inr []"
| "ring_exec (OpWrite bs # ops) rb =
     (case Write bs rb of Inl (e, _) \<Rightarrow> Inl e | Inr rb' \<Rightarrow> ring_exec ops rb')"
| "ring_exec (OpPeek n # ops) rb = bindE (ring_exec ops rb) (\<lambda>rs. Inr (Peek n rb # rs))"
| "ring_exec (OpRead n # ops) rb =
     (case Read n rb of Inl (e, _) \<Rightarrow> Inl e
      | Inr (r, rb') \<Rightarrow> bindE (ring_exec ops rb') (\<lambda>rs. Inr (r # rs)))"
| "ring_exec (OpReserve n # ops) rb = ring_exec ops (Reserve n rb)"

definition front :: "nat \<Rightarrow> bytes \<Rightarrow> bytes option" where
  "front n q = (if n \<le> length q then Some (take n q) else None)"

fun queue_exec :: "ring_op list \<Rightarrow> nat \<Rightarrow> bytes \<Rightarrow> ring_error + bytes option list" where
  "queue_exec [] cap q = Inr []"
| "queue_exec (OpWrite bs # ops) cap q =
     (if length q + length bs \<le> cap then queue_exec ops cap (q @ bs) else Inl buffer_size_exceeded)"
| "queue_exec (OpPeek n # ops) cap q = bindE (queue_exec ops cap q) (\<lambda>rs. Inr (front n q # rs))"
| "queue_exec (OpRead n # ops) cap q =
     bindE (queue_exec ops cap (if n \<le> length q then drop n q else q)) (\<lambda>rs. Inr (front n q # rs))"
| "queue_exec (OpReserve n # ops) cap q = queue_exec ops (max n cap) q"

lemma ring_exec_queue:
  "rb_inv rb \<Longrightarrow> ring_exec ops rb = queue_exec ops (Capacity rb) (contents rb)"
proof (induction ops rb rule: ring_exec.induct)
  case (2 bs ops rb)
  show ?case
  proof (cases "length (contents rb) + length bs \<le> Capacity rb")
    case True
    from ring.push_law[OF "2.prems" this] "2.IH" show ?thesis using True by auto
  next
    case False
    with Write_overflow[OF "2.prems", of bs] show ?thesis by auto
  qed
next
  case (4 n ops rb)
  show ?case
  proof (cases "n \<le> length (contents rb)")
    case True
    from ring.pop_law[OF "4.prems" this] obtain rb' where rb': "Read n rb = Inr (Some (take n (contents rb)), rb')"
      "rb_inv rb'" "contents rb' = drop n (contents rb)" "Capacity rb' = Capacity rb" by blast
    with "4.IH"[OF rb'(1) refl rb'(2)] show ?thesis using True by (simp add: front_def)
  next
    case False
    then have "Read n rb = Inr (None, rb)" using "4.prems" by (simp add: Read_def Peek_eq)
    with "4.IH"[OF this refl "4.prems"] show ?thesis using False by (simp add: front_def)
  qed
qed (auto simp: Peek_eq front_def ring.reserve_law)

text \<open>
  C23. The ring buffer is a queue of bytes: starting from an empty buffer, every sequence of
  writes (through the memory given to the socket), peeks, reads and reservations has the results it
  has on a plain list of bytes with a capacity, across all wrap-arounds and reallocations; and
  an exception is thrown exactly when a write exceeds the capacity.
\<close>

theorem ring_refines_queue:
  assumes "0 < n"
  shows "ring_exec ops (RingBuffer_new n) = queue_exec ops n []"
  using ring_exec_queue[of "RingBuffer_new n" ops] new_ring[OF assms] by simp

theorem ring_refines_queue_witness:
  "ring_exec [OpWrite [1, 2, 3], OpRead 2, OpWrite [4, 5, 6], OpReserve 6, OpPeek 5, OpRead 4, OpRead 1]
     (RingBuffer_new 4) =
   Inr [Some [1, 2], None, Some [3, 4, 5, 6], None]"
  using ring_refines_queue[of 4] by (simp add: front_def)

end
