(* ===== verification/VAsio_Peer.thy ===== *)
theory VAsio_Peer
  imports Serialized_Message Ring_Buffer
begin

text \<open>
  One end of a connection between two participants (core/vasio/VAsioPeer.cpp): messages to send are
  queued, possibly after being aggregated, and handed to the socket piece by piece; received bytes
  are collected in the ring buffer, cut into frames and passed to the listener. The socket and the
  listener are not part of the component: completions of asynchronous operations are events with
  arbitrary sizes, and the listener is a parameter that decides, from the messages it has seen,
  whether it shuts the peer down while it handles a message.
\<close>

section \<open>State\<close>

text \<open>
  The last four fields are not members of the class: whether a read is outstanding at the socket,
  the messages the listener was given, the bytes the socket has accepted, and the number of
  \<^verbatim>\<open>StartAsyncWrite\<close> calls dispatched to the I/O context that have not run yet.
\<close>

record VAsioPeer =
  vp_protocolVersion :: ProtocolVersion
  vp_isShuttingDown :: bool
  vp_currentMsgSize :: u32
  vp_msgBuffer :: RingBuffer
  vp_currentReceivingBuffers :: "(nat \<times> nat) list"
  vp_sendingQueue :: "bytes list"
  vp_currentSendingBuffer :: bytes
  vp_aggregatedMessages :: bytes
  vp_sending :: bool
  vp_useAggregation :: bool
  vp_initialTimerStarted :: bool
  vp_reading :: bool
  vp_delivered :: "SerializedMessage list"
  vp_accepted :: bytes
  vp_dispatched :: nat

datatype peer_error =
    WireError wire_error
  | RingError ring_error
  | PeerError string
  | AssertionFailed

type_synonym peer_result = "(peer_error \<times> VAsioPeer) + VAsioPeer"
type_synonym listener = "SerializedMessage list \<Rightarrow> SerializedMessage \<Rightarrow> bool"

definition VAsioPeer_new :: "ProtocolVersion \<Rightarrow> VAsioPeer" where
  "VAsioPeer_new v =
     \<lparr>vp_protocolVersion = v, vp_isShuttingDown = False, vp_currentMsgSize = 0,
      vp_msgBuffer = RingBuffer_new 4096, vp_currentReceivingBuffers = [], vp_sendingQueue = [],
      vp_currentSendingBuffer = [], vp_aggregatedMessages = [], vp_sending = False,
      vp_useAggregation = False, vp_initialTimerStarted = False, vp_reading = False,
      vp_delivered = [], vp_accepted = [], vp_dispatched = 0\<rparr>"

definition VAsioPeer_Shutdown :: "VAsioPeer \<Rightarrow> VAsioPeer" where
  "VAsioPeer_Shutdown p = p\<lparr>vp_isShuttingDown := True, vp_sendingQueue := []\<rparr>"

definition EnableAggregation :: "VAsioPeer \<Rightarrow> VAsioPeer" where
  "EnableAggregation p = p\<lparr>vp_useAggregation := True\<rparr>"

section \<open>Receiving\<close>

definition ReadSomeAsync :: "VAsioPeer \<Rightarrow> peer_result" where
  "ReadSomeAsync p =
     (if \<not> Capacity (vp_msgBuffer p) - rb_size (vp_msgBuffer p) > 0 then Inl (AssertionFailed, p)
      else Inr (p\<lparr>vp_currentReceivingBuffers := GetWritingBuffers (vp_msgBuffer p), vp_reading := True\<rparr>))"

definition StartAsyncRead :: "VAsioPeer \<Rightarrow> peer_result" where
  "StartAsyncRead p = ReadSomeAsync (p\<lparr>vp_currentMsgSize := 0\<rparr>)"

text \<open>
  One round of \<^verbatim>\<open>DispatchBuffer\<close>. \<open>Inl r\<close>: the function returns (or throws) with \<open>r\<close>; \<open>Inr p\<close>: a
  message was delivered and the function calls itself again. \<open>DispatchSize\<close> is the first block,
  which learns the size of the next message.
\<close>

definition DispatchSize :: "VAsioPeer \<Rightarrow> peer_result + VAsioPeer" where
  "DispatchSize p =
     (if vp_currentMsgSize p = 0
      then if vp_isShuttingDown p then Inl (Inr p)
           else if rb_size (vp_msgBuffer p) \<ge> 4
           then (case Peek 4 (vp_msgBuffer p) of
                   None \<Rightarrow> Inl (Inl (PeerError ''Reading message size from ring buffer failed.'', p))
                 | Some msgSizeInBytes \<Rightarrow> Inr (p\<lparr>vp_currentMsgSize := of_le_bytes msgSizeInBytes\<rparr>))
           else Inl (ReadSomeAsync p)
      else Inr p)"

definition ValidateSize :: "VAsioPeer \<Rightarrow> VAsioPeer" where
  "ValidateSize p =
     (if vp_currentMsgSize p = 0 \<or> vp_currentMsgSize p > 1024 * 1024 * 1024 then VAsioPeer_Shutdown p else p)"

definition Deliver :: "listener \<Rightarrow> SerializedMessage \<Rightarrow> VAsioPeer \<Rightarrow> VAsioPeer" where
  "Deliver L message p =
     (let p' = p\<lparr>vp_delivered := vp_delivered p @ [message]\<rparr>
      in if L (vp_delivered p) message then VAsioPeer_Shutdown p' else p')"

definition DispatchMessage :: "listener \<Rightarrow> VAsioPeer \<Rightarrow> peer_result + VAsioPeer" where
  "DispatchMessage L p =
     (if rb_size (vp_msgBuffer p) < unat (vp_currentMsgSize p)
      then let p = (if Capacity (vp_msgBuffer p) < unat (vp_currentMsgSize p)
                    then p\<lparr>vp_msgBuffer := Reserve (unat (vp_currentMsgSize p)) (vp_msgBuffer p)\<rparr> else p)
           in Inl (ReadSomeAsync p)
      else case Read (unat (vp_currentMsgSize p)) (vp_msgBuffer p) of
             Inl (e, rb) \<Rightarrow> Inl (Inl (RingError e, p\<lparr>vp_msgBuffer := rb\<rparr>))
           | Inr (None, rb) \<Rightarrow> Inl (Inl (PeerError ''Reading data from ring buffer failed.'', p\<lparr>vp_msgBuffer := rb\<rparr>))
           | Inr (Some currentMsg, rb) \<Rightarrow>
               (let p = p\<lparr>vp_msgBuffer := rb\<rparr>
                in case SerializedMessage_of_blob currentMsg of
                     Inl e \<Rightarrow> Inl (Inl (WireError e, p))
                   | Inr message \<Rightarrow>
                       Inr ((Deliver L (SerializedMessage_SetProtocolVersion (vp_protocolVersion p) message) p)
                            \<lparr>vp_currentMsgSize := 0\<rparr>)))"

definition DispatchRound :: "listener \<Rightarrow> VAsioPeer \<Rightarrow> peer_result + VAsioPeer" where
  "DispatchRound L p =
     (case DispatchSize p of Inl r \<Rightarrow> Inl r | Inr p \<Rightarrow> DispatchMessage L (ValidateSize p))"

text \<open>An empty blob has no headers, so every delivered message takes bytes out of the buffer.\<close>

lemma empty_blob: "SerializedMessage_of_blob [] = Inl end_of_buffer"
  by (simp add: SerializedMessage_of_blob_def ReadNetworkHeaders_def blank_SerializedMessage_def
      MessageBuffer_of_def get_int_def get_raw_def)

lemma Read_size: "Read n rb = Inr (Some bs, rb') \<Longrightarrow> rb_size rb' = rb_size rb - n \<and> n \<le> rb_size rb"
  by (auto simp: Read_def Peek_def AdvanceRPos_def SizeCheck_def Let_def split: option.splits if_splits)

lemma Deliver_simps [simp]:
  "vp_msgBuffer (Deliver L m p) = vp_msgBuffer p"
  "vp_delivered (Deliver L m p) = vp_delivered p @ [m]"
  "vp_protocolVersion (Deliver L m p) = vp_protocolVersion p"
  by (simp_all add: Deliver_def VAsioPeer_Shutdown_def Let_def)

lemma Shutdown_simps [simp]:
  "vp_msgBuffer (VAsioPeer_Shutdown p) = vp_msgBuffer p" "vp_currentMsgSize (VAsioPeer_Shutdown p) = vp_currentMsgSize p"
  by (simp_all add: VAsioPeer_Shutdown_def)

lemma ValidateSize_simps [simp]:
  "vp_msgBuffer (ValidateSize p) = vp_msgBuffer p"
  "vp_currentMsgSize (ValidateSize p) = vp_currentMsgSize p"
  by (simp_all add: ValidateSize_def)

lemma DispatchRound_decreases:
  assumes "DispatchRound L p = Inr p'"
  shows "rb_size (vp_msgBuffer p') < rb_size (vp_msgBuffer p)"
proof -
  obtain q where q: "DispatchSize p = Inr q" and m: "DispatchMessage L (ValidateSize q) = Inr p'"
    using assms by (auto simp: DispatchRound_def split: sum.splits)
  have same: "vp_msgBuffer q = vp_msgBuffer p"
    using q by (auto simp: DispatchSize_def split: if_splits option.splits)
  let ?n = "unat (vp_currentMsgSize q)"
  from m obtain bs rb msg where r: "Read ?n (vp_msgBuffer q) = Inr (Some bs, rb)"
      and s: "SerializedMessage_of_blob bs = Inr msg" and rb: "vp_msgBuffer p' = rb"
    by (auto simp: DispatchMessage_def Let_def split: sum.splits option.splits if_splits)
  have "?n \<noteq> 0"
  proof
    assume n0: "?n = 0"
    then have "bs = []"
      using r by (auto simp: Read_def Peek_def Let_def split: option.splits)
    then show False using s empty_blob by simp
  qed
  then show ?thesis using Read_size[OF r] rb same by auto
qed

function DispatchBuffer :: "listener \<Rightarrow> VAsioPeer \<Rightarrow> peer_result" where
  "DispatchBuffer L p =
     (case DispatchRound L p of Inl r \<Rightarrow> r | Inr p' \<Rightarrow> DispatchBuffer L p')"
  by pat_completeness auto
termination
  by (relation "measure (\<lambda>(L, p). rb_size (vp_msgBuffer p))") (auto dest: DispatchRound_decreases)

declare DispatchBuffer.simps [simp del]

definition OnAsyncReadSomeDone :: "listener \<Rightarrow> nat \<Rightarrow> VAsioPeer \<Rightarrow> peer_result" where
  "OnAsyncReadSomeDone L bytesTransferred p =
     (case AdvanceWPos bytesTransferred (vp_msgBuffer p) of
        Inl (e, rb) \<Rightarrow> Inl (RingError e, p\<lparr>vp_msgBuffer := rb\<rparr>)
      | Inr rb \<Rightarrow> DispatchBuffer L (p\<lparr>vp_msgBuffer := rb\<rparr>))"

text \<open>The socket stores what it received into the buffers it was given, then reports completion.\<close>

definition Received :: "listener \<Rightarrow> bytes \<Rightarrow> VAsioPeer \<Rightarrow> peer_result" where
  "Received L bs p =
     (let rb = vp_msgBuffer p
      in OnAsyncReadSomeDone L (length bs)
           (p\<lparr>vp_msgBuffer := rb\<lparr>rb_buffer := scatter (vp_currentReceivingBuffers p) bs (rb_buffer rb)\<rparr>,
              vp_reading := False\<rparr>))"

section \<open>The frames of a byte stream\<close>

text \<open>
  The specification of the receiving side: a stream is cut into frames by the little-endian size in
  the first four bytes of each; what is left is an incomplete frame.
\<close>

definition frame_size :: "bytes \<Rightarrow> nat" where
  "frame_size bs = unat (of_le_bytes (take 4 bs) :: u32)"

function frames :: "bytes \<Rightarrow> bytes list \<times> bytes" where
  "frames bs =
     (if length bs < 4 \<or> frame_size bs = 0 \<or> length bs < frame_size bs then ([], bs)
      else let (fs, rest) = frames (drop (frame_size bs) bs) in (take (frame_size bs) bs # fs, rest))"
  by pat_completeness auto
termination
  by (relation "measure length") auto

declare frames.simps [simp del]

lemma frame_size_append [simp]: "4 \<le> length bs \<Longrightarrow> frame_size (bs @ cs) = frame_size bs"
  by (simp add: frame_size_def)

lemma frames_append:
  "frames (bs @ cs) =
     (let (fs, rest) = frames bs; (gs, rest') = frames (rest @ cs) in (fs @ gs, rest'))"
proof (induction bs rule: frames.induct)
  case (1 bs)
  show ?case
  proof (cases "length bs < 4 \<or> frame_size bs = 0 \<or> length bs < frame_size bs")
    case True
    then show ?thesis by (simp add: frames.simps[of bs] case_prod_unfold)
  next
    case False
    then show ?thesis
      using 1[OF False] by (simp add: frames.simps[of bs] frames.simps[of "bs @ cs"] Let_def case_prod_unfold)
  qed
qed

definition framed :: "bytes \<Rightarrow> bool" where
  "framed blob \<longleftrightarrow> 4 \<le> length blob \<and> frame_size blob = length blob"

lemma frames_Cons: "framed blob \<Longrightarrow> frames (blob @ bs) = (let (fs, rest) = frames bs in (blob # fs, rest))"
  by (auto simp: framed_def frames.simps[of "blob @ bs"] case_prod_unfold Let_def)

lemma frames_concat: "\<forall>blob\<in>set blobs. framed blob \<Longrightarrow> frames (concat blobs) = (blobs, [])"
  by (induction blobs) (simp_all add: frames_Cons, simp add: frames.simps)

text \<open>
  A stream a peer can receive without complaint: its frames have at most \<open>2^30\<close> bytes and parse, also
  the size of the incomplete frame at its end is acceptable.
\<close>

definition acceptable_size :: "bytes \<Rightarrow> bool" where
  "acceptable_size bs \<longleftrightarrow> (4 \<le> length bs \<longrightarrow> 0 < frame_size bs \<and> frame_size bs \<le> 2 ^ 30)"

definition parsed :: "ProtocolVersion \<Rightarrow> bytes \<Rightarrow> SerializedMessage" where
  "parsed v blob = (case SerializedMessage_of_blob blob of
     Inr m \<Rightarrow> SerializedMessage_SetProtocolVersion v m | Inl _ \<Rightarrow> blank_SerializedMessage empty_MessageBuffer)"

definition good_stream :: "bytes \<Rightarrow> bool" where
  "good_stream bs \<longleftrightarrow> (case frames bs of (fs, rest) \<Rightarrow>
     (\<forall>f\<in>set fs. length f \<le> 2 ^ 30 \<and> (\<exists>m. SerializedMessage_of_blob f = Inr m)) \<and> acceptable_size rest)"

text \<open>The peer between two completions of reads, with a listener that never shuts it down.\<close>

definition keeps_open :: "listener \<Rightarrow> bool" where
  "keeps_open L \<longleftrightarrow> (\<forall>h m. \<not> L h m)"

definition recv_inv :: "VAsioPeer \<Rightarrow> bool" where
  "recv_inv p \<longleftrightarrow> rb_inv (vp_msgBuffer p) \<and> 4 \<le> Capacity (vp_msgBuffer p) \<and> \<not> vp_isShuttingDown p \<and>
     (vp_currentMsgSize p = 0 \<or>
      4 \<le> rb_size (vp_msgBuffer p) \<and> unat (vp_currentMsgSize p) = frame_size (contents (vp_msgBuffer p)))"

definition awaiting :: "VAsioPeer \<Rightarrow> bool" where
  "awaiting p \<longleftrightarrow> recv_inv p \<and> vp_reading p \<and> rb_size (vp_msgBuffer p) < Capacity (vp_msgBuffer p) \<and>
     vp_currentReceivingBuffers p = GetWritingBuffers (vp_msgBuffer p)"

abbreviation stream :: "VAsioPeer \<Rightarrow> bytes" where
  "stream p \<equiv> contents (vp_msgBuffer p)"

lemma ReadSomeAsync_ok:
  "recv_inv p \<Longrightarrow> rb_size (vp_msgBuffer p) < Capacity (vp_msgBuffer p) \<Longrightarrow>
     \<exists>p'. ReadSomeAsync p = Inr p' \<and> awaiting p' \<and> stream p' = stream p \<and>
       vp_delivered p' = vp_delivered p \<and> vp_protocolVersion p' = vp_protocolVersion p"
  by (auto simp: ReadSomeAsync_def awaiting_def recv_inv_def)

text \<open>The first block of a round leaves an acceptable size in \<open>vp_currentMsgSize\<close>.\<close>

lemma DispatchSize_ok:
  assumes "recv_inv p" "4 \<le> length (stream p)"
  shows "DispatchSize p = Inr (p\<lparr>vp_currentMsgSize := of_le_bytes (take 4 (stream p))\<rparr>)"
proof (cases "vp_currentMsgSize p = 0")
  case True
  then show ?thesis
    using assms by (simp add: DispatchSize_def recv_inv_def ring.peek_law)
next
  case False
  then have "vp_currentMsgSize p = of_le_bytes (take 4 (stream p))"
    using assms(1) by (auto simp: recv_inv_def frame_size_def word_unat_eq_iff)
  then show ?thesis using False by (simp add: DispatchSize_def)
qed

lemma good_stream_size:
  assumes "good_stream bs" "4 \<le> length bs"
  shows "0 < frame_size bs \<and> frame_size bs \<le> 2 ^ 30"
proof (cases "frame_size bs = 0 \<or> length bs < frame_size bs")
  case True
  then show ?thesis
    using assms by (simp add: good_stream_def frames.simps[of bs] acceptable_size_def)
next
  case False
  then show ?thesis
    using assms by (simp add: good_stream_def frames.simps[of bs] case_prod_unfold Let_def)
qed

lemma good_stream_first:
  assumes "good_stream bs" "4 \<le> length bs" "frame_size bs \<le> length bs"
  shows "\<exists>m. SerializedMessage_of_blob (take (frame_size bs) bs) = Inr m"
    and "good_stream (drop (frame_size bs) bs)"
    and "frames bs = (take (frame_size bs) bs # fst (frames (drop (frame_size bs) bs)),
       snd (frames (drop (frame_size bs) bs)))"
proof -
  have "0 < frame_size bs" using good_stream_size assms by blast
  then show eq: "frames bs = (take (frame_size bs) bs # fst (frames (drop (frame_size bs) bs)),
      snd (frames (drop (frame_size bs) bs)))"
    using assms(2,3) by (simp add: frames.simps[of bs] case_prod_unfold Let_def)
  show "\<exists>m. SerializedMessage_of_blob (take (frame_size bs) bs) = Inr m"
      "good_stream (drop (frame_size bs) bs)"
    using assms(1) by (auto simp: good_stream_def eq case_prod_unfold)
qed

lemma unat_u32_size: "unat (of_le_bytes (take 4 bs) :: u32) = frame_size bs"
  by (simp add: frame_size_def)

text \<open>A round on a stream with at least four bytes.\<close>

lemma DispatchRound_known_size:
  assumes "recv_inv p" "4 \<le> length (stream p)" "good_stream (stream p)"
  shows "DispatchRound L p = DispatchMessage L (p\<lparr>vp_currentMsgSize := of_le_bytes (take 4 (stream p))\<rparr>)"
proof -
  let ?w = "of_le_bytes (take 4 (stream p)) :: u32"
  have "0 < unat ?w \<and> unat ?w \<le> 2 ^ 30"
    using good_stream_size[OF assms(3,2)] by (simp add: unat_u32_size)
  then have "?w \<noteq> 0" "\<not> ?w > 1024 * 1024 * 1024"
    by (auto simp: word_less_nat_alt)
  then show ?thesis
    by (simp add: DispatchRound_def DispatchSize_ok[OF assms(1,2)] ValidateSize_def)
qed

lemma DispatchRound_short:
  assumes "recv_inv p" "good_stream (stream p)"
    and "length (stream p) < 4 \<or> length (stream p) < frame_size (stream p)"
  shows "\<exists>p'. DispatchRound L p = Inl (Inr p') \<and> awaiting p' \<and> stream p' = stream p \<and>
     vp_delivered p' = vp_delivered p \<and> vp_protocolVersion p' = vp_protocolVersion p"
proof (cases "length (stream p) < 4")
  case True
  then have "vp_currentMsgSize p = 0" "rb_size (vp_msgBuffer p) < Capacity (vp_msgBuffer p)"
    using assms(1) by (auto simp: recv_inv_def)
  then show ?thesis
    using True assms(1) ReadSomeAsync_ok[of p] by (auto simp: DispatchRound_def DispatchSize_def recv_inv_def)
next
  case False
  let ?n = "frame_size (stream p)"
  let ?q = "p\<lparr>vp_currentMsgSize := of_le_bytes (take 4 (stream p))\<rparr>"
  let ?r = "if Capacity (vp_msgBuffer p) < ?n then ?q\<lparr>vp_msgBuffer := Reserve ?n (vp_msgBuffer p)\<rparr> else ?q"
  have "DispatchRound L p = DispatchMessage L ?q"
    using False assms by (intro DispatchRound_known_size) auto
  also have "\<dots> = Inl (ReadSomeAsync ?r)"
    using False assms(3) by (simp add: DispatchMessage_def unat_u32_size Let_def)
  finally have eq: "DispatchRound L p = Inl (ReadSomeAsync ?r)" .
  have res: "rb_inv (Reserve ?n (vp_msgBuffer p)) \<and> contents (Reserve ?n (vp_msgBuffer p)) = stream p \<and>
      Capacity (Reserve ?n (vp_msgBuffer p)) = max ?n (Capacity (vp_msgBuffer p))"
    using assms(1) by (intro ring.reserve_law) (simp add: recv_inv_def)
  moreover have "rb_size (Reserve ?n (vp_msgBuffer p)) = rb_size (vp_msgBuffer p)"
    using res by (metis length_contents)
  ultimately have "recv_inv ?r" "rb_size (vp_msgBuffer ?r) < Capacity (vp_msgBuffer ?r)" "stream ?r = stream p"
    using assms False by (auto simp: recv_inv_def unat_u32_size)
  with ReadSomeAsync_ok[of ?r] show ?thesis unfolding eq by auto
qed

lemma DispatchRound_full:
  assumes "recv_inv p" "good_stream (stream p)" "4 \<le> length (stream p)"
    and "frame_size (stream p) \<le> length (stream p)" "keeps_open L"
  shows "\<exists>p'. DispatchRound L p = Inr p' \<and> recv_inv p' \<and>
     stream p' = drop (frame_size (stream p)) (stream p) \<and>
     vp_delivered p' = vp_delivered p @ [parsed (vp_protocolVersion p) (take (frame_size (stream p)) (stream p))] \<and>
     vp_protocolVersion p' = vp_protocolVersion p"
proof -
  let ?n = "frame_size (stream p)"
  obtain rb where rb: "Read ?n (vp_msgBuffer p) = Inr (Some (take ?n (stream p)), rb)" "rb_inv rb"
      "contents rb = drop ?n (stream p)" "Capacity rb = Capacity (vp_msgBuffer p)"
    using ring.pop_law[of "vp_msgBuffer p" ?n] assms(1,4) by (auto simp: recv_inv_def)
  obtain m where m: "SerializedMessage_of_blob (take ?n (stream p)) = Inr m"
    using good_stream_first(1)[OF assms(2-4)] by blast
  have "DispatchRound L p = Inr ((Deliver L (parsed (vp_protocolVersion p) (take ?n (stream p)))
      (p\<lparr>vp_currentMsgSize := of_le_bytes (take 4 (stream p)), vp_msgBuffer := rb\<rparr>))\<lparr>vp_currentMsgSize := 0\<rparr>)"
    unfolding DispatchRound_known_size[OF assms(1,3,2)]
    using assms(4) by (simp add: DispatchMessage_def unat_u32_size rb(1) m parsed_def Let_def)
  then show ?thesis
    using rb assms(1,5) by (simp add: Deliver_def Let_def recv_inv_def keeps_open_def)
qed

lemma dispatch_good:
  assumes "recv_inv p" "good_stream (stream p)" "keeps_open L"
  shows "\<exists>p'. DispatchBuffer L p = Inr p' \<and> awaiting p' \<and> stream p' = snd (frames (stream p)) \<and>
     vp_delivered p' = vp_delivered p @ map (parsed (vp_protocolVersion p)) (fst (frames (stream p))) \<and>
     vp_protocolVersion p' = vp_protocolVersion p"
  using assms
proof (induction L p rule: DispatchBuffer.induct)
  case (1 L p)
  show ?case
  proof (cases "4 \<le> length (stream p) \<and> frame_size (stream p) \<le> length (stream p)")
    case True
    from DispatchRound_full[OF "1.prems"(1,2) _ _ "1.prems"(3)] True obtain p1
      where p1: "DispatchRound L p = Inr p1" "recv_inv p1"
        "stream p1 = drop (frame_size (stream p)) (stream p)"
        "vp_delivered p1 = vp_delivered p @ [parsed (vp_protocolVersion p) (take (frame_size (stream p)) (stream p))]"
        "vp_protocolVersion p1 = vp_protocolVersion p" by blast
    note first = good_stream_first[OF "1.prems"(2) conjunct1[OF True] conjunct2[OF True]]
    from "1.IH"[OF p1(1) p1(2) _ "1.prems"(3)] first(2) p1(3) show ?thesis
      unfolding DispatchBuffer.simps[of L p] p1(1) by (auto simp: p1 first(3))
  next
    case False
    then have nf: "frames (stream p) = ([], stream p)" by (auto simp: frames.simps[of "stream p"])
    from False DispatchRound_short[OF "1.prems"(1,2), of L] obtain p1
      where "DispatchRound L p = Inl (Inr p1)" "awaiting p1" "stream p1 = stream p"
        "vp_delivered p1 = vp_delivered p" "vp_protocolVersion p1 = vp_protocolVersion p" by auto
    then show ?thesis unfolding DispatchBuffer.simps[of L p] by (simp add: nf)
  qed
qed

text \<open>
  A completed read: whatever piece of the stream the socket delivers, as long as it fits into the
  buffers it was given.
\<close>

lemma Received_dispatch:
  assumes "awaiting p" "length (stream p) + length bs \<le> Capacity (vp_msgBuffer p)"
  obtains rb where "Received L bs p = DispatchBuffer L (p\<lparr>vp_reading := False, vp_msgBuffer := rb\<rparr>)"
    "contents rb = stream p @ bs" "recv_inv (p\<lparr>vp_reading := False, vp_msgBuffer := rb\<rparr>)"
proof -
  have inv: "rb_inv (vp_msgBuffer p)" using assms(1) by (simp add: awaiting_def recv_inv_def)
  obtain rb where rb: "Write bs (vp_msgBuffer p) = Inr rb" "rb_inv rb" "contents rb = stream p @ bs"
      "Capacity rb = Capacity (vp_msgBuffer p)"
    using ring.push_law[OF inv assms(2)] by blast
  have "Received L bs p = DispatchBuffer L (p\<lparr>vp_reading := False, vp_msgBuffer := rb\<rparr>)"
    using assms(1) rb(1) by (simp add: Received_def Let_def OnAsyncReadSomeDone_def Write_def receive_def
        awaiting_def)
  moreover have "rb_size rb = rb_size (vp_msgBuffer p) + length bs"
    using rb(3) by (metis length_append length_contents)
  then have "recv_inv (p\<lparr>vp_reading := False, vp_msgBuffer := rb\<rparr>)"
    using assms(1) rb by (auto simp: awaiting_def recv_inv_def)
  ultimately show thesis using rb(3) that by blast
qed

lemma received_good:
  assumes "awaiting p" "length (stream p) + length bs \<le> Capacity (vp_msgBuffer p)"
    and "good_stream (stream p @ bs)" "keeps_open L"
  shows "\<exists>p'. Received L bs p = Inr p' \<and> awaiting p' \<and> stream p' = snd (frames (stream p @ bs)) \<and>
     vp_delivered p' = vp_delivered p @ map (parsed (vp_protocolVersion p)) (fst (frames (stream p @ bs))) \<and>
     vp_protocolVersion p' = vp_protocolVersion p"
proof -
  obtain rb where rb: "Received L bs p = DispatchBuffer L (p\<lparr>vp_reading := False, vp_msgBuffer := rb\<rparr>)"
      "contents rb = stream p @ bs" "recv_inv (p\<lparr>vp_reading := False, vp_msgBuffer := rb\<rparr>)"
    using Received_dispatch[OF assms(1,2)] .
  show ?thesis unfolding rb(1) using dispatch_good[OF rb(3) _ assms(4)] assms(3) rb(2) by simp
qed

text \<open>Runs of the receiving side: each piece fits into the memory that is free when it arrives.\<close>

inductive receives :: "listener \<Rightarrow> VAsioPeer \<Rightarrow> bytes list \<Rightarrow> VAsioPeer \<Rightarrow> bool" for L where
  receives_Nil: "receives L p [] p"
| receives_Cons: "length c \<le> Capacity (vp_msgBuffer p) - rb_size (vp_msgBuffer p) \<Longrightarrow>
    Received L c p = Inr p1 \<Longrightarrow> receives L p1 cs p' \<Longrightarrow> receives L p (c # cs) p'"

inductive_cases receives_ConsE: "receives L p (c # cs) p'"

lemma good_stream_append:
  assumes "good_stream (bs @ cs)"
  shows "good_stream (snd (frames bs) @ cs)"
  using assms by (auto simp: good_stream_def frames_append[of bs cs] Let_def case_prod_unfold)

lemma frames_prefix_good:
  assumes "good_stream (bs @ cs)"
  shows "good_stream bs"
proof -
  obtain fs r where f: "frames bs = (fs, r)" by (cases "frames bs")
  from assms have "\<forall>f\<in>set fs. length f \<le> 2 ^ 30 \<and> (\<exists>m. SerializedMessage_of_blob f = Inr m)"
    by (simp add: good_stream_def frames_append[of bs cs] f case_prod_unfold Let_def ball_Un)
  moreover have "acceptable_size r"
  proof -
    have "good_stream (r @ cs)" using good_stream_append[OF assms] f by simp
    then show ?thesis
      using good_stream_size[of "r @ cs"] by (auto simp: acceptable_size_def)
  qed
  ultimately show ?thesis by (simp add: good_stream_def f)
qed

lemma frames_rest: "frames (snd (frames bs)) = ([], snd (frames bs))"
proof (induction bs rule: frames.induct)
  case (1 bs)
  show ?case
  proof (cases "length bs < 4 \<or> frame_size bs = 0 \<or> length bs < frame_size bs")
    case True
    then have "frames bs = ([], bs)" by (simp add: frames.simps[of bs])
    then show ?thesis by simp
  next
    case False
    then have "snd (frames bs) = snd (frames (drop (frame_size bs) bs))"
      by (simp add: frames.simps[of bs] case_prod_unfold Let_def)
    then show ?thesis using 1[OF False] by simp
  qed
qed

text \<open>Between two reads no complete frame is waiting in the buffer.\<close>

definition settled :: "VAsioPeer \<Rightarrow> bool" where
  "settled p \<longleftrightarrow> awaiting p \<and> frames (stream p) = ([], stream p)"

lemma received_settled:
  assumes "settled p" "length bs \<le> Capacity (vp_msgBuffer p) - rb_size (vp_msgBuffer p)"
    and "good_stream (stream p @ bs)" "keeps_open L"
  shows "\<exists>p'. Received L bs p = Inr p' \<and> settled p' \<and> stream p' = snd (frames (stream p @ bs)) \<and>
     vp_delivered p' = vp_delivered p @ map (parsed (vp_protocolVersion p)) (fst (frames (stream p @ bs))) \<and>
     vp_protocolVersion p' = vp_protocolVersion p"
proof -
  have "length (stream p) + length bs \<le> Capacity (vp_msgBuffer p)"
    using assms(1,2) by (auto simp: settled_def awaiting_def)
  from received_good[OF _ this assms(3,4)] assms(1) show ?thesis
    by (auto simp: settled_def frames_rest)
qed

lemma receives_good:
  assumes "receives L p cs p'" "settled p" "good_stream (stream p @ concat cs)" "keeps_open L"
  shows "settled p' \<and> stream p' = snd (frames (stream p @ concat cs)) \<and>
     vp_delivered p' = vp_delivered p @ map (parsed (vp_protocolVersion p)) (fst (frames (stream p @ concat cs)))"
  using assms
proof (induction rule: receives.induct)
  case (receives_Nil p)
  then show ?case by (simp add: settled_def)
next
  case (receives_Cons c p p1 cs p')
  have good: "good_stream ((stream p @ c) @ concat cs)" using receives_Cons.prems(2) by simp
  from received_settled[OF receives_Cons.prems(1) receives_Cons.hyps(1) frames_prefix_good[OF good] receives_Cons.prems(3)]
  have p1: "settled p1" "stream p1 = snd (frames (stream p @ c))"
      "vp_delivered p1 = vp_delivered p @ map (parsed (vp_protocolVersion p)) (fst (frames (stream p @ c)))"
      "vp_protocolVersion p1 = vp_protocolVersion p"
    using receives_Cons.hyps(2) by auto
  have "good_stream (stream p1 @ concat cs)" using good_stream_append[OF good] p1(2) by simp
  from receives_Cons.IH[OF p1(1) this receives_Cons.prems(3)] p1 show ?case
    using frames_append[of "stream p @ c" "concat cs"] by (simp add: Let_def case_prod_unfold)
qed

text \<open>
  No piece can get the peer stuck: a read that fits is processed without an exception, and
  afterwards there is room for more.
\<close>

lemma receive_progress:
  assumes "settled p" "good_stream (stream p @ bs)" "keeps_open L"
    and "length bs \<le> Capacity (vp_msgBuffer p) - rb_size (vp_msgBuffer p)"
  shows "\<exists>p'. Received L bs p = Inr p' \<and> rb_size (vp_msgBuffer p') < Capacity (vp_msgBuffer p') \<and> vp_reading p'"
  using received_settled[OF assms(1,4,2,3)] by (auto simp: settled_def awaiting_def)

lemma start_settled: "\<exists>p. StartAsyncRead (VAsioPeer_new v) = Inr p \<and> settled p \<and> stream p = [] \<and>
    vp_delivered p = [] \<and> vp_protocolVersion p = v"
  using new_ring[of 4096]
  by (auto simp: StartAsyncRead_def ReadSomeAsync_def VAsioPeer_new_def settled_def awaiting_def
      recv_inv_def rb_inv_def frames.simps)

lemma start_fresh:
  assumes "StartAsyncRead (VAsioPeer_new v) = Inr p"
  shows "settled p" "stream p = []" "vp_delivered p = []" "vp_protocolVersion p = v" "vp_currentMsgSize p = 0"
    "Capacity (vp_msgBuffer p) = 4096" "rb_size (vp_msgBuffer p) = 0"
  using start_settled[of v] assms new_ring[of 4096]
  by (auto simp: StartAsyncRead_def ReadSomeAsync_def VAsioPeer_new_def split: if_splits)

lemma receive_one_piece:
  assumes "StartAsyncRead (VAsioPeer_new v) = Inr p" "good_stream bs" "length bs \<le> 4096" "keeps_open L"
  shows "\<exists>p'. receives L p [bs] p'"
proof -
  note p = start_fresh[OF assms(1)]
  have cap: "length bs \<le> Capacity (vp_msgBuffer p) - rb_size (vp_msgBuffer p)" using assms(3) p by simp
  from received_settled[OF p(1) cap _ assms(4)] obtain r where "Received L bs p = Inr r"
    using assms(2) by (auto simp: p)
  from receives_Cons[OF cap this receives_Nil] show ?thesis by blast
qed

section \<open>Sending\<close>

definition SendSilKitMsgInternal :: "bytes \<Rightarrow> VAsioPeer \<Rightarrow> VAsioPeer" where
  "SendSilKitMsgInternal blob p =
     (if \<not> vp_isShuttingDown p
      then p\<lparr>vp_sendingQueue := vp_sendingQueue p @ [blob], vp_dispatched := vp_dispatched p + 1\<rparr>
      else p)"

definition Flush :: "VAsioPeer \<Rightarrow> VAsioPeer" where
  "Flush p = SendSilKitMsgInternal (vp_aggregatedMessages p) (p\<lparr>vp_aggregatedMessages := []\<rparr>)"

definition Aggregate :: "bytes \<Rightarrow> VAsioPeer \<Rightarrow> VAsioPeer" where
  "Aggregate blob p =
     (let p = p\<lparr>vp_initialTimerStarted := True,
                vp_aggregatedMessages := vp_aggregatedMessages p @ blob\<rparr>
      in if length (vp_aggregatedMessages p) > 100 * 1000 then Flush p else p)"

definition SendSilKitMsg :: "SerializedMessage \<Rightarrow> VAsioPeer \<Rightarrow> peer_result" where
  "SendSilKitMsg buffer p =
     (case SerializedMessage_ReleaseStorage buffer of
        Inl e \<Rightarrow> Inl (WireError e, p)
      | Inr blob \<Rightarrow>
          Inr (if vp_useAggregation p \<and> sm_aggregationKind buffer = UserDataMessage
               then Aggregate blob p
               else if vp_useAggregation p \<and> sm_aggregationKind buffer = FlushAggregationMessage
               then Flush (Aggregate blob p)
               else SendSilKitMsgInternal blob p))"

definition StartAsyncWrite :: "VAsioPeer \<Rightarrow> VAsioPeer" where
  "StartAsyncWrite p =
     (if vp_sending p then p
      else case vp_sendingQueue p of
             [] \<Rightarrow> p
           | blob # queue \<Rightarrow> p\<lparr>vp_sending := True, vp_sendingQueue := queue, vp_currentSendingBuffer := blob\<rparr>)"

text \<open>The socket accepted the first \<open>n\<close> bytes of the buffer it was given.\<close>

definition OnAsyncWriteSomeDone :: "nat \<Rightarrow> VAsioPeer \<Rightarrow> VAsioPeer" where
  "OnAsyncWriteSomeDone n p =
     (let p = p\<lparr>vp_accepted := vp_accepted p @ take n (vp_currentSendingBuffer p)\<rparr>
      in if n < length (vp_currentSendingBuffer p)
         then p\<lparr>vp_currentSendingBuffer := drop n (vp_currentSendingBuffer p)\<rparr>
         else StartAsyncWrite (p\<lparr>vp_sending := False\<rparr>))"

definition OnTimerExpired :: "VAsioPeer \<Rightarrow> VAsioPeer" where
  "OnTimerExpired p = (if vp_aggregatedMessages p \<noteq> [] then Flush p else p)"

text \<open>
  What can happen to the sending side: a message is sent, a dispatched \<^verbatim>\<open>StartAsyncWrite\<close> runs, the
  socket reports a write, or the flush timer expires.
\<close>

datatype send_event = Send SerializedMessage | RunDispatched | WriteDone nat | TimerExpired

inductive send_step :: "VAsioPeer \<Rightarrow> send_event \<Rightarrow> VAsioPeer \<Rightarrow> bool" where
  step_Send: "SendSilKitMsg m p = Inr p' \<Longrightarrow> send_step p (Send m) p'"
| step_Run: "0 < vp_dispatched p \<Longrightarrow>
    send_step p RunDispatched (StartAsyncWrite (p\<lparr>vp_dispatched := vp_dispatched p - 1\<rparr>))"
| step_Write: "vp_sending p \<Longrightarrow> n \<le> length (vp_currentSendingBuffer p) \<Longrightarrow>
    send_step p (WriteDone n) (OnAsyncWriteSomeDone n p)"
| step_Timer: "send_step p TimerExpired (OnTimerExpired p)"

inductive send_run :: "VAsioPeer \<Rightarrow> send_event list \<Rightarrow> VAsioPeer \<Rightarrow> bool" where
  run_Nil: "send_run p [] p"
| run_snoc: "send_run p es p1 \<Longrightarrow> send_step p1 e p2 \<Longrightarrow> send_run p (es @ [e]) p2"

inductive_cases send_stepE: "send_step p e p'"

text \<open>All bytes the peer is responsible for, in the order in which they will leave.\<close>

definition in_flight :: "VAsioPeer \<Rightarrow> bytes" where
  "in_flight p = vp_accepted p @ (if vp_sending p then vp_currentSendingBuffer p else []) @
     concat (vp_sendingQueue p)"

definition outgoing :: "VAsioPeer \<Rightarrow> bytes" where
  "outgoing p = in_flight p @ vp_aggregatedMessages p"

definition blob_of :: "SerializedMessage \<Rightarrow> bytes" where
  "blob_of m = (case SerializedMessage_ReleaseStorage m of Inr blob \<Rightarrow> blob | Inl _ \<Rightarrow> [])"

fun sent_bytes :: "send_event \<Rightarrow> bytes" where
  "sent_bytes (Send m) = blob_of m"
| "sent_bytes _ = []"

text \<open>
  Aggregation delays messages of the aggregated kinds; a message of another kind overtakes them.
  Order is kept when aggregation is off, and among aggregated messages when it is on.
\<close>

definition keeps_order :: "bool \<Rightarrow> send_event \<Rightarrow> bool" where
  "keeps_order aggregation e = (case e of
     Send m \<Rightarrow> aggregation \<longrightarrow> sm_aggregationKind m \<in> {UserDataMessage, FlushAggregationMessage}
   | _ \<Rightarrow> True)"

definition send_inv :: "VAsioPeer \<Rightarrow> bool" where
  "send_inv p \<longleftrightarrow> \<not> vp_isShuttingDown p \<and> (\<not> vp_useAggregation p \<longrightarrow> vp_aggregatedMessages p = []) \<and>
     (vp_sendingQueue p \<noteq> [] \<longrightarrow> vp_sending p \<or> 0 < vp_dispatched p)"

lemmas send_defs = SendSilKitMsgInternal_def Flush_def Aggregate_def StartAsyncWrite_def
  OnAsyncWriteSomeDone_def OnTimerExpired_def

lemma send_step_inv: "send_step p e p' \<Longrightarrow> send_inv p \<Longrightarrow> send_inv p' \<and> vp_useAggregation p' = vp_useAggregation p"
  by (erule send_stepE)
    (auto simp: send_inv_def SendSilKitMsg_def send_defs Let_def split: sum.splits if_splits list.splits)

lemma send_step_outgoing:
  assumes "send_step p e p'" "send_inv p" "keeps_order (vp_useAggregation p) e"
  shows "outgoing p' = outgoing p @ sent_bytes e"
  using assms
  by (cases rule: send_stepE)
    (auto simp: outgoing_def in_flight_def send_inv_def keeps_order_def blob_of_def SendSilKitMsg_def send_defs
      Let_def split: sum.splits if_splits list.splits)

lemma send_run_outgoing:
  assumes "send_run p es p'" "send_inv p" "\<forall>e\<in>set es. keeps_order (vp_useAggregation p) e"
  shows "send_inv p' \<and> vp_useAggregation p' = vp_useAggregation p \<and>
     outgoing p' = outgoing p @ concat (map sent_bytes es)"
  using assms
proof (induction rule: send_run.induct)
  case (run_Nil p)
  then show ?case by simp
next
  case (run_snoc p es p1 e p2)
  then have IH: "send_inv p1" "vp_useAggregation p1 = vp_useAggregation p"
      "outgoing p1 = outgoing p @ concat (map sent_bytes es)" by auto
  with run_snoc.prems send_step_inv[OF run_snoc.hyps(2)] send_step_outgoing[OF run_snoc.hyps(2)]
  show ?case by simp
qed

text \<open>
  Nothing stays behind: when the socket completes one write after the other, everything that was
  queued is accepted by it.
\<close>

fun complete_writes :: "nat \<Rightarrow> VAsioPeer \<Rightarrow> VAsioPeer" where
  "complete_writes 0 p = p"
| "complete_writes (Suc n) p =
     complete_writes n (OnAsyncWriteSomeDone (length (vp_currentSendingBuffer p)) p)"

lemma writes_complete:
  assumes "vp_sending p"
  shows "vp_accepted (complete_writes (Suc (length (vp_sendingQueue p))) p) = in_flight p \<and>
     vp_sendingQueue (complete_writes (Suc (length (vp_sendingQueue p))) p) = [] \<and>
     \<not> vp_sending (complete_writes (Suc (length (vp_sendingQueue p))) p)"
  using assms
proof (induction "vp_sendingQueue p" arbitrary: p)
  case Nil
  then have "vp_sendingQueue p = []" by simp
  then show ?case
    using Nil.prems by (simp add: OnAsyncWriteSomeDone_def StartAsyncWrite_def in_flight_def Let_def)
next
  case (Cons blob queue)
  let ?q = "OnAsyncWriteSomeDone (length (vp_currentSendingBuffer p)) p"
  have q: "vp_sendingQueue ?q = queue" "vp_sending ?q" "in_flight ?q = in_flight p"
    using Cons.prems by (simp_all add: OnAsyncWriteSomeDone_def StartAsyncWrite_def in_flight_def Let_def
        Cons.hyps(2)[symmetric])
  show ?case using Cons.hyps(1)[of ?q] q by (simp add: Cons.hyps(2)[symmetric])
qed

section \<open>Invalid sizes\<close>

text \<open>
  A frame that announces size zero makes the peer shut down, but the round goes on: it reads an
  empty message and throws. (A size above \<open>2^30\<close> likewise still reserves the memory.)
\<close>

lemma zero_size_throws:
  assumes "recv_inv p" "4 \<le> length (stream p)" "frame_size (stream p) = 0" "vp_currentMsgSize p = 0"
  shows "\<exists>p'. DispatchBuffer L p = Inl (WireError end_of_buffer, p') \<and> vp_isShuttingDown p' \<and>
     vp_delivered p' = vp_delivered p"
proof -
  have w: "of_le_bytes (take 4 (stream p)) = (0 :: u32)"
    using assms(3) by (simp add: frame_size_def word_unat_eq_iff)
  obtain rb where rb: "Read 0 (vp_msgBuffer p) = Inr (Some [], rb)"
    using ring.pop_law[of "vp_msgBuffer p" 0] assms(1) by (auto simp: recv_inv_def)
  have "DispatchRound L p = DispatchMessage L (VAsioPeer_Shutdown (p\<lparr>vp_currentMsgSize := 0\<rparr>))"
    by (simp add: DispatchRound_def DispatchSize_ok[OF assms(1,2)] w ValidateSize_def)
  also have "\<dots> = Inl (Inl (WireError end_of_buffer,
      (VAsioPeer_Shutdown (p\<lparr>vp_currentMsgSize := 0\<rparr>))\<lparr>vp_msgBuffer := rb\<rparr>))"
    by (simp add: DispatchMessage_def rb empty_blob Let_def)
  finally show ?thesis
    by (simp add: DispatchBuffer.simps VAsioPeer_Shutdown_def)
qed

section \<open>Draining\<close>

text \<open>Events by which the I/O context makes progress without the user of the peer.\<close>

definition io_event :: "send_event \<Rightarrow> bool" where
  "io_event e = (case e of RunDispatched \<Rightarrow> True | WriteDone _ \<Rightarrow> True | _ \<Rightarrow> False)"

lemma send_run_Cons: "send_step p e p1 \<Longrightarrow> send_run p1 es p2 \<Longrightarrow> send_run p (e # es) p2"
proof (rotate_tac 1, induction rule: send_run.induct)
  case (run_Nil p1)
  then show ?case using run_snoc[OF send_run.run_Nil, of p e p1] by simp
next
  case (run_snoc p1 es p2 f p3)
  then show ?case using send_run.run_snoc[of p "e # es" p2 f p3] by simp
qed

lemma complete_writes_run:
  assumes "vp_sending p"
  shows "\<exists>es p'. send_run p es p' \<and> (\<forall>e\<in>set es. io_event e) \<and> vp_accepted p' = in_flight p \<and>
     vp_sendingQueue p' = [] \<and> \<not> vp_sending p' \<and> vp_aggregatedMessages p' = vp_aggregatedMessages p"
  using assms
proof (induction "vp_sendingQueue p" arbitrary: p)
  case Nil
  let ?q = "OnAsyncWriteSomeDone (length (vp_currentSendingBuffer p)) p"
  have "send_step p (WriteDone (length (vp_currentSendingBuffer p))) ?q"
    using Nil.prems by (intro step_Write) simp_all
  from send_run_Cons[OF this run_Nil] Nil show ?case
    by (intro exI[of _ "[WriteDone (length (vp_currentSendingBuffer p))]"] exI[of _ ?q])
      (simp add: OnAsyncWriteSomeDone_def StartAsyncWrite_def in_flight_def Let_def io_event_def)
next
  case (Cons blob queue)
  let ?q = "OnAsyncWriteSomeDone (length (vp_currentSendingBuffer p)) p"
  have q: "vp_sendingQueue ?q = queue" "vp_sending ?q" "in_flight ?q = in_flight p"
      "vp_aggregatedMessages ?q = vp_aggregatedMessages p"
    using Cons.prems by (simp_all add: OnAsyncWriteSomeDone_def StartAsyncWrite_def in_flight_def Let_def
        Cons.hyps(2)[symmetric])
  have step: "send_step p (WriteDone (length (vp_currentSendingBuffer p))) ?q"
    using Cons.prems by (intro step_Write) simp_all
  from Cons.hyps(1)[of ?q] q obtain es p' where "send_run ?q es p'" "\<forall>e\<in>set es. io_event e"
      "vp_accepted p' = in_flight p" "vp_sendingQueue p' = []" "\<not> vp_sending p'"
      "vp_aggregatedMessages p' = vp_aggregatedMessages p" by auto
  with send_run_Cons[OF step this(1)] show ?case
    by (intro exI[of _ "WriteDone (length (vp_currentSendingBuffer p)) # es"] exI[of _ p'])
      (simp add: io_event_def)
qed

lemma drains:
  assumes "send_inv p"
  shows "\<exists>es p'. send_run p es p' \<and> (\<forall>e\<in>set es. io_event e) \<and> vp_accepted p' = in_flight p \<and>
     vp_sendingQueue p' = [] \<and> \<not> vp_sending p' \<and> vp_aggregatedMessages p' = vp_aggregatedMessages p"
proof (cases "vp_sending p")
  case True
  then show ?thesis by (rule complete_writes_run)
next
  case idle: False
  show ?thesis
  proof (cases "vp_sendingQueue p")
    case Nil
    then show ?thesis using idle
      by (intro exI[of _ "[]"] exI[of _ p]) (simp add: run_Nil in_flight_def)
  next
    case (Cons blob queue)
    let ?q = "StartAsyncWrite (p\<lparr>vp_dispatched := vp_dispatched p - 1\<rparr>)"
    have step: "send_step p RunDispatched ?q"
      using assms idle Cons by (intro step_Run) (simp add: send_inv_def)
    have q: "vp_sending ?q" "in_flight ?q = in_flight p" "vp_aggregatedMessages ?q = vp_aggregatedMessages p"
      using idle Cons by (simp_all add: StartAsyncWrite_def in_flight_def)
    from complete_writes_run[OF q(1)] q obtain es p' where "send_run ?q es p'" "\<forall>e\<in>set es. io_event e"
      "vp_accepted p' = in_flight p" "vp_sendingQueue p' = []" "\<not> vp_sending p'"
      "vp_aggregatedMessages p' = vp_aggregatedMessages p" by auto
    with send_run_Cons[OF step this(1)] show ?thesis
      by (intro exI[of _ "RunDispatched # es"] exI[of _ p']) (simp add: io_event_def)
  qed
qed

lemma send_run_inv: "send_run p es p' \<Longrightarrow> send_inv p \<Longrightarrow> send_inv p' \<and> vp_useAggregation p' = vp_useAggregation p"
  by (induction rule: send_run.induct) (use send_step_inv in \<open>auto dest: send_step_inv\<close>)

section \<open>Properties of a peer\<close>

text \<open>A small stream for the examples: one complete frame without a body and half of the next size.\<close>

definition sample_stream :: bytes where
  "sample_stream = [5, 0, 0, 0, 1, 5, 0]"

lemma sample_stream_frames: "frames sample_stream = ([[5, 0, 0, 0, 1]], [5, 0])"
  by code_simp

lemma sample_stream_good: "good_stream sample_stream"
proof -
  have "case SerializedMessage_of_blob [5, 0, 0, 0, 1] of Inl _ \<Rightarrow> False | Inr _ \<Rightarrow> True" by code_simp
  then show ?thesis
    by (auto simp: good_stream_def sample_stream_frames acceptable_size_def split: sum.splits)
qed

lemma sample_started: "\<exists>p. StartAsyncRead (VAsioPeer_new v31) = Inr p"
  using start_settled[of v31] by blast


text \<open>
  C24. Reassembly: however the socket cuts a stream of well-formed frames into pieces, the
  listener is given the parsed frames of the whole stream, in order, as soon as they are complete,
  and the incomplete rest stays in the buffer. In particular the result depends on the bytes alone.
\<close>

theorem receive_any_pieces:
  assumes "StartAsyncRead (VAsioPeer_new v) = Inr p" "receives L p pieces p'"
    and "good_stream (concat pieces)" "keeps_open L"
  shows "vp_delivered p' = map (parsed v) (fst (frames (concat pieces))) \<and>
     stream p' = snd (frames (concat pieces))"
  using receives_good[OF assms(2) _ _ assms(4)] start_settled[of v] assms(1,3) by auto

theorem receive_any_pieces_witness:
  "\<exists>p p'. StartAsyncRead (VAsioPeer_new v31) = Inr p \<and> receives (\<lambda>_ _. False) p [sample_stream] p' \<and>
     vp_delivered p' = [parsed v31 [5, 0, 0, 0, 1]] \<and> stream p' = [5, 0]"
proof -
  obtain p where p: "StartAsyncRead (VAsioPeer_new v31) = Inr p" using sample_started by blast
  obtain p' where "receives (\<lambda>_ _. False) p [sample_stream] p'"
    using receive_one_piece[OF p sample_stream_good, of "\<lambda>_ _. False"]
    by (auto simp: sample_stream_def keeps_open_def)
  with receive_any_pieces[OF p this] sample_stream_good p show ?thesis
    by (auto simp: sample_stream_frames keeps_open_def)
qed

text \<open>
  Progress: after any number of pieces the peer has a read outstanding with room for at
  least one byte, and every further piece that fits is processed without an exception.
\<close>

theorem receive_never_stuck:
  assumes "StartAsyncRead (VAsioPeer_new v) = Inr p" "receives L p pieces p'"
    and "good_stream (concat pieces @ bs)" "keeps_open L"
    and "length bs \<le> Capacity (vp_msgBuffer p') - rb_size (vp_msgBuffer p')"
  shows "vp_reading p' \<and> rb_size (vp_msgBuffer p') < Capacity (vp_msgBuffer p') \<and>
     (\<exists>q. Received L bs p' = Inr q \<and> vp_reading q \<and> rb_size (vp_msgBuffer q) < Capacity (vp_msgBuffer q))"
proof -
  from start_settled[of v] assms(1) have p: "settled p" "stream p = []" by auto
  from receives_good[OF assms(2) p(1) _ assms(4)] frames_prefix_good[OF assms(3)] p(2)
  have p': "settled p'" "stream p' = snd (frames (concat pieces))" by auto
  moreover have "good_stream (stream p' @ bs)" using good_stream_append[OF assms(3)] p'(2) by simp
  ultimately show ?thesis
    using receive_progress[OF p'(1) _ assms(4,5)] by (auto simp: settled_def awaiting_def)
qed

theorem receive_never_stuck_witness:
  "\<exists>p q. StartAsyncRead (VAsioPeer_new v31) = Inr p \<and>
     Received (\<lambda>_ _. False) sample_stream p = Inr q \<and> vp_reading q"
proof -
  obtain p where p: "StartAsyncRead (VAsioPeer_new v31) = Inr p" using sample_started by blast
  have "length sample_stream \<le> Capacity (vp_msgBuffer p) - rb_size (vp_msgBuffer p)"
    by (simp add: start_fresh[OF p] sample_stream_def)
  from receive_never_stuck[OF p receives_Nil _ _ this, of "\<lambda>_ _. False"] p show ?thesis
    by (auto simp: sample_stream_good keeps_open_def)
qed

text \<open>
  C25. No message is forgotten: whatever was sent and however its bytes were written so far, the
  I/O context alone (dispatched calls and completed writes) brings every queued byte to the socket,
  in the order in which it was queued. There is no lost wake-up.
\<close>

theorem queued_bytes_drain:
  assumes "send_run p es s" "p \<in> {VAsioPeer_new v, EnableAggregation (VAsioPeer_new v)}"
  shows "\<exists>es' s'. send_run s es' s' \<and> (\<forall>e\<in>set es'. io_event e) \<and> vp_sendingQueue s' = [] \<and>
     \<not> vp_sending s' \<and> vp_accepted s' = in_flight s \<and> vp_aggregatedMessages s' = vp_aggregatedMessages s"
proof -
  have "send_inv p"
    using assms(2) by (auto simp: send_inv_def VAsioPeer_new_def EnableAggregation_def)
  with drains[of s] send_run_inv[OF assms(1)] show ?thesis by blast
qed

theorem queued_bytes_drain_witness:
  "\<exists>s es' s'. send_run (VAsioPeer_new v31) [Send (blank_SerializedMessage (MessageBuffer_of [0, 0, 0, 0, 1]))] s \<and>
     send_run s es' s' \<and> (\<forall>e\<in>set es'. io_event e) \<and> vp_accepted s' = [5, 0, 0, 0, 1]"
proof -
  let ?m = "blank_SerializedMessage (MessageBuffer_of [0, 0, 0, 0, 1])"
  let ?s = "SendSilKitMsgInternal [5, 0, 0, 0, 1] (VAsioPeer_new v31)"
  have "SerializedMessage_ReleaseStorage ?m = Inr [5, 0, 0, 0, 1]" by code_simp
  then have step: "send_step (VAsioPeer_new v31) (Send ?m) ?s"
    by (intro step_Send) (simp add: SendSilKitMsg_def VAsioPeer_new_def)
  have run: "send_run (VAsioPeer_new v31) [Send ?m] ?s" by (rule send_run_Cons[OF step run_Nil])
  have "in_flight ?s = [5, 0, 0, 0, 1]"
    by (simp add: in_flight_def SendSilKitMsgInternal_def VAsioPeer_new_def)
  with queued_bytes_drain[OF run, of v31] run show ?thesis by auto
qed

text \<open>
  A frame that announces size zero makes the peer shut down, but \<^verbatim>\<open>DispatchBuffer\<close> does not
  return there: it parses an empty blob and the exception \<^verbatim>\<open>end_of_buffer\<close> leaves the read handler.
\<close>

theorem zero_size_frame:
  assumes "StartAsyncRead (VAsioPeer_new v) = Inr p" "4 \<le> length bs" "length bs \<le> 4096" "frame_size bs = 0"
  shows "\<exists>p'. Received L bs p = Inl (WireError end_of_buffer, p') \<and> vp_isShuttingDown p' \<and> vp_delivered p' = []"
proof -
  note p = start_fresh[OF assms(1)]
  obtain rb where rb: "Received L bs p = DispatchBuffer L (p\<lparr>vp_reading := False, vp_msgBuffer := rb\<rparr>)"
      "contents rb = stream p @ bs" "recv_inv (p\<lparr>vp_reading := False, vp_msgBuffer := rb\<rparr>)"
    using Received_dispatch[of p bs L] p assms(3) by (auto simp: settled_def)
  show ?thesis
    unfolding rb(1) using zero_size_throws[OF rb(3)] rb(2) assms(2,4) p by auto
qed

theorem zero_size_frame_witness:
  "\<exists>p p'. StartAsyncRead (VAsioPeer_new v31) = Inr p \<and>
     Received (\<lambda>_ _. False) [0, 0, 0, 0] p = Inl (WireError end_of_buffer, p') \<and> vp_isShuttingDown p'"
proof -
  obtain p where p: "StartAsyncRead (VAsioPeer_new v31) = Inr p" using sample_started by blast
  have "frame_size [0, 0, 0, 0] = 0" by code_simp
  with zero_size_frame[OF p, of "[0, 0, 0, 0]"] p show ?thesis by auto
qed

end
