(* ===== verification/Service_Messages.thy ===== *)
theory Service_Messages
  imports Wire_Codec
begin

text \<open>
  The messages of the remaining services with their serialisers: publish/subscribe
  (services/pubsub/DataSerdes.cpp), RPC (services/rpc/RpcSerdes.cpp), orchestration
  (services/orchestration/SyncSerdes.cpp), internal requests (core/requests/RequestReplySerdes.cpp),
  logging (services/logging/LoggingSerdes.cpp), service discovery (core/service/ServiceSerdes.cpp)
  and metrics (services/metrics/MetricsSerdes.cpp), in the conventions of the bus messages.
\<close>

section \<open>Publish/subscribe and RPC\<close>

record WireDataMessageEvent =
  wde_timestamp :: u64
  wde_data :: bytes

definition put_WireDataMessageEvent :: "WireDataMessageEvent \<Rightarrow> writer" where
  "put_WireDataMessageEvent msg = put_all
     [put_bytes (wde_data msg), put_duration (wde_timestamp msg)]"

definition get_WireDataMessageEvent :: "WireDataMessageEvent reader" where
  "get_WireDataMessageEvent =
     get_bind get_bytes (\<lambda>data. get_bind get_duration (\<lambda>timestamp.
     get_return \<lparr>wde_timestamp = timestamp, wde_data = data\<rparr>))"

definition ok_WireDataMessageEvent :: "WireDataMessageEvent \<Rightarrow> bool" where
  "ok_WireDataMessageEvent msg \<longleftrightarrow>
     ok_bytes (wde_data msg)"

interpretation WireDataMessageEvent: strict_codec put_WireDataMessageEvent get_WireDataMessageEvent ok_WireDataMessageEvent
  by (rule messageI[OF put_WireDataMessageEvent_def]; unfold get_WireDataMessageEvent_def)
    (intro codec_field safe_intro; simp add: ok_WireDataMessageEvent_def)+

record FunctionCall =
  fc_timestamp :: u64
  fc_callUuid :: Uuid
  fc_data :: bytes

definition put_FunctionCall :: "FunctionCall \<Rightarrow> writer" where
  "put_FunctionCall msg = put_all
     [put_duration (fc_timestamp msg), put_Uuid (fc_callUuid msg), put_bytes (fc_data msg)]"

definition get_FunctionCall :: "FunctionCall reader" where
  "get_FunctionCall =
     get_bind get_duration (\<lambda>timestamp. get_bind get_Uuid (\<lambda>callUuid.
     get_bind get_bytes (\<lambda>data.
     get_return \<lparr>fc_timestamp = timestamp, fc_callUuid = callUuid,
       fc_data = data\<rparr>)))"

definition ok_FunctionCall :: "FunctionCall \<Rightarrow> bool" where
  "ok_FunctionCall msg \<longleftrightarrow>
     ok_bytes (fc_data msg)"

interpretation FunctionCall: strict_codec put_FunctionCall get_FunctionCall ok_FunctionCall
  by (rule messageI[OF put_FunctionCall_def]; unfold get_FunctionCall_def)
    (intro codec_field safe_intro; simp add: ok_FunctionCall_def)+

record FunctionCallResponse =
  fr_timestamp :: u64
  fr_callUuid :: Uuid
  fr_data :: bytes
  fr_status :: u32

definition put_FunctionCallResponse :: "FunctionCallResponse \<Rightarrow> writer" where
  "put_FunctionCallResponse msg = put_all
     [put_duration (fr_timestamp msg), put_Uuid (fr_callUuid msg), put_bytes (fr_data msg),
      put_int (fr_status msg)]"

definition get_FunctionCallResponse :: "FunctionCallResponse reader" where
  "get_FunctionCallResponse =
     get_bind get_duration (\<lambda>timestamp. get_bind get_Uuid (\<lambda>callUuid.
     get_bind get_bytes (\<lambda>data. get_bind get_int (\<lambda>status :: u32.
     get_return \<lparr>fr_timestamp = timestamp, fr_callUuid = callUuid, fr_data = data,
       fr_status = status\<rparr>))))"

definition ok_FunctionCallResponse :: "FunctionCallResponse \<Rightarrow> bool" where
  "ok_FunctionCallResponse msg \<longleftrightarrow>
     ok_bytes (fr_data msg)"

interpretation FunctionCallResponse: strict_codec put_FunctionCallResponse get_FunctionCallResponse ok_FunctionCallResponse
  by (rule messageI[OF put_FunctionCallResponse_def]; unfold get_FunctionCallResponse_def)
    (intro codec_field safe_intro; simp add: ok_FunctionCallResponse_def)+

section \<open>Orchestration\<close>

record NextSimTask =
  nst_timePoint :: u64
  nst_duration :: u64

definition put_NextSimTask :: "NextSimTask \<Rightarrow> writer" where
  "put_NextSimTask task = put_all
     [put_duration (nst_timePoint task), put_duration (nst_duration task)]"

definition get_NextSimTask :: "NextSimTask reader" where
  "get_NextSimTask =
     get_bind get_duration (\<lambda>timePoint. get_bind get_duration (\<lambda>duration.
     get_return \<lparr>nst_timePoint = timePoint, nst_duration = duration\<rparr>))"

interpretation NextSimTask: strict_codec put_NextSimTask get_NextSimTask "\<lambda>_. True"
  by (rule messageI[OF put_NextSimTask_def]; unfold get_NextSimTask_def)
    (intro codec_field safe_intro; simp)+

record SystemCommand =
  sc_kind :: u8

definition put_SystemCommand :: "SystemCommand \<Rightarrow> writer" where
  "put_SystemCommand cmd = put_all
     [put_int (sc_kind cmd)]"

definition get_SystemCommand :: "SystemCommand reader" where
  "get_SystemCommand =
     get_bind get_int (\<lambda>kind :: u8.
     get_return \<lparr>sc_kind = kind\<rparr>)"

interpretation SystemCommand: strict_codec put_SystemCommand get_SystemCommand "\<lambda>_. True"
  by (rule messageI[OF put_SystemCommand_def]; unfold get_SystemCommand_def)
    (intro codec_field safe_intro; simp)+

text \<open>
  The enumeration \<^verbatim>\<open>ParticipantState\<close> has the underlying type \<^verbatim>\<open>int16_t\<close>. The two time points lose
  their fraction of a microsecond on the wire, so they must be whole microseconds to survive unchanged.
\<close>

record WireParticipantStatus =
  ps_participantName :: string
  ps_state :: u16
  ps_enterReason :: string
  ps_enterTime :: u64
  ps_refreshTime :: u64

definition put_WireParticipantStatus :: "WireParticipantStatus \<Rightarrow> writer" where
  "put_WireParticipantStatus status = put_all
     [put_string (ps_participantName status), put_int (ps_state status),
      put_string (ps_enterReason status), put_time_point (ps_enterTime status),
      put_time_point (ps_refreshTime status)]"

definition get_WireParticipantStatus :: "WireParticipantStatus reader" where
  "get_WireParticipantStatus =
     get_bind get_string (\<lambda>participantName. get_bind get_int (\<lambda>state :: u16.
     get_bind get_string (\<lambda>enterReason. get_bind get_time_point (\<lambda>enterTime.
     get_bind get_time_point (\<lambda>refreshTime.
     get_return \<lparr>ps_participantName = participantName, ps_state = state,
       ps_enterReason = enterReason, ps_enterTime = enterTime,
       ps_refreshTime = refreshTime\<rparr>)))))"

definition ok_WireParticipantStatus :: "WireParticipantStatus \<Rightarrow> bool" where
  "ok_WireParticipantStatus status \<longleftrightarrow>
     ok_string (ps_participantName status) \<and> ok_string (ps_enterReason status) \<and>
     ok_time_point (ps_enterTime status) \<and> ok_time_point (ps_refreshTime status)"

interpretation WireParticipantStatus: strict_codec put_WireParticipantStatus get_WireParticipantStatus ok_WireParticipantStatus
  by (rule messageI[OF put_WireParticipantStatus_def]; unfold get_WireParticipantStatus_def)
    (intro codec_field safe_intro; simp add: ok_WireParticipantStatus_def)+

text \<open>
  For arbitrary times, such as those of the system clock: the receiver gets the status with its times cut to whole
  microseconds.
\<close>

definition ok_status_strings :: "WireParticipantStatus \<Rightarrow> bool" where
  "ok_status_strings status \<longleftrightarrow> ok_string (ps_participantName status) \<and> ok_string (ps_enterReason status)"

definition received_status :: "WireParticipantStatus \<Rightarrow> WireParticipantStatus" where
  "received_status status = status\<lparr>ps_enterTime := whole_microseconds (ps_enterTime status),
     ps_refreshTime := whole_microseconds (ps_refreshTime status)\<rparr>"

lemma status_correct: "codec_correct_upto received_status put_WireParticipantStatus get_WireParticipantStatus ok_status_strings"
  by (rule codec_correct_uptoI[OF WireParticipantStatus.correct])
     (simp_all add: ok_WireParticipantStatus_def ok_status_strings_def received_status_def put_WireParticipantStatus_def put_time_point_def)

record WorkflowConfiguration =
  wc_requiredParticipantNames :: "string list"

definition put_WorkflowConfiguration :: "WorkflowConfiguration \<Rightarrow> writer" where
  "put_WorkflowConfiguration workflowConfiguration = put_all
     [put_vector put_string (wc_requiredParticipantNames workflowConfiguration)]"

definition get_WorkflowConfiguration :: "WorkflowConfiguration reader" where
  "get_WorkflowConfiguration =
     get_bind (get_vector get_string) (\<lambda>requiredParticipantNames.
     get_return \<lparr>wc_requiredParticipantNames = requiredParticipantNames\<rparr>)"

definition ok_WorkflowConfiguration :: "WorkflowConfiguration \<Rightarrow> bool" where
  "ok_WorkflowConfiguration workflowConfiguration \<longleftrightarrow>
     ok_vector ok_string (wc_requiredParticipantNames workflowConfiguration)"

interpretation WorkflowConfiguration: strict_codec put_WorkflowConfiguration get_WorkflowConfiguration ok_WorkflowConfiguration
  by (rule messageI[OF put_WorkflowConfiguration_def]; unfold get_WorkflowConfiguration_def)
    (intro codec_field safe_intro; simp add: ok_WorkflowConfiguration_def)+

section \<open>Requests and replies\<close>

record RequestReplyCall =
  rrc_callUuid :: Uuid
  rrc_functionType :: u16
  rrc_callData :: bytes

definition put_RequestReplyCall :: "RequestReplyCall \<Rightarrow> writer" where
  "put_RequestReplyCall msg = put_all
     [put_Uuid (rrc_callUuid msg), put_int (rrc_functionType msg), put_bytes (rrc_callData msg)]"

definition get_RequestReplyCall :: "RequestReplyCall reader" where
  "get_RequestReplyCall =
     get_bind get_Uuid (\<lambda>callUuid. get_bind get_int (\<lambda>functionType :: u16.
     get_bind get_bytes (\<lambda>callData.
     get_return \<lparr>rrc_callUuid = callUuid, rrc_functionType = functionType,
       rrc_callData = callData\<rparr>)))"

definition ok_RequestReplyCall :: "RequestReplyCall \<Rightarrow> bool" where
  "ok_RequestReplyCall msg \<longleftrightarrow>
     ok_bytes (rrc_callData msg)"

interpretation RequestReplyCall: strict_codec put_RequestReplyCall get_RequestReplyCall ok_RequestReplyCall
  by (rule messageI[OF put_RequestReplyCall_def]; unfold get_RequestReplyCall_def)
    (intro codec_field safe_intro; simp add: ok_RequestReplyCall_def)+

record RequestReplyCallReturn =
  rrr_callUuid :: Uuid
  rrr_functionType :: u16
  rrr_callReturnData :: bytes
  rrr_callReturnStatus :: u16

definition put_RequestReplyCallReturn :: "RequestReplyCallReturn \<Rightarrow> writer" where
  "put_RequestReplyCallReturn msg = put_all
     [put_Uuid (rrr_callUuid msg), put_int (rrr_functionType msg),
      put_bytes (rrr_callReturnData msg), put_int (rrr_callReturnStatus msg)]"

definition get_RequestReplyCallReturn :: "RequestReplyCallReturn reader" where
  "get_RequestReplyCallReturn =
     get_bind get_Uuid (\<lambda>callUuid. get_bind get_int (\<lambda>functionType :: u16.
     get_bind get_bytes (\<lambda>callReturnData.
     get_bind get_int (\<lambda>callReturnStatus :: u16.
     get_return \<lparr>rrr_callUuid = callUuid, rrr_functionType = functionType,
       rrr_callReturnData = callReturnData, rrr_callReturnStatus = callReturnStatus\<rparr>))))"

definition ok_RequestReplyCallReturn :: "RequestReplyCallReturn \<Rightarrow> bool" where
  "ok_RequestReplyCallReturn msg \<longleftrightarrow>
     ok_bytes (rrr_callReturnData msg)"

interpretation RequestReplyCallReturn: strict_codec put_RequestReplyCallReturn get_RequestReplyCallReturn ok_RequestReplyCallReturn
  by (rule messageI[OF put_RequestReplyCallReturn_def]; unfold get_RequestReplyCallReturn_def)
    (intro codec_field safe_intro; simp add: ok_RequestReplyCallReturn_def)+

section \<open>Logging\<close>

record SourceLoc =
  sl_filename :: string
  sl_line :: u32
  sl_funcname :: string

definition put_SourceLoc :: "SourceLoc \<Rightarrow> writer" where
  "put_SourceLoc sourceLoc = put_all
     [put_string (sl_filename sourceLoc), put_int (sl_line sourceLoc),
      put_string (sl_funcname sourceLoc)]"

definition get_SourceLoc :: "SourceLoc reader" where
  "get_SourceLoc =
     get_bind get_string (\<lambda>filename. get_bind get_int (\<lambda>line :: u32.
     get_bind get_string (\<lambda>funcname.
     get_return \<lparr>sl_filename = filename, sl_line = line, sl_funcname = funcname\<rparr>)))"

definition ok_SourceLoc :: "SourceLoc \<Rightarrow> bool" where
  "ok_SourceLoc sourceLoc \<longleftrightarrow>
     ok_string (sl_filename sourceLoc) \<and> ok_string (sl_funcname sourceLoc)"

interpretation SourceLoc: strict_codec put_SourceLoc get_SourceLoc ok_SourceLoc
  by (rule messageI[OF put_SourceLoc_def]; unfold get_SourceLoc_def)
    (intro codec_field safe_intro; simp add: ok_SourceLoc_def)+

record LogMsg =
  lm_loggerName :: string
  lm_level :: u32
  lm_time :: u64
  lm_source :: SourceLoc
  lm_payload :: string
  lm_keyValues :: "(string \<times> string) list"

definition put_LogMsg :: "LogMsg \<Rightarrow> writer" where
  "put_LogMsg msg = put_all
     [put_string (lm_loggerName msg), put_int (lm_level msg), put_time_point (lm_time msg),
      put_SourceLoc (lm_source msg), put_string (lm_payload msg),
      put_string_unordered_map (lm_keyValues msg)]"

definition get_LogMsg :: "LogMsg reader" where
  "get_LogMsg =
     get_bind get_string (\<lambda>loggerName. get_bind get_int (\<lambda>level :: u32.
     get_bind get_time_point (\<lambda>time. get_bind get_SourceLoc (\<lambda>source.
     get_bind get_string (\<lambda>payload.
     get_bind (get_if_left 1 [] get_string_unordered_map) (\<lambda>keyValues.
     get_return \<lparr>lm_loggerName = loggerName, lm_level = level, lm_time = time,
       lm_source = source, lm_payload = payload, lm_keyValues = keyValues\<rparr>))))))"

definition ok_LogMsg :: "LogMsg \<Rightarrow> bool" where
  "ok_LogMsg msg \<longleftrightarrow>
     ok_string (lm_loggerName msg) \<and> ok_time_point (lm_time msg) \<and>
     ok_SourceLoc (lm_source msg) \<and> ok_string (lm_payload msg) \<and>
     ok_string_unordered_map (lm_keyValues msg)"

interpretation LogMsg: wire_codec put_LogMsg get_LogMsg ok_LogMsg
  by (rule growing_messageI[OF put_LogMsg_def]; unfold get_LogMsg_def)
    (intro tail_field safe_intro; simp add: ok_LogMsg_def)+

lemma LogMsg_legacy:
  assumes "ok_LogMsg msg"
  shows "rt_end
     [put_string (lm_loggerName msg), put_int (lm_level msg), put_time_point (lm_time msg),
      put_SourceLoc (lm_source msg), put_string (lm_payload msg)]
     get_LogMsg (msg\<lparr>lm_keyValues := []\<rparr>)"
  using assms unfolding get_LogMsg_def ok_LogMsg_def
  by (intro tail_field) simp_all

section \<open>Service discovery\<close>

record ServiceDescriptor =
  sd_participantName :: string
  sd_participantId :: u64
  sd_serviceType :: u8
  sd_networkName :: string
  sd_networkType :: u32
  sd_serviceName :: string
  sd_serviceId :: u64
  sd_supplementalData :: "(string \<times> string) list"

definition put_ServiceDescriptor :: "ServiceDescriptor \<Rightarrow> writer" where
  "put_ServiceDescriptor msg = put_all
     [put_string (sd_participantName msg), put_int (sd_serviceType msg),
      put_string (sd_networkName msg), put_int (sd_networkType msg),
      put_string (sd_serviceName msg), put_int (sd_serviceId msg),
      put_string_map (sd_supplementalData msg), put_int (sd_participantId msg)]"

definition get_ServiceDescriptor :: "ServiceDescriptor reader" where
  "get_ServiceDescriptor =
     get_bind get_string (\<lambda>participantName.
     get_bind get_int (\<lambda>serviceType :: u8. get_bind get_string (\<lambda>networkName.
     get_bind get_int (\<lambda>networkType :: u32. get_bind get_string (\<lambda>serviceName.
     get_bind get_int (\<lambda>serviceId :: u64.
     get_bind get_string_map (\<lambda>supplementalData.
     get_bind get_int (\<lambda>participantId :: u64.
     get_return \<lparr>sd_participantName = participantName, sd_participantId = participantId,
       sd_serviceType = serviceType, sd_networkName = networkName,
       sd_networkType = networkType, sd_serviceName = serviceName, sd_serviceId = serviceId,
       sd_supplementalData = supplementalData\<rparr>))))))))"

definition ok_ServiceDescriptor :: "ServiceDescriptor \<Rightarrow> bool" where
  "ok_ServiceDescriptor msg \<longleftrightarrow>
     ok_string (sd_participantName msg) \<and> ok_string (sd_networkName msg) \<and>
     ok_string (sd_serviceName msg) \<and> ok_string_map (sd_supplementalData msg)"

interpretation ServiceDescriptor: strict_codec put_ServiceDescriptor get_ServiceDescriptor ok_ServiceDescriptor
  by (rule messageI[OF put_ServiceDescriptor_def]; unfold get_ServiceDescriptor_def)
    (intro codec_field safe_intro; simp add: ok_ServiceDescriptor_def)+

interpretation ServiceDescriptor_vector: strict_codec "put_vector put_ServiceDescriptor" "get_vector get_ServiceDescriptor"
    "ok_vector ok_ServiceDescriptor"
  by (rule ServiceDescriptor.vector_codec)

record ParticipantDiscoveryEvent =
  pde_participantName :: string
  pde_version :: u64
  pde_services :: "ServiceDescriptor list"

definition put_ParticipantDiscoveryEvent :: "ParticipantDiscoveryEvent \<Rightarrow> writer" where
  "put_ParticipantDiscoveryEvent msg = put_all
     [put_string (pde_participantName msg), put_int (pde_version msg),
      put_vector put_ServiceDescriptor (pde_services msg)]"

definition get_ParticipantDiscoveryEvent :: "ParticipantDiscoveryEvent reader" where
  "get_ParticipantDiscoveryEvent =
     get_bind get_string (\<lambda>participantName. get_bind get_int (\<lambda>version :: u64.
     get_bind (get_vector get_ServiceDescriptor) (\<lambda>services.
     get_return \<lparr>pde_participantName = participantName, pde_version = version,
       pde_services = services\<rparr>)))"

definition ok_ParticipantDiscoveryEvent :: "ParticipantDiscoveryEvent \<Rightarrow> bool" where
  "ok_ParticipantDiscoveryEvent msg \<longleftrightarrow>
     ok_string (pde_participantName msg) \<and> ok_vector ok_ServiceDescriptor (pde_services msg)"

interpretation ParticipantDiscoveryEvent: strict_codec put_ParticipantDiscoveryEvent get_ParticipantDiscoveryEvent ok_ParticipantDiscoveryEvent
  by (rule messageI[OF put_ParticipantDiscoveryEvent_def]; unfold get_ParticipantDiscoveryEvent_def)
    (intro codec_field safe_intro; simp add: ok_ParticipantDiscoveryEvent_def)+

record ServiceDiscoveryEvent =
  sde_type :: u32
  sde_serviceDescriptor :: ServiceDescriptor

definition put_ServiceDiscoveryEvent :: "ServiceDiscoveryEvent \<Rightarrow> writer" where
  "put_ServiceDiscoveryEvent msg = put_all
     [put_int (sde_type msg), put_ServiceDescriptor (sde_serviceDescriptor msg)]"

definition get_ServiceDiscoveryEvent :: "ServiceDiscoveryEvent reader" where
  "get_ServiceDiscoveryEvent =
     get_bind get_int (\<lambda>type :: u32.
     get_bind get_ServiceDescriptor (\<lambda>serviceDescriptor.
     get_return \<lparr>sde_type = type, sde_serviceDescriptor = serviceDescriptor\<rparr>))"

definition ok_ServiceDiscoveryEvent :: "ServiceDiscoveryEvent \<Rightarrow> bool" where
  "ok_ServiceDiscoveryEvent msg \<longleftrightarrow>
     ok_ServiceDescriptor (sde_serviceDescriptor msg)"

interpretation ServiceDiscoveryEvent: strict_codec put_ServiceDiscoveryEvent get_ServiceDiscoveryEvent ok_ServiceDiscoveryEvent
  by (rule messageI[OF put_ServiceDiscoveryEvent_def]; unfold get_ServiceDiscoveryEvent_def)
    (intro codec_field safe_intro; simp add: ok_ServiceDiscoveryEvent_def)+

section \<open>Metrics\<close>

record MetricData =
  md_timestamp :: u64
  md_name :: string
  md_kind :: u32
  md_value :: string

definition put_MetricData :: "MetricData \<Rightarrow> writer" where
  "put_MetricData msg = put_all
     [put_int (md_timestamp msg), put_string (md_name msg), put_int (md_kind msg),
      put_string (md_value msg)]"

definition get_MetricData :: "MetricData reader" where
  "get_MetricData =
     get_bind get_int (\<lambda>timestamp :: u64. get_bind get_string (\<lambda>name.
     get_bind get_int (\<lambda>kind :: u32. get_bind get_string (\<lambda>value.
     get_return \<lparr>md_timestamp = timestamp, md_name = name, md_kind = kind,
       md_value = value\<rparr>))))"

definition ok_MetricData :: "MetricData \<Rightarrow> bool" where
  "ok_MetricData msg \<longleftrightarrow>
     ok_string (md_name msg) \<and> ok_string (md_value msg)"

interpretation MetricData: strict_codec put_MetricData get_MetricData ok_MetricData
  by (rule messageI[OF put_MetricData_def]; unfold get_MetricData_def)
    (intro codec_field safe_intro; simp add: ok_MetricData_def)+

interpretation MetricData_vector: strict_codec "put_vector put_MetricData" "get_vector get_MetricData"
    "ok_vector ok_MetricData"
  by (rule MetricData.vector_codec)

record MetricsUpdate =
  mu_metrics :: "MetricData list"

definition put_MetricsUpdate :: "MetricsUpdate \<Rightarrow> writer" where
  "put_MetricsUpdate msg = put_all
     [put_vector put_MetricData (mu_metrics msg)]"

definition get_MetricsUpdate :: "MetricsUpdate reader" where
  "get_MetricsUpdate =
     get_bind (get_vector get_MetricData) (\<lambda>metrics.
     get_return \<lparr>mu_metrics = metrics\<rparr>)"

definition ok_MetricsUpdate :: "MetricsUpdate \<Rightarrow> bool" where
  "ok_MetricsUpdate msg \<longleftrightarrow>
     ok_vector ok_MetricData (mu_metrics msg)"

interpretation MetricsUpdate: strict_codec put_MetricsUpdate get_MetricsUpdate ok_MetricsUpdate
  by (rule messageI[OF put_MetricsUpdate_def]; unfold get_MetricsUpdate_def)
    (intro codec_field safe_intro; simp add: ok_MetricsUpdate_def)+

end
