(* ===== verification/VAsio_Link.thy ===== *)
theory VAsio_Link
  imports VAsio_Peer Service_Messages
begin

text \<open>
  Two peers connected by a byte stream: what one of them is asked to send, what the socket accepts
  from it, what arrives in pieces at the other one, and what its listener is given. The stream is
  the only assumption: the bytes that have arrived are a prefix of the bytes that were accepted.
\<close>

section \<open>A framed message at the receiver\<close>

text \<open>What the listener finds in a message: the address of the sender and the body.\<close>

definition decoded :: "'a reader \<Rightarrow> SerializedMessage \<Rightarrow> wire_error + EndpointAddress \<times> u64 \<times> 'a" where
  "decoded get m =
     bindE (GetEndpointAddress m) (\<lambda>a.
     bindE (GetRemoteIndex m) (\<lambda>i.
     bindE (SerializedMessage_Deserialize get m) (\<lambda>(y, _). Inr (a, i, y))))"

lemma writes_at_unique: "writes_at v p bs \<Longrightarrow> writes p cs \<Longrightarrow> bs = cs"
proof -
  assume w: "writes_at v p bs" "writes p cs"
  let ?b = "SetProtocolVersion v empty_MessageBuffer"
  have b: "wf_buffer ?b" "protocolVersion ?b = v" "storage ?b = []"
    by (simp_all add: SetProtocolVersion_def wf_buffer_def empty_MessageBuffer_def)
  from w b have "append_bytes bs ?b = append_bytes cs ?b"
    by (auto simp: writes_at_def writes_def)
  then have "storage (append_bytes bs ?b) = storage (append_bytes cs ?b)" by simp
  then show "bs = cs" using b by simp
qed

context wire_codec
begin

lemma message_arrives:
  assumes "ok x" "messageKind T = SilKitMwMsg" "SerializedMessage_addressed T put x addr idx = Inr m"
    "SerializedMessage_ReleaseStorage m = Inr blob"
  shows "framed blob" and "\<exists>m. SerializedMessage_of_blob blob = Inr m"
    and "decoded get (parsed v blob) = Inr (addr, idx, x)"
proof -
  note cur = versioned[of CurrentProtocolVersion]
  show "framed blob"
    using versioned_codec.blob_size[OF cur assms(1,2) refl assms(3,4)]
    by (simp add: framed_def frame_size_def uint32_max_def unat_of_nat)
  obtain bs where st: "storage (sm_buffer m) = mw_header 0 idx addr @ bs"
      and w: "writes_at CurrentProtocolVersion (put x) bs"
    using versioned_codec.addressed[OF cur assms(1,2) refl, of addr idx] assms(3) by (metis Inr_inject)
  have rd: "reads get bs x"
    using roundtrip[OF assms(1)] writes_at_unique[OF w] by blast
  have fits: "length (mw_header 0 idx addr @ bs) \<le> uint32_max"
    using assms(4) st by (auto simp: SerializedMessage_ReleaseStorage_def ReleaseStorage_def Let_def
        split: if_splits)
  define len where "len = (of_nat (length (mw_header 0 idx addr @ bs)) :: u32)"
  have blob: "blob = mw_header len idx addr @ bs"
    using release_mw[OF st fits] assms(4) by (simp add: len_def)
  let ?b = "MessageBuffer_of blob"
  have r: "SerializedMessage_of_blob blob = Inr ((blank_SerializedMessage ?b)\<lparr>sm_messageSize := len,
      sm_messageKind := SilKitMwMsg, sm_remoteIndex := idx, sm_endpointAddress := addr,
      sm_buffer := ?b\<lparr>rPos := length (mw_header len idx addr)\<rparr>\<rparr>)"
    unfolding SerializedMessage_of_blob_def
    by (subst read_mw_headers[of _ len idx addr bs])
      (simp_all add: blob MessageBuffer_of_def blank_SerializedMessage_def)
  then show "\<exists>m. SerializedMessage_of_blob blob = Inr m" by blast
  have "get (SetProtocolVersion v (?b\<lparr>rPos := length (mw_header len idx addr)\<rparr>)) =
      Inr (x, (SetProtocolVersion v (?b\<lparr>rPos := length (mw_header len idx addr)\<rparr>))
        \<lparr>rPos := length (mw_header len idx addr) + length bs\<rparr>)"
    by (rule reads_to[OF rd, where post = "[]"]) (simp_all add: SetProtocolVersion_def MessageBuffer_of_def blob)
  then show "decoded get (parsed v blob) = Inr (addr, idx, x)"
    by (simp add: decoded_def parsed_def r SerializedMessage_SetProtocolVersion_def GetEndpointAddress_def
        GetRemoteIndex_def SerializedMessage_Deserialize_def IsMwOrSim_def)
qed

end

section \<open>The link\<close>

text \<open>The messages a run of the sending side was asked to send.\<close>

fun sent_message :: "send_event \<Rightarrow> SerializedMessage list" where
  "sent_message (Send m) = [m]"
| "sent_message _ = []"

definition sent_messages :: "send_event list \<Rightarrow> SerializedMessage list" where
  "sent_messages es = concat (map sent_message es)"

lemma sent_bytes_messages: "concat (map sent_bytes es) = concat (map blob_of (sent_messages es))"
proof (induction es)
  case (Cons e es)
  then show ?case by (cases e) (simp_all add: sent_messages_def)
qed (simp add: sent_messages_def)

lemma Send_sent: "Send m \<in> set es \<Longrightarrow> m \<in> set (sent_messages es)"
  unfolding sent_messages_def by force

text \<open>Every message of a run was framed from a value of the type \<open>T\<close>, with the sender's address.\<close>

definition frames_of ::
    "message_type \<Rightarrow> ('a \<Rightarrow> writer) \<Rightarrow> ('a \<Rightarrow> bool) \<Rightarrow> (EndpointAddress \<times> u64 \<times> 'a) list \<Rightarrow>
     SerializedMessage list \<Rightarrow> bool" where
  "frames_of T put ok xs ms \<longleftrightarrow>
     list_all2 (\<lambda>(addr, idx, x) m. ok x \<and> SerializedMessage_addressed T put x addr idx = Inr m \<and>
       length (blob_of m) \<le> 2 ^ 30 \<and> (\<exists>blob. SerializedMessage_ReleaseStorage m = Inr blob)) xs ms"

lemma good_concat:
  assumes "\<forall>b\<in>set blobs. framed b \<and> length b \<le> 2 ^ 30 \<and> (\<exists>m. SerializedMessage_of_blob b = Inr m)"
  shows "good_stream (concat blobs)" "frames (concat blobs) = (blobs, [])"
  using assms frames_concat[of blobs] by (auto simp: good_stream_def acceptable_size_def)

lemma frames_prefix:
  assumes "bs @ cs = ds"
  shows "fst (frames bs) = take (length (fst (frames bs))) (fst (frames ds))"
  using frames_append[of bs cs] unfolding assms by (simp add: Let_def case_prod_unfold)

lemma SerializedMessage_addressed_kind:
  "SerializedMessage_addressed T put x addr idx = Inr m \<Longrightarrow> sm_aggregationKind m = aggregationKind T"
  by (auto simp: SerializedMessage_addressed_def frame_message_def WriteNetworkHeaders_def
      ReadNetworkHeaders_def read_registry_header_def Let_def split: if_splits prod.splits)

lemma frames_of_kind:
  "frames_of T put ok xs ms \<Longrightarrow> m \<in> set ms \<Longrightarrow> sm_aggregationKind m = aggregationKind T"
  by (auto simp: frames_of_def list_all2_conv_all_nth in_set_conv_nth case_prod_unfold
      dest: SerializedMessage_addressed_kind)

context wire_codec
begin

lemma frames_of_blobs:
  assumes "frames_of T put ok xs ms" "messageKind T = SilKitMwMsg"
  shows "\<forall>b\<in>set (map blob_of ms). framed b \<and> length b \<le> 2 ^ 30 \<and> (\<exists>m. SerializedMessage_of_blob b = Inr m)"
    and "map (\<lambda>b. decoded get (parsed v b)) (map blob_of ms) = map Inr xs"
proof -
  have one: "framed (blob_of m) \<and> (\<exists>m'. SerializedMessage_of_blob (blob_of m) = Inr m') \<and>
      decoded get (parsed v (blob_of m)) = Inr (addr, idx, x)"
    if "ok x" "SerializedMessage_addressed T put x addr idx = Inr m"
      "SerializedMessage_ReleaseStorage m = Inr blob" for x addr idx m blob
    using message_arrives[OF that(1) assms(2) that(2,3)] that(3) by (simp add: blob_of_def)
  from assms(1) have "list_all2 (\<lambda>y m. framed (blob_of m) \<and> length (blob_of m) \<le> 2 ^ 30 \<and>
      (\<exists>m'. SerializedMessage_of_blob (blob_of m) = Inr m') \<and> decoded get (parsed v (blob_of m)) = Inr y) xs ms"
    unfolding frames_of_def by (rule list_all2_mono) (auto dest: one)
  then show "\<forall>b\<in>set (map blob_of ms). framed b \<and> length b \<le> 2 ^ 30 \<and> (\<exists>m. SerializedMessage_of_blob b = Inr m)"
    and "map (\<lambda>b. decoded get (parsed v b)) (map blob_of ms) = map Inr xs"
    by (induction rule: list_all2_induct) auto
qed

lemma link_delivers:
  assumes run: "send_run p es s" "send_inv p" "outgoing p = []"
      "\<forall>e\<in>set es. keeps_order (vp_useAggregation p) e"
    and sent: "frames_of T put ok xs (sent_messages es)" "messageKind T = SilKitMwMsg"
    and wire: "concat chunks @ rest = outgoing s"
    and recv: "StartAsyncRead (VAsioPeer_new v) = Inr r0" "receives L r0 chunks r" "keeps_open L"
  shows "\<exists>n. map (decoded get) (vp_delivered r) = map Inr (take n xs) \<and> (rest = [] \<longrightarrow> n = length xs)"
proof -
  let ?blobs = "map blob_of (sent_messages es)"
  have out: "outgoing s = concat ?blobs"
    using send_run_outgoing[OF run(1,2,4)] run(3) sent_bytes_messages by simp
  note blobs = frames_of_blobs[OF sent]
  note whole = good_concat[OF blobs(1)]
  have r0: "settled r0" "stream r0 = []" "vp_delivered r0 = []" "vp_protocolVersion r0 = v"
    using start_settled[of v] recv(1) by auto
  have good: "good_stream (concat chunks)"
    using whole(1) frames_prefix_good[of "concat chunks" rest] by (simp add: wire out)
  let ?n = "length (fst (frames (concat chunks)))"
  have del: "vp_delivered r = map (parsed v) (fst (frames (concat chunks)))"
    using receives_good[OF recv(2) r0(1) _ recv(3)] good r0 by simp
  have pre: "fst (frames (concat chunks)) = take ?n ?blobs"
    using frames_prefix[OF wire] by (simp add: out whole(2))
  have dec: "map (decoded get) (map (parsed v) (take k ?blobs)) = map Inr (take k xs)" for k
    using arg_cong[OF blobs(2)[of v], of "take k"] by (simp add: take_map o_def)
  have "map (decoded get) (vp_delivered r) = map Inr (take ?n xs)"
    unfolding del using dec[of ?n] pre by simp
  moreover have "?n = length xs" if "rest = []"
    using that wire whole(2) arg_cong[OF blobs(2)[of v], of length] by (simp add: out)
  ultimately show ?thesis by blast
qed

end

section \<open>Delivery of published data\<close>

text \<open>
  C1. Data messages published by one participant reach the subscriber's listener unchanged, in order
  and without duplicates, with the address of their sender. The sender's peer starts fresh, with or
  without aggregation, and goes through any interleaving of \<^verbatim>\<open>SendSilKitMsg\<close>, dispatched and completed
  partial writes and timer expirations; the receiver gets the accepted bytes in arbitrary pieces. At
  any moment the listener has seen a prefix of what was sent; when all bytes have arrived, it has seen
  everything.
\<close>

theorem data_messages_delivered:
  assumes "send_run p es s" "p \<in> {VAsioPeer_new w, EnableAggregation (VAsioPeer_new w)}"
    and "frames_of T_WireDataMessageEvent put_WireDataMessageEvent ok_WireDataMessageEvent xs (sent_messages es)"
    and "vp_accepted s = concat chunks @ rest"
    and "StartAsyncRead (VAsioPeer_new v) = Inr r0" "receives L r0 chunks r" "keeps_open L"
  shows "\<exists>n. map (decoded get_WireDataMessageEvent) (vp_delivered r) = map Inr (take n xs) \<and>
     (concat chunks = outgoing s \<longrightarrow> n = length xs)"
proof -
  have p: "send_inv p" "outgoing p = []"
    using assms(2) by (auto simp: send_inv_def outgoing_def in_flight_def VAsioPeer_new_def EnableAggregation_def)
  have "keeps_order (vp_useAggregation p) e" if "e \<in> set es" for e
    using frames_of_kind[OF assms(3)] that by (cases e) (auto simp: keeps_order_def dest: Send_sent)
  moreover obtain rest' where "concat chunks @ rest' = outgoing s" "concat chunks = outgoing s \<longrightarrow> rest' = []"
    using assms(4) by (simp add: outgoing_def in_flight_def)
  ultimately show ?thesis
    using WireDataMessageEvent.link_delivers[OF assms(1) p _ assms(3) _ _ assms(5-7)] by fastforce
qed


definition sample_event :: WireDataMessageEvent where
  "sample_event = \<lparr>wde_timestamp = 5, wde_data = [1, 2, 3]\<rparr>"

definition sample_address :: EndpointAddress where
  "sample_address = \<lparr>ea_participant = 1, ea_endpoint = 2\<rparr>"

lemma sample_framed:
  "\<exists>m blob. SerializedMessage_addressed T_WireDataMessageEvent put_WireDataMessageEvent
       sample_event sample_address 3 = Inr m \<and>
     SerializedMessage_ReleaseStorage m = Inr blob \<and> length blob = 44"
proof -
  have ok: "ok_WireDataMessageEvent sample_event"
    by (simp add: sample_event_def ok_WireDataMessageEvent_def ok_bytes_def uint32_max_def)
  obtain bs m where m: "SerializedMessage_addressed T_WireDataMessageEvent put_WireDataMessageEvent
        sample_event sample_address 3 = Inr m" "storage (sm_buffer m) = mw_header 0 3 sample_address @ bs"
      and w: "writes_at CurrentProtocolVersion (put_WireDataMessageEvent sample_event) bs"
    by (rule versioned_codec.addressed[OF wire_codec.versioned[OF WireDataMessageEvent.wire_codec_axioms] ok]) auto
  have "(case put_WireDataMessageEvent sample_event empty_MessageBuffer of
      Inr b \<Rightarrow> length (storage b) = 15 | Inl _ \<Rightarrow> False)" by code_simp
  then have "length bs = 15"
    using w by (simp add: writes_at_def)
  then have "length (mw_header 0 3 sample_address @ bs) = 44" by (simp add: mw_header_def)
  moreover from this have "SerializedMessage_ReleaseStorage m = Inr (mw_header 44 3 sample_address @ bs)"
    using release_mw[OF m(2)] by (simp add: uint32_max_def)
  ultimately show ?thesis using m(1) by (auto simp: mw_header_def)
qed

lemma sample_frames_of:
  assumes "SerializedMessage_addressed T_WireDataMessageEvent put_WireDataMessageEvent
       sample_event sample_address 3 = Inr m"
    and "SerializedMessage_ReleaseStorage m = Inr blob" "length blob = 44"
  shows "frames_of T_WireDataMessageEvent put_WireDataMessageEvent ok_WireDataMessageEvent
     [(sample_address, 3, sample_event)] [m]"
  using assms by (auto simp: frames_of_def blob_of_def sample_event_def ok_WireDataMessageEvent_def
      ok_bytes_def uint32_max_def)

text \<open>The message is queued, handed to the socket and accepted in two pieces.\<close>

lemma sample_run:
  assumes "SerializedMessage_ReleaseStorage m = Inr blob" "length blob = 44"
  shows "\<exists>s. send_run (VAsioPeer_new v31) [Send m, RunDispatched, WriteDone 10, WriteDone 34] s \<and>
     vp_accepted s = blob \<and> outgoing s = blob"
proof -
  let ?p1 = "SendSilKitMsgInternal blob (VAsioPeer_new v31)"
  let ?p2 = "StartAsyncWrite (?p1\<lparr>vp_dispatched := vp_dispatched ?p1 - 1\<rparr>)"
  let ?p3 = "OnAsyncWriteSomeDone 10 ?p2"
  let ?p4 = "OnAsyncWriteSomeDone 34 ?p3"
  have 1: "send_step (VAsioPeer_new v31) (Send m) ?p1"
    by (rule step_Send) (simp add: SendSilKitMsg_def assms VAsioPeer_new_def)
  have 2: "send_step ?p1 RunDispatched ?p2"
    by (rule step_Run) (simp add: SendSilKitMsgInternal_def VAsioPeer_new_def)
  have 3: "send_step ?p2 (WriteDone 10) ?p3" "send_step ?p3 (WriteDone 34) ?p4"
    by (rule step_Write; simp add: send_defs VAsioPeer_new_def assms Let_def)+
  from run_snoc[OF run_snoc[OF run_snoc[OF run_snoc[OF run_Nil 1] 2] 3(1)] 3(2)] show ?thesis
    by (intro exI[of _ ?p4])
      (simp add: outgoing_def in_flight_def send_defs VAsioPeer_new_def assms Let_def)
qed

theorem data_messages_delivered_witness:
  "\<exists>m blob s r0 r. send_run (VAsioPeer_new v31) [Send m, RunDispatched, WriteDone 10, WriteDone 34] s \<and>
     StartAsyncRead (VAsioPeer_new v30) = Inr r0 \<and> receives (\<lambda>_ _. False) r0 [blob] r \<and>
     map (decoded get_WireDataMessageEvent) (vp_delivered r) = [Inr (sample_address, 3, sample_event)]"
proof -
  obtain m blob where m: "SerializedMessage_addressed T_WireDataMessageEvent put_WireDataMessageEvent
        sample_event sample_address 3 = Inr m" "SerializedMessage_ReleaseStorage m = Inr blob" "length blob = 44"
    using sample_framed by blast
  note fr = sample_frames_of[OF m]
  obtain s where s: "send_run (VAsioPeer_new v31) [Send m, RunDispatched, WriteDone 10, WriteDone 34] s"
      "vp_accepted s = blob" "outgoing s = blob" using sample_run[OF m(2,3)] by blast
  obtain r0 where r0: "StartAsyncRead (VAsioPeer_new v30) = Inr r0" using start_settled[of v30] by blast
  have "good_stream (concat [blob])"
    using WireDataMessageEvent.frames_of_blobs(1)[OF fr] m(2) by (intro good_concat(1)) (simp add: blob_of_def)
  then obtain r where r: "receives (\<lambda>_ _. False) r0 [blob] r"
    using receive_one_piece[OF r0, of blob "\<lambda>_ _. False"] m(3) by (auto simp: keeps_open_def)
  have "\<exists>n. map (decoded get_WireDataMessageEvent) (vp_delivered r) =
      map Inr (take n [(sample_address, 3, sample_event)]) \<and>
      (concat [blob] = outgoing s \<longrightarrow> n = length [(sample_address, 3::u64, sample_event)])"
    by (rule data_messages_delivered[where w = v31, OF s(1) _ _ _ r0 r])
      (use fr in \<open>simp_all add: s sent_messages_def keeps_open_def\<close>)
  then show ?thesis using s r0 r by fastforce
qed

end
