(* ===== verification/Orchestration_Types.thy ===== *)
theory Orchestration_Types
  imports Prelude "HOL-Library.AList"
begin

text \<open>
  The data of the orchestration services (include/silkit/services/orchestration/
  OrchestrationDatatypes.hpp) and the container of callbacks that the services share
  (util/SynchronizedHandlers.hpp). The enumerations are datatypes; a value that arrives from the
  network need not be one of the enumerators, hence \<open>PS_Other\<close>.
\<close>

section \<open>States\<close>

datatype ParticipantState =
    PS_Invalid | PS_ServicesCreated | PS_CommunicationInitializing | PS_CommunicationInitialized
  | PS_ReadyToRun | PS_Running | PS_Paused | PS_Stopping | PS_Stopped | PS_Error
  | PS_ShuttingDown | PS_Shutdown | PS_Aborting | PS_Other u16

datatype SystemState =
    SS_Invalid | SS_ServicesCreated | SS_CommunicationInitializing | SS_CommunicationInitialized
  | SS_ReadyToRun | SS_Running | SS_Paused | SS_Stopping | SS_Stopped | SS_Error
  | SS_ShuttingDown | SS_Shutdown | SS_Aborting

datatype OperationMode = OM_Invalid | OM_Coordinated | OM_Autonomous

record ParticipantStatus =
  st_participantName :: string
  st_state :: ParticipantState
  st_enterReason :: string
  st_enterTime :: u64
  st_refreshTime :: u64

text \<open>The numbers of the states on the wire, and what a received number stands for.\<close>

fun state_to_wire :: "ParticipantState \<Rightarrow> u16" where
  "state_to_wire PS_Invalid = 0"
| "state_to_wire PS_ServicesCreated = 10"
| "state_to_wire PS_CommunicationInitializing = 20"
| "state_to_wire PS_CommunicationInitialized = 30"
| "state_to_wire PS_ReadyToRun = 40"
| "state_to_wire PS_Running = 50"
| "state_to_wire PS_Paused = 60"
| "state_to_wire PS_Stopping = 70"
| "state_to_wire PS_Stopped = 80"
| "state_to_wire PS_Error = 90"
| "state_to_wire PS_ShuttingDown = 100"
| "state_to_wire PS_Shutdown = 110"
| "state_to_wire PS_Aborting = 120"
| "state_to_wire (PS_Other w) = w"

definition enumerators :: "ParticipantState list" where
  "enumerators =
     [PS_Invalid, PS_ServicesCreated, PS_CommunicationInitializing, PS_CommunicationInitialized,
      PS_ReadyToRun, PS_Running, PS_Paused, PS_Stopping, PS_Stopped, PS_Error, PS_ShuttingDown,
      PS_Shutdown, PS_Aborting]"

definition state_of_wire :: "u16 \<Rightarrow> ParticipantState" where
  "state_of_wire w = (case filter (\<lambda>s. state_to_wire s = w) enumerators of s # _ \<Rightarrow> s | [] \<Rightarrow> PS_Other w)"

lemma state_of_wire_to_wire: "s \<in> set enumerators \<Longrightarrow> state_of_wire (state_to_wire s) = s"
  by (auto simp: enumerators_def state_of_wire_def)

lemma state_to_wire_of_wire: "state_to_wire (state_of_wire w) = w"
proof (cases "filter (\<lambda>s. state_to_wire s = w) enumerators")
  case Nil
  then show ?thesis by (simp add: state_of_wire_def)
next
  case (Cons s ss)
  then have "s \<in> set (filter (\<lambda>s. state_to_wire s = w) enumerators)" by simp
  then have "state_to_wire s = w" by (simp only: set_filter mem_Collect_eq)
  with Cons show ?thesis by (simp add: state_of_wire_def)
qed

section \<open>Containers of callbacks\<close>

text \<open>
  \<^verbatim>\<open>Util::Handlers\<close>: a map from increasing identifiers to callables, iterated in the order of the
  identifiers. The callables are values of a type parameter; to invoke one is an effect of the
  caller.
\<close>

record 'c Handlers =
  h_entries :: "(nat \<times> 'c) list"
  h_nextHandlerId :: nat

definition Handlers_empty :: "'c Handlers" where
  "Handlers_empty = \<lparr>h_entries = [], h_nextHandlerId = 0\<rparr>"

definition Handlers_Add :: "'c \<Rightarrow> 'c Handlers \<Rightarrow> nat \<times> 'c Handlers" where
  "Handlers_Add t h =
     (h_nextHandlerId h,
      h\<lparr>h_entries := h_entries h @ [(h_nextHandlerId h, t)], h_nextHandlerId := h_nextHandlerId h + 1\<rparr>)"

definition Handlers_Remove :: "nat \<Rightarrow> 'c Handlers \<Rightarrow> bool \<times> 'c Handlers" where
  "Handlers_Remove i h =
     (i \<in> fst ` set (h_entries h), h\<lparr>h_entries := filter (\<lambda>kv. fst kv \<noteq> i) (h_entries h)\<rparr>)"

definition Handlers_InvokeAll :: "'c Handlers \<Rightarrow> 'c list" where
  "Handlers_InvokeAll h = map snd (h_entries h)"

definition handlers_inv :: "'c Handlers \<Rightarrow> bool" where
  "handlers_inv h \<longleftrightarrow> sorted_wrt (<) (map fst (h_entries h)) \<and>
     (\<forall>i\<in>fst ` set (h_entries h). i < h_nextHandlerId h)"

text \<open>Identifiers are never reused, so a removed handler stays removed.\<close>

lemma handlers_inv_empty: "handlers_inv Handlers_empty"
  by (simp add: handlers_inv_def Handlers_empty_def)

lemma handlers_inv_Add: "handlers_inv h \<Longrightarrow> handlers_inv (snd (Handlers_Add t h))"
  by (auto simp: handlers_inv_def Handlers_Add_def sorted_wrt_append)

lemma handlers_inv_Remove: "handlers_inv h \<Longrightarrow> handlers_inv (snd (Handlers_Remove i h))"
  by (auto simp: handlers_inv_def Handlers_Remove_def sorted_wrt_map intro!: sorted_wrt_filter)

lemma Handlers_Add_fresh:
  "handlers_inv h \<Longrightarrow> fst (Handlers_Add t h) \<notin> fst ` set (h_entries h)"
  by (auto simp: handlers_inv_def Handlers_Add_def)

lemma Handlers_Remove_Add:
  assumes "handlers_inv h"
  shows "Handlers_Remove (fst (Handlers_Add t h)) (snd (Handlers_Add t h)) =
     (True, h\<lparr>h_nextHandlerId := h_nextHandlerId h + 1\<rparr>)"
proof -
  have "\<forall>kv\<in>set (h_entries h). fst kv \<noteq> h_nextHandlerId h"
    using assms by (auto simp: handlers_inv_def)
  then have "filter (\<lambda>kv. fst kv \<noteq> h_nextHandlerId h) (h_entries h) = h_entries h"
    by (simp add: filter_id_conv)
  then show ?thesis by (simp add: Handlers_Remove_def Handlers_Add_def)
qed

end
