(* ===== verification/System_State.thy ===== *)
theory System_State
  imports Orchestration_Types
begin

text \<open>
  \<^verbatim>\<open>SystemStateTracker\<close> (services/orchestration/SystemStateTracker.cpp): from the states that the
  participants report, every participant computes the state of the whole system, on which the
  coordinated lifecycle waits. The set of required participants is a list in the iteration order
  of the hash set; the cache of statuses is an association list. Log output is left out.
\<close>

section \<open>The tracker\<close>

datatype tracker_error = AssertionError ParticipantState

record SystemStateTracker =
  t_requiredParticipants :: "string list"
  t_systemState :: SystemState
  t_participantStatusCache :: "(string \<times> ParticipantStatus) list"

definition SystemStateTracker_new :: SystemStateTracker where
  "SystemStateTracker_new =
     \<lparr>t_requiredParticipants = [], t_systemState = SS_Invalid, t_participantStatusCache = []\<rparr>"

fun ValidateParticipantStateUpdate :: "ParticipantState \<Rightarrow> ParticipantState \<Rightarrow> tracker_error + bool" where
  "ValidateParticipantStateUpdate old PS_ServicesCreated = Inr (old \<in> {PS_Invalid})"
| "ValidateParticipantStateUpdate old PS_CommunicationInitializing = Inr (old \<in> {PS_ServicesCreated})"
| "ValidateParticipantStateUpdate old PS_CommunicationInitialized = Inr (old \<in> {PS_CommunicationInitializing})"
| "ValidateParticipantStateUpdate old PS_ReadyToRun = Inr (old \<in> {PS_CommunicationInitialized})"
| "ValidateParticipantStateUpdate old PS_Running = Inr (old \<in> {PS_ReadyToRun, PS_Paused})"
| "ValidateParticipantStateUpdate old PS_Paused = Inr (old \<in> {PS_Running})"
| "ValidateParticipantStateUpdate old PS_Stopping = Inr (old \<in> {PS_Running, PS_Paused})"
| "ValidateParticipantStateUpdate old PS_Stopped = Inr (old \<in> {PS_Stopping})"
| "ValidateParticipantStateUpdate old PS_ShuttingDown = Inr (old \<in> {PS_Error, PS_Stopped})"
| "ValidateParticipantStateUpdate old PS_Shutdown = Inr (old \<in> {PS_ShuttingDown, PS_Aborting})"
| "ValidateParticipantStateUpdate old PS_Aborting = Inr True"
| "ValidateParticipantStateUpdate old PS_Error = Inr True"
| "ValidateParticipantStateUpdate old s = Inl (AssertionError s)"

definition IsEmpty :: "SystemStateTracker \<Rightarrow> bool" where
  "IsEmpty t \<longleftrightarrow> t_participantStatusCache t = []"

definition IsRequiredParticipant :: "string \<Rightarrow> SystemStateTracker \<Rightarrow> bool" where
  "IsRequiredParticipant participantName t \<longleftrightarrow> participantName \<in> set (t_requiredParticipants t)"

definition GetParticipantStatus :: "string \<Rightarrow> SystemStateTracker \<Rightarrow> ParticipantStatus option" where
  "GetParticipantStatus participantName t = map_of (t_participantStatusCache t) participantName"

definition GetSystemState :: "SystemStateTracker \<Rightarrow> SystemState" where
  "GetSystemState t = t_systemState t"

definition SetParticipantStatus :: "string \<Rightarrow> ParticipantStatus \<Rightarrow> SystemStateTracker \<Rightarrow> SystemStateTracker" where
  "SetParticipantStatus participantName participantStatus t =
     t\<lparr>t_participantStatusCache := AList.update participantName participantStatus (t_participantStatusCache t)\<rparr>"

definition default_ParticipantStatus :: "string \<Rightarrow> ParticipantStatus" where
  "default_ParticipantStatus participantName =
     \<lparr>st_participantName = participantName, st_state = PS_Invalid, st_enterReason = [],
      st_enterTime = 0, st_refreshTime = 0\<rparr>"

definition GetOrCreateParticipantStatus ::
    "string \<Rightarrow> SystemStateTracker \<Rightarrow> ParticipantStatus \<times> SystemStateTracker" where
  "GetOrCreateParticipantStatus participantName t =
     (case GetParticipantStatus participantName t of
        Some status \<Rightarrow> (status, t)
      | None \<Rightarrow> (default_ParticipantStatus participantName,
                 SetParticipantStatus participantName (default_ParticipantStatus participantName) t))"

definition GetAnyRequiredParticipantState :: "SystemStateTracker \<Rightarrow> ParticipantState" where
  "GetAnyRequiredParticipantState t =
     (case t_requiredParticipants t of
        [] \<Rightarrow> PS_Invalid
      | requiredParticipantName # _ \<Rightarrow>
          (case GetParticipantStatus requiredParticipantName t of None \<Rightarrow> PS_Invalid | Some status \<Rightarrow> st_state status))"

text \<open>The condition of \<^verbatim>\<open>ChangeToIfAllIn\<close>: every required participant has reported one of the states.\<close>

definition AllIn :: "ParticipantState list \<Rightarrow> SystemStateTracker \<Rightarrow> bool" where
  "AllIn stateList t =
     list_all (\<lambda>name. case GetParticipantStatus name t of
                 None \<Rightarrow> False | Some status \<Rightarrow> st_state status \<in> set stateList)
       (t_requiredParticipants t)"

text \<open>A chain of \<^verbatim>\<open>if (ChangeToIfAllIn(...)) break;\<close> statements.\<close>

fun ChangeToFirst :: "(SystemState \<times> ParticipantState list) list \<Rightarrow> SystemStateTracker \<Rightarrow> SystemState \<Rightarrow> SystemState" where
  "ChangeToFirst [] t newSystemState = newSystemState"
| "ChangeToFirst ((systemState, stateList) # alternatives) t newSystemState =
     (if AllIn stateList t then systemState else ChangeToFirst alternatives t newSystemState)"

fun alternatives :: "ParticipantState \<Rightarrow> (SystemState \<times> ParticipantState list) list" where
  "alternatives PS_ServicesCreated =
     [(SS_ServicesCreated, [PS_ServicesCreated, PS_CommunicationInitializing,
         PS_CommunicationInitialized, PS_ReadyToRun, PS_Running])]"
| "alternatives PS_CommunicationInitializing =
     [(SS_CommunicationInitializing,
        [PS_CommunicationInitializing, PS_CommunicationInitialized, PS_ReadyToRun, PS_Running])]"
| "alternatives PS_CommunicationInitialized =
     [(SS_CommunicationInitialized, [PS_CommunicationInitialized, PS_ReadyToRun, PS_Running])]"
| "alternatives PS_ReadyToRun = [(SS_ReadyToRun, [PS_ReadyToRun, PS_Running])]"
| "alternatives PS_Running =
     [(SS_Running, [PS_Running]),
      (SS_Stopping, [PS_Running, PS_Stopping]),
      (SS_Stopped, [PS_Running, PS_Stopped]),
      (SS_ShuttingDown, [PS_Running, PS_Stopped, PS_ShuttingDown]),
      (SS_Shutdown, [PS_Running, PS_Stopped, PS_ShuttingDown, PS_Shutdown])]"
| "alternatives PS_Paused =
     [(SS_Paused, [PS_Running, PS_Paused]),
      (SS_Stopping, [PS_Running, PS_Paused, PS_Stopping]),
      (SS_Stopped, [PS_Running, PS_Paused, PS_Stopped]),
      (SS_ShuttingDown, [PS_Running, PS_Paused, PS_Stopped, PS_ShuttingDown]),
      (SS_Shutdown, [PS_Running, PS_Paused, PS_Stopped, PS_ShuttingDown, PS_Shutdown])]"
| "alternatives PS_Stopping =
     [(SS_Stopping, [PS_Running, PS_Paused, PS_Stopping, PS_Stopped, PS_ShuttingDown, PS_Shutdown])]"
| "alternatives PS_Stopped = [(SS_Stopped, [PS_Stopped, PS_ShuttingDown, PS_Shutdown])]"
| "alternatives PS_ShuttingDown =
     [(SS_ShuttingDown, [PS_Stopped, PS_ShuttingDown, PS_Shutdown, PS_Error, PS_ServicesCreated, PS_ReadyToRun])]"
| "alternatives PS_Shutdown = [(SS_Shutdown, [PS_Shutdown])]"
| "alternatives _ = []"

definition ComputeSystemState :: "ParticipantState \<Rightarrow> SystemStateTracker \<Rightarrow> SystemState" where
  "ComputeSystemState newParticipantState t =
     (let newSystemState =
        (if IsEmpty t
         then (case t_systemState t of
                 SS_Error \<Rightarrow> SS_Error | SS_Shutdown \<Rightarrow> SS_Shutdown
               | SS_ShuttingDown \<Rightarrow> SS_Shutdown | _ \<Rightarrow> SS_Invalid)
         else t_systemState t)
      in if newParticipantState = PS_Aborting then SS_Aborting
         else if newParticipantState = PS_Error then SS_Error
         else ChangeToFirst (alternatives newParticipantState) t newSystemState)"

text \<open>The three update operations with their result structures.\<close>

definition UpdateRequiredParticipants :: "string list \<Rightarrow> SystemStateTracker \<Rightarrow> bool \<times> SystemStateTracker" where
  "UpdateRequiredParticipants requiredParticipantNames t =
     (let t = t\<lparr>t_requiredParticipants := remdups requiredParticipantNames\<rparr>;
          newSystemState = ComputeSystemState (GetAnyRequiredParticipantState t) t
      in (t_systemState t \<noteq> newSystemState, t\<lparr>t_systemState := newSystemState\<rparr>))"

record UpdateParticipantStatusResult =
  participantStateChanged :: bool
  systemStateChanged :: bool

definition UpdateParticipantStatus ::
    "ParticipantStatus \<Rightarrow> SystemStateTracker \<Rightarrow>
     (tracker_error + UpdateParticipantStatusResult) \<times> SystemStateTracker" where
  "UpdateParticipantStatus newParticipantStatus t =
     (let participantName = st_participantName newParticipantStatus;
          (participantStatus, t) = GetOrCreateParticipantStatus participantName t;
          old = st_state participantStatus;
          new = st_state newParticipantStatus
      in case ValidateParticipantStateUpdate old new of
           Inl e \<Rightarrow> (Inl e, t)
         | Inr _ \<Rightarrow>
             (if old = PS_Shutdown
              then (Inr \<lparr>participantStateChanged = False, systemStateChanged = False\<rparr>, t)
              else let t = SetParticipantStatus participantName newParticipantStatus t
                   in if old \<noteq> new \<and> IsRequiredParticipant participantName t
                      then let newSystemState = ComputeSystemState new t
                           in (Inr \<lparr>participantStateChanged = True,
                                    systemStateChanged = (t_systemState t \<noteq> newSystemState)\<rparr>,
                               t\<lparr>t_systemState := newSystemState\<rparr>)
                      else (Inr \<lparr>participantStateChanged = (old \<noteq> new), systemStateChanged = False\<rparr>, t)))"

definition RemoveParticipant :: "string \<Rightarrow> SystemStateTracker \<Rightarrow> bool \<times> SystemStateTracker" where
  "RemoveParticipant participantName t =
     (if GetParticipantStatus participantName t = None then (False, t)
      else let t = t\<lparr>t_participantStatusCache := AList.delete participantName (t_participantStatusCache t)\<rparr>;
               newSystemState = ComputeSystemState (GetAnyRequiredParticipantState t) t
           in (t_systemState t \<noteq> newSystemState, t\<lparr>t_systemState := newSystemState\<rparr>))"

section \<open>What a system state says about the participants\<close>

text \<open>
  The states that the required participants may be in when the tracker enters a system state.
  \<^verbatim>\<open>Error\<close> and \<^verbatim>\<open>Aborting\<close> are entered because of a single participant.
\<close>

fun supports :: "SystemState \<Rightarrow> ParticipantState set" where
  "supports SS_ServicesCreated = {PS_ServicesCreated, PS_CommunicationInitializing,
     PS_CommunicationInitialized, PS_ReadyToRun, PS_Running}"
| "supports SS_CommunicationInitializing = {PS_CommunicationInitializing, PS_CommunicationInitialized,
     PS_ReadyToRun, PS_Running}"
| "supports SS_CommunicationInitialized = {PS_CommunicationInitialized, PS_ReadyToRun, PS_Running}"
| "supports SS_ReadyToRun = {PS_ReadyToRun, PS_Running}"
| "supports SS_Running = {PS_Running}"
| "supports SS_Paused = {PS_Running, PS_Paused}"
| "supports SS_Stopping = {PS_Running, PS_Paused, PS_Stopping, PS_Stopped, PS_ShuttingDown, PS_Shutdown}"
| "supports SS_Stopped = {PS_Running, PS_Paused, PS_Stopped, PS_ShuttingDown, PS_Shutdown}"
| "supports SS_ShuttingDown = {PS_Running, PS_Paused, PS_Stopped, PS_ShuttingDown, PS_Shutdown,
     PS_Error, PS_ServicesCreated, PS_ReadyToRun}"
| "supports SS_Shutdown = {PS_Running, PS_Paused, PS_Stopped, PS_ShuttingDown, PS_Shutdown}"
| "supports _ = {}"

definition required_in :: "ParticipantState set \<Rightarrow> SystemStateTracker \<Rightarrow> bool" where
  "required_in S t \<longleftrightarrow> (\<forall>name\<in>set (t_requiredParticipants t).
     \<exists>status. GetParticipantStatus name t = Some status \<and> st_state status \<in> S)"

lemma AllIn_iff: "AllIn stateList t \<longleftrightarrow> required_in (set stateList) t"
  by (force simp: AllIn_def required_in_def list_all_iff split: option.splits)

lemma required_in_mono: "required_in S t \<Longrightarrow> S \<subseteq> T \<Longrightarrow> required_in T t"
  by (fastforce simp: required_in_def)

lemma alternatives_supported: "(S, stateList) \<in> set (alternatives s) \<Longrightarrow> set stateList \<subseteq> supports S"
  by (cases s) auto

lemma ChangeToFirst_cases:
  "ChangeToFirst alts t S = S \<or>
     (\<exists>stateList. (ChangeToFirst alts t S, stateList) \<in> set alts \<and> AllIn stateList t)"
proof (induction alts)
  case Nil
  show ?case by simp
next
  case (Cons a alts)
  obtain S' l where a: "a = (S', l)" by force
  show ?case
  proof (cases "AllIn l t")
    case True
    then have "(ChangeToFirst (a # alts) t S, l) \<in> set (a # alts)" by (simp add: a)
    with True show ?thesis by blast
  next
    case False
    then have "ChangeToFirst (a # alts) t S = ChangeToFirst alts t S" by (simp add: a)
    with Cons show ?thesis by (metis list.set_intros(2))
  qed
qed

lemma ComputeSystemState_sound:
  assumes "\<not> IsEmpty t" "ComputeSystemState s t \<noteq> t_systemState t"
  shows "ComputeSystemState s t = SS_Aborting \<and> s = PS_Aborting \<or>
     ComputeSystemState s t = SS_Error \<and> s = PS_Error \<or>
     required_in (supports (ComputeSystemState s t)) t"
proof (cases "s = PS_Aborting \<or> s = PS_Error")
  case True
  then show ?thesis by (auto simp: ComputeSystemState_def)
next
  case False
  then have "ComputeSystemState s t = ChangeToFirst (alternatives s) t (t_systemState t)"
    using assms(1) by (simp add: ComputeSystemState_def)
  then show ?thesis
    using assms(2) ChangeToFirst_cases[of "alternatives s" t "t_systemState t"]
    by (metis AllIn_iff alternatives_supported required_in_mono)
qed

text \<open>The other direction: when the required participants agree, so does the system.\<close>

fun common_state :: "ParticipantState \<Rightarrow> SystemState" where
  "common_state PS_ServicesCreated = SS_ServicesCreated"
| "common_state PS_CommunicationInitializing = SS_CommunicationInitializing"
| "common_state PS_CommunicationInitialized = SS_CommunicationInitialized"
| "common_state PS_ReadyToRun = SS_ReadyToRun"
| "common_state PS_Running = SS_Running"
| "common_state PS_Paused = SS_Paused"
| "common_state PS_Stopping = SS_Stopping"
| "common_state PS_Stopped = SS_Stopped"
| "common_state PS_Error = SS_Error"
| "common_state PS_ShuttingDown = SS_ShuttingDown"
| "common_state PS_Shutdown = SS_Shutdown"
| "common_state PS_Aborting = SS_Aborting"
| "common_state _ = SS_Invalid"

lemma ComputeSystemState_uniform:
  assumes "required_in {s} t" "s \<in> set enumerators" "s \<noteq> PS_Invalid"
  shows "ComputeSystemState s t = common_state s"
proof -
  have "AllIn l t" if "s \<in> set l" for l
    using assms(1) that by (auto simp: AllIn_iff intro: required_in_mono)
  then show ?thesis
    using assms(2,3) by (cases s) (simp_all add: ComputeSystemState_def enumerators_def)
qed

section \<open>Updates\<close>

lemma GetParticipantStatus_Set [simp]:
  "GetParticipantStatus name (SetParticipantStatus name' status t) =
     (if name = name' then Some status else GetParticipantStatus name t)"
  by (simp add: GetParticipantStatus_def SetParticipantStatus_def update_conv')

lemma Set_simps [simp]:
  "t_systemState (SetParticipantStatus name status t) = t_systemState t"
  "t_requiredParticipants (SetParticipantStatus name status t) = t_requiredParticipants t"
  "\<not> IsEmpty (SetParticipantStatus name status t)"
  by (auto simp: SetParticipantStatus_def IsEmpty_def update_nonempty)

lemma IsRequired_Set [simp]:
  "IsRequiredParticipant n (SetParticipantStatus name status t) = IsRequiredParticipant n t"
  by (simp add: IsRequiredParticipant_def)

lemma GetParticipantStatus_systemState [simp]:
  "GetParticipantStatus name (t\<lparr>t_systemState := S\<rparr>) = GetParticipantStatus name t"
  by (simp add: GetParticipantStatus_def)

lemma required_in_systemState [simp]: "required_in P (t\<lparr>t_systemState := S\<rparr>) = required_in P t"
  by (simp add: required_in_def)

lemma Set_Set: "SetParticipantStatus name a (SetParticipantStatus name b t) = SetParticipantStatus name a t"
  by (simp add: SetParticipantStatus_def)

text \<open>The state the tracker has on record; a participant it does not know counts as invalid.\<close>

definition state_of :: "string \<Rightarrow> SystemStateTracker \<Rightarrow> ParticipantState" where
  "state_of name t = (case GetParticipantStatus name t of None \<Rightarrow> PS_Invalid | Some status \<Rightarrow> st_state status)"

text \<open>An update in one equation: the states that cannot be announced, the terminal state, the rest.\<close>

lemma UpdateParticipantStatus_eq:
  fixes st t
  defines "name \<equiv> st_participantName st" and "new \<equiv> st_state st"
  defines "old \<equiv> state_of name t"
  defines "t' \<equiv> SetParticipantStatus name st t"
  shows "UpdateParticipantStatus st t =
     (if new = PS_Invalid \<or> (\<exists>w. new = PS_Other w)
      then (Inl (AssertionError new), snd (GetOrCreateParticipantStatus name t))
      else if old = PS_Shutdown
      then (Inr \<lparr>participantStateChanged = False, systemStateChanged = False\<rparr>, t)
      else if old \<noteq> new \<and> IsRequiredParticipant name t
      then (Inr \<lparr>participantStateChanged = True,
              systemStateChanged = (t_systemState t \<noteq> ComputeSystemState new t')\<rparr>,
            t'\<lparr>t_systemState := ComputeSystemState new t'\<rparr>)
      else (Inr \<lparr>participantStateChanged = (old \<noteq> new), systemStateChanged = False\<rparr>, t'))"
proof (cases "new = PS_Invalid \<or> (\<exists>w. new = PS_Other w)")
  case True
  then have "ValidateParticipantStateUpdate x new = Inl (AssertionError new)" for x
    by (cases new) auto
  then show ?thesis
    using True by (simp add: UpdateParticipantStatus_def Let_def split_beta flip: name_def new_def)
next
  case False
  then have "\<exists>b. ValidateParticipantStateUpdate old new = Inr b" by (cases new) auto
  then obtain b where b: "ValidateParticipantStateUpdate old new = Inr b" ..
  show ?thesis
  proof (cases "GetParticipantStatus name t")
    case None
    with False b show ?thesis
      by (simp add: UpdateParticipantStatus_def Let_def GetOrCreateParticipantStatus_def
          default_ParticipantStatus_def old_def state_of_def t'_def Set_Set flip: name_def new_def)
  next
    case (Some status)
    with False b show ?thesis
      by (simp add: UpdateParticipantStatus_def Let_def GetOrCreateParticipantStatus_def
          old_def state_of_def t'_def flip: name_def new_def)
  qed
qed


section \<open>Start-up\<close>

text \<open>
  During start-up every participant walks through the states below, one after the other, while the
  others do the same at their own pace. In every interleaving the system is in the state of the
  slowest required participant.
\<close>

definition startup_states :: "ParticipantState list" where
  "startup_states = [PS_Invalid, PS_ServicesCreated, PS_CommunicationInitializing,
     PS_CommunicationInitialized, PS_ReadyToRun, PS_Running]"

fun level :: "ParticipantState \<Rightarrow> nat" where
  "level PS_ServicesCreated = 1"
| "level PS_CommunicationInitializing = 2"
| "level PS_CommunicationInitialized = 3"
| "level PS_ReadyToRun = 4"
| "level PS_Running = 5"
| "level _ = 0"

definition slowest :: "SystemStateTracker \<Rightarrow> nat" where
  "slowest t = Min ((\<lambda>n. level (state_of n t)) ` set (t_requiredParticipants t))"

text \<open>One announcement of the start-up: a required participant announces the successor of its state.\<close>

definition startup_step :: "ParticipantStatus \<Rightarrow> SystemStateTracker \<Rightarrow> bool" where
  "startup_step st t \<longleftrightarrow> st_state st \<notin> {PS_Invalid} \<and> st_state st \<in> set startup_states \<and>
     (IsRequiredParticipant (st_participantName st) t \<longrightarrow>
        level (st_state st) = level (state_of (st_participantName st) t) + 1)"

fun startup_run :: "ParticipantStatus list \<Rightarrow> SystemStateTracker \<Rightarrow> bool" where
  "startup_run [] t = True"
| "startup_run (st # sts) t = (startup_step st t \<and> startup_run sts (snd (UpdateParticipantStatus st t)))"

definition updates :: "ParticipantStatus list \<Rightarrow> SystemStateTracker \<Rightarrow> SystemStateTracker" where
  "updates sts t = fold (\<lambda>st t. snd (UpdateParticipantStatus st t)) sts t"

definition startup_inv :: "SystemStateTracker \<Rightarrow> bool" where
  "startup_inv t \<longleftrightarrow> t_requiredParticipants t \<noteq> [] \<and>
     (\<forall>n\<in>set (t_requiredParticipants t). state_of n t \<in> set startup_states) \<and>
     t_systemState t = common_state (startup_states ! slowest t)"

lemma startup_states_level: "s \<in> set startup_states \<Longrightarrow> startup_states ! level s = s"
  by (auto simp: startup_states_def)

lemma level_alternatives:
  assumes "s \<in> set startup_states" "s \<noteq> PS_Invalid" "\<forall>n\<in>set (t_requiredParticipants t). state_of n t \<in> set startup_states"
  shows "ChangeToFirst (alternatives s) t S =
    (if \<forall>n\<in>set (t_requiredParticipants t). level s \<le> level (state_of n t) then common_state s else S)"
proof -
  have iff: "AllIn l t \<longleftrightarrow> (\<forall>n\<in>set (t_requiredParticipants t). state_of n t \<in> set l)" if "PS_Invalid \<notin> set l" for l
    using that by (force simp: AllIn_iff required_in_def state_of_def split: option.splits)
  have "AllIn (PS_Running # l) t \<longleftrightarrow> AllIn [PS_Running] t" if "l \<noteq> []" "set l \<inter> set startup_states = {}" for l
  proof -
    have "PS_Invalid \<notin> set l" using that(2) by (auto simp: startup_states_def)
    then show ?thesis using that(2) assms(3) by (auto simp: iff)
  qed
  note late = this[unfolded startup_states_def]
  have first: "AllIn (snd (hd (alternatives s))) t \<longleftrightarrow>
    (\<forall>n\<in>set (t_requiredParticipants t). level s \<le> level (state_of n t))"
  proof -
    have "x \<in> set (snd (hd (alternatives s))) \<longleftrightarrow> level s \<le> level x" if "x \<in> set startup_states" for x
      using that assms(1,2) by (auto simp: startup_states_def)
    moreover have "PS_Invalid \<notin> set (snd (hd (alternatives s)))"
      using assms(1,2) by (auto simp: startup_states_def)
    ultimately show ?thesis using assms(3) by (simp add: iff)
  qed
  show ?thesis
  proof (cases "s = PS_Running")
    case True
    then show ?thesis using first by (simp add: late)
  next
    case False
    then have "alternatives s = [(common_state s, snd (hd (alternatives s)))]"
      using assms(1,2) by (auto simp: startup_states_def)
    then have "ChangeToFirst (alternatives s) t S =
      (if AllIn (snd (hd (alternatives s))) t then common_state s else S)"
      by (metis ChangeToFirst.simps)
    with first show ?thesis by simp
  qed
qed

lemma state_of_update:
  assumes "st_state st \<notin> {PS_Invalid}" "\<nexists>w. st_state st = PS_Other w" "state_of (st_participantName st) t \<noteq> PS_Shutdown"
  shows "state_of n (snd (UpdateParticipantStatus st t)) =
      (if n = st_participantName st then st_state st else state_of n t)"
    and "t_requiredParticipants (snd (UpdateParticipantStatus st t)) = t_requiredParticipants t"
  using assms by (auto simp: UpdateParticipantStatus_eq state_of_def)

lemma slowest_le: "n \<in> set (t_requiredParticipants t) \<Longrightarrow> slowest t \<le> level (state_of n t)"
  by (simp add: slowest_def)

lemma slowest_attained:
  assumes "t_requiredParticipants t \<noteq> []"
  obtains n where "n \<in> set (t_requiredParticipants t)" "level (state_of n t) = slowest t"
proof -
  have "slowest t \<in> (\<lambda>n. level (state_of n t)) ` set (t_requiredParticipants t)"
    unfolding slowest_def using assms by (intro Min_in) auto
  then show thesis using that by auto
qed


lemma slowest_eqI:
  assumes "n \<in> set (t_requiredParticipants t)" "level (state_of n t) = k"
    "\<And>n. n \<in> set (t_requiredParticipants t) \<Longrightarrow> k \<le> level (state_of n t)"
  shows "slowest t = k"
  unfolding slowest_def using assms by (intro Min_eqI) auto

lemma startup_inv_step_other:
  assumes "startup_inv t" "startup_step st t" "\<not> IsRequiredParticipant (st_participantName st) t"
  shows "startup_inv (snd (UpdateParticipantStatus st t))"
proof -
  define t' where "t' = snd (UpdateParticipantStatus st t)"
  have "st_state st \<noteq> PS_Invalid" "\<nexists>w. st_state st = PS_Other w"
    using assms(2) by (auto simp: startup_step_def startup_states_def)
  then have t': "t_requiredParticipants t' = t_requiredParticipants t" "t_systemState t' = t_systemState t"
    "n \<noteq> st_participantName st \<Longrightarrow> state_of n t' = state_of n t" for n
    using assms(3) by (auto simp: t'_def UpdateParticipantStatus_eq state_of_def)
  have same: "state_of n t' = state_of n t" if "n \<in> set (t_requiredParticipants t)" for n
    using that assms(3) by (intro t'(3)) (auto simp: IsRequiredParticipant_def)
  then have "slowest t' = slowest t" by (simp add: slowest_def t'(1) cong: image_cong)
  then show ?thesis using assms(1) same t' by (simp add: startup_inv_def flip: t'_def)
qed

lemma startup_inv_step_required:
  assumes inv: "startup_inv t" and st: "startup_step st t" and req: "IsRequiredParticipant (st_participantName st) t"
  shows "startup_inv (snd (UpdateParticipantStatus st t))"
proof -
  define name new old where "name = st_participantName st" and "new = st_state st"
    and "old = state_of name t"
  define u where "u = SetParticipantStatus name st t"
  have name: "name \<in> set (t_requiredParticipants t)" using req by (simp add: IsRequiredParticipant_def name_def)
  have new: "new \<in> set startup_states" "new \<noteq> PS_Invalid" "level new = level old + 1"
    using st req by (auto simp: startup_step_def name_def new_def old_def)
  have old: "old \<in> set startup_states" using inv name by (simp add: startup_inv_def old_def)
  have u: "state_of k u = (if k = name then new else state_of k t)" for k
    by (simp add: u_def state_of_def new_def)
  have req_u: "t_requiredParticipants u = t_requiredParticipants t" by (simp add: u_def)
  have u_startup: "\<forall>k\<in>set (t_requiredParticipants u). state_of k u \<in> set startup_states"
    using inv new(1) by (auto simp: startup_inv_def u req_u)
  have sys: "ComputeSystemState new u = (if \<forall>k\<in>set (t_requiredParticipants u). level new \<le> level (state_of k u)
      then common_state new else t_systemState t)"
    using level_alternatives[OF new(1,2) u_startup] new(1)
    by (auto simp: ComputeSystemState_def u_def startup_states_def)
  have t': "snd (UpdateParticipantStatus st t) = u\<lparr>t_systemState := ComputeSystemState new u\<rparr>"
  proof -
    have "new \<noteq> PS_Invalid \<and> (\<nexists>w. new = PS_Other w)" "old \<noteq> PS_Shutdown" "old \<noteq> new"
      using new old by (auto simp: startup_states_def)
    then show ?thesis using req
      by (simp add: UpdateParticipantStatus_eq u_def name_def new_def old_def)
  qed
  have slow: "slowest (u\<lparr>t_systemState := S\<rparr>) = slowest u" for S
    by (simp add: slowest_def state_of_def)
  have "ComputeSystemState new u = common_state (startup_states ! slowest u)"
  proof (cases "\<forall>k\<in>set (t_requiredParticipants u). level new \<le> level (state_of k u)")
    case True
    then have "slowest u = level new"
      by (intro slowest_eqI[of name]) (auto simp: req_u name u)
    then show ?thesis using True sys new(1) by (simp add: startup_states_level)
  next
    case False
    then obtain k where k: "k \<in> set (t_requiredParticipants t)" "k \<noteq> name" "level (state_of k t) \<le> level old"
      using new(3) by (auto simp: u req_u split: if_splits)
    obtain j where j: "j \<in> set (t_requiredParticipants t)" "level (state_of j t) = slowest t"
      using inv slowest_attained by (auto simp: startup_inv_def)
    define i where "i = (if j = name then k else j)"
    have i: "i \<in> set (t_requiredParticipants t)" "i \<noteq> name" "level (state_of i t) = slowest t"
      using j k slowest_le[OF k(1)] by (auto simp: i_def old_def)
    have "slowest u = slowest t"
    proof (rule slowest_eqI)
      show "i \<in> set (t_requiredParticipants u)" "level (state_of i u) = slowest t" using i by (auto simp: req_u u)
      show "slowest t \<le> level (state_of n u)" if "n \<in> set (t_requiredParticipants u)" for n
        using slowest_le[of n t] that new(3) by (auto simp: u req_u old_def)
    qed
    moreover have "ComputeSystemState new u = t_systemState t" using False sys by (simp only: if_False)
    ultimately show ?thesis using inv by (simp add: startup_inv_def)
  qed
  then show ?thesis
    using inv u_startup by (simp add: t' startup_inv_def slow req_u state_of_def)
qed

lemma startup_inv_updates:
  "startup_inv t \<Longrightarrow> startup_run sts t \<Longrightarrow> startup_inv (updates sts t)"
proof (induction sts arbitrary: t)
  case Nil
  then show ?case by (simp add: updates_def)
next
  case (Cons st sts)
  then have "startup_inv (snd (UpdateParticipantStatus st t))"
    using startup_inv_step_other startup_inv_step_required by (cases "IsRequiredParticipant (st_participantName st) t") auto
  with Cons show ?case by (simp add: updates_def)
qed

lemma startup_inv_initial:
  assumes "names \<noteq> []"
  shows "startup_inv (snd (UpdateRequiredParticipants names SystemStateTracker_new))"
proof -
  obtain n where n: "n \<in> set names" using assms by (cases names) auto
  have inv: "state_of k (snd (UpdateRequiredParticipants names SystemStateTracker_new)) = PS_Invalid" for k
    by (simp add: UpdateRequiredParticipants_def SystemStateTracker_new_def state_of_def GetParticipantStatus_def Let_def)
  have req: "set (t_requiredParticipants (snd (UpdateRequiredParticipants names SystemStateTracker_new))) = set names"
    by (simp add: UpdateRequiredParticipants_def SystemStateTracker_new_def Let_def)
  have "slowest (snd (UpdateRequiredParticipants names SystemStateTracker_new)) = 0"
    by (rule slowest_eqI[of n]) (simp_all add: inv req n)
  moreover have "t_systemState (snd (UpdateRequiredParticipants names SystemStateTracker_new)) = SS_Invalid"
    by (simp add: UpdateRequiredParticipants_def SystemStateTracker_new_def Let_def ComputeSystemState_def
        GetAnyRequiredParticipantState_def GetParticipantStatus_def IsEmpty_def split: list.split)
  moreover have "t_requiredParticipants (snd (UpdateRequiredParticipants names SystemStateTracker_new)) \<noteq> []"
    using n req by (metis empty_iff list.set(1))
  ultimately show ?thesis by (simp add: startup_inv_def inv startup_states_def)
qed

section \<open>Properties of the tracker\<close>

text \<open>
  C15. During start-up, for every set of required participants and every interleaving of their
  announcements (and those of other participants), the system state is the state of the slowest
  required participant. So a participant that waits for a system state waits for all of them.
\<close>

theorem startup_system_state:
  assumes "names \<noteq> []" "startup_run sts (snd (UpdateRequiredParticipants names SystemStateTracker_new))"
  shows "t_systemState (updates sts (snd (UpdateRequiredParticipants names SystemStateTracker_new))) =
     common_state (startup_states ! slowest (updates sts (snd (UpdateRequiredParticipants names SystemStateTracker_new))))"
  using startup_inv_updates[OF startup_inv_initial[OF assms(1)] assms(2)] by (simp add: startup_inv_def)

definition sample_status :: "string \<Rightarrow> ParticipantState \<Rightarrow> ParticipantStatus" where
  "sample_status name s =
     \<lparr>st_participantName = name, st_state = s, st_enterReason = [], st_enterTime = 1, st_refreshTime = 1\<rparr>"

definition sample_tracker :: SystemStateTracker where
  "sample_tracker = snd (UpdateRequiredParticipants [''A'', ''B''] SystemStateTracker_new)"

definition sample_startup :: "ParticipantStatus list" where
  "sample_startup = [sample_status ''A'' PS_ServicesCreated, sample_status ''C'' PS_Running,
     sample_status ''B'' PS_ServicesCreated, sample_status ''A'' PS_CommunicationInitializing]"

theorem startup_system_state_witness:
  "startup_run sample_startup sample_tracker \<and>
   t_systemState (updates sample_startup sample_tracker) = SS_ServicesCreated"
proof -
  have run: "startup_run sample_startup sample_tracker" by code_simp
  moreover have "slowest (updates sample_startup sample_tracker) = 1" by code_simp
  ultimately show ?thesis
    using startup_system_state[of "[''A'', ''B'']" sample_startup]
    by (simp add: startup_states_def flip: sample_tracker_def)
qed

text \<open>The three operations that may change the system state.\<close>

datatype tracker_operation = TrackStatus ParticipantStatus | TrackRemoval string | TrackRequired "string list"

fun track :: "tracker_operation \<Rightarrow> SystemStateTracker \<Rightarrow> SystemStateTracker" where
  "track (TrackStatus st) t = snd (UpdateParticipantStatus st t)"
| "track (TrackRemoval name) t = snd (RemoveParticipant name t)"
| "track (TrackRequired names) t = snd (UpdateRequiredParticipants names t)"

lemma reached_by_some:
  assumes "AllIn l t" "\<not> AllIn l' t"
  shows "\<exists>name\<in>set (t_requiredParticipants t). state_of name t \<in> set l - set l'"
proof -
  obtain name where n: "name \<in> set (t_requiredParticipants t)"
    "\<not> (case GetParticipantStatus name t of None \<Rightarrow> False | Some status \<Rightarrow> st_state status \<in> set l')"
    using assms(2) by (auto simp: AllIn_def list_all_iff)
  have "case GetParticipantStatus name t of None \<Rightarrow> False | Some status \<Rightarrow> st_state status \<in> set l"
    using assms(1) n(1) by (simp add: AllIn_def list_all_iff)
  then have "state_of name t \<in> set l - set l'" using n(2) by (simp add: state_of_def split: option.splits)
  then show ?thesis using n(1) by blast
qed

text \<open>Alternatives that add one state each.\<close>

fun stepwise :: "ParticipantState list \<Rightarrow> (SystemState \<times> ParticipantState list) list \<Rightarrow> bool" where
  "stepwise l [] \<longleftrightarrow> True"
| "stepwise l ((S, l') # alts) \<longleftrightarrow> (\<forall>x\<in>set l' - set l. common_state x = S) \<and> stepwise l' alts"

lemma stepwise_reached:
  assumes "stepwise l alts" "\<not> AllIn l t" "ChangeToFirst alts t S \<noteq> S"
  shows "\<exists>name\<in>set (t_requiredParticipants t). common_state (state_of name t) = ChangeToFirst alts t S"
  using assms
proof (induction l alts rule: stepwise.induct)
  case (2 l S' l' alts)
  then show ?case using reached_by_some[of l' t l] by (cases "AllIn l' t") auto
qed simp

lemma computed_state_of_some:
  assumes "\<not> IsEmpty t" "ComputeSystemState s t \<noteq> t_systemState t" "name \<in> set (t_requiredParticipants t)" "state_of name t = s"
  shows "\<exists>name\<in>set (t_requiredParticipants t). common_state (state_of name t) = ComputeSystemState s t"
proof -
  let ?some = "\<lambda>S. \<exists>name\<in>set (t_requiredParticipants t). common_state (state_of name t) = S"
  have self: "?some (common_state s)" using assms(3,4) by blast
  have c: "ComputeSystemState s t = (if s = PS_Aborting then SS_Aborting else if s = PS_Error then SS_Error
      else ChangeToFirst (alternatives s) t (t_systemState t))"
    using assms(1) by (simp add: ComputeSystemState_def)
  consider "s \<in> {PS_Running, PS_Paused}" | "s \<notin> {PS_Running, PS_Paused}" by blast
  then show ?thesis
  proof cases
    case 1
    then have alts: "alternatives s = (common_state s, snd (hd (alternatives s))) # tl (alternatives s)"
      "stepwise (snd (hd (alternatives s))) (tl (alternatives s))" by auto
    have "ComputeSystemState s t = (if AllIn (snd (hd (alternatives s))) t then common_state s
        else ChangeToFirst (tl (alternatives s)) t (t_systemState t))"
      unfolding c using 1 by (subst alts(1)) auto
    then show ?thesis using self stepwise_reached[OF alts(2), of t "t_systemState t"] assms(2)
      by (cases "AllIn (snd (hd (alternatives s))) t") simp_all
  next
    case 2
    then have "ComputeSystemState s t = common_state s" using assms(2) unfolding c by (cases s) (auto split: if_splits)
    then show ?thesis using self by simp
  qed
qed

text \<open>What a new system state says about the required participants.\<close>

definition truthful :: "SystemState \<Rightarrow> SystemStateTracker \<Rightarrow> bool" where
  "truthful S t \<longleftrightarrow> (\<exists>name\<in>set (t_requiredParticipants t). common_state (state_of name t) = S) \<and>
     (S \<notin> {SS_Error, SS_Aborting} \<longrightarrow> required_in (supports S) t)"

lemma computed_truthful:
  assumes "\<not> IsEmpty t" "ComputeSystemState s t \<noteq> t_systemState t" "name \<in> set (t_requiredParticipants t)" "state_of name t = s"
  shows "truthful (ComputeSystemState s t) (t\<lparr>t_systemState := S\<rparr>)"
  using computed_state_of_some[OF assms] ComputeSystemState_sound[OF assms(1,2)] by (auto simp: truthful_def state_of_def)

text \<open>Removals and a new set of required participants look at the state of one required participant.\<close>

lemma recomputed_truthful:
  fixes t S
  defines "S' \<equiv> ComputeSystemState (GetAnyRequiredParticipantState t) t"
  assumes "S' \<noteq> t_systemState t"
  shows "truthful S' (t\<lparr>t_systemState := S\<rparr>) \<or>
    IsEmpty t \<and> S' = (if t_systemState t = SS_ShuttingDown then SS_Shutdown else SS_Invalid)"
proof (cases "IsEmpty t \<or> t_requiredParticipants t = []")
  case True
  then have "GetAnyRequiredParticipantState t = PS_Invalid"
    by (auto simp: GetAnyRequiredParticipantState_def GetParticipantStatus_def IsEmpty_def split: list.split)
  then have "S' = (if IsEmpty t then (case t_systemState t of SS_Error \<Rightarrow> SS_Error | SS_Shutdown \<Rightarrow> SS_Shutdown
      | SS_ShuttingDown \<Rightarrow> SS_Shutdown | _ \<Rightarrow> SS_Invalid) else t_systemState t)"
    by (simp add: S'_def ComputeSystemState_def Let_def)
  then show ?thesis using assms(2) by (cases "IsEmpty t"; cases "t_systemState t") simp_all
next
  case False
  then obtain n ns where "t_requiredParticipants t = n # ns" by (cases "t_requiredParticipants t") auto
  then have "n \<in> set (t_requiredParticipants t)" "state_of n t = GetAnyRequiredParticipantState t"
    by (simp_all add: GetAnyRequiredParticipantState_def state_of_def)
  then show ?thesis using computed_truthful[of t "GetAnyRequiredParticipantState t" n S] False assms by simp
qed

text \<open>
  C28. Whenever an announcement of a participant, the removal of a participant or a new set of required participants changes the
  system state, the new system state tells the truth about the required participants: one of them is in the corresponding
  state, and, except for error and abort, which one participant causes, each of them has reported a state that supports it. The only
  other change is the one to shutdown or invalid when no participant is known any more.
\<close>

theorem system_state_sound:
  assumes "t' = track op t" "t_systemState t' \<noteq> t_systemState t"
  shows "truthful (t_systemState t') t' \<or>
     IsEmpty t' \<and> t_systemState t' = (if t_systemState t = SS_ShuttingDown then SS_Shutdown else SS_Invalid)"
proof (cases op)
  case (TrackStatus st)
  let ?u = "SetParticipantStatus (st_participantName st) st t" and ?n = "st_participantName st"
  have get: "t_systemState (snd (GetOrCreateParticipantStatus n t)) = t_systemState t" for n
    by (simp add: GetOrCreateParticipantStatus_def split: option.split)
  have t': "t' = ?u\<lparr>t_systemState := ComputeSystemState (st_state st) ?u\<rparr>" "IsRequiredParticipant ?n t"
    using assms get by (auto simp: TrackStatus UpdateParticipantStatus_eq split: if_splits)
  moreover have "?n \<in> set (t_requiredParticipants ?u)" "state_of ?n ?u = st_state st"
    using t'(2) by (simp_all add: IsRequiredParticipant_def state_of_def)
  ultimately show ?thesis using assms(2) computed_truthful[of ?u "st_state st" ?n] by auto
next
  case (TrackRemoval name)
  let ?u = "t\<lparr>t_participantStatusCache := AList.delete name (t_participantStatusCache t)\<rparr>"
  have "t' = ?u\<lparr>t_systemState := ComputeSystemState (GetAnyRequiredParticipantState ?u) ?u\<rparr>"
    using assms by (auto simp: TrackRemoval RemoveParticipant_def Let_def split: if_splits)
  then show ?thesis using assms(2) recomputed_truthful[of ?u] by (auto simp: IsEmpty_def)
next
  case (TrackRequired names)
  let ?u = "t\<lparr>t_requiredParticipants := remdups names\<rparr>"
  have "t' = ?u\<lparr>t_systemState := ComputeSystemState (GetAnyRequiredParticipantState ?u) ?u\<rparr>"
    using assms by (simp add: TrackRequired UpdateRequiredParticipants_def Let_def)
  then show ?thesis using assms(2) recomputed_truthful[of ?u] by (auto simp: IsEmpty_def)
qed

theorem system_state_sound_witness:
  "t_systemState (track (TrackStatus (sample_status ''B'' PS_ServicesCreated))
       (updates [sample_status ''A'' PS_ServicesCreated] sample_tracker)) = SS_ServicesCreated \<and>
   truthful SS_ServicesCreated (track (TrackStatus (sample_status ''B'' PS_ServicesCreated))
       (updates [sample_status ''A'' PS_ServicesCreated] sample_tracker))"
proof -
  let ?t = "updates [sample_status ''A'' PS_ServicesCreated] sample_tracker"
  let ?t' = "track (TrackStatus (sample_status ''B'' PS_ServicesCreated)) ?t"
  have r: "t_systemState ?t = SS_Invalid" "t_systemState ?t' = SS_ServicesCreated" by code_simp+
  then have "t_systemState ?t' \<noteq> t_systemState ?t" by simp
  from system_state_sound[OF refl this] r show ?thesis by simp
qed

text \<open>
  When a required participant announces a new state in which all other required participants
  already are, the system enters the corresponding state.
\<close>

theorem agreement_reaches_system_state:
  assumes "IsRequiredParticipant (st_participantName st) t" "st_state st \<in> set enumerators"
    and "st_state st \<noteq> PS_Invalid" "state_of (st_participantName st) t \<notin> {PS_Shutdown, st_state st}"
    and "\<forall>name\<in>set (t_requiredParticipants t) - {st_participantName st}. state_of name t = st_state st"
  shows "t_systemState (snd (UpdateParticipantStatus st t)) = common_state (st_state st)"
proof -
  let ?u = "SetParticipantStatus (st_participantName st) st t"
  have "required_in {st_state st} ?u"
    using assms(3,5) by (auto simp: required_in_def state_of_def split: option.splits)
  moreover have "\<nexists>w. st_state st = PS_Other w" using assms(2) by (auto simp: enumerators_def)
  ultimately show ?thesis
    using assms by (auto simp: UpdateParticipantStatus_eq ComputeSystemState_uniform)
qed

theorem agreement_reaches_system_state_witness:
  "t_systemState (snd (UpdateParticipantStatus (sample_status ''B'' PS_ServicesCreated)
     (updates [sample_status ''A'' PS_ServicesCreated] sample_tracker))) = SS_ServicesCreated"
proof -
  let ?t = "updates [sample_status ''A'' PS_ServicesCreated] sample_tracker"
  have "t_requiredParticipants ?t = [''A'', ''B'']" "state_of ''A'' ?t = PS_ServicesCreated"
      "state_of ''B'' ?t = PS_Invalid" by code_simp+
  then show ?thesis
    using agreement_reaches_system_state[of "sample_status ''B'' PS_ServicesCreated" ?t]
    by (auto simp: sample_status_def IsRequiredParticipant_def enumerators_def)
qed

text \<open>
  The state \<^verbatim>\<open>Shutdown\<close> is final: later announcements of a participant that shut down change
  neither its recorded status nor the system state, and are reported as no change.
\<close>

theorem shutdown_is_final:
  assumes "state_of (st_participantName st) t = PS_Shutdown" "st_state st \<in> set enumerators" "st_state st \<noteq> PS_Invalid"
  shows "UpdateParticipantStatus st t =
     (Inr \<lparr>participantStateChanged = False, systemStateChanged = False\<rparr>, t)"
  using assms by (auto simp: UpdateParticipantStatus_eq enumerators_def)

theorem shutdown_is_final_witness:
  "state_of ''A'' (updates [sample_status ''A'' PS_Shutdown] sample_tracker) = PS_Shutdown \<and>
   UpdateParticipantStatus (sample_status ''A'' PS_Running) (updates [sample_status ''A'' PS_Shutdown] sample_tracker) =
     (Inr \<lparr>participantStateChanged = False, systemStateChanged = False\<rparr>,
      updates [sample_status ''A'' PS_Shutdown] sample_tracker)"
proof -
  have "state_of ''A'' (updates [sample_status ''A'' PS_Shutdown] sample_tracker) = PS_Shutdown" by code_simp
  with shutdown_is_final[of "sample_status ''A'' PS_Running" "updates [sample_status ''A'' PS_Shutdown] sample_tracker"]
  show ?thesis by (simp add: sample_status_def enumerators_def)
qed

text \<open>
  An announcement of the state \<^verbatim>\<open>Invalid\<close>, or of a number that is no enumerator, throws an
  assertion error; by then an entry for a participant that was unknown has been created.
\<close>

theorem invalid_announcement_throws:
  assumes "st_state st = PS_Invalid \<or> (\<exists>w. st_state st = PS_Other w)"
  shows "fst (UpdateParticipantStatus st t) = Inl (AssertionError (st_state st)) \<and>
     GetParticipantStatus (st_participantName st) (snd (UpdateParticipantStatus st t)) \<noteq> None \<and>
     t_systemState (snd (UpdateParticipantStatus st t)) = t_systemState t"
  using assms
  by (auto simp: UpdateParticipantStatus_eq GetOrCreateParticipantStatus_def split: option.splits)

theorem invalid_announcement_throws_witness:
  "fst (UpdateParticipantStatus (sample_status ''C'' PS_Invalid) sample_tracker) = Inl (AssertionError PS_Invalid)"
  using invalid_announcement_throws[of "sample_status ''C'' PS_Invalid" sample_tracker]
  by (simp add: sample_status_def)

end
