(* ===== verification/System_Monitor.thy ===== *)
theory System_Monitor
  imports System_State Service_Messages
begin

text \<open>
  \<^verbatim>\<open>SystemMonitor\<close> (services/orchestration/SystemMonitor.cpp): the component that owns the tracker
  of System_State, receives the status messages of the other participants and calls the handlers
  of the application and of the lifecycle service. A handler is a number that stands for the
  callable; the calls are recorded, in order, in the field \<open>m_calls\<close>. Handlers do not call back
  into the monitor here. The lifecycle service receives the workflow configuration as a call.
\<close>

section \<open>State and operations\<close>

record ParticipantConnectionInformation =
  ci_participantName :: string

datatype monitor_call =
    SystemStateCall nat SystemState
  | ParticipantStatusCall nat ParticipantStatus
  | ParticipantConnectedCall nat ParticipantConnectionInformation
  | ParticipantDisconnectedCall nat ParticipantConnectionInformation
  | SetWorkflowConfigurationCall WorkflowConfiguration

record SystemMonitor =
  m_systemStateTracker :: SystemStateTracker
  m_invalidTransitionCount :: nat
  m_participantStatusHandlers :: "nat Handlers"
  m_systemStateHandlers :: "nat Handlers"
  m_participantConnectedHandler :: "nat option"
  m_participantDisconnectedHandler :: "nat option"
  m_connectedParticipants :: "(string \<times> ParticipantConnectionInformation) list"
  m_calls :: "monitor_call list"

definition SystemMonitor_new :: SystemMonitor where
  "SystemMonitor_new =
     \<lparr>m_systemStateTracker = SystemStateTracker_new, m_invalidTransitionCount = 0,
      m_participantStatusHandlers = Handlers_empty, m_systemStateHandlers = Handlers_empty,
      m_participantConnectedHandler = None, m_participantDisconnectedHandler = None,
      m_connectedParticipants = [], m_calls = []\<rparr>"

definition called :: "monitor_call list \<Rightarrow> SystemMonitor \<Rightarrow> SystemMonitor" where
  "called cs m = m\<lparr>m_calls := m_calls m @ cs\<rparr>"

definition monitor_SystemState :: "SystemMonitor \<Rightarrow> SystemState" where
  "monitor_SystemState m = GetSystemState (m_systemStateTracker m)"

datatype monitor_error = UnknownParticipantName | TrackerError tracker_error

definition monitor_ParticipantStatus :: "string \<Rightarrow> SystemMonitor \<Rightarrow> monitor_error + ParticipantStatus" where
  "monitor_ParticipantStatus participantName m =
     (case GetParticipantStatus participantName (m_systemStateTracker m) of
        None \<Rightarrow> Inl UnknownParticipantName | Some status \<Rightarrow> Inr status)"

text \<open>\<^verbatim>\<open>_systemStateHandlers.InvokeAll(SystemState())\<close>, guarded by the flag of an update.\<close>

definition notify_system_state :: "bool \<Rightarrow> SystemMonitor \<Rightarrow> SystemMonitor" where
  "notify_system_state changed m =
     (if changed
      then called (map (\<lambda>c. SystemStateCall c (monitor_SystemState m))
                     (Handlers_InvokeAll (m_systemStateHandlers m))) m
      else m)"

definition UpdateRequiredParticipantNames :: "string list \<Rightarrow> SystemMonitor \<Rightarrow> SystemMonitor" where
  "UpdateRequiredParticipantNames requiredParticipantNames m =
     (let (changed, t) = UpdateRequiredParticipants requiredParticipantNames (m_systemStateTracker m)
      in notify_system_state changed (m\<lparr>m_systemStateTracker := t\<rparr>))"

definition ReceiveMsg_WorkflowConfiguration :: "WorkflowConfiguration \<Rightarrow> SystemMonitor \<Rightarrow> SystemMonitor" where
  "ReceiveMsg_WorkflowConfiguration workflowConfiguration m =
     called [SetWorkflowConfigurationCall workflowConfiguration]
       (UpdateRequiredParticipantNames (wc_requiredParticipantNames workflowConfiguration) m)"

definition AddSystemStateHandler :: "nat \<Rightarrow> SystemMonitor \<Rightarrow> nat \<times> SystemMonitor" where
  "AddSystemStateHandler handler m =
     (let m = called [SystemStateCall handler (monitor_SystemState m)] m;
          (i, hs) = Handlers_Add handler (m_systemStateHandlers m)
      in (i, m\<lparr>m_systemStateHandlers := hs\<rparr>))"

definition RemoveSystemStateHandler :: "nat \<Rightarrow> SystemMonitor \<Rightarrow> SystemMonitor" where
  "RemoveSystemStateHandler handlerId m =
     m\<lparr>m_systemStateHandlers := snd (Handlers_Remove handlerId (m_systemStateHandlers m))\<rparr>"

text \<open>A new status handler is first told about the connected participants that have a state.\<close>

definition known_statuses :: "SystemMonitor \<Rightarrow> ParticipantStatus list" where
  "known_statuses m =
     concat (map (\<lambda>(_, info).
         case GetParticipantStatus (ci_participantName info) (m_systemStateTracker m) of
           None \<Rightarrow> []
         | Some status \<Rightarrow> (if st_state status = PS_Invalid then [] else [status]))
       (m_connectedParticipants m))"

definition AddParticipantStatusHandler :: "nat \<Rightarrow> SystemMonitor \<Rightarrow> nat \<times> SystemMonitor" where
  "AddParticipantStatusHandler handler m =
     (let m = called (map (ParticipantStatusCall handler) (known_statuses m)) m;
          (i, hs) = Handlers_Add handler (m_participantStatusHandlers m)
      in (i, m\<lparr>m_participantStatusHandlers := hs\<rparr>))"

definition RemoveParticipantStatusHandler :: "nat \<Rightarrow> SystemMonitor \<Rightarrow> SystemMonitor" where
  "RemoveParticipantStatusHandler handlerId m =
     m\<lparr>m_participantStatusHandlers := snd (Handlers_Remove handlerId (m_participantStatusHandlers m))\<rparr>"

definition ReceiveMsg_ParticipantStatus ::
    "ParticipantStatus \<Rightarrow> SystemMonitor \<Rightarrow> (monitor_error + unit) \<times> SystemMonitor" where
  "ReceiveMsg_ParticipantStatus newParticipantStatus m =
     (let (result, t) = UpdateParticipantStatus newParticipantStatus (m_systemStateTracker m);
          m = m\<lparr>m_systemStateTracker := t\<rparr>
      in case result of
           Inl e \<Rightarrow> (Inl (TrackerError e), m)
         | Inr result \<Rightarrow>
             (let m = (if participantStateChanged result
                       then called (map (\<lambda>c. ParticipantStatusCall c newParticipantStatus)
                              (Handlers_InvokeAll (m_participantStatusHandlers m))) m
                       else m)
              in (Inr (), notify_system_state (systemStateChanged result) m)))"

definition SetParticipantConnectedHandler :: "nat \<Rightarrow> SystemMonitor \<Rightarrow> SystemMonitor" where
  "SetParticipantConnectedHandler handler m = m\<lparr>m_participantConnectedHandler := Some handler\<rparr>"

definition SetParticipantDisconnectedHandler :: "nat \<Rightarrow> SystemMonitor \<Rightarrow> SystemMonitor" where
  "SetParticipantDisconnectedHandler handler m = m\<lparr>m_participantDisconnectedHandler := Some handler\<rparr>"

definition IsParticipantConnected :: "string \<Rightarrow> SystemMonitor \<Rightarrow> bool" where
  "IsParticipantConnected participantName m \<longleftrightarrow>
     map_of (m_connectedParticipants m) participantName \<noteq> None"

text \<open>\<^verbatim>\<open>emplace\<close> keeps an entry that is already there.\<close>

definition OnParticipantConnected :: "ParticipantConnectionInformation \<Rightarrow> SystemMonitor \<Rightarrow> SystemMonitor" where
  "OnParticipantConnected info m =
     (let m = (if IsParticipantConnected (ci_participantName info) m then m
               else m\<lparr>m_connectedParticipants :=
                      m_connectedParticipants m @ [(ci_participantName info, info)]\<rparr>)
      in case m_participantConnectedHandler m of
           None \<Rightarrow> m | Some handler \<Rightarrow> called [ParticipantConnectedCall handler info] m)"

text \<open>The status that stands for a lost connection; the two readings of the clock are arguments.\<close>

definition connection_lost :: "string \<Rightarrow> u64 \<Rightarrow> u64 \<Rightarrow> ParticipantStatus" where
  "connection_lost participantName now1 now2 =
     \<lparr>st_participantName = participantName, st_state = PS_Error,
      st_enterReason = ''Connection Lost'', st_enterTime = now1, st_refreshTime = now2\<rparr>"

definition OnParticipantDisconnected ::
    "ParticipantConnectionInformation \<Rightarrow> u64 \<Rightarrow> u64 \<Rightarrow> SystemMonitor \<Rightarrow> (monitor_error + unit) \<times> SystemMonitor" where
  "OnParticipantDisconnected info now1 now2 m =
     (let participantName = ci_participantName info;
          (result, m) =
            (case GetParticipantStatus participantName (m_systemStateTracker m) of
               None \<Rightarrow> (Inr (), m)
             | Some status \<Rightarrow>
                 (if st_state status = PS_Shutdown \<or> st_state status = PS_Invalid then (Inr (), m)
                  else ReceiveMsg_ParticipantStatus (connection_lost participantName now1 now2) m))
      in case result of
           Inl e \<Rightarrow> (Inl e, m)
         | Inr _ \<Rightarrow>
             (let m = m\<lparr>m_connectedParticipants := AList.delete participantName (m_connectedParticipants m)\<rparr>;
                  (changed, t) = RemoveParticipant participantName (m_systemStateTracker m);
                  m = notify_system_state changed (m\<lparr>m_systemStateTracker := t\<rparr>)
              in (Inr (), case m_participantDisconnectedHandler m of
                            None \<Rightarrow> m | Some handler \<Rightarrow> called [ParticipantDisconnectedCall handler info] m)))"

section \<open>Runs of the monitor\<close>

datatype monitor_op =
    OpWorkflow WorkflowConfiguration
  | OpStatus ParticipantStatus
  | OpAddStateHandler nat | OpRemoveStateHandler nat
  | OpAddStatusHandler nat | OpRemoveStatusHandler nat
  | OpSetConnectedHandler nat | OpSetDisconnectedHandler nat
  | OpConnected ParticipantConnectionInformation
  | OpDisconnected ParticipantConnectionInformation u64 u64

fun monitor_step :: "monitor_op \<Rightarrow> SystemMonitor \<Rightarrow> SystemMonitor" where
  "monitor_step (OpWorkflow w) m = ReceiveMsg_WorkflowConfiguration w m"
| "monitor_step (OpStatus st) m = snd (ReceiveMsg_ParticipantStatus st m)"
| "monitor_step (OpAddStateHandler c) m = snd (AddSystemStateHandler c m)"
| "monitor_step (OpRemoveStateHandler i) m = RemoveSystemStateHandler i m"
| "monitor_step (OpAddStatusHandler c) m = snd (AddParticipantStatusHandler c m)"
| "monitor_step (OpRemoveStatusHandler i) m = RemoveParticipantStatusHandler i m"
| "monitor_step (OpSetConnectedHandler c) m = SetParticipantConnectedHandler c m"
| "monitor_step (OpSetDisconnectedHandler c) m = SetParticipantDisconnectedHandler c m"
| "monitor_step (OpConnected info) m = OnParticipantConnected info m"
| "monitor_step (OpDisconnected info n1 n2) m = snd (OnParticipantDisconnected info n1 n2 m)"

definition monitor_run :: "monitor_op list \<Rightarrow> SystemMonitor" where
  "monitor_run ops = fold monitor_step ops SystemMonitor_new"

subsection \<open>What a handler has been told\<close>

definition told_states :: "nat \<Rightarrow> monitor_call list \<Rightarrow> SystemState list" where
  "told_states c calls =
     List.map_filter (\<lambda>call. case call of SystemStateCall c' S \<Rightarrow> (if c' = c then Some S else None) | _ \<Rightarrow> None) calls"

definition told_statuses :: "nat \<Rightarrow> monitor_call list \<Rightarrow> ParticipantStatus list" where
  "told_statuses c calls =
     List.map_filter (\<lambda>call. case call of ParticipantStatusCall c' st \<Rightarrow> (if c' = c then Some st else None) | _ \<Rightarrow> None) calls"

lemma told_states_simps [simp]:
  "told_states c [] = []"
  "told_states c (xs @ ys) = told_states c xs @ told_states c ys"
  "told_states c [SystemStateCall c' S] = (if c' = c then [S] else [])"
  "told_states c [SetWorkflowConfigurationCall w] = []"
  "told_states c [ParticipantConnectedCall c' i] = []"
  "told_states c [ParticipantDisconnectedCall c' i] = []"
  "told_states c (map (ParticipantStatusCall c') sts) = []"
  "told_states c (map (\<lambda>c. ParticipantStatusCall c st) cs) = []"
  by (auto simp: told_states_def List.map_filter_def filter_empty_conv)

lemma told_states_map:
  "told_states c (map (\<lambda>c. SystemStateCall c S) cs) = replicate (count_list cs c) S"
  by (induction cs) (auto simp: told_states_def List.map_filter_def)

definition up_to_date :: "SystemMonitor \<Rightarrow> bool" where
  "up_to_date m \<longleftrightarrow> (\<forall>c\<in>set (Handlers_InvokeAll (m_systemStateHandlers m)).
     told_states c (m_calls m) \<noteq> [] \<and> last (told_states c (m_calls m)) = monitor_SystemState m)"

lemma called_simps [simp]:
  "m_systemStateTracker (called cs m) = m_systemStateTracker m"
  "m_systemStateHandlers (called cs m) = m_systemStateHandlers m"
  "m_participantStatusHandlers (called cs m) = m_participantStatusHandlers m"
  "m_participantDisconnectedHandler (called cs m) = m_participantDisconnectedHandler m"
  "m_connectedParticipants (called cs m) = m_connectedParticipants m"
  "monitor_SystemState (called cs m) = monitor_SystemState m"
  "m_calls (called cs m) = m_calls m @ cs"
  by (simp_all add: called_def monitor_SystemState_def)

lemma called_tracker: "called cs (m\<lparr>m_systemStateTracker := t\<rparr>) = (called cs m)\<lparr>m_systemStateTracker := t\<rparr>"
  by (cases m) (simp add: called_def)

lemma notify_simps [simp]:
  "m_systemStateTracker (notify_system_state ch m) = m_systemStateTracker m"
  "m_systemStateHandlers (notify_system_state ch m) = m_systemStateHandlers m"
  "m_connectedParticipants (notify_system_state ch m) = m_connectedParticipants m"
  "monitor_SystemState (notify_system_state ch m) = monitor_SystemState m"
  by (simp_all add: notify_system_state_def monitor_SystemState_def called_def)

lemma up_to_date_called: "up_to_date m \<Longrightarrow> (\<And>c. told_states c cs = []) \<Longrightarrow> up_to_date (called cs m)"
  by (simp add: up_to_date_def)

text \<open>The notification that follows an update of the tracker restores the invariant.\<close>

lemma up_to_date_notify:
  assumes "up_to_date m"
  shows "up_to_date (notify_system_state (t_systemState (m_systemStateTracker m) \<noteq> t_systemState t)
    (m\<lparr>m_systemStateTracker := t\<rparr>))"
proof -
  have "count_list cs c > 0" if "c \<in> set cs" for c :: nat and cs
    using that by (induction cs) auto
  then show ?thesis
    using assms
    by (auto simp: up_to_date_def notify_system_state_def monitor_SystemState_def GetSystemState_def told_states_map
        last_replicate)
qed

lemma UpdateRequired_changed:
  "fst (UpdateRequiredParticipants names t) =
     (t_systemState t \<noteq> t_systemState (snd (UpdateRequiredParticipants names t)))"
  by (simp add: UpdateRequiredParticipants_def Let_def)

lemma RemoveParticipant_changed:
  "fst (RemoveParticipant name t) = (t_systemState t \<noteq> t_systemState (snd (RemoveParticipant name t)))"
  by (simp add: RemoveParticipant_def Let_def)

lemma GetOrCreate_systemState: "t_systemState (snd (GetOrCreateParticipantStatus n t)) = t_systemState t"
  by (simp add: GetOrCreateParticipantStatus_def split: option.splits)

lemma UpdateParticipantStatus_changed:
  "case fst (UpdateParticipantStatus st t) of
     Inl _ \<Rightarrow> t_systemState (snd (UpdateParticipantStatus st t)) = t_systemState t
   | Inr r \<Rightarrow> systemStateChanged r \<longleftrightarrow> t_systemState t \<noteq> t_systemState (snd (UpdateParticipantStatus st t))"
  by (simp add: UpdateParticipantStatus_eq GetOrCreate_systemState)

lemma up_to_date_tracker:
  "up_to_date m \<Longrightarrow> t_systemState t = t_systemState (m_systemStateTracker m) \<Longrightarrow>
     up_to_date (m\<lparr>m_systemStateTracker := t\<rparr>)"
  by (simp add: up_to_date_def monitor_SystemState_def GetSystemState_def)

lemma up_to_date_status:
  assumes "up_to_date m"
  shows "up_to_date (snd (ReceiveMsg_ParticipantStatus st m))"
proof -
  obtain r t where u: "UpdateParticipantStatus st (m_systemStateTracker m) = (r, t)" by force
  note changed = UpdateParticipantStatus_changed[of st "m_systemStateTracker m", unfolded u, simplified]
  show ?thesis
  proof (cases r)
    case (Inl e)
    with u changed assms show ?thesis
      by (simp add: ReceiveMsg_ParticipantStatus_def up_to_date_tracker)
  next
    case (Inr x)
    define m' where "m' = (if participantStateChanged x then called (map (\<lambda>c. ParticipantStatusCall c st)
      (Handlers_InvokeAll (m_participantStatusHandlers m))) m else m)"
    have m': "up_to_date m'" "m_systemStateTracker m' = m_systemStateTracker m"
      using assms by (auto simp: m'_def up_to_date_called)
    have "snd (ReceiveMsg_ParticipantStatus st m) = notify_system_state (systemStateChanged x) (m'\<lparr>m_systemStateTracker := t\<rparr>)"
      using Inr u by (simp add: ReceiveMsg_ParticipantStatus_def m'_def called_tracker)
    then show ?thesis using up_to_date_notify[OF m'(1), of t] m'(2) changed Inr by simp
  qed
qed

lemma up_to_date_required: "up_to_date m \<Longrightarrow> up_to_date (UpdateRequiredParticipantNames names m)"
  using up_to_date_notify[of m "snd (UpdateRequiredParticipants names (m_systemStateTracker m))"]
  by (simp add: UpdateRequiredParticipantNames_def split_beta UpdateRequired_changed)

lemma up_to_date_remove:
  "up_to_date m \<Longrightarrow> up_to_date (notify_system_state (fst (RemoveParticipant n (m_systemStateTracker m)))
     (m\<lparr>m_systemStateTracker := snd (RemoveParticipant n (m_systemStateTracker m))\<rparr>))"
  using up_to_date_notify[of m "snd (RemoveParticipant n (m_systemStateTracker m))"]
  by (simp add: RemoveParticipant_changed)


lemma up_to_date_step:
  assumes "up_to_date m"
  shows "up_to_date (monitor_step op m)"
proof (cases op)
  case (OpWorkflow w)
  then show ?thesis
    using up_to_date_required[OF assms] by (simp add: ReceiveMsg_WorkflowConfiguration_def up_to_date_called)
next
  case (OpStatus st)
  then show ?thesis using assms by (simp add: up_to_date_status)
next
  case (OpAddStateHandler c)
  then show ?thesis using assms
    by (auto simp: AddSystemStateHandler_def Handlers_Add_def Handlers_InvokeAll_def up_to_date_def
        monitor_SystemState_def)
next
  case (OpRemoveStateHandler i)
  then show ?thesis using assms
    by (auto simp: RemoveSystemStateHandler_def Handlers_Remove_def Handlers_InvokeAll_def up_to_date_def
        monitor_SystemState_def)
next
  case (OpDisconnected info n1 n2)
  define r where "r = (case GetParticipantStatus (ci_participantName info) (m_systemStateTracker m) of
      None \<Rightarrow> (Inr (), m)
    | Some status \<Rightarrow>
        (if st_state status = PS_Shutdown \<or> st_state status = PS_Invalid then (Inr (), m)
         else ReceiveMsg_ParticipantStatus (connection_lost (ci_participantName info) n1 n2) m))"
  define m' where "m' = (snd r)\<lparr>m_connectedParticipants :=
    AList.delete (ci_participantName info) (m_connectedParticipants (snd r))\<rparr>"
  have "up_to_date (snd r)"
    using assms by (auto simp: r_def up_to_date_status split: option.splits)
  moreover from this have "up_to_date m'" by (simp add: m'_def up_to_date_def monitor_SystemState_def)
  note up_to_date_remove[OF this, of "ci_participantName info"]
  ultimately show ?thesis
    using OpDisconnected
    by (simp add: OnParticipantDisconnected_def r_def[symmetric] split_beta m'_def Let_def up_to_date_called
        split: sum.split option.split)
qed (use assms in \<open>auto simp: up_to_date_def monitor_SystemState_def AddParticipantStatusHandler_def
    RemoveParticipantStatusHandler_def SetParticipantConnectedHandler_def SetParticipantDisconnectedHandler_def
    OnParticipantConnected_def split_beta Let_def split: option.split\<close>)

lemma up_to_date_run: "up_to_date (monitor_run ops)"
proof -
  have "up_to_date m \<Longrightarrow> up_to_date (fold monitor_step ops m)" for m
    by (induction ops arbitrary: m) (auto simp: up_to_date_step)
  moreover have "up_to_date SystemMonitor_new"
    by (simp add: up_to_date_def SystemMonitor_new_def Handlers_InvokeAll_def Handlers_empty_def)
  ultimately show ?thesis by (simp add: monitor_run_def)
qed

section \<open>A lost connection\<close>

lemma ComputeSystemState_missing:
  assumes "name \<in> set (t_requiredParticipants t)" "GetParticipantStatus name t = None"
    "t_systemState t = SS_Error"
  shows "ComputeSystemState s t = (if s = PS_Aborting then SS_Aborting else SS_Error)"
proof -
  have "\<not> AllIn l t" for l
    using assms(1,2) by (force simp: AllIn_iff required_in_def)
  then have "ChangeToFirst alts t S = S" for alts S
    by (induction alts t S rule: ChangeToFirst.induct) auto
  then show ?thesis using assms(3) by (simp add: ComputeSystemState_def)
qed

lemma GetParticipantStatus_delete:
  "GetParticipantStatus n (t\<lparr>t_participantStatusCache := AList.delete name (t_participantStatusCache t)\<rparr>) =
     (if n = name then None else GetParticipantStatus n t)"
  by (simp add: GetParticipantStatus_def delete_conv')

lemma RemoveParticipant_required:
  assumes "name \<in> set (t_requiredParticipants t)" "GetParticipantStatus name t \<noteq> None"
    "t_systemState t = SS_Error"
  shows "t_systemState (snd (RemoveParticipant name t)) =
     (if state_of (hd (t_requiredParticipants t)) t = PS_Aborting \<and> hd (t_requiredParticipants t) \<noteq> name
      then SS_Aborting else SS_Error)"
    and "GetParticipantStatus name (snd (RemoveParticipant name t)) = None"
proof -
  define t' where "t' = t\<lparr>t_participantStatusCache := AList.delete name (t_participantStatusCache t)\<rparr>"
  have t': "GetParticipantStatus n t' = (if n = name then None else GetParticipantStatus n t)" for n
    unfolding t'_def by (rule GetParticipantStatus_delete)
  have s: "snd (RemoveParticipant name t) = t'\<lparr>t_systemState := ComputeSystemState (GetAnyRequiredParticipantState t') t'\<rparr>"
    using assms(2) by (auto simp: RemoveParticipant_def t'_def Let_def)
  have any: "GetAnyRequiredParticipantState t' =
    (if hd (t_requiredParticipants t) = name then PS_Invalid else state_of (hd (t_requiredParticipants t)) t)"
    using assms(1) t' by (cases "t_requiredParticipants t")
      (auto simp: GetAnyRequiredParticipantState_def state_of_def t'_def)
  have "ComputeSystemState s t' = (if s = PS_Aborting then SS_Aborting else SS_Error)" for s
    using assms t'[of name] by (intro ComputeSystemState_missing[of name]) (auto simp: t'_def)
  then show "t_systemState (snd (RemoveParticipant name t)) =
     (if state_of (hd (t_requiredParticipants t)) t = PS_Aborting \<and> hd (t_requiredParticipants t) \<noteq> name
      then SS_Aborting else SS_Error)"
    by (auto simp: s any)
  show "GetParticipantStatus name (snd (RemoveParticipant name t)) = None"
    by (simp add: s t')
qed


text \<open>A status message that changes the state of a required participant to \<^verbatim>\<open>Error\<close>.\<close>

lemma ReceiveMsg_Error:
  fixes m st
  defines "n \<equiv> st_participantName st" and "t \<equiv> m_systemStateTracker m"
  defines "m' \<equiv> snd (ReceiveMsg_ParticipantStatus st m)"
  assumes "st_state st = PS_Error" "state_of n t \<notin> {PS_Shutdown, PS_Error}" "IsRequiredParticipant n t"
  shows "fst (ReceiveMsg_ParticipantStatus st m) = Inr ()"
    and "m_systemStateTracker m' = (SetParticipantStatus n st t)\<lparr>t_systemState := SS_Error\<rparr>"
    and "m_calls m' = m_calls m @
      map (\<lambda>c. ParticipantStatusCall c st) (Handlers_InvokeAll (m_participantStatusHandlers m)) @
      (if t_systemState t = SS_Error then []
       else map (\<lambda>c. SystemStateCall c SS_Error) (Handlers_InvokeAll (m_systemStateHandlers m)))"
    and "m_participantDisconnectedHandler m' = m_participantDisconnectedHandler m"
proof -
  have u: "UpdateParticipantStatus st t =
    (Inr \<lparr>participantStateChanged = True, systemStateChanged = (t_systemState t \<noteq> SS_Error)\<rparr>,
     (SetParticipantStatus n st t)\<lparr>t_systemState := SS_Error\<rparr>)"
    using assms(4-6) by (auto simp: UpdateParticipantStatus_eq n_def ComputeSystemState_def)
  show "fst (ReceiveMsg_ParticipantStatus st m) = Inr ()"
    "m_systemStateTracker m' = (SetParticipantStatus n st t)\<lparr>t_systemState := SS_Error\<rparr>"
    "m_calls m' = m_calls m @
      map (\<lambda>c. ParticipantStatusCall c st) (Handlers_InvokeAll (m_participantStatusHandlers m)) @
      (if t_systemState t = SS_Error then []
       else map (\<lambda>c. SystemStateCall c SS_Error) (Handlers_InvokeAll (m_systemStateHandlers m)))"
    "m_participantDisconnectedHandler m' = m_participantDisconnectedHandler m"
    using u by (auto simp: ReceiveMsg_ParticipantStatus_def m'_def t_def notify_system_state_def
        monitor_SystemState_def GetSystemState_def called_def Let_def)
qed

lemma Disconnected_required:
  fixes m info now1 now2
  defines "n \<equiv> ci_participantName info" and "t \<equiv> m_systemStateTracker m"
  defines "m' \<equiv> snd (OnParticipantDisconnected info now1 now2 m)"
  assumes active: "state_of n t \<notin> {PS_Invalid, PS_Shutdown, PS_Error}" and required: "IsRequiredParticipant n t"
  shows "fst (OnParticipantDisconnected info now1 now2 m) = Inr ()"
    and "monitor_SystemState m' =
      (if state_of (hd (t_requiredParticipants t)) t = PS_Aborting \<and> hd (t_requiredParticipants t) \<noteq> n
       then SS_Aborting else SS_Error)"
    and "GetParticipantStatus n (m_systemStateTracker m') = None"
    and "\<not> IsParticipantConnected n m'"
    and "\<forall>c\<in>set (Handlers_InvokeAll (m_participantStatusHandlers m)).
      ParticipantStatusCall c (connection_lost n now1 now2) \<in> set (drop (length (m_calls m)) (m_calls m'))"
proof -
  define r where "r = ReceiveMsg_ParticipantStatus (connection_lost n now1 now2) m"
  obtain status where status: "GetParticipantStatus n t = Some status" "st_state status \<notin> {PS_Invalid, PS_Shutdown}"
    using active by (auto simp: state_of_def split: option.splits)
  have "st_participantName (connection_lost n now1 now2) = n" "st_state (connection_lost n now1 now2) = PS_Error"
    by (simp_all add: connection_lost_def)
  note E = ReceiveMsg_Error[of "connection_lost n now1 now2" m, unfolded this, folded t_def r_def,
      OF refl _ required]
  have r: "fst r = Inr ()"
    "m_systemStateTracker (snd r) = (SetParticipantStatus n (connection_lost n now1 now2) t)\<lparr>t_systemState := SS_Error\<rparr>"
    "\<exists>cs. m_calls (snd r) = m_calls m @ map (\<lambda>c. ParticipantStatusCall c (connection_lost n now1 now2))
       (Handlers_InvokeAll (m_participantStatusHandlers m)) @ cs"
    using active E by auto
  define tr where "tr = m_systemStateTracker (snd r)"
  have tr: "n \<in> set (t_requiredParticipants tr)" "GetParticipantStatus n tr \<noteq> None" "t_systemState tr = SS_Error"
    "t_requiredParticipants tr = t_requiredParticipants t"
    "hd (t_requiredParticipants t) \<noteq> n \<Longrightarrow> state_of (hd (t_requiredParticipants t)) tr = state_of (hd (t_requiredParticipants t)) t"
    using required by (auto simp: tr_def r(2) IsRequiredParticipant_def state_of_def)
  note R = RemoveParticipant_required[OF tr(1-3)]
  define d where "d = (snd r)\<lparr>m_connectedParticipants := AList.delete n (m_connectedParticipants (snd r))\<rparr>"
  define e where "e = notify_system_state (fst (RemoveParticipant n tr))
    (d\<lparr>m_systemStateTracker := snd (RemoveParticipant n tr)\<rparr>)"
  have eq: "OnParticipantDisconnected info now1 now2 m = (Inr (), case m_participantDisconnectedHandler e of
      None \<Rightarrow> e | Some handler \<Rightarrow> called [ParticipantDisconnectedCall handler info] e)"
    using status r(1) unfolding t_def n_def
    by (simp add: OnParticipantDisconnected_def flip: n_def, cases r)
      (simp add: r_def[symmetric] Let_def split_beta e_def d_def tr_def split: option.split)
  show "fst (OnParticipantDisconnected info now1 now2 m) = Inr ()" by (simp add: eq)
  have m': "m_systemStateTracker m' = snd (RemoveParticipant n tr)"
      "m_connectedParticipants m' = AList.delete n (m_connectedParticipants (snd r))"
    by (auto simp: m'_def eq e_def d_def split: option.splits)
  show "monitor_SystemState m' =
      (if state_of (hd (t_requiredParticipants t)) t = PS_Aborting \<and> hd (t_requiredParticipants t) \<noteq> n
       then SS_Aborting else SS_Error)"
    using R(1) tr(4,5) by (auto simp: monitor_SystemState_def GetSystemState_def m')
  show "GetParticipantStatus n (m_systemStateTracker m') = None" by (simp add: m' R(2))
  show "\<not> IsParticipantConnected n m'" by (simp add: IsParticipantConnected_def m' delete_conv')
  have "\<exists>cs. m_calls e = m_calls (snd r) @ cs"
    by (simp add: e_def d_def notify_system_state_def)
  moreover have "\<exists>cs. m_calls m' = m_calls e @ cs"
    by (simp add: m'_def eq split: option.split)
  ultimately show "\<forall>c\<in>set (Handlers_InvokeAll (m_participantStatusHandlers m)).
      ParticipantStatusCall c (connection_lost n now1 now2) \<in> set (drop (length (m_calls m)) (m_calls m'))"
    using r(3) by auto
qed

section \<open>Properties of the monitor\<close>

text \<open>
  C27. At any point of any sequence of operations, every registered system state handler has been
  called, and the last state it was told is the state of the system: no change is missed, also not
  those caused by new workflow configurations, lost connections and removed participants.
\<close>

theorem handlers_know_system_state:
  "\<forall>c\<in>set (Handlers_InvokeAll (m_systemStateHandlers (monitor_run ops))).
     told_states c (m_calls (monitor_run ops)) \<noteq> [] \<and>
     last (told_states c (m_calls (monitor_run ops))) = monitor_SystemState (monitor_run ops)"
  using up_to_date_run[of ops] by (simp add: up_to_date_def)

definition sample_ops :: "monitor_op list" where
  "sample_ops = [OpAddStateHandler 7, OpWorkflow \<lparr>wc_requiredParticipantNames = [''A'']\<rparr>,
     OpConnected \<lparr>ci_participantName = ''A''\<rparr>, OpStatus (sample_status ''A'' PS_ServicesCreated)]"

theorem handlers_know_system_state_witness:
  "7 \<in> set (Handlers_InvokeAll (m_systemStateHandlers (monitor_run sample_ops))) \<and>
   told_states 7 (m_calls (monitor_run sample_ops)) \<noteq> [] \<and>
   last (told_states 7 (m_calls (monitor_run sample_ops))) = SS_ServicesCreated"
proof -
  have "7 \<in> set (Handlers_InvokeAll (m_systemStateHandlers (monitor_run sample_ops)))"
      "monitor_SystemState (monitor_run sample_ops) = SS_ServicesCreated" by code_simp+
  with handlers_know_system_state[of sample_ops] show ?thesis by auto
qed

text \<open>
  C29. When the connection to a required participant is lost while it is active, the system goes
  to \<^verbatim>\<open>Error\<close> (or stays aborting, when the required participant that is looked at first is aborting),
  the status and the connection of the participant are forgotten, and every status handler is told
  that the connection was lost.
\<close>

theorem lost_connection_is_an_error:
  assumes "state_of (ci_participantName info) (m_systemStateTracker m) \<notin> {PS_Invalid, PS_Shutdown, PS_Error}"
    and "IsRequiredParticipant (ci_participantName info) (m_systemStateTracker m)"
    and "OnParticipantDisconnected info now1 now2 m = (result, m')"
  shows "result = Inr () \<and>
     monitor_SystemState m' =
       (let first = hd (t_requiredParticipants (m_systemStateTracker m))
        in if first \<noteq> ci_participantName info \<and> state_of first (m_systemStateTracker m) = PS_Aborting
           then SS_Aborting else SS_Error) \<and>
     GetParticipantStatus (ci_participantName info) (m_systemStateTracker m') = None \<and>
     \<not> IsParticipantConnected (ci_participantName info) m' \<and>
     (\<forall>c\<in>set (Handlers_InvokeAll (m_participantStatusHandlers m)).
        ParticipantStatusCall c (connection_lost (ci_participantName info) now1 now2)
          \<in> set (drop (length (m_calls m)) (m_calls m')))"
  using Disconnected_required[of info m now1 now2] assms by (auto simp: Let_def)

theorem lost_connection_is_an_error_witness:
  "monitor_SystemState (monitor_run (sample_ops @ [OpDisconnected \<lparr>ci_participantName = ''A''\<rparr> 1 2])) = SS_Error"
proof -
  let ?m = "monitor_run sample_ops" and ?i = "\<lparr>ci_participantName = ''A''\<rparr>"
  have pre: "state_of ''A'' (m_systemStateTracker ?m) = PS_ServicesCreated"
      "t_requiredParticipants (m_systemStateTracker ?m) = [''A'']" by code_simp+
  obtain r m' where d: "OnParticipantDisconnected ?i 1 2 ?m = (r, m')" by force
  have "monitor_run (sample_ops @ [OpDisconnected ?i 1 2]) = m'" using d by (simp add: monitor_run_def)
  with lost_connection_is_an_error[OF _ _ d] pre show ?thesis by (simp add: IsRequiredParticipant_def)
qed

end
