(* ===== verification/Time_Configuration.thy ===== *)
theory Time_Configuration
  imports Orchestration_Types
begin

text \<open>
  \<^verbatim>\<open>TimeConfiguration\<close> (services/orchestration/TimeConfiguration.cpp): the virtual time of a
  participant. It holds the simulation step being executed, the next step, and the next step of
  every other participant of the time synchronisation. Times are nanoseconds; the signed 64 bit
  counter of the code is an unbounded integer here, since its overflow (after 292 years of
  simulated time) is undefined behaviour. Log output is left out.
\<close>

record SimTask =
  timePoint :: int
  duration :: int

record TimeConfiguration =
  tc_currentTask :: SimTask
  tc_myNextTask :: SimTask
  tc_otherNextTasks :: "(string \<times> SimTask) list"
  tc_blocking :: bool
  tc_hoppedOn :: bool

definition TimeConfiguration_Initialize :: "TimeConfiguration \<Rightarrow> TimeConfiguration" where
  "TimeConfiguration_Initialize tc =
     tc\<lparr>tc_currentTask := \<lparr>timePoint = -1, duration = 0\<rparr>,
        tc_myNextTask := (tc_myNextTask tc)\<lparr>timePoint := 0\<rparr>,
        tc_hoppedOn := False\<rparr>"

text \<open>The constructor; one millisecond is the duration when no step size is set.\<close>

definition TimeConfiguration_new :: TimeConfiguration where
  "TimeConfiguration_new =
     (let tc = TimeConfiguration_Initialize
          \<lparr>tc_currentTask = \<lparr>timePoint = 0, duration = 0\<rparr>, tc_myNextTask = \<lparr>timePoint = 0, duration = 0\<rparr>,
           tc_otherNextTasks = [], tc_blocking = False, tc_hoppedOn = False\<rparr>
      in tc\<lparr>tc_myNextTask := (tc_myNextTask tc)\<lparr>duration := 1000000\<rparr>\<rparr>)"

definition SetBlockingMode :: "bool \<Rightarrow> TimeConfiguration \<Rightarrow> TimeConfiguration" where
  "SetBlockingMode blocking tc = tc\<lparr>tc_blocking := blocking\<rparr>"

definition other_task :: "string \<Rightarrow> TimeConfiguration \<Rightarrow> SimTask option" where
  "other_task name tc = map_of (tc_otherNextTasks tc) name"

definition AddSynchronizedParticipant :: "string \<Rightarrow> TimeConfiguration \<Rightarrow> TimeConfiguration" where
  "AddSynchronizedParticipant otherParticipantName tc =
     (if other_task otherParticipantName tc \<noteq> None then tc
      else tc\<lparr>tc_otherNextTasks :=
             AList.update otherParticipantName \<lparr>timePoint = -1, duration = 0\<rparr> (tc_otherNextTasks tc)\<rparr>)"

definition RemoveSynchronizedParticipant :: "string \<Rightarrow> TimeConfiguration \<Rightarrow> bool \<times> TimeConfiguration" where
  "RemoveSynchronizedParticipant otherParticipantName tc =
     (if other_task otherParticipantName tc \<noteq> None
      then (True, tc\<lparr>tc_otherNextTasks := AList.delete otherParticipantName (tc_otherNextTasks tc)\<rparr>)
      else (False, tc))"

definition GetSynchronizedParticipantNames :: "TimeConfiguration \<Rightarrow> string list" where
  "GetSynchronizedParticipantNames tc = map fst (tc_otherNextTasks tc)"

definition OnReceiveNextSimStep :: "string \<Rightarrow> SimTask \<Rightarrow> TimeConfiguration \<Rightarrow> TimeConfiguration" where
  "OnReceiveNextSimStep participantName nextStep tc =
     (if other_task participantName tc = None then tc
      else tc\<lparr>tc_otherNextTasks := AList.update participantName nextStep (tc_otherNextTasks tc)\<rparr>)"

datatype time_error = UnknownParticipant string

definition SynchronizedParticipantRemoved ::
    "string \<Rightarrow> TimeConfiguration \<Rightarrow> time_error + TimeConfiguration" where
  "SynchronizedParticipantRemoved otherParticipantName tc =
     (if other_task otherParticipantName tc \<noteq> None then Inl (UnknownParticipant otherParticipantName)
      else if other_task otherParticipantName tc \<noteq> None
      then Inr (tc\<lparr>tc_otherNextTasks := AList.delete otherParticipantName (tc_otherNextTasks tc)\<rparr>)
      else Inr tc)"

definition SetStepDuration :: "int \<Rightarrow> TimeConfiguration \<Rightarrow> TimeConfiguration" where
  "SetStepDuration d tc = tc\<lparr>tc_myNextTask := (tc_myNextTask tc)\<lparr>duration := d\<rparr>\<rparr>"

definition AdvanceTimeStep :: "TimeConfiguration \<Rightarrow> TimeConfiguration" where
  "AdvanceTimeStep tc =
     (let tc = tc\<lparr>tc_currentTask := tc_myNextTask tc\<rparr>
      in tc\<lparr>tc_myNextTask := (tc_myNextTask tc)
             \<lparr>timePoint := timePoint (tc_currentTask tc) + duration (tc_currentTask tc)\<rparr>\<rparr>)"

definition CurrentSimStep :: "TimeConfiguration \<Rightarrow> SimTask" where
  "CurrentSimStep tc = tc_currentTask tc"

definition NextSimStep :: "TimeConfiguration \<Rightarrow> SimTask" where
  "NextSimStep tc = tc_myNextTask tc"

definition OtherParticipantHasLowerTimepoint :: "TimeConfiguration \<Rightarrow> bool" where
  "OtherParticipantHasLowerTimepoint tc =
     list_ex (\<lambda>(_, otherTask). timePoint (tc_myNextTask tc) > timePoint otherTask) (tc_otherNextTasks tc)"

definition nanoseconds_max :: int where
  "nanoseconds_max = 2 ^ 63 - 1"

text \<open>
  The loop of \<^verbatim>\<open>HandleHopOn\<close> over the other participants: whether one of them has advanced past its
  first step, and the least time among those.
\<close>

definition hop_on_times :: "TimeConfiguration \<Rightarrow> int list" where
  "hop_on_times tc =
     map timePoint (filter (\<lambda>otherTask. timePoint otherTask > duration otherTask) (map snd (tc_otherNextTasks tc)))"

definition HandleHopOn :: "TimeConfiguration \<Rightarrow> bool \<times> TimeConfiguration" where
  "HandleHopOn tc =
     (if \<not> tc_hoppedOn tc \<and> timePoint (tc_currentTask tc) = -1 \<and> hop_on_times tc \<noteq> []
      then (True, tc\<lparr>tc_hoppedOn := True,
                     tc_myNextTask := (tc_myNextTask tc)\<lparr>timePoint := fold min (hop_on_times tc) nanoseconds_max\<rparr>\<rparr>)
      else (False, tc))"

section \<open>Facts\<close>

lemma other_task_simps [simp]:
  "other_task n (AddSynchronizedParticipant n' tc) =
     (if n = n' \<and> other_task n tc = None then Some \<lparr>timePoint = -1, duration = 0\<rparr> else other_task n tc)"
  "other_task n (OnReceiveNextSimStep n' task tc) =
     (if n = n' \<and> other_task n tc \<noteq> None then Some task else other_task n tc)"
  "other_task n (snd (RemoveSynchronizedParticipant n' tc)) = (if n = n' then None else other_task n tc)"
  "other_task n (AdvanceTimeStep tc) = other_task n tc"
  "other_task n (SetStepDuration d tc) = other_task n tc"
  by (auto simp: other_task_def AddSynchronizedParticipant_def OnReceiveNextSimStep_def update_conv'
      RemoveSynchronizedParticipant_def delete_conv' AdvanceTimeStep_def SetStepDuration_def Let_def)

text \<open>The entries for the other participants are kept apart by name.\<close>

definition tc_inv :: "TimeConfiguration \<Rightarrow> bool" where
  "tc_inv tc \<longleftrightarrow> distinct (map fst (tc_otherNextTasks tc))"

lemma in_others_iff: "tc_inv tc \<Longrightarrow> (n, task) \<in> set (tc_otherNextTasks tc) \<longleftrightarrow> other_task n tc = Some task"
  by (simp add: tc_inv_def other_task_def)

lemma tc_inv_simps [simp]:
  "tc_inv tc \<Longrightarrow> tc_inv (AddSynchronizedParticipant n tc)"
  "tc_inv tc \<Longrightarrow> tc_inv (OnReceiveNextSimStep n task tc)"
  "tc_inv tc \<Longrightarrow> tc_inv (snd (RemoveSynchronizedParticipant n tc))"
  "tc_inv (AdvanceTimeStep tc) = tc_inv tc"
  "tc_inv (SetStepDuration d tc) = tc_inv tc"
  "tc_inv (snd (HandleHopOn tc)) = tc_inv tc"
  "tc_inv TimeConfiguration_new"
  by (auto simp: tc_inv_def AddSynchronizedParticipant_def OnReceiveNextSimStep_def RemoveSynchronizedParticipant_def
      distinct_update distinct_delete AdvanceTimeStep_def SetStepDuration_def HandleHopOn_def TimeConfiguration_new_def
      TimeConfiguration_Initialize_def Let_def)

text \<open>The guard of the algorithm, in terms of what is known of the others.\<close>

lemma no_lower_timepoint_iff:
  assumes "tc_inv tc"
  shows "\<not> OtherParticipantHasLowerTimepoint tc \<longleftrightarrow>
     (\<forall>n task. other_task n tc = Some task \<longrightarrow> timePoint (tc_myNextTask tc) \<le> timePoint task)"
  using in_others_iff[OF assms]
  by (fastforce simp: OtherParticipantHasLowerTimepoint_def list_ex_iff not_less)

lemma hop_on_times_iff:
  assumes "tc_inv tc"
  shows "hop_on_times tc = [] \<longleftrightarrow>
     (\<forall>n task. other_task n tc = Some task \<longrightarrow> timePoint task \<le> duration task)"
  using in_others_iff[OF assms] by (fastforce simp: hop_on_times_def filter_empty_conv not_less)

text \<open>Time never goes backwards and grows by the duration of a step.\<close>

lemma AdvanceTimeStep_times:
  "timePoint (tc_currentTask (AdvanceTimeStep tc)) = timePoint (tc_myNextTask tc)"
  "timePoint (tc_myNextTask (AdvanceTimeStep tc)) = timePoint (tc_myNextTask tc) + duration (tc_myNextTask tc)"
  "duration (tc_myNextTask (AdvanceTimeStep tc)) = duration (tc_myNextTask tc)"
  "tc_hoppedOn (AdvanceTimeStep tc) = tc_hoppedOn tc"
  by (simp_all add: AdvanceTimeStep_def Let_def)

text \<open>The guard of \<^verbatim>\<open>SynchronizedParticipantRemoved\<close> is inverted: known participants are refused.\<close>

lemma SynchronizedParticipantRemoved_eq:
  "SynchronizedParticipantRemoved n tc =
     (if other_task n tc = None then Inr tc else Inl (UnknownParticipant n))"
  by (simp add: SynchronizedParticipantRemoved_def)

text \<open>
  \<^verbatim>\<open>SynchronizedParticipantRemoved\<close> never removes a participant: for one that takes part in the
  synchronisation it throws the exception for an unknown name, for an unknown one it does nothing.
\<close>

theorem removal_never_removes:
  "SynchronizedParticipantRemoved n tc =
     (if n \<in> set (GetSynchronizedParticipantNames tc) then Inl (UnknownParticipant n) else Inr tc)"
  by (auto simp: SynchronizedParticipantRemoved_eq GetSynchronizedParticipantNames_def other_task_def
      map_of_eq_None_iff)

end
