(* ===== verification/Time_Sync.thy ===== *)
theory Time_Sync
  imports Time_Configuration Service_Messages
begin

text \<open>
  \<^verbatim>\<open>TimeSyncService\<close> and its two policies (services/orchestration/TimeSyncService.cpp): when a
  participant may execute its next simulation step and what it tells the others about it.

  What the service asks of its surroundings is the record \<open>lifecycle_view\<close>: the lifecycle state of
  this participant, the stop and pause requests, the operation mode and the state of the system.
  The simulation step handler of the application is a parameter \<open>sim\<close>; what it can do to this
  participant is to change that view (by calling \<^verbatim>\<open>Stop\<close> or \<^verbatim>\<open>Pause\<close>). \<open>cap\<close> is
  \<^verbatim>\<open>ParticipantHasCapability\<close>. Messages sent, steps executed, deferred actions, calls of
  \<^verbatim>\<open>AbortSimulation\<close> and reported errors are recorded in fields. The watch dog, the metrics and the
  sleeping of the wall clock thread are left out.
\<close>

section \<open>State\<close>

record lifecycle_view =
  lv_state :: ParticipantState
  lv_stopRequested :: bool
  lv_pauseRequested :: bool
  lv_operationMode :: OperationMode
  lv_timeSyncActive :: bool
  lv_systemState :: SystemState

datatype TimeSyncPolicy = UnsynchronizedPolicy | SynchronizedPolicy bool int

datatype deferred_action = DeferProcess | DeferRequest | DeferComplete

record TimeSyncService =
  ts_lifecycle :: lifecycle_view
  ts_timeConfiguration :: TimeConfiguration
  ts_timeSyncPolicy :: "TimeSyncPolicy option"
  ts_isSynchronizingVirtualTime :: bool
  ts_timeSyncConfigured :: bool
  ts_simTask :: bool
  ts_isCoupledToWallClock :: bool
  ts_currentWallClockSyncPointNs :: int
  ts_wallClockCouplingThreadRunning :: bool
  ts_wallClockReachedBeforeCompletion :: bool
  ts_timeSyncActive :: "bool option"
  ts_now :: int
  ts_sent :: "SimTask list"
  ts_steps :: "SimTask list"
  ts_deferred :: "deferred_action list"
  ts_aborts :: nat
  ts_errors :: nat

datatype time_sync_error = NoPolicy | AssertionFailed

section \<open>The synchronized policy\<close>

text \<open>The fields of the policy object: \<^verbatim>\<open>_isExecutingSimStep\<close> and \<^verbatim>\<open>_lastSentNextSimTask\<close>.\<close>

definition IsExecutingSimStep :: "TimeSyncService \<Rightarrow> bool" where
  "IsExecutingSimStep ts = (case ts_timeSyncPolicy ts of Some (SynchronizedPolicy e _) \<Rightarrow> e | _ \<Rightarrow> False)"

definition SetSimStepCompleted :: "TimeSyncService \<Rightarrow> TimeSyncService" where
  "SetSimStepCompleted ts =
     (case ts_timeSyncPolicy ts of
        Some (SynchronizedPolicy _ l) \<Rightarrow> ts\<lparr>ts_timeSyncPolicy := Some (SynchronizedPolicy False l)\<rparr>
      | _ \<Rightarrow> ts)"

definition ExecuteDeferred :: "deferred_action \<Rightarrow> TimeSyncService \<Rightarrow> TimeSyncService" where
  "ExecuteDeferred a ts = ts\<lparr>ts_deferred := ts_deferred ts @ [a]\<rparr>"

definition SendMsg :: "SimTask \<Rightarrow> TimeSyncService \<Rightarrow> TimeSyncService" where
  "SendMsg task ts = ts\<lparr>ts_sent := ts_sent ts @ [task]\<rparr>"

definition policy_RequestNextStep :: "TimeSyncService \<Rightarrow> TimeSyncService" where
  "policy_RequestNextStep ts =
     (case ts_timeSyncPolicy ts of
        Some (SynchronizedPolicy e lastSentNextSimTask) \<Rightarrow>
          (if lv_state (ts_lifecycle ts) = PS_Running \<and> \<not> lv_stopRequested (ts_lifecycle ts)
              \<and> \<not> lv_pauseRequested (ts_lifecycle ts)
           then let next = NextSimStep (ts_timeConfiguration ts);
                    ts = (if lastSentNextSimTask \<noteq> timePoint next
                          then SendMsg next (ts\<lparr>ts_timeSyncPolicy := Some (SynchronizedPolicy e (timePoint next))\<rparr>)
                          else ts)
                in ExecuteDeferred DeferProcess ts
           else ts)
      | _ \<Rightarrow> ts)"

definition IsTimeAdvancePossible :: "TimeSyncService \<Rightarrow> bool" where
  "IsTimeAdvancePossible ts \<longleftrightarrow>
     lv_state (ts_lifecycle ts) = PS_Running \<and>
     \<not> (lv_stopRequested (ts_lifecycle ts) \<or> lv_pauseRequested (ts_lifecycle ts)) \<and>
     \<not> (lv_operationMode (ts_lifecycle ts) = OM_Coordinated \<and> lv_systemState (ts_lifecycle ts) = SS_Error) \<and>
     \<not> OtherParticipantHasLowerTimepoint (ts_timeConfiguration ts) \<and>
     \<not> (ts_isCoupledToWallClock ts \<and>
        timePoint (NextSimStep (ts_timeConfiguration ts)) > ts_currentWallClockSyncPointNs ts)"

definition AbortHopOnForCoordinatedParticipants :: "TimeSyncService \<Rightarrow> bool \<times> TimeSyncService" where
  "AbortHopOnForCoordinatedParticipants ts =
     (if lv_operationMode (ts_lifecycle ts) = OM_Coordinated
      then (True, ts\<lparr>ts_aborts := ts_aborts ts + 1\<rparr>) else (False, ts))"

definition ExecuteSimStep ::
    "(SimTask \<Rightarrow> lifecycle_view \<Rightarrow> lifecycle_view) \<Rightarrow> SimTask \<Rightarrow> TimeSyncService \<Rightarrow> time_sync_error + TimeSyncService" where
  "ExecuteSimStep sim task ts =
     (if \<not> ts_simTask ts then Inl AssertionFailed
      else Inr (ts\<lparr>ts_now := timePoint task, ts_steps := ts_steps ts @ [task],
                   ts_lifecycle := sim task (ts_lifecycle ts)\<rparr>))"

definition AdvanceTimeAndExecuteSimStep ::
    "(SimTask \<Rightarrow> lifecycle_view \<Rightarrow> lifecycle_view) \<Rightarrow> TimeSyncService \<Rightarrow> time_sync_error + TimeSyncService" where
  "AdvanceTimeAndExecuteSimStep sim ts =
     (if lv_state (ts_lifecycle ts) = PS_Paused \<or> lv_state (ts_lifecycle ts) = PS_Running
      then let (hop, tc) = HandleHopOn (ts_timeConfiguration ts);
               ts = ts\<lparr>ts_timeConfiguration := tc\<rparr>;
               (abort, ts) = (if hop then AbortHopOnForCoordinatedParticipants ts else (False, ts))
           in if abort then Inr ts
              else let ts = ts\<lparr>ts_timeConfiguration := AdvanceTimeStep (ts_timeConfiguration ts)\<rparr>
                   in ExecuteSimStep sim (CurrentSimStep (ts_timeConfiguration ts)) ts
      else Inr ts)"

definition AdvanceTimeSimStepSync ::
    "(SimTask \<Rightarrow> lifecycle_view \<Rightarrow> lifecycle_view) \<Rightarrow> TimeSyncService \<Rightarrow> time_sync_error + TimeSyncService" where
  "AdvanceTimeSimStepSync sim ts =
     bindE (AdvanceTimeAndExecuteSimStep sim ts) (\<lambda>ts.
       Inr (if \<not> lv_pauseRequested (ts_lifecycle ts) \<and> \<not> ts_isCoupledToWallClock ts
            then policy_RequestNextStep ts else ts))"

definition AdvanceTimeSimStepAsync ::
    "(SimTask \<Rightarrow> lifecycle_view \<Rightarrow> lifecycle_view) \<Rightarrow> TimeSyncService \<Rightarrow> time_sync_error + TimeSyncService" where
  "AdvanceTimeSimStepAsync sim ts =
     (case ts_timeSyncPolicy ts of
        Some (SynchronizedPolicy e l) \<Rightarrow>
          (if e then Inr ts
           else AdvanceTimeAndExecuteSimStep sim (ts\<lparr>ts_timeSyncPolicy := Some (SynchronizedPolicy True l)\<rparr>))
      | _ \<Rightarrow> Inr ts)"

definition ProcessSimulationTimeUpdate ::
    "(SimTask \<Rightarrow> lifecycle_view \<Rightarrow> lifecycle_view) \<Rightarrow> TimeSyncService \<Rightarrow> time_sync_error + TimeSyncService" where
  "ProcessSimulationTimeUpdate sim ts =
     (case ts_timeSyncPolicy ts of
        Some (SynchronizedPolicy _ _) \<Rightarrow>
          (if IsTimeAdvancePossible ts
           then (if tc_blocking (ts_timeConfiguration ts) then AdvanceTimeSimStepSync sim ts
                 else AdvanceTimeSimStepAsync sim ts)
           else Inr ts)
      | _ \<Rightarrow> Inr ts)"

definition ReceiveNextSimTask ::
    "(SimTask \<Rightarrow> lifecycle_view \<Rightarrow> lifecycle_view) \<Rightarrow> string \<Rightarrow> SimTask \<Rightarrow> TimeSyncService \<Rightarrow> time_sync_error + TimeSyncService" where
  "ReceiveNextSimTask sim from task ts =
     (case ts_timeSyncPolicy ts of
        Some (SynchronizedPolicy _ _) \<Rightarrow>
          (let ts = ts\<lparr>ts_timeConfiguration := OnReceiveNextSimStep from task (ts_timeConfiguration ts)\<rparr>;
               state = lv_state (ts_lifecycle ts)
           in if state \<in> {PS_Paused, PS_Running} then ProcessSimulationTimeUpdate sim ts
              else if state \<in> {PS_Invalid, PS_ServicesCreated, PS_CommunicationInitializing,
                               PS_CommunicationInitialized, PS_ReadyToRun, PS_Stopping, PS_Stopped,
                               PS_Error, PS_ShuttingDown, PS_Shutdown} then Inr ts
              else Inr (ts\<lparr>ts_errors := ts_errors ts + 1\<rparr>))
      | _ \<Rightarrow> Inr ts)"

section \<open>The service\<close>

definition TimeSyncService_new :: "lifecycle_view \<Rightarrow> bool \<Rightarrow> TimeSyncService" where
  "TimeSyncService_new lv coupled =
     \<lparr>ts_lifecycle = lv, ts_timeConfiguration = TimeConfiguration_new, ts_timeSyncPolicy = None,
      ts_isSynchronizingVirtualTime = False, ts_timeSyncConfigured = False, ts_simTask = False,
      ts_isCoupledToWallClock = coupled, ts_currentWallClockSyncPointNs = 0,
      ts_wallClockCouplingThreadRunning = False, ts_wallClockReachedBeforeCompletion = False,
      ts_timeSyncActive = None, ts_now = - (2 ^ 63), ts_sent = [], ts_steps = [], ts_deferred = [],
      ts_aborts = 0, ts_errors = 0\<rparr>"

definition SetSimulationStepHandler :: "int \<Rightarrow> TimeSyncService \<Rightarrow> TimeSyncService" where
  "SetSimulationStepHandler initialStepSize ts =
     ts\<lparr>ts_simTask := True,
        ts_timeConfiguration := SetStepDuration initialStepSize (SetBlockingMode True (ts_timeConfiguration ts))\<rparr>"

definition SetSimulationStepHandlerAsync :: "int \<Rightarrow> TimeSyncService \<Rightarrow> TimeSyncService" where
  "SetSimulationStepHandlerAsync initialStepSize ts =
     ts\<lparr>ts_simTask := True,
        ts_timeConfiguration := SetStepDuration initialStepSize (SetBlockingMode False (ts_timeConfiguration ts))\<rparr>"

definition SetPeriod :: "int \<Rightarrow> TimeSyncService \<Rightarrow> TimeSyncService" where
  "SetPeriod period ts = ts\<lparr>ts_timeConfiguration := SetStepDuration period (ts_timeConfiguration ts)\<rparr>"

definition SetupTimeSyncPolicy :: "bool \<Rightarrow> TimeSyncService \<Rightarrow> bool \<times> TimeSyncService" where
  "SetupTimeSyncPolicy isSynchronizingVirtualTime ts =
     (if ts_timeSyncPolicy ts \<noteq> None then (False, ts)
      else (True, ts\<lparr>ts_timeSyncConfigured := True,
                     ts_timeSyncPolicy := Some (if isSynchronizingVirtualTime then SynchronizedPolicy False (-1)
                                                else UnsynchronizedPolicy)\<rparr>))"

definition ResetTime :: "TimeSyncService \<Rightarrow> TimeSyncService" where
  "ResetTime ts =
     (case ts_timeSyncPolicy ts of
        Some (SynchronizedPolicy _ _) \<Rightarrow>
          ts\<lparr>ts_timeConfiguration := TimeConfiguration_Initialize (ts_timeConfiguration ts)\<rparr>
      | _ \<Rightarrow> ts)"

definition InitializeTimeSyncPolicy :: "bool \<Rightarrow> TimeSyncService \<Rightarrow> TimeSyncService" where
  "InitializeTimeSyncPolicy isSynchronizingVirtualTime ts =
     (let ts = ts\<lparr>ts_isSynchronizingVirtualTime := isSynchronizingVirtualTime\<rparr>;
          (created, ts) = SetupTimeSyncPolicy isSynchronizingVirtualTime ts
      in if \<not> created then ts
         else ResetTime (ts\<lparr>ts_timeSyncActive := Some isSynchronizingVirtualTime\<rparr>))"

definition TimeSync_ReceiveMsg ::
    "(SimTask \<Rightarrow> lifecycle_view \<Rightarrow> lifecycle_view) \<Rightarrow> string \<Rightarrow> SimTask \<Rightarrow> TimeSyncService \<Rightarrow> time_sync_error + TimeSyncService" where
  "TimeSync_ReceiveMsg sim from task ts =
     (if ts_timeSyncPolicy ts \<noteq> None then ReceiveNextSimTask sim from task ts else Inr ts)"

definition TimeSync_RequestNextStep :: "TimeSyncService \<Rightarrow> TimeSyncService" where
  "TimeSync_RequestNextStep ts = ExecuteDeferred DeferRequest ts"

definition CompleteSimulationStep :: "TimeSyncService \<Rightarrow> TimeSyncService" where
  "CompleteSimulationStep ts = ExecuteDeferred DeferComplete ts"

text \<open>
  The actions deferred to the I/O thread. To dereference a policy that does not exist is an error.
\<close>

definition run_action ::
    "(SimTask \<Rightarrow> lifecycle_view \<Rightarrow> lifecycle_view) \<Rightarrow> deferred_action \<Rightarrow> TimeSyncService \<Rightarrow> time_sync_error + TimeSyncService" where
  "run_action sim a ts =
     (if ts_timeSyncPolicy ts = None then Inl NoPolicy
      else case a of
             DeferProcess \<Rightarrow> ProcessSimulationTimeUpdate sim ts
           | DeferRequest \<Rightarrow> Inr (policy_RequestNextStep ts)
           | DeferComplete \<Rightarrow>
               (let ts = SetSimStepCompleted ts
                in if \<not> ts_isCoupledToWallClock ts \<or> ts_wallClockReachedBeforeCompletion ts
                   then Inr (policy_RequestNextStep (ts\<lparr>ts_wallClockReachedBeforeCompletion := False\<rparr>))
                   else Inr ts))"

definition run_deferred ::
    "(SimTask \<Rightarrow> lifecycle_view \<Rightarrow> lifecycle_view) \<Rightarrow> TimeSyncService \<Rightarrow> time_sync_error + TimeSyncService" where
  "run_deferred sim ts =
     (case ts_deferred ts of [] \<Rightarrow> Inr ts | a # as \<Rightarrow> run_action sim a (ts\<lparr>ts_deferred := as\<rparr>))"

definition ParticipantHasAutonomousSynchronousCapability ::
    "(string \<Rightarrow> bool) \<Rightarrow> string \<Rightarrow> TimeSyncService \<Rightarrow> bool" where
  "ParticipantHasAutonomousSynchronousCapability cap participantName ts \<longleftrightarrow>
     \<not> (lv_operationMode (ts_lifecycle ts) = OM_Autonomous \<and> lv_timeSyncActive (ts_lifecycle ts) \<and>
        \<not> cap participantName)"

definition StartTime :: "(string \<Rightarrow> bool) \<Rightarrow> TimeSyncService \<Rightarrow> time_sync_error + TimeSyncService" where
  "StartTime cap ts =
     (if \<not> ts_timeSyncConfigured ts then Inr ts
      else if ts_timeSyncPolicy ts = None then Inl AssertionFailed
      else let missingCapability =
                 list_ex (\<lambda>participantName. \<not> ParticipantHasAutonomousSynchronousCapability cap participantName ts)
                   (GetSynchronizedParticipantNames (ts_timeConfiguration ts));
               ts = (if ts_isSynchronizingVirtualTime ts \<and> missingCapability
                     then ts\<lparr>ts_aborts := ts_aborts ts + 1\<rparr> else ts);
               ts = (if ts_isCoupledToWallClock ts then ts\<lparr>ts_wallClockCouplingThreadRunning := True\<rparr> else ts)
           in Inr (policy_RequestNextStep ts))"

definition StopTime :: "TimeSyncService \<Rightarrow> TimeSyncService" where
  "StopTime ts = (if ts_isCoupledToWallClock ts then ts\<lparr>ts_wallClockCouplingThreadRunning := False\<rparr> else ts)"

text \<open>One round of the wall clock thread, after its wait.\<close>

definition wall_clock_round :: "TimeSyncService \<Rightarrow> TimeSyncService" where
  "wall_clock_round ts =
     (if ts_wallClockCouplingThreadRunning ts \<and> lv_state (ts_lifecycle ts) = PS_Running
      then let ts = ts\<lparr>ts_currentWallClockSyncPointNs :=
                       ts_currentWallClockSyncPointNs ts + duration (NextSimStep (ts_timeConfiguration ts))\<rparr>
           in if IsExecutingSimStep ts then ts\<lparr>ts_wallClockReachedBeforeCompletion := True\<rparr>
              else ExecuteDeferred DeferRequest ts
      else ts)"

text \<open>
  The handler registered with the service discovery: the other participants that take part in the
  time synchronisation join and leave.
\<close>

definition GetSupplementalDataItem :: "string \<Rightarrow> ServiceDescriptor \<Rightarrow> string \<Rightarrow> string" where
  "GetSupplementalDataItem key descriptor value =
     (case map_of (sd_supplementalData descriptor) key of None \<Rightarrow> value | Some v \<Rightarrow> v)"

definition ServiceType_InternalController :: u8 where
  "ServiceType_InternalController = 4"

definition Type_ServiceCreated :: u32 where
  "Type_ServiceCreated = 1"

definition Type_ServiceRemoved :: u32 where
  "Type_ServiceRemoved = 2"

definition OnServiceCreated :: "(string \<Rightarrow> bool) \<Rightarrow> string \<Rightarrow> TimeSyncService \<Rightarrow> TimeSyncService" where
  "OnServiceCreated cap descriptorParticipantName ts =
     (if \<not> ParticipantHasAutonomousSynchronousCapability cap descriptorParticipantName ts
      then ts\<lparr>ts_aborts := ts_aborts ts + 1\<rparr>
      else let ts = ts\<lparr>ts_timeConfiguration :=
                       AddSynchronizedParticipant descriptorParticipantName (ts_timeConfiguration ts)\<rparr>
           in if timePoint (CurrentSimStep (ts_timeConfiguration ts)) \<ge> 0
              then SendMsg (NextSimStep (ts_timeConfiguration ts)) ts else ts)"

definition OnServiceRemoved ::
    "(SimTask \<Rightarrow> lifecycle_view \<Rightarrow> lifecycle_view) \<Rightarrow> string \<Rightarrow> TimeSyncService \<Rightarrow> time_sync_error + TimeSyncService" where
  "OnServiceRemoved sim descriptorParticipantName ts =
     (let (removed, tc) = RemoveSynchronizedParticipant descriptorParticipantName (ts_timeConfiguration ts);
          ts = ts\<lparr>ts_timeConfiguration := tc\<rparr>
      in if removed \<and> ts_timeSyncPolicy ts \<noteq> None then ProcessSimulationTimeUpdate sim ts else Inr ts)"

definition OnServiceDiscovery ::
    "(SimTask \<Rightarrow> lifecycle_view \<Rightarrow> lifecycle_view) \<Rightarrow> (string \<Rightarrow> bool) \<Rightarrow> string \<Rightarrow> ServiceDiscoveryEvent \<Rightarrow>
     TimeSyncService \<Rightarrow> time_sync_error + TimeSyncService" where
  "OnServiceDiscovery sim cap ownName event ts =
     (let descriptor = sde_serviceDescriptor event;
          controllerType = GetSupplementalDataItem ''controller.type'' descriptor [];
          timeSyncActive = GetSupplementalDataItem ''TimeSyncActive'' descriptor []
      in if sd_serviceType descriptor \<noteq> ServiceType_InternalController then Inr ts
         else if controllerType \<noteq> ''TimeSyncService'' then Inr ts
         else if sd_participantName descriptor = ownName then Inr ts
         else if timeSyncActive \<noteq> ''1'' then Inr ts
         else if sde_type event = Type_ServiceCreated then Inr (OnServiceCreated cap (sd_participantName descriptor) ts)
         else if sde_type event = Type_ServiceRemoved then OnServiceRemoved sim (sd_participantName descriptor) ts
         else Inr ts)"

section \<open>One action of one participant\<close>

definition synchronized :: "TimeSyncService \<Rightarrow> bool" where
  "synchronized ts \<longleftrightarrow> (\<exists>e l. ts_timeSyncPolicy ts = Some (SynchronizedPolicy e l)) \<and> ts_simTask ts"

text \<open>Nobody has run ahead of a participant that has not started: there is nothing to hop on to.\<close>

definition no_hop_on :: "TimeConfiguration \<Rightarrow> bool" where
  "no_hop_on tc \<longleftrightarrow> tc_hoppedOn tc \<or> timePoint (tc_currentTask tc) \<noteq> -1 \<or> hop_on_times tc = []"

text \<open>
  Every action either leaves the time alone or executes exactly the next step, and the latter only
  if no other participant is known to be behind; it announces nothing but the next step.
\<close>

definition evolves :: "TimeSyncService \<Rightarrow> TimeSyncService \<Rightarrow> bool" where
  "evolves ts ts' \<longleftrightarrow> synchronized ts' \<and>
     (let tc = ts_timeConfiguration ts; tc' = ts_timeConfiguration ts' in
        (tc' = tc \<and> ts_steps ts' = ts_steps ts \<or>
         \<not> OtherParticipantHasLowerTimepoint tc \<and> tc' = AdvanceTimeStep tc \<and>
           ts_steps ts' = ts_steps ts @ [tc_myNextTask tc]) \<and>
        (\<exists>ms. ts_sent ts' = ts_sent ts @ ms \<and> set ms \<subseteq> {tc_myNextTask tc'}))"

lemma no_hop_on_HandleHopOn: "no_hop_on tc \<Longrightarrow> HandleHopOn tc = (False, tc)"
  by (auto simp: no_hop_on_def HandleHopOn_def)

lemma evolves_refl: "synchronized ts \<Longrightarrow> evolves ts ts"
  by (simp add: evolves_def)

lemma RequestNextStep_same [simp]:
  "ts_timeConfiguration (policy_RequestNextStep ts) = ts_timeConfiguration ts"
  "ts_steps (policy_RequestNextStep ts) = ts_steps ts"
  "ts_lifecycle (policy_RequestNextStep ts) = ts_lifecycle ts"
  "ts_isCoupledToWallClock (policy_RequestNextStep ts) = ts_isCoupledToWallClock ts"
  "ts_timeSyncConfigured (policy_RequestNextStep ts) = ts_timeSyncConfigured ts"
  "synchronized (policy_RequestNextStep ts) = synchronized ts"
  by (auto simp: policy_RequestNextStep_def SendMsg_def ExecuteDeferred_def synchronized_def Let_def
      split: option.split TimeSyncPolicy.split)

lemma RequestNextStep_deferred:
  "set (ts_deferred (policy_RequestNextStep ts)) \<subseteq> set (ts_deferred ts) \<union> {DeferProcess}"
  by (auto simp: policy_RequestNextStep_def SendMsg_def ExecuteDeferred_def Let_def
      split: option.splits TimeSyncPolicy.splits if_splits)

lemma RequestNextStep_sent:
  "\<exists>ms. ts_sent (policy_RequestNextStep ts) = ts_sent ts @ ms \<and>
     set ms \<subseteq> {tc_myNextTask (ts_timeConfiguration ts)}"
  by (auto simp: policy_RequestNextStep_def SendMsg_def ExecuteDeferred_def NextSimStep_def Let_def
      split: option.split TimeSyncPolicy.split)

lemma evolves_trans_request:
  assumes "evolves ts ts'" shows "evolves ts (policy_RequestNextStep ts')"
proof -
  obtain ms where "ts_sent (policy_RequestNextStep ts') = ts_sent ts' @ ms"
    "set ms \<subseteq> {tc_myNextTask (ts_timeConfiguration ts')}"
    using RequestNextStep_sent by blast
  moreover obtain ms' where "ts_sent ts' = ts_sent ts @ ms'" "set ms' \<subseteq> {tc_myNextTask (ts_timeConfiguration ts')}"
    using assms by (auto simp: evolves_def Let_def)
  ultimately have "\<exists>ms. ts_sent (policy_RequestNextStep ts') = ts_sent ts @ ms \<and>
      set ms \<subseteq> {tc_myNextTask (ts_timeConfiguration ts')}"
    by (intro exI[of _ "ms' @ ms"]) auto
  with assms show ?thesis by (simp add: evolves_def Let_def)
qed

lemma evolves_Advance:
  assumes "synchronized ts" "no_hop_on (ts_timeConfiguration ts)"
    "\<not> OtherParticipantHasLowerTimepoint (ts_timeConfiguration ts)"
  shows "\<exists>ts'. AdvanceTimeAndExecuteSimStep sim ts = Inr ts' \<and> evolves ts ts'"
  using assms
  by (auto simp: AdvanceTimeAndExecuteSimStep_def no_hop_on_HandleHopOn ExecuteSimStep_def synchronized_def
      evolves_def CurrentSimStep_def AdvanceTimeStep_def Let_def)

lemma evolves_Process:
  assumes "synchronized ts" "no_hop_on (ts_timeConfiguration ts)"
  shows "\<exists>ts'. ProcessSimulationTimeUpdate sim ts = Inr ts' \<and> evolves ts ts'"
proof (cases "IsTimeAdvancePossible ts")
  case False
  with assms show ?thesis by (auto simp: ProcessSimulationTimeUpdate_def synchronized_def evolves_refl)
next
  case True
  then have low: "\<not> OtherParticipantHasLowerTimepoint (ts_timeConfiguration ts)"
    by (simp add: IsTimeAdvancePossible_def)
  obtain e l where p: "ts_timeSyncPolicy ts = Some (SynchronizedPolicy e l)"
    using assms(1) by (auto simp: synchronized_def)
  obtain ts1 where ts1: "AdvanceTimeAndExecuteSimStep sim ts = Inr ts1" "evolves ts ts1"
    using evolves_Advance[OF assms low] by blast
  define ts0 where "ts0 = ts\<lparr>ts_timeSyncPolicy := Some (SynchronizedPolicy True l)\<rparr>"
  obtain ts2 where ts2: "AdvanceTimeAndExecuteSimStep sim ts0 = Inr ts2" "evolves ts0 ts2"
    using evolves_Advance[of ts0] assms low by (auto simp: ts0_def synchronized_def)
  have "evolves ts ts2" using ts2(2) by (simp add: evolves_def ts0_def)
  with True p ts1 ts2(1) assms(1) show ?thesis
    by (auto simp: ProcessSimulationTimeUpdate_def AdvanceTimeSimStepSync_def AdvanceTimeSimStepAsync_def
        evolves_trans_request evolves_refl ts0_def)
qed


lemma evolves_Receive:
  fixes sender task ts
  defines "ts0 \<equiv> ts\<lparr>ts_timeConfiguration := OnReceiveNextSimStep sender task (ts_timeConfiguration ts)\<rparr>"
  assumes "synchronized ts" "no_hop_on (ts_timeConfiguration ts0)"
  shows "\<exists>ts'. TimeSync_ReceiveMsg sim sender task ts = Inr ts' \<and> evolves ts0 ts'"
proof -
  have s: "synchronized ts0" using assms(2) by (simp add: ts0_def synchronized_def)
  have errors: "evolves ts0 (ts0\<lparr>ts_errors := n\<rparr>)" for n
    using evolves_refl[OF s] by (simp add: evolves_def synchronized_def)
  have "TimeSync_ReceiveMsg sim sender task ts =
     (if lv_state (ts_lifecycle ts0) \<in> {PS_Paused, PS_Running} then ProcessSimulationTimeUpdate sim ts0
      else if lv_state (ts_lifecycle ts0) \<in> {PS_Invalid, PS_ServicesCreated, PS_CommunicationInitializing,
                               PS_CommunicationInitialized, PS_ReadyToRun, PS_Stopping, PS_Stopped,
                               PS_Error, PS_ShuttingDown, PS_Shutdown} then Inr ts0
      else Inr (ts0\<lparr>ts_errors := ts_errors ts0 + 1\<rparr>))"
    using assms(2) by (auto simp: TimeSync_ReceiveMsg_def ReceiveNextSimTask_def synchronized_def ts0_def Let_def)
  then show ?thesis using evolves_Process[OF s assms(3)] evolves_refl[OF s] errors by auto
qed

lemma evolves_action:
  assumes "synchronized ts" "no_hop_on (ts_timeConfiguration ts)"
  shows "\<exists>ts'. run_action sim a ts = Inr ts' \<and> evolves ts ts'"
proof (cases a)
  case DeferProcess
  then show ?thesis using evolves_Process[OF assms] assms(1) by (auto simp: run_action_def synchronized_def)
next
  case DeferRequest
  then show ?thesis
    using evolves_trans_request[OF evolves_refl[OF assms(1)]] assms(1) by (auto simp: run_action_def synchronized_def)
next
  case DeferComplete
  define u where "u = SetSimStepCompleted ts"
  have u: "evolves ts u" "evolves ts (u\<lparr>ts_wallClockReachedBeforeCompletion := False\<rparr>)"
    using assms(1) by (auto simp: u_def SetSimStepCompleted_def evolves_def synchronized_def)
  then show ?thesis
    using DeferComplete assms(1) u evolves_trans_request[OF u(2)]
    by (auto simp: run_action_def synchronized_def u_def[symmetric] Let_def)
qed

lemma evolves_StartTime:
  assumes "synchronized ts" "\<And>n. cap n"
  shows "\<exists>ts'. StartTime cap ts = Inr ts' \<and> evolves ts ts'"
proof -
  have "evolves ts (ts\<lparr>ts_wallClockCouplingThreadRunning := b\<rparr>)" for b
    using evolves_refl[OF assms(1)] by (simp add: evolves_def synchronized_def)
  note this[THEN evolves_trans_request] evolves_refl[OF assms(1), THEN evolves_trans_request]
  then show ?thesis
    using assms evolves_refl[OF assms(1)]
    by (auto simp: StartTime_def ParticipantHasAutonomousSynchronousCapability_def synchronized_def list_ex_iff Let_def)
qed

lemma evolves_quiet:
  assumes "synchronized ts"
  shows "evolves ts (CompleteSimulationStep ts)" "evolves ts (TimeSync_RequestNextStep ts)"
    "evolves ts (wall_clock_round ts)" "evolves ts (StopTime ts)" "evolves ts (ts\<lparr>ts_lifecycle := lv\<rparr>)"
  using assms by (auto simp: evolves_def synchronized_def CompleteSimulationStep_def TimeSync_RequestNextStep_def
      wall_clock_round_def StopTime_def ExecuteDeferred_def Let_def)

end
