(* ===== verification/Time_Simulation.thy ===== *)
theory Time_Simulation
  imports Time_Sync
begin

text \<open>
  The distributed time algorithm: a group of participants, each with the service of Time_Sync,
  that exchange \<^verbatim>\<open>NextSimTask\<close> messages over channels that keep their order (what VAsio_Peer shows
  of a connection). A run is any sequence of events: messages arrive, deferred actions are
  executed, handlers complete, participants pause and continue, the wall clock ticks, in any
  interleaving. The log records the simulation steps of all participants in the order in which
  they are executed.
\<close>

section \<open>Runs\<close>

record world =
  w_ts :: "string \<Rightarrow> TimeSyncService"
  w_chan :: "string \<Rightarrow> string \<Rightarrow> SimTask list"
  w_log :: "(string \<times> SimTask) list"
  w_failed :: bool

datatype sim_event =
    EvStartTime string
  | EvDeferred string
  | EvDeliver string string
  | EvComplete string
  | EvRequestNextStep string
  | EvWallClock string
  | EvStopTime string
  | EvLifecycle string lifecycle_view

text \<open>The effect of an action of one participant on the others: its messages go to every channel.\<close>

definition commit :: "string \<Rightarrow> time_sync_error + TimeSyncService \<Rightarrow> world \<Rightarrow> world" where
  "commit i r w =
     (case r of
        Inl _ \<Rightarrow> w\<lparr>w_failed := True\<rparr>
      | Inr ts \<Rightarrow>
          w\<lparr>w_ts := (w_ts w)(i := ts\<lparr>ts_sent := [], ts_steps := []\<rparr>),
            w_chan := (\<lambda>a b. if a = i \<and> b \<noteq> i then w_chan w a b @ ts_sent ts else w_chan w a b),
            w_log := w_log w @ map (Pair i) (ts_steps ts)\<rparr>)"

fun execute :: "(string \<Rightarrow> SimTask \<Rightarrow> lifecycle_view \<Rightarrow> lifecycle_view) \<Rightarrow> sim_event \<Rightarrow> world \<Rightarrow> world" where
  "execute sim (EvStartTime i) w = commit i (StartTime (\<lambda>_. True) (w_ts w i)) w"
| "execute sim (EvDeferred i) w = commit i (run_deferred (sim i) (w_ts w i)) w"
| "execute sim (EvDeliver i j) w =
     (case w_chan w i j of
        [] \<Rightarrow> w
      | task # tasks \<Rightarrow>
          commit j (TimeSync_ReceiveMsg (sim j) i task (w_ts w j))
            (w\<lparr>w_chan := (w_chan w)(i := (w_chan w i)(j := tasks))\<rparr>))"
| "execute sim (EvComplete i) w = commit i (Inr (CompleteSimulationStep (w_ts w i))) w"
| "execute sim (EvRequestNextStep i) w = commit i (Inr (TimeSync_RequestNextStep (w_ts w i))) w"
| "execute sim (EvWallClock i) w = commit i (Inr (wall_clock_round (w_ts w i))) w"
| "execute sim (EvStopTime i) w = commit i (Inr (StopTime (w_ts w i))) w"
| "execute sim (EvLifecycle i lv) w = commit i (Inr ((w_ts w i)\<lparr>ts_lifecycle := lv\<rparr>)) w"

fun participants_of :: "sim_event \<Rightarrow> string list" where
  "participants_of (EvStartTime i) = [i]"
| "participants_of (EvDeferred i) = [i]"
| "participants_of (EvDeliver i j) = [i, j]"
| "participants_of (EvComplete i) = [i]"
| "participants_of (EvRequestNextStep i) = [i]"
| "participants_of (EvWallClock i) = [i]"
| "participants_of (EvStopTime i) = [i]"
| "participants_of (EvLifecycle i lv) = [i]"

text \<open>
  The group: the names, the step size of each participant, whether its step handler is synchronous,
  whether it is coupled to the wall clock, and its initial lifecycle.
\<close>

record group =
  g_names :: "string list"
  g_stepSize :: "string \<Rightarrow> int"
  g_blocking :: "string \<Rightarrow> bool"
  g_coupled :: "string \<Rightarrow> bool"
  g_lifecycle :: "string \<Rightarrow> lifecycle_view"

definition participant :: "group \<Rightarrow> string \<Rightarrow> TimeSyncService" where
  "participant g i =
     (let ts = TimeSyncService_new (g_lifecycle g i) (g_coupled g i);
          ts = (if g_blocking g i then SetSimulationStepHandler (g_stepSize g i) ts
                else SetSimulationStepHandlerAsync (g_stepSize g i) ts);
          ts = InitializeTimeSyncPolicy True ts
      in fold (OnServiceCreated (\<lambda>_. True)) (filter (\<lambda>j. j \<noteq> i) (g_names g)) ts)"

definition initial_world :: "group \<Rightarrow> world" where
  "initial_world g = \<lparr>w_ts = participant g, w_chan = (\<lambda>_ _. []), w_log = [], w_failed = False\<rparr>"

definition sim_run ::
    "(string \<Rightarrow> SimTask \<Rightarrow> lifecycle_view \<Rightarrow> lifecycle_view) \<Rightarrow> group \<Rightarrow> sim_event list \<Rightarrow> world" where
  "sim_run sim g events = fold (execute sim) events (initial_world g)"

definition group_ok :: "group \<Rightarrow> bool" where
  "group_ok g \<longleftrightarrow> (\<forall>i\<in>set (g_names g). 0 < g_stepSize g i)"

definition events_ok :: "group \<Rightarrow> sim_event list \<Rightarrow> bool" where
  "events_ok g events \<longleftrightarrow> (\<forall>e\<in>set events. set (participants_of e) \<subseteq> set (g_names g))"

section \<open>The invariant\<close>

definition cur_of :: "world \<Rightarrow> string \<Rightarrow> int" where
  "cur_of w i = timePoint (tc_currentTask (ts_timeConfiguration (w_ts w i)))"

definition next_of :: "world \<Rightarrow> string \<Rightarrow> int" where
  "next_of w i = timePoint (tc_myNextTask (ts_timeConfiguration (w_ts w i)))"

text \<open>What is known of \<open>j\<close>, or on its way, never exceeds the next step of \<open>j\<close>.\<close>

definition announced :: "group \<Rightarrow> (string \<Rightarrow> int) \<Rightarrow> string \<Rightarrow> SimTask \<Rightarrow> bool" where
  "announced g nx j task \<longleftrightarrow> timePoint task \<le> nx j \<and>
     (duration task = g_stepSize g j \<or> timePoint task = -1 \<and> duration task = 0)"

definition tc_ok :: "group \<Rightarrow> (string \<Rightarrow> int) \<Rightarrow> string \<Rightarrow> TimeConfiguration \<Rightarrow> bool" where
  "tc_ok g nx i tc \<longleftrightarrow> tc_inv tc \<and> \<not> tc_hoppedOn tc \<and> duration (tc_myNextTask tc) = g_stepSize g i \<and>
     (timePoint (tc_currentTask tc) = -1 \<and> timePoint (tc_myNextTask tc) = 0 \<or>
      0 \<le> timePoint (tc_currentTask tc) \<and>
      timePoint (tc_myNextTask tc) = timePoint (tc_currentTask tc) + g_stepSize g i) \<and>
     (\<forall>j. (\<exists>task. other_task j tc = Some task) \<longleftrightarrow> j \<in> set (g_names g) \<and> j \<noteq> i) \<and>
     (\<forall>j task. other_task j tc = Some task \<longrightarrow> announced g nx j task)"

definition ts_ok :: "group \<Rightarrow> (string \<Rightarrow> int) \<Rightarrow> string \<Rightarrow> TimeSyncService \<Rightarrow> bool" where
  "ts_ok g nx i ts \<longleftrightarrow> synchronized ts \<and> ts_sent ts = [] \<and> ts_steps ts = [] \<and>
     tc_ok g nx i (ts_timeConfiguration ts)"

text \<open>Every participant executes the multiples of its step size, one after the other.\<close>

definition own_steps :: "string \<Rightarrow> (string \<times> SimTask) list \<Rightarrow> SimTask list" where
  "own_steps i log = map snd (filter (\<lambda>entry. fst entry = i) log)"

definition nth_step :: "group \<Rightarrow> string \<Rightarrow> nat \<Rightarrow> SimTask" where
  "nth_step g i k = \<lparr>timePoint = int k * g_stepSize g i, duration = g_stepSize g i\<rparr>"

definition equidistant :: "group \<Rightarrow> world \<Rightarrow> string \<Rightarrow> bool" where
  "equidistant g w i \<longleftrightarrow> (let n = length (own_steps i (w_log w)) in
     own_steps i (w_log w) = map (nth_step g i) [0..<n] \<and> next_of w i = int n * g_stepSize g i)"

definition world_inv :: "group \<Rightarrow> world \<Rightarrow> bool" where
  "world_inv g w \<longleftrightarrow> \<not> w_failed w \<and>
     (\<forall>i\<in>set (g_names g). ts_ok g (next_of w) i (w_ts w i)) \<and>
     (\<forall>i\<in>set (g_names g). \<forall>j. \<forall>task\<in>set (w_chan w i j). announced g (next_of w) i task) \<and>
     (\<forall>i\<in>set (g_names g). \<forall>j\<in>set (g_names g). cur_of w i \<le> next_of w j) \<and>
     (\<forall>i\<in>set (g_names g). equidistant g w i) \<and>
     sorted (map (timePoint \<circ> snd) (w_log w)) \<and>
     (\<forall>(i, task)\<in>set (w_log w). i \<in> set (g_names g) \<and> timePoint task \<le> cur_of w i)"

lemma announced_mono: "announced g nx j task \<Longrightarrow> nx j \<le> nx' j \<Longrightarrow> announced g nx' j task"
  by (auto simp: announced_def)

lemma tc_ok_mono:
  assumes "tc_ok g nx i tc" "\<And>j. j \<in> set (g_names g) \<Longrightarrow> nx j \<le> nx' j"
  shows "tc_ok g nx' i tc"
proof -
  have "announced g nx' j task" if "other_task j tc = Some task" for j task
  proof -
    have "j \<in> set (g_names g)" "announced g nx j task" using assms(1) that by (auto simp: tc_ok_def)
    then show ?thesis using assms(2) announced_mono by blast
  qed
  with assms(1) show ?thesis by (auto simp: tc_ok_def)
qed

lemma tc_ok_AdvanceTimeStep:
  assumes "tc_ok g nx i tc" "0 < g_stepSize g i"
  shows "tc_ok g nx i (AdvanceTimeStep tc)"
  using assms by (auto simp: tc_ok_def AdvanceTimeStep_times AdvanceTimeStep_def Let_def other_task_def tc_inv_def)

lemma tc_ok_OnReceive:
  assumes "tc_ok g nx i tc" "announced g nx j task"
  shows "tc_ok g nx i (OnReceiveNextSimStep j task tc)"
proof -
  have "tc_currentTask (OnReceiveNextSimStep j task tc) = tc_currentTask tc"
    "tc_myNextTask (OnReceiveNextSimStep j task tc) = tc_myNextTask tc"
    "tc_hoppedOn (OnReceiveNextSimStep j task tc) = tc_hoppedOn tc"
    by (simp_all add: OnReceiveNextSimStep_def)
  with assms show ?thesis by (auto simp: tc_ok_def split: if_splits)
qed

text \<open>In such a group nobody hops on.\<close>

lemma world_no_hop_on:
  assumes "world_inv g w" "i \<in> set (g_names g)" "tc_ok g (next_of w) i tc"
    "tc_currentTask tc = tc_currentTask (ts_timeConfiguration (w_ts w i))" "group_ok g"
  shows "no_hop_on tc"
proof (cases "timePoint (tc_currentTask tc) = -1")
  case True
  have inv: "tc_inv tc" using assms(3) by (simp add: tc_ok_def)
  have "next_of w i = 0"
    using True assms(1,2,4) by (auto simp: world_inv_def ts_ok_def tc_ok_def next_of_def)
  have "timePoint task \<le> duration task" if "other_task j tc = Some task" for j task
  proof -
    have j: "j \<in> set (g_names g)" and a: "announced g (next_of w) j task"
      using assms(3) that by (auto simp: tc_ok_def)
    have "cur_of w j \<le> 0" using assms(1,2) j \<open>next_of w i = 0\<close> by (force simp: world_inv_def)
    moreover have "0 < g_stepSize g j" using assms(5) j by (simp add: group_ok_def)
    moreover have "cur_of w j = -1 \<and> next_of w j = 0 \<or> next_of w j = cur_of w j + g_stepSize g j"
      using assms(1) j by (auto simp: world_inv_def ts_ok_def tc_ok_def next_of_def cur_of_def)
    ultimately show ?thesis using a by (auto simp: announced_def)
  qed
  then show ?thesis using hop_on_times_iff[OF inv] by (auto simp: no_hop_on_def)
qed (simp add: no_hop_on_def)

text \<open>The effect of one action on the time configuration of its participant.\<close>

definition advances :: "TimeConfiguration \<Rightarrow> TimeConfiguration \<Rightarrow> SimTask list \<Rightarrow> bool" where
  "advances tc tc' steps \<longleftrightarrow> tc' = tc \<and> steps = [] \<or>
     tc' = AdvanceTimeStep tc \<and> steps = [tc_myNextTask tc] \<and>
     (\<forall>n task. other_task n tc = Some task \<longrightarrow> timePoint (tc_myNextTask tc) \<le> timePoint task)"

lemma evolves_advances:
  assumes "evolves ts ts'" "ts_steps ts = []" "tc_inv (ts_timeConfiguration ts)"
  shows "advances (ts_timeConfiguration ts) (ts_timeConfiguration ts') (ts_steps ts')"
  using assms no_lower_timepoint_iff[OF assms(3)] by (auto simp: evolves_def advances_def Let_def)

lemma advances_tc_ok:
  assumes "advances tc tc' steps" "tc_ok g nx i tc" "0 < g_stepSize g i"
  shows "tc_ok g nx i tc'" "timePoint (tc_myNextTask tc) \<le> timePoint (tc_myNextTask tc')"
  using assms by (auto simp: advances_def tc_ok_AdvanceTimeStep AdvanceTimeStep_times tc_ok_def)

text \<open>A participant that advances is not ahead of any other.\<close>

lemma advances_ahead:
  assumes "advances tc tc' steps" "tc_ok g nx i tc" "steps \<noteq> []" "b \<in> set (g_names g)" "b \<noteq> i"
  shows "timePoint (tc_currentTask tc') \<le> nx b"
proof -
  have "\<exists>task. other_task b tc = Some task"
    using assms(2,4,5) unfolding tc_ok_def by blast
  then obtain task where "other_task b tc = Some task" "announced g nx b task"
    using assms(2) unfolding tc_ok_def by blast
  then show ?thesis using assms(1,3) by (fastforce simp: advances_def announced_def AdvanceTimeStep_times)
qed

lemma advances_log:
  assumes "advances tc tc' steps" "sorted (map (timePoint \<circ> snd) log)"
    "\<forall>(a, task)\<in>set log. a \<in> N \<and> timePoint task \<le> cur a"
    "\<And>a. a \<in> N \<Longrightarrow> cur a \<le> timePoint (tc_myNextTask tc)" "i \<in> N" "cur i = timePoint (tc_currentTask tc)"
  shows "sorted (map (timePoint \<circ> snd) (log @ map (Pair i) steps)) \<and>
    (\<forall>(a, task)\<in>set (log @ map (Pair i) steps).
       a \<in> N \<and> timePoint task \<le> (cur(i := timePoint (tc_currentTask tc'))) a)"
proof (cases "steps = []")
  case True
  then have "cur(i := timePoint (tc_currentTask tc')) = cur" using assms(1,6) by (auto simp: advances_def)
  with True assms(2,3) show ?thesis by simp
next
  case False
  with assms(1) have s: "steps = [tc_myNextTask tc]" "tc' = AdvanceTimeStep tc" by (auto simp: advances_def)
  have "timePoint task \<le> timePoint (tc_myNextTask tc)" if "(a, task) \<in> set log" for a task
    using assms(3) that assms(4)[of a] by fastforce
  with assms(2,3,5) show ?thesis by (fastforce simp: s AdvanceTimeStep_times sorted_append)
qed

text \<open>Committing one action of a participant keeps the invariant.\<close>

lemma commit_times:
  "next_of (commit i (Inr ts') w) = (next_of w)(i := timePoint (tc_myNextTask (ts_timeConfiguration ts')))"
  "cur_of (commit i (Inr ts') w) = (cur_of w)(i := timePoint (tc_currentTask (ts_timeConfiguration ts')))"
  by (simp_all add: fun_eq_iff next_of_def cur_of_def commit_def)

lemma commit_ts_ok:
  assumes "j \<in> set (g_names g) \<Longrightarrow> ts_ok g nx j (w_ts w j)" "j \<in> set (g_names g)"
    "tc_ok g nx i (ts_timeConfiguration ts')" "synchronized ts'"
    "\<And>j. j \<in> set (g_names g) \<Longrightarrow> nx j \<le> nx' j"
  shows "ts_ok g nx' j (w_ts (commit i (Inr ts') w) j)"
  using assms tc_ok_mono[of g nx _ _ nx']
  by (cases "j = i") (auto simp: ts_ok_def commit_def synchronized_def)

lemma commit_chan:
  assumes "task \<in> set (w_chan (commit i (Inr ts') w) a b)" "set (ts_sent ts') \<subseteq> {tc_myNextTask (ts_timeConfiguration ts')}"
  shows "task \<in> set (w_chan w a b) \<or> a = i \<and> task = tc_myNextTask (ts_timeConfiguration ts')"
  using assms by (auto simp: commit_def split: if_splits)

lemma own_steps_commit:
  "own_steps j (w_log (commit i (Inr ts') w)) =
     (if j = i then own_steps i (w_log w) @ ts_steps ts' else own_steps j (w_log w))"
  by (simp add: own_steps_def commit_def filter_map o_def)

lemma commit_equidistant:
  assumes "equidistant g w j" "advances tc (ts_timeConfiguration ts') (ts_steps ts')"
    and "timePoint (tc_myNextTask tc) = next_of w i" "duration (tc_myNextTask tc) = g_stepSize g i"
  shows "equidistant g (commit i (Inr ts') w) j"
proof (cases "j = i \<and> ts_steps ts' \<noteq> []")
  case True
  then have adv: "ts_timeConfiguration ts' = AdvanceTimeStep tc" "ts_steps ts' = [tc_myNextTask tc]"
    using assms(2) by (auto simp: advances_def)
  have "nth_step g i (length (own_steps i (w_log w))) = tc_myNextTask tc"
    using assms True by (simp add: nth_step_def equidistant_def Let_def)
  then show ?thesis
    using assms(1,3,4) True adv
    by (simp add: equidistant_def own_steps_commit commit_times AdvanceTimeStep_times Let_def algebra_simps)
next
  case False
  then have "next_of (commit i (Inr ts') w) j = next_of w j"
    using assms(2,3) by (auto simp: commit_times advances_def)
  then show ?thesis using assms(1) False by (auto simp: equidistant_def own_steps_commit Let_def)
qed

lemma commit_inv:
  assumes inv: "world_inv g w" and g: "group_ok g" and i: "i \<in> set (g_names g)"
    and ts: "ts_ok g (next_of w) i ts"
    and same: "tc_currentTask (ts_timeConfiguration ts) = tc_currentTask (ts_timeConfiguration (w_ts w i))"
      "tc_myNextTask (ts_timeConfiguration ts) = tc_myNextTask (ts_timeConfiguration (w_ts w i))"
    and ev: "evolves ts ts'"
  shows "world_inv g (commit i (Inr ts') w)" (is "world_inv g ?w")
proof -
  define tc where "tc = ts_timeConfiguration ts"
  define tc' where "tc' = ts_timeConfiguration ts'"
  have ok: "tc_ok g (next_of w) i tc" and pos: "0 < g_stepSize g i"
    using ts g i by (simp_all add: ts_ok_def tc_def group_ok_def)
  have tp: "timePoint (tc_myNextTask tc) = next_of w i" "timePoint (tc_currentTask tc) = cur_of w i"
    using same by (simp_all add: tc_def next_of_def cur_of_def)
  have adv: "advances tc tc' (ts_steps ts')"
    using evolves_advances[OF ev] ts ok by (simp add: ts_ok_def tc_ok_def tc_def tc'_def)
  note ok' = advances_tc_ok[OF adv ok pos]
  have sent: "set (ts_sent ts') \<subseteq> {tc_myNextTask tc'}"
    using ev ts by (auto simp: evolves_def ts_ok_def tc'_def Let_def)
  note times = commit_times[of i ts' w, folded tc'_def]
  have mono: "next_of w j \<le> next_of ?w j" for j using ok'(2) by (simp add: times tp)
  have "ts_ok g (next_of ?w) j (w_ts ?w j)" if "j \<in> set (g_names g)" for j
    using inv that ok'(1) ev mono by (intro commit_ts_ok) (auto simp: world_inv_def evolves_def tc'_def)
  moreover have "announced g (next_of ?w) a task" if "a \<in> set (g_names g)" "task \<in> set (w_chan ?w a b)" for a b task
  proof -
    have "task \<in> set (w_chan w a b) \<or> a = i \<and> task = tc_myNextTask tc'"
      using commit_chan that(2) sent unfolding tc'_def by blast
    moreover have "announced g (next_of ?w) i (tc_myNextTask tc')"
      using ok'(1) by (simp add: announced_def times tc_ok_def)
    ultimately show ?thesis using inv that(1) mono unfolding world_inv_def by (blast intro: announced_mono)
  qed
  moreover have "cur_of ?w a \<le> next_of ?w b" if "a \<in> set (g_names g)" "b \<in> set (g_names g)" for a b
  proof (cases "a = i \<and> ts_steps ts' \<noteq> []")
    case False
    then have "cur_of ?w a = cur_of w a" using adv tp by (auto simp: times advances_def)
    then show ?thesis using inv that mono[of b] unfolding world_inv_def by (metis order_trans)
  next
    case True
    have "timePoint (tc_currentTask tc') \<le> timePoint (tc_myNextTask tc')"
      using ok'(1) pos by (auto simp: tc_ok_def)
    then show ?thesis
      using True advances_ahead[OF adv ok _ that(2)] by (cases "b = i") (auto simp: times)
  qed
  moreover have "sorted (map (timePoint \<circ> snd) (w_log ?w)) \<and>
      (\<forall>(a, task)\<in>set (w_log ?w). a \<in> set (g_names g) \<and> timePoint task \<le> cur_of ?w a)"
  proof -
    have "w_log ?w = w_log w @ map (Pair i) (ts_steps ts')" by (simp add: commit_def)
    then show ?thesis
      unfolding times(2) using inv i tp
      by (simp only:) (intro advances_log[OF adv]; simp add: world_inv_def)
  qed
  moreover have "equidistant g ?w j" if "j \<in> set (g_names g)" for j
    using inv that adv tp ok by (intro commit_equidistant[of g w j tc]) (auto simp: world_inv_def tc_ok_def tc'_def)
  ultimately show ?thesis using inv by (auto simp: world_inv_def commit_def)
qed


lemma commit_local_inv:
  assumes "world_inv g w" "group_ok g" "i \<in> set (g_names g)" "\<exists>ts'. r = Inr ts' \<and> evolves ts ts'"
    "ts_ok g (next_of w) i ts" "ts_timeConfiguration ts = ts_timeConfiguration (w_ts w i)"
  shows "world_inv g (commit i r w)"
  using assms commit_inv[of g w i ts] by auto

lemma world_inv_chan:
  "world_inv g w \<Longrightarrow> i \<in> set (g_names g) \<Longrightarrow> task \<in> set (w_chan w i j) \<Longrightarrow> announced g (next_of w) i task"
  unfolding world_inv_def by blast

lemma world_inv_ts: "world_inv g w \<Longrightarrow> i \<in> set (g_names g) \<Longrightarrow> ts_ok g (next_of w) i (w_ts w i)"
  by (simp add: world_inv_def)

lemma pop_inv:
  assumes "world_inv g w" "w_chan w i j = task # tasks"
  shows "world_inv g (w\<lparr>w_chan := (w_chan w)(i := (w_chan w i)(j := tasks))\<rparr>)" (is "world_inv g ?w")
proof -
  have "next_of ?w = next_of w" "cur_of ?w = cur_of w" by (simp_all add: fun_eq_iff next_of_def cur_of_def)
  moreover have "set (w_chan ?w a b) \<subseteq> set (w_chan w a b)" for a b using assms(2) by auto
  then have "announced g (next_of w) a t" if "a \<in> set (g_names g)" "t \<in> set (w_chan ?w a b)" for a b t
    using world_inv_chan[OF assms(1)] that by blast
  ultimately show ?thesis using assms(1) by (simp add: world_inv_def equidistant_def)
qed

lemma deferred_inv:
  assumes inv: "world_inv g w" and g: "group_ok g" and i: "i \<in> set (g_names g)"
  shows "world_inv g (commit i (run_deferred sim (w_ts w i)) w)"
proof (cases "ts_deferred (w_ts w i)")
  case Nil
  then show ?thesis using world_inv_ts[OF inv i] commit_local_inv[OF inv g i]
    by (force simp: run_deferred_def ts_ok_def intro: evolves_refl)
next
  case (Cons a as)
  define ts where "ts = (w_ts w i)\<lparr>ts_deferred := as\<rparr>"
  have ts: "ts_ok g (next_of w) i ts" "synchronized ts" "ts_timeConfiguration ts = ts_timeConfiguration (w_ts w i)"
    using world_inv_ts[OF inv i] by (auto simp: ts_def ts_ok_def synchronized_def)
  then have "no_hop_on (ts_timeConfiguration ts)"
    using inv g i by (intro world_no_hop_on) (auto simp: ts_ok_def)
  then show ?thesis using Cons commit_local_inv[OF inv g i _ ts(1,3)] evolves_action[OF ts(2)]
    by (simp add: run_deferred_def ts_def)
qed

lemma deliver_inv:
  assumes inv: "world_inv g w" and g: "group_ok g" and ij: "i \<in> set (g_names g)" "j \<in> set (g_names g)"
    and task: "w_chan w i j = task # tasks"
  shows "world_inv g (commit j (TimeSync_ReceiveMsg sim i task (w_ts w j))
    (w\<lparr>w_chan := (w_chan w)(i := (w_chan w i)(j := tasks))\<rparr>))" (is "world_inv g (commit j _ ?w)")
proof -
  have w1: "world_inv g ?w" "next_of ?w = next_of w"
    using pop_inv[OF inv task] by (simp_all add: fun_eq_iff next_of_def)
  define ts where "ts = (w_ts w j)\<lparr>ts_timeConfiguration := OnReceiveNextSimStep i task (ts_timeConfiguration (w_ts w j))\<rparr>"
  have same: "tc_currentTask (ts_timeConfiguration ts) = tc_currentTask (ts_timeConfiguration (w_ts w j))"
    "tc_myNextTask (ts_timeConfiguration ts) = tc_myNextTask (ts_timeConfiguration (w_ts w j))"
    by (simp_all add: ts_def OnReceiveNextSimStep_def)
  have ts: "ts_ok g (next_of w) j ts"
    using world_inv_ts[OF inv ij(2)] tc_ok_OnReceive world_inv_chan[OF inv ij(1), of task j] task
    by (simp add: ts_def ts_ok_def synchronized_def)
  then have "no_hop_on (ts_timeConfiguration ts)"
    using inv g ij same by (intro world_no_hop_on) (auto simp: ts_ok_def)
  then obtain ts' where "TimeSync_ReceiveMsg sim i task (w_ts w j) = Inr ts'" "evolves ts ts'"
    using evolves_Receive[of "w_ts w j" i task] world_inv_ts[OF inv ij(2)] unfolding ts_def ts_ok_def by blast
  then show ?thesis using commit_inv[OF w1(1) g ij(2)] ts same w1(2) by simp
qed

lemma execute_inv:
  assumes inv: "world_inv g w" and g: "group_ok g" and e: "set (participants_of e) \<subseteq> set (g_names g)"
  shows "world_inv g (execute sim e w)"
proof -
  have sync: "synchronized (w_ts w i)" if "i \<in> set (g_names g)" for i
    using world_inv_ts[OF inv that] by (simp add: ts_ok_def)
  note local = commit_local_inv[OF inv g _ _ world_inv_ts[OF inv]]
  show ?thesis
  proof (cases e)
    case (EvStartTime i)
    then show ?thesis using e by (auto intro!: local evolves_StartTime sync)
  next
    case (EvDeferred i)
    then show ?thesis using e deferred_inv[OF inv g] by simp
  next
    case (EvDeliver i j)
    then show ?thesis using e inv deliver_inv[OF inv g] by (simp split: list.split)
  qed (use e in \<open>auto intro!: local evolves_quiet[OF sync]\<close>)
qed

section \<open>The start of a group\<close>

lemma fold_AddSynchronizedParticipant:
  "other_task k (fold AddSynchronizedParticipant ns tc) =
     (if k \<in> set ns \<and> other_task k tc = None then Some \<lparr>timePoint = -1, duration = 0\<rparr> else other_task k tc)"
  "tc_inv tc \<Longrightarrow> tc_inv (fold AddSynchronizedParticipant ns tc)"
  "tc_currentTask (fold AddSynchronizedParticipant ns tc) = tc_currentTask tc"
  "tc_myNextTask (fold AddSynchronizedParticipant ns tc) = tc_myNextTask tc"
  "tc_hoppedOn (fold AddSynchronizedParticipant ns tc) = tc_hoppedOn tc"
proof -
  have "tc_currentTask (AddSynchronizedParticipant n tc) = tc_currentTask tc \<and>
    tc_myNextTask (AddSynchronizedParticipant n tc) = tc_myNextTask tc \<and>
    tc_hoppedOn (AddSynchronizedParticipant n tc) = tc_hoppedOn tc" for n tc
    by (simp add: AddSynchronizedParticipant_def)
  then show "tc_currentTask (fold AddSynchronizedParticipant ns tc) = tc_currentTask tc"
    "tc_myNextTask (fold AddSynchronizedParticipant ns tc) = tc_myNextTask tc"
    "tc_hoppedOn (fold AddSynchronizedParticipant ns tc) = tc_hoppedOn tc"
    by (induction ns arbitrary: tc) auto
  show "other_task k (fold AddSynchronizedParticipant ns tc) =
     (if k \<in> set ns \<and> other_task k tc = None then Some \<lparr>timePoint = -1, duration = 0\<rparr> else other_task k tc)"
    by (induction ns arbitrary: tc) auto
  show "tc_inv tc \<Longrightarrow> tc_inv (fold AddSynchronizedParticipant ns tc)"
    by (induction ns arbitrary: tc) auto
qed

lemma fold_OnServiceCreated:
  "timePoint (tc_currentTask (ts_timeConfiguration ts)) = -1 \<Longrightarrow>
     fold (OnServiceCreated (\<lambda>_. True)) ns ts =
     ts\<lparr>ts_timeConfiguration := fold AddSynchronizedParticipant ns (ts_timeConfiguration ts)\<rparr>"
proof (induction ns arbitrary: ts)
  case (Cons n ns)
  have "OnServiceCreated (\<lambda>_. True) n ts =
      ts\<lparr>ts_timeConfiguration := AddSynchronizedParticipant n (ts_timeConfiguration ts)\<rparr>"
    using Cons.prems
    by (simp add: OnServiceCreated_def ParticipantHasAutonomousSynchronousCapability_def CurrentSimStep_def
        AddSynchronizedParticipant_def Let_def)
  moreover have "timePoint (tc_currentTask (AddSynchronizedParticipant n (ts_timeConfiguration ts))) = -1"
    using Cons.prems by (simp add: AddSynchronizedParticipant_def)
  ultimately show ?case using Cons.IH by simp
qed simp

definition initial_tc :: "group \<Rightarrow> string \<Rightarrow> TimeConfiguration" where
  "initial_tc g i =
     \<lparr>tc_currentTask = \<lparr>timePoint = -1, duration = 0\<rparr>,
      tc_myNextTask = \<lparr>timePoint = 0, duration = g_stepSize g i\<rparr>,
      tc_otherNextTasks = [], tc_blocking = g_blocking g i, tc_hoppedOn = False\<rparr>"

lemma participant_eq:
  "ts_timeConfiguration (participant g i) =
     fold AddSynchronizedParticipant (filter (\<lambda>j. j \<noteq> i) (g_names g)) (initial_tc g i)"
  "synchronized (participant g i)" "ts_sent (participant g i) = []" "ts_steps (participant g i) = []"
  by (auto simp: participant_def fold_OnServiceCreated InitializeTimeSyncPolicy_def SetupTimeSyncPolicy_def ResetTime_def
      SetSimulationStepHandler_def SetSimulationStepHandlerAsync_def TimeSyncService_new_def TimeConfiguration_new_def
      TimeConfiguration_Initialize_def SetStepDuration_def SetBlockingMode_def initial_tc_def synchronized_def Let_def)

lemma initial_inv: "world_inv g (initial_world g)"
proof -
  have next_of: "next_of (initial_world g) = (\<lambda>_. 0)" and cur_of: "cur_of (initial_world g) = (\<lambda>_. -1)"
    by (simp_all add: fun_eq_iff next_of_def cur_of_def initial_world_def participant_eq fold_AddSynchronizedParticipant
        initial_tc_def)
  have tc: "tc_inv (initial_tc g i)" "other_task k (initial_tc g i) = None"
    "tc_currentTask (initial_tc g i) = \<lparr>timePoint = -1, duration = 0\<rparr>"
    "tc_myNextTask (initial_tc g i) = \<lparr>timePoint = 0, duration = g_stepSize g i\<rparr>"
    "\<not> tc_hoppedOn (initial_tc g i)" for i k
    by (simp_all add: initial_tc_def tc_inv_def other_task_def)
  have "tc_ok g (\<lambda>_. 0) i (ts_timeConfiguration (participant g i))" for i
    by (auto simp: participant_eq tc_ok_def fold_AddSynchronizedParticipant tc announced_def)
  then have "ts_ok g (\<lambda>_. 0) i (w_ts (initial_world g) i)" for i
    by (simp add: ts_ok_def initial_world_def participant_eq)
  moreover have "w_chan (initial_world g) = (\<lambda>_ _. [])" "w_log (initial_world g) = []" "\<not> w_failed (initial_world g)"
    by (simp_all add: initial_world_def)
  ultimately show ?thesis by (simp add: world_inv_def next_of cur_of equidistant_def own_steps_def)
qed

lemma sim_run_inv:
  assumes "group_ok g" "events_ok g events"
  shows "world_inv g (sim_run sim g events)"
proof -
  have "world_inv g w \<Longrightarrow> world_inv g (fold (execute sim) events w)" for w
    using assms(2) by (induction events arbitrary: w) (auto simp: events_ok_def execute_inv[OF _ assms(1)])
  then show ?thesis by (simp add: sim_run_def initial_inv)
qed

section \<open>Properties of the simulation\<close>

text \<open>
  C2. Causality: in every run of a group, whatever the interleaving of messages, deferred actions,
  completions, stops and pauses and whatever the step handlers do, the simulation steps of all
  participants are executed in the order of their virtual times, no participant is ever inside a step
  that lies behind the next step of another one, and no exception escapes.
\<close>

theorem steps_respect_virtual_time:
  assumes "group_ok g" "events_ok g events" "w = sim_run sim g events"
  shows "sorted (map (timePoint \<circ> snd) (w_log w)) \<and> \<not> w_failed w \<and>
     (\<forall>i\<in>set (g_names g). \<forall>j\<in>set (g_names g). cur_of w i \<le> next_of w j)"
  using sim_run_inv[OF assms(1,2), of sim] assms(3) by (simp add: world_inv_def)

text \<open>Two participants with different step sizes, and a run in which both execute steps.\<close>

definition sample_view :: lifecycle_view where
  "sample_view = \<lparr>lv_state = PS_Running, lv_stopRequested = False, lv_pauseRequested = False,
     lv_operationMode = OM_Coordinated, lv_timeSyncActive = True, lv_systemState = SS_Running\<rparr>"

definition sample_group :: group where
  "sample_group = \<lparr>g_names = [''A'', ''B''], g_stepSize = (\<lambda>i. if i = ''A'' then 1000 else 2000),
     g_blocking = (\<lambda>_. True), g_coupled = (\<lambda>_. False), g_lifecycle = (\<lambda>_. sample_view)\<rparr>"

definition sample_events :: "sim_event list" where
  "sample_events = [EvStartTime ''A'', EvStartTime ''B'', EvDeliver ''A'' ''B'', EvDeliver ''B'' ''A'',
     EvDeferred ''A'', EvDeferred ''B'', EvDeliver ''A'' ''B'', EvDeliver ''B'' ''A'', EvDeferred ''A'', EvDeferred ''B'']"

lemma sample_group_ok: "group_ok sample_group" "events_ok sample_group sample_events"
  by code_simp+

lemma sample_log: "map fst (w_log (sim_run (\<lambda>_ _ lv. lv) sample_group sample_events)) = [''B'', ''A'', ''A'', ''A'']"
  by code_simp

theorem steps_respect_virtual_time_witness:
  "sorted (map (timePoint \<circ> snd) (w_log (sim_run (\<lambda>_ _ lv. lv) sample_group sample_events)))"
  using steps_respect_virtual_time[OF sample_group_ok refl, of "\<lambda>_ _ lv. lv"] by blast

text \<open>
  C26. The steps of one participant are exactly the multiples of its step size from zero on,
  without gaps and repetitions, each with the step size as its duration.
\<close>

theorem steps_are_equidistant:
  assumes "group_ok g" "events_ok g events" "i \<in> set (g_names g)" "log = w_log (sim_run sim g events)"
  shows "own_steps i log = map (nth_step g i) [0..<length (own_steps i log)]"
  using sim_run_inv[OF assms(1,2), of sim] assms(3,4) by (simp add: world_inv_def equidistant_def Let_def)

theorem steps_are_equidistant_witness:
  "own_steps ''A'' (w_log (sim_run (\<lambda>_ _ lv. lv) sample_group sample_events)) =
     [\<lparr>timePoint = 0, duration = 1000\<rparr>, \<lparr>timePoint = 1000, duration = 1000\<rparr>, \<lparr>timePoint = 2000, duration = 1000\<rparr>]"
proof -
  let ?log = "w_log (sim_run (\<lambda>_ _ lv. lv) sample_group sample_events)"
  have "length (own_steps ''A'' ?log) = 3" by code_simp
  moreover have "''A'' \<in> set (g_names sample_group)" by (simp add: sample_group_def)
  ultimately have "own_steps ''A'' ?log = map (nth_step sample_group ''A'') [0..<3]"
    using steps_are_equidistant[OF sample_group_ok _ refl, of "''A''" "\<lambda>_ _ lv. lv"] by metis
  then show ?thesis by (simp add: sample_group_def nth_step_def upt_rec)
qed

end
