(* ===== verification/Time_Progress.thy ===== *)
theory Time_Progress
  imports Time_Simulation
begin

text \<open>
  Progress of the distributed time algorithm: as long as the participants run undisturbed (running,
  no stop or pause request, synchronous step handlers, no wall clock), some message or deferred
  action is always pending, and working through the pending ones executes the next step.
\<close>

section \<open>Undisturbed participants\<close>

definition running_view :: "lifecycle_view \<Rightarrow> bool" where
  "running_view lv \<longleftrightarrow> lv_state lv = PS_Running \<and> \<not> lv_stopRequested lv \<and> \<not> lv_pauseRequested lv \<and>
     \<not> (lv_operationMode lv = OM_Coordinated \<and> lv_systemState lv = SS_Error)"

definition undisturbed :: "group \<Rightarrow> bool" where
  "undisturbed g \<longleftrightarrow> (\<forall>i\<in>set (g_names g). running_view (g_lifecycle g i) \<and> g_blocking g i \<and> \<not> g_coupled g i)"

fun calm_event :: "sim_event \<Rightarrow> bool" where
  "calm_event (EvStartTime i) = True"
| "calm_event (EvDeferred i) = True"
| "calm_event (EvDeliver i j) = (i \<noteq> j)"
| "calm_event _ = False"

text \<open>Step handlers that neither stop nor pause the participant.\<close>

definition keep_view :: "string \<Rightarrow> SimTask \<Rightarrow> lifecycle_view \<Rightarrow> lifecycle_view" where
  "keep_view _ _ lv = lv"

definition last_sent :: "TimeSyncService \<Rightarrow> int" where
  "last_sent ts = (case ts_timeSyncPolicy ts of Some (SynchronizedPolicy _ l) \<Rightarrow> l | _ \<Rightarrow> -1)"

definition calm :: "TimeSyncService \<Rightarrow> bool" where
  "calm ts \<longleftrightarrow> synchronized ts \<and> ts_timeSyncConfigured ts \<and> running_view (ts_lifecycle ts) \<and> \<not> ts_isCoupledToWallClock ts \<and>
     tc_blocking (ts_timeConfiguration ts) \<and> set (ts_deferred ts) \<subseteq> {DeferProcess}"

text \<open>The state after a step, before the next one is requested.\<close>

definition stepped :: "TimeSyncService \<Rightarrow> TimeSyncService" where
  "stepped ts = ts\<lparr>ts_timeConfiguration := AdvanceTimeStep (ts_timeConfiguration ts),
     ts_now := timePoint (tc_myNextTask (ts_timeConfiguration ts)),
     ts_steps := ts_steps ts @ [tc_myNextTask (ts_timeConfiguration ts)]\<rparr>"

lemma stepped_tc [simp]: "ts_timeConfiguration (stepped ts) = AdvanceTimeStep (ts_timeConfiguration ts)"
  by (simp add: stepped_def)

lemma calm_simps [simp]:
  "calm ts \<Longrightarrow> calm (stepped ts)"
  "calm (ts\<lparr>ts_sent := a, ts_steps := b\<rparr>) = calm ts"
  by (auto simp: calm_def stepped_def synchronized_def AdvanceTimeStep_def Let_def)

lemma calm_RequestNextStep [simp]: "calm ts \<Longrightarrow> calm (policy_RequestNextStep ts)"
  using RequestNextStep_deferred[of ts] by (auto simp: calm_def)

lemma calm_request:
  assumes "calm ts"
  shows "last_sent (policy_RequestNextStep ts) = timePoint (tc_myNextTask (ts_timeConfiguration ts))"
    "ts_sent (policy_RequestNextStep ts) = ts_sent ts @
       (if last_sent ts = timePoint (tc_myNextTask (ts_timeConfiguration ts)) then []
        else [tc_myNextTask (ts_timeConfiguration ts)])"
    "ts_deferred (policy_RequestNextStep ts) = ts_deferred ts @ [DeferProcess]"
  using assms by (auto simp: calm_def synchronized_def running_view_def policy_RequestNextStep_def SendMsg_def
      ExecuteDeferred_def NextSimStep_def last_sent_def Let_def)

lemma calm_Process:
  assumes "calm ts" "no_hop_on (ts_timeConfiguration ts)"
  shows "ProcessSimulationTimeUpdate (keep_view i) ts =
     Inr (if OtherParticipantHasLowerTimepoint (ts_timeConfiguration ts) then ts
          else policy_RequestNextStep (stepped ts))"
proof -
  obtain e l where p: "ts_timeSyncPolicy ts = Some (SynchronizedPolicy e l)"
    using assms(1) by (auto simp: calm_def synchronized_def)
  have adv: "IsTimeAdvancePossible ts \<longleftrightarrow> \<not> OtherParticipantHasLowerTimepoint (ts_timeConfiguration ts)"
    using assms(1) by (auto simp: IsTimeAdvancePossible_def calm_def running_view_def)
  have step: "AdvanceTimeAndExecuteSimStep (keep_view i) ts = Inr (stepped ts)"
    using assms by (auto simp: AdvanceTimeAndExecuteSimStep_def no_hop_on_HandleHopOn ExecuteSimStep_def stepped_def
        calm_def synchronized_def running_view_def CurrentSimStep_def AdvanceTimeStep_def keep_view_def Let_def)
  have "\<not> lv_pauseRequested (ts_lifecycle (stepped ts))" "\<not> ts_isCoupledToWallClock (stepped ts)"
    using assms(1) by (auto simp: stepped_def calm_def running_view_def)
  with p adv step assms(1) show ?thesis
    by (simp add: ProcessSimulationTimeUpdate_def AdvanceTimeSimStepSync_def calm_def)
qed

text \<open>What an undisturbed participant does in one event.\<close>

inductive moves :: "TimeSyncService \<Rightarrow> TimeSyncService \<Rightarrow> bool" where
  wait: "OtherParticipantHasLowerTimepoint (ts_timeConfiguration ts) \<Longrightarrow> moves ts ts"
| request: "moves ts (policy_RequestNextStep ts)"
| advance: "\<not> OtherParticipantHasLowerTimepoint (ts_timeConfiguration ts) \<Longrightarrow>
    moves ts (policy_RequestNextStep (stepped ts))"

lemma calm_Process_moves:
  "calm ts \<Longrightarrow> no_hop_on (ts_timeConfiguration ts) \<Longrightarrow>
     \<exists>ts'. ProcessSimulationTimeUpdate (keep_view i) ts = Inr ts' \<and> moves ts ts' \<and>
       (ts' = ts \<or> ts_steps ts' = ts_steps ts @ [tc_myNextTask (ts_timeConfiguration ts)])"
  by (auto simp: calm_Process intro: moves.intros) (simp add: stepped_def)

lemma moves_calm: "moves ts ts' \<Longrightarrow> calm ts \<Longrightarrow> calm ts'"
  by (cases rule: moves.cases) auto

section \<open>Nothing is forgotten\<close>

definition known :: "world \<Rightarrow> string \<Rightarrow> string \<Rightarrow> SimTask" where
  "known w i j = the (other_task i (ts_timeConfiguration (w_ts w j)))"

text \<open>The last thing that \<open>j\<close> will have heard of \<open>i\<close> is the next step of \<open>i\<close>.\<close>

definition heard :: "group \<Rightarrow> world \<Rightarrow> string \<Rightarrow> bool" where
  "heard g w i \<longleftrightarrow> (\<forall>j\<in>set (g_names g). j \<noteq> i \<longrightarrow>
     last (known w i j # w_chan w i j) = tc_myNextTask (ts_timeConfiguration (w_ts w i)))"

definition awake :: "TimeSyncService \<Rightarrow> bool" where
  "awake ts \<longleftrightarrow> ts_deferred ts \<noteq> [] \<or> OtherParticipantHasLowerTimepoint (ts_timeConfiguration ts)"

definition live_at :: "group \<Rightarrow> world \<Rightarrow> string \<Rightarrow> bool" where
  "live_at g w i \<longleftrightarrow> calm (w_ts w i) \<and>
     (last_sent (w_ts w i) \<noteq> -1 \<longrightarrow>
        last_sent (w_ts w i) = next_of w i \<and> heard g w i \<and> awake (w_ts w i))"

definition live :: "group \<Rightarrow> world \<Rightarrow> bool" where
  "live g w \<longleftrightarrow> world_inv g w \<and> (\<forall>i\<in>set (g_names g). live_at g w i)"

lemma tc_ok_member:
  "tc_ok g nx i tc \<Longrightarrow> other_task j tc = Some task \<Longrightarrow> j \<in> set (g_names g) \<and> j \<noteq> i"
  unfolding tc_ok_def by blast

text \<open>The least of the next steps can be taken: a quiet group would have a participant that may advance.\<close>

lemma pending_work:
  assumes "live g w" "g_names g \<noteq> []" "\<forall>i\<in>set (g_names g). last_sent (w_ts w i) \<noteq> -1"
  shows "(\<exists>i\<in>set (g_names g). ts_deferred (w_ts w i) \<noteq> []) \<or>
     (\<exists>i\<in>set (g_names g). \<exists>j\<in>set (g_names g). i \<noteq> j \<and> w_chan w i j \<noteq> [])"
proof (rule ccontr)
  assume quiet: "\<not> ?thesis"
  define i where "i = arg_min_on (next_of w) (set (g_names g))"
  have i: "i \<in> set (g_names g)" "\<And>j. j \<in> set (g_names g) \<Longrightarrow> next_of w i \<le> next_of w j"
    using arg_min_if_finite[of "set (g_names g)" "next_of w"] assms(2)
    by (auto simp: i_def not_less)
  have at: "live_at g w j" "ts_ok g (next_of w) j (w_ts w j)" if "j \<in> set (g_names g)" for j
    using assms(1) that by (auto simp: live_def world_inv_def)
  have told: "timePoint (known w j i) = next_of w j" if "j \<in> set (g_names g)" "j \<noteq> i" for j
  proof -
    have "heard g w j" using at(1)[OF that(1)] assms(3) that(1) by (simp add: live_at_def)
    moreover have "w_chan w j i = []" using quiet that i(1) by blast
    ultimately show ?thesis using that(2) i(1) by (force simp: heard_def next_of_def)
  qed
  have "timePoint (tc_myNextTask (ts_timeConfiguration (w_ts w i))) \<le> timePoint task"
    if "other_task j (ts_timeConfiguration (w_ts w i)) = Some task" for j task
  proof -
    have "tc_ok g (next_of w) i (ts_timeConfiguration (w_ts w i))" using at(2)[OF i(1)] by (simp add: ts_ok_def)
    then have "j \<in> set (g_names g)" "j \<noteq> i" using tc_ok_member that by blast+
    then show ?thesis using told[of j] i(2)[of j] that by (simp add: known_def next_of_def)
  qed
  moreover have "tc_inv (ts_timeConfiguration (w_ts w i))" using at(2)[OF i(1)] by (simp add: ts_ok_def tc_ok_def)
  ultimately have "\<not> OtherParticipantHasLowerTimepoint (ts_timeConfiguration (w_ts w i))"
    using no_lower_timepoint_iff by blast
  then have "ts_deferred (w_ts w i) \<noteq> []" using at(1)[OF i(1)] assms(3) i(1) by (simp add: live_at_def awake_def)
  with quiet i(1) show False by blast
qed


section \<open>The invariant is kept\<close>

lemma moves_other_task: "moves ts ts' \<Longrightarrow> other_task k (ts_timeConfiguration ts') = other_task k (ts_timeConfiguration ts)"
  by (cases rule: moves.cases) (auto simp: stepped_def)

lemma moves_sent:
  assumes "moves ts ts'" "calm ts" "ts_sent ts = []" "tc_ok g nx i (ts_timeConfiguration ts)" "0 < g_stepSize g i"
    "last_sent ts \<noteq> -1 \<Longrightarrow> last_sent ts = timePoint (tc_myNextTask (ts_timeConfiguration ts))" "last_sent ts' \<noteq> -1"
  shows "last_sent ts' = timePoint (tc_myNextTask (ts_timeConfiguration ts')) \<and> awake ts' \<and>
    (ts_sent ts' = [tc_myNextTask (ts_timeConfiguration ts')] \<or>
     ts_sent ts' = [] \<and> last_sent ts \<noteq> -1 \<and> ts_timeConfiguration ts' = ts_timeConfiguration ts)"
  using assms(1)
proof cases
  case wait
  then show ?thesis using assms by (auto simp: awake_def)
next
  case request
  have "0 \<le> timePoint (tc_myNextTask (ts_timeConfiguration ts))" using assms(4,5) by (auto simp: tc_ok_def)
  then show ?thesis using request calm_request[OF assms(2)] assms(3) by (auto simp: awake_def)
next
  case advance
  have l: "last_sent (stepped ts) = last_sent ts" "ts_sent (stepped ts) = []"
    using assms(3) by (simp_all add: last_sent_def stepped_def)
  have "0 \<le> timePoint (tc_myNextTask (ts_timeConfiguration ts))" "0 < duration (tc_myNextTask (ts_timeConfiguration ts))"
    using assms(4,5) by (auto simp: tc_ok_def)
  then have "last_sent ts \<noteq> timePoint (tc_myNextTask (ts_timeConfiguration (stepped ts)))"
    using assms(6) by (cases "last_sent ts = -1") (auto simp: stepped_def AdvanceTimeStep_times)
  then show ?thesis
    using advance calm_request[of "stepped ts"] assms(2) l by (simp add: awake_def)
qed

lemma heard_cong:
  assumes "heard g w k" "\<And>j. j \<in> set (g_names g) \<Longrightarrow> j \<noteq> k \<Longrightarrow> known w' k j = known w k j \<and> w_chan w' k j = w_chan w k j"
    "tc_myNextTask (ts_timeConfiguration (w_ts w' k)) = tc_myNextTask (ts_timeConfiguration (w_ts w k))"
  shows "heard g w' k"
  using assms by (simp add: heard_def)

lemma moves_live:
  assumes inv: "world_inv g (commit i (Inr ts') w)" and others: "\<And>k. k \<in> set (g_names g) \<Longrightarrow> k \<noteq> i \<Longrightarrow> live_at g w k"
    and i: "i \<in> set (g_names g)" "group_ok g" and ts: "calm (w_ts w i)" "ts_ok g (next_of w) i (w_ts w i)"
    and heard: "last_sent (w_ts w i) \<noteq> -1 \<Longrightarrow> last_sent (w_ts w i) = next_of w i \<and> heard g w i"
    and mv: "moves (w_ts w i) ts'"
  shows "live g (commit i (Inr ts') w)" (is "live g ?w")
proof -
  have known: "known ?w k j = known w k j" for k j
    using moves_other_task[OF mv] by (simp add: known_def commit_def)
  have "live_at g ?w k" if "k \<in> set (g_names g)" "k \<noteq> i" for k
  proof -
    have k: "w_ts ?w k = w_ts w k" "w_chan ?w k j = w_chan w k j" "next_of ?w k = next_of w k" for j
      using that(2) by (simp_all add: commit_def next_of_def)
    have "heard g w k \<Longrightarrow> heard g ?w k" by (erule heard_cong) (simp_all add: known k)
    then show ?thesis using others[OF that] by (auto simp: live_at_def k)
  qed
  moreover have "live_at g ?w i"
  proof -
    define ts0 where "ts0 = w_ts w i"
    have eq: "w_ts ?w i = ts'\<lparr>ts_sent := [], ts_steps := []\<rparr>" by (simp add: commit_def)
    then have same: "last_sent (w_ts ?w i) = last_sent ts'" "awake (w_ts ?w i) = awake ts'" "calm (w_ts ?w i) = calm ts'"
      "next_of ?w i = timePoint (tc_myNextTask (ts_timeConfiguration ts'))"
      by (simp_all add: last_sent_def awake_def next_of_def)
    have "last_sent ts' = next_of ?w i \<and> heard g ?w i \<and> awake ts'" if "last_sent ts' \<noteq> -1"
    proof -
      have pos: "0 < g_stepSize g i" using i by (simp add: group_ok_def)
      have sent: "last_sent ts' = timePoint (tc_myNextTask (ts_timeConfiguration ts')) \<and> awake ts' \<and>
        (ts_sent ts' = [tc_myNextTask (ts_timeConfiguration ts')] \<or>
         ts_sent ts' = [] \<and> last_sent ts0 \<noteq> -1 \<and> ts_timeConfiguration ts' = ts_timeConfiguration ts0)"
        using moves_sent[OF mv ts(1) _ _ pos _ that] ts(2) heard by (auto simp: ts_ok_def ts0_def next_of_def)
      have "heard g ?w i"
        using sent heard
        by (auto simp: heard_def known eq ts0_def) (auto simp: commit_def)
      with sent show ?thesis by (simp add: same)
    qed
    then show ?thesis using moves_calm[OF mv ts(1)] by (simp add: live_at_def same)
  qed
  ultimately show ?thesis using inv by (auto simp: live_def)
qed


lemma commit_self: "ts_sent (w_ts w i) = [] \<Longrightarrow> ts_steps (w_ts w i) = [] \<Longrightarrow> commit i (Inr (w_ts w i)) w = w"
proof -
  assume "ts_sent (w_ts w i) = []" "ts_steps (w_ts w i) = []"
  moreover from this have "(w_ts w i)\<lparr>ts_sent := [], ts_steps := []\<rparr> = w_ts w i" by (cases "w_ts w i") simp
  ultimately show ?thesis by (cases w) (simp add: commit_def fun_eq_iff)
qed

lemma commit_override: "commit i (Inr ts') (w\<lparr>w_ts := (w_ts w)(i := ts)\<rparr>) = commit i (Inr ts') w"
  by (cases w) (simp add: commit_def cong: if_cong)

lemma last_sent_commit: "last_sent (w_ts (commit i (Inr ts') w) k) = (if k = i then last_sent ts' else last_sent (w_ts w k))"
  by (simp add: commit_def last_sent_def)

text \<open>The world as it is when the participant acts: its state is \<open>ts\<close>.\<close>

lemma live_at_override:
  assumes "live_at g w k" "k \<noteq> i" "\<And>n. n \<noteq> m \<Longrightarrow> other_task n (ts_timeConfiguration ts) = other_task n (ts_timeConfiguration (w_ts w i))"
    "k \<noteq> m"
  shows "live_at g (w\<lparr>w_ts := (w_ts w)(i := ts)\<rparr>) k" (is "live_at g ?w k")
proof -
  have "heard g w k \<Longrightarrow> heard g ?w k"
    using assms(2-4) by (elim heard_cong) (auto simp: known_def)
  then show ?thesis using assms(1,2) by (auto simp: live_at_def next_of_def)
qed

lemma StartTime_calm: "calm ts \<Longrightarrow> StartTime (\<lambda>_. True) ts = Inr (policy_RequestNextStep ts)"
  by (auto simp: StartTime_def calm_def synchronized_def ParticipantHasAutonomousSynchronousCapability_def list_ex_iff
      Let_def)

lemma start_live:
  assumes "live g w" "group_ok g" "i \<in> set (g_names g)"
  shows "live g (execute sim (EvStartTime i) w)" "last_sent (w_ts (execute sim (EvStartTime i) w) i) \<noteq> -1"
proof -
  have at: "live_at g w k" "ts_ok g (next_of w) k (w_ts w k)" if "k \<in> set (g_names g)" for k
    using assms(1) that by (auto simp: live_def world_inv_def)
  have calm: "calm (w_ts w i)" using at(1)[OF assms(3)] by (simp add: live_at_def)
  have eq: "execute sim (EvStartTime i) w = commit i (Inr (policy_RequestNextStep (w_ts w i))) w"
    by (simp add: StartTime_calm[OF calm])
  have "world_inv g (execute sim (EvStartTime i) w)"
    using assms by (intro execute_inv) (auto simp: live_def)
  then show "live g (execute sim (EvStartTime i) w)"
    unfolding eq using at assms(2,3) by (intro moves_live moves.request) (auto simp: live_at_def)
  have "0 \<le> timePoint (tc_myNextTask (ts_timeConfiguration (w_ts w i)))"
    using at(2)[OF assms(3)] assms(2,3) by (auto simp: ts_ok_def tc_ok_def group_ok_def)
  then show "last_sent (w_ts (execute sim (EvStartTime i) w) i) \<noteq> -1"
    using calm_request(1)[OF calm] unfolding eq by (simp add: last_sent_commit)
qed


lemma moves_started:
  assumes "moves ts ts'" "calm ts" "tc_ok g nx i (ts_timeConfiguration ts)" "0 < g_stepSize g i" "last_sent ts \<noteq> -1"
  shows "last_sent ts' \<noteq> -1"
proof -
  have "0 \<le> timePoint (tc_myNextTask (ts_timeConfiguration ts))" "0 < duration (tc_myNextTask (ts_timeConfiguration ts))"
    using assms(3,4) by (auto simp: tc_ok_def)
  note pos = this
  show ?thesis
    using assms(1)
  proof cases
    case advance
    then have "last_sent ts' = timePoint (tc_myNextTask (AdvanceTimeStep (ts_timeConfiguration ts)))"
      using calm_request(1)[OF calm_simps(1)[OF assms(2)]] by simp
    with pos show ?thesis by (simp add: AdvanceTimeStep_times)
  qed (use assms(2,5) calm_request(1)[of ts] pos in auto)
qed

text \<open>One pending deferred action or message: either it is used up, or a step is executed.\<close>

definition useful :: "TimeSyncService \<Rightarrow> TimeSyncService \<Rightarrow> bool" where
  "useful ts ts' \<longleftrightarrow> ts' = ts \<or> ts_steps ts' \<noteq> []"

lemma act_live:
  fixes w i ts
  defines "w0 \<equiv> w\<lparr>w_ts := (w_ts w)(i := ts)\<rparr>"
  assumes inv: "world_inv g (commit i r w)" and g: "group_ok g" "i \<in> set (g_names g)"
    and others: "\<And>k. k \<in> set (g_names g) \<Longrightarrow> k \<noteq> i \<Longrightarrow> live_at g w0 k"
    and ts: "calm ts" "ts_ok g (next_of w) i ts"
    and nxt: "tc_myNextTask (ts_timeConfiguration ts) = tc_myNextTask (ts_timeConfiguration (w_ts w i))"
    and heard: "last_sent ts \<noteq> -1 \<Longrightarrow> last_sent ts = next_of w i \<and> heard g w0 i"
    and r: "r = ProcessSimulationTimeUpdate (keep_view i) ts" "no_hop_on (ts_timeConfiguration ts)"
  shows "\<exists>ts'. r = Inr ts' \<and> useful ts ts' \<and> live g (commit i r w) \<and>
    (\<forall>k. (if k = i then last_sent ts else last_sent (w_ts w k)) \<noteq> -1 \<longrightarrow> last_sent (w_ts (commit i r w) k) \<noteq> -1)"
proof -
  obtain ts' where ts': "r = Inr ts'" "moves ts ts'"
    "ts' = ts \<or> ts_steps ts' = ts_steps ts @ [tc_myNextTask (ts_timeConfiguration ts)]"
    using calm_Process_moves[OF ts(1) r(2)] r(1) by metis
  have nx: "next_of w0 = next_of w" using nxt by (auto simp: w0_def next_of_def fun_eq_iff)
  have w0: "commit i (Inr ts') w0 = commit i r w" unfolding w0_def ts'(1) by (rule commit_override)
  have w0_i: "w_ts w0 i = ts" by (simp add: w0_def)
  have "live g (commit i (Inr ts') w0)"
  proof (rule moves_live)
    show "last_sent (w_ts w0 i) \<noteq> -1 \<Longrightarrow> last_sent (w_ts w0 i) = next_of w0 i \<and> heard g w0 i"
      using heard by (simp add: w0_i nx)
  qed (use inv others g ts ts'(2) in \<open>simp_all add: w0 w0_i nx\<close>)
  moreover have "useful ts ts'" using ts'(3) by (auto simp: useful_def)
  moreover have "last_sent ts' \<noteq> -1" if "last_sent ts \<noteq> -1"
    using moves_started[OF ts'(2) ts(1) _ _ that] ts(2) g by (auto simp: ts_ok_def group_ok_def)
  ultimately show ?thesis by (simp add: w0 ts'(1) last_sent_commit)
qed

lemma deferred_live:
  fixes w i
  defines "ts \<equiv> (w_ts w i)\<lparr>ts_deferred := tl (ts_deferred (w_ts w i))\<rparr>"
  assumes live: "live g w" and g: "group_ok g" "i \<in> set (g_names g)" and d: "ts_deferred (w_ts w i) \<noteq> []"
  shows "\<exists>ts'. execute keep_view (EvDeferred i) w = commit i (Inr ts') w \<and> useful ts ts' \<and>
    live g (execute keep_view (EvDeferred i) w) \<and>
    (\<forall>k. last_sent (w_ts w k) \<noteq> -1 \<longrightarrow> last_sent (w_ts (execute keep_view (EvDeferred i) w) k) \<noteq> -1)"
proof -
  have at: "live_at g w k" "ts_ok g (next_of w) k (w_ts w k)" if "k \<in> set (g_names g)" for k
    using live that by (auto simp: live_def world_inv_def)
  have calm: "calm (w_ts w i)" using at(1)[OF g(2)] by (simp add: live_at_def)
  then obtain as where as: "ts_deferred (w_ts w i) = DeferProcess # as" "set as \<subseteq> {DeferProcess}"
    using d by (cases "ts_deferred (w_ts w i)") (auto simp: calm_def)
  have ts: "calm ts" "ts_ok g (next_of w) i ts" "last_sent ts = last_sent (w_ts w i)"
    "ts_timeConfiguration ts = ts_timeConfiguration (w_ts w i)"
    using calm as at(2)[OF g(2)] by (auto simp: ts_def calm_def synchronized_def ts_ok_def last_sent_def)
  define r where "r = ProcessSimulationTimeUpdate (keep_view i) ts"
  have eq: "execute keep_view (EvDeferred i) w = commit i r w"
    using as calm by (auto simp: run_deferred_def run_action_def ts_def r_def calm_def synchronized_def)
  have inv: "world_inv g (commit i r w)"
    unfolding eq[symmetric] using live g by (intro execute_inv) (auto simp: live_def)
  have heard: "heard g (w\<lparr>w_ts := (w_ts w)(i := ts)\<rparr>) i" if "heard g w i"
    using that ts(4) by (elim heard_cong) (auto simp: known_def)
  have hop: "no_hop_on (ts_timeConfiguration ts)"
    using live g ts(2,4) by (intro world_no_hop_on[of g w i]) (auto simp: live_def ts_ok_def)
  have others: "live_at g (w\<lparr>w_ts := (w_ts w)(i := ts)\<rparr>) k" if "k \<in> set (g_names g)" "k \<noteq> i" for k
    using at(1)[OF that(1)] that(2) ts(4) by (intro live_at_override[where m = i]) auto
  note act = act_live[OF inv g others ts(1,2) _ _ r_def hop]
  have "\<exists>ts'. r = Inr ts' \<and> useful ts ts' \<and> live g (commit i r w) \<and>
    (\<forall>k. (if k = i then last_sent ts else last_sent (w_ts w k)) \<noteq> -1 \<longrightarrow> last_sent (w_ts (commit i r w) k) \<noteq> -1)"
    using ts(3,4) at(1)[OF g(2)] heard by (intro act) (auto simp: live_at_def)
  then show ?thesis unfolding eq ts(3) by (metis (full_types))
qed


text \<open>The world just before \<open>j\<close> looks at a message it has taken from the channel.\<close>

lemma deliver_heard:
  fixes w i j tasks
  defines "w1 \<equiv> w\<lparr>w_chan := (w_chan w)(i := (w_chan w i)(j := tasks))\<rparr>"
  assumes chan: "w_chan w i j = task # tasks" and "i \<noteq> j"
    and ts: "tc_myNextTask (ts_timeConfiguration ts) = tc_myNextTask (ts_timeConfiguration (w_ts w j))"
      "\<And>n. other_task n (ts_timeConfiguration ts) =
         (if n = i then Some task else other_task n (ts_timeConfiguration (w_ts w j)))"
    and heard: "heard g w k"
  shows "heard g (w1\<lparr>w_ts := (w_ts w1)(j := ts)\<rparr>) k" (is "heard g ?w0 k")
proof -
  have next': "tc_myNextTask (ts_timeConfiguration (w_ts ?w0 k)) = tc_myNextTask (ts_timeConfiguration (w_ts w k))"
    using ts(1) by (simp add: w1_def)
  show ?thesis
  proof (cases "k = i")
    case False
    then show ?thesis using heard next' ts(2) by (elim heard_cong) (auto simp: known_def w1_def)
  next
    case True
    have "last (known ?w0 i n # w_chan ?w0 i n) = last (known w i n # w_chan w i n)" for n
      using chan ts(2) by (auto simp: known_def w1_def)
    then show ?thesis using heard next' True by (simp add: heard_def)
  qed
qed

lemma deliver_live:
  fixes w i j tasks task
  defines "ts \<equiv> (w_ts w j)\<lparr>ts_timeConfiguration := OnReceiveNextSimStep i task (ts_timeConfiguration (w_ts w j))\<rparr>"
    and "w1 \<equiv> w\<lparr>w_chan := (w_chan w)(i := (w_chan w i)(j := tasks))\<rparr>"
  assumes live: "live g w" and g: "group_ok g" "i \<in> set (g_names g)" "j \<in> set (g_names g)" "i \<noteq> j"
    and chan: "w_chan w i j = task # tasks"
  shows "\<exists>ts'. execute keep_view (EvDeliver i j) w = commit j (Inr ts') w1 \<and> useful ts ts' \<and>
    live g (execute keep_view (EvDeliver i j) w) \<and>
    (\<forall>k. last_sent (w_ts w k) \<noteq> -1 \<longrightarrow> last_sent (w_ts (execute keep_view (EvDeliver i j) w) k) \<noteq> -1)"
proof -
  have inv: "world_inv g w" and at: "\<And>k. k \<in> set (g_names g) \<Longrightarrow> live_at g w k" using live by (auto simp: live_def)
  note ok = world_inv_ts[OF inv g(3)]
  have calm: "calm (w_ts w j)" using at[OF g(3)] by (simp add: live_at_def)
  have "\<exists>t. other_task i (ts_timeConfiguration (w_ts w j)) = Some t"
    using ok g(2,4) unfolding ts_ok_def tc_ok_def by blast
  then have other: "other_task n (ts_timeConfiguration ts) =
      (if n = i then Some task else other_task n (ts_timeConfiguration (w_ts w j)))" for n
    by (auto simp: ts_def)
  have same: "tc_myNextTask (ts_timeConfiguration ts) = tc_myNextTask (ts_timeConfiguration (w_ts w j))"
    "tc_currentTask (ts_timeConfiguration ts) = tc_currentTask (ts_timeConfiguration (w_ts w j))"
    "last_sent ts = last_sent (w_ts w j)" "next_of w1 = next_of w" "w_ts w1 = w_ts w"
    by (auto simp: ts_def OnReceiveNextSimStep_def last_sent_def w1_def next_of_def fun_eq_iff)
  have ts: "calm ts" "ts_ok g (next_of w1) j ts"
    using calm ok tc_ok_OnReceive world_inv_chan[OF inv g(2), of task j] chan
    by (auto simp: ts_def calm_def synchronized_def ts_ok_def same(4) OnReceiveNextSimStep_def)
  define r where "r = ProcessSimulationTimeUpdate (keep_view j) ts"
  have eq: "execute keep_view (EvDeliver i j) w = commit j r w1"
    using chan calm by (auto simp: TimeSync_ReceiveMsg_def ReceiveNextSimTask_def calm_def synchronized_def running_view_def
        ts_def w1_def r_def Let_def)
  have inv': "world_inv g (commit j r w1)"
    unfolding eq[symmetric] using inv g by (intro execute_inv) auto
  have heard: "heard g (w1\<lparr>w_ts := (w_ts w1)(j := ts)\<rparr>) k" if "heard g w k" for k
    unfolding w1_def using deliver_heard[OF chan g(4) same(1) other that] by simp
  have others: "live_at g (w1\<lparr>w_ts := (w_ts w1)(j := ts)\<rparr>) k" if "k \<in> set (g_names g)" "k \<noteq> j" for k
    using at[OF that(1)] that(2) heard[of k] by (auto simp: live_at_def next_of_def w1_def)
  have hop: "no_hop_on (ts_timeConfiguration ts)"
    using inv g ts(2) same by (intro world_no_hop_on[of g w j]) (auto simp: ts_ok_def)
  note act = act_live[OF inv' g(1,3) others ts _ _ r_def hop]
  have "\<exists>ts'. r = Inr ts' \<and> useful ts ts' \<and> live g (commit j r w1) \<and>
    (\<forall>k. (if k = j then last_sent ts else last_sent (w_ts w1 k)) \<noteq> -1 \<longrightarrow> last_sent (w_ts (commit j r w1) k) \<noteq> -1)"
    using same at[OF g(3)] heard[of j] by (intro act) (auto simp: live_at_def)
  then show ?thesis unfolding eq same(3,5) by (metis (full_types))
qed

section \<open>Progress\<close>

definition pending :: "group \<Rightarrow> world \<Rightarrow> nat" where
  "pending g w = (\<Sum>i\<in>set (g_names g). length (ts_deferred (w_ts w i))) +
     (\<Sum>(i, j)\<in>set (g_names g) \<times> set (g_names g). length (w_chan w i j))"

definition started :: "group \<Rightarrow> world \<Rightarrow> bool" where
  "started g w \<longleftrightarrow> (\<forall>i\<in>set (g_names g). last_sent (w_ts w i) \<noteq> -1)"

definition calm_events :: "group \<Rightarrow> sim_event list \<Rightarrow> bool" where
  "calm_events g events \<longleftrightarrow> events_ok g events \<and> list_all calm_event events"

lemma pending_less_deferred:
  assumes "i \<in> set (g_names g)" "length (ts_deferred ts) < length (ts_deferred (w_ts w i))" "ts_sent ts = []"
  shows "pending g (commit i (Inr ts) w) < pending g w"
proof -
  let ?w = "commit i (Inr ts) w"
  have "w_chan ?w = w_chan w" using assms(3) by (auto simp: commit_def fun_eq_iff)
  moreover have "(\<Sum>i\<in>set (g_names g). length (ts_deferred (w_ts ?w i))) <
      (\<Sum>i\<in>set (g_names g). length (ts_deferred (w_ts w i)))"
    using assms by (intro sum_strict_mono_ex1) (auto simp: commit_def intro!: bexI[of _ i])
  ultimately show ?thesis by (simp add: pending_def)
qed

lemma pending_less_chan:
  fixes w i j tasks
  defines "w1 \<equiv> w\<lparr>w_chan := (w_chan w)(i := (w_chan w i)(j := tasks))\<rparr>"
  assumes "i \<in> set (g_names g)" "j \<in> set (g_names g)" "w_chan w i j = task # tasks"
    "ts_deferred ts = ts_deferred (w_ts w j)" "ts_sent ts = []"
  shows "pending g (commit j (Inr ts) w1) < pending g w"
proof -
  let ?w = "commit j (Inr ts) w1"
  have "ts_deferred (w_ts ?w k) = ts_deferred (w_ts w k)" for k
    using assms(5) by (simp add: commit_def w1_def)
  moreover have "w_chan ?w = w_chan w1" using assms(6) by (auto simp: commit_def fun_eq_iff)
  moreover have "(\<Sum>(i, j)\<in>set (g_names g) \<times> set (g_names g). length (w_chan w1 i j)) <
      (\<Sum>(i, j)\<in>set (g_names g) \<times> set (g_names g). length (w_chan w i j))"
    using assms(2-4) by (intro sum_strict_mono_ex1) (auto simp: w1_def intro!: bexI[of _ i] bexI[of _ j])
  ultimately show ?thesis by (simp add: pending_def)
qed

lemma commit_log_grows: "ts_steps ts' \<noteq> [] \<Longrightarrow> length (w_log (commit i (Inr ts') w)) > length (w_log w)"
  by (simp add: commit_def)

text \<open>There is always an event that uses up pending work or executes a step.\<close>

lemma next_event:
  assumes "live g w" "group_ok g" "started g w" "g_names g \<noteq> []"
  shows "\<exists>e. calm_event e \<and> set (participants_of e) \<subseteq> set (g_names g) \<and> live g (execute keep_view e w) \<and>
    started g (execute keep_view e w) \<and>
    (length (w_log (execute keep_view e w)) > length (w_log w) \<or>
     w_log (execute keep_view e w) = w_log w \<and> pending g (execute keep_view e w) < pending g w)"
  using pending_work[OF assms(1,4) assms(3)[unfolded started_def]]
proof (elim disjE bexE conjE)
  fix i
  assume i: "i \<in> set (g_names g)" "ts_deferred (w_ts w i) \<noteq> []"
  define ts where "ts = (w_ts w i)\<lparr>ts_deferred := tl (ts_deferred (w_ts w i))\<rparr>"
  have ok: "ts_sent ts = []" "ts_steps ts = []"
    using assms(1) i(1) by (auto simp: live_def world_inv_def ts_ok_def ts_def)
  obtain ts' where ts': "execute keep_view (EvDeferred i) w = commit i (Inr ts') w" "useful ts ts'"
    "live g (execute keep_view (EvDeferred i) w)" "started g (execute keep_view (EvDeferred i) w)"
    using deferred_live[OF assms(1,2) i] assms(3) unfolding ts_def started_def by blast
  have "w_log (commit i (Inr ts) w) = w_log w" using ok by (simp add: commit_def)
  moreover have "pending g (commit i (Inr ts) w) < pending g w"
    using i ok(1) by (intro pending_less_deferred) (simp_all add: ts_def)
  ultimately show ?thesis using ts' i(1)
    by (intro exI[of _ "EvDeferred i"]) (auto simp: useful_def commit_log_grows)
next
  fix i j
  assume ij: "i \<in> set (g_names g)" "j \<in> set (g_names g)" "i \<noteq> j" "w_chan w i j \<noteq> []"
  then obtain task tasks where chan: "w_chan w i j = task # tasks" by (cases "w_chan w i j") auto
  define ts where "ts = (w_ts w j)\<lparr>ts_timeConfiguration := OnReceiveNextSimStep i task (ts_timeConfiguration (w_ts w j))\<rparr>"
  define w1 where "w1 = w\<lparr>w_chan := (w_chan w)(i := (w_chan w i)(j := tasks))\<rparr>"
  have ok: "ts_sent ts = []" "ts_steps ts = []"
    using assms(1) ij(2) by (auto simp: live_def world_inv_def ts_ok_def ts_def)
  obtain ts' where ts': "execute keep_view (EvDeliver i j) w = commit j (Inr ts') w1" "useful ts ts'"
    "live g (execute keep_view (EvDeliver i j) w)" "started g (execute keep_view (EvDeliver i j) w)"
    using deliver_live[OF assms(1,2) ij(1-3) chan] assms(3) unfolding ts_def w1_def started_def by blast
  have "w_log w1 = w_log w" "w_log (commit j (Inr ts) w1) = w_log w" using ok by (simp_all add: commit_def w1_def)
  moreover have "pending g (commit j (Inr ts) w1) < pending g w"
    unfolding w1_def using ij chan ok(1) by (intro pending_less_chan) (simp_all add: ts_def)
  ultimately show ?thesis using ts' ij
      commit_log_grows[of ts' w1 j]
    by (intro exI[of _ "EvDeliver i j"]) (auto simp: useful_def)
qed


lemma next_step:
  assumes "live g w" "group_ok g" "started g w" "g_names g \<noteq> []"
  shows "\<exists>es. calm_events g es \<and> live g (fold (execute keep_view) es w) \<and>
    started g (fold (execute keep_view) es w) \<and> length (w_log (fold (execute keep_view) es w)) > length (w_log w)"
  using assms(1,3)
proof (induction "pending g w" arbitrary: w rule: less_induct)
  case less
  obtain e where e: "calm_event e" "set (participants_of e) \<subseteq> set (g_names g)" "live g (execute keep_view e w)"
    "started g (execute keep_view e w)"
    "length (w_log (execute keep_view e w)) > length (w_log w) \<or>
     w_log (execute keep_view e w) = w_log w \<and> pending g (execute keep_view e w) < pending g w"
    using next_event[OF less.prems(1) assms(2) less.prems(2) assms(4)] by blast
  show ?case
  proof (cases "length (w_log (execute keep_view e w)) > length (w_log w)")
    case True
    then show ?thesis using e by (intro exI[of _ "[e]"]) (auto simp: calm_events_def events_ok_def)
  next
    case False
    then obtain es where "calm_events g es" "live g (fold (execute keep_view) es (execute keep_view e w))"
      "started g (fold (execute keep_view) es (execute keep_view e w))"
      "length (w_log (fold (execute keep_view) es (execute keep_view e w))) > length (w_log (execute keep_view e w))"
      using less.hyps[of "execute keep_view e w"] e by auto
    then show ?thesis using False e by (intro exI[of _ "e # es"]) (auto simp: calm_events_def events_ok_def)
  qed
qed

lemma steps_for_ever:
  assumes "live g w" "group_ok g" "started g w" "g_names g \<noteq> []"
  shows "\<exists>es. calm_events g es \<and> length (w_log (fold (execute keep_view) es w)) \<ge> length (w_log w) + n"
  using assms(1,3)
proof (induction n arbitrary: w)
  case 0
  show ?case by (rule exI[of _ "[]"]) (simp add: calm_events_def events_ok_def)
next
  case (Suc n)
  obtain es where es: "calm_events g es" "live g (fold (execute keep_view) es w)" "started g (fold (execute keep_view) es w)"
    "length (w_log (fold (execute keep_view) es w)) > length (w_log w)"
    using next_step[OF Suc.prems(1) assms(2) Suc.prems(2) assms(4)] by blast
  obtain es' where "calm_events g es'"
    "length (w_log (fold (execute keep_view) es' (fold (execute keep_view) es w))) \<ge>
       length (w_log (fold (execute keep_view) es w)) + n"
    using Suc.IH[OF es(2,3)] by blast
  with es show ?case by (intro exI[of _ "es @ es'"]) (auto simp: calm_events_def events_ok_def)
qed

section \<open>Runs of an undisturbed group\<close>

lemma initial_live:
  assumes "undisturbed g" shows "live g (initial_world g)"
proof -
  have "tc_blocking (fold AddSynchronizedParticipant ns tc) = tc_blocking tc" for ns tc
    by (induction ns arbitrary: tc) (simp_all add: AddSynchronizedParticipant_def)
  moreover have "ts_lifecycle (participant g i) = g_lifecycle g i" "ts_isCoupledToWallClock (participant g i) = g_coupled g i"
    "ts_deferred (participant g i) = []" "last_sent (participant g i) = -1" "ts_timeSyncConfigured (participant g i)" for i
    by (auto simp: participant_def fold_OnServiceCreated InitializeTimeSyncPolicy_def SetupTimeSyncPolicy_def ResetTime_def
        SetSimulationStepHandler_def SetSimulationStepHandlerAsync_def TimeSyncService_new_def TimeConfiguration_new_def
        TimeConfiguration_Initialize_def SetStepDuration_def SetBlockingMode_def last_sent_def Let_def)
  ultimately have "live_at g (initial_world g) i" if "i \<in> set (g_names g)" for i
    using assms that by (simp add: live_at_def initial_world_def calm_def participant_eq undisturbed_def initial_tc_def)
  then show ?thesis by (simp add: live_def initial_inv)
qed

lemma calm_event_live:
  assumes "live g w" "group_ok g" "calm_event e" "set (participants_of e) \<subseteq> set (g_names g)"
  shows "live g (execute keep_view e w) \<and>
    (\<forall>k. last_sent (w_ts w k) \<noteq> -1 \<or> e = EvStartTime k \<longrightarrow> last_sent (w_ts (execute keep_view e w) k) \<noteq> -1)"
proof (cases e)
  case (EvStartTime i)
  then have i: "i \<in> set (g_names g)" using assms(4) by simp
  have "last_sent (w_ts (execute keep_view (EvStartTime i) w) k) = last_sent (w_ts w k)" if "k \<noteq> i" for k
    using that by (simp add: commit_def split: sum.split)
  then show ?thesis using EvStartTime start_live[OF assms(1,2) i, of keep_view] by (metis sim_event.inject(1))
next
  case (EvDeferred i)
  then have i: "i \<in> set (g_names g)" using assms(4) by simp
  then have "ts_sent (w_ts w i) = []" "ts_steps (w_ts w i) = []"
    using assms(1) by (auto simp: live_def world_inv_def ts_ok_def)
  then show ?thesis
    using EvDeferred assms(1) deferred_live[OF assms(1,2) i]
    by (cases "ts_deferred (w_ts w i) = []") (auto simp: run_deferred_def commit_self)
next
  case (EvDeliver i j)
  then have ij: "i \<in> set (g_names g)" "j \<in> set (g_names g)" "i \<noteq> j" using assms(3,4) by auto
  show ?thesis
  proof (cases "w_chan w i j")
    case Nil
    then show ?thesis using EvDeliver assms(1) by simp
  next
    case (Cons task tasks)
    then show ?thesis using EvDeliver deliver_live[OF assms(1,2) ij] by blast
  qed
qed (use assms(3) in auto)

lemma calm_run_live:
  assumes "group_ok g" "calm_events g events" "live g w"
  shows "live g (fold (execute keep_view) events w)"
    "last_sent (w_ts w k) \<noteq> -1 \<or> EvStartTime k \<in> set events \<Longrightarrow>
       last_sent (w_ts (fold (execute keep_view) events w) k) \<noteq> -1"
proof -
  have "live g (fold (execute keep_view) events w) \<and>
    (last_sent (w_ts w k) \<noteq> -1 \<or> EvStartTime k \<in> set events \<longrightarrow>
       last_sent (w_ts (fold (execute keep_view) events w) k) \<noteq> -1)" if "live g w" for w
    using assms(2) that
  proof (induction events arbitrary: w)
    case (Cons e es)
    then have "calm_event e" "set (participants_of e) \<subseteq> set (g_names g)" "calm_events g es"
      by (auto simp: calm_events_def events_ok_def)
    with calm_event_live[OF Cons.prems(2) assms(1)] Cons.IH[of "execute keep_view e w"] show ?case by auto
  qed simp
  from this[OF assms(3)] show "live g (fold (execute keep_view) events w)"
    "last_sent (w_ts w k) \<noteq> -1 \<or> EvStartTime k \<in> set events \<Longrightarrow>
       last_sent (w_ts (fold (execute keep_view) events w) k) \<noteq> -1"
    by auto
qed

lemma undisturbed_run_progress:
  assumes "group_ok g" "undisturbed g" "g_names g \<noteq> []" "calm_events g events"
    "\<forall>i\<in>set (g_names g). EvStartTime i \<in> set events"
  shows "\<exists>es. calm_events g es \<and> length (w_log (sim_run keep_view g (events @ es))) \<ge> n"
proof -
  define w where "w = sim_run keep_view g events"
  have "live g w" "started g w"
    using calm_run_live[OF assms(1,4) initial_live[OF assms(2)]] assms(5)
    by (auto simp: w_def sim_run_def started_def)
  then obtain es where "calm_events g es" "length (w_log (fold (execute keep_view) es w)) \<ge> length (w_log w) + n"
    using steps_for_ever[OF _ assms(1) _ assms(3)] by blast
  then show ?thesis by (intro exI[of _ es]) (auto simp: w_def sim_run_def)
qed

text \<open>
  C3. Progress: in a group of undisturbed participants that have all started, any run can be
  continued, by delivering messages and executing deferred actions alone, until any number of steps
  has been executed. The algorithm never reaches a deadlock.
\<close>

theorem simulation_never_deadlocks:
  assumes "group_ok g" "undisturbed g" "g_names g \<noteq> []" "calm_events g events"
    and "\<forall>i\<in>set (g_names g). EvStartTime i \<in> set events"
  shows "\<exists>es. calm_events g es \<and> n \<le> length (w_log (sim_run keep_view g (events @ es)))"
  using undisturbed_run_progress[OF assms] by blast

theorem simulation_never_deadlocks_witness:
  "\<exists>es. calm_events sample_group es \<and>
     1000 \<le> length (w_log (sim_run keep_view sample_group (sample_events @ es)))"
proof -
  have "undisturbed sample_group" "calm_events sample_group sample_events"
      "\<forall>i\<in>set (g_names sample_group). EvStartTime i \<in> set sample_events" "g_names sample_group \<noteq> []"
    by code_simp+
  then show ?thesis by (intro simulation_never_deadlocks sample_group_ok)
qed

end
