(* ===== verification/Request_Reply.thy ===== *)
theory Request_Reply
  imports Service_Messages "HOL-Library.AList"
begin

text \<open>
  \<^verbatim>\<open>RequestReplyService\<close> (core/requests/RequestReplyService.cpp) and its only procedure
  \<^verbatim>\<open>ParticipantReplies\<close> (core/requests/procs/ParticipantReplies.cpp): the barrier with which the
  lifecycle waits until every other participant has answered. Completion functions are values of a
  type parameter; those executed are recorded in \<open>pr_completed\<close>. The random identifier of a call and
  the names of the current receivers are arguments of the operations that ask for them. The fields
  \<open>rr_\<close> are those of the service, the fields \<open>pr_\<close> those of the procedure.
\<close>

section \<open>State\<close>

datatype rr_error = InvalidFunctionType | UnknownCallUuid | DuplicateCallUuid | UnknownFunctionType

definition FunctionType_Invalid :: u16 where "FunctionType_Invalid = 0"
definition FunctionType_ParticipantReplies :: u16 where "FunctionType_ParticipantReplies = 1"
definition CallReturnStatus_Success :: u16 where "CallReturnStatus_Success = 0"
definition CallReturnStatus_UnknownFunctionType :: u16 where "CallReturnStatus_UnknownFunctionType = 1"
definition CallReturnStatus_ProcedureError :: u16 where "CallReturnStatus_ProcedureError = 2"
definition CallReturnStatus_RecipientDisconnected :: u16 where "CallReturnStatus_RecipientDisconnected = 3"

record 'c RequestReplyService =
  rr_participantDisconnectCallReturns :: "(string \<times> (Uuid \<times> RequestReplyCallReturn) list) list"
  rr_requestReplyInitiatorByCallUuid :: "(Uuid \<times> string) list"
  rr_sentCalls :: "RequestReplyCall list"
  rr_sentReturns :: "(string \<times> RequestReplyCallReturn) list"
  pr_barrierActive :: bool
  pr_expectedParticipantsToSendCallReturns :: "string list"
  pr_completionFunction :: "'c option"
  pr_activeUuid :: Uuid
  pr_deferred :: "'c list"
  pr_completed :: "'c list"

definition RequestReplyService_new :: "Uuid \<Rightarrow> 'c RequestReplyService" where
  "RequestReplyService_new nil =
     \<lparr>rr_participantDisconnectCallReturns = [], rr_requestReplyInitiatorByCallUuid = [],
      rr_sentCalls = [], rr_sentReturns = [], pr_barrierActive = False,
      pr_expectedParticipantsToSendCallReturns = [], pr_completionFunction = None,
      pr_activeUuid = nil, pr_deferred = [], pr_completed = []\<rparr>"

section \<open>Operations\<close>

definition disconnect_message :: "Uuid \<Rightarrow> u16 \<Rightarrow> RequestReplyCallReturn" where
  "disconnect_message callUuid functionType =
     \<lparr>rrr_callUuid = callUuid, rrr_functionType = functionType, rrr_callReturnData = [],
      rrr_callReturnStatus = CallReturnStatus_RecipientDisconnected\<rparr>"

definition note_receiver :: "Uuid \<Rightarrow> u16 \<Rightarrow> string \<Rightarrow> 'c RequestReplyService \<Rightarrow> 'c RequestReplyService" where
  "note_receiver callUuid functionType name s =
     (let m = (case map_of (rr_participantDisconnectCallReturns s) name of None \<Rightarrow> [] | Some m \<Rightarrow> m)
      in s\<lparr>rr_participantDisconnectCallReturns :=
            AList.update name
              (if map_of m callUuid \<noteq> None then m
               else m @ [(callUuid, disconnect_message callUuid functionType)])
              (rr_participantDisconnectCallReturns s)\<rparr>)"

definition Call ::
    "u16 \<Rightarrow> bytes \<Rightarrow> string list \<Rightarrow> Uuid \<Rightarrow> 'c RequestReplyService \<Rightarrow> (rr_error + Uuid) \<times> 'c RequestReplyService" where
  "Call functionType callData receivingParticipants callUuid s =
     (if functionType = FunctionType_Invalid then (Inl InvalidFunctionType, s)
      else let s = fold (note_receiver callUuid functionType) receivingParticipants s
           in (Inr callUuid,
               s\<lparr>rr_sentCalls := rr_sentCalls s @
                   [\<lparr>rrc_callUuid = callUuid, rrc_functionType = functionType, rrc_callData = callData\<rparr>]\<rparr>))"

definition SubmitCallReturn ::
    "Uuid \<Rightarrow> u16 \<Rightarrow> bytes \<Rightarrow> u16 \<Rightarrow> 'c RequestReplyService \<Rightarrow> (rr_error + unit) \<times> 'c RequestReplyService" where
  "SubmitCallReturn callUuid functionType callReturnData callReturnStatus s =
     (if functionType = FunctionType_Invalid then (Inl InvalidFunctionType, s)
      else case map_of (rr_requestReplyInitiatorByCallUuid s) callUuid of
             None \<Rightarrow> (Inl UnknownCallUuid, s)
           | Some initiator \<Rightarrow>
               (Inr (), s\<lparr>rr_sentReturns := rr_sentReturns s @
                  [(initiator, \<lparr>rrr_callUuid = callUuid, rrr_functionType = functionType,
                     rrr_callReturnData = callReturnData, rrr_callReturnStatus = callReturnStatus\<rparr>)]\<rparr>))"

text \<open>The procedure.\<close>

definition CallAfterAllParticipantsReplied :: "'c \<Rightarrow> 'c RequestReplyService \<Rightarrow> 'c RequestReplyService" where
  "CallAfterAllParticipantsReplied completionFunction s = s\<lparr>pr_deferred := pr_deferred s @ [completionFunction]\<rparr>"

definition run_deferred_call :: "string list \<Rightarrow> Uuid \<Rightarrow> 'c RequestReplyService \<Rightarrow> 'c RequestReplyService" where
  "run_deferred_call remoteReceivers callUuid s =
     (case pr_deferred s of
        [] \<Rightarrow> s
      | completionFunction # rest \<Rightarrow>
          (let s = s\<lparr>pr_deferred := rest\<rparr>
           in if pr_barrierActive s then s
              else let s = s\<lparr>pr_expectedParticipantsToSendCallReturns := remdups remoteReceivers\<rparr>
                   in if pr_expectedParticipantsToSendCallReturns s = []
                      then s\<lparr>pr_completed := pr_completed s @ [completionFunction]\<rparr>
                      else let s = s\<lparr>pr_barrierActive := True, pr_completionFunction := Some completionFunction\<rparr>
                           in case Call FunctionType_ParticipantReplies [] remoteReceivers callUuid s of
                                (Inl _, s) \<Rightarrow> s
                              | (Inr u, s) \<Rightarrow> s\<lparr>pr_activeUuid := u\<rparr>))"

definition ParticipantReplies_ReceiveCall :: "Uuid \<Rightarrow> 'c RequestReplyService \<Rightarrow> (rr_error + unit) \<times> 'c RequestReplyService" where
  "ParticipantReplies_ReceiveCall callUuid s =
     SubmitCallReturn callUuid FunctionType_ParticipantReplies [] CallReturnStatus_Success s"

definition ParticipantReplies_ReceiveCallReturn :: "string \<Rightarrow> Uuid \<Rightarrow> 'c RequestReplyService \<Rightarrow> 'c RequestReplyService" where
  "ParticipantReplies_ReceiveCallReturn fromParticipant callUuid s =
     (if pr_barrierActive s \<and> callUuid = pr_activeUuid s
      then let s = s\<lparr>pr_expectedParticipantsToSendCallReturns :=
                      filter (\<lambda>p. p \<noteq> fromParticipant) (pr_expectedParticipantsToSendCallReturns s)\<rparr>
           in if pr_expectedParticipantsToSendCallReturns s = []
              then (case pr_completionFunction s of
                      None \<Rightarrow> s\<lparr>pr_barrierActive := False\<rparr>
                    | Some c \<Rightarrow> s\<lparr>pr_completed := pr_completed s @ [c], pr_barrierActive := False\<rparr>)
              else s
      else s)"

text \<open>The service, which knows the one procedure.\<close>

definition ForwardCallToProcedure :: "RequestReplyCall \<Rightarrow> 'c RequestReplyService \<Rightarrow> (rr_error + unit) \<times> 'c RequestReplyService" where
  "ForwardCallToProcedure msg s =
     (if rrc_functionType msg \<noteq> FunctionType_ParticipantReplies
      then SubmitCallReturn (rrc_callUuid msg) (rrc_functionType msg) [] CallReturnStatus_UnknownFunctionType s
      else case ParticipantReplies_ReceiveCall (rrc_callUuid msg) s of
             (Inr _, s) \<Rightarrow> (Inr (), s)
           | (Inl _, s) \<Rightarrow> SubmitCallReturn (rrc_callUuid msg) (rrc_functionType msg) [] CallReturnStatus_ProcedureError s)"

definition ForwardCallReturnToProcedure ::
    "string \<Rightarrow> RequestReplyCallReturn \<Rightarrow> 'c RequestReplyService \<Rightarrow> (rr_error + unit) \<times> 'c RequestReplyService" where
  "ForwardCallReturnToProcedure fromParticipant msg s =
     (if rrr_functionType msg \<noteq> FunctionType_ParticipantReplies then (Inl UnknownFunctionType, s)
      else (Inr (), ParticipantReplies_ReceiveCallReturn fromParticipant (rrr_callUuid msg) s))"

definition ReceiveMsg_RequestReplyCall ::
    "string \<Rightarrow> RequestReplyCall \<Rightarrow> 'c RequestReplyService \<Rightarrow> (rr_error + unit) \<times> 'c RequestReplyService" where
  "ReceiveMsg_RequestReplyCall sender msg s =
     (if map_of (rr_requestReplyInitiatorByCallUuid s) (rrc_callUuid msg) \<noteq> None then (Inl DuplicateCallUuid, s)
      else ForwardCallToProcedure msg
             (s\<lparr>rr_requestReplyInitiatorByCallUuid := (rrc_callUuid msg, sender) # rr_requestReplyInitiatorByCallUuid s\<rparr>))"

text \<open>
  \<^verbatim>\<open>RemovePartcipantFromDisconnectLookup\<close> erases from a copy of the entries of the participant: they
  change only when the copy has become empty.
\<close>

definition RemovePartcipantFromDisconnectLookup :: "Uuid \<Rightarrow> string \<Rightarrow> 'c RequestReplyService \<Rightarrow> 'c RequestReplyService" where
  "RemovePartcipantFromDisconnectLookup callUuid participantName s =
     (case map_of (rr_participantDisconnectCallReturns s) participantName of
        None \<Rightarrow> s
      | Some m \<Rightarrow>
          (let callReturnMsgByCallUuid = AList.delete callUuid m
           in if callReturnMsgByCallUuid = []
              then s\<lparr>rr_participantDisconnectCallReturns :=
                       AList.delete participantName (rr_participantDisconnectCallReturns s)\<rparr>
              else s))"

definition ReceiveMsg_RequestReplyCallReturn ::
    "string \<Rightarrow> RequestReplyCallReturn \<Rightarrow> 'c RequestReplyService \<Rightarrow> (rr_error + unit) \<times> 'c RequestReplyService" where
  "ReceiveMsg_RequestReplyCallReturn fromParticipant msg s =
     ForwardCallReturnToProcedure fromParticipant msg
       (RemovePartcipantFromDisconnectLookup (rrr_callUuid msg) fromParticipant s)"

fun ForwardAll ::
    "string \<Rightarrow> (Uuid \<times> RequestReplyCallReturn) list \<Rightarrow> 'c RequestReplyService \<Rightarrow> (rr_error + unit) \<times> 'c RequestReplyService" where
  "ForwardAll participantName [] s = (Inr (), s)"
| "ForwardAll participantName ((_, msg) # msgs) s =
     (case ForwardCallReturnToProcedure participantName msg s of
        (Inl e, s) \<Rightarrow> (Inl e, s)
      | (Inr _, s) \<Rightarrow> ForwardAll participantName msgs s)"

definition OnParticpantRemoval :: "string \<Rightarrow> 'c RequestReplyService \<Rightarrow> (rr_error + unit) \<times> 'c RequestReplyService" where
  "OnParticpantRemoval participantName s =
     (case map_of (rr_participantDisconnectCallReturns s) participantName of
        None \<Rightarrow> (Inr (), s)
      | Some msgs \<Rightarrow>
          (case ForwardAll participantName msgs s of
             (Inl e, s) \<Rightarrow> (Inl e, s)
           | (Inr _, s) \<Rightarrow>
               (Inr (), s\<lparr>rr_participantDisconnectCallReturns :=
                  AList.delete participantName (rr_participantDisconnectCallReturns s)\<rparr>)))"

section \<open>Runs\<close>

datatype 'c rr_event =
    RequestReplies 'c
  | RunDeferred "string list" Uuid
  | CallFrom string RequestReplyCall
  | ReturnFrom string RequestReplyCallReturn
  | Removal string

fun rr_step :: "'c rr_event \<Rightarrow> 'c RequestReplyService \<Rightarrow> 'c RequestReplyService" where
  "rr_step (RequestReplies c) s = CallAfterAllParticipantsReplied c s"
| "rr_step (RunDeferred receivers u) s = run_deferred_call receivers u s"
| "rr_step (CallFrom sender msg) s = snd (ReceiveMsg_RequestReplyCall sender msg s)"
| "rr_step (ReturnFrom sender msg) s = snd (ReceiveMsg_RequestReplyCallReturn sender msg s)"
| "rr_step (Removal name) s = snd (OnParticpantRemoval name s)"

definition rr_run :: "'c rr_event list \<Rightarrow> 'c RequestReplyService \<Rightarrow> 'c RequestReplyService" where
  "rr_run events s = fold rr_step events s"


section \<open>The bookkeeping for disconnects\<close>

definition disconnects :: "string \<Rightarrow> 'c RequestReplyService \<Rightarrow> (Uuid \<times> RequestReplyCallReturn) list" where
  "disconnects name s = (case map_of (rr_participantDisconnectCallReturns s) name of None \<Rightarrow> [] | Some m \<Rightarrow> m)"

text \<open>Every prepared message belongs to a call that was made (\<open>used\<close>) and names the procedure.\<close>

definition disc_ok :: "Uuid set \<Rightarrow> 'c RequestReplyService \<Rightarrow> bool" where
  "disc_ok used s \<longleftrightarrow> (\<forall>name. \<forall>(u, msg)\<in>set (disconnects name s).
     u \<in> used \<and> rrr_callUuid msg = u \<and> rrr_functionType msg = FunctionType_ParticipantReplies)"

text \<open>The barrier's part of the state.\<close>

definition barrier_of :: "'c RequestReplyService \<Rightarrow> bool \<times> string list \<times> 'c option \<times> Uuid \<times> 'c list \<times> 'c list" where
  "barrier_of s = (pr_barrierActive s, pr_expectedParticipantsToSendCallReturns s, pr_completionFunction s,
     pr_activeUuid s, pr_deferred s, pr_completed s)"

lemma disconnects_note [simp]:
  "disconnects name (note_receiver u ft name' s) =
     (if name = name' \<and> map_of (disconnects name s) u = None
      then disconnects name s @ [(u, disconnect_message u ft)] else disconnects name s)"
  by (auto simp: disconnects_def note_receiver_def update_conv' Let_def split: option.splits)

lemma barrier_note [simp]: "barrier_of (note_receiver u ft name s) = barrier_of s"
  by (simp add: barrier_of_def note_receiver_def Let_def)

lemma barrier_fold_note: "barrier_of (fold (note_receiver u ft) names s) = barrier_of s"
  by (induction names arbitrary: s) auto

lemma disconnects_fold_note:
  "set (disconnects name (fold (note_receiver u ft) names s)) \<subseteq>
     insert (u, disconnect_message u ft) (set (disconnects name s))"
  "set (disconnects name s) \<subseteq> set (disconnects name (fold (note_receiver u ft) names s))"
  "name \<in> set names \<Longrightarrow> u \<in> fst ` set (disconnects name (fold (note_receiver u ft) names s))"
proof (induction names arbitrary: s)
  case (Cons n names)
  have step: "set (disconnects name (note_receiver u ft n s)) \<subseteq> insert (u, disconnect_message u ft) (set (disconnects name s))"
    "set (disconnects name s) \<subseteq> set (disconnects name (note_receiver u ft n s))"
    "u \<in> fst ` set (disconnects n (note_receiver u ft n s))" for s :: "'a RequestReplyService"
    by (auto simp: map_of_eq_None_iff)
  have unfold: "fold (note_receiver u ft) (n # names) s = fold (note_receiver u ft) names (note_receiver u ft n s)"
    for s :: "'a RequestReplyService" by simp
  { case 1 from Cons.IH(1)[of "note_receiver u ft n s"] step(1)[of s] show ?case unfolding unfold by blast }
  { case 2 from Cons.IH(2)[of "note_receiver u ft n s"] step(2)[of s] show ?case unfolding unfold by blast }
  { case 3
    show ?case
    proof (cases "name = n")
      case True
      with step(3)[of s] Cons.IH(2)[of "note_receiver u ft n s"] show ?thesis by auto
    next
      case False
      with 3 Cons.IH(3)[of "note_receiver u ft n s"] show ?thesis by simp
    qed }
qed auto

lemma disc_ok_fold_note:
  assumes "disc_ok used s"
  shows "disc_ok (insert u used) (fold (note_receiver u FunctionType_ParticipantReplies) names s)"
proof -
  have "u' \<in> insert u used \<and> rrr_callUuid msg = u' \<and> rrr_functionType msg = FunctionType_ParticipantReplies"
    if "(u', msg) \<in> set (disconnects name (fold (note_receiver u FunctionType_ParticipantReplies) names s))" for name u' msg
  proof -
    have "(u', msg) = (u, disconnect_message u FunctionType_ParticipantReplies) \<or> (u', msg) \<in> set (disconnects name s)"
      using that disconnects_fold_note(1) by blast
    then show ?thesis using assms by (auto simp: disc_ok_def disconnect_message_def)
  qed
  then show ?thesis by (auto simp: disc_ok_def)
qed

lemma disconnects_Remove:
  "disconnects name (RemovePartcipantFromDisconnectLookup u p s) =
     (if name = p \<and> AList.delete u (disconnects p s) = [] then [] else disconnects name s)"
  "barrier_of (RemovePartcipantFromDisconnectLookup u p s) = barrier_of s"
  by (auto simp: disconnects_def RemovePartcipantFromDisconnectLookup_def delete_conv' barrier_of_def Let_def
      split: option.splits)

text \<open>With a second call pending for the participant, an answered call is not forgotten.\<close>

lemma Remove_keeps_stale_entries:
  assumes "map_of (rr_participantDisconnectCallReturns s) p = Some m" "u' \<in> fst ` set m" "u' \<noteq> u"
  shows "RemovePartcipantFromDisconnectLookup u p s = s"
proof -
  have "AList.delete u m \<noteq> []" using assms(2,3) by (auto simp: AList.delete_eq filter_empty_conv)
  with assms(1) show ?thesis by (simp add: RemovePartcipantFromDisconnectLookup_def Let_def)
qed

lemma disconnects_ReceiveCallReturn [simp]:
  "disconnects name (ParticipantReplies_ReceiveCallReturn p u s) = disconnects name s"
  "rr_participantDisconnectCallReturns (ParticipantReplies_ReceiveCallReturn p u s) = rr_participantDisconnectCallReturns s"
  by (auto simp: disconnects_def ParticipantReplies_ReceiveCallReturn_def Let_def split: option.split)

text \<open>A removed participant counts as one that has answered all the calls prepared for it.\<close>

lemma ForwardAll_eq:
  assumes "\<forall>(u, msg)\<in>set msgs. rrr_callUuid msg = u \<and> rrr_functionType msg = FunctionType_ParticipantReplies"
  shows "ForwardAll name msgs s = (Inr (), fold (\<lambda>(u, _). ParticipantReplies_ReceiveCallReturn name u) msgs s)"
  using assms by (induction msgs arbitrary: s) (auto simp: ForwardCallReturnToProcedure_def)

lemma Removal_eq:
  assumes "disc_ok used s"
  shows "fst (OnParticpantRemoval name s) = Inr ()"
    "barrier_of (snd (OnParticpantRemoval name s)) =
       barrier_of (fold (\<lambda>(u, _). ParticipantReplies_ReceiveCallReturn name u) (disconnects name s) s)"
    "disconnects n (snd (OnParticpantRemoval name s)) = (if n = name then [] else disconnects n s)"
proof -
  have fold: "rr_participantDisconnectCallReturns (fold (\<lambda>(u, _). ParticipantReplies_ReceiveCallReturn name u) msgs s) =
      rr_participantDisconnectCallReturns s" for msgs
    by (induction msgs arbitrary: s) auto
  have "OnParticpantRemoval name s =
    (Inr (), case map_of (rr_participantDisconnectCallReturns s) name of None \<Rightarrow> s
     | Some msgs \<Rightarrow> (let s' = fold (\<lambda>(u, _). ParticipantReplies_ReceiveCallReturn name u) msgs s
         in s'\<lparr>rr_participantDisconnectCallReturns := AList.delete name (rr_participantDisconnectCallReturns s')\<rparr>))"
  proof (cases "map_of (rr_participantDisconnectCallReturns s) name")
    case (Some msgs)
    then have "disconnects name s = msgs" by (simp add: disconnects_def)
    then have "\<forall>(u, msg)\<in>set msgs. rrr_callUuid msg = u \<and> rrr_functionType msg = FunctionType_ParticipantReplies"
      using assms by (fastforce simp: disc_ok_def)
    with Some show ?thesis by (simp add: OnParticpantRemoval_def ForwardAll_eq Let_def)
  qed (simp add: OnParticpantRemoval_def)
  then show "fst (OnParticpantRemoval name s) = Inr ()"
    "barrier_of (snd (OnParticpantRemoval name s)) =
       barrier_of (fold (\<lambda>(u, _). ParticipantReplies_ReceiveCallReturn name u) (disconnects name s) s)"
    "disconnects n (snd (OnParticpantRemoval name s)) = (if n = name then [] else disconnects n s)"
    by (auto simp: disconnects_def barrier_of_def delete_conv' fold Let_def split: option.splits)
qed


section \<open>The barrier\<close>

text \<open>Events while a call is pending: no further deferred action, and answers name the procedure.\<close>

fun quiet_event :: "Uuid \<Rightarrow> 'c rr_event \<Rightarrow> bool" where
  "quiet_event u (RunDeferred receivers u') = False"
| "quiet_event u (ReturnFrom sender msg) =
     (rrr_callUuid msg = u \<longrightarrow> rrr_functionType msg = FunctionType_ParticipantReplies)"
| "quiet_event u _ = True"

fun answers :: "Uuid \<Rightarrow> 'c rr_event \<Rightarrow> string set" where
  "answers u (ReturnFrom sender msg) = (if rrr_callUuid msg = u then {sender} else {})"
| "answers u (Removal name) = {name}"
| "answers u _ = {}"

text \<open>
  The barrier for the receivers \<open>R\<close> of the call \<open>u\<close> when those in \<open>A\<close> have answered: it waits for
  the others, or it has executed its completion function, once.
\<close>

definition barrier :: "Uuid \<Rightarrow> string set \<Rightarrow> 'c \<Rightarrow> 'c list \<Rightarrow> string set \<Rightarrow> 'c RequestReplyService \<Rightarrow> bool" where
  "barrier u R c completed A s \<longleftrightarrow>
     (if R \<subseteq> A then \<not> pr_barrierActive s \<and> pr_completed s = completed @ [c]
      else pr_barrierActive s \<and> pr_activeUuid s = u \<and> pr_completionFunction s = Some c \<and>
           set (pr_expectedParticipantsToSendCallReturns s) = R - A \<and> pr_completed s = completed)"

definition waiting :: "Uuid set \<Rightarrow> Uuid \<Rightarrow> string set \<Rightarrow> 'c \<Rightarrow> 'c list \<Rightarrow> string set \<Rightarrow> 'c RequestReplyService \<Rightarrow> bool" where
  "waiting used u R c completed A s \<longleftrightarrow> disc_ok used s \<and> barrier u R c completed A s \<and>
     (\<forall>r\<in>R - A. u \<in> fst ` set (disconnects r s))"

lemma barrier_cong: "barrier_of s = barrier_of s' \<Longrightarrow> barrier u R c completed A s = barrier u R c completed A s'"
  by (simp add: barrier_of_def barrier_def)

lemma barrier_receive:
  assumes "barrier u R c completed A s"
  shows "barrier u R c completed (if u' = u then insert n A else A) (ParticipantReplies_ReceiveCallReturn n u' s)"
proof (cases "R \<subseteq> A \<or> u' \<noteq> u")
  case True
  then show ?thesis using assms
    by (auto simp: barrier_def ParticipantReplies_ReceiveCallReturn_def split: if_splits)
next
  case False
  have "filter (\<lambda>p. p \<noteq> n) (pr_expectedParticipantsToSendCallReturns s) = [] \<longleftrightarrow> R \<subseteq> insert n A"
    using False assms by (auto simp: barrier_def filter_empty_conv)
  then show ?thesis using False assms
    by (auto simp: barrier_def ParticipantReplies_ReceiveCallReturn_def Let_def split: if_splits)
qed

lemma barrier_receive_all:
  "barrier u R c completed A s \<Longrightarrow>
     barrier u R c completed (if u \<in> fst ` set msgs then insert n A else A)
       (fold (\<lambda>(u, _). ParticipantReplies_ReceiveCallReturn n u) msgs s)"
proof (induction msgs arbitrary: A s)
  case (Cons m msgs)
  obtain u' msg where m: "m = (u', msg)" by force
  from Cons.IH[OF barrier_receive[OF Cons.prems, of u' n]] show ?case
    by (auto simp: m split: if_splits)
qed simp

lemma barrier_irrelevant: "n \<notin> R - A \<Longrightarrow> barrier u R c completed (insert n A) s = barrier u R c completed A s"
proof -
  assume "n \<notin> R - A"
  then have "R \<subseteq> insert n A \<longleftrightarrow> R \<subseteq> A" "R - insert n A = R - A" by auto
  then show ?thesis by (simp add: barrier_def)
qed

lemma waiting_Return:
  fixes s :: "'c RequestReplyService" and e :: "'c rr_event"
  assumes e: "e = ReturnFrom sender msg" and w: "waiting used u R c completed A s" and q: "quiet_event u e"
  shows "waiting used u R c completed (A \<union> answers u e) (rr_step e s)"
proof -
  define s1 where "s1 = RemovePartcipantFromDisconnectLookup (rrr_callUuid msg) sender s"
  have disc: "disconnects name s1 =
      (if name = sender \<and> AList.delete (rrr_callUuid msg) (disconnects sender s) = [] then [] else disconnects name s)" for name
    unfolding s1_def by (rule disconnects_Remove)
  have bar: "barrier u R c completed A s1"
    using w disconnects_Remove(2) barrier_cong unfolding s1_def waiting_def by metis
  have ok: "disc_ok used s1" using w by (auto simp: waiting_def disc_ok_def disc)
  have kept: "u \<in> fst ` set (disconnects r s1)" if "r \<in> R - A" "r \<noteq> sender \<or> rrr_callUuid msg \<noteq> u" for r
  proof -
    have u: "u \<in> fst ` set (disconnects r s)" using w that(1) by (auto simp: waiting_def)
    moreover have "AList.delete (rrr_callUuid msg) (disconnects r s) \<noteq> []" if "rrr_callUuid msg \<noteq> u"
      using u that by (force simp: AList.delete_eq filter_empty_conv)
    ultimately show ?thesis using that(2) by (auto simp: disc)
  qed
  have step: "rr_step e s =
    (if rrr_functionType msg = FunctionType_ParticipantReplies
     then ParticipantReplies_ReceiveCallReturn sender (rrr_callUuid msg) s1 else s1)"
    by (simp add: e ReceiveMsg_RequestReplyCallReturn_def ForwardCallReturnToProcedure_def s1_def)
  have "disc_ok used (rr_step e s)" unfolding step using ok by (simp add: disc_ok_def)
  moreover have "barrier u R c completed (A \<union> answers u e) (rr_step e s)"
    unfolding step using barrier_receive[OF bar, of "rrr_callUuid msg" sender] bar q by (auto simp: e split: if_splits)
  moreover have "u \<in> fst ` set (disconnects r (rr_step e s))"
    if "r \<in> R - (A \<union> answers u e)" for r
    unfolding step using kept[of r] that by (auto simp: e split: if_splits)
  ultimately show ?thesis by (simp add: waiting_def)
qed

lemma waiting_Removal:
  fixes s :: "'c RequestReplyService" and e :: "'c rr_event"
  assumes e: "e = Removal name" and w: "waiting used u R c completed A s"
  shows "waiting used u R c completed (A \<union> answers u e) (rr_step e s)"
proof -
  have ok: "disc_ok used s" and bar: "barrier u R c completed A s" using w by (auto simp: waiting_def)
  note eq = Removal_eq[OF ok, where name = name]
  have "barrier u R c completed (insert name A)
      (fold (\<lambda>(u, _). ParticipantReplies_ReceiveCallReturn name u) (disconnects name s) s)"
  proof (cases "u \<in> fst ` set (disconnects name s)")
    case True
    then show ?thesis using barrier_receive_all[OF bar, of "disconnects name s" name] by simp
  next
    case False
    then have "name \<notin> R - A" using w by (auto simp: waiting_def)
    then show ?thesis
      using False barrier_receive_all[OF bar, of "disconnects name s" name] by (simp add: barrier_irrelevant)
  qed
  then have "barrier u R c completed (insert name A) (snd (OnParticpantRemoval name s))"
    using barrier_cong[OF eq(2)] by blast
  moreover have "disc_ok used (snd (OnParticpantRemoval name s))" using ok by (auto simp: disc_ok_def eq(3))
  ultimately show ?thesis using w by (auto simp: e waiting_def eq(3))
qed

lemma waiting_step:
  assumes "waiting used u R c completed A s" "quiet_event u e"
  shows "waiting used u R c completed (A \<union> answers u e) (rr_step e s)"
proof (cases e)
  case (RequestReplies x)
  then show ?thesis using assms(1)
    by (simp add: waiting_def disc_ok_def disconnects_def barrier_def CallAfterAllParticipantsReplied_def)
next
  case (CallFrom sender msg)
  have "barrier u R c completed A (rr_step e s) = barrier u R c completed A s"
    "disconnects r (rr_step e s) = disconnects r s" for r
    using CallFrom by (auto simp: ReceiveMsg_RequestReplyCall_def ForwardCallToProcedure_def SubmitCallReturn_def
        ParticipantReplies_ReceiveCall_def barrier_def disconnects_def split: option.split)
  then show ?thesis using assms(1) CallFrom by (simp add: waiting_def disc_ok_def)
next
  case (ReturnFrom sender msg)
  then show ?thesis by (rule waiting_Return[OF _ assms])
next
  case (Removal name)
  then show ?thesis by (rule waiting_Removal[OF _ assms(1)])
qed (use assms(2) in auto)

lemma waiting_run:
  "waiting used u R c completed A s \<Longrightarrow> list_all (quiet_event u) events \<Longrightarrow>
     waiting used u R c completed (A \<union> \<Union> (answers u ` set events)) (rr_run events s)"
proof (induction events arbitrary: A s)
  case (Cons e es)
  then have "waiting used u R c completed ((A \<union> answers u e) \<union> \<Union> (answers u ` set es)) (rr_run es (rr_step e s))"
    by (intro Cons.IH waiting_step) auto
  then show ?case by (simp add: rr_run_def Un_assoc)
qed (simp add: rr_run_def)

lemma start_waiting:
  assumes "disc_ok used s" "\<not> pr_barrierActive s" "pr_deferred s = c # cs" "receivers \<noteq> []"
  shows "waiting (insert u used) u (set receivers) c (pr_completed s) {} (rr_step (RunDeferred receivers u) s)"
proof -
  define s1 where "s1 = s\<lparr>pr_deferred := cs, pr_expectedParticipantsToSendCallReturns := remdups receivers,
    pr_barrierActive := True, pr_completionFunction := Some c\<rparr>"
  define s2 where "s2 = fold (note_receiver u FunctionType_ParticipantReplies) receivers s1"
  have eq: "rr_step (RunDeferred receivers u) s = s2\<lparr>rr_sentCalls := rr_sentCalls s2 @
      [\<lparr>rrc_callUuid = u, rrc_functionType = FunctionType_ParticipantReplies, rrc_callData = []\<rparr>], pr_activeUuid := u\<rparr>"
    using assms(2-4) by (simp add: run_deferred_call_def Call_def s2_def s1_def Let_def
        FunctionType_ParticipantReplies_def FunctionType_Invalid_def)
  have disc: "disconnects n (rr_step (RunDeferred receivers u) s) = disconnects n s2" for n
    unfolding eq by (simp add: disconnects_def)
  have "disc_ok used s1" using assms(1) by (simp add: s1_def disc_ok_def disconnects_def)
  then have "disc_ok (insert u used) (rr_step (RunDeferred receivers u) s)"
    using disc_ok_fold_note unfolding disc_ok_def disc s2_def by blast
  moreover have "barrier u (set receivers) c (pr_completed s) {} (rr_step (RunDeferred receivers u) s)"
  proof -
    have "barrier_of s2 = barrier_of s1" unfolding s2_def by (rule barrier_fold_note)
    then show ?thesis unfolding eq using assms(4) by (auto simp: barrier_def barrier_of_def s1_def)
  qed
  moreover have "\<forall>r\<in>set receivers. u \<in> fst ` set (disconnects r (rr_step (RunDeferred receivers u) s))"
    unfolding disc s2_def using disconnects_fold_note(3) by blast
  ultimately show ?thesis by (simp add: waiting_def)
qed


lemma disc_ok_step:
  assumes "disc_ok UNIV s" shows "disc_ok UNIV (rr_step e s)"
proof (cases e)
  case (RunDeferred receivers u)
  show ?thesis
  proof (cases "pr_deferred s \<noteq> [] \<and> \<not> pr_barrierActive s \<and> receivers \<noteq> []")
    case True
    then obtain c cs where "pr_deferred s = c # cs" by (cases "pr_deferred s") auto
    with True RunDeferred start_waiting[OF assms] show ?thesis by (auto simp: waiting_def)
  next
    case False
    have "disconnects n (rr_step e s) = disconnects n s" for n
      using False RunDeferred by (auto simp: run_deferred_call_def disconnects_def Let_def split: list.split)
    then show ?thesis using assms by (simp add: disc_ok_def)
  qed
next
  case (ReturnFrom sender msg)
  then show ?thesis using assms
    by (auto simp: disc_ok_def ReceiveMsg_RequestReplyCallReturn_def ForwardCallReturnToProcedure_def disconnects_Remove)
next
  case (Removal name)
  then show ?thesis using assms by (auto simp: disc_ok_def Removal_eq(3)[OF assms])
qed (use assms in \<open>auto simp: disc_ok_def disconnects_def CallAfterAllParticipantsReplied_def ReceiveMsg_RequestReplyCall_def
    ForwardCallToProcedure_def SubmitCallReturn_def ParticipantReplies_ReceiveCall_def split: option.split\<close>)

lemma disc_ok_run: "disc_ok UNIV (rr_run events (RequestReplyService_new nil))"
proof -
  have "disc_ok UNIV s \<Longrightarrow> disc_ok UNIV (rr_run events s)" for s :: "'a RequestReplyService"
    by (induction events arbitrary: s) (auto simp: rr_run_def disc_ok_step)
  moreover have "disc_ok UNIV (RequestReplyService_new nil :: 'a RequestReplyService)"
    by (simp add: disc_ok_def disconnects_def RequestReplyService_new_def)
  ultimately show ?thesis by blast
qed

section \<open>Answering calls\<close>

text \<open>Every call is answered to its caller, exactly once, whatever function it names.\<close>

lemma call_answered:
  assumes "map_of (rr_requestReplyInitiatorByCallUuid s) (rrc_callUuid msg) = None"
    "rrc_functionType msg \<noteq> FunctionType_Invalid"
  shows "fst (ReceiveMsg_RequestReplyCall sender msg s) = Inr ()"
    "rr_sentReturns (snd (ReceiveMsg_RequestReplyCall sender msg s)) = rr_sentReturns s @
       [(sender, \<lparr>rrr_callUuid = rrc_callUuid msg, rrr_functionType = rrc_functionType msg, rrr_callReturnData = [],
          rrr_callReturnStatus = (if rrc_functionType msg = FunctionType_ParticipantReplies
            then CallReturnStatus_Success else CallReturnStatus_UnknownFunctionType)\<rparr>)]"
  using assms by (auto simp: ReceiveMsg_RequestReplyCall_def ForwardCallToProcedure_def SubmitCallReturn_def
      ParticipantReplies_ReceiveCall_def)

section \<open>Properties of the barrier\<close>

text \<open>
  C18. The barrier: after any history of the service, when a deferred request of completion
  function \<open>c\<close> starts a call to some receivers, then at every later point (until the next deferred
  request runs) the completion function has been executed exactly when every receiver has answered
  the call or was removed, and then exactly once; otherwise the barrier is waiting for exactly the
  receivers that did neither.
\<close>

theorem barrier_completes_exactly_once:
  assumes "s = rr_run history (RequestReplyService_new nil)" "\<not> pr_barrierActive s" "pr_deferred s = c # cs"
    and "receivers \<noteq> []" "list_all (quiet_event u) events"
    and "s' = rr_run events (rr_step (RunDeferred receivers u) s)"
  shows "if set receivers \<subseteq> \<Union> (answers u ` set events)
     then \<not> pr_barrierActive s' \<and> pr_completed s' = pr_completed s @ [c]
     else pr_barrierActive s' \<and> pr_completed s' = pr_completed s \<and>
       set (pr_expectedParticipantsToSendCallReturns s') = set receivers - \<Union> (answers u ` set events)"
proof -
  have "disc_ok UNIV s" unfolding assms(1) by (rule disc_ok_run)
  from waiting_run[OF start_waiting[OF this assms(2-4)] assms(5)] show ?thesis
    by (simp add: waiting_def barrier_def assms(6))
qed

definition sample_uuid :: Uuid where
  "sample_uuid = \<lparr>uuid_ab = 1, uuid_cd = 2\<rparr>"

theorem barrier_completes_exactly_once_witness:
  "pr_completed (rr_run [Removal ''B'', ReturnFrom ''C'' (disconnect_message sample_uuid FunctionType_ParticipantReplies)]
     (rr_step (RunDeferred [''B'', ''C''] sample_uuid)
       (rr_run [RequestReplies (5 :: nat)] (RequestReplyService_new sample_uuid)))) = [5]"
  using barrier_completes_exactly_once[OF refl, of "[RequestReplies (5 :: nat)]" sample_uuid 5 "[]" "[''B'', ''C'']"
      sample_uuid "[Removal ''B'', ReturnFrom ''C'' (disconnect_message sample_uuid FunctionType_ParticipantReplies)]",
      OF _ _ _ _ refl]
  by (simp add: rr_run_def RequestReplyService_new_def CallAfterAllParticipantsReplied_def disconnect_message_def
      insert_commute)

text \<open>
  Every call from another participant is answered to that participant exactly once,
  whatever function it names, and a second call with the same identifier is refused.
\<close>

theorem calls_are_answered:
  assumes "rrc_callUuid msg \<notin> fst ` set (rr_requestReplyInitiatorByCallUuid s)"
    and "rrc_functionType msg \<noteq> FunctionType_Invalid"
  shows "\<exists>s'. ReceiveMsg_RequestReplyCall sender msg s = (Inr (), s') \<and>
     rr_sentReturns s' = rr_sentReturns s @
       [(sender, \<lparr>rrr_callUuid = rrc_callUuid msg, rrr_functionType = rrc_functionType msg, rrr_callReturnData = [],
          rrr_callReturnStatus = (if rrc_functionType msg = FunctionType_ParticipantReplies
            then CallReturnStatus_Success else CallReturnStatus_UnknownFunctionType)\<rparr>)] \<and>
     ReceiveMsg_RequestReplyCall sender' msg s' = (Inl DuplicateCallUuid, s')"
proof -
  have none: "map_of (rr_requestReplyInitiatorByCallUuid s) (rrc_callUuid msg) = None"
    using assms(1) by (simp add: map_of_eq_None_iff)
  note ans = call_answered[OF none assms(2), of sender]
  let ?s = "snd (ReceiveMsg_RequestReplyCall sender msg s)"
  have "ReceiveMsg_RequestReplyCall sender msg s = (Inr (), ?s)" using ans(1) by (metis prod.collapse)
  moreover have "map_of (rr_requestReplyInitiatorByCallUuid ?s) (rrc_callUuid msg) \<noteq> None"
    using none assms(2) by (auto simp: ReceiveMsg_RequestReplyCall_def ForwardCallToProcedure_def SubmitCallReturn_def
        ParticipantReplies_ReceiveCall_def)
  then have "ReceiveMsg_RequestReplyCall sender' msg ?s = (Inl DuplicateCallUuid, ?s)"
    by (simp add: ReceiveMsg_RequestReplyCall_def)
  ultimately show ?thesis using ans(2) by blast
qed

theorem calls_are_answered_witness:
  "\<exists>s'. ReceiveMsg_RequestReplyCall ''B'' \<lparr>rrc_callUuid = sample_uuid, rrc_functionType = 9, rrc_callData = []\<rparr>
      (RequestReplyService_new sample_uuid :: nat RequestReplyService) = (Inr (), s') \<and>
     rr_sentReturns s' = [(''B'', \<lparr>rrr_callUuid = sample_uuid, rrr_functionType = 9, rrr_callReturnData = [],
       rrr_callReturnStatus = CallReturnStatus_UnknownFunctionType\<rparr>)]"
  using calls_are_answered[of "\<lparr>rrc_callUuid = sample_uuid, rrc_functionType = 9, rrc_callData = []\<rparr>"
      "RequestReplyService_new sample_uuid :: nat RequestReplyService" "''B''" "''B''"]
  by (auto simp: RequestReplyService_new_def FunctionType_Invalid_def FunctionType_ParticipantReplies_def)

text \<open>
  An answer does not take its call out of the bookkeeping for disconnects while another call
  to the same participant is outstanding: the entry is erased from a copy, so a later disconnect of
  the participant is reported for the answered call, too.
\<close>

theorem answered_calls_stay_recorded:
  assumes "u' \<in> fst ` set (disconnects name s)" "u' \<noteq> u"
  shows "disconnects name (RemovePartcipantFromDisconnectLookup u name s) = disconnects name s"
  using assms by (simp add: disconnects_Remove AList.delete_eq filter_empty_conv) force

definition sample_service :: "nat RequestReplyService" where
  "sample_service = note_receiver sample_uuid 1 ''B'' (note_receiver (sample_uuid\<lparr>uuid_ab := 7\<rparr>) 1 ''B''
     (RequestReplyService_new sample_uuid))"

theorem answered_calls_stay_recorded_witness:
  "sample_uuid \<in> fst ` set (disconnects ''B'' (RemovePartcipantFromDisconnectLookup sample_uuid ''B'' sample_service))"
proof -
  have "disconnects ''B'' (RequestReplyService_new sample_uuid :: nat RequestReplyService) = []"
    by (simp add: disconnects_def RequestReplyService_new_def)
  moreover have "sample_uuid \<noteq> sample_uuid\<lparr>uuid_ab := 7\<rparr>" by (simp add: sample_uuid_def)
  ultimately have "fst ` set (disconnects ''B'' sample_service) = {sample_uuid, sample_uuid\<lparr>uuid_ab := 7\<rparr>}"
    by (auto simp: sample_service_def)
  with answered_calls_stay_recorded[of "sample_uuid\<lparr>uuid_ab := 7\<rparr>" "''B''" sample_service sample_uuid]
  show ?thesis by (auto simp: sample_uuid_def)
qed

end
