(* ===== verification/Lifecycle_States.thy ===== *)
theory Lifecycle_States
  imports System_State Request_Reply
begin

text \<open>
  The state machine of a participant (services/orchestration/LifecycleStates.cpp and
  LifecycleManagement.cpp). The thirteen state objects are identified with their participant states.
  A method of a state object may set the current state, announce it and call a method of the then
  current state; the announcement may change the state of the whole system, to which the lifecycle
  reacts at once with further method calls. This nesting is a stack of \<open>action\<close>s: a method returns the
  actions it performs, in order, before those already waiting. Callbacks of the application are data:
  whether they throw, and the requests they make of the service, all of which the service defers.
\<close>

section \<open>State\<close>

datatype request =
    Req_Stop string | Req_Pause string | Req_Continue | Req_ReportError string
  | Req_AbortSimulation string | Req_CompleteCommunicationReady

record callback =
  cb_throws :: bool
  cb_requests :: "request list"

text \<open>Actions that the service executes later on the I/O thread (\<^verbatim>\<open>ExecuteDeferred\<close>).\<close>

datatype deferred =
    D_Initialize | D_StartAutonomous | D_AbortBeforeStart | D_ReportError string | D_Pause string
  | D_Continue | D_Stop string | D_AbortSimulation string | D_CompleteCommunicationReady

text \<open>The completion functions handed to the barrier of Request_Reply.\<close>

datatype completion = C_ServicesCreated string | C_Stopped string | C_Shutdown string

datatype lifecycle_call =
    CallCommunicationReady | CallStarting | CallStop | CallShutdown | CallAbort ParticipantState
  | CallStartTime | CallStopTime | CallRequestNextStep | CallNotifyShutdown
  | CallEvaluateAggregationInfo bool | CallInitializeTimeSyncPolicy bool

text \<open>
  The members of \<^verbatim>\<open>LifecycleService\<close> and \<^verbatim>\<open>LifecycleManagement\<close>, followed by the parts of the participant
  they use: the tracker of the system monitor, whether its handlers are registered, the barrier, the
  subscriptions that are not acknowledged yet with the handlers waiting for them, the clock, the
  deferred actions, the announcements sent so far, and the calls made to callbacks and services.
\<close>

record Lifecycle =
  l_participantName :: string
  l_operationMode :: OperationMode
  l_timeSyncActive :: bool
  l_timeSyncBlocking :: bool
  l_currentState :: ParticipantState
  l_lastBeforeAbortingState :: "ParticipantState option"
  l_abortRequested :: "ParticipantState \<Rightarrow> bool"
  l_handlerExecuting :: "ParticipantState \<Rightarrow> bool"
  l_status :: ParticipantStatus
  l_isLifecycleStarted :: bool
  l_abortedBeforeLifecycleStart :: bool
  l_stopRequested :: bool
  l_pauseRequested :: bool
  l_requiredParticipantNames :: "string list"
  l_commReadyHandler :: "callback option"
  l_commReadyHandlerIsAsync :: bool
  l_commReadyHandlerInvoked :: bool
  l_commReadyHandlerCompleted :: bool
  l_startingHandler :: "callback option"
  l_stopHandler :: "callback option"
  l_shutdownHandler :: "callback option"
  l_abortHandler :: "callback option"
  l_finalState :: "ParticipantState option"
  l_tracker :: SystemStateTracker
  l_registered :: bool
  l_replies :: "completion RequestReplyService"
  l_hasPendingAsyncSubscriptions :: bool
  l_asyncSubscriptionsCompletionHandlers :: "string list"
  l_now :: u64
  l_deferred :: "deferred list"
  l_sent :: "ParticipantStatus list"
  l_calls :: "lifecycle_call list"

datatype lifecycle_error =
    RestartNotSupported | PauseInWrongState ParticipantState | ContinueInWrongState ParticipantState
  | AbortWithoutState | OperationModeNotSet | TimeSyncServiceTwice | TrackerFailed tracker_error

definition calls :: "lifecycle_call \<Rightarrow> Lifecycle \<Rightarrow> Lifecycle" where
  "calls c l = l\<lparr>l_calls := l_calls l @ [c]\<rparr>"

definition lifecycle_ExecuteDeferred :: "deferred \<Rightarrow> Lifecycle \<Rightarrow> Lifecycle" where
  "lifecycle_ExecuteDeferred d l = l\<lparr>l_deferred := l_deferred l @ [d]\<rparr>"

section \<open>Requests of the application\<close>

definition lifecycle_ReportError :: "string \<Rightarrow> Lifecycle \<Rightarrow> Lifecycle" where
  "lifecycle_ReportError errorMsg l = lifecycle_ExecuteDeferred (D_ReportError errorMsg) l"

definition lifecycle_Pause :: "string \<Rightarrow> Lifecycle \<Rightarrow> Lifecycle" where
  "lifecycle_Pause reason l = lifecycle_ExecuteDeferred (D_Pause reason) (l\<lparr>l_pauseRequested := True\<rparr>)"

definition lifecycle_Continue :: "Lifecycle \<Rightarrow> Lifecycle" where
  "lifecycle_Continue l = lifecycle_ExecuteDeferred D_Continue (l\<lparr>l_pauseRequested := False\<rparr>)"

definition lifecycle_Stop :: "string \<Rightarrow> Lifecycle \<Rightarrow> Lifecycle" where
  "lifecycle_Stop reason l = lifecycle_ExecuteDeferred (D_Stop reason) (l\<lparr>l_stopRequested := True\<rparr>)"

definition lifecycle_AbortSimulation :: "string \<Rightarrow> Lifecycle \<Rightarrow> Lifecycle" where
  "lifecycle_AbortSimulation reason l =
     (if \<not> l_isLifecycleStarted l then l\<lparr>l_abortedBeforeLifecycleStart := True\<rparr>
      else lifecycle_ExecuteDeferred (D_AbortSimulation reason) l)"

definition CompleteCommunicationReadyHandlerAsync :: "Lifecycle \<Rightarrow> Lifecycle" where
  "CompleteCommunicationReadyHandlerAsync l =
     (if \<not> l_commReadyHandlerInvoked l then l
      else if l_commReadyHandlerCompleted l then l
      else lifecycle_ExecuteDeferred D_CompleteCommunicationReady (l\<lparr>l_commReadyHandlerCompleted := True\<rparr>))"

fun perform :: "request \<Rightarrow> Lifecycle \<Rightarrow> Lifecycle" where
  "perform (Req_Stop reason) l = lifecycle_Stop reason l"
| "perform (Req_Pause reason) l = lifecycle_Pause reason l"
| "perform Req_Continue l = lifecycle_Continue l"
| "perform (Req_ReportError errorMsg) l = lifecycle_ReportError errorMsg l"
| "perform (Req_AbortSimulation reason) l = lifecycle_AbortSimulation reason l"
| "perform Req_CompleteCommunicationReady l = CompleteCommunicationReadyHandlerAsync l"

text \<open>Calling a callback: false when it throws. An empty \<^verbatim>\<open>std::function\<close> is not called.\<close>

definition invoke :: "lifecycle_call \<Rightarrow> callback option \<Rightarrow> Lifecycle \<Rightarrow> bool \<times> Lifecycle" where
  "invoke c h l = (case h of
     None \<Rightarrow> (True, l)
   | Some cb \<Rightarrow> (\<not> cb_throws cb, fold perform (cb_requests cb) (calls c l)))"

datatype CallbackResult = CB_Completed | CB_Deferred | CB_Error

text \<open>\<^verbatim>\<open>TriggerCommunicationReadyHandler\<close> inside the try block of \<^verbatim>\<open>HandleCommunicationReady\<close>.\<close>

definition HandleCommunicationReady :: "Lifecycle \<Rightarrow> CallbackResult \<times> Lifecycle" where
  "HandleCommunicationReady l =
     (if l_commReadyHandler l = None then (CB_Completed, l)
      else if l_commReadyHandlerIsAsync l
      then (if \<not> l_commReadyHandlerInvoked l
            then let (ok, l) = invoke CallCommunicationReady (l_commReadyHandler l)
                       (l\<lparr>l_commReadyHandlerInvoked := True, l_commReadyHandlerCompleted := False\<rparr>)
                 in (if ok then CB_Deferred else CB_Error, l)
            else (CB_Deferred, l))
      else let (ok, l) = invoke CallCommunicationReady (l_commReadyHandler l) l
           in (if ok then CB_Completed else CB_Error, l))"

definition HandleStarting :: "Lifecycle \<Rightarrow> bool \<times> Lifecycle" where
  "HandleStarting l = invoke CallStarting (l_startingHandler l) l"

definition HandleStop :: "Lifecycle \<Rightarrow> bool \<times> Lifecycle" where
  "HandleStop l = invoke CallStop (l_stopHandler l) l"

definition HandleShutdown :: "Lifecycle \<Rightarrow> bool \<times> Lifecycle" where
  "HandleShutdown l = invoke CallShutdown (l_shutdownHandler l) l"

definition HandleAbort :: "Lifecycle \<Rightarrow> lifecycle_error + bool \<times> Lifecycle" where
  "HandleAbort l = (case l_lastBeforeAbortingState l of
     None \<Rightarrow> Inl AbortWithoutState
   | Some s \<Rightarrow> Inr (invoke (CallAbort s) (l_abortHandler l) l))"

section \<open>Methods of the states\<close>

datatype intent =
    Initialize | ServicesCreated | CommunicationInitializing | CommunicationInitialized
  | CompleteCommunicationReadyHandler | ReadyToRun | RunSimulation | PauseSimulation
  | ContinueSimulation | StopSimulation | RestartParticipant | ShutdownParticipant
  | AbortSimulation | ResolveAbortSimulation | ErrorIntent

fun intent_name :: "intent \<Rightarrow> string" where
  "intent_name Initialize = ''Initialize''"
| "intent_name ServicesCreated = ''ServicesCreated''"
| "intent_name CommunicationInitializing = ''CommunicationInitializing''"
| "intent_name CommunicationInitialized = ''CommunicationInitialized''"
| "intent_name CompleteCommunicationReadyHandler = ''CompleteCommunicationReadyHandler''"
| "intent_name ReadyToRun = ''ReadyToRun''"
| "intent_name RunSimulation = ''RunSimulation''"
| "intent_name PauseSimulation = ''PauseSimulation''"
| "intent_name ContinueSimulation = ''ContinueSimulation''"
| "intent_name StopSimulation = ''StopSimulation''"
| "intent_name RestartParticipant = ''RestartParticipant''"
| "intent_name ShutdownParticipant = ''ShutdownParticipant''"
| "intent_name AbortSimulation = ''AbortSimulation''"
| "intent_name ResolveAbortSimulation = ''ResolveAbortSimulation''"
| "intent_name ErrorIntent = ''Error''"

fun state_toString :: "ParticipantState \<Rightarrow> string" where
  "state_toString PS_Invalid = ''Invalid''"
| "state_toString PS_ServicesCreated = ''ServicesCreated''"
| "state_toString PS_CommunicationInitializing = ''CommunicationInitializing''"
| "state_toString PS_CommunicationInitialized = ''CommunicationInitialized''"
| "state_toString PS_ReadyToRun = ''ReadyToRun''"
| "state_toString PS_Running = ''Running''"
| "state_toString PS_Paused = ''Paused''"
| "state_toString PS_Stopping = ''Stopping''"
| "state_toString PS_Stopped = ''Stopped''"
| "state_toString PS_Error = ''Error''"
| "state_toString PS_ShuttingDown = ''ShuttingDown''"
| "state_toString PS_Shutdown = ''Shutdown''"
| "state_toString PS_Aborting = ''Aborting''"
| "state_toString (PS_Other w) = ''''"

text \<open>
  What is left to do: call a method of the current state, announce the current state, react to a new
  state of the system, or leave the callback of a state.
\<close>

datatype action =
    Call_on_current intent string
  | UpdateParticipantState string
  | NewSystemState SystemState
  | CallbackDone ParticipantState

type_synonym step_result = "(lifecycle_error \<times> Lifecycle) + action list \<times> Lifecycle"

definition nothing :: "Lifecycle \<Rightarrow> step_result" where
  "nothing l = Inr ([], l)"

definition call_on_current :: "intent \<Rightarrow> string \<Rightarrow> Lifecycle \<Rightarrow> step_result" where
  "call_on_current i reason l = Inr ([Call_on_current i reason], l)"

definition UpdateLifecycleState :: "ParticipantState \<Rightarrow> Lifecycle \<Rightarrow> Lifecycle" where
  "UpdateLifecycleState newState l =
     (if newState = PS_Aborting then l\<lparr>l_lastBeforeAbortingState := Some (l_currentState l)\<rparr> else l)
       \<lparr>l_currentState := newState\<rparr>"

definition SetState :: "ParticipantState \<Rightarrow> string \<Rightarrow> Lifecycle \<Rightarrow> step_result" where
  "SetState newState reason l = Inr ([UpdateParticipantState reason], UpdateLifecycleState newState l)"

definition SetStateAndForwardIntent :: "ParticipantState \<Rightarrow> intent \<Rightarrow> string \<Rightarrow> Lifecycle \<Rightarrow> step_result" where
  "SetStateAndForwardIntent newState i reason l =
     Inr ([UpdateParticipantState reason, Call_on_current i reason], UpdateLifecycleState newState l)"

definition InvalidStateTransition :: "ParticipantState \<Rightarrow> intent \<Rightarrow> bool \<Rightarrow> string \<Rightarrow> Lifecycle \<Rightarrow> step_result" where
  "InvalidStateTransition s i triggerErrorState originalReason l =
     (let nl = [CHR 0x0A];
          message = ''Detected invalid state transition.'' @ nl @ ''Current state: '' @ state_toString s @ nl @
            ''Requested transition: '' @ intent_name i @ nl @ ''Original reason: '' @ originalReason
      in if triggerErrorState then call_on_current ErrorIntent message l else nothing l)"

definition ProcessAbortCommand :: "ParticipantState \<Rightarrow> string \<Rightarrow> Lifecycle \<Rightarrow> step_result" where
  "ProcessAbortCommand s reason l =
     SetStateAndForwardIntent PS_Aborting ResolveAbortSimulation reason
       (l\<lparr>l_abortRequested := (l_abortRequested l)(s := False)\<rparr>)"

definition ProcessAbortCommandInCallback :: "ParticipantState \<Rightarrow> Lifecycle \<Rightarrow> step_result" where
  "ProcessAbortCommandInCallback s l =
     ProcessAbortCommand s
       (''Received SystemCommand::AbortSimulation during '' @ state_toString s @ '' callback'') l"

text \<open>
  The base class. \<^verbatim>\<open>AbortSimulation\<close> and \<^verbatim>\<open>ResolveAbortSimulation\<close> are pure virtual there; every state
  below defines them.
\<close>

fun base_State :: "ParticipantState \<Rightarrow> intent \<Rightarrow> string \<Rightarrow> Lifecycle \<Rightarrow> step_result" where
  "base_State s ErrorIntent reason l = SetState PS_Error reason l"
| "base_State s StopSimulation reason l = InvalidStateTransition s StopSimulation False reason l"
| "base_State s AbortSimulation reason l = nothing l"
| "base_State s ResolveAbortSimulation reason l = nothing l"
| "base_State s i reason l = InvalidStateTransition s i True reason l"

fun InvalidState :: "intent \<Rightarrow> string \<Rightarrow> Lifecycle \<Rightarrow> step_result" where
  "InvalidState Initialize reason l = SetState PS_ServicesCreated reason l"
| "InvalidState AbortSimulation reason l = SetStateAndForwardIntent PS_Aborting ResolveAbortSimulation reason l"
| "InvalidState ResolveAbortSimulation reason l = SetStateAndForwardIntent PS_Aborting ResolveAbortSimulation reason l"
| "InvalidState i reason l = base_State PS_Invalid i reason l"

definition after_all_replied :: "completion \<Rightarrow> Lifecycle \<Rightarrow> step_result" where
  "after_all_replied c l = nothing (l\<lparr>l_replies := CallAfterAllParticipantsReplied c (l_replies l)\<rparr>)"

fun ServicesCreatedState :: "intent \<Rightarrow> string \<Rightarrow> Lifecycle \<Rightarrow> step_result" where
  "ServicesCreatedState ServicesCreated reason l = after_all_replied (C_ServicesCreated reason) l"
| "ServicesCreatedState AbortSimulation reason l =
     SetStateAndForwardIntent PS_Aborting ResolveAbortSimulation reason l"
| "ServicesCreatedState ResolveAbortSimulation reason l =
     SetStateAndForwardIntent PS_Aborting ResolveAbortSimulation reason l"
| "ServicesCreatedState i reason l = base_State PS_ServicesCreated i reason l"

text \<open>The handler is called at once when no subscription is pending.\<close>

definition subscriptions_completed :: "string \<Rightarrow> Lifecycle \<Rightarrow> step_result" where
  "subscriptions_completed reason l =
     SetStateAndForwardIntent PS_CommunicationInitialized CommunicationInitializing reason l"

definition AddAsyncSubscriptionsCompletionHandler :: "string \<Rightarrow> Lifecycle \<Rightarrow> step_result" where
  "AddAsyncSubscriptionsCompletionHandler reason l =
     (if l_hasPendingAsyncSubscriptions l
      then nothing (l\<lparr>l_asyncSubscriptionsCompletionHandlers := l_asyncSubscriptionsCompletionHandlers l @ [reason]\<rparr>)
      else subscriptions_completed reason l)"

fun CommunicationInitializingState :: "intent \<Rightarrow> string \<Rightarrow> Lifecycle \<Rightarrow> step_result" where
  "CommunicationInitializingState ServicesCreated reason l = call_on_current CommunicationInitializing reason l"
| "CommunicationInitializingState CommunicationInitializing reason l =
     AddAsyncSubscriptionsCompletionHandler reason l"
| "CommunicationInitializingState AbortSimulation reason l =
     SetStateAndForwardIntent PS_Aborting ResolveAbortSimulation reason l"
| "CommunicationInitializingState ResolveAbortSimulation reason l =
     SetStateAndForwardIntent PS_Aborting ResolveAbortSimulation reason l"
| "CommunicationInitializingState i reason l = base_State PS_CommunicationInitializing i reason l"

text \<open>A method that runs a callback: it is marked as executing until all that follows has been done.\<close>

definition during_callback :: "ParticipantState \<Rightarrow> (Lifecycle \<Rightarrow> step_result) \<Rightarrow> Lifecycle \<Rightarrow> step_result" where
  "during_callback s f l =
     (case f (l\<lparr>l_handlerExecuting := (l_handlerExecuting l)(s := True)\<rparr>) of
        Inl e \<Rightarrow> Inl e | Inr (as, l) \<Rightarrow> Inr (as @ [CallbackDone s], l))"

fun CommunicationInitializedState :: "intent \<Rightarrow> string \<Rightarrow> Lifecycle \<Rightarrow> step_result" where
  "CommunicationInitializedState CommunicationInitializing reason l =
     (if l_operationMode l = OM_Autonomous
      then call_on_current CommunicationInitialized ''CommunicationInitialized for autonomous participant.'' l
      else nothing l)"
| "CommunicationInitializedState CommunicationInitialized reason l =
     during_callback PS_CommunicationInitialized (\<lambda>l.
       case HandleCommunicationReady l of
         (CB_Error, l) \<Rightarrow>
           (if l_abortRequested l PS_CommunicationInitialized
            then ProcessAbortCommandInCallback PS_CommunicationInitialized l
            else SetState PS_Error ''Exception during CommunicationReadyHandle execution.'' l)
       | (CB_Completed, l) \<Rightarrow>
           (if l_abortRequested l PS_CommunicationInitialized
            then ProcessAbortCommandInCallback PS_CommunicationInitialized l
            else SetStateAndForwardIntent PS_ReadyToRun CommunicationInitialized reason l)
       | (CB_Deferred, l) \<Rightarrow> nothing l) l"
| "CommunicationInitializedState CompleteCommunicationReadyHandler reason l =
     SetStateAndForwardIntent PS_ReadyToRun CommunicationInitialized reason l"
| "CommunicationInitializedState AbortSimulation reason l =
     (if l_handlerExecuting l PS_CommunicationInitialized
      then nothing (l\<lparr>l_abortRequested := (l_abortRequested l)(PS_CommunicationInitialized := True)\<rparr>)
      else ProcessAbortCommand PS_CommunicationInitialized ''Received SystemCommand::AbortSimulation.'' l)"
| "CommunicationInitializedState ResolveAbortSimulation reason l =
     ProcessAbortCommand PS_CommunicationInitialized reason l"
| "CommunicationInitializedState i reason l = base_State PS_CommunicationInitialized i reason l"

fun ReadyToRunState :: "intent \<Rightarrow> string \<Rightarrow> Lifecycle \<Rightarrow> step_result" where
  "ReadyToRunState CommunicationInitializing reason l = nothing l"
| "ReadyToRunState CommunicationInitialized reason l =
     (if l_operationMode l = OM_Autonomous
      then call_on_current ReadyToRun ''ReadyToRun for autonomous participant.'' l else nothing l)"
| "ReadyToRunState ReadyToRun reason l =
     (if \<not> l_timeSyncActive l
      then during_callback PS_ReadyToRun (\<lambda>l.
             let (success, l) = HandleStarting l
             in if l_abortRequested l PS_ReadyToRun then ProcessAbortCommandInCallback PS_ReadyToRun l
                else if success then SetState PS_Running ''Finished StartingHandler execution.'' l
                else SetState PS_Error ''Exception during StartingHandler execution.'' l) l
      else if l_abortRequested l PS_ReadyToRun then ProcessAbortCommandInCallback PS_ReadyToRun l
      else SetStateAndForwardIntent PS_Running ReadyToRun reason l)"
| "ReadyToRunState AbortSimulation reason l =
     (if l_handlerExecuting l PS_ReadyToRun
      then nothing (l\<lparr>l_abortRequested := (l_abortRequested l)(PS_ReadyToRun := True)\<rparr>)
      else ProcessAbortCommand PS_ReadyToRun reason l)"
| "ReadyToRunState ResolveAbortSimulation reason l = ProcessAbortCommand PS_ReadyToRun reason l"
| "ReadyToRunState i reason l = base_State PS_ReadyToRun i reason l"

fun RunningState :: "intent \<Rightarrow> string \<Rightarrow> Lifecycle \<Rightarrow> step_result" where
  "RunningState CommunicationInitializing reason l = nothing l"
| "RunningState CommunicationInitialized reason l = nothing l"
| "RunningState ReadyToRun reason l = nothing (calls CallStartTime l)"
| "RunningState PauseSimulation reason l = SetState PS_Paused reason l"
| "RunningState ContinueSimulation reason l = InvalidStateTransition PS_Running ContinueSimulation False reason l"
| "RunningState StopSimulation reason l =
     SetStateAndForwardIntent PS_Stopping StopSimulation reason (calls CallStopTime l)"
| "RunningState AbortSimulation reason l = ProcessAbortCommand PS_Running reason (calls CallStopTime l)"
| "RunningState ResolveAbortSimulation reason l = ProcessAbortCommand PS_Running reason l"
| "RunningState i reason l = base_State PS_Running i reason l"

fun PausedState :: "intent \<Rightarrow> string \<Rightarrow> Lifecycle \<Rightarrow> step_result" where
  "PausedState PauseSimulation reason l = InvalidStateTransition PS_Paused PauseSimulation True reason l"
| "PausedState ContinueSimulation reason l = SetState PS_Running reason l"
| "PausedState StopSimulation reason l = SetStateAndForwardIntent PS_Stopping StopSimulation reason l"
| "PausedState AbortSimulation reason l = ProcessAbortCommand PS_Paused ''Received abort simulation.'' l"
| "PausedState ResolveAbortSimulation reason l = ProcessAbortCommand PS_Paused reason l"
| "PausedState i reason l = base_State PS_Paused i reason l"

fun StoppingState :: "intent \<Rightarrow> string \<Rightarrow> Lifecycle \<Rightarrow> step_result" where
  "StoppingState StopSimulation reason l =
     (let (success, l) = HandleStop l
      in if l_abortRequested l PS_Stopping then ProcessAbortCommandInCallback PS_Stopping l
         else if success then SetStateAndForwardIntent PS_Stopped StopSimulation reason l
         else SetState PS_Error ''Exception during StopHandler execution.'' l)"
| "StoppingState AbortSimulation reason l =
     nothing (l\<lparr>l_abortRequested := (l_abortRequested l)(PS_Stopping := True)\<rparr>)"
| "StoppingState ResolveAbortSimulation reason l = ProcessAbortCommand PS_Stopping reason l"
| "StoppingState i reason l = base_State PS_Stopping i reason l"

fun StoppedState :: "intent \<Rightarrow> string \<Rightarrow> Lifecycle \<Rightarrow> step_result" where
  "StoppedState StopSimulation reason l = after_all_replied (C_Stopped reason) l"
| "StoppedState RestartParticipant reason l = Inl (RestartNotSupported, l)"
| "StoppedState ShutdownParticipant reason l = SetStateAndForwardIntent PS_ShuttingDown ShutdownParticipant reason l"
| "StoppedState AbortSimulation reason l = ProcessAbortCommand PS_Stopped reason l"
| "StoppedState ResolveAbortSimulation reason l = ProcessAbortCommand PS_Stopped reason l"
| "StoppedState i reason l = base_State PS_Stopped i reason l"

fun ShuttingDownState :: "intent \<Rightarrow> string \<Rightarrow> Lifecycle \<Rightarrow> step_result" where
  "ShuttingDownState StopSimulation reason l = nothing l"
| "ShuttingDownState ShutdownParticipant reason l =
     SetStateAndForwardIntent PS_Shutdown ShutdownParticipant reason (snd (HandleShutdown l))"
| "ShuttingDownState AbortSimulation reason l = nothing l"
| "ShuttingDownState ResolveAbortSimulation reason l = nothing l"
| "ShuttingDownState i reason l = base_State PS_ShuttingDown i reason l"

fun ShutdownState :: "intent \<Rightarrow> string \<Rightarrow> Lifecycle \<Rightarrow> step_result" where
  "ShutdownState Initialize reason l = nothing l"
| "ShutdownState ReadyToRun reason l = nothing l"
| "ShutdownState CommunicationInitialized reason l = nothing l"
| "ShutdownState StopSimulation reason l = nothing l"
| "ShutdownState ErrorIntent reason l = nothing l"
| "ShutdownState ShutdownParticipant reason l = after_all_replied (C_Shutdown reason) l"
| "ShutdownState AbortSimulation reason l = nothing l"
| "ShutdownState ResolveAbortSimulation reason l = nothing l"
| "ShutdownState i reason l = base_State PS_Shutdown i reason l"

fun AbortingState :: "intent \<Rightarrow> string \<Rightarrow> Lifecycle \<Rightarrow> step_result" where
  "AbortingState Initialize reason l = nothing l"
| "AbortingState ShutdownParticipant reason l = SetStateAndForwardIntent PS_Shutdown ShutdownParticipant reason l"
| "AbortingState AbortSimulation reason l = nothing l"
| "AbortingState ResolveAbortSimulation reason l =
     (case HandleAbort l of
        Inl e \<Rightarrow> Inl (e, l)
      | Inr (_, l) \<Rightarrow> call_on_current ShutdownParticipant reason l)"
| "AbortingState i reason l = base_State PS_Aborting i reason l"

fun ErrorState :: "intent \<Rightarrow> string \<Rightarrow> Lifecycle \<Rightarrow> step_result" where
  "ErrorState Initialize reason l = nothing l"
| "ErrorState RestartParticipant reason l = Inl (RestartNotSupported, l)"
| "ErrorState StopSimulation reason l = call_on_current ShutdownParticipant reason l"
| "ErrorState ShutdownParticipant reason l = SetStateAndForwardIntent PS_ShuttingDown ShutdownParticipant reason l"
| "ErrorState AbortSimulation reason l = ProcessAbortCommand PS_Error reason l"
| "ErrorState ResolveAbortSimulation reason l = ProcessAbortCommand PS_Error reason l"
| "ErrorState ErrorIntent reason l = nothing l"
| "ErrorState i reason l = base_State PS_Error i reason l"

end
