(* ===== verification/Lifecycle_Machine.thy ===== *)
theory Lifecycle_Machine
  imports Lifecycle_States
begin

text \<open>
  Execution of the actions of Lifecycle_States: the current state's method is called
  (LifecycleManagement.cpp), the state is announced and the participant's own tracker updated, and
  the lifecycle reacts to a new state of the system (LifecycleService.cpp). The stack of actions
  always empties: the termination proof below is the argument that the nested calls of the code
  come to an end.
\<close>

section \<open>Single actions\<close>

definition state_method :: "ParticipantState \<Rightarrow> intent \<Rightarrow> string \<Rightarrow> Lifecycle \<Rightarrow> step_result" where
  "state_method s = (case s of
     PS_Invalid \<Rightarrow> InvalidState
   | PS_ServicesCreated \<Rightarrow> ServicesCreatedState
   | PS_CommunicationInitializing \<Rightarrow> CommunicationInitializingState
   | PS_CommunicationInitialized \<Rightarrow> CommunicationInitializedState
   | PS_ReadyToRun \<Rightarrow> ReadyToRunState
   | PS_Running \<Rightarrow> RunningState
   | PS_Paused \<Rightarrow> PausedState
   | PS_Stopping \<Rightarrow> StoppingState
   | PS_Stopped \<Rightarrow> StoppedState
   | PS_Error \<Rightarrow> ErrorState
   | PS_ShuttingDown \<Rightarrow> ShuttingDownState
   | PS_Shutdown \<Rightarrow> ShutdownState
   | PS_Aborting \<Rightarrow> AbortingState
   | PS_Other w \<Rightarrow> (\<lambda>_ _. nothing))"

definition status_of :: "ParticipantState \<Rightarrow> string \<Rightarrow> Lifecycle \<Rightarrow> ParticipantStatus" where
  "status_of newState reason l =
     \<lparr>st_participantName = l_participantName l, st_state = newState, st_enterReason = reason,
      st_enterTime = l_now l, st_refreshTime = st_enterTime (l_status l)\<rparr>"

text \<open>\<^verbatim>\<open>NewParticipantStatus\<close>, the handler for the status messages of all participants.\<close>

definition NewParticipantStatus :: "ParticipantStatus \<Rightarrow> Lifecycle \<Rightarrow> Lifecycle" where
  "NewParticipantStatus st l =
     (if st_participantName st = l_participantName l \<and> st_state st = PS_ReadyToRun \<and> l_timeSyncActive l
      then calls (CallEvaluateAggregationInfo (l_timeSyncBlocking l)) l else l)"

text \<open>
  A status message at the participant's own monitor, which calls the handlers of the lifecycle when
  they are registered.
\<close>

definition monitor_receives :: "ParticipantStatus \<Rightarrow> Lifecycle \<Rightarrow> step_result" where
  "monitor_receives st l =
     (case UpdateParticipantStatus st (l_tracker l) of
        (Inl e, t) \<Rightarrow> Inl (TrackerFailed e, l\<lparr>l_tracker := t\<rparr>)
      | (Inr result, t) \<Rightarrow>
          (let l = l\<lparr>l_tracker := t\<rparr>;
               l = (if participantStateChanged result \<and> l_registered l then NewParticipantStatus st l else l)
           in Inr (if systemStateChanged result \<and> l_registered l then [NewSystemState (t_systemState t)] else [], l)))"

text \<open>The message is also delivered to the sender itself.\<close>

definition ChangeParticipantState :: "ParticipantState \<Rightarrow> string \<Rightarrow> Lifecycle \<Rightarrow> step_result" where
  "ChangeParticipantState newState reason l =
     (let status = status_of newState reason l
      in monitor_receives status (l\<lparr>l_status := status, l_sent := l_sent l @ [status]\<rparr>))"

definition new_system_state_message :: "SystemState \<Rightarrow> string" where
  "new_system_state_message S = ''Received new system state: '' @ (case S of
     SS_Invalid \<Rightarrow> ''Invalid'' | SS_ServicesCreated \<Rightarrow> ''ServicesCreated''
   | SS_CommunicationInitializing \<Rightarrow> ''CommunicationInitializing''
   | SS_CommunicationInitialized \<Rightarrow> ''CommunicationInitialized'' | SS_ReadyToRun \<Rightarrow> ''ReadyToRun''
   | SS_Running \<Rightarrow> ''Running'' | SS_Paused \<Rightarrow> ''Paused'' | SS_Stopping \<Rightarrow> ''Stopping'' | SS_Stopped \<Rightarrow> ''Stopped''
   | SS_Error \<Rightarrow> ''Error'' | SS_ShuttingDown \<Rightarrow> ''ShuttingDown'' | SS_Shutdown \<Rightarrow> ''Shutdown''
   | SS_Aborting \<Rightarrow> ''Aborting'')"

definition react_to_system_state :: "SystemState \<Rightarrow> Lifecycle \<Rightarrow> step_result" where
  "react_to_system_state S l =
     (if l_operationMode l \<noteq> OM_Coordinated then nothing l
      else let message = new_system_state_message S
           in case S of
                SS_ServicesCreated \<Rightarrow> call_on_current ServicesCreated message l
              | SS_CommunicationInitialized \<Rightarrow> call_on_current CommunicationInitialized message l
              | SS_ReadyToRun \<Rightarrow> call_on_current ReadyToRun message l
              | SS_Stopping \<Rightarrow>
                  (if l_currentState l = PS_Running \<or> l_currentState l = PS_Paused
                   then call_on_current StopSimulation message l else nothing l)
              | _ \<Rightarrow> nothing l)"

fun action_step :: "action \<Rightarrow> Lifecycle \<Rightarrow> step_result" where
  "action_step (Call_on_current i reason) l = state_method (l_currentState l) i reason l"
| "action_step (UpdateParticipantState reason) l = ChangeParticipantState (l_currentState l) reason l"
| "action_step (NewSystemState S) l = react_to_system_state S l"
| "action_step (CallbackDone s) l = nothing (l\<lparr>l_handlerExecuting := (l_handlerExecuting l)(s := False)\<rparr>)"

section \<open>The stack of actions empties\<close>

text \<open>
  States are ranked along the life of a participant; only pausing and continuing stay on a rank, and
  only an error may lead back, from shutting down or aborting. Below \<^verbatim>\<open>Error\<close> each transition climbs. From
  there on, announcements cause no reaction any more, so the calls that may lead back are used up.
\<close>

fun rank :: "ParticipantState \<Rightarrow> nat" where
  "rank PS_Invalid = 0"
| "rank PS_ServicesCreated = 1"
| "rank PS_CommunicationInitializing = 2"
| "rank PS_CommunicationInitialized = 3"
| "rank PS_ReadyToRun = 4"
| "rank PS_Running = 5"
| "rank PS_Paused = 5"
| "rank PS_Stopping = 6"
| "rank PS_Stopped = 7"
| "rank PS_Error = 8"
| "rank PS_ShuttingDown = 9"
| "rank PS_Aborting = 9"
| "rank PS_Shutdown = 10"
| "rank (PS_Other w) = 10"

fun weight :: "action \<Rightarrow> nat" where
  "weight (Call_on_current i reason) = (case i of
     ErrorIntent \<Rightarrow> 1 | ShutdownParticipant \<Rightarrow> 2 | ReadyToRun \<Rightarrow> 2 | CommunicationInitialized \<Rightarrow> 3
   | CommunicationInitializing \<Rightarrow> 4 | PauseSimulation \<Rightarrow> 9 | ContinueSimulation \<Rightarrow> 9 | _ \<Rightarrow> 5)"
| "weight (UpdateParticipantState reason) = 7"
| "weight (NewSystemState S) = 6"
| "weight (CallbackDone s) = 1"

text \<open>The calls that may lead back from shutting down or aborting to an error.\<close>

fun risk :: "action \<Rightarrow> nat" where
  "risk (Call_on_current i reason) = (case i of
     ErrorIntent \<Rightarrow> 1 | ShutdownParticipant \<Rightarrow> 0 | StopSimulation \<Rightarrow> 0 | AbortSimulation \<Rightarrow> 0
   | ResolveAbortSimulation \<Rightarrow> 0 | _ \<Rightarrow> 2)"
| "risk (NewSystemState S) = (case S of
     SS_ServicesCreated \<Rightarrow> 3 | SS_CommunicationInitialized \<Rightarrow> 3 | SS_ReadyToRun \<Rightarrow> 3 | _ \<Rightarrow> 0)"
| "risk _ = 0"

definition climb :: "Lifecycle \<Rightarrow> nat" where
  "climb l = 8 - min 8 (rank (l_currentState l))"

definition risks :: "action list \<times> Lifecycle \<Rightarrow> nat" where
  "risks = (\<lambda>(as, l). if rank (l_currentState l) < 8 then 0 else sum_list (map risk as))"

definition work :: "action list \<times> Lifecycle \<Rightarrow> nat" where
  "work = (\<lambda>(as, l). 20 * (10 - rank (l_currentState l)) + sum_list (map weight as))"

lemmas step_defs = nothing_def call_on_current_def SetState_def SetStateAndForwardIntent_def
  InvalidStateTransition_def ProcessAbortCommand_def ProcessAbortCommandInCallback_def after_all_replied_def
  subscriptions_completed_def AddAsyncSubscriptionsCompletionHandler_def during_callback_def Let_def

lemma perform_currentState [simp]: "l_currentState (perform r l) = l_currentState l"
  by (cases r) (simp_all add: lifecycle_Stop_def lifecycle_Pause_def lifecycle_Continue_def lifecycle_ReportError_def
      lifecycle_AbortSimulation_def CompleteCommunicationReadyHandlerAsync_def lifecycle_ExecuteDeferred_def)

lemma performs_currentState [simp]: "l_currentState (fold perform rs l) = l_currentState l"
  by (induction rs arbitrary: l) simp_all

lemma calls_currentState [simp]: "l_currentState (calls c l) = l_currentState l"
  by (simp add: calls_def)

lemma invoke_currentState [simp]: "l_currentState (snd (invoke c h l)) = l_currentState l"
  by (simp add: invoke_def split: option.split)

lemma Handle_currentState:
  "l_currentState (snd (HandleCommunicationReady l)) = l_currentState l"
  "l_currentState (snd (HandleStarting l)) = l_currentState l"
  "l_currentState (snd (HandleStop l)) = l_currentState l"
  "l_currentState (snd (HandleShutdown l)) = l_currentState l"
  "HandleAbort l = Inr (ok, l') \<Longrightarrow> l_currentState l' = l_currentState l"
  by (auto simp: HandleCommunicationReady_def HandleStarting_def HandleStop_def HandleShutdown_def HandleAbort_def
      split_beta Let_def split: option.splits dest: arg_cong[of _ _ "\<lambda>x. l_currentState (snd x)"])

lemma UpdateLifecycleState_currentState [simp]: "l_currentState (UpdateLifecycleState s l) = s"
  by (simp add: UpdateLifecycleState_def)

text \<open>One action makes progress.\<close>

definition progress :: "action \<Rightarrow> Lifecycle \<Rightarrow> action list \<Rightarrow> Lifecycle \<Rightarrow> bool" where
  "progress a l bs l' \<longleftrightarrow>
     (let r = rank (l_currentState l); r' = rank (l_currentState l');
          lighter = 20 * (10 - r') + sum_list (map weight bs) < 20 * (10 - r) + weight a;
          safer = sum_list (map risk bs) < risk a
      in r < 8 \<and> r < r' \<or> r < 8 \<and> r' = r \<and> lighter \<or>
         8 \<le> r \<and> 8 \<le> r' \<and> (safer \<or> sum_list (map risk bs) \<le> risk a \<and> lighter))"

lemma progress_measures:
  "progress a l bs l' \<Longrightarrow> ((bs @ as, l'), (a # as, l)) \<in> measures [climb \<circ> snd, risks, work]"
  by (auto simp: progress_def climb_def risks_def work_def Let_def)

lemma rank_le: "rank s \<le> 10"
  by (cases s) simp_all

lemma state_method_progress:
  assumes "state_method (l_currentState l) i reason l = Inr (bs, l')"
  shows "progress (Call_on_current i reason) l bs l'"
proof (cases "l_currentState l")
  case PS_Invalid
  then show ?thesis using assms by (cases i) (auto simp: state_method_def step_defs progress_def)
next
  case PS_ServicesCreated
  then show ?thesis using assms by (cases i) (auto simp: state_method_def step_defs progress_def)
next
  case PS_CommunicationInitializing
  then show ?thesis using assms
    by (cases i) (auto simp: state_method_def step_defs progress_def split: if_splits)
next
  case PS_CommunicationInitialized
  then show ?thesis using assms Handle_currentState(1)[of "l\<lparr>l_handlerExecuting := (l_handlerExecuting l)(PS_CommunicationInitialized := True)\<rparr>"]
    by (cases i) (auto simp: state_method_def step_defs progress_def split: if_splits prod.splits CallbackResult.splits)
next
  case PS_ReadyToRun
  then show ?thesis using assms
    by (cases i) (auto simp: state_method_def step_defs progress_def split: if_splits prod.splits)
next
  case PS_Running
  then show ?thesis using assms by (cases i) (auto simp: state_method_def step_defs progress_def)
next
  case PS_Paused
  then show ?thesis using assms by (cases i) (auto simp: state_method_def step_defs progress_def)
next
  case PS_Stopping
  then show ?thesis using assms
    by (cases i) (auto simp: state_method_def step_defs progress_def split: if_splits prod.splits)
next
  case PS_Stopped
  then show ?thesis using assms by (cases i) (auto simp: state_method_def step_defs progress_def)
next
  case PS_Error
  then show ?thesis using assms by (cases i) (auto simp: state_method_def step_defs progress_def)
next
  case PS_ShuttingDown
  then show ?thesis using assms by (cases i) (auto simp: state_method_def step_defs progress_def)
next
  case PS_Shutdown
  then show ?thesis using assms by (cases i) (auto simp: state_method_def step_defs progress_def)
next
  case PS_Aborting
  then show ?thesis using assms Handle_currentState(5)[of l]
    by (cases i) (auto simp: state_method_def step_defs progress_def split: sum.splits)
next
  case (PS_Other w)
  then show ?thesis using assms by (cases i) (auto simp: state_method_def step_defs progress_def)
qed

text \<open>Announcements of an error, an abort or a shutdown cause no reaction.\<close>

lemma late_announcement:
  assumes "ChangeParticipantState s reason l = Inr (bs, l')" "8 \<le> rank s"
  shows "sum_list (map risk bs) = 0"
proof -
  have "ComputeSystemState s t = t_systemState t \<or> risk (NewSystemState (ComputeSystemState s t)) = 0"
    if "\<not> IsEmpty t" "\<nexists>w. s = PS_Other w" for t
    using assms(2) that by (cases s) (auto simp: ComputeSystemState_def)
  note quiet = this[of "SetParticipantStatus (l_participantName l) (status_of s reason l) (l_tracker l)"]
  have st: "st_participantName (status_of s reason l) = l_participantName l" "st_state (status_of s reason l) = s"
    by (simp_all add: status_of_def)
  show ?thesis
    using assms quiet by (auto simp: ChangeParticipantState_def monitor_receives_def UpdateParticipantStatus_eq st
        Let_def split: if_splits)
qed

lemma ChangeParticipantState_currentState:
  "ChangeParticipantState s reason l = Inr (bs, l') \<Longrightarrow> l_currentState l' = l_currentState l \<and>
     sum_list (map weight bs) \<le> 6"
  by (auto simp: ChangeParticipantState_def monitor_receives_def NewParticipantStatus_def Let_def
      split: prod.splits sum.splits if_splits)

lemma action_step_progress:
  assumes "action_step a l = Inr (bs, l')"
  shows "progress a l bs l'"
proof (cases a)
  case (Call_on_current i reason)
  then show ?thesis using assms state_method_progress by simp
next
  case (UpdateParticipantState reason)
  then show ?thesis
    using assms ChangeParticipantState_currentState[of "l_currentState l" reason l bs l']
      late_announcement[of "l_currentState l" reason l bs l']
    by (auto simp: progress_def Let_def)
next
  case (NewSystemState S)
  then show ?thesis using assms
    by (cases S) (auto simp: react_to_system_state_def step_defs progress_def split: if_splits)
next
  case (CallbackDone s)
  then show ?thesis using assms by (auto simp: step_defs progress_def)
qed

function run_actions :: "action list \<Rightarrow> Lifecycle \<Rightarrow> (lifecycle_error \<times> Lifecycle) + Lifecycle" where
  "run_actions [] l = Inr l"
| "run_actions (a # as) l =
     (case action_step a l of Inl e \<Rightarrow> Inl e | Inr (bs, l') \<Rightarrow> run_actions (bs @ as) l')"
  by pat_completeness auto
termination
  by (relation "measures [climb \<circ> snd, risks, work]") (simp, rule progress_measures, rule action_step_progress, simp)

declare run_actions.simps(2) [simp del]

lemma run_actions_append:
  "run_actions (as @ bs) l = bindE (run_actions as l) (run_actions bs)"
proof (induction as l rule: run_actions.induct)
  case (2 a as l)
  show ?case
  proof (cases "action_step a l")
    case (Inr r)
    then obtain cs l' where "action_step a l = Inr (cs, l')" by (cases r) auto
    with 2[OF this refl] show ?thesis by (simp add: run_actions.simps(2))
  qed (simp add: run_actions.simps(2))
qed simp

end
