(* ===== verification/Lifecycle_Service.thy ===== *)
theory Lifecycle_Service
  imports Lifecycle_Machine
begin

text \<open>
  The service around the state machine (services/orchestration/LifecycleService.cpp): configuration,
  the start of the lifecycle, the deferred actions, and the events that reach it from the other
  participants, from the barrier and from the connection.
\<close>

type_synonym lifecycle_result = "(lifecycle_error \<times> Lifecycle) + Lifecycle"

definition LifecycleService_new :: "string \<Rightarrow> OperationMode \<Rightarrow> Uuid \<Rightarrow> Lifecycle" where
  "LifecycleService_new participantName operationMode nil =
     \<lparr>l_participantName = participantName, l_operationMode = operationMode, l_timeSyncActive = False,
      l_timeSyncBlocking = False, l_currentState = PS_Invalid, l_lastBeforeAbortingState = None,
      l_abortRequested = (\<lambda>_. False), l_handlerExecuting = (\<lambda>_. False),
      l_status = \<lparr>st_participantName = [], st_state = PS_Invalid, st_enterReason = [], st_enterTime = 0,
        st_refreshTime = 0\<rparr>,
      l_isLifecycleStarted = False, l_abortedBeforeLifecycleStart = False, l_stopRequested = False,
      l_pauseRequested = False, l_requiredParticipantNames = [], l_commReadyHandler = None,
      l_commReadyHandlerIsAsync = False, l_commReadyHandlerInvoked = False, l_commReadyHandlerCompleted = False,
      l_startingHandler = None, l_stopHandler = None, l_shutdownHandler = None, l_abortHandler = None,
      l_finalState = None, l_tracker = SystemStateTracker_new, l_registered = False,
      l_replies = RequestReplyService_new nil, l_hasPendingAsyncSubscriptions = False,
      l_asyncSubscriptionsCompletionHandlers = [], l_now = 0, l_deferred = [], l_sent = [], l_calls = []\<rparr>"

section \<open>Configuration\<close>

definition SetCommunicationReadyHandler :: "callback \<Rightarrow> Lifecycle \<Rightarrow> Lifecycle" where
  "SetCommunicationReadyHandler handler l =
     l\<lparr>l_commReadyHandlerIsAsync := False, l_commReadyHandler := Some handler\<rparr>"

definition SetCommunicationReadyHandlerAsync :: "callback \<Rightarrow> Lifecycle \<Rightarrow> Lifecycle" where
  "SetCommunicationReadyHandlerAsync handler l =
     l\<lparr>l_commReadyHandlerIsAsync := True, l_commReadyHandler := Some handler\<rparr>"

definition SetStartingHandler :: "callback \<Rightarrow> Lifecycle \<Rightarrow> Lifecycle" where
  "SetStartingHandler handler l = l\<lparr>l_startingHandler := Some handler\<rparr>"

definition SetStopHandler :: "callback \<Rightarrow> Lifecycle \<Rightarrow> Lifecycle" where
  "SetStopHandler handler l = l\<lparr>l_stopHandler := Some handler\<rparr>"

definition SetShutdownHandler :: "callback \<Rightarrow> Lifecycle \<Rightarrow> Lifecycle" where
  "SetShutdownHandler handler l = l\<lparr>l_shutdownHandler := Some handler\<rparr>"

definition SetAbortHandler :: "callback \<Rightarrow> Lifecycle \<Rightarrow> Lifecycle" where
  "SetAbortHandler handler l = l\<lparr>l_abortHandler := Some handler\<rparr>"

definition CreateTimeSyncService :: "Lifecycle \<Rightarrow> lifecycle_result" where
  "CreateTimeSyncService l =
     (if \<not> l_timeSyncActive l then Inr (l\<lparr>l_timeSyncActive := True\<rparr>) else Inl (TimeSyncServiceTwice, l))"

definition lifecycle_State :: "Lifecycle \<Rightarrow> ParticipantState" where
  "lifecycle_State l = st_state (l_status l)"

definition not_required_message :: "Lifecycle \<Rightarrow> string" where
  "not_required_message l = l_participantName l @
     '': This participant is in OperationMode::Coordinated but it is not part of the '' @
     ''set of \"required\" participants declared by the system controller. ''"

definition CheckForValidConfiguration :: "Lifecycle \<Rightarrow> bool \<times> Lifecycle" where
  "CheckForValidConfiguration l =
     (if l_operationMode l = OM_Coordinated \<and> l_participantName l \<notin> set (l_requiredParticipantNames l)
      then (False, lifecycle_ReportError (not_required_message l) l)
      else (True, l))"

section \<open>Start\<close>

text \<open>
  \<^verbatim>\<open>StartLifecycle\<close>. Registering the handler for system states calls it at once with the current
  state; the handler for participant statuses has nothing to do with the statuses of others. The
  services are announced to the other participants by the service discovery, which is left out.
\<close>

definition StartLifecycle :: "Lifecycle \<Rightarrow> lifecycle_result" where
  "StartLifecycle l =
     (let l = l\<lparr>l_isLifecycleStarted := True\<rparr>
      in if l_abortedBeforeLifecycleStart l then Inr (lifecycle_ExecuteDeferred D_AbortBeforeStart l)
         else let (valid, l) = (if l_requiredParticipantNames l \<noteq> [] then CheckForValidConfiguration l else (True, l))
              in if \<not> valid then Inr l
                 else bindE (run_actions [NewSystemState (t_systemState (l_tracker l))]
                              (calls (CallInitializeTimeSyncPolicy (l_timeSyncActive l)) l)) (\<lambda>l.
                        let l = lifecycle_ExecuteDeferred D_Initialize (l\<lparr>l_registered := True\<rparr>)
                        in case l_operationMode l of
                             OM_Invalid \<Rightarrow> Inl (OperationModeNotSet, l)
                           | OM_Coordinated \<Rightarrow> Inr l
                           | OM_Autonomous \<Rightarrow> Inr (lifecycle_ExecuteDeferred D_StartAutonomous l)))"

section \<open>Deferred actions\<close>

definition pause_message :: "ParticipantState \<Rightarrow> string" where
  "pause_message s = ''LifecycleService::Pause() was called in state ParticipantState::'' @ state_toString s"

definition continue_message :: "ParticipantState \<Rightarrow> string" where
  "continue_message s = ''LifecycleService::Continue() was called in state ParticipantState::'' @ state_toString s"

fun execute_deferred :: "deferred \<Rightarrow> Lifecycle \<Rightarrow> lifecycle_result" where
  "execute_deferred D_Initialize l =
     run_actions [Call_on_current Initialize ''LifecycleService::StartLifecycle was called.''] l"
| "execute_deferred D_StartAutonomous l =
     run_actions [Call_on_current ServicesCreated
       ''LifecycleService::StartLifecycle was called without start coordination.''] l"
| "execute_deferred D_AbortBeforeStart l =
     run_actions [Call_on_current AbortSimulation ''Lifecycle was aborted by SystemCommand::AbortSimulation''] l"
| "execute_deferred (D_ReportError errorMsg) l =
     (if \<not> l_isLifecycleStarted l then Inr l
      else if lifecycle_State l = PS_Shutdown then Inr l
      else run_actions [Call_on_current ErrorIntent errorMsg] l)"
| "execute_deferred (D_Pause reason) l =
     (if lifecycle_State l \<noteq> PS_Running
      then Inl (PauseInWrongState (lifecycle_State l), lifecycle_ReportError (pause_message (lifecycle_State l)) l)
      else run_actions [Call_on_current PauseSimulation reason] l)"
| "execute_deferred D_Continue l =
     (if lifecycle_State l \<noteq> PS_Paused
      then Inl (ContinueInWrongState (lifecycle_State l), lifecycle_ReportError (continue_message (lifecycle_State l)) l)
      else bindE (run_actions [Call_on_current ContinueSimulation ''Pause finished''] l)
             (\<lambda>l. Inr (calls CallRequestNextStep l)))"
| "execute_deferred (D_Stop reason) l = run_actions [Call_on_current StopSimulation reason] l"
| "execute_deferred (D_AbortSimulation reason) l = run_actions [Call_on_current AbortSimulation reason] l"
| "execute_deferred D_CompleteCommunicationReady l =
     run_actions [Call_on_current CompleteCommunicationReadyHandler
       ''LifecycleService::CompleteCommunicationReadyHandler: triggering communication ready transition.''] l"

definition run_next_deferred :: "Lifecycle \<Rightarrow> lifecycle_result" where
  "run_next_deferred l = (case l_deferred l of
     [] \<Rightarrow> Inr l | d # ds \<Rightarrow> execute_deferred d (l\<lparr>l_deferred := ds\<rparr>))"

section \<open>The barrier and the subscriptions\<close>

definition SetFinalStatePromise :: "Lifecycle \<Rightarrow> Lifecycle" where
  "SetFinalStatePromise l =
     (if l_finalState l = None then l\<lparr>l_finalState := Some (lifecycle_State l)\<rparr> else l)"

definition finish_step :: "step_result \<Rightarrow> lifecycle_result" where
  "finish_step r = (case r of Inl e \<Rightarrow> Inl e | Inr (as, l) \<Rightarrow> run_actions as l)"

fun run_completion :: "completion \<Rightarrow> Lifecycle \<Rightarrow> lifecycle_result" where
  "run_completion (C_ServicesCreated reason) l =
     finish_step (SetStateAndForwardIntent PS_CommunicationInitializing ServicesCreated reason l)"
| "run_completion (C_Stopped reason) l = run_actions [Call_on_current ShutdownParticipant reason] l"
| "run_completion (C_Shutdown reason) l =
     (if l_currentState l \<noteq> PS_Error then Inr (SetFinalStatePromise (calls CallNotifyShutdown l)) else Inr l)"

fun run_completions :: "completion list \<Rightarrow> Lifecycle \<Rightarrow> lifecycle_result" where
  "run_completions [] l = Inr l"
| "run_completions (c # cs) l = bindE (run_completion c l) (run_completions cs)"

text \<open>An event of the barrier, followed by the completion functions it executes.\<close>

definition replies_event :: "completion rr_event \<Rightarrow> Lifecycle \<Rightarrow> lifecycle_result" where
  "replies_event e l =
     (let rr = rr_step e (l_replies l)
      in run_completions (drop (length (pr_completed (l_replies l))) (pr_completed rr)) (l\<lparr>l_replies := rr\<rparr>))"

fun run_subscription_handlers :: "string list \<Rightarrow> Lifecycle \<Rightarrow> lifecycle_result" where
  "run_subscription_handlers [] l = Inr l"
| "run_subscription_handlers (reason # reasons) l =
     bindE (finish_step (subscriptions_completed reason l)) (run_subscription_handlers reasons)"

definition AsyncSubscriptionsCompleted :: "Lifecycle \<Rightarrow> lifecycle_result" where
  "AsyncSubscriptionsCompleted l =
     bindE (run_subscription_handlers (l_asyncSubscriptionsCompletionHandlers l) l) (\<lambda>l.
       Inr (l\<lparr>l_asyncSubscriptionsCompletionHandlers := [], l_hasPendingAsyncSubscriptions := False\<rparr>))"

section \<open>Messages\<close>

definition receive_status :: "ParticipantStatus \<Rightarrow> Lifecycle \<Rightarrow> lifecycle_result" where
  "receive_status st l = finish_step (monitor_receives st l)"

definition SetWorkflowConfiguration :: "string list \<Rightarrow> Lifecycle \<Rightarrow> Lifecycle" where
  "SetWorkflowConfiguration names l =
     (let l = l\<lparr>l_requiredParticipantNames := names\<rparr>
      in if l_operationMode l \<noteq> OM_Invalid \<and> l_isLifecycleStarted l then snd (CheckForValidConfiguration l) else l)"

definition receive_workflow :: "string list \<Rightarrow> Lifecycle \<Rightarrow> lifecycle_result" where
  "receive_workflow names l =
     (let (changed, t) = UpdateRequiredParticipants names (l_tracker l);
          l = l\<lparr>l_tracker := t\<rparr>
      in bindE (run_actions (if changed \<and> l_registered l then [NewSystemState (t_systemState t)] else []) l)
           (\<lambda>l. Inr (SetWorkflowConfiguration names l)))"

datatype command_kind = Command_Invalid | Command_AbortSimulation | Command_Other string

definition receive_command :: "command_kind \<Rightarrow> Lifecycle \<Rightarrow> Lifecycle" where
  "receive_command kind l = (case kind of
     Command_AbortSimulation \<Rightarrow> lifecycle_AbortSimulation ''Received SystemCommand::AbortSimulation'' l
   | Command_Invalid \<Rightarrow> lifecycle_ReportError (''Received SystemCommand::Invalid while in ParticipantState::'' @
       state_toString (lifecycle_State l)) l
   | Command_Other name \<Rightarrow> lifecycle_ReportError (''Received SystemCommand::'' @ name @
       '' while in ParticipantState::'' @ state_toString (lifecycle_State l)) l)"

text \<open>The end of \<^verbatim>\<open>SystemMonitor::OnParticipantDisconnected\<close>; the status that comes first is an event of its own.\<close>

definition forget_participant :: "string \<Rightarrow> Lifecycle \<Rightarrow> lifecycle_result" where
  "forget_participant name l =
     (let (changed, t) = RemoveParticipant name (l_tracker l)
      in run_actions (if changed \<and> l_registered l then [NewSystemState (t_systemState t)] else []) (l\<lparr>l_tracker := t\<rparr>))"

section \<open>Runs\<close>

text \<open>
  Everything that can happen to the service, in any order: calls of the application, work of the I/O
  thread (deferred actions, received messages, participants that leave), and the passing of time.
\<close>

datatype lifecycle_event =
    E_SetCommunicationReadyHandler callback
  | E_SetCommunicationReadyHandlerAsync callback
  | E_SetStartingHandler callback
  | E_SetStopHandler callback
  | E_SetShutdownHandler callback
  | E_SetAbortHandler callback
  | E_CreateTimeSyncService
  | E_Start
  | E_Request request
  | E_Command command_kind
  | E_Deferred
  | E_Status ParticipantStatus
  | E_Workflow "string list"
  | E_ForgetParticipant string
  | E_RunDeferredCall "string list" Uuid
  | E_CallFrom string RequestReplyCall
  | E_ReturnFrom string RequestReplyCallReturn
  | E_Removal string
  | E_SubscriptionsPending
  | E_SubscriptionsCompleted
  | E_Clock u64

fun handle_event :: "lifecycle_event \<Rightarrow> Lifecycle \<Rightarrow> lifecycle_result" where
  "handle_event (E_SetCommunicationReadyHandler h) l = Inr (SetCommunicationReadyHandler h l)"
| "handle_event (E_SetCommunicationReadyHandlerAsync h) l = Inr (SetCommunicationReadyHandlerAsync h l)"
| "handle_event (E_SetStartingHandler h) l = Inr (SetStartingHandler h l)"
| "handle_event (E_SetStopHandler h) l = Inr (SetStopHandler h l)"
| "handle_event (E_SetShutdownHandler h) l = Inr (SetShutdownHandler h l)"
| "handle_event (E_SetAbortHandler h) l = Inr (SetAbortHandler h l)"
| "handle_event E_CreateTimeSyncService l = CreateTimeSyncService l"
| "handle_event E_Start l = StartLifecycle l"
| "handle_event (E_Request r) l = Inr (perform r l)"
| "handle_event (E_Command kind) l = Inr (receive_command kind l)"
| "handle_event E_Deferred l = run_next_deferred l"
| "handle_event (E_Status st) l = receive_status st l"
| "handle_event (E_Workflow names) l = receive_workflow names l"
| "handle_event (E_ForgetParticipant name) l = forget_participant name l"
| "handle_event (E_RunDeferredCall receivers u) l = replies_event (RunDeferred receivers u) l"
| "handle_event (E_CallFrom sender msg) l = replies_event (CallFrom sender msg) l"
| "handle_event (E_ReturnFrom sender msg) l = replies_event (ReturnFrom sender msg) l"
| "handle_event (E_Removal name) l = replies_event (Removal name) l"
| "handle_event E_SubscriptionsPending l = Inr (l\<lparr>l_hasPendingAsyncSubscriptions := True\<rparr>)"
| "handle_event E_SubscriptionsCompleted l = AsyncSubscriptionsCompleted l"
| "handle_event (E_Clock now) l = Inr (l\<lparr>l_now := now\<rparr>)"

text \<open>An exception ends the handling of one event; the participant lives on with the state it has.\<close>

definition state_after :: "lifecycle_result \<Rightarrow> Lifecycle" where
  "state_after r = (case r of Inl (_, l) \<Rightarrow> l | Inr l \<Rightarrow> l)"

definition lifecycle_step :: "lifecycle_event \<Rightarrow> Lifecycle \<Rightarrow> Lifecycle" where
  "lifecycle_step e l = state_after (handle_event e l)"

definition lifecycle_run :: "lifecycle_event list \<Rightarrow> Lifecycle \<Rightarrow> Lifecycle" where
  "lifecycle_run es l = fold lifecycle_step es l"

end
