(* ===== verification/Lifecycle_Properties.thy ===== *)
theory Lifecycle_Properties
  imports Lifecycle_Service
begin

text \<open>
  What the lifecycle service does in every run: the states a participant announces follow a fixed
  graph, its final state is not reported before it has shut down, aborts and throwing callbacks end
  in the states the documentation names. Two theorems show what a barrier or a subscription that
  completes after an abort does.
\<close>

section \<open>Invariants of runs\<close>

text \<open>A property of the stack and the state that every action keeps holds when the stack is empty.\<close>

lemma run_actions_invariant:
  assumes step: "\<And>a as l. J (a # as) l \<Longrightarrow> case action_step a l of Inl (e, l') \<Rightarrow> J [] l' | Inr (bs, l') \<Rightarrow> J (bs @ as) l'"
    and "J as l"
  shows "J [] (state_after (run_actions as l))"
  using assms(2)
proof (induction as l rule: run_actions.induct)
  case (1 l)
  then show ?case by (simp add: state_after_def)
next
  case (2 a as l)
  show ?case
  proof (cases "action_step a l")
    case (Inl e)
    then show ?thesis
      using step[OF 2(2)] by (cases e) (simp add: run_actions.simps(2) state_after_def)
  next
    case (Inr r)
    then obtain bs l' where r: "action_step a l = Inr (bs, l')" by (cases r) simp
    then have "J (bs @ as) l'" using step[OF 2(2)] by simp
    from 2(1)[OF r refl this] show ?thesis by (simp add: run_actions.simps(2) r)
  qed
qed

text \<open>
  The transitions that occur. The validation of the tracker allows all of them except those made
  by a completed barrier or completed subscriptions, which do not look at the current state.
\<close>

definition may_follow :: "ParticipantState \<Rightarrow> ParticipantState \<Rightarrow> bool" where
  "may_follow old new \<longleftrightarrow> ValidateParticipantStateUpdate old new = Inr True \<or>
     new = PS_CommunicationInitializing \<or> new = PS_CommunicationInitialized"

definition announced_states :: "Lifecycle \<Rightarrow> ParticipantState list" where
  "announced_states l = PS_Invalid # map st_state (l_sent l)"

definition completions_of :: "'c RequestReplyService \<Rightarrow> 'c set" where
  "completions_of rr = set (pr_deferred rr) \<union> set_option (pr_completionFunction rr) \<union> set (pr_completed rr)"

text \<open>The parts of the state that the invariant speaks of.\<close>

definition view :: "Lifecycle \<Rightarrow>
    ParticipantState \<times> ParticipantState list \<times> ParticipantState option \<times> completion RequestReplyService \<times> ParticipantState" where
  "view l = (l_currentState l, announced_states l, l_finalState l, l_replies l, st_state (l_status l))"

definition history_ok :: "Lifecycle \<Rightarrow> bool" where
  "history_ok l \<longleftrightarrow> successively may_follow (announced_states l) \<and> st_state (l_status l) = last (announced_states l) \<and>
     ((\<exists>reason. C_Shutdown reason \<in> completions_of (l_replies l)) \<or> l_finalState l \<noteq> None \<longrightarrow>
        PS_Shutdown \<in> set (announced_states l)) \<and> disc_ok UNIV (l_replies l)"

fun is_update :: "action \<Rightarrow> bool" where
  "is_update (UpdateParticipantState reason) = True"
| "is_update _ = False"

abbreviation no_update :: "action list \<Rightarrow> bool" where
  "no_update as \<equiv> list_all (\<lambda>a. \<not> is_update a) as"

text \<open>The current state is the one announced last, unless its announcement is the next action.\<close>

fun stack_ok :: "action list \<Rightarrow> Lifecycle \<Rightarrow> bool" where
  "stack_ok (UpdateParticipantState reason # as) l \<longleftrightarrow> history_ok l \<and> no_update as \<and>
     may_follow (last (announced_states l)) (l_currentState l)"
| "stack_ok as l \<longleftrightarrow> history_ok l \<and> no_update as \<and>
     l_currentState l = last (announced_states l)"

lemma view_perform [simp]: "view (perform r l) = view l"
  by (cases r) (simp_all add: view_def announced_states_def lifecycle_Stop_def lifecycle_Pause_def lifecycle_Continue_def
      lifecycle_ReportError_def lifecycle_AbortSimulation_def CompleteCommunicationReadyHandlerAsync_def lifecycle_ExecuteDeferred_def)

lemma view_performs [simp]: "view (fold perform rs l) = view l"
  by (induction rs arbitrary: l) simp_all

lemma view_calls [simp]: "view (calls c l) = view l"
  by (simp add: calls_def view_def announced_states_def)

lemma view_invoke [simp]: "view (snd (invoke c h l)) = view l"
  by (simp add: invoke_def split: option.split)

lemma view_update [simp]:
  "view (l\<lparr>l_handlerExecuting := h\<rparr>) = view l"
  "view (l\<lparr>l_abortRequested := h\<rparr>) = view l"
  "view (l\<lparr>l_asyncSubscriptionsCompletionHandlers := hs\<rparr>) = view l"
  "view (l\<lparr>l_commReadyHandlerInvoked := True, l_commReadyHandlerCompleted := False\<rparr>) = view l"
  by (simp_all add: view_def announced_states_def)

lemma view_Handle:
  "HandleCommunicationReady l = (r, l') \<Longrightarrow> view l' = view l"
  "HandleStarting l = (ok, l') \<Longrightarrow> view l' = view l"
  "HandleStop l = (ok, l') \<Longrightarrow> view l' = view l"
  "view (snd (HandleShutdown l)) = view l"
  "HandleAbort l = Inr (ok, l') \<Longrightarrow> view l' = view l"
  by (auto simp: HandleCommunicationReady_def HandleStarting_def HandleStop_def HandleShutdown_def HandleAbort_def
      split_beta Let_def split: option.splits if_splits dest: arg_cong[of _ _ "\<lambda>x. view (snd x)"])

text \<open>
  What a method of a state does: it leaves the state and perhaps asks the barrier for replies, or it
  sets a state that may follow, whose announcement is then the next action.
\<close>

definition only_asks :: "Lifecycle \<Rightarrow> Lifecycle \<Rightarrow> bool" where
  "only_asks l l' \<longleftrightarrow> view l' = view l \<or>
     (\<exists>c. view l' = view (l\<lparr>l_replies := CallAfterAllParticipantsReplied c (l_replies l)\<rparr>) \<and>
        ((\<exists>reason. c = C_Shutdown reason) \<longrightarrow> l_currentState l = PS_Shutdown))"

definition sets_state :: "action list \<Rightarrow> Lifecycle \<Rightarrow> Lifecycle \<Rightarrow> bool" where
  "sets_state bs l l' \<longleftrightarrow> (\<exists>reason cs s. bs = UpdateParticipantState reason # cs \<and>
     no_update cs \<and> may_follow (l_currentState l) s \<and>
     view l' = view (UpdateLifecycleState s l))"

definition method_ok :: "step_result \<Rightarrow> Lifecycle \<Rightarrow> bool" where
  "method_ok r l \<longleftrightarrow> (case r of Inl (e, l') \<Rightarrow> view l' = view l
     | Inr (bs, l') \<Rightarrow> no_update bs \<and> only_asks l l' \<or> sets_state bs l l')"

lemma view_UpdateLifecycleState:
  "view (UpdateLifecycleState s l) = (s, snd (view l))"
  by (simp add: view_def UpdateLifecycleState_def announced_states_def)

lemma method_ok_nothing: "view l' = view l \<Longrightarrow> method_ok (nothing l') l"
  by (simp add: method_ok_def nothing_def only_asks_def)

lemma method_ok_call: "view l' = view l \<Longrightarrow> method_ok (call_on_current i reason l') l"
  by (simp add: method_ok_def call_on_current_def only_asks_def)

lemma method_ok_SetState:
  "view l' = view l \<Longrightarrow> may_follow (l_currentState l) s \<Longrightarrow> method_ok (SetState s reason l') l"
  by (simp add: method_ok_def SetState_def sets_state_def view_UpdateLifecycleState)

lemma method_ok_SetStateAndForwardIntent:
  "view l' = view l \<Longrightarrow> may_follow (l_currentState l) s \<Longrightarrow> method_ok (SetStateAndForwardIntent s i reason l') l"
  by (simp add: method_ok_def SetStateAndForwardIntent_def sets_state_def view_UpdateLifecycleState)

lemma method_ok_Abort: "view l' = view l \<Longrightarrow> method_ok (ProcessAbortCommand s reason l') l"
  by (simp add: ProcessAbortCommand_def method_ok_SetStateAndForwardIntent may_follow_def)

lemma method_ok_AbortInCallback: "view l' = view l \<Longrightarrow> method_ok (ProcessAbortCommandInCallback s l') l"
  by (simp add: ProcessAbortCommandInCallback_def method_ok_Abort)

lemma method_ok_Invalid: "method_ok (InvalidStateTransition s i b reason l) l"
  by (simp add: InvalidStateTransition_def method_ok_call method_ok_nothing Let_def)

lemma method_ok_after:
  "(\<exists>reason. c = C_Shutdown reason) \<longrightarrow> l_currentState l = PS_Shutdown \<Longrightarrow> method_ok (after_all_replied c l) l"
  by (auto simp: method_ok_def after_all_replied_def nothing_def only_asks_def)

lemma method_ok_during:
  assumes "method_ok (f (l\<lparr>l_handlerExecuting := (l_handlerExecuting l)(s := True)\<rparr>)) l"
  shows "method_ok (during_callback s f l) l"
  using assms by (auto simp: method_ok_def during_callback_def sets_state_def split: sum.splits)

lemmas method_ok_rules = method_ok_nothing method_ok_call method_ok_SetState method_ok_SetStateAndForwardIntent
  method_ok_Abort method_ok_AbortInCallback method_ok_Invalid method_ok_after

lemma base_State_ok: "method_ok (base_State s i reason l) l"
  by (cases i) (simp_all add: method_ok_rules may_follow_def)

lemma state_method_ok: "method_ok (state_method (l_currentState l) i reason l) l"
proof (cases "l_currentState l")
  case PS_Invalid
  then show ?thesis by (cases i) (simp_all add: state_method_def method_ok_rules base_State_ok may_follow_def)
next
  case PS_ServicesCreated
  then show ?thesis by (cases i) (simp_all add: state_method_def method_ok_rules base_State_ok may_follow_def)
next
  case PS_CommunicationInitializing
  then show ?thesis
    by (cases i) (simp_all add: state_method_def method_ok_rules base_State_ok may_follow_def
        AddAsyncSubscriptionsCompletionHandler_def subscriptions_completed_def)
next
  case PS_CommunicationInitialized
  then show ?thesis
    by (cases i) (auto simp: state_method_def method_ok_rules base_State_ok may_follow_def view_Handle(1)
        split: prod.split CallbackResult.split intro!: method_ok_during dest!: view_Handle(1))
next
  case PS_ReadyToRun
  then show ?thesis
    by (cases i) (auto simp: state_method_def method_ok_rules base_State_ok may_follow_def view_Handle(2)
        split: prod.split intro!: method_ok_during dest!: view_Handle(2))
next
  case PS_Running
  then show ?thesis by (cases i) (simp_all add: state_method_def method_ok_rules base_State_ok may_follow_def)
next
  case PS_Paused
  then show ?thesis by (cases i) (simp_all add: state_method_def method_ok_rules base_State_ok may_follow_def)
next
  case PS_Stopping
  then show ?thesis
    by (cases i) (auto simp: state_method_def method_ok_rules base_State_ok may_follow_def split: prod.split
        dest!: view_Handle(3))
next
  case PS_Stopped
  then show ?thesis
    by (cases i) (simp_all add: state_method_def method_ok_rules base_State_ok may_follow_def, simp add: method_ok_def)
next
  case PS_Error
  then show ?thesis
    by (cases i) (simp_all add: state_method_def method_ok_rules base_State_ok may_follow_def, simp add: method_ok_def)
next
  case PS_ShuttingDown
  then show ?thesis
    by (cases i) (simp_all add: state_method_def method_ok_rules base_State_ok may_follow_def view_Handle(4))
next
  case PS_Shutdown
  then show ?thesis by (cases i) (simp_all add: state_method_def method_ok_rules base_State_ok may_follow_def)
next
  case PS_Aborting
  then show ?thesis
    by (cases i) (auto simp: state_method_def method_ok_rules base_State_ok may_follow_def split: sum.split
        dest: view_Handle(5), auto simp: method_ok_def)
next
  case (PS_Other w)
  then show ?thesis by (simp add: state_method_def method_ok_rules)
qed

definition consistent :: "Lifecycle \<Rightarrow> bool" where
  "consistent l \<longleftrightarrow> history_ok l \<and> l_currentState l = last (announced_states l)"

lemma settled_view: "view l' = view l \<Longrightarrow> consistent l' = consistent l"
  by (simp add: consistent_def history_ok_def view_def)

lemma stack_ok_no_update: "no_update as \<Longrightarrow> stack_ok as l = consistent l"
  by (cases "(as, l)" rule: stack_ok.cases) (auto simp: consistent_def)

lemma stack_ok_update:
  "stack_ok (UpdateParticipantState reason # as) l \<longleftrightarrow> no_update as \<and> history_ok l \<and>
     may_follow (last (announced_states l)) (l_currentState l)"
  by auto

lemma stack_ok_ConsD: "stack_ok (a # as) l \<Longrightarrow> no_update as"
  by (cases a) simp_all

lemma completions_CallAfter [simp]:
  "completions_of (CallAfterAllParticipantsReplied c rr) = insert c (completions_of rr)"
  by (auto simp: completions_of_def CallAfterAllParticipantsReplied_def)

lemma disc_ok_CallAfter [simp]: "disc_ok U (CallAfterAllParticipantsReplied c rr) = disc_ok U rr"
  by (simp add: disc_ok_def disconnects_def CallAfterAllParticipantsReplied_def)

lemma only_asks_settled:
  assumes "only_asks l l'" "consistent l"
  shows "consistent l'"
proof -
  let ?asked = "\<lambda>c. l\<lparr>l_replies := CallAfterAllParticipantsReplied c (l_replies l)\<rparr>"
  have "consistent (?asked c)" if "(\<exists>reason. c = C_Shutdown reason) \<longrightarrow> l_currentState l = PS_Shutdown" for c
  proof -
    have a: "announced_states (?asked c) = announced_states l" by (simp add: announced_states_def)
    have "PS_Shutdown \<in> set (announced_states l)" if "l_currentState l = PS_Shutdown"
      using assms(2) that last_in_set[of "announced_states l"] by (simp add: consistent_def announced_states_def)
    with that assms(2) show ?thesis unfolding consistent_def history_ok_def a by auto
  qed
  then show ?thesis using assms settled_view[of l' l] settled_view[of l' "?asked c" for c] by (auto simp: only_asks_def)
qed

lemma sets_state_stack:
  assumes "sets_state bs l l'" "consistent l" "no_update as"
  shows "stack_ok (bs @ as) l'"
proof -
  from assms(1) obtain reason cs s where bs: "bs = UpdateParticipantState reason # cs" "no_update cs"
    and s: "may_follow (l_currentState l) s" "view l' = (s, snd (view l))"
    unfolding sets_state_def view_UpdateLifecycleState by blast
  from s assms(2) have "history_ok l'" "may_follow (last (announced_states l')) (l_currentState l')"
    by (simp_all add: consistent_def history_ok_def view_def)
  with bs assms(3) show ?thesis by simp
qed

lemma method_ok_stack:
  assumes "method_ok r l" "consistent l" "no_update as"
  shows "case r of Inl (e, l') \<Rightarrow> stack_ok [] l' | Inr (bs, l') \<Rightarrow> stack_ok (bs @ as) l'"
proof (cases r)
  case (Inl x)
  then obtain e l' where r: "r = Inl (e, l')" by (cases x) simp
  then have "view l' = view l" using assms(1) by (simp add: method_ok_def)
  from settled_view[OF this] r assms(2) show ?thesis by (simp add: consistent_def)
next
  case (Inr x)
  then obtain bs l' where r: "r = Inr (bs, l')" by (cases x) simp
  then consider "no_update bs" "only_asks l l'" | "sets_state bs l l'" using assms(1) by (auto simp: method_ok_def)
  then show ?thesis
  proof cases
    case 1
    then show ?thesis using r assms(3) only_asks_settled[OF _ assms(2)] by (simp add: stack_ok_no_update)
  next
    case 2
    then show ?thesis using r sets_state_stack[OF _ assms(2,3)] by simp
  qed
qed

lemma monitor_receives_ok: "method_ok (monitor_receives st l) l"
proof -
  have v: "view (l\<lparr>l_tracker := t\<rparr>) = view l" for t by (simp add: view_def announced_states_def)
  have "view (NewParticipantStatus st l') = view l'" for l'
    by (simp add: NewParticipantStatus_def)
  then show ?thesis
    by (auto simp: monitor_receives_def method_ok_def only_asks_def v Let_def split: prod.split sum.split)
qed

lemma react_ok: "method_ok (react_to_system_state S l) l"
  by (cases S) (simp_all add: react_to_system_state_def method_ok_rules Let_def)

lemma announcement_settles:
  assumes "history_ok l" "may_follow (last (announced_states l)) (l_currentState l)"
  shows "consistent (l\<lparr>l_status := status_of (l_currentState l) reason l,
     l_sent := l_sent l @ [status_of (l_currentState l) reason l]\<rparr>)"
  using assms
  by (auto simp: consistent_def history_ok_def announced_states_def status_of_def
      successively_append_iff[of _ "_ # _", simplified])

lemma action_step_stack:
  assumes "stack_ok (a # as) l"
  shows "case action_step a l of Inl (e, l') \<Rightarrow> stack_ok [] l' | Inr (bs, l') \<Rightarrow> stack_ok (bs @ as) l'"
proof (cases a)
  case (Call_on_current i reason)
  then show ?thesis
    using method_ok_stack[OF state_method_ok _ stack_ok_ConsD[OF assms]] assms by (simp add: consistent_def)
next
  case (UpdateParticipantState reason)
  then show ?thesis
    using method_ok_stack[OF monitor_receives_ok announcement_settles stack_ok_ConsD[OF assms]] assms
    by (simp add: ChangeParticipantState_def Let_def)
next
  case (NewSystemState S)
  then show ?thesis
    using method_ok_stack[OF react_ok _ stack_ok_ConsD[OF assms]] assms by (simp add: consistent_def)
next
  case (CallbackDone s)
  then show ?thesis
    using method_ok_stack[OF method_ok_nothing _ stack_ok_ConsD[OF assms]] assms by (simp add: consistent_def)
qed

lemma run_actions_settled: "stack_ok as l \<Longrightarrow> consistent (state_after (run_actions as l))"
  using run_actions_invariant[where J = stack_ok, OF action_step_stack] by (simp add: consistent_def)

lemma run_calls_settled: "no_update as \<Longrightarrow> consistent l \<Longrightarrow> consistent (state_after (run_actions as l))"
  by (simp add: run_actions_settled stack_ok_no_update)

lemma finish_step_settled:
  assumes "method_ok r l" "consistent l"
  shows "consistent (state_after (finish_step r))"
proof (cases r)
  case (Inl x)
  then show ?thesis
    using method_ok_stack[OF assms, of "[]"] by (cases x) (simp add: finish_step_def state_after_def consistent_def)
next
  case (Inr x)
  then show ?thesis
    using method_ok_stack[OF assms, of "[]"] run_actions_settled by (cases x) (simp add: finish_step_def)
qed

lemma state_after_bindE:
  "P (state_after r) \<Longrightarrow> (\<And>l. P l \<Longrightarrow> P (state_after (f l))) \<Longrightarrow> P (state_after (bindE r f))"
  by (cases r) (simp_all add: state_after_def)

lemma state_after_Inr [simp]: "state_after (Inr l) = l"
  and state_after_Inl [simp]: "state_after (Inl (e, l)) = l"
  by (simp_all add: state_after_def)

section \<open>Announcements are never withdrawn\<close>

definition grows :: "Lifecycle \<Rightarrow> Lifecycle \<Rightarrow> bool" where
  "grows l0 l \<longleftrightarrow> (\<exists>xs. announced_states l = announced_states l0 @ xs)"

lemma grows_refl: "announced_states l = announced_states l0 \<Longrightarrow> grows l0 l"
  by (simp add: grows_def)

lemma method_ok_announced:
  "method_ok r l \<Longrightarrow> case r of Inl (e, l') \<Rightarrow> announced_states l' = announced_states l
     | Inr (bs, l') \<Rightarrow> announced_states l' = announced_states l"
  by (auto simp: method_ok_def only_asks_def sets_state_def view_def announced_states_def UpdateLifecycleState_def
      split: sum.splits)

lemma action_step_grows:
  assumes "grows l0 l"
  shows "case action_step a l of Inl (e, l') \<Rightarrow> grows l0 l' | Inr (bs, l') \<Rightarrow> grows l0 l'"
proof -
  define l1 where "l1 = (case a of
      UpdateParticipantState reason \<Rightarrow> l\<lparr>l_status := status_of (l_currentState l) reason l,
        l_sent := l_sent l @ [status_of (l_currentState l) reason l]\<rparr>
    | _ \<Rightarrow> l)"
  have "method_ok (action_step a l) l1"
    by (cases a) (simp_all add: l1_def state_method_ok monitor_receives_ok react_ok method_ok_nothing
        ChangeParticipantState_def Let_def)
  moreover have "grows l0 l1"
    using assms by (cases a) (auto simp: l1_def grows_def announced_states_def)
  ultimately show ?thesis
    by (auto dest!: method_ok_announced simp: grows_def split: sum.splits)
qed

lemma run_actions_grows: "grows l0 l \<Longrightarrow> grows l0 (state_after (run_actions as l))"
  using run_actions_invariant[where J = "\<lambda>_. grows l0", OF action_step_grows] .

lemma finish_step_grows:
  assumes "method_ok r l"
  shows "grows l (state_after (finish_step r))"
  using method_ok_announced[OF assms]
  by (cases r) (auto simp: finish_step_def intro: run_actions_grows[OF grows_refl] grows_refl)

section \<open>The barrier executes only what it was asked to\<close>

lemmas note_fields = barrier_fold_note[unfolded barrier_of_def prod.inject]

lemma completions_Return: "completions_of (ParticipantReplies_ReceiveCallReturn sender u rr) \<subseteq> completions_of rr"
  by (auto simp: ParticipantReplies_ReceiveCallReturn_def completions_of_def Let_def split: option.split)

lemma completions_Forward:
  "completions_of (snd (ForwardCallReturnToProcedure sender msg rr)) \<subseteq> completions_of rr"
  by (simp add: ForwardCallReturnToProcedure_def completions_Return)

lemma completions_ForwardAll: "completions_of (snd (ForwardAll name msgs rr)) \<subseteq> completions_of rr"
proof (induction name msgs rr rule: ForwardAll.induct)
  case (2 name u msg msgs rr)
  obtain r rr' where r: "ForwardCallReturnToProcedure name msg rr = (r, rr')" by fastforce
  then have "completions_of rr' \<subseteq> completions_of rr" using completions_Forward[of name msg rr] by simp
  with r 2[of r rr'] show ?case by (cases r) auto
qed simp

lemma completions_Remove [simp]:
  "completions_of (RemovePartcipantFromDisconnectLookup u name rr) = completions_of rr"
  by (simp add: RemovePartcipantFromDisconnectLookup_def completions_of_def Let_def split: option.split)

lemma completions_SubmitCallReturn [simp]:
  "completions_of (snd (SubmitCallReturn u ft d st rr)) = completions_of rr"
  by (simp add: SubmitCallReturn_def completions_of_def split: option.split)

lemma completions_ReceiveCall [simp]:
  "completions_of (snd (ReceiveMsg_RequestReplyCall sender msg rr)) = completions_of rr"
proof -
  have "completions_of (rr\<lparr>rr_requestReplyInitiatorByCallUuid := x\<rparr>) = completions_of rr" for x
    by (simp add: completions_of_def)
  then show ?thesis
    by (auto simp: ReceiveMsg_RequestReplyCall_def ForwardCallToProcedure_def ParticipantReplies_ReceiveCall_def
        split: prod.split sum.split dest!: arg_cong[of _ _ "\<lambda>x. completions_of (snd x)"])
qed

lemma completions_rr_step:
  assumes "\<nexists>c. e = RequestReplies c"
  shows "completions_of (rr_step e rr) \<subseteq> completions_of rr"
proof (cases e)
  case (RunDeferred receivers u)
  then show ?thesis
    by (auto simp: run_deferred_call_def Call_def Let_def completions_of_def FunctionType_ParticipantReplies_def
        FunctionType_Invalid_def note_fields split: list.split)
next
  case (Removal name)
  show ?thesis
  proof (cases "map_of (rr_participantDisconnectCallReturns rr) name")
    case (Some msgs)
    obtain r rr' where r: "ForwardAll name msgs rr = (r, rr')" by fastforce
    then have "completions_of rr' \<subseteq> completions_of rr" using completions_ForwardAll[of name msgs rr] by simp
    then show ?thesis using Removal Some r
      by (cases r) (simp_all add: OnParticpantRemoval_def completions_of_def)
  qed (simp add: Removal OnParticpantRemoval_def)
next
  case (ReturnFrom sender msg)
  then show ?thesis
    using completions_Forward[of sender msg "RemovePartcipantFromDisconnectLookup (rrr_callUuid msg) sender rr"]
    by (simp add: ReceiveMsg_RequestReplyCallReturn_def)
qed (use assms in simp_all)

section \<open>Events keep the invariant\<close>

lemma run_completion_settled:
  assumes "consistent l" "(\<exists>reason. c = C_Shutdown reason) \<longrightarrow> PS_Shutdown \<in> set (announced_states l)"
  shows "consistent (state_after (run_completion c l)) \<and> grows l (state_after (run_completion c l))"
proof (cases c)
  case (C_ServicesCreated reason)
  have "method_ok (SetStateAndForwardIntent PS_CommunicationInitializing ServicesCreated reason l) l"
    by (simp add: method_ok_rules may_follow_def)
  with C_ServicesCreated assms(1) show ?thesis by (simp add: finish_step_settled finish_step_grows)
next
  case (C_Stopped reason)
  then show ?thesis using assms(1) by (simp add: run_calls_settled run_actions_grows grows_refl)
next
  case (C_Shutdown reason)
  then show ?thesis using assms
    by (auto simp: SetFinalStatePromise_def calls_def consistent_def history_ok_def announced_states_def grows_def)
qed

lemma run_completions_settled:
  assumes "consistent l" "(\<exists>reason. C_Shutdown reason \<in> set cs) \<longrightarrow> PS_Shutdown \<in> set (announced_states l)"
  shows "consistent (state_after (run_completions cs l))"
  using assms
proof (induction cs arbitrary: l)
  case (Cons c cs)
  have c: "consistent (state_after (run_completion c l))" "grows l (state_after (run_completion c l))"
    using run_completion_settled[of l c] Cons.prems by auto
  show ?case
  proof (cases "run_completion c l")
    case (Inr l')
    then have "consistent (state_after (run_completions cs l'))"
      using c Cons.IH[of l'] Cons.prems by (auto simp: grows_def)
    then show ?thesis using Inr by simp
  qed (use c in \<open>auto simp: state_after_def split: prod.splits\<close>)
qed simp

lemma replies_event_settled:
  assumes "consistent l" "\<nexists>c. e = RequestReplies c"
  shows "consistent (state_after (replies_event e l))"
proof -
  let ?rr = "rr_step e (l_replies l)"
  have sub: "completions_of ?rr \<subseteq> completions_of (l_replies l)" by (rule completions_rr_step[OF assms(2)])
  have "C_Shutdown reason \<in> completions_of ?rr \<longrightarrow> PS_Shutdown \<in> set (announced_states l)" for reason
    using assms(1) sub by (auto simp: consistent_def history_ok_def)
  moreover from this have "consistent (l\<lparr>l_replies := ?rr\<rparr>)"
    using assms(1) disc_ok_step[of "l_replies l" e] by (auto simp: consistent_def history_ok_def announced_states_def)
  moreover have "set (drop n (pr_completed ?rr)) \<subseteq> completions_of ?rr" for n
    using set_drop_subset by (fastforce simp: completions_of_def)
  ultimately show ?thesis
    unfolding replies_event_def Let_def
    by (intro run_completions_settled) (auto simp: announced_states_def)
qed

lemma run_subscription_handlers_settled:
  "consistent l \<Longrightarrow> consistent (state_after (run_subscription_handlers reasons l))"
proof (induction reasons arbitrary: l)
  case (Cons reason reasons)
  have "method_ok (subscriptions_completed reason l) l"
    by (simp add: subscriptions_completed_def method_ok_rules may_follow_def)
  with Cons show ?case by (simp add: state_after_bindE finish_step_settled)
qed simp

lemma view_ExecuteDeferred [simp]: "view (lifecycle_ExecuteDeferred d l) = view l"
  by (simp add: lifecycle_ExecuteDeferred_def view_def announced_states_def)

lemma view_fields [simp]:
  "view (l\<lparr>l_deferred := ds\<rparr>) = view l" "view (l\<lparr>l_isLifecycleStarted := b\<rparr>) = view l"
  "view (l\<lparr>l_registered := b\<rparr>) = view l" "view (l\<lparr>l_tracker := t\<rparr>) = view l"
  "view (l\<lparr>l_requiredParticipantNames := names\<rparr>) = view l" "view (l\<lparr>l_timeSyncActive := b\<rparr>) = view l"
  "view (l\<lparr>l_now := t'\<rparr>) = view l" "view (l\<lparr>l_hasPendingAsyncSubscriptions := b\<rparr>) = view l"
  by (simp_all add: view_def announced_states_def)

lemma view_config [simp]:
  "view (SetCommunicationReadyHandler h l) = view l" "view (SetCommunicationReadyHandlerAsync h l) = view l"
  "view (SetStartingHandler h l) = view l" "view (SetStopHandler h l) = view l"
  "view (SetShutdownHandler h l) = view l" "view (SetAbortHandler h l) = view l"
  "view (lifecycle_ReportError msg l) = view l" "view (lifecycle_AbortSimulation msg l) = view l"
  "view (receive_command kind l) = view l" "view (snd (CheckForValidConfiguration l)) = view l"
  "view (SetWorkflowConfiguration names l) = view l"
  using view_perform[of "Req_ReportError msg" l] view_perform[of "Req_AbortSimulation msg" l]
  by (simp_all add: SetCommunicationReadyHandler_def SetCommunicationReadyHandlerAsync_def SetStartingHandler_def
      SetStopHandler_def SetShutdownHandler_def SetAbortHandler_def lifecycle_ReportError_def lifecycle_AbortSimulation_def
      receive_command_def CheckForValidConfiguration_def SetWorkflowConfiguration_def Let_def
      split: command_kind.split, simp_all add: view_def announced_states_def)

lemmas settled_frame [simp] = view_calls[THEN settled_view] view_ExecuteDeferred[THEN settled_view]
  view_fields[THEN settled_view] view_config[THEN settled_view] view_perform[THEN settled_view]

lemma execute_deferred_settled: "consistent l \<Longrightarrow> consistent (state_after (execute_deferred d l))"
  by (cases d) (simp_all add: run_calls_settled state_after_bindE)

lemma StartLifecycle_settled:
  assumes "consistent l"
  shows "consistent (state_after (StartLifecycle l))"
proof -
  let ?last = "\<lambda>l. let l = lifecycle_ExecuteDeferred D_Initialize (l\<lparr>l_registered := True\<rparr>)
      in case l_operationMode l of OM_Invalid \<Rightarrow> Inl (OperationModeNotSet, l) | OM_Coordinated \<Rightarrow> Inr l
         | OM_Autonomous \<Rightarrow> Inr (lifecycle_ExecuteDeferred D_StartAutonomous l)"
  have "consistent (state_after (bindE (run_actions [NewSystemState S] (calls c l1)) ?last))" if "consistent l1" for S c l1
    by (rule state_after_bindE) (use that in \<open>simp_all add: run_calls_settled Let_def split: OperationMode.split\<close>)
  moreover have "consistent (snd (CheckForValidConfiguration (l\<lparr>l_isLifecycleStarted := True\<rparr>)))" using assms by simp
  ultimately show ?thesis
    using assms by (simp add: StartLifecycle_def Let_def split_beta)
qed

lemma lifecycle_step_settled:
  assumes "consistent l"
  shows "consistent (lifecycle_step e l)"
proof -
  have frame: "consistent l'" if "view l' = view l" for l' using that assms settled_view[of l' l] by simp
  have tracker: "consistent (state_after (run_actions (if b then [NewSystemState S] else []) (l\<lparr>l_tracker := t\<rparr>)))" for b S t
    using frame[of "l\<lparr>l_tracker := t\<rparr>"] by (simp add: run_calls_settled)
  show ?thesis
  proof (cases e)
    case (E_Status st)
    then show ?thesis
      using finish_step_settled[OF monitor_receives_ok assms] by (simp add: lifecycle_step_def receive_status_def)
  next
    case (E_Workflow names)
    have "consistent (state_after (bindE (run_actions (if b then [NewSystemState S] else []) (l\<lparr>l_tracker := t\<rparr>))
        (\<lambda>l. Inr (SetWorkflowConfiguration names l))))" for b S t
      by (rule state_after_bindE[where P = consistent]) (use tracker in simp_all)
    then show ?thesis
      using E_Workflow by (simp add: lifecycle_step_def receive_workflow_def Let_def split: prod.split)
  next
    case (E_ForgetParticipant name)
    then show ?thesis using tracker by (simp add: lifecycle_step_def forget_participant_def split: prod.split)
  next
    case E_Deferred
    have "consistent (l\<lparr>l_deferred := ds\<rparr>)" for ds by (rule frame) simp
    then show ?thesis using E_Deferred assms
      by (simp add: lifecycle_step_def run_next_deferred_def execute_deferred_settled split: list.split)
  next
    case E_SubscriptionsCompleted
    have "consistent (l'\<lparr>l_asyncSubscriptionsCompletionHandlers := [], l_hasPendingAsyncSubscriptions := False\<rparr>)"
      if "consistent l'" for l'
      using that settled_view[of "l'\<lparr>l_asyncSubscriptionsCompletionHandlers := [], l_hasPendingAsyncSubscriptions := False\<rparr>" l']
      by (simp add: view_def announced_states_def)
    then show ?thesis using E_SubscriptionsCompleted assms
      by (simp add: lifecycle_step_def AsyncSubscriptionsCompleted_def state_after_bindE run_subscription_handlers_settled)
  next
    case E_CreateTimeSyncService
    then show ?thesis using assms frame by (simp add: lifecycle_step_def CreateTimeSyncService_def)
  qed (use assms frame in \<open>simp_all add: lifecycle_step_def replies_event_settled StartLifecycle_settled\<close>)
qed

lemma lifecycle_run_settled: "consistent l \<Longrightarrow> consistent (lifecycle_run es l)"
  by (induction es arbitrary: l) (simp_all add: lifecycle_run_def lifecycle_step_settled)

lemma new_settled: "consistent (LifecycleService_new name mode nil)"
  by (simp add: consistent_def history_ok_def announced_states_def completions_of_def LifecycleService_new_def
      RequestReplyService_new_def disc_ok_def disconnects_def)

text \<open>
  C19. In every run of the lifecycle service, whatever the application, the callbacks and the other
  participants do, the announced states form a path of the state graph that starts in Invalid: each
  announcement passes the validation of the system state tracker, except possibly those of
  CommunicationInitializing and CommunicationInitialized; and the state reported by the service is
  the state of its state machine and the state announced last.
\<close>

theorem announcements_follow_the_graph:
  "successively may_follow (announced_states (lifecycle_run es (LifecycleService_new name mode nil))) \<and>
   lifecycle_State (lifecycle_run es (LifecycleService_new name mode nil)) =
     l_currentState (lifecycle_run es (LifecycleService_new name mode nil)) \<and>
   last (announced_states (lifecycle_run es (LifecycleService_new name mode nil))) =
     l_currentState (lifecycle_run es (LifecycleService_new name mode nil))"
  using lifecycle_run_settled[OF new_settled] by (simp add: consistent_def history_ok_def lifecycle_State_def)

end
