(* ===== verification/Lifecycle_Flows.thy ===== *)
theory Lifecycle_Flows
  imports Lifecycle_Properties
begin

text \<open>
  The paths a participant takes through its life: the start of an autonomous participant, the orderly
  stop, and the abort, each through the barriers in between, for any number of other participants and
  any order of their answers.
\<close>

section \<open>Announcements without reaction\<close>

definition announce :: "string \<Rightarrow> SystemStateTracker \<Rightarrow> Lifecycle \<Rightarrow> Lifecycle" where
  "announce reason t l = l\<lparr>l_status := status_of (l_currentState l) reason l,
     l_sent := l_sent l @ [status_of (l_currentState l) reason l], l_tracker := t\<rparr>"

lemma announce_simps [simp]:
  "l_currentState (announce reason t l) = l_currentState l" "l_replies (announce reason t l) = l_replies l"
  "l_operationMode (announce reason t l) = l_operationMode l" "l_finalState (announce reason t l) = l_finalState l"
  "l_abortRequested (announce reason t l) = l_abortRequested l" "l_abortHandler (announce reason t l) = l_abortHandler l"
  "l_stopHandler (announce reason t l) = l_stopHandler l" "l_calls (announce reason t l) = l_calls l"
  "l_commReadyHandler (announce reason t l) = l_commReadyHandler l"
  "l_commReadyHandlerIsAsync (announce reason t l) = l_commReadyHandlerIsAsync l"
  "l_startingHandler (announce reason t l) = l_startingHandler l"
  "l_timeSyncActive (announce reason t l) = l_timeSyncActive l"
  "l_hasPendingAsyncSubscriptions (announce reason t l) = l_hasPendingAsyncSubscriptions l"
  "l_lastBeforeAbortingState (announce reason t l) = l_lastBeforeAbortingState l"
  "l_handlerExecuting (announce reason t l) = l_handlerExecuting l" "l_deferred (announce reason t l) = l_deferred l"
  "map st_state (l_sent (announce reason t l)) = map st_state (l_sent l) @ [l_currentState l]"
  "st_state (l_status (announce reason t l)) = l_currentState l"
  by (simp_all add: announce_def status_of_def)

text \<open>From Stopping on, the own announcement changes the system state at most to a later one.\<close>

lemma late_system_state:
  assumes "6 \<le> rank s" "\<not> IsEmpty t" "\<nexists>w. s = PS_Other w"
  shows "ComputeSystemState s t = t_systemState t \<or>
     (\<forall>l. l_currentState l = s \<longrightarrow> react_to_system_state (ComputeSystemState s t) l = nothing l)"
  using assms by (cases s) (auto simp: ComputeSystemState_def react_to_system_state_def Let_def)

lemma late_update:
  assumes "6 \<le> rank (st_state st)" "\<nexists>w. st_state st = PS_Other w"
  shows "\<exists>r. fst (UpdateParticipantStatus st t) = Inr r \<and> (systemStateChanged r \<longrightarrow>
     (\<forall>l. l_currentState l = st_state st \<longrightarrow>
       react_to_system_state (t_systemState (snd (UpdateParticipantStatus st t))) l = nothing l))"
proof -
  let ?t = "SetParticipantStatus (st_participantName st) st t"
  have "\<not> IsEmpty ?t" "t_systemState ?t = t_systemState t"
    by (simp_all add: IsEmpty_def SetParticipantStatus_def neq_Nil_conv update_nonempty)
  moreover have "st_state st \<noteq> PS_Invalid" using assms(1) by auto
  ultimately show ?thesis
    using late_system_state[OF assms(1) _ assms(2), of ?t] assms(2) by (auto simp: UpdateParticipantStatus_eq)
qed

lemma announce_late:
  assumes "6 \<le> rank (l_currentState l)" "\<nexists>w. l_currentState l = PS_Other w"
  obtains t where "\<And>as. run_actions (UpdateParticipantState reason # as) l = run_actions as (announce reason t l)"
proof -
  let ?st = "status_of (l_currentState l) reason l"
  have st: "st_state ?st = l_currentState l" by (simp add: status_of_def)
  then obtain r where r: "fst (UpdateParticipantStatus ?st (l_tracker l)) = Inr r"
      "systemStateChanged r \<longrightarrow> (\<forall>l'. l_currentState l' = l_currentState l \<longrightarrow>
         react_to_system_state (t_systemState (snd (UpdateParticipantStatus ?st (l_tracker l)))) l' = nothing l')"
    using late_update[of ?st "l_tracker l"] assms by auto
  define t where "t = snd (UpdateParticipantStatus ?st (l_tracker l))"
  have u: "UpdateParticipantStatus ?st (l_tracker l) = (Inr r, t)" using r(1) by (simp add: t_def prod_eq_iff)
  have "l_currentState l \<noteq> PS_ReadyToRun" using assms(1) by auto
  then have "action_step (UpdateParticipantState reason) l =
      Inr (if systemStateChanged r \<and> l_registered l then [NewSystemState (t_systemState t)] else [], announce reason t l)"
    using u st by (simp add: ChangeParticipantState_def monitor_receives_def NewParticipantStatus_def announce_def Let_def)
  then show thesis
    using that[of t] r(2)[folded t_def] by (cases "systemStateChanged r") (simp_all add: run_actions.simps(2) nothing_def)
qed

lemmas run_call = run_actions.simps(2)[where a = "Call_on_current i reason" for i reason, unfolded action_step.simps]

section \<open>Abort\<close>

lemma perform_frame [simp]:
  "l_calls (perform r l) = l_calls l" "l_replies (perform r l) = l_replies l" "l_sent (perform r l) = l_sent l"
  "l_operationMode (perform r l) = l_operationMode l" "l_abortRequested (perform r l) = l_abortRequested l"
  "l_timeSyncActive (perform r l) = l_timeSyncActive l" "l_finalState (perform r l) = l_finalState l"
  "l_startingHandler (perform r l) = l_startingHandler l" "l_status (perform r l) = l_status l"
  by (cases r; simp add: lifecycle_Stop_def lifecycle_Pause_def lifecycle_Continue_def lifecycle_ReportError_def
      lifecycle_AbortSimulation_def CompleteCommunicationReadyHandlerAsync_def lifecycle_ExecuteDeferred_def)+

lemma performs_frame [simp]:
  "l_calls (fold perform rs l) = l_calls l" "l_replies (fold perform rs l) = l_replies l"
  "l_sent (fold perform rs l) = l_sent l" "l_operationMode (fold perform rs l) = l_operationMode l"
  "l_abortRequested (fold perform rs l) = l_abortRequested l" "l_timeSyncActive (fold perform rs l) = l_timeSyncActive l"
  "l_finalState (fold perform rs l) = l_finalState l" "l_startingHandler (fold perform rs l) = l_startingHandler l"
  "l_status (fold perform rs l) = l_status l"
  by (induction rs arbitrary: l) simp_all

lemma calls_frame [simp]:
  "l_calls (calls c l) = l_calls l @ [c]" "l_replies (calls c l) = l_replies l" "l_sent (calls c l) = l_sent l"
  "l_operationMode (calls c l) = l_operationMode l" "l_abortRequested (calls c l) = l_abortRequested l"
  "l_timeSyncActive (calls c l) = l_timeSyncActive l" "l_finalState (calls c l) = l_finalState l"
  "l_startingHandler (calls c l) = l_startingHandler l" "l_status (calls c l) = l_status l"
  "l_deferred (calls c l) = l_deferred l" "l_stopHandler (calls c l) = l_stopHandler l" "l_participantName (calls c l) = l_participantName l"
  by (simp_all add: calls_def)

lemma invoke_frame [simp]:
  "l_calls (snd (invoke c h l)) = l_calls l @ (if h = None then [] else [c])"
  "l_replies (snd (invoke c h l)) = l_replies l" "l_sent (snd (invoke c h l)) = l_sent l"
  "l_operationMode (snd (invoke c h l)) = l_operationMode l" "l_abortRequested (snd (invoke c h l)) = l_abortRequested l"
  "l_timeSyncActive (snd (invoke c h l)) = l_timeSyncActive l" "l_finalState (snd (invoke c h l)) = l_finalState l"
  "l_startingHandler (snd (invoke c h l)) = l_startingHandler l" "l_status (snd (invoke c h l)) = l_status l"
  by (simp_all add: invoke_def split: option.split)

lemma invoke_ok: "fst (invoke c h l) = (case h of None \<Rightarrow> True | Some cb \<Rightarrow> \<not> cb_throws cb)"
  by (simp add: invoke_def split: option.split)

lemma shutdown_run:
  assumes "l_currentState l = PS_Shutdown"
  obtains l' where "run_actions [UpdateParticipantState reason, Call_on_current ShutdownParticipant reason] l = Inr l'"
    "l_currentState l' = PS_Shutdown" "map st_state (l_sent l') = map st_state (l_sent l) @ [PS_Shutdown]"
    "l_replies l' = CallAfterAllParticipantsReplied (C_Shutdown reason) (l_replies l)" "l_calls l' = l_calls l"
    "l_finalState l' = l_finalState l" "st_state (l_status l') = PS_Shutdown"
proof -
  obtain t where t: "\<And>as. run_actions (UpdateParticipantState reason # as) l = run_actions as (announce reason t l)"
    using announce_late[of l] assms by auto
  show thesis
    by (rule that[of "(announce reason t l)\<lparr>l_replies := CallAfterAllParticipantsReplied (C_Shutdown reason) (l_replies l)\<rparr>"])
      (simp_all add: t run_call assms state_method_def after_all_replied_def nothing_def announce_def status_of_def)
qed

lemma UpdateLifecycleState_frame [simp]:
  "l_replies (UpdateLifecycleState s l) = l_replies l" "l_sent (UpdateLifecycleState s l) = l_sent l"
  "l_calls (UpdateLifecycleState s l) = l_calls l" "l_abortHandler (UpdateLifecycleState s l) = l_abortHandler l"
  "l_stopHandler (UpdateLifecycleState s l) = l_stopHandler l" "l_abortRequested (UpdateLifecycleState s l) = l_abortRequested l"
  "l_deferred (UpdateLifecycleState s l) = l_deferred l"
  "l_finalState (UpdateLifecycleState s l) = l_finalState l" "l_operationMode (UpdateLifecycleState s l) = l_operationMode l"
  "l_lastBeforeAbortingState (UpdateLifecycleState PS_Aborting l) = Some (l_currentState l)"
  by (simp_all add: UpdateLifecycleState_def)

lemma abort_run:
  fixes l reason
  defines "r \<equiv> SetStateAndForwardIntent PS_Aborting ResolveAbortSimulation reason l"
  obtains l' where "finish_step r = Inr l'" "l_currentState l' = PS_Shutdown"
    "map st_state (l_sent l') = map st_state (l_sent l) @ [PS_Aborting, PS_Shutdown]"
    "l_replies l' = CallAfterAllParticipantsReplied (C_Shutdown reason) (l_replies l)"
    "l_calls l' = l_calls l @ (if l_abortHandler l = None then [] else [CallAbort (l_currentState l)])"
proof -
  let ?l = "UpdateLifecycleState PS_Aborting l"
  obtain t where t: "\<And>as. run_actions (UpdateParticipantState reason # as) ?l = run_actions as (announce reason t ?l)"
    using announce_late[of ?l] by auto
  let ?i = "snd (invoke (CallAbort (l_currentState l)) (l_abortHandler l) (announce reason t ?l))"
  have "HandleAbort (announce reason t ?l) = Inr (invoke (CallAbort (l_currentState l)) (l_abortHandler l) (announce reason t ?l))"
    by (simp add: HandleAbort_def)
  then have "finish_step r =
      run_actions [UpdateParticipantState reason, Call_on_current ShutdownParticipant reason] (UpdateLifecycleState PS_Shutdown ?i)"
    by (simp add: r_def SetStateAndForwardIntent_def finish_step_def t run_call state_method_def
        call_on_current_def split_beta)
  then show thesis
    using shutdown_run[of "UpdateLifecycleState PS_Shutdown ?i" reason] that by auto
qed

lemma run_single_call: "run_actions [Call_on_current i reason] l = finish_step (state_method (l_currentState l) i reason l)"
  by (simp add: run_call finish_step_def split: sum.split prod.split)

lemma abort_method:
  assumes "l_currentState l \<notin> {PS_Stopping, PS_ShuttingDown, PS_Shutdown, PS_Aborting}" "\<nexists>w. l_currentState l = PS_Other w"
    and "\<not> l_handlerExecuting l (l_currentState l)"
  shows "\<exists>reason' l0. state_method (l_currentState l) AbortSimulation reason l =
       SetStateAndForwardIntent PS_Aborting ResolveAbortSimulation reason' l0 \<and>
     l_currentState l0 = l_currentState l \<and> l_sent l0 = l_sent l \<and> l_replies l0 = l_replies l \<and>
     l_abortHandler l0 = l_abortHandler l \<and> (l_calls l0 = l_calls l \<or> l_calls l0 = l_calls l @ [CallStopTime])"
  using assms
  by (cases "l_currentState l") (auto simp: state_method_def ProcessAbortCommand_def calls_def intro!: exI)

text \<open>
  C22. Aborting: in every state in which the participant is neither stopping, shutting down, shut down
  nor aborting, and while no callback of that state is running, the execution of a requested abort
  returns normally, announces Aborting and then Shutdown, calls the abort handler once with the state
  that was left, even if that handler throws, and asks the other participants for the replies
  after which the lifecycle completes.
\<close>

theorem abort_shuts_down:
  assumes "l_currentState l \<notin> {PS_Stopping, PS_ShuttingDown, PS_Shutdown, PS_Aborting}" "\<nexists>w. l_currentState l = PS_Other w"
    and "\<not> l_handlerExecuting l (l_currentState l)"
  shows "\<exists>l' reason'. execute_deferred (D_AbortSimulation reason) l = Inr l' \<and> l_currentState l' = PS_Shutdown \<and>
     map st_state (l_sent l') = map st_state (l_sent l) @ [PS_Aborting, PS_Shutdown] \<and>
     l_replies l' = CallAfterAllParticipantsReplied (C_Shutdown reason') (l_replies l) \<and>
     filter (\<lambda>c. \<exists>s. c = CallAbort s) (l_calls l') = filter (\<lambda>c. \<exists>s. c = CallAbort s) (l_calls l) @
       (if l_abortHandler l = None then [] else [CallAbort (l_currentState l)])"
proof -
  obtain reason' l0 where l0: "state_method (l_currentState l) AbortSimulation reason l =
       SetStateAndForwardIntent PS_Aborting ResolveAbortSimulation reason' l0"
     "l_currentState l0 = l_currentState l" "l_sent l0 = l_sent l" "l_replies l0 = l_replies l"
     "l_abortHandler l0 = l_abortHandler l" "filter (\<lambda>c. \<exists>s. c = CallAbort s) (l_calls l0) = filter (\<lambda>c. \<exists>s. c = CallAbort s) (l_calls l)"
    using abort_method[OF assms, of reason] by auto
  show ?thesis
    by (rule abort_run[of reason' l0]) (use l0 in \<open>auto simp: run_single_call\<close>)
qed

section \<open>The barrier between two states\<close>

fun as_reply :: "lifecycle_event \<Rightarrow> completion rr_event option" where
  "as_reply (E_CallFrom sender msg) = Some (CallFrom sender msg)"
| "as_reply (E_ReturnFrom sender msg) = Some (ReturnFrom sender msg)"
| "as_reply (E_Removal name) = Some (Removal name)"
| "as_reply _ = None"

abbreviation replies :: "lifecycle_event list \<Rightarrow> completion rr_event list" where
  "replies es \<equiv> map (\<lambda>e. the (as_reply e)) es"

text \<open>
  Messages of other participants and departures, in any order, among which the last one is the one
  that makes the set of answers to the call \<open>u\<close> complete.
\<close>

definition answered_by :: "Uuid \<Rightarrow> string list \<Rightarrow> lifecycle_event list \<Rightarrow> bool" where
  "answered_by u receivers es \<longleftrightarrow> (let rs = replies es in
     None \<notin> set (map as_reply es) \<and> list_all (quiet_event u) rs \<and> set receivers \<subseteq> \<Union> (answers u ` set rs) \<and>
     \<not> set receivers \<subseteq> \<Union> (answers u ` set (butlast rs)))"

lemma reply_step:
  assumes "as_reply e = Some r"
  shows "lifecycle_step e l = state_after (replies_event r l)"
  using assms by (cases e) (simp_all add: lifecycle_step_def)

lemma ForwardAll_deferred [simp]: "pr_deferred (snd (ForwardAll name msgs rr)) = pr_deferred rr"
proof (induction name msgs rr rule: ForwardAll.induct)
  case (2 name u msg msgs rr)
  obtain r rr' where r: "ForwardCallReturnToProcedure name msg rr = (r, rr')" by fastforce
  then have "pr_deferred rr' = pr_deferred rr"
    by (auto simp: ForwardCallReturnToProcedure_def ParticipantReplies_ReceiveCallReturn_def Let_def
        split: if_splits option.splits)
  with r 2[of r rr'] show ?case by (cases r) auto
qed simp

lemma reply_keeps_deferred:
  assumes "as_reply e = Some r"
  shows "pr_deferred (rr_step r rr) = pr_deferred rr"
proof -
  have "pr_deferred (snd (OnParticpantRemoval name rr)) = pr_deferred rr" for name
    using ForwardAll_deferred[of name _ rr]
    by (auto simp: OnParticpantRemoval_def split: option.split prod.split sum.split dest: arg_cong[of _ _ "\<lambda>x. pr_deferred (snd x)"])
  with assms show ?thesis
    by (cases e) (auto simp: ReceiveMsg_RequestReplyCall_def ForwardCallToProcedure_def SubmitCallReturn_def
        ParticipantReplies_ReceiveCall_def ReceiveMsg_RequestReplyCallReturn_def ForwardCallReturnToProcedure_def
        ParticipantReplies_ReceiveCallReturn_def RemovePartcipantFromDisconnectLookup_def Let_def split: option.split)
qed

lemma barrier_waits:
  assumes "waiting used u R c completed A (l_replies l)" "None \<notin> set (map as_reply es)"
    and "list_all (quiet_event u) (replies es)"
    and "\<not> R \<subseteq> A \<union> \<Union> (answers u ` set (replies es))"
  shows "lifecycle_run es l = l\<lparr>l_replies := rr_run (replies es) (l_replies l)\<rparr>"
  using assms
proof (induction es arbitrary: l A)
  case (Cons e es)
  then obtain r where r: "as_reply e = Some r" by (cases "as_reply e") auto
  let ?rr = "rr_step r (l_replies l)"
  have w: "waiting used u R c completed (A \<union> answers u r) ?rr"
    using Cons.prems r by (intro waiting_step) auto
  have "\<not> R \<subseteq> A" "\<not> R \<subseteq> A \<union> answers u r" using Cons.prems(4) r by auto
  then have "pr_completed ?rr = pr_completed (l_replies l)"
    using w Cons.prems(1) by (simp add: waiting_def barrier_def)
  then have step: "lifecycle_step e l = l\<lparr>l_replies := ?rr\<rparr>"
    by (simp add: reply_step[OF r] replies_event_def Let_def)
  have "lifecycle_run es (l\<lparr>l_replies := ?rr\<rparr>) =
      l\<lparr>l_replies := rr_run (replies es) ?rr\<rparr>"
    using Cons.IH[of "A \<union> answers u r" "l\<lparr>l_replies := ?rr\<rparr>"] w Cons.prems r by (auto simp: Un_assoc)
  then show ?case by (simp add: lifecycle_run_def step rr_run_def r)
qed (simp add: lifecycle_run_def rr_run_def)

lemma barrier_release:
  assumes "disc_ok UNIV (l_replies l)" "\<not> pr_barrierActive (l_replies l)" "pr_deferred (l_replies l) = [c]"
    and "answered_by u receivers es"
  obtains rr where "lifecycle_run (E_RunDeferredCall receivers u # es) l = state_after (run_completion c (l\<lparr>l_replies := rr\<rparr>))"
    "disc_ok UNIV rr" "\<not> pr_barrierActive rr" "pr_deferred rr = []"
proof -
  from assms(4) have ne: "receivers \<noteq> []" "es \<noteq> []" by (auto simp: answered_by_def)
  then obtain fs e where es: "es = fs @ [e]" by (cases es rule: rev_cases) auto
  from assms(4) obtain r where r: "as_reply e = Some r" by (cases "as_reply e") (auto simp: answered_by_def es)
  let ?s = "l_replies l"
  let ?s1 = "rr_step (RunDeferred receivers u) ?s"
  have w: "waiting (insert u UNIV) u (set receivers) c (pr_completed ?s) {} ?s1"
    by (rule start_waiting) (use assms ne in simp_all)
  have pending: "pr_completed ?s1 = pr_completed ?s" using w ne(1) by (simp add: waiting_def barrier_def)
  then have first: "lifecycle_step (E_RunDeferredCall receivers u) l = l\<lparr>l_replies := ?s1\<rparr>"
    by (simp add: lifecycle_step_def replies_event_def Let_def del: rr_step.simps)
  let ?s2 = "rr_run (replies fs) ?s1"
  have q: "None \<notin> set (map as_reply fs)" "list_all (quiet_event u) (replies fs)" "quiet_event u r"
      "\<not> set receivers \<subseteq> \<Union> (answers u ` set (replies fs))"
      "set receivers \<subseteq> \<Union> (answers u ` set (replies fs)) \<union> answers u r"
    using assms(4) r by (auto simp: answered_by_def es Let_def butlast_append)
  have fs: "lifecycle_run fs (l\<lparr>l_replies := ?s1\<rparr>) = l\<lparr>l_replies := ?s2\<rparr>"
    using barrier_waits[of _ _ _ _ _ "{}" "l\<lparr>l_replies := ?s1\<rparr>" fs, OF _ q(1,2)] w q(4) by simp
  have w2: "waiting (insert u UNIV) u (set receivers) c (pr_completed ?s) (\<Union> (answers u ` set (replies fs))) ?s2"
    using waiting_run[OF w q(2)] by simp
  have w3: "waiting (insert u UNIV) u (set receivers) c (pr_completed ?s)
      (\<Union> (answers u ` set (replies fs)) \<union> answers u r) (rr_step r ?s2)"
    by (rule waiting_step[OF w2 q(3)])
  have c2: "pr_completed ?s2 = pr_completed ?s" using w2 q(4) by (simp add: waiting_def barrier_def)
  have c3: "pr_completed (rr_step r ?s2) = pr_completed ?s @ [c]" "\<not> pr_barrierActive (rr_step r ?s2)"
      "disc_ok UNIV (rr_step r ?s2)"
    using w3 q(5) by (simp_all add: waiting_def barrier_def)
  have "pr_deferred (rr_run (replies fs) s) = pr_deferred s" for s
    using q(1) by (induction fs arbitrary: s) (auto simp: rr_run_def reply_keeps_deferred)
  then have d: "pr_deferred (rr_step r ?s2) = []"
    using assms(2,3) ne by (simp add: reply_keeps_deferred[OF r] run_deferred_call_def Call_def note_fields Let_def
        FunctionType_ParticipantReplies_def FunctionType_Invalid_def)
  have single: "state_after (run_completions [c] l) = state_after (run_completion c l)" for l
    by (cases "run_completion c l") simp_all
  have "lifecycle_run (E_RunDeferredCall receivers u # es) l = lifecycle_step e (l\<lparr>l_replies := ?s2\<rparr>)"
    using fs first by (simp add: lifecycle_run_def es)
  also have "\<dots> = state_after (run_completion c (l\<lparr>l_replies := rr_step r ?s2\<rparr>))"
    by (simp add: reply_step[OF r] replies_event_def Let_def c2 c3 single del: rr_step.simps run_completions.simps)
  finally show thesis by (rule that) (use c3 d in simp_all)
qed

section \<open>Stop\<close>

definition handler_ok :: "callback option \<Rightarrow> bool" where
  "handler_ok h \<longleftrightarrow> (case h of None \<Rightarrow> True | Some cb \<Rightarrow> \<not> cb_throws cb)"

lemma fst_invoke: "fst (invoke c h l) = handler_ok h"
  by (simp add: invoke_def handler_ok_def split: option.split)

lemma stopping_run:
  assumes "l_currentState l = PS_Stopping" "handler_ok (l_stopHandler l)" "\<not> l_abortRequested l PS_Stopping"
  obtains l' where "run_actions [UpdateParticipantState reason, Call_on_current StopSimulation reason] l = Inr l'"
    "l_currentState l' = PS_Stopped" "map st_state (l_sent l') = map st_state (l_sent l) @ [PS_Stopping, PS_Stopped]"
    "l_replies l' = CallAfterAllParticipantsReplied (C_Stopped reason) (l_replies l)" "l_finalState l' = l_finalState l"
proof -
  obtain t where t: "\<And>as. run_actions (UpdateParticipantState reason # as) l = run_actions as (announce reason t l)"
    using announce_late[of l] assms(1) by auto
  let ?i = "UpdateLifecycleState PS_Stopped (snd (invoke CallStop (l_stopHandler l) (announce reason t l)))"
  obtain t' where t': "\<And>as. run_actions (UpdateParticipantState reason # as) ?i = run_actions as (announce reason t' ?i)"
    using announce_late[of ?i] by auto
  show thesis
    by (rule that[of "(announce reason t' ?i)\<lparr>l_replies := CallAfterAllParticipantsReplied (C_Stopped reason) (l_replies l)\<rparr>"])
      (use assms in \<open>simp_all add: t t' run_call state_method_def HandleStop_def split_beta fst_invoke
        SetStateAndForwardIntent_def after_all_replied_def nothing_def Let_def\<close>)
qed

lemma stop_run:
  assumes "l_currentState l = PS_Running \<or> l_currentState l = PS_Paused"
    "handler_ok (l_stopHandler l)" "\<not> l_abortRequested l PS_Stopping"
  obtains l' where "execute_deferred (D_Stop reason) l = Inr l'"
    "l_currentState l' = PS_Stopped" "map st_state (l_sent l') = map st_state (l_sent l) @ [PS_Stopping, PS_Stopped]"
    "l_replies l' = CallAfterAllParticipantsReplied (C_Stopped reason) (l_replies l)" "l_finalState l' = l_finalState l"
proof -
  define l0 where "l0 = (if l_currentState l = PS_Running then calls CallStopTime l else l)"
  have l0: "l_currentState l0 = l_currentState l" "l_sent l0 = l_sent l" "l_replies l0 = l_replies l"
      "l_finalState l0 = l_finalState l" "l_stopHandler l0 = l_stopHandler l" "l_abortRequested l0 = l_abortRequested l"
    by (simp_all add: l0_def)
  have "execute_deferred (D_Stop reason) l =
      run_actions [UpdateParticipantState reason, Call_on_current StopSimulation reason] (UpdateLifecycleState PS_Stopping l0)"
    using assms(1) by (auto simp: run_single_call state_method_def SetStateAndForwardIntent_def finish_step_def l0_def)
  then show thesis
    using stopping_run[of "UpdateLifecycleState PS_Stopping l0" reason] that assms l0 by auto
qed

lemma shutting_down_run:
  assumes "l_currentState l = PS_Stopped"
  obtains l' where "run_completion (C_Stopped reason) l = Inr l'"
    "l_currentState l' = PS_Shutdown" "map st_state (l_sent l') = map st_state (l_sent l) @ [PS_ShuttingDown, PS_Shutdown]"
    "l_replies l' = CallAfterAllParticipantsReplied (C_Shutdown reason) (l_replies l)" "l_finalState l' = l_finalState l"
    "st_state (l_status l') = PS_Shutdown"
proof -
  let ?l = "UpdateLifecycleState PS_ShuttingDown l"
  obtain t where t: "\<And>as. run_actions (UpdateParticipantState reason # as) ?l = run_actions as (announce reason t ?l)"
    using announce_late[of ?l] by auto
  let ?i = "UpdateLifecycleState PS_Shutdown (snd (invoke CallShutdown (l_shutdownHandler (announce reason t ?l)) (announce reason t ?l)))"
  have "run_completion (C_Stopped reason) l =
      run_actions [UpdateParticipantState reason, Call_on_current ShutdownParticipant reason] ?i"
    using assms by (simp add: run_call state_method_def SetStateAndForwardIntent_def t HandleShutdown_def)
  then show thesis
    using shutdown_run[of ?i reason] that by auto
qed

text \<open>
  C20. Stopping: when a stop of a running or paused participant is executed at any point of any run
  in which the barrier is idle, and its stop handler does not throw, then the participant announces
  Stopping and Stopped; when all other participants have answered (or left) it announces ShuttingDown
  and Shutdown, whatever the shutdown handler does; and when all have answered again the final
  state of the lifecycle is Shutdown.
\<close>

theorem stop_shuts_down:
  assumes "l = lifecycle_run history (LifecycleService_new name mode nil)"
    and "l_currentState l = PS_Running \<or> l_currentState l = PS_Paused"
    and "handler_ok (l_stopHandler l)" "\<not> l_abortRequested l PS_Stopping" "l_finalState l = None"
    and "\<not> pr_barrierActive (l_replies l)" "pr_deferred (l_replies l) = []"
    and "answered_by u\<^sub>1 receivers\<^sub>1 es\<^sub>1" "answered_by u\<^sub>2 receivers\<^sub>2 es\<^sub>2"
    and "l\<^sub>1 = state_after (execute_deferred (D_Stop reason) l)"
    and "l\<^sub>2 = lifecycle_run (E_RunDeferredCall receivers\<^sub>1 u\<^sub>1 # es\<^sub>1) l\<^sub>1"
    and "l\<^sub>3 = lifecycle_run (E_RunDeferredCall receivers\<^sub>2 u\<^sub>2 # es\<^sub>2) l\<^sub>2"
  shows "map st_state (l_sent l\<^sub>1) = map st_state (l_sent l) @ [PS_Stopping, PS_Stopped] \<and>
     map st_state (l_sent l\<^sub>2) = map st_state (l_sent l\<^sub>1) @ [PS_ShuttingDown, PS_Shutdown] \<and>
     l_finalState l\<^sub>2 = None \<and> l_finalState l\<^sub>3 = Some PS_Shutdown \<and> l_currentState l\<^sub>3 = PS_Shutdown"
proof -
  have "disc_ok UNIV (l_replies l)"
    using lifecycle_run_settled[OF new_settled] by (simp add: assms(1) consistent_def history_ok_def)
  obtain l1 where l1: "execute_deferred (D_Stop reason) l = Inr l1" "l_currentState l1 = PS_Stopped"
      "map st_state (l_sent l1) = map st_state (l_sent l) @ [PS_Stopping, PS_Stopped]"
      "l_replies l1 = CallAfterAllParticipantsReplied (C_Stopped reason) (l_replies l)" "l_finalState l1 = None"
    using stop_run[OF assms(2-4)] assms(5) by auto
  have r1: "disc_ok UNIV (l_replies l1)" "\<not> pr_barrierActive (l_replies l1)" "pr_deferred (l_replies l1) = [C_Stopped reason]"
    using \<open>disc_ok UNIV (l_replies l)\<close> l1(4) assms(6,7)
    by (simp_all add: CallAfterAllParticipantsReplied_def disc_ok_def disconnects_def)
  obtain rr1 where rr1: "l\<^sub>2 = state_after (run_completion (C_Stopped reason) (l1\<lparr>l_replies := rr1\<rparr>))"
      "disc_ok UNIV rr1" "\<not> pr_barrierActive rr1" "pr_deferred rr1 = []"
    using barrier_release[OF r1 assms(8)] assms(10,11) l1(1) by auto
  obtain l2 where l2: "run_completion (C_Stopped reason) (l1\<lparr>l_replies := rr1\<rparr>) = Inr l2" "l_currentState l2 = PS_Shutdown"
      "map st_state (l_sent l2) = map st_state (l_sent l1) @ [PS_ShuttingDown, PS_Shutdown]"
      "l_replies l2 = CallAfterAllParticipantsReplied (C_Shutdown reason) rr1" "l_finalState l2 = None"
      "st_state (l_status l2) = PS_Shutdown"
    using shutting_down_run[of "l1\<lparr>l_replies := rr1\<rparr>" reason] l1(2,3,5) by auto
  have r2: "disc_ok UNIV (l_replies l2)" "\<not> pr_barrierActive (l_replies l2)" "pr_deferred (l_replies l2) = [C_Shutdown reason]"
    using rr1(2-4) l2(4) by (simp_all add: CallAfterAllParticipantsReplied_def disc_ok_def disconnects_def)
  obtain rr2 where rr2: "l\<^sub>3 = state_after (run_completion (C_Shutdown reason) (l2\<lparr>l_replies := rr2\<rparr>))"
    using barrier_release[OF r2 assms(9)] assms(12) l2(1) rr1(1) by auto
  have "l_finalState l\<^sub>3 = Some PS_Shutdown" "l_currentState l\<^sub>3 = PS_Shutdown"
    using rr2 l2 by (simp_all add: SetFinalStatePromise_def calls_def lifecycle_State_def)
  then show ?thesis using l1 l2 rr1(1) assms(10) by simp
qed

section \<open>Start of an autonomous participant\<close>

definition starts_alone :: "Lifecycle \<Rightarrow> bool" where
  "starts_alone l \<longleftrightarrow> l_operationMode l = OM_Autonomous \<and> \<not> l_hasPendingAsyncSubscriptions l \<and>
     (\<forall>s. \<not> l_abortRequested l s) \<and> handler_ok (l_commReadyHandler l) \<and> \<not> l_commReadyHandlerIsAsync l \<and>
     handler_ok (l_startingHandler l)"

lemma starts_alone_perform [simp]: "starts_alone (fold perform rs l) = starts_alone l"
proof -
  have "starts_alone (perform r l) = starts_alone l" for r l
    by (cases r) (simp_all add: starts_alone_def lifecycle_Stop_def lifecycle_Pause_def lifecycle_Continue_def
      lifecycle_ReportError_def lifecycle_AbortSimulation_def CompleteCommunicationReadyHandlerAsync_def lifecycle_ExecuteDeferred_def)
  then show ?thesis by (induction rs arbitrary: l) simp_all
qed

lemma starts_alone_frame [simp]:
  "starts_alone (calls c l) = starts_alone l" "starts_alone (announce reason t l) = starts_alone l"
  "starts_alone (l\<lparr>l_deferred := ds\<rparr>) = starts_alone l" "starts_alone (l\<lparr>l_replies := rr\<rparr>) = starts_alone l"
  "starts_alone (l\<lparr>l_handlerExecuting := h\<rparr>) = starts_alone l" "starts_alone (UpdateLifecycleState s l) = starts_alone l"
  "starts_alone (snd (invoke c h' l)) = starts_alone l"
  by (simp_all add: invoke_def split: option.split)
    (simp_all add: starts_alone_def calls_def announce_def UpdateLifecycleState_def)

lemma announce_alone:
  assumes "starts_alone l" "l_currentState l \<noteq> PS_Invalid" "\<nexists>w. l_currentState l = PS_Other w"
  shows "\<exists>l'. (\<forall>as. run_actions (UpdateParticipantState reason # as) l = run_actions as l') \<and> starts_alone l' \<and>
     l_currentState l' = l_currentState l \<and> map st_state (l_sent l') = map st_state (l_sent l) @ [l_currentState l] \<and>
     l_timeSyncActive l' = l_timeSyncActive l \<and> l_deferred l' = l_deferred l \<and> l_replies l' = l_replies l"
proof -
  let ?st = "status_of (l_currentState l) reason l"
  have st: "st_state ?st = l_currentState l" by (simp add: status_of_def)
  have "\<exists>r. fst (UpdateParticipantStatus ?st (l_tracker l)) = Inr r"
    using assms(2,3) st by (auto simp: UpdateParticipantStatus_eq)
  then obtain r t where u: "UpdateParticipantStatus ?st (l_tracker l) = (Inr r, t)" by (metis prod.collapse)
  define l' where "l' = (if participantStateChanged r \<and> l_registered l then NewParticipantStatus ?st (announce reason t l)
    else announce reason t l)"
  have "l_registered (announce reason t l) = l_registered l" "l_registered (NewParticipantStatus st m) = l_registered m" for st m
    by (simp_all add: announce_def NewParticipantStatus_def calls_def)
  then have step: "action_step (UpdateParticipantState reason) l =
      Inr (if systemStateChanged r \<and> l_registered l then [NewSystemState (t_systemState t)] else [], l')"
    using u by (simp add: ChangeParticipantState_def monitor_receives_def l'_def announce_def Let_def)
  have l': "starts_alone l'" "l_currentState l' = l_currentState l" "l_timeSyncActive l' = l_timeSyncActive l"
      "map st_state (l_sent l') = map st_state (l_sent l) @ [l_currentState l]"
      "l_deferred l' = l_deferred l" "l_replies l' = l_replies l"
    using assms(1) by (simp_all add: l'_def NewParticipantStatus_def)
  then have "react_to_system_state S l' = nothing l'" for S
    by (simp add: react_to_system_state_def starts_alone_def)
  with step l' show ?thesis by (intro exI[of _ l']) (simp add: run_actions.simps(2) nothing_def)
qed

lemma starting_run:
  assumes "starts_alone l" "l_currentState l = PS_ReadyToRun"
  shows "\<exists>l'. run_actions [UpdateParticipantState reason, Call_on_current CommunicationInitialized reason, CallbackDone s] l
       = Inr l' \<and> l_currentState l' = PS_Running \<and>
     map st_state (l_sent l') = map st_state (l_sent l) @ [PS_ReadyToRun, PS_Running]"
proof -
  obtain l1 where l1: "\<And>as. run_actions (UpdateParticipantState reason # as) l = run_actions as l1" "starts_alone l1"
      "l_currentState l1 = PS_ReadyToRun" "map st_state (l_sent l1) = map st_state (l_sent l) @ [PS_ReadyToRun]"
    using announce_alone[OF assms(1), of reason] assms(2) by auto
  define l2 where "l2 = UpdateLifecycleState PS_Running (if l_timeSyncActive l1 then l1
    else snd (invoke CallStarting (l_startingHandler l1) (l1\<lparr>l_handlerExecuting := (l_handlerExecuting l1)(PS_ReadyToRun := True)\<rparr>)))"
  have l2: "starts_alone l2" "l_currentState l2 = PS_Running" "l_sent l2 = l_sent l1"
    using l1(2) by (simp_all add: l2_def)
  have "\<exists>l3. (\<forall>as. run_actions (UpdateParticipantState reason' # as) l2 = run_actions as l3) \<and>
      l_currentState l3 = PS_Running \<and> map st_state (l_sent l3) = map st_state (l_sent l1) @ [PS_Running]" for reason'
    using announce_alone[OF l2(1), of reason'] l2(2,3) by auto
  then obtain l3 where l3: "\<And>reason' as. run_actions (UpdateParticipantState reason' # as) l2 = run_actions as (l3 reason')"
      "\<And>reason'. l_currentState (l3 reason') = PS_Running"
      "\<And>reason'. map st_state (l_sent (l3 reason')) = map st_state (l_sent l1) @ [PS_Running]"
    by metis
  have flags: "\<not> l_abortRequested l1 s" "l_operationMode l1 = OM_Autonomous" "handler_ok (l_startingHandler l1)" for s
    using l1(2) by (simp_all add: starts_alone_def)
  show ?thesis
    using l1(1,3,4) l3(1)[unfolded l2_def] l3(2,3) flags
    by (cases "l_timeSyncActive l1")
      (simp_all add: run_call run_actions.simps(2)[where a = "CallbackDone s" for s] state_method_def call_on_current_def
        during_callback_def HandleStarting_def split_beta fst_invoke SetState_def SetStateAndForwardIntent_def
        nothing_def Let_def)
qed

lemma HandleCommunicationReady_alone:
  assumes "starts_alone l"
  shows "HandleCommunicationReady l = (CB_Completed, snd (invoke CallCommunicationReady (l_commReadyHandler l) l))"
proof (cases "l_commReadyHandler l")
  case (Some cb)
  then show ?thesis using assms by (simp add: HandleCommunicationReady_def starts_alone_def invoke_def handler_ok_def Let_def)
qed (simp add: HandleCommunicationReady_def invoke_def)

lemma communication_run:
  assumes "starts_alone l"
  shows "\<exists>l'. run_completion (C_ServicesCreated reason) l = Inr l' \<and> l_currentState l' = PS_Running \<and>
     map st_state (l_sent l') = map st_state (l_sent l) @
       [PS_CommunicationInitializing, PS_CommunicationInitialized, PS_ReadyToRun, PS_Running]"
proof -
  let ?l = "UpdateLifecycleState PS_CommunicationInitializing l"
  obtain l1 where l1: "\<And>as. run_actions (UpdateParticipantState reason # as) ?l = run_actions as l1" "starts_alone l1"
      "l_currentState l1 = PS_CommunicationInitializing"
      "map st_state (l_sent l1) = map st_state (l_sent l) @ [PS_CommunicationInitializing]"
    using announce_alone[of ?l reason] assms by auto
  obtain l2 where l2: "\<And>as. run_actions (UpdateParticipantState reason # as)
        (UpdateLifecycleState PS_CommunicationInitialized l1) = run_actions as l2" "starts_alone l2"
      "l_currentState l2 = PS_CommunicationInitialized"
      "map st_state (l_sent l2) = map st_state (l_sent l1) @ [PS_CommunicationInitialized]"
    using announce_alone[of "UpdateLifecycleState PS_CommunicationInitialized l1" reason] l1(2) by auto
  let ?h = "l2\<lparr>l_handlerExecuting := (l_handlerExecuting l2)(PS_CommunicationInitialized := True)\<rparr>"
  have h: "HandleCommunicationReady ?h = (CB_Completed, snd (invoke CallCommunicationReady (l_commReadyHandler ?h) ?h))"
    by (rule HandleCommunicationReady_alone) (use l2(2) in simp)
  let ?m = "UpdateLifecycleState PS_ReadyToRun (snd (invoke CallCommunicationReady (l_commReadyHandler l2) ?h))"
  have m: "starts_alone ?m" "l_currentState ?m = PS_ReadyToRun" "l_sent ?m = l_sent l2" using l2(2) by simp_all
  have "run_completion (C_ServicesCreated reason) l =
      run_actions [UpdateParticipantState reason, Call_on_current CommunicationInitializing reason]
        (UpdateLifecycleState PS_CommunicationInitialized l1)"
    using l1 by (simp add: SetStateAndForwardIntent_def finish_step_def run_call state_method_def call_on_current_def
        AddAsyncSubscriptionsCompletionHandler_def subscriptions_completed_def starts_alone_def)
  also have "\<dots> = run_actions [UpdateParticipantState ''CommunicationInitialized for autonomous participant.'',
      Call_on_current CommunicationInitialized ''CommunicationInitialized for autonomous participant.'',
      CallbackDone PS_CommunicationInitialized] ?m"
    using l2 h by (simp add: run_call state_method_def call_on_current_def during_callback_def SetStateAndForwardIntent_def
        starts_alone_def)
  finally show ?thesis using starting_run[OF m(1,2)] m(3) l1(4) l2(4) by simp
qed

text \<open>
  C21. Start of an autonomous participant: after the lifecycle was started and its two deferred
  actions were executed, it has announced ServicesCreated; when all other participants have answered
  (or left), in whatever order, it announces CommunicationInitializing, CommunicationInitialized,
  ReadyToRun and Running, provided that its handlers are synchronous and do not throw and no
  subscription is pending.
\<close>

theorem autonomous_start:
  assumes "l\<^sub>0 = LifecycleService_new name OM_Autonomous nil\<lparr>l_timeSyncActive := timeSync,
       l_commReadyHandler := ready, l_startingHandler := starting\<rparr>"
    and "handler_ok ready" "handler_ok starting" "answered_by u receivers es"
    and "l\<^sub>1 = lifecycle_run [E_Start, E_Deferred, E_Deferred] l\<^sub>0"
    and "l\<^sub>2 = lifecycle_run (E_RunDeferredCall receivers u # es) l\<^sub>1"
  shows "map st_state (l_sent l\<^sub>1) = [PS_ServicesCreated] \<and> l_currentState l\<^sub>2 = PS_Running \<and>
     map st_state (l_sent l\<^sub>2) = [PS_ServicesCreated, PS_CommunicationInitializing, PS_CommunicationInitialized,
       PS_ReadyToRun, PS_Running]"
proof -
  define a where "a = lifecycle_step E_Start l\<^sub>0"
  have a: "starts_alone a" "l_currentState a = PS_Invalid" "l_sent a = []" "l_deferred a = [D_Initialize, D_StartAutonomous]"
      "l_replies a = RequestReplyService_new nil"
    using assms(2,3) by (simp_all add: a_def assms(1) lifecycle_step_def StartLifecycle_def LifecycleService_new_def
        SystemStateTracker_new_def run_actions.simps(2) react_to_system_state_def nothing_def lifecycle_ExecuteDeferred_def calls_def
        Let_def starts_alone_def handler_ok_def)
  let ?a = "UpdateLifecycleState PS_ServicesCreated (a\<lparr>l_deferred := [D_StartAutonomous]\<rparr>)"
  obtain b where b: "lifecycle_step E_Deferred a = b" "starts_alone b" "l_currentState b = PS_ServicesCreated"
      "map st_state (l_sent b) = [PS_ServicesCreated]" "l_deferred b = [D_StartAutonomous]"
      "l_replies b = RequestReplyService_new nil"
  proof -
    from announce_alone[of ?a "''LifecycleService::StartLifecycle was called.''"] a obtain l' where
      "\<And>as. run_actions (UpdateParticipantState ''LifecycleService::StartLifecycle was called.'' # as) ?a = run_actions as l'"
      "starts_alone l'" "l_currentState l' = PS_ServicesCreated" "map st_state (l_sent l') = [PS_ServicesCreated]"
      "l_deferred l' = [D_StartAutonomous]" "l_replies l' = RequestReplyService_new nil"
      by auto
    then show thesis
      by (intro that[of l']) (simp_all add: lifecycle_step_def run_next_deferred_def a run_call state_method_def SetState_def)
  qed
  let ?reason = "''LifecycleService::StartLifecycle was called without start coordination.''"
  have l1: "l\<^sub>1 = b\<lparr>l_deferred := [], l_replies := CallAfterAllParticipantsReplied (C_ServicesCreated ?reason) (RequestReplyService_new nil)\<rparr>"
    using b by (simp add: assms(5) lifecycle_run_def flip: a_def)
      (simp add: lifecycle_step_def run_next_deferred_def run_call state_method_def after_all_replied_def nothing_def)
  have r1: "disc_ok UNIV (l_replies l\<^sub>1)" "\<not> pr_barrierActive (l_replies l\<^sub>1)"
      "pr_deferred (l_replies l\<^sub>1) = [C_ServicesCreated ?reason]"
    by (simp_all add: l1 CallAfterAllParticipantsReplied_def RequestReplyService_new_def disc_ok_def disconnects_def)
  obtain rr where "l\<^sub>2 = state_after (run_completion (C_ServicesCreated ?reason) (l\<^sub>1\<lparr>l_replies := rr\<rparr>))"
    using barrier_release[OF r1 assms(4)] assms(6) by blast
  moreover have "starts_alone (l\<^sub>1\<lparr>l_replies := rr\<rparr>)" "map st_state (l_sent l\<^sub>1) = [PS_ServicesCreated]"
    using b by (simp_all add: l1)
  ultimately show ?thesis using communication_run[of "l\<^sub>1\<lparr>l_replies := rr\<rparr>" ?reason] by auto
qed

section \<open>Exceptions of callbacks\<close>

lemmas method_defs = run_single_call finish_step_def state_method_def during_callback_def HandleCommunicationReady_def
  HandleStarting_def HandleStop_def invoke_def SetState_def Let_def

lemma error_run:
  assumes "l_currentState l = PS_Error"
  obtains t where "run_actions [UpdateParticipantState reason, CallbackDone s] l =
       Inr ((announce reason t l)\<lparr>l_handlerExecuting := (l_handlerExecuting l)(s := False)\<rparr>)"
     "run_actions [UpdateParticipantState reason] l = Inr (announce reason t l)"
proof -
  obtain t where "\<And>as. run_actions (UpdateParticipantState reason # as) l = run_actions as (announce reason t l)"
    using announce_late[of l] assms by auto
  then show thesis
    by (intro that[of t]) (simp_all add: run_actions.simps(2)[where a = "CallbackDone s"] nothing_def)
qed

text \<open>
  C30. A communication ready handler (synchronous, or asynchronous and not yet invoked), a starting handler (called only without time
  synchronisation) or a stop handler that throws while no abort is pending for the state: the method of the state machine that calls
  it returns normally, with the participant in the state Error, which is announced; the handler was called once.
\<close>

theorem throwing_handler_is_an_error:
  assumes "(l_currentState l, i, c, h, called) \<in>
      {(PS_CommunicationInitialized, CommunicationInitialized, CallCommunicationReady, l_commReadyHandler l,
          \<not> l_commReadyHandlerIsAsync l \<or> \<not> l_commReadyHandlerInvoked l),
       (PS_ReadyToRun, ReadyToRun, CallStarting, l_startingHandler l, \<not> l_timeSyncActive l),
       (PS_Stopping, StopSimulation, CallStop, l_stopHandler l, True)}"
    and "called" "h = Some cb" "cb_throws cb" "\<not> l_abortRequested l (l_currentState l)"
  shows "\<exists>l'. run_actions [Call_on_current i reason] l = Inr l' \<and> l_currentState l' = PS_Error \<and>
     map st_state (l_sent l') = map st_state (l_sent l) @ [PS_Error] \<and> l_calls l' = l_calls l @ [c]"
proof -
  have "\<exists>reason' l\<^sub>h. l_sent l\<^sub>h = l_sent l \<and> l_calls l\<^sub>h = l_calls l \<and> run_actions [Call_on_current i reason] l =
      run_actions (UpdateParticipantState reason' # (if i = StopSimulation then [] else [CallbackDone (l_currentState l)]))
        (UpdateLifecycleState PS_Error (fold perform (cb_requests cb) (calls c l\<^sub>h)))"
  proof -
    from assms(1-3) consider
        "l_currentState l = PS_CommunicationInitialized" "i = CommunicationInitialized" "c = CallCommunicationReady"
          "l_commReadyHandler l = Some cb" "\<not> l_commReadyHandlerIsAsync l"
      | "l_currentState l = PS_CommunicationInitialized" "i = CommunicationInitialized" "c = CallCommunicationReady"
          "l_commReadyHandler l = Some cb" "l_commReadyHandlerIsAsync l" "\<not> l_commReadyHandlerInvoked l"
      | "l_currentState l = PS_ReadyToRun" "i = ReadyToRun" "c = CallStarting" "l_startingHandler l = Some cb" "\<not> l_timeSyncActive l"
      | "l_currentState l = PS_Stopping" "i = StopSimulation" "c = CallStop" "l_stopHandler l = Some cb"
      by (cases "l_commReadyHandlerIsAsync l") auto
    then show ?thesis
    proof cases
      case 1
      then show ?thesis using assms(4,5)
        by (intro exI[of _ "''Exception during CommunicationReadyHandle execution.''"]
            exI[of _ "l\<lparr>l_handlerExecuting := (l_handlerExecuting l)(l_currentState l := True)\<rparr>"]) (simp add: method_defs)
    next
      case 2
      then show ?thesis using assms(4,5)
        by (intro exI[of _ "''Exception during CommunicationReadyHandle execution.''"]
            exI[of _ "l\<lparr>l_handlerExecuting := (l_handlerExecuting l)(l_currentState l := True),
              l_commReadyHandlerInvoked := True, l_commReadyHandlerCompleted := False\<rparr>"]) (simp add: method_defs)
    next
      case 3
      then show ?thesis using assms(4,5)
        by (intro exI[of _ "''Exception during StartingHandler execution.''"]
            exI[of _ "l\<lparr>l_handlerExecuting := (l_handlerExecuting l)(l_currentState l := True)\<rparr>"]) (simp add: method_defs)
    next
      case 4
      then show ?thesis using assms(4,5)
        by (intro exI[of _ "''Exception during StopHandler execution.''"] exI[of _ l]) (simp add: method_defs)
    qed
  qed
  then obtain reason' l\<^sub>h where h: "l_sent l\<^sub>h = l_sent l" "l_calls l\<^sub>h = l_calls l" and run: "run_actions [Call_on_current i reason] l =
      run_actions (UpdateParticipantState reason' # (if i = StopSimulation then [] else [CallbackDone (l_currentState l)]))
        (UpdateLifecycleState PS_Error (fold perform (cb_requests cb) (calls c l\<^sub>h)))" by (elim exE conjE)
  define e where "e = UpdateLifecycleState PS_Error (fold perform (cb_requests cb) (calls c l\<^sub>h))"
  have e: "l_currentState e = PS_Error" "l_sent e = l_sent l" "l_calls e = l_calls l @ [c]"
    using h by (simp_all add: e_def)
  obtain t where t: "run_actions [UpdateParticipantState reason', CallbackDone (l_currentState l)] e =
       Inr ((announce reason' t e)\<lparr>l_handlerExecuting := (l_handlerExecuting e)(l_currentState l := False)\<rparr>)"
     "run_actions [UpdateParticipantState reason'] e = Inr (announce reason' t e)"
    using error_run[of e reason' "l_currentState l"] e(1) by auto
  show ?thesis
    using run[folded e_def] t e by (cases "i = StopSimulation") simp_all
qed

section \<open>Sample runs\<close>

definition sample_reply :: "string \<Rightarrow> lifecycle_event" where
  "sample_reply name = E_ReturnFrom name (disconnect_message sample_uuid FunctionType_ParticipantReplies)"

definition sample_handler :: callback where
  "sample_handler = \<lparr>cb_throws = False, cb_requests = [Req_Stop ''done'']\<rparr>"

definition sample_start :: "lifecycle_event list" where
  "sample_start = [E_SetStartingHandler sample_handler, E_Start, E_Deferred, E_Deferred,
     E_RunDeferredCall [''B'', ''C''] sample_uuid, sample_reply ''C'', E_Removal ''B'']"

definition sample_lifecycle :: Lifecycle where
  "sample_lifecycle = lifecycle_run sample_start (LifecycleService_new ''A'' OM_Autonomous sample_uuid)"

theorem autonomous_start_witness:
  "l_currentState (lifecycle_run (E_RunDeferredCall [''B'', ''C''] sample_uuid # [sample_reply ''C'', E_Removal ''B''])
     (lifecycle_run [E_Start, E_Deferred, E_Deferred]
       (LifecycleService_new ''A'' OM_Autonomous sample_uuid\<lparr>l_timeSyncActive := False,
          l_commReadyHandler := None, l_startingHandler := Some sample_handler\<rparr>))) = PS_Running"
  using autonomous_start[where name = "''A''" and nil = sample_uuid and timeSync = False and ready = None
      and starting = "Some sample_handler" and u = sample_uuid and receivers = "[''B'', ''C'']"
      and es = "[sample_reply ''C'', E_Removal ''B'']", OF refl _ _ _ refl refl]
  by (simp add: handler_ok_def sample_handler_def answered_by_def sample_reply_def disconnect_message_def Let_def)

theorem abort_shuts_down_witness:
  "\<exists>l'. execute_deferred (D_AbortSimulation ''x'') sample_lifecycle = Inr l' \<and> l_currentState l' = PS_Shutdown"
proof -
  have "l_currentState sample_lifecycle = PS_Running" "\<not> l_handlerExecuting sample_lifecycle PS_Running"
    by code_simp+
  then show ?thesis using abort_shuts_down[of sample_lifecycle "''x''"] by auto
qed

theorem stop_shuts_down_witness:
  "l_finalState (lifecycle_run [E_RunDeferredCall [''B''] sample_uuid, sample_reply ''B'']
     (lifecycle_run [E_RunDeferredCall [''B''] sample_uuid, sample_reply ''B'']
       (state_after (execute_deferred (D_Stop ''done'') sample_lifecycle)))) = Some PS_Shutdown"
proof -
  have "l_currentState sample_lifecycle = PS_Running" "handler_ok (l_stopHandler sample_lifecycle)"
      "\<not> l_abortRequested sample_lifecycle PS_Stopping" "l_finalState sample_lifecycle = None"
      "\<not> pr_barrierActive (l_replies sample_lifecycle)" "pr_deferred (l_replies sample_lifecycle) = []"
    by code_simp+
  moreover have "answered_by sample_uuid [''B''] [sample_reply ''B'']"
    by (simp add: answered_by_def sample_reply_def disconnect_message_def Let_def)
  ultimately show ?thesis
    using stop_shuts_down[OF sample_lifecycle_def, of sample_uuid "[''B'']" "[sample_reply ''B'']" sample_uuid "[''B'']"
        "[sample_reply ''B'']", OF _ _ _ _ _ _ _ _ refl refl refl] by simp
qed

definition throwing_handler :: callback where
  "throwing_handler = \<lparr>cb_throws = True, cb_requests = []\<rparr>"

theorem throwing_handler_is_an_error_witness:
  "\<exists>l'. run_actions [Call_on_current ReadyToRun ''x'']
     (LifecycleService_new ''A'' OM_Coordinated sample_uuid\<lparr>l_currentState := PS_ReadyToRun,
        l_startingHandler := Some throwing_handler\<rparr>) = Inr l' \<and> l_currentState l' = PS_Error"
  using throwing_handler_is_an_error[of "LifecycleService_new ''A'' OM_Coordinated sample_uuid\<lparr>l_currentState := PS_ReadyToRun,
      l_startingHandler := Some throwing_handler\<rparr>" ReadyToRun CallStarting "Some throwing_handler" True throwing_handler "''x''"]
  by (auto simp: LifecycleService_new_def throwing_handler_def)

section \<open>Completions after an abort\<close>

text \<open>
  An abort does not cancel what the participant waits for. An autonomous participant is aborted while
  it waits for subscriptions, and announces Aborting and Shutdown. When the subscriptions
  complete it announces CommunicationInitialized, ReadyToRun and Running, and when the
  other participants have answered the barrier of the shutdown, the lifecycle completes with the
  final state Running.
\<close>

lemma abort_undone_by_subscriptions:
  "let l = lifecycle_run [E_SubscriptionsPending, E_Start, E_Deferred, E_Deferred,
       E_RunDeferredCall [''B''] sample_uuid, sample_reply ''B'',
       E_Request (Req_AbortSimulation ''abort''), E_Deferred,
       E_SubscriptionsCompleted, E_RunDeferredCall [''B''] sample_uuid, sample_reply ''B'']
     (LifecycleService_new ''A'' OM_Autonomous sample_uuid)
   in map st_state (l_sent l) = [PS_ServicesCreated, PS_CommunicationInitializing, PS_Aborting, PS_Shutdown,
        PS_CommunicationInitialized, PS_ReadyToRun, PS_Running] \<and>
      l_finalState l = Some PS_Running"
  by code_simp

text \<open>
  An abort that arrives while the barrier of ServicesCreated is waiting: the barrier of the
  shutdown is dropped because another one is active, and the completion of the first moves the
  participant from Shutdown on to Running; the final state is never reported, although all requested
  replies have arrived.
\<close>

theorem abort_undone_by_barrier:
  "let l = lifecycle_run [E_Start, E_Deferred, E_Deferred, E_RunDeferredCall [''B''] sample_uuid,
       E_Request (Req_AbortSimulation ''abort''), E_Deferred,
       E_RunDeferredCall [''B''] sample_uuid, sample_reply ''B'']
     (LifecycleService_new ''A'' OM_Autonomous sample_uuid)
   in map st_state (l_sent l) = [PS_ServicesCreated, PS_Aborting, PS_Shutdown, PS_CommunicationInitializing,
        PS_CommunicationInitialized, PS_ReadyToRun, PS_Running] \<and>
      l_finalState l = None \<and> pr_deferred (l_replies l) = [] \<and> \<not> pr_barrierActive (l_replies l)"
  by code_simp

text \<open>
  The final state of a lifecycle is reported only after the participant has announced Shutdown,
  in every run.
\<close>

theorem final_state_after_shutdown:
  assumes "l = lifecycle_run es (LifecycleService_new name mode nil)" "l_finalState l = Some s"
  shows "PS_Shutdown \<in> set (map st_state (l_sent l))"
  using lifecycle_run_settled[OF new_settled[of name mode nil], of es] assms
  by (simp add: consistent_def history_ok_def announced_states_def)

definition sample_stop :: "lifecycle_event list" where
  "sample_stop = sample_start @ [E_Deferred, E_RunDeferredCall [''C''] sample_uuid, sample_reply ''C'',
     E_RunDeferredCall [''C''] sample_uuid, sample_reply ''C'']"

theorem final_state_after_shutdown_witness:
  "PS_Shutdown \<in> set (map st_state (l_sent (lifecycle_run sample_stop (LifecycleService_new ''A'' OM_Autonomous sample_uuid))))"
proof (rule final_state_after_shutdown[OF refl])
  show "l_finalState (lifecycle_run sample_stop (LifecycleService_new ''A'' OM_Autonomous sample_uuid)) = Some PS_Shutdown"
    by code_simp
qed

end
