(* ===== verification/Label_Matching.thy ===== *)
theory Label_Matching
  imports Service_Messages
begin

text \<open>
  Matching of publishers with subscribers and of RPC clients with servers: labels
  (util/LabelMatching.cpp) and media types (services/pubsub/DataMessageDatatypeUtils.cpp).
\<close>

datatype label_kind = Optional | Mandatory

record MatchingLabel =
  ml_key :: string
  ml_value :: string
  ml_kind :: label_kind

fun TryFindLabelByKey :: "string \<Rightarrow> MatchingLabel list \<Rightarrow> MatchingLabel option" where
  "TryFindLabelByKey key [] = None"
| "TryFindLabelByKey key (it # labels) = (if ml_key it = key then Some it else TryFindLabelByKey key labels)"

definition LabelMatchesLabelList :: "MatchingLabel \<Rightarrow> MatchingLabel list \<Rightarrow> bool" where
  "LabelMatchesLabelList label labels = (case TryFindLabelByKey (ml_key label) labels of
     None \<Rightarrow> ml_kind label \<noteq> Mandatory
   | Some foundLabel \<Rightarrow> ml_value label = ml_value foundLabel)"

fun all_match :: "MatchingLabel list \<Rightarrow> MatchingLabel list \<Rightarrow> bool" where
  "all_match [] labels = True"
| "all_match (label # rest) labels = (if \<not> LabelMatchesLabelList label labels then False else all_match rest labels)"

definition MatchLabels :: "MatchingLabel list \<Rightarrow> MatchingLabel list \<Rightarrow> bool" where
  "MatchLabels labels1 labels2 = (if \<not> all_match labels1 labels2 then False else all_match labels2 labels1)"

definition MatchMediaType :: "string \<Rightarrow> string \<Rightarrow> bool" where
  "MatchMediaType subMediaType pubMediaType \<longleftrightarrow> subMediaType = [] \<or> subMediaType = pubMediaType"

text \<open>The value that a list of labels gives to a key.\<close>

definition label_value :: "MatchingLabel list \<Rightarrow> string \<Rightarrow> string option" where
  "label_value labels key = map_option ml_value (TryFindLabelByKey key labels)"

lemma TryFindLabelByKey_find: "TryFindLabelByKey key labels = find (\<lambda>l. ml_key l = key) labels"
  by (induction labels) auto

lemma all_match_iff: "all_match labels1 labels2 \<longleftrightarrow> (\<forall>l\<in>set labels1. LabelMatchesLabelList l labels2)"
  by (induction labels1) auto

lemma label_value_None: "label_value labels key = None \<longleftrightarrow> (\<forall>l\<in>set labels. ml_key l \<noteq> key)"
  by (auto simp: label_value_def TryFindLabelByKey_find find_None_iff)

lemma matches_iff:
  "LabelMatchesLabelList l labels \<longleftrightarrow> (case label_value labels (ml_key l) of
     None \<Rightarrow> ml_kind l = Optional | Some v \<Rightarrow> v = ml_value l)"
  by (cases "ml_kind l") (auto simp: LabelMatchesLabelList_def label_value_def split: option.split)

lemma MatchLabels_iff:
  "MatchLabels labels1 labels2 \<longleftrightarrow>
     (\<forall>l\<in>set labels1. LabelMatchesLabelList l labels2) \<and> (\<forall>l\<in>set labels2. LabelMatchesLabelList l labels1)"
  by (simp add: MatchLabels_def all_match_iff)

lemma MatchLabels_sym: "MatchLabels labels1 labels2 = MatchLabels labels2 labels1"
  by (auto simp: MatchLabels_iff)

text \<open>What a single label of a matching partner says.\<close>

lemma MatchLabels_value:
  assumes "MatchLabels query labels" "l \<in> set query"
  shows "label_value labels (ml_key l) = Some (ml_value l) \<or>
     ml_kind l = Optional \<and> label_value labels (ml_key l) = None"
  using assms by (cases "label_value labels (ml_key l)") (auto simp: MatchLabels_iff matches_iff)

text \<open>
  The rule in one sentence: with distinct keys on each side, two lists match when no key has different
  values in them and every mandatory label of one is present in the other.
\<close>

lemma MatchLabels_spec:
  assumes "distinct (map ml_key labels1)" "distinct (map ml_key labels2)"
  shows "MatchLabels labels1 labels2 \<longleftrightarrow>
     (\<forall>k v\<^sub>1 v\<^sub>2. label_value labels1 k = Some v\<^sub>1 \<longrightarrow> label_value labels2 k = Some v\<^sub>2 \<longrightarrow> v\<^sub>1 = v\<^sub>2) \<and>
     (\<forall>l\<in>set labels1. ml_kind l = Mandatory \<longrightarrow> label_value labels2 (ml_key l) \<noteq> None) \<and>
     (\<forall>l\<in>set labels2. ml_kind l = Mandatory \<longrightarrow> label_value labels1 (ml_key l) \<noteq> None)"
proof -
  have val: "label_value labels (ml_key l) = Some (ml_value l)" if "l \<in> set labels" "distinct (map ml_key labels)" for l labels
    using that by (induction labels) (auto simp: label_value_def)
  have ex: "label_value labels k = Some v \<Longrightarrow> \<exists>l\<in>set labels. ml_key l = k \<and> ml_value l = v" for labels k v
    by (auto simp: label_value_def TryFindLabelByKey_find find_Some_iff)
  have kind: "ml_kind l = Optional \<longleftrightarrow> ml_kind l \<noteq> Mandatory" for l :: MatchingLabel by (cases "ml_kind l") auto
  show ?thesis
    unfolding MatchLabels_iff matches_iff
    using val[OF _ assms(1)] val[OF _ assms(2)] ex[of labels1] ex[of labels2] kind
    by (fastforce split: option.splits)
qed

end
