(* ===== verification/Discovery_Store.thy ===== *)
theory Discovery_Store
  imports Label_Matching
begin

text \<open>
  The index of service discovery (core/service/SpecificDiscoveryStore.cpp): services and the handlers
  that look for them are filed by controller type and key (topic, function name or client), and there by
  their labels, so that only likely partners are told about each other. A handler is a value of a type
  parameter; the calls are recorded. The labels of a service are a string in its descriptor, which a YAML
  parser turns into a list; this parser is the parameter \<open>Deserialize\<close>.
\<close>

section \<open>State\<close>

type_synonym FilterType = "string \<times> string"

record 'h DiscoveryCluster =
  dc_nodes :: "ServiceDescriptor list"
  dc_handlers :: "'h list"

record 'h DiscoveryKeyNode =
  kn_labelMap :: "(FilterType \<times> 'h DiscoveryCluster) list"
  kn_notLabelMap :: "(string \<times> 'h DiscoveryCluster) list"
  kn_noLabelCluster :: "'h DiscoveryCluster"
  kn_allCluster :: "'h DiscoveryCluster"

type_synonym 'h SpecificDiscoveryStore = "(FilterType \<times> 'h DiscoveryKeyNode) list"

datatype event_type = ServiceCreated | ServiceRemoved

type_synonym 'h handler_call = "'h \<times> event_type \<times> ServiceDescriptor"

definition empty_cluster :: "'h DiscoveryCluster" where
  "empty_cluster = \<lparr>dc_nodes = [], dc_handlers = []\<rparr>"

definition empty_node :: "'h DiscoveryKeyNode" where
  "empty_node = \<lparr>kn_labelMap = [], kn_notLabelMap = [], kn_noLabelCluster = empty_cluster, kn_allCluster = empty_cluster\<rparr>"

text \<open>\<^verbatim>\<open>operator[]\<close> of an unordered map: the value, and the map with a default value for a new key.\<close>

definition at :: "'v \<Rightarrow> ('k \<times> 'v) list \<Rightarrow> 'k \<Rightarrow> 'v" where
  "at d m k = (case map_of m k of None \<Rightarrow> d | Some v \<Rightarrow> v)"

definition touch :: "'v \<Rightarrow> 'k \<Rightarrow> ('k \<times> 'v) list \<Rightarrow> ('k \<times> 'v) list" where
  "touch d k m = (if map_of m k = None then m @ [(k, d)] else m)"

definition label_at :: "'h DiscoveryKeyNode \<Rightarrow> FilterType \<Rightarrow> 'h DiscoveryCluster" where
  "label_at e = at empty_cluster (kn_labelMap e)"

definition not_label_at :: "'h DiscoveryKeyNode \<Rightarrow> string \<Rightarrow> 'h DiscoveryCluster" where
  "not_label_at e = at empty_cluster (kn_notLabelMap e)"

definition touch_label :: "FilterType \<Rightarrow> 'h DiscoveryKeyNode \<Rightarrow> 'h DiscoveryKeyNode" where
  "touch_label k e = e\<lparr>kn_labelMap := touch empty_cluster k (kn_labelMap e)\<rparr>"

definition touch_not_label :: "string \<Rightarrow> 'h DiscoveryKeyNode \<Rightarrow> 'h DiscoveryKeyNode" where
  "touch_not_label k e = e\<lparr>kn_notLabelMap := touch empty_cluster k (kn_notLabelMap e)\<rparr>"

section \<open>The label with the fewest candidates\<close>

text \<open>
  The loop that \<^verbatim>\<open>GetLabelWithMinimalHandlerSet\<close> and \<^verbatim>\<open>GetLabelWithMinimalNodeSet\<close> share; \<open>count\<close> is the number of
  handlers or of nodes of a cluster. The accesses by \<^verbatim>\<open>operator[]\<close> leave empty clusters behind.
\<close>

fun minimal_label :: "('h DiscoveryCluster \<Rightarrow> nat) \<Rightarrow> MatchingLabel list \<Rightarrow> nat \<Rightarrow> MatchingLabel option \<Rightarrow>
    'h DiscoveryKeyNode \<Rightarrow> MatchingLabel option \<times> 'h DiscoveryKeyNode" where
  "minimal_label count [] matchCount outGreedyLabel keyNode = (outGreedyLabel, keyNode)"
| "minimal_label count (l # labels) matchCount outGreedyLabel keyNode =
     (if matchCount \<le> 1 then (outGreedyLabel, keyNode)
      else let keyTuple = (ml_key l, ml_value l);
               keyNode = touch_label keyTuple keyNode;
               fit = count (label_at keyNode keyTuple);
               (relevantNodeCount, keyNode) =
                 (if ml_kind l = Mandatory then (fit, keyNode)
                  else let keyNode = touch_not_label (ml_key l) keyNode
                       in (fit + count (not_label_at keyNode (ml_key l)), keyNode))
           in if relevantNodeCount < matchCount
              then minimal_label count labels relevantNodeCount (Some l) keyNode
              else minimal_label count labels matchCount outGreedyLabel keyNode)"

definition GetLabelWithMinimalHandlerSet ::
    "'h DiscoveryKeyNode \<Rightarrow> MatchingLabel list \<Rightarrow> MatchingLabel option \<times> 'h DiscoveryKeyNode" where
  "GetLabelWithMinimalHandlerSet keyNode labels =
     minimal_label (length \<circ> dc_handlers) labels (length (dc_handlers (kn_allCluster keyNode))) None keyNode"

definition GetLabelWithMinimalNodeSet ::
    "'h DiscoveryKeyNode \<Rightarrow> MatchingLabel list \<Rightarrow> MatchingLabel option \<times> 'h DiscoveryKeyNode" where
  "GetLabelWithMinimalNodeSet keyNode labels =
     minimal_label (length \<circ> dc_nodes) labels (length (dc_nodes (kn_allCluster keyNode))) None keyNode"

text \<open>The candidates for the chosen label, in the order in which they are called or reported.\<close>

definition candidates :: "('h DiscoveryCluster \<Rightarrow> 'a list) \<Rightarrow> MatchingLabel option \<Rightarrow> 'h DiscoveryKeyNode \<Rightarrow> 'a list" where
  "candidates items greedyLabel entry = (case greedyLabel of
     None \<Rightarrow> items (kn_allCluster entry)
   | Some l \<Rightarrow>
       (if ml_kind l = Optional
        then items (not_label_at entry (ml_key l)) @ items (kn_noLabelCluster entry) else []) @
       items (label_at entry (ml_key l, ml_value l)))"

definition touch_chosen :: "MatchingLabel option \<Rightarrow> 'h DiscoveryKeyNode \<Rightarrow> 'h DiscoveryKeyNode" where
  "touch_chosen greedyLabel entry = (case greedyLabel of
     None \<Rightarrow> entry
   | Some l \<Rightarrow> touch_label (ml_key l, ml_value l)
       (if ml_kind l = Optional then touch_not_label (ml_key l) entry else entry))"

section \<open>Updates\<close>

definition update_label :: "('h DiscoveryCluster \<Rightarrow> 'h DiscoveryCluster) \<Rightarrow> FilterType \<Rightarrow>
    'h DiscoveryKeyNode \<Rightarrow> 'h DiscoveryKeyNode" where
  "update_label updater k e = e\<lparr>kn_labelMap := AList.update k (updater (label_at e k)) (kn_labelMap e)\<rparr>"

definition update_not_label :: "('h DiscoveryCluster \<Rightarrow> 'h DiscoveryCluster) \<Rightarrow> string \<Rightarrow>
    'h DiscoveryKeyNode \<Rightarrow> 'h DiscoveryKeyNode" where
  "update_not_label updater k e = e\<lparr>kn_notLabelMap := AList.update k (updater (not_label_at e k)) (kn_notLabelMap e)\<rparr>"

text \<open>First loop: every label is represented; a new key starts with everything filed so far.\<close>

definition represent :: "MatchingLabel \<Rightarrow> 'h DiscoveryKeyNode \<Rightarrow> 'h DiscoveryKeyNode" where
  "represent l entry =
     (let entry = touch_label (ml_key l, ml_value l) entry;
          firstTimeLabel = (map_of (kn_notLabelMap entry) (ml_key l) = None);
          entry = touch_not_label (ml_key l) entry
      in if firstTimeLabel
         then update_not_label (\<lambda>c. \<lparr>dc_nodes = dc_nodes c @ dc_nodes (kn_allCluster entry),
                dc_handlers = dc_handlers c @ dc_handlers (kn_allCluster entry)\<rparr>) (ml_key l) entry
         else entry)"

text \<open>Second loop, over the keys known to the entry.\<close>

definition file_under :: "('h DiscoveryCluster \<Rightarrow> 'h DiscoveryCluster) \<Rightarrow> MatchingLabel list \<Rightarrow> string \<Rightarrow>
    'h DiscoveryKeyNode \<Rightarrow> 'h DiscoveryKeyNode" where
  "file_under updater labels labelKey entry = (case TryFindLabelByKey labelKey labels of
     Some foundLabel \<Rightarrow> update_label updater (labelKey, ml_value foundLabel) entry
   | None \<Rightarrow> update_not_label updater labelKey entry)"

definition UpdateDiscoveryClusters ::
    "MatchingLabel list \<Rightarrow> ('h DiscoveryCluster \<Rightarrow> 'h DiscoveryCluster) \<Rightarrow> 'h DiscoveryKeyNode \<Rightarrow> 'h DiscoveryKeyNode" where
  "UpdateDiscoveryClusters labels updater entry =
     (let entry = entry\<lparr>kn_allCluster := updater (kn_allCluster entry)\<rparr>
      in if labels = [] then entry\<lparr>kn_noLabelCluster := updater (kn_noLabelCluster entry)\<rparr>
         else let entry = fold represent labels entry
              in fold (file_under updater labels) (map fst (kn_notLabelMap entry)) entry)"

definition add_node :: "ServiceDescriptor \<Rightarrow> 'h DiscoveryCluster \<Rightarrow> 'h DiscoveryCluster" where
  "add_node sd c = c\<lparr>dc_nodes := dc_nodes c @ [sd]\<rparr>"

definition add_handler :: "'h \<Rightarrow> 'h DiscoveryCluster \<Rightarrow> 'h DiscoveryCluster" where
  "add_handler h c = c\<lparr>dc_handlers := dc_handlers c @ [h]\<rparr>"

definition InsertLookupNode :: "MatchingLabel list \<Rightarrow> ServiceDescriptor \<Rightarrow> 'h DiscoveryKeyNode \<Rightarrow> 'h DiscoveryKeyNode" where
  "InsertLookupNode labels serviceDescriptor = UpdateDiscoveryClusters labels (add_node serviceDescriptor)"

definition InsertLookupHandler :: "MatchingLabel list \<Rightarrow> 'h \<Rightarrow> 'h DiscoveryKeyNode \<Rightarrow> 'h DiscoveryKeyNode" where
  "InsertLookupHandler labels handler = UpdateDiscoveryClusters labels (add_handler handler)"

text \<open>\<^verbatim>\<open>operator==\<close> of service descriptors compares four of their members.\<close>

definition same_service :: "ServiceDescriptor \<Rightarrow> ServiceDescriptor \<Rightarrow> bool" where
  "same_service a b \<longleftrightarrow> sd_participantId a = sd_participantId b \<and> sd_networkName a = sd_networkName b \<and>
     sd_serviceType a = sd_serviceType b \<and> sd_serviceId a = sd_serviceId b"

definition remove_node :: "ServiceDescriptor \<Rightarrow> 'h DiscoveryCluster \<Rightarrow> 'h DiscoveryCluster" where
  "remove_node sd c = c\<lparr>dc_nodes := filter (\<lambda>x. \<not> same_service x sd) (dc_nodes c)\<rparr>"

definition RemoveLookupNode :: "ServiceDescriptor \<Rightarrow> 'h DiscoveryKeyNode \<Rightarrow> 'h DiscoveryKeyNode" where
  "RemoveLookupNode sd entry =
     entry\<lparr>kn_allCluster := remove_node sd (kn_allCluster entry),
           kn_noLabelCluster := remove_node sd (kn_noLabelCluster entry),
           kn_notLabelMap := map (\<lambda>(k, c). (k, remove_node sd c)) (kn_notLabelMap entry),
           kn_labelMap := map (\<lambda>(k, c). (k, remove_node sd c)) (kn_labelMap entry)\<rparr>"

section \<open>The operations of one entry\<close>

definition CallHandlersOnServiceChange :: "event_type \<Rightarrow> MatchingLabel list \<Rightarrow> ServiceDescriptor \<Rightarrow>
    'h DiscoveryKeyNode \<Rightarrow> 'h handler_call list \<times> 'h DiscoveryKeyNode" where
  "CallHandlersOnServiceChange eventType labels serviceDescriptor entry =
     (let (greedyLabel, entry) = GetLabelWithMinimalHandlerSet entry labels
      in (map (\<lambda>handler. (handler, eventType, serviceDescriptor)) (candidates dc_handlers greedyLabel entry),
          touch_chosen greedyLabel entry))"

definition CallHandlerOnHandlerRegistration :: "'h \<Rightarrow> MatchingLabel list \<Rightarrow>
    'h DiscoveryKeyNode \<Rightarrow> 'h handler_call list \<times> 'h DiscoveryKeyNode" where
  "CallHandlerOnHandlerRegistration handler labels entry =
     (let (greedyLabel, entry) = GetLabelWithMinimalNodeSet entry labels
      in (map (\<lambda>serviceDescriptor. (handler, ServiceCreated, serviceDescriptor)) (candidates dc_nodes greedyLabel entry),
          touch_chosen greedyLabel entry))"

section \<open>The operations of the store\<close>

text \<open>
  \<^verbatim>\<open>_lookup[MakeFilter(controllerType, key)]\<close>: an operation of one entry, which is created when it is
  missing.
\<close>

definition with_entry :: "FilterType \<Rightarrow> ('h DiscoveryKeyNode \<Rightarrow> 'a \<times> 'h DiscoveryKeyNode) \<Rightarrow>
    'h SpecificDiscoveryStore \<Rightarrow> 'a \<times> 'h SpecificDiscoveryStore" where
  "with_entry k f lookup =
     (let (x, entry) = f (at empty_node lookup k) in (x, AList.update k entry lookup))"

definition data_item :: "ServiceDescriptor \<Rightarrow> string \<Rightarrow> string" where
  "data_item sd key = (case map_of (sd_supplementalData sd) key of None \<Rightarrow> [] | Some v \<Rightarrow> v)"

definition allowedControllers :: "string list" where
  "allowedControllers = [''DataPublisher'', ''RpcServerInternal'', ''RpcClient'']"

text \<open>The key and the labels of a service, by the type of its controller.\<close>

definition service_key :: "ServiceDescriptor \<Rightarrow> string \<Rightarrow> string" where
  "service_key sd controllerType =
     (if controllerType = ''RpcServerInternal'' then data_item sd ''Rpc::serverinternal::clientUUID''
      else if controllerType = ''RpcClient'' then data_item sd ''Rpc::client::functionName''
      else if controllerType = ''DataPublisher'' then data_item sd ''PubSub::topic''
      else [])"

definition service_labels :: "(string \<Rightarrow> MatchingLabel list) \<Rightarrow> ServiceDescriptor \<Rightarrow> string \<Rightarrow> MatchingLabel list" where
  "service_labels Deserialize sd controllerType =
     (let labels = (\<lambda>key. case map_of (sd_supplementalData sd) key of None \<Rightarrow> [] | Some s \<Rightarrow> Deserialize s)
      in if controllerType = ''RpcClient'' then labels ''Rpc::client::labels''
         else if controllerType = ''DataPublisher'' then labels ''PubSub::pubLabels''
         else [])"

definition ServiceChange :: "(string \<Rightarrow> MatchingLabel list) \<Rightarrow> event_type \<Rightarrow> ServiceDescriptor \<Rightarrow>
    'h SpecificDiscoveryStore \<Rightarrow> 'h handler_call list \<times> 'h SpecificDiscoveryStore" where
  "ServiceChange Deserialize changeType serviceDescriptor lookup =
     (case map_of (sd_supplementalData serviceDescriptor) ''controller.type'' of
        None \<Rightarrow> ([], lookup)
      | Some controllerType \<Rightarrow>
          (if controllerType \<notin> set allowedControllers then ([], lookup)
           else let key = service_key serviceDescriptor controllerType;
                    labels = service_labels Deserialize serviceDescriptor controllerType
                in with_entry (controllerType, key) (\<lambda>entry.
                     let (cs, entry) = CallHandlersOnServiceChange changeType labels serviceDescriptor entry
                     in (cs, case changeType of
                               ServiceCreated \<Rightarrow> InsertLookupNode labels serviceDescriptor entry
                             | ServiceRemoved \<Rightarrow> RemoveLookupNode serviceDescriptor entry)) lookup))"

definition store_RegisterSpecificServiceDiscoveryHandler :: "'h \<Rightarrow> string \<Rightarrow> string \<Rightarrow> MatchingLabel list \<Rightarrow>
    'h SpecificDiscoveryStore \<Rightarrow> 'h handler_call list \<times> 'h SpecificDiscoveryStore" where
  "store_RegisterSpecificServiceDiscoveryHandler handler controllerType key labels lookup =
     with_entry (controllerType, key) (\<lambda>entry.
       let (cs, entry) = CallHandlerOnHandlerRegistration handler labels entry
       in (cs, InsertLookupHandler labels handler entry)) lookup"

section \<open>Completeness of the index\<close>

definition known_keys :: "'h DiscoveryKeyNode \<Rightarrow> string set" where
  "known_keys e = fst ` set (kn_notLabelMap e)"

text \<open>
  Choosing a label has no effect on what is filed when there is nothing to choose from, or when the keys of
  the optional labels are known.
\<close>

definition safe_query :: "nat \<Rightarrow> MatchingLabel list \<Rightarrow> 'h DiscoveryKeyNode \<Rightarrow> bool" where
  "safe_query n query e \<longleftrightarrow> n \<le> 1 \<or> (\<forall>l\<in>set query. ml_kind l = Optional \<longrightarrow> ml_key l \<in> known_keys e)"

text \<open>
  Nodes and handlers are filed in the same way. \<open>items\<close> stands for one of the two lists of a cluster.
\<close>

locale cluster_items =
  fixes items :: "'h DiscoveryCluster \<Rightarrow> 'a list"
  assumes items_empty: "items empty_cluster = []"
    and items_join: "items \<lparr>dc_nodes = dc_nodes c @ dc_nodes d, dc_handlers = dc_handlers c @ dc_handlers d\<rparr> = items c @ items d"
begin

definition with_label :: "'h DiscoveryKeyNode \<Rightarrow> FilterType \<Rightarrow> 'a set" where
  "with_label e k = set (items (label_at e k))"

definition without_label :: "'h DiscoveryKeyNode \<Rightarrow> string \<Rightarrow> 'a set" where
  "without_label e k = set (items (not_label_at e k))"

definition everything :: "'h DiscoveryKeyNode \<Rightarrow> 'a set" where
  "everything e = set (items (kn_allCluster e))"

definition unlabelled :: "'h DiscoveryKeyNode \<Rightarrow> 'a set" where
  "unlabelled e = set (items (kn_noLabelCluster e))"

text \<open>The items \<open>A\<close>, given with their labels, can be found in the entry.\<close>

definition filed :: "('a \<times> MatchingLabel list) set \<Rightarrow> 'h DiscoveryKeyNode \<Rightarrow> bool" where
  "filed A e \<longleftrightarrow> (\<forall>(x, L)\<in>A. x \<in> everything e \<and> (L = [] \<longrightarrow> x \<in> unlabelled e) \<and>
     (\<forall>l\<in>set L. ml_key l \<in> known_keys e) \<and>
     (\<forall>k v. label_value L k = Some v \<longrightarrow> x \<in> with_label e (k, v)) \<and>
     (\<forall>k\<in>known_keys e. label_value L k = None \<longrightarrow> x \<in> without_label e k \<union> unlabelled e))"

text \<open>Every partner that matches is among the candidates for a label whose key is known, if it is optional.\<close>

lemma candidates_complete:
  assumes "filed A e" "(x, L) \<in> A" "MatchLabels query L"
    and "\<And>l. greedy = Some l \<Longrightarrow> l \<in> set query \<and> (ml_kind l = Optional \<longrightarrow> ml_key l \<in> known_keys e)"
  shows "x \<in> set (candidates items greedy e)"
proof (cases greedy)
  case None
  then show ?thesis using assms(1,2) by (auto simp: filed_def candidates_def everything_def)
next
  case (Some l)
  then have l: "l \<in> set query" "ml_kind l = Optional \<longrightarrow> ml_key l \<in> known_keys e" using assms(4) by auto
  from MatchLabels_value[OF assms(3) l(1)] show ?thesis
  proof
    assume "label_value L (ml_key l) = Some (ml_value l)"
    then have "x \<in> with_label e (ml_key l, ml_value l)" using assms(1,2) by (auto simp: filed_def)
    then show ?thesis by (simp add: Some candidates_def with_label_def)
  next
    assume "ml_kind l = Optional \<and> label_value L (ml_key l) = None"
    then have "x \<in> without_label e (ml_key l) \<union> unlabelled e" "ml_kind l = Optional"
      using assms(1,2) l(2) by (fastforce simp: filed_def)+
    then show ?thesis by (auto simp: Some candidates_def without_label_def unlabelled_def)
  qed
qed

lemma touch_label_items [simp]:
  "with_label (touch_label k e) = with_label e" "without_label (touch_label k e) = without_label e"
  "everything (touch_label k e) = everything e" "unlabelled (touch_label k e) = unlabelled e"
  "known_keys (touch_label k e) = known_keys e"
proof -
  have "label_at (touch_label k e) k' = label_at e k'" for k'
    by (simp add: label_at_def touch_label_def at_def touch_def map_add_def split: option.split)
  then show "with_label (touch_label k e) = with_label e" by (simp add: with_label_def fun_eq_iff)
qed (simp_all add: touch_label_def known_keys_def without_label_def not_label_at_def everything_def unlabelled_def fun_eq_iff)

lemma touch_not_label_items [simp]:
  "with_label (touch_not_label k e) = with_label e" "without_label (touch_not_label k e) = without_label e"
  "everything (touch_not_label k e) = everything e" "unlabelled (touch_not_label k e) = unlabelled e"
  "known_keys (touch_not_label k e) = insert k (known_keys e)"
proof -
  have "not_label_at (touch_not_label k e) k' = not_label_at e k'" for k'
    by (simp add: not_label_at_def touch_not_label_def at_def touch_def map_add_def split: option.split)
  then show "without_label (touch_not_label k e) = without_label e" by (simp add: without_label_def fun_eq_iff)
  show "known_keys (touch_not_label k e) = insert k (known_keys e)"
    by (auto simp: known_keys_def touch_not_label_def touch_def map_of_eq_None_iff)
qed (simp_all add: touch_not_label_def with_label_def label_at_def everything_def unlabelled_def fun_eq_iff)

lemma filed_touch_label [simp]: "filed A (touch_label k e) = filed A e"
  by (simp add: filed_def)

lemma touch_known [simp]: "k \<in> known_keys e \<Longrightarrow> touch_not_label k e = e"
  by (cases e) (auto simp: known_keys_def touch_not_label_def touch_def map_of_eq_None_iff)

lemma update_label_items:
  assumes "set (items (updater c)) = set (items c) \<union> X" "c = label_at e k"
  shows "with_label (update_label updater k e) = (with_label e)(k := with_label e k \<union> X)"
    "without_label (update_label updater k e) = without_label e" "everything (update_label updater k e) = everything e"
    "unlabelled (update_label updater k e) = unlabelled e" "known_keys (update_label updater k e) = known_keys e"
  using assms by (auto simp: update_label_def with_label_def label_at_def at_def update_conv' without_label_def
      not_label_at_def everything_def unlabelled_def known_keys_def fun_eq_iff split: option.splits)

lemma update_not_label_items:
  assumes "set (items (updater c)) = set (items c) \<union> X" "c = not_label_at e k"
  shows "without_label (update_not_label updater k e) = (without_label e)(k := without_label e k \<union> X)"
    "with_label (update_not_label updater k e) = with_label e" "everything (update_not_label updater k e) = everything e"
    "unlabelled (update_not_label updater k e) = unlabelled e"
    "known_keys (update_not_label updater k e) = insert k (known_keys e)"
  using assms by (auto simp: update_not_label_def with_label_def label_at_def at_def update_conv' without_label_def
      not_label_at_def everything_def unlabelled_def known_keys_def fun_eq_iff dom_update split: option.splits)

text \<open>The first loop of an update.\<close>

lemma represent_items:
  "with_label (represent l e) = with_label e" "everything (represent l e) = everything e"
  "unlabelled (represent l e) = unlabelled e"
  "known_keys (represent l e) = insert (ml_key l) (known_keys e)"
  "without_label (represent l e) k = without_label e k \<union>
     (if k = ml_key l \<and> k \<notin> known_keys e then everything e else {})"
proof -
  let ?e = "touch_not_label (ml_key l) (touch_label (ml_key l, ml_value l) e)"
  let ?u = "\<lambda>c. \<lparr>dc_nodes = dc_nodes c @ dc_nodes (kn_allCluster ?e), dc_handlers = dc_handlers c @ dc_handlers (kn_allCluster ?e)\<rparr>"
  have u: "set (items (?u c)) = set (items c) \<union> everything ?e" for c
    by (simp add: items_join everything_def)
  note upd = update_not_label_items[where updater = ?u, OF u refl, of "ml_key l" ?e]
  have e: "represent l e = (if ml_key l \<in> known_keys e then ?e else update_not_label ?u (ml_key l) ?e)"
    by (simp add: represent_def Let_def map_of_eq_None_iff known_keys_def touch_label_def)
  show "with_label (represent l e) = with_label e" "everything (represent l e) = everything e"
    "unlabelled (represent l e) = unlabelled e"
    "known_keys (represent l e) = insert (ml_key l) (known_keys e)"
    "without_label (represent l e) k = without_label e k \<union>
     (if k = ml_key l \<and> k \<notin> known_keys e then everything e else {})"
    unfolding e by (auto simp: upd simp del: touch_known)
qed

lemma represents_items:
  "with_label (fold represent L e) = with_label e" "everything (fold represent L e) = everything e"
  "unlabelled (fold represent L e) = unlabelled e"
  "known_keys (fold represent L e) = known_keys e \<union> ml_key ` set L"
  "without_label (fold represent L e) k = without_label e k \<union>
     (if k \<in> ml_key ` set L \<and> k \<notin> known_keys e then everything e else {})"
  by (induction L arbitrary: e) (auto simp: represent_items)

lemma file_under_items:
  assumes updater: "\<And>c. set (items (updater c)) = set (items c) \<union> X"
  shows "everything (file_under updater L k e) = everything e" "unlabelled (file_under updater L k e) = unlabelled e"
  "k \<in> known_keys e \<Longrightarrow> known_keys (file_under updater L k e) = known_keys e"
  "with_label (file_under updater L k e) (k', v) = with_label e (k', v) \<union> (if k' = k \<and> label_value L k = Some v then X else {})"
  "without_label (file_under updater L k e) k' = without_label e k' \<union> (if k' = k \<and> label_value L k = None then X else {})"
  by (auto simp: file_under_def update_label_items[where updater = updater, OF updater refl]
      update_not_label_items[where updater = updater, OF updater refl] label_value_def split: option.splits)

lemma files_under_items:
  assumes updater: "\<And>c. set (items (updater c)) = set (items c) \<union> X" and "set ks \<subseteq> known_keys e"
  shows "everything (fold (file_under updater L) ks e) = everything e"
    "unlabelled (fold (file_under updater L) ks e) = unlabelled e"
    "known_keys (fold (file_under updater L) ks e) = known_keys e"
    "with_label (fold (file_under updater L) ks e) (k, v) = with_label e (k, v) \<union>
       (if k \<in> set ks \<and> label_value L k = Some v then X else {})"
    "without_label (fold (file_under updater L) ks e) k = without_label e k \<union>
       (if k \<in> set ks \<and> label_value L k = None then X else {})"
  using assms(2) by (induction ks arbitrary: e) (auto simp: file_under_items[OF updater])

text \<open>An update files the new items and keeps the others.\<close>

lemma UpdateDiscoveryClusters_filed:
  assumes updater: "\<And>c. set (items (updater c)) = set (items c) \<union> X" and A: "filed A e"
  shows "filed (A \<union> X \<times> {L}) (UpdateDiscoveryClusters L updater e)"
proof -
  let ?e = "e\<lparr>kn_allCluster := updater (kn_allCluster e)\<rparr>"
  have e: "with_label ?e = with_label e" "without_label ?e = without_label e" "unlabelled ?e = unlabelled e"
      "known_keys ?e = known_keys e" "everything ?e = everything e \<union> X"
    by (simp_all add: with_label_def label_at_def without_label_def not_label_at_def unlabelled_def known_keys_def
        everything_def updater fun_eq_iff)
  show ?thesis
  proof (cases "L = []")
    case True
    let ?f = "?e\<lparr>kn_noLabelCluster := updater (kn_noLabelCluster ?e)\<rparr>"
    have "with_label ?f = with_label e" "without_label ?f = without_label e" "unlabelled ?f = unlabelled e \<union> X"
        "known_keys ?f = known_keys e" "everything ?f = everything e \<union> X"
      by (simp_all add: with_label_def label_at_def without_label_def not_label_at_def unlabelled_def known_keys_def
        everything_def updater fun_eq_iff)
    then show ?thesis using A True
      by (auto simp: UpdateDiscoveryClusters_def filed_def label_value_def Let_def)
  next
    case False
    let ?r = "fold represent L ?e"
    let ?ks = "map fst (kn_notLabelMap ?r)"
    have ks: "set ?ks = known_keys ?r" by (simp add: known_keys_def)
    note f = files_under_items[of updater X ?ks ?r L, OF updater, unfolded ks, OF subset_refl] represents_items[of L ?e] e
    have out: "k \<in> ml_key ` set L" if "label_value L k = Some v" for k v
      using that label_value_None[of L k] by force
    show ?thesis
      using A False out
      by (auto simp: UpdateDiscoveryClusters_def Let_def filed_def f label_value_None)
  qed
qed

text \<open>Nothing else is filed.\<close>

definition only :: "'a set \<Rightarrow> 'h DiscoveryKeyNode \<Rightarrow> bool" where
  "only B e \<longleftrightarrow> everything e \<subseteq> B \<and> unlabelled e \<subseteq> B \<and> (\<forall>k v. with_label e (k, v) \<subseteq> B) \<and> (\<forall>k. without_label e k \<subseteq> B)"

lemma candidates_only: "only B e \<Longrightarrow> set (candidates items greedy e) \<subseteq> B"
  by (auto simp: only_def candidates_def everything_def unlabelled_def with_label_def without_label_def split: option.splits if_splits)

lemma only_touch [simp]: "only B (touch_label k e) = only B e" "only B (touch_not_label k' e) = only B e"
  by (simp_all add: only_def)

lemma UpdateDiscoveryClusters_only:
  assumes updater: "\<And>c. set (items (updater c)) = set (items c) \<union> X" and "only B e"
  shows "only (B \<union> X) (UpdateDiscoveryClusters L updater e)"
proof -
  let ?e = "e\<lparr>kn_allCluster := updater (kn_allCluster e)\<rparr>"
  let ?f = "?e\<lparr>kn_noLabelCluster := updater (kn_noLabelCluster ?e)\<rparr>"
  have eqs: "with_label ?e = with_label e" "without_label ?e = without_label e" "unlabelled ?e = unlabelled e"
      "everything ?e = everything e \<union> X" "with_label ?f = with_label e" "without_label ?f = without_label e"
      "unlabelled ?f = unlabelled e \<union> X" "everything ?f = everything e \<union> X"
    by (simp_all add: with_label_def label_at_def without_label_def not_label_at_def unlabelled_def everything_def
        updater fun_eq_iff)
  have e: "only (B \<union> X) ?e" and f: "only (B \<union> X) ?f"
    using assms(2) unfolding only_def eqs by blast+
  let ?r = "fold represent L ?e"
  have r: "only (B \<union> X) ?r" using e by (auto simp: only_def represents_items)
  have ks: "set (map fst (kn_notLabelMap ?r)) \<subseteq> known_keys ?r" by (simp add: known_keys_def)
  have "only (B \<union> X) (fold (file_under updater L) (map fst (kn_notLabelMap ?r)) ?r)"
    using r unfolding only_def files_under_items[OF updater ks] by auto
  with f show ?thesis by (simp add: UpdateDiscoveryClusters_def Let_def)
qed

lemma minimal_label_safe:
  assumes "minimal_label count query n g e = (g', e')" "safe_query n query e"
  shows "filed A e' = filed A e \<and> only B e' = only B e \<and> known_keys e' = known_keys e \<and>
     (g' = g \<or> (\<exists>l\<in>set query. g' = Some l \<and> (ml_kind l = Optional \<longrightarrow> ml_key l \<in> known_keys e)))"
  using assms
proof (induction query arbitrary: n g e)
  case (Cons l labels)
  show ?case
  proof (cases "n \<le> 1")
    case False
    define k where "k = (ml_key l, ml_value l)"
    let ?e = "touch_label k e"
    have known: "\<forall>l\<in>set (l # labels). ml_kind l = Optional \<longrightarrow> ml_key l \<in> known_keys e"
      using Cons.prems(2) False by (auto simp: safe_query_def)
    then have same: "ml_kind l \<noteq> Mandatory \<Longrightarrow> touch_not_label (ml_key l) ?e = ?e"
      by (cases "ml_kind l") simp_all
    define m where "m = (if ml_kind l = Mandatory then count (label_at ?e k)
      else count (label_at ?e k) + count (not_label_at ?e (ml_key l)))"
    have "minimal_label count labels (if m < n then m else n) (if m < n then Some l else g) ?e = (g', e')"
      using Cons.prems(1) False same by (auto simp: m_def k_def Let_def)
    moreover have "safe_query n' labels ?e" for n' using known by (simp add: safe_query_def)
    ultimately show ?thesis using Cons.IH[of _ _ ?e] known by (cases "m < n") auto
  qed (use Cons.prems in auto)
qed simp

text \<open>The two uses of the choice.\<close>

lemma query_complete:
  assumes "minimal_label count query n None e = (g, e')" "safe_query n query e" "filed A e"
    and "(x, L) \<in> A" "MatchLabels query L"
  shows "x \<in> set (candidates items g e')"
proof -
  note safe = minimal_label_safe[OF assms(1,2)]
  show ?thesis
    by (rule candidates_complete[of A e' x L query]) (use safe assms in auto)
qed

lemma query_keeps:
  assumes "minimal_label count query n None e = (g, e')" "safe_query n query e"
  shows "filed A (touch_chosen g e') = filed A e" "only B (touch_chosen g e') = only B e"
proof -
  note safe = minimal_label_safe[OF assms]
  have "filed A (touch_chosen g e') = filed A e' \<and> only B (touch_chosen g e') = only B e'"
    using safe by (auto simp: touch_chosen_def split: option.split)
  with safe show "filed A (touch_chosen g e') = filed A e" "only B (touch_chosen g e') = only B e" by auto
qed

end

interpretation nodes: cluster_items dc_nodes
  by unfold_locales (simp_all add: empty_cluster_def)

interpretation handlers: cluster_items dc_handlers
  by unfold_locales (simp_all add: empty_cluster_def)

section \<open>Operations keep the index\<close>

definition entry_ok :: "(ServiceDescriptor \<times> MatchingLabel list) set \<Rightarrow> ('h \<times> MatchingLabel list) set \<Rightarrow>
    'h DiscoveryKeyNode \<Rightarrow> bool" where
  "entry_ok S R e \<longleftrightarrow> nodes.filed S e \<and> nodes.only (fst ` S) e \<and> handlers.filed R e \<and> handlers.only (fst ` R) e"

lemma entry_ok_empty: "entry_ok {} {} empty_node"
  by (simp add: entry_ok_def nodes.filed_def handlers.filed_def nodes.only_def handlers.only_def empty_node_def
      nodes.everything_def nodes.unlabelled_def nodes.with_label_def nodes.without_label_def label_at_def not_label_at_def
      handlers.everything_def handlers.unlabelled_def handlers.with_label_def handlers.without_label_def at_def empty_cluster_def)

lemma InsertLookupNode_ok:
  assumes "entry_ok S R e"
  shows "entry_ok (insert (sd, L) S) R (InsertLookupNode L sd e)"
proof -
  have n: "set (dc_nodes (add_node sd c)) = set (dc_nodes c) \<union> {sd}"
    and h: "set (dc_handlers (add_node sd c)) = set (dc_handlers c) \<union> {}" for c :: "'a DiscoveryCluster"
    by (simp_all add: add_node_def)
  show ?thesis
    using assms nodes.UpdateDiscoveryClusters_filed[of "add_node sd" "{sd}" S e L, OF n]
      nodes.UpdateDiscoveryClusters_only[of "add_node sd" "{sd}" "fst ` S" e L, OF n]
      handlers.UpdateDiscoveryClusters_filed[of "add_node sd" "{}" R e L, OF h]
      handlers.UpdateDiscoveryClusters_only[of "add_node sd" "{}" "fst ` R" e L, OF h]
    by (simp add: entry_ok_def InsertLookupNode_def insert_commute)
qed

lemma InsertLookupHandler_ok:
  assumes "entry_ok S R e"
  shows "entry_ok S (insert (h, L) R) (InsertLookupHandler L h e)"
proof -
  have n: "set (dc_nodes (add_handler h c)) = set (dc_nodes c) \<union> {}"
    and h: "set (dc_handlers (add_handler h c)) = set (dc_handlers c) \<union> {h}" for c
    by (simp_all add: add_handler_def)
  show ?thesis
    using assms nodes.UpdateDiscoveryClusters_filed[of "add_handler h" "{}" S e L, OF n]
      nodes.UpdateDiscoveryClusters_only[of "add_handler h" "{}" "fst ` S" e L, OF n]
      handlers.UpdateDiscoveryClusters_filed[of "add_handler h" "{h}" R e L, OF h]
      handlers.UpdateDiscoveryClusters_only[of "add_handler h" "{h}" "fst ` R" e L, OF h]
    by (simp add: entry_ok_def InsertLookupHandler_def)
qed

lemma RemoveLookupNode_ok:
  assumes "entry_ok S R e"
  shows "entry_ok {(x, L) \<in> S. \<not> same_service x sd} R (RemoveLookupNode sd e)"
proof -
  let ?e = "RemoveLookupNode sd e"
  have empty: "remove_node sd empty_cluster = empty_cluster" by (simp add: remove_node_def empty_cluster_def)
  have la: "label_at ?e k = remove_node sd (label_at e k)" and na: "not_label_at ?e k' = remove_node sd (not_label_at e k')" for k k'
    by (simp_all add: label_at_def not_label_at_def RemoveLookupNode_def at_def map_of_map empty split: option.split)
  have keys: "known_keys ?e = known_keys e" by (force simp: known_keys_def RemoveLookupNode_def)
  have n: "set (dc_nodes (remove_node sd c)) = {x \<in> set (dc_nodes c). \<not> same_service x sd}"
    and h: "set (dc_handlers (remove_node sd c)) = set (dc_handlers c)" for c :: "'a DiscoveryCluster"
    by (auto simp: remove_node_def)
  have N: "nodes.with_label ?e k = {x \<in> nodes.with_label e k. \<not> same_service x sd}"
      "nodes.without_label ?e k' = {x \<in> nodes.without_label e k'. \<not> same_service x sd}"
      "nodes.everything ?e = {x \<in> nodes.everything e. \<not> same_service x sd}"
      "nodes.unlabelled ?e = {x \<in> nodes.unlabelled e. \<not> same_service x sd}" for k k'
    unfolding nodes.with_label_def nodes.without_label_def nodes.everything_def nodes.unlabelled_def la na
    by (simp_all add: n RemoveLookupNode_def)
  have H: "handlers.with_label ?e = handlers.with_label e" "handlers.without_label ?e = handlers.without_label e"
      "handlers.everything ?e = handlers.everything e" "handlers.unlabelled ?e = handlers.unlabelled e"
    unfolding handlers.with_label_def handlers.without_label_def handlers.everything_def handlers.unlabelled_def la na h fun_eq_iff
    by (simp_all add: h RemoveLookupNode_def)
  have "nodes.filed {(x, L) \<in> S. \<not> same_service x sd} ?e"
    using assms unfolding entry_ok_def nodes.filed_def N keys by fastforce
  moreover have "nodes.only (fst ` {(x, L) \<in> S. \<not> same_service x sd}) ?e"
  proof -
    have "fst ` {(x, L) \<in> S. \<not> same_service x sd} = {x \<in> fst ` S. \<not> same_service x sd}" by force
    then show ?thesis using assms unfolding entry_ok_def nodes.only_def N by blast
  qed
  ultimately show ?thesis
    using assms unfolding entry_ok_def handlers.filed_def handlers.only_def H keys by blast
qed

section \<open>The store as a whole\<close>

text \<open>Where a service is filed, if at all, and with which labels.\<close>

definition filter_of :: "ServiceDescriptor \<Rightarrow> FilterType option" where
  "filter_of sd = (case map_of (sd_supplementalData sd) ''controller.type'' of
     None \<Rightarrow> None
   | Some controllerType \<Rightarrow>
       (if controllerType \<in> set allowedControllers then Some (controllerType, service_key sd controllerType) else None))"

definition labels_of :: "(string \<Rightarrow> MatchingLabel list) \<Rightarrow> ServiceDescriptor \<Rightarrow> MatchingLabel list" where
  "labels_of Deserialize sd = service_labels Deserialize sd (data_item sd ''controller.type'')"

datatype 'h store_op = Change event_type ServiceDescriptor | Register 'h string string "MatchingLabel list"

fun store_step :: "(string \<Rightarrow> MatchingLabel list) \<Rightarrow> 'h store_op \<Rightarrow> 'h SpecificDiscoveryStore \<Rightarrow>
    'h handler_call list \<times> 'h SpecificDiscoveryStore" where
  "store_step Deserialize (Change changeType sd) lookup = ServiceChange Deserialize changeType sd lookup"
| "store_step Deserialize (Register handler controllerType key labels) lookup =
     store_RegisterSpecificServiceDiscoveryHandler handler controllerType key labels lookup"

text \<open>The reference: the services that exist and the handlers that were registered, without any index.\<close>

fun live_services :: "'h store_op list \<Rightarrow> ServiceDescriptor list" where
  "live_services [] = []"
| "live_services (Change ServiceCreated sd # ops) = sd # live_services ops"
| "live_services (Change ServiceRemoved sd # ops) =
     filter (\<lambda>x. \<not> (filter_of x = filter_of sd \<and> same_service x sd)) (live_services ops)"
| "live_services (Register h c k L # ops) = live_services ops"

fun registrations :: "'h store_op list \<Rightarrow> ('h \<times> FilterType \<times> MatchingLabel list) list" where
  "registrations [] = []"
| "registrations (Change t sd # ops) = registrations ops"
| "registrations (Register h c k L # ops) = (h, (c, k), L) # registrations ops"

text \<open>The latest operation comes first in a history.\<close>

fun store_after :: "(string \<Rightarrow> MatchingLabel list) \<Rightarrow> 'h store_op list \<Rightarrow> 'h SpecificDiscoveryStore" where
  "store_after Deserialize [] = []"
| "store_after Deserialize (op # ops) = snd (store_step Deserialize op (store_after Deserialize ops))"

fun safe_op :: "(string \<Rightarrow> MatchingLabel list) \<Rightarrow> 'h store_op \<Rightarrow> 'h SpecificDiscoveryStore \<Rightarrow> bool" where
  "safe_op Deserialize (Change t sd) lookup = (case filter_of sd of None \<Rightarrow> True | Some f \<Rightarrow>
     safe_query (length (dc_handlers (kn_allCluster (at empty_node lookup f)))) (labels_of Deserialize sd) (at empty_node lookup f))"
| "safe_op Deserialize (Register h c k L) lookup =
     safe_query (length (dc_nodes (kn_allCluster (at empty_node lookup (c, k))))) L (at empty_node lookup (c, k))"

fun safe_history :: "(string \<Rightarrow> MatchingLabel list) \<Rightarrow> 'h store_op list \<Rightarrow> bool" where
  "safe_history Deserialize [] = True"
| "safe_history Deserialize (op # ops) \<longleftrightarrow> safe_op Deserialize op (store_after Deserialize ops) \<and> safe_history Deserialize ops"

definition services_at :: "(string \<Rightarrow> MatchingLabel list) \<Rightarrow> 'h store_op list \<Rightarrow> FilterType \<Rightarrow> (ServiceDescriptor \<times> MatchingLabel list) set" where
  "services_at Deserialize ops f = {(sd, labels_of Deserialize sd) | sd. sd \<in> set (live_services ops) \<and> filter_of sd = Some f}"

definition handlers_at :: "'h store_op list \<Rightarrow> FilterType \<Rightarrow> ('h \<times> MatchingLabel list) set" where
  "handlers_at ops f = {(h, L). (h, f, L) \<in> set (registrations ops)}"

lemma at_update: "at d (AList.update k v m) k' = (if k' = k then v else at d m k')"
  by (simp add: at_def update_conv')

lemma ServiceChange_eq:
  "ServiceChange Deserialize t sd lookup = (case filter_of sd of None \<Rightarrow> ([], lookup) | Some f \<Rightarrow>
     with_entry f (\<lambda>entry.
       let (cs, entry) = CallHandlersOnServiceChange t (labels_of Deserialize sd) sd entry
       in (cs, case t of ServiceCreated \<Rightarrow> InsertLookupNode (labels_of Deserialize sd) sd entry
                       | ServiceRemoved \<Rightarrow> RemoveLookupNode sd entry)) lookup)"
proof (cases "map_of (sd_supplementalData sd) ''controller.type''")
  case (Some c)
  then have l: "labels_of Deserialize sd = service_labels Deserialize sd c" by (simp add: labels_of_def data_item_def)
  from Some show ?thesis unfolding l by (simp add: ServiceChange_def filter_of_def Let_def)
qed (simp add: ServiceChange_def filter_of_def)

text \<open>A change of a service at its entry, and the registration of a handler at its entry.\<close>

lemma CallHandlersOnServiceChange_ok:
  assumes "CallHandlersOnServiceChange t L sd e = (cs, e')" "entry_ok S R e"
    and "safe_query (length (dc_handlers (kn_allCluster e))) L e"
  shows "entry_ok S R e'" "set cs \<subseteq> {(h, t, sd) | h. h \<in> fst ` R}"
    "(h, M) \<in> R \<Longrightarrow> MatchLabels L M \<Longrightarrow> (h, t, sd) \<in> set cs"
proof -
  obtain g e1 where q: "minimal_label (length \<circ> dc_handlers) L (length (dc_handlers (kn_allCluster e))) None e = (g, e1)"
    by fastforce
  then have r: "cs = map (\<lambda>h. (h, t, sd)) (candidates dc_handlers g e1)" "e' = touch_chosen g e1"
    using assms(1) by (simp_all add: CallHandlersOnServiceChange_def GetLabelWithMinimalHandlerSet_def)
  show "entry_ok S R e'"
    using assms(2) nodes.query_keeps[OF q assms(3)] handlers.query_keeps[OF q assms(3)] by (simp add: entry_ok_def r)
  have "handlers.only (fst ` R) e1"
    using assms(2) handlers.minimal_label_safe[OF q assms(3)] by (auto simp: entry_ok_def)
  then show "set cs \<subseteq> {(h, t, sd) | h. h \<in> fst ` R}"
    using handlers.candidates_only by (fastforce simp: r)
  show "(h, t, sd) \<in> set cs" if "(h, M) \<in> R" "MatchLabels L M"
    using handlers.query_complete[OF q assms(3) _ that] assms(2) by (auto simp: r entry_ok_def)
qed

lemma CallHandlerOnHandlerRegistration_ok:
  assumes "CallHandlerOnHandlerRegistration h L e = (cs, e')" "entry_ok S R e"
    and "safe_query (length (dc_nodes (kn_allCluster e))) L e"
  shows "entry_ok S R e'" "set cs \<subseteq> {(h, ServiceCreated, sd) | sd. sd \<in> fst ` S}"
    "(sd, M) \<in> S \<Longrightarrow> MatchLabels L M \<Longrightarrow> (h, ServiceCreated, sd) \<in> set cs"
proof -
  obtain g e1 where q: "minimal_label (length \<circ> dc_nodes) L (length (dc_nodes (kn_allCluster e))) None e = (g, e1)"
    by fastforce
  then have r: "cs = map (\<lambda>sd. (h, ServiceCreated, sd)) (candidates dc_nodes g e1)" "e' = touch_chosen g e1"
    using assms(1) by (simp_all add: CallHandlerOnHandlerRegistration_def GetLabelWithMinimalNodeSet_def)
  show "entry_ok S R e'"
    using assms(2) nodes.query_keeps[OF q assms(3)] handlers.query_keeps[OF q assms(3)] by (simp add: entry_ok_def r)
  have "nodes.only (fst ` S) e1"
    using assms(2) nodes.minimal_label_safe[OF q assms(3)] by (auto simp: entry_ok_def)
  then show "set cs \<subseteq> {(h, ServiceCreated, sd) | sd. sd \<in> fst ` S}"
    using nodes.candidates_only by (fastforce simp: r)
  show "(h, ServiceCreated, sd) \<in> set cs" if "(sd, M) \<in> S" "MatchLabels L M"
    using nodes.query_complete[OF q assms(3) _ that] assms(2) by (auto simp: r entry_ok_def)
qed

lemma store_ok:
  "safe_history Deserialize ops \<Longrightarrow>
     entry_ok (services_at Deserialize ops f) (handlers_at ops f) (at empty_node (store_after Deserialize ops) f)"
proof (induction ops arbitrary: f)
  case Nil
  then show ?case using entry_ok_empty by (simp add: services_at_def handlers_at_def at_def)
next
  case (Cons op ops)
  let ?s = "store_after Deserialize ops"
  have ih: "entry_ok (services_at Deserialize ops f) (handlers_at ops f) (at empty_node ?s f)" for f
    using Cons by simp
  have safe: "safe_op Deserialize op ?s" using Cons.prems by simp
  show ?case
  proof (cases op)
    case (Change t sd)
    show ?thesis
    proof (cases "filter_of sd")
      case None
      then have "services_at Deserialize (op # ops) f = services_at Deserialize ops f"
        by (cases t) (auto simp: Change services_at_def)
      then show ?thesis using ih[of f] None by (simp add: Change ServiceChange_eq handlers_at_def)
    next
      case (Some f0)
      obtain cs e1 where c: "CallHandlersOnServiceChange t (labels_of Deserialize sd) sd (at empty_node ?s f0) = (cs, e1)"
        by fastforce
      have e1: "entry_ok (services_at Deserialize ops f0) (handlers_at ops f0) e1"
        by (rule CallHandlersOnServiceChange_ok(1)[OF c ih]) (use safe Change Some in simp)
      have S: "services_at Deserialize (op # ops) f = (if f = f0 then (case t of
          ServiceCreated \<Rightarrow> insert (sd, labels_of Deserialize sd) (services_at Deserialize ops f0)
        | ServiceRemoved \<Rightarrow> {(x, L) \<in> services_at Deserialize ops f0. \<not> same_service x sd}) else services_at Deserialize ops f)"
        using Some by (cases t) (auto simp: Change services_at_def)
      have H: "handlers_at (op # ops) f = handlers_at ops f" by (simp add: Change handlers_at_def)
      show ?thesis unfolding S H
        using e1 ih[of f] InsertLookupNode_ok[OF e1] RemoveLookupNode_ok[OF e1] Some c
        by (cases t) (simp_all add: Change ServiceChange_eq with_entry_def at_update)
    qed
  next
    case (Register h c k L)
    obtain cs e1 where q: "CallHandlerOnHandlerRegistration h L (at empty_node ?s (c, k)) = (cs, e1)" by fastforce
    have e1: "entry_ok (services_at Deserialize ops (c, k)) (handlers_at ops (c, k)) e1"
      by (rule CallHandlerOnHandlerRegistration_ok(1)[OF q ih]) (use safe Register in simp)
    have S: "services_at Deserialize (op # ops) f = services_at Deserialize ops f" by (simp add: Register services_at_def)
    have H: "handlers_at (op # ops) f = (if f = (c, k) then insert (h, L) (handlers_at ops f) else handlers_at ops f)"
      by (auto simp: Register handlers_at_def)
    show ?thesis unfolding S H
      using ih[of f] InsertLookupHandler_ok[OF e1] q
      by (simp add: Register store_RegisterSpecificServiceDiscoveryHandler_def with_entry_def at_update)
  qed
qed

lemma change_calls:
  assumes "safe_history Deserialize (Change t sd # ops)" "cs = fst (ServiceChange Deserialize t sd (store_after Deserialize ops))"
  shows "\<forall>(h, f, L)\<in>set (registrations ops). filter_of sd = Some f \<and> MatchLabels (labels_of Deserialize sd) L \<longrightarrow> (h, t, sd) \<in> set cs"
    "\<forall>(h, t', sd')\<in>set cs. t' = t \<and> sd' = sd \<and> (\<exists>f L. filter_of sd = Some f \<and> (h, f, L) \<in> set (registrations ops))"
proof (atomize (full), cases "filter_of sd")
  case None
  then show "(\<forall>(h, f, L)\<in>set (registrations ops). filter_of sd = Some f \<and> MatchLabels (labels_of Deserialize sd) L \<longrightarrow> (h, t, sd) \<in> set cs) \<and>
      (\<forall>(h, t', sd')\<in>set cs. t' = t \<and> sd' = sd \<and> (\<exists>f L. filter_of sd = Some f \<and> (h, f, L) \<in> set (registrations ops)))"
    using assms(2) by (simp add: ServiceChange_eq)
next
  case (Some f)
  let ?e = "at empty_node (store_after Deserialize ops) f"
  obtain cs' e1 where c: "CallHandlersOnServiceChange t (labels_of Deserialize sd) sd ?e = (cs', e1)" by fastforce
  then have cs: "cs = cs'" using assms(2) Some by (simp add: ServiceChange_eq with_entry_def Let_def)
  have "entry_ok (services_at Deserialize ops f) (handlers_at ops f) ?e" by (rule store_ok) (use assms(1) in simp)
  note ok = CallHandlersOnServiceChange_ok[OF c this]
  have "safe_query (length (dc_handlers (kn_allCluster ?e))) (labels_of Deserialize sd) ?e"
    using assms(1) Some by simp
  note ok = ok(2)[OF this] ok(3)[OF this]
  have "\<forall>(h, f', L)\<in>set (registrations ops). filter_of sd = Some f' \<and> MatchLabels (labels_of Deserialize sd) L \<longrightarrow> (h, t, sd) \<in> set cs'"
    using ok(2) by (auto simp: handlers_at_def Some)
  moreover have "\<forall>(h, t', sd')\<in>set cs'. t' = t \<and> sd' = sd \<and> (\<exists>L. (h, f, L) \<in> set (registrations ops))"
    using ok(1) by (fastforce simp: handlers_at_def)
  ultimately show "(\<forall>(h, f, L)\<in>set (registrations ops). filter_of sd = Some f \<and> MatchLabels (labels_of Deserialize sd) L \<longrightarrow> (h, t, sd) \<in> set cs) \<and>
      (\<forall>(h, t', sd')\<in>set cs. t' = t \<and> sd' = sd \<and> (\<exists>f L. filter_of sd = Some f \<and> (h, f, L) \<in> set (registrations ops)))"
    by (cases f) (simp add: cs Some)
qed

lemma register_calls:
  assumes "safe_history Deserialize (Register h c k L # ops)"
    "cs = fst (store_RegisterSpecificServiceDiscoveryHandler h c k L (store_after Deserialize ops))"
  shows "\<forall>sd\<in>set (live_services ops). filter_of sd = Some (c, k) \<and> MatchLabels L (labels_of Deserialize sd) \<longrightarrow>
      (h, ServiceCreated, sd) \<in> set cs"
    "\<forall>(h', t, sd)\<in>set cs. h' = h \<and> t = ServiceCreated \<and> sd \<in> set (live_services ops) \<and> filter_of sd = Some (c, k)"
proof -
  let ?e = "at empty_node (store_after Deserialize ops) (c, k)"
  obtain cs' e1 where q: "CallHandlerOnHandlerRegistration h L ?e = (cs', e1)" by fastforce
  then have cs: "cs = cs'"
    using assms(2) by (simp add: store_RegisterSpecificServiceDiscoveryHandler_def with_entry_def Let_def)
  have "entry_ok (services_at Deserialize ops (c, k)) (handlers_at ops (c, k)) ?e" by (rule store_ok) (use assms(1) in simp)
  note ok = CallHandlerOnHandlerRegistration_ok[OF q this]
  have "safe_query (length (dc_nodes (kn_allCluster ?e))) L ?e" using assms(1) by simp
  note ok = ok(2)[OF this] ok(3)[OF this]
  show "\<forall>sd\<in>set (live_services ops). filter_of sd = Some (c, k) \<and> MatchLabels L (labels_of Deserialize sd) \<longrightarrow>
      (h, ServiceCreated, sd) \<in> set cs"
    using ok(2) by (auto simp: services_at_def cs)
  show "\<forall>(h', t, sd)\<in>set cs. h' = h \<and> t = ServiceCreated \<and> sd \<in> set (live_services ops) \<and> filter_of sd = Some (c, k)"
    using ok(1) by (auto simp: services_at_def cs)
qed

text \<open>
  C5. The index of service discovery is equivalent to comparing everything with everything: after any history
  of service changes and registrations, a change of a service calls every handler that was registered for
  its kind and key and whose labels match those of the service, and no handler that was registered for
  something else; the registration of a handler reports every existing service of its kind and key whose
  labels match, and no other service than existing ones of that kind and key. The history must be such that a
  key of an optional label is new only where there are fewer than two handlers (or services) to
  choose from.
\<close>

theorem index_finds_every_match:
  assumes "safe_history Deserialize (op # ops)"
    and "cs = fst (store_step Deserialize op (store_after Deserialize ops))"
  shows "case op of
      Change t sd \<Rightarrow>
        (\<forall>(h, f, L)\<in>set (registrations ops). filter_of sd = Some f \<and> MatchLabels (labels_of Deserialize sd) L \<longrightarrow>
           (h, t, sd) \<in> set cs) \<and>
        (\<forall>(h, t', sd')\<in>set cs. t' = t \<and> sd' = sd \<and> (\<exists>f L. filter_of sd = Some f \<and> (h, f, L) \<in> set (registrations ops)))
    | Register h c k L \<Rightarrow>
        (\<forall>sd\<in>set (live_services ops). filter_of sd = Some (c, k) \<and> MatchLabels L (labels_of Deserialize sd) \<longrightarrow>
           (h, ServiceCreated, sd) \<in> set cs) \<and>
        (\<forall>(h', t, sd)\<in>set cs. h' = h \<and> t = ServiceCreated \<and> sd \<in> set (live_services ops) \<and> filter_of sd = Some (c, k))"
proof (cases op)
  case (Change t sd)
  then show ?thesis using change_calls[of Deserialize t sd ops cs] assms by simp
next
  case (Register h c k L)
  then show ?thesis using register_calls[of Deserialize h c k L ops cs] assms by simp
qed

section \<open>Samples\<close>

definition sample_label :: "label_kind \<Rightarrow> string \<Rightarrow> MatchingLabel" where
  "sample_label kind key = \<lparr>ml_key = key, ml_value = ''v'', ml_kind = kind\<rparr>"

text \<open>A reader of labels for the samples: every character is the key of an optional label.\<close>

definition sample_Deserialize :: "string \<Rightarrow> MatchingLabel list" where
  "sample_Deserialize s = map (\<lambda>c. sample_label Optional [c]) s"

definition sample_publisher :: "u64 \<Rightarrow> string \<Rightarrow> ServiceDescriptor" where
  "sample_publisher i labels = \<lparr>sd_participantName = ''P'', sd_participantId = 7, sd_serviceType = 2, sd_networkName = ''default'',
     sd_networkType = 9, sd_serviceName = ''pub'', sd_serviceId = i, sd_supplementalData =
       [(''controller.type'', ''DataPublisher''), (''PubSub::topic'', ''t''), (''PubSub::pubUUID'', [char_of (unat i)]),
        (''PubSub::pubMediaType'', ''m''), (''PubSub::pubLabels'', labels)]\<rparr>"

theorem index_finds_every_match_witness:
  "(5 :: nat, ServiceCreated, sample_publisher 1 ''x'') \<in>
     set (fst (store_step sample_Deserialize (Register 5 ''DataPublisher'' ''t'' [sample_label Optional ''x''])
       (store_after sample_Deserialize [Change ServiceCreated (sample_publisher 2 ''x''),
         Change ServiceCreated (sample_publisher 1 ''x'')])))"
proof -
  let ?ops = "[Change ServiceCreated (sample_publisher 2 ''x''), Change ServiceCreated (sample_publisher 1 ''x'')] :: nat store_op list"
  have "safe_history sample_Deserialize (Register 5 ''DataPublisher'' ''t'' [sample_label Optional ''x''] # ?ops)"
    by code_simp
  moreover have "filter_of (sample_publisher 1 ''x'') = Some (''DataPublisher'', ''t'')"
    "MatchLabels [sample_label Optional ''x''] (labels_of sample_Deserialize (sample_publisher 1 ''x''))"
    by code_simp+
  ultimately show ?thesis
    using index_finds_every_match[OF _ refl, of sample_Deserialize "Register 5 ''DataPublisher'' ''t'' [sample_label Optional ''x'']" ?ops]
    by simp
qed

text \<open>
  Two publishers with an optional label exist. A subscriber with an optional label under a
  new key matches both, but when its handler is registered it is told about neither.
\<close>

theorem new_optional_key_hides_services:
  "let ops = [Change ServiceCreated (sample_publisher 2 ''x''), Change ServiceCreated (sample_publisher 1 ''x'')] :: nat store_op list
   in list_all (\<lambda>sd. filter_of sd = Some (''DataPublisher'', ''t'') \<and>
        MatchLabels [sample_label Optional ''y''] (labels_of sample_Deserialize sd)) (live_services ops) \<and>
      fst (store_step sample_Deserialize (Register 5 ''DataPublisher'' ''t'' [sample_label Optional ''y''])
        (store_after sample_Deserialize ops)) = []"
  by code_simp

end
