(* ===== verification/Service_Discovery.thy ===== *)
theory Service_Discovery
  imports Discovery_Store
begin

text \<open>
  Service discovery of a participant (core/service/ServiceDiscovery.cpp) and the data subscribers that rely on it
  (services/pubsub/DataSubscriber.cpp): a subscriber keeps an internal subscriber for every publisher
  whose topic, media type and labels match. Handlers of the index are the numbers of data subscribers; general
  handlers are numbers whose calls are recorded. An internal subscriber is represented by the identifier of its
  publisher. The requests to the participant to create one, and to announce that one is removed, are recorded;
  the announcements that follow from them are calls of \<open>NotifyServiceCreated\<close> and
  \<open>NotifyServiceRemoved\<close> of their own, since services of this type are not in the index.
\<close>

section \<open>Names of services\<close>

datatype discovery_error = NoControllerType | UnknownSupplementalKey string

definition service_type_name :: "u8 \<Rightarrow> string" where
  "service_type_name t = (if t = 0 then ''Undefined'' else if t = 1 then ''Link'' else if t = 2 then ''Controller''
     else if t = 3 then ''SimulatedController'' else if t = 4 then ''InternalController'' else ''Unknown'')"

definition network_type_name :: "u32 \<Rightarrow> string" where
  "network_type_name t = (if t = 2 then ''CAN'' else if t = 3 then ''LIN'' else if t = 4 then ''Ethernet''
     else if t = 5 then ''FlexRay'' else if t = 6 then ''Data'' else if t = 7 then ''RPC''
     else if t = 0 then ''Undefined'' else if t = 1 then ''Invalid'' else ''Unknown'')"

definition service_to_string :: "ServiceDescriptor \<Rightarrow> discovery_error + string" where
  "service_to_string sd =
     (let common = sd_participantName sd @ ''/'' @ service_type_name (sd_serviceType sd)
      in if sd_serviceType sd = 1
         then Inr (common @ ''/'' @ network_type_name (sd_networkType sd) @ ''/'' @ sd_networkName sd)
         else if sd_serviceType sd = 2 \<or> sd_serviceType sd = 3
         then (case map_of (sd_supplementalData sd) ''controller.type'' of
                 None \<Rightarrow> Inl NoControllerType
               | Some controllerTypeName \<Rightarrow>
                   Inr (common @ ''/'' @ controllerTypeName @ ''/'' @ sd_networkName sd @ ''/'' @ sd_serviceName sd))
         else if sd_serviceType sd = 4 then Inr (common @ ''/'' @ sd_serviceName sd)
         else if sd_serviceType sd = 0 then Inr (common @ ''/'' @ sd_networkName sd @ ''/'' @ sd_serviceName sd)
         else Inr common)"

section \<open>Data subscribers\<close>

record DataSubscriber =
  ds_topic :: string
  ds_mediaType :: string
  ds_labels :: "MatchingLabel list"
  ds_internalSubscribers :: "string list"
  ds_requests :: "(event_type \<times> string) list"

definition AddInternalSubscriber :: "string \<Rightarrow> DataSubscriber \<Rightarrow> DataSubscriber" where
  "AddInternalSubscriber pubUUID s =
     (if pubUUID \<in> set (ds_internalSubscribers s) then s
      else s\<lparr>ds_internalSubscribers := ds_internalSubscribers s @ [pubUUID],
             ds_requests := ds_requests s @ [(ServiceCreated, pubUUID)]\<rparr>)"

definition RemoveInternalSubscriber :: "string \<Rightarrow> DataSubscriber \<Rightarrow> DataSubscriber" where
  "RemoveInternalSubscriber pubUUID s =
     (if pubUUID \<in> set (ds_internalSubscribers s)
      then s\<lparr>ds_internalSubscribers := filter (\<lambda>u. u \<noteq> pubUUID) (ds_internalSubscribers s),
             ds_requests := ds_requests s @ [(ServiceRemoved, pubUUID)]\<rparr>
      else s)"

definition getVal :: "ServiceDescriptor \<Rightarrow> string \<Rightarrow> discovery_error + string" where
  "getVal sd key = (case map_of (sd_supplementalData sd) key of
     None \<Rightarrow> Inl (UnknownSupplementalKey key) | Some v \<Rightarrow> Inr v)"

text \<open>The handler registered by \<^verbatim>\<open>DataSubscriber::RegisterServiceDiscovery\<close>.\<close>

definition matchHandler :: "(string \<Rightarrow> MatchingLabel list) \<Rightarrow> event_type \<Rightarrow> ServiceDescriptor \<Rightarrow>
    DataSubscriber \<Rightarrow> discovery_error + DataSubscriber" where
  "matchHandler Deserialize discoveryType sd s =
     bindE (getVal sd ''PubSub::pubUUID'') (\<lambda>pubUUID.
       if discoveryType = ServiceCreated \<and> pubUUID \<in> set (ds_internalSubscribers s) then Inr s
       else bindE (getVal sd ''PubSub::topic'') (\<lambda>topic.
         if topic = ds_topic s
         then bindE (getVal sd ''PubSub::pubMediaType'') (\<lambda>pubMediaType.
           if MatchMediaType (ds_mediaType s) pubMediaType
           then bindE (getVal sd ''PubSub::pubLabels'') (\<lambda>labelsStr.
             if MatchLabels (ds_labels s) (Deserialize labelsStr)
             then Inr (case discoveryType of
                         ServiceCreated \<Rightarrow> AddInternalSubscriber pubUUID s
                       | ServiceRemoved \<Rightarrow> RemoveInternalSubscriber pubUUID s)
             else Inr s)
           else Inr s)
         else Inr s))"

section \<open>The discovery of a participant\<close>

datatype discovery_message =
    BroadcastEvent event_type ServiceDescriptor
  | AnnounceTo string "ServiceDescriptor list"

type_synonym ServiceMap = "(string \<times> ServiceDescriptor) list"

record ServiceDiscovery =
  di_participantName :: string
  di_handlers :: "nat list"
  di_servicesByParticipant :: "(string \<times> ServiceMap) list"
  di_specificDiscoveryStore :: "nat SpecificDiscoveryStore"
  di_shuttingDown :: bool
  di_subscribers :: "DataSubscriber list"
  di_calls :: "(nat \<times> event_type \<times> ServiceDescriptor) list"
  di_sent :: "discovery_message list"

definition ServiceDiscovery_new :: "string \<Rightarrow> ServiceDiscovery" where
  "ServiceDiscovery_new participantName =
     \<lparr>di_participantName = participantName, di_handlers = [], di_servicesByParticipant = [], di_specificDiscoveryStore = [],
      di_shuttingDown = False, di_subscribers = [], di_calls = [], di_sent = []\<rparr>"

text \<open>The destructor leaves a guard for calls that are still under way.\<close>

definition ServiceDiscovery_destroy :: "ServiceDiscovery \<Rightarrow> ServiceDiscovery" where
  "ServiceDiscovery_destroy d = d\<lparr>di_shuttingDown := True\<rparr>"

type_synonym discovery_result = "discovery_error + ServiceDiscovery"

text \<open>The calls of the index reach the data subscribers, one after the other.\<close>

fun deliver :: "(string \<Rightarrow> MatchingLabel list) \<Rightarrow> nat handler_call list \<Rightarrow> DataSubscriber list \<Rightarrow>
    discovery_error + DataSubscriber list" where
  "deliver Deserialize [] subs = Inr subs"
| "deliver Deserialize ((h, t, sd) # cs) subs =
     (if h < length subs
      then bindE (matchHandler Deserialize t sd (subs ! h)) (\<lambda>s. deliver Deserialize cs (subs[h := s]))
      else deliver Deserialize cs subs)"

definition store_change :: "(string \<Rightarrow> MatchingLabel list) \<Rightarrow> event_type \<Rightarrow> ServiceDescriptor \<Rightarrow> ServiceDiscovery \<Rightarrow> discovery_result" where
  "store_change Deserialize t sd d =
     (let (cs, store) = ServiceChange Deserialize t sd (di_specificDiscoveryStore d)
      in bindE (deliver Deserialize cs (di_subscribers d)) (\<lambda>subs.
           Inr (d\<lparr>di_specificDiscoveryStore := store, di_subscribers := subs\<rparr>)))"

definition CallHandlers :: "event_type \<Rightarrow> ServiceDescriptor \<Rightarrow> ServiceDiscovery \<Rightarrow> ServiceDiscovery" where
  "CallHandlers eventType sd d = d\<lparr>di_calls := di_calls d @ map (\<lambda>h. (h, eventType, sd)) (di_handlers d)\<rparr>"

definition services_of :: "string \<Rightarrow> ServiceDiscovery \<Rightarrow> ServiceMap" where
  "services_of name d = at [] (di_servicesByParticipant d) name"

definition set_services_of :: "string \<Rightarrow> ServiceMap \<Rightarrow> ServiceDiscovery \<Rightarrow> ServiceDiscovery" where
  "set_services_of name m d = d\<lparr>di_servicesByParticipant := AList.update name m (di_servicesByParticipant d)\<rparr>"

definition AnnounceLocalParticipantTo :: "string \<Rightarrow> ServiceDiscovery \<Rightarrow> ServiceDiscovery" where
  "AnnounceLocalParticipantTo otherParticipant d =
     (let d = set_services_of (di_participantName d) (services_of (di_participantName d) d) d
      in d\<lparr>di_sent := di_sent d @ [AnnounceTo otherParticipant (map snd (services_of (di_participantName d) d))]\<rparr>)"

definition OnServiceAddition :: "(string \<Rightarrow> MatchingLabel list) \<Rightarrow> ServiceDescriptor \<Rightarrow> ServiceDiscovery \<Rightarrow> discovery_result" where
  "OnServiceAddition Deserialize sd d =
     (let fromParticipant = sd_participantName sd;
          d = set_services_of fromParticipant (services_of fromParticipant d) d
      in bindE (service_to_string sd) (\<lambda>cachedServiceKey.
           if map_of (services_of fromParticipant d) cachedServiceKey \<noteq> None then Inr d
           else let d = (if fromParticipant \<noteq> di_participantName d \<and>
                            data_item sd ''controller.type'' = ''ServiceDiscovery''
                         then AnnounceLocalParticipantTo fromParticipant d else d);
                    d = set_services_of fromParticipant
                          (AList.update cachedServiceKey sd (services_of fromParticipant d)) d
                in bindE (store_change Deserialize ServiceCreated sd d) (\<lambda>d. Inr (CallHandlers ServiceCreated sd d))))"

definition OnServiceRemoval :: "(string \<Rightarrow> MatchingLabel list) \<Rightarrow> ServiceDescriptor \<Rightarrow> ServiceDiscovery \<Rightarrow> discovery_result" where
  "OnServiceRemoval Deserialize sd d =
     (let fromParticipant = sd_participantName sd;
          d = set_services_of fromParticipant (services_of fromParticipant d) d
      in bindE (service_to_string sd) (\<lambda>cachedServiceKey.
           if map_of (services_of fromParticipant d) cachedServiceKey = None then Inr d
           else let d = set_services_of fromParticipant
                          (AList.delete cachedServiceKey (services_of fromParticipant d)) d
                in bindE (store_change Deserialize ServiceRemoved sd d) (\<lambda>d. Inr (CallHandlers ServiceRemoved sd d))))"

definition NotifyServiceCreated :: "(string \<Rightarrow> MatchingLabel list) \<Rightarrow> ServiceDescriptor \<Rightarrow> ServiceDiscovery \<Rightarrow> discovery_result" where
  "NotifyServiceCreated Deserialize sd d =
     (if di_shuttingDown d then Inr d
      else bindE (OnServiceAddition Deserialize sd d) (\<lambda>d.
             Inr (d\<lparr>di_sent := di_sent d @ [BroadcastEvent ServiceCreated sd]\<rparr>)))"

definition NotifyServiceRemoved :: "(string \<Rightarrow> MatchingLabel list) \<Rightarrow> ServiceDescriptor \<Rightarrow> ServiceDiscovery \<Rightarrow> discovery_result" where
  "NotifyServiceRemoved Deserialize sd d =
     (if di_shuttingDown d then Inr d
      else bindE (OnServiceRemoval Deserialize sd d) (\<lambda>d.
             Inr (d\<lparr>di_sent := di_sent d @ [BroadcastEvent ServiceRemoved sd]\<rparr>)))"

text \<open>Every type of event but \<^verbatim>\<open>ServiceCreated\<close>, which is 1 on the wire, is taken as a removal.\<close>

definition ReceiveMsg_ServiceDiscoveryEvent ::
    "(string \<Rightarrow> MatchingLabel list) \<Rightarrow> ServiceDiscoveryEvent \<Rightarrow> ServiceDiscovery \<Rightarrow> discovery_result" where
  "ReceiveMsg_ServiceDiscoveryEvent Deserialize msg d =
     (if di_shuttingDown d then Inr d
      else if sde_type msg = 1 then OnServiceAddition Deserialize (sde_serviceDescriptor msg) d
      else OnServiceRemoval Deserialize (sde_serviceDescriptor msg) d)"

fun add_services :: "(string \<Rightarrow> MatchingLabel list) \<Rightarrow> string \<Rightarrow> ServiceDescriptor list \<Rightarrow> ServiceDiscovery \<Rightarrow> discovery_result" where
  "add_services Deserialize fromParticipant [] d = Inr d"
| "add_services Deserialize fromParticipant (sd # sds) d =
     bindE (service_to_string sd) (\<lambda>serviceName.
       if map_of (services_of fromParticipant d) serviceName \<noteq> None then add_services Deserialize fromParticipant sds d
       else bindE (store_change Deserialize ServiceCreated sd d) (\<lambda>d.
              add_services Deserialize fromParticipant sds
                (CallHandlers ServiceCreated sd (set_services_of fromParticipant
                  (AList.update serviceName sd (services_of fromParticipant d)) d))))"

definition ReceiveMsg_ParticipantDiscoveryEvent ::
    "(string \<Rightarrow> MatchingLabel list) \<Rightarrow> ParticipantDiscoveryEvent \<Rightarrow> ServiceDiscovery \<Rightarrow> discovery_result" where
  "ReceiveMsg_ParticipantDiscoveryEvent Deserialize msg d =
     (if di_shuttingDown d then Inr d
      else add_services Deserialize (pde_participantName msg) (pde_services msg)
             (set_services_of (pde_participantName msg) (services_of (pde_participantName msg) d) d))"

fun remove_services :: "(string \<Rightarrow> MatchingLabel list) \<Rightarrow> ServiceDescriptor list \<Rightarrow> ServiceDiscovery \<Rightarrow> discovery_result" where
  "remove_services Deserialize [] d = Inr d"
| "remove_services Deserialize (sd # sds) d =
     bindE (store_change Deserialize ServiceRemoved sd d) (\<lambda>d.
       remove_services Deserialize sds (CallHandlers ServiceRemoved sd d))"

definition discovery_OnParticpantRemoval :: "(string \<Rightarrow> MatchingLabel list) \<Rightarrow> string \<Rightarrow> ServiceDiscovery \<Rightarrow> discovery_result" where
  "discovery_OnParticpantRemoval Deserialize participantName d =
     (if participantName = di_participantName d then Inr d
      else case map_of (di_servicesByParticipant d) participantName of
             None \<Rightarrow> Inr d
           | Some m \<Rightarrow> bindE (remove_services Deserialize (map snd m) d) (\<lambda>d.
               Inr (d\<lparr>di_servicesByParticipant := AList.delete participantName (di_servicesByParticipant d)\<rparr>)))"

definition GetServices :: "ServiceDiscovery \<Rightarrow> ServiceDescriptor list" where
  "GetServices d = concat (map (\<lambda>(_, m). map snd m) (di_servicesByParticipant d))"

definition RegisterServiceDiscoveryHandler :: "nat \<Rightarrow> ServiceDiscovery \<Rightarrow> ServiceDiscovery" where
  "RegisterServiceDiscoveryHandler handler d =
     (if di_shuttingDown d then d
      else d\<lparr>di_calls := di_calls d @ map (\<lambda>sd. (handler, ServiceCreated, sd)) (GetServices d),
             di_handlers := di_handlers d @ [handler]\<rparr>)"

text \<open>
  A new data subscriber, whose \<^verbatim>\<open>RegisterServiceDiscovery\<close> registers its handler with the index through
  \<^verbatim>\<open>RegisterSpecificServiceDiscoveryHandler\<close>.
\<close>

definition RegisterServiceDiscovery :: "(string \<Rightarrow> MatchingLabel list) \<Rightarrow> string \<Rightarrow> string \<Rightarrow> MatchingLabel list \<Rightarrow>
    ServiceDiscovery \<Rightarrow> discovery_result" where
  "RegisterServiceDiscovery Deserialize topic mediaType labels d =
     (let h = length (di_subscribers d);
          subs = di_subscribers d @ [\<lparr>ds_topic = topic, ds_mediaType = mediaType, ds_labels = labels, ds_internalSubscribers = [], ds_requests = []\<rparr>]
      in if di_shuttingDown d then Inr (d\<lparr>di_subscribers := subs\<rparr>)
         else let (cs, store) = store_RegisterSpecificServiceDiscoveryHandler h ''DataPublisher'' topic labels
                    (di_specificDiscoveryStore d)
              in bindE (deliver Deserialize cs subs) (\<lambda>subs.
                   Inr (d\<lparr>di_specificDiscoveryStore := store, di_subscribers := subs\<rparr>)))"

section \<open>Runs\<close>

datatype discovery_event =
    D_Created ServiceDescriptor
  | D_Removed ServiceDescriptor
  | D_ServiceEvent ServiceDiscoveryEvent
  | D_ParticipantEvent ParticipantDiscoveryEvent
  | D_ParticipantRemoval string
  | D_Handler nat
  | D_Subscriber string string "MatchingLabel list"

fun discovery_step :: "(string \<Rightarrow> MatchingLabel list) \<Rightarrow> discovery_event \<Rightarrow> ServiceDiscovery \<Rightarrow> discovery_result" where
  "discovery_step Deserialize (D_Created sd) d = NotifyServiceCreated Deserialize sd d"
| "discovery_step Deserialize (D_Removed sd) d = NotifyServiceRemoved Deserialize sd d"
| "discovery_step Deserialize (D_ServiceEvent msg) d = ReceiveMsg_ServiceDiscoveryEvent Deserialize msg d"
| "discovery_step Deserialize (D_ParticipantEvent msg) d = ReceiveMsg_ParticipantDiscoveryEvent Deserialize msg d"
| "discovery_step Deserialize (D_ParticipantRemoval name) d = discovery_OnParticpantRemoval Deserialize name d"
| "discovery_step Deserialize (D_Handler h) d = Inr (RegisterServiceDiscoveryHandler h d)"
| "discovery_step Deserialize (D_Subscriber topic mediaType labels) d = RegisterServiceDiscovery Deserialize topic mediaType labels d"

fun discovery_run :: "(string \<Rightarrow> MatchingLabel list) \<Rightarrow> discovery_event list \<Rightarrow> ServiceDiscovery \<Rightarrow> discovery_result" where
  "discovery_run Deserialize [] d = Inr d"
| "discovery_run Deserialize (e # es) d = bindE (discovery_step Deserialize e d) (discovery_run Deserialize es)"

section \<open>Effect of the calls on the subscribers\<close>

definition connects :: "(string \<Rightarrow> MatchingLabel list) \<Rightarrow> DataSubscriber \<Rightarrow> ServiceDescriptor \<Rightarrow> bool" where
  "connects Deserialize s sd \<longleftrightarrow> filter_of sd = Some (''DataPublisher'', ds_topic s) \<and>
     MatchMediaType (ds_mediaType s) (data_item sd ''PubSub::pubMediaType'') \<and> MatchLabels (ds_labels s) (labels_of Deserialize sd)"

definition pub_uuid :: "ServiceDescriptor \<Rightarrow> string" where
  "pub_uuid sd = data_item sd ''PubSub::pubUUID''"

definition is_publisher :: "ServiceDescriptor \<Rightarrow> bool" where
  "is_publisher sd \<longleftrightarrow> data_item sd ''controller.type'' = ''DataPublisher''"

definition complete_publisher :: "ServiceDescriptor \<Rightarrow> bool" where
  "complete_publisher sd \<longleftrightarrow> list_all (\<lambda>key. map_of (sd_supplementalData sd) key \<noteq> None)
     [''PubSub::pubUUID'', ''PubSub::topic'', ''PubSub::pubMediaType'', ''PubSub::pubLabels'']"

text \<open>What the handler does when no key is missing.\<close>

definition react :: "(string \<Rightarrow> MatchingLabel list) \<Rightarrow> event_type \<Rightarrow> ServiceDescriptor \<Rightarrow> DataSubscriber \<Rightarrow> DataSubscriber" where
  "react Deserialize t sd s = (if connects Deserialize s sd
     then (case t of ServiceCreated \<Rightarrow> AddInternalSubscriber (pub_uuid sd) s | ServiceRemoved \<Rightarrow> RemoveInternalSubscriber (pub_uuid sd) s)
     else s)"

lemma filter_of_publisher: "is_publisher sd \<Longrightarrow> filter_of sd = Some (''DataPublisher'', data_item sd ''PubSub::topic'')"
  by (auto simp: is_publisher_def filter_of_def data_item_def service_key_def allowedControllers_def split: option.splits)

lemma publisher_of_filter: "filter_of sd = Some (''DataPublisher'', k) \<Longrightarrow> is_publisher sd"
  by (auto simp: is_publisher_def filter_of_def data_item_def split: option.splits if_splits)

lemma matchHandler_react:
  assumes "is_publisher sd" "complete_publisher sd"
  shows "matchHandler Deserialize t sd s = Inr (react Deserialize t sd s)"
proof -
  obtain u topic m l where k: "map_of (sd_supplementalData sd) ''PubSub::pubUUID'' = Some u"
      "map_of (sd_supplementalData sd) ''PubSub::topic'' = Some topic"
      "map_of (sd_supplementalData sd) ''PubSub::pubMediaType'' = Some m"
      "map_of (sd_supplementalData sd) ''PubSub::pubLabels'' = Some l"
    using assms(2) by (auto simp: complete_publisher_def)
  have c: "connects Deserialize s sd \<longleftrightarrow> topic = ds_topic s \<and> MatchMediaType (ds_mediaType s) m \<and> MatchLabels (ds_labels s) (Deserialize l)"
    using assms(1) k by (auto simp: connects_def filter_of_publisher data_item_def labels_of_def service_labels_def is_publisher_def)
  show ?thesis
    using k by (auto simp: matchHandler_def getVal_def react_def c pub_uuid_def data_item_def AddInternalSubscriber_def
        split: event_type.split)
qed

lemma react_spec [simp]:
  "ds_topic (react Deserialize t sd s) = ds_topic s" "ds_mediaType (react Deserialize t sd s) = ds_mediaType s"
  "ds_labels (react Deserialize t sd s) = ds_labels s"
  "connects Deserialize (react Deserialize t sd s) sd' = connects Deserialize s sd'"
  by (auto simp: react_def connects_def AddInternalSubscriber_def RemoveInternalSubscriber_def split: event_type.split)

lemma react_connected:
  "set (ds_internalSubscribers (react Deserialize t sd s)) = (case t of
     ServiceCreated \<Rightarrow> set (ds_internalSubscribers s) \<union> (if connects Deserialize s sd then {pub_uuid sd} else {})
   | ServiceRemoved \<Rightarrow> set (ds_internalSubscribers s) - (if connects Deserialize s sd then {pub_uuid sd} else {}))"
  by (auto simp: react_def AddInternalSubscriber_def RemoveInternalSubscriber_def split: event_type.split)

text \<open>One subscriber after a list of calls.\<close>

definition after_calls :: "(string \<Rightarrow> MatchingLabel list) \<Rightarrow> nat \<Rightarrow> nat handler_call list \<Rightarrow> DataSubscriber \<Rightarrow> DataSubscriber" where
  "after_calls Deserialize i cs s = fold (\<lambda>(h, t, sd) s. if h = i then react Deserialize t sd s else s) cs s"

lemma deliver_effect:
  assumes "\<forall>(h, t, sd)\<in>set cs. is_publisher sd \<and> complete_publisher sd"
  shows "\<exists>subs'. deliver Deserialize cs subs = Inr subs' \<and> length subs' = length subs \<and>
     (\<forall>i<length subs. subs' ! i = after_calls Deserialize i cs (subs ! i))"
  using assms
proof (induction cs arbitrary: subs)
  case Nil
  then show ?case by (simp add: after_calls_def)
next
  case (Cons c cs)
  obtain h t sd where c: "c = (h, t, sd)" "is_publisher sd" "complete_publisher sd" using Cons.prems by (cases c) auto
  have tail: "\<forall>(h, t, sd)\<in>set cs. is_publisher sd \<and> complete_publisher sd" using Cons.prems by simp
  let ?subs = "if h < length subs then subs[h := react Deserialize t sd (subs ! h)] else subs"
  have d: "deliver Deserialize (c # cs) subs = deliver Deserialize cs ?subs"
    by (simp add: c matchHandler_react)
  have "after_calls Deserialize i (c # cs) (subs ! i) = after_calls Deserialize i cs (?subs ! i)" if "i < length subs" for i
    using that by (auto simp: after_calls_def c)
  then show ?case unfolding d using Cons.IH[OF tail, of ?subs] by (auto split: if_splits)
qed

lemma after_calls_spec:
  "ds_topic (after_calls Deserialize i cs s) = ds_topic s \<and> ds_mediaType (after_calls Deserialize i cs s) = ds_mediaType s \<and>
   ds_labels (after_calls Deserialize i cs s) = ds_labels s"
proof (induction cs arbitrary: s)
  case (Cons c cs)
  then show ?case by (cases c) (simp add: after_calls_def)
qed (simp add: after_calls_def)

definition told :: "(string \<Rightarrow> MatchingLabel list) \<Rightarrow> nat handler_call list \<Rightarrow> nat \<Rightarrow> DataSubscriber \<Rightarrow> string set" where
  "told Deserialize cs i s = {pub_uuid sd | t sd. (i, t, sd) \<in> set cs \<and> connects Deserialize s sd}"

lemma after_calls_connected:
  assumes "\<forall>(h, t', sd)\<in>set cs. t' = t"
  shows "set (ds_internalSubscribers (after_calls Deserialize i cs s)) = (case t of
     ServiceCreated \<Rightarrow> set (ds_internalSubscribers s) \<union> told Deserialize cs i s
   | ServiceRemoved \<Rightarrow> set (ds_internalSubscribers s) - told Deserialize cs i s)"
  using assms
proof (induction cs arbitrary: s)
  case (Cons c cs)
  obtain h sd where c: "c = (h, t, sd)" using Cons.prems by (cases c) auto
  let ?s = "if h = i then react Deserialize t sd s else s"
  have a: "after_calls Deserialize i (c # cs) s = after_calls Deserialize i cs ?s" by (simp add: after_calls_def c)
  have "told Deserialize (c # cs) i s = told Deserialize cs i ?s \<union> (if h = i \<and> connects Deserialize s sd then {pub_uuid sd} else {})"
    by (auto simp: told_def c)
  then show ?case unfolding a using Cons.IH[of ?s] Cons.prems
    by (cases t) (auto simp: react_connected)
qed (auto simp: after_calls_def told_def split: event_type.split)

section \<open>Subscribers and known publishers\<close>

text \<open>
  Assumptions about the services of a simulation \<open>U\<close>: their names, their identities and the identifiers of
  publishers are unique, and publishers carry all their data. Labels may be optional, but a key that is optional for one partner
  of a topic occurs among the labels of all partners of this topic: \<open>opt\<close> lists these keys for each controller type and topic.
\<close>

definition agreed_labels :: "string list \<Rightarrow> MatchingLabel list \<Rightarrow> bool" where
  "agreed_labels keys labels \<longleftrightarrow> list_all (\<lambda>l. ml_kind l = Optional \<longrightarrow> ml_key l \<in> set keys) labels \<and>
     list_all (\<lambda>k. k \<in> ml_key ` set labels) keys"

definition proper_services :: "(string \<Rightarrow> MatchingLabel list) \<Rightarrow> (FilterType \<Rightarrow> string list) \<Rightarrow> ServiceDescriptor list \<Rightarrow> bool" where
  "proper_services Deserialize opt U \<longleftrightarrow>
     list_all (\<lambda>sd. (case service_to_string sd of Inl e \<Rightarrow> False | Inr k \<Rightarrow> True) \<and>
       (case filter_of sd of None \<Rightarrow> True | Some f \<Rightarrow> agreed_labels (opt f) (labels_of Deserialize sd)) \<and>
       (is_publisher sd \<longrightarrow> complete_publisher sd)) U \<and>
     list_all (\<lambda>a. list_all (\<lambda>b. a = b \<or> (service_to_string a \<noteq> service_to_string b \<and> \<not> same_service a b \<and>
       \<not> (is_publisher a \<and> is_publisher b \<and> pub_uuid a = pub_uuid b))) U) U"

fun proper_event :: "(FilterType \<Rightarrow> string list) \<Rightarrow> ServiceDescriptor list \<Rightarrow> discovery_event \<Rightarrow> bool" where
  "proper_event opt U (D_Created sd) \<longleftrightarrow> sd \<in> set U"
| "proper_event opt U (D_Removed sd) \<longleftrightarrow> sd \<in> set U"
| "proper_event opt U (D_ServiceEvent msg) \<longleftrightarrow> sde_serviceDescriptor msg \<in> set U"
| "proper_event opt U (D_ParticipantEvent msg) \<longleftrightarrow>
     list_all (\<lambda>sd. sd \<in> set U \<and> sd_participantName sd = pde_participantName msg) (pde_services msg)"
| "proper_event opt U (D_Subscriber topic mediaType labels) \<longleftrightarrow> agreed_labels (opt (''DataPublisher'', topic)) labels"
| "proper_event opt U _ \<longleftrightarrow> True"

definition known_services :: "ServiceDiscovery \<Rightarrow> ServiceDescriptor set" where
  "known_services d = set (GetServices d)"

text \<open>The cache holds every service under its participant and its name.\<close>

definition cache_ok :: "ServiceDiscovery \<Rightarrow> bool" where
  "cache_ok d \<longleftrightarrow> distinct (map fst (di_servicesByParticipant d)) \<and>
     (\<forall>(name, m)\<in>set (di_servicesByParticipant d). distinct (map fst m) \<and>
        (\<forall>(k, sd)\<in>set m. sd_participantName sd = name \<and> service_to_string sd = Inr k))"

text \<open>The index and the subscribers know the services \<open>K\<close>.\<close>

definition linked :: "(string \<Rightarrow> MatchingLabel list) \<Rightarrow> (FilterType \<Rightarrow> string list) \<Rightarrow>
    ServiceDescriptor set \<Rightarrow> nat SpecificDiscoveryStore \<Rightarrow> DataSubscriber list \<Rightarrow> bool" where
  "linked Deserialize opt K store subs \<longleftrightarrow> list_all (\<lambda>s. agreed_labels (opt (''DataPublisher'', ds_topic s)) (ds_labels s)) subs \<and>
     (\<exists>ops. store = store_after Deserialize ops \<and> safe_history Deserialize ops \<and> set (live_services ops) = K \<and>
        set (registrations ops) = {(i, (''DataPublisher'', ds_topic (subs ! i)), ds_labels (subs ! i)) | i. i < length subs}) \<and>
     (\<forall>s\<in>set subs. set (ds_internalSubscribers s) = pub_uuid ` {sd \<in> K. connects Deserialize s sd})"

lemma agreed_known:
  assumes "agreed_labels keys labels" "agreed_labels keys M" "\<forall>l\<in>set M. ml_key l \<in> known_keys e"
  shows "safe_query n labels e"
  using assms by (fastforce simp: safe_query_def agreed_labels_def list_all_iff)

text \<open>Where there is something to choose from, there is a partner, and the keys of its labels are known.\<close>

lemma agreed_change:
  assumes "safe_history Deserialize ops" "\<forall>(h, f, L)\<in>set (registrations ops). agreed_labels (opt f) L"
    and "\<forall>f. filter_of sd = Some f \<longrightarrow> agreed_labels (opt f) (labels_of Deserialize sd)"
  shows "safe_history Deserialize (Change t sd # ops)"
proof (cases "filter_of sd")
  case (Some f)
  let ?e = "at empty_node (store_after Deserialize ops) f"
  have ok: "handlers.filed (handlers_at ops f) ?e" "handlers.only (fst ` handlers_at ops f) ?e"
    using store_ok[OF assms(1), of f] by (simp_all add: entry_ok_def)
  have "safe_query (length (dc_handlers (kn_allCluster ?e))) (labels_of Deserialize sd) ?e"
  proof (cases "dc_handlers (kn_allCluster ?e)")
    case (Cons h hs)
    then obtain L where L: "(h, L) \<in> handlers_at ops f" using ok(2) by (auto simp: handlers.only_def handlers.everything_def)
    show ?thesis
      by (rule agreed_known[of "opt f" _ L]) (use assms(2,3) Some L ok(1) in \<open>auto simp: handlers_at_def handlers.filed_def\<close>)
  qed (simp add: safe_query_def)
  then show ?thesis using assms(1) Some by simp
qed (use assms(1) in simp)

lemma agreed_register:
  assumes "safe_history Deserialize ops"
    and "\<forall>sd\<in>set (live_services ops). \<forall>f. filter_of sd = Some f \<longrightarrow> agreed_labels (opt f) (labels_of Deserialize sd)"
    and "agreed_labels (opt (c, k)) L"
  shows "safe_history Deserialize (Register h c k L # ops)"
proof -
  let ?e = "at empty_node (store_after Deserialize ops) (c, k)"
  have ok: "nodes.filed (services_at Deserialize ops (c, k)) ?e" "nodes.only (fst ` services_at Deserialize ops (c, k)) ?e"
    using store_ok[OF assms(1), of "(c, k)"] by (simp_all add: entry_ok_def)
  have "safe_query (length (dc_nodes (kn_allCluster ?e))) L ?e"
  proof (cases "dc_nodes (kn_allCluster ?e)")
    case (Cons sd sds)
    then obtain M where M: "(sd, M) \<in> services_at Deserialize ops (c, k)" using ok(2) by (auto simp: nodes.only_def nodes.everything_def)
    show ?thesis
      by (rule agreed_known[of "opt (c, k)" _ M]) (use assms(2,3) M ok(1) in \<open>auto simp: services_at_def nodes.filed_def\<close>)
  qed (simp add: safe_query_def)
  then show ?thesis using assms(1) by simp
qed

lemma proper_servicesD:
  assumes "proper_services Deserialize opt U" "sd \<in> set U"
  shows "\<exists>k. service_to_string sd = Inr k" "filter_of sd = Some f \<Longrightarrow> agreed_labels (opt f) (labels_of Deserialize sd)"
    "is_publisher sd \<Longrightarrow> complete_publisher sd"
    "b \<in> set U \<Longrightarrow> service_to_string sd = service_to_string b \<Longrightarrow> sd = b" "b \<in> set U \<Longrightarrow> same_service sd b \<Longrightarrow> sd = b"
    "b \<in> set U \<Longrightarrow> is_publisher sd \<Longrightarrow> is_publisher b \<Longrightarrow> pub_uuid sd = pub_uuid b \<Longrightarrow> sd = b"
  using assms by (cases "service_to_string sd"; fastforce simp: proper_services_def list_all_iff)+

lemma store_change_linked:
  assumes U: "proper_services Deserialize opt U" "sd \<in> set U" "K \<subseteq> set U"
    and l: "linked Deserialize opt K (di_specificDiscoveryStore d) (di_subscribers d)"
  shows "\<exists>store subs. store_change Deserialize t sd d = Inr (d\<lparr>di_specificDiscoveryStore := store, di_subscribers := subs\<rparr>) \<and>
     linked Deserialize opt (case t of ServiceCreated \<Rightarrow> insert sd K | ServiceRemoved \<Rightarrow> K - {sd}) store subs"
proof -
  let ?subs = "di_subscribers d"
  obtain ops where ops: "di_specificDiscoveryStore d = store_after Deserialize ops" "safe_history Deserialize ops"
      "set (live_services ops) = K"
      "set (registrations ops) = {(i, (''DataPublisher'', ds_topic (?subs ! i)), ds_labels (?subs ! i)) | i. i < length ?subs}"
    using l by (auto simp: linked_def)
  let ?ops = "Change t sd # ops"
  have safe: "safe_history Deserialize ?ops"
  proof (rule agreed_change[OF ops(2), of opt])
    show "\<forall>(h, f, L)\<in>set (registrations ops). agreed_labels (opt f) L" using l unfolding ops(4) by (auto simp: linked_def list_all_length)
  qed (use proper_servicesD(2)[OF U(1,2)] in blast)
  define cs where "cs = fst (ServiceChange Deserialize t sd (store_after Deserialize ops))"
  note calls = change_calls[OF safe cs_def]
  have pub: "\<forall>(h, t', sd')\<in>set cs. is_publisher sd' \<and> complete_publisher sd'"
    using calls(2) publisher_of_filter proper_servicesD(3)[OF U(1,2)] unfolding ops(4) by fastforce
  obtain subs where subs: "deliver Deserialize cs ?subs = Inr subs" "length subs = length ?subs"
      "\<And>i. i < length ?subs \<Longrightarrow> subs ! i = after_calls Deserialize i cs (?subs ! i)"
    using deliver_effect[OF pub, of Deserialize ?subs] by auto
  have told: "told Deserialize cs i (?subs ! i) = (if connects Deserialize (?subs ! i) sd then {pub_uuid sd} else {})"
    if "i < length ?subs" for i
  proof -
    have "(i, t, sd) \<in> set cs" if "connects Deserialize (?subs ! i) sd"
      using calls(1) \<open>i < length ?subs\<close> that unfolding ops(4) by (auto simp: connects_def MatchLabels_sym)
    moreover have "sd' = sd" if "(i, t', sd') \<in> set cs" for t' sd' using calls(2) that by auto
    ultimately show ?thesis by (auto simp: told_def)
  qed
  define K' where "K' = (case t of ServiceCreated \<Rightarrow> insert sd K | ServiceRemoved \<Rightarrow> K - {sd})"
  have spec: "ds_topic (subs ! i) = ds_topic (?subs ! i)" "ds_labels (subs ! i) = ds_labels (?subs ! i)"
      "connects Deserialize (subs ! i) = connects Deserialize (?subs ! i)" if "i < length ?subs" for i
    using that after_calls_spec[of Deserialize i cs "?subs ! i"] by (simp_all add: subs(3) connects_def fun_eq_iff)
  have conn: "set (ds_internalSubscribers (subs ! i)) = pub_uuid ` {x \<in> K'. connects Deserialize (subs ! i) x}"
    if i: "i < length ?subs" for i
  proof -
    have old: "set (ds_internalSubscribers (?subs ! i)) = pub_uuid ` {x \<in> K. connects Deserialize (?subs ! i) x}"
      using l i by (simp add: linked_def)
    have all: "\<forall>(h, t', sd')\<in>set cs. t' = t" using calls(2) by auto
    have uuid: "pub_uuid x \<noteq> pub_uuid sd" if "x \<in> K" "x \<noteq> sd" "connects Deserialize s x" "connects Deserialize s sd" for x s
      using that proper_servicesD(6)[OF U(1) _ U(2), of x] publisher_of_filter U(3) by (auto simp: connects_def)
    show ?thesis
      using after_calls_connected[OF all, of Deserialize i "?subs ! i"] old uuid[of _ "?subs ! i"]
      unfolding subs(3)[OF i, symmetric] told[OF i] spec(3)[OF i] K'_def
      by (cases t) (auto simp: image_iff)
  qed
  have "linked Deserialize opt K' (store_after Deserialize ?ops) subs"
    unfolding linked_def
  proof (intro conjI exI[of _ ?ops] ballI)
    show "list_all (\<lambda>s. agreed_labels (opt (''DataPublisher'', ds_topic s)) (ds_labels s)) subs"
      using l spec(1,2) subs(2) by (auto simp: linked_def list_all_length)
    show "set (live_services ?ops) = K'"
      using ops(3) proper_servicesD(5)[OF U(1) _ U(2)] U(3) by (cases t) (auto simp: K'_def same_service_def)
    show "set (registrations ?ops) = {(i, (''DataPublisher'', ds_topic (subs ! i)), ds_labels (subs ! i)) | i. i < length subs}"
      using ops(4) spec subs(2) by auto
    show "set (ds_internalSubscribers s) = pub_uuid ` {sd \<in> K'. connects Deserialize s sd}" if "s \<in> set subs" for s
      using that conn subs(2) by (auto simp: in_set_conv_nth)
  qed (use safe in simp_all)
  then show ?thesis
    using subs(1) by (auto simp: store_change_def ops(1) split_beta K'_def simp flip: cs_def)
qed

lemma register_linked:
  assumes U: "proper_services Deserialize opt U" "K \<subseteq> set U" and labels: "agreed_labels (opt (''DataPublisher'', topic)) labels"
    and l: "linked Deserialize opt K (di_specificDiscoveryStore d) (di_subscribers d)" and run: "\<not> di_shuttingDown d"
  shows "\<exists>store subs. RegisterServiceDiscovery Deserialize topic mediaType labels d =
       Inr (d\<lparr>di_specificDiscoveryStore := store, di_subscribers := subs\<rparr>) \<and> linked Deserialize opt K store subs"
proof -
  let ?n = "length (di_subscribers d)"
  define new where "new = \<lparr>ds_topic = topic, ds_mediaType = mediaType, ds_labels = labels, ds_internalSubscribers = [], ds_requests = []\<rparr>"
  let ?subs = "di_subscribers d @ [new]"
  obtain ops where ops: "di_specificDiscoveryStore d = store_after Deserialize ops" "safe_history Deserialize ops"
      "set (live_services ops) = K"
      "set (registrations ops) = {(i, (''DataPublisher'', ds_topic (di_subscribers d ! i)), ds_labels (di_subscribers d ! i)) | i. i < ?n}"
    using l by (auto simp: linked_def)
  let ?ops = "Register ?n ''DataPublisher'' topic labels # ops"
  have safe: "safe_history Deserialize ?ops"
    by (rule agreed_register[where opt = opt, OF ops(2)]) (use ops(3) U(2) proper_servicesD(2)[OF U(1)] labels in blast)+
  define cs where "cs = fst (store_RegisterSpecificServiceDiscoveryHandler ?n ''DataPublisher'' topic labels (store_after Deserialize ops))"
  note calls = register_calls[OF safe cs_def]
  have pub: "\<forall>(h, t', sd')\<in>set cs. is_publisher sd' \<and> complete_publisher sd'"
    using calls(2) publisher_of_filter proper_servicesD(3)[OF U(1)] U(2) ops(3) by fastforce
  obtain subs where subs: "deliver Deserialize cs ?subs = Inr subs" "length subs = Suc ?n"
      "\<And>i. i < Suc ?n \<Longrightarrow> subs ! i = after_calls Deserialize i cs (?subs ! i)"
    using deliver_effect[OF pub, of Deserialize ?subs] by auto
  have spec: "ds_topic (subs ! i) = ds_topic (?subs ! i)" "ds_labels (subs ! i) = ds_labels (?subs ! i)"
      "connects Deserialize (subs ! i) = connects Deserialize (?subs ! i)" if "i < Suc ?n" for i
    using that after_calls_spec[of Deserialize i cs "?subs ! i"] by (simp_all add: subs(3) connects_def fun_eq_iff)
  have all: "\<forall>(h, t', sd')\<in>set cs. t' = ServiceCreated" using calls(2) by auto
  have told: "told Deserialize cs i (?subs ! i) = (if i = ?n then pub_uuid ` {x \<in> K. connects Deserialize (?subs ! i) x} else {})" for i
    using calls ops(3) by (auto simp: told_def connects_def new_def)
  have conn: "set (ds_internalSubscribers (subs ! i)) = pub_uuid ` {x \<in> K. connects Deserialize (subs ! i) x}" if i: "i < Suc ?n" for i
    using after_calls_connected[OF all, of Deserialize i "?subs ! i"] l i
    unfolding subs(3)[OF i, symmetric] told spec(3)[OF i] by (auto simp: linked_def nth_append new_def less_Suc_eq)
  have "linked Deserialize opt K (store_after Deserialize ?ops) subs"
    unfolding linked_def
  proof (intro conjI exI[of _ ?ops] ballI)
    show "list_all (\<lambda>s. agreed_labels (opt (''DataPublisher'', ds_topic s)) (ds_labels s)) subs"
      using l spec(1,2) subs(2) labels by (auto simp: linked_def list_all_length nth_append new_def less_Suc_eq)
    show "set (registrations ?ops) = {(i, (''DataPublisher'', ds_topic (subs ! i)), ds_labels (subs ! i)) | i. i < length subs}"
      using ops(4) spec subs(2) by (auto simp: nth_append new_def less_Suc_eq)
    show "set (ds_internalSubscribers s) = pub_uuid ` {sd \<in> K. connects Deserialize s sd}" if "s \<in> set subs" for s
      using that conn subs(2) by (auto simp: in_set_conv_nth)
  qed (use safe ops(3) in simp_all)
  then show ?thesis
    using subs(1) run by (auto simp: RegisterServiceDiscovery_def ops(1) split_beta Let_def simp flip: cs_def new_def)
qed

text \<open>
  Services of other types, such as internal subscribers, pass the index by: announcing them changes neither the index nor
  the subscribers.
\<close>

lemma store_change_not_indexed:
  "data_item sd ''controller.type'' \<notin> set allowedControllers \<Longrightarrow> store_change Deserialize t sd d = Inr d"
  by (auto simp: store_change_def ServiceChange_def data_item_def split: option.splits)

end
