(* ===== verification/Subscriber_Discovery.thy ===== *)
theory Subscriber_Discovery
  imports Service_Discovery
begin

text \<open>
  The cache of services of a participant and the invariant that connects it with the index and the data
  subscribers: after every sequence of announcements, removals and registrations, each data subscriber has an internal
  subscriber for exactly the known publishers that match it.
\<close>

section \<open>The cache\<close>

lemma services_of_set [simp]: "services_of n' (set_services_of n m d) = (if n' = n then m else services_of n' d)"
  by (simp add: services_of_def set_services_of_def at_update)

lemma known_services_iff:
  assumes "cache_ok d"
  shows "sd \<in> known_services d \<longleftrightarrow> (\<exists>n k. (k, sd) \<in> set (services_of n d))"
proof
  assume "sd \<in> known_services d"
  then obtain n m k where m: "(n, m) \<in> set (di_servicesByParticipant d)" "(k, sd) \<in> set m"
    by (auto simp: known_services_def GetServices_def)
  then have "services_of n d = m" using assms by (simp add: services_of_def at_def cache_ok_def)
  then show "\<exists>n k. (k, sd) \<in> set (services_of n d)" using m(2) by blast
next
  assume "\<exists>n k. (k, sd) \<in> set (services_of n d)"
  then obtain n k where k: "(k, sd) \<in> set (services_of n d)" by blast
  then obtain m where m: "map_of (di_servicesByParticipant d) n = Some m" "(k, sd) \<in> set m"
    by (cases "map_of (di_servicesByParticipant d) n") (auto simp: services_of_def at_def)
  from map_of_SomeD[OF m(1)] m(2) show "sd \<in> known_services d"
    by (force simp: known_services_def GetServices_def)
qed

text \<open>The services filed under one participant.\<close>

definition map_ok :: "string \<Rightarrow> ServiceMap \<Rightarrow> bool" where
  "map_ok n m \<longleftrightarrow> distinct (map fst m) \<and> (\<forall>(k, sd)\<in>set m. sd_participantName sd = n \<and> service_to_string sd = Inr k)"

lemma cache_ok_iff: "cache_ok d \<longleftrightarrow> distinct (map fst (di_servicesByParticipant d)) \<and>
    (\<forall>(n, m)\<in>set (di_servicesByParticipant d). map_ok n m)"
  by (auto simp: cache_ok_def map_ok_def)

lemma services_of_ok: "cache_ok d \<Longrightarrow> map_ok n (services_of n d)"
  by (auto simp: cache_ok_iff services_of_def at_def split: option.split dest!: map_of_SomeD)
     (simp add: map_ok_def)

lemma update_cases: "(n', m') \<in> set (AList.update n m xs) \<Longrightarrow> (n', m') \<in> set xs \<or> n' = n \<and> m' = m"
  by (induction xs) (auto split: if_splits)

lemma update_ok: "map_ok n m \<Longrightarrow> sd_participantName sd = n \<Longrightarrow> service_to_string sd = Inr k \<Longrightarrow> map_ok n (AList.update k sd m)"
  by (auto simp: map_ok_def distinct_update dest!: update_cases)

lemma delete_ok: "map_ok n m \<Longrightarrow> map_ok n (AList.delete k m)"
  using distinct_delete[of m k] by (auto simp: map_ok_def AList.delete_eq)

lemma set_services_ok:
  assumes "cache_ok d" "map_ok n m"
  shows "cache_ok (set_services_of n m d)"
  using assms by (auto simp: cache_ok_iff set_services_of_def distinct_update dest!: update_cases)

lemma set_services_fields [simp]:
  "di_participantName (set_services_of n m d) = di_participantName d"
  "di_specificDiscoveryStore (set_services_of n m d) = di_specificDiscoveryStore d"
  "di_subscribers (set_services_of n m d) = di_subscribers d"
  "di_shuttingDown (set_services_of n m d) = di_shuttingDown d"
  by (simp_all add: set_services_of_def)

lemma known_set_services:
  assumes "cache_ok d" "map_ok n m"
  shows "known_services (set_services_of n m d) = (known_services d - snd ` set (services_of n d)) \<union> snd ` set m"
proof -
  have p: "n' = n''" if "(k, sd) \<in> set (services_of n' d)" "(k', sd) \<in> set (services_of n'' d)" for k k' sd n' n''
    using that services_of_ok[OF assms(1), of n'] services_of_ok[OF assms(1), of n''] by (auto simp: map_ok_def)
  show ?thesis
  proof (intro set_eqI)
    fix sd
    show "sd \<in> known_services (set_services_of n m d) \<longleftrightarrow> sd \<in> (known_services d - snd ` set (services_of n d)) \<union> snd ` set m"
      unfolding known_services_iff[OF set_services_ok[OF assms]] Un_iff Diff_iff known_services_iff[OF assms(1)]
      using p by (simp add: image_iff Bex_def) metis
  qed
qed

lemma known_touch: "cache_ok d \<Longrightarrow> known_services (set_services_of n (services_of n d) d) = known_services d"
  by (auto simp: known_set_services services_of_ok) (auto simp: known_services_iff)

lemma snd_update: "k \<notin> fst ` set m \<Longrightarrow> snd ` set (AList.update k sd m) = insert sd (snd ` set m)"
  by (induction m) auto

lemma known_update:
  assumes "cache_ok d" "service_to_string sd = Inr k" "map_of (services_of (sd_participantName sd) d) k = None"
  shows "known_services (set_services_of (sd_participantName sd) (AList.update k sd (services_of (sd_participantName sd) d)) d) =
    insert sd (known_services d)"
proof -
  let ?n = "sd_participantName sd"
  have "k \<notin> fst ` set (services_of ?n d)" using assms(3) by (simp add: map_of_eq_None_iff)
  moreover have "snd ` set (services_of ?n d) \<subseteq> known_services d" by (auto simp: known_services_iff[OF assms(1)]; blast)
  ultimately show ?thesis
    using known_set_services[OF assms(1) update_ok[OF services_of_ok[OF assms(1), of ?n] refl assms(2)]] by (auto simp: snd_update)
qed

lemma known_delete:
  assumes "cache_ok d" "service_to_string sd = Inr k"
    and only: "\<And>sd'. sd' \<in> known_services d \<Longrightarrow> service_to_string sd' = Inr k \<Longrightarrow> sd' = sd"
  shows "known_services (set_services_of (sd_participantName sd) (AList.delete k (services_of (sd_participantName sd) d)) d) =
    known_services d - {sd}"
proof -
  let ?n = "sd_participantName sd"
  let ?m = "services_of ?n d"
  have ok: "map_ok ?n ?m" by (rule services_of_ok[OF assms(1)])
  have sub: "sd' \<in> known_services d" if "(k', sd') \<in> set ?m" for k' sd' using that by (auto simp: known_services_iff[OF assms(1)])
  have other: "(k', sd) \<in> set ?m \<Longrightarrow> k' = k" for k' using ok assms(2) by (auto simp: map_ok_def)
  have own: "sd \<in> snd ` set ?m" if known: "sd \<in> known_services d"
  proof -
    obtain n k' where n: "(k', sd) \<in> set (services_of n d)" using known unfolding known_services_iff[OF assms(1)] by blast
    then have "n = ?n" using services_of_ok[OF assms(1), of n] by (auto simp: map_ok_def)
    then show ?thesis using n by force
  qed
  have "snd ` set (AList.delete k ?m) = snd ` set ?m - {sd}"
  proof (intro equalityI subsetI)
    fix x assume "x \<in> snd ` set (AList.delete k ?m)"
    then show "x \<in> snd ` set ?m - {sd}" using other by (force simp: AList.delete_eq)
  next
    fix x assume "x \<in> snd ` set ?m - {sd}"
    then obtain k' where "(k', x) \<in> set ?m" "x \<noteq> sd" by auto
    moreover from this have "k' \<noteq> k" using only[OF sub] ok by (auto simp: map_ok_def)
    ultimately show "x \<in> snd ` set (AList.delete k ?m)" by (force simp: AList.delete_eq)
  qed
  then show ?thesis
    using known_set_services[OF assms(1) delete_ok[OF ok, of k]] own sub by auto
qed

section \<open>The invariant\<close>

definition discovery_inv :: "(string \<Rightarrow> MatchingLabel list) \<Rightarrow> (FilterType \<Rightarrow> string list) \<Rightarrow>
    ServiceDescriptor list \<Rightarrow> ServiceDiscovery \<Rightarrow> bool" where
  "discovery_inv Deserialize opt U d \<longleftrightarrow> \<not> di_shuttingDown d \<and> cache_ok d \<and> known_services d \<subseteq> set U \<and>
     linked Deserialize opt (known_services d) (di_specificDiscoveryStore d) (di_subscribers d)"

lemma known_fields [simp]:
  "known_services (d\<lparr>di_specificDiscoveryStore := store\<rparr>) = known_services d"
  "known_services (d\<lparr>di_subscribers := subs\<rparr>) = known_services d"
  "known_services (d\<lparr>di_calls := calls\<rparr>) = known_services d"
  "known_services (d\<lparr>di_sent := sent\<rparr>) = known_services d"
  "known_services (d\<lparr>di_handlers := hs\<rparr>) = known_services d"
  by (simp_all add: known_services_def GetServices_def)

lemma cache_fields [simp]:
  "cache_ok (d\<lparr>di_specificDiscoveryStore := store\<rparr>) = cache_ok d"
  "cache_ok (d\<lparr>di_subscribers := subs\<rparr>) = cache_ok d"
  "cache_ok (d\<lparr>di_calls := calls\<rparr>) = cache_ok d"
  "cache_ok (d\<lparr>di_sent := sent\<rparr>) = cache_ok d"
  "cache_ok (d\<lparr>di_handlers := hs\<rparr>) = cache_ok d"
  by (simp_all add: cache_ok_def)

lemma inv_fields [simp]:
  "discovery_inv Deserialize opt U (d\<lparr>di_calls := calls\<rparr>) = discovery_inv Deserialize opt U d"
  "discovery_inv Deserialize opt U (d\<lparr>di_sent := sent\<rparr>) = discovery_inv Deserialize opt U d"
  "discovery_inv Deserialize opt U (d\<lparr>di_handlers := hs\<rparr>) = discovery_inv Deserialize opt U d"
  "discovery_inv Deserialize opt U (CallHandlers t sd d) = discovery_inv Deserialize opt U d"
  by (simp_all add: discovery_inv_def CallHandlers_def)

lemma inv_new: "discovery_inv Deserialize opt U (ServiceDiscovery_new name)"
proof -
  have "linked Deserialize opt {} [] []" unfolding linked_def
    by (intro conjI exI[of _ "[]"]) simp_all
  then show ?thesis by (simp add: discovery_inv_def ServiceDiscovery_new_def cache_ok_def known_services_def GetServices_def)
qed

lemma inv_touch: "discovery_inv Deserialize opt U d \<Longrightarrow> discovery_inv Deserialize opt U (set_services_of n (services_of n d) d)"
  by (simp add: discovery_inv_def known_touch set_services_ok services_of_ok)

lemma inv_announce: "discovery_inv Deserialize opt U d \<Longrightarrow> discovery_inv Deserialize opt U (AnnounceLocalParticipantTo other d)"
  by (simp add: AnnounceLocalParticipantTo_def Let_def inv_touch)

lemma services_announce [simp]:
  "services_of n (AnnounceLocalParticipantTo other d) = services_of n d"
  "services_of n (d\<lparr>di_specificDiscoveryStore := store\<rparr>) = services_of n d"
  "services_of n (d\<lparr>di_subscribers := subs\<rparr>) = services_of n d"
  "services_of n (d\<lparr>di_calls := calls\<rparr>) = services_of n d"
  by (simp_all add: AnnounceLocalParticipantTo_def Let_def services_of_def set_services_of_def at_update)

lemma store_change_frame:
  assumes "store_change Deserialize t sd d = Inr (d\<lparr>di_specificDiscoveryStore := store, di_subscribers := subs\<rparr>)"
    and "di_specificDiscoveryStore d' = di_specificDiscoveryStore d" "di_subscribers d' = di_subscribers d"
  shows "store_change Deserialize t sd d' = Inr (d'\<lparr>di_specificDiscoveryStore := store, di_subscribers := subs\<rparr>)"
  using assms by (cases d) (auto simp: store_change_def split_beta bindE_def split: sum.splits)

text \<open>Filing a new service in the cache and in the index, in either order.\<close>

lemma inv_add:
  assumes U: "proper_services Deserialize opt U" "sd \<in> set U" and inv: "discovery_inv Deserialize opt U d"
    and new: "service_to_string sd = Inr k" "map_of (services_of (sd_participantName sd) d) k = None"
  defines "d' \<equiv> set_services_of (sd_participantName sd) (AList.update k sd (services_of (sd_participantName sd) d)) d"
  shows "\<exists>store subs. store_change Deserialize ServiceCreated sd d = Inr (d\<lparr>di_specificDiscoveryStore := store, di_subscribers := subs\<rparr>) \<and>
    store_change Deserialize ServiceCreated sd d' = Inr (d'\<lparr>di_specificDiscoveryStore := store, di_subscribers := subs\<rparr>) \<and>
    discovery_inv Deserialize opt U (d'\<lparr>di_specificDiscoveryStore := store, di_subscribers := subs\<rparr>)"
proof -
  have c: "cache_ok d" "known_services d \<subseteq> set U" "linked Deserialize opt (known_services d) (di_specificDiscoveryStore d) (di_subscribers d)"
    using inv by (simp_all add: discovery_inv_def)
  obtain store subs where s: "store_change Deserialize ServiceCreated sd d = Inr (d\<lparr>di_specificDiscoveryStore := store, di_subscribers := subs\<rparr>)"
      "linked Deserialize opt (insert sd (known_services d)) store subs"
    using store_change_linked[OF U c(2,3), of ServiceCreated] by auto
  have "store_change Deserialize ServiceCreated sd d' = Inr (d'\<lparr>di_specificDiscoveryStore := store, di_subscribers := subs\<rparr>)"
    using s(1) by (rule store_change_frame) (simp_all add: d'_def)
  moreover have "known_services d' = insert sd (known_services d)" unfolding d'_def by (rule known_update[OF c(1) new])
  moreover have "cache_ok d'"
    unfolding d'_def by (rule set_services_ok[OF c(1) update_ok[OF services_of_ok[OF c(1)] refl new(1)]])
  ultimately show ?thesis using s c(2) U(2) inv by (auto simp: discovery_inv_def d'_def)
qed

lemma inv_OnServiceAddition:
  assumes U: "proper_services Deserialize opt U" "sd \<in> set U" and inv: "discovery_inv Deserialize opt U d"
  shows "\<exists>d'. OnServiceAddition Deserialize sd d = Inr d' \<and> discovery_inv Deserialize opt U d'"
proof -
  let ?n = "sd_participantName sd"
  obtain k where k: "service_to_string sd = Inr k" using proper_servicesD(1)[OF U] by blast
  define d1 where "d1 = set_services_of ?n (services_of ?n d) d"
  define d2 where "d2 = (if ?n \<noteq> di_participantName d1 \<and> data_item sd ''controller.type'' = ''ServiceDiscovery''
                         then AnnounceLocalParticipantTo ?n d1 else d1)"
  have i: "discovery_inv Deserialize opt U d1" "discovery_inv Deserialize opt U d2"
    unfolding d2_def using inv_touch[OF inv] by (auto simp: d1_def inv_announce)
  have s: "services_of ?n d2 = services_of ?n d1" by (simp add: d2_def)
  have eq: "OnServiceAddition Deserialize sd d = (if map_of (services_of ?n d1) k \<noteq> None then Inr d1
      else bindE (store_change Deserialize ServiceCreated sd (set_services_of ?n (AList.update k sd (services_of ?n d2)) d2))
        (\<lambda>d. Inr (CallHandlers ServiceCreated sd d)))"
    unfolding OnServiceAddition_def Let_def k d1_def[symmetric] d2_def[symmetric] by simp
  show ?thesis
  proof (cases "map_of (services_of ?n d1) k")
    case None
    then show ?thesis using inv_add[OF U i(2) k] unfolding eq by (auto simp: s)
  next
    case (Some sd')
    then show ?thesis using i(1) unfolding eq by simp
  qed
qed

lemma inv_remove:
  assumes U: "proper_services Deserialize opt U" "sd \<in> set U" and inv: "discovery_inv Deserialize opt U d"
    and k: "service_to_string sd = Inr k"
  defines "d' \<equiv> set_services_of (sd_participantName sd) (AList.delete k (services_of (sd_participantName sd) d)) d"
  shows "\<exists>d''. store_change Deserialize ServiceRemoved sd d' = Inr d'' \<and> discovery_inv Deserialize opt U d''"
proof -
  have c: "cache_ok d" "known_services d \<subseteq> set U" "linked Deserialize opt (known_services d) (di_specificDiscoveryStore d) (di_subscribers d)"
    using inv by (simp_all add: discovery_inv_def)
  have kn: "known_services d' = known_services d - {sd}"
    unfolding d'_def using proper_servicesD(4)[OF U(1) _ U(2)] c(2) k by (intro known_delete[OF c(1) k]) auto
  have ok: "cache_ok d'" unfolding d'_def by (rule set_services_ok[OF c(1) delete_ok[OF services_of_ok[OF c(1)]]])
  have "linked Deserialize opt (known_services d) (di_specificDiscoveryStore d') (di_subscribers d')" using c(3) by (simp add: d'_def)
  from store_change_linked[OF U c(2) this, of ServiceRemoved] obtain store subs where
      s: "store_change Deserialize ServiceRemoved sd d' = Inr (d'\<lparr>di_specificDiscoveryStore := store, di_subscribers := subs\<rparr>)"
      "linked Deserialize opt (known_services d - {sd}) store subs" by auto
  then show ?thesis using kn ok c(2) inv by (auto simp: discovery_inv_def d'_def)
qed

lemma inv_OnServiceRemoval:
  assumes U: "proper_services Deserialize opt U" "sd \<in> set U" and inv: "discovery_inv Deserialize opt U d"
  shows "\<exists>d'. OnServiceRemoval Deserialize sd d = Inr d' \<and> discovery_inv Deserialize opt U d'"
proof -
  let ?n = "sd_participantName sd"
  obtain k where k: "service_to_string sd = Inr k" using proper_servicesD(1)[OF U] by blast
  define d1 where "d1 = set_services_of ?n (services_of ?n d) d"
  have i: "discovery_inv Deserialize opt U d1" unfolding d1_def by (rule inv_touch[OF inv])
  show ?thesis
    using inv_remove[OF U i k] i unfolding OnServiceRemoval_def Let_def k d1_def[symmetric] by auto
qed

lemma inv_add_services:
  assumes U: "proper_services Deserialize opt U" and inv: "discovery_inv Deserialize opt U d"
    and sds: "list_all (\<lambda>sd. sd \<in> set U \<and> sd_participantName sd = n) sds"
  shows "\<exists>d'. add_services Deserialize n sds d = Inr d' \<and> discovery_inv Deserialize opt U d'"
  using inv sds
proof (induction sds arbitrary: d)
  case (Cons sd sds)
  then have sd: "sd \<in> set U" "sd_participantName sd = n" by simp_all
  obtain k where k: "service_to_string sd = Inr k" using proper_servicesD(1)[OF U sd(1)] by blast
  show ?case
  proof (cases "map_of (services_of n d) k")
    case None
    obtain store subs where s: "store_change Deserialize ServiceCreated sd d = Inr (d\<lparr>di_specificDiscoveryStore := store, di_subscribers := subs\<rparr>)"
        "discovery_inv Deserialize opt U ((set_services_of n (AList.update k sd (services_of n d)) d)
           \<lparr>di_specificDiscoveryStore := store, di_subscribers := subs\<rparr>)"
      using inv_add[OF U sd(1) Cons.prems(1) k] None by (auto simp: sd(2))
    have comm: "set_services_of n m (d\<lparr>di_specificDiscoveryStore := store, di_subscribers := subs\<rparr>) =
        (set_services_of n m d)\<lparr>di_specificDiscoveryStore := store, di_subscribers := subs\<rparr>" for m
      by (simp add: set_services_of_def)
    show ?thesis using Cons s None by (simp add: k comm)
  next
    case (Some sd')
    then show ?thesis using Cons by (simp add: k)
  qed
qed simp

lemma remove_services_linked:
  assumes U: "proper_services Deserialize opt U"
    and l: "linked Deserialize opt K (di_specificDiscoveryStore d) (di_subscribers d)" and sub: "set sds \<subseteq> set U" "K \<subseteq> set U"
  shows "\<exists>store subs calls. remove_services Deserialize sds d =
      Inr (d\<lparr>di_specificDiscoveryStore := store, di_subscribers := subs, di_calls := calls\<rparr>) \<and>
      linked Deserialize opt (K - set sds) store subs"
  using l sub
proof (induction sds arbitrary: d K)
  case Nil
  then show ?case by (auto intro!: exI[of _ "di_specificDiscoveryStore d"] exI[of _ "di_subscribers d"] exI[of _ "di_calls d"])
next
  case (Cons sd sds)
  then have sd: "sd \<in> set U" "set sds \<subseteq> set U" "K - {sd} \<subseteq> set U" by auto
  obtain store subs where s: "store_change Deserialize ServiceRemoved sd d = Inr (d\<lparr>di_specificDiscoveryStore := store, di_subscribers := subs\<rparr>)"
      "linked Deserialize opt (K - {sd}) store subs"
    using store_change_linked[OF U sd(1) Cons.prems(3,1), of ServiceRemoved] by auto
  let ?d = "CallHandlers ServiceRemoved sd (d\<lparr>di_specificDiscoveryStore := store, di_subscribers := subs\<rparr>)"
  have "linked Deserialize opt (K - {sd}) (di_specificDiscoveryStore ?d) (di_subscribers ?d)" using s(2) by (simp add: CallHandlers_def)
  from Cons.IH[OF this sd(2,3)] obtain store' subs' calls' where
      r: "remove_services Deserialize sds ?d = Inr (?d\<lparr>di_specificDiscoveryStore := store', di_subscribers := subs', di_calls := calls'\<rparr>)"
      "linked Deserialize opt (K - {sd} - set sds) store' subs'" by auto
  have "K - {sd} - set sds = K - set (sd # sds)" by auto
  then show ?case using r s(1)
    by (auto intro!: exI[of _ store'] exI[of _ subs'] exI[of _ calls'] simp: CallHandlers_def)
qed

lemma inv_OnParticpantRemoval:
  assumes U: "proper_services Deserialize opt U" and inv: "discovery_inv Deserialize opt U d"
  shows "\<exists>d'. discovery_OnParticpantRemoval Deserialize n d = Inr d' \<and> discovery_inv Deserialize opt U d'"
proof (cases "n = di_participantName d \<or> map_of (di_servicesByParticipant d) n = None")
  case True
  then show ?thesis using inv by (auto simp: discovery_OnParticpantRemoval_def)
next
  case False
  then obtain m where m: "map_of (di_servicesByParticipant d) n = Some m" "n \<noteq> di_participantName d" by auto
  have c: "cache_ok d" "known_services d \<subseteq> set U" "linked Deserialize opt (known_services d) (di_specificDiscoveryStore d) (di_subscribers d)"
    using inv by (simp_all add: discovery_inv_def)
  have sm: "services_of n d = m" using m(1) by (simp add: services_of_def at_def)
  have sub: "set (map snd m) \<subseteq> known_services d"
  proof
    fix sd assume "sd \<in> set (map snd m)"
    then show "sd \<in> known_services d" unfolding known_services_iff[OF c(1)] using sm by force
  qed
  let ?del = "\<lambda>d. d\<lparr>di_servicesByParticipant := AList.delete n (di_servicesByParticipant d)\<rparr>"
  have ok: "cache_ok (?del d)"
    using c(1) distinct_delete[of "di_servicesByParticipant d" n] by (auto simp: cache_ok_iff AList.delete_eq)
  have so: "services_of n' (?del d) = (if n' = n then [] else services_of n' d)" for n'
    by (simp add: services_of_def at_def delete_conv' map_of_delete)
  have own: "n' = sd_participantName sd" if "(k, sd) \<in> set (services_of n' d)" for k sd n'
    using that services_of_ok[OF c(1), of n'] by (auto simp: map_ok_def)
  have kn: "known_services (?del d) = known_services d - set (map snd m)"
  proof (intro set_eqI)
    fix sd
    show "sd \<in> known_services (?del d) \<longleftrightarrow> sd \<in> known_services d - set (map snd m)"
      unfolding known_services_iff[OF ok] Diff_iff known_services_iff[OF c(1)] so
      using own unfolding sm[symmetric] by (simp add: image_iff Bex_def) metis
  qed
  obtain store subs calls where r: "remove_services Deserialize (map snd m) d =
      Inr (d\<lparr>di_specificDiscoveryStore := store, di_subscribers := subs, di_calls := calls\<rparr>)"
      "linked Deserialize opt (known_services d - set (map snd m)) store subs"
    using remove_services_linked[OF U c(3) subset_trans[OF sub c(2)] c(2)] by blast
  let ?d = "(?del d)\<lparr>di_specificDiscoveryStore := store, di_subscribers := subs, di_calls := calls\<rparr>"
  have "discovery_OnParticpantRemoval Deserialize n d = Inr ?d"
    using m r(1) by (simp add: discovery_OnParticpantRemoval_def)
  moreover have "discovery_inv Deserialize opt U ?d"
    using kn ok r(2) c(2) inv by (auto simp: discovery_inv_def)
  ultimately show ?thesis by blast
qed

lemma discovery_inv_step:
  assumes U: "proper_services Deserialize opt U" and inv: "discovery_inv Deserialize opt U d" and e: "proper_event opt U e"
  shows "\<exists>d'. discovery_step Deserialize e d = Inr d' \<and> discovery_inv Deserialize opt U d'"
proof -
  have run: "\<not> di_shuttingDown d" using inv by (simp add: discovery_inv_def)
  show ?thesis
  proof (cases e)
    case (D_Created sd)
    then show ?thesis using inv_OnServiceAddition[OF U _ inv, of sd] e run by (auto simp: NotifyServiceCreated_def)
  next
    case (D_Removed sd)
    then show ?thesis using inv_OnServiceRemoval[OF U _ inv, of sd] e run by (auto simp: NotifyServiceRemoved_def)
  next
    case (D_ServiceEvent msg)
    then show ?thesis
      using inv_OnServiceAddition[OF U _ inv, of "sde_serviceDescriptor msg"] inv_OnServiceRemoval[OF U _ inv, of "sde_serviceDescriptor msg"] e run
      by (auto simp: ReceiveMsg_ServiceDiscoveryEvent_def)
  next
    case (D_ParticipantEvent msg)
    then show ?thesis using inv_add_services[OF U inv_touch[OF inv]] e run by (simp add: ReceiveMsg_ParticipantDiscoveryEvent_def)
  next
    case (D_ParticipantRemoval n)
    then show ?thesis using inv_OnParticpantRemoval[OF U inv] by simp
  next
    case (D_Handler h)
    then show ?thesis using inv run by (simp add: RegisterServiceDiscoveryHandler_def)
  next
    case (D_Subscriber topic mediaType labels)
    have "known_services d \<subseteq> set U" "linked Deserialize opt (known_services d) (di_specificDiscoveryStore d) (di_subscribers d)"
      using inv by (simp_all add: discovery_inv_def)
    from register_linked[OF U this(1) _ this(2) run, of topic labels mediaType] show ?thesis
      using D_Subscriber e inv by (auto simp: discovery_inv_def)
  qed
qed

lemma discovery_inv_run:
  assumes "proper_services Deserialize opt U" "discovery_inv Deserialize opt U d" "list_all (proper_event opt U) es"
  shows "\<exists>d'. discovery_run Deserialize es d = Inr d' \<and> discovery_inv Deserialize opt U d'"
  using assms(2,3)
proof (induction es arbitrary: d)
  case (Cons e es)
  then obtain d' where "discovery_step Deserialize e d = Inr d'" "discovery_inv Deserialize opt U d'"
    using discovery_inv_step[OF assms(1) Cons.prems(1), of e] by auto
  then show ?case using Cons by simp
qed simp

section \<open>Properties\<close>

text \<open>
  C4: Service discovery never fails on services that carry their data, and after every sequence of
  local and remote announcements, removals, participants leaving and registrations, a data subscriber holds an internal
  subscriber for exactly those known data publishers whose topic, media type and labels match it, whatever came first. Labels may
  be mandatory or optional, but the partners of a topic have to agree on the keys of optional labels: a key that is optional for one of
  them occurs among the labels of each of them. (Without this the index misses partners, see
  \<^verbatim>\<open>new_optional_key_hides_services\<close>.)
\<close>

theorem subscribers_know_their_publishers:
  assumes "proper_services Deserialize opt U" "list_all (proper_event opt U) es"
  shows "\<exists>d. discovery_run Deserialize es (ServiceDiscovery_new name) = Inr d \<and>
    (\<forall>s\<in>set (di_subscribers d). set (ds_internalSubscribers s) = pub_uuid ` {sd \<in> set (GetServices d). connects Deserialize s sd})"
  using discovery_inv_run[OF assms(1) inv_new assms(2), of name]
  by (auto simp: discovery_inv_def linked_def known_services_def)

text \<open>Two publishers, a subscriber registered between their announcements, and a participant that leaves.\<close>

definition sample_service :: "string \<Rightarrow> u64 \<Rightarrow> ServiceDescriptor" where
  "sample_service participant i = (sample_publisher i ''x'')\<lparr>sd_participantName := participant, sd_participantId := i\<rparr>"

definition sample_discovery_events :: "discovery_event list" where
  "sample_discovery_events =
     [D_ServiceEvent \<lparr>sde_type = 1, sde_serviceDescriptor = sample_service ''P'' 1\<rparr>, D_Subscriber ''t'' ''m'' [sample_label Optional ''x''],
      D_ParticipantEvent \<lparr>pde_participantName = ''Q'', pde_version = 1, pde_services = [sample_service ''Q'' 2]\<rparr>, D_ParticipantRemoval ''P'']"

theorem subscribers_know_their_publishers_witness:
  "\<exists>d. discovery_run sample_Deserialize sample_discovery_events (ServiceDiscovery_new ''A'') = Inr d \<and>
    (\<forall>s\<in>set (di_subscribers d). set (ds_internalSubscribers s) =
       pub_uuid ` {sd \<in> set (GetServices d). connects sample_Deserialize s sd})"
proof -
  have "proper_services sample_Deserialize (\<lambda>_. [''x'']) [sample_service ''P'' 1, sample_service ''Q'' 2]" by code_simp
  moreover have "list_all (proper_event (\<lambda>_. [''x'']) [sample_service ''P'' 1, sample_service ''Q'' 2]) sample_discovery_events" by code_simp
  ultimately show ?thesis by (rule subscribers_know_their_publishers)
qed

lemma sample_discovery_run:
  "case discovery_run sample_Deserialize sample_discovery_events (ServiceDiscovery_new ''A'') of
     Inl e \<Rightarrow> False | Inr d \<Rightarrow> map ds_internalSubscribers (di_subscribers d) = [[[char_of (2 :: nat)]]]"
  by code_simp

end
