(* ===== verification/Lin_Nodes.thy ===== *)
theory Lin_Nodes
  imports Bus_Messages VAsio_Messages
begin

text \<open>
  The table in which a LIN controller keeps what it knows of the nodes of its network
  (\<^verbatim>\<open>LinController::LinNode\<close>, \<^verbatim>\<open>GetLinNode\<close> of services/lin/LinController.cpp): a vector sorted by the address of
  the nodes that is searched with \<^verbatim>\<open>std::lower_bound\<close> and grows on demand. It is shown to implement the
  interface of a table with default entries.
\<close>

section \<open>Enumerations\<close>

text \<open>The values of the enumerations are those of include/silkit/capi/Lin.h.\<close>

abbreviation Mode_Inactive :: u8 where "Mode_Inactive \<equiv> 0"
abbreviation Mode_Master :: u8 where "Mode_Master \<equiv> 1"
abbreviation Mode_Slave :: u8 where "Mode_Slave \<equiv> 2"
abbreviation Status_Unknown :: u32 where "Status_Unknown \<equiv> 0"
abbreviation Status_Operational :: u32 where "Status_Operational \<equiv> 1"
abbreviation Status_Sleep :: u32 where "Status_Sleep \<equiv> 2"
abbreviation Status_SleepPending :: u32 where "Status_SleepPending \<equiv> 3"
abbreviation Response_Unused :: u8 where "Response_Unused \<equiv> 0"
abbreviation Response_Rx :: u8 where "Response_Rx \<equiv> 1"
abbreviation Response_TxUnconditional :: u8 where "Response_TxUnconditional \<equiv> 2"
abbreviation MasterResponse :: u8 where "MasterResponse \<equiv> 0"
abbreviation SlaveResponse :: u8 where "SlaveResponse \<equiv> 1"
abbreviation SlaveToSlave :: u8 where "SlaveToSlave \<equiv> 2"
abbreviation Simulation_Default :: u8 where "Simulation_Default \<equiv> 0"
abbreviation Simulation_Dynamic :: u8 where "Simulation_Dynamic \<equiv> 1"
abbreviation LIN_NOT_OK :: u8 where "LIN_NOT_OK \<equiv> 0"
abbreviation LIN_TX_OK :: u8 where "LIN_TX_OK \<equiv> 1"
abbreviation LIN_TX_BUSY :: u8 where "LIN_TX_BUSY \<equiv> 2"
abbreviation LIN_TX_HEADER_ERROR :: u8 where "LIN_TX_HEADER_ERROR \<equiv> 3"
abbreviation LIN_TX_ERROR :: u8 where "LIN_TX_ERROR \<equiv> 4"
abbreviation LIN_RX_OK :: u8 where "LIN_RX_OK \<equiv> 5"
abbreviation LIN_RX_BUSY :: u8 where "LIN_RX_BUSY \<equiv> 6"
abbreviation LIN_RX_ERROR :: u8 where "LIN_RX_ERROR \<equiv> 7"
abbreviation LIN_RX_NO_RESPONSE :: u8 where "LIN_RX_NO_RESPONSE \<equiv> 8"
abbreviation Checksum_Unknown :: u8 where "Checksum_Unknown \<equiv> 0"
abbreviation Checksum_Classic :: u8 where "Checksum_Classic \<equiv> 2"
abbreviation LinDataLengthUnknown :: u8 where "LinDataLengthUnknown \<equiv> 255"
abbreviation Direction_TX :: u8 where "Direction_TX \<equiv> 1"
abbreviation Direction_RX :: u8 where "Direction_RX \<equiv> 2"

section \<open>The order of addresses\<close>

text \<open>\<^verbatim>\<open>operator<\<close> of \<^verbatim>\<open>EndpointAddress\<close> compares participants first.\<close>

definition address_less :: "EndpointAddress \<Rightarrow> EndpointAddress \<Rightarrow> bool" where
  "address_less lhs rhs \<longleftrightarrow> ea_participant lhs < ea_participant rhs \<or>
     (ea_participant lhs = ea_participant rhs \<and> ea_endpoint lhs < ea_endpoint rhs)"

instantiation EndpointAddress_ext :: (linorder) linorder
begin

definition less_eq_EndpointAddress_ext :: "'a EndpointAddress_ext \<Rightarrow> 'a EndpointAddress_ext \<Rightarrow> bool" where
  "less_eq_EndpointAddress_ext a b \<longleftrightarrow> ea_participant a < ea_participant b \<or>
     (ea_participant a = ea_participant b \<and> (ea_endpoint a < ea_endpoint b \<or>
       (ea_endpoint a = ea_endpoint b \<and> EndpointAddress.more a \<le> EndpointAddress.more b)))"

definition less_EndpointAddress_ext :: "'a EndpointAddress_ext \<Rightarrow> 'a EndpointAddress_ext \<Rightarrow> bool" where
  "less_EndpointAddress_ext a b \<longleftrightarrow> a \<le> b \<and> \<not> b \<le> a"

instance
  by intro_classes (auto simp: less_eq_EndpointAddress_ext_def less_EndpointAddress_ext_def)

end

lemma address_less_iff: "address_less a b \<longleftrightarrow> a < b"
  by (auto simp: address_less_def less_EndpointAddress_ext_def less_eq_EndpointAddress_ext_def)

section \<open>Tables with default entries\<close>

text \<open>
  The interface: \<open>lookup\<close> returns an entry or its default, \<open>modify\<close> changes one entry with a function that
  respects the key. The client lemma: what a sequence of changes does to one key are the changes made to that key.
\<close>

locale keyed_table =
  fixes inv :: "'t \<Rightarrow> bool"
    and allowed :: "'k \<Rightarrow> ('v \<Rightarrow> 'v) \<Rightarrow> bool"
    and lookup :: "'k \<Rightarrow> 't \<Rightarrow> 'v"
    and modify :: "'k \<Rightarrow> ('v \<Rightarrow> 'v) \<Rightarrow> 't \<Rightarrow> 't"
  assumes inv_modify: "inv t \<Longrightarrow> allowed k f \<Longrightarrow> inv (modify k f t)"
    and lookup_modify: "inv t \<Longrightarrow> allowed k f \<Longrightarrow> lookup k' (modify k f t) = (if k' = k then f (lookup k t) else lookup k' t)"
begin

definition modify_all :: "('k \<times> ('v \<Rightarrow> 'v)) list \<Rightarrow> 't \<Rightarrow> 't" where
  "modify_all ops t = fold (\<lambda>(k, f). modify k f) ops t"

lemma inv_modify_all: "inv t \<Longrightarrow> list_all (\<lambda>(k, f). allowed k f) ops \<Longrightarrow> inv (modify_all ops t)"
  by (induction ops arbitrary: t) (auto simp: modify_all_def inv_modify)

lemma lookup_modify_all:
  assumes "inv t" "list_all (\<lambda>(k, f). allowed k f) ops"
  shows "lookup k (modify_all ops t) = fold (\<lambda>(k', f). f) (filter (\<lambda>(k', f). k' = k) ops) (lookup k t)"
  using assms by (induction ops arbitrary: t) (auto simp: modify_all_def inv_modify lookup_modify)

end

section \<open>Nodes\<close>

record LinNode =
  ln_address :: EndpointAddress
  ln_controllerMode :: u8
  ln_controllerStatus :: u32
  ln_simulationMode :: u8
  ln_responses :: "LinFrameResponse list"

definition default_LinFrame :: LinFrame where
  "default_LinFrame = \<lparr>lf_id = 0, lf_checksumModel = Checksum_Unknown, lf_dataLength = 0, lf_data = replicate 8 0\<rparr>"

definition GoToSleepFrame :: LinFrame where
  "GoToSleepFrame = \<lparr>lf_id = 0x3C, lf_checksumModel = Checksum_Classic, lf_dataLength = 8,
     lf_data = [0, 0xFF, 0xFF, 0xFF, 0xFF, 0xFF, 0xFF, 0xFF]\<rparr>"

definition default_LinFrameResponse :: LinFrameResponse where
  "default_LinFrameResponse = \<lparr>lfr_frame = default_LinFrame, lfr_responseMode = Response_Unused\<rparr>"

definition default_LinNode :: "EndpointAddress \<Rightarrow> LinNode" where
  "default_LinNode addr = \<lparr>ln_address = addr, ln_controllerMode = Mode_Inactive, ln_controllerStatus = Status_Unknown,
     ln_simulationMode = Simulation_Default, ln_responses = replicate 64 default_LinFrameResponse\<rparr>"

text \<open>Responses for identifiers outside the table are ignored with a warning.\<close>

definition UpdateResponse :: "LinFrameResponse \<Rightarrow> LinNode \<Rightarrow> LinNode" where
  "UpdateResponse response node =
     (let linId = unat (lf_id (lfr_frame response))
      in if length (ln_responses node) \<le> linId then node
         else node\<lparr>ln_responses := (ln_responses node)[linId := response]\<rparr>)"

definition UpdateResponses :: "LinFrameResponse list \<Rightarrow> LinNode \<Rightarrow> LinNode" where
  "UpdateResponses responsesToUpdate node = fold UpdateResponse responsesToUpdate node"

definition node_UpdateTxBuffer :: "u8 \<Rightarrow> bytes \<Rightarrow> LinNode \<Rightarrow> LinNode" where
  "node_UpdateTxBuffer linId data node =
     (let i = unat linId
      in if length (ln_responses node) \<le> i then node
         else node\<lparr>ln_responses := (ln_responses node)[i :=
           (ln_responses node ! i)\<lparr>lfr_frame := (lfr_frame (ln_responses node ! i))\<lparr>lf_data := data\<rparr>\<rparr>]\<rparr>)"

text \<open>\<^verbatim>\<open>std::lower_bound\<close> on a sorted vector: the first position whose element is not less.\<close>

definition lower_bound :: "EndpointAddress \<Rightarrow> LinNode list \<Rightarrow> nat" where
  "lower_bound addr nodes = length (takeWhile (\<lambda>lhs. address_less (ln_address lhs) addr) nodes)"

text \<open>The position of the node and the vector, in which it has been inserted if it was missing.\<close>

definition GetLinNode :: "EndpointAddress \<Rightarrow> LinNode list \<Rightarrow> nat \<times> LinNode list" where
  "GetLinNode addr nodes =
     (let iter = lower_bound addr nodes
      in if length nodes \<le> iter \<or> ln_address (nodes ! iter) \<noteq> addr
         then (iter, take iter nodes @ [default_LinNode addr] @ drop iter nodes)
         else (iter, nodes))"

definition read_node :: "EndpointAddress \<Rightarrow> LinNode list \<Rightarrow> LinNode \<times> LinNode list" where
  "read_node addr nodes = (let (i, nodes) = GetLinNode addr nodes in (nodes ! i, nodes))"

definition modify_node :: "EndpointAddress \<Rightarrow> (LinNode \<Rightarrow> LinNode) \<Rightarrow> LinNode list \<Rightarrow> LinNode list" where
  "modify_node addr f nodes = (let (i, nodes) = GetLinNode addr nodes in nodes[i := f (nodes ! i)])"

section \<open>The vector is a table\<close>

definition node_ok :: "LinNode \<Rightarrow> bool" where
  "node_ok node \<longleftrightarrow> length (ln_responses node) = 64"

definition nodes_ok :: "LinNode list \<Rightarrow> bool" where
  "nodes_ok nodes \<longleftrightarrow> sorted_wrt (<) (map ln_address nodes) \<and> list_all node_ok nodes"

definition node_at :: "EndpointAddress \<Rightarrow> LinNode list \<Rightarrow> LinNode" where
  "node_at addr nodes = (case find (\<lambda>n. ln_address n = addr) nodes of None \<Rightarrow> default_LinNode addr | Some n \<Rightarrow> n)"

definition node_change :: "EndpointAddress \<Rightarrow> (LinNode \<Rightarrow> LinNode) \<Rightarrow> bool" where
  "node_change addr f \<longleftrightarrow> (\<forall>n. ln_address n = addr \<longrightarrow> node_ok n \<longrightarrow> ln_address (f n) = addr \<and> node_ok (f n))"

lemma default_LinNode_ok [simp]: "node_ok (default_LinNode addr)" "ln_address (default_LinNode addr) = addr"
  by (simp_all add: node_ok_def default_LinNode_def)

lemma node_ok_fields [simp]:
  "node_ok (n\<lparr>ln_controllerMode := m\<rparr>) = node_ok n" "node_ok (n\<lparr>ln_controllerStatus := s\<rparr>) = node_ok n"
  "node_ok (n\<lparr>ln_simulationMode := x\<rparr>) = node_ok n"
  by (simp_all add: node_ok_def)

lemma UpdateResponse_ok [simp]:
  "ln_address (UpdateResponse r n) = ln_address n" "node_ok (UpdateResponse r n) = node_ok n"
  "ln_controllerMode (UpdateResponse r n) = ln_controllerMode n" "ln_controllerStatus (UpdateResponse r n) = ln_controllerStatus n"
  "ln_simulationMode (UpdateResponse r n) = ln_simulationMode n" "length (ln_responses (UpdateResponse r n)) = length (ln_responses n)"
  by (simp_all add: UpdateResponse_def Let_def node_ok_def)

lemma UpdateResponses_ok [simp]:
  "ln_address (UpdateResponses rs n) = ln_address n" "node_ok (UpdateResponses rs n) = node_ok n"
  "ln_controllerMode (UpdateResponses rs n) = ln_controllerMode n" "ln_controllerStatus (UpdateResponses rs n) = ln_controllerStatus n"
  "ln_simulationMode (UpdateResponses rs n) = ln_simulationMode n" "length (ln_responses (UpdateResponses rs n)) = length (ln_responses n)"
  unfolding UpdateResponses_def by (induction rs arbitrary: n) simp_all

lemma node_UpdateTxBuffer_ok [simp]:
  "ln_address (node_UpdateTxBuffer i d n) = ln_address n" "node_ok (node_UpdateTxBuffer i d n) = node_ok n"
  "ln_controllerMode (node_UpdateTxBuffer i d n) = ln_controllerMode n"
  "ln_controllerStatus (node_UpdateTxBuffer i d n) = ln_controllerStatus n"
  "ln_simulationMode (node_UpdateTxBuffer i d n) = ln_simulationMode n"
  by (simp_all add: node_UpdateTxBuffer_def Let_def node_ok_def)

text \<open>How the position splits a sorted vector.\<close>

lemma lower_bound_split:
  assumes "nodes_ok nodes"
  obtains xs ys where "nodes = xs @ ys" "lower_bound addr nodes = length xs" "\<forall>n\<in>set xs. ln_address n < addr"
    "\<forall>n\<in>set ys. addr \<le> ln_address n" "sorted_wrt (<) (map ln_address ys)"
proof -
  let ?p = "\<lambda>n. address_less (ln_address n) addr"
  let ?xs = "takeWhile ?p nodes"
  let ?ys = "dropWhile ?p nodes"
  have split: "nodes = ?xs @ ?ys" by simp
  have s: "sorted_wrt (<) (map ln_address ?ys)"
    using assms split by (metis map_append nodes_ok_def sorted_wrt_append)
  moreover have "addr \<le> ln_address n" if "n \<in> set ?ys" for n
  proof (cases ?ys)
    case (Cons y ys)
    then have "\<not> ?p y" by (metis hd_dropWhile list.distinct(1) list.sel(1))
    then have "addr \<le> ln_address y" by (simp add: address_less_iff)
    moreover have "ln_address y \<le> ln_address n" using that s Cons by auto
    ultimately show ?thesis by (rule order_trans)
  next
    case Nil
    then show ?thesis using that by (simp only: Nil list.set empty_iff)
  qed
  moreover have "ln_address n < addr" if "n \<in> set ?xs" for n
    using set_takeWhileD[OF that] by (simp add: address_less_iff)
  ultimately show ?thesis
    by (intro that[of ?xs ?ys]) (simp_all add: lower_bound_def)
qed

lemma find_append: "find P (xs @ ys) = (case find P xs of None \<Rightarrow> find P ys | Some x \<Rightarrow> Some x)"
  by (induction xs) auto

lemma find_address_less: "\<forall>n\<in>set xs. ln_address n < addr \<Longrightarrow> find (\<lambda>n. ln_address n = addr) xs = None"
  by (auto simp: find_None_iff)

lemma modify_node_split:
  assumes "nodes_ok nodes"
  obtains xs zs where "modify_node addr f nodes = xs @ f (node_at addr nodes) # zs"
    "fst (read_node addr nodes) = node_at addr nodes" "snd (read_node addr nodes) = xs @ node_at addr nodes # zs"
    "nodes = xs @ node_at addr nodes # zs \<or> nodes = xs @ zs \<and> node_at addr nodes = default_LinNode addr"
    "\<forall>n\<in>set xs. ln_address n < addr" "\<forall>n\<in>set zs. addr < ln_address n" "ln_address (node_at addr nodes) = addr"
proof -
  obtain xs ys where s: "nodes = xs @ ys" "lower_bound addr nodes = length xs" "\<forall>n\<in>set xs. ln_address n < addr"
    "\<forall>n\<in>set ys. addr \<le> ln_address n" "sorted_wrt (<) (map ln_address ys)" by (rule lower_bound_split[OF assms])
  have at: "node_at addr nodes = (case find (\<lambda>n. ln_address n = addr) ys of None \<Rightarrow> default_LinNode addr | Some n \<Rightarrow> n)"
    using find_address_less[OF s(3)] by (simp add: node_at_def s(1) find_append)
  show ?thesis
  proof (cases "ys \<noteq> [] \<and> ln_address (hd ys) = addr")
    case True
    then obtain y zs where ys: "ys = y # zs" "ln_address y = addr" by (cases ys) auto
    have "node_at addr nodes = y" by (simp add: at ys)
    moreover have "GetLinNode addr nodes = (length xs, nodes)" by (simp add: GetLinNode_def s(2) Let_def) (simp add: s(1) ys)
    ultimately show ?thesis using s ys
      by (intro that[of xs zs]) (auto simp: modify_node_def read_node_def)
  next
    case False
    have gt: "\<forall>n\<in>set ys. addr < ln_address n"
    proof
      fix n assume n: "n \<in> set ys"
      then have "ln_address (hd ys) \<le> ln_address n" using s(5) by (cases ys) auto
      moreover have "addr < ln_address (hd ys)" using False n s(4) by (cases ys) (auto simp: less_le)
      ultimately show "addr < ln_address n" by simp
    qed
    then have "find (\<lambda>n. ln_address n = addr) ys = None" by (auto simp: find_None_iff)
    then have "node_at addr nodes = default_LinNode addr" by (simp add: at)
    moreover have "GetLinNode addr nodes = (length xs, xs @ default_LinNode addr # ys)"
      using False by (cases ys) (simp_all add: GetLinNode_def s(2) Let_def, simp_all add: s(1))
    ultimately show ?thesis using s gt
      by (intro that[of xs ys]) (auto simp: modify_node_def read_node_def)
  qed
qed

lemma node_at_ok: "nodes_ok nodes \<Longrightarrow> node_ok (node_at addr nodes) \<and> ln_address (node_at addr nodes) = addr"
  by (auto simp: node_at_def nodes_ok_def list_all_iff find_Some_iff split: option.split)

interpretation lin_nodes: keyed_table nodes_ok node_change node_at modify_node
proof
  fix t k f assume t: "nodes_ok t" and f: "node_change k f"
  obtain xs zs where m: "modify_node k f t = xs @ f (node_at k t) # zs"
    "t = xs @ node_at k t # zs \<or> t = xs @ zs \<and> node_at k t = default_LinNode k"
    "\<forall>n\<in>set xs. ln_address n < k" "\<forall>n\<in>set zs. k < ln_address n" "ln_address (node_at k t) = k"
    by (rule modify_node_split[OF t, of k f]) blast
  have fk: "ln_address (f (node_at k t)) = k" "node_ok (f (node_at k t))" using f node_at_ok[OF t, of k] by (auto simp: node_change_def)
  have sorted: "sorted_wrt (<) (map ln_address xs) \<and> sorted_wrt (<) (map ln_address zs) \<and> list_all node_ok xs \<and> list_all node_ok zs"
  proof -
    obtain ys where "t = xs @ ys @ zs" using m(2) by (metis append_Cons append_Nil)
    then show ?thesis using t by (simp add: nodes_ok_def sorted_wrt_append)
  qed
  show "nodes_ok (modify_node k f t)"
    unfolding m(1) using sorted fk m(3,4) by (force simp: nodes_ok_def sorted_wrt_append)
  show "node_at k' (modify_node k f t) = (if k' = k then f (node_at k t) else node_at k' t)" for k'
  proof (cases "k' = k")
    case True
    have "find (\<lambda>n. ln_address n = k) (modify_node k f t) = Some (f (node_at k t))"
      using fk find_address_less[OF m(3)] by (simp add: m(1) find_append)
    then show ?thesis using True by (simp add: node_at_def[of k "modify_node k f t"])
  next
    case False
    obtain y w where "t = xs @ y # zs \<or> t = xs @ zs" "modify_node k f t = xs @ w # zs" "ln_address y = k" "ln_address w = k"
      using m(1,2,5) fk by blast
    then have "find (\<lambda>n. ln_address n = k') (modify_node k f t) = find (\<lambda>n. ln_address n = k') t"
      using False by (auto simp: find_append split: option.split)
    then show ?thesis using False by (simp add: node_at_def)
  qed
qed

lemma read_node_at: "nodes_ok nodes \<Longrightarrow> fst (read_node addr nodes) = node_at addr nodes"
  by (rule modify_node_split[of nodes addr id]) simp_all

lemma read_node_modify: "snd (read_node addr nodes) = modify_node addr id nodes"
  by (simp add: read_node_def modify_node_def split_beta)

lemma read_node_ok:
  assumes "nodes_ok nodes"
  shows "nodes_ok (snd (read_node addr nodes))" "node_at addr' (snd (read_node addr nodes)) = node_at addr' nodes"
proof -
  have id: "node_change addr id" by (simp add: node_change_def)
  show "nodes_ok (snd (read_node addr nodes))" "node_at addr' (snd (read_node addr nodes)) = node_at addr' nodes"
    using lin_nodes.inv_modify[OF assms id] lin_nodes.lookup_modify[OF assms id, of addr'] by (simp_all add: read_node_modify)
qed

end
