(* ===== verification/Lin_Controller.thy ===== *)
theory Lin_Controller
  imports Lin_Nodes Discovery_Store Orchestration_Types
begin

text \<open>
  The LIN controller (services/lin/LinController.cpp) with its two behaviours: without a network simulator
  (\<^verbatim>\<open>SimBehaviorTrivial.cpp\<close>) the controllers play the bus among themselves, with one (\<^verbatim>\<open>SimBehaviorDetailed.cpp\<close>) they
  only talk to it. Sent messages, calls of handlers and traced frames are recorded. Reading an array of
  responses at an identifier beyond its end, undefined behaviour in the code, is an error here.
\<close>

section \<open>State\<close>

datatype lin_message =
    M_Header LinSendFrameHeaderRequest
  | M_Transmission LinTransmission
  | M_Wakeup LinWakeupPulse
  | M_Config WireLinControllerConfig
  | M_Status LinControllerStatusUpdate
  | M_Responses LinFrameResponseUpdate
  | M_FrameRequest LinSendFrameRequest

datatype lin_event =
    LinFrameStatusEvent u64 LinFrame u8
  | LinGoToSleepEvent u64
  | LinWakeupEvent u64 u8
  | LinSlaveConfigurationEvent u64
  | LinFrameHeaderEvent u64 u8

datatype lin_error =
    Uninitialized string
  | NotMaster string
  | Dynamic string
  | NotDynamic string
  | NotConfiguredTxUnconditional u8
  | UndefinedDataLength u8
  | ErroneousInitialization
  | DuplicateInitialization
  | ResponsesOutOfBounds u8

record LinController =
  lc_serviceDescriptor :: ServiceDescriptor
  lc_trivial :: bool
  lc_simulatedLink :: ServiceDescriptor
  lc_controllerMode :: u8
  lc_controllerStatus :: u32
  lc_frameStatusHandlers :: "nat Handlers"
  lc_goToSleepHandlers :: "nat Handlers"
  lc_wakeupHandlers :: "nat Handlers"
  lc_slaveConfigurationHandlers :: "nat Handlers"
  lc_frameHeaderHandlers :: "nat Handlers"
  lc_replayActive :: bool
  lc_replaySend :: bool
  lc_linNodes :: "LinNode list"
  lc_linIdsRespondedBySlaves :: "u8 list"
  lc_triggerLinSlaveConfigurationHandlers :: bool
  lc_receptionTimeLinSlaveConfiguration :: u64
  lc_useDynamicResponse :: bool
  lc_now :: u64
  lc_calls :: "(nat \<times> lin_event) list"
  lc_traced :: "(u8 \<times> u64 \<times> LinFrame) list"
  lc_sent :: "lin_message list"

definition empty_ServiceDescriptor :: ServiceDescriptor where
  "empty_ServiceDescriptor = \<lparr>sd_participantName = [], sd_participantId = 0, sd_serviceType = 0, sd_networkName = [],
     sd_networkType = 0, sd_serviceName = [], sd_serviceId = 0, sd_supplementalData = []\<rparr>"

definition LinController_new :: "ServiceDescriptor \<Rightarrow> bool \<Rightarrow> bool \<Rightarrow> LinController" where
  "LinController_new descriptor replayActive replaySend =
     \<lparr>lc_serviceDescriptor = descriptor, lc_trivial = True, lc_simulatedLink = empty_ServiceDescriptor,
      lc_controllerMode = Mode_Inactive, lc_controllerStatus = Status_Unknown,
      lc_frameStatusHandlers = Handlers_empty, lc_goToSleepHandlers = Handlers_empty, lc_wakeupHandlers = Handlers_empty,
      lc_slaveConfigurationHandlers = Handlers_empty, lc_frameHeaderHandlers = Handlers_empty,
      lc_replayActive = replayActive, lc_replaySend = replaySend, lc_linNodes = [], lc_linIdsRespondedBySlaves = [],
      lc_triggerLinSlaveConfigurationHandlers = False, lc_receptionTimeLinSlaveConfiguration = 0,
      lc_useDynamicResponse = False, lc_now = 0, lc_calls = [], lc_traced = [], lc_sent = []\<rparr>"

text \<open>An exception leaves the controller as far as it was changed.\<close>

type_synonym lin_result = "(lin_error \<times> LinController) + LinController"

section \<open>Helpers\<close>

definition to_endpointAddress :: "ServiceDescriptor \<Rightarrow> EndpointAddress" where
  "to_endpointAddress sd = \<lparr>ea_participant = sd_participantId sd, ea_endpoint = sd_serviceId sd\<rparr>"

definition this_address :: "LinController \<Rightarrow> EndpointAddress" where
  "this_address c = to_endpointAddress (lc_serviceDescriptor c)"

definition GetThisLinNode :: "LinController \<Rightarrow> LinNode \<times> LinController" where
  "GetThisLinNode c = (let (node, nodes) = read_node (this_address c) (lc_linNodes c) in (node, c\<lparr>lc_linNodes := nodes\<rparr>))"

definition update_LinNode :: "EndpointAddress \<Rightarrow> (LinNode \<Rightarrow> LinNode) \<Rightarrow> LinController \<Rightarrow> LinController" where
  "update_LinNode addr f c = c\<lparr>lc_linNodes := modify_node addr f (lc_linNodes c)\<rparr>"

definition response_at :: "LinNode \<Rightarrow> u8 \<Rightarrow> LinController \<Rightarrow> (lin_error \<times> LinController) + LinFrameResponse" where
  "response_at node linId c =
     (if unat linId < length (ln_responses node) then Inr (ln_responses node ! unat linId)
      else Inl (ResponsesOutOfBounds linId, c))"

definition throw_if :: "bool \<Rightarrow> lin_error \<Rightarrow> LinController \<Rightarrow> lin_result" where
  "throw_if b e c = (if b then Inl (e, c) else Inr c)"

definition ThrowIfUninitialized :: "string \<Rightarrow> LinController \<Rightarrow> lin_result" where
  "ThrowIfUninitialized callingMethodName c =
     throw_if (lc_controllerStatus c = Status_Unknown) (Uninitialized callingMethodName) c"

definition ThrowIfNotMaster :: "string \<Rightarrow> LinController \<Rightarrow> lin_result" where
  "ThrowIfNotMaster callingMethodName c = throw_if (lc_controllerMode c \<noteq> Mode_Master) (NotMaster callingMethodName) c"

definition ThrowIfDynamic :: "string \<Rightarrow> LinController \<Rightarrow> lin_result" where
  "ThrowIfDynamic callingMethodName c = throw_if (lc_useDynamicResponse c) (Dynamic callingMethodName) c"

text \<open>The condition is the one of the code, although the message says the opposite.\<close>

definition ThrowIfNotDynamic :: "string \<Rightarrow> LinController \<Rightarrow> lin_result" where
  "ThrowIfNotDynamic callingMethodName c = throw_if (lc_useDynamicResponse c) (NotDynamic callingMethodName) c"

definition ThrowIfNotConfiguredTxUnconditional :: "u8 \<Rightarrow> LinController \<Rightarrow> lin_result" where
  "ThrowIfNotConfiguredTxUnconditional linId c =
     (let (node, c) = GetThisLinNode c
      in bindE (response_at node linId c) (\<lambda>response.
           throw_if (lfr_responseMode response \<noteq> Response_TxUnconditional) (NotConfiguredTxUnconditional linId) c))"

definition handlers_for :: "lin_event \<Rightarrow> LinController \<Rightarrow> nat Handlers" where
  "handlers_for e c = (case e of
     LinFrameStatusEvent _ _ _ \<Rightarrow> lc_frameStatusHandlers c
   | LinGoToSleepEvent _ \<Rightarrow> lc_goToSleepHandlers c
   | LinWakeupEvent _ _ \<Rightarrow> lc_wakeupHandlers c
   | LinSlaveConfigurationEvent _ \<Rightarrow> lc_slaveConfigurationHandlers c
   | LinFrameHeaderEvent _ _ \<Rightarrow> lc_frameHeaderHandlers c)"

definition lin_CallHandlers :: "lin_event \<Rightarrow> LinController \<Rightarrow> LinController" where
  "lin_CallHandlers e c = c\<lparr>lc_calls := lc_calls c @ map (\<lambda>h. (h, e)) (Handlers_InvokeAll (handlers_for e c))\<rparr>"

definition lin_Trace :: "u8 \<Rightarrow> u64 \<Rightarrow> LinFrame \<Rightarrow> LinController \<Rightarrow> LinController" where
  "lin_Trace direction timestamp frame c = c\<lparr>lc_traced := lc_traced c @ [(direction, timestamp, frame)]\<rparr>"

definition HasRespondingSlave :: "u8 \<Rightarrow> LinController \<Rightarrow> bool" where
  "HasRespondingSlave linId c \<longleftrightarrow> linId \<in> set (lc_linIdsRespondedBySlaves c)"

definition HasDynamicNode :: "LinController \<Rightarrow> bool" where
  "HasDynamicNode c \<longleftrightarrow> list_ex (\<lambda>node. ln_simulationMode node = Simulation_Dynamic) (lc_linNodes c)"

definition UpdateLinIdsRespondedBySlaves :: "LinFrameResponse list \<Rightarrow> LinController \<Rightarrow> LinController" where
  "UpdateLinIdsRespondedBySlaves responsesUpdate c =
     fold (\<lambda>response c.
       if lfr_responseMode response = Response_TxUnconditional \<and> \<not> HasRespondingSlave (lf_id (lfr_frame response)) c
       then c\<lparr>lc_linIdsRespondedBySlaves := lc_linIdsRespondedBySlaves c @ [lf_id (lfr_frame response)]\<rparr> else c) responsesUpdate c"

text \<open>The number of active nodes that answer an identifier, and the answer of the last of them.\<close>

fun count_responses :: "u8 \<Rightarrow> LinNode list \<Rightarrow> LinController \<Rightarrow> nat \<times> LinFrame \<Rightarrow>
    (lin_error \<times> LinController) + (nat \<times> LinFrame)" where
  "count_responses linId [] c (numResponses, frame) = Inr (numResponses, frame)"
| "count_responses linId (node # nodes) c (numResponses, frame) =
     (if ln_controllerMode node = Mode_Inactive \<or> ln_controllerStatus node \<noteq> Status_Operational
      then count_responses linId nodes c (numResponses, frame)
      else bindE (response_at node linId c) (\<lambda>response.
             count_responses linId nodes c
               (if lfr_responseMode response = Response_TxUnconditional then (numResponses + 1, lfr_frame response)
                else (numResponses, frame))))"

definition GetResponse :: "u8 \<Rightarrow> LinController \<Rightarrow> (lin_error \<times> LinController) + (nat \<times> LinFrame)" where
  "GetResponse linId c = count_responses linId (lc_linNodes c) c (0, default_LinFrame\<lparr>lf_id := linId\<rparr>)"

section \<open>Sending\<close>

text \<open>\<^verbatim>\<open>Participant::SendMsg\<close> for every message but the frame header, which is also delivered to the sender.\<close>

definition lin_send :: "lin_message \<Rightarrow> LinController \<Rightarrow> LinController" where
  "lin_send msg c = c\<lparr>lc_sent := lc_sent c @ [msg]\<rparr>"

definition ToTxFrameStatus :: "u8 \<Rightarrow> u8" where
  "ToTxFrameStatus status =
     (if status = LIN_RX_BUSY then LIN_TX_BUSY else if status = LIN_RX_ERROR then LIN_TX_ERROR
      else if status = LIN_RX_NO_RESPONSE then LIN_RX_NO_RESPONSE else if status = LIN_RX_OK then LIN_TX_OK else status)"

definition ToTracingDir :: "u8 \<Rightarrow> u8" where
  "ToTracingDir status =
     (if status = LIN_RX_ERROR \<or> status = LIN_RX_BUSY \<or> status = LIN_RX_NO_RESPONSE \<or> status = LIN_RX_OK
      then Direction_RX else Direction_TX)"

definition lin_AllowReception :: "ServiceDescriptor \<Rightarrow> LinController \<Rightarrow> bool" where
  "lin_AllowReception fromDescr c \<longleftrightarrow> lc_trivial c \<or>
     (sd_participantName (lc_simulatedLink c) = sd_participantName fromDescr \<and>
      sd_serviceId (lc_serviceDescriptor c) = sd_serviceId fromDescr)"

definition trivial_ProcessFrameHeaderRequest :: "LinSendFrameHeaderRequest \<Rightarrow> LinController \<Rightarrow> lin_result" where
  "trivial_ProcessFrameHeaderRequest header c =
     (let (node, c) = GetThisLinNode c
      in bindE (response_at node (lsh_id header) c) (\<lambda>response.
           if lfr_responseMode response \<noteq> Response_TxUnconditional then Inr c
           else if lf_dataLength (lfr_frame response) = LinDataLengthUnknown
           then Inl (UndefinedDataLength (lf_id (lfr_frame response)), c)
           else let transmission = \<lparr>lt_timestamp = lc_now c, lt_frame = lfr_frame response, lt_status = LIN_RX_OK\<rparr>;
                    c = lin_send (M_Transmission transmission) c;
                    direction = (if ln_controllerMode node = Mode_Master then ToTracingDir LIN_TX_OK else ToTracingDir LIN_RX_OK);
                    c = lin_Trace direction (lc_now c) (lfr_frame response) c
                in Inr (lin_CallHandlers (LinFrameStatusEvent (lc_now c) (lfr_frame response) LIN_TX_OK) c)))"

definition ProcessFrameHeaderRequest :: "LinSendFrameHeaderRequest \<Rightarrow> LinController \<Rightarrow> lin_result" where
  "ProcessFrameHeaderRequest header c = (if lc_trivial c then trivial_ProcessFrameHeaderRequest header c else Inr c)"

definition ReceiveMsg_LinSendFrameHeaderRequest :: "ServiceDescriptor \<Rightarrow> LinSendFrameHeaderRequest \<Rightarrow> LinController \<Rightarrow> lin_result" where
  "ReceiveMsg_LinSendFrameHeaderRequest fromDescr msg c =
     (if \<not> lin_AllowReception fromDescr c then Inr c
      else if lc_useDynamicResponse c then Inr (lin_CallHandlers (LinFrameHeaderEvent (lsh_timestamp msg) (lsh_id msg)) c)
      else ProcessFrameHeaderRequest msg c)"

text \<open>
  Frame headers are also delivered to the controller that sends them (\<^verbatim>\<open>SilKitMsgTraitEnforceSelfDelivery\<close>), after the other
  receivers; an exception there ends in a warning of \<^verbatim>\<open>SilKitLink\<close>.
\<close>

definition send_header :: "LinSendFrameHeaderRequest \<Rightarrow> LinController \<Rightarrow> LinController" where
  "send_header msg c =
     (case ReceiveMsg_LinSendFrameHeaderRequest (lc_serviceDescriptor c) msg (lin_send (M_Header msg) c) of
        Inl (e, c) \<Rightarrow> c | Inr c \<Rightarrow> c)"

definition SendErrorTransmissionOnHeaderRequest :: "nat \<Rightarrow> LinFrame \<Rightarrow> LinController \<Rightarrow> lin_result" where
  "SendErrorTransmissionOnHeaderRequest numResponses frame c =
     (let status = (if numResponses = 0 then LIN_RX_NO_RESPONSE else if numResponses > 1 then LIN_RX_ERROR else LIN_NOT_OK);
          transmission = \<lparr>lt_timestamp = lc_now c, lt_frame = frame, lt_status = status\<rparr>;
          c = lin_send (M_Transmission transmission) c;
          (node, c) = GetThisLinNode c
      in bindE (response_at node (lf_id frame) c) (\<lambda>response.
           let masterFrameStatus = (if lfr_responseMode response = Response_TxUnconditional then LIN_TX_ERROR else status);
               c = lin_Trace (ToTracingDir masterFrameStatus) (lc_now c) frame c
           in Inr (lin_CallHandlers (LinFrameStatusEvent (lc_now c) frame masterFrameStatus) c)))"

definition SendMsg_LinSendFrameHeaderRequest :: "LinSendFrameHeaderRequest \<Rightarrow> LinController \<Rightarrow> lin_result" where
  "SendMsg_LinSendFrameHeaderRequest msg c =
     (if lc_trivial c
      then bindE (GetResponse (lsh_id msg) c) (\<lambda>(numResponses, frame).
             if numResponses = 1 \<or> (numResponses = 0 \<and> HasDynamicNode c) then Inr (send_header msg c)
             else SendErrorTransmissionOnHeaderRequest numResponses frame c)
      else Inr (send_header msg c))"

definition SendFrameHeader :: "u8 \<Rightarrow> LinController \<Rightarrow> lin_result" where
  "SendFrameHeader linId c =
     bindE (ThrowIfUninitialized ''SendFrameHeader'' c) (\<lambda>c.
     bindE (ThrowIfNotMaster ''SendFrameHeader'' c) (\<lambda>c.
       SendMsg_LinSendFrameHeaderRequest \<lparr>lsh_timestamp = lc_now c, lsh_id = linId\<rparr> c))"

definition SendMsg_LinSendFrameRequest :: "LinSendFrameRequest \<Rightarrow> LinController \<Rightarrow> lin_result" where
  "SendMsg_LinSendFrameRequest msg c =
     (if lc_trivial c then SendFrameHeader (lf_id (lsf_frame msg)) c else Inr (lin_send (M_FrameRequest msg) c))"

text \<open>Without a simulator only slaves distribute their configuration and their responses.\<close>

definition distributes :: "LinController \<Rightarrow> bool" where
  "distributes c \<longleftrightarrow> lc_trivial c \<longrightarrow> lc_controllerMode c = Mode_Slave"

definition SendMsg_WireLinControllerConfig :: "WireLinControllerConfig \<Rightarrow> LinController \<Rightarrow> LinController" where
  "SendMsg_WireLinControllerConfig msg c = (if distributes c then lin_send (M_Config msg) c else c)"

definition SendMsg_LinFrameResponseUpdate :: "LinFrameResponseUpdate \<Rightarrow> LinController \<Rightarrow> LinController" where
  "SendMsg_LinFrameResponseUpdate msg c = (if distributes c then lin_send (M_Responses msg) c else c)"

section \<open>The interface of the application\<close>

definition to_wire_LinControllerConfig :: "u8 \<Rightarrow> u32 \<Rightarrow> LinFrameResponse list \<Rightarrow> WireLinControllerConfig" where
  "to_wire_LinControllerConfig controllerMode baudRate frameResponses =
     \<lparr>lcc_controllerMode = controllerMode, lcc_baudRate = baudRate, lcc_frameResponses = frameResponses,
      lcc_simulationMode = Simulation_Default\<rparr>"

definition to_wire_LinControllerDynamicConfig :: "u8 \<Rightarrow> u32 \<Rightarrow> WireLinControllerConfig" where
  "to_wire_LinControllerDynamicConfig controllerMode baudRate =
     \<lparr>lcc_controllerMode = controllerMode, lcc_baudRate = baudRate, lcc_frameResponses = [],
      lcc_simulationMode = Simulation_Dynamic\<rparr>"

definition Init :: "u8 \<Rightarrow> u32 \<Rightarrow> LinFrameResponse list \<Rightarrow> LinController \<Rightarrow> lin_result" where
  "Init controllerMode baudRate frameResponses c =
     (if controllerMode = Mode_Inactive then Inl (ErroneousInitialization, c)
      else if lc_controllerStatus c \<noteq> Status_Unknown then Inl (DuplicateInitialization, c)
      else let c = update_LinNode (this_address c) (\<lambda>node. UpdateResponses frameResponses
                     (node\<lparr>ln_controllerMode := controllerMode, ln_controllerStatus := Status_Operational\<rparr>)) c;
               c = c\<lparr>lc_controllerMode := controllerMode, lc_controllerStatus := Status_Operational\<rparr>
           in Inr (SendMsg_WireLinControllerConfig (to_wire_LinControllerConfig controllerMode baudRate frameResponses) c))"

definition InitDynamic :: "u8 \<Rightarrow> u32 \<Rightarrow> LinController \<Rightarrow> lin_result" where
  "InitDynamic controllerMode baudRate c =
     (if controllerMode = Mode_Inactive then Inl (ErroneousInitialization, c)
      else if lc_controllerStatus c \<noteq> Status_Unknown then Inl (DuplicateInitialization, c)
      else let c = update_LinNode (this_address c) (\<lambda>node. node\<lparr>ln_controllerMode := controllerMode,
                     ln_controllerStatus := Status_Operational, ln_simulationMode := Simulation_Dynamic\<rparr>) c;
               c = c\<lparr>lc_controllerMode := controllerMode, lc_controllerStatus := Status_Operational, lc_useDynamicResponse := True\<rparr>
           in Inr (SendMsg_WireLinControllerConfig (to_wire_LinControllerDynamicConfig controllerMode baudRate) c))"

definition UpdateFrameResponse :: "LinFrameResponse \<Rightarrow> LinController \<Rightarrow> LinController" where
  "UpdateFrameResponse response c =
     SendMsg_LinFrameResponseUpdate \<lparr>lfu_frameResponses = [response]\<rparr>
       (update_LinNode (this_address c) (UpdateResponses [response]) c)"

definition SendDynamicResponse :: "LinFrame \<Rightarrow> LinController \<Rightarrow> lin_result" where
  "SendDynamicResponse frame c =
     bindE (if \<not> lc_useDynamicResponse c then ThrowIfNotDynamic ''SendDynamicResponse'' c else Inr c) (\<lambda>c.
       ProcessFrameHeaderRequest \<lparr>lsh_timestamp = lc_now c, lsh_id = lf_id frame\<rparr>
         (UpdateFrameResponse \<lparr>lfr_frame = frame, lfr_responseMode = Response_TxUnconditional\<rparr> c))"

definition SendFrameInternal :: "LinFrame \<Rightarrow> u8 \<Rightarrow> LinController \<Rightarrow> lin_result" where
  "SendFrameInternal frame responseType c =
     (let request = SendMsg_LinSendFrameRequest \<lparr>lsf_frame = frame, lsf_responseType = responseType\<rparr>
      in if responseType = MasterResponse
         then request (UpdateFrameResponse \<lparr>lfr_frame = frame, lfr_responseMode = Response_TxUnconditional\<rparr> c)
         else if \<not> HasRespondingSlave (lf_id frame) c \<and> \<not> HasDynamicNode c
         then Inr (lin_CallHandlers (LinFrameStatusEvent (lc_now c) frame LIN_RX_NO_RESPONSE) c)
         else if responseType = SlaveResponse
         then let (node, c) = GetThisLinNode c
              in bindE (response_at node (lf_id frame) c) (\<lambda>current.
                   if lfr_responseMode current = Response_Unused
                   then request (UpdateFrameResponse \<lparr>lfr_frame = frame, lfr_responseMode = Response_Rx\<rparr> c)
                   else if lfr_responseMode current = Response_TxUnconditional then Inr c
                   else request c)
         else if responseType = SlaveToSlave
         then request (lin_CallHandlers (LinFrameStatusEvent (lc_now c) frame LIN_TX_OK) c)
         else request c)"

definition SendFrame :: "LinFrame \<Rightarrow> u8 \<Rightarrow> LinController \<Rightarrow> lin_result" where
  "SendFrame frame responseType c =
     bindE (ThrowIfUninitialized ''SendFrame'' c) (\<lambda>c.
     bindE (ThrowIfNotMaster ''SendFrame'' c) (\<lambda>c.
     bindE (ThrowIfDynamic ''SendFrame'' c) (\<lambda>c.
       if lc_replaySend c then Inr c else SendFrameInternal frame responseType c)))"

definition lin_UpdateTxBuffer :: "LinFrame \<Rightarrow> LinController \<Rightarrow> lin_result" where
  "lin_UpdateTxBuffer frame c =
     bindE (ThrowIfUninitialized ''UpdateTxBuffer'' c) (\<lambda>c.
     bindE (ThrowIfDynamic ''UpdateTxBuffer'' c) (\<lambda>c.
     bindE (ThrowIfNotConfiguredTxUnconditional (lf_id frame) c) (\<lambda>c.
       let c = update_LinNode (this_address c) (node_UpdateTxBuffer (lf_id frame) (lf_data frame)) c
       in Inr (if lc_trivial c then c
               else lin_send (M_Responses \<lparr>lfu_frameResponses =
                      [\<lparr>lfr_frame = frame, lfr_responseMode = Response_TxUnconditional\<rparr>]\<rparr>) c))))"

definition SetFrameResponse :: "LinFrameResponse \<Rightarrow> LinController \<Rightarrow> lin_result" where
  "SetFrameResponse response c =
     bindE (ThrowIfUninitialized ''SetFrameResponse'' c) (\<lambda>c.
     bindE (ThrowIfDynamic ''SetFrameResponse'' c) (\<lambda>c.
       if 64 \<le> lf_id (lfr_frame response) then Inr c
       else if lfr_responseMode response = Response_Unused then Inr c
       else let (node, c) = GetThisLinNode c
            in bindE (response_at node (lf_id (lfr_frame response)) c) (\<lambda>current.
                 if lfr_responseMode current \<noteq> Response_Unused then Inr c
                 else if lc_replaySend c then Inr c
                 else Inr (UpdateFrameResponse response c))))"

text \<open>The time stamp of the status message is left uninitialised by the code; no receiver reads it.\<close>

definition SetControllerStatusInternal :: "u32 \<Rightarrow> LinController \<Rightarrow> LinController" where
  "SetControllerStatusInternal status c =
     lin_send (M_Status \<lparr>lcs_timestamp = 0, lcs_status = status\<rparr>) (c\<lparr>lc_controllerStatus := status\<rparr>)"

definition GoToSleepInternal :: "LinController \<Rightarrow> lin_result" where
  "GoToSleepInternal c =
     bindE (ThrowIfUninitialized ''GoToSleepInternal'' c) (\<lambda>c. Inr (SetControllerStatusInternal Status_Sleep c))"

definition WakeupInternal :: "LinController \<Rightarrow> lin_result" where
  "WakeupInternal c =
     bindE (ThrowIfUninitialized ''WakeupInternal'' c) (\<lambda>c. Inr (SetControllerStatusInternal Status_Operational c))"

definition behavior_GoToSleep :: "LinController \<Rightarrow> lin_result" where
  "behavior_GoToSleep c =
     (if lc_trivial c
      then let c = lin_Trace (ToTracingDir LIN_RX_OK) (lc_now c) GoToSleepFrame c;
               c = lin_send (M_Transmission \<lparr>lt_timestamp = lc_now c, lt_frame = GoToSleepFrame, lt_status = LIN_RX_OK\<rparr>) c;
               c = lin_CallHandlers (LinFrameStatusEvent (lc_now c) GoToSleepFrame LIN_TX_OK) c
           in GoToSleepInternal c
      else let c = lin_send (M_FrameRequest \<lparr>lsf_frame = GoToSleepFrame, lsf_responseType = MasterResponse\<rparr>) c
           in Inr (SetControllerStatusInternal Status_SleepPending c))"

definition GoToSleep :: "LinController \<Rightarrow> lin_result" where
  "GoToSleep c =
     bindE (ThrowIfUninitialized ''GoToSleep'' c) (\<lambda>c.
     bindE (ThrowIfNotMaster ''GoToSleep'' c) (\<lambda>c.
       if lc_replaySend c then Inr c
       else bindE (behavior_GoToSleep c) (\<lambda>c. Inr (c\<lparr>lc_controllerStatus := Status_Sleep\<rparr>))))"

definition ReceiveMsg_LinWakeupPulse :: "ServiceDescriptor \<Rightarrow> LinWakeupPulse \<Rightarrow> LinController \<Rightarrow> LinController" where
  "ReceiveMsg_LinWakeupPulse fromDescr msg c =
     (if \<not> lin_AllowReception fromDescr c then c
      else lin_CallHandlers (LinWakeupEvent (lwp_timestamp msg) (lwp_direction msg)) c)"

definition Wakeup :: "LinController \<Rightarrow> lin_result" where
  "Wakeup c =
     bindE (ThrowIfUninitialized ''Wakeup'' c) (\<lambda>c.
       if lc_trivial c
       then let c = lin_send (M_Wakeup \<lparr>lwp_timestamp = lc_now c, lwp_direction = Direction_RX\<rparr>) c
            in WakeupInternal (ReceiveMsg_LinWakeupPulse (lc_serviceDescriptor c)
                 \<lparr>lwp_timestamp = lc_now c, lwp_direction = Direction_TX\<rparr> c)
       else WakeupInternal (lin_send (M_Wakeup \<lparr>lwp_timestamp = 0, lwp_direction = 0\<rparr>) c))"

definition GetSlaveConfiguration :: "LinController \<Rightarrow> (lin_error \<times> LinController) + u8 list" where
  "GetSlaveConfiguration c =
     bindE (ThrowIfNotMaster ''GetSlaveConfiguration'' c) (\<lambda>c. Inr (lc_linIdsRespondedBySlaves c))"

section \<open>Receiving\<close>

definition HandleResponsesUpdate :: "ServiceDescriptor \<Rightarrow> LinFrameResponse list \<Rightarrow> LinController \<Rightarrow> LinController" where
  "HandleResponsesUpdate fromDescr responsesToUpdate c =
     (let addr = to_endpointAddress fromDescr;
          c = update_LinNode addr (UpdateResponses responsesToUpdate) c;
          c = (if ln_controllerMode (fst (read_node addr (lc_linNodes c))) = Mode_Slave
               then UpdateLinIdsRespondedBySlaves responsesToUpdate c else c)
      in if h_entries (lc_slaveConfigurationHandlers c) = []
         then c\<lparr>lc_triggerLinSlaveConfigurationHandlers := True, lc_receptionTimeLinSlaveConfiguration := lc_now c\<rparr>
         else lin_CallHandlers (LinSlaveConfigurationEvent (lc_now c)) c)"

definition ReceiveMsg_LinFrameResponseUpdate :: "ServiceDescriptor \<Rightarrow> LinFrameResponseUpdate \<Rightarrow> LinController \<Rightarrow> LinController" where
  "ReceiveMsg_LinFrameResponseUpdate fromDescr msg c =
     (if same_service fromDescr (lc_serviceDescriptor c) then c else HandleResponsesUpdate fromDescr (lfu_frameResponses msg) c)"

definition ReceiveMsg_WireLinControllerConfig :: "ServiceDescriptor \<Rightarrow> WireLinControllerConfig \<Rightarrow> LinController \<Rightarrow> LinController" where
  "ReceiveMsg_WireLinControllerConfig fromDescr msg c =
     (if same_service fromDescr (lc_serviceDescriptor c) then c
      else HandleResponsesUpdate fromDescr (lcc_frameResponses msg)
             (update_LinNode (to_endpointAddress fromDescr) (\<lambda>node. node\<lparr>ln_controllerMode := lcc_controllerMode msg,
                ln_controllerStatus := Status_Operational, ln_simulationMode := lcc_simulationMode msg\<rparr>) c))"

definition ReceiveMsg_LinControllerStatusUpdate :: "ServiceDescriptor \<Rightarrow> LinControllerStatusUpdate \<Rightarrow> LinController \<Rightarrow> LinController" where
  "ReceiveMsg_LinControllerStatusUpdate fromDescr msg c =
     update_LinNode (to_endpointAddress fromDescr) (\<lambda>node. node\<lparr>ln_controllerStatus := lcs_status msg\<rparr>) c"

definition trivial_CalcFrameStatus :: "LinTransmission \<Rightarrow> LinNode \<Rightarrow> LinFrameResponse \<Rightarrow> u8" where
  "trivial_CalcFrameStatus linTransmission node response =
     (let frame = lt_frame linTransmission; configured = lfr_frame response; mode = lfr_responseMode response
      in if ln_simulationMode node = Simulation_Dynamic then lt_status linTransmission
         else if mode = Response_Unused then LIN_NOT_OK
         else if mode = Response_Rx
         then (if lf_dataLength configured \<noteq> LinDataLengthUnknown \<and> lf_dataLength configured \<noteq> lf_dataLength frame
               then LIN_RX_ERROR
               else if lf_checksumModel frame \<noteq> Checksum_Unknown \<and> lf_checksumModel configured \<noteq> Checksum_Unknown \<and>
                       lf_checksumModel configured \<noteq> lf_checksumModel frame
               then LIN_RX_ERROR
               else lt_status linTransmission)
         else if mode = Response_TxUnconditional then ToTxFrameStatus (lt_status linTransmission)
         else lt_status linTransmission)"

definition detailed_CalcFrameStatus :: "LinTransmission \<Rightarrow> bool \<Rightarrow> LinNode \<Rightarrow> LinFrameResponse \<Rightarrow> u8" where
  "detailed_CalcFrameStatus linTransmission isGoToSleepFrame node response =
     (if ln_simulationMode node = Simulation_Dynamic then lt_status linTransmission
      else if isGoToSleepFrame \<and> lt_status linTransmission = LIN_RX_OK \<and> lfr_responseMode response \<noteq> Response_Rx
      then LIN_RX_NO_RESPONSE
      else lt_status linTransmission)"

definition isGoToSleepFrame :: "LinFrame \<Rightarrow> bool" where
  "isGoToSleepFrame frame \<longleftrightarrow> lf_id frame = lf_id GoToSleepFrame \<and> lf_data frame = lf_data GoToSleepFrame"

definition ReceiveMsg_LinTransmission :: "ServiceDescriptor \<Rightarrow> LinTransmission \<Rightarrow> LinController \<Rightarrow> lin_result" where
  "ReceiveMsg_LinTransmission fromDescr msg c =
     (let frame = lt_frame msg
      in if \<not> lin_AllowReception fromDescr c then Inr c
         else if lc_controllerMode c = Mode_Inactive then Inr c
         else if lf_dataLength frame \<noteq> LinDataLengthUnknown \<and> 8 < lf_dataLength frame then Inr c
         else if 64 \<le> lf_id frame then Inr c
         else let c = lin_Trace Direction_RX (lt_timestamp msg) frame c;
                  (node, c) = GetThisLinNode c
              in bindE (response_at node (lf_id frame) c) (\<lambda>response.
                   let msgStatus = (if lc_trivial c then trivial_CalcFrameStatus msg node response
                                    else detailed_CalcFrameStatus msg (isGoToSleepFrame frame) node response);
                       c = (if msgStatus \<noteq> LIN_NOT_OK
                            then lin_CallHandlers (LinFrameStatusEvent (lt_timestamp msg) frame msgStatus) c else c)
                   in Inr (if isGoToSleepFrame frame \<and> lc_controllerMode c = Mode_Slave
                           then lin_CallHandlers (LinGoToSleepEvent (lt_timestamp msg)) c else c)))"

text \<open>The messages a controller receives; requests to send a frame are for the simulator only.\<close>

definition lin_receive :: "ServiceDescriptor \<Rightarrow> lin_message \<Rightarrow> LinController \<Rightarrow> lin_result" where
  "lin_receive fromDescr msg c = (case msg of
     M_Header m \<Rightarrow> ReceiveMsg_LinSendFrameHeaderRequest fromDescr m c
   | M_Transmission m \<Rightarrow> ReceiveMsg_LinTransmission fromDescr m c
   | M_Wakeup m \<Rightarrow> Inr (ReceiveMsg_LinWakeupPulse fromDescr m c)
   | M_Config m \<Rightarrow> Inr (ReceiveMsg_WireLinControllerConfig fromDescr m c)
   | M_Status m \<Rightarrow> Inr (ReceiveMsg_LinControllerStatusUpdate fromDescr m c)
   | M_Responses m \<Rightarrow> Inr (ReceiveMsg_LinFrameResponseUpdate fromDescr m c)
   | M_FrameRequest m \<Rightarrow> Inr c)"

section \<open>Replay, handlers and the choice of the behaviour\<close>

definition ReplayMessage :: "u8 \<Rightarrow> u64 \<Rightarrow> LinFrame \<Rightarrow> LinController \<Rightarrow> lin_result" where
  "ReplayMessage direction timestamp frame c =
     (if \<not> lc_replayActive c then Inr c
      else if lc_controllerMode c \<noteq> Mode_Master then Inr c
      else let isReceive = (direction = Direction_RX);
               c = UpdateFrameResponse \<lparr>lfr_frame = frame,
                     lfr_responseMode = (if isReceive then Response_Rx else Response_TxUnconditional)\<rparr> c
           in if isGoToSleepFrame frame
              then bindE (behavior_GoToSleep c) (\<lambda>c. Inr (c\<lparr>lc_controllerStatus := Status_Sleep\<rparr>))
              else SendFrameInternal frame (if isReceive then SlaveResponse else MasterResponse) c)"

definition AddFrameStatusHandler :: "nat \<Rightarrow> LinController \<Rightarrow> nat \<times> LinController" where
  "AddFrameStatusHandler handler c =
     (let (i, hs) = Handlers_Add handler (lc_frameStatusHandlers c) in (i, c\<lparr>lc_frameStatusHandlers := hs\<rparr>))"

definition RemoveFrameStatusHandler :: "nat \<Rightarrow> LinController \<Rightarrow> LinController" where
  "RemoveFrameStatusHandler handlerId c =
     c\<lparr>lc_frameStatusHandlers := snd (Handlers_Remove handlerId (lc_frameStatusHandlers c))\<rparr>"

definition AddGoToSleepHandler :: "nat \<Rightarrow> LinController \<Rightarrow> nat \<times> LinController" where
  "AddGoToSleepHandler handler c =
     (let (i, hs) = Handlers_Add handler (lc_goToSleepHandlers c) in (i, c\<lparr>lc_goToSleepHandlers := hs\<rparr>))"

definition RemoveGoToSleepHandler :: "nat \<Rightarrow> LinController \<Rightarrow> LinController" where
  "RemoveGoToSleepHandler handlerId c =
     c\<lparr>lc_goToSleepHandlers := snd (Handlers_Remove handlerId (lc_goToSleepHandlers c))\<rparr>"

definition AddWakeupHandler :: "nat \<Rightarrow> LinController \<Rightarrow> nat \<times> LinController" where
  "AddWakeupHandler handler c =
     (let (i, hs) = Handlers_Add handler (lc_wakeupHandlers c) in (i, c\<lparr>lc_wakeupHandlers := hs\<rparr>))"

definition RemoveWakeupHandler :: "nat \<Rightarrow> LinController \<Rightarrow> LinController" where
  "RemoveWakeupHandler handlerId c =
     c\<lparr>lc_wakeupHandlers := snd (Handlers_Remove handlerId (lc_wakeupHandlers c))\<rparr>"

definition AddFrameHeaderHandler :: "nat \<Rightarrow> LinController \<Rightarrow> nat \<times> LinController" where
  "AddFrameHeaderHandler handler c =
     (let (i, hs) = Handlers_Add handler (lc_frameHeaderHandlers c) in (i, c\<lparr>lc_frameHeaderHandlers := hs\<rparr>))"

definition RemoveFrameHeaderHandler :: "nat \<Rightarrow> LinController \<Rightarrow> LinController" where
  "RemoveFrameHeaderHandler handlerId c =
     c\<lparr>lc_frameHeaderHandlers := snd (Handlers_Remove handlerId (lc_frameHeaderHandlers c))\<rparr>"

text \<open>A configuration that arrived before any handler was added is reported to the first one.\<close>

definition AddLinSlaveConfigurationHandler :: "nat \<Rightarrow> LinController \<Rightarrow> nat \<times> LinController" where
  "AddLinSlaveConfigurationHandler handler c =
     (let (i, hs) = Handlers_Add handler (lc_slaveConfigurationHandlers c);
          c = c\<lparr>lc_slaveConfigurationHandlers := hs\<rparr>
      in (i, if lc_triggerLinSlaveConfigurationHandlers c
             then lin_CallHandlers (LinSlaveConfigurationEvent (lc_receptionTimeLinSlaveConfiguration c))
                    (c\<lparr>lc_triggerLinSlaveConfigurationHandlers := False\<rparr>)
             else c))"

definition RemoveLinSlaveConfigurationHandler :: "nat \<Rightarrow> LinController \<Rightarrow> LinController" where
  "RemoveLinSlaveConfigurationHandler handlerId c =
     c\<lparr>lc_slaveConfigurationHandlers := snd (Handlers_Remove handlerId (lc_slaveConfigurationHandlers c))\<rparr>"

definition IsRelevantNetwork :: "ServiceDescriptor \<Rightarrow> LinController \<Rightarrow> bool" where
  "IsRelevantNetwork remote c \<longleftrightarrow>
     sd_serviceType remote = 1 \<and> sd_networkName remote = sd_networkName (lc_serviceDescriptor c)"

text \<open>The handler that \<^verbatim>\<open>RegisterServiceDiscovery\<close> registers.\<close>

definition lin_on_discovery :: "event_type \<Rightarrow> ServiceDescriptor \<Rightarrow> LinController \<Rightarrow> LinController" where
  "lin_on_discovery discoveryType remote c =
     (if lc_trivial c
      then (if discoveryType = ServiceCreated \<and> IsRelevantNetwork remote c
            then c\<lparr>lc_simulatedLink := remote, lc_trivial := False\<rparr> else c)
      else (if discoveryType = ServiceRemoved \<and> IsRelevantNetwork remote c then c\<lparr>lc_trivial := True\<rparr> else c))"

end
