(* ===== verification/Lin_Network.thy ===== *)
theory Lin_Network
  imports Lin_Controller
begin

text \<open>
  A LIN network without a simulator: controllers that exchange their messages over reliable channels, one for each
  ordered pair, which keep the order of the messages (VAsio_Link). Applications act and
  messages arrive in any order. The theory shows that the tables of the controllers agree with the state of
  the slaves up to the messages that are still on their way.
\<close>

section \<open>Transitions of one controller\<close>

text \<open>What a message changes in the entry of its sender.\<close>

definition node_effect :: "lin_message \<Rightarrow> LinNode \<Rightarrow> LinNode" where
  "node_effect msg node = (case msg of
     M_Config m \<Rightarrow> UpdateResponses (lcc_frameResponses m) (node\<lparr>ln_controllerMode := lcc_controllerMode m,
       ln_controllerStatus := Status_Operational, ln_simulationMode := lcc_simulationMode m\<rparr>)
   | M_Status m \<Rightarrow> node\<lparr>ln_controllerStatus := lcs_status m\<rparr>
   | M_Responses m \<Rightarrow> UpdateResponses (lfu_frameResponses m) node
   | _ \<Rightarrow> node)"

definition own_node :: "LinController \<Rightarrow> LinNode" where
  "own_node c = node_at (this_address c) (lc_linNodes c)"

definition response_modes :: "LinNode \<Rightarrow> u8 list" where
  "response_modes node = map lfr_responseMode (ln_responses node)"

text \<open>The entry of a slave in the table of another controller shows its state; all other entries are inactive.\<close>

definition agrees :: "LinController \<Rightarrow> LinNode \<Rightarrow> bool" where
  "agrees c node \<longleftrightarrow>
     (if lc_controllerMode c = Mode_Slave
      then ln_controllerMode node = Mode_Slave \<and> ln_controllerStatus node = lc_controllerStatus c \<and>
           ln_simulationMode node = ln_simulationMode (own_node c) \<and> response_modes node = response_modes (own_node c)
      else ln_controllerMode node = Mode_Inactive \<and> ln_simulationMode node = Simulation_Default) \<and>
     (lc_controllerStatus c = Status_Unknown \<longrightarrow> response_modes node = replicate 64 Response_Unused \<and>
        ln_simulationMode node = Simulation_Default)"

text \<open>A configured response carries the identifier under which it is stored.\<close>

definition ids_ok :: "LinNode \<Rightarrow> bool" where
  "ids_ok node \<longleftrightarrow> (\<forall>k<length (ln_responses node). lfr_responseMode (ln_responses node ! k) \<noteq> Response_Unused \<longrightarrow>
     unat (lf_id (lfr_frame (ln_responses node ! k))) = k)"

lemma ids_ok_fields [simp]:
  "ids_ok (n\<lparr>ln_controllerMode := m\<rparr>) = ids_ok n" "ids_ok (n\<lparr>ln_controllerStatus := s\<rparr>) = ids_ok n"
  "ids_ok (n\<lparr>ln_simulationMode := x\<rparr>) = ids_ok n"
  by (simp_all add: ids_ok_def)

lemma ids_ok_UpdateResponses [intro]: "ids_ok n \<Longrightarrow> ids_ok (UpdateResponses rs n)"
  unfolding UpdateResponses_def
proof (induction rs arbitrary: n)
  case (Cons r rs)
  have "ids_ok (UpdateResponse r n)" using Cons.prems by (auto simp: ids_ok_def UpdateResponse_def Let_def nth_list_update)
  then show ?case using Cons.IH by simp
qed simp

lemma ids_ok_node_effect [intro]: "ids_ok n \<Longrightarrow> ids_ok (node_effect msg n)"
  by (auto simp: node_effect_def split: lin_message.split)

lemma ids_ok_TxBuffer [intro]: "ids_ok n \<Longrightarrow> ids_ok (node_UpdateTxBuffer i d n)"
  by (auto simp: ids_ok_def node_UpdateTxBuffer_def Let_def nth_list_update)

definition lin_good :: "LinController \<Rightarrow> bool" where
  "lin_good c \<longleftrightarrow> lc_trivial c \<and> nodes_ok (lc_linNodes c) \<and> ln_controllerMode (own_node c) = lc_controllerMode c \<and>
     (lc_controllerStatus c = Status_Unknown \<longleftrightarrow> lc_controllerMode c = Mode_Inactive) \<and>
     (\<forall>addr. ids_ok (node_at addr (lc_linNodes c))) \<and> (lc_useDynamicResponse c \<longleftrightarrow> ln_simulationMode (own_node c) = Simulation_Dynamic) \<and>
     (lc_controllerStatus c \<noteq> Status_Unknown \<longrightarrow> ln_controllerStatus (own_node c) = Status_Operational) \<and>
     (lc_controllerStatus c = Status_Unknown \<longrightarrow> response_modes (own_node c) = replicate 64 Response_Unused \<and>
        ln_simulationMode (own_node c) = Simulation_Default)"

text \<open>A transition: the messages that are sent tell the others what changes, and only the own entry changes.\<close>

definition lin_trans :: "LinController \<Rightarrow> LinController \<Rightarrow> bool" where
  "lin_trans c c' \<longleftrightarrow> (lin_good c \<longrightarrow> lin_good c' \<and> lc_serviceDescriptor c' = lc_serviceDescriptor c \<and>
     (\<forall>addr. addr \<noteq> this_address c \<longrightarrow> node_at addr (lc_linNodes c') = node_at addr (lc_linNodes c)) \<and>
     ln_address ` set (lc_linNodes c') \<subseteq> insert (this_address c) (ln_address ` set (lc_linNodes c)) \<and>
     (\<exists>ms. lc_sent c' = lc_sent c @ ms \<and>
        (\<forall>node. node_ok node \<longrightarrow> agrees c node \<longrightarrow> agrees c' (fold node_effect ms node))))"

definition res_trans :: "LinController \<Rightarrow> lin_result \<Rightarrow> bool" where
  "res_trans c r = (case r of Inl (e, c') \<Rightarrow> lin_trans c c' | Inr c' \<Rightarrow> lin_trans c c')"

named_theorems trans_rules

lemma lin_trans_refl [trans_rules, simp]: "lin_trans c c"
  by (auto simp: lin_trans_def)

lemma node_effect_ok [simp]: "node_ok (node_effect msg node) = node_ok node" "ln_address (node_effect msg node) = ln_address node"
  by (auto simp: node_effect_def node_ok_def split: lin_message.split)

lemma fold_node_effect_ok [simp]: "node_ok (fold node_effect ms node) = node_ok node"
  by (induction ms arbitrary: node) simp_all

lemma lin_trans_trans:
  assumes "lin_trans c c'" "lin_trans c' c''"
  shows "lin_trans c c''"
  unfolding lin_trans_def
proof (intro impI)
  assume "lin_good c"
  then obtain ms where 1: "lin_good c'" "lc_serviceDescriptor c' = lc_serviceDescriptor c"
      "\<forall>addr. addr \<noteq> this_address c \<longrightarrow> node_at addr (lc_linNodes c') = node_at addr (lc_linNodes c)"
      "ln_address ` set (lc_linNodes c') \<subseteq> insert (this_address c) (ln_address ` set (lc_linNodes c))"
      "lc_sent c' = lc_sent c @ ms" "\<forall>node. node_ok node \<longrightarrow> agrees c node \<longrightarrow> agrees c' (fold node_effect ms node)"
    using assms(1) unfolding lin_trans_def by blast
  have a: "this_address c' = this_address c" using 1(2) by (simp add: this_address_def)
  obtain ms' where 2: "lin_good c''" "lc_serviceDescriptor c'' = lc_serviceDescriptor c'"
      "\<forall>addr. addr \<noteq> this_address c \<longrightarrow> node_at addr (lc_linNodes c'') = node_at addr (lc_linNodes c')"
      "ln_address ` set (lc_linNodes c'') \<subseteq> insert (this_address c) (ln_address ` set (lc_linNodes c'))"
      "lc_sent c'' = lc_sent c' @ ms'" "\<forall>node. node_ok node \<longrightarrow> agrees c' node \<longrightarrow> agrees c'' (fold node_effect ms' node)"
    using assms(2) 1(1) unfolding lin_trans_def a by blast
  have "\<forall>node. node_ok node \<longrightarrow> agrees c node \<longrightarrow> agrees c'' (fold node_effect (ms @ ms') node)"
    using 1(6) 2(6) by simp
  moreover have "ln_address ` set (lc_linNodes c'') \<subseteq> insert (this_address c) (ln_address ` set (lc_linNodes c))"
    using 1(4) 2(4) by blast
  ultimately show "lin_good c'' \<and> lc_serviceDescriptor c'' = lc_serviceDescriptor c \<and>
     (\<forall>addr. addr \<noteq> this_address c \<longrightarrow> node_at addr (lc_linNodes c'') = node_at addr (lc_linNodes c)) \<and>
     ln_address ` set (lc_linNodes c'') \<subseteq> insert (this_address c) (ln_address ` set (lc_linNodes c)) \<and>
     (\<exists>ms. lc_sent c'' = lc_sent c @ ms \<and>
        (\<forall>node. node_ok node \<longrightarrow> agrees c node \<longrightarrow> agrees c'' (fold node_effect ms node)))"
    using 1(2,3,5) 2(1,2,3,5) by (intro conjI exI[of _ "ms @ ms'"]) simp_all
qed

lemma res_trans_simps [simp]: "res_trans c (Inr c') = lin_trans c c'" "res_trans c (Inl (e, c')) = lin_trans c c'"
  by (simp_all add: res_trans_def)

lemma res_trans_trans:
  assumes "lin_trans c c'" "res_trans c' r"
  shows "res_trans c r"
proof -
  obtain e c'' where "r = Inl (e, c'') \<or> r = Inr c''" by (cases r) auto
  then show ?thesis using lin_trans_trans[OF assms(1), of c''] assms(2) by auto
qed

lemma res_trans_bind:
  assumes "res_trans c r" "\<And>c'. r = Inr c' \<Longrightarrow> res_trans c' (f c')"
  shows "res_trans c (bindE r f)"
proof (cases r)
  case (Inl e)
  then show ?thesis using assms(1) by (simp add: res_trans_def)
next
  case (Inr c')
  then show ?thesis using res_trans_trans[of c c' "f c'"] assms by simp
qed

lemma res_trans_response:
  assumes "lin_trans c c'" "\<And>response. unat linId < length (ln_responses node) \<Longrightarrow> response = ln_responses node ! unat linId \<Longrightarrow> res_trans c (f response)"
  shows "res_trans c (bindE (response_at node linId c') f)"
  using assms by (auto simp: response_at_def)

lemma res_trans_throw [simp]: "res_trans c (throw_if b e c)"
  by (simp add: throw_if_def)

section \<open>The primitive transitions\<close>

lemma lin_good_fields [simp]:
  "lin_good (c\<lparr>lc_calls := x1\<rparr>) = lin_good c" "lin_good (c\<lparr>lc_traced := x2\<rparr>) = lin_good c" "lin_good (c\<lparr>lc_sent := x3\<rparr>) = lin_good c"
  "lin_good (c\<lparr>lc_frameStatusHandlers := x4\<rparr>) = lin_good c" "lin_good (c\<lparr>lc_goToSleepHandlers := x4\<rparr>) = lin_good c"
  "lin_good (c\<lparr>lc_wakeupHandlers := x4\<rparr>) = lin_good c" "lin_good (c\<lparr>lc_slaveConfigurationHandlers := x4\<rparr>) = lin_good c"
  "lin_good (c\<lparr>lc_frameHeaderHandlers := x4\<rparr>) = lin_good c" "lin_good (c\<lparr>lc_linIdsRespondedBySlaves := x5\<rparr>) = lin_good c"
  "lin_good (c\<lparr>lc_triggerLinSlaveConfigurationHandlers := x6\<rparr>) = lin_good c"
  "lin_good (c\<lparr>lc_receptionTimeLinSlaveConfiguration := x7\<rparr>) = lin_good c" "lin_good (c\<lparr>lc_now := x7\<rparr>) = lin_good c"
  by (simp_all add: lin_good_def own_node_def this_address_def)

lemma agrees_fields [simp]:
  "agrees (c\<lparr>lc_calls := x1\<rparr>) = agrees c" "agrees (c\<lparr>lc_traced := x2\<rparr>) = agrees c" "agrees (c\<lparr>lc_sent := x3\<rparr>) = agrees c"
  "agrees (c\<lparr>lc_frameStatusHandlers := x4\<rparr>) = agrees c" "agrees (c\<lparr>lc_goToSleepHandlers := x4\<rparr>) = agrees c"
  "agrees (c\<lparr>lc_wakeupHandlers := x4\<rparr>) = agrees c" "agrees (c\<lparr>lc_slaveConfigurationHandlers := x4\<rparr>) = agrees c"
  "agrees (c\<lparr>lc_frameHeaderHandlers := x4\<rparr>) = agrees c" "agrees (c\<lparr>lc_linIdsRespondedBySlaves := x5\<rparr>) = agrees c"
  "agrees (c\<lparr>lc_triggerLinSlaveConfigurationHandlers := x6\<rparr>) = agrees c"
  "agrees (c\<lparr>lc_receptionTimeLinSlaveConfiguration := x7\<rparr>) = agrees c" "agrees (c\<lparr>lc_now := x7\<rparr>) = agrees c"
  by (simp_all add: agrees_def own_node_def this_address_def fun_eq_iff)

lemma trans_fields [trans_rules, simp]:
  "lin_trans c (c\<lparr>lc_calls := x1\<rparr>)" "lin_trans c (c\<lparr>lc_traced := x2\<rparr>)"
  "lin_trans c (c\<lparr>lc_frameStatusHandlers := x4\<rparr>)" "lin_trans c (c\<lparr>lc_goToSleepHandlers := x4\<rparr>)"
  "lin_trans c (c\<lparr>lc_wakeupHandlers := x4\<rparr>)" "lin_trans c (c\<lparr>lc_slaveConfigurationHandlers := x4\<rparr>)"
  "lin_trans c (c\<lparr>lc_frameHeaderHandlers := x4\<rparr>)" "lin_trans c (c\<lparr>lc_triggerLinSlaveConfigurationHandlers := x6\<rparr>)"
  "lin_trans c (c\<lparr>lc_now := x7\<rparr>)"
  by (auto simp: lin_trans_def)

lemma trans_CallHandlers [trans_rules, simp]: "lin_trans c (lin_CallHandlers e c)"
  by (simp add: lin_CallHandlers_def)

lemma trans_Trace [trans_rules, simp]: "lin_trans c (lin_Trace d t f c)"
  by (simp add: lin_Trace_def)

text \<open>Messages that do not change the entry of the sender.\<close>

lemma trans_send [trans_rules]: "node_effect msg = id \<Longrightarrow> lin_trans c (lin_send msg c)"
  by (auto simp: lin_trans_def lin_send_def)

lemma node_effect_id [simp]:
  "node_effect (M_Header h) = id" "node_effect (M_Transmission t) = id" "node_effect (M_Wakeup w) = id" "node_effect (M_FrameRequest r) = id"
  by (simp_all add: node_effect_def fun_eq_iff)

lemma node_changes [simp]:
  "node_change addr id" "node_change addr (UpdateResponses rs)" "node_change addr (node_UpdateTxBuffer i d)"
  "node_change addr (\<lambda>n. n\<lparr>ln_controllerStatus := s\<rparr>)"
  "node_change addr (\<lambda>n. n\<lparr>ln_controllerMode := m, ln_controllerStatus := s, ln_simulationMode := x\<rparr>)"
  "node_change addr (\<lambda>n. UpdateResponses rs (n\<lparr>ln_controllerMode := m, ln_controllerStatus := s\<rparr>))"
  by (simp_all add: node_change_def)

lemma modify_node_addresses:
  assumes "nodes_ok nodes" "node_change addr f"
  shows "ln_address ` set (modify_node addr f nodes) \<subseteq> insert addr (ln_address ` set nodes)"
proof -
  obtain xs zs where m: "modify_node addr f nodes = xs @ f (node_at addr nodes) # zs"
    "nodes = xs @ node_at addr nodes # zs \<or> nodes = xs @ zs \<and> node_at addr nodes = default_LinNode addr"
    by (rule modify_node_split[OF assms(1), of addr f]) blast
  have "ln_address (f (node_at addr nodes)) = addr" using assms node_at_ok[OF assms(1), of addr] by (simp add: node_change_def)
  moreover have "set xs \<union> set zs \<subseteq> set nodes" using m(2) by (metis Un_subset_iff set_append set_subset_Cons subset_trans sup.cobounded1 sup.cobounded2)
  ultimately show ?thesis unfolding m(1) by auto
qed

lemma trans_read [trans_rules]: "lin_trans c (snd (GetThisLinNode c))"
proof (cases "nodes_ok (lc_linNodes c)")
  case True
  note r = read_node_ok[OF True, where addr = "this_address c"]
  have "ln_address ` set (snd (read_node (this_address c) (lc_linNodes c))) \<subseteq> insert (this_address c) (ln_address ` set (lc_linNodes c))"
    using modify_node_addresses[OF True, of "this_address c" id] by (simp add: read_node_modify)
  then show ?thesis
    using r by (simp add: lin_trans_def GetThisLinNode_def split_beta lin_good_def agrees_def own_node_def this_address_def)
qed (simp add: lin_trans_def lin_good_def)

lemma read_own: "lin_good c \<Longrightarrow> fst (GetThisLinNode c) = own_node c"
  by (simp add: GetThisLinNode_def split_beta own_node_def read_node_at lin_good_def)

lemma own_node_update:
  assumes "nodes_ok (lc_linNodes c)" "node_change (this_address c) f"
  shows "own_node (update_LinNode (this_address c) f c) = f (own_node c)"
  using lin_nodes.lookup_modify[OF assms, of "this_address c"] by (simp add: own_node_def update_LinNode_def this_address_def)

lemma update_LinNode_fields [simp]:
  "lc_trivial (update_LinNode a f c) = lc_trivial c" "lc_controllerMode (update_LinNode a f c) = lc_controllerMode c"
  "lc_controllerStatus (update_LinNode a f c) = lc_controllerStatus c" "lc_sent (update_LinNode a f c) = lc_sent c"
  "lc_serviceDescriptor (update_LinNode a f c) = lc_serviceDescriptor c" "this_address (update_LinNode a f c) = this_address c"
  "lc_useDynamicResponse (update_LinNode a f c) = lc_useDynamicResponse c"
  by (simp_all add: update_LinNode_def this_address_def)

lemma response_modes_UpdateResponse:
  "response_modes (UpdateResponse r n) = (response_modes n)[unat (lf_id (lfr_frame r)) := lfr_responseMode r]"
  by (simp add: response_modes_def UpdateResponse_def Let_def map_update list_update_beyond)

lemma response_modes_UpdateResponses:
  "response_modes n = response_modes n' \<Longrightarrow> response_modes (UpdateResponses rs n) = response_modes (UpdateResponses rs n')"
  unfolding UpdateResponses_def by (induction rs arbitrary: n n') (simp_all add: response_modes_UpdateResponse)

lemma response_modes_TxBuffer [simp]: "response_modes (node_UpdateTxBuffer i d n) = response_modes n"
proof -
  have "map lfr_responseMode ((ln_responses n)[k := r]) = map lfr_responseMode (ln_responses n)"
    if "lfr_responseMode r = lfr_responseMode (ln_responses n ! k)" for k r
    using that by (cases "k < length (ln_responses n)") (simp_all add: map_update list_update_beyond, metis list_update_id map_update)
  then show ?thesis by (simp add: response_modes_def node_UpdateTxBuffer_def Let_def)
qed

lemma response_modes_fields [simp]:
  "response_modes (n\<lparr>ln_controllerMode := m\<rparr>) = response_modes n" "response_modes (n\<lparr>ln_controllerStatus := s\<rparr>) = response_modes n"
  "response_modes (n\<lparr>ln_simulationMode := x\<rparr>) = response_modes n"
  by (simp_all add: response_modes_def)

text \<open>A change of the own entry, after which messages \<open>ms\<close> are sent and the members for mode and status are set.\<close>

lemma trans_own:
  assumes f: "node_change (this_address c) f" and ids: "\<And>n. ids_ok n \<Longrightarrow> ids_ok (f n)"
    and c': "lc_linNodes c' = modify_node (this_address c) f (lc_linNodes c)" "lc_serviceDescriptor c' = lc_serviceDescriptor c"
      "lc_sent c' = lc_sent c @ ms"
    and ok: "\<And>own. own_node c = own \<Longrightarrow> lin_good c \<Longrightarrow> own_node c' = f own \<Longrightarrow> nodes_ok (lc_linNodes c') \<Longrightarrow>
       \<forall>addr. ids_ok (node_at addr (lc_linNodes c')) \<Longrightarrow> lin_good c' \<and> (\<forall>node. node_ok node \<longrightarrow> agrees c node \<longrightarrow> agrees c' (fold node_effect ms node))"
  shows "lin_trans c c'"
  unfolding lin_trans_def
proof (intro impI)
  assume g: "lin_good c"
  then have n: "nodes_ok (lc_linNodes c)" by (simp add: lin_good_def)
  have "own_node c' = f (own_node c)"
    using lin_nodes.lookup_modify[OF n f, of "this_address c"] c'(1,2) by (simp add: own_node_def this_address_def)
  moreover have "nodes_ok (lc_linNodes c')" using lin_nodes.inv_modify[OF n f] c'(1) by simp
  moreover have "\<forall>addr. ids_ok (node_at addr (lc_linNodes c'))"
    using lin_nodes.lookup_modify[OF n f] c'(1) g ids by (simp add: lin_good_def)
  moreover have "\<forall>addr. addr \<noteq> this_address c \<longrightarrow> node_at addr (lc_linNodes c') = node_at addr (lc_linNodes c)"
    using lin_nodes.lookup_modify[OF n f] c'(1) by simp
  moreover have "ln_address ` set (lc_linNodes c') \<subseteq> insert (this_address c) (ln_address ` set (lc_linNodes c))"
    using modify_node_addresses[OF n f] c'(1) by simp
  ultimately show "lin_good c' \<and> lc_serviceDescriptor c' = lc_serviceDescriptor c \<and>
     (\<forall>addr. addr \<noteq> this_address c \<longrightarrow> node_at addr (lc_linNodes c') = node_at addr (lc_linNodes c)) \<and>
     ln_address ` set (lc_linNodes c') \<subseteq> insert (this_address c) (ln_address ` set (lc_linNodes c)) \<and>
     (\<exists>ms. lc_sent c' = lc_sent c @ ms \<and>
        (\<forall>node. node_ok node \<longrightarrow> agrees c node \<longrightarrow> agrees c' (fold node_effect ms node)))"
    using c' ok[OF refl g] by blast
qed

lemma trans_UpdateFrameResponse: "lc_controllerStatus c \<noteq> Status_Unknown \<Longrightarrow> lin_trans c (UpdateFrameResponse r c)"
proof (rule trans_own[where f = "UpdateResponses [r]" and ms = "if distributes c then [M_Responses \<lparr>lfu_frameResponses = [r]\<rparr>] else []"])
  fix own assume s: "lc_controllerStatus c \<noteq> Status_Unknown" and own: "own_node c = own" "lin_good c"
    "own_node (UpdateFrameResponse r c) = UpdateResponses [r] own" "nodes_ok (lc_linNodes (UpdateFrameResponse r c))" "\<forall>addr. ids_ok (node_at addr (lc_linNodes (UpdateFrameResponse r c)))"
  then show "lin_good (UpdateFrameResponse r c) \<and> (\<forall>node. node_ok node \<longrightarrow> agrees c node \<longrightarrow>
      agrees (UpdateFrameResponse r c) (fold node_effect (if distributes c then [M_Responses \<lparr>lfu_frameResponses = [r]\<rparr>] else []) node))"
    by (auto simp: lin_good_def agrees_def UpdateFrameResponse_def SendMsg_LinFrameResponseUpdate_def distributes_def lin_send_def
        node_effect_def intro!: response_modes_UpdateResponses)
qed (simp_all add: UpdateFrameResponse_def SendMsg_LinFrameResponseUpdate_def distributes_def lin_send_def update_LinNode_def ids_ok_UpdateResponses)

lemma trans_TxBuffer: "lin_trans c (update_LinNode (this_address c) (node_UpdateTxBuffer i d) c)"
proof (rule trans_own[where f = "node_UpdateTxBuffer i d" and ms = "[]"])
qed (auto simp: update_LinNode_def lin_good_def agrees_def ids_ok_TxBuffer)

lemma trans_status:
  assumes "lc_controllerStatus c \<noteq> Status_Unknown" "status \<noteq> Status_Unknown"
  shows "lin_trans c (SetControllerStatusInternal status c)"
  unfolding lin_trans_def
proof (intro impI conjI)
  show "\<exists>ms. lc_sent (SetControllerStatusInternal status c) = lc_sent c @ ms \<and>
      (\<forall>node. node_ok node \<longrightarrow> agrees c node \<longrightarrow> agrees (SetControllerStatusInternal status c) (fold node_effect ms node))"
    using assms by (auto simp: SetControllerStatusInternal_def lin_send_def agrees_def own_node_def this_address_def node_effect_def
        intro!: exI[of _ "[M_Status \<lparr>lcs_timestamp = 0, lcs_status = status\<rparr>]"])
qed (use assms in \<open>auto simp: SetControllerStatusInternal_def lin_send_def lin_good_def own_node_def this_address_def\<close>)

lemma trans_Init: "res_trans c (Init m b rs c)"
proof (cases "m = Mode_Inactive \<or> lc_controllerStatus c \<noteq> Status_Unknown")
  case False
  define f where "f = (\<lambda>node. UpdateResponses rs (node\<lparr>ln_controllerMode := m, ln_controllerStatus := Status_Operational\<rparr>))"
  define c' where "c' = (update_LinNode (this_address c) f c)\<lparr>lc_controllerMode := m, lc_controllerStatus := Status_Operational\<rparr>"
  let ?msg = "to_wire_LinControllerConfig m b rs"
  have i: "Init m b rs c = Inr (SendMsg_WireLinControllerConfig ?msg c')" using False by (simp add: Init_def Let_def c'_def f_def)
  have "lin_trans c (SendMsg_WireLinControllerConfig ?msg c')"
  proof (rule trans_own[where f = f and ms = "if distributes c' then [M_Config ?msg] else []"])
    fix own assume "own_node c = own" "lin_good c" "own_node (SendMsg_WireLinControllerConfig ?msg c') = f own"
      "nodes_ok (lc_linNodes (SendMsg_WireLinControllerConfig ?msg c'))"
      "\<forall>addr. ids_ok (node_at addr (lc_linNodes (SendMsg_WireLinControllerConfig ?msg c')))"
    then show "lin_good (SendMsg_WireLinControllerConfig ?msg c') \<and> (\<forall>node. node_ok node \<longrightarrow> agrees c node \<longrightarrow>
       agrees (SendMsg_WireLinControllerConfig ?msg c') (fold node_effect (if distributes c' then [M_Config ?msg] else []) node))"
      using False by (auto simp: lin_good_def agrees_def SendMsg_WireLinControllerConfig_def distributes_def lin_send_def c'_def f_def
          node_effect_def to_wire_LinControllerConfig_def intro!: response_modes_UpdateResponses)
  qed (simp_all add: SendMsg_WireLinControllerConfig_def lin_send_def c'_def f_def update_LinNode_def ids_ok_UpdateResponses)
  then show ?thesis by (simp add: i)
qed (auto simp: Init_def)

lemma trans_InitDynamic: "res_trans c (InitDynamic m b c)"
proof (cases "m = Mode_Inactive \<or> lc_controllerStatus c \<noteq> Status_Unknown")
  case False
  define f where "f = (\<lambda>node :: LinNode. node\<lparr>ln_controllerMode := m, ln_controllerStatus := Status_Operational, ln_simulationMode := Simulation_Dynamic\<rparr>)"
  define c' where "c' = (update_LinNode (this_address c) f c)\<lparr>lc_controllerMode := m, lc_controllerStatus := Status_Operational,
    lc_useDynamicResponse := True\<rparr>"
  let ?msg = "to_wire_LinControllerDynamicConfig m b"
  have i: "InitDynamic m b c = Inr (SendMsg_WireLinControllerConfig ?msg c')" using False by (simp add: InitDynamic_def Let_def c'_def f_def)
  have "lin_trans c (SendMsg_WireLinControllerConfig ?msg c')"
  proof (rule trans_own[where f = f and ms = "if distributes c' then [M_Config ?msg] else []"])
    fix own assume "own_node c = own" "lin_good c" "own_node (SendMsg_WireLinControllerConfig ?msg c') = f own"
      "nodes_ok (lc_linNodes (SendMsg_WireLinControllerConfig ?msg c'))"
      "\<forall>addr. ids_ok (node_at addr (lc_linNodes (SendMsg_WireLinControllerConfig ?msg c')))"
    then show "lin_good (SendMsg_WireLinControllerConfig ?msg c') \<and> (\<forall>node. node_ok node \<longrightarrow> agrees c node \<longrightarrow>
       agrees (SendMsg_WireLinControllerConfig ?msg c') (fold node_effect (if distributes c' then [M_Config ?msg] else []) node))"
      using False by (auto simp: lin_good_def agrees_def SendMsg_WireLinControllerConfig_def distributes_def lin_send_def c'_def f_def
          node_effect_def to_wire_LinControllerDynamicConfig_def UpdateResponses_def)
  qed (simp_all add: SendMsg_WireLinControllerConfig_def lin_send_def c'_def f_def update_LinNode_def ids_ok_UpdateResponses)
  then show ?thesis by (simp add: i)
qed (auto simp: InitDynamic_def)

section \<open>The operations are transitions\<close>

lemma res_trans_if: "(b \<Longrightarrow> res_trans c r) \<Longrightarrow> (\<not> b \<Longrightarrow> res_trans c r') \<Longrightarrow> res_trans c (if b then r else r')"
  by simp

lemma GetThisLinNode_fields [simp]:
  "lc_controllerStatus (snd (GetThisLinNode c)) = lc_controllerStatus c" "lc_trivial (snd (GetThisLinNode c)) = lc_trivial c"
  "lc_controllerMode (snd (GetThisLinNode c)) = lc_controllerMode c" "lc_now (snd (GetThisLinNode c)) = lc_now c"
  "lc_serviceDescriptor (snd (GetThisLinNode c)) = lc_serviceDescriptor c" "lc_useDynamicResponse (snd (GetThisLinNode c)) = lc_useDynamicResponse c"
  by (simp_all add: GetThisLinNode_def split_beta)

lemma trans_read_response:
  assumes "\<And>node response. response \<in> set (ln_responses node) \<Longrightarrow> res_trans (snd (GetThisLinNode c)) (f node (snd (GetThisLinNode c)) response)"
  shows "res_trans c (case GetThisLinNode c of (node, c) \<Rightarrow> bindE (response_at node linId c) (f node c))"
  unfolding split_beta
  by (rule res_trans_trans[OF trans_read]) (auto simp: response_at_def intro!: assms)

lemma trans_trivial_Process: "res_trans c (trivial_ProcessFrameHeaderRequest header c)"
  unfolding trivial_ProcessFrameHeaderRequest_def Let_def
  by (rule trans_read_response) (auto intro!: lin_trans_trans[OF lin_trans_trans[OF trans_send trans_Trace] trans_CallHandlers])

lemma trans_Process: "res_trans c (ProcessFrameHeaderRequest header c)"
  by (simp add: ProcessFrameHeaderRequest_def trans_trivial_Process)

lemma trans_receive_header: "res_trans c (ReceiveMsg_LinSendFrameHeaderRequest sd msg c)"
  by (simp add: ReceiveMsg_LinSendFrameHeaderRequest_def trans_Process)

lemma trans_send_header: "lin_trans c (send_header msg c)"
proof -
  have "res_trans c (ReceiveMsg_LinSendFrameHeaderRequest (lc_serviceDescriptor c) msg (lin_send (M_Header msg) c))"
    by (rule res_trans_trans[OF trans_send trans_receive_header]) simp
  then show ?thesis by (auto simp: send_header_def res_trans_def split: sum.splits)
qed

lemma trans_error_transmission: "res_trans c (SendErrorTransmissionOnHeaderRequest n frame c)"
  unfolding SendErrorTransmissionOnHeaderRequest_def Let_def
  by (rule res_trans_trans[OF trans_send, rotated], rule trans_read_response)
     (auto intro!: lin_trans_trans[OF trans_Trace trans_CallHandlers])

lemma count_responses_error: "count_responses linId nodes c p = Inl x \<Longrightarrow> snd x = c"
  by (induction linId nodes c p rule: count_responses.induct) (auto simp: response_at_def bindE_def split: if_splits)

lemma trans_SendMsg_header: "res_trans c (SendMsg_LinSendFrameHeaderRequest msg c)"
proof (cases "lc_trivial c")
  case True
  show ?thesis
  proof (cases "GetResponse (lsh_id msg) c")
    case (Inl x)
    then have "snd x = c" unfolding GetResponse_def by (rule count_responses_error)
    then show ?thesis using True Inl by (cases x) (simp add: SendMsg_LinSendFrameHeaderRequest_def)
  next
    case (Inr x)
    then show ?thesis using True trans_error_transmission trans_send_header
      by (cases x) (auto simp: SendMsg_LinSendFrameHeaderRequest_def)
  qed
qed (simp add: SendMsg_LinSendFrameHeaderRequest_def trans_send_header)

lemma trans_ThrowIf [simp]:
  "res_trans c (ThrowIfUninitialized m c)" "res_trans c (ThrowIfNotMaster m c)" "res_trans c (ThrowIfDynamic m c)"
  "res_trans c (ThrowIfNotDynamic m c)"
  by (simp_all add: ThrowIfUninitialized_def ThrowIfNotMaster_def ThrowIfDynamic_def ThrowIfNotDynamic_def)

lemma ThrowIf_Inr [simp]:
  "ThrowIfUninitialized m c = Inr c' \<longleftrightarrow> c' = c \<and> lc_controllerStatus c \<noteq> Status_Unknown"
  "ThrowIfNotMaster m c = Inr c' \<longleftrightarrow> c' = c \<and> lc_controllerMode c = Mode_Master"
  "ThrowIfDynamic m c = Inr c' \<longleftrightarrow> c' = c \<and> \<not> lc_useDynamicResponse c"
  "ThrowIfNotDynamic m c = Inr c' \<longleftrightarrow> c' = c \<and> \<not> lc_useDynamicResponse c"
  by (auto simp: ThrowIfUninitialized_def ThrowIfNotMaster_def ThrowIfDynamic_def ThrowIfNotDynamic_def throw_if_def)

lemma trans_ThrowIfNotConfigured: "res_trans c (ThrowIfNotConfiguredTxUnconditional i c)"
  unfolding ThrowIfNotConfiguredTxUnconditional_def Let_def by (rule trans_read_response) simp

lemma trans_SendFrameHeader: "res_trans c (SendFrameHeader i c)"
  unfolding SendFrameHeader_def by (auto intro!: res_trans_bind trans_SendMsg_header)

lemma trans_request: "res_trans c (SendMsg_LinSendFrameRequest req c)"
  by (simp add: SendMsg_LinSendFrameRequest_def trans_SendFrameHeader trans_send)

lemma trans_SendFrameInternal:
  assumes "lc_controllerStatus c \<noteq> Status_Unknown"
  shows "res_trans c (SendFrameInternal frame t c)"
proof -
  let ?req = "SendMsg_LinSendFrameRequest \<lparr>lsf_frame = frame, lsf_responseType = t\<rparr>"
  have u: "lc_controllerStatus c' \<noteq> Status_Unknown \<Longrightarrow> res_trans c' (?req (UpdateFrameResponse r c'))" for c' r
    by (rule res_trans_trans[OF trans_UpdateFrameResponse trans_request])
  have "res_trans c (case GetThisLinNode c of (node, c) \<Rightarrow> bindE (response_at node (lf_id frame) c) (\<lambda>current.
      if lfr_responseMode current = Response_Unused then ?req (UpdateFrameResponse \<lparr>lfr_frame = frame, lfr_responseMode = Response_Rx\<rparr> c)
      else if lfr_responseMode current = Response_TxUnconditional then Inr c else ?req c))"
    by (rule trans_read_response) (use assms u trans_request in auto)
  moreover have "res_trans c (?req (lin_CallHandlers e c))" for e by (rule res_trans_trans[OF trans_CallHandlers trans_request])
  ultimately show ?thesis
    unfolding SendFrameInternal_def Let_def using u[OF assms] trans_request by (simp only: res_trans_simps trans_CallHandlers split: if_split) simp
qed

lemma trans_SendFrame: "res_trans c (SendFrame frame t c)"
  unfolding SendFrame_def by (auto intro!: res_trans_bind trans_SendFrameInternal)

lemma trans_UpdateTxBuffer: "res_trans c (lin_UpdateTxBuffer frame c)"
proof -
  have s: "lin_trans c (lin_send (M_Responses m) c)" if "\<not> lc_trivial c" for m c using that by (simp add: lin_trans_def lin_good_def)
  have "lin_trans c (let c = update_LinNode (this_address c) (node_UpdateTxBuffer i d) c
       in (if lc_trivial c then c else lin_send (M_Responses m) c))" for c i d m
    unfolding Let_def using trans_TxBuffer[of c i d] by (auto intro!: s elim: lin_trans_trans)
  then show ?thesis
    unfolding lin_UpdateTxBuffer_def by (auto simp: Let_def intro!: res_trans_bind trans_ThrowIfNotConfigured)
qed

lemma trans_SetFrameResponse: "res_trans c (SetFrameResponse response c)"
  unfolding SetFrameResponse_def Let_def
  by (intro res_trans_bind res_trans_if trans_read_response trans_ThrowIf) (auto intro!: trans_UpdateFrameResponse)

lemma trans_SendDynamicResponse: "lc_controllerStatus c \<noteq> Status_Unknown \<Longrightarrow> res_trans c (SendDynamicResponse frame c)"
  unfolding SendDynamicResponse_def
  by (auto intro!: res_trans_bind res_trans_trans[OF trans_UpdateFrameResponse trans_Process] split: if_splits)

lemma trans_GoToSleepInternal: "res_trans c (GoToSleepInternal c)"
  unfolding GoToSleepInternal_def by (auto intro!: res_trans_bind trans_status)

lemma trans_WakeupInternal: "res_trans c (WakeupInternal c)"
  unfolding WakeupInternal_def by (auto intro!: res_trans_bind trans_status)

lemma trans_behavior_GoToSleep: "res_trans c (behavior_GoToSleep c)"
proof (cases "lc_trivial c")
  case True
  show ?thesis unfolding behavior_GoToSleep_def Let_def
    using True by (auto intro!: res_trans_trans[OF lin_trans_trans[OF lin_trans_trans[OF trans_Trace trans_send] trans_CallHandlers] trans_GoToSleepInternal])
next
  case False
  then show ?thesis by (simp add: res_trans_def lin_trans_def lin_good_def split: sum.split)
qed

lemma behavior_GoToSleep_asleep:
  assumes "behavior_GoToSleep c = Inr c'" "lc_trivial c"
  shows "lc_controllerStatus c' = Status_Sleep"
  using assms by (auto simp: behavior_GoToSleep_def GoToSleepInternal_def Let_def SetControllerStatusInternal_def lin_send_def)

lemma trans_sleep:
  "res_trans c (bindE (behavior_GoToSleep c) (\<lambda>c. Inr (c\<lparr>lc_controllerStatus := Status_Sleep\<rparr>)))"
proof (cases "lc_trivial c")
  case True
  show ?thesis
    by (rule res_trans_bind[OF trans_behavior_GoToSleep])
       (use behavior_GoToSleep_asleep[OF _ True] in \<open>metis (mono_tags, lifting) LinController.surjective LinController.update_convs(5)
          lin_trans_refl res_trans_simps(1)\<close>)
next
  case False
  then show ?thesis by (simp add: res_trans_def lin_trans_def lin_good_def split: sum.split)
qed

lemma trans_GoToSleep: "res_trans c (GoToSleep c)"
  unfolding GoToSleep_def by (auto intro!: res_trans_bind trans_sleep)

lemma trans_receive_wakeup: "lin_trans c (ReceiveMsg_LinWakeupPulse sd msg c)"
  by (simp add: ReceiveMsg_LinWakeupPulse_def)

lemma trans_Wakeup: "res_trans c (Wakeup c)"
proof -
  have "res_trans c (WakeupInternal (ReceiveMsg_LinWakeupPulse sd p (lin_send (M_Wakeup m) c)))" for sd p m
    by (rule res_trans_trans[OF lin_trans_trans[OF trans_send trans_receive_wakeup] trans_WakeupInternal]) simp
  moreover have "res_trans c (WakeupInternal (lin_send (M_Wakeup m) c))" for m
    by (rule res_trans_trans[OF trans_send trans_WakeupInternal]) simp
  ultimately show ?thesis unfolding Wakeup_def Let_def by (intro res_trans_bind res_trans_if) auto
qed

lemma trans_ReplayMessage:
  assumes "lc_controllerStatus c \<noteq> Status_Unknown"
  shows "res_trans c (ReplayMessage dir t frame c)"
proof -
  let ?u = "\<lambda>r. UpdateFrameResponse r c"
  have s: "lc_controllerStatus (?u r) \<noteq> Status_Unknown" for r
    using assms by (simp add: UpdateFrameResponse_def SendMsg_LinFrameResponseUpdate_def lin_send_def)
  have "res_trans c (bindE (behavior_GoToSleep (?u r)) (\<lambda>c. Inr (c\<lparr>lc_controllerStatus := Status_Sleep\<rparr>)))" for r
    by (rule res_trans_trans[OF trans_UpdateFrameResponse[OF assms] trans_sleep])
  moreover have "res_trans c (SendFrameInternal frame x (?u r))" for x r
    by (rule res_trans_trans[OF trans_UpdateFrameResponse[OF assms] trans_SendFrameInternal[OF s]])
  ultimately show ?thesis unfolding ReplayMessage_def Let_def by (intro res_trans_if) simp_all
qed

lemma trans_receive_transmission: "res_trans c (ReceiveMsg_LinTransmission sd msg c)"
proof -
  have t: "res_trans c (case GetThisLinNode c of (node, c) \<Rightarrow> bindE (response_at node i c) (\<lambda>response.
      Inr (let c = (if P node c response then lin_CallHandlers (E node c response) c else c) in if Q c then lin_CallHandlers e c else c)))" for i P E Q e c
    by (rule trans_read_response) (auto simp: Let_def intro: lin_trans_trans[OF trans_CallHandlers trans_CallHandlers])
  have "res_trans c (case GetThisLinNode (lin_Trace d s f c) of (node, c) \<Rightarrow> bindE (response_at node i c) (\<lambda>response.
      Inr (let c = (if P node c response then lin_CallHandlers (E node c response) c else c) in if Q c then lin_CallHandlers e c else c)))" for i P E Q e d s f
    by (rule res_trans_trans[OF trans_Trace t])
  note t' = this[unfolded Let_def]
  show ?thesis unfolding ReceiveMsg_LinTransmission_def Let_def by (intro res_trans_if t') simp_all
qed

section \<open>Receiving\<close>

text \<open>
  A controller that receives a message applies its effect to the entry of the sender and makes a transition of its
  own.
\<close>

definition result_state :: "lin_result \<Rightarrow> LinController" where
  "result_state r = (case r of Inl (e, c) \<Rightarrow> c | Inr c \<Rightarrow> c)"

definition lin_recv :: "EndpointAddress \<Rightarrow> lin_message \<Rightarrow> LinController \<Rightarrow> LinController \<Rightarrow> bool" where
  "lin_recv sender msg c c' \<longleftrightarrow> (lin_good c \<longrightarrow> sender \<noteq> this_address c \<longrightarrow>
     lin_good c' \<and> lc_serviceDescriptor c' = lc_serviceDescriptor c \<and>
     (\<forall>addr. addr \<noteq> this_address c \<longrightarrow> node_at addr (lc_linNodes c') =
        (if addr = sender then node_effect msg (node_at addr (lc_linNodes c)) else node_at addr (lc_linNodes c))) \<and>
     ln_address ` set (lc_linNodes c') \<subseteq> insert sender (insert (this_address c) (ln_address ` set (lc_linNodes c))) \<and>
     (\<exists>ms. lc_sent c' = lc_sent c @ ms \<and>
        (\<forall>node. node_ok node \<longrightarrow> agrees c node \<longrightarrow> agrees c' (fold node_effect ms node))))"

lemma recv_of_trans: "node_effect msg = id \<Longrightarrow> lin_trans c c' \<Longrightarrow> lin_recv sender msg c c'"
  unfolding lin_trans_def lin_recv_def by (simp add: subset_insertI2)

text \<open>Updates of the entry of the sender that leave the rest of the controller alone.\<close>

definition same_core :: "LinController \<Rightarrow> LinController \<Rightarrow> bool" where
  "same_core c c' \<longleftrightarrow> lc_serviceDescriptor c' = lc_serviceDescriptor c \<and> lc_trivial c' = lc_trivial c \<and>
     lc_controllerMode c' = lc_controllerMode c \<and> lc_controllerStatus c' = lc_controllerStatus c \<and>
     lc_useDynamicResponse c' = lc_useDynamicResponse c \<and> lc_sent c' = lc_sent c"

lemma recv_update:
  assumes "same_core c c'"
    and nodes: "lin_good c \<Longrightarrow> nodes_ok (lc_linNodes c') \<and>
      (\<forall>addr. node_at addr (lc_linNodes c') = (if addr = sender then node_effect msg (node_at addr (lc_linNodes c)) else node_at addr (lc_linNodes c))) \<and>
      ln_address ` set (lc_linNodes c') \<subseteq> insert sender (ln_address ` set (lc_linNodes c))"
  shows "lin_recv sender msg c c'"
  unfolding lin_recv_def
proof (intro impI)
  assume g: "lin_good c" and sender: "sender \<noteq> this_address c"
  have a: "this_address c' = this_address c" using assms(1) by (simp add: same_core_def this_address_def)
  have own: "own_node c' = own_node c" using nodes[OF g] sender by (simp add: own_node_def a)
  have "lin_good c'" using g assms(1) nodes[OF g] own by (simp add: lin_good_def same_core_def ids_ok_node_effect)
  moreover have "agrees c' = agrees c" using own assms(1) by (simp add: agrees_def same_core_def fun_eq_iff)
  ultimately show "lin_good c' \<and> lc_serviceDescriptor c' = lc_serviceDescriptor c \<and>
     (\<forall>addr. addr \<noteq> this_address c \<longrightarrow> node_at addr (lc_linNodes c') =
        (if addr = sender then node_effect msg (node_at addr (lc_linNodes c)) else node_at addr (lc_linNodes c))) \<and>
     ln_address ` set (lc_linNodes c') \<subseteq> insert sender (insert (this_address c) (ln_address ` set (lc_linNodes c))) \<and>
     (\<exists>ms. lc_sent c' = lc_sent c @ ms \<and> (\<forall>node. node_ok node \<longrightarrow> agrees c node \<longrightarrow> agrees c' (fold node_effect ms node)))"
    using nodes[OF g] assms(1) by (auto simp: same_core_def)
qed

lemma UpdateLinIds_core:
  "same_core c (UpdateLinIdsRespondedBySlaves rs c) \<and> lc_linNodes (UpdateLinIdsRespondedBySlaves rs c) = lc_linNodes c \<and>
   lc_slaveConfigurationHandlers (UpdateLinIdsRespondedBySlaves rs c) = lc_slaveConfigurationHandlers c"
  unfolding UpdateLinIdsRespondedBySlaves_def
  by (induction rs arbitrary: c) (auto simp: same_core_def)

lemma HandleResponsesUpdate_core:
  "same_core c (HandleResponsesUpdate sd rs c) \<and>
   lc_linNodes (HandleResponsesUpdate sd rs c) = modify_node (to_endpointAddress sd) (UpdateResponses rs) (lc_linNodes c)"
proof -
  let ?c = "update_LinNode (to_endpointAddress sd) (UpdateResponses rs) c"
  have u: "same_core c ?c \<and> lc_linNodes ?c = modify_node (to_endpointAddress sd) (UpdateResponses rs) (lc_linNodes c)"
    by (simp add: update_LinNode_def same_core_def)
  define fin where "fin = (\<lambda>c. if h_entries (lc_slaveConfigurationHandlers c) = []
         then c\<lparr>lc_triggerLinSlaveConfigurationHandlers := True, lc_receptionTimeLinSlaveConfiguration := lc_now c\<rparr>
         else lin_CallHandlers (LinSlaveConfigurationEvent (lc_now c)) c)"
  have fin: "same_core c c' \<Longrightarrow> same_core c (fin c') \<and> lc_linNodes (fin c') = lc_linNodes c'" for c'
    by (simp add: same_core_def lin_CallHandlers_def fin_def)
  have ids: "same_core c (UpdateLinIdsRespondedBySlaves rs ?c)" "lc_linNodes (UpdateLinIdsRespondedBySlaves rs ?c) = lc_linNodes ?c"
    using u UpdateLinIds_core[of ?c rs] by (auto simp: same_core_def)
  have "HandleResponsesUpdate sd rs c = fin (UpdateLinIdsRespondedBySlaves rs ?c) \<or> HandleResponsesUpdate sd rs c = fin ?c"
    unfolding HandleResponsesUpdate_def Let_def fin_def by (simp split: if_split)
  then show ?thesis using fin[of ?c] fin[OF ids(1)] u ids(2) by auto
qed

lemma recv_of_modify:
  assumes "nodes_ok nodes" "node_change sender f"
  shows "nodes_ok (modify_node sender f nodes)"
    "node_at addr (modify_node sender f nodes) = (if addr = sender then f (node_at addr nodes) else node_at addr nodes)"
    "ln_address ` set (modify_node sender f nodes) \<subseteq> insert sender (ln_address ` set nodes)"
  using lin_nodes.inv_modify[OF assms] lin_nodes.lookup_modify[OF assms, of addr] modify_node_addresses[OF assms] by auto

lemma lin_receive_recv:
  "lin_recv (to_endpointAddress sd) msg c (result_state (lin_receive sd msg c))"
proof (cases msg)
  case (M_Header m)
  then show ?thesis using trans_receive_header[of c sd m]
    by (auto simp: lin_receive_def result_state_def res_trans_def split: sum.splits intro!: recv_of_trans)
next
  case (M_Transmission m)
  then show ?thesis using trans_receive_transmission[of c sd m]
    by (auto simp: lin_receive_def result_state_def res_trans_def split: sum.splits intro!: recv_of_trans)
next
  case (M_Wakeup m)
  then show ?thesis by (simp add: lin_receive_def result_state_def recv_of_trans trans_receive_wakeup)
next
  case (M_FrameRequest m)
  then show ?thesis by (simp add: lin_receive_def result_state_def recv_of_trans)
next
  case (M_Status m)
  show ?thesis unfolding M_Status
    by (rule recv_update)
       (simp_all add: lin_receive_def result_state_def ReceiveMsg_LinControllerStatusUpdate_def same_core_def update_LinNode_def
          lin_good_def recv_of_modify node_effect_def)
next
  case (M_Responses m)
  show ?thesis
  proof (cases "same_service sd (lc_serviceDescriptor c)")
    case True
    then have "to_endpointAddress sd = this_address c" by (simp add: same_service_def this_address_def to_endpointAddress_def)
    then show ?thesis by (simp add: lin_recv_def)
  next
    case False
    show ?thesis unfolding M_Responses
      using False HandleResponsesUpdate_core[of c sd "lfu_frameResponses m"]
      by (intro recv_update)
         (simp_all add: lin_receive_def result_state_def ReceiveMsg_LinFrameResponseUpdate_def lin_good_def recv_of_modify node_effect_def)
  qed
next
  case (M_Config m)
  show ?thesis
  proof (cases "same_service sd (lc_serviceDescriptor c)")
    case True
    then have "to_endpointAddress sd = this_address c" by (simp add: same_service_def this_address_def to_endpointAddress_def)
    then show ?thesis by (simp add: lin_recv_def)
  next
    case False
    let ?a = "to_endpointAddress sd"
    let ?f = "\<lambda>node. node\<lparr>ln_controllerMode := lcc_controllerMode m, ln_controllerStatus := Status_Operational,
      ln_simulationMode := lcc_simulationMode m\<rparr>"
    let ?c = "update_LinNode ?a ?f c"
    let ?r = "result_state (lin_receive sd (M_Config m) c)"
    have r: "same_core c ?r" "lc_linNodes ?r = modify_node ?a (UpdateResponses (lcc_frameResponses m)) (modify_node ?a ?f (lc_linNodes c))"
      using False HandleResponsesUpdate_core[of ?c sd "lcc_frameResponses m"]
      by (simp_all add: lin_receive_def result_state_def ReceiveMsg_WireLinControllerConfig_def same_core_def)
         (simp_all add: update_LinNode_def)
    show ?thesis unfolding M_Config
    proof (rule recv_update[OF r(1)])
      assume "lin_good c"
      then have n: "nodes_ok (lc_linNodes c)" by (simp add: lin_good_def)
      note m1 = recv_of_modify[OF n, of ?a ?f, simplified]
      note m2 = recv_of_modify[OF m1(1), of ?a "UpdateResponses (lcc_frameResponses m)", simplified]
      show "nodes_ok (lc_linNodes ?r) \<and> (\<forall>addr. node_at addr (lc_linNodes ?r) =
          (if addr = ?a then node_effect (M_Config m) (node_at addr (lc_linNodes c)) else node_at addr (lc_linNodes c))) \<and>
          ln_address ` set (lc_linNodes ?r) \<subseteq> insert ?a (ln_address ` set (lc_linNodes c))"
      proof (intro conjI allI)
        show "ln_address ` set (lc_linNodes ?r) \<subseteq> insert ?a (ln_address ` set (lc_linNodes c))"
          unfolding r(2) using m2(3) m1(3) by blast
      qed (simp_all add: r(2) m2(1,2) m1(2) node_effect_def)
    qed
  qed
qed

section \<open>The network\<close>

datatype lin_action =
    A_Init u8 u32 "LinFrameResponse list"
  | A_InitDynamic u8 u32
  | A_SendFrame LinFrame u8
  | A_SendFrameHeader u8
  | A_SendDynamicResponse LinFrame
  | A_UpdateTxBuffer LinFrame
  | A_SetFrameResponse LinFrameResponse
  | A_GoToSleep
  | A_GoToSleepInternal
  | A_Wakeup
  | A_WakeupInternal
  | A_Replay u8 u64 LinFrame
  | A_Time u64
  | A_AddFrameStatusHandler nat
  | A_AddGoToSleepHandler nat
  | A_AddWakeupHandler nat
  | A_AddLinSlaveConfigurationHandler nat
  | A_RemoveFrameStatusHandler nat

fun lin_act :: "lin_action \<Rightarrow> LinController \<Rightarrow> lin_result" where
  "lin_act (A_Init m b rs) c = Init m b rs c"
| "lin_act (A_InitDynamic m b) c = InitDynamic m b c"
| "lin_act (A_SendFrame f t) c = SendFrame f t c"
| "lin_act (A_SendFrameHeader i) c = SendFrameHeader i c"
| "lin_act (A_SendDynamicResponse f) c = SendDynamicResponse f c"
| "lin_act (A_UpdateTxBuffer f) c = lin_UpdateTxBuffer f c"
| "lin_act (A_SetFrameResponse r) c = SetFrameResponse r c"
| "lin_act A_GoToSleep c = GoToSleep c"
| "lin_act A_GoToSleepInternal c = GoToSleepInternal c"
| "lin_act A_Wakeup c = Wakeup c"
| "lin_act A_WakeupInternal c = WakeupInternal c"
| "lin_act (A_Replay d t f) c = ReplayMessage d t f c"
| "lin_act (A_Time t) c = Inr (c\<lparr>lc_now := t\<rparr>)"
| "lin_act (A_AddFrameStatusHandler h) c = Inr (snd (AddFrameStatusHandler h c))"
| "lin_act (A_AddGoToSleepHandler h) c = Inr (snd (AddGoToSleepHandler h c))"
| "lin_act (A_AddWakeupHandler h) c = Inr (snd (AddWakeupHandler h c))"
| "lin_act (A_AddLinSlaveConfigurationHandler h) c = Inr (snd (AddLinSlaveConfigurationHandler h c))"
| "lin_act (A_RemoveFrameStatusHandler h) c = Inr (RemoveFrameStatusHandler h c)"

record lin_net =
  net_size :: nat
  net_ctrl :: "nat \<Rightarrow> LinController"
  net_chan :: "nat \<Rightarrow> nat \<Rightarrow> lin_message list"

datatype lin_step = Act nat lin_action | Deliver nat nat

text \<open>The messages a controller has sent are put on its channels to all others.\<close>

definition put_ctrl :: "nat \<Rightarrow> LinController \<Rightarrow> lin_net \<Rightarrow> lin_net" where
  "put_ctrl i c net = net\<lparr>net_ctrl := (net_ctrl net)(i := c\<lparr>lc_sent := []\<rparr>),
     net_chan := (\<lambda>j k. if j = i \<and> k \<noteq> i then net_chan net j k @ lc_sent c else net_chan net j k)\<rparr>"

fun lin_exec :: "lin_step \<Rightarrow> lin_net \<Rightarrow> lin_net" where
  "lin_exec (Act i a) net =
     (if i < net_size net then put_ctrl i (result_state (lin_act a (net_ctrl net i))) net else net)"
| "lin_exec (Deliver i j) net =
     (if i < net_size net \<and> j < net_size net \<and> i \<noteq> j
      then case net_chan net i j of
             [] \<Rightarrow> net
           | msg # msgs \<Rightarrow> put_ctrl j (result_state (lin_receive (lc_serviceDescriptor (net_ctrl net i)) msg (net_ctrl net j)))
               (net\<lparr>net_chan := (\<lambda>k l. if k = i \<and> l = j then msgs else net_chan net k l)\<rparr>)
      else net)"

text \<open>Applications use a controller for dynamic responses and replay only after it was initialised.\<close>

fun lin_polite :: "lin_step \<Rightarrow> lin_net \<Rightarrow> bool" where
  "lin_polite (Act i (A_SendDynamicResponse f)) net \<longleftrightarrow> lc_controllerStatus (net_ctrl net i) \<noteq> Status_Unknown"
| "lin_polite (Act i (A_Replay d t f)) net \<longleftrightarrow> lc_controllerStatus (net_ctrl net i) \<noteq> Status_Unknown"
| "lin_polite s net \<longleftrightarrow> True"

fun lin_run :: "lin_step list \<Rightarrow> lin_net \<Rightarrow> lin_net" where
  "lin_run [] net = net"
| "lin_run (s # ss) net = lin_run ss (lin_exec s net)"

fun polite_run :: "lin_step list \<Rightarrow> lin_net \<Rightarrow> bool" where
  "polite_run [] net \<longleftrightarrow> True"
| "polite_run (s # ss) net \<longleftrightarrow> lin_polite s net \<and> polite_run ss (lin_exec s net)"

definition lin_net_new :: "ServiceDescriptor list \<Rightarrow> lin_net" where
  "lin_net_new descriptors = \<lparr>net_size = length descriptors,
     net_ctrl = (\<lambda>i. LinController_new (descriptors ! i) False False), net_chan = (\<lambda>i j. [])\<rparr>"

lemma lin_act_trans:
  assumes "\<And>f. a = A_SendDynamicResponse f \<Longrightarrow> lc_controllerStatus c \<noteq> Status_Unknown"
    "\<And>d t f. a = A_Replay d t f \<Longrightarrow> lc_controllerStatus c \<noteq> Status_Unknown"
  shows "res_trans c (lin_act a c)"
  using assms
  by (cases a) (auto simp: trans_Init trans_InitDynamic trans_SendFrame trans_SendFrameHeader trans_SendDynamicResponse
      trans_UpdateTxBuffer trans_SetFrameResponse trans_GoToSleep trans_GoToSleepInternal trans_Wakeup trans_WakeupInternal
      trans_ReplayMessage AddFrameStatusHandler_def AddGoToSleepHandler_def AddWakeupHandler_def
      AddLinSlaveConfigurationHandler_def RemoveFrameStatusHandler_def split_beta Let_def
      intro!: lin_trans_trans[OF lin_trans_trans[OF trans_fields(6) trans_fields(8)] trans_CallHandlers])

section \<open>The tables agree with the controllers\<close>

definition net_inv :: "ServiceDescriptor list \<Rightarrow> lin_net \<Rightarrow> bool" where
  "net_inv D net \<longleftrightarrow> net_size net = length D \<and>
     (\<forall>i<length D. lc_serviceDescriptor (net_ctrl net i) = D ! i \<and> lin_good (net_ctrl net i) \<and> lc_sent (net_ctrl net i) = [] \<and>
        ln_address ` set (lc_linNodes (net_ctrl net i)) \<subseteq> to_endpointAddress ` set D) \<and>
     (\<forall>i<length D. \<forall>j<length D. i \<noteq> j \<longrightarrow>
        agrees (net_ctrl net i) (fold node_effect (net_chan net i j) (node_at (to_endpointAddress (D ! i)) (lc_linNodes (net_ctrl net j)))))"

lemma net_inv_new:
  assumes "distinct (map to_endpointAddress D)"
  shows "net_inv D (lin_net_new D)"
  by (simp add: net_inv_def lin_net_new_def LinController_new_def lin_good_def agrees_def nodes_ok_def own_node_def node_at_def
      default_LinNode_def response_modes_def default_LinFrameResponse_def ids_ok_def)

text \<open>A controller is replaced by one that has sent messages and changed entries of \<open>C\<close> in a way that keeps agreement.\<close>

lemma net_inv_put:
  assumes inv: "net_inv D net" and D: "distinct (map to_endpointAddress D)" and j: "j < length D"
    and c: "lin_good c" "lc_serviceDescriptor c = D ! j" "ln_address ` set (lc_linNodes c) \<subseteq> to_endpointAddress ` set D"
      "\<forall>node. node_ok node \<longrightarrow> agrees (net_ctrl net j) node \<longrightarrow> agrees c (fold node_effect (lc_sent c) node)"
    and net': "net_size net' = net_size net" "net_ctrl net' = net_ctrl net" "\<And>k. net_chan net' j k = net_chan net j k"
      "\<And>i k. k \<noteq> j \<Longrightarrow> net_chan net' i k = net_chan net i k"
    and sender: "\<And>i. i < length D \<Longrightarrow> i \<noteq> j \<Longrightarrow> fold node_effect (net_chan net' i j) (node_at (to_endpointAddress (D ! i)) (lc_linNodes c)) =
      fold node_effect (net_chan net i j) (node_at (to_endpointAddress (D ! i)) (lc_linNodes (net_ctrl net j)))"
  shows "net_inv D (put_ctrl j c net')"
  unfolding net_inv_def
proof (intro conjI allI impI)
  show "net_size (put_ctrl j c net') = length D" using inv net'(1) by (simp add: net_inv_def put_ctrl_def)
next
  fix i assume i: "i < length D"
  show "lc_serviceDescriptor (net_ctrl (put_ctrl j c net') i) = D ! i" "lin_good (net_ctrl (put_ctrl j c net') i)"
    "lc_sent (net_ctrl (put_ctrl j c net') i) = []"
    "ln_address ` set (lc_linNodes (net_ctrl (put_ctrl j c net') i)) \<subseteq> to_endpointAddress ` set D"
    using inv i c net'(2) by (auto simp: net_inv_def put_ctrl_def)
next
  fix i k assume ik: "i < length D" "k < length D" "i \<noteq> k"
  let ?a = "to_endpointAddress (D ! i)"
  have old: "agrees (net_ctrl net i) (fold node_effect (net_chan net i k) (node_at ?a (lc_linNodes (net_ctrl net k))))"
    using inv ik by (simp add: net_inv_def)
  have "nodes_ok (lc_linNodes (net_ctrl net k))" using inv ik(2) by (simp add: net_inv_def lin_good_def)
  then have ok: "node_ok (fold node_effect (net_chan net i k) (node_at ?a (lc_linNodes (net_ctrl net k))))"
    using node_at_ok by simp
  show "agrees (net_ctrl (put_ctrl j c net') i)
     (fold node_effect (net_chan (put_ctrl j c net') i k) (node_at ?a (lc_linNodes (net_ctrl (put_ctrl j c net') k))))"
  proof (cases "i = j")
    case True
    then show ?thesis using old ok c(4) ik net'(2,3) by (simp add: put_ctrl_def)
  next
    case False
    then show ?thesis using old ik net'(2,4) sender[of i] by (auto simp: put_ctrl_def)
  qed
qed

lemma address_inj:
  assumes "distinct (map to_endpointAddress D)" "i < length D" "j < length D" "i \<noteq> j"
  shows "to_endpointAddress (D ! i) \<noteq> to_endpointAddress (D ! j)"
  using assms nth_eq_iff_index_eq[OF assms(1), of i j] by simp

lemma net_inv_Act:
  assumes inv: "net_inv D net" and D: "distinct (map to_endpointAddress D)" and polite: "lin_polite (Act j a) net"
  shows "net_inv D (lin_exec (Act j a) net)"
proof (cases "j < net_size net")
  case True
  then have j: "j < length D" using inv by (simp add: net_inv_def)
  let ?c = "net_ctrl net j" and ?c' = "result_state (lin_act a (net_ctrl net j))"
  have old: "lin_good ?c" "lc_serviceDescriptor ?c = D ! j" "lc_sent ?c = []"
    "ln_address ` set (lc_linNodes ?c) \<subseteq> to_endpointAddress ` set D" using inv j by (simp_all add: net_inv_def)
  have addr: "this_address ?c = to_endpointAddress (D ! j)" by (simp add: this_address_def old(2))
  have "res_trans ?c (lin_act a ?c)" using polite by (intro lin_act_trans) auto
  then have "lin_trans ?c ?c'" by (auto simp: res_trans_def result_state_def split: sum.splits)
  then have t: "lin_good ?c'" "lc_serviceDescriptor ?c' = D ! j"
      "\<forall>addr. addr \<noteq> to_endpointAddress (D ! j) \<longrightarrow> node_at addr (lc_linNodes ?c') = node_at addr (lc_linNodes ?c)"
      "ln_address ` set (lc_linNodes ?c') \<subseteq> insert (to_endpointAddress (D ! j)) (ln_address ` set (lc_linNodes ?c))"
      "\<forall>node. node_ok node \<longrightarrow> agrees ?c node \<longrightarrow> agrees ?c' (fold node_effect (lc_sent ?c') node)"
    unfolding lin_trans_def addr using old by auto
  have "net_inv D (put_ctrl j ?c' net)"
  proof (rule net_inv_put[OF inv D j t(1,2) _ t(5)])
    show "ln_address ` set (lc_linNodes ?c') \<subseteq> to_endpointAddress ` set D" using t(4) old(4) j by force
    show "fold node_effect (net_chan net i j) (node_at (to_endpointAddress (D ! i)) (lc_linNodes ?c')) =
        fold node_effect (net_chan net i j) (node_at (to_endpointAddress (D ! i)) (lc_linNodes ?c))" if "i < length D" "i \<noteq> j" for i
      using t(3) address_inj[OF D that(1) j that(2)] by simp
  qed simp_all
  then show ?thesis using True by simp
qed (use inv in simp)

lemma net_inv_Deliver:
  assumes inv: "net_inv D net" and D: "distinct (map to_endpointAddress D)"
  shows "net_inv D (lin_exec (Deliver i j) net)"
proof (cases "i < net_size net \<and> j < net_size net \<and> i \<noteq> j \<and> net_chan net i j \<noteq> []")
  case True
  then obtain msg msgs where m: "net_chan net i j = msg # msgs" by (cases "net_chan net i j") auto
  have ij: "i < length D" "j < length D" "i \<noteq> j" using True inv by (simp_all add: net_inv_def)
  let ?c = "net_ctrl net j" and ?c' = "result_state (lin_receive (lc_serviceDescriptor (net_ctrl net i)) msg (net_ctrl net j))"
  let ?net = "net\<lparr>net_chan := (\<lambda>k l. if k = i \<and> l = j then msgs else net_chan net k l)\<rparr>"
  let ?a = "to_endpointAddress (D ! i)"
  have old: "lin_good ?c" "lc_serviceDescriptor ?c = D ! j" "lc_sent ?c = []"
    "ln_address ` set (lc_linNodes ?c) \<subseteq> to_endpointAddress ` set D" using inv ij by (simp_all add: net_inv_def)
  have addr: "this_address ?c = to_endpointAddress (D ! j)" "lc_serviceDescriptor (net_ctrl net i) = D ! i"
    using inv ij by (simp_all add: this_address_def net_inv_def)
  have ne: "?a \<noteq> to_endpointAddress (D ! j)" by (rule address_inj[OF D ij])
  have "lin_recv ?a msg ?c ?c'" using lin_receive_recv[of "D ! i" msg ?c] by (simp add: addr)
  then have t: "lin_good ?c'" "lc_serviceDescriptor ?c' = D ! j"
      "\<forall>addr. addr \<noteq> to_endpointAddress (D ! j) \<longrightarrow> node_at addr (lc_linNodes ?c') =
         (if addr = ?a then node_effect msg (node_at addr (lc_linNodes ?c)) else node_at addr (lc_linNodes ?c))"
      "ln_address ` set (lc_linNodes ?c') \<subseteq> insert ?a (insert (to_endpointAddress (D ! j)) (ln_address ` set (lc_linNodes ?c)))"
      "\<forall>node. node_ok node \<longrightarrow> agrees ?c node \<longrightarrow> agrees ?c' (fold node_effect (lc_sent ?c') node)"
    unfolding lin_recv_def addr(1) using old ne by auto
  have "net_inv D (put_ctrl j ?c' ?net)"
  proof (rule net_inv_put[OF inv D ij(2) t(1,2) _ t(5)])
    show "ln_address ` set (lc_linNodes ?c') \<subseteq> to_endpointAddress ` set D" using t(4) old(4) ij(1,2) by force
    show "fold node_effect (net_chan ?net k j) (node_at (to_endpointAddress (D ! k)) (lc_linNodes ?c')) =
        fold node_effect (net_chan net k j) (node_at (to_endpointAddress (D ! k)) (lc_linNodes ?c))" if k: "k < length D" "k \<noteq> j" for k
      using t(3) m address_inj[OF D k(1) ij(2) k(2)] address_inj[OF D k(1) ij(1)] by auto
  qed (use ij in auto)
  then show ?thesis using True m by simp
next
  case False
  then have "lin_exec (Deliver i j) net = net" by (cases "net_chan net i j") (simp_all, blast)
  then show ?thesis using inv by (simp only:)
qed

lemma net_inv_run:
  assumes "distinct (map to_endpointAddress D)" "net_inv D net" "polite_run ss net"
  shows "net_inv D (lin_run ss net)"
  using assms(2,3)
proof (induction ss arbitrary: net)
  case (Cons s ss)
  then have "net_inv D (lin_exec s net)" using net_inv_Act[OF _ assms(1)] net_inv_Deliver[OF _ assms(1)] by (cases s) auto
  then show ?case using Cons by simp
qed simp

section \<open>The master knows the answers\<close>

definition node_answers :: "u8 \<Rightarrow> LinNode \<Rightarrow> bool" where
  "node_answers linId node \<longleftrightarrow> ln_controllerMode node \<noteq> Mode_Inactive \<and> ln_controllerStatus node = Status_Operational \<and>
     response_modes node ! unat linId = Response_TxUnconditional"

text \<open>A slave answers while it is awake; a master answers what it has configured itself.\<close>

definition configured_tx :: "u8 \<Rightarrow> LinController \<Rightarrow> bool" where
  "configured_tx linId c \<longleftrightarrow> response_modes (own_node c) ! unat linId = Response_TxUnconditional"

definition lin_answers :: "nat \<Rightarrow> u8 \<Rightarrow> lin_net \<Rightarrow> nat \<Rightarrow> bool" where
  "lin_answers m linId net i \<longleftrightarrow> configured_tx linId (net_ctrl net i) \<and>
     (i = m \<or> lc_controllerMode (net_ctrl net i) = Mode_Slave \<and> lc_controllerStatus (net_ctrl net i) = Status_Operational)"

lemma count_responses_spec:
  assumes "list_all node_ok nodes" "unat linId < 64"
  shows "\<exists>f'. count_responses linId nodes c (k, f) = Inr (k + length (filter (node_answers linId) nodes), f')"
  using assms(1)
proof (induction nodes arbitrary: k f)
  case (Cons node nodes)
  have len: "length (ln_responses node) = 64" using Cons.prems by (simp add: node_ok_def)
  then have "response_modes node ! unat linId = lfr_responseMode (ln_responses node ! unat linId)"
    using assms(2) by (simp add: response_modes_def)
  then show ?case
    using Cons.IH[of "Suc k" "lfr_frame (ln_responses node ! unat linId)"] Cons.IH[of k f] Cons.prems len assms(2)
    by (auto simp: response_at_def node_answers_def)
qed simp

lemma default_answers_not [simp]: "\<not> node_answers linId (default_LinNode addr)"
  by (simp add: node_answers_def default_LinNode_def)

lemma node_at_member:
  assumes "nodes_ok nodes" "n \<in> set nodes"
  shows "node_at (ln_address n) nodes = n"
proof -
  have "distinct (map ln_address nodes)" using assms(1) by (simp add: nodes_ok_def strict_sorted_iff)
  then show ?thesis
    using assms(2) by (force simp: node_at_def find_Some_iff find_None_iff distinct_map inj_on_def in_set_conv_nth split: option.split)
qed

lemma answers_card:
  assumes "nodes_ok nodes" "ln_address ` set nodes \<subseteq> to_endpointAddress ` set D" "distinct (map to_endpointAddress D)"
  shows "length (filter (node_answers linId) nodes) = card {i. i < length D \<and> node_answers linId (node_at (to_endpointAddress (D ! i)) nodes)}"
proof -
  let ?F = "filter (node_answers linId) nodes"
  let ?I = "{i. i < length D \<and> node_answers linId (node_at (to_endpointAddress (D ! i)) nodes)}"
  have dn: "distinct (map ln_address nodes)" using assms(1) by (simp add: nodes_ok_def strict_sorted_iff)
  then have df: "distinct (map ln_address ?F)" by (rule distinct_map_filter)
  note at = node_at_member[OF assms(1)]
  have "bij_betw (\<lambda>i. to_endpointAddress (D ! i)) ?I (ln_address ` set ?F)"
    unfolding bij_betw_def
  proof
    show "inj_on (\<lambda>i. to_endpointAddress (D ! i)) ?I" using address_inj[OF assms(3)] by (auto simp: inj_on_def)
    show "(\<lambda>i. to_endpointAddress (D ! i)) ` ?I = ln_address ` set ?F"
    proof (intro equalityI subsetI)
      fix a assume "a \<in> (\<lambda>i. to_endpointAddress (D ! i)) ` ?I"
      then have a: "node_answers linId (node_at a nodes)" by auto
      have "node_at a nodes \<in> set nodes"
      proof (cases "find (\<lambda>n. ln_address n = a) nodes")
        case None
        then show ?thesis using a by (simp add: node_at_def)
      next
        case (Some n)
        then have "n \<in> set nodes" by (auto simp: find_Some_iff)
        then show ?thesis using Some by (simp add: node_at_def)
      qed
      then show "a \<in> ln_address ` set ?F" using a node_at_ok[OF assms(1), of a] by force
    next
      fix a assume "a \<in> ln_address ` set ?F"
      then obtain n where n: "n \<in> set nodes" "node_answers linId n" "a = ln_address n" by auto
      then obtain i where "i < length D" "a = to_endpointAddress (D ! i)" using assms(2) by (force simp: in_set_conv_nth)
      then show "a \<in> (\<lambda>i. to_endpointAddress (D ! i)) ` ?I" using n at[OF n(1)] by auto
    qed
  qed
  then have "card ?I = card (ln_address ` set ?F)" by (rule bij_betw_same_card)
  also have "\<dots> = length ?F" using df by (metis distinct_card length_map set_map)
  finally show ?thesis by simp
qed

lemma master_count:
  assumes inv: "net_inv D net" and D: "distinct (map to_endpointAddress D)" and m: "m < length D"
    and quiet: "\<forall>i<length D. i \<noteq> m \<longrightarrow> net_chan net i m = []" and linId: "linId < 64"
    and master: "lc_controllerMode (net_ctrl net m) = Mode_Master"
  shows "\<exists>frame. GetResponse linId (net_ctrl net m) = Inr (card {i. i < length D \<and> lin_answers m linId net i}, frame)"
proof -
  let ?c = "net_ctrl net m"
  have g: "lin_good ?c" "ln_address ` set (lc_linNodes ?c) \<subseteq> to_endpointAddress ` set D" "this_address ?c = to_endpointAddress (D ! m)"
    using inv m by (simp_all add: net_inv_def this_address_def)
  then have n: "nodes_ok (lc_linNodes ?c)" by (simp add: lin_good_def)
  have "node_answers linId (node_at (to_endpointAddress (D ! i)) (lc_linNodes ?c)) = lin_answers m linId net i" if i: "i < length D" for i
  proof (cases "i = m")
    case True
    then have "node_at (to_endpointAddress (D ! i)) (lc_linNodes ?c) = own_node ?c" by (simp add: own_node_def g(3))
    then show ?thesis using g(1) master True by (simp add: node_answers_def lin_answers_def configured_tx_def lin_good_def)
  next
    case False
    have gi: "lin_good (net_ctrl net i)" using inv i by (simp add: net_inv_def)
    have "agrees (net_ctrl net i) (fold node_effect (net_chan net i m) (node_at (to_endpointAddress (D ! i)) (lc_linNodes ?c)))"
      using inv i m False unfolding net_inv_def by blast
    then have ag: "agrees (net_ctrl net i) (node_at (to_endpointAddress (D ! i)) (lc_linNodes ?c))" using quiet i False by simp
    then show ?thesis using False by (auto simp: agrees_def node_answers_def lin_answers_def configured_tx_def split: if_splits)
  qed
  then have "{i. i < length D \<and> node_answers linId (node_at (to_endpointAddress (D ! i)) (lc_linNodes ?c))} =
      {i. i < length D \<and> lin_answers m linId net i}" by auto
  then have len: "length (filter (node_answers linId) (lc_linNodes ?c)) = card {i. i < length D \<and> lin_answers m linId net i}"
    using answers_card[OF n g(2) D] by simp
  have "list_all node_ok (lc_linNodes ?c)" using n by (simp add: nodes_ok_def)
  moreover have "unat linId < 64" using linId by (simp add: word_less_nat_alt)
  ultimately show ?thesis
    unfolding GetResponse_def using count_responses_spec[of "lc_linNodes ?c" linId ?c 0 "default_LinFrame\<lparr>lf_id := linId\<rparr>"] by (simp add: len)
qed

end
