(* ===== verification/Lin_Schedule.thy ===== *)
theory Lin_Schedule
  imports Lin_Network
begin

text \<open>
  One slot of a LIN schedule: the master sends a frame header while no message is on its way, and the messages that
  follow are delivered in any order. When exactly one node answers, it reports a transmission and every other node
  reports what its own configuration of the identifier makes of the frame. When no node or several nodes answer,
  the master reports the error.
\<close>

section \<open>What a controller reports\<close>

definition reports :: "LinController \<Rightarrow> u64 \<Rightarrow> LinFrame \<Rightarrow> u8 \<Rightarrow> (nat \<times> lin_event) list" where
  "reports c timestamp frame status =
     map (\<lambda>h. (h, LinFrameStatusEvent timestamp frame status)) (Handlers_InvokeAll (lc_frameStatusHandlers c))"

definition configured_response :: "u8 \<Rightarrow> LinController \<Rightarrow> LinFrameResponse" where
  "configured_response linId c = ln_responses (own_node c) ! unat linId"

text \<open>The calls of handlers when a transmission arrives, as the controller computes them.\<close>

definition lin_heard :: "LinController \<Rightarrow> LinTransmission \<Rightarrow> (nat \<times> lin_event) list" where
  "lin_heard c t =
     (if lc_controllerMode c = Mode_Inactive then []
      else let status = trivial_CalcFrameStatus t (own_node c) (configured_response (lf_id (lt_frame t)) c)
           in (if status = LIN_NOT_OK then [] else reports c (lt_timestamp t) (lt_frame t) status) @
              (if isGoToSleepFrame (lt_frame t) \<and> lc_controllerMode c = Mode_Slave
               then map (\<lambda>h. (h, LinGoToSleepEvent (lt_timestamp t))) (Handlers_InvokeAll (lc_goToSleepHandlers c)) else []))"

text \<open>The transmission of a node that answers.\<close>

definition answer :: "u8 \<Rightarrow> LinController \<Rightarrow> LinTransmission" where
  "answer linId c = \<lparr>lt_timestamp = lc_now c, lt_frame = lfr_frame (configured_response linId c), lt_status = LIN_RX_OK\<rparr>"

section \<open>What the messages of a slot do to one controller\<close>

definition same_view :: "LinController \<Rightarrow> LinController \<Rightarrow> bool" where
  "same_view c c' \<longleftrightarrow> lin_good c' \<and> lc_serviceDescriptor c' = lc_serviceDescriptor c \<and> lc_controllerMode c' = lc_controllerMode c \<and>
     lc_useDynamicResponse c' = lc_useDynamicResponse c \<and> own_node c' = own_node c \<and>
     lc_frameStatusHandlers c' = lc_frameStatusHandlers c \<and> lc_goToSleepHandlers c' = lc_goToSleepHandlers c \<and> lc_now c' = lc_now c"

lemma same_view_trans: "same_view c c' \<Longrightarrow> same_view c' c'' \<Longrightarrow> same_view c c''"
  by (simp add: same_view_def)

lemma same_view_refl [simp]: "same_view c c = lin_good c"
  by (simp add: same_view_def)

lemma same_view_reports: "same_view c c' \<Longrightarrow> reports c' = reports c"
  "same_view c c' \<Longrightarrow> configured_response i c' = configured_response i c" "same_view c c' \<Longrightarrow> configured_tx i c' = configured_tx i c"
  by (simp_all add: same_view_def reports_def configured_response_def configured_tx_def fun_eq_iff)

lemma same_view_heard: "same_view c c' \<Longrightarrow> lin_heard c' = lin_heard c" "same_view c c' \<Longrightarrow> answer i c' = answer i c"
proof -
  assume v: "same_view c c'"
  then have "lc_controllerMode c' = lc_controllerMode c" "own_node c' = own_node c" "lc_goToSleepHandlers c' = lc_goToSleepHandlers c"
    "lc_now c' = lc_now c" by (simp_all add: same_view_def)
  then show "lin_heard c' = lin_heard c" "answer i c' = answer i c"
    using same_view_reports[OF v] by (simp_all add: lin_heard_def answer_def fun_eq_iff Let_def)
qed

lemma read_good:
  assumes "lin_good c"
  obtains c' where "GetThisLinNode c = (own_node c, c')" "same_view c c'" "lc_calls c' = lc_calls c" "lc_sent c' = lc_sent c"
proof
  let ?c = "snd (GetThisLinNode c)"
  show "GetThisLinNode c = (own_node c, ?c)" using read_own[OF assms] by (metis prod.collapse)
  have n: "nodes_ok (lc_linNodes c)" using assms by (simp add: lin_good_def)
  have "lin_good ?c" using trans_read[of c] assms by (simp add: lin_trans_def)
  moreover have "own_node ?c = own_node c"
    using read_node_ok(2)[OF n, where addr = "this_address c" and addr' = "this_address c"]
    by (simp add: own_node_def GetThisLinNode_def split_beta this_address_def)
  ultimately show "same_view c ?c" by (simp add: same_view_def GetThisLinNode_def split_beta)
  show "lc_calls ?c = lc_calls c" "lc_sent ?c = lc_sent c" by (simp_all add: GetThisLinNode_def split_beta)
qed

lemma good_response: "lin_good c \<Longrightarrow> linId < 64 \<Longrightarrow> response_at (own_node c) linId c' = Inr (configured_response linId c)"
  using node_at_ok[of "lc_linNodes c" "this_address c"]
  by (simp add: response_at_def configured_response_def lin_good_def own_node_def node_ok_def word_less_nat_alt)

lemma configured_tx_iff:
  assumes "lin_good c" "linId < 64"
  shows "configured_tx linId c \<longleftrightarrow> lfr_responseMode (configured_response linId c) = Response_TxUnconditional"
  using assms node_at_ok[of "lc_linNodes c" "this_address c"]
  by (simp add: configured_tx_def configured_response_def response_modes_def lin_good_def own_node_def node_ok_def word_less_nat_alt)

lemma configured_id:
  assumes "lin_good c" "linId < 64" "configured_tx linId c"
  shows "lf_id (lfr_frame (configured_response linId c)) = linId"
proof -
  have l: "unat linId < length (ln_responses (own_node c))"
    using assms(1,2) node_at_ok[of "lc_linNodes c" "this_address c"] by (simp add: lin_good_def own_node_def node_ok_def word_less_nat_alt)
  have "unat (lf_id (lfr_frame (configured_response linId c))) = unat linId"
    using assms l configured_tx_iff[OF assms(1,2)] by (simp add: lin_good_def ids_ok_def configured_response_def own_node_def)
  then show ?thesis by (simp only: word_unat_eq_iff)
qed

lemma same_view_calls [simp]: "same_view c (c'\<lparr>lc_calls := x\<rparr>) = same_view c c'" "same_view c (c'\<lparr>lc_sent := y\<rparr>) = same_view c c'"
  "same_view c (c'\<lparr>lc_traced := z\<rparr>) = same_view c c'"
  by (simp_all add: same_view_def own_node_def this_address_def)

lemma header_ignored:
  assumes "lin_good c" "\<not> lc_useDynamicResponse c" "lsh_id h < 64" "\<not> configured_tx (lsh_id h) c"
  shows "\<exists>c'. ReceiveMsg_LinSendFrameHeaderRequest sd h c = Inr c' \<and> same_view c c' \<and> lc_calls c' = lc_calls c \<and> lc_sent c' = lc_sent c"
proof -
  obtain c' where r: "GetThisLinNode c = (own_node c, c')" "same_view c c'" "lc_calls c' = lc_calls c" "lc_sent c' = lc_sent c"
    by (rule read_good[OF assms(1)])
  have t: "lc_trivial c" using assms(1) by (simp add: lin_good_def)
  then show ?thesis using r assms configured_tx_iff[OF assms(1,3)] good_response[OF assms(1,3), of c']
    by (simp add: ReceiveMsg_LinSendFrameHeaderRequest_def lin_AllowReception_def ProcessFrameHeaderRequest_def
        trivial_ProcessFrameHeaderRequest_def)
qed

lemma header_answered:
  assumes "lin_good c" "\<not> lc_useDynamicResponse c" "lsh_id h < 64" "configured_tx (lsh_id h) c"
    "lf_dataLength (lfr_frame (configured_response (lsh_id h) c)) \<noteq> LinDataLengthUnknown"
  shows "\<exists>c'. ReceiveMsg_LinSendFrameHeaderRequest sd h c = Inr c' \<and> same_view c c' \<and>
    lc_calls c' = lc_calls c @ reports c (lc_now c) (lfr_frame (configured_response (lsh_id h) c)) LIN_TX_OK \<and>
    lc_sent c' = lc_sent c @ [M_Transmission (answer (lsh_id h) c)]"
proof -
  obtain c' where r: "GetThisLinNode c = (own_node c, c')" "same_view c c'" "lc_calls c' = lc_calls c" "lc_sent c' = lc_sent c"
    by (rule read_good[OF assms(1)])
  have t: "lc_trivial c" "lc_now c' = lc_now c" "lc_frameStatusHandlers c' = lc_frameStatusHandlers c"
    using assms(1) r(2) by (simp_all add: lin_good_def same_view_def)
  then show ?thesis using r assms configured_tx_iff[OF assms(1,3)] good_response[OF assms(1,3), of c']
    by (simp add: ReceiveMsg_LinSendFrameHeaderRequest_def lin_AllowReception_def ProcessFrameHeaderRequest_def
        trivial_ProcessFrameHeaderRequest_def Let_def lin_send_def lin_Trace_def lin_CallHandlers_def handlers_for_def reports_def answer_def)
qed

lemma transmission_heard:
  assumes "lin_good c" "lf_id (lt_frame t) < 64" "lf_dataLength (lt_frame t) \<le> 8"
  shows "\<exists>c'. ReceiveMsg_LinTransmission sd t c = Inr c' \<and> same_view c c' \<and> lc_calls c' = lc_calls c @ lin_heard c t \<and> lc_sent c' = lc_sent c"
proof (cases "lc_controllerMode c = Mode_Inactive")
  case True
  then show ?thesis using assms(1) by (auto simp: ReceiveMsg_LinTransmission_def lin_heard_def Let_def)
next
  case False
  let ?c = "lin_Trace Direction_RX (lt_timestamp t) (lt_frame t) c"
  have v: "same_view c ?c" "lc_calls ?c = lc_calls c" "lc_sent ?c = lc_sent c" "own_node ?c = own_node c" "lc_trivial c"
    using assms(1) by (simp_all add: lin_Trace_def own_node_def this_address_def lin_good_def)
  then have g: "lin_good ?c" by (simp add: same_view_def)
  obtain c' where r: "GetThisLinNode ?c = (own_node c, c')" "same_view ?c c'" "lc_calls c' = lc_calls c" "lc_sent c' = lc_sent c"
    using v by (auto intro: read_good[OF g])
  have v': "same_view c c'" by (rule same_view_trans[OF v(1) r(2)])
  then have t: "lc_trivial c'" "lc_frameStatusHandlers c' = lc_frameStatusHandlers c" "lc_goToSleepHandlers c' = lc_goToSleepHandlers c"
      "lc_controllerMode c' = lc_controllerMode c"
    using assms(1) by (simp_all add: lin_good_def same_view_def)
  have len: "\<not> (lf_dataLength (lt_frame t) \<noteq> LinDataLengthUnknown \<and> 8 < lf_dataLength (lt_frame t))" using assms(3) by auto
  have resp: "response_at (own_node c) (lf_id (lt_frame t)) c' = Inr (configured_response (lf_id (lt_frame t)) c)"
    by (rule good_response[OF assms(1,2)])
  let ?status = "trivial_CalcFrameStatus t (own_node c) (configured_response (lf_id (lt_frame t)) c)"
  let ?c1 = "if ?status \<noteq> LIN_NOT_OK then lin_CallHandlers (LinFrameStatusEvent (lt_timestamp t) (lt_frame t) ?status) c' else c'"
  have allow: "lin_AllowReception sd c" "\<not> 64 \<le> lf_id (lt_frame t)" using v(5) assms(2) by (simp_all add: lin_AllowReception_def)
  have "ReceiveMsg_LinTransmission sd t c = Inr (if isGoToSleepFrame (lt_frame t) \<and> lc_controllerMode ?c1 = Mode_Slave
      then lin_CallHandlers (LinGoToSleepEvent (lt_timestamp t)) ?c1 else ?c1)"
    unfolding ReceiveMsg_LinTransmission_def Let_def
    by (simp only: allow False len r(1) resp t(1) if_False if_True not_True_eq_False prod.case bindE_simps)
  moreover have "lc_controllerMode ?c1 = lc_controllerMode c" using t by (simp add: lin_CallHandlers_def)
  ultimately show ?thesis
    using False v' r(3,4) t
    by (auto simp: lin_heard_def Let_def lin_CallHandlers_def handlers_for_def reports_def)
qed

section \<open>A slot in which one node answers\<close>

definition quiet :: "lin_net \<Rightarrow> bool" where
  "quiet net \<longleftrightarrow> list_all (\<lambda>i. list_all (\<lambda>j. i \<noteq> j \<longrightarrow> net_chan net i j = []) [0..<net_size net]) [0..<net_size net]"

lemma quiet_iff: "quiet net \<longleftrightarrow> (\<forall>i<net_size net. \<forall>j<net_size net. i \<noteq> j \<longrightarrow> net_chan net i j = [])"
  by (auto simp: quiet_def list_all_iff)

text \<open>What stays the same for all controllers during the slot.\<close>

definition slot_base :: "lin_net \<Rightarrow> lin_net \<Rightarrow> bool" where
  "slot_base net net' \<longleftrightarrow> net_size net' = net_size net \<and>
     (\<forall>k<net_size net. same_view (net_ctrl net k) (net_ctrl net' k) \<and> lc_sent (net_ctrl net' k) = [])"

definition told_header :: "LinSendFrameHeaderRequest \<Rightarrow> lin_message list \<Rightarrow> bool" where
  "told_header h ms \<longleftrightarrow> ms = [] \<or> ms = [M_Header h]"

text \<open>Whether node \<open>k\<close> has heard the transmission \<open>t\<close>, of which \<open>ms\<close> is still on its way.\<close>

definition hears :: "lin_net \<Rightarrow> lin_net \<Rightarrow> LinTransmission \<Rightarrow> nat \<Rightarrow> bool \<Rightarrow> bool" where
  "hears net net' t k done \<longleftrightarrow>
     lc_calls (net_ctrl net' k) = lc_calls (net_ctrl net k) @ (if done then lin_heard (net_ctrl net k) t else [])"

definition slot_slave :: "lin_net \<Rightarrow> nat \<Rightarrow> nat \<Rightarrow> LinSendFrameHeaderRequest \<Rightarrow> LinTransmission \<Rightarrow> lin_net \<Rightarrow> bool" where
  "slot_slave net m r h t net' \<longleftrightarrow> slot_base net net' \<and>
     (\<forall>i<net_size net. \<forall>k<net_size net. i \<noteq> k \<longrightarrow> i \<noteq> m \<longrightarrow> i \<noteq> r \<longrightarrow> net_chan net' i k = []) \<and>
     (\<forall>k<net_size net. k \<noteq> m \<longrightarrow> told_header h (net_chan net' m k)) \<and>
     (let answered = (net_chan net' m r = [])
      in lc_calls (net_ctrl net' r) = lc_calls (net_ctrl net r) @
           (if answered then reports (net_ctrl net r) (lt_timestamp t) (lt_frame t) LIN_TX_OK else []) \<and>
         (\<forall>k<net_size net. k \<noteq> r \<longrightarrow>
            (if answered then net_chan net' r k = [M_Transmission t] \<and> hears net net' t k False \<or>
                              net_chan net' r k = [] \<and> hears net net' t k True
             else net_chan net' r k = [] \<and> hears net net' t k False)))"

definition slot_master :: "lin_net \<Rightarrow> nat \<Rightarrow> LinSendFrameHeaderRequest \<Rightarrow> LinTransmission \<Rightarrow> lin_net \<Rightarrow> bool" where
  "slot_master net m h t net' \<longleftrightarrow> slot_base net net' \<and>
     (\<forall>i<net_size net. \<forall>k<net_size net. i \<noteq> k \<longrightarrow> i \<noteq> m \<longrightarrow> net_chan net' i k = []) \<and>
     lc_calls (net_ctrl net' m) = lc_calls (net_ctrl net m) @ reports (net_ctrl net m) (lt_timestamp t) (lt_frame t) LIN_TX_OK \<and>
     (\<forall>k<net_size net. k \<noteq> m \<longrightarrow>
        (net_chan net' m k = [M_Header h, M_Transmission t] \<or> net_chan net' m k = [M_Transmission t]) \<and> hears net net' t k False \<or>
        net_chan net' m k = [] \<and> hears net net' t k True)"

text \<open>The conditions of a slot: node \<open>r\<close> alone is configured to answer, the frame is well formed, nobody responds dynamically.\<close>

definition slot_ok :: "lin_net \<Rightarrow> u8 \<Rightarrow> nat \<Rightarrow> bool" where
  "slot_ok net linId r \<longleftrightarrow> linId < 64 \<and> r < net_size net \<and> configured_tx linId (net_ctrl net r) \<and>
     (\<forall>k<net_size net. lin_good (net_ctrl net k) \<and> \<not> lc_useDynamicResponse (net_ctrl net k) \<and>
        (configured_tx linId (net_ctrl net k) \<longrightarrow> k = r)) \<and>
     lf_dataLength (lfr_frame (configured_response linId (net_ctrl net r))) \<le> 8"

lemma slot_header_ignored:
  assumes ok: "slot_ok net linId r" and v: "same_view (net_ctrl net k) c" and k: "k < net_size net" "k \<noteq> r" and h: "lsh_id h = linId"
  shows "same_view (net_ctrl net k) (result_state (lin_receive sd (M_Header h) c))"
    "lc_calls (result_state (lin_receive sd (M_Header h) c)) = lc_calls c" "lc_sent (result_state (lin_receive sd (M_Header h) c)) = lc_sent c"
proof -
  have g: "lin_good c" "\<not> lc_useDynamicResponse c" "lsh_id h < 64" "\<not> configured_tx (lsh_id h) c"
    using ok v k h same_view_reports(3)[OF v] by (auto simp: same_view_def slot_ok_def)
  from header_ignored[OF g, of sd] obtain c' where "ReceiveMsg_LinSendFrameHeaderRequest sd h c = Inr c'" "same_view c c'"
    "lc_calls c' = lc_calls c" "lc_sent c' = lc_sent c" by blast
  then show "same_view (net_ctrl net k) (result_state (lin_receive sd (M_Header h) c))"
    "lc_calls (result_state (lin_receive sd (M_Header h) c)) = lc_calls c" "lc_sent (result_state (lin_receive sd (M_Header h) c)) = lc_sent c"
    using same_view_trans[OF v] by (simp_all add: lin_receive_def result_state_def)
qed

lemma slot_frame_known:
  assumes "slot_ok net linId r"
  shows "lf_dataLength (lfr_frame (configured_response linId (net_ctrl net r))) \<noteq> LinDataLengthUnknown"
    "lf_id (lfr_frame (configured_response linId (net_ctrl net r))) = linId"
proof -
  have r: "lin_good (net_ctrl net r)" "linId < 64" "configured_tx linId (net_ctrl net r)"
      "lf_dataLength (lfr_frame (configured_response linId (net_ctrl net r))) \<le> 8"
    using assms unfolding slot_ok_def by blast+
  show "lf_id (lfr_frame (configured_response linId (net_ctrl net r))) = linId" by (rule configured_id[OF r(1-3)])
  show "lf_dataLength (lfr_frame (configured_response linId (net_ctrl net r))) \<noteq> LinDataLengthUnknown" using r(4) by auto
qed

lemma slot_header_answered:
  assumes ok: "slot_ok net linId r" and v: "same_view (net_ctrl net r) c" and h: "lsh_id h = linId" and t: "t = answer linId (net_ctrl net r)"
  shows "same_view (net_ctrl net r) (result_state (ReceiveMsg_LinSendFrameHeaderRequest sd h c))"
    "lc_calls (result_state (ReceiveMsg_LinSendFrameHeaderRequest sd h c)) =
       lc_calls c @ reports (net_ctrl net r) (lt_timestamp t) (lt_frame t) LIN_TX_OK"
    "lc_sent (result_state (ReceiveMsg_LinSendFrameHeaderRequest sd h c)) = lc_sent c @ [M_Transmission t]"
proof -
  note same = same_view_reports[OF v] same_view_heard[OF v]
  have g: "lin_good c" "\<not> lc_useDynamicResponse c" "lsh_id h < 64" "configured_tx (lsh_id h) c"
      "lf_dataLength (lfr_frame (configured_response (lsh_id h) c)) \<noteq> LinDataLengthUnknown"
    using ok v h same slot_frame_known[OF ok] by (auto simp: same_view_def slot_ok_def)
  have "lc_now c = lc_now (net_ctrl net r)" using v by (simp add: same_view_def)
  with header_answered[OF g, of sd] obtain c' where "ReceiveMsg_LinSendFrameHeaderRequest sd h c = Inr c'" "same_view c c'"
    "lc_calls c' = lc_calls c @ reports (net_ctrl net r) (lt_timestamp t) (lt_frame t) LIN_TX_OK"
    "lc_sent c' = lc_sent c @ [M_Transmission t]" by (auto simp: same h t answer_def)
  then show "same_view (net_ctrl net r) (result_state (ReceiveMsg_LinSendFrameHeaderRequest sd h c))"
    "lc_calls (result_state (ReceiveMsg_LinSendFrameHeaderRequest sd h c)) =
       lc_calls c @ reports (net_ctrl net r) (lt_timestamp t) (lt_frame t) LIN_TX_OK"
    "lc_sent (result_state (ReceiveMsg_LinSendFrameHeaderRequest sd h c)) = lc_sent c @ [M_Transmission t]"
    using same_view_trans[OF v] by (simp_all add: result_state_def)
qed

lemma slot_transmission:
  assumes ok: "slot_ok net linId r" and v: "same_view (net_ctrl net k) c" and t: "t = answer linId (net_ctrl net r)"
  shows "same_view (net_ctrl net k) (result_state (lin_receive sd (M_Transmission t) c))"
    "lc_calls (result_state (lin_receive sd (M_Transmission t) c)) = lc_calls c @ lin_heard (net_ctrl net k) t"
    "lc_sent (result_state (lin_receive sd (M_Transmission t) c)) = lc_sent c"
proof -
  have g: "lin_good c" "lf_id (lt_frame t) < 64" "lf_dataLength (lt_frame t) \<le> 8"
    using ok v slot_frame_known[OF ok] by (auto simp: same_view_def slot_ok_def t answer_def)
  from transmission_heard[OF g, of sd] obtain c' where "ReceiveMsg_LinTransmission sd t c = Inr c'" "same_view c c'"
    "lc_calls c' = lc_calls c @ lin_heard (net_ctrl net k) t" "lc_sent c' = lc_sent c" using same_view_heard[OF v] by auto
  then show "same_view (net_ctrl net k) (result_state (lin_receive sd (M_Transmission t) c))"
    "lc_calls (result_state (lin_receive sd (M_Transmission t) c)) = lc_calls c @ lin_heard (net_ctrl net k) t"
    "lc_sent (result_state (lin_receive sd (M_Transmission t) c)) = lc_sent c"
    using same_view_trans[OF v] by (simp_all add: lin_receive_def result_state_def)
qed

text \<open>A delivery replaces one controller; the other controllers and their channels stay as they are.\<close>

lemma deliver_cases:
  obtains "lin_exec (Deliver i j) net = net"
  | msg msgs c where "i < net_size net" "j < net_size net" "i \<noteq> j" "net_chan net i j = msg # msgs"
    "c = result_state (lin_receive (lc_serviceDescriptor (net_ctrl net i)) msg (net_ctrl net j))"
    "lin_exec (Deliver i j) net = put_ctrl j c (net\<lparr>net_chan := (\<lambda>k l. if k = i \<and> l = j then msgs else net_chan net k l)\<rparr>)"
  by (cases "i < net_size net \<and> j < net_size net \<and> i \<noteq> j"; cases "net_chan net i j") auto

lemma slot_base_put:
  assumes "slot_base net net'" "same_view (net_ctrl net j) c"
  shows "slot_base net (put_ctrl j c (net'\<lparr>net_chan := ch\<rparr>))"
  using assms by (auto simp: slot_base_def put_ctrl_def)

lemma slot_slave_step:
  assumes inv: "slot_slave net m r h t net'" and ok: "slot_ok net linId r" and rm: "r \<noteq> m" "m < net_size net"
    and h: "lsh_id h = linId" and t: "t = answer linId (net_ctrl net r)"
  shows "slot_slave net m r h t (lin_exec (Deliver i j) net')"
proof (cases rule: deliver_cases[of i j net'])
  case 1
  then show ?thesis using inv by simp
next
  case (2 msg msgs c)
  have base: "slot_base net net'" and size: "net_size net' = net_size net" using inv by (simp_all add: slot_slave_def slot_base_def)
  have v: "same_view (net_ctrl net j) (net_ctrl net' j)" "lc_sent (net_ctrl net' j) = []" using base 2(2) by (simp_all add: slot_base_def)
  have r: "r < net_size net" using ok by (simp add: slot_ok_def)
  consider (answer) "i = m" "j = r" "msg = M_Header h" "msgs = []" | (ignore) "i = m" "j \<noteq> r" "j \<noteq> m" "msg = M_Header h" "msgs = []"
    | (hear) "i = r" "j \<noteq> r" "msg = M_Transmission t" "msgs = []" "net_chan net' m r = []" "hears net net' t j False"
  proof -
    have ij: "i < net_size net" "j < net_size net" using 2(1,2) size by simp_all
    have "i = m \<or> i = r" using inv ij 2(3,4) unfolding slot_slave_def by force
    moreover have "told_header h (msg # msgs)" "j \<noteq> m" if "i = m" using inv ij 2(3,4) that unfolding slot_slave_def by force+
    moreover have "msg = M_Transmission t \<and> msgs = [] \<and> net_chan net' m r = [] \<and> hears net net' t j False \<and> j \<noteq> r" if "i = r"
    proof -
      have "if net_chan net' m r = [] then msg # msgs = [M_Transmission t] \<and> hears net net' t j False \<or> msg # msgs = [] \<and> hears net net' t j True
          else msg # msgs = [] \<and> hears net net' t j False"
        using inv ij 2(3,4) that unfolding slot_slave_def Let_def by (metis (no_types, lifting))
      then show ?thesis using 2(3) that by (auto split: if_splits)
    qed
    ultimately show ?thesis using answer ignore hear by (cases "j = r") (auto simp: told_header_def)
  qed
  then show ?thesis
  proof cases
    case answer
    note c = slot_header_answered[OF ok v(1)[unfolded answer(2)] h t, of "lc_serviceDescriptor (net_ctrl net' m)"]
    have c': "same_view (net_ctrl net r) c" "lc_calls c = lc_calls (net_ctrl net' r) @ reports (net_ctrl net r) (lt_timestamp t) (lt_frame t) LIN_TX_OK"
      "lc_sent c = [M_Transmission t]" using c 2(5) v(2) answer by (simp_all add: lin_receive_def)
    show ?thesis using inv c' slot_base_put[OF base c'(1)] answer rm 2(4) unfolding 2(6)
      by (auto simp: slot_slave_def put_ctrl_def told_header_def Let_def hears_def)
  next
    case ignore
    note c = slot_header_ignored[OF ok v(1) _ ignore(2) h, of "lc_serviceDescriptor (net_ctrl net' m)"]
    have c': "same_view (net_ctrl net j) c" "lc_calls c = lc_calls (net_ctrl net' j)" "lc_sent c = []"
      using c 2(2,5) v(2) ignore size by simp_all
    show ?thesis using inv c' slot_base_put[OF base c'(1)] ignore rm 2(4) unfolding 2(6)
      by (auto simp: slot_slave_def put_ctrl_def told_header_def Let_def hears_def split: if_splits)
  next
    case hear
    note c = slot_transmission[OF ok v(1) t, of "lc_serviceDescriptor (net_ctrl net' r)"]
    have c': "same_view (net_ctrl net j) c" "lc_calls c = lc_calls (net_ctrl net' j) @ lin_heard (net_ctrl net j) t" "lc_sent c = []"
      using c 2(5) v(2) hear by simp_all
    show ?thesis using inv c' slot_base_put[OF base c'(1)] hear rm 2(4) unfolding 2(6)
      by (auto simp: slot_slave_def put_ctrl_def told_header_def Let_def hears_def)
  qed
qed

lemma slot_master_step:
  assumes inv: "slot_master net m h t net'" and ok: "slot_ok net linId m"
    and h: "lsh_id h = linId" and t: "t = answer linId (net_ctrl net m)"
  shows "slot_master net m h t (lin_exec (Deliver i j) net')"
proof (cases rule: deliver_cases[of i j net'])
  case 1
  then show ?thesis using inv by simp
next
  case (2 msg msgs c)
  have base: "slot_base net net'" and size: "net_size net' = net_size net" using inv by (simp_all add: slot_master_def slot_base_def)
  have ij: "i < net_size net" "j < net_size net" using 2(1,2) size by simp_all
  have v: "same_view (net_ctrl net j) (net_ctrl net' j)" "lc_sent (net_ctrl net' j) = []" using base ij by (simp_all add: slot_base_def)
  have im: "i = m" using inv ij 2(3,4) unfolding slot_master_def by force
  then have jm: "j \<noteq> m" using 2(3) by simp
  then have "(net_chan net' m j = [M_Header h, M_Transmission t] \<or> net_chan net' m j = [M_Transmission t]) \<and> hears net net' t j False"
    using inv ij(2) 2(4) unfolding slot_master_def im by force
  then consider (ignore) "msg = M_Header h" "msgs = [M_Transmission t]" "hears net net' t j False"
    | (hear) "msg = M_Transmission t" "msgs = []" "hears net net' t j False" using 2(4) im by auto
  then show ?thesis
  proof cases
    case ignore
    note c = slot_header_ignored[OF ok v(1) ij(2) jm h, of "lc_serviceDescriptor (net_ctrl net' m)"]
    have c': "same_view (net_ctrl net j) c" "lc_calls c = lc_calls (net_ctrl net' j)" "lc_sent c = []"
      using c 2(5) v(2) ignore im by simp_all
    show ?thesis using inv c' slot_base_put[OF base c'(1)] ignore im jm 2(4) unfolding 2(6)
      by (auto simp: slot_master_def put_ctrl_def hears_def)
  next
    case hear
    note c = slot_transmission[OF ok v(1) t, of "lc_serviceDescriptor (net_ctrl net' m)"]
    have c': "same_view (net_ctrl net j) c" "lc_calls c = lc_calls (net_ctrl net' j) @ lin_heard (net_ctrl net j) t" "lc_sent c = []"
      using c 2(5) v(2) hear im by simp_all
    show ?thesis using inv c' slot_base_put[OF base c'(1)] hear im jm 2(4) unfolding 2(6)
      by (auto simp: slot_master_def put_ctrl_def hears_def)
  qed
qed

lemma run_invariant:
  assumes "P net" "\<And>net i j. P net \<Longrightarrow> P (lin_exec (Deliver i j) net)"
  shows "P (lin_run (map (\<lambda>(i, j). Deliver i j) ds) net)"
  using assms(1) by (induction ds arbitrary: net) (auto simp: assms(2) simp del: lin_exec.simps)

lemma send_header_result:
  "send_header h c = result_state (ReceiveMsg_LinSendFrameHeaderRequest (lc_serviceDescriptor c) h (lin_send (M_Header h) c))"
  by (simp add: send_header_def result_state_def)

lemma SendFrameHeader_single:
  assumes "lin_good c" "lc_controllerMode c = Mode_Master" "GetResponse linId c = Inr (1, frame)"
  shows "SendFrameHeader linId c = Inr (send_header \<lparr>lsh_timestamp = lc_now c, lsh_id = linId\<rparr> c)"
  using assms by (simp add: SendFrameHeader_def ThrowIfUninitialized_def ThrowIfNotMaster_def throw_if_def lin_good_def
      SendMsg_LinSendFrameHeaderRequest_def)

lemma slot_begins:
  assumes ok: "slot_ok net linId r" and m: "m < net_size net" "lc_controllerMode (net_ctrl net m) = Mode_Master"
    and quiet: "quiet net" and sent: "\<forall>k<net_size net. lc_sent (net_ctrl net k) = []"
    and resp: "GetResponse linId (net_ctrl net m) = Inr (1, frame)"
    and h: "h = \<lparr>lsh_timestamp = lc_now (net_ctrl net m), lsh_id = linId\<rparr>" and t: "t = answer linId (net_ctrl net r)"
  shows "if r = m then slot_master net m h t (lin_exec (Act m (A_SendFrameHeader linId)) net)
    else slot_slave net m r h t (lin_exec (Act m (A_SendFrameHeader linId)) net)"
proof -
  let ?c = "net_ctrl net m"
  let ?s = "lin_send (M_Header h) ?c"
  have good: "\<forall>k<net_size net. lin_good (net_ctrl net k)" and r: "r < net_size net" using ok by (simp_all add: slot_ok_def)
  define c where "c = result_state (ReceiveMsg_LinSendFrameHeaderRequest (lc_serviceDescriptor ?c) h ?s)"
  have exec: "lin_exec (Act m (A_SendFrameHeader linId)) net = put_ctrl m c (net\<lparr>net_chan := net_chan net\<rparr>)"
    using m SendFrameHeader_single[OF _ m(2) resp] good by (simp add: c_def send_header_result h result_state_def)
  have base: "slot_base net net" using good sent by (simp add: slot_base_def)
  have v: "same_view ?c ?s" "lsh_id h = linId" "lc_calls ?s = lc_calls ?c" "lc_sent ?s = [M_Header h]"
    using good m sent by (simp_all add: lin_send_def h)
  have q: "\<And>i j. i < net_size net \<Longrightarrow> j < net_size net \<Longrightarrow> i \<noteq> j \<Longrightarrow> net_chan net i j = []" using quiet by (simp add: quiet_iff)
  show ?thesis
  proof (cases "r = m")
    case True
    note a = slot_header_answered[OF ok v(1)[folded True] v(2) t, of "lc_serviceDescriptor ?c"]
    have c': "same_view ?c c" "lc_calls c = lc_calls ?c @ reports ?c (lt_timestamp t) (lt_frame t) LIN_TX_OK" "lc_sent c = [M_Header h, M_Transmission t]"
      using a v(3,4) True by (simp_all add: c_def)
    show ?thesis using True c' slot_base_put[OF base c'(1), of "net_chan net"] m(1) unfolding exec
      by (auto simp: slot_master_def put_ctrl_def hears_def q)
  next
    case False
    note a = slot_header_ignored[OF ok v(1) m(1) _ v(2), of "lc_serviceDescriptor ?c"]
    have c': "same_view ?c c" "lc_calls c = lc_calls ?c" "lc_sent c = [M_Header h]"
      using a v(3,4) False by (simp_all add: c_def lin_receive_def)
    show ?thesis using False c' slot_base_put[OF base c'(1), of "net_chan net"] m(1) r unfolding exec
      by (auto simp: slot_slave_def put_ctrl_def hears_def told_header_def Let_def q)
  qed
qed

lemma slot_ends:
  assumes ok: "slot_ok net linId r" and m: "m < net_size net" "lc_controllerMode (net_ctrl net m) = Mode_Master"
    and quiet: "quiet net" and sent: "\<forall>k<net_size net. lc_sent (net_ctrl net k) = []"
    and resp: "GetResponse linId (net_ctrl net m) = Inr (1, frame)"
    and run: "net' = lin_run (Act m (A_SendFrameHeader linId) # map (\<lambda>(i, j). Deliver i j) ds) net" "quiet net'"
    and t: "t = answer linId (net_ctrl net r)"
  shows "lc_calls (net_ctrl net' r) = lc_calls (net_ctrl net r) @ reports (net_ctrl net r) (lt_timestamp t) (lt_frame t) LIN_TX_OK"
    "\<forall>k<net_size net. k \<noteq> r \<longrightarrow> lc_calls (net_ctrl net' k) = lc_calls (net_ctrl net k) @ lin_heard (net_ctrl net k) t"
proof -
  define h where "h = \<lparr>lsh_timestamp = lc_now (net_ctrl net m), lsh_id = linId\<rparr>"
  have hid: "lsh_id h = linId" by (simp add: h_def)
  note begins = slot_begins[OF ok m quiet sent resp h_def t]
  have r: "r < net_size net" using ok by (simp add: slot_ok_def)
  have net': "net' = lin_run (map (\<lambda>(i, j). Deliver i j) ds) (lin_exec (Act m (A_SendFrameHeader linId)) net)" using run(1) by (simp only: lin_run.simps)
  have "lc_calls (net_ctrl net' r) = lc_calls (net_ctrl net r) @ reports (net_ctrl net r) (lt_timestamp t) (lt_frame t) LIN_TX_OK \<and>
    (\<forall>k<net_size net. k \<noteq> r \<longrightarrow> lc_calls (net_ctrl net' k) = lc_calls (net_ctrl net k) @ lin_heard (net_ctrl net k) t)"
  proof (cases "r = m")
    case True
    have "slot_master net m h t net'"
      unfolding net' by (rule run_invariant) (use begins True in \<open>simp del: lin_exec.simps\<close>, rule slot_master_step[OF _ ok[unfolded True] hid t[unfolded True]])
    then show ?thesis using run(2) True m(1) by (auto simp: slot_master_def slot_base_def quiet_iff hears_def)
  next
    case False
    have inv: "slot_slave net m r h t net'"
      unfolding net' by (rule run_invariant) (use begins False in \<open>simp del: lin_exec.simps\<close>, rule slot_slave_step[OF _ ok False m(1) hid t])
    then have "net_chan net' m r = []" using run(2) False m(1) r by (simp add: slot_slave_def slot_base_def quiet_iff)
    moreover have "net_chan net' r k = []" if "k < net_size net" "k \<noteq> r" for k
      using inv run(2) r that by (simp add: slot_slave_def slot_base_def quiet_iff)
    ultimately show ?thesis using inv by (simp add: slot_slave_def hears_def Let_def)
  qed
  then show "lc_calls (net_ctrl net' r) = lc_calls (net_ctrl net r) @ reports (net_ctrl net r) (lt_timestamp t) (lt_frame t) LIN_TX_OK"
    "\<forall>k<net_size net. k \<noteq> r \<longrightarrow> lc_calls (net_ctrl net' k) = lc_calls (net_ctrl net k) @ lin_heard (net_ctrl net k) t" by simp_all
qed

section \<open>Slots without an answer or with several\<close>

lemma count_responses_frame:
  assumes "list_all node_ok nodes" "list_all ids_ok nodes" "linId < 64" "lf_id f = linId" "count_responses linId nodes c (k, f) = Inr (k', f')"
  shows "lf_id f' = linId" "k' = k \<Longrightarrow> f' = f" "k \<le> k'"
proof -
  have "lf_id f' = linId \<and> (k' = k \<longrightarrow> f' = f) \<and> k \<le> k'"
    using assms(1,2,4,5)
  proof (induction nodes arbitrary: k f)
    case (Cons node nodes)
    have len: "unat linId < length (ln_responses node)" using Cons.prems(1) assms(3) by (simp add: node_ok_def word_less_nat_alt)
    let ?r = "ln_responses node ! unat linId"
    show ?case
    proof (cases "ln_controllerMode node = Mode_Inactive \<or> ln_controllerStatus node \<noteq> Status_Operational \<or>
        lfr_responseMode ?r \<noteq> Response_TxUnconditional")
      case True
      then have c: "count_responses linId nodes c (k, f) = Inr (k', f')" using Cons.prems(4) len by (auto simp: response_at_def split: if_splits)
      then show ?thesis using Cons.IH[OF _ _ Cons.prems(3) c] Cons.prems(1,2) by simp
    next
      case False
      then have c: "count_responses linId nodes c (Suc k, lfr_frame ?r) = Inr (k', f')" using Cons.prems(4) len by (simp add: response_at_def)
      have "unat (lf_id (lfr_frame ?r)) = unat linId" using False len Cons.prems(2) by (simp add: ids_ok_def)
      then have "lf_id (lfr_frame ?r) = linId" by (simp only: word_unat_eq_iff)
      then show ?thesis using Cons.IH[OF _ _ _ c] Cons.prems by simp
    qed
  qed simp
  then show "lf_id f' = linId" "k' = k \<Longrightarrow> f' = f" "k \<le> k'" by simp_all
qed

lemma GetResponse_frame:
  assumes "lin_good c" "linId < 64" "GetResponse linId c = Inr (k, frame)"
  shows "lf_id frame = linId" "k = 0 \<Longrightarrow> frame = default_LinFrame\<lparr>lf_id := linId\<rparr>"
proof -
  have n: "nodes_ok (lc_linNodes c)" "\<And>addr. ids_ok (node_at addr (lc_linNodes c))" using assms(1) by (simp_all add: lin_good_def)
  have "list_all node_ok (lc_linNodes c)" "list_all ids_ok (lc_linNodes c)"
    using n node_at_member[OF n(1)] by (simp add: nodes_ok_def, metis list.pred_set)
  note f = count_responses_frame[OF this assms(2) _ assms(3)[unfolded GetResponse_def]]
  show "lf_id frame = linId" "k = 0 \<Longrightarrow> frame = default_LinFrame\<lparr>lf_id := linId\<rparr>" using f by simp_all
qed

lemma no_dynamic_node:
  assumes inv: "net_inv D net" and m: "m < length D" and quiet: "\<forall>i<length D. i \<noteq> m \<longrightarrow> net_chan net i m = []"
    and static: "\<forall>i<length D. \<not> lc_useDynamicResponse (net_ctrl net i)"
  shows "\<not> HasDynamicNode (net_ctrl net m)"
proof -
  let ?c = "net_ctrl net m"
  have g: "lin_good ?c" "ln_address ` set (lc_linNodes ?c) \<subseteq> to_endpointAddress ` set D" "this_address ?c = to_endpointAddress (D ! m)"
    using inv m by (simp_all add: net_inv_def this_address_def)
  then have n: "nodes_ok (lc_linNodes ?c)" by (simp add: lin_good_def)
  have "ln_simulationMode node \<noteq> Simulation_Dynamic" if node: "node \<in> set (lc_linNodes ?c)" for node
  proof -
    obtain i where i: "i < length D" "ln_address node = to_endpointAddress (D ! i)" using g(2) node by (force simp: in_set_conv_nth)
    have at: "node_at (to_endpointAddress (D ! i)) (lc_linNodes ?c) = node" using node_at_member[OF n node] i(2) by simp
    show ?thesis
    proof (cases "i = m")
      case True
      then show ?thesis using at g(1,3) static m by (simp add: lin_good_def own_node_def)
    next
      case False
      have "agrees (net_ctrl net i) (fold node_effect (net_chan net i m) node)" using inv i(1) m False at unfolding net_inv_def by metis
      then have "agrees (net_ctrl net i) node" using quiet i(1) False by simp
      moreover have "lin_good (net_ctrl net i)" using inv i(1) by (simp add: net_inv_def)
      ultimately show ?thesis using static i(1) by (auto simp: agrees_def lin_good_def split: if_splits)
    qed
  qed
  then show ?thesis by (auto simp: HasDynamicNode_def list_ex_iff)
qed

lemma error_transmission:
  assumes "lin_good c" "lf_id frame < 64"
    and "status = (if n = 0 then LIN_RX_NO_RESPONSE else if n > 1 then LIN_RX_ERROR else LIN_NOT_OK)"
  shows "\<exists>c'. SendErrorTransmissionOnHeaderRequest n frame c = Inr c' \<and>
    lc_sent c' = lc_sent c @ [M_Transmission \<lparr>lt_timestamp = lc_now c, lt_frame = frame, lt_status = status\<rparr>] \<and>
    lc_calls c' = lc_calls c @ reports c (lc_now c) frame (if configured_tx (lf_id frame) c then LIN_TX_ERROR else status)"
proof -
  let ?s = "lin_send (M_Transmission \<lparr>lt_timestamp = lc_now c, lt_frame = frame, lt_status = status\<rparr>) c"
  have v: "same_view c ?s" "lc_calls ?s = lc_calls c" "own_node ?s = own_node c"
    using assms(1) by (simp_all add: lin_send_def own_node_def this_address_def)
  then have g: "lin_good ?s" by (simp add: same_view_def)
  obtain c' where r: "GetThisLinNode ?s = (own_node c, c')" "same_view ?s c'" "lc_calls c' = lc_calls c" "lc_sent c' = lc_sent ?s"
    using v by (auto intro: read_good[OF g])
  have v': "same_view c c'" by (rule same_view_trans[OF v(1) r(2)])
  then have t: "lc_now c' = lc_now c" "lc_frameStatusHandlers c' = lc_frameStatusHandlers c" by (simp_all add: same_view_def)
  have resp: "response_at (own_node c) (lf_id frame) c' = Inr (configured_response (lf_id frame) c)" by (rule good_response[OF assms(1,2)])
  show ?thesis
    using r t resp configured_tx_iff[OF assms(1,2)]
    by (simp add: SendErrorTransmissionOnHeaderRequest_def Let_def lin_Trace_def lin_CallHandlers_def handlers_for_def reports_def
        flip: assms(3)) (simp add: lin_send_def)
qed

section \<open>Properties\<close>

text \<open>
  C17. When no message is on its way to the master of a LIN network, the master counts for every identifier exactly the
  awake slaves that are configured to answer it, and itself when it is configured to answer (whether it is awake or not), whatever
  the applications did before and in whichever order the messages arrived.
\<close>

theorem master_knows_the_answers:
  assumes "distinct (map to_endpointAddress D)" "polite_run ss (lin_net_new D)" "net = lin_run ss (lin_net_new D)"
    "m < length D" "lc_controllerMode (net_ctrl net m) = Mode_Master" "linId < 64"
    "list_all (\<lambda>i. i \<noteq> m \<longrightarrow> net_chan net i m = []) [0..<length D]"
  shows "\<exists>frame. GetResponse linId (net_ctrl net m) = Inr (card {i. i < length D \<and> lin_answers m linId net i}, frame)"
  using master_count[OF net_inv_run[OF assms(1) net_inv_new[OF assms(1)] assms(2)] assms(1,4)] assms
  by (simp add: list_all_iff)

text \<open>One node is configured to answer, and it is the master or an awake slave.\<close>

definition single_answer :: "lin_net \<Rightarrow> nat \<Rightarrow> u8 \<Rightarrow> nat \<Rightarrow> bool" where
  "single_answer net m linId r \<longleftrightarrow> linId < 64 \<and> r < net_size net \<and> lin_answers m linId net r \<and>
     list_all (\<lambda>k. \<not> lc_useDynamicResponse (net_ctrl net k) \<and> (configured_tx linId (net_ctrl net k) \<longrightarrow> k = r)) [0..<net_size net] \<and>
     lf_dataLength (lfr_frame (configured_response linId (net_ctrl net r))) \<le> 8"

text \<open>
  What a node has to report of a frame that another node sends: nothing when it does not use the identifier; a successful reception
  when it is configured to receive it with this length and this checksum model; a reception error when it is configured to receive it
  with another one. A slave reports in addition a command to sleep (identifier 60, a zero byte and seven bytes 255).
\<close>

definition slot_status :: "LinFrame \<Rightarrow> LinFrameResponse \<Rightarrow> u8 option" where
  "slot_status frame response =
     (if lfr_responseMode response \<noteq> Response_Rx then None
      else if lf_dataLength (lfr_frame response) = lf_dataLength frame \<and> lf_checksumModel (lfr_frame response) = lf_checksumModel frame
      then Some LIN_RX_OK else Some LIN_RX_ERROR)"

definition slot_report :: "LinController \<Rightarrow> u64 \<Rightarrow> LinFrame \<Rightarrow> (nat \<times> lin_event) list" where
  "slot_report c now frame =
     (if lc_controllerMode c = Mode_Inactive then []
      else (case slot_status frame (configured_response (lf_id frame) c) of None \<Rightarrow> [] | Some status \<Rightarrow> reports c now frame status) @
        (if lc_controllerMode c = Mode_Slave \<and> lf_id frame = 60 \<and> lf_data frame = [0, 255, 255, 255, 255, 255, 255, 255]
         then map (\<lambda>h. (h, LinGoToSleepEvent now)) (Handlers_InvokeAll (lc_goToSleepHandlers c)) else []))"

text \<open>Every node that uses the identifier is configured with its checksum model and its length.\<close>

definition known_formats :: "lin_net \<Rightarrow> u8 \<Rightarrow> bool" where
  "known_formats net linId \<longleftrightarrow> list_all (\<lambda>k.
     let response = configured_response linId (net_ctrl net k)
     in lfr_responseMode response = Response_Unused \<or>
        lfr_responseMode response \<in> {Response_Rx, Response_TxUnconditional} \<and>
        lf_dataLength (lfr_frame response) \<noteq> LinDataLengthUnknown \<and> lf_checksumModel (lfr_frame response) \<noteq> Checksum_Unknown)
     [0..<net_size net]"

lemma sleep_command: "isGoToSleepFrame frame \<longleftrightarrow> lf_id frame = 60 \<and> lf_data frame = [0, 255, 255, 255, 255, 255, 255, 255]"
  by (simp add: isGoToSleepFrame_def GoToSleepFrame_def numeral_eq_Suc)

lemma heard_as_configured:
  assumes "lin_good c" "\<not> lc_useDynamicResponse c" "\<not> configured_tx (lf_id frame) c" "lf_id frame < 64"
    "lf_checksumModel frame \<noteq> Checksum_Unknown"
  defines "response \<equiv> configured_response (lf_id frame) c"
  assumes "lfr_responseMode response = Response_Unused \<or> lfr_responseMode response \<in> {Response_Rx, Response_TxUnconditional} \<and>
     lf_dataLength (lfr_frame response) \<noteq> LinDataLengthUnknown \<and> lf_checksumModel (lfr_frame response) \<noteq> Checksum_Unknown"
  shows "lin_heard c \<lparr>lt_timestamp = now, lt_frame = frame, lt_status = LIN_RX_OK\<rparr> = slot_report c now frame"
proof -
  have "ln_simulationMode (own_node c) \<noteq> Simulation_Dynamic" using assms(1,2) by (simp add: lin_good_def)
  moreover have "lfr_responseMode response \<noteq> Response_TxUnconditional"
    using assms(3) configured_tx_iff[OF assms(1,4)] by (simp add: response_def)
  ultimately have "trivial_CalcFrameStatus \<lparr>lt_timestamp = now, lt_frame = frame, lt_status = LIN_RX_OK\<rparr> (own_node c) response =
      (case slot_status frame response of None \<Rightarrow> LIN_NOT_OK | Some status \<Rightarrow> status)"
    using assms(5,7) by (auto simp: trivial_CalcFrameStatus_def slot_status_def Let_def)
  moreover have "slot_status frame response \<noteq> Some LIN_NOT_OK" by (simp add: slot_status_def)
  ultimately show ?thesis
    by (auto simp: lin_heard_def slot_report_def sleep_command response_def[symmetric] Let_def split: option.split)
qed

text \<open>
  C16. A slot of a LIN schedule in which every node that uses the identifier knows its checksum model and its length (a node that leaves
  them open is not covered): while no message is on its way, the master sends the header of an identifier that exactly one
  node answers. In whichever order the messages that follow are delivered, in the end the answering node has reported the
  transmission of its frame, every other node that receives the identifier has reported the frame as received when length and
  checksum model are those of its own configuration and a reception error otherwise, the nodes that do not use the identifier
  nothing; slaves report a command to sleep in addition.
\<close>

theorem frame_slot:
  assumes "distinct (map to_endpointAddress D)" "polite_run ss (lin_net_new D)" "net = lin_run ss (lin_net_new D)"
    "m < length D" "lc_controllerMode (net_ctrl net m) = Mode_Master" "quiet net" "single_answer net m linId r"
    "net' = lin_run (Act m (A_SendFrameHeader linId) # map (\<lambda>(i, j). Deliver i j) ds) net" "quiet net'" "known_formats net linId"
  defines "frame \<equiv> lfr_frame (configured_response linId (net_ctrl net r))" and "now \<equiv> lc_now (net_ctrl net r)"
  shows "lc_calls (net_ctrl net' r) = lc_calls (net_ctrl net r) @ reports (net_ctrl net r) now frame LIN_TX_OK \<and>
    (\<forall>k<length D. k \<noteq> r \<longrightarrow> lc_calls (net_ctrl net' k) = lc_calls (net_ctrl net k) @ slot_report (net_ctrl net k) now frame)"
proof -
  have inv: "net_inv D net" using net_inv_run[OF assms(1) net_inv_new[OF assms(1)] assms(2)] assms(3) by simp
  have size: "net_size net = length D" and sent: "\<forall>k<net_size net. lc_sent (net_ctrl net k) = []"
    and good: "\<forall>k<net_size net. lin_good (net_ctrl net k)" using inv by (simp_all add: net_inv_def)
  have ok: "slot_ok net linId r"
    using assms(7) good by (auto simp: single_answer_def slot_ok_def lin_answers_def list_all_iff)
  have linId: "linId < 64" "r < length D" using assms(7) size by (simp_all add: single_answer_def)
  have "{i. i < length D \<and> lin_answers m linId net i} = {r}"
    using assms(7) size by (auto simp: single_answer_def list_all_iff lin_answers_def)
  moreover have "\<forall>i<length D. i \<noteq> m \<longrightarrow> net_chan net i m = []" using assms(4,6) size by (simp add: quiet_iff)
  ultimately obtain f where "GetResponse linId (net_ctrl net m) = Inr (1, f)"
    using master_count[OF inv assms(1,4) _ linId(1) assms(5)] by auto
  note ends = slot_ends[OF ok _ assms(5,6) sent this assms(8,9) refl]
  have r: "lin_good (net_ctrl net r)" "configured_tx linId (net_ctrl net r)"
    using good linId(2) size assms(7) by (auto simp: single_answer_def lin_answers_def)
  have id: "lf_id frame = linId" unfolding frame_def by (rule configured_id[OF r(1) linId(1) r(2)])
  have formats: "let response = configured_response linId (net_ctrl net k)
      in lfr_responseMode response = Response_Unused \<or> lfr_responseMode response \<in> {Response_Rx, Response_TxUnconditional} \<and>
        lf_dataLength (lfr_frame response) \<noteq> LinDataLengthUnknown \<and> lf_checksumModel (lfr_frame response) \<noteq> Checksum_Unknown"
    if "k < length D" for k using assms(10) that size by (simp add: known_formats_def list_all_iff)
  have sum: "lf_checksumModel frame \<noteq> Checksum_Unknown"
    using formats[OF linId(2)] r configured_tx_iff[OF r(1) linId(1)] by (simp add: frame_def Let_def)
  have "lin_heard (net_ctrl net k) \<lparr>lt_timestamp = now, lt_frame = frame, lt_status = LIN_RX_OK\<rparr> = slot_report (net_ctrl net k) now frame"
    if "k < length D" "k \<noteq> r" for k
  proof (rule heard_as_configured)
    show "lin_good (net_ctrl net k)" using good that(1) size by simp
    show "\<not> lc_useDynamicResponse (net_ctrl net k)" "\<not> configured_tx (lf_id frame) (net_ctrl net k)"
      using assms(7) that size id by (auto simp: single_answer_def list_all_iff)
  qed (use formats[OF that(1)] id linId(1) sum in \<open>simp_all add: Let_def\<close>)
  then show ?thesis using ends assms(4) size by (simp add: answer_def frame_def now_def)
qed

text \<open>
  When no node or more than one node would answer an identifier, the master does not send the header: it reports
  that there was no response, or an error, which is an error of its own transmission if it is one of
  the answering nodes, and tells the others.
\<close>

theorem unanswered_slot:
  assumes "distinct (map to_endpointAddress D)" "polite_run ss (lin_net_new D)" "net = lin_run ss (lin_net_new D)"
    "m < length D" "lc_controllerMode (net_ctrl net m) = Mode_Master" "linId < 64"
    "list_all (\<lambda>i. \<not> lc_useDynamicResponse (net_ctrl net i) \<and> (i \<noteq> m \<longrightarrow> net_chan net i m = [])) [0..<length D]"
  defines "n \<equiv> card {i. i < length D \<and> lin_answers m linId net i}" and "c \<equiv> net_ctrl net m"
  defines "status \<equiv> (if n = 0 then LIN_RX_NO_RESPONSE else LIN_RX_ERROR)"
  assumes "n \<noteq> 1"
  shows "\<exists>c' frame. SendFrameHeader linId c = Inr c' \<and> lf_id frame = linId \<and>
    lc_calls c' = lc_calls c @ reports c (lc_now c) frame (if configured_tx linId c then LIN_TX_ERROR else status) \<and>
    lc_sent c' = [M_Transmission \<lparr>lt_timestamp = lc_now c, lt_frame = frame, lt_status = status\<rparr>]"
proof -
  have inv: "net_inv D net" using net_inv_run[OF assms(1) net_inv_new[OF assms(1)] assms(2)] assms(3) by simp
  have good: "lin_good c" "lc_sent c = []" using inv assms(4) by (simp_all add: net_inv_def c_def)
  have quiet: "\<forall>i<length D. i \<noteq> m \<longrightarrow> net_chan net i m = []" "\<forall>i<length D. \<not> lc_useDynamicResponse (net_ctrl net i)"
    using assms(7) by (auto simp: list_all_iff)
  obtain frame where f: "GetResponse linId c = Inr (n, frame)"
    using master_count[OF inv assms(1,4) quiet(1) assms(6,5)] by (auto simp: c_def n_def)
  have id: "lf_id frame = linId" by (rule GetResponse_frame(1)[OF good(1) assms(6) f])
  have dyn: "\<not> HasDynamicNode c" unfolding c_def by (rule no_dynamic_node[OF inv assms(4) quiet])
  have st: "status = (if n = 0 then LIN_RX_NO_RESPONSE else if n > 1 then LIN_RX_ERROR else LIN_NOT_OK)"
    using assms(11) by (auto simp: status_def)
  have "SendFrameHeader linId c = SendErrorTransmissionOnHeaderRequest n frame c"
    using good(1) assms(5,11) f dyn
    by (simp add: SendFrameHeader_def ThrowIfUninitialized_def ThrowIfNotMaster_def throw_if_def lin_good_def c_def[symmetric]
        SendMsg_LinSendFrameHeaderRequest_def)
  then show ?thesis using error_transmission[OF good(1) _ st, of frame] id assms(6) good(2) by auto
qed

section \<open>Samples\<close>

text \<open>A master and a slave that answers identifier 5.\<close>

definition sample_lin_descriptors :: "ServiceDescriptor list" where
  "sample_lin_descriptors = map (\<lambda>i. empty_ServiceDescriptor\<lparr>sd_participantId := i, sd_serviceType := 2, sd_serviceId := 7\<rparr>) [1, 2]"

definition sample_response :: "u8 \<Rightarrow> LinFrameResponse" where
  "sample_response mode = \<lparr>lfr_frame = default_LinFrame\<lparr>lf_id := 5, lf_checksumModel := 1, lf_dataLength := 4\<rparr>, lfr_responseMode = mode\<rparr>"

definition sample_lin_steps :: "lin_step list" where
  "sample_lin_steps = [Act 0 (A_AddFrameStatusHandler 3), Act 0 (A_Init Mode_Master 0 [sample_response Response_Rx]),
     Act 1 (A_Init Mode_Slave 0 [sample_response Response_TxUnconditional]), Deliver 1 0]"

definition sample_lin_net :: lin_net where
  "sample_lin_net = lin_run sample_lin_steps (lin_net_new sample_lin_descriptors)"

lemma sample_lin_ok:
  "distinct (map to_endpointAddress sample_lin_descriptors)" "length sample_lin_descriptors = 2"
  "polite_run sample_lin_steps (lin_net_new sample_lin_descriptors)" "quiet sample_lin_net"
  "lc_controllerMode (net_ctrl sample_lin_net 0) = Mode_Master" "single_answer sample_lin_net 0 5 1"
  "quiet (lin_run (Act 0 (A_SendFrameHeader 5) # map (\<lambda>(i, j). Deliver i j) [(0, 1), (1, 0)]) sample_lin_net)"
  "list_all (\<lambda>i. \<not> lc_useDynamicResponse (net_ctrl sample_lin_net i) \<and> (i \<noteq> 0 \<longrightarrow> net_chan sample_lin_net i 0 = [])) [0..<2]"
  "list_all (\<lambda>i. \<not> lin_answers 0 6 sample_lin_net i) [0..<2]" "known_formats sample_lin_net 5"
  by code_simp+

theorem master_knows_the_answers_witness:
  "\<exists>frame. GetResponse 5 (net_ctrl sample_lin_net 0) = Inr (card {i. i < 2 \<and> lin_answers 0 5 sample_lin_net i}, frame)"
  using master_knows_the_answers[OF sample_lin_ok(1,3) sample_lin_net_def, of 0 5] sample_lin_ok by (simp add: list_all_iff)

theorem frame_slot_witness:
  "lc_calls (net_ctrl (lin_run (Act 0 (A_SendFrameHeader 5) # map (\<lambda>(i, j). Deliver i j) [(0, 1), (1, 0)]) sample_lin_net) 0) =
     lc_calls (net_ctrl sample_lin_net 0) @ slot_report (net_ctrl sample_lin_net 0) (lc_now (net_ctrl sample_lin_net 1))
       (lfr_frame (configured_response 5 (net_ctrl sample_lin_net 1)))"
proof -
  have "0 < length sample_lin_descriptors" by (simp add: sample_lin_ok(2))
  from frame_slot[OF sample_lin_ok(1,3) sample_lin_net_def this sample_lin_ok(5,4,6) refl sample_lin_ok(7,10)] this
  show ?thesis by (metis zero_neq_one)
qed

theorem unanswered_slot_witness:
  "\<exists>c' frame. SendFrameHeader 6 (net_ctrl sample_lin_net 0) = Inr c' \<and> lf_id frame = 6 \<and>
    lc_calls c' = lc_calls (net_ctrl sample_lin_net 0) @ reports (net_ctrl sample_lin_net 0) (lc_now (net_ctrl sample_lin_net 0)) frame
      (if configured_tx 6 (net_ctrl sample_lin_net 0) then LIN_TX_ERROR else LIN_RX_NO_RESPONSE) \<and>
    lc_sent c' = [M_Transmission \<lparr>lt_timestamp = lc_now (net_ctrl sample_lin_net 0), lt_frame = frame, lt_status = LIN_RX_NO_RESPONSE\<rparr>]"
proof -
  have none: "{i. i < length sample_lin_descriptors \<and> lin_answers 0 6 sample_lin_net i} = {}"
    using sample_lin_ok(9) by (auto simp: sample_lin_ok(2) list_all_iff)
  show ?thesis
    using unanswered_slot[OF sample_lin_ok(1,3) sample_lin_net_def, of 0 6] sample_lin_ok(5,8) unfolding none card.empty
    by (simp add: sample_lin_ok(2) cong: if_cong split del: if_split)
qed

section \<open>Checks that are missing\<close>

lemma count_responses_beyond:
  assumes "list_all node_ok nodes" "64 \<le> linId" "list_ex (\<lambda>n. ln_controllerMode n \<noteq> Mode_Inactive \<and> ln_controllerStatus n = Status_Operational) nodes"
  shows "count_responses linId nodes c p = Inl (ResponsesOutOfBounds linId, c)"
  using assms(1,3)
proof (induction nodes arbitrary: p)
  case (Cons n nodes)
  have "length (ln_responses n) = 64" using Cons.prems by (simp add: node_ok_def)
  then have "response_at n linId c = Inl (ResponsesOutOfBounds linId, c)" using assms(2) by (simp add: response_at_def word_le_nat_alt)
  then show ?case using Cons by (cases p) auto
qed simp

text \<open>
  In every reachable state of a LIN network an initialised master that is asked to send the header of an identifier beyond 63
  reads past the end of its table of responses, because only \<^verbatim>\<open>SetFrameResponse\<close> checks identifiers.
\<close>

theorem invalid_identifier_reads_out_of_bounds:
  assumes "distinct (map to_endpointAddress D)" "polite_run ss (lin_net_new D)" "net = lin_run ss (lin_net_new D)"
    "m < length D" "lc_controllerMode (net_ctrl net m) = Mode_Master" "64 \<le> linId"
  shows "SendFrameHeader linId (net_ctrl net m) = Inl (ResponsesOutOfBounds linId, net_ctrl net m)"
proof -
  let ?c = "net_ctrl net m"
  have "net_inv D net" using net_inv_run[OF assms(1) net_inv_new[OF assms(1)] assms(2)] assms(3) by simp
  then have good: "lin_good ?c" using assms(4) by (simp add: net_inv_def)
  then have own: "ln_controllerMode (own_node ?c) = Mode_Master" "ln_controllerStatus (own_node ?c) = Status_Operational"
    using assms(5) by (simp_all add: lin_good_def)
  have "own_node ?c \<in> set (lc_linNodes ?c)"
  proof (cases "find (\<lambda>n. ln_address n = this_address ?c) (lc_linNodes ?c)")
    case None
    then show ?thesis using own by (simp add: own_node_def node_at_def default_LinNode_def)
  next
    case (Some n)
    then have "n \<in> set (lc_linNodes ?c)" by (auto simp: find_Some_iff)
    then show ?thesis using Some by (simp add: own_node_def node_at_def)
  qed
  then have "list_ex (\<lambda>n. ln_controllerMode n \<noteq> Mode_Inactive \<and> ln_controllerStatus n = Status_Operational) (lc_linNodes ?c)"
    using own by (auto simp: list_ex_iff intro!: bexI[of _ "own_node ?c"])
  moreover have "list_all node_ok (lc_linNodes ?c)" using good by (simp add: lin_good_def nodes_ok_def)
  ultimately have "GetResponse linId ?c = Inl (ResponsesOutOfBounds linId, ?c)"
    unfolding GetResponse_def by (intro count_responses_beyond assms(6))
  then show ?thesis using good assms(5)
    by (simp add: SendFrameHeader_def ThrowIfUninitialized_def ThrowIfNotMaster_def throw_if_def lin_good_def SendMsg_LinSendFrameHeaderRequest_def)
qed

theorem invalid_identifier_reads_out_of_bounds_witness:
  "SendFrameHeader 64 (net_ctrl sample_lin_net 0) = Inl (ResponsesOutOfBounds 64, net_ctrl sample_lin_net 0)"
  using invalid_identifier_reads_out_of_bounds[OF sample_lin_ok(1,3) sample_lin_net_def, of 0 64] sample_lin_ok by simp

text \<open>The check of \<^verbatim>\<open>SendDynamicResponse\<close> never fires: where it is made its condition is known to be false.\<close>

lemma dynamic_check_never_fires: "SendDynamicResponse frame c \<noteq> Inl (NotDynamic m, c')"
proof -
  have p: "trivial_ProcessFrameHeaderRequest h c \<noteq> Inl (NotDynamic m, c')" for h c
    by (auto simp: trivial_ProcessFrameHeaderRequest_def Let_def response_at_def split: prod.split if_splits)
  show ?thesis by (simp add: SendDynamicResponse_def ThrowIfNotDynamic_def throw_if_def ProcessFrameHeaderRequest_def p)
qed

end
