(* ===== verification/Rpc_Services.thy ===== *)
theory Rpc_Services
  imports Service_Discovery Service_Messages
begin

text \<open>
  Remote procedure calls (services/rpc): a client sends a call to all servers that match its specification and
  reports every answer to its handler, a server keeps an internal server for every client it has discovered. The
  application's handlers are numbers and their calls are recorded; sent messages are recorded as well. Dereferencing
  the end of a map, undefined behaviour in the code, is an error here, and so is the call of an empty function.
\<close>

section \<open>Data\<close>

record RpcSpec =
  rs_functionName :: string
  rs_mediaType :: string
  rs_labels :: "MatchingLabel list"

datatype RpcCallStatus = RpcSuccess | ServerNotReachable | UndefinedError | InternalServerError | RpcTimeout

abbreviation Response_Success :: u32 where "Response_Success \<equiv> 0"
abbreviation Response_InternalError :: u32 where "Response_InternalError \<equiv> 1"

datatype rpc_error = EndDereferenced Uuid | BadFunctionCall | InvalidCallHandle | MultipleClients

record RpcCallResultEvent =
  re_timestamp :: u64
  re_userContext :: nat
  re_callStatus :: RpcCallStatus
  re_resultData :: bytes

definition ToRpcCallStatus :: "u32 \<Rightarrow> RpcCallStatus" where
  "ToRpcCallStatus status =
     (if status = Response_Success then RpcSuccess
      else if status = Response_InternalError then InternalServerError else UndefinedError)"

section \<open>Client\<close>

record RpcCallInfo =
  ci_remainingReturnCount :: int
  ci_userContext :: nat

record TimeoutEntry =
  te_timeLeft :: int
  te_callUuid :: Uuid

record RpcClient =
  cl_dataSpec :: RpcSpec
  cl_clientUUID :: string
  cl_handler :: "nat option"
  cl_numCounterparts :: u32
  cl_activeCalls :: "Uuid \<rightharpoonup> RpcCallInfo"
  cl_timeoutEntries :: "TimeoutEntry list"
  cl_isTimeoutHandlerSet :: bool
  cl_now :: u64
  cl_calls :: "(nat \<times> RpcCallResultEvent) list"
  cl_sent :: "FunctionCall list"

type_synonym rpc_client_result = "(rpc_error \<times> RpcClient) + RpcClient"

definition RpcClient_new :: "RpcSpec \<Rightarrow> string \<Rightarrow> nat option \<Rightarrow> RpcClient" where
  "RpcClient_new dataSpec clientUUID handler =
     \<lparr>cl_dataSpec = dataSpec, cl_clientUUID = clientUUID, cl_handler = handler, cl_numCounterparts = 0,
      cl_activeCalls = Map.empty, cl_timeoutEntries = [], cl_isTimeoutHandlerSet = False, cl_now = 0,
      cl_calls = [], cl_sent = []\<rparr>"

text \<open>What the participant announces for a client; \<open>Serialize\<close> is the textual form of labels.\<close>

definition rpc_client_data :: "(MatchingLabel list \<Rightarrow> string) \<Rightarrow> RpcSpec \<Rightarrow> string \<Rightarrow> (string \<times> string) list" where
  "rpc_client_data Serialize dataSpec network =
     [(''Rpc::client::UUID'', network), (''Rpc::client::functionName'', rs_functionName dataSpec),
      (''Rpc::client::labels'', Serialize (rs_labels dataSpec)), (''Rpc::client::mediaType'', rs_mediaType dataSpec),
      (''controller.type'', ''RpcClient'')]"

text \<open>The handler registered by \<^verbatim>\<open>RpcClient::RegisterServiceDiscovery\<close>.\<close>

definition client_matchHandler :: "event_type \<Rightarrow> ServiceDescriptor \<Rightarrow> RpcClient \<Rightarrow> discovery_error + RpcClient" where
  "client_matchHandler discoveryType sd c =
     bindE (getVal sd ''Rpc::serverinternal::clientUUID'') (\<lambda>clientUUID. Inr
       (if clientUUID = cl_clientUUID c
        then (case discoveryType of
                ServiceCreated \<Rightarrow> c\<lparr>cl_numCounterparts := cl_numCounterparts c + 1\<rparr>
              | ServiceRemoved \<Rightarrow> c\<lparr>cl_numCounterparts := cl_numCounterparts c - 1\<rparr>)
        else c))"

definition report :: "RpcCallResultEvent \<Rightarrow> RpcClient \<Rightarrow> RpcClient" where
  "report event c = (case cl_handler c of None \<Rightarrow> c | Some h \<Rightarrow> c\<lparr>cl_calls := cl_calls c @ [(h, event)]\<rparr>)"

text \<open>\<^verbatim>\<open>TriggerCall\<close>; the random identifier is an argument, a timeout an option.\<close>

definition TriggerCall :: "Uuid \<Rightarrow> bytes \<Rightarrow> int option \<Rightarrow> nat \<Rightarrow> RpcClient \<Rightarrow> RpcClient" where
  "TriggerCall callUuid data timeout userContext c =
     (if cl_numCounterparts c = 0
      then report \<lparr>re_timestamp = cl_now c, re_userContext = userContext, re_callStatus = ServerNotReachable,
                   re_resultData = []\<rparr> c
      else let info = \<lparr>ci_remainingReturnCount = sint (cl_numCounterparts c), ci_userContext = userContext\<rparr>;
               c = c\<lparr>cl_activeCalls := (if callUuid \<in> dom (cl_activeCalls c) then cl_activeCalls c
                                      else (cl_activeCalls c)(callUuid \<mapsto> info))\<rparr>;
               c = (case timeout of
                      None \<Rightarrow> c
                    | Some t \<Rightarrow> c\<lparr>cl_timeoutEntries := cl_timeoutEntries c @ [\<lparr>te_timeLeft = t, te_callUuid = callUuid\<rparr>],
                                  cl_isTimeoutHandlerSet := True\<rparr>)
           in c\<lparr>cl_sent := cl_sent c @ [\<lparr>fc_timestamp = cl_now c, fc_callUuid = callUuid, fc_data = data\<rparr>]\<rparr>)"

definition rpc_Call :: "Uuid \<Rightarrow> bytes \<Rightarrow> nat \<Rightarrow> RpcClient \<Rightarrow> RpcClient" where
  "rpc_Call callUuid data userContext = TriggerCall callUuid data None userContext"

definition CallWithTimeout :: "Uuid \<Rightarrow> bytes \<Rightarrow> int \<Rightarrow> nat \<Rightarrow> RpcClient \<Rightarrow> RpcClient" where
  "CallWithTimeout callUuid data timeout userContext = TriggerCall callUuid data (Some timeout) userContext"

text \<open>The second loop of \<^verbatim>\<open>TimeHandler\<close>: the user context is read before the result of \<^verbatim>\<open>find\<close> is checked.\<close>

fun expire_calls :: "u64 \<Rightarrow> TimeoutEntry list \<Rightarrow> RpcClient \<Rightarrow> rpc_client_result" where
  "expire_calls now [] c = Inr c"
| "expire_calls now (entry # entries) c =
     (case cl_activeCalls c (te_callUuid entry) of
        None \<Rightarrow> Inl (EndDereferenced (te_callUuid entry), c)
      | Some info \<Rightarrow>
          let c = c\<lparr>cl_activeCalls := (cl_activeCalls c)(te_callUuid entry := None)\<rparr>
          in if cl_handler c = None then Inl (BadFunctionCall, c)
             else expire_calls now entries
                    (report \<lparr>re_timestamp = now, re_userContext = ci_userContext info, re_callStatus = RpcTimeout,
                             re_resultData = []\<rparr> c))"

definition TimeHandler :: "u64 \<Rightarrow> int \<Rightarrow> RpcClient \<Rightarrow> rpc_client_result" where
  "TimeHandler now duration c =
     (let entries = map (\<lambda>e. e\<lparr>te_timeLeft := te_timeLeft e - duration\<rparr>) (cl_timeoutEntries c)
      in expire_calls now (filter (\<lambda>e. te_timeLeft e \<le> 0) entries)
           (c\<lparr>cl_timeoutEntries := filter (\<lambda>e. \<not> te_timeLeft e \<le> 0) entries\<rparr>))"

definition SetCallResultHandler :: "nat option \<Rightarrow> RpcClient \<Rightarrow> RpcClient" where
  "SetCallResultHandler handler c = c\<lparr>cl_handler := handler\<rparr>"

definition client_ReceiveMessage :: "FunctionCallResponse \<Rightarrow> RpcClient \<Rightarrow> RpcClient" where
  "client_ReceiveMessage msg c =
     (case cl_activeCalls c (fr_callUuid msg) of
        None \<Rightarrow> c
      | Some info \<Rightarrow>
          let c = report \<lparr>re_timestamp = fr_timestamp msg, re_userContext = ci_userContext info,
                          re_callStatus = ToRpcCallStatus (fr_status msg), re_resultData = fr_data msg\<rparr> c;
              remaining = ci_remainingReturnCount info - 1
          in c\<lparr>cl_activeCalls := (cl_activeCalls c)(fr_callUuid msg :=
                 (if remaining \<le> 0 then None else Some (info\<lparr>ci_remainingReturnCount := remaining\<rparr>)))\<rparr>)"

section \<open>Server\<close>

text \<open>The internal server of one client; a call handle is the identifier of its call.\<close>

record RpcServerInternal =
  si_functionName :: string
  si_mediaType :: string
  si_labels :: "MatchingLabel list"
  si_clientUUID :: string
  si_handler :: "nat option"
  si_activeCalls :: "Uuid list"
  si_now :: u64
  si_calls :: "(nat \<times> u64 \<times> Uuid \<times> bytes) list"
  si_sent :: "FunctionCallResponse list"

definition RpcServerInternal_new ::
    "string \<Rightarrow> string \<Rightarrow> MatchingLabel list \<Rightarrow> string \<Rightarrow> nat option \<Rightarrow> u64 \<Rightarrow> RpcServerInternal" where
  "RpcServerInternal_new functionName mediaType labels clientUUID handler now =
     \<lparr>si_functionName = functionName, si_mediaType = mediaType, si_labels = labels, si_clientUUID = clientUUID,
      si_handler = handler, si_activeCalls = [], si_now = now, si_calls = [], si_sent = []\<rparr>"

definition respond :: "Uuid \<Rightarrow> bytes \<Rightarrow> u32 \<Rightarrow> RpcServerInternal \<Rightarrow> RpcServerInternal" where
  "respond callUuid data status s =
     s\<lparr>si_sent := si_sent s @ [\<lparr>fr_timestamp = si_now s, fr_callUuid = callUuid, fr_data = data, fr_status = status\<rparr>]\<rparr>"

definition server_ReceiveMessage :: "FunctionCall \<Rightarrow> RpcServerInternal \<Rightarrow> RpcServerInternal" where
  "server_ReceiveMessage msg s =
     (case si_handler s of
        None \<Rightarrow> respond (fc_callUuid msg) [] Response_InternalError s
      | Some h \<Rightarrow>
          if fc_callUuid msg \<in> set (si_activeCalls s) then respond (fc_callUuid msg) [] Response_InternalError s
          else s\<lparr>si_activeCalls := si_activeCalls s @ [fc_callUuid msg],
                 si_calls := si_calls s @ [(h, fc_timestamp msg, fc_callUuid msg, fc_data msg)]\<rparr>)"

definition internal_SubmitResult :: "Uuid \<Rightarrow> bytes \<Rightarrow> RpcServerInternal \<Rightarrow> bool \<times> RpcServerInternal" where
  "internal_SubmitResult callHandle resultData s =
     (if callHandle \<notin> set (si_activeCalls s) then (False, s)
      else (True, (respond callHandle resultData Response_Success s)
                    \<lparr>si_activeCalls := remove1 callHandle (si_activeCalls s)\<rparr>))"

definition SetRpcHandler :: "nat option \<Rightarrow> RpcServerInternal \<Rightarrow> RpcServerInternal" where
  "SetRpcHandler handler s = s\<lparr>si_handler := handler\<rparr>"

record RpcServer =
  sv_dataSpec :: RpcSpec
  sv_handler :: "nat option"
  sv_now :: u64
  sv_internalRpcServers :: "RpcServerInternal list"

definition RpcServer_new :: "RpcSpec \<Rightarrow> nat option \<Rightarrow> RpcServer" where
  "RpcServer_new dataSpec handler =
     \<lparr>sv_dataSpec = dataSpec, sv_handler = handler, sv_now = 0, sv_internalRpcServers = []\<rparr>"

definition AddInternalRpcServer :: "string \<Rightarrow> string \<Rightarrow> MatchingLabel list \<Rightarrow> RpcServer \<Rightarrow> RpcServer" where
  "AddInternalRpcServer clientUUID joinedMediaType clientLabels sv =
     sv\<lparr>sv_internalRpcServers := sv_internalRpcServers sv @
          [RpcServerInternal_new (rs_functionName (sv_dataSpec sv)) joinedMediaType clientLabels clientUUID
             (sv_handler sv) (sv_now sv)]\<rparr>"

text \<open>What the participant announces for an internal server, for the server with identifier \<open>parent\<close>.\<close>

definition rpc_internal_data :: "string \<Rightarrow> string \<Rightarrow> (string \<times> string) list" where
  "rpc_internal_data clientUUID parent =
     [(''Rpc::serverinternal::clientUUID'', clientUUID), (''Rpc::serverinternal::parentServiceId'', parent),
      (''controller.type'', ''RpcServerInternal'')]"

text \<open>The handler registered by \<^verbatim>\<open>RpcServer::RegisterServiceDiscovery\<close>.\<close>

definition server_matchHandler :: "(string \<Rightarrow> MatchingLabel list) \<Rightarrow> event_type \<Rightarrow> ServiceDescriptor \<Rightarrow>
    RpcServer \<Rightarrow> discovery_error + RpcServer" where
  "server_matchHandler Deserialize discoveryType sd sv =
     (if discoveryType \<noteq> ServiceCreated then Inr sv
      else bindE (getVal sd ''Rpc::client::functionName'') (\<lambda>functionName.
           bindE (getVal sd ''Rpc::client::mediaType'') (\<lambda>clientMediaType.
           bindE (getVal sd ''Rpc::client::UUID'') (\<lambda>clientUUID.
           bindE (getVal sd ''Rpc::client::labels'') (\<lambda>labelsStr.
             let clientLabels = Deserialize labelsStr
             in Inr (if functionName = rs_functionName (sv_dataSpec sv) \<and>
                        MatchMediaType clientMediaType (rs_mediaType (sv_dataSpec sv)) \<and>
                        MatchLabels (rs_labels (sv_dataSpec sv)) clientLabels
                     then AddInternalRpcServer clientUUID clientMediaType clientLabels sv else sv))))))"

text \<open>\<^verbatim>\<open>SubmitResult\<close> asks every internal server; the null pointer is \<open>None\<close>.\<close>

definition rpc_SubmitResult :: "Uuid option \<Rightarrow> bytes \<Rightarrow> RpcServer \<Rightarrow> (rpc_error \<times> RpcServer) + RpcServer" where
  "rpc_SubmitResult callHandle resultData sv = (case callHandle of
     None \<Rightarrow> Inl (InvalidCallHandle, sv)
   | Some u \<Rightarrow>
       let results = map (internal_SubmitResult u resultData) (sv_internalRpcServers sv);
           submitResultCounter = length (filter fst results);
           sv = sv\<lparr>sv_internalRpcServers := map snd results\<rparr>
       in if submitResultCounter \<noteq> 1 then Inl (MultipleClients, sv) else Inr sv)"

definition SetCallHandler :: "nat option \<Rightarrow> RpcServer \<Rightarrow> RpcServer" where
  "SetCallHandler handler sv =
     sv\<lparr>sv_handler := handler, sv_internalRpcServers := map (SetRpcHandler handler) (sv_internalRpcServers sv)\<rparr>"

end
