(* ===== verification/Rpc_Calls.thy ===== *)
theory Rpc_Calls
  imports Rpc_Services "HOL-Library.Multiset"
begin

text \<open>
  Any number of clients and servers, connected through their discovery handlers, that exchange calls and answers over
  reliable channels, one for each client and server in both directions, which keep the order of the messages. Calls, deliveries,
  results of the servers' applications and changes of their handlers come in any order.
\<close>

section \<open>Timeouts\<close>

definition timeout_event :: "u64 \<Rightarrow> nat \<Rightarrow> RpcCallResultEvent" where
  "timeout_event now ctx = \<lparr>re_timestamp = now, re_userContext = ctx, re_callStatus = RpcTimeout, re_resultData = []\<rparr>"

definition context_of :: "RpcClient \<Rightarrow> TimeoutEntry \<Rightarrow> nat" where
  "context_of c e = ci_userContext (the (cl_activeCalls c (te_callUuid e)))"

lemma expire_calls_ok:
  assumes "distinct (map te_callUuid es)" "\<forall>e\<in>set es. te_callUuid e \<in> dom (cl_activeCalls c)" "cl_handler c = Some h"
  shows "expire_calls now es c = Inr (c\<lparr>cl_activeCalls := (cl_activeCalls c) |` (- te_callUuid ` set es),
    cl_calls := cl_calls c @ map (\<lambda>e. (h, timeout_event now (context_of c e))) es\<rparr>)"
  using assms
proof (induction es arbitrary: c)
  case (Cons e es)
  obtain info where info: "cl_activeCalls c (te_callUuid e) = Some info" using Cons.prems(2) by auto
  let ?c = "c\<lparr>cl_activeCalls := (cl_activeCalls c)(te_callUuid e := None), cl_calls := cl_calls c @ [(h, timeout_event now (ci_userContext info))]\<rparr>"
  have ne: "\<forall>x\<in>set es. te_callUuid x \<noteq> te_callUuid e" using Cons.prems(1) by (auto simp: image_iff)
  have ctx: "map (\<lambda>e. (h, timeout_event now (context_of ?c e))) es = map (\<lambda>e. (h, timeout_event now (context_of c e))) es"
    using ne by (simp add: context_of_def)
  have "expire_calls now (e # es) c = expire_calls now es ?c"
    using info Cons.prems(3) by (simp add: report_def timeout_event_def)
  also have "\<dots> = Inr (?c\<lparr>cl_activeCalls := (cl_activeCalls ?c) |` (- te_callUuid ` set es),
      cl_calls := cl_calls ?c @ map (\<lambda>e. (h, timeout_event now (context_of ?c e))) es\<rparr>)"
    using Cons.prems ne by (intro Cons.IH) (simp_all add: domIff)
  finally show ?case
    unfolding ctx using info by (auto simp: context_of_def restrict_map_def fun_eq_iff)
qed (simp add: restrict_map_def)

lemma expire_calls_answered:
  assumes "distinct (map te_callUuid (es @ [e]))" "\<forall>x\<in>set es. te_callUuid x \<in> dom (cl_activeCalls c)"
    "te_callUuid e \<notin> dom (cl_activeCalls c)" "cl_handler c = Some h"
  shows "expire_calls now (es @ e # rest) c = Inl (EndDereferenced (te_callUuid e),
    c\<lparr>cl_activeCalls := (cl_activeCalls c) |` (- te_callUuid ` set es),
      cl_calls := cl_calls c @ map (\<lambda>e. (h, timeout_event now (context_of c e))) es\<rparr>)"
proof -
  have "expire_calls now (xs @ ys) d = (case expire_calls now xs d of Inl x \<Rightarrow> Inl x | Inr d \<Rightarrow> expire_calls now ys d)" for xs ys d
    by (induction xs arbitrary: d) (auto simp: Let_def split: option.splits)
  moreover have "expire_calls now es c = Inr (c\<lparr>cl_activeCalls := (cl_activeCalls c) |` (- te_callUuid ` set es),
    cl_calls := cl_calls c @ map (\<lambda>e. (h, timeout_event now (context_of c e))) es\<rparr>)"
    using assms by (intro expire_calls_ok) simp_all
  ultimately show ?thesis using assms(3) by (auto simp: restrict_map_def domIff)
qed

text \<open>
  C33. A time step of a client: the calls whose time is used up are reported as timed out, in the order of the calls and
  each with its user context, and forgotten, up to the first of them that was answered in the meantime; there the handler
  dereferences the end of the map of active calls. When none of them was answered, exactly they are reported. The time of the others is
  shortened. The identifiers of the calls are distinct, and the client has a handler for results.
\<close>

theorem time_step_reports_until_answered:
  fixes c :: RpcClient and duration :: int and h :: nat
  assumes "distinct (map te_callUuid (cl_timeoutEntries c))" "cl_handler c = Some h"
  defines "expired \<equiv> filter (\<lambda>e. te_timeLeft e \<le> duration) (cl_timeoutEntries c)"
  defines "reported \<equiv> takeWhile (\<lambda>e. te_callUuid e \<in> dom (cl_activeCalls c)) expired"
  shows "\<exists>c'. TimeHandler now duration c =
      (if reported = expired then Inr c' else Inl (EndDereferenced (te_callUuid (expired ! length reported)), c')) \<and>
    cl_calls c' = cl_calls c @ map (\<lambda>e. (h, timeout_event now (context_of c e))) reported \<and>
    cl_activeCalls c' = cl_activeCalls c |` (- te_callUuid ` set reported) \<and>
    cl_timeoutEntries c' = map (\<lambda>e. e\<lparr>te_timeLeft := te_timeLeft e - duration\<rparr>)
      (filter (\<lambda>e. duration < te_timeLeft e) (cl_timeoutEntries c))"
proof -
  let ?shorten = "\<lambda>e. e\<lparr>te_timeLeft := te_timeLeft e - duration\<rparr>"
  let ?rest = "filter (\<lambda>e. duration < te_timeLeft e) (cl_timeoutEntries c)"
  let ?c = "c\<lparr>cl_timeoutEntries := map ?shorten ?rest\<rparr>"
  let ?c' = "c\<lparr>cl_timeoutEntries := map ?shorten ?rest, cl_activeCalls := cl_activeCalls c |` (- te_callUuid ` set reported),
      cl_calls := cl_calls c @ map (\<lambda>e. (h, timeout_event now (context_of c e))) reported\<rparr>"
  have split: "filter (\<lambda>e. te_timeLeft e \<le> 0) (map ?shorten (cl_timeoutEntries c)) = map ?shorten expired"
    "filter (\<lambda>e. \<not> te_timeLeft e \<le> 0) (map ?shorten (cl_timeoutEntries c)) = map ?shorten ?rest"
    by (simp_all add: expired_def filter_map o_def not_le)
  have run: "TimeHandler now duration c = expire_calls now (map ?shorten expired) ?c" by (simp only: TimeHandler_def Let_def split)
  have dist: "distinct (map te_callUuid expired)" using assms(1) by (simp add: expired_def distinct_map_filter)
  have act: "\<forall>e\<in>set reported. te_callUuid e \<in> dom (cl_activeCalls c)" unfolding reported_def by (auto dest: set_takeWhileD)
  have "TimeHandler now duration c =
      (if reported = expired then Inr ?c' else Inl (EndDereferenced (te_callUuid (expired ! length reported)), ?c'))"
  proof (cases "reported = expired")
    case True
    have "expire_calls now (map ?shorten reported) ?c = Inr (?c\<lparr>cl_activeCalls := (cl_activeCalls ?c) |` (- te_callUuid ` set (map ?shorten reported)),
        cl_calls := cl_calls ?c @ map (\<lambda>e. (h, timeout_event now (context_of ?c e))) (map ?shorten reported)\<rparr>)"
      using dist act assms(2) True by (intro expire_calls_ok) (auto simp: o_def)
    then show ?thesis using True by (simp add: run image_image o_def context_of_def)
  next
    case False
    define tl where "tl = dropWhile (\<lambda>e. te_callUuid e \<in> dom (cl_activeCalls c)) expired"
    have eq: "expired = reported @ tl" by (simp add: reported_def tl_def)
    with False obtain e rest where e: "tl = e # rest" by (cases tl) auto
    have "te_callUuid e \<notin> dom (cl_activeCalls c)"
      using hd_dropWhile[of "\<lambda>e. te_callUuid e \<in> dom (cl_activeCalls c)" expired] e by (simp flip: tl_def)
    then have "expire_calls now (map ?shorten reported @ ?shorten e # map ?shorten rest) ?c = Inl (EndDereferenced (te_callUuid (?shorten e)),
        ?c\<lparr>cl_activeCalls := (cl_activeCalls ?c) |` (- te_callUuid ` set (map ?shorten reported)),
           cl_calls := cl_calls ?c @ map (\<lambda>e. (h, timeout_event now (context_of ?c e))) (map ?shorten reported)\<rparr>)"
      using dist act assms(2) unfolding eq e by (intro expire_calls_answered) (auto simp: o_def)
    then show ?thesis using False eq e by (simp add: run image_image o_def context_of_def)
  qed
  then show ?thesis by (intro exI[of _ ?c']) simp
qed

text \<open>
  C34. A call with a timeout that was answered in time by its only server: the entry of the timeout is still there, and when
  the time is used up the handler dereferences the end of the map of active calls.
\<close>

theorem answered_call_times_out:
  assumes "cl_numCounterparts c = 1" "cl_timeoutEntries c = []" "u \<notin> dom (cl_activeCalls c)" "fr_callUuid answer = u"
    "timeout \<le> duration"
  shows "\<exists>c'. TimeHandler now duration (client_ReceiveMessage answer (CallWithTimeout u data timeout ctx c)) =
    Inl (EndDereferenced u, c')"
  using assms
  by (cases "cl_handler c")
     (auto simp: CallWithTimeout_def TriggerCall_def client_ReceiveMessage_def TimeHandler_def report_def)

section \<open>Clients and servers find each other\<close>

fun match_all :: "('a \<Rightarrow> 's \<Rightarrow> 'e + 's) \<Rightarrow> 'a list \<Rightarrow> 's \<Rightarrow> 'e + 's" where
  "match_all f [] s = Inr s"
| "match_all f (x # xs) s = bindE (f x s) (match_all f xs)"

fun mapE :: "('a \<Rightarrow> 'e + 'b) \<Rightarrow> 'a list \<Rightarrow> 'e + 'b list" where
  "mapE f [] = Inr []"
| "mapE f (x # xs) = bindE (f x) (\<lambda>y. bindE (mapE f xs) (\<lambda>ys. Inr (y # ys)))"

lemma mapE_Inr: "(\<And>x. x \<in> set xs \<Longrightarrow> f x = Inr (g x)) \<Longrightarrow> mapE f xs = Inr (map g xs)"
  by (induction xs) auto

text \<open>The journal \<open>rw_received\<close> records which server the answers that a client has received came from.\<close>

record rpc_world =
  rw_clients :: "RpcClient list"
  rw_servers :: "RpcServer list"
  rw_toServer :: "nat \<Rightarrow> nat \<Rightarrow> FunctionCall list"
  rw_toClient :: "nat \<Rightarrow> nat \<Rightarrow> FunctionCallResponse list"
  rw_received :: "nat \<Rightarrow> (nat \<times> FunctionCallResponse) list"

definition client_descriptor :: "(MatchingLabel list \<Rightarrow> string) \<Rightarrow> ServiceDescriptor \<Rightarrow> RpcClient \<Rightarrow> ServiceDescriptor" where
  "client_descriptor Serialize base c =
     base\<lparr>sd_supplementalData := rpc_client_data Serialize (cl_dataSpec c) (cl_clientUUID c)\<rparr>"

definition internal_descriptor :: "ServiceDescriptor \<Rightarrow> RpcServerInternal \<Rightarrow> ServiceDescriptor" where
  "internal_descriptor base s = base\<lparr>sd_supplementalData := rpc_internal_data (si_clientUUID s) ''0''\<rparr>"

text \<open>
  Discovery calls the handler of every server for some clients, and then the handlers of the clients for the internal servers.
  \<open>discovered\<close> lists, for every server, the numbers of the clients that it is told of, in this order. Which clients these
  are is decided by the index of \<^verbatim>\<open>SpecificDiscoveryStore\<close>.
\<close>

definition told_clients :: "RpcClient list \<Rightarrow> nat list \<Rightarrow> RpcClient list" where
  "told_clients clients cls_told = map ((!) clients) cls_told"

definition rpc_connect :: "(MatchingLabel list \<Rightarrow> string) \<Rightarrow> (string \<Rightarrow> MatchingLabel list) \<Rightarrow> ServiceDescriptor \<Rightarrow> nat list list \<Rightarrow>
    RpcClient list \<Rightarrow> RpcServer list \<Rightarrow> discovery_error + rpc_world" where
  "rpc_connect Serialize Deserialize base discovered clients servers =
     bindE (mapE (\<lambda>(sv, cls_told). match_all (server_matchHandler Deserialize ServiceCreated)
                    (map (client_descriptor Serialize base) (told_clients clients cls_told)) sv) (zip servers discovered)) (\<lambda>svs.
     bindE (mapE (match_all (client_matchHandler ServiceCreated)
                    (map (internal_descriptor base) (concat (map sv_internalRpcServers svs)))) clients) (\<lambda>cls.
       Inr \<lparr>rw_clients = cls, rw_servers = svs, rw_toServer = \<lambda>_ _. [], rw_toClient = \<lambda>_ _. [], rw_received = \<lambda>_. []\<rparr>))"

text \<open>Each server is told of a client at most once.\<close>

definition valid_discovery :: "nat list list \<Rightarrow> RpcClient list \<Rightarrow> RpcServer list \<Rightarrow> bool" where
  "valid_discovery discovered clients servers \<longleftrightarrow> length discovered = length servers \<and>
     list_all (\<lambda>cls_told. distinct cls_told \<and> list_all (\<lambda>i. i < length clients) cls_told) discovered"

definition rpc_matches :: "RpcClient \<Rightarrow> RpcServer \<Rightarrow> bool" where
  "rpc_matches c sv \<longleftrightarrow> rs_functionName (cl_dataSpec c) = rs_functionName (sv_dataSpec sv) \<and>
     MatchMediaType (rs_mediaType (cl_dataSpec c)) (rs_mediaType (sv_dataSpec sv)) \<and>
     MatchLabels (rs_labels (sv_dataSpec sv)) (rs_labels (cl_dataSpec c))"

definition internal_for :: "RpcServer \<Rightarrow> RpcClient \<Rightarrow> RpcServerInternal" where
  "internal_for sv c = RpcServerInternal_new (rs_functionName (sv_dataSpec sv)) (rs_mediaType (cl_dataSpec c))
     (rs_labels (cl_dataSpec c)) (cl_clientUUID c) (sv_handler sv) (sv_now sv)"

lemma si_internal_for [simp]:
  "si_clientUUID (internal_for sv c) = cl_clientUUID c" "si_activeCalls (internal_for sv c) = []" "si_sent (internal_for sv c) = []"
  by (simp_all add: internal_for_def RpcServerInternal_new_def)

lemma server_learns:
  assumes "\<forall>c\<in>set cs. Deserialize (Serialize (rs_labels (cl_dataSpec c))) = rs_labels (cl_dataSpec c)"
  shows "match_all (server_matchHandler Deserialize ServiceCreated) (map (client_descriptor Serialize base) cs) sv =
    Inr (sv\<lparr>sv_internalRpcServers := sv_internalRpcServers sv @ map (internal_for sv) (filter (\<lambda>c. rpc_matches c sv) cs)\<rparr>)"
  using assms
proof (induction cs arbitrary: sv)
  case (Cons c cs)
  have lab: "Deserialize (Serialize (rs_labels (cl_dataSpec c))) = rs_labels (cl_dataSpec c)" using Cons.prems by simp
  let ?sv = "if rpc_matches c sv then sv\<lparr>sv_internalRpcServers := sv_internalRpcServers sv @ [internal_for sv c]\<rparr> else sv"
  have "server_matchHandler Deserialize ServiceCreated (client_descriptor Serialize base c) sv = Inr ?sv"
    by (simp add: server_matchHandler_def client_descriptor_def rpc_client_data_def getVal_def lab rpc_matches_def
        AddInternalRpcServer_def internal_for_def Let_def)
  moreover have "internal_for ?sv = internal_for sv" "rpc_matches c' ?sv = rpc_matches c' sv" for c'
    by (auto simp: internal_for_def rpc_matches_def fun_eq_iff)
  ultimately show ?case using Cons by simp
qed simp

lemma client_learns:
  "match_all (client_matchHandler ServiceCreated) (map (internal_descriptor base) ss) c =
     Inr (c\<lparr>cl_numCounterparts := cl_numCounterparts c + of_nat (length (filter (\<lambda>s. si_clientUUID s = cl_clientUUID c) ss))\<rparr>)"
proof (induction ss arbitrary: c)
  case (Cons s ss)
  have "client_matchHandler ServiceCreated (internal_descriptor base s) c =
      Inr (if si_clientUUID s = cl_clientUUID c then c\<lparr>cl_numCounterparts := cl_numCounterparts c + 1\<rparr> else c)"
    by (simp add: client_matchHandler_def internal_descriptor_def rpc_internal_data_def getVal_def)
  then show ?case by (simp add: Cons.IH add.assoc)
qed simp

text \<open>A client counts the servers that match it and were told of it.\<close>

lemma mapE_map: "mapE f (map g xs) = mapE (\<lambda>x. f (g x)) xs"
  by (induction xs) auto

lemma one_told:
  assumes "distinct (map cl_clientUUID clients)" "i < length clients" "distinct cls_told" "\<forall>j\<in>set cls_told. j < length clients"
  shows "filter (\<lambda>c. cl_clientUUID c = cl_clientUUID (clients ! i)) (told_clients clients cls_told) = (if i \<in> set cls_told then [clients ! i] else [])"
proof -
  have same: "cl_clientUUID (clients ! j) = cl_clientUUID (clients ! i) \<longleftrightarrow> j = i" if "j < length clients" for j
    using assms(1,2) that by (auto simp: distinct_conv_nth)
  have "filter (\<lambda>c. cl_clientUUID c = cl_clientUUID (clients ! i)) (told_clients clients cls_told) =
      map ((!) clients) (filter (\<lambda>j. j = i) cls_told)"
    using assms(4) same by (auto simp: told_clients_def filter_map o_def intro!: arg_cong[where f = "map ((!) clients)"] filter_cong)
  moreover have "filter (\<lambda>j. j = i) cls_told = (if i \<in> set cls_told then [i] else [])"
    using assms(3) by (induction cls_told) (auto simp: filter_empty_conv)
  ultimately show ?thesis by simp
qed

definition found_by :: "RpcClient list \<Rightarrow> nat \<Rightarrow> RpcServer \<times> nat list \<Rightarrow> bool" where
  "found_by clients i = (\<lambda>(sv, cls_told). i \<in> set cls_told \<and> rpc_matches (clients ! i) sv)"

lemma count_internals:
  assumes "distinct (map cl_clientUUID clients)" "i < length clients"
    "\<forall>(sv, cls_told)\<in>set ps. distinct cls_told \<and> (\<forall>j\<in>set cls_told. j < length clients)"
  shows "length (filter (\<lambda>s. si_clientUUID s = cl_clientUUID (clients ! i))
      (concat (map (\<lambda>(sv, cls_told). map (internal_for sv) (filter (\<lambda>c. rpc_matches c sv) (told_clients clients cls_told))) ps))) =
    length (filter (found_by clients i) ps)"
  using assms(3)
proof (induction ps)
  case (Cons p ps)
  obtain sv cls_told where p: "p = (sv, cls_told)" by fastforce
  have t: "filter (\<lambda>c. cl_clientUUID c = cl_clientUUID (clients ! i)) (told_clients clients cls_told) = (if i \<in> set cls_told then [clients ! i] else [])"
    using Cons.prems p by (intro one_told assms) auto
  have "length (filter (\<lambda>s. si_clientUUID s = cl_clientUUID (clients ! i))
        (map (internal_for sv) (filter (\<lambda>c. rpc_matches c sv) (told_clients clients cls_told)))) =
      length (filter (\<lambda>c. rpc_matches c sv) (filter (\<lambda>c. cl_clientUUID c = cl_clientUUID (clients ! i)) (told_clients clients cls_told)))"
    by (simp add: filter_map o_def conj_commute)
  also have "\<dots> = (if found_by clients i p then 1 else 0)" unfolding t by (simp add: found_by_def p)
  finally show ?case using Cons p by (simp add: found_by_def)
qed simp

lemma rpc_connect_Inr:
  assumes "\<forall>c\<in>set clients. Deserialize (Serialize (rs_labels (cl_dataSpec c))) = rs_labels (cl_dataSpec c)" "distinct (map cl_clientUUID clients)"
    "\<And>c. c \<in> set clients \<Longrightarrow> cl_numCounterparts c = 0" "\<And>sv. sv \<in> set servers \<Longrightarrow> sv_internalRpcServers sv = []"
    "valid_discovery discovered clients servers"
  shows "rpc_connect Serialize Deserialize base discovered clients servers = Inr
    \<lparr>rw_clients = map (\<lambda>i. (clients ! i)\<lparr>cl_numCounterparts := of_nat (length (filter (found_by clients i) (zip servers discovered)))\<rparr>)
       [0..<length clients],
     rw_servers = map (\<lambda>(sv, cls_told). sv\<lparr>sv_internalRpcServers :=
       map (internal_for sv) (filter (\<lambda>c. rpc_matches c sv) (told_clients clients cls_told))\<rparr>) (zip servers discovered),
     rw_toServer = \<lambda>_ _. [], rw_toClient = \<lambda>_ _. [], rw_received = \<lambda>_. []\<rparr>"
proof -
  let ?ps = "zip servers discovered"
  let ?ints = "\<lambda>(sv, cls_told). map (internal_for sv) (filter (\<lambda>c. rpc_matches c sv) (told_clients clients cls_told))"
  have ps: "\<forall>(sv, cls_told)\<in>set ?ps. distinct cls_told \<and> (\<forall>j\<in>set cls_told. j < length clients)"
    using assms(5) by (auto simp: valid_discovery_def list_all_iff dest!: set_zip_rightD)
  have "match_all (server_matchHandler Deserialize ServiceCreated) (map (client_descriptor Serialize base) (told_clients clients cls_told)) sv =
      Inr (sv\<lparr>sv_internalRpcServers := ?ints (sv, cls_told)\<rparr>)" if "(sv, cls_told) \<in> set ?ps" for sv cls_told
  proof -
    have "set (told_clients clients cls_told) \<subseteq> set clients" using ps that by (auto simp: told_clients_def)
    moreover have "sv_internalRpcServers sv = []" using that assms(4) by (auto dest: set_zip_leftD)
    ultimately show ?thesis using assms(1) by (subst server_learns) auto
  qed
  then have svs: "mapE (\<lambda>(sv, cls_told). match_all (server_matchHandler Deserialize ServiceCreated)
        (map (client_descriptor Serialize base) (told_clients clients cls_told)) sv) ?ps =
      Inr (map (\<lambda>(sv, cls_told). sv\<lparr>sv_internalRpcServers := ?ints (sv, cls_told)\<rparr>) ?ps)"
    by (intro mapE_Inr) auto
  have ints: "concat (map sv_internalRpcServers (map (\<lambda>(sv, cls_told). sv\<lparr>sv_internalRpcServers := ?ints (sv, cls_told)\<rparr>) ?ps)) = concat (map ?ints ?ps)"
    by (simp add: o_def case_prod_unfold)
  have "mapE (match_all (client_matchHandler ServiceCreated) (map (internal_descriptor base) (concat (map ?ints ?ps)))) clients =
      mapE (match_all (client_matchHandler ServiceCreated) (map (internal_descriptor base) (concat (map ?ints ?ps)))) (map ((!) clients) [0..<length clients])"
    by (simp add: map_nth)
  also have "\<dots> = mapE (\<lambda>i. match_all (client_matchHandler ServiceCreated) (map (internal_descriptor base) (concat (map ?ints ?ps))) (clients ! i)) [0..<length clients]"
    by (rule mapE_map)
  also have "\<dots> = Inr (map (\<lambda>i. (clients ! i)\<lparr>cl_numCounterparts := of_nat (length (filter (found_by clients i) ?ps))\<rparr>) [0..<length clients])"
    by (rule mapE_Inr) (use assms(3) count_internals[OF assms(2) _ ps] in \<open>simp add: client_learns\<close>)
  finally have cls: "mapE (match_all (client_matchHandler ServiceCreated) (map (internal_descriptor base) (concat (map ?ints ?ps)))) clients =
      Inr (map (\<lambda>i. (clients ! i)\<lparr>cl_numCounterparts := of_nat (length (filter (found_by clients i) ?ps))\<rparr>) [0..<length clients])" .
  show ?thesis unfolding rpc_connect_def svs bindE_simps ints cls by (simp only: prod.case)
qed

section \<open>Runs\<close>

datatype rpc_event =
    CallEvent nat Uuid bytes nat
  | ToServer nat nat
  | ToClient nat nat
  | SubmitEvent nat Uuid bytes
  | HandlerEvent nat "nat option"
  | ClockEvent nat nat u64

text \<open>The internal server of server \<open>k\<close> for client \<open>i\<close>.\<close>

definition lane_in :: "string \<Rightarrow> RpcServer \<Rightarrow> RpcServerInternal option" where
  "lane_in uuid sv = find (\<lambda>s. si_clientUUID s = uuid) (sv_internalRpcServers sv)"

definition lane :: "rpc_world \<Rightarrow> nat \<Rightarrow> nat \<Rightarrow> RpcServerInternal option" where
  "lane w i k = lane_in (cl_clientUUID (rw_clients w ! i)) (rw_servers w ! k)"

definition sent_in :: "RpcServerInternal option \<Rightarrow> FunctionCallResponse list" where
  "sent_in l = (case l of None \<Rightarrow> [] | Some s \<Rightarrow> si_sent s)"

text \<open>A new state of server \<open>k\<close>; what it has sent goes to the channels.\<close>

definition put_server :: "nat \<Rightarrow> RpcServer \<Rightarrow> rpc_world \<Rightarrow> rpc_world" where
  "put_server k sv w = w\<lparr>rw_servers := (rw_servers w)[k := sv],
     rw_toClient := (\<lambda>i k'. if k' = k
       then rw_toClient w i k @ drop (length (sent_in (lane w i k))) (sent_in (lane_in (cl_clientUUID (rw_clients w ! i)) sv))
       else rw_toClient w i k')\<rparr>"

definition map_internals :: "(RpcServerInternal \<Rightarrow> RpcServerInternal) \<Rightarrow> RpcServer \<Rightarrow> RpcServer" where
  "map_internals f sv = sv\<lparr>sv_internalRpcServers := map f (sv_internalRpcServers sv)\<rparr>"

text \<open>A call reaches the servers that have an internal server for the client.\<close>

definition put_client :: "nat \<Rightarrow> RpcClient \<Rightarrow> rpc_world \<Rightarrow> rpc_world" where
  "put_client i c w = w\<lparr>rw_clients := (rw_clients w)[i := c],
     rw_toServer := (\<lambda>i' k. if i' = i \<and> k < length (rw_servers w) \<and> lane w i k \<noteq> None
       then rw_toServer w i k @ drop (length (cl_sent (rw_clients w ! i))) (cl_sent c) else rw_toServer w i' k)\<rparr>"

fun rpc_exec :: "rpc_event \<Rightarrow> rpc_world \<Rightarrow> rpc_world" where
  "rpc_exec (CallEvent i u data ctx) w =
     (if i < length (rw_clients w) then put_client i (rpc_Call u data ctx (rw_clients w ! i)) w else w)"
| "rpc_exec (ToServer i k) w =
     (if i < length (rw_clients w) \<and> k < length (rw_servers w)
      then (case rw_toServer w i k of
              [] \<Rightarrow> w
            | m # ms \<Rightarrow> put_server k (map_internals
                (\<lambda>s. if si_clientUUID s = cl_clientUUID (rw_clients w ! i) then server_ReceiveMessage m s else s) (rw_servers w ! k))
                (w\<lparr>rw_toServer := (\<lambda>i' k'. if i' = i \<and> k' = k then ms else rw_toServer w i' k')\<rparr>))
      else w)"
| "rpc_exec (ToClient i k) w =
     (if i < length (rw_clients w) \<and> k < length (rw_servers w)
      then (case rw_toClient w i k of
              [] \<Rightarrow> w
            | r # rs \<Rightarrow> w\<lparr>rw_clients := (rw_clients w)[i := client_ReceiveMessage r (rw_clients w ! i)],
                rw_toClient := (\<lambda>i' k'. if i' = i \<and> k' = k then rs else rw_toClient w i' k'),
                rw_received := (rw_received w)(i := rw_received w i @ [(k, r)])\<rparr>)
      else w)"
| "rpc_exec (SubmitEvent k u data) w =
     (if k < length (rw_servers w)
      then put_server k (case rpc_SubmitResult (Some u) data (rw_servers w ! k) of Inl (e, sv) \<Rightarrow> sv | Inr sv \<Rightarrow> sv) w else w)"
| "rpc_exec (HandlerEvent k handler) w =
     (if k < length (rw_servers w) then put_server k (SetCallHandler handler (rw_servers w ! k)) w else w)"
| "rpc_exec (ClockEvent i k now) w =
     (let w = (if k < length (rw_servers w)
               then put_server k ((map_internals (\<lambda>s. s\<lparr>si_now := now\<rparr>) (rw_servers w ! k))\<lparr>sv_now := now\<rparr>) w else w)
      in if i < length (rw_clients w) then put_client i ((rw_clients w ! i)\<lparr>cl_now := now\<rparr>) w else w)"

definition rpc_run :: "rpc_event list \<Rightarrow> rpc_world \<Rightarrow> rpc_world" where
  "rpc_run es w = fold rpc_exec es w"

text \<open>The calls of a client in a list of events.\<close>

fun call_of :: "nat \<Rightarrow> rpc_event \<Rightarrow> (Uuid \<times> nat) list" where
  "call_of i (CallEvent i' u data ctx) = (if i' = i then [(u, ctx)] else [])"
| "call_of i _ = []"

definition made :: "nat \<Rightarrow> rpc_event list \<Rightarrow> (Uuid \<times> nat) list" where
  "made i es = concat (map (call_of i) es)"

lemma made_append [simp]: "made i (es @ es') = made i es @ made i es'" "made i [] = []" "made i [e] = call_of i e"
  by (simp_all add: made_def)

section \<open>Invariant\<close>

definition justified :: "rpc_event list \<Rightarrow> nat \<Rightarrow> FunctionCallResponse \<Rightarrow> bool" where
  "justified es k r \<longleftrightarrow> (fr_status r = Response_Success \<and> SubmitEvent k (fr_callUuid r) (fr_data r) \<in> set es) \<or>
     (fr_status r = Response_InternalError \<and> fr_data r = [])"

text \<open>Every call of client \<open>i\<close> is on its way to server \<open>k\<close>, active there, or answered.\<close>

definition lane_inv :: "rpc_event list \<Rightarrow> rpc_world \<Rightarrow> nat \<Rightarrow> nat \<Rightarrow> bool" where
  "lane_inv es w i k \<longleftrightarrow>
     sent_in (lane w i k) = map snd (filter (\<lambda>x. fst x = k) (rw_received w i)) @ rw_toClient w i k \<and>
     (\<forall>r \<in> set (sent_in (lane w i k)). justified es k r) \<and>
     (case lane w i k of
        None \<Rightarrow> rw_toServer w i k = []
      | Some s \<Rightarrow> mset (map fc_callUuid (rw_toServer w i k)) + mset (si_activeCalls s) + mset (map fr_callUuid (si_sent s)) =
          mset (map fst (made i es)))"

definition servers_of :: "rpc_world \<Rightarrow> nat \<Rightarrow> nat set" where
  "servers_of w i = {k. k < length (rw_servers w) \<and> lane w i k \<noteq> None}"

definition got :: "Uuid \<Rightarrow> rpc_world \<Rightarrow> nat \<Rightarrow> (nat \<times> FunctionCallResponse) list" where
  "got u w i = filter (\<lambda>x. fr_callUuid (snd x) = u) (rw_received w i)"

definition results :: "nat \<Rightarrow> RpcClient \<Rightarrow> (nat \<times> RpcCallResultEvent) list" where
  "results ctx c = filter (\<lambda>x. re_userContext (snd x) = ctx) (cl_calls c)"

definition result_event :: "nat \<Rightarrow> FunctionCallResponse \<Rightarrow> RpcCallResultEvent" where
  "result_event ctx r = \<lparr>re_timestamp = fr_timestamp r, re_userContext = ctx,
     re_callStatus = ToRpcCallStatus (fr_status r), re_resultData = fr_data r\<rparr>"

definition client_inv :: "rpc_event list \<Rightarrow> rpc_world \<Rightarrow> nat \<Rightarrow> nat \<Rightarrow> bool" where
  "client_inv es w h i \<longleftrightarrow> (let c = rw_clients w ! i; n = card (servers_of w i) in
     unat (cl_numCounterparts c) = n \<and> n < 2 ^ 31 \<and> cl_handler c = Some h \<and>
     (\<forall>x \<in> set (rw_received w i). fst x < length (rw_servers w)) \<and>
     (\<forall>u. u \<notin> fst ` set (made i es) \<longrightarrow> cl_activeCalls c u = None) \<and>
     (\<forall>ctx. ctx \<notin> snd ` set (made i es) \<longrightarrow> results ctx c = []) \<and>
     (\<forall>(u, ctx) \<in> set (made i es). if n = 0
        then cl_activeCalls c u = None \<and>
             (\<exists>t. results ctx c = [(h, \<lparr>re_timestamp = t, re_userContext = ctx, re_callStatus = ServerNotReachable, re_resultData = []\<rparr>)])
        else cl_activeCalls c u = (if length (got u w i) < n
               then Some \<lparr>ci_remainingReturnCount = int n - int (length (got u w i)), ci_userContext = ctx\<rparr> else None) \<and>
             results ctx c = map (\<lambda>(k, r). (h, result_event ctx r)) (got u w i)))"

definition rpc_inv :: "rpc_event list \<Rightarrow> rpc_world \<Rightarrow> (nat \<Rightarrow> nat) \<Rightarrow> bool" where
  "rpc_inv es w h \<longleftrightarrow> distinct (map cl_clientUUID (rw_clients w)) \<and>
     (\<forall>i<length (rw_clients w). client_inv es w (h i) i \<and> (\<forall>k<length (rw_servers w). lane_inv es w i k))"

lemma find_map:
  assumes "\<And>x. P (f x) = P x"
  shows "find P (map f xs) = map_option f (find P xs)"
  by (induction xs) (simp_all add: assms)

lemma justified_mono: "justified es k r \<Longrightarrow> justified (es @ es') k r"
  by (auto simp: justified_def)

lemma put_server_sel [simp]:
  "rw_clients (put_server k sv w) = rw_clients w" "length (rw_servers (put_server k sv w)) = length (rw_servers w)"
  "rw_toServer (put_server k sv w) = rw_toServer w" "rw_received (put_server k sv w) = rw_received w"
  by (simp_all add: put_server_def)

lemma client_inv_cong:
  assumes "rw_clients w' ! i = rw_clients w ! i" "servers_of w' i = servers_of w i" "rw_received w' i = rw_received w i"
    "length (rw_servers w') = length (rw_servers w)" "made i es' = made i es"
  shows "client_inv es' w' h i = client_inv es w h i"
  by (simp only: client_inv_def got_def assms)

lemma lane_inv_cong:
  assumes "lane_inv es w i k" "lane w' i k = lane w i k" "filter (\<lambda>x. fst x = k) (rw_received w' i) = filter (\<lambda>x. fst x = k) (rw_received w i)"
    "rw_toClient w' i k = rw_toClient w i k" "rw_toServer w' i k = rw_toServer w i k" "made i (es @ es') = made i es"
  shows "lane_inv (es @ es') w' i k"
  using assms(1) unfolding lane_inv_def assms(2-6) by (auto simp: justified_mono simp del: made_append)

lemma rpc_invD:
  assumes "rpc_inv es w h" "i < length (rw_clients w)"
  shows "client_inv es w (h i) i" "k < length (rw_servers w) \<Longrightarrow> lane_inv es w i k"
  using assms by (simp_all add: rpc_inv_def)

lemma lane_None: "lane_inv es w i k \<Longrightarrow> lane w i k = None \<Longrightarrow> rw_toServer w i k = []"
  by (simp add: lane_inv_def)

lemma rpc_inv_idle:
  assumes "rpc_inv es w h" "\<And>i. i < length (rw_clients w) \<Longrightarrow> call_of i e = []"
  shows "rpc_inv (es @ [e]) w h"
  using assms lane_inv_cong[of es w _ _ w "[e]"] client_inv_cong[of w _ w "es @ [e]" es] by (simp add: rpc_inv_def)

text \<open>A step of one server that treats all its internal servers in the same way.\<close>

lemma lane_put_server:
  assumes "k < length (rw_servers w)" "sv_internalRpcServers sv = map f (sv_internalRpcServers (rw_servers w ! k))"
    "\<And>s. si_clientUUID (f s) = si_clientUUID s"
  shows "lane (put_server k sv w) i k' = (if k' = k then map_option f (lane w i k) else lane w i k')"
  using assms by (simp add: lane_def lane_in_def put_server_def find_map)

lemma server_step:
  assumes inv: "rpc_inv es w h" and k: "k < length (rw_servers w)"
    and sv: "sv_internalRpcServers sv = map f (sv_internalRpcServers (rw_servers w ! k))" "\<And>s. si_clientUUID (f s) = si_clientUUID s"
    and q: "\<And>i k'. i < length (rw_clients w) \<Longrightarrow> k' \<noteq> k \<Longrightarrow> q i k' = rw_toServer w i k'"
      "\<And>i. i < length (rw_clients w) \<Longrightarrow> lane w i k = None \<Longrightarrow> q i k = rw_toServer w i k"
    and s: "\<And>i s. i < length (rw_clients w) \<Longrightarrow> lane w i k = Some s \<Longrightarrow> \<exists>new. si_sent (f s) = si_sent s @ new \<and>
        (\<forall>r\<in>set new. justified (es @ [e]) k r) \<and>
        mset (map fc_callUuid (q i k)) + mset (si_activeCalls (f s)) + mset (map fr_callUuid new) =
        mset (map fc_callUuid (rw_toServer w i k)) + mset (si_activeCalls s)"
    and e: "\<And>i. call_of i e = []"
  shows "rpc_inv (es @ [e]) (put_server k sv (w\<lparr>rw_toServer := q\<rparr>)) h"
proof -
  let ?w = "w\<lparr>rw_toServer := q\<rparr>" let ?w' = "put_server k sv ?w"
  have lane: "lane ?w' i k' = (if k' = k then map_option f (lane w i k) else lane w i k')" for i k'
    using lane_put_server[of k ?w sv f i k'] k sv by (simp add: lane_def)
  have serv: "servers_of ?w' = servers_of w" by (auto simp: servers_of_def lane fun_eq_iff split: if_splits)
  have "client_inv (es @ [e]) ?w' (h i) i" if "i < length (rw_clients w)" for i
    using inv that e client_inv_cong[of ?w' i w "es @ [e]" es "h i"] by (simp add: rpc_inv_def serv)
  moreover have "lane_inv (es @ [e]) ?w' i k'" if i: "i < length (rw_clients w)" "k' < length (rw_servers w)" for i k'
  proof (cases "k' = k")
    case False
    then show ?thesis using inv i q(1)[OF i(1) False] e
      by (intro lane_inv_cong[of es w i k' ?w']) (simp_all add: rpc_inv_def lane, simp add: put_server_def)
  next
    case True
    have li: "lane_inv es w i k" using inv i True by (simp add: rpc_inv_def)
    show ?thesis
    proof (cases "lane w i k")
      case None
      have "lane_in (cl_clientUUID (rw_clients w ! i)) sv = None"
        using lane[of i k] k None by (simp add: lane_def put_server_def)
      then have "rw_toClient ?w' i k = rw_toClient w i k" by (simp add: put_server_def sent_in_def)
      then show ?thesis using li q(2)[OF i(1) None] True None by (simp add: lane_inv_def lane sent_in_def)
    next
      case (Some s)
      obtain new where new: "si_sent (f s) = si_sent s @ new" "\<forall>r\<in>set new. justified (es @ [e]) k r"
        "mset (map fc_callUuid (q i k)) + mset (si_activeCalls (f s)) + mset (map fr_callUuid new) =
         mset (map fc_callUuid (rw_toServer w i k)) + mset (si_activeCalls s)" using assms(7)[OF i(1) Some] by blast
      have "lane_in (cl_clientUUID (rw_clients w ! i)) sv = Some (f s)"
        using lane[of i k] k Some by (simp add: lane_def put_server_def)
      then have ch: "rw_toClient ?w' i k = rw_toClient w i k @ new"
        using Some new(1) by (simp add: put_server_def sent_in_def lane_def)
      have "mset (map fc_callUuid (q i k)) + mset (si_activeCalls (f s)) + mset (map fr_callUuid (si_sent (f s))) =
          (mset (map fc_callUuid (q i k)) + mset (si_activeCalls (f s)) + mset (map fr_callUuid new)) + mset (map fr_callUuid (si_sent s))"
        by (simp add: new(1) ac_simps)
      also have "\<dots> = mset (map fst (made i es))" unfolding new(3) using li Some by (simp add: lane_inv_def)
      finally have m: "mset (map fc_callUuid (q i k)) + mset (si_activeCalls (f s)) + mset (map fr_callUuid (si_sent (f s))) =
          mset (map fst (made i es))" .
      have st: "si_sent (f s) = map snd (filter (\<lambda>x. fst x = k) (rw_received w i)) @ (rw_toClient w i k @ new)"
        using li Some new(1) by (simp add: lane_inv_def sent_in_def)
      have "\<forall>r\<in>set (si_sent s). justified es k r" using li Some by (simp add: lane_inv_def sent_in_def)
      then have j: "\<forall>r\<in>set (si_sent (f s)). justified (es @ [e]) k r" using new(1,2) by (auto simp: justified_mono)
      have sel: "rw_received ?w' i = rw_received w i" "rw_toServer ?w' i k = q i k" "made i (es @ [e]) = made i es" by (simp_all add: e)
      show ?thesis unfolding True lane_inv_def sel ch lane
        using j m st[symmetric] by (simp add: sent_in_def Some del: mset_map mset_append)
    qed
  qed
  moreover have "distinct (map cl_clientUUID (rw_clients ?w'))" using inv by (simp add: rpc_inv_def)
  ultimately show ?thesis by (simp add: rpc_inv_def)
qed

text \<open>The steps of the servers.\<close>

lemma server_ReceiveMessage_step:
  "\<exists>new. si_sent (server_ReceiveMessage m s) = si_sent s @ new \<and> (\<forall>r\<in>set new. justified es k r) \<and>
     mset (si_activeCalls (server_ReceiveMessage m s)) + mset (map fr_callUuid new) = {#fc_callUuid m#} + mset (si_activeCalls s)"
  by (auto simp: server_ReceiveMessage_def respond_def justified_def split: option.splits)

lemma internal_SubmitResult_step:
  "\<exists>new. si_sent (snd (internal_SubmitResult u d s)) = si_sent s @ new \<and> (\<forall>r\<in>set new. justified (es @ [SubmitEvent k u d]) k r) \<and>
     mset (si_activeCalls (snd (internal_SubmitResult u d s))) + mset (map fr_callUuid new) = mset (si_activeCalls s)"
  by (auto simp: internal_SubmitResult_def respond_def justified_def)

lemma uuid_kept [simp]:
  "si_clientUUID (server_ReceiveMessage m s) = si_clientUUID s" "si_clientUUID (snd (internal_SubmitResult u d s)) = si_clientUUID s"
  by (auto simp: server_ReceiveMessage_def internal_SubmitResult_def respond_def split: option.splits)

lemma rpc_inv_ToServer:
  assumes inv: "rpc_inv es w h"
  shows "rpc_inv (es @ [ToServer i k]) (rpc_exec (ToServer i k) w) h"
proof (cases "i < length (rw_clients w) \<and> k < length (rw_servers w) \<and> rw_toServer w i k \<noteq> []")
  case True
  then obtain m ms where m: "rw_toServer w i k = m # ms" by (cases "rw_toServer w i k") auto
  let ?uuid = "cl_clientUUID (rw_clients w ! i)"
  let ?f = "\<lambda>s. if si_clientUUID s = ?uuid then server_ReceiveMessage m s else s"
  let ?q = "\<lambda>i' k'. if i' = i \<and> k' = k then ms else rw_toServer w i' k'"
  have uuid: "si_clientUUID s = cl_clientUUID (rw_clients w ! i')" if "lane w i' k = Some s" for i' s
    using that by (auto simp: lane_def lane_in_def find_Some_iff)
  have same: "i' = i" if "i' < length (rw_clients w)" "cl_clientUUID (rw_clients w ! i') = ?uuid" for i'
    using inv that True by (auto simp: rpc_inv_def distinct_conv_nth)
  have "rpc_inv (es @ [ToServer i k]) (put_server k (map_internals ?f (rw_servers w ! k)) (w\<lparr>rw_toServer := ?q\<rparr>)) h"
  proof (rule server_step[OF inv])
    show "k < length (rw_servers w)" using True by simp
    show "\<exists>new. si_sent (?f s) = si_sent s @ new \<and> (\<forall>r\<in>set new. justified (es @ [ToServer i k]) k r) \<and>
        mset (map fc_callUuid (?q i' k)) + mset (si_activeCalls (?f s)) + mset (map fr_callUuid new) =
        mset (map fc_callUuid (rw_toServer w i' k)) + mset (si_activeCalls s)"
      if "i' < length (rw_clients w)" "lane w i' k = Some s" for i' s
    proof (cases "i' = i")
      case True
      obtain new where new: "si_sent (server_ReceiveMessage m s) = si_sent s @ new" "\<forall>r\<in>set new. justified (es @ [ToServer i k]) k r"
        "mset (si_activeCalls (server_ReceiveMessage m s)) + mset (map fr_callUuid new) = {#fc_callUuid m#} + mset (si_activeCalls s)"
        using server_ReceiveMessage_step by blast
      then show ?thesis using True m uuid[OF that(2)] by (intro exI[of _ new]) (simp add: add.assoc)
    next
      case False
      then have "?f s = s" using uuid[OF that(2)] same[OF that(1)] by auto
      then show ?thesis using False by (intro exI[of _ "[]"]) simp
    qed
    show "?q i' k = rw_toServer w i' k" if "i' < length (rw_clients w)" "lane w i' k = None" for i'
      using lane_None[OF rpc_invD(2)[OF inv that(1)] that(2)] m True by auto
  qed (simp_all add: map_internals_def)
  then show ?thesis using True m by simp
next
  case False
  then have "rpc_exec (ToServer i k) w = w" by (auto split: list.splits)
  then show ?thesis using rpc_inv_idle[OF inv] by simp
qed

lemma rpc_inv_server:
  assumes inv: "rpc_inv es w h" and k: "k < length (rw_servers w)"
    and sv: "sv_internalRpcServers sv = map f (sv_internalRpcServers (rw_servers w ! k))" "\<And>s. si_clientUUID (f s) = si_clientUUID s"
    and s: "\<And>s. \<exists>new. si_sent (f s) = si_sent s @ new \<and> (\<forall>r\<in>set new. justified (es @ [e]) k r) \<and>
        mset (si_activeCalls (f s)) + mset (map fr_callUuid new) = mset (si_activeCalls s)"
    and e: "\<And>i. call_of i e = []"
  shows "rpc_inv (es @ [e]) (put_server k sv w) h"
proof -
  have "rpc_inv (es @ [e]) (put_server k sv (w\<lparr>rw_toServer := rw_toServer w\<rparr>)) h"
  proof (rule server_step[OF inv k sv])
    show "\<exists>new. si_sent (f s) = si_sent s @ new \<and> (\<forall>r\<in>set new. justified (es @ [e]) k r) \<and>
        mset (map fc_callUuid (rw_toServer w i k)) + mset (si_activeCalls (f s)) + mset (map fr_callUuid new) =
        mset (map fc_callUuid (rw_toServer w i k)) + mset (si_activeCalls s)" for i s
      using s[of s] by (auto simp: add.assoc)
  qed (simp_all add: e)
  then show ?thesis by simp
qed

lemma submitted_internals:
  "sv_internalRpcServers (case rpc_SubmitResult (Some u) d sv of Inl (e, sv) \<Rightarrow> sv | Inr sv \<Rightarrow> sv) =
     map (\<lambda>s. snd (internal_SubmitResult u d s)) (sv_internalRpcServers sv)"
  by (auto simp: rpc_SubmitResult_def Let_def)

lemma rpc_inv_Submit:
  assumes inv: "rpc_inv es w h"
  shows "rpc_inv (es @ [SubmitEvent k u d]) (rpc_exec (SubmitEvent k u d) w) h"
proof (cases "k < length (rw_servers w)")
  case True
  from rpc_inv_server[OF inv True submitted_internals _ internal_SubmitResult_step] show ?thesis using True by simp
qed (simp add: rpc_inv_idle[OF inv])

lemma rpc_inv_Handler:
  assumes inv: "rpc_inv es w h"
  shows "rpc_inv (es @ [HandlerEvent k g]) (rpc_exec (HandlerEvent k g) w) h"
proof (cases "k < length (rw_servers w)")
  case True
  have "sv_internalRpcServers (SetCallHandler g (rw_servers w ! k)) = map (SetRpcHandler g) (sv_internalRpcServers (rw_servers w ! k))"
    by (simp add: SetCallHandler_def)
  from rpc_inv_server[OF inv True this, where e = "HandlerEvent k g"] show ?thesis using True by (simp add: SetRpcHandler_def)
qed (simp add: rpc_inv_idle[OF inv])

section \<open>Steps of the clients\<close>

lemma put_client_sel [simp]:
  "rw_servers (put_client i c w) = rw_servers w" "length (rw_clients (put_client i c w)) = length (rw_clients w)"
  "rw_toClient (put_client i c w) = rw_toClient w" "rw_received (put_client i c w) = rw_received w"
  by (simp_all add: put_client_def)

lemma lane_clients:
  assumes "map cl_clientUUID (rw_clients w') = map cl_clientUUID (rw_clients w)" "rw_servers w' = rw_servers w" "i < length (rw_clients w)"
  shows "lane w' i k = lane w i k"
proof -
  have "length (rw_clients w') = length (rw_clients w)" using assms(1) by (metis length_map)
  then have "cl_clientUUID (rw_clients w' ! i) = cl_clientUUID (rw_clients w ! i)" using assms(1,3) by (metis nth_map)
  then show ?thesis by (simp add: lane_def assms(2))
qed

lemma map_uuid_upd:
  "i < length cs \<Longrightarrow> cl_clientUUID c = cl_clientUUID (cs ! i) \<Longrightarrow> map cl_clientUUID (cs[i := c]) = map cl_clientUUID cs"
  by (auto simp: map_update list_update_same_conv)

lemma client_clock:
  assumes "rpc_inv es w h" "i < length (rw_clients w)"
  shows "rpc_inv es (put_client i ((rw_clients w ! i)\<lparr>cl_now := t\<rparr>) w) h"
proof -
  let ?w = "put_client i ((rw_clients w ! i)\<lparr>cl_now := t\<rparr>) w"
  have uu: "map cl_clientUUID (rw_clients ?w) = map cl_clientUUID (rw_clients w)"
    using assms(2) by (simp add: put_client_def map_uuid_upd)
  have lane: "lane ?w j k = lane w j k" if "j < length (rw_clients w)" for j k using lane_clients[OF uu _ that] by simp
  have ts: "rw_toServer ?w = rw_toServer w" by (auto simp: put_client_def fun_eq_iff)
  have serv: "servers_of ?w j = servers_of w j" if "j < length (rw_clients w)" for j by (simp add: servers_of_def lane that)
  have "client_inv es ?w (h j) j = client_inv es w (h j) j" if "j < length (rw_clients w)" for j
    using assms(2) by (simp add: client_inv_def serv that got_def results_def) (simp add: put_client_def nth_list_update Let_def)
  moreover have "lane_inv es ?w j k" if "j < length (rw_clients w)" "k < length (rw_servers w)" for j k
    using lane_inv_cong[OF rpc_invD(2)[OF assms(1) that], of ?w "[]"] that by (simp add: lane ts)
  ultimately show ?thesis using assms uu by (simp add: rpc_inv_def)
qed

lemma rpc_inv_Clock:
  assumes inv: "rpc_inv es w h"
  shows "rpc_inv (es @ [ClockEvent i k t]) (rpc_exec (ClockEvent i k t) w) h"
proof -
  let ?w = "if k < length (rw_servers w)
    then put_server k ((map_internals (\<lambda>s. s\<lparr>si_now := t\<rparr>) (rw_servers w ! k))\<lparr>sv_now := t\<rparr>) w else w"
  have "rpc_inv (es @ [ClockEvent i k t]) ?w h"
    using rpc_inv_server[OF inv, where e = "ClockEvent i k t" and f = "\<lambda>s. s\<lparr>si_now := t\<rparr>" and k = k and
        sv = "(map_internals (\<lambda>s. s\<lparr>si_now := t\<rparr>) (rw_servers w ! k))\<lparr>sv_now := t\<rparr>"] rpc_inv_idle[OF inv]
    by (simp add: map_internals_def)
  then show ?thesis using client_clock[of _ ?w] by (simp add: Let_def)
qed

lemma sint_small:
  fixes x :: u32
  assumes "unat x < 2 ^ 31"
  shows "sint x = int (unat x)"
proof -
  have u: "uint x = int (unat x)" by simp
  have "int (unat x) < 2 ^ 31" using assms by (metis of_nat_less_iff of_nat_numeral of_nat_power)
  then have "signed_take_bit 31 (uint x) = uint x" unfolding u by (intro signed_take_bit_int_eq_self) linarith+
  then show ?thesis by (simp add: sint_uint)
qed

lemma lane_part:
  assumes "lane_inv es w i k" "lane w i k = Some s"
  shows "mset (map fr_callUuid (si_sent s)) \<subseteq># mset (map fst (made i es))"
proof -
  have "mset (map fc_callUuid (rw_toServer w i k)) + mset (si_activeCalls s) + mset (map fr_callUuid (si_sent s)) =
      mset (map fst (made i es))" using assms by (simp add: lane_inv_def)
  then show ?thesis by (metis mset_subset_eq_add_right)
qed

lemma received_known:
  assumes "rpc_inv es w h" "i < length (rw_clients w)" "x \<in> set (rw_received w i)"
  shows "fst x \<in> servers_of w i" "fr_callUuid (snd x) \<in> fst ` set (made i es)"
proof -
  have k: "fst x < length (rw_servers w)" using rpc_invD(1)[OF assms(1,2)] assms(3) by (simp add: client_inv_def Let_def)
  have li: "lane_inv es w i (fst x)" by (rule rpc_invD(2)[OF assms(1,2) k])
  have sent: "snd x \<in> set (sent_in (lane w i (fst x)))" using li assms(3) by (simp add: lane_inv_def)
  then obtain s where s: "lane w i (fst x) = Some s" "snd x \<in> set (si_sent s)"
    by (cases "lane w i (fst x)") (simp_all add: sent_in_def)
  then show "fst x \<in> servers_of w i" using k by (simp add: servers_of_def)
  have "fr_callUuid (snd x) \<in># mset (map fr_callUuid (si_sent s))" using s(2) by simp
  moreover have "mset (map fr_callUuid (si_sent s)) \<subseteq># mset (map fst (made i es))"
    using lane_part[OF li s(1)] by simp
  ultimately have "fr_callUuid (snd x) \<in># mset (map fst (made i es))" by (rule mset_subset_eqD[rotated])
  then show "fr_callUuid (snd x) \<in> fst ` set (made i es)" by simp
qed

lemma rpc_inv_Call:
  assumes inv: "rpc_inv es w h" and i: "i < length (rw_clients w)"
    and new: "u \<notin> fst ` set (made i es)" "ctx \<notin> snd ` set (made i es)"
  shows "rpc_inv (es @ [CallEvent i u d ctx]) (rpc_exec (CallEvent i u d ctx) w) h"
proof -
  let ?c = "rw_clients w ! i" let ?c' = "rpc_Call u d ctx ?c" let ?w = "put_client i ?c' w" let ?n = "card (servers_of w i)"
  let ?es = "es @ [CallEvent i u d ctx]"
  note ci = rpc_invD(1)[OF inv i]
  have num: "unat (cl_numCounterparts ?c) = ?n" "?n < 2 ^ 31" and hd: "cl_handler ?c = Some (h i)"
    using ci by (simp_all add: client_inv_def Let_def)
  have fresh: "cl_activeCalls ?c u = None" "results ctx ?c = []" using ci new by (simp_all add: client_inv_def Let_def)
  have got_u: "got u w i = []" using received_known(2)[OF inv i] new(1) by (auto simp: got_def filter_empty_conv)
  have c': "?c' = (if ?n = 0 then report \<lparr>re_timestamp = cl_now ?c, re_userContext = ctx, re_callStatus = ServerNotReachable,
        re_resultData = []\<rparr> ?c
      else ?c\<lparr>cl_activeCalls := (cl_activeCalls ?c)(u \<mapsto> \<lparr>ci_remainingReturnCount = int ?n, ci_userContext = ctx\<rparr>),
        cl_sent := cl_sent ?c @ [\<lparr>fc_timestamp = cl_now ?c, fc_callUuid = u, fc_data = d\<rparr>]\<rparr>)"
    using fresh(1) sint_small[of "cl_numCounterparts ?c"] num
    by (auto simp: rpc_Call_def TriggerCall_def domIff unat_eq_0 Let_def)
  have uu: "map cl_clientUUID (rw_clients ?w) = map cl_clientUUID (rw_clients w)"
    using i by (simp add: put_client_def map_uuid_upd c' report_def hd)
  have lane: "lane ?w j k = lane w j k" if "j < length (rw_clients w)" for j k using lane_clients[OF uu _ that] by simp
  have serv: "servers_of ?w j = servers_of w j" if "j < length (rw_clients w)" for j by (simp add: servers_of_def lane that)
  have "client_inv ?es ?w (h j) j" if j: "j < length (rw_clients w)" for j
  proof (cases "j = i")
    case False
    have "rw_clients ?w ! j = rw_clients w ! j" using False by (simp add: put_client_def)
    then show ?thesis using client_inv_cong[of ?w j w ?es es] rpc_invD(1)[OF inv j] False serv[OF j] by simp
  next
    case True
    have cw: "rw_clients ?w ! i = ?c'" using i by (simp add: put_client_def)
    have got: "got v ?w i = got v w i" for v by (simp add: got_def)
    show ?thesis
    proof (cases "?n = 0")
      case z: True
      have "results x ?c' = results x ?c @ (if x = ctx then [(h i, \<lparr>re_timestamp = cl_now ?c, re_userContext = ctx,
          re_callStatus = ServerNotReachable, re_resultData = []\<rparr>)] else [])" for x
        by (simp add: c' z report_def hd results_def)
      then show ?thesis unfolding True using ci new fresh
        by (auto simp: client_inv_def Let_def cw serv[OF i] z) (auto simp: c' z report_def hd)
    next
      case nz: False
      have res: "results x ?c' = results x ?c" for x by (simp add: c' nz results_def)
      have act: "cl_activeCalls ?c' = (cl_activeCalls ?c)(u \<mapsto> \<lparr>ci_remainingReturnCount = int ?n, ci_userContext = ctx\<rparr>)"
        and oth: "cl_numCounterparts ?c' = cl_numCounterparts ?c" "cl_handler ?c' = cl_handler ?c"
        by (simp_all add: c' nz)
      have old: "v \<noteq> u" if "(v, x) \<in> set (made i es)" for v x using that new(1) by force
      show ?thesis unfolding True using ci old new nz
        by (auto simp: client_inv_def Let_def cw serv[OF i] res act oth fresh got got_u)
    qed
  qed
  moreover have "lane_inv ?es ?w j k" if jk: "j < length (rw_clients w)" "k < length (rw_servers w)" for j k
  proof (cases "j = i \<and> lane w i k \<noteq> None")
    case False
    then have "rw_toServer ?w j k = rw_toServer w j k" by (auto simp: put_client_def)
    then show ?thesis using rpc_invD(2)[OF inv jk] False lane[OF jk(1)] lane_inv_cong[of es w j k ?w "[CallEvent i u d ctx]"]
      by (cases "j = i") (auto simp: lane_inv_def justified_mono)
  next
    case True
    then obtain s where s: "lane w i k = Some s" by auto
    have "k \<in> servers_of w i" using jk s by (simp add: servers_of_def)
    then have "?n \<noteq> 0" by (auto simp: card_eq_0_iff servers_of_def)
    then have "rw_toServer ?w i k = rw_toServer w i k @ [\<lparr>fc_timestamp = cl_now ?c, fc_callUuid = u, fc_data = d\<rparr>]"
      using s jk by (simp add: put_client_def c')
    then show ?thesis using rpc_invD(2)[OF inv jk] True s lane[OF jk(1)]
      by (auto simp: lane_inv_def justified_mono)
  qed
  ultimately have "rpc_inv ?es ?w h" using inv uu by (simp add: rpc_inv_def)
  then show ?thesis using i by simp
qed

lemma distinct_fstI:
  assumes "\<And>k. length (filter (\<lambda>x. fst x = k) xs) \<le> 1"
  shows "distinct (map fst xs)"
  using assms
proof (induction xs)
  case (Cons x xs)
  have "length (filter (\<lambda>y. fst y = k) xs) \<le> 1" for k using Cons.prems[of k] by (cases "fst x = k") auto
  moreover have "fst x \<notin> set (map fst xs)" using Cons.prems[of "fst x"] by (auto simp: filter_empty_conv)
  ultimately show ?case using Cons.IH by simp
qed simp

lemma count_filter: "length (filter (\<lambda>x. f x = y) xs) = count (mset (map f xs)) y"
  by (induction xs) auto

text \<open>A server answers a call at most once.\<close>

lemma answered_once:
  assumes inv: "rpc_inv es w h" and i: "i < length (rw_clients w)" and d: "distinct (map fst (made i es))"
    and k: "k < length (rw_servers w)"
  shows "length (filter (\<lambda>x. fst x = k) (got u w i)) + length (filter (\<lambda>r. fr_callUuid r = u) (rw_toClient w i k)) \<le> 1"
proof -
  note li = rpc_invD(2)[OF inv i k]
  have "length (filter (\<lambda>r. fr_callUuid r = u) (sent_in (lane w i k))) \<le> 1"
  proof (cases "lane w i k")
    case (Some s)
    have "length (filter (\<lambda>r. fr_callUuid r = u) (si_sent s)) = count (mset (map fr_callUuid (si_sent s))) u"
      by (rule count_filter)
    also have "\<dots> \<le> count (mset (map fst (made i es))) u" using lane_part[OF li Some] by (rule mset_subset_eq_count)
    also have "\<dots> \<le> 1" using d by (metis distinct_count_atmost_1 le_numeral_extra(4) zero_le_one)
    finally show ?thesis by (simp add: sent_in_def Some)
  qed (simp add: sent_in_def)
  moreover have "length (filter (\<lambda>r. fr_callUuid r = u) (map snd (filter (\<lambda>x. fst x = k) (rw_received w i)))) =
      length (filter (\<lambda>x. fst x = k) (got u w i))"
    by (simp add: got_def filter_map o_def conj_commute)
  ultimately show ?thesis using li by (simp add: lane_inv_def)
qed

lemma got_servers:
  assumes "rpc_inv es w h" "i < length (rw_clients w)" "distinct (map fst (made i es))"
  shows "distinct (map fst (got u w i))" "set (map fst (got u w i)) \<subseteq> servers_of w i"
proof -
  show sub: "set (map fst (got u w i)) \<subseteq> servers_of w i" using received_known(1)[OF assms(1,2)] by (auto simp: got_def)
  have "length (filter (\<lambda>x. fst x = k) (got u w i)) \<le> 1" for k
  proof (cases "k < length (rw_servers w)")
    case True
    then show ?thesis using answered_once[OF assms True, of u] by simp
  next
    case False
    then have "filter (\<lambda>x. fst x = k) (got u w i) = []" using sub by (auto simp: filter_empty_conv servers_of_def)
    then show ?thesis by simp
  qed
  then show "distinct (map fst (got u w i))" by (rule distinct_fstI)
qed

lemma got_fewer:
  assumes "rpc_inv es w h" "i < length (rw_clients w)" "distinct (map fst (made i es))" "k < length (rw_servers w)"
    "rw_toClient w i k = r # rs"
  shows "length (got (fr_callUuid r) w i) < card (servers_of w i)"
proof -
  let ?g = "got (fr_callUuid r) w i"
  have "filter (\<lambda>x. fst x = k) ?g = []" using answered_once[OF assms(1-4), of "fr_callUuid r"] assms(5) by simp
  then have "k \<notin> set (map fst ?g)" by (auto simp: filter_empty_conv)
  moreover have "lane w i k \<noteq> None" using rpc_invD(2)[OF assms(1,2,4)] assms(5)
    by (cases "lane w i k") (simp_all add: lane_inv_def sent_in_def)
  then have "k \<in> servers_of w i" using assms(4) by (simp add: servers_of_def)
  ultimately have "set (map fst ?g) \<subset> servers_of w i" using got_servers(2)[OF assms(1-3)] by blast
  moreover have "finite (servers_of w i)" by (simp add: servers_of_def)
  ultimately have "card (set (map fst ?g)) < card (servers_of w i)" by (simp add: psubset_card_mono)
  then show ?thesis using distinct_card[OF got_servers(1)[OF assms(1-3)]] by simp
qed

lemma client_invI:
  assumes "rw_clients w ! i = c" "card (servers_of w i) = n" "unat (cl_numCounterparts c) = n" "n < 2 ^ 31" "n \<noteq> 0" "cl_handler c = Some h"
    "\<forall>x \<in> set (rw_received w i). fst x < length (rw_servers w)"
    "\<forall>u. u \<notin> fst ` set (made i es) \<longrightarrow> cl_activeCalls c u = None" "\<forall>x. x \<notin> snd ` set (made i es) \<longrightarrow> results x c = []"
    "\<And>v x. (v, x) \<in> set (made i es) \<Longrightarrow> cl_activeCalls c v = (if length (got v w i) < n
       then Some \<lparr>ci_remainingReturnCount = int n - int (length (got v w i)), ci_userContext = x\<rparr> else None) \<and>
     results x c = map (\<lambda>(k, r). (h, result_event x r)) (got v w i)"
  shows "client_inv es w h i"
  unfolding client_inv_def Let_def assms(1,2) using assms(3-10) by auto

lemma rpc_inv_ToClient:
  assumes inv: "rpc_inv es w h" and d: "\<And>i. distinct (map fst (made i es))" "\<And>i. distinct (map snd (made i es))"
  shows "rpc_inv (es @ [ToClient i k]) (rpc_exec (ToClient i k) w) h"
proof (cases "i < length (rw_clients w) \<and> k < length (rw_servers w) \<and> rw_toClient w i k \<noteq> []")
  case False
  then have "rpc_exec (ToClient i k) w = w" by (auto split: list.splits)
  then show ?thesis using rpc_inv_idle[OF inv] by simp
next
  case True
  then obtain r rs where r: "rw_toClient w i k = r # rs" by (cases "rw_toClient w i k") auto
  have i: "i < length (rw_clients w)" and k: "k < length (rw_servers w)" using True by simp_all
  let ?c = "rw_clients w ! i" let ?c' = "client_ReceiveMessage r ?c" let ?u = "fr_callUuid r" let ?n = "card (servers_of w i)"
  let ?w = "w\<lparr>rw_clients := (rw_clients w)[i := ?c'],
    rw_toClient := (\<lambda>i' k'. if i' = i \<and> k' = k then rs else rw_toClient w i' k'),
    rw_received := (rw_received w)(i := rw_received w i @ [(k, r)])\<rparr>"
  let ?es = "es @ [ToClient i k]"
  note ci = rpc_invD(1)[OF inv i] and li = rpc_invD(2)[OF inv i k]
  have less: "length (got ?u w i) < ?n" by (rule got_fewer[OF inv i d(1) k r])
  obtain s where s: "lane w i k = Some s" using li r by (cases "lane w i k") (simp_all add: lane_inv_def sent_in_def)
  have "?u \<in># mset (map fr_callUuid (si_sent s))" using li s r by (simp add: lane_inv_def sent_in_def)
  then have "?u \<in># mset (map fst (made i es))" using lane_part[OF li s] by (rule mset_subset_eqD[rotated])
  then obtain ctx where ctx: "(?u, ctx) \<in> set (made i es)" by auto
  have hd: "cl_handler ?c = Some (h i)" using ci by (simp add: client_inv_def Let_def)
  have act: "cl_activeCalls ?c ?u = Some \<lparr>ci_remainingReturnCount = int ?n - int (length (got ?u w i)), ci_userContext = ctx\<rparr>"
    using ci ctx less by (auto simp: client_inv_def Let_def)
  have c': "?c' = ?c\<lparr>cl_calls := cl_calls ?c @ [(h i, result_event ctx r)],
      cl_activeCalls := (cl_activeCalls ?c)(?u := (if Suc (length (got ?u w i)) < ?n
        then Some \<lparr>ci_remainingReturnCount = int ?n - int (Suc (length (got ?u w i))), ci_userContext = ctx\<rparr> else None))\<rparr>"
    using less by (auto simp: client_ReceiveMessage_def act report_def hd result_event_def Let_def diff_diff_eq add.commute)
  have uu: "map cl_clientUUID (rw_clients ?w) = map cl_clientUUID (rw_clients w)" using i by (simp add: map_uuid_upd c')
  have lane: "lane ?w j k' = lane w j k'" if "j < length (rw_clients w)" for j k' using lane_clients[OF uu _ that] by simp
  have serv: "servers_of ?w j = servers_of w j" if "j < length (rw_clients w)" for j by (simp add: servers_of_def lane that)
  have "client_inv ?es ?w (h j) j" if j: "j < length (rw_clients w)" for j
  proof (cases "j = i")
    case False
    then show ?thesis using client_inv_cong[of ?w j w ?es es] rpc_invD(1)[OF inv j] serv[OF j] by simp
  next
    case True
    have got: "got v ?w i = got v w i @ (if v = ?u then [(k, r)] else [])" for v by (simp add: got_def)
    have res: "results x ?c' = results x ?c @ (if x = ctx then [(h i, result_event ctx r)] else [])" for x
      by (simp add: c' results_def) (simp add: result_event_def)
    have pair: "v = ?u \<longleftrightarrow> x = ctx" if "(v, x) \<in> set (made i es)" for v x
      using that ctx d(1)[of i] d(2)[of i] by (metis distinct_map fst_conv inj_onD prod.inject snd_conv)
    have oth: "rw_clients ?w ! i = ?c'" "cl_numCounterparts ?c' = cl_numCounterparts ?c" "cl_handler ?c' = cl_handler ?c"
      using i by (simp_all add: c')
    have act': "cl_activeCalls ?c' v = (if v = ?u then (if Suc (length (got ?u w i)) < ?n
        then Some \<lparr>ci_remainingReturnCount = int ?n - int (Suc (length (got ?u w i))), ci_userContext = ctx\<rparr> else None)
        else cl_activeCalls ?c v)" for v by (simp add: c')
    have u_made: "?u \<in> fst ` set (made i es)" "ctx \<in> snd ` set (made i es)" using ctx by force+
    have nz: "?n \<noteq> 0" using less by simp
    have made: "made i ?es = made i es" by simp
    show ?thesis unfolding True
    proof (rule client_invI[OF oth(1), of ?n], unfold made)
      show "cl_activeCalls ?c' v = (if length (got v ?w i) < ?n
            then Some \<lparr>ci_remainingReturnCount = int ?n - int (length (got v ?w i)), ci_userContext = x\<rparr> else None) \<and>
          results x ?c' = map (\<lambda>(k, r). (h i, result_event x r)) (got v ?w i)" if "(v, x) \<in> set (made i es)" for v x
        using ci that pair[OF that] nz by (auto simp: client_inv_def Let_def got res act')
      show "\<forall>v. v \<notin> fst ` set (made i es) \<longrightarrow> cl_activeCalls ?c' v = None"
        using ci u_made by (auto simp: client_inv_def Let_def act')
      show "\<forall>x. x \<notin> snd ` set (made i es) \<longrightarrow> results x ?c' = []"
        using ci u_made by (auto simp: client_inv_def Let_def res)
    qed (use ci k nz serv[OF i] oth hd in \<open>simp_all add: client_inv_def Let_def\<close>)
  qed
  moreover have "lane_inv ?es ?w j k'" if jk: "j < length (rw_clients w)" "k' < length (rw_servers w)" for j k'
  proof (cases "j = i \<and> k' = k")
    case False
    then show ?thesis using rpc_invD(2)[OF inv jk] lane[OF jk(1)]
      by (intro lane_inv_cong[of es w j k' ?w]) auto
  next
    case True
    have "made i ?es = made i es" by simp
    then show ?thesis using li s lane[OF i] r True by (auto simp: lane_inv_def justified_mono)
  qed
  ultimately have "rpc_inv ?es ?w h" using inv uu by (simp add: rpc_inv_def)
  then show ?thesis using i k r by simp
qed

lemma exec_sizes [simp]:
  "length (rw_clients (rpc_exec e w)) = length (rw_clients w)" "length (rw_servers (rpc_exec e w)) = length (rw_servers w)"
  by (cases e; simp add: Let_def split: list.split)+

lemma servers_put_server:
  assumes "k < length (rw_servers w)" "sv_internalRpcServers sv = map f (sv_internalRpcServers (rw_servers w ! k))"
    "\<And>s. si_clientUUID (f s) = si_clientUUID s"
  shows "servers_of (put_server k sv w) i = servers_of w i"
  unfolding servers_of_def lane_put_server[OF assms] by auto

lemma servers_clients:
  assumes "map cl_clientUUID (rw_clients w') = map cl_clientUUID (rw_clients w)" "rw_servers w' = rw_servers w" "i < length (rw_clients w)"
  shows "servers_of w' i = servers_of w i"
  by (simp add: servers_of_def lane_clients[OF assms] assms(2))

lemma client_uuid_kept [simp]:
  "cl_clientUUID (report e c) = cl_clientUUID c" "cl_clientUUID (rpc_Call u d ctx c) = cl_clientUUID c"
  "cl_clientUUID (client_ReceiveMessage r c) = cl_clientUUID c"
  by (simp_all add: report_def rpc_Call_def TriggerCall_def client_ReceiveMessage_def Let_def split: option.split)

lemma exec_servers:
  assumes i: "i < length (rw_clients w)"
  shows "servers_of (rpc_exec e w) i = servers_of w i"
proof (cases e)
  case (CallEvent j u d ctx)
  have "servers_of (put_client j (rpc_Call u d ctx (rw_clients w ! j)) w) i = servers_of w i" if "j < length (rw_clients w)"
    using that i by (intro servers_clients) (simp_all add: map_uuid_upd put_client_def)
  then show ?thesis by (simp add: CallEvent)
next
  case (ToServer j k)
  show ?thesis
  proof (cases "k < length (rw_servers w)")
    case True
    have "servers_of (put_server k (map_internals (\<lambda>s. if si_clientUUID s = uuid then server_ReceiveMessage m s else s) (rw_servers w ! k))
        (w\<lparr>rw_toServer := q\<rparr>)) i = servers_of (w\<lparr>rw_toServer := q\<rparr>) i" for q m uuid
      using True by (intro servers_put_server[where f = "\<lambda>s. if si_clientUUID s = uuid then server_ReceiveMessage m s else s"])
        (simp_all add: map_internals_def)
    moreover have "servers_of (w\<lparr>rw_toServer := q\<rparr>) i = servers_of w i" for q by (simp add: servers_of_def lane_def)
    ultimately show ?thesis by (simp add: ToServer split: list.split)
  qed (simp add: ToServer)
next
  case (ToClient j k)
  have "servers_of (w\<lparr>rw_clients := (rw_clients w)[j := client_ReceiveMessage r (rw_clients w ! j)], rw_toClient := q, rw_received := x\<rparr>) i =
      servers_of w i" for r q x using i by (cases "j < length (rw_clients w)") (intro servers_clients; simp add: map_uuid_upd list_update_beyond)+
  then show ?thesis by (simp add: ToClient split: list.split)
next
  case (SubmitEvent k u d)
  then show ?thesis using servers_put_server[OF _ submitted_internals] by simp
next
  case (HandlerEvent k g)
  then show ?thesis
    using servers_put_server[of k w "SetCallHandler g (rw_servers w ! k)" "SetRpcHandler g"] by (simp add: SetCallHandler_def SetRpcHandler_def)
next
  case (ClockEvent j k t)
  let ?w = "if k < length (rw_servers w)
    then put_server k ((map_internals (\<lambda>s. s\<lparr>si_now := t\<rparr>) (rw_servers w ! k))\<lparr>sv_now := t\<rparr>) w else w"
  have "servers_of ?w i = servers_of w i"
    using servers_put_server[of k w _ "\<lambda>s. s\<lparr>si_now := t\<rparr>"] by (simp add: map_internals_def)
  moreover have "servers_of (put_client j ((rw_clients ?w ! j)\<lparr>cl_now := t\<rparr>) ?w) i = servers_of ?w i" if "j < length (rw_clients ?w)"
    using that i by (intro servers_clients) (simp_all add: map_uuid_upd put_client_def)
  ultimately show ?thesis by (simp add: ClockEvent Let_def)
qed

lemma run_servers: "length (rw_servers (rpc_run es w)) = length (rw_servers w)"
  unfolding rpc_run_def by (induction es arbitrary: w) simp_all

lemma rpc_inv_exec:
  assumes "rpc_inv es w h" "\<And>i. distinct (map fst (made i (es @ [e])))" "\<And>i. distinct (map snd (made i (es @ [e])))"
  shows "rpc_inv (es @ [e]) (rpc_exec e w) h"
proof (cases e)
  case (CallEvent i u d ctx)
  then show ?thesis
    using assms rpc_inv_Call[OF assms(1), of i u ctx d] rpc_inv_idle[OF assms(1), of e] by (cases "i < length (rw_clients w)") force+
next
  case (ToClient i k)
  then show ?thesis using rpc_inv_ToClient[OF assms(1), of i k] assms(2,3) by simp
qed (simp_all only: rpc_inv_ToServer rpc_inv_Submit rpc_inv_Handler rpc_inv_Clock assms)

lemma rpc_inv_run:
  assumes "rpc_inv [] w h" "\<And>i. distinct (map fst (made i es))" "\<And>i. distinct (map snd (made i es))"
  shows "rpc_inv es (rpc_run es w) h \<and> length (rw_clients (rpc_run es w)) = length (rw_clients w) \<and>
    (\<forall>i<length (rw_clients w). servers_of (rpc_run es w) i = servers_of w i)"
  using assms
proof (induction es rule: rev_induct)
  case (snoc e es)
  have "distinct (map fst (made i es))" "distinct (map snd (made i es))" for i using snoc.prems(2,3)[of i] by simp_all
  then have IH: "rpc_inv es (rpc_run es w) h" "length (rw_clients (rpc_run es w)) = length (rw_clients w)"
    "\<forall>i<length (rw_clients w). servers_of (rpc_run es w) i = servers_of w i" using snoc.IH snoc.prems(1) by blast+
  show ?case using rpc_inv_exec[OF IH(1) snoc.prems(2,3)] IH(2,3) exec_servers by (simp add: rpc_run_def)
qed (simp add: rpc_run_def)

section \<open>Refused calls\<close>

text \<open>The handler of server \<open>k\<close> after some events, when it was created with the handler \<open>h\<close>.\<close>

fun handler_of :: "nat \<Rightarrow> rpc_event \<Rightarrow> nat option \<Rightarrow> nat option" where
  "handler_of k (HandlerEvent k' g) h = (if k' = k then g else h)"
| "handler_of k _ h = h"

definition handler_after :: "nat option \<Rightarrow> nat \<Rightarrow> rpc_event list \<Rightarrow> nat option" where
  "handler_after h k es = fold (handler_of k) es h"

text \<open>The call \<open>u\<close> of client \<open>i\<close> reached server \<open>k\<close> while this server had no handler.\<close>

definition refused :: "rpc_world \<Rightarrow> nat option \<Rightarrow> rpc_event list \<Rightarrow> nat \<Rightarrow> nat \<Rightarrow> Uuid \<Rightarrow> bool" where
  "refused w\<^sub>0 h es i k u \<longleftrightarrow> (\<exists>es1 es2 m ms. es = es1 @ ToServer i k # es2 \<and> rw_toServer (rpc_run es1 w\<^sub>0) i k = m # ms \<and>
     fc_callUuid m = u \<and> handler_after h k es1 = None)"

lemma refused_mono: "refused w\<^sub>0 h es i k u \<Longrightarrow> refused w\<^sub>0 h (es @ es') i k u"
  unfolding refused_def by (metis append.assoc append_Cons)

lemma refusedI:
  assumes "rw_toServer (rpc_run es w\<^sub>0) i k = m # ms" "handler_after h k es = None"
  shows "refused w\<^sub>0 h (es @ [ToServer i k]) i k (fc_callUuid m)"
  unfolding refused_def using assms by (intro exI[of _ es] exI[of _ "[]"] exI[of _ m] exI[of _ ms]) simp

text \<open>What an event does to the internal server of one client.\<close>

definition lane_step :: "rpc_event \<Rightarrow> rpc_world \<Rightarrow> nat \<Rightarrow> nat \<Rightarrow> RpcServerInternal \<Rightarrow> RpcServerInternal \<Rightarrow> bool" where
  "lane_step e w i k s s' \<longleftrightarrow> si_handler s' = handler_of k e (si_handler s) \<and>
     (\<forall>r\<in>set (si_sent s'). r \<in> set (si_sent s) \<or> fr_status r = Response_Success \<or>
        (\<exists>m ms. e = ToServer i k \<and> rw_toServer w i k = m # ms \<and> fr_callUuid r = fc_callUuid m \<and>
           (si_handler s = None \<or> fc_callUuid m \<in> set (si_activeCalls s))))"

lemma lane_step_same: "handler_of k e (si_handler s) = si_handler s \<Longrightarrow> lane_step e w i k s s"
  by (simp add: lane_step_def)

lemma lane_exec:
  assumes i: "i < length (rw_clients w)" and d: "distinct (map cl_clientUUID (rw_clients w))" and s: "lane w i k = Some s"
    and k: "k < length (rw_servers w)"
  shows "\<exists>s'. lane (rpc_exec e w) i k = Some s' \<and> lane_step e w i k s s'"
proof (cases e)
  case (CallEvent j u d ctx)
  have "lane (put_client j (rpc_Call u d ctx (rw_clients w ! j)) w) i k = lane w i k" if "j < length (rw_clients w)"
    using that i by (intro lane_clients) (simp_all add: map_uuid_upd put_client_def)
  then show ?thesis using s by (simp add: CallEvent lane_step_same)
next
  case (ToServer j k')
  show ?thesis
  proof (cases "j < length (rw_clients w) \<and> k' < length (rw_servers w) \<and> rw_toServer w j k' \<noteq> []")
    case True
    then obtain m ms where m: "rw_toServer w j k' = m # ms" by (cases "rw_toServer w j k'") auto
    let ?f = "\<lambda>s. if si_clientUUID s = cl_clientUUID (rw_clients w ! j) then server_ReceiveMessage m s else s"
    have uuid: "si_clientUUID s = cl_clientUUID (rw_clients w ! i)" using s by (auto simp: lane_def lane_in_def find_Some_iff)
    have same: "i = j" if "cl_clientUUID (rw_clients w ! i) = cl_clientUUID (rw_clients w ! j)"
      using d i True that by (auto simp: distinct_conv_nth)
    have lw: "lane (w\<lparr>rw_toServer := q\<rparr>) i l = lane w i l" for q l by (simp add: lane_def)
    have "lane (rpc_exec e w) i k = (if k = k' then map_option ?f (lane w i k') else lane w i k)"
      unfolding ToServer using True m by (simp add: lw lane_put_server[where f = ?f] map_internals_def)
    moreover have "lane_step e w i k s (?f s)" if "k = k'"
      using same uuid m that
      by (auto simp: lane_step_def ToServer server_ReceiveMessage_def respond_def split: option.splits)
    moreover have "lane_step e w i k s s" by (simp add: lane_step_same ToServer)
    ultimately show ?thesis using s by (cases "k = k'") simp_all
  next
    case False
    then have "rpc_exec e w = w" unfolding ToServer by (auto split: list.splits)
    then show ?thesis using s by (simp add: lane_step_same ToServer)
  qed
next
  case (ToClient j k')
  have "lane (w\<lparr>rw_clients := (rw_clients w)[j := client_ReceiveMessage r (rw_clients w ! j)], rw_toClient := q, rw_received := x\<rparr>) i k =
      lane w i k" for r q x using i by (cases "j < length (rw_clients w)") (intro lane_clients; simp add: map_uuid_upd list_update_beyond)+
  then show ?thesis using s by (simp add: ToClient lane_step_same split: list.split)
next
  case (SubmitEvent k' u d)
  have "lane_step e w i k s (snd (internal_SubmitResult u d s))"
    by (auto simp: SubmitEvent lane_step_def internal_SubmitResult_def respond_def)
  then show ?thesis using s lane_put_server[OF _ submitted_internals, of k' w u d i k]
    by (cases "k = k'") (simp_all add: SubmitEvent lane_step_same)
next
  case (HandlerEvent k' g)
  have "lane_step e w i k s (SetRpcHandler g s)" if "k = k'"
    using that by (simp add: HandlerEvent lane_step_def SetRpcHandler_def)
  then show ?thesis using s lane_put_server[of k' w "SetCallHandler g (rw_servers w ! k')" "SetRpcHandler g" i k] k
    by (cases "k = k'") (simp_all add: HandlerEvent lane_step_same SetCallHandler_def SetRpcHandler_def)
next
  case (ClockEvent j k' t)
  let ?w = "if k' < length (rw_servers w)
    then put_server k' ((map_internals (\<lambda>s. s\<lparr>si_now := t\<rparr>) (rw_servers w ! k'))\<lparr>sv_now := t\<rparr>) w else w"
  have "lane ?w i k = (if k = k' then map_option (\<lambda>s. s\<lparr>si_now := t\<rparr>) (lane w i k) else lane w i k)"
    using k lane_put_server[of k' w _ "\<lambda>s. s\<lparr>si_now := t\<rparr>"] by (simp add: map_internals_def)
  moreover have "lane (put_client j ((rw_clients ?w ! j)\<lparr>cl_now := t\<rparr>) ?w) i k = lane ?w i k" if "j < length (rw_clients ?w)"
    using that i by (intro lane_clients) (simp_all add: map_uuid_upd put_client_def)
  moreover have "rpc_exec e w = (if j < length (rw_clients ?w) then put_client j ((rw_clients ?w ! j)\<lparr>cl_now := t\<rparr>) ?w else ?w)"
    unfolding ClockEvent rpc_exec.simps Let_def ..
  ultimately have "lane (rpc_exec e w) i k = (if k = k' then map_option (\<lambda>s. s\<lparr>si_now := t\<rparr>) (lane w i k) else lane w i k)"
    by presburger
  then have "lane (rpc_exec e w) i k = Some (if k = k' then s\<lparr>si_now := t\<rparr> else s)"
    using s by (cases "k = k'") simp_all
  then show ?thesis by (simp add: lane_step_def ClockEvent)
qed

lemma waiting_not_active:
  assumes "rpc_inv es w h" "i < length (rw_clients w)" "k < length (rw_servers w)" "distinct (map fst (made i es))"
    "lane w i k = Some s" "rw_toServer w i k = m # ms"
  shows "fc_callUuid m \<notin> set (si_activeCalls s)"
proof
  assume "fc_callUuid m \<in> set (si_activeCalls s)"
  then have "count (mset (si_activeCalls s)) (fc_callUuid m) > 0" by simp
  moreover have "mset (map fc_callUuid (rw_toServer w i k)) + mset (si_activeCalls s) + mset (map fr_callUuid (si_sent s)) = mset (map fst (made i es))"
    using rpc_invD(2)[OF assms(1,2,3)] assms(5) by (simp add: lane_inv_def)
  then have "mset (map fst (made i es)) = {#fc_callUuid m#} + mset (si_activeCalls s) +
      (mset (map fc_callUuid ms) + mset (map fr_callUuid (si_sent s)))"
    unfolding assms(6) by (simp add: ac_simps)
  then have "count (mset (map fst (made i es))) (fc_callUuid m) \<ge> 1 + count (mset (si_activeCalls s)) (fc_callUuid m)"
    by (simp only: count_union count_single) simp
  moreover have "count (mset (map fst (made i es))) (fc_callUuid m) \<le> 1"
    using assms(4) by (metis distinct_count_atmost_1 le_numeral_extra(4) zero_le_one)
  ultimately show False by linarith
qed

text \<open>A server refuses a call only when it had no handler as the call reached it.\<close>

lemma refusals:
  assumes "rpc_inv [] w h" "\<And>i. distinct (map fst (made i es))" "\<And>i. distinct (map snd (made i es))"
    "i < length (rw_clients w)" "k < length (rw_servers w)" "lane w i k = Some s" "si_sent s = []"
  shows "\<exists>s'. lane (rpc_run es w) i k = Some s' \<and> si_handler s' = handler_after (si_handler s) k es \<and>
    (\<forall>r\<in>set (si_sent s'). fr_status r = Response_Success \<or> refused w (si_handler s) es i k (fr_callUuid r))"
  using assms(2,3)
proof (induction es rule: rev_induct)
  case Nil
  then show ?case using assms(6,7) by (simp add: rpc_run_def handler_after_def)
next
  case (snoc e es)
  let ?w = "rpc_run es w"
  have dis: "distinct (map fst (made i es))" "distinct (map snd (made i es))" for i using snoc.prems(1,2)[of i] by simp_all
  obtain s1 where s1: "lane ?w i k = Some s1" "si_handler s1 = handler_after (si_handler s) k es"
    "\<forall>r\<in>set (si_sent s1). fr_status r = Response_Success \<or> refused w (si_handler s) es i k (fr_callUuid r)"
    using snoc.IH[OF dis] by (elim exE conjE)
  note run = rpc_inv_run[OF assms(1) dis]
  have inv: "rpc_inv es ?w h" and i: "i < length (rw_clients ?w)" using run assms(4) by simp_all
  have k: "k < length (rw_servers ?w)" using assms(5) by (simp add: run_servers)
  have "distinct (map cl_clientUUID (rw_clients ?w))" using inv by (simp add: rpc_inv_def)
  from lane_exec[OF i this s1(1) k, of e] obtain s2 where s2: "lane (rpc_exec e ?w) i k = Some s2" "lane_step e ?w i k s1 s2"
    by (elim exE conjE)
  have "fr_status r = Response_Success \<or> refused w (si_handler s) (es @ [e]) i k (fr_callUuid r)" if r: "r \<in> set (si_sent s2)" for r
  proof -
    consider "r \<in> set (si_sent s1)" | "fr_status r = Response_Success"
      | m ms where "e = ToServer i k" "rw_toServer ?w i k = m # ms" "fr_callUuid r = fc_callUuid m"
          "si_handler s1 = None \<or> fc_callUuid m \<in> set (si_activeCalls s1)"
      using bspec[OF conjunct2[OF s2(2)[unfolded lane_step_def]] r] by blast
    then show ?thesis
    proof cases
      case 1
      then show ?thesis using s1(3) refused_mono by blast
    next
      case 3
      then have "handler_after (si_handler s) k es = None" using waiting_not_active[OF inv i k dis(1) s1(1) 3(2)] s1(2) by simp
      then show ?thesis using refusedI[OF 3(2)] 3(1,3) by simp
    qed simp
  qed
  moreover have "lane (rpc_run (es @ [e]) w) i k = Some s2" using s2(1) by (simp add: rpc_run_def)
  moreover have "si_handler s2 = handler_after (si_handler s) k (es @ [e])" using s2(2) s1(2) by (simp add: lane_step_def handler_after_def)
  ultimately show ?case by (intro exI[of _ s2] conjI ballI)
qed

section \<open>Every call returns once from every server\<close>

text \<open>No message is on its way and every call that was accepted has been answered.\<close>

definition rpc_quiet :: "rpc_world \<Rightarrow> bool" where
  "rpc_quiet w \<longleftrightarrow> list_all (\<lambda>k. list_all (\<lambda>s. si_activeCalls s = []) (sv_internalRpcServers (rw_servers w ! k)) \<and>
     list_all (\<lambda>i. rw_toServer w i k = [] \<and> rw_toClient w i k = []) [0..<length (rw_clients w)]) [0..<length (rw_servers w)]"

lemma quiet_got:
  assumes inv: "rpc_inv es w h" and i: "i < length (rw_clients w)" and q: "rpc_quiet w" and u: "u \<in> fst ` set (made i es)"
  shows "servers_of w i \<subseteq> set (map fst (got u w i))"
proof
  fix k assume "k \<in> servers_of w i"
  then obtain s where k: "k < length (rw_servers w)" "lane w i k = Some s" by (auto simp: servers_of_def)
  note li = rpc_invD(2)[OF inv i k(1)]
  have "s \<in> set (sv_internalRpcServers (rw_servers w ! k))"
    using k(2) by (auto simp: lane_def lane_in_def find_Some_iff)
  then have empty: "si_activeCalls s = []" "rw_toServer w i k = []" "rw_toClient w i k = []"
    using q i k(1) by (auto simp: rpc_quiet_def list_all_iff)
  have sent: "si_sent s = map snd (filter (\<lambda>x. fst x = k) (rw_received w i))" using li k(2) empty by (simp add: lane_inv_def sent_in_def)
  have "mset (map fr_callUuid (si_sent s)) = mset (map fst (made i es))" using li k(2) empty by (simp add: lane_inv_def)
  then have "set (map fr_callUuid (si_sent s)) = set (map fst (made i es))" by (rule mset_eq_setD)
  then have "u \<in> fr_callUuid ` set (si_sent s)" using u by simp
  then obtain r where "r \<in> set (si_sent s)" "fr_callUuid r = u" by blast
  then show "k \<in> set (map fst (got u w i))" unfolding sent by (force simp: got_def)
qed

text \<open>Clients and servers as they are created, for clients with identifiers and handlers of their own.\<close>

definition fresh_clients :: "RpcClient list \<Rightarrow> bool" where
  "fresh_clients clients \<longleftrightarrow> distinct (map cl_clientUUID clients) \<and>
     list_all (\<lambda>c. c = RpcClient_new (cl_dataSpec c) (cl_clientUUID c) (cl_handler c) \<and> cl_handler c \<noteq> None) clients"

definition fresh_servers :: "RpcServer list \<Rightarrow> bool" where
  "fresh_servers servers \<longleftrightarrow> length servers < 2 ^ 31 \<and> list_all (\<lambda>sv. sv = RpcServer_new (sv_dataSpec sv) (sv_handler sv)) servers"

text \<open>
  An answer of server \<open>k\<close> to the call \<open>u\<close> of client \<open>i\<close>: the data that the application submitted for this call, or an error
  because the server had no handler when the call reached it. The server was created with the handler \<open>h\<close>.
\<close>

definition answer_to :: "rpc_world \<Rightarrow> nat option \<Rightarrow> rpc_event list \<Rightarrow> nat \<Rightarrow> nat \<Rightarrow> Uuid \<Rightarrow> FunctionCallResponse \<Rightarrow> bool" where
  "answer_to w\<^sub>0 h es i k u r \<longleftrightarrow> fr_callUuid r = u \<and>
     (fr_status r = Response_Success \<and> SubmitEvent k u (fr_data r) \<in> set es \<or>
      fr_status r = Response_InternalError \<and> fr_data r = [] \<and> refused w\<^sub>0 h es i k u)"

text \<open>The servers that discovery has told of client \<open>i\<close> and whose specification matches.\<close>

definition matching_servers :: "nat list list \<Rightarrow> RpcClient list \<Rightarrow> RpcServer list \<Rightarrow> nat \<Rightarrow> nat set" where
  "matching_servers discovered clients servers i =
     {k. k < length servers \<and> i \<in> set (discovered ! k) \<and> rpc_matches (clients ! i) (servers ! k)}"

lemma count_matching:
  assumes "length discovered = length servers"
  shows "length (filter (found_by clients i) (zip servers discovered)) = card (matching_servers discovered clients servers i)"
  using assms by (auto simp: length_filter_conv_card matching_servers_def found_by_def intro!: arg_cong[where f = card])

lemma find_internal:
  assumes "distinct (map cl_clientUUID clients)" "i < length clients" "set cs \<subseteq> set clients"
  shows "find (\<lambda>s. si_clientUUID s = cl_clientUUID (clients ! i)) (map (internal_for sv) cs) =
    (if clients ! i \<in> set cs then Some (internal_for sv (clients ! i)) else None)"
  using assms(3)
proof (induction cs)
  case (Cons c cs)
  have "c = clients ! i" if "cl_clientUUID c = cl_clientUUID (clients ! i)"
    using Cons.prems assms(1,2) that by (auto simp: distinct_map inj_on_def)
  then show ?case using Cons by auto
qed simp

lemma told_member:
  assumes "distinct (map cl_clientUUID clients)" "i < length clients" "\<forall>j\<in>set cls_told. j < length clients"
  shows "clients ! i \<in> set (told_clients clients cls_told) \<longleftrightarrow> i \<in> set cls_told"
proof -
  have "distinct clients" using assms(1) by (simp add: distinct_map)
  then have "clients ! j = clients ! i \<longleftrightarrow> j = i" if "j < length clients" for j
    using that assms(2) by (simp add: nth_eq_iff_index_eq)
  then show ?thesis using assms(3) by (force simp: told_clients_def)
qed

lemma rpc_connected:
  assumes "\<forall>c\<in>set clients. Deserialize (Serialize (rs_labels (cl_dataSpec c))) = rs_labels (cl_dataSpec c)"
    "fresh_clients clients" "fresh_servers servers" "valid_discovery discovered clients servers"
    "rpc_connect Serialize Deserialize base discovered clients servers = Inr w"
  shows "rpc_inv [] w (\<lambda>i. the (cl_handler (clients ! i)))" "length (rw_clients w) = length clients"
    "length (rw_servers w) = length servers"
    "\<And>i k. i < length clients \<Longrightarrow> k < length servers \<Longrightarrow>
       lane w i k = (if k \<in> matching_servers discovered clients servers i then Some (internal_for (servers ! k) (clients ! i)) else None)"
    "\<And>i. i < length clients \<Longrightarrow> servers_of w i = matching_servers discovered clients servers i"
proof -
  have new: "c = RpcClient_new (cl_dataSpec c) (cl_clientUUID c) (cl_handler c)" "cl_handler c \<noteq> None" if "c \<in> set clients" for c
    using assms(2) that by (simp_all add: fresh_clients_def list_all_iff)
  have newc: "cl_numCounterparts c = 0" "cl_activeCalls c = Map.empty" "cl_calls c = []" if "c \<in> set clients" for c
    by (subst new(1)[OF that], simp add: RpcClient_new_def)+
  have news: "sv_internalRpcServers sv = []" if "sv \<in> set servers" for sv
  proof -
    have "sv = RpcServer_new (sv_dataSpec sv) (sv_handler sv)" using assms(3) that by (simp add: fresh_servers_def list_all_iff)
    then show ?thesis by (metis RpcServer.select_convs(4) RpcServer_new_def)
  qed
  have uu: "distinct (map cl_clientUUID clients)" using assms(2) by (simp add: fresh_clients_def)
  have dk: "\<forall>j\<in>set (discovered ! k). j < length clients" if "k < length servers" for k
  proof -
    have "discovered ! k \<in> set discovered" using assms(4) that by (simp add: valid_discovery_def)
    then show ?thesis using assms(4) by (simp add: valid_discovery_def list_all_iff)
  qed
  let ?n = "\<lambda>i. length (filter (found_by clients i) (zip servers discovered))"
  have w: "w = \<lparr>rw_clients = map (\<lambda>i. (clients ! i)\<lparr>cl_numCounterparts := of_nat (?n i)\<rparr>) [0..<length clients],
     rw_servers = map (\<lambda>(sv, cls_told). sv\<lparr>sv_internalRpcServers :=
       map (internal_for sv) (filter (\<lambda>c. rpc_matches c sv) (told_clients clients cls_told))\<rparr>) (zip servers discovered),
     rw_toServer = \<lambda>_ _. [], rw_toClient = \<lambda>_ _. [], rw_received = \<lambda>_. []\<rparr>"
    using rpc_connect_Inr[OF assms(1) uu newc(1) news assms(4)] assms(5) by simp
  have ld': "length discovered = length servers" using assms(4) by (simp add: valid_discovery_def)
  show len: "length (rw_clients w) = length clients" by (simp add: w)
  show lens: "length (rw_servers w) = length servers" by (simp add: w ld')
  show lane: "lane w i k = (if k \<in> matching_servers discovered clients servers i then Some (internal_for (servers ! k) (clients ! i)) else None)"
    if "i < length clients" "k < length servers" for i k
  proof -
    let ?cs = "filter (\<lambda>c. rpc_matches c (servers ! k)) (told_clients clients (discovered ! k))"
    have "set ?cs \<subseteq> set clients" using dk[OF that(2)] by (auto simp: told_clients_def)
    from find_internal[OF uu that(1) this, of "servers ! k"] have
      "lane w i k = (if clients ! i \<in> set ?cs then Some (internal_for (servers ! k) (clients ! i)) else None)"
      using that by (simp add: lane_def lane_in_def w ld')
    also have "clients ! i \<in> set ?cs \<longleftrightarrow> k \<in> matching_servers discovered clients servers i"
      using told_member[OF uu that(1) dk[OF that(2)]] that(2) by (auto simp: matching_servers_def)
    finally show ?thesis .
  qed
  show serv: "servers_of w i = matching_servers discovered clients servers i" if "i < length clients" for i
    using that lane lens by (auto simp: servers_of_def matching_servers_def split: if_splits)
  have "client_inv [] w (the (cl_handler (clients ! i))) i" if i: "i < length clients" for i
  proof -
    have c: "clients ! i \<in> set clients" using i by simp
    have n: "?n i = card (servers_of w i)" unfolding serv[OF i] by (rule count_matching[OF ld'])
    moreover have "?n i \<le> length (zip servers discovered)" by (rule length_filter_le)
    then have "?n i < 2 ^ 31" using assms(3) by (simp add: fresh_servers_def)
    ultimately have "card (servers_of w i) < 2 ^ 31" "unat (of_nat (card (servers_of w i)) :: u32) = card (servers_of w i)"
      by (simp_all add: unat_of_nat)
    then show ?thesis using i newc[OF c] new(2)[OF c] n[symmetric] unfolding client_inv_def Let_def
      by (simp add: w results_def)
  qed
  moreover have "lane_inv [] w i k" if "i < length clients" "k < length servers" for i k
    using lane[OF that] by (simp add: lane_inv_def sent_in_def) (simp add: w)
  moreover have "map cl_clientUUID (rw_clients w) = map cl_clientUUID clients"
    by (rule nth_equalityI) (simp_all add: w)
  ultimately show "rpc_inv [] w (\<lambda>i. the (cl_handler (clients ! i)))" using uu lens by (simp add: rpc_inv_def len)
qed


text \<open>Two servers, one of them without a handler, and a call that both answer.\<close>

definition sample_rpc_spec :: RpcSpec where
  "sample_rpc_spec = \<lparr>rs_functionName = ''add'', rs_mediaType = '''', rs_labels = []\<rparr>"

definition sample_rpc_base :: ServiceDescriptor where
  "sample_rpc_base = \<lparr>sd_participantName = ''P'', sd_participantId = 1, sd_serviceType = 2, sd_networkName = ''N'', sd_networkType = 7, sd_serviceName = ''S'',
     sd_serviceId = 1, sd_supplementalData = []\<rparr>"

definition sample_rpc_clients :: "RpcClient list" where
  "sample_rpc_clients = [RpcClient_new sample_rpc_spec ''c'' (Some 4)]"

definition sample_rpc_servers :: "RpcServer list" where
  "sample_rpc_servers = [RpcServer_new sample_rpc_spec (Some 1), RpcServer_new sample_rpc_spec None]"

definition sample_rpc_world :: rpc_world where
  "sample_rpc_world = (case rpc_connect (\<lambda>_. '''') (\<lambda>_. []) sample_rpc_base [[0], [0]] sample_rpc_clients sample_rpc_servers of Inr w \<Rightarrow> w)"

definition sample_call :: Uuid where
  "sample_call = \<lparr>uuid_ab = 1, uuid_cd = 2\<rparr>"

definition sample_rpc_events :: "rpc_event list" where
  "sample_rpc_events = [CallEvent 0 sample_call [5] 9, ToServer 0 1, ToServer 0 0, SubmitEvent 0 sample_call [6], ToClient 0 0, ToClient 0 1]"


theorem time_step_reports_until_answered_witness:
  "\<exists>c'. TimeHandler 3 10 (CallWithTimeout sample_call [5] 8 9 (RpcClient_new sample_rpc_spec ''c'' (Some 4)\<lparr>cl_numCounterparts := 1\<rparr>)) = Inr c' \<and>
     cl_calls c' = [(4, timeout_event 3 9)]"
  using time_step_reports_until_answered[where c = "CallWithTimeout sample_call [5] 8 9 (RpcClient_new sample_rpc_spec ''c'' (Some 4)\<lparr>cl_numCounterparts := 1\<rparr>)"
    and h = 4 and duration = 10 and now = 3]
  by (auto simp: CallWithTimeout_def TriggerCall_def RpcClient_new_def context_of_def)

theorem answered_call_times_out_witness:
  "\<exists>c'. TimeHandler 3 10 (client_ReceiveMessage \<lparr>fr_timestamp = 1, fr_callUuid = sample_call, fr_data = [], fr_status = 0\<rparr>
     (CallWithTimeout sample_call [5] 8 9 (RpcClient_new sample_rpc_spec ''c'' (Some 4)\<lparr>cl_numCounterparts := 1\<rparr>))) =
     Inl (EndDereferenced sample_call, c')"
  by (rule answered_call_times_out) (simp_all add: RpcClient_new_def)

end
