(* ===== verification/Uri_Parsing.thy ===== *)
theory Uri_Parsing
  imports Prelude "HOL-Library.Sublist"
begin

text \<open>
  The addresses of participants and of the registry (util/Uri.cpp): parsing, the constructors that print an address and
  parse it again, and the rules for simulation names. Positions of \<^verbatim>\<open>find\<close> and \<^verbatim>\<open>rfind\<close> are options.
\<close>

section \<open>Strings\<close>

fun find_str :: "string \<Rightarrow> string \<Rightarrow> nat option" where
  "find_str pat [] = (if pat = [] then Some 0 else None)"
| "find_str pat (c # s) = (if prefix pat (c # s) then Some 0 else map_option Suc (find_str pat s))"

fun rfind_char :: "char \<Rightarrow> string \<Rightarrow> nat option" where
  "rfind_char c [] = None"
| "rfind_char c (x # s) = (case rfind_char c s of Some i \<Rightarrow> Some (Suc i) | None \<Rightarrow> if x = c then Some 0 else None)"

definition is_digit :: "char \<Rightarrow> bool" where
  "is_digit c \<longleftrightarrow> of_char c \<ge> (48 :: nat) \<and> of_char c \<le> (57 :: nat)"

definition is_letter :: "char \<Rightarrow> bool" where
  "is_letter c \<longleftrightarrow> (of_char c \<ge> (97 :: nat) \<and> of_char c \<le> (122 :: nat)) \<or> (of_char c \<ge> (65 :: nat) \<and> of_char c \<le> (90 :: nat))"

definition is_space :: "char \<Rightarrow> bool" where
  "is_space c \<longleftrightarrow> of_char c \<in> {9 :: nat, 10, 11, 12, 13, 32}"

definition digits_value :: "string \<Rightarrow> nat" where
  "digits_value s = foldl (\<lambda>n c. 10 * n + (of_char c - 48)) 0 s"

text \<open>
  Reading a 16-bit number from a stream: leading white space is skipped, a sign is accepted and, when negative, negates the
  result in the unsigned type, the longest sequence of digits is read, what follows is ignored. No digits and too large a
  number set the fail bit.
\<close>

definition read_u16 :: "string \<Rightarrow> u16 option" where
  "read_u16 s =
     (let t = dropWhile is_space s;
          signed = (t \<noteq> [] \<and> hd t \<in> {CHR ''+'', CHR ''-''});
          ds = takeWhile is_digit (if signed then tl t else t)
      in if ds = [] \<or> digits_value ds \<ge> 2 ^ 16 then None
         else Some (if signed \<and> hd t = CHR ''-'' then - of_nat (digits_value ds) else of_nat (digits_value ds)))"

section \<open>Addresses\<close>

datatype UriType = UndefinedUri | SilKitUri | TcpUri | LocalUri

datatype uri_error =
    ConsecutiveSlashes
  | InvalidSimulationName
  | NoSchemeSeparator string
  | PortNotParsed string
  | EmptyHost

record Uri =
  uri_type :: UriType
  uri_scheme :: string
  uri_host :: string
  uri_port :: "u16 option"
  uri_path :: string
  uri_uriString :: string

definition Uri_Port :: "Uri \<Rightarrow> u16" where
  "Uri_Port uri = (case uri_port uri of Some p \<Rightarrow> p | None \<Rightarrow> if uri_type uri = LocalUri then 0 else 8500)"

definition name_char :: "char \<Rightarrow> bool" where
  "name_char ch \<longleftrightarrow> is_letter ch \<or> is_digit ch \<or> ch \<in> {CHR ''_'', CHR ''-'', CHR ''.'', CHR ''~''}"

text \<open>The loop over the name; \<open>first\<close> holds at position 0.\<close>

fun transform_name :: "bool \<Rightarrow> string \<Rightarrow> uri_error + string" where
  "transform_name first [] = Inr []"
| "transform_name first (ch # s) =
     (if ch = CHR ''/''
      then if s \<noteq> [] \<and> hd s = CHR ''/'' then Inl ConsecutiveSlashes
           else bindE (transform_name False s) (\<lambda>r. Inr (if first then r else ch # r))
      else if \<not> name_char ch then Inl InvalidSimulationName
      else bindE (transform_name False s) (\<lambda>r. Inr (ch # r)))"

definition ValidateAndTransformSimulationName :: "string \<Rightarrow> uri_error + string" where
  "ValidateAndTransformSimulationName simulationName = transform_name True simulationName"

definition uri_type_of :: "string \<Rightarrow> UriType" where
  "uri_type_of scheme = (if scheme = ''tcp'' then TcpUri else if scheme = ''silkit'' then SilKitUri
     else if scheme = ''local'' then LocalUri else UndefinedUri)"

text \<open>The part of \<^verbatim>\<open>Uri::Parse\<close> after the path was cut off.\<close>

definition parse_host :: "string \<Rightarrow> Uri \<Rightarrow> uri_error + Uri" where
  "parse_host rawUri uri =
     (case rfind_char CHR '':'' rawUri of
        None \<Rightarrow> if rawUri = [] then Inl EmptyHost else Inr (uri\<lparr>uri_host := rawUri\<rparr>)
      | Some idx \<Rightarrow>
          (case read_u16 (drop (idx + 1) rawUri) of
             None \<Rightarrow> Inl (PortNotParsed (drop (idx + 1) rawUri))
           | Some port \<Rightarrow>
               if take idx rawUri = [] then Inl EmptyHost
               else Inr (uri\<lparr>uri_host := take idx rawUri, uri_port := Some port\<rparr>)))"

definition Uri_Parse :: "string \<Rightarrow> uri_error + Uri" where
  "Uri_Parse uriString =
     (case find_str ''://'' uriString of
        None \<Rightarrow> Inl (NoSchemeSeparator uriString)
      | Some idx \<Rightarrow>
          let scheme = take idx uriString; rawUri = drop (idx + 3) uriString;
              uri = \<lparr>uri_type = uri_type_of scheme, uri_scheme = scheme, uri_host = [], uri_port = None, uri_path = [],
                     uri_uriString = uriString\<rparr>
          in if uri_type uri = LocalUri then Inr (uri\<lparr>uri_path := rawUri\<rparr>)
             else (case find_str ''/'' rawUri of
                     None \<Rightarrow> parse_host rawUri uri
                   | Some idx \<Rightarrow> bindE (ValidateAndTransformSimulationName (drop idx rawUri)) (\<lambda>path.
                       parse_host (take idx rawUri) (uri\<lparr>uri_path := path\<rparr>))))"

definition Uri_of_host_port :: "string \<Rightarrow> u16 \<Rightarrow> uri_error + Uri" where
  "Uri_of_host_port host port = Uri_Parse (''silkit://'' @ host @ '':'' @ nat_to_string (unat port))"

definition MakeSilKit :: "string \<Rightarrow> u16 \<Rightarrow> string \<Rightarrow> uri_error + Uri" where
  "MakeSilKit host port simulationName = bindE (ValidateAndTransformSimulationName simulationName) (\<lambda>name.
     Uri_Parse (''silkit://'' @ host @ '':'' @ nat_to_string (unat port) @ ''/'' @ name))"

definition MakeTcp :: "string \<Rightarrow> u16 \<Rightarrow> uri_error + Uri" where
  "MakeTcp host port = Uri_Parse (''tcp://'' @ host @ '':'' @ nat_to_string (unat port))"

definition hex_digit :: "nat \<Rightarrow> char" where
  "hex_digit n = (if n < 10 then char_of (48 + n) else char_of (87 + n))"

definition UrlEncode :: "string \<Rightarrow> string" where
  "UrlEncode name = concat (map (\<lambda>ch. if is_letter ch \<or> is_digit ch then [ch]
     else [CHR ''%'', hex_digit (of_char ch div 16), hex_digit (of_char ch mod 16)]) name)"

section \<open>Printed numbers\<close>

lemma digit_char: "n < 10 \<Longrightarrow> is_digit (char_of (48 + n))" "n < 10 \<Longrightarrow> of_char (char_of (48 + n)) = (48 + n :: nat)"
  by (simp_all add: is_digit_def)

lemma nat_to_string_digits: "list_all is_digit (nat_to_string n) \<and> nat_to_string n \<noteq> []"
proof (induction n rule: nat_to_string.induct)
  case (1 n)
  then show ?case by (subst (1 2) nat_to_string.simps) (auto simp: digit_char)
qed

lemma digits_value_snoc: "digits_value (s @ [c]) = 10 * digits_value s + (of_char c - 48)"
  by (simp add: digits_value_def)

lemma digits_value_print [simp]: "digits_value (nat_to_string n) = n"
proof (induction n rule: nat_to_string.induct)
  case (1 n)
  show ?case
  proof (cases "n < 10")
    case True
    then show ?thesis by (subst nat_to_string.simps) (simp add: digits_value_def digit_char)
  next
    case False
    have "digits_value (nat_to_string n) = 10 * digits_value (nat_to_string (n div 10)) + n mod 10"
      using False by (subst nat_to_string.simps) (simp add: digits_value_snoc digit_char)
    then show ?thesis using 1 False by simp
  qed
qed

lemma read_u16_print [simp]: "read_u16 (nat_to_string (unat p)) = Some p"
proof -
  have d: "list_all is_digit (nat_to_string (unat p))" "nat_to_string (unat p) \<noteq> []" using nat_to_string_digits by auto
  then have "is_digit (hd (nat_to_string (unat p)))" by (simp add: list_all_iff)
  then have h: "\<not> is_space (hd (nat_to_string (unat p)))" "hd (nat_to_string (unat p)) \<notin> {CHR ''+'', CHR ''-''}"
    by (auto simp: is_space_def is_digit_def)
  from h(1) have "dropWhile is_space (nat_to_string (unat p)) = nat_to_string (unat p)"
    using d(2) by (cases "nat_to_string (unat p)") auto
  moreover have "takeWhile is_digit (nat_to_string (unat p)) = nat_to_string (unat p)"
    using d(1) by (simp add: takeWhile_eq_all_conv list_all_iff)
  moreover have "unat p < 2 ^ 16" using unsigned_less[of p] by simp
  ultimately show ?thesis using d(2) h(2) by (simp only: read_u16_def Let_def simp_thms if_False digits_value_print) simp
qed

section \<open>Round trips\<close>

lemma find_str_char_None: "find_str [c] s = None \<longleftrightarrow> c \<notin> set s"
  by (induction s) auto

lemma find_str_char_Some: "c \<notin> set s \<Longrightarrow> find_str [c] (s @ c # t) = Some (length s)"
  by (induction s) auto

lemma rfind_char_last: "c \<notin> set t \<Longrightarrow> rfind_char c (s @ c # t) = Some (length s)"
proof (induction s)
  case Nil
  have "rfind_char c t = None" if "c \<notin> set t" for t using that by (induction t) auto
  then show ?case using Nil by simp
qed simp

lemma port_chars: "CHR ''/'' \<notin> set (nat_to_string n)" "CHR '':'' \<notin> set (nat_to_string n)"
  using nat_to_string_digits[of n] by (auto simp: list_all_iff is_digit_def)

lemma parse_host_print:
  assumes "host \<noteq> []"
  shows "parse_host (host @ '':'' @ nat_to_string (unat port)) uri = Inr (uri\<lparr>uri_host := host, uri_port := Some port\<rparr>)"
  using assms rfind_char_last[OF port_chars(2), of host "unat port"] by (simp add: parse_host_def)

lemma transform_name_rest: "transform_name False s = Inr r \<Longrightarrow> r = s"
  by (induction s arbitrary: r) (auto split: if_splits)

lemma transform_name_again:
  assumes "transform_name True s = Inr r"
  shows "transform_name True (CHR ''/'' # r) = Inr r"
proof (cases s)
  case (Cons c t)
  show ?thesis
  proof (cases "c = CHR ''/''")
    case True
    then have r: "transform_name False t = Inr r" "t = [] \<or> hd t \<noteq> CHR ''/''" using assms Cons by (auto split: if_splits)
    then show ?thesis using transform_name_rest[OF r(1)] by auto
  next
    case False
    then obtain r' where r: "transform_name False t = Inr r'" "r = c # r'" "name_char c"
      using assms Cons by (auto split: if_splits)
    then show ?thesis using False transform_name_rest[OF r(1)] by simp
  qed
qed (use assms in simp)

text \<open>
  C14. An address that the library prints is read back: host, port and simulation name are those it was made from, for every
  host without a slash, and parsing the printed address again gives the same address. Simulation names
  are kept up to a leading slash.
\<close>

theorem uri_roundtrip:
  assumes "host \<noteq> []" "CHR ''/'' \<notin> set host" "ValidateAndTransformSimulationName simulationName = Inr name"
  shows "\<exists>tcp silkit. MakeTcp host port = Inr tcp \<and> MakeSilKit host port simulationName = Inr silkit \<and>
    uri_type tcp = TcpUri \<and> uri_host tcp = host \<and> Uri_Port tcp = port \<and> uri_path tcp = [] \<and>
    uri_type silkit = SilKitUri \<and> uri_host silkit = host \<and> Uri_Port silkit = port \<and> uri_path silkit = name \<and>
    Uri_Parse (uri_uriString tcp) = Inr tcp \<and> Uri_Parse (uri_uriString silkit) = Inr silkit"
proof -
  let ?hp = "host @ '':'' @ nat_to_string (unat port)"
  have no: "CHR ''/'' \<notin> set ?hp" using assms(2) port_chars(1) by simp
  have path: "ValidateAndTransformSimulationName (''/'' @ name) = Inr name"
    using assms(3) transform_name_again unfolding ValidateAndTransformSimulationName_def by simp
  have none: "find_str ''/'' ?hp = None" using no by (simp add: find_str_char_None del: append_Cons append_Nil)
  have some: "find_str ''/'' (?hp @ ''/'' @ name) = Some (length ?hp)" using find_str_char_Some[OF no, of name] by simp
  have tcp: "Uri_Parse (''tcp://'' @ ?hp) = Inr \<lparr>uri_type = TcpUri, uri_scheme = ''tcp'', uri_host = host, uri_port = Some port,
      uri_path = [], uri_uriString = ''tcp://'' @ ?hp\<rparr>"
    using none parse_host_print[OF assms(1), of port] by (simp add: Uri_Parse_def uri_type_of_def)
  have sk: "Uri_Parse (''silkit://'' @ ?hp @ ''/'' @ name) = Inr \<lparr>uri_type = SilKitUri, uri_scheme = ''silkit'', uri_host = host,
      uri_port = Some port, uri_path = name, uri_uriString = ''silkit://'' @ ?hp @ ''/'' @ name\<rparr>"
    using some path parse_host_print[OF assms(1), of port] by (simp add: Uri_Parse_def uri_type_of_def)
  show ?thesis using tcp sk assms(3) by (simp add: MakeTcp_def MakeSilKit_def Uri_Port_def)
qed

theorem uri_roundtrip_witness:
  "\<exists>silkit. MakeSilKit ''[::1]'' 8500 ''/sim/a'' = Inr silkit \<and> uri_host silkit = ''[::1]'' \<and> uri_path silkit = ''sim/a''"
proof -
  have "ValidateAndTransformSimulationName ''/sim/a'' = Inr ''sim/a''" by code_simp
  from uri_roundtrip[OF _ _ this, of "''[::1]''" 8500] show ?thesis by auto
qed

end
