(* ===== verification/Acceptor_Uris.thy ===== *)
theory Acceptor_Uris
  imports Uri_Parsing
begin

text \<open>
  The addresses under which the registry advertises a participant to another one (core/vasio/TransformAcceptorUris.cpp).
  A participant that listens on all interfaces gives a catch-all address, which is of no use to others; the registry
  replaces it by addresses made from the endpoints it sees itself. Parsing an IP address (\<^verbatim>\<open>asio::ip::make_address\<close>) is
  a parameter that returns \<open>None\<close> where the library throws.
\<close>

section \<open>Definitions\<close>

record ip_address =
  is_v4 :: bool
  is_v6 :: bool
  is_unspecified :: bool
  is_loopback :: bool

type_synonym make_address = "string \<Rightarrow> ip_address option"

record UriInfo =
  ui_local :: bool
  ui_ip4 :: bool
  ui_ip6 :: bool
  ui_catchallIp :: bool
  ui_loopbackIp :: bool

definition blank_UriInfo :: UriInfo where
  "blank_UriInfo = \<lparr>ui_local = False, ui_ip4 = False, ui_ip6 = False, ui_catchallIp = False, ui_loopbackIp = False\<rparr>"

definition GetUriInfo :: "make_address \<Rightarrow> Uri \<Rightarrow> UriInfo" where
  "GetUriInfo mk uri =
     (let host = filter (\<lambda>c. c \<noteq> CHR ''['' \<and> c \<noteq> CHR '']'') (uri_host uri)
      in if uri_type uri = LocalUri then blank_UriInfo\<lparr>ui_local := True\<rparr>
         else if uri_type uri = TcpUri
         then (case mk host of
                 Some addr \<Rightarrow> \<lparr>ui_local = is_loopback addr, ui_ip4 = is_v4 addr, ui_ip6 = is_v6 addr,
                   ui_catchallIp = is_unspecified addr, ui_loopbackIp = is_loopback addr\<rparr>
               | None \<Rightarrow> blank_UriInfo)
         else blank_UriInfo)"

text \<open>\<^verbatim>\<open>UriLexicographicLess\<close>, and inserting into a \<^verbatim>\<open>std::set\<close> ordered by it.\<close>

fun string_less :: "string \<Rightarrow> string \<Rightarrow> bool" where
  "string_less s [] = False"
| "string_less [] (d # t) = True"
| "string_less (c # s) (d # t) = (of_char c < (of_char d :: nat) \<or> c = d \<and> string_less s t)"

definition UriLexicographicLess :: "Uri \<Rightarrow> Uri \<Rightarrow> bool" where
  "UriLexicographicLess lhs rhs = string_less (uri_uriString lhs) (uri_uriString rhs)"

fun emplace_uri :: "Uri \<Rightarrow> Uri list \<Rightarrow> Uri list" where
  "emplace_uri uri [] = [uri]"
| "emplace_uri uri (u # us) = (if UriLexicographicLess uri u then uri # u # us
     else if UriLexicographicLess u uri then u # emplace_uri uri us else u # us)"

datatype transform_error = Uri_error uri_error | Invalid_remote_address | Invalid_local_address

fun uriE :: "uri_error + 'a \<Rightarrow> transform_error + 'a" where
  "uriE (Inl e) = Inl (Uri_error e)"
| "uriE (Inr x) = Inr x"

definition acceptNewTcpUri :: "bool \<Rightarrow> string \<Rightarrow> u16 \<Rightarrow> Uri list \<Rightarrow> transform_error + Uri list" where
  "acceptNewTcpUri condition host port acceptorUris =
     (if condition then bindE (uriE (MakeTcp host port)) (\<lambda>uri. Inr (emplace_uri uri acceptorUris)) else Inr acceptorUris)"

text \<open>The body of the loop over the addresses of the participant.\<close>

definition transform_uri :: "make_address \<Rightarrow> Uri \<Rightarrow> Uri \<Rightarrow> string \<Rightarrow> Uri list \<Rightarrow> transform_error + Uri list" where
  "transform_uri mk src dst uriString acceptorUris =
     bindE (uriE (Uri_Parse uriString)) (\<lambda>uri.
     let uriInfo = GetUriInfo mk uri; srcInfo = GetUriInfo mk src; dstInfo = GetUriInfo mk dst; port = Uri_Port uri
     in if ui_catchallIp uriInfo
        then bindE (acceptNewTcpUri (ui_local srcInfo \<and> ui_local dstInfo \<and> ui_ip4 uriInfo) ''127.0.0.1'' port acceptorUris)
               (\<lambda>acceptorUris.
             bindE (acceptNewTcpUri (ui_local srcInfo \<and> ui_local dstInfo \<and> ui_ip6 uriInfo) ''[::1]'' port acceptorUris)
               (\<lambda>acceptorUris.
             bindE (acceptNewTcpUri (ui_local srcInfo \<and> ui_ip4 uriInfo \<and> ui_ip4 dstInfo) (uri_host dst) port acceptorUris)
               (\<lambda>acceptorUris.
             bindE (acceptNewTcpUri (ui_local srcInfo \<and> ui_ip6 uriInfo \<and> ui_ip6 dstInfo) (uri_host dst) port acceptorUris)
               (\<lambda>acceptorUris.
             bindE (acceptNewTcpUri (ui_ip4 uriInfo \<and> ui_ip4 srcInfo) (uri_host src) port acceptorUris)
               (\<lambda>acceptorUris.
             acceptNewTcpUri (ui_ip6 uriInfo \<and> ui_ip6 srcInfo) (uri_host src) port acceptorUris)))))
        else Inr (emplace_uri uri acceptorUris))"

fun transform_uris :: "make_address \<Rightarrow> Uri \<Rightarrow> Uri \<Rightarrow> string list \<Rightarrow> Uri list \<Rightarrow> transform_error + Uri list" where
  "transform_uris mk src dst [] acceptorUris = Inr acceptorUris"
| "transform_uris mk src dst (uriString # rest) acceptorUris =
     bindE (transform_uri mk src dst uriString acceptorUris) (transform_uris mk src dst rest)"

definition uri_penalty :: "make_address \<Rightarrow> bool \<Rightarrow> Uri \<Rightarrow> nat" where
  "uri_penalty mk audience_local uri =
     (let nonLocalPenalty = if audience_local then 2000 else 1000; loopbackPenalty = if audience_local then 1000 else 2000
      in if uri_type uri = LocalUri then 0
         else if ui_loopbackIp (GetUriInfo mk uri) then loopbackPenalty else nonLocalPenalty)"

text \<open>
  The arguments are the addresses that the advertised participant has announced, the remote address of its connection
  and the local address of the connection to the audience. The multimap keeps the order of insertion for equal keys.
\<close>

definition TransformAcceptorUris :: "make_address \<Rightarrow> string list \<Rightarrow> string \<Rightarrow> string \<Rightarrow> transform_error + string list" where
  "TransformAcceptorUris mk advertised remoteAddress localAddress =
     bindE (uriE (Uri_Parse remoteAddress)) (\<lambda>src.
     bindE (uriE (Uri_Parse localAddress)) (\<lambda>dst.
     if uri_type src \<noteq> LocalUri \<and> uri_type src \<noteq> TcpUri then Inl Invalid_remote_address
     else if uri_type dst \<noteq> LocalUri \<and> uri_type dst \<noteq> TcpUri then Inl Invalid_local_address
     else bindE (transform_uris mk src dst advertised []) (\<lambda>acceptorUris.
       Inr (map uri_uriString (sort_key (uri_penalty mk (ui_local (GetUriInfo mk dst))) acceptorUris)))))"

section \<open>Sets of addresses\<close>

lemma string_less_irrefl [simp]: "\<not> string_less s s"
  by (induction s) auto

lemma string_less_trans: "string_less s t \<Longrightarrow> string_less t u \<Longrightarrow> string_less s u"
  by (induction s t arbitrary: u rule: string_less.induct) (case_tac u; auto)+

lemma string_less_total: "s = t \<or> string_less s t \<or> string_less t s"
proof (induction s t rule: string_less.induct)
  case (3 c s d t)
  consider "of_char c < (of_char d :: nat)" | "of_char d < (of_char c :: nat)" | "c = d" by (metis linorder_neqE_nat of_char_eq_iff)
  then show ?case using 3 by cases auto
next
  case (1 s)
  then show ?case by (cases s) auto
qed auto

definition uri_set :: "Uri list \<Rightarrow> bool" where
  "uri_set us \<longleftrightarrow> sorted_wrt (\<lambda>s t. string_less s t) (map uri_uriString us) \<and> (\<forall>u \<in> set us. Uri_Parse (uri_uriString u) = Inr u)"

lemma strings_emplace: "uri_uriString ` set (emplace_uri u us) = insert (uri_uriString u) (uri_uriString ` set us)"
proof (induction us)
  case (Cons v us)
  then show ?case using string_less_total[of "uri_uriString u" "uri_uriString v"]
    by (auto simp: UriLexicographicLess_def)
qed simp

lemma set_emplace: "set (emplace_uri u us) \<subseteq> insert u (set us)"
  by (induction us) auto

lemma uri_set_emplace:
  assumes "uri_set us" "Uri_Parse (uri_uriString u) = Inr u"
  shows "uri_set (emplace_uri u us)"
proof -
  have "sorted_wrt string_less (map uri_uriString (emplace_uri u us))"
    using assms(1) unfolding uri_set_def
  proof (induction us)
    case (Cons v us)
    have "\<forall>s \<in> uri_uriString ` set (emplace_uri u us). string_less (uri_uriString v) s"
      if "string_less (uri_uriString v) (uri_uriString u)" using that Cons.prems by (auto simp: strings_emplace)
    then show ?case using Cons by (auto simp: UriLexicographicLess_def intro: string_less_trans)
  qed simp
  moreover have "\<forall>x \<in> set (emplace_uri u us). Uri_Parse (uri_uriString x) = Inr x"
    using assms set_emplace[of u us] unfolding uri_set_def by blast
  ultimately show ?thesis unfolding uri_set_def by simp
qed

lemma uri_set_distinct: "uri_set us \<Longrightarrow> distinct (map uri_uriString us)"
  unfolding uri_set_def by (induction us) (auto simp: sorted_wrt_map)

section \<open>What is advertised\<close>

lemma parse_host_parts:
  assumes "parse_host s uri = Inr u" "CHR ''/'' \<notin> set s"
  shows "uri_uriString u = uri_uriString uri" "uri_type u = uri_type uri" "uri_host u \<noteq> []" "CHR ''/'' \<notin> set (uri_host u)"
  using assms by (auto simp: parse_host_def split: option.splits if_splits dest: in_set_takeD)

lemma find_str_char_take: "find_str [c] s = Some i \<Longrightarrow> c \<notin> set (take i s)"
  by (induction s arbitrary: i) (auto split: if_splits)

lemma parse_parts:
  assumes "Uri_Parse s = Inr u"
  shows "uri_uriString u = s" "uri_type u \<noteq> LocalUri \<Longrightarrow> uri_host u \<noteq> [] \<and> CHR ''/'' \<notin> set (uri_host u)"
proof -
  obtain i where i: "find_str ''://'' s = Some i" using assms by (cases "find_str ''://'' s") (auto simp: Uri_Parse_def)
  let ?raw = "drop (i + 3) s"
  let ?uri = "\<lparr>uri_type = uri_type_of (take i s), uri_scheme = take i s, uri_host = [], uri_port = None, uri_path = [],
                     uri_uriString = s\<rparr>"
  have "uri_uriString u = s \<and> (uri_type u \<noteq> LocalUri \<longrightarrow> uri_host u \<noteq> [] \<and> CHR ''/'' \<notin> set (uri_host u))"
  proof (cases "uri_type_of (take i s) = LocalUri")
    case True
    then show ?thesis using assms i by (auto simp: Uri_Parse_def)
  next
    case False
    show ?thesis
    proof (cases "find_str ''/'' ?raw")
      case None
      have "parse_host ?raw ?uri = Inr u" using assms i False None by (simp add: Uri_Parse_def Let_def)
      moreover have "CHR ''/'' \<notin> set ?raw" using find_str_char_None[of _ ?raw] None by simp
      ultimately show ?thesis using parse_host_parts by fastforce
    next
      case (Some j)
      then obtain path where "parse_host (take j ?raw) (?uri\<lparr>uri_path := path\<rparr>) = Inr u"
        using assms i False by (auto simp: Uri_Parse_def Let_def)
      then show ?thesis using parse_host_parts[OF _ find_str_char_take[OF Some]] by fastforce
    qed
  qed
  then show "uri_uriString u = s" "uri_type u \<noteq> LocalUri \<Longrightarrow> uri_host u \<noteq> [] \<and> CHR ''/'' \<notin> set (uri_host u)" by auto
qed

definition tcp_string :: "string \<Rightarrow> u16 \<Rightarrow> string" where
  "tcp_string host port = ''tcp://'' @ host @ '':'' @ nat_to_string (unat port)"

lemma parse_tcp:
  assumes "host \<noteq> []" "CHR ''/'' \<notin> set host"
  shows "Uri_Parse (tcp_string host port) = Inr \<lparr>uri_type = TcpUri, uri_scheme = ''tcp'', uri_host = host, uri_port = Some port,
    uri_path = [], uri_uriString = tcp_string host port\<rparr>"
proof -
  have "find_str ''/'' (host @ '':'' @ nat_to_string (unat port)) = None"
    using assms(2) port_chars(1) by (simp add: find_str_char_None del: append_Cons append_Nil)
  then show ?thesis using parse_host_print[OF assms(1), of port] by (simp add: tcp_string_def Uri_Parse_def uri_type_of_def)
qed

text \<open>The hosts under which a participant that listens on all interfaces is advertised.\<close>

definition seen_hosts :: "make_address \<Rightarrow> Uri \<Rightarrow> Uri \<Rightarrow> Uri \<Rightarrow> string set" where
  "seen_hosts mk src dst uri =
     (let same = (\<lambda>i j. ui_ip4 i \<and> ui_ip4 j \<or> ui_ip6 i \<and> ui_ip6 j); info = GetUriInfo mk
      in {h. h = ''127.0.0.1'' \<and> ui_ip4 (info uri) \<and> ui_local (info src) \<and> ui_local (info dst) \<or>
             h = ''[::1]'' \<and> ui_ip6 (info uri) \<and> ui_local (info src) \<and> ui_local (info dst) \<or>
             h = uri_host dst \<and> ui_local (info src) \<and> same (info uri) (info dst) \<or>
             h = uri_host src \<and> same (info uri) (info src)})"

definition advertised_as :: "make_address \<Rightarrow> Uri \<Rightarrow> Uri \<Rightarrow> Uri \<Rightarrow> string set" where
  "advertised_as mk src dst uri =
     (if ui_catchallIp (GetUriInfo mk uri) then (\<lambda>h. tcp_string h (Uri_Port uri)) ` seen_hosts mk src dst uri
      else {uri_uriString uri})"

definition good_host :: "string \<Rightarrow> bool" where
  "good_host host \<longleftrightarrow> host \<noteq> [] \<and> CHR ''/'' \<notin> set host"

definition endpoint :: "string \<Rightarrow> Uri \<Rightarrow> bool" where
  "endpoint address uri \<longleftrightarrow> Uri_Parse address = Inr uri \<and> (uri_type uri = LocalUri \<or> uri_type uri = TcpUri)"

definition loopback_known :: "make_address \<Rightarrow> bool" where
  "loopback_known mk \<longleftrightarrow> (\<forall>host \<in> {''127.0.0.1'', ''::1''}. \<exists>a. mk host = Some a \<and> is_loopback a \<and> \<not> is_unspecified a)"

lemma acceptNewTcpUri_adds:
  assumes "uri_set us" "condition \<Longrightarrow> good_host host"
  obtains us' where "acceptNewTcpUri condition host port us = Inr us'" "uri_set us'"
    "uri_uriString ` set us' = uri_uriString ` set us \<union> {s. condition \<and> s = tcp_string host port}"
proof (cases condition)
  case True
  then have "good_host host" by (rule assms(2))
  then have p: "Uri_Parse (tcp_string host port) = Inr \<lparr>uri_type = TcpUri, uri_scheme = ''tcp'', uri_host = host,
      uri_port = Some port, uri_path = [], uri_uriString = tcp_string host port\<rparr>" (is "_ = Inr ?u")
    using parse_tcp by (simp add: good_host_def)
  have s: "uri_uriString ?u = tcp_string host port" by simp
  have "acceptNewTcpUri condition host port us = Inr (emplace_uri ?u us)"
    using True p by (simp add: acceptNewTcpUri_def MakeTcp_def tcp_string_def)
  moreover have "uri_set (emplace_uri ?u us)" using uri_set_emplace[OF assms(1), of ?u] p s by simp
  moreover have "uri_uriString ` set (emplace_uri ?u us) = uri_uriString ` set us \<union> {s. condition \<and> s = tcp_string host port}"
    using strings_emplace[of ?u us] True by auto
  ultimately show ?thesis by (rule that)
next
  case False
  then show ?thesis using assms(1) that[of us] by (simp add: acceptNewTcpUri_def)
qed

lemma ip_hosts:
  assumes "Uri_Parse s = Inr u" "ui_ip4 (GetUriInfo mk u) \<or> ui_ip6 (GetUriInfo mk u)"
  shows "good_host (uri_host u)"
  using parse_parts(2)[OF assms(1)] assms(2) by (auto simp: good_host_def GetUriInfo_def Let_def blank_UriInfo_def split: if_splits)

lemma loopback_hosts [simp]: "good_host ''127.0.0.1''" "good_host ''[::1]''"
  by (simp_all add: good_host_def)

lemma transform_uri_adds:
  assumes "uri_set us" "Uri_Parse s = Inr uri" "Uri_Parse remote = Inr src" "Uri_Parse local = Inr dst"
  obtains us' where "transform_uri mk src dst s us = Inr us'" "uri_set us'"
    "uri_uriString ` set us' = uri_uriString ` set us \<union> advertised_as mk src dst uri"
proof (cases "ui_catchallIp (GetUriInfo mk uri)")
  case False
  have "uri_set (emplace_uri uri us)" using uri_set_emplace[OF assms(1)] parse_parts(1)[OF assms(2)] assms(2) by simp
  then show ?thesis using False assms(2) that strings_emplace[of uri us]
    by (simp add: transform_uri_def advertised_as_def Let_def)
next
  case True
  let ?i = "GetUriInfo mk" and ?p = "Uri_Port uri"
  have hc: "good_host (uri_host dst)" if "ui_local (?i src) \<and> ui_ip4 (?i uri) \<and> ui_ip4 (?i dst)" using ip_hosts[OF assms(4)] that by blast
  have hd: "good_host (uri_host dst)" if "ui_local (?i src) \<and> ui_ip6 (?i uri) \<and> ui_ip6 (?i dst)" using ip_hosts[OF assms(4)] that by blast
  have he: "good_host (uri_host src)" if "ui_ip4 (?i uri) \<and> ui_ip4 (?i src)" using ip_hosts[OF assms(3)] that by blast
  have hf: "good_host (uri_host src)" if "ui_ip6 (?i uri) \<and> ui_ip6 (?i src)" using ip_hosts[OF assms(3)] that by blast
  obtain a where a: "acceptNewTcpUri (ui_local (?i src) \<and> ui_local (?i dst) \<and> ui_ip4 (?i uri)) ''127.0.0.1'' ?p us = Inr a" "uri_set a"
    "uri_uriString ` set a = uri_uriString ` set us \<union>
       {s. (ui_local (?i src) \<and> ui_local (?i dst) \<and> ui_ip4 (?i uri)) \<and> s = tcp_string ''127.0.0.1'' ?p}"
    by (rule acceptNewTcpUri_adds[OF assms(1) loopback_hosts(1)])
  obtain b where b: "acceptNewTcpUri (ui_local (?i src) \<and> ui_local (?i dst) \<and> ui_ip6 (?i uri)) ''[::1]'' ?p a = Inr b" "uri_set b"
    "uri_uriString ` set b = uri_uriString ` set a \<union>
       {s. (ui_local (?i src) \<and> ui_local (?i dst) \<and> ui_ip6 (?i uri)) \<and> s = tcp_string ''[::1]'' ?p}"
    by (rule acceptNewTcpUri_adds[OF a(2) loopback_hosts(2)])
  obtain c where c: "acceptNewTcpUri (ui_local (?i src) \<and> ui_ip4 (?i uri) \<and> ui_ip4 (?i dst)) (uri_host dst) ?p b = Inr c" "uri_set c"
    "uri_uriString ` set c = uri_uriString ` set b \<union>
       {s. (ui_local (?i src) \<and> ui_ip4 (?i uri) \<and> ui_ip4 (?i dst)) \<and> s = tcp_string (uri_host dst) ?p}"
    by (rule acceptNewTcpUri_adds[OF b(2) hc])
  obtain d where d: "acceptNewTcpUri (ui_local (?i src) \<and> ui_ip6 (?i uri) \<and> ui_ip6 (?i dst)) (uri_host dst) ?p c = Inr d" "uri_set d"
    "uri_uriString ` set d = uri_uriString ` set c \<union>
       {s. (ui_local (?i src) \<and> ui_ip6 (?i uri) \<and> ui_ip6 (?i dst)) \<and> s = tcp_string (uri_host dst) ?p}"
    by (rule acceptNewTcpUri_adds[OF c(2) hd])
  obtain e where e: "acceptNewTcpUri (ui_ip4 (?i uri) \<and> ui_ip4 (?i src)) (uri_host src) ?p d = Inr e" "uri_set e"
    "uri_uriString ` set e = uri_uriString ` set d \<union> {s. (ui_ip4 (?i uri) \<and> ui_ip4 (?i src)) \<and> s = tcp_string (uri_host src) ?p}"
    by (rule acceptNewTcpUri_adds[OF d(2) he])
  obtain f where f: "acceptNewTcpUri (ui_ip6 (?i uri) \<and> ui_ip6 (?i src)) (uri_host src) ?p e = Inr f" "uri_set f"
    "uri_uriString ` set f = uri_uriString ` set e \<union> {s. (ui_ip6 (?i uri) \<and> ui_ip6 (?i src)) \<and> s = tcp_string (uri_host src) ?p}"
    by (rule acceptNewTcpUri_adds[OF e(2) hf])
  have "transform_uri mk src dst s us = Inr f"
    using True assms(2) a(1) b(1) c(1) d(1) e(1) f(1) by (simp add: transform_uri_def Let_def)
  moreover have "uri_uriString ` set f = uri_uriString ` set us \<union> advertised_as mk src dst uri"
    unfolding f(3) e(3) d(3) c(3) b(3) a(3) advertised_as_def seen_hosts_def using True by (auto simp: Let_def)
  ultimately show ?thesis using that f(2) by blast
qed

lemma transform_uris_adds:
  assumes "uri_set us" "\<forall>s \<in> set ss. \<exists>uri. Uri_Parse s = Inr uri" "Uri_Parse remote = Inr src" "Uri_Parse local = Inr dst"
  shows "\<exists>us'. transform_uris mk src dst ss us = Inr us' \<and> uri_set us' \<and>
    uri_uriString ` set us' = uri_uriString ` set us \<union> (\<Union>s \<in> set ss. \<Union>uri \<in> {uri. Uri_Parse s = Inr uri}. advertised_as mk src dst uri)"
  using assms(1,2)
proof (induction ss arbitrary: us)
  case (Cons s ss)
  obtain uri where uri: "Uri_Parse s = Inr uri" using Cons.prems(2) by auto
  obtain v where v: "transform_uri mk src dst s us = Inr v" "uri_set v"
    "uri_uriString ` set v = uri_uriString ` set us \<union> advertised_as mk src dst uri"
    by (rule transform_uri_adds[OF Cons.prems(1) uri assms(3,4)])
  have "\<forall>s \<in> set ss. \<exists>uri. Uri_Parse s = Inr uri" using Cons.prems(2) by simp
  from Cons.IH[OF v(2) this] show ?case using v(1,3) uri by (auto simp: ac_simps)
qed simp

lemma transform_uris_fails:
  assumes "transform_uris mk src dst ss us = Inr us'" "s \<in> set ss"
  shows "\<exists>uri. Uri_Parse s = Inr uri"
  using assms
proof (induction ss arbitrary: us)
  case (Cons t ss)
  then show ?case by (cases "Uri_Parse t") (auto simp: transform_uri_def split: sum.splits)
qed simp

lemma sorted_strings:
  assumes "\<forall>u \<in> set us. Uri_Parse (uri_uriString u) = Inr u"
  shows "sorted_wrt (\<lambda>s t. f (projr (Uri_Parse s)) \<le> f (projr (Uri_Parse t))) (map uri_uriString (sort_key f us))"
proof -
  have "sorted_wrt (\<lambda>u v. f u \<le> f v) (sort_key f us)" using sorted_sort_key[of f us] by (simp add: sorted_map)
  then show ?thesis using assms
    by (simp add: sorted_wrt_map) (erule sorted_wrt_mono_rel[rotated], simp)
qed

lemma TransformAcceptorUris_result:
  assumes "endpoint remote src" "endpoint local dst" "\<forall>s \<in> set advertised. \<exists>uri. Uri_Parse s = Inr uri"
  obtains us where
    "TransformAcceptorUris mk advertised remote local =
       Inr (map uri_uriString (sort_key (uri_penalty mk (ui_local (GetUriInfo mk dst))) us))"
    "uri_set us"
    "uri_uriString ` set us = (\<Union>s \<in> set advertised. \<Union>uri \<in> {uri. Uri_Parse s = Inr uri}. advertised_as mk src dst uri)"
proof -
  have p: "Uri_Parse remote = Inr src" "Uri_Parse local = Inr dst" using assms(1,2) by (simp_all add: endpoint_def)
  have "uri_set []" by (simp add: uri_set_def)
  from transform_uris_adds[OF this assms(3) p, of mk] obtain us where
    "transform_uris mk src dst advertised [] = Inr us" "uri_set us"
    "uri_uriString ` set us = (\<Union>s \<in> set advertised. \<Union>uri \<in> {uri. Uri_Parse s = Inr uri}. advertised_as mk src dst uri)" by auto
  then show ?thesis using that p assms(1,2) by (simp add: TransformAcceptorUris_def endpoint_def)
qed

lemma TransformAcceptorUris_succeeds:
  "(\<exists>uris. TransformAcceptorUris mk advertised remote local = Inr uris) \<longleftrightarrow>
     (\<exists>src. endpoint remote src) \<and> (\<exists>dst. endpoint local dst) \<and> (\<forall>s \<in> set advertised. \<exists>uri. Uri_Parse s = Inr uri)"
  (is "?lhs \<longleftrightarrow> ?rhs")
proof
  assume ?lhs
  then obtain uris where u: "TransformAcceptorUris mk advertised remote local = Inr uris" by blast
  obtain src where src: "Uri_Parse remote = Inr src" using u by (cases "Uri_Parse remote") (auto simp: TransformAcceptorUris_def)
  obtain dst where dst: "Uri_Parse local = Inr dst" using u src by (cases "Uri_Parse local") (auto simp: TransformAcceptorUris_def)
  have t: "uri_type src = LocalUri \<or> uri_type src = TcpUri" "uri_type dst = LocalUri \<or> uri_type dst = TcpUri"
    using u src dst by (auto simp: TransformAcceptorUris_def split: if_splits)
  then obtain us where "transform_uris mk src dst advertised [] = Inr us"
    using u src dst by (cases "transform_uris mk src dst advertised []") (auto simp: TransformAcceptorUris_def)
  from transform_uris_fails[OF this] show ?rhs using src dst t by (auto simp: endpoint_def)
next
  assume ?rhs
  then obtain src dst where "endpoint remote src" "endpoint local dst" "\<forall>s \<in> set advertised. \<exists>uri. Uri_Parse s = Inr uri" by blast
  then show ?lhs by (rule TransformAcceptorUris_result[of remote src local dst advertised mk]) blast
qed

lemma not_catchall:
  assumes "loopback_known mk" "endpoint remote src" "endpoint local dst" "Uri_Parse s = Inr uri"
    "\<not> ui_catchallIp (GetUriInfo mk src)" "\<not> ui_catchallIp (GetUriInfo mk dst)"
    "t \<in> advertised_as mk src dst uri"
  shows "\<exists>u. Uri_Parse t = Inr u \<and> \<not> ui_catchallIp (GetUriInfo mk u)"
proof (cases "ui_catchallIp (GetUriInfo mk uri)")
  case False
  then show ?thesis using assms(4,7) parse_parts(1)[OF assms(4)] by (auto simp: advertised_as_def)
next
  case True
  then obtain h where h: "t = tcp_string h (Uri_Port uri)" "h \<in> seen_hosts mk src dst uri" using assms(7) by (auto simp: advertised_as_def)
  have e: "Uri_Parse remote = Inr src" "Uri_Parse local = Inr dst" using assms(2,3) by (simp_all add: endpoint_def)
  have "good_host h" using h(2) ip_hosts[OF e(1)] ip_hosts[OF e(2)] by (auto simp: seen_hosts_def Let_def)
  then have p: "Uri_Parse t = Inr \<lparr>uri_type = TcpUri, uri_scheme = ''tcp'', uri_host = h, uri_port = Some (Uri_Port uri), uri_path = [],
      uri_uriString = t\<rparr>" (is "_ = Inr ?u") using parse_tcp h(1) by (simp add: good_host_def)
  consider "h = ''127.0.0.1''" | "h = ''[::1]''" | "h = uri_host dst" "uri_type dst = TcpUri" | "h = uri_host src" "uri_type src = TcpUri"
    using h(2) by (auto simp: seen_hosts_def Let_def GetUriInfo_def blank_UriInfo_def split: if_splits)
  then have "\<not> ui_catchallIp (GetUriInfo mk ?u)"
  proof cases
    case 1
    then show ?thesis using assms(1) by (auto simp: GetUriInfo_def loopback_known_def)
  next
    case 2
    then show ?thesis using assms(1) by (auto simp: GetUriInfo_def loopback_known_def)
  next
    case 3
    then show ?thesis using assms(6) by (simp add: GetUriInfo_def)
  next
    case 4
    then show ?thesis using assms(5) by (simp add: GetUriInfo_def)
  qed
  then show ?thesis using p by blast
qed


text \<open>A parser for the addresses that occur in the examples.\<close>

definition sample_make_address :: make_address where
  "sample_make_address host =
     (if host = ''0.0.0.0'' then Some \<lparr>is_v4 = True, is_v6 = False, is_unspecified = True, is_loopback = False\<rparr>
      else if host = ''127.0.0.1'' then Some \<lparr>is_v4 = True, is_v6 = False, is_unspecified = False, is_loopback = True\<rparr>
      else if host = ''::1'' then Some \<lparr>is_v4 = False, is_v6 = True, is_unspecified = False, is_loopback = True\<rparr>
      else if host = ''10.0.0.5'' \<or> host = ''10.0.0.1'' then Some \<lparr>is_v4 = True, is_v6 = False, is_unspecified = False, is_loopback = False\<rparr>
      else None)"

lemma sample_addresses:
  "TransformAcceptorUris sample_make_address [''tcp://0.0.0.0:7'', ''local:///tmp/a''] ''tcp://10.0.0.5:44'' ''tcp://10.0.0.1:8500'' =
     Inr [''local:///tmp/a'', ''tcp://10.0.0.5:7'']"
  by code_simp


end
