(* ===== verification/Connect_Peers.thy ===== *)
theory Connect_Peers
  imports Uri_Parsing VAsio_Messages
begin

text \<open>
  How a participant connects to those that the registry has named: \<^verbatim>\<open>core/vasio/ConnectPeer.cpp\<close> tries the
  addresses of one participant, \<^verbatim>\<open>core/vasio/ConnectKnownParticipants.cpp\<close> falls back to asking the remote participant to
  connect and to a proxy, and reports when all participants have replied. Resolving a host name is a parameter, starting a
  connection attempt and asking the other participants may fail, which the events decide.
\<close>

section \<open>The addresses of one participant\<close>

definition IsIp4 :: "string \<Rightarrow> bool" where
  "IsIp4 address \<longleftrightarrow> CHR ''.'' \<in> set address \<and> CHR '':'' \<notin> set address"

definition IsIp6 :: "string \<Rightarrow> bool" where
  "IsIp6 address \<longleftrightarrow> CHR ''.'' \<notin> set address \<and> CHR '':'' \<in> set address"

definition bracketed :: "string \<Rightarrow> string" where
  "bracketed address =
     (if IsIp6 address
      then let address = (if hd address \<noteq> CHR ''['' then CHR ''['' # address else address)
           in if last address \<noteq> CHR '']'' then address @ '']'' else address
      else address)"

text \<open>An exception ends the loop over the addresses of one URI; those before it are kept.\<close>

fun tcp_uris :: "u16 \<Rightarrow> string list \<Rightarrow> Uri list" where
  "tcp_uris port [] = []"
| "tcp_uris port (address # addresses) =
     (case MakeTcp (bracketed address) port of Inl e \<Rightarrow> [] | Inr uri \<Rightarrow> uri # tcp_uris port addresses)"

definition acceptor_uris :: "(string \<Rightarrow> string list option) \<Rightarrow> string \<Rightarrow> Uri list" where
  "acceptor_uris Resolve str = (case Uri_Parse str of
     Inl e \<Rightarrow> []
   | Inr uri \<Rightarrow>
       if uri_type uri = TcpUri
       then (case Resolve (uri_host uri) of None \<Rightarrow> [] | Some addresses \<Rightarrow> tcp_uris (Uri_Port uri) addresses)
       else [uri])"

definition ComputePenalty :: "Uri \<Rightarrow> nat" where
  "ComputePenalty uri = (case uri_type uri of
     LocalUri \<Rightarrow> 100
   | TcpUri \<Rightarrow> if IsIp4 (uri_host uri) then 200 else if IsIp6 (uri_host uri) then 300 else 400
   | _ \<Rightarrow> 500)"

definition UpdateUris :: "(string \<Rightarrow> string list option) \<Rightarrow> string list \<Rightarrow> Uri list" where
  "UpdateUris Resolve acceptorUris = sort_key ComputePenalty (concat (map (acceptor_uris Resolve) acceptorUris))"

section \<open>Connecting to one participant\<close>

text \<open>
  Calls of \<^verbatim>\<open>TryNextUri\<close> handed to the I/O context are counted in \<open>cp_dispatched\<close>, the calls of the listener are recorded in
  \<open>cp_outcomes\<close>, and the addresses that \<^verbatim>\<open>TryNextUri\<close> has taken in \<open>cp_tried\<close>.
\<close>

record ConnectPeer =
  cp_uris :: "Uri list"
  cp_uriIndex :: nat
  cp_remainingAttempts :: nat
  cp_enableDomainSockets :: bool
  cp_connector :: bool
  cp_dispatched :: nat
  cp_tried :: "Uri list"
  cp_outcomes :: "bool list"

definition ConnectPeer_new :: "(string \<Rightarrow> string list option) \<Rightarrow> VAsioPeerInfo \<Rightarrow> bool \<Rightarrow> ConnectPeer" where
  "ConnectPeer_new Resolve peerInfo enableDomainSockets =
     \<lparr>cp_uris = UpdateUris Resolve (pi_acceptorUris peerInfo), cp_uriIndex = 0, cp_remainingAttempts = 1,
      cp_enableDomainSockets = enableDomainSockets, cp_connector = False, cp_dispatched = 0, cp_tried = [], cp_outcomes = []\<rparr>"

definition AsyncConnect :: "nat \<Rightarrow> ConnectPeer \<Rightarrow> ConnectPeer" where
  "AsyncConnect numberOfAttempts c =
     c\<lparr>cp_remainingAttempts := max numberOfAttempts 1, cp_dispatched := cp_dispatched c + 1\<rparr>"

definition HandleSuccess :: "ConnectPeer \<Rightarrow> ConnectPeer" where
  "HandleSuccess c = c\<lparr>cp_connector := False, cp_outcomes := cp_outcomes c @ [True]\<rparr>"

definition HandleFailure :: "ConnectPeer \<Rightarrow> ConnectPeer" where
  "HandleFailure c = c\<lparr>cp_connector := False, cp_outcomes := cp_outcomes c @ [False]\<rparr>"

text \<open>Whether an attempt can be made; \<open>starts\<close> is false when creating or starting the connector throws.\<close>

definition connector_for :: "bool \<Rightarrow> Uri \<Rightarrow> ConnectPeer \<Rightarrow> bool" where
  "connector_for starts uri c =
     (if uri_type uri = TcpUri \<or> (uri_type uri = LocalUri \<and> cp_enableDomainSockets c) then starts else cp_connector c)"

definition TryNextUri :: "bool \<Rightarrow> ConnectPeer \<Rightarrow> ConnectPeer" where
  "TryNextUri starts c =
     (if cp_remainingAttempts c = 0 then HandleFailure c
      else if cp_uris c = [] then HandleFailure c
      else if cp_uriIndex c \<ge> length (cp_uris c)
      then c\<lparr>cp_remainingAttempts := cp_remainingAttempts c - 1, cp_uriIndex := 0, cp_dispatched := cp_dispatched c + 1\<rparr>
      else let uri = cp_uris c ! cp_uriIndex c;
               c = c\<lparr>cp_uriIndex := cp_uriIndex c + 1, cp_tried := cp_tried c @ [uri]\<rparr>
           in if connector_for starts uri c then c\<lparr>cp_connector := True\<rparr>
              else c\<lparr>cp_connector := False, cp_dispatched := cp_dispatched c + 1\<rparr>)"

definition OnAsyncConnectSuccess :: "ConnectPeer \<Rightarrow> ConnectPeer" where
  "OnAsyncConnectSuccess c = HandleSuccess c"

definition OnAsyncConnectFailure :: "bool \<Rightarrow> ConnectPeer \<Rightarrow> ConnectPeer" where
  "OnAsyncConnectFailure starts c = TryNextUri starts (c\<lparr>cp_connector := False\<rparr>)"

text \<open>What the I/O context may do next: execute a dispatched call, or complete the attempt of the connector. The argument
  tells whether the next attempt can be started.\<close>

datatype connect_event = RunDispatched bool | AttemptSucceeded | AttemptFailed bool

fun connect_enabled :: "connect_event \<Rightarrow> ConnectPeer \<Rightarrow> bool" where
  "connect_enabled (RunDispatched starts) c \<longleftrightarrow> cp_dispatched c > 0"
| "connect_enabled AttemptSucceeded c \<longleftrightarrow> cp_connector c"
| "connect_enabled (AttemptFailed starts) c \<longleftrightarrow> cp_connector c"

fun connect_step :: "connect_event \<Rightarrow> ConnectPeer \<Rightarrow> ConnectPeer" where
  "connect_step (RunDispatched starts) c = TryNextUri starts (c\<lparr>cp_dispatched := cp_dispatched c - 1\<rparr>)"
| "connect_step AttemptSucceeded c = OnAsyncConnectSuccess c"
| "connect_step (AttemptFailed starts) c = OnAsyncConnectFailure starts c"

fun connect_run :: "connect_event list \<Rightarrow> ConnectPeer \<Rightarrow> ConnectPeer option" where
  "connect_run [] c = Some c"
| "connect_run (e # es) c = (if connect_enabled e c then connect_run es (connect_step e c) else None)"

text \<open>Exactly one of these holds: a call is dispatched, an attempt is under way, the listener was told. The addresses taken and
  those still to be taken are \<open>n\<close> rounds over all of them.\<close>

definition connect_inv :: "ConnectPeer \<Rightarrow> bool" where
  "connect_inv c \<longleftrightarrow> cp_dispatched c + (if cp_connector c then 1 else 0) + length (cp_outcomes c) = 1 \<and>
     cp_uriIndex c \<le> length (cp_uris c)"

definition connect_rounds :: "nat \<Rightarrow> ConnectPeer \<Rightarrow> bool" where
  "connect_rounds n c \<longleftrightarrow>
     (cp_remainingAttempts c > 0 \<longrightarrow>
       cp_tried c @ drop (cp_uriIndex c) (cp_uris c) @ concat (replicate (cp_remainingAttempts c - 1) (cp_uris c))
         = concat (replicate n (cp_uris c))) \<and>
     (cp_remainingAttempts c = 0 \<or> False \<in> set (cp_outcomes c) \<longrightarrow> cp_tried c = concat (replicate n (cp_uris c)))"

definition connect_work :: "ConnectPeer \<Rightarrow> nat" where
  "connect_work c = (if cp_outcomes c \<noteq> [] then 0
     else 1 + cp_remainingAttempts c * (length (cp_uris c) + 1) + (length (cp_uris c) - cp_uriIndex c))"

lemma mult_step: "0 < r \<Longrightarrow> (r - Suc 0) * Suc n + n < r * Suc (n :: nat)"
  by (cases r) auto

lemma concat_replicate_Nil [simp]: "concat (replicate n []) = []"
  by (induction n) auto

lemma nth_Cons_drop: "i < length xs \<Longrightarrow> xs ! i # drop (Suc i) xs @ ys = drop i xs @ ys"
  by (simp flip: append_Cons add: Cons_nth_drop_Suc)

lemma enabled_no_outcome:
  assumes "connect_inv c" "connect_enabled e c"
  shows "cp_outcomes c = []"
  using assms by (cases e; cases "cp_outcomes c") (auto simp: connect_inv_def split: if_splits)

lemmas connect_defs = TryNextUri_def OnAsyncConnectSuccess_def OnAsyncConnectFailure_def HandleSuccess_def HandleFailure_def
  Let_def

lemma TryNextUri_inv:
  assumes "\<not> cp_connector c" "cp_dispatched c = 0" "cp_outcomes c = []" "cp_uriIndex c \<le> length (cp_uris c)"
  shows "connect_inv (TryNextUri starts c) \<and> connect_work (TryNextUri starts c) < connect_work c"
  using assms mult_step[of "cp_remainingAttempts c" "length (cp_uris c)"]
  by (auto simp: connect_inv_def connect_work_def connect_defs)

lemma TryNextUri_rounds:
  assumes "connect_rounds n c" "cp_outcomes c = []" "cp_uriIndex c \<le> length (cp_uris c)"
  shows "connect_rounds n (TryNextUri starts c)"
  using assms
  by (cases "cp_remainingAttempts c"; cases "cp_remainingAttempts c - 1")
     (auto simp: connect_rounds_def connect_defs nth_Cons_drop Cons_nth_drop_Suc)

lemma step_uris [simp]: "cp_uris (connect_step e c) = cp_uris c"
  by (cases e) (auto simp: connect_defs)

lemma connect_step_inv:
  assumes "connect_inv c" "connect_enabled e c" "connect_rounds n c"
  shows "connect_inv (connect_step e c) \<and> connect_work (connect_step e c) < connect_work c \<and>
         connect_rounds n (connect_step e c)"
proof (cases e)
  case (RunDispatched starts)
  have "cp_dispatched c = 1" "\<not> cp_connector c" "cp_uriIndex c \<le> length (cp_uris c)"
    using assms RunDispatched enabled_no_outcome[OF assms(1,2)] by (auto simp: connect_inv_def split: if_splits)
  then show ?thesis
    using TryNextUri_inv[of "c\<lparr>cp_dispatched := 0\<rparr>" starts] TryNextUri_rounds[of n "c\<lparr>cp_dispatched := 0\<rparr>" starts]
      enabled_no_outcome[OF assms(1,2)] assms(3) RunDispatched
    by (simp add: connect_work_def connect_rounds_def)
next
  case AttemptSucceeded
  then show ?thesis
    using assms enabled_no_outcome[OF assms(1,2)]
    by (simp add: connect_inv_def connect_work_def connect_defs connect_rounds_def)
next
  case (AttemptFailed starts)
  have "cp_dispatched c = 0" "cp_uriIndex c \<le> length (cp_uris c)"
    using assms AttemptFailed enabled_no_outcome[OF assms(1,2)] by (auto simp: connect_inv_def split: if_splits)
  then show ?thesis
    using TryNextUri_inv[of "c\<lparr>cp_connector := False\<rparr>" starts] TryNextUri_rounds[of n "c\<lparr>cp_connector := False\<rparr>" starts]
      enabled_no_outcome[OF assms(1,2)] assms(3) AttemptFailed
    by (simp add: connect_work_def connect_rounds_def OnAsyncConnectFailure_def)
qed

lemma connect_run_inv:
  assumes "connect_inv c" "connect_rounds n c" "connect_run es c = Some c'"
  shows "connect_inv c' \<and> connect_rounds n c' \<and> length es + connect_work c' \<le> connect_work c \<and> cp_uris c' = cp_uris c"
  using assms
proof (induction es arbitrary: c)
  case (Cons e es)
  then have e: "connect_enabled e c" "connect_run es (connect_step e c) = Some c'" by (auto split: if_splits)
  note s = connect_step_inv[OF Cons.prems(1) e(1) Cons.prems(2)]
  show ?case using Cons.IH[OF _ _ e(2)] s by auto
qed simp

lemma replicate_rounds: "xs @ concat (replicate (max n (Suc 0) - Suc 0) xs) = concat (replicate (max n (Suc 0)) xs)"
  by (cases n) auto

lemma AsyncConnect_inv:
  "connect_inv (AsyncConnect n (ConnectPeer_new Resolve info local))"
  "connect_rounds (max n 1) (AsyncConnect n (ConnectPeer_new Resolve info local))"
  "connect_work (AsyncConnect n (ConnectPeer_new Resolve info local)) =
     (max n 1 + 1) * (length (UpdateUris Resolve (pi_acceptorUris info)) + 1)"
  "cp_uris (AsyncConnect n (ConnectPeer_new Resolve info local)) = UpdateUris Resolve (pi_acceptorUris info)"
  by (auto simp: AsyncConnect_def ConnectPeer_new_def connect_inv_def connect_rounds_def connect_work_def replicate_rounds)

lemma stopped_iff:
  assumes "connect_inv c"
  shows "(\<forall>e. \<not> connect_enabled e c) \<longleftrightarrow> cp_outcomes c \<noteq> []"
proof
  assume none: "\<forall>e. \<not> connect_enabled e c"
  have "\<not> connect_enabled (RunDispatched True) c" "\<not> connect_enabled AttemptSucceeded c" using none by blast+
  then show "cp_outcomes c \<noteq> []" using assms by (auto simp: connect_inv_def)
next
  assume "cp_outcomes c \<noteq> []"
  then show "\<forall>e. \<not> connect_enabled e c" using enabled_no_outcome[OF assms] by blast
qed

text \<open>
  C8. Connecting to one participant ends: whatever the attempts do, at most one step is made for each address in each round
  and one for each round, the listener is told once, when nothing more is under way, and it is told of a failure only after
  every address, in the order of preference, was taken in each of the rounds asked for (at least one).
\<close>

theorem connecting_ends:
  assumes "connect_run es (AsyncConnect n (ConnectPeer_new Resolve peerInfo enableDomainSockets)) = Some c"
  shows "length es \<le> (max n 1 + 1) * (length (UpdateUris Resolve (pi_acceptorUris peerInfo)) + 1) \<and>
         sorted (map ComputePenalty (cp_uris c)) \<and>
         ((\<forall>e. \<not> connect_enabled e c) \<longleftrightarrow> (\<exists>success. cp_outcomes c = [success])) \<and>
         length (cp_outcomes c) \<le> 1 \<and>
         (cp_outcomes c = [False] \<longrightarrow>
            cp_tried c = concat (replicate (max n 1) (UpdateUris Resolve (pi_acceptorUris peerInfo))))"
proof -
  note run = connect_run_inv[OF AsyncConnect_inv(1,2) assms]
  have one: "length (cp_outcomes c) \<le> 1" using run by (auto simp: connect_inv_def)
  then have "cp_outcomes c \<noteq> [] \<longleftrightarrow> (\<exists>success. cp_outcomes c = [success])" by (cases "cp_outcomes c") auto
  moreover have "(\<forall>e. \<not> connect_enabled e c) \<longleftrightarrow> cp_outcomes c \<noteq> []" using stopped_iff run by blast
  moreover have "sorted (map ComputePenalty (cp_uris c))" using run by (simp add: AsyncConnect_inv(4) UpdateUris_def)
  ultimately show ?thesis using run one by (auto simp: AsyncConnect_inv(3,4) connect_rounds_def)
qed

text \<open>Two addresses refuse the connection in the only round; the one of the local domain is tried first.\<close>

definition sample_peer_info :: VAsioPeerInfo where
  "sample_peer_info =
     \<lparr>pi_participantName = ''B'', pi_participantId = 2, pi_acceptorUris = [''tcp://10.0.0.1:8500'', ''local:///tmp/b''],
      pi_capabilities = []\<rparr>"

theorem connecting_ends_witness:
  "\<exists>c. connect_run [RunDispatched True, AttemptFailed True, AttemptFailed True, RunDispatched True]
        (AsyncConnect 1 (ConnectPeer_new (\<lambda>host. Some [host]) sample_peer_info True)) = Some c \<and>
     cp_outcomes c = [False] \<and> map ComputePenalty (cp_tried c) = [100, 200]"
proof -
  have "map_option cp_outcomes (connect_run [RunDispatched True, AttemptFailed True, AttemptFailed True, RunDispatched True]
          (AsyncConnect 1 (ConnectPeer_new (\<lambda>host. Some [host]) sample_peer_info True))) = Some [False]"
    by code_simp
  then obtain c where c: "connect_run [RunDispatched True, AttemptFailed True, AttemptFailed True, RunDispatched True]
          (AsyncConnect 1 (ConnectPeer_new (\<lambda>host. Some [host]) sample_peer_info True)) = Some c" "cp_outcomes c = [False]"
    by (auto simp del: connect_run.simps)
  have "map ComputePenalty (UpdateUris (\<lambda>host. Some [host]) (pi_acceptorUris sample_peer_info)) = [100, 200]" by code_simp
  then show ?thesis using connecting_ends[OF c(1)] c by auto
qed

end
