(* ===== verification/Connect_Known.thy ===== *)
theory Connect_Known
  imports Connect_Peers
begin

text \<open>
  Connecting to the participants that the registry has named, \<^verbatim>\<open>core/vasio/ConnectKnownParticipants.cpp\<close>: each one is
  tried directly (\<^verbatim>\<open>ConnectPeer\<close>), then asked through the registry to connect itself, then reached through the registry
  as a proxy (\<^verbatim>\<open>VAsioConnection::TryRemoteConnectRequest\<close>, \<^verbatim>\<open>TryProxyConnect\<close>). The listener is told when all participants
  are reached, when all have replied, or when one of them cannot be reached. Each operation runs to its end before the next.
  Resolving host names and parsing capability strings (a YAML parser) are parameters. An exception that leaves a handler is
  caught by the loop of the I/O worker, which goes on; these are counted in \<open>ck_exceptions\<close>.
\<close>

section \<open>State\<close>

datatype PeerStage = Stage_INVALID | Stage_FAILURE | Stage_DIRECT | Stage_REMOTE_CONNECT_REQUESTED | Stage_REMOTE_IS_CONNECTING
  | Stage_WAITING_FOR_REPLY | Stage_REPLY_RECEIVED

text \<open>The values of the enumeration, which the code compares.\<close>

fun stage_value :: "PeerStage \<Rightarrow> nat" where
  "stage_value Stage_INVALID = 0"
| "stage_value Stage_FAILURE = 1"
| "stage_value Stage_DIRECT = 2"
| "stage_value Stage_REMOTE_CONNECT_REQUESTED = 3"
| "stage_value Stage_REMOTE_IS_CONNECTING = 4"
| "stage_value Stage_WAITING_FOR_REPLY = 5"
| "stage_value Stage_REPLY_RECEIVED = 6"

instantiation PeerStage :: linorder
begin

definition less_eq_PeerStage :: "PeerStage \<Rightarrow> PeerStage \<Rightarrow> bool" where
  "s \<le> t \<longleftrightarrow> stage_value s \<le> stage_value t"

definition less_PeerStage :: "PeerStage \<Rightarrow> PeerStage \<Rightarrow> bool" where
  "s < t \<longleftrightarrow> stage_value s < stage_value t"

instance
proof
  fix s t :: PeerStage
  show "s \<le> t \<Longrightarrow> t \<le> s \<Longrightarrow> s = t" by (cases s; cases t) (simp_all add: less_eq_PeerStage_def)
qed (auto simp: less_eq_PeerStage_def less_PeerStage_def)

end

datatype PeerEvent = REMOTE_PARTICIPANT_IS_CONNECTING | REMOTE_PARTICIPANT_FAILED_TO_CONNECT
  | REMOTE_PARTICIPANT_ANNOUNCEMENT | PARTICIPANT_ANNOUNCEMENT_REPLY

datatype ConnectStage = Connect_INVALID | Connect_CONNECTING | Connect_WAITING_FOR_ALL_REPLIES
  | Connect_ALL_REPLIES_RECEIVED | Connect_FAILURE

datatype connect_note = KnownFailure | KnownWaitingForAllReplies | KnownAllRepliesReceived

record Peer =
  kp_info :: VAsioPeerInfo
  kp_stage :: PeerStage
  kp_direct :: "ConnectPeer option"
  kp_timer :: bool
  kp_failureReason :: string

text \<open>What the connection provides: \<^verbatim>\<open>IIoContext::Resolve\<close>, its own capabilities and the parser of capability strings.\<close>

record ConnectionMethods =
  cm_Resolve :: "string \<Rightarrow> string list option"
  cm_enableDomainSockets :: bool
  cm_capabilities :: "string list"
  cm_ParseCapabilities :: "string \<Rightarrow> string list option"

text \<open>Requests sent to the registry are in \<open>ck_requests\<close>, peers handed to \<^verbatim>\<open>HandleConnectedPeer\<close> and \<^verbatim>\<open>AddPeer\<close> in
  \<open>ck_connected\<close> (with whether the registry is the proxy), the calls of the listener in \<open>ck_notes\<close>.\<close>

record ConnectKnown =
  ck_methods :: ConnectionMethods
  ck_stage :: ConnectStage
  ck_peers :: "(string \<times> Peer) list"
  ck_requests :: "string list"
  ck_connected :: "(string \<times> bool) list"
  ck_notes :: "connect_note list"
  ck_exceptions :: nat

definition ConnectKnown_new :: "ConnectionMethods \<Rightarrow> ConnectKnown" where
  "ConnectKnown_new methods =
     \<lparr>ck_methods = methods, ck_stage = Connect_INVALID, ck_peers = [], ck_requests = [], ck_connected = [], ck_notes = [],
      ck_exceptions = 0\<rparr>"

definition FindPeerByName :: "string \<Rightarrow> ConnectKnown \<Rightarrow> Peer option" where
  "FindPeerByName name ck = map_of (ck_peers ck) name"

definition update_peer :: "string \<Rightarrow> (Peer \<Rightarrow> Peer) \<Rightarrow> ConnectKnown \<Rightarrow> ConnectKnown" where
  "update_peer name f ck = ck\<lparr>ck_peers := map (\<lambda>(n, p). (n, if n = name then f p else p)) (ck_peers ck)\<rparr>"

abbreviation set_stage :: "string \<Rightarrow> PeerStage \<Rightarrow> ConnectKnown \<Rightarrow> ConnectKnown" where
  "set_stage name stage \<equiv> update_peer name (\<lambda>p. p\<lparr>kp_stage := stage\<rparr>)"

abbreviation stages :: "ConnectKnown \<Rightarrow> PeerStage list" where
  "stages ck \<equiv> map (\<lambda>(n, p). kp_stage p) (ck_peers ck)"

section \<open>Progress of the whole\<close>

definition notify :: "ConnectStage \<Rightarrow> connect_note \<Rightarrow> ConnectKnown \<Rightarrow> ConnectKnown" where
  "notify stage note ck = ck\<lparr>ck_stage := stage, ck_notes := ck_notes ck @ [note]\<rparr>"

definition UpdateStage :: "ConnectKnown \<Rightarrow> ConnectKnown" where
  "UpdateStage ck =
     (if ck_stage ck = Connect_INVALID then ck
      else if ck_stage ck = Connect_ALL_REPLIES_RECEIVED \<or> ck_stage ck = Connect_FAILURE then ck
      else if list_ex (\<lambda>s. s = Stage_FAILURE) (stages ck) then notify Connect_FAILURE KnownFailure ck
      else if ck_stage ck = Connect_CONNECTING \<and> \<not> list_all (\<lambda>s. s \<ge> Stage_WAITING_FOR_REPLY) (stages ck) then ck
      else let ck = (if ck_stage ck = Connect_CONNECTING
                     then notify Connect_WAITING_FOR_ALL_REPLIES KnownWaitingForAllReplies ck else ck)
           in if ck_stage ck = Connect_WAITING_FOR_ALL_REPLIES
              then if \<not> list_all (\<lambda>s. s \<ge> Stage_REPLY_RECEIVED) (stages ck) then ck
                   else notify Connect_ALL_REPLIES_RECEIVED KnownAllRepliesReceived ck
              else ck)"

definition HasFailed :: "string \<Rightarrow> string \<Rightarrow> ConnectKnown \<Rightarrow> ConnectKnown" where
  "HasFailed name reason ck =
     UpdateStage (update_peer name (\<lambda>p. p\<lparr>kp_failureReason := '' '' @ reason, kp_stage := Stage_FAILURE\<rparr>) ck)"

section \<open>Ways to reach a participant\<close>

definition Cap_ProxyMessage :: string where
  "Cap_ProxyMessage = ''proxy-message''"

definition Cap_RequestParticipantConnection :: string where
  "Cap_RequestParticipantConnection = ''request-participant-connection-v2''"

text \<open>An empty string is an empty set of capabilities; \<^verbatim>\<open>None\<close> is the exception of the parser.\<close>

definition capabilities_of :: "ConnectionMethods \<Rightarrow> string \<Rightarrow> string list option" where
  "capabilities_of methods s = (if s = [] then Some [] else cm_ParseCapabilities methods s)"

text \<open>A capability string that cannot be parsed is caught here, and means that the request is not possible.\<close>

definition TryRemoteConnectRequest :: "VAsioPeerInfo \<Rightarrow> ConnectKnown \<Rightarrow> bool \<times> ConnectKnown" where
  "TryRemoteConnectRequest info ck =
     (if Cap_RequestParticipantConnection \<notin> set (cm_capabilities (ck_methods ck)) then (False, ck)
      else case capabilities_of (ck_methods ck) (pi_capabilities info) of
        None \<Rightarrow> (False, ck)
      | Some caps \<Rightarrow>
          if Cap_RequestParticipantConnection \<notin> set caps then (False, ck)
          else (True, ck\<lparr>ck_requests := ck_requests ck @ [pi_participantName info]\<rparr>))"

text \<open>It is not caught here: the first component is \<open>None\<close> for the exception.\<close>

definition TryProxyConnect :: "VAsioPeerInfo \<Rightarrow> ConnectKnown \<Rightarrow> bool option \<times> ConnectKnown" where
  "TryProxyConnect info ck =
     (if Cap_ProxyMessage \<notin> set (cm_capabilities (ck_methods ck)) then (Some False, ck)
      else case capabilities_of (ck_methods ck) (pi_capabilities info) of
        None \<Rightarrow> (None, ck)
      | Some caps \<Rightarrow>
          if Cap_ProxyMessage \<notin> set caps then (Some False, ck)
          else (Some True, ck\<lparr>ck_connected := ck_connected ck @ [(pi_participantName info, True)]\<rparr>))"

text \<open>The common end of the three handlers that fall back to the proxy.\<close>

definition proxy_or_fail :: "string \<Rightarrow> string \<Rightarrow> VAsioPeerInfo \<Rightarrow> ConnectKnown \<Rightarrow> ConnectKnown" where
  "proxy_or_fail name reason info ck =
     (let (result, ck) = TryProxyConnect info (set_stage name Stage_WAITING_FOR_REPLY ck)
      in case result of
           None \<Rightarrow> ck\<lparr>ck_exceptions := ck_exceptions ck + 1\<rparr>
         | Some True \<Rightarrow> UpdateStage ck
         | Some False \<Rightarrow> HasFailed name reason ck)"

section \<open>Handlers\<close>

definition Peer_StartConnecting :: "ConnectionMethods \<Rightarrow> Peer \<Rightarrow> Peer" where
  "Peer_StartConnecting methods p =
     p\<lparr>kp_stage := Stage_DIRECT,
       kp_direct := Some (AsyncConnect 1 (ConnectPeer_new (cm_Resolve methods) (kp_info p) (cm_enableDomainSockets methods)))\<rparr>"

definition emplace_peer :: "VAsioPeerInfo \<Rightarrow> (string \<times> Peer) list \<Rightarrow> (string \<times> Peer) list" where
  "emplace_peer info ps =
     (if map_of ps (pi_participantName info) \<noteq> None then ps
      else ps @ [(pi_participantName info,
             \<lparr>kp_info = info, kp_stage = Stage_INVALID, kp_direct = None, kp_timer = False, kp_failureReason = []\<rparr>)])"

text \<open>\<^verbatim>\<open>None\<close> is the failed assertion of a second call.\<close>

definition StartConnecting :: "VAsioPeerInfo list \<Rightarrow> ConnectKnown \<Rightarrow> ConnectKnown option" where
  "StartConnecting knownParticipants ck =
     (if ck_stage ck \<noteq> Connect_INVALID then None
      else let ps = fold emplace_peer knownParticipants (ck_peers ck)
           in Some (UpdateStage (ck\<lparr>ck_stage := Connect_CONNECTING,
                ck_peers := map (\<lambda>(n, p). (n, Peer_StartConnecting (ck_methods ck) p)) ps\<rparr>)))"

definition known_OnConnectPeerSuccess :: "string \<Rightarrow> ConnectKnown \<Rightarrow> ConnectKnown" where
  "known_OnConnectPeerSuccess name ck =
     (let ck = update_peer name (\<lambda>p. p\<lparr>kp_direct := None, kp_stage := Stage_WAITING_FOR_REPLY\<rparr>) ck
      in UpdateStage (ck\<lparr>ck_connected := ck_connected ck @ [(name, False)]\<rparr>))"

definition known_OnConnectPeerFailure :: "string \<Rightarrow> VAsioPeerInfo \<Rightarrow> ConnectKnown \<Rightarrow> ConnectKnown" where
  "known_OnConnectPeerFailure name info ck =
     (let ck = update_peer name (\<lambda>p. p\<lparr>kp_direct := None, kp_stage := Stage_REMOTE_CONNECT_REQUESTED\<rparr>) ck;
          (requested, ck) = TryRemoteConnectRequest info ck
      in if requested then UpdateStage (update_peer name (\<lambda>p. p\<lparr>kp_timer := True\<rparr>) ck)
         else proxy_or_fail name
                ''because direct connection failed, and both remote-connect, as well as proxy-connection are not available'' info ck)"

definition known_OnTimerExpired :: "string \<Rightarrow> Peer \<Rightarrow> ConnectKnown \<Rightarrow> ConnectKnown" where
  "known_OnTimerExpired name p ck =
     (let ck = update_peer name (\<lambda>p. p\<lparr>kp_timer := False\<rparr>) ck
      in if kp_stage p \<noteq> Stage_REMOTE_CONNECT_REQUESTED then ck
         else proxy_or_fail name
                ''because direct connection failed, remote connections timed out, and proxy-connection is not available''
                (kp_info p) ck)"

definition Peer_HandleEvent :: "string \<Rightarrow> Peer \<Rightarrow> PeerEvent \<Rightarrow> ConnectKnown \<Rightarrow> ConnectKnown" where
  "Peer_HandleEvent name p event ck = (case event of
     REMOTE_PARTICIPANT_IS_CONNECTING \<Rightarrow>
       if kp_stage p \<noteq> Stage_REMOTE_CONNECT_REQUESTED then ck
       else UpdateStage (set_stage name Stage_REMOTE_IS_CONNECTING ck)
   | REMOTE_PARTICIPANT_FAILED_TO_CONNECT \<Rightarrow>
       if kp_stage p \<noteq> Stage_REMOTE_CONNECT_REQUESTED \<and> kp_stage p \<noteq> Stage_REMOTE_IS_CONNECTING then ck
       else proxy_or_fail name
              ''because direct connection failed, the remote was unable to connect, and proxy-connection is not available''
              (kp_info p) ck
   | REMOTE_PARTICIPANT_ANNOUNCEMENT \<Rightarrow>
       if kp_stage p \<noteq> Stage_REMOTE_CONNECT_REQUESTED \<and> kp_stage p \<noteq> Stage_REMOTE_IS_CONNECTING then ck
       else UpdateStage (set_stage name Stage_WAITING_FOR_REPLY ck)
   | PARTICIPANT_ANNOUNCEMENT_REPLY \<Rightarrow>
       if kp_stage p \<noteq> Stage_WAITING_FOR_REPLY then ck
       else UpdateStage (set_stage name Stage_REPLY_RECEIVED ck))"

definition HandlePeerEvent :: "string \<Rightarrow> PeerEvent \<Rightarrow> ConnectKnown \<Rightarrow> ConnectKnown" where
  "HandlePeerEvent participantName event ck = (case FindPeerByName participantName ck of
     None \<Rightarrow> ck
   | Some p \<Rightarrow> Peer_HandleEvent participantName p event ck)"

fun intersperse_str :: "string \<Rightarrow> string list \<Rightarrow> string list" where
  "intersperse_str sep (x # y # xs) = x # sep # intersperse_str sep (y # xs)"
| "intersperse_str sep xs = xs"

definition Peer_Describe :: "Peer \<Rightarrow> string" where
  "Peer_Describe p =
     pi_participantName (kp_info p) @ '' ('' @ concat (intersperse_str '', '' (pi_acceptorUris (kp_info p))) @ '') '' @
     (case kp_stage p of
        Stage_INVALID \<Rightarrow> ''has not started connecting''
      | Stage_FAILURE \<Rightarrow> ''has failed'' @ kp_failureReason p
      | Stage_DIRECT \<Rightarrow> ''is connecting directly''
      | Stage_REMOTE_CONNECT_REQUESTED \<Rightarrow> ''has requested remote connection''
      | Stage_REMOTE_IS_CONNECTING \<Rightarrow> ''is connecting remotely''
      | Stage_WAITING_FOR_REPLY \<Rightarrow> ''is waiting for reply''
      | Stage_REPLY_RECEIVED \<Rightarrow> ''is connected'')"

definition Describe :: "ConnectKnown \<Rightarrow> string" where
  "Describe ck = (if ck_peers ck = [] then ''no participants''
     else concat (intersperse_str ''; '' (map (\<lambda>(n, p). Peer_Describe p) (ck_peers ck))))"

text \<open>A step of the direct connection, which calls its listener when the step ends it.\<close>

definition direct_step :: "string \<Rightarrow> Peer \<Rightarrow> ConnectPeer \<Rightarrow> connect_event \<Rightarrow> ConnectKnown \<Rightarrow> ConnectKnown" where
  "direct_step name p c e ck =
     (let c' = connect_step e c; ck = update_peer name (\<lambda>p. p\<lparr>kp_direct := Some c'\<rparr>) ck
      in if cp_outcomes c' = cp_outcomes c then ck
         else if last (cp_outcomes c') then known_OnConnectPeerSuccess name ck
         else known_OnConnectPeerFailure name (kp_info p) ck)"

datatype known_event = DirectEvent string connect_event | TimerEvent string | RemoteEvent string PeerEvent

definition known_step :: "known_event \<Rightarrow> ConnectKnown \<Rightarrow> ConnectKnown option" where
  "known_step event ck = (case event of
     DirectEvent name e \<Rightarrow> (case FindPeerByName name ck of
       None \<Rightarrow> None
     | Some p \<Rightarrow> (case kp_direct p of
         None \<Rightarrow> None
       | Some c \<Rightarrow> if connect_enabled e c then Some (direct_step name p c e ck) else None))
   | TimerEvent name \<Rightarrow> (case FindPeerByName name ck of
       None \<Rightarrow> None
     | Some p \<Rightarrow> if kp_timer p then Some (known_OnTimerExpired name p ck) else None)
   | RemoteEvent name e \<Rightarrow> Some (HandlePeerEvent name e ck))"

fun known_run :: "known_event list \<Rightarrow> ConnectKnown \<Rightarrow> ConnectKnown option" where
  "known_run [] ck = Some ck"
| "known_run (e # es) ck = (case known_step e ck of None \<Rightarrow> None | Some ck' \<Rightarrow> known_run es ck')"

section \<open>What the listener is told\<close>

text \<open>The calls of the listener, and the stage of the whole, as a function of the stages of the participants.\<close>

definition reached :: "PeerStage list \<Rightarrow> ConnectStage \<times> connect_note list" where
  "reached ss =
     (if Stage_FAILURE \<in> set ss then (Connect_FAILURE, [KnownFailure])
      else if \<forall>s \<in> set ss. s = Stage_REPLY_RECEIVED
      then (Connect_ALL_REPLIES_RECEIVED, [KnownWaitingForAllReplies, KnownAllRepliesReceived])
      else if \<forall>s \<in> set ss. s \<in> {Stage_WAITING_FOR_REPLY, Stage_REPLY_RECEIVED}
      then (Connect_WAITING_FOR_ALL_REPLIES, [KnownWaitingForAllReplies])
      else (Connect_CONNECTING, []))"

definition reported :: "ConnectKnown \<Rightarrow> ConnectStage \<times> connect_note list" where
  "reported ck = (ck_stage ck, ck_notes ck)"

text \<open>A participant that failed or was reached stays so.\<close>

definition stage_ok :: "PeerStage \<Rightarrow> PeerStage \<Rightarrow> bool" where
  "stage_ok s t \<longleftrightarrow> s = t \<or> s \<notin> {Stage_FAILURE, Stage_WAITING_FOR_REPLY, Stage_REPLY_RECEIVED} \<or>
     (s = Stage_WAITING_FOR_REPLY \<and> t = Stage_REPLY_RECEIVED)"

lemma ge_WAITING [simp]: "Stage_WAITING_FOR_REPLY \<le> s \<longleftrightarrow> s \<in> {Stage_WAITING_FOR_REPLY, Stage_REPLY_RECEIVED}"
  by (cases s) (simp_all add: less_eq_PeerStage_def)

lemma ge_REPLY [simp]: "Stage_REPLY_RECEIVED \<le> s \<longleftrightarrow> s = Stage_REPLY_RECEIVED"
  by (cases s) (simp_all add: less_eq_PeerStage_def)

lemma stages_stay:
  assumes "list_all2 stage_ok ss ts"
  shows "Stage_FAILURE \<in> set ss \<Longrightarrow> Stage_FAILURE \<in> set ts"
    and "\<forall>s \<in> set ss. s = Stage_REPLY_RECEIVED \<Longrightarrow> \<forall>s \<in> set ts. s = Stage_REPLY_RECEIVED"
    and "\<forall>s \<in> set ss. s \<in> {Stage_WAITING_FOR_REPLY, Stage_REPLY_RECEIVED} \<Longrightarrow>
         \<forall>s \<in> set ts. s \<in> {Stage_WAITING_FOR_REPLY, Stage_REPLY_RECEIVED}"
  using assms by (induction rule: list_all2_induct) (auto simp: stage_ok_def)

lemma UpdateStage_keeps [simp]:
  "ck_peers (UpdateStage ck) = ck_peers ck" "ck_methods (UpdateStage ck) = ck_methods ck"
  "ck_exceptions (UpdateStage ck) = ck_exceptions ck" "ck_requests (UpdateStage ck) = ck_requests ck"
  "ck_connected (UpdateStage ck) = ck_connected ck"
  by (auto simp: UpdateStage_def notify_def Let_def)

lemma UpdateStage_reported:
  assumes "reported ck = reached ss" "list_all2 stage_ok ss (stages ck)"
  shows "reported (UpdateStage ck) = reached (stages ck)"
proof -
  note stay = stages_stay[OF assms(2)]
  consider (failure) "Stage_FAILURE \<in> set ss"
    | (replied) "Stage_FAILURE \<notin> set ss" "\<forall>s \<in> set ss. s = Stage_REPLY_RECEIVED"
    | (waiting) "Stage_FAILURE \<notin> set ss" "\<not> (\<forall>s \<in> set ss. s = Stage_REPLY_RECEIVED)"
        "\<forall>s \<in> set ss. s \<in> {Stage_WAITING_FOR_REPLY, Stage_REPLY_RECEIVED}"
    | (other) "Stage_FAILURE \<notin> set ss" "\<not> (\<forall>s \<in> set ss. s \<in> {Stage_WAITING_FOR_REPLY, Stage_REPLY_RECEIVED})"
    by blast
  then show ?thesis
  proof cases
    case failure
    then show ?thesis using stay(1) assms(1) by (simp add: reported_def reached_def UpdateStage_def)
  next
    case replied
    then have "Stage_FAILURE \<notin> set (stages ck)" using stay(2) by force
    then show ?thesis using stay(2) replied assms(1) by (simp add: reported_def reached_def UpdateStage_def)
  next
    case waiting
    then have "Stage_FAILURE \<notin> set (stages ck)" using stay(3) by force
    moreover have "reached ss = (Connect_WAITING_FOR_ALL_REPLIES, [KnownWaitingForAllReplies])"
      unfolding reached_def if_not_P[OF waiting(1)] if_not_P[OF waiting(2)] if_P[OF waiting(3)] ..
    then have "ck_stage ck = Connect_WAITING_FOR_ALL_REPLIES" "ck_notes ck = [KnownWaitingForAllReplies]"
      using assms(1) by (simp_all add: reported_def)
    ultimately show ?thesis
      using stay(3)[OF waiting(3)]
      by (auto simp: reported_def reached_def UpdateStage_def notify_def list_all_iff list_ex_iff Let_def)
  next
    case other
    have "ck_stage ck = Connect_CONNECTING" "ck_notes ck = []"
      using other assms(1) by (auto simp: reported_def reached_def split: if_splits)
    then show ?thesis
      by (auto simp: reported_def reached_def UpdateStage_def notify_def list_all_iff list_ex_iff Let_def)
  qed
qed

section \<open>Invariant and measure\<close>

definition peer_inv :: "VAsioPeerInfo list \<Rightarrow> string \<times> Peer \<Rightarrow> bool" where
  "peer_inv infos = (\<lambda>(n, p). kp_info p \<in> set infos \<and> pi_participantName (kp_info p) = n \<and> kp_stage p \<noteq> Stage_INVALID \<and>
     (kp_stage p = Stage_REMOTE_CONNECT_REQUESTED \<longrightarrow> kp_timer p) \<and>
     (case kp_direct p of
        None \<Rightarrow> kp_stage p \<noteq> Stage_DIRECT
      | Some c \<Rightarrow> kp_stage p = Stage_DIRECT \<and> \<not> kp_timer p \<and> connect_inv c \<and> connect_rounds 1 c \<and> cp_outcomes c = []))"

definition known_inv :: "VAsioPeerInfo list \<Rightarrow> ConnectKnown \<Rightarrow> bool" where
  "known_inv infos ck \<longleftrightarrow> list_all (peer_inv infos) (ck_peers ck) \<and> distinct (map fst (ck_peers ck)) \<and>
     set (map fst (ck_peers ck)) = pi_participantName ` set infos \<and>
     (ck_exceptions ck = 0 \<longrightarrow> reported ck = reached (stages ck)) \<and>
     ((\<forall>info \<in> set infos. capabilities_of (ck_methods ck) (pi_capabilities info) \<noteq> None) \<longrightarrow> ck_exceptions ck = 0)"

fun stage_work :: "PeerStage \<Rightarrow> nat" where
  "stage_work Stage_INVALID = 0"
| "stage_work Stage_DIRECT = 5"
| "stage_work Stage_REMOTE_CONNECT_REQUESTED = 3"
| "stage_work Stage_REMOTE_IS_CONNECTING = 2"
| "stage_work Stage_WAITING_FOR_REPLY = 1"
| "stage_work Stage_REPLY_RECEIVED = 0"
| "stage_work Stage_FAILURE = 0"

definition peer_work :: "Peer \<Rightarrow> nat" where
  "peer_work p = stage_work (kp_stage p) + (if kp_timer p then 1 else 0) +
     (case kp_direct p of None \<Rightarrow> 0 | Some c \<Rightarrow> connect_work c)"

definition known_work :: "ConnectKnown \<Rightarrow> nat" where
  "known_work ck = sum_list (map (peer_work \<circ> snd) (ck_peers ck))"

lemma update_peer_keeps [simp]:
  "ck_methods (update_peer name f ck) = ck_methods ck" "ck_exceptions (update_peer name f ck) = ck_exceptions ck"
  "reported (update_peer name f ck) = reported ck" "map fst (ck_peers (update_peer name f ck)) = map fst (ck_peers ck)"
  by (auto simp: update_peer_def reported_def)

lemma work_UpdateStage [simp]: "known_work (UpdateStage ck) = known_work ck"
  by (simp add: known_work_def)

text \<open>What changes when one participant does.\<close>

lemma update_peer_at:
  assumes "distinct (map fst (ck_peers ck))" "FindPeerByName name ck = Some p"
  obtains xs ys where "ck_peers ck = xs @ (name, p) # ys"
    "\<And>f. ck_peers (update_peer name f ck) = xs @ (name, f p) # ys"
proof -
  have "(name, p) \<in> set (ck_peers ck)" using assms(2) by (simp add: FindPeerByName_def map_of_SomeD)
  then obtain xs ys where split: "ck_peers ck = xs @ (name, p) # ys" by (meson split_list)
  have other: "map (\<lambda>(n, p). (n, if n = name then f p else p)) zs = zs" if "name \<notin> fst ` set zs" for f :: "Peer \<Rightarrow> Peer" and zs
    using that by (induction zs) (auto split: prod.splits)
  have "name \<notin> fst ` set xs" "name \<notin> fst ` set ys" using assms(1) split by auto
  then have "ck_peers (update_peer name f ck) = xs @ (name, f p) # ys" for f
    using split by (simp add: update_peer_def other)
  then show thesis using split that by blast
qed

text \<open>The participant \<open>p\<close> becomes \<open>q\<close>, and the rest stays; the listener was told what is due, or an exception left the handler.\<close>

definition comes_closer :: "VAsioPeerInfo list \<Rightarrow> ConnectKnown \<Rightarrow> ConnectKnown \<Rightarrow> bool" where
  "comes_closer infos ck ck' \<longleftrightarrow>
     known_inv infos ck' \<and> known_work ck' < known_work ck \<and> ck_methods ck' = ck_methods ck"

lemma known_change:
  assumes "known_inv infos ck" "FindPeerByName name ck = Some p"
    and "ck_peers ck' = ck_peers (update_peer name (\<lambda>_. q) ck)" "ck_methods ck' = ck_methods ck"
    and "peer_inv infos (name, q)" "stage_ok (kp_stage p) (kp_stage q)" "peer_work q < peer_work p"
    and "ck_exceptions ck = 0 \<Longrightarrow> ck_exceptions ck' = 0 \<and> reported ck' = reported (UpdateStage (update_peer name (\<lambda>_. q) ck)) \<or>
         ck_exceptions ck' > 0 \<and> capabilities_of (ck_methods ck) (pi_capabilities (kp_info p)) = None"
    and "ck_exceptions ck \<le> ck_exceptions ck'"
  shows "comes_closer infos ck ck'"
proof -
  obtain xs ys where at: "ck_peers ck = xs @ (name, p) # ys" "ck_peers ck' = xs @ (name, q) # ys"
    using update_peer_at[OF _ assms(2)] assms(1,3) unfolding known_inv_def by metis
  have "list_all2 stage_ok (stages ck) (stages ck')"
    using at assms(6) by (auto simp: list_all2_append list_all2_refl stage_ok_def intro!: list_all2_appendI)
  then have "reported (UpdateStage (update_peer name (\<lambda>_. q) ck)) = reached (stages ck')" if "ck_exceptions ck = 0"
    using UpdateStage_reported[of "update_peer name (\<lambda>_. q) ck" "stages ck"] assms(1,3) that by (simp add: known_inv_def)
  moreover have "kp_info p \<in> set infos" using assms(1) at by (simp add: known_inv_def peer_inv_def)
  ultimately show ?thesis
    using assms(1,4,5,7,8,9) at by (auto simp: known_inv_def known_work_def comes_closer_def)
qed

lemma update_peer_update_peer [simp]: "update_peer name f (update_peer name g ck) = update_peer name (f \<circ> g) ck"
  by (auto simp: update_peer_def intro!: ConnectKnown.unfold_congs)

lemma update_peer_const:
  assumes "known_inv infos ck" "FindPeerByName name ck = Some p"
  shows "update_peer name f ck = update_peer name (\<lambda>_. f p) ck"
proof -
  obtain xs ys where "\<And>f. ck_peers (update_peer name f ck) = xs @ (name, f p) # ys"
    using update_peer_at[OF _ assms(2)] assms(1) unfolding known_inv_def by metis
  then have "ck_peers (update_peer name f ck) = ck_peers (update_peer name (\<lambda>_. f p) ck)" by simp
  then show ?thesis by (simp add: update_peer_def)
qed

lemma update_peer_fields [simp]:
  "update_peer name f (ck\<lparr>ck_connected := c\<rparr>) = (update_peer name f ck)\<lparr>ck_connected := c\<rparr>"
  "update_peer name f (ck\<lparr>ck_requests := r\<rparr>) = (update_peer name f ck)\<lparr>ck_requests := r\<rparr>"
  "ck_requests (update_peer name f ck) = ck_requests ck" "ck_connected (update_peer name f ck) = ck_connected ck"
  by (auto simp: update_peer_def)

lemma reported_fields [simp]:
  "reported (ck\<lparr>ck_connected := c\<rparr>) = reported ck" "reported (ck\<lparr>ck_requests := r\<rparr>) = reported ck"
  "reported (UpdateStage (ck\<lparr>ck_connected := c\<rparr>)) = reported (UpdateStage ck)"
  "reported (UpdateStage (ck\<lparr>ck_requests := r\<rparr>)) = reported (UpdateStage ck)"
  by (auto simp: reported_def UpdateStage_def notify_def Let_def)

text \<open>A handler that moves a participant and updates the stage of the whole.\<close>

lemma moved:
  assumes "known_inv infos ck" "FindPeerByName name ck = Some p"
    and "peer_inv infos (name, f p)" "stage_ok (kp_stage p) (kp_stage (f p))" "peer_work (f p) < peer_work p"
  shows "comes_closer infos ck (UpdateStage (update_peer name f ck))"
    and "comes_closer infos ck (UpdateStage ((update_peer name f ck)\<lparr>ck_connected := c\<rparr>))"
    and "comes_closer infos ck (UpdateStage ((update_peer name f ck)\<lparr>ck_requests := r\<rparr>))"
  unfolding update_peer_const[OF assms(1,2), of f]
  by (rule known_change[OF assms(1,2) _ _ assms(3-5)]; simp)+

lemma TryProxyConnect_cases:
  obtains (threw) "TryProxyConnect info ck = (None, ck)" "capabilities_of (ck_methods ck) (pi_capabilities info) = None"
  | (refused) "TryProxyConnect info ck = (Some False, ck)"
  | (accepted) c where "TryProxyConnect info ck = (Some True, ck\<lparr>ck_connected := c\<rparr>)"
proof (cases "capabilities_of (ck_methods ck) (pi_capabilities info)")
  case None
  then show ?thesis
    using that by (cases "Cap_ProxyMessage \<in> set (cm_capabilities (ck_methods ck))") (simp_all add: TryProxyConnect_def)
next
  case (Some caps)
  then show ?thesis
    using that
    by (cases "Cap_ProxyMessage \<in> set (cm_capabilities (ck_methods ck))"; cases "Cap_ProxyMessage \<in> set caps")
       (simp_all add: TryProxyConnect_def)
qed

lemma proxied:
  assumes "known_inv infos ck" "FindPeerByName name ck = Some p"
    and "kp_stage p \<in> {Stage_DIRECT, Stage_REMOTE_CONNECT_REQUESTED, Stage_REMOTE_IS_CONNECTING}"
    and "kp_info (g p) = kp_info p" "kp_direct (g p) = None" "1 + (if kp_timer (g p) then 1 else 0) < peer_work p"
  shows "comes_closer infos ck (proxy_or_fail name reason (kp_info p) (update_peer name g ck))"
proof -
  let ?w = "(\<lambda>p. p\<lparr>kp_stage := Stage_WAITING_FOR_REPLY\<rparr>) \<circ> g"
  have inv: "peer_inv infos (name, p)"
    using assms(1,2) by (auto simp: known_inv_def FindPeerByName_def list_all_iff dest: map_of_SomeD)
  have w: "peer_inv infos (name, ?w p)" "stage_ok (kp_stage p) (kp_stage (?w p))" "peer_work (?w p) < peer_work p"
    using inv assms(3-6) by (auto simp: peer_inv_def stage_ok_def peer_work_def)
  have fail: "peer_inv infos (name, ((\<lambda>p. p\<lparr>kp_failureReason := r, kp_stage := Stage_FAILURE\<rparr>) \<circ> ?w) p)"
    "stage_ok (kp_stage p) (kp_stage (((\<lambda>p. p\<lparr>kp_failureReason := r, kp_stage := Stage_FAILURE\<rparr>) \<circ> ?w) p))"
    "peer_work (((\<lambda>p. p\<lparr>kp_failureReason := r, kp_stage := Stage_FAILURE\<rparr>) \<circ> ?w) p) < peer_work p" for r
    using inv assms(3-6) by (auto simp: peer_inv_def stage_ok_def peer_work_def)
  show ?thesis
  proof (cases rule: TryProxyConnect_cases[of "kp_info p" "update_peer name ?w ck"])
    case threw
    then show ?thesis
      unfolding proxy_or_fail_def update_peer_update_peer threw(1)
      using update_peer_const[OF assms(1,2), of ?w]
      by (simp, intro known_change[OF assms(1,2) _ _ w]) (simp_all add: reported_def)
  next
    case refused
    then show ?thesis
      using moved(1)[where f = "(\<lambda>p. p\<lparr>kp_failureReason := '' '' @ reason, kp_stage := Stage_FAILURE\<rparr>) \<circ> ?w",
          OF assms(1,2) fail]
      by (simp add: proxy_or_fail_def HasFailed_def)
  next
    case (accepted c)
    then show ?thesis using moved(2)[where f = ?w, OF assms(1,2) w, of c] by (simp add: proxy_or_fail_def)
  qed
qed

lemma found_inv:
  assumes "known_inv infos ck" "FindPeerByName name ck = Some p"
  shows "peer_inv infos (name, p)"
  using assms by (auto simp: known_inv_def FindPeerByName_def list_all_iff dest: map_of_SomeD)

lemma update_peer_id: "update_peer name (\<lambda>p. p) ck = ck"
  by (simp add: update_peer_def)

lemmas peer_simps = peer_inv_def stage_ok_def peer_work_def

lemma requested_or_connecting:
  assumes "known_inv infos ck" "FindPeerByName name ck = Some p"
    and "kp_stage p \<in> {Stage_REMOTE_CONNECT_REQUESTED, Stage_REMOTE_IS_CONNECTING}"
  shows "comes_closer infos ck (proxy_or_fail name reason (kp_info p) ck)"
    and "comes_closer infos ck (UpdateStage (set_stage name Stage_WAITING_FOR_REPLY ck))"
  using proxied[where g = "\<lambda>p. p", OF assms(1,2), unfolded update_peer_id, of reason]
    moved(1)[OF assms(1,2), of "kp_stage_update (\<lambda>_. Stage_WAITING_FOR_REPLY)"]
    found_inv[OF assms(1,2)] assms(3)
  by (auto simp: peer_simps split: option.splits)

lemma HandlePeerEvent_inv:
  assumes "known_inv infos ck"
  shows "HandlePeerEvent name e ck = ck \<or> comes_closer infos ck (HandlePeerEvent name e ck)"
proof (cases "FindPeerByName name ck")
  case (Some p)
  note inv = found_inv[OF assms Some]
  have "Peer_HandleEvent name p e ck = ck \<or> comes_closer infos ck (Peer_HandleEvent name p e ck)"
  proof (cases e)
    case REMOTE_PARTICIPANT_IS_CONNECTING
    then show ?thesis
      using moved(1)[OF assms Some, of "kp_stage_update (\<lambda>_. Stage_REMOTE_IS_CONNECTING)"] inv
      by (auto simp: Peer_HandleEvent_def peer_simps split: option.splits)
  next
    case PARTICIPANT_ANNOUNCEMENT_REPLY
    then show ?thesis
      using moved(1)[OF assms Some, of "kp_stage_update (\<lambda>_. Stage_REPLY_RECEIVED)"] inv
      by (auto simp: Peer_HandleEvent_def peer_simps split: option.splits)
  qed (use requested_or_connecting[OF assms Some] in \<open>auto simp: Peer_HandleEvent_def\<close>)
  then show ?thesis by (simp add: HandlePeerEvent_def Some)
qed (simp add: HandlePeerEvent_def)

text \<open>A change of one participant that leaves its stage alone.\<close>

lemma stayed:
  assumes "known_inv infos ck" "FindPeerByName name ck = Some p"
    and "peer_inv infos (name, f p)" "kp_stage (f p) = kp_stage p" "peer_work (f p) < peer_work p"
  shows "comes_closer infos ck (update_peer name f ck)"
proof -
  obtain xs ys where at: "ck_peers ck = xs @ (name, p) # ys" "ck_peers (update_peer name f ck) = xs @ (name, f p) # ys"
    using update_peer_at[OF _ assms(2)] assms(1) unfolding known_inv_def by metis
  then show ?thesis
    using assms(1,3-5) by (auto simp: comes_closer_def known_inv_def known_work_def)
qed

lemma known_OnTimerExpired_inv:
  assumes "known_inv infos ck" "FindPeerByName name ck = Some p" "kp_timer p"
  shows "comes_closer infos ck (known_OnTimerExpired name p ck)"
  using proxied[where g = "\<lambda>p. p\<lparr>kp_timer := False\<rparr>", OF assms(1,2)] stayed[of infos ck name p "kp_timer_update (\<lambda>_. False)"]
    assms found_inv[OF assms(1,2)]
  by (auto simp: known_OnTimerExpired_def peer_simps Let_def split: option.splits)

lemma direct_step_inv:
  assumes "known_inv infos ck" "FindPeerByName name ck = Some p" "kp_direct p = Some c" "connect_enabled e c"
  shows "comes_closer infos ck (direct_step name p c e ck)"
proof -
  have p: "kp_stage p = Stage_DIRECT" "\<not> kp_timer p" "connect_inv c" "connect_rounds 1 c" "cp_outcomes c = []"
    "kp_info p \<in> set infos" "pi_participantName (kp_info p) = name"
    using found_inv[OF assms(1,2)] assms(3) by (auto simp: peer_inv_def)
  define c' where "c' = connect_step e c"
  have c': "connect_inv c'" "connect_work c' < connect_work c" "connect_rounds 1 c'"
    using connect_step_inv[OF p(3) assms(4) p(4)] by (auto simp: c'_def)
  let ?d = "\<lambda>p. p\<lparr>kp_direct := Some c'\<rparr>"
  consider (going) "cp_outcomes c' = []" | (success) "cp_outcomes c' \<noteq> []" "last (cp_outcomes c')"
    | (failure) "cp_outcomes c' \<noteq> []" "\<not> last (cp_outcomes c')" by blast
  then show ?thesis
  proof cases
    case going
    then show ?thesis
      using stayed[where f = ?d, OF assms(1,2)] p c' assms(3)
      by (simp add: direct_step_def peer_simps flip: c'_def)
  next
    case success
    then show ?thesis
      using moved(2)[where f = "(\<lambda>p. p\<lparr>kp_direct := None, kp_stage := Stage_WAITING_FOR_REPLY\<rparr>) \<circ> ?d", OF assms(1,2)]
        p assms(3) by (simp add: direct_step_def known_OnConnectPeerSuccess_def peer_simps flip: c'_def)
  next
    case failure
    let ?r = "(\<lambda>p. p\<lparr>kp_direct := None, kp_stage := Stage_REMOTE_CONNECT_REQUESTED\<rparr>) \<circ> ?d"
    have "comes_closer infos ck (proxy_or_fail name reason (kp_info p) (update_peer name ?r ck))" for reason
      using proxied[where g = ?r, OF assms(1,2)] p assms(3) by (simp add: peer_work_def)
    moreover have "comes_closer infos ck (UpdateStage ((update_peer name ((\<lambda>p. p\<lparr>kp_timer := True\<rparr>) \<circ> ?r) ck)\<lparr>ck_requests := r\<rparr>))" for r
      using moved(3)[where f = "(\<lambda>p. p\<lparr>kp_timer := True\<rparr>) \<circ> ?r", OF assms(1,2)] p assms(3) by (simp add: peer_simps)
    ultimately show ?thesis
      using failure p(5)
      by (auto simp: direct_step_def known_OnConnectPeerFailure_def TryRemoteConnectRequest_def Let_def comp_assoc
          simp flip: c'_def split: option.splits)
  qed
qed

lemma known_step_inv:
  assumes "known_inv infos ck" "known_step e ck = Some ck'"
  shows "ck' = ck \<or> comes_closer infos ck ck'"
  using assms(2) HandlePeerEvent_inv[OF assms(1)] direct_step_inv[OF assms(1)] known_OnTimerExpired_inv[OF assms(1)]
  by (cases e) (auto simp: known_step_def split: option.splits if_splits)

lemma known_run_inv:
  assumes "known_inv infos ck" "known_run es ck = Some ck'"
  shows "known_inv infos ck' \<and> ck_methods ck' = ck_methods ck"
  using assms
proof (induction es arbitrary: ck)
  case (Cons e es)
  then show ?case using known_step_inv by (fastforce simp: comes_closer_def split: option.splits)
qed simp

definition fresh_peers :: "VAsioPeerInfo list \<Rightarrow> (string \<times> Peer) list \<Rightarrow> bool" where
  "fresh_peers infos ps \<longleftrightarrow> distinct (map fst ps) \<and> set (map fst ps) = pi_participantName ` set infos \<and>
     (\<forall>(n, p) \<in> set ps. kp_info p \<in> set infos \<and> pi_participantName (kp_info p) = n \<and> \<not> kp_timer p)"

lemma emplace_fresh: "fresh_peers infos ps \<Longrightarrow> fresh_peers (infos @ [info]) (emplace_peer info ps)"
  by (auto simp: fresh_peers_def emplace_peer_def map_of_eq_None_iff dest: map_of_SomeD)

lemma fold_emplace_fresh: "fresh_peers infos (fold emplace_peer infos [])"
  by (induction infos rule: rev_induct) (auto simp: fresh_peers_def[of "[]"] intro: emplace_fresh)

lemma started_peer:
  assumes "kp_info p \<in> set infos" "pi_participantName (kp_info p) = n" "\<not> kp_timer p"
  shows "peer_inv infos (n, Peer_StartConnecting methods p)"
  using assms AsyncConnect_inv(1,2)[of 1 "cm_Resolve methods" "kp_info p" "cm_enableDomainSockets methods"]
  by (simp add: peer_inv_def Peer_StartConnecting_def AsyncConnect_def ConnectPeer_new_def)

lemma started_inv:
  assumes "StartConnecting infos (ConnectKnown_new methods) = Some ck"
  shows "known_inv infos ck \<and> ck_methods ck = methods"
proof -
  define ps where "ps = map (\<lambda>(n, p). (n, Peer_StartConnecting methods p)) (fold emplace_peer infos [])"
  have ck: "ck = UpdateStage ((ConnectKnown_new methods)\<lparr>ck_stage := Connect_CONNECTING, ck_peers := ps\<rparr>)"
    using assms by (simp add: StartConnecting_def ConnectKnown_new_def ps_def)
  have names: "map fst ps = map fst (fold emplace_peer infos [])" by (simp add: ps_def case_prod_unfold)
  have "list_all (peer_inv infos) ps"
    using fold_emplace_fresh[of infos] unfolding list_all_iff ps_def fresh_peers_def
    by clarsimp (drule (1) bspec, simp add: started_peer)
  moreover have "reported ck = reached (stages ck)"
  proof (cases ps)
    case Nil
    then show ?thesis by (simp add: ck reported_def reached_def UpdateStage_def notify_def ConnectKnown_new_def)
  next
    case (Cons np nps)
    define start where "start = (ConnectKnown_new methods)\<lparr>ck_stage := Connect_CONNECTING, ck_peers := ps\<rparr>"
    have "set (stages start) = {Stage_DIRECT}"
      using Cons by (force simp: start_def ps_def Peer_StartConnecting_def)
    then have "reported start = reached (stages start)"
      by (simp add: reached_def reported_def) (simp add: start_def ConnectKnown_new_def)
    then show ?thesis
      using UpdateStage_reported[of start "stages start"] by (simp add: ck list_all2_refl stage_ok_def flip: start_def)
  qed
  ultimately show ?thesis
    using fold_emplace_fresh[of infos] names by (auto simp: ck known_inv_def fresh_peers_def ConnectKnown_new_def)
qed

text \<open>
  C7. What is reported about the participants named by the registry: there is one entry for each, and after any sequence of
  events the listener was told exactly what their stages say, each message once and in order: a failure as soon as one of them
  cannot be reached, that all are reached when each has been, and that all have replied when each has; with no participants at
  all, both at once. The capability strings are assumed to be parsable.
\<close>

theorem known_participants_reported:
  assumes "StartConnecting infos (ConnectKnown_new methods) = Some ck0" "known_run es ck0 = Some ck"
    and "\<forall>info \<in> set infos. capabilities_of methods (pi_capabilities info) \<noteq> None"
  shows "set (map fst (ck_peers ck)) = pi_participantName ` set infos \<and> distinct (map fst (ck_peers ck)) \<and>
         ck_notes ck = snd (reached (stages ck)) \<and> ck_exceptions ck = 0"
proof -
  have "known_inv infos ck" "ck_methods ck = methods"
    using started_inv[OF assms(1)] known_run_inv[OF _ assms(2)] by auto
  then show ?thesis using assms(3) by (metis known_inv_def reported_def snd_conv)
qed

text \<open>The participant can be reached neither directly nor otherwise.\<close>

definition sample_methods :: "string list \<Rightarrow> ConnectionMethods" where
  "sample_methods caps = \<lparr>cm_Resolve = (\<lambda>host. Some [host]), cm_enableDomainSockets = True, cm_capabilities = caps,
     cm_ParseCapabilities = (\<lambda>s. None)\<rparr>"

theorem known_participants_reported_witness:
  "\<exists>ck0 ck. StartConnecting [sample_peer_info] (ConnectKnown_new (sample_methods [])) = Some ck0 \<and>
     known_run [DirectEvent ''B'' (RunDispatched True), DirectEvent ''B'' (AttemptFailed False),
       DirectEvent ''B'' (RunDispatched True), DirectEvent ''B'' (RunDispatched True)] ck0 = Some ck \<and>
     stages ck = [Stage_FAILURE] \<and> ck_notes ck = [KnownFailure]"
proof -
  let ?es = "[DirectEvent ''B'' (RunDispatched True), DirectEvent ''B'' (AttemptFailed False),
       DirectEvent ''B'' (RunDispatched True), DirectEvent ''B'' (RunDispatched True)]"
  have "map_option stages (Option.bind (StartConnecting [sample_peer_info] (ConnectKnown_new (sample_methods []))) (known_run ?es))
        = Some [Stage_FAILURE]"
    by code_simp
  then obtain ck0 ck where run: "StartConnecting [sample_peer_info] (ConnectKnown_new (sample_methods [])) = Some ck0"
    "known_run ?es ck0 = Some ck" and s: "stages ck = [Stage_FAILURE]"
    by (auto simp del: known_run.simps simp: bind_eq_Some_conv)
  have "ck_notes ck = snd (reached (stages ck))"
    using known_participants_reported[OF run] by (simp add: capabilities_of_def sample_peer_info_def)
  then show ?thesis using run s by (auto simp: reached_def)
qed

text \<open>
  C9. Connecting to the named participants ends: every event leaves the state as it is or brings it closer to its end, and when
  neither an attempt nor a timer is pending, every participant has failed, was reached, or has said that it is connecting itself.
\<close>

theorem known_connecting_ends:
  assumes "StartConnecting infos (ConnectKnown_new methods) = Some ck0" "known_run es ck0 = Some ck"
  shows "(\<forall>e ck'. known_step e ck = Some ck' \<longrightarrow> ck' = ck \<or> known_work ck' < known_work ck) \<and>
         ((\<forall>name e. known_step (DirectEvent name e) ck = None \<and> known_step (TimerEvent name) ck = None) \<longrightarrow>
            (\<forall>s \<in> set (stages ck). s \<in> {Stage_FAILURE, Stage_REMOTE_IS_CONNECTING, Stage_WAITING_FOR_REPLY, Stage_REPLY_RECEIVED}))"
proof -
  have inv: "known_inv infos ck" using started_inv[OF assms(1)] known_run_inv[OF _ assms(2)] by auto
  have "kp_stage p \<in> {Stage_FAILURE, Stage_REMOTE_IS_CONNECTING, Stage_WAITING_FOR_REPLY, Stage_REPLY_RECEIVED}"
    if none: "\<forall>name e. known_step (DirectEvent name e) ck = None \<and> known_step (TimerEvent name) ck = None"
      and p: "(n, p) \<in> set (ck_peers ck)" for n p
  proof -
    have find: "FindPeerByName n ck = Some p" using inv p by (simp add: known_inv_def FindPeerByName_def map_of_is_SomeI)
    have "known_step (TimerEvent n) ck = None" using none by blast
    then have "\<not> kp_timer p" using find by (auto simp: known_step_def split: if_splits)
    moreover have "kp_direct p = None"
    proof (cases "kp_direct p")
      case (Some c)
      have "\<not> connect_enabled e c" for e
      proof -
        have "known_step (DirectEvent n e) ck = None" using none by blast
        then show ?thesis using find Some by (auto simp: known_step_def split: if_splits)
      qed
      moreover have "connect_inv c" "cp_outcomes c = []" using found_inv[OF inv find] Some by (auto simp: peer_inv_def)
      ultimately show ?thesis using stopped_iff by blast
    qed
    ultimately show ?thesis using found_inv[OF inv find] by (cases "kp_stage p") (auto simp: peer_inv_def)
  qed
  then show ?thesis using known_step_inv[OF inv] by (auto simp: comes_closer_def)
qed

theorem known_connecting_ends_witness:
  "\<exists>ck0 ck. StartConnecting [sample_peer_info] (ConnectKnown_new (sample_methods [])) = Some ck0 \<and>
     known_step (DirectEvent ''B'' (RunDispatched True)) ck0 = Some ck \<and> known_work ck < known_work ck0"
proof -
  have "map_option known_work (StartConnecting [sample_peer_info] (ConnectKnown_new (sample_methods []))) = Some 11"
    "map_option known_work (Option.bind (StartConnecting [sample_peer_info] (ConnectKnown_new (sample_methods [])))
       (known_step (DirectEvent ''B'' (RunDispatched True)))) = Some 10"
    by code_simp+
  then obtain ck0 ck where run: "StartConnecting [sample_peer_info] (ConnectKnown_new (sample_methods [])) = Some ck0"
    "known_step (DirectEvent ''B'' (RunDispatched True)) ck0 = Some ck" "known_work ck0 \<noteq> known_work ck"
    by (auto simp: bind_eq_Some_conv)
  have "known_run [] ck0 = Some ck0" by simp
  then have "ck = ck0 \<or> known_work ck < known_work ck0" using known_connecting_ends[OF run(1)] run(2) by blast
  then show ?thesis using run by auto
qed

section \<open>Participants that are waited for in vain\<close>

text \<open>
  A participant whose capability string cannot be parsed is never reported as failed: the exception of \<^verbatim>\<open>TryProxyConnect\<close>
  leaves the handler after the stage was set, so neither the failure nor the stage of the whole is updated, although
  \<^verbatim>\<open>TryRemoteConnectRequest\<close> handles the same exception. Nothing is pending then, and the caller waits without a timeout.
\<close>

lemma unparsable_capabilities_unreported:
  "map_option (\<lambda>ck. (stages ck, ck_notes ck, ck_exceptions ck, ck_connected ck))
     (Option.bind (StartConnecting [sample_peer_info\<lparr>pi_capabilities := ''?''\<rparr>]
         (ConnectKnown_new (sample_methods [Cap_ProxyMessage, Cap_RequestParticipantConnection])))
       (known_run [DirectEvent ''B'' (RunDispatched True), DirectEvent ''B'' (AttemptFailed False),
          DirectEvent ''B'' (RunDispatched True), DirectEvent ''B'' (RunDispatched True)]))
   = Some ([Stage_WAITING_FOR_REPLY], [], 1, [])"
  by code_simp

text \<open>
  A participant that has confirmed the request to connect and then stays silent is waited for without end: the timer of the
  request has no effect any more.
\<close>

lemma silent_remote_never_times_out:
  assumes "known_inv infos ck" "FindPeerByName name ck = Some p" "kp_stage p = Stage_REMOTE_IS_CONNECTING"
    and "known_step (TimerEvent name) ck = Some ck'"
  shows "stages ck' = stages ck \<and> ck_notes ck' = ck_notes ck \<and> known_step (TimerEvent name) ck' = None"
proof -
  obtain xs ys where at: "ck_peers ck = xs @ (name, p) # ys"
    "ck_peers (update_peer name (\<lambda>p. p\<lparr>kp_timer := False\<rparr>) ck) = xs @ (name, p\<lparr>kp_timer := False\<rparr>) # ys"
    using update_peer_at[OF _ assms(2)] assms(1) unfolding known_inv_def by metis
  have ck': "ck' = update_peer name (\<lambda>p. p\<lparr>kp_timer := False\<rparr>) ck"
    using assms(2-4) by (simp add: known_step_def known_OnTimerExpired_def split: if_splits)
  have "map_of xs name = None" using assms(1) at(1) by (simp add: known_inv_def map_of_eq_None_iff)
  then have "FindPeerByName name ck' = Some (p\<lparr>kp_timer := False\<rparr>)"
    unfolding FindPeerByName_def ck' at(2) by (simp add: map_add_def)
  then show ?thesis unfolding ck' using at by (simp add: known_step_def update_peer_def)
qed

end
