(* ===== verification/Registry.thy ===== *)
theory Registry
  imports Acceptor_Uris VAsio_Handshake Connect_Known "HOL-Library.AList"
begin

text \<open>
  The registry (core/vasio/VAsioRegistry.cpp) together with the part of its \<^verbatim>\<open>VAsioConnection\<close> that it runs on: accepting
  connections, the handshake with a participant that announces itself, telling it the participants it has to connect to, passing on
  connection requests and proxy messages between participants, and the loss of a connection. Peers are numbered in the order in
  which they are accepted; a pointer to a peer that was removed is a number that is no longer in the table, and its use the
  fault \<open>DanglingPeer\<close>. Messages to a peer are recorded with the protocol version for which they are serialised, calls of
  the event listener in \<open>vr_events\<close>. The hash tables are association lists; nothing below depends on their order.
\<close>

section \<open>State\<close>

record RegistryPeer =
  gp_info :: VAsioPeerInfo
  gp_simulationName :: string
  gp_protocolVersion :: ProtocolVersion
  gp_remoteAddress :: string
  gp_localAddress :: string

record ConnectedParticipantInfo =
  ci_peer :: nat
  ci_peerInfo :: VAsioPeerInfo

datatype registry_message =
    M_Known KnownParticipants
  | M_Reply ParticipantAnnouncementReply
  | M_ConnectRequest RemoteParticipantConnectRequest
  | M_Proxy ProxyMessage

datatype registry_event =
    OnParticipantConnected string string
  | OnParticipantDisconnected_event string string
  | AllParticipantsDisconnected

record VAsioRegistry =
  vr_version :: ProtocolVersion
  vr_simulationName :: string
  vr_allowAnySimulationName :: bool
  vr_capabilities :: "string list"
  vr_vasioReceivers :: "VAsioMsgSubscriber list"
  vr_hasListener :: bool
  vr_hasAllDisconnected :: bool
  vr_isShuttingDown :: bool
  vr_nextPeer :: nat
  vr_peers :: "nat \<rightharpoonup> RegistryPeer"
  vr_participantNameToPeer :: "string \<Rightarrow> string \<rightharpoonup> nat"
  vr_proxySourceToDestinations :: "string \<Rightarrow> string \<Rightarrow> string list"
  vr_connectedParticipants :: "(string \<times> (string \<times> ConnectedParticipantInfo) list) list"
  vr_sent :: "(nat \<times> ProtocolVersion \<times> registry_message) list"
  vr_events :: "registry_event list"

datatype registry_fault =
    NameTaken string string
  | TransformFault transform_error
  | WireFault wire_error
  | DanglingPeer

definition quoted :: "string \<Rightarrow> char \<Rightarrow> string" where
  "quoted s q = [q] @ s @ [q]"

fun uri_what :: "uri_error \<Rightarrow> string" where
  "uri_what ConsecutiveSlashes = ''simulation name may not contain multiple consecutive slashes''"
| "uri_what InvalidSimulationName = ''simulation name may only contain a-z, A-Z, 0-9, _, -, ., ~, and / characters''"
| "uri_what (NoSchemeSeparator rawUri) = ''Uri::Parse: could not find scheme separator in user input: '' @ quoted rawUri CHR 0x22"
| "uri_what (PortNotParsed port) = ''Uri::Parse: failed to parse the port number: '' @ port"
| "uri_what EmptyHost = ''Uri::Parse: URI has empty host field''"

text \<open>The text of a \<^verbatim>\<open>SilKitError\<close>; the other faults are not of that class.\<close>

fun fault_what :: "registry_fault \<Rightarrow> string option" where
  "fault_what (NameTaken name simulation) = Some (''A participant with the same name '' @ quoted name CHR 0x27 @
     '' already exists in the simulation '' @ simulation)"
| "fault_what (TransformFault (Uri_error e)) = Some (uri_what e)"
| "fault_what (TransformFault Invalid_remote_address) =
     Some ''SIL Kit Registry: TransformAcceptorUris: Remote address of advertised peer has invalid UriType''"
| "fault_what (TransformFault Invalid_local_address) =
     Some ''SIL Kit Registry: TransformAcceptorUris: Local address of audience peer has invalid UriType''"
| "fault_what (WireFault _) = None"
| "fault_what DanglingPeer = None"

section \<open>The connection\<close>

definition send_to :: "nat \<Rightarrow> ProtocolVersion \<Rightarrow> registry_message \<Rightarrow> VAsioRegistry \<Rightarrow> VAsioRegistry" where
  "send_to p version message r = r\<lparr>vr_sent := vr_sent r @ [(p, version, message)]\<rparr>"

definition set_peer_state :: "nat \<Rightarrow> (RegistryPeer \<Rightarrow> RegistryPeer) \<Rightarrow> VAsioRegistry \<Rightarrow> VAsioRegistry" where
  "set_peer_state p f r = r\<lparr>vr_peers := (vr_peers r)(p := map_option f (vr_peers r p))\<rparr>"

text \<open>
  \<^verbatim>\<open>OnAsyncAcceptSuccess\<close> and \<^verbatim>\<open>AddPeer\<close>. The identifier in the information of a new peer is not initialised, so it is an
  argument.
\<close>

definition AddPeer :: "u64 \<Rightarrow> string \<Rightarrow> string \<Rightarrow> VAsioRegistry \<Rightarrow> VAsioRegistry" where
  "AddPeer junk remoteAddress localAddress r =
     r\<lparr>vr_nextPeer := vr_nextPeer r + 1,
       vr_peers := (vr_peers r)(vr_nextPeer r \<mapsto>
         \<lparr>gp_info = \<lparr>pi_participantName = [], pi_participantId = junk, pi_acceptorUris = [], pi_capabilities = []\<rparr>,
          gp_simulationName = [], gp_protocolVersion = \<lparr>major = 0, minor = 0\<rparr>, gp_remoteAddress = remoteAddress,
          gp_localAddress = localAddress\<rparr>)\<rparr>"

definition FindPeerByName_connection :: "string \<Rightarrow> string \<Rightarrow> VAsioRegistry \<Rightarrow> nat option" where
  "FindPeerByName_connection simulationName participantName r = vr_participantNameToPeer r simulationName participantName"

text \<open>\<^verbatim>\<open>insert\<close> keeps an entry that is already there.\<close>

definition AssociateParticipantNameAndPeer :: "string \<Rightarrow> string \<Rightarrow> nat \<Rightarrow> VAsioRegistry \<Rightarrow> VAsioRegistry" where
  "AssociateParticipantNameAndPeer simulationName participantName p r =
     (case vr_participantNameToPeer r simulationName participantName of
        Some _ \<Rightarrow> r
      | None \<Rightarrow> r\<lparr>vr_participantNameToPeer := (vr_participantNameToPeer r)
          (simulationName := (vr_participantNameToPeer r simulationName)(participantName \<mapsto> p))\<rparr>)"

definition SendParticipantAnnouncementReply :: "nat \<Rightarrow> RegistryPeer \<Rightarrow> VAsioRegistry \<Rightarrow> VAsioRegistry" where
  "SendParticipantAnnouncementReply p peer r =
     send_to p (gp_protocolVersion peer) (M_Reply \<lparr>pr_remoteHeader = MakeRegistryMsgHeader (gp_protocolVersion peer), pr_status = 1,
       pr_subscribers = vr_vasioReceivers r, pr_diagnostic = []\<rparr>) r"

definition SendFailedParticipantAnnouncementReply ::
    "nat \<Rightarrow> RegistryPeer \<Rightarrow> ProtocolVersion \<Rightarrow> string \<Rightarrow> VAsioRegistry \<Rightarrow> VAsioRegistry" where
  "SendFailedParticipantAnnouncementReply p peer version diagnostic r =
     send_to p (gp_protocolVersion peer) (M_Reply \<lparr>pr_remoteHeader = MakeRegistryMsgHeader version, pr_status = 0,
       pr_subscribers = [], pr_diagnostic = diagnostic\<rparr>) r"

section \<open>The registry\<close>

definition simulation_participants :: "string \<Rightarrow> VAsioRegistry \<Rightarrow> (string \<times> ConnectedParticipantInfo) list" where
  "simulation_participants simulationName r =
     (case map_of (vr_connectedParticipants r) simulationName of None \<Rightarrow> [] | Some ps \<Rightarrow> ps)"

definition FindConnectedParticipant :: "string \<Rightarrow> string \<Rightarrow> VAsioRegistry \<Rightarrow> ConnectedParticipantInfo option" where
  "FindConnectedParticipant participantName simulationName r =
     (case map_of (vr_connectedParticipants r) simulationName of
        None \<Rightarrow> None | Some simulationParticipants \<Rightarrow> map_of simulationParticipants participantName)"

definition set_participants :: "string \<Rightarrow> (string \<times> ConnectedParticipantInfo) list \<Rightarrow> VAsioRegistry \<Rightarrow> VAsioRegistry" where
  "set_participants simulationName ps r =
     r\<lparr>vr_connectedParticipants := AList.update simulationName ps (vr_connectedParticipants r)\<rparr>"

text \<open>The loop of \<^verbatim>\<open>SendKnownParticipants\<close>, for the peer \<open>p\<close> with the given local address.\<close>

fun known_infos :: "make_address \<Rightarrow> (nat \<rightharpoonup> RegistryPeer) \<Rightarrow> nat \<Rightarrow> string \<Rightarrow> (string \<times> ConnectedParticipantInfo) list \<Rightarrow>
    registry_fault + VAsioPeerInfo list" where
  "known_infos mk peers p localAddress [] = Inr []"
| "known_infos mk peers p localAddress ((name, participant) # rest) =
     (if ci_peer participant = p then known_infos mk peers p localAddress rest
      else case peers (ci_peer participant) of
        None \<Rightarrow> Inl DanglingPeer
      | Some advertised \<Rightarrow>
          (case TransformAcceptorUris mk (pi_acceptorUris (gp_info advertised)) (gp_remoteAddress advertised) localAddress of
             Inl e \<Rightarrow> Inl (TransformFault e)
           | Inr uris \<Rightarrow> bindE (known_infos mk peers p localAddress rest) (\<lambda>infos.
               Inr ((ci_peerInfo participant)\<lparr>pi_acceptorUris := uris\<rparr> # infos))))"

text \<open>The access to the simulation creates its entry. An exception leaves the changed registry behind.\<close>

definition SendKnownParticipants ::
    "make_address \<Rightarrow> nat \<Rightarrow> RegistryPeer \<Rightarrow> string \<Rightarrow> VAsioRegistry \<Rightarrow> (registry_fault \<times> VAsioRegistry) + VAsioRegistry" where
  "SendKnownParticipants mk p peer simulationName r =
     (let simulationParticipants = simulation_participants simulationName r;
          r = set_participants simulationName simulationParticipants r
      in case known_infos mk (vr_peers r) p (gp_localAddress peer) simulationParticipants of
           Inl e \<Rightarrow> Inl (e, r)
         | Inr infos \<Rightarrow> Inr (send_to p (gp_protocolVersion peer)
             (M_Known \<lparr>kp_messageHeader = MakeRegistryMsgHeader (gp_protocolVersion peer), kp_peerInfos = infos\<rparr>) r))"

definition call_listener :: "registry_event \<Rightarrow> VAsioRegistry \<Rightarrow> VAsioRegistry" where
  "call_listener e r = (if vr_hasListener r then r\<lparr>vr_events := vr_events r @ [e]\<rparr> else r)"

text \<open>\<^verbatim>\<open>AllParticipantsAreConnected\<close> is constantly false, so that its handler is never called.\<close>

definition OnParticipantAnnouncement ::
    "make_address \<Rightarrow> nat \<Rightarrow> RegistryPeer \<Rightarrow> ParticipantAnnouncement \<Rightarrow> VAsioRegistry \<Rightarrow>
     (registry_fault \<times> VAsioRegistry) + VAsioRegistry" where
  "OnParticipantAnnouncement mk p peer announcement r =
     (let peerInfo = pa_peerInfo announcement; name = pi_participantName peerInfo; simulation = pa_simulationName announcement
      in if FindConnectedParticipant name simulation r \<noteq> None then Inl (NameTaken name simulation, r)
         else bindE (SendKnownParticipants mk p peer simulation r) (\<lambda>r.
           let r = set_participants simulation (AList.update name \<lparr>ci_peer = p, ci_peerInfo = peerInfo\<rparr>
                     (simulation_participants simulation r)) r
           in Inr (call_listener (OnParticipantConnected simulation name) r)))"

definition OnPeerShutdown_registry :: "RegistryPeer \<Rightarrow> VAsioRegistry \<Rightarrow> VAsioRegistry" where
  "OnPeerShutdown_registry peer r =
     (let simulationName = gp_simulationName peer; participantName = pi_participantName (gp_info peer)
      in if FindConnectedParticipant participantName simulationName r = None then r
         else let r = call_listener (OnParticipantDisconnected_event simulationName participantName) r;
                  rest = AList.delete participantName (simulation_participants simulationName r);
                  r = (if rest = [] then r\<lparr>vr_connectedParticipants := AList.delete simulationName (vr_connectedParticipants r)\<rparr>
                       else set_participants simulationName rest r)
              in if vr_connectedParticipants r = [] \<and> vr_hasAllDisconnected r
                 then r\<lparr>vr_events := vr_events r @ [AllParticipantsDisconnected]\<rparr> else r)"

section \<open>The handlers of the connection\<close>

definition version_text :: "RegistryMsgHeader \<Rightarrow> string" where
  "version_text header = ''protocol version '' @ nat_to_string (unat (rh_versionHigh header)) @ ''.'' @
     nat_to_string (unat (rh_versionLow header)) @ '' is not supported''"

definition name_text :: "string \<Rightarrow> string \<Rightarrow> string" where
  "name_text announced own = ''Announced simulation name '' @ quoted announced CHR 0x27 @
     '' does not match this participants simulation name '' @ quoted own CHR 0x27"

text \<open>The part behind the deserialisation.\<close>

definition handle_announcement ::
    "make_address \<Rightarrow> nat \<Rightarrow> RegistryPeer \<Rightarrow> ParticipantAnnouncement \<Rightarrow> VAsioRegistry \<Rightarrow>
     (registry_fault \<times> VAsioRegistry) + VAsioRegistry" where
  "handle_announcement mk p peer announcement r =
     (if \<not> vr_allowAnySimulationName r \<and> pa_simulationName announcement \<noteq> vr_simulationName r
      then Inr (SendFailedParticipantAnnouncementReply p peer (gp_protocolVersion peer)
             (name_text (pa_simulationName announcement) (vr_simulationName r)) r)
      else let peer = peer\<lparr>gp_info := pa_peerInfo announcement, gp_simulationName := pa_simulationName announcement\<rparr>;
               r = set_peer_state p (\<lambda>_. peer) r
           in case OnParticipantAnnouncement mk p peer announcement r of
                Inl (e, r) \<Rightarrow>
                  (case fault_what e of
                     Some text \<Rightarrow> Inr (SendFailedParticipantAnnouncementReply p peer (gp_protocolVersion peer) text r)
                   | None \<Rightarrow> Inl (e, r))
              | Inr r \<Rightarrow> Inr (SendParticipantAnnouncementReply p peer
                  (AssociateParticipantNameAndPeer (pa_simulationName announcement)
                     (pi_participantName (pa_peerInfo announcement)) p r)))"

definition ReceiveParticipantAnnouncement ::
    "make_address \<Rightarrow> nat \<Rightarrow> SerializedMessage \<Rightarrow> VAsioRegistry \<Rightarrow> (registry_fault \<times> VAsioRegistry) + VAsioRegistry" where
  "ReceiveParticipantAnnouncement mk p buffer r =
     (case vr_peers r p of
        None \<Rightarrow> Inl (DanglingPeer, r)
      | Some peer \<Rightarrow>
          let remoteHeader = sm_registryMessageHeader buffer
          in if \<not> ProtocolVersionSupported remoteHeader
             then Inr (SendFailedParticipantAnnouncementReply p peer (vr_version r) (version_text remoteHeader) r)
             else let peer = peer\<lparr>gp_protocolVersion := ExtractProtocolVersion remoteHeader\<rparr>;
                      r = set_peer_state p (\<lambda>_. peer) r
                  in case SerializedMessage_Deserialize get_ParticipantAnnouncement
                            (SerializedMessage_SetProtocolVersion (gp_protocolVersion peer) buffer) of
                       Inl e \<Rightarrow> Inl (WireFault e, r)
                     | Inr (announcement, _) \<Rightarrow> handle_announcement mk p peer announcement r)"

text \<open>
  The request of a participant to be connected to by another one. Status: 1 is a request, 2 and 3 are the answers that the other
  one is connecting and that it failed.
\<close>

definition ReceiveRemoteParticipantConnectRequest_Registry ::
    "make_address \<Rightarrow> RegistryPeer \<Rightarrow> RemoteParticipantConnectRequest \<Rightarrow> VAsioRegistry \<Rightarrow>
     (registry_fault \<times> VAsioRegistry) + VAsioRegistry" where
  "ReceiveRemoteParticipantConnectRequest_Registry mk peer msg r =
     (if rp_status msg = 4 then Inr r
      else if rp_status msg = 1
      then (case FindPeerByName_connection (gp_simulationName peer) (pi_participantName (rp_requestTarget msg)) r of
              None \<Rightarrow> Inr r
            | Some destination \<Rightarrow>
                (case vr_peers r destination of
                   None \<Rightarrow> Inl (DanglingPeer, r)
                 | Some d \<Rightarrow>
                     (case TransformAcceptorUris mk (pi_acceptorUris (gp_info peer)) (gp_remoteAddress peer) (gp_localAddress d) of
                        Inl e \<Rightarrow> Inl (TransformFault e, r)
                      | Inr uris \<Rightarrow> Inr (send_to destination CurrentProtocolVersion
                          (M_ConnectRequest (msg\<lparr>rp_requestOrigin := (gp_info peer)\<lparr>pi_acceptorUris := uris\<rparr>\<rparr>)) r))))
      else if rp_status msg = 2 \<or> rp_status msg = 3
      then (case FindPeerByName_connection (gp_simulationName peer) (pi_participantName (rp_requestOrigin msg)) r of
              None \<Rightarrow> Inr r
            | Some destination \<Rightarrow>
                (if vr_peers r destination = None then Inl (DanglingPeer, r)
                 else Inr (send_to destination CurrentProtocolVersion (M_ConnectRequest msg) r)))
      else Inr r)"

definition ReceiveRemoteParticipantConnectRequest ::
    "make_address \<Rightarrow> nat \<Rightarrow> SerializedMessage \<Rightarrow> VAsioRegistry \<Rightarrow> (registry_fault \<times> VAsioRegistry) + VAsioRegistry" where
  "ReceiveRemoteParticipantConnectRequest mk p buffer r =
     (case vr_peers r p of
        None \<Rightarrow> Inl (DanglingPeer, r)
      | Some peer \<Rightarrow>
          let header = sm_registryMessageHeader buffer
          in if \<not> ProtocolVersionSupported header then Inr r
             else let r = (if pi_participantId (gp_info peer) \<noteq> 0
                           then set_peer_state p (\<lambda>q. q\<lparr>gp_protocolVersion := ExtractProtocolVersion header\<rparr>) r else r)
                  in case SerializedMessage_Deserialize get_RemoteParticipantConnectRequest buffer of
                       Inl e \<Rightarrow> Inl (WireFault e, r)
                     | Inr (msg, _) \<Rightarrow>
                         if Cap_RequestParticipantConnection \<notin> set (vr_capabilities r) then Inr r
                         else ReceiveRemoteParticipantConnectRequest_Registry mk peer msg r)"

text \<open>The part of \<^verbatim>\<open>ReceiveProxyMessage\<close> in which the sender is the source of the message, which the registry passes on.\<close>

definition relay_ProxyMessage :: "nat \<Rightarrow> ProxyMessage \<Rightarrow> VAsioRegistry \<Rightarrow> (registry_fault \<times> VAsioRegistry) + VAsioRegistry" where
  "relay_ProxyMessage p msg r =
     (case vr_peers r p of
        None \<Rightarrow> Inl (DanglingPeer, r)
      | Some peer \<Rightarrow>
          if pi_participantName (gp_info peer) \<noteq> pm_source msg then Inr r
          else (case FindPeerByName_connection (gp_simulationName peer) (pm_destination msg) r of
                  None \<Rightarrow> Inr r
                | Some destination \<Rightarrow>
                    if vr_peers r destination = None then Inl (DanglingPeer, r)
                    else let r = send_to destination CurrentProtocolVersion (M_Proxy msg) r;
                             simulation = gp_simulationName peer; source = pm_source msg;
                             known = vr_proxySourceToDestinations r simulation source
                         in Inr (r\<lparr>vr_proxySourceToDestinations := (vr_proxySourceToDestinations r)
                              (simulation := (vr_proxySourceToDestinations r simulation)
                                 (source := List.insert (pm_destination msg) known))\<rparr>)))"

fun notify_destinations :: "string \<Rightarrow> string \<Rightarrow> string list \<Rightarrow> VAsioRegistry \<Rightarrow> VAsioRegistry" where
  "notify_destinations simulation source [] r = r"
| "notify_destinations simulation source (destination # rest) r =
     notify_destinations simulation source rest
       (case FindPeerByName_connection simulation destination r of
          None \<Rightarrow> r
        | Some d \<Rightarrow> send_to d CurrentProtocolVersion (M_Proxy \<lparr>pm_header = \<lparr>ph_version = 0\<rparr>, pm_source = source,
            pm_destination = destination, pm_payload = []\<rparr>) r)"

definition SendProxyPeerShutdownNotification :: "RegistryPeer \<Rightarrow> VAsioRegistry \<Rightarrow> VAsioRegistry" where
  "SendProxyPeerShutdownNotification peer r =
     (let simulation = gp_simulationName peer; source = pi_participantName (gp_info peer)
      in notify_destinations simulation source (vr_proxySourceToDestinations r simulation source) r)"

definition RemovePeerFromConnection :: "nat \<Rightarrow> RegistryPeer \<Rightarrow> VAsioRegistry \<Rightarrow> VAsioRegistry" where
  "RemovePeerFromConnection p peer r =
     r\<lparr>vr_participantNameToPeer := (vr_participantNameToPeer r)(gp_simulationName peer :=
         (vr_participantNameToPeer r (gp_simulationName peer))(pi_participantName (gp_info peer) := None)),
       vr_peers := (vr_peers r)(p := None)\<rparr>"

text \<open>The loss of the connection to a peer; the registry has no proxy peers, and its links are left out.\<close>

definition OnPeerShutdown_connection :: "nat \<Rightarrow> VAsioRegistry \<Rightarrow> VAsioRegistry" where
  "OnPeerShutdown_connection p r =
     (if vr_isShuttingDown r then r
      else case vr_peers r p of
        None \<Rightarrow> r
      | Some peer \<Rightarrow> RemovePeerFromConnection p peer
          (OnPeerShutdown_registry peer (SendProxyPeerShutdownNotification peer r)))"

section \<open>Runs\<close>

text \<open>An exception other than a \<^verbatim>\<open>SilKitError\<close> of the announcement reaches the loop of the I/O worker, which goes on.\<close>

fun after :: "(registry_fault \<times> VAsioRegistry) + VAsioRegistry \<Rightarrow> VAsioRegistry" where
  "after (Inl (e, r)) = r"
| "after (Inr r) = r"

definition registered :: "VAsioRegistry \<Rightarrow> nat \<Rightarrow> bool" where
  "registered r p \<longleftrightarrow> (\<exists>simulation name i. FindConnectedParticipant name simulation r = Some i \<and> ci_peer i = p)"

definition owns_its_name :: "VAsioRegistry \<Rightarrow> nat \<Rightarrow> bool" where
  "owns_its_name r p \<longleftrightarrow> (\<forall>peer i. vr_peers r p = Some peer \<and>
     FindConnectedParticipant (pi_participantName (gp_info peer)) (gp_simulationName peer) r = Some i \<longrightarrow> ci_peer i = p)"

text \<open>
  The runs of a registry: peers connect, a peer that is not registered announces itself, peers send requests and
  proxy messages, and a peer is lost whose name does not belong to another one.
\<close>

inductive registry_step :: "make_address \<Rightarrow> VAsioRegistry \<Rightarrow> VAsioRegistry \<Rightarrow> bool" for mk where
  connect: "registry_step mk r (AddPeer junk remoteAddress localAddress r)"
| announce: "vr_peers r p \<noteq> None \<Longrightarrow> \<not> registered r p \<Longrightarrow> registry_step mk r (after (ReceiveParticipantAnnouncement mk p m r))"
| request: "vr_peers r p \<noteq> None \<Longrightarrow> registry_step mk r (after (ReceiveRemoteParticipantConnectRequest mk p m r))"
| relay: "vr_peers r p \<noteq> None \<Longrightarrow> registry_step mk r (after (relay_ProxyMessage p msg r))"
| lost: "vr_peers r p \<noteq> None \<Longrightarrow> owns_its_name r p \<Longrightarrow> registry_step mk r (OnPeerShutdown_connection p r)"

definition new_registry :: "ProtocolVersion \<Rightarrow> string list \<Rightarrow> VAsioMsgSubscriber list \<Rightarrow> bool \<Rightarrow> bool \<Rightarrow> VAsioRegistry" where
  "new_registry version capabilities receivers listener allDisconnected =
     \<lparr>vr_version = version, vr_simulationName = [], vr_allowAnySimulationName = True, vr_capabilities = capabilities,
      vr_vasioReceivers = receivers, vr_hasListener = listener, vr_hasAllDisconnected = allDisconnected,
      vr_isShuttingDown = False, vr_nextPeer = 0, vr_peers = Map.empty, vr_participantNameToPeer = (\<lambda>_. Map.empty),
      vr_proxySourceToDestinations = (\<lambda>_ _. []), vr_connectedParticipants = [], vr_sent = [], vr_events = []\<rparr>"

definition registry_run :: "make_address \<Rightarrow> VAsioRegistry \<Rightarrow> bool" where
  "registry_run mk r \<longleftrightarrow> (\<exists>version capabilities receivers listener handler.
     (registry_step mk)\<^sup>*\<^sup>* (new_registry version capabilities receivers listener handler) r)"

section \<open>Tables\<close>

definition tables_ok :: "VAsioRegistry \<Rightarrow> bool" where
  "tables_ok r \<longleftrightarrow> distinct (map fst (vr_connectedParticipants r)) \<and>
     (\<forall>ps \<in> snd ` set (vr_connectedParticipants r). distinct (map fst ps) \<and> ps \<noteq> [])"

lemma find_participants: "map_of (simulation_participants s r) n = FindConnectedParticipant n s r"
  by (simp add: simulation_participants_def FindConnectedParticipant_def split: option.split)

lemma simulation_set_participants [simp]:
  "simulation_participants s (set_participants t ps r) = (if s = t then ps else simulation_participants s r)"
  by (simp add: simulation_participants_def set_participants_def update_conv')

lemma find_set_participants [simp]:
  "FindConnectedParticipant n s (set_participants t ps r) = (if s = t then map_of ps n else FindConnectedParticipant n s r)"
  by (simp flip: find_participants)

lemma find_cong: "vr_connectedParticipants r' = vr_connectedParticipants r \<Longrightarrow>
    FindConnectedParticipant n s r' = FindConnectedParticipant n s r \<and> simulation_participants s r' = simulation_participants s r"
  by (simp add: FindConnectedParticipant_def simulation_participants_def)

lemma set_participants_same:
  assumes "simulation_participants s r \<noteq> []"
  shows "set_participants s (simulation_participants s r) r = r"
  using assms by (auto simp: set_participants_def simulation_participants_def update_triv split: option.splits)

lemma participants_distinct: "tables_ok r \<Longrightarrow> distinct (map fst (simulation_participants s r))"
  by (auto simp: tables_ok_def simulation_participants_def split: option.split dest!: map_of_SomeD)

lemma set_AList_update: "set (AList.update k v al) \<subseteq> insert (k, v) (set al)"
  by (induction al) auto

lemma set_AList_delete: "set (AList.delete k al) \<subseteq> set al"
  by (induction al) auto

lemma tables_set_participants:
  assumes "tables_ok r" "distinct (map fst ps)" "ps \<noteq> []"
  shows "tables_ok (set_participants s ps r)"
  using assms set_AList_update[of s ps "vr_connectedParticipants r"] distinct_update[of "vr_connectedParticipants r" s ps]
  by (fastforce simp: tables_ok_def set_participants_def)

lemma tables_delete:
  assumes "tables_ok r"
  shows "tables_ok (r\<lparr>vr_connectedParticipants := AList.delete s (vr_connectedParticipants r)\<rparr>)"
  using assms set_AList_delete[of s "vr_connectedParticipants r"] distinct_delete[of "vr_connectedParticipants r" s]
  by (fastforce simp: tables_ok_def)

lemma find_delete [simp]:
  "FindConnectedParticipant n s (r\<lparr>vr_connectedParticipants := AList.delete t (vr_connectedParticipants r)\<rparr>) =
     (if s = t then None else FindConnectedParticipant n s r)"
  by (simp add: FindConnectedParticipant_def delete_conv')

lemma tables_cong: "vr_connectedParticipants r' = vr_connectedParticipants r \<Longrightarrow> tables_ok r' = tables_ok r"
  by (simp add: tables_ok_def)

text \<open>What the loop of \<^verbatim>\<open>SendKnownParticipants\<close> tells about one participant.\<close>

definition advertised_info :: "make_address \<Rightarrow> (nat \<rightharpoonup> RegistryPeer) \<Rightarrow> string \<Rightarrow> ConnectedParticipantInfo \<Rightarrow> VAsioPeerInfo" where
  "advertised_info mk peers localAddress i =
     (let q = the (peers (ci_peer i))
      in (ci_peerInfo i)\<lparr>pi_acceptorUris :=
           projr (TransformAcceptorUris mk (pi_acceptorUris (gp_info q)) (gp_remoteAddress q) localAddress)\<rparr>)"

definition can_be_advertised :: "make_address \<Rightarrow> RegistryPeer \<Rightarrow> string \<Rightarrow> bool" where
  "can_be_advertised mk q localAddress \<longleftrightarrow>
     (\<exists>uris. TransformAcceptorUris mk (pi_acceptorUris (gp_info q)) (gp_remoteAddress q) localAddress = Inr uris)"

lemma known_infos_all:
  assumes "\<forall>(n, i) \<in> set ps. ci_peer i \<noteq> p \<and> (\<exists>q. peers (ci_peer i) = Some q \<and> can_be_advertised mk q addr)"
  shows "known_infos mk peers p addr ps = Inr (map (advertised_info mk peers addr \<circ> snd) ps)"
  using assms by (induction ps) (fastforce simp: advertised_info_def can_be_advertised_def Let_def)+

lemma known_infos_fault:
  assumes "known_infos mk peers p addr ps = Inl e" "\<forall>(n, i) \<in> set ps. peers (ci_peer i) \<noteq> None"
  shows "ps \<noteq> [] \<and> (\<exists>t. e = TransformFault t)"
  using assms
proof (induction ps)
  case (Cons a ps)
  then show ?case
    by (cases a; cases "known_infos mk peers p addr ps") (auto split: if_splits option.splits sum.splits)
qed simp

section \<open>The invariant\<close>

definition accepted :: "VAsioRegistry \<Rightarrow> nat \<Rightarrow> bool" where
  "accepted r p \<longleftrightarrow> vr_peers r p \<noteq> None \<and> (\<exists>version reply. (p, version, M_Reply reply) \<in> set (vr_sent r) \<and> pr_status reply = 1)"

definition registry_inv :: "VAsioRegistry \<Rightarrow> bool" where
  "registry_inv r \<longleftrightarrow> tables_ok r \<and>
     (\<forall>s n i. FindConnectedParticipant n s r = Some i \<longrightarrow>
        (\<exists>q. vr_peers r (ci_peer i) = Some q \<and> gp_simulationName q = s \<and> gp_info q = ci_peerInfo i \<and>
             pi_participantName (ci_peerInfo i) = n)) \<and>
     (\<forall>s n. vr_participantNameToPeer r s n = map_option ci_peer (FindConnectedParticipant n s r)) \<and>
     (\<forall>p. accepted r p \<longleftrightarrow> registered r p) \<and>
     (\<forall>p. vr_peers r p \<noteq> None \<longrightarrow> p < vr_nextPeer r) \<and>
     (\<forall>x \<in> set (vr_sent r). fst x < vr_nextPeer r)"

definition no_success :: "nat \<times> ProtocolVersion \<times> registry_message \<Rightarrow> bool" where
  "no_success x \<longleftrightarrow> (\<forall>p v reply. x = (p, v, M_Reply reply) \<longrightarrow> pr_status reply = 0)"

lemma inv_entry:
  assumes "registry_inv r" "FindConnectedParticipant n s r = Some i"
  obtains q where "vr_peers r (ci_peer i) = Some q" "gp_simulationName q = s" "gp_info q = ci_peerInfo i"
    "pi_participantName (ci_peerInfo i) = n"
  using assms unfolding registry_inv_def by blast

lemma inv_parts:
  assumes "registry_inv r"
  shows "tables_ok r" "vr_participantNameToPeer r s n = map_option ci_peer (FindConnectedParticipant n s r)"
    "accepted r p \<longleftrightarrow> registered r p" "vr_peers r p = Some q \<Longrightarrow> p < vr_nextPeer r" "x \<in> set (vr_sent r) \<Longrightarrow> fst x < vr_nextPeer r"
  using assms unfolding registry_inv_def by auto

lemma registryI:
  assumes "tables_ok r"
    and "\<And>s n i. FindConnectedParticipant n s r = Some i \<Longrightarrow>
        \<exists>q. vr_peers r (ci_peer i) = Some q \<and> gp_simulationName q = s \<and> gp_info q = ci_peerInfo i \<and> pi_participantName (ci_peerInfo i) = n"
    and "\<And>s n. vr_participantNameToPeer r s n = map_option ci_peer (FindConnectedParticipant n s r)"
    and "\<And>p. accepted r p \<longleftrightarrow> registered r p"
    and "\<And>p q. vr_peers r p = Some q \<Longrightarrow> p < vr_nextPeer r"
    and "\<And>x. x \<in> set (vr_sent r) \<Longrightarrow> fst x < vr_nextPeer r"
  shows "registry_inv r"
  using assms unfolding registry_inv_def by blast

text \<open>A change that keeps the tables, and the peers that are in them, keeps the invariant.\<close>

lemma inv_frame:
  assumes "registry_inv r"
    and same: "vr_connectedParticipants r' = vr_connectedParticipants r" "vr_participantNameToPeer r' = vr_participantNameToPeer r"
      "vr_nextPeer r' = vr_nextPeer r" "vr_sent r' = vr_sent r @ xs" "\<forall>x \<in> set xs. no_success x \<and> fst x < vr_nextPeer r"
    and dom: "\<forall>p. vr_peers r' p = None \<longleftrightarrow> vr_peers r p = None"
    and peers: "\<forall>p q. registered r p \<and> vr_peers r p = Some q \<longrightarrow>
      (\<exists>q'. vr_peers r' p = Some q' \<and> gp_info q' = gp_info q \<and> gp_simulationName q' = gp_simulationName q)"
  shows "registry_inv r'"
proof -
  have find: "FindConnectedParticipant n s r' = FindConnectedParticipant n s r" for n s using find_cong[OF same(1)] by simp
  have reg: "registered r' p = registered r p" for p by (simp add: registered_def find)
  have none: "\<not> (pr_status reply = 1 \<and> (p, v, M_Reply reply) \<in> set xs)" for p v reply
    using same(5) unfolding no_success_def by fastforce
  have acc: "accepted r' p = accepted r p" for p
    using dom none[of _ p] by (auto simp: accepted_def same(4))
  have ent: "\<exists>q. vr_peers r' (ci_peer i) = Some q \<and> gp_simulationName q = s \<and> gp_info q = ci_peerInfo i \<and> pi_participantName (ci_peerInfo i) = n"
    if "FindConnectedParticipant n s r' = Some i" for s n i
  proof -
    have f: "FindConnectedParticipant n s r = Some i" using that find by simp
    obtain q where q: "vr_peers r (ci_peer i) = Some q" "gp_simulationName q = s" "gp_info q = ci_peerInfo i"
        "pi_participantName (ci_peerInfo i) = n" by (rule inv_entry[OF assms(1) f])
    have "registered r (ci_peer i)" using that find by (auto simp: registered_def)
    then show ?thesis using q peers by fastforce
  qed
  show ?thesis
  proof (rule registryI[OF _ ent])
    show "tables_ok r'" using inv_parts(1)[OF assms(1)] tables_cong[OF same(1)] by simp
    show "vr_participantNameToPeer r' s n = map_option ci_peer (FindConnectedParticipant n s r')" for s n
      using inv_parts(2)[OF assms(1)] by (simp add: same(2) find)
    show "accepted r' p \<longleftrightarrow> registered r' p" for p using inv_parts(3)[OF assms(1)] by (simp add: acc reg)
    show "p < vr_nextPeer r'" if "vr_peers r' p = Some q" for p q
      using that dom inv_parts(4)[OF assms(1)] same(3) by (metis not_None_eq option.distinct(1))
    show "fst x < vr_nextPeer r'" if "x \<in> set (vr_sent r')" for x
      using that inv_parts(5)[OF assms(1), of x] same(3-5) by auto
  qed
qed

subsection \<open>Announcements\<close>

lemma inv_new_registry: "registry_inv (new_registry version capabilities receivers listener allDisconnected)"
  by (rule registryI) (simp_all add: new_registry_def tables_ok_def FindConnectedParticipant_def accepted_def registered_def)

lemma inv_AddPeer:
  assumes inv: "registry_inv r"
  shows "registry_inv (AddPeer junk remote local r)" (is "registry_inv ?r")
proof -
  let ?n = "vr_nextPeer r"
  have find: "FindConnectedParticipant n s ?r = FindConnectedParticipant n s r" for n s
    by (rule find_cong[THEN conjunct1]) (simp add: AddPeer_def)
  have fresh: "vr_peers r ?n = None" using inv_parts(4)[OF inv, of ?n] by fastforce
  have unsent: "\<not> (\<exists>v m. (?n, v, m) \<in> set (vr_sent r))" using inv_parts(5)[OF inv] by fastforce
  show ?thesis
  proof (rule registryI)
    show "tables_ok ?r" using inv_parts(1)[OF inv] by (simp add: AddPeer_def tables_ok_def)
    show "vr_participantNameToPeer ?r s n = map_option ci_peer (FindConnectedParticipant n s ?r)" for s n
      unfolding find using inv_parts(2)[OF inv] by (simp add: AddPeer_def)
    show "accepted ?r p \<longleftrightarrow> registered ?r p" for p
      using inv_parts(3)[OF inv, of p] fresh unsent unfolding registered_def find by (auto simp: accepted_def AddPeer_def)
    show "p < vr_nextPeer ?r" if "vr_peers ?r p = Some q" for p q
      using that inv_parts(4)[OF inv] by (fastforce simp: AddPeer_def split: if_splits)
    show "fst x < vr_nextPeer ?r" if "x \<in> set (vr_sent ?r)" for x
      using that inv_parts(5)[OF inv] by (fastforce simp: AddPeer_def)
    show "\<exists>q. vr_peers ?r (ci_peer i) = Some q \<and> gp_simulationName q = s \<and> gp_info q = ci_peerInfo i \<and> pi_participantName (ci_peerInfo i) = n"
      if "FindConnectedParticipant n s ?r = Some i" for s n i
      using that fresh unfolding find by (auto elim!: inv_entry[OF inv] simp: AddPeer_def)
  qed
qed

lemma accepted_announcement:
  fixes r peer a p
  defines "name \<equiv> pi_participantName (pa_peerInfo a)" and "s \<equiv> pa_simulationName a" and "v \<equiv> gp_protocolVersion peer"
  defines "peer' \<equiv> peer\<lparr>gp_info := pa_peerInfo a, gp_simulationName := s\<rparr>"
    and "i \<equiv> \<lparr>ci_peer = p, ci_peerInfo = pa_peerInfo a\<rparr>"
  assumes inv: "registry_inv r" and p: "vr_peers r p = Some peer0" "\<not> registered r p"
    and free: "FindConnectedParticipant name s r = None"
    and sim: "vr_allowAnySimulationName r \<or> s = vr_simulationName r"
    and known: "known_infos mk ((vr_peers r)(p \<mapsto> peer')) p (gp_localAddress peer) (simulation_participants s r) = Inr infos"
  obtains r' where "handle_announcement mk p peer a r = Inr r'"
    "vr_sent r' = vr_sent r @ [(p, v, M_Known \<lparr>kp_messageHeader = MakeRegistryMsgHeader v, kp_peerInfos = infos\<rparr>),
       (p, v, M_Reply \<lparr>pr_remoteHeader = MakeRegistryMsgHeader v, pr_status = 1, pr_subscribers = vr_vasioReceivers r,
          pr_diagnostic = []\<rparr>)]"
    "vr_peers r' = (vr_peers r)(p \<mapsto> peer')" "vr_nextPeer r' = vr_nextPeer r"
    "\<And>n t. FindConnectedParticipant n t r' = (if n = name \<and> t = s then Some i else FindConnectedParticipant n t r)"
    "vr_participantNameToPeer r' = (vr_participantNameToPeer r)(s := (vr_participantNameToPeer r s)(name \<mapsto> p))"
    "tables_ok r'"
proof -
  define r0 where "r0 = set_peer_state p (\<lambda>_. peer') r"
  have r0: "vr_peers r0 = (vr_peers r)(p \<mapsto> peer')" "vr_connectedParticipants r0 = vr_connectedParticipants r"
    using p(1) by (simp_all add: r0_def set_peer_state_def)
  have sp: "simulation_participants t r0 = simulation_participants t r" "FindConnectedParticipant n t r0 = FindConnectedParticipant n t r"
    for n t using find_cong[OF r0(2)] by simp_all
  let ?ps = "simulation_participants s r"
  define r1 where "r1 = send_to p v (M_Known \<lparr>kp_messageHeader = MakeRegistryMsgHeader v, kp_peerInfos = infos\<rparr>) (set_participants s ?ps r0)"
  have r1: "SendKnownParticipants mk p peer' s r0 = Inr r1"
    using known r0(1) by (simp add: SendKnownParticipants_def Let_def sp r1_def set_participants_def peer'_def v_def)
  have sp1: "simulation_participants t r1 = simulation_participants t r" for t
    using find_cong[of r1 "set_participants s ?ps r0"] by (simp add: r1_def send_to_def sp)
  define r2 where "r2 = set_participants s (AList.update name i ?ps) r1"
  define r3 where "r3 = call_listener (OnParticipantConnected s name) r2"
  have r3: "OnParticipantAnnouncement mk p peer' a r0 = Inr r3"
    using r1 free by (simp add: OnParticipantAnnouncement_def Let_def sp flip: name_def s_def) (simp add: r3_def r2_def sp1 i_def)
  have conn3: "vr_connectedParticipants r3 = AList.update s (AList.update name i ?ps) (vr_connectedParticipants r)"
    by (simp add: r3_def call_listener_def r2_def set_participants_def r1_def send_to_def r0(2))
  have rest3: "vr_sent r3 = vr_sent r @ [(p, v, M_Known \<lparr>kp_messageHeader = MakeRegistryMsgHeader v, kp_peerInfos = infos\<rparr>)]"
    "vr_peers r3 = (vr_peers r)(p \<mapsto> peer')" "vr_nextPeer r3 = vr_nextPeer r" "vr_vasioReceivers r3 = vr_vasioReceivers r"
    "vr_participantNameToPeer r3 = vr_participantNameToPeer r"
    using r0(1) by (simp_all add: r3_def call_listener_def r2_def set_participants_def r1_def send_to_def r0_def set_peer_state_def)
  have none: "vr_participantNameToPeer r s name = None" using inv_parts(2)[OF inv] free by simp
  define r' where "r' = SendParticipantAnnouncementReply p peer' (AssociateParticipantNameAndPeer s name p r3)"
  have h: "handle_announcement mk p peer a r = Inr r'"
    using sim r3 by (auto simp: handle_announcement_def Let_def peer'_def r0_def r'_def simp flip: s_def name_def)
  have conn: "vr_connectedParticipants r' = vr_connectedParticipants r3"
    by (simp add: r'_def SendParticipantAnnouncementReply_def send_to_def AssociateParticipantNameAndPeer_def split: option.split)
  have find: "FindConnectedParticipant n t r' = (if n = name \<and> t = s then Some i else FindConnectedParticipant n t r)" for n t
  proof -
    have "FindConnectedParticipant n t r' = (if t = s then map_of (AList.update name i ?ps) n else FindConnectedParticipant n t r)"
      by (simp add: FindConnectedParticipant_def conn conn3 update_conv')
    then show ?thesis using find_participants[of s r n] by (simp add: update_conv')
  qed
  have tab: "tables_ok r'"
  proof -
    have "tables_ok (set_participants s (AList.update name i ?ps) r)"
      by (rule tables_set_participants[OF inv_parts(1)[OF inv]]) (simp_all add: distinct_update participants_distinct inv_parts(1)[OF inv])
    then show ?thesis by (simp add: tables_ok_def conn conn3 set_participants_def)
  qed
  show ?thesis
    by (rule that[OF h _ _ _ find _ tab])
      (simp_all add: r'_def SendParticipantAnnouncementReply_def send_to_def AssociateParticipantNameAndPeer_def rest3 none
        peer'_def v_def)
qed

lemma inv_registered:
  assumes inv: "registry_inv r" and p: "vr_peers r p = Some peer0" "\<not> registered r p"
    and free: "FindConnectedParticipant name s r = None"
    and sent: "vr_sent r' = vr_sent r @ [(p, v, M_Known k), (p, v, M_Reply reply)]" "pr_status reply = 1"
    and peers: "vr_peers r' = (vr_peers r)(p \<mapsto> peer)" "vr_nextPeer r' = vr_nextPeer r"
      "gp_simulationName peer = s" "gp_info peer = info" "pi_participantName info = name"
    and find: "\<And>n t. FindConnectedParticipant n t r' =
       (if n = name \<and> t = s then Some \<lparr>ci_peer = p, ci_peerInfo = info\<rparr> else FindConnectedParticipant n t r)"
    and names: "vr_participantNameToPeer r' = (vr_participantNameToPeer r)(s := (vr_participantNameToPeer r s)(name \<mapsto> p))"
    and tab: "tables_ok r'"
  shows "registry_inv r'" "accepted r' q \<longleftrightarrow> q = p \<or> accepted r q"
proof -
  have other: "ci_peer i \<noteq> p" if "FindConnectedParticipant n t r = Some i" for n t i using that p(2) by (auto simp: registered_def)
  have reg: "registered r' q \<longleftrightarrow> q = p \<or> registered r q" for q
  proof
    show "registered r' q" if "q = p \<or> registered r q"
      using that
    proof
      assume "q = p"
      then show ?thesis unfolding registered_def find by (intro exI[of _ s] exI[of _ name]) simp
    next
      assume "registered r q"
      then obtain t n i where "FindConnectedParticipant n t r = Some i" "ci_peer i = q" unfolding registered_def by blast
      then show ?thesis unfolding registered_def find using free by (intro exI[of _ t] exI[of _ n]) auto
    qed
  qed (auto simp: registered_def find split: if_splits)
  have acc: "accepted r' q \<longleftrightarrow> q = p \<or> accepted r q" for q
    using sent p(1) unfolding accepted_def peers(1) by auto
  then show "accepted r' q \<longleftrightarrow> q = p \<or> accepted r q" .
  show "registry_inv r'"
  proof (rule registryI[OF tab])
    show "\<exists>q. vr_peers r' (ci_peer i) = Some q \<and> gp_simulationName q = t \<and> gp_info q = ci_peerInfo i \<and> pi_participantName (ci_peerInfo i) = n"
      if "FindConnectedParticipant n t r' = Some i" for t n i
    proof (cases "n = name \<and> t = s")
      case True
      then show ?thesis using that find peers by auto
    next
      case False
      then have f: "FindConnectedParticipant n t r = Some i" using that unfolding find if_not_P[OF False] by simp
      show ?thesis by (rule inv_entry[OF inv f]) (use other[OF f] in \<open>simp add: peers(1)\<close>)
    qed
    show "vr_participantNameToPeer r' t n = map_option ci_peer (FindConnectedParticipant n t r')" for t n
      unfolding names find using inv_parts(2)[OF inv] by auto
    show "accepted r' p \<longleftrightarrow> registered r' p" for p unfolding acc reg using inv_parts(3)[OF inv] by simp
    show "q < vr_nextPeer r'" if "vr_peers r' q = Some x" for q x
      using that inv_parts(4)[OF inv] p(1) unfolding peers by (auto split: if_splits)
    show "fst x < vr_nextPeer r'" if "x \<in> set (vr_sent r')" for x
      using that inv_parts(5)[OF inv, of x] inv_parts(4)[OF inv p(1)] unfolding peers(2) sent by auto
  qed
qed

lemma known_entries:
  assumes inv: "registry_inv r" and p: "\<not> registered r p" and i: "(n, i) \<in> set (simulation_participants s r)"
  shows "FindConnectedParticipant n s r = Some i" "ci_peer i \<noteq> p" "vr_peers r (ci_peer i) \<noteq> None"
proof -
  show f: "FindConnectedParticipant n s r = Some i"
    using i participants_distinct[OF inv_parts(1)[OF inv], of s] by (simp flip: find_participants)
  then show "ci_peer i \<noteq> p" using p by (auto simp: registered_def)
  show "vr_peers r (ci_peer i) \<noteq> None" by (rule inv_entry[OF inv f]) simp
qed

lemma refused_announcement:
  assumes inv: "registry_inv r" and p: "vr_peers r p = Some peer0" "\<not> registered r p"
    and peer': "peer' = peer\<lparr>gp_info := pa_peerInfo a, gp_simulationName := pa_simulationName a\<rparr>"
    and sim: "vr_allowAnySimulationName r \<or> pa_simulationName a = vr_simulationName r"
    and why: "FindConnectedParticipant (pi_participantName (pa_peerInfo a)) (pa_simulationName a) r \<noteq> None \<and>
        e = NameTaken (pi_participantName (pa_peerInfo a)) (pa_simulationName a) \<or>
      FindConnectedParticipant (pi_participantName (pa_peerInfo a)) (pa_simulationName a) r = None \<and>
        known_infos mk ((vr_peers r)(p \<mapsto> peer')) p (gp_localAddress peer) (simulation_participants (pa_simulationName a) r) = Inl e"
  shows "\<exists>d. fault_what e = Some d \<and> handle_announcement mk p peer a r =
    Inr (SendFailedParticipantAnnouncementReply p peer' (gp_protocolVersion peer) d (set_peer_state p (\<lambda>_. peer') r))"
proof -
  let ?r = "set_peer_state p (\<lambda>_. peer') r" and ?s = "pa_simulationName a"
  have r: "vr_peers ?r = (vr_peers r)(p \<mapsto> peer')" "vr_connectedParticipants ?r = vr_connectedParticipants r"
    using p(1) by (simp_all add: set_peer_state_def)
  note same = find_cong[OF r(2)]
  have fault: "OnParticipantAnnouncement mk p peer' a ?r = Inl (e, ?r) \<and> (\<exists>d. fault_what e = Some d)"
    using why
  proof
    assume "FindConnectedParticipant (pi_participantName (pa_peerInfo a)) ?s r \<noteq> None \<and>
        e = NameTaken (pi_participantName (pa_peerInfo a)) ?s"
    then show ?thesis using same by (simp add: OnParticipantAnnouncement_def Let_def)
  next
    assume k: "FindConnectedParticipant (pi_participantName (pa_peerInfo a)) ?s r = None \<and>
        known_infos mk ((vr_peers r)(p \<mapsto> peer')) p (gp_localAddress peer) (simulation_participants ?s r) = Inl e"
    then have "simulation_participants ?s r \<noteq> [] \<and> (\<exists>t. e = TransformFault t)"
      by (intro known_infos_fault[OF conjunct2[OF k]]) (use known_entries(3)[OF inv p(2)] in auto)
    then obtain t where t: "simulation_participants ?s r \<noteq> []" "e = TransformFault t" by blast
    have "set_participants ?s (simulation_participants ?s ?r) ?r = ?r" by (rule set_participants_same) (use t same in simp)
    then have "OnParticipantAnnouncement mk p peer' a ?r = Inl (e, ?r)"
      using k same r by (simp add: OnParticipantAnnouncement_def SendKnownParticipants_def Let_def set_participants_def peer')
    moreover have "\<exists>d. fault_what (TransformFault t) = Some d" by (cases t) auto
    ultimately show ?thesis using t by blast
  qed
  then obtain d where d: "fault_what e = Some d" by blast
  then have "handle_announcement mk p peer a r =
      Inr (SendFailedParticipantAnnouncementReply p peer' (gp_protocolVersion peer) d ?r)"
    using fault sim by (auto simp: handle_announcement_def Let_def peer')
  then show ?thesis using d by blast
qed

lemma no_success_simps [simp]:
  "no_success (p, v, M_Known k)" "no_success (p, v, M_ConnectRequest c)" "no_success (p, v, M_Proxy m)"
  "no_success (p, v, M_Reply reply) \<longleftrightarrow> pr_status reply = 0"
  by (simp_all add: no_success_def)

lemma inv_set_peer_state:
  assumes "registry_inv r" "vr_peers r p = Some peer0"
    "\<not> registered r p \<or> gp_info peer = gp_info peer0 \<and> gp_simulationName peer = gp_simulationName peer0"
  shows "registry_inv (set_peer_state p (\<lambda>_. peer) r)"
  by (rule inv_frame[OF assms(1), where xs = "[]"]) (use assms(2,3) in \<open>auto simp: set_peer_state_def\<close>)

lemma inv_failed_reply:
  assumes "registry_inv r" "vr_peers r p \<noteq> None"
  shows "registry_inv (SendFailedParticipantAnnouncementReply p peer version d r)"
  by (rule inv_frame[OF assms(1)]) (use assms inv_parts(4) in \<open>auto simp: SendFailedParticipantAnnouncementReply_def send_to_def\<close>)

lemma registered_set_peer_state [simp]: "registered (set_peer_state p f r) q = registered r q"
  using find_cong[of "set_peer_state p f r" r] by (simp add: registered_def set_peer_state_def)

lemma inv_handle_announcement:
  assumes inv: "registry_inv r" and p: "vr_peers r p = Some peer0" "\<not> registered r p"
  shows "\<exists>r'. handle_announcement mk p peer a r = Inr r' \<and> registry_inv r'"
proof -
  let ?s = "pa_simulationName a" and ?n = "pi_participantName (pa_peerInfo a)"
  define peer' where "peer' = peer\<lparr>gp_info := pa_peerInfo a, gp_simulationName := ?s\<rparr>"
  let ?known = "known_infos mk ((vr_peers r)(p \<mapsto> peer')) p (gp_localAddress peer) (simulation_participants ?s r)"
  have inv0: "registry_inv (set_peer_state p (\<lambda>_. peer') r)" "vr_peers (set_peer_state p (\<lambda>_. peer') r) p \<noteq> None"
    using inv_set_peer_state[OF inv p(1)] p by (simp_all add: set_peer_state_def)
  consider (sim) "\<not> (vr_allowAnySimulationName r \<or> ?s = vr_simulationName r)"
    | (refused) e where "vr_allowAnySimulationName r \<or> ?s = vr_simulationName r"
        "FindConnectedParticipant ?n ?s r \<noteq> None \<and> e = NameTaken ?n ?s \<or> FindConnectedParticipant ?n ?s r = None \<and> ?known = Inl e"
    | (free) infos where "vr_allowAnySimulationName r \<or> ?s = vr_simulationName r" "FindConnectedParticipant ?n ?s r = None"
        "?known = Inr infos"
    by (cases ?known) blast+
  then show ?thesis
  proof cases
    case sim
    then show ?thesis using inv_failed_reply[OF inv] p by (simp add: handle_announcement_def)
  next
    case refused
    from refused_announcement[OF inv p peer'_def this] show ?thesis using inv_failed_reply[OF inv0] by auto
  next
    case free
    from accepted_announcement[OF inv p free(2,1) free(3)[unfolded peer'_def]] obtain r' where
      r': "handle_announcement mk p peer a r = Inr r'"
        "vr_sent r' = vr_sent r @ [(p, gp_protocolVersion peer,
           M_Known \<lparr>kp_messageHeader = MakeRegistryMsgHeader (gp_protocolVersion peer), kp_peerInfos = infos\<rparr>),
           (p, gp_protocolVersion peer, M_Reply \<lparr>pr_remoteHeader = MakeRegistryMsgHeader (gp_protocolVersion peer), pr_status = 1,
              pr_subscribers = vr_vasioReceivers r, pr_diagnostic = []\<rparr>)]"
        "vr_peers r' = (vr_peers r)(p \<mapsto> peer')" "vr_nextPeer r' = vr_nextPeer r"
        "\<And>n t. FindConnectedParticipant n t r' =
          (if n = ?n \<and> t = ?s then Some \<lparr>ci_peer = p, ci_peerInfo = pa_peerInfo a\<rparr> else FindConnectedParticipant n t r)"
        "vr_participantNameToPeer r' = (vr_participantNameToPeer r)(?s := (vr_participantNameToPeer r ?s)(?n \<mapsto> p))"
        "tables_ok r'"
      unfolding peer'_def by blast
    have "registry_inv r'"
      by (rule inv_registered(1)[OF inv p free(2) r'(2) _ r'(3,4) _ _ _ r'(5-7)]) (simp_all add: peer'_def)
    then show ?thesis using r'(1) by blast
  qed
qed

lemma receive_supported:
  assumes "vr_peers r p = Some peer" "ProtocolVersionSupported (sm_registryMessageHeader m)"
  defines "peer' \<equiv> peer\<lparr>gp_protocolVersion := ExtractProtocolVersion (sm_registryMessageHeader m)\<rparr>"
  shows "ReceiveParticipantAnnouncement mk p m r =
    (case SerializedMessage_Deserialize get_ParticipantAnnouncement (SerializedMessage_SetProtocolVersion (gp_protocolVersion peer') m) of
       Inl e \<Rightarrow> Inl (WireFault e, set_peer_state p (\<lambda>_. peer') r)
     | Inr (a, _) \<Rightarrow> handle_announcement mk p peer' a (set_peer_state p (\<lambda>_. peer') r))"
  unfolding peer'_def using assms(1,2) by (simp add: ReceiveParticipantAnnouncement_def Let_def)

lemma registry_inv_announce:
  assumes inv: "registry_inv r" and p: "vr_peers r p = Some peer" "\<not> registered r p"
  shows "registry_inv (after (ReceiveParticipantAnnouncement mk p m r))" (is ?inv)
    and "fst (projl (ReceiveParticipantAnnouncement mk p m r)) = DanglingPeer \<Longrightarrow> isl (ReceiveParticipantAnnouncement mk p m r) \<Longrightarrow> False"
      (is "PROP ?safe")
proof -
  define peer' where "peer' = peer\<lparr>gp_protocolVersion := ExtractProtocolVersion (sm_registryMessageHeader m)\<rparr>"
  define r0 where "r0 = set_peer_state p (\<lambda>_. peer') r"
  have inv0: "registry_inv r0" unfolding r0_def by (rule inv_set_peer_state[OF inv p(1)]) (simp add: peer'_def)
  have p0: "vr_peers r0 p = Some peer'" "\<not> registered r0 p" using p unfolding r0_def registered_set_peer_state by (simp_all add: set_peer_state_def)
  have supported: "ReceiveParticipantAnnouncement mk p m r =
      (case SerializedMessage_Deserialize get_ParticipantAnnouncement (SerializedMessage_SetProtocolVersion (gp_protocolVersion peer') m) of
         Inl e \<Rightarrow> Inl (WireFault e, r0) | Inr (a, _) \<Rightarrow> handle_announcement mk p peer' a r0)"
    if "ProtocolVersionSupported (sm_registryMessageHeader m)"
    unfolding peer'_def r0_def by (rule receive_supported[OF p(1) that])
  consider "ReceiveParticipantAnnouncement mk p m r =
      Inr (SendFailedParticipantAnnouncementReply p peer (vr_version r) (version_text (sm_registryMessageHeader m)) r)"
    | e where "ReceiveParticipantAnnouncement mk p m r = Inl (WireFault e, r0)"
    | a where "ReceiveParticipantAnnouncement mk p m r = handle_announcement mk p peer' a r0"
  proof (cases "ProtocolVersionSupported (sm_registryMessageHeader m)")
    case True
    then show ?thesis using that(2,3) supported
      by (cases "SerializedMessage_Deserialize get_ParticipantAnnouncement
        (SerializedMessage_SetProtocolVersion (gp_protocolVersion peer') m)") auto
  next
    case False
    then show ?thesis using that(1) p(1) by (simp add: ReceiveParticipantAnnouncement_def)
  qed
  then have "?inv \<and> \<not> (fst (projl (ReceiveParticipantAnnouncement mk p m r)) = DanglingPeer \<and> isl (ReceiveParticipantAnnouncement mk p m r))"
  proof cases
    case 1
    then show ?thesis using inv_failed_reply[OF inv] p(1) by simp
  next
    case 2
    then show ?thesis using inv0 by simp
  next
    case (3 a)
    then show ?thesis using inv_handle_announcement[OF inv0 p0, of mk peer' a] by auto
  qed
  then show ?inv "PROP ?safe" by auto
qed

subsection \<open>Requests and proxy messages\<close>

lemma found_peer:
  assumes "registry_inv r" "FindPeerByName_connection s n r = Some d"
  obtains i q where "FindConnectedParticipant n s r = Some i" "ci_peer i = d" "vr_peers r d = Some q" "d < vr_nextPeer r"
proof -
  from assms(2) obtain i where i: "FindConnectedParticipant n s r = Some i" "ci_peer i = d"
    using inv_parts(2)[OF assms(1), of s n] by (auto simp: FindPeerByName_connection_def)
  obtain q where "vr_peers r d = Some q" using inv_entry[OF assms(1) i(1)] i(2) by metis
  then show ?thesis using that i inv_parts(4)[OF assms(1)] by blast
qed

lemma inv_send:
  assumes "registry_inv r" "d < vr_nextPeer r" "no_success (d, v, m)"
  shows "registry_inv (send_to d v m r)"
  by (rule inv_frame[OF assms(1), where xs = "[(d, v, m)]"]) (use assms in \<open>auto simp: send_to_def\<close>)

lemma inv_request_registry:
  assumes inv: "registry_inv r"
  shows "registry_inv (after (ReceiveRemoteParticipantConnectRequest_Registry mk peer msg r))"
proof -
  have "registry_inv (send_to d v (M_ConnectRequest c) r)" if "FindPeerByName_connection s n r = Some d" for s n d v c
    by (rule found_peer[OF inv that]) (simp add: inv_send[OF inv])
  then show ?thesis using inv unfolding ReceiveRemoteParticipantConnectRequest_Registry_def
    by (auto split: option.splits sum.splits)
qed

lemma inv_request:
  assumes inv: "registry_inv r"
  shows "registry_inv (after (ReceiveRemoteParticipantConnectRequest mk p m r))"
proof (cases "vr_peers r p")
  case (Some peer)
  let ?f = "\<lambda>q. q\<lparr>gp_protocolVersion := ExtractProtocolVersion (sm_registryMessageHeader m)\<rparr>"
  have "set_peer_state p ?f r = set_peer_state p (\<lambda>_. ?f peer) r" using Some by (simp add: set_peer_state_def)
  then have "registry_inv (set_peer_state p ?f r)" using inv_set_peer_state[OF inv Some, of "?f peer"] by simp
  then show ?thesis using inv Some inv_request_registry unfolding ReceiveRemoteParticipantConnectRequest_def Let_def
    by (auto split: option.splits sum.splits)
qed (simp add: ReceiveRemoteParticipantConnectRequest_def inv)

lemma inv_relay:
  assumes inv: "registry_inv r"
  shows "registry_inv (after (relay_ProxyMessage p msg r))"
proof -
  have "registry_inv ((send_to d v (M_Proxy c) r)\<lparr>vr_proxySourceToDestinations := f\<rparr>)"
    if "FindPeerByName_connection s n r = Some d" for s n d v c f
    by (rule found_peer[OF inv that], rule inv_frame[OF inv_send[OF inv], where xs = "[]"]) auto
  then show ?thesis using inv unfolding relay_ProxyMessage_def Let_def by (auto split: option.splits)
qed

lemma notify_destinations_sends:
  assumes "registry_inv r"
  shows "\<exists>xs. notify_destinations s n ds r = r\<lparr>vr_sent := vr_sent r @ xs\<rparr> \<and> registry_inv (notify_destinations s n ds r)"
  using assms
proof (induction ds arbitrary: r)
  case Nil
  then show ?case by (auto intro: exI[of _ "[]"])
next
  case (Cons d ds)
  show ?case
  proof (cases "FindPeerByName_connection s d r")
    case None
    then show ?thesis using Cons by simp
  next
    case (Some q)
    let ?m = "M_Proxy \<lparr>pm_header = \<lparr>ph_version = 0\<rparr>, pm_source = n, pm_destination = d, pm_payload = []\<rparr>"
    have "registry_inv (send_to q CurrentProtocolVersion ?m r)" by (rule found_peer[OF Cons.prems Some]) (simp add: inv_send[OF Cons.prems])
    from Cons.IH[OF this] obtain xs where
      "notify_destinations s n ds (send_to q CurrentProtocolVersion ?m r) =
         (send_to q CurrentProtocolVersion ?m r)\<lparr>vr_sent := vr_sent (send_to q CurrentProtocolVersion ?m r) @ xs\<rparr>"
      "registry_inv (notify_destinations s n ds (send_to q CurrentProtocolVersion ?m r))" by blast
    then show ?thesis using Some by (intro exI[of _ "(q, CurrentProtocolVersion, ?m) # xs"]) (simp add: send_to_def)
  qed
qed

subsection \<open>Lost connections\<close>

lemma shutdown_registry:
  assumes "tables_ok r"
  shows "FindConnectedParticipant n t (OnPeerShutdown_registry peer r) =
      (if n = pi_participantName (gp_info peer) \<and> t = gp_simulationName peer then None else FindConnectedParticipant n t r)"
    "tables_ok (OnPeerShutdown_registry peer r)" "vr_peers (OnPeerShutdown_registry peer r) = vr_peers r"
    "vr_sent (OnPeerShutdown_registry peer r) = vr_sent r" "vr_nextPeer (OnPeerShutdown_registry peer r) = vr_nextPeer r"
    "vr_participantNameToPeer (OnPeerShutdown_registry peer r) = vr_participantNameToPeer r"
proof -
  let ?s = "gp_simulationName peer" and ?n = "pi_participantName (gp_info peer)"
  let ?rest = "AList.delete ?n (simulation_participants ?s r)"
  have eq: "vr_connectedParticipants (OnPeerShutdown_registry peer r) =
      (if FindConnectedParticipant ?n ?s r = None then vr_connectedParticipants r
       else if ?rest = [] then AList.delete ?s (vr_connectedParticipants r) else vr_connectedParticipants (set_participants ?s ?rest r))"
    using find_cong[of "call_listener (OnParticipantDisconnected_event ?s ?n) r" r]
    by (simp add: OnPeerShutdown_registry_def Let_def call_listener_def set_participants_def)
  have d: "distinct (map fst ?rest)" using participants_distinct[OF assms, of ?s] by (simp add: distinct_delete)
  show "tables_ok (OnPeerShutdown_registry peer r)"
    using eq assms tables_delete[OF assms, of ?s] tables_set_participants[OF assms d, of ?s] by (auto simp: tables_ok_def)
  have m: "map_of ?rest k = (if k = ?n then None else FindConnectedParticipant k ?s r)" for k
    by (simp add: delete_conv' find_participants)
  show "FindConnectedParticipant n t (OnPeerShutdown_registry peer r) =
      (if n = ?n \<and> t = ?s then None else FindConnectedParticipant n t r)"
  proof (cases "FindConnectedParticipant ?n ?s r = None")
    case True
    then show ?thesis using find_cong[of "OnPeerShutdown_registry peer r" r] eq by auto
  next
    case False
    let ?r = "if ?rest = [] then r\<lparr>vr_connectedParticipants := AList.delete ?s (vr_connectedParticipants r)\<rparr>
              else set_participants ?s ?rest r"
    have "FindConnectedParticipant n t (OnPeerShutdown_registry peer r) = FindConnectedParticipant n t ?r"
      by (rule find_cong[THEN conjunct1]) (unfold eq if_not_P[OF False], simp)
    also have "\<dots> = (if t = ?s then map_of ?rest n else FindConnectedParticipant n t r)" by simp
    finally show ?thesis using m by simp
  qed
qed (simp_all add: OnPeerShutdown_registry_def Let_def call_listener_def set_participants_def)

lemma inv_lost:
  assumes inv: "registry_inv r" and p: "vr_peers r p = Some peer" and owns: "owns_its_name r p"
  shows "registry_inv (OnPeerShutdown_connection p r)"
proof (cases "vr_isShuttingDown r")
  case True
  then show ?thesis using inv by (simp add: OnPeerShutdown_connection_def)
next
  case False
  let ?s = "gp_simulationName peer" and ?n = "pi_participantName (gp_info peer)"
  define r0 where "r0 = SendProxyPeerShutdownNotification peer r"
  obtain xs where xs: "r0 = r\<lparr>vr_sent := vr_sent r @ xs\<rparr>" and inv0: "registry_inv r0"
    using notify_destinations_sends[OF inv] unfolding r0_def SendProxyPeerShutdownNotification_def Let_def by blast
  define r1 where "r1 = OnPeerShutdown_connection p r"
  have r1: "r1 = RemovePeerFromConnection p peer (OnPeerShutdown_registry peer r0)"
    using False p by (simp add: r1_def OnPeerShutdown_connection_def r0_def)
  note tab0 = inv_parts(1)[OF inv0]
  have find: "FindConnectedParticipant n t r1 = (if n = ?n \<and> t = ?s then None else FindConnectedParticipant n t r0)" for n t
    using shutdown_registry(1)[OF tab0, of n t peer] find_cong[of r1 "OnPeerShutdown_registry peer r0" n t]
    by (simp add: r1 RemovePeerFromConnection_def)
  have peers: "vr_peers r1 = (vr_peers r0)(p := None)" "vr_sent r1 = vr_sent r0" "vr_nextPeer r1 = vr_nextPeer r0"
    "vr_participantNameToPeer r1 = (vr_participantNameToPeer r0)(?s := (vr_participantNameToPeer r0 ?s)(?n := None))"
    using shutdown_registry[OF tab0] by (simp_all add: r1 RemovePeerFromConnection_def)
  have p0: "vr_peers r0 p = Some peer" using p xs by simp
  have mine: "n = ?n \<and> t = ?s \<longleftrightarrow> ci_peer i = p" if "FindConnectedParticipant n t r0 = Some i" for n t i
  proof
    have "FindConnectedParticipant n t r = Some i" using that find_cong[of r0 r n t] xs by simp
    then show "ci_peer i = p" if "n = ?n \<and> t = ?s" using that owns p by (simp add: owns_its_name_def)
    show "n = ?n \<and> t = ?s" if i: "ci_peer i = p" by (rule inv_entry[OF inv0 \<open>FindConnectedParticipant n t r0 = Some i\<close>]) (use i p0 in auto)
  qed
  have reg: "registered r1 q \<longleftrightarrow> registered r0 q \<and> q \<noteq> p" for q
    unfolding registered_def find using mine by (auto split: if_splits) metis
  have "registry_inv r1"
  proof (rule registryI)
    show "tables_ok r1" using shutdown_registry(2)[OF tab0, of peer] tables_cong[of r1 "OnPeerShutdown_registry peer r0"]
      by (simp add: r1 RemovePeerFromConnection_def)
    show "\<exists>q. vr_peers r1 (ci_peer i) = Some q \<and> gp_simulationName q = t \<and> gp_info q = ci_peerInfo i \<and> pi_participantName (ci_peerInfo i) = n"
      if "FindConnectedParticipant n t r1 = Some i" for t n i
    proof -
      have f: "FindConnectedParticipant n t r0 = Some i" "\<not> (n = ?n \<and> t = ?s)" using that unfolding find by (auto split: if_splits)
      then have i: "ci_peer i \<noteq> p" using mine by blast
      show ?thesis by (rule inv_entry[OF inv0 f(1)]) (use i in \<open>simp add: peers(1)\<close>)
    qed
    show "vr_participantNameToPeer r1 t n = map_option ci_peer (FindConnectedParticipant n t r1)" for t n
      unfolding find peers(4) using inv_parts(2)[OF inv0] by auto
    show "accepted r1 q \<longleftrightarrow> registered r1 q" for q
      unfolding reg using inv_parts(3)[OF inv0, of q] by (auto simp: accepted_def peers)
    show "q < vr_nextPeer r1" if "vr_peers r1 q = Some y" for q y
      using that inv_parts(4)[OF inv0] unfolding peers by (auto split: if_splits)
    show "fst y < vr_nextPeer r1" if "y \<in> set (vr_sent r1)" for y using that inv_parts(5)[OF inv0] unfolding peers by blast
  qed
  then show ?thesis by (simp add: r1_def)
qed

lemma inv_step: "registry_step mk r r' \<Longrightarrow> registry_inv r \<Longrightarrow> registry_inv r'"
proof (induction rule: registry_step.induct)
  case connect
  then show ?case by (rule inv_AddPeer)
next
  case announce
  then show ?case using registry_inv_announce(1) by blast
next
  case request
  then show ?case using inv_request by blast
next
  case relay
  then show ?case using inv_relay by blast
next
  case lost
  then show ?case using inv_lost by blast
qed

definition flags :: "VAsioRegistry \<Rightarrow> bool \<times> bool" where
  "flags r = (vr_isShuttingDown r, vr_allowAnySimulationName r)"

lemma flags_simps [simp]:
  "flags (send_to p v m r) = flags r" "flags (set_peer_state p f r) = flags r" "flags (set_participants s ps r) = flags r"
  "flags (call_listener e r) = flags r" "flags (AddPeer junk remote local r) = flags r"
  "flags (AssociateParticipantNameAndPeer s n p r) = flags r" "flags (SendParticipantAnnouncementReply p peer r) = flags r"
  "flags (SendFailedParticipantAnnouncementReply p peer version d r) = flags r"
  "flags (RemovePeerFromConnection p peer r) = flags r" "flags (OnPeerShutdown_registry peer r) = flags r"
  by (simp_all add: flags_def send_to_def set_peer_state_def set_participants_def call_listener_def AddPeer_def
      AssociateParticipantNameAndPeer_def SendParticipantAnnouncementReply_def SendFailedParticipantAnnouncementReply_def
      RemovePeerFromConnection_def OnPeerShutdown_registry_def Let_def split: option.split)

lemma flags_announcement: "flags (after (OnParticipantAnnouncement mk p peer a r)) = flags r"
  by (cases "SendKnownParticipants mk p peer (pa_simulationName a) r")
    (auto simp: OnParticipantAnnouncement_def SendKnownParticipants_def Let_def split: sum.splits)

lemma flags_handle_announcement: "flags (after (handle_announcement mk p peer a r)) = flags r"
proof (cases "\<not> vr_allowAnySimulationName r \<and> pa_simulationName a \<noteq> vr_simulationName r")
  case False
  let ?peer = "peer\<lparr>gp_info := pa_peerInfo a, gp_simulationName := pa_simulationName a\<rparr>"
  show ?thesis using False flags_announcement[of mk p ?peer a "set_peer_state p (\<lambda>_. ?peer) r"]
    by (cases "OnParticipantAnnouncement mk p ?peer a (set_peer_state p (\<lambda>_. ?peer) r)")
      (auto simp: handle_announcement_def Let_def split: option.splits)
qed (simp add: handle_announcement_def)

lemma flags_receive: "flags (after (ReceiveParticipantAnnouncement mk p m r)) = flags r"
proof (cases "vr_peers r p")
  case (Some peer)
  show ?thesis
  proof (cases "ProtocolVersionSupported (sm_registryMessageHeader m)")
    case True
    show ?thesis unfolding receive_supported[OF Some True] by (auto simp: flags_handle_announcement split: sum.split)
  qed (simp add: ReceiveParticipantAnnouncement_def Some)
qed (simp add: ReceiveParticipantAnnouncement_def)

lemma flags_notify: "flags (notify_destinations s n ds r) = flags r"
  by (induction ds arbitrary: r) (simp_all split: option.split)

lemma flags_step: "registry_step mk r r' \<Longrightarrow> flags r' = flags r"
proof (induction rule: registry_step.induct)
  case (request r p m)
  have "flags (after (ReceiveRemoteParticipantConnectRequest_Registry mk peer msg r)) = flags r" for peer msg r
    by (auto simp: ReceiveRemoteParticipantConnectRequest_Registry_def split: option.splits sum.splits)
  then show ?case by (auto simp: ReceiveRemoteParticipantConnectRequest_def Let_def split: option.splits sum.splits)
next
  case (relay r p msg)
  have "flags (r\<lparr>vr_proxySourceToDestinations := f\<rparr>) = flags r" for r f by (simp add: flags_def)
  then show ?case by (auto simp: relay_ProxyMessage_def Let_def split: option.splits)
next
  case (lost r p)
  then show ?case by (auto simp: OnPeerShutdown_connection_def SendProxyPeerShutdownNotification_def Let_def flags_notify)
qed (simp_all add: flags_receive)

lemma run_flags:
  assumes "registry_run mk r"
  shows "\<not> vr_isShuttingDown r" "vr_allowAnySimulationName r"
proof -
  from assms obtain version capabilities receivers listener handler where
    "(registry_step mk)\<^sup>*\<^sup>* (new_registry version capabilities receivers listener handler) r" unfolding registry_run_def by blast
  then have "flags r = (False, True)"
    by (induction rule: rtranclp_induct) (auto simp: flags_step, simp add: flags_def new_registry_def)
  then show "\<not> vr_isShuttingDown r" "vr_allowAnySimulationName r" by (simp_all add: flags_def)
qed

lemma inv_run: "registry_run mk r \<Longrightarrow> registry_inv r"
proof -
  assume "registry_run mk r"
  then obtain version capabilities receivers listener handler where
    "(registry_step mk)\<^sup>*\<^sup>* (new_registry version capabilities receivers listener handler) r" unfolding registry_run_def by blast
  then show "registry_inv r" by (induction rule: rtranclp_induct) (auto intro: inv_new_registry inv_step)
qed

section \<open>What a newcomer is told\<close>

definition announces :: "SerializedMessage \<Rightarrow> ParticipantAnnouncement \<Rightarrow> bool" where
  "announces m a \<longleftrightarrow> ProtocolVersionSupported (sm_registryMessageHeader m) \<and>
     (\<exists>m'. SerializedMessage_Deserialize get_ParticipantAnnouncement
        (SerializedMessage_SetProtocolVersion (ExtractProtocolVersion (sm_registryMessageHeader m)) m) = Inr (a, m'))"

text \<open>The accepted participants of a simulation that are still connected.\<close>

definition members :: "VAsioRegistry \<Rightarrow> string \<Rightarrow> RegistryPeer set" where
  "members r simulation = {q. gp_simulationName q = simulation \<and> (\<exists>x. accepted r x \<and> vr_peers r x = Some q)}"

lemma members_entries:
  assumes inv: "registry_inv r"
  shows "q \<in> members r s \<longleftrightarrow> (\<exists>n i. FindConnectedParticipant n s r = Some i \<and> vr_peers r (ci_peer i) = Some q)"
proof
  assume "q \<in> members r s"
  then obtain x where x: "gp_simulationName q = s" "accepted r x" "vr_peers r x = Some q" by (auto simp: members_def)
  then obtain t n i where i: "FindConnectedParticipant n t r = Some i" "ci_peer i = x"
    using inv_parts(3)[OF inv, of x] by (auto simp: registered_def)
  have "t = s" by (rule inv_entry[OF inv i(1)]) (use x i(2) in auto)
  then show "\<exists>n i. FindConnectedParticipant n s r = Some i \<and> vr_peers r (ci_peer i) = Some q" using i x by blast
next
  assume "\<exists>n i. FindConnectedParticipant n s r = Some i \<and> vr_peers r (ci_peer i) = Some q"
  then obtain n i where i: "FindConnectedParticipant n s r = Some i" "vr_peers r (ci_peer i) = Some q" by blast
  have "gp_simulationName q = s" by (rule inv_entry[OF inv i(1)]) (use i in auto)
  moreover have "accepted r (ci_peer i)" using i inv_parts(3)[OF inv] by (auto simp: registered_def)
  ultimately show "q \<in> members r s" using i(2) by (auto simp: members_def)
qed

lemma name_free:
  assumes inv: "registry_inv r"
  shows "FindConnectedParticipant n s r = None \<longleftrightarrow> (\<forall>q \<in> members r s. pi_participantName (gp_info q) \<noteq> n)"
proof
  assume none: "FindConnectedParticipant n s r = None"
  show "\<forall>q \<in> members r s. pi_participantName (gp_info q) \<noteq> n"
  proof
    fix q assume "q \<in> members r s"
    then obtain k i where k: "FindConnectedParticipant k s r = Some i" "vr_peers r (ci_peer i) = Some q"
      using members_entries[OF inv] by blast
    have "pi_participantName (gp_info q) = k" by (rule inv_entry[OF inv k(1)]) (use k(2) in auto)
    then show "pi_participantName (gp_info q) \<noteq> n" using k(1) none by auto
  qed
next
  assume all: "\<forall>q \<in> members r s. pi_participantName (gp_info q) \<noteq> n"
  show "FindConnectedParticipant n s r = None"
  proof (rule ccontr)
    assume "FindConnectedParticipant n s r \<noteq> None"
    then obtain i where i: "FindConnectedParticipant n s r = Some i" by blast
    obtain q where "vr_peers r (ci_peer i) = Some q" "pi_participantName (gp_info q) = n"
      by (rule inv_entry[OF inv i]) auto
    then show False using all i members_entries[OF inv] by blast
  qed
qed

text \<open>What the newcomer is told about a member.\<close>

definition told_of :: "make_address \<Rightarrow> string \<Rightarrow> RegistryPeer \<Rightarrow> VAsioPeerInfo" where
  "told_of mk localAddress q = (gp_info q)\<lparr>pi_acceptorUris :=
     projr (TransformAcceptorUris mk (pi_acceptorUris (gp_info q)) (gp_remoteAddress q) localAddress)\<rparr>"

lemma told_infos:
  assumes inv: "registry_inv r" and p: "\<not> registered r p"
    and adv: "\<forall>q \<in> members r s. can_be_advertised mk q addr"
  obtains infos where "known_infos mk ((vr_peers r)(p \<mapsto> peer')) p addr (simulation_participants s r) = Inr infos"
    "set infos = told_of mk addr ` members r s" "distinct (map pi_participantName infos)"
proof -
  let ?ps = "simulation_participants s r" and ?peers = "(vr_peers r)(p \<mapsto> peer')"
  have entry: "\<exists>q. ?peers (ci_peer i) = Some q \<and> vr_peers r (ci_peer i) = Some q \<and> q \<in> members r s \<and> ci_peer i \<noteq> p \<and>
      pi_participantName (gp_info q) = n \<and> gp_info q = ci_peerInfo i" if i: "(n, i) \<in> set ?ps" for n i
  proof -
    note k = known_entries[OF inv p i]
    obtain q where "vr_peers r (ci_peer i) = Some q" "gp_info q = ci_peerInfo i" "pi_participantName (ci_peerInfo i) = n"
      by (rule inv_entry[OF inv k(1)])
    then show ?thesis using k members_entries[OF inv] by auto
  qed
  let ?infos = "map (advertised_info mk ?peers addr \<circ> snd) ?ps"
  have "known_infos mk ?peers p addr ?ps = Inr ?infos"
    by (rule known_infos_all) (use entry adv in fastforce)
  moreover have "set ?infos = told_of mk addr ` members r s"
  proof (intro set_eqI iffI)
    fix y assume "y \<in> set ?infos"
    then obtain n i where i: "(n, i) \<in> set ?ps" "y = advertised_info mk ?peers addr i" by auto
    from entry[OF i(1)] obtain q where "?peers (ci_peer i) = Some q" "q \<in> members r s" "gp_info q = ci_peerInfo i" by blast
    then show "y \<in> told_of mk addr ` members r s" using i(2) by (intro image_eqI[of _ _ q]) (simp_all add: told_of_def advertised_info_def)
  next
    fix y assume "y \<in> told_of mk addr ` members r s"
    then obtain q where q: "q \<in> members r s" "y = told_of mk addr q" by blast
    then obtain n i where i: "FindConnectedParticipant n s r = Some i" "vr_peers r (ci_peer i) = Some q"
      using members_entries[OF inv] by blast
    have m: "(n, i) \<in> set ?ps" using i(1) map_of_SomeD[of ?ps n i] by (simp add: find_participants)
    from entry[OF m] i(2) have "?peers (ci_peer i) = Some q" "gp_info q = ci_peerInfo i" by auto
    then have "(advertised_info mk ?peers addr \<circ> snd) (n, i) = y" using q(2) by (simp add: told_of_def advertised_info_def)
    then show "y \<in> set ?infos" using m by (metis image_eqI list.set_map)
  qed
  moreover have "map pi_participantName ?infos = map fst ?ps"
    using entry by (fastforce simp: advertised_info_def Let_def)
  then have "distinct (map pi_participantName ?infos)" using participants_distinct[OF inv_parts(1)[OF inv]] by (simp only:)
  ultimately show ?thesis by (rule that)
qed

lemma members_set_peer_state:
  assumes "registry_inv r" "vr_peers r p = Some peer0" "\<not> registered r p"
  shows "members (set_peer_state p (\<lambda>_. peer) r) s = members r s"
proof -
  have "accepted r x \<Longrightarrow> x \<noteq> p" for x using inv_parts(3)[OF assms(1)] assms(3) by blast
  moreover have "accepted (set_peer_state p (\<lambda>_. peer) r) x = accepted r x" for x
    using assms(2) by (auto simp: accepted_def set_peer_state_def)
  ultimately show ?thesis by (auto simp: members_def set_peer_state_def)
qed

lemma announced_to:
  assumes run: "registry_run mk r" and p: "vr_peers r p = Some peer" "\<not> accepted r p" and m: "announces m a"
  obtains peer1 r1 where "peer1 = peer\<lparr>gp_protocolVersion := ExtractProtocolVersion (sm_registryMessageHeader m)\<rparr>"
    "r1 = set_peer_state p (\<lambda>_. peer1) r" "registry_inv r1" "vr_peers r1 p = Some peer1" "\<not> registered r1 p"
    "ReceiveParticipantAnnouncement mk p m r = handle_announcement mk p peer1 a r1"
    "\<And>s. members r1 s = members r s" "\<And>x. accepted r1 x = accepted r x" "vr_sent r1 = vr_sent r" "vr_allowAnySimulationName r1"
proof -
  note inv = inv_run[OF run]
  have reg: "\<not> registered r p" using p(2) inv_parts(3)[OF inv] by blast
  define peer1 where "peer1 = peer\<lparr>gp_protocolVersion := ExtractProtocolVersion (sm_registryMessageHeader m)\<rparr>"
  define r1 where "r1 = set_peer_state p (\<lambda>_. peer1) r"
  obtain m' where m': "SerializedMessage_Deserialize get_ParticipantAnnouncement
      (SerializedMessage_SetProtocolVersion (gp_protocolVersion peer1) m) = Inr (a, m')"
    using m unfolding announces_def peer1_def by auto
  have "ReceiveParticipantAnnouncement mk p m r = handle_announcement mk p peer1 a r1"
    using receive_supported[OF p(1), of m mk] m m' unfolding announces_def r1_def peer1_def by simp
  moreover have "registry_inv r1" unfolding r1_def by (rule inv_set_peer_state[OF inv p(1)]) (simp add: peer1_def)
  moreover have "vr_peers r1 p = Some peer1" "\<not> registered r1 p"
    using p(1) reg unfolding r1_def registered_set_peer_state by (simp_all add: set_peer_state_def)
  moreover have "members r1 s = members r s" for s unfolding r1_def by (rule members_set_peer_state[OF inv p(1) reg])
  moreover have "accepted r1 x = accepted r x" "vr_sent r1 = vr_sent r" for x
    using p(1) by (auto simp: accepted_def r1_def set_peer_state_def)
  moreover have "vr_allowAnySimulationName r1" using run_flags(2)[OF run] by (simp add: r1_def set_peer_state_def)
  ultimately show ?thesis using that peer1_def r1_def by blast
qed

lemma newcomer_accepted:
  assumes run: "registry_run mk r" and p: "vr_peers r p = Some peer" "\<not> accepted r p" and m: "announces m a"
    and free: "\<forall>q \<in> members r (pa_simulationName a). pi_participantName (gp_info q) \<noteq> pi_participantName (pa_peerInfo a)"
    and adv: "\<forall>q \<in> members r (pa_simulationName a). can_be_advertised mk q (gp_localAddress peer)"
  shows "\<exists>r' v known reply. ReceiveParticipantAnnouncement mk p m r = Inr r' \<and>
    vr_sent r' = vr_sent r @ [(p, v, M_Known known), (p, v, M_Reply reply)] \<and> pr_status reply = 1 \<and>
    set (kp_peerInfos known) = told_of mk (gp_localAddress peer) ` members r (pa_simulationName a) \<and>
    distinct (map pi_participantName (kp_peerInfos known)) \<and>
    (\<forall>q. accepted r' q \<longleftrightarrow> q = p \<or> accepted r q) \<and>
    (\<exists>peer'. vr_peers r' = (vr_peers r)(p \<mapsto> peer') \<and> gp_info peer' = pa_peerInfo a \<and> gp_simulationName peer' = pa_simulationName a \<and>
       gp_remoteAddress peer' = gp_remoteAddress peer)"
proof -
  from announced_to[OF run p m] obtain peer1 r1 where
    r1: "peer1 = peer\<lparr>gp_protocolVersion := ExtractProtocolVersion (sm_registryMessageHeader m)\<rparr>"
      "r1 = set_peer_state p (\<lambda>_. peer1) r" "registry_inv r1" "vr_peers r1 p = Some peer1" "\<not> registered r1 p"
      "ReceiveParticipantAnnouncement mk p m r = handle_announcement mk p peer1 a r1"
      "\<And>s. members r1 s = members r s" "\<And>x. accepted r1 x = accepted r x" "vr_sent r1 = vr_sent r" "vr_allowAnySimulationName r1"
    by metis
  let ?s = "pa_simulationName a" and ?n = "pi_participantName (pa_peerInfo a)"
  have addr: "gp_localAddress peer1 = gp_localAddress peer" by (simp add: r1(1))
  have none: "FindConnectedParticipant ?n ?s r1 = None" using free name_free[OF r1(3)] r1(7) by simp
  define peer' where "peer' = peer1\<lparr>gp_info := pa_peerInfo a, gp_simulationName := ?s\<rparr>"
  have adv1: "\<forall>q \<in> members r1 ?s. can_be_advertised mk q (gp_localAddress peer1)" using adv r1(7) addr by simp
  obtain infos where infos: "known_infos mk ((vr_peers r1)(p \<mapsto> peer')) p (gp_localAddress peer1) (simulation_participants ?s r1) = Inr infos"
      "set infos = told_of mk (gp_localAddress peer1) ` members r1 ?s" "distinct (map pi_participantName infos)"
    by (rule told_infos[OF r1(3,5) adv1])
  let ?v = "gp_protocolVersion peer1"
  let ?k = "\<lparr>kp_messageHeader = MakeRegistryMsgHeader ?v, kp_peerInfos = infos\<rparr>"
  let ?reply = "\<lparr>pr_remoteHeader = MakeRegistryMsgHeader ?v, pr_status = 1, pr_subscribers = vr_vasioReceivers r1, pr_diagnostic = []\<rparr>"
  obtain r' where r': "handle_announcement mk p peer1 a r1 = Inr r'" "vr_sent r' = vr_sent r1 @ [(p, ?v, M_Known ?k), (p, ?v, M_Reply ?reply)]"
      "vr_peers r' = (vr_peers r1)(p \<mapsto> peer')" "vr_nextPeer r' = vr_nextPeer r1"
      "\<And>n t. FindConnectedParticipant n t r' =
        (if n = ?n \<and> t = ?s then Some \<lparr>ci_peer = p, ci_peerInfo = pa_peerInfo a\<rparr> else FindConnectedParticipant n t r1)"
      "vr_participantNameToPeer r' = (vr_participantNameToPeer r1)(?s := (vr_participantNameToPeer r1 ?s)(?n \<mapsto> p))" "tables_ok r'"
    using accepted_announcement[OF r1(3-5) none disjI1[OF r1(10)] infos(1)[unfolded peer'_def]] unfolding peer'_def by blast
  have acc: "accepted r' q \<longleftrightarrow> q = p \<or> accepted r1 q" for q
    by (rule inv_registered(2)[OF r1(3-5) none r'(2) _ r'(3,4) _ _ _ r'(5-7)]) (simp_all add: peer'_def)
  have "vr_peers r' = (vr_peers r)(p \<mapsto> peer')" using r'(3) r1(2) p(1) by (simp add: set_peer_state_def)
  then show ?thesis using r'(1,2) r1(6,7,8,9) infos(2,3) acc addr
    by (intro exI[of _ r'] exI[of _ ?v] exI[of _ ?k] exI[of _ ?reply]) (auto simp: peer'_def r1(1))
qed

lemma newcomer_refused:
  assumes run: "registry_run mk r" and p: "vr_peers r p = Some peer" "\<not> accepted r p" and m: "announces m a"
    and taken: "q \<in> members r (pa_simulationName a)" "pi_participantName (gp_info q) = pi_participantName (pa_peerInfo a)"
  shows "\<exists>r' v reply peer'. ReceiveParticipantAnnouncement mk p m r = Inr r' \<and> vr_sent r' = vr_sent r @ [(p, v, M_Reply reply)] \<and>
    pr_status reply = 0 \<and> (\<forall>x. accepted r' x \<longleftrightarrow> accepted r x) \<and> (\<forall>n t. FindConnectedParticipant n t r' = FindConnectedParticipant n t r) \<and>
    vr_peers r' = (vr_peers r)(p \<mapsto> peer') \<and> gp_info peer' = pa_peerInfo a \<and> gp_simulationName peer' = pa_simulationName a"
proof -
  from announced_to[OF run p m] obtain peer1 r1 where
    r1: "peer1 = peer\<lparr>gp_protocolVersion := ExtractProtocolVersion (sm_registryMessageHeader m)\<rparr>"
      "r1 = set_peer_state p (\<lambda>_. peer1) r" "registry_inv r1" "vr_peers r1 p = Some peer1" "\<not> registered r1 p"
      "ReceiveParticipantAnnouncement mk p m r = handle_announcement mk p peer1 a r1"
      "\<And>s. members r1 s = members r s" "\<And>x. accepted r1 x = accepted r x" "vr_sent r1 = vr_sent r" "vr_allowAnySimulationName r1"
    by metis
  let ?s = "pa_simulationName a" and ?n = "pi_participantName (pa_peerInfo a)"
  have some: "FindConnectedParticipant ?n ?s r1 \<noteq> None" using taken name_free[OF r1(3)] r1(7) by blast
  define peer' where "peer' = peer1\<lparr>gp_info := pa_peerInfo a, gp_simulationName := ?s\<rparr>"
  have why: "FindConnectedParticipant ?n ?s r1 \<noteq> None \<and> NameTaken ?n ?s = NameTaken ?n ?s \<or> FindConnectedParticipant ?n ?s r1 = None \<and>
      known_infos mk ((vr_peers r1)(p \<mapsto> peer')) p (gp_localAddress peer1) (simulation_participants ?s r1) = Inl (NameTaken ?n ?s)"
    using some by blast
  obtain d where d: "handle_announcement mk p peer1 a r1 =
      Inr (SendFailedParticipantAnnouncementReply p peer' (gp_protocolVersion peer1) d (set_peer_state p (\<lambda>_. peer') r1))"
    using refused_announcement[OF r1(3-5) peer'_def disjI1[OF r1(10)] why] by blast
  let ?r' = "SendFailedParticipantAnnouncementReply p peer' (gp_protocolVersion peer1) d (set_peer_state p (\<lambda>_. peer') r1)"
  have peers: "vr_peers ?r' = (vr_peers r)(p \<mapsto> peer')" "vr_connectedParticipants ?r' = vr_connectedParticipants r"
    "vr_sent ?r' = vr_sent r @ [(p, gp_protocolVersion peer', M_Reply \<lparr>pr_remoteHeader = MakeRegistryMsgHeader (gp_protocolVersion peer1),
      pr_status = 0, pr_subscribers = [], pr_diagnostic = d\<rparr>)]"
    using p(1) by (simp_all add: SendFailedParticipantAnnouncementReply_def send_to_def set_peer_state_def r1(2))
  have "accepted ?r' x \<longleftrightarrow> accepted r x" for x using p(1) by (auto simp: accepted_def peers)
  moreover have "FindConnectedParticipant n t ?r' = FindConnectedParticipant n t r" for n t using find_cong[OF peers(2)] by simp
  ultimately show ?thesis using d r1(6) peers(1,3)
    by (intro exI[of _ ?r'] exI[of _ "gp_protocolVersion peer'"] exI[of _ "\<lparr>pr_remoteHeader = MakeRegistryMsgHeader (gp_protocolVersion peer1),
      pr_status = 0, pr_subscribers = [], pr_diagnostic = d\<rparr>"] exI[of _ peer']) (simp add: peer'_def)
qed

section \<open>Properties\<close>

definition sample_registry :: VAsioRegistry where
  "sample_registry = new_registry v31 [] [] True True"

lemma sample_message: "\<exists>m. announces m (sample_announcement v31)"
proof -
  have h: "handshake v31 T_ParticipantAnnouncement put_ParticipantAnnouncement get_ParticipantAnnouncement (sample_announcement v31) =
      Inr (1, pa_messageHeader (sample_announcement v31), sample_announcement v31)"
    using registry_announcement_v31.handshaken[OF sample_announcement_ok sample_announcement_fits(1)] by simp
  have v: "ProtocolVersionSupported (pa_messageHeader (sample_announcement v31))"
    "ExtractProtocolVersion (pa_messageHeader (sample_announcement v31)) = v31" by code_simp+
  obtain m m' where "sm_registryMessageHeader m = pa_messageHeader (sample_announcement v31)"
    "SerializedMessage_Deserialize get_ParticipantAnnouncement (SerializedMessage_SetProtocolVersion v31 m) =
       Inr (sample_announcement v31, m')"
    using h unfolding handshake_def bindE_def by (auto split: sum.splits prod.splits)
  then show ?thesis using v by (intro exI[of _ m]) (simp add: announces_def)
qed

lemma run_step: "registry_run mk r \<Longrightarrow> registry_step mk r r' \<Longrightarrow> registry_run mk r'"
  unfolding registry_run_def by (meson rtranclp.rtrancl_into_rtrancl)

lemma run_new: "registry_run mk (new_registry version capabilities receivers listener handler)"
  unfolding registry_run_def by blast

lemma sample_connected:
  "registry_run mk (AddPeer 0 remote local sample_registry)" "vr_peers (AddPeer 0 remote local sample_registry) 0 \<noteq> None"
  "\<not> accepted (AddPeer 0 remote local sample_registry) p" "members (AddPeer 0 remote local sample_registry) s = {}"
proof -
  show "registry_run mk (AddPeer 0 remote local sample_registry)"
    unfolding sample_registry_def by (rule run_step[OF run_new registry_step.connect])
  show "vr_peers (AddPeer 0 remote local sample_registry) 0 \<noteq> None" by (simp add: AddPeer_def sample_registry_def new_registry_def)
  have "vr_sent (AddPeer 0 remote local sample_registry) = []" by (simp add: AddPeer_def sample_registry_def new_registry_def)
  then show "\<not> accepted (AddPeer 0 remote local sample_registry) p" "members (AddPeer 0 remote local sample_registry) s = {}"
    by (simp_all add: members_def accepted_def)
qed

text \<open>
  C38. In every run of the registry in which no registered peer announces itself a second time and a lost peer does not have the name of
  another one, the announcement of a peer that is not yet accepted is answered as follows. When the name is free in its simulation and the addresses of the others can be
  advertised, the newcomer is first told of exactly the accepted participants of its simulation that are still connected, each once,
  with the addresses for its own endpoint, and then accepted. When the name is in use it is refused and
  the accepted participants stay what they are.
\<close>

theorem newcomers_know_everyone:
  assumes "registry_run mk r" "vr_peers r p = Some peer" "\<not> accepted r p" "announces m a"
  shows "((\<forall>q \<in> members r (pa_simulationName a). pi_participantName (gp_info q) \<noteq> pi_participantName (pa_peerInfo a) \<and>
         can_be_advertised mk q (gp_localAddress peer)) \<longrightarrow>
      (\<exists>r' v known reply. ReceiveParticipantAnnouncement mk p m r = Inr r' \<and>
         vr_sent r' = vr_sent r @ [(p, v, M_Known known), (p, v, M_Reply reply)] \<and> pr_status reply = 1 \<and>
         set (kp_peerInfos known) = told_of mk (gp_localAddress peer) ` members r (pa_simulationName a) \<and>
         distinct (map pi_participantName (kp_peerInfos known)) \<and> (\<forall>q. accepted r' q \<longleftrightarrow> q = p \<or> accepted r q))) \<and>
     ((\<exists>q \<in> members r (pa_simulationName a). pi_participantName (gp_info q) = pi_participantName (pa_peerInfo a)) \<longrightarrow>
      (\<exists>r' v reply. ReceiveParticipantAnnouncement mk p m r = Inr r' \<and> vr_sent r' = vr_sent r @ [(p, v, M_Reply reply)] \<and>
         pr_status reply = 0 \<and> (\<forall>q. accepted r' q \<longleftrightarrow> accepted r q)))"
proof (intro conjI impI)
  assume "\<forall>q \<in> members r (pa_simulationName a). pi_participantName (gp_info q) \<noteq> pi_participantName (pa_peerInfo a) \<and>
         can_be_advertised mk q (gp_localAddress peer)"
  then show "\<exists>r' v known reply. ReceiveParticipantAnnouncement mk p m r = Inr r' \<and>
         vr_sent r' = vr_sent r @ [(p, v, M_Known known), (p, v, M_Reply reply)] \<and> pr_status reply = 1 \<and>
         set (kp_peerInfos known) = told_of mk (gp_localAddress peer) ` members r (pa_simulationName a) \<and>
         distinct (map pi_participantName (kp_peerInfos known)) \<and> (\<forall>q. accepted r' q \<longleftrightarrow> q = p \<or> accepted r q)"
    using newcomer_accepted[OF assms] by blast
next
  assume "\<exists>q \<in> members r (pa_simulationName a). pi_participantName (gp_info q) = pi_participantName (pa_peerInfo a)"
  then show "\<exists>r' v reply. ReceiveParticipantAnnouncement mk p m r = Inr r' \<and> vr_sent r' = vr_sent r @ [(p, v, M_Reply reply)] \<and>
         pr_status reply = 0 \<and> (\<forall>q. accepted r' q \<longleftrightarrow> accepted r q)"
    using newcomer_refused[OF assms] by blast
qed

theorem newcomers_know_everyone_witness:
  "\<exists>m r' v known reply. ReceiveParticipantAnnouncement sample_make_address 0 m (AddPeer 0 ''tcp://10.0.0.5:44'' ''tcp://10.0.0.1:8500'' sample_registry) = Inr r' \<and>
     vr_sent r' = [(0, v, M_Known known), (0, v, M_Reply reply)] \<and> kp_peerInfos known = [] \<and> pr_status reply = 1"
proof -
  let ?r = "AddPeer 0 ''tcp://10.0.0.5:44'' ''tcp://10.0.0.1:8500'' sample_registry"
  obtain m where m: "announces m (sample_announcement v31)" using sample_message by blast
  obtain peer where "vr_peers ?r 0 = Some peer" using sample_connected(2) by blast
  from newcomers_know_everyone[OF sample_connected(1) this sample_connected(3) m, of sample_make_address]
  obtain r' v known reply where "ReceiveParticipantAnnouncement sample_make_address 0 m ?r = Inr r'"
    "vr_sent r' = vr_sent ?r @ [(0, v, M_Known known), (0, v, M_Reply reply)]" "pr_status reply = 1" "set (kp_peerInfos known) = {}"
    by (simp only: sample_connected(4) ball_empty simp_thms image_empty) (elim exE conjE, rule that)
  moreover have "vr_sent ?r = []" by (simp add: AddPeer_def sample_registry_def new_registry_def)
  ultimately show ?thesis by (intro exI[of _ m] exI[of _ r'] exI[of _ v] exI[of _ known] exI[of _ reply]) simp
qed

lemma lost_entry:
  assumes run: "registry_run mk r" and p: "vr_peers r p = Some peer"
  shows "FindConnectedParticipant (pi_participantName (gp_info peer)) (gp_simulationName peer) (OnPeerShutdown_connection p r) = None"
    "FindPeerByName_connection (gp_simulationName peer) (pi_participantName (gp_info peer)) (OnPeerShutdown_connection p r) = None"
    "vr_peers (OnPeerShutdown_connection p r) = (vr_peers r)(p := None)"
    "\<exists>xs. vr_sent (OnPeerShutdown_connection p r) = vr_sent r @ xs"
proof -
  note inv = inv_run[OF run]
  define r0 where "r0 = SendProxyPeerShutdownNotification peer r"
  obtain xs where xs: "r0 = r\<lparr>vr_sent := vr_sent r @ xs\<rparr>" and inv0: "registry_inv r0"
    using notify_destinations_sends[OF inv] unfolding r0_def SendProxyPeerShutdownNotification_def Let_def by blast
  have r1: "OnPeerShutdown_connection p r = RemovePeerFromConnection p peer (OnPeerShutdown_registry peer r0)"
    using run_flags(1)[OF run] p by (simp add: OnPeerShutdown_connection_def r0_def)
  note s = shutdown_registry[OF inv_parts(1)[OF inv0]]
  show "FindConnectedParticipant (pi_participantName (gp_info peer)) (gp_simulationName peer) (OnPeerShutdown_connection p r) = None"
    using s(1)[of _ _ peer] find_cong[of "OnPeerShutdown_connection p r" "OnPeerShutdown_registry peer r0"]
    by (simp add: r1 RemovePeerFromConnection_def)
  show "FindPeerByName_connection (gp_simulationName peer) (pi_participantName (gp_info peer)) (OnPeerShutdown_connection p r) = None"
    by (simp add: r1 FindPeerByName_connection_def RemovePeerFromConnection_def)
  show "vr_peers (OnPeerShutdown_connection p r) = (vr_peers r)(p := None)" "\<exists>xs. vr_sent (OnPeerShutdown_connection p r) = vr_sent r @ xs"
    using s(3,4) xs by (simp_all add: r1 RemovePeerFromConnection_def)
qed

text \<open>
  C39. A peer that has announced the name of an accepted participant, and was refused for that, takes the entry of the
  other with it when its connection ends: the accepted participant is still connected, but the registry finds it neither in its
  table nor by name, and neither tells newcomers of it nor refuses its name.
\<close>

theorem refused_duplicate_erases_the_original:
  assumes "registry_run mk r" "vr_peers r p = Some peer" "vr_peers r q = Some original" "accepted r q" "p \<noteq> q"
    and "gp_simulationName peer = gp_simulationName original"
    and "pi_participantName (gp_info peer) = pi_participantName (gp_info original)"
  shows "vr_peers (OnPeerShutdown_connection p r) q = Some original \<and> accepted (OnPeerShutdown_connection p r) q \<and>
    FindConnectedParticipant (pi_participantName (gp_info original)) (gp_simulationName original) (OnPeerShutdown_connection p r) = None \<and>
    FindPeerByName_connection (gp_simulationName original) (pi_participantName (gp_info original)) (OnPeerShutdown_connection p r) = None"
proof -
  note l = lost_entry[OF assms(1,2)]
  have "vr_peers (OnPeerShutdown_connection p r) q = Some original" using l(3) assms(3,5) by simp
  moreover obtain v reply where "(q, v, M_Reply reply) \<in> set (vr_sent r)" "pr_status reply = 1" using assms(4) by (auto simp: accepted_def)
  then have "\<exists>v reply. (q, v, M_Reply reply) \<in> set (vr_sent (OnPeerShutdown_connection p r)) \<and> pr_status reply = 1"
    using l(4) by (intro exI[of _ v] exI[of _ reply]) auto
  ultimately have "accepted (OnPeerShutdown_connection p r) q" by (simp add: accepted_def)
  then show ?thesis using l assms(3,5-7) by simp
qed

text \<open>Two participants of the same name on one registry, the second of which is refused.\<close>

lemma sample_duplicate:
  "\<exists>r p peer original. registry_run sample_make_address r \<and> vr_peers r p = Some peer \<and> vr_peers r 0 = Some original \<and> accepted r 0 \<and>
     p \<noteq> 0 \<and> gp_simulationName peer = gp_simulationName original \<and> gp_info peer = gp_info original"
proof -
  let ?a = "sample_announcement v31" and ?mk = sample_make_address
  let ?r0 = "AddPeer 0 ''tcp://10.0.0.5:44'' ''tcp://10.0.0.1:8500'' sample_registry"
  obtain m where m: "announces m ?a" using sample_message by blast
  obtain peer where peer: "vr_peers ?r0 0 = Some peer" using sample_connected(2) by blast
  have none: "\<forall>q \<in> members ?r0 (pa_simulationName ?a). pi_participantName (gp_info q) \<noteq> pi_participantName (pa_peerInfo ?a)"
    "\<forall>q \<in> members ?r0 (pa_simulationName ?a). can_be_advertised ?mk q (gp_localAddress peer)"
    unfolding sample_connected(4) by (rule ball_empty[THEN iffD2, OF TrueI])+
  from newcomer_accepted[OF sample_connected(1) peer sample_connected(3) m none]
  obtain r1 original where r1: "ReceiveParticipantAnnouncement ?mk 0 m ?r0 = Inr r1" "\<forall>q. accepted r1 q \<longleftrightarrow> q = 0 \<or> accepted ?r0 q"
      "vr_peers r1 = (vr_peers ?r0)(0 \<mapsto> original)" "gp_info original = pa_peerInfo ?a" "gp_simulationName original = pa_simulationName ?a"
    by - (elim exE conjE, rule that)
  have "\<not> registered ?r0 0" using inv_parts(3)[OF inv_run[OF sample_connected(1)]] sample_connected(3) by blast
  then have run1: "registry_run ?mk r1"
    using run_step[OF sample_connected(1) registry_step.announce[of ?r0 0 ?mk m]] peer r1(1) by simp
  define p where "p = vr_nextPeer r1"
  define r2 where "r2 = AddPeer 0 ''tcp://10.0.0.5:45'' ''tcp://10.0.0.1:8500'' r1"
  have run2: "registry_run ?mk r2" unfolding r2_def by (rule run_step[OF run1 registry_step.connect])
  have in1: "accepted r1 0" "vr_peers r1 0 = Some original" using r1(2) by (simp_all add: r1(3))
  have "0 < p" using inv_parts(4)[OF inv_run[OF run1], of 0] r1(3) by (simp add: p_def)
  then have r2: "vr_peers r2 0 = Some original" "accepted r2 0" "vr_peers r2 p \<noteq> None"
    using in1 by (simp_all add: r2_def AddPeer_def p_def accepted_def)
  obtain peer2 where peer2: "vr_peers r2 p = Some peer2" using r2(3) by blast
  have "x = 0" if "accepted r1 x" for x using that r1(2) sample_connected(3) by blast
  moreover have "accepted r2 p \<Longrightarrow> \<exists>v reply. (p, v, M_Reply reply) \<in> set (vr_sent r1)" by (auto simp: accepted_def r2_def AddPeer_def)
  ultimately have new: "\<not> accepted r2 p" using inv_parts(5)[OF inv_run[OF run1]] unfolding p_def by fastforce
  have mem: "original \<in> members r2 (pa_simulationName ?a)" using r2(1,2) r1(5) by (auto simp: members_def)
  have "pi_participantName (gp_info original) = pi_participantName (pa_peerInfo ?a)" by (simp only: r1(4))
  from newcomer_refused[OF run2 peer2 new m mem this] obtain r3 v reply peer' where
    r3: "ReceiveParticipantAnnouncement ?mk p m r2 = Inr r3" "\<forall>x. accepted r3 x \<longleftrightarrow> accepted r2 x"
      "vr_peers r3 = (vr_peers r2)(p \<mapsto> peer')" "gp_info peer' = pa_peerInfo ?a" "gp_simulationName peer' = pa_simulationName ?a"
    by - (elim exE conjE, rule that)
  have "\<not> registered r2 p" using inv_parts(3)[OF inv_run[OF run2]] new by blast
  then have "registry_run ?mk r3"
    using run_step[OF run2 registry_step.announce[of r2 p ?mk m]] peer2 r3(1) by simp
  then show ?thesis using \<open>0 < p\<close> r3 r2 r1(4,5)
    by (intro exI[of _ r3] exI[of _ p] exI[of _ peer'] exI[of _ original]) simp
qed

theorem refused_duplicate_erases_the_original_witness:
  "\<exists>r p original. registry_run sample_make_address r \<and> vr_peers r 0 = Some original \<and> accepted (OnPeerShutdown_connection p r) 0 \<and>
     FindConnectedParticipant (pi_participantName (gp_info original)) (gp_simulationName original) (OnPeerShutdown_connection p r) = None"
proof -
  obtain r p peer original where r: "registry_run sample_make_address r" "vr_peers r p = Some peer" "vr_peers r 0 = Some original"
    "accepted r 0" "p \<noteq> 0" "gp_simulationName peer = gp_simulationName original" "gp_info peer = gp_info original"
    using sample_duplicate by blast
  have "pi_participantName (gp_info peer) = pi_participantName (gp_info original)" using r(7) by simp
  from refused_duplicate_erases_the_original[OF r(1-6) this] show ?thesis using r(1,3) by blast
qed

end
