(* ===== verification/Bus_Network.thy ===== *)
theory Bus_Network
  imports Lin_Controller
begin

text \<open>
  What the controllers of the broadcast buses (CAN, Ethernet) share: any number of controllers of one network, connected by
  ordered channels, and the locale \<open>broadcast_bus\<close> with the contract under which every frame reaches all others. Also the choice
  between the two behaviours, which is the same code in each of the controllers.
\<close>

unbundle bit_operations_syntax

section \<open>Behaviours\<close>

datatype bus_error = UndefinedReplayDirection | UnknownEthernetState u32

text \<open>With a network simulator (\<^verbatim>\<open>SimBehaviorDetailed\<close>) only its messages are accepted.\<close>

definition detailed_AllowReception :: "ServiceDescriptor \<Rightarrow> ServiceDescriptor \<Rightarrow> ServiceDescriptor \<Rightarrow> bool" where
  "detailed_AllowReception simulatedLink parent fromDescr \<longleftrightarrow>
     sd_participantName simulatedLink = sd_participantName fromDescr \<and> sd_serviceId parent = sd_serviceId fromDescr"

definition is_simulated_link :: "ServiceDescriptor \<Rightarrow> ServiceDescriptor \<Rightarrow> bool" where
  "is_simulated_link own remote \<longleftrightarrow> sd_serviceType remote = 1 \<and> sd_networkName remote = sd_networkName own"

text \<open>The handler for discovered services: the new value of the behaviour, and the link when it becomes detailed.\<close>

definition behavior_on_discovery ::
  "event_type \<Rightarrow> ServiceDescriptor \<Rightarrow> ServiceDescriptor \<Rightarrow> bool \<times> ServiceDescriptor \<Rightarrow> bool \<times> ServiceDescriptor" where
  "behavior_on_discovery discoveryType remote own = (\<lambda>(trivial, link).
     if trivial
     then (if discoveryType = ServiceCreated \<and> is_simulated_link own remote then (False, remote) else (trivial, link))
     else (if discoveryType = ServiceRemoved \<and> is_simulated_link own remote then (True, link) else (trivial, link)))"

text \<open>The user context reaches only handlers of sent frames.\<close>

definition visible_context :: "u8 \<Rightarrow> u64 \<Rightarrow> u64" where
  "visible_context direction userContext = (if direction AND Direction_TX \<noteq> Direction_TX then 0 else userContext)"

section \<open>Network\<close>

text \<open>Controllers, the messages on their way from one to another, and the messages delivered to each with their senders.\<close>

record ('c, 'm) bus_net =
  bn_nodes :: "nat \<Rightarrow> 'c"
  bn_channel :: "nat \<Rightarrow> nat \<Rightarrow> 'm list"
  bn_delivered :: "nat \<Rightarrow> (nat \<times> 'm) list"

datatype 'op bus_event = BusOperation nat 'op | BusDelivery nat nat

text \<open>What an operation has sent goes to all other controllers.\<close>

definition bus_operation ::
  "('op \<Rightarrow> 'c \<Rightarrow> 'c) \<Rightarrow> ('c \<Rightarrow> 'm list) \<Rightarrow> nat \<Rightarrow> nat \<Rightarrow> 'op \<Rightarrow> ('c, 'm) bus_net \<Rightarrow> ('c, 'm) bus_net" where
  "bus_operation operate sent n i op net =
     (let c = bn_nodes net i; c' = operate op c; ms = drop (length (sent c)) (sent c')
      in net\<lparr>bn_nodes := (bn_nodes net)(i := c'),
             bn_channel := (\<lambda>a b. bn_channel net a b @ (if a = i \<and> b \<noteq> i \<and> b < n then ms else []))\<rparr>)"

definition bus_delivery ::
  "(nat \<Rightarrow> 'm \<Rightarrow> 'c \<Rightarrow> 'c) \<Rightarrow> nat \<Rightarrow> nat \<Rightarrow> ('c, 'm) bus_net \<Rightarrow> ('c, 'm) bus_net option" where
  "bus_delivery receive i j net = (case bn_channel net i j of
     [] \<Rightarrow> None
   | m # ms \<Rightarrow> Some (net\<lparr>bn_nodes := (bn_nodes net)(j := receive i m (bn_nodes net j)),
                         bn_channel := (\<lambda>a b. if a = i \<and> b = j then ms else bn_channel net a b),
                         bn_delivered := (bn_delivered net)(j := bn_delivered net j @ [(i, m)])\<rparr>))"

definition bus_step ::
  "('op \<Rightarrow> 'c \<Rightarrow> 'c) \<Rightarrow> (nat \<Rightarrow> 'm \<Rightarrow> 'c \<Rightarrow> 'c) \<Rightarrow> ('c \<Rightarrow> 'm list) \<Rightarrow> nat \<Rightarrow> 'op bus_event \<Rightarrow> ('c, 'm) bus_net \<Rightarrow>
   ('c, 'm) bus_net option" where
  "bus_step operate receive sent n e net = (case e of
     BusOperation i op \<Rightarrow> if i < n then Some (bus_operation operate sent n i op net) else None
   | BusDelivery i j \<Rightarrow> bus_delivery receive i j net)"

fun bus_run ::
  "('op \<Rightarrow> 'c \<Rightarrow> 'c) \<Rightarrow> (nat \<Rightarrow> 'm \<Rightarrow> 'c \<Rightarrow> 'c) \<Rightarrow> ('c \<Rightarrow> 'm list) \<Rightarrow> nat \<Rightarrow> 'op bus_event list \<Rightarrow> ('c, 'm) bus_net \<Rightarrow>
   ('c, 'm) bus_net option" where
  "bus_run operate receive sent n [] net = Some net"
| "bus_run operate receive sent n (e # es) net =
     (case bus_step operate receive sent n e net of None \<Rightarrow> None | Some net' \<Rightarrow> bus_run operate receive sent n es net')"

definition bus_start :: "(nat \<Rightarrow> 'c) \<Rightarrow> ('c, 'm) bus_net" where
  "bus_start nodes = \<lparr>bn_nodes = nodes, bn_channel = (\<lambda>a b. []), bn_delivered = (\<lambda>j. [])\<rparr>"

definition operation_of :: "'op bus_event \<Rightarrow> 'op list" where
  "operation_of e = (case e of BusOperation i op \<Rightarrow> [op] | BusDelivery i j \<Rightarrow> [])"

text \<open>The operations of one controller, and a predicate that holds of every controller at the time when a message is delivered to it.\<close>

definition operations_at :: "nat \<Rightarrow> 'op bus_event list \<Rightarrow> 'op list" where
  "operations_at i es = concat (map (\<lambda>e. case e of BusOperation k op \<Rightarrow> if k = i then [op] else [] | BusDelivery k j \<Rightarrow> []) es)"

fun receivers_are ::
  "('c \<Rightarrow> bool) \<Rightarrow> ('op \<Rightarrow> 'c \<Rightarrow> 'c) \<Rightarrow> (nat \<Rightarrow> 'm \<Rightarrow> 'c \<Rightarrow> 'c) \<Rightarrow> ('c \<Rightarrow> 'm list) \<Rightarrow> nat \<Rightarrow> 'op bus_event list \<Rightarrow>
   ('c, 'm) bus_net \<Rightarrow> bool" where
  "receivers_are P operate receive sent n [] net = True"
| "receivers_are P operate receive sent n (e # es) net =
     ((case e of BusOperation i op \<Rightarrow> True | BusDelivery i j \<Rightarrow> P (bn_nodes net j)) \<and>
      (case bus_step operate receive sent n e net of None \<Rightarrow> True | Some net' \<Rightarrow> receivers_are P operate receive sent n es net'))"

text \<open>The messages that a controller has to send for its operations: what an operation sends depends on a view \<open>s\<close> of the controller
  that the operations change.\<close>

fun bus_expected :: "('op \<Rightarrow> 's \<Rightarrow> 's) \<Rightarrow> ('op \<Rightarrow> 's \<Rightarrow> 'm list) \<Rightarrow> 's \<Rightarrow> 'op list \<Rightarrow> 'm list" where
  "bus_expected follow emits s [] = []"
| "bus_expected follow emits s (op # ops) = emits op s @ bus_expected follow emits (follow op s) ops"

section \<open>Contract of a controller\<close>

text \<open>
  A controller that is \<open>ready\<close> stays so under the \<open>allowed\<close> operations, which report every frame they send as sent (\<open>tx\<close>); every
  frame received from the bus is reported as received (\<open>rx\<close>), and nothing is sent for it.
\<close>

locale broadcast_bus =
  fixes operate :: "'op \<Rightarrow> 'c \<Rightarrow> 'c"
    and receive :: "nat \<Rightarrow> 'm \<Rightarrow> 'c \<Rightarrow> 'c"
    and sent :: "'c \<Rightarrow> 'm list"
    and reports :: "'c \<Rightarrow> 'e list"
    and is_rx :: "'e \<Rightarrow> bool"
    and rx :: "'m \<Rightarrow> 'e"
    and tx :: "'m \<Rightarrow> 'e"
    and ready :: "'c \<Rightarrow> bool"
    and allowed :: "'op \<Rightarrow> bool"
    and on_bus :: "'m \<Rightarrow> bool"
  assumes operate_ready: "ready c \<Longrightarrow> allowed op \<Longrightarrow> ready (operate op c)"
    and operate_sends: "ready c \<Longrightarrow> allowed op \<Longrightarrow>
      \<exists>ms. sent (operate op c) = sent c @ ms \<and> list_all on_bus ms \<and> reports (operate op c) = reports c @ map tx ms"
    and receive_ready: "ready c \<Longrightarrow> on_bus m \<Longrightarrow> ready (receive i m c)"
    and receive_sends: "ready c \<Longrightarrow> on_bus m \<Longrightarrow> sent (receive i m c) = sent c"
    and receive_reports: "ready c \<Longrightarrow> on_bus m \<Longrightarrow> reports (receive i m c) = reports c @ [rx m]"
    and rx_kind: "is_rx (rx m)"
    and tx_kind: "\<not> is_rx (tx m)"
begin

definition node_inv :: "nat \<Rightarrow> nat \<Rightarrow> 'c \<Rightarrow> (nat \<times> 'm) list \<Rightarrow> bool" where
  "node_inv n i c delivered \<longleftrightarrow> ready c \<and> list_all on_bus (sent c) \<and>
     filter is_rx (reports c) = map (rx \<circ> snd) delivered \<and> filter (\<lambda>e. \<not> is_rx e) (reports c) = map tx (sent c) \<and>
     (\<forall>(k, m) \<in> set delivered. k < n \<and> k \<noteq> i)"

definition bus_inv :: "nat \<Rightarrow> ('c, 'm) bus_net \<Rightarrow> bool" where
  "bus_inv n net \<longleftrightarrow>
     (\<forall>i < n. node_inv n i (bn_nodes net i) (bn_delivered net i)) \<and>
     (\<forall>i j. bn_channel net i j \<noteq> [] \<longrightarrow> i < n \<and> j < n \<and> i \<noteq> j) \<and>
     (\<forall>i < n. \<forall>j < n. i \<noteq> j \<longrightarrow>
        map snd (filter (\<lambda>d. fst d = i) (bn_delivered net j)) @ bn_channel net i j = sent (bn_nodes net i))"

lemma filter_rx [simp]: "filter is_rx (map tx ms) = []" "filter (\<lambda>e. \<not> is_rx e) (map tx ms) = map tx ms"
  by (induction ms) (simp_all add: tx_kind)

lemma operation_inv:
  assumes "bus_inv n net" "i < n" "allowed op"
  shows "bus_inv n (bus_operation operate sent n i op net)"
proof -
  have node: "node_inv n i (bn_nodes net i) (bn_delivered net i)" using assms by (simp add: bus_inv_def)
  then have ready: "ready (bn_nodes net i)" by (simp add: node_inv_def)
  obtain ms where ms: "sent (operate op (bn_nodes net i)) = sent (bn_nodes net i) @ ms" "list_all on_bus ms"
    "reports (operate op (bn_nodes net i)) = reports (bn_nodes net i) @ map tx ms"
    using operate_sends[OF ready assms(3)] by blast
  have "node_inv n i (operate op (bn_nodes net i)) (bn_delivered net i)"
    using node ms operate_ready[OF ready assms(3)] by (simp add: node_inv_def)
  then show ?thesis
    using assms ms(1) by (auto simp: bus_inv_def bus_operation_def Let_def)
qed

lemma receive_inv:
  assumes "node_inv n j c delivered" "on_bus m" "i < n" "i \<noteq> j"
  shows "node_inv n j (receive i m c) (delivered @ [(i, m)]) \<and> sent (receive i m c) = sent c"
  using assms by (auto simp: node_inv_def receive_ready receive_sends receive_reports rx_kind)

lemma channel_on_bus:
  assumes "bus_inv n net" "bn_channel net i j = m # ms"
  shows "on_bus m"
proof -
  have ij: "i < n" "j < n" "i \<noteq> j" using assms unfolding bus_inv_def by (metis list.distinct(1))+
  have "list_all on_bus (sent (bn_nodes net i))" using assms(1) ij by (simp add: bus_inv_def node_inv_def)
  moreover have "map snd (filter (\<lambda>d. fst d = i) (bn_delivered net j)) @ bn_channel net i j = sent (bn_nodes net i)"
    using assms(1) ij unfolding bus_inv_def by blast
  ultimately show ?thesis using assms(2) by (metis list_all_append list.pred_inject(2))
qed

lemma delivery_inv:
  assumes "bus_inv n net" "bus_delivery receive i j net = Some net'"
  shows "bus_inv n net'"
proof -
  obtain m ms where ch: "bn_channel net i j = m # ms" using assms(2) by (auto simp: bus_delivery_def split: list.splits)
  have chan: "a < n \<and> b < n \<and> a \<noteq> b" if "bn_channel net a b \<noteq> []" for a b using assms(1) that unfolding bus_inv_def by blast
  have ij: "i < n" "j < n" "i \<noteq> j" using chan[of i j] ch by simp_all
  have nodes: "node_inv n k (bn_nodes net k) (bn_delivered net k)" if "k < n" for k using assms(1) that by (simp add: bus_inv_def)
  have links: "map snd (filter (\<lambda>d. fst d = a) (bn_delivered net b)) @ bn_channel net a b = sent (bn_nodes net a)"
    if "a < n" "b < n" "a \<noteq> b" for a b using assms(1) that unfolding bus_inv_def by blast
  have "on_bus m" by (rule channel_on_bus[OF assms(1) ch])
  note got = receive_inv[OF nodes[OF ij(2)] this ij(1,3)]
  have net': "bn_nodes net' = (bn_nodes net)(j := receive i m (bn_nodes net j))"
    "bn_channel net' = (\<lambda>a b. if a = i \<and> b = j then ms else bn_channel net a b)"
    "bn_delivered net' = (bn_delivered net)(j := bn_delivered net j @ [(i, m)])"
    using assms(2) ch by (auto simp: bus_delivery_def)
  have "map snd (filter (\<lambda>d. fst d = a) (bn_delivered net' b)) @ bn_channel net' a b = sent (bn_nodes net' a)"
    if "a < n" "b < n" "a \<noteq> b" for a b
    using links[OF that] got ch by (auto simp: net')
  moreover have "a < n \<and> b < n \<and> a \<noteq> b" if "bn_channel net' a b \<noteq> []" for a b
    using that ij chan[of a b] by (simp add: net' split: if_splits)
  moreover have "node_inv n k (bn_nodes net' k) (bn_delivered net' k)" if "k < n" for k
    using nodes[OF that] got by (cases "k = j") (simp_all add: net')
  ultimately show ?thesis unfolding bus_inv_def by blast
qed

lemma step_inv:
  assumes "bus_inv n net" "bus_step operate receive sent n e net = Some net'" "list_all allowed (operation_of e)"
  shows "bus_inv n net'"
proof (cases e)
  case (BusOperation i op)
  then have "i < n" "net' = bus_operation operate sent n i op net" "allowed op"
    using assms(2,3) by (auto simp: bus_step_def operation_of_def split: if_splits)
  then show ?thesis using operation_inv assms(1) by blast
next
  case (BusDelivery i j)
  then show ?thesis using assms delivery_inv by (simp add: bus_step_def)
qed

lemma run_inv:
  assumes "bus_inv n net" "bus_run operate receive sent n es net = Some net'" "\<forall>e \<in> set es. list_all allowed (operation_of e)"
  shows "bus_inv n net'"
  using assms
proof (induction es arbitrary: net)
  case (Cons e es)
  then obtain net1 where step: "bus_step operate receive sent n e net = Some net1"
    "bus_run operate receive sent n es net1 = Some net'" by (auto split: option.splits)
  have "bus_inv n net1" using step_inv[OF Cons.prems(1) step(1)] Cons.prems(3) by simp
  then show ?case using Cons.IH step(2) Cons.prems(3) by simp
qed simp

lemma start_inv:
  assumes "\<forall>i < n. ready (nodes i) \<and> sent (nodes i) = [] \<and> reports (nodes i) = []"
  shows "bus_inv n (bus_start nodes)"
  using assms by (simp add: bus_inv_def node_inv_def bus_start_def)

text \<open>Every frame that was sent is on its way to, or was delivered to, every other controller, in order, and is reported there as
  received and at its sender as sent.\<close>

theorem broadcast:
  assumes "\<forall>i < n. ready (nodes i) \<and> sent (nodes i) = [] \<and> reports (nodes i) = []"
    and "bus_run operate receive sent n es (bus_start nodes) = Some net"
    and "\<forall>e \<in> set es. list_all allowed (operation_of e)"
    and "i < n" "j < n" "i \<noteq> j"
  shows "map snd (filter (\<lambda>d. fst d = i) (bn_delivered net j)) @ bn_channel net i j = sent (bn_nodes net i)"
    and "filter is_rx (reports (bn_nodes net j)) = map (rx \<circ> snd) (bn_delivered net j)"
    and "filter (\<lambda>e. \<not> is_rx e) (reports (bn_nodes net j)) = map tx (sent (bn_nodes net j))"
    and "\<forall>(k, m) \<in> set (bn_delivered net j). k < n \<and> k \<noteq> j"
  using run_inv[OF start_inv[OF assms(1)] assms(2,3)] assms(4-6) by (simp_all add: bus_inv_def node_inv_def)

end

text \<open>
  The contract with the messages that the operations have to send: the controller is seen as \<open>view c\<close>, which its operations change as
  \<open>follow\<close> says and no delivery changes.
\<close>

locale specified_bus = broadcast_bus operate receive sent reports is_rx rx tx ready allowed on_bus
  for operate :: "'op \<Rightarrow> 'c \<Rightarrow> 'c" and receive :: "nat \<Rightarrow> 'm \<Rightarrow> 'c \<Rightarrow> 'c" and sent :: "'c \<Rightarrow> 'm list"
    and reports :: "'c \<Rightarrow> 'e list" and is_rx :: "'e \<Rightarrow> bool" and rx :: "'m \<Rightarrow> 'e" and tx :: "'m \<Rightarrow> 'e"
    and ready :: "'c \<Rightarrow> bool" and allowed :: "'op \<Rightarrow> bool" and on_bus :: "'m \<Rightarrow> bool" +
  fixes view :: "'c \<Rightarrow> 's"
    and follow :: "'op \<Rightarrow> 's \<Rightarrow> 's"
    and emits :: "'op \<Rightarrow> 's \<Rightarrow> 'm list"
  assumes operate_view: "ready c \<Longrightarrow> allowed op \<Longrightarrow> view (operate op c) = follow op (view c)"
    and operate_emits: "ready c \<Longrightarrow> allowed op \<Longrightarrow> sent (operate op c) = sent c @ emits op (view c)"
    and receive_view: "ready c \<Longrightarrow> on_bus m \<Longrightarrow> view (receive i m c) = view c"
begin

lemma step_emits:
  assumes "bus_inv n net" "bus_step operate receive sent n e net = Some net'" "list_all allowed (operation_of e)" "a < n"
  shows "sent (bn_nodes net' a) @ bus_expected follow emits (view (bn_nodes net' a)) ops =
    sent (bn_nodes net a) @ bus_expected follow emits (view (bn_nodes net a)) (operations_at a [e] @ ops)"
proof -
  have ready: "ready (bn_nodes net a)" using assms(1,4) by (simp add: bus_inv_def node_inv_def)
  show ?thesis
  proof (cases e)
    case (BusOperation i op)
    then have "bn_nodes net' = (bn_nodes net)(i := operate op (bn_nodes net i))" "allowed op"
      using assms(2,3) by (auto simp: bus_step_def bus_operation_def operation_of_def Let_def split: if_splits)
    then show ?thesis using BusOperation ready
      by (cases "a = i") (auto simp: operations_at_def operate_view operate_emits)
  next
    case (BusDelivery i j)
    then obtain m ms where ch: "bn_channel net i j = m # ms" "bn_nodes net' = (bn_nodes net)(j := receive i m (bn_nodes net j))"
      using assms(2) by (auto simp: bus_step_def bus_delivery_def split: list.splits)
    then show ?thesis
      using BusDelivery ready channel_on_bus[OF assms(1) ch(1)] 
      by (cases "a = j") (auto simp: operations_at_def receive_view receive_sends)
  qed
qed

lemma run_emits:
  assumes "bus_inv n net" "bus_run operate receive sent n es net = Some net'" "\<forall>e \<in> set es. list_all allowed (operation_of e)" "a < n"
  shows "sent (bn_nodes net' a) = sent (bn_nodes net a) @ bus_expected follow emits (view (bn_nodes net a)) (operations_at a es)"
  using assms
proof (induction es arbitrary: net)
  case (Cons e es)
  then obtain net1 where step: "bus_step operate receive sent n e net = Some net1"
    "bus_run operate receive sent n es net1 = Some net'" by (auto split: option.splits)
  have "list_all allowed (operation_of e)" using Cons.prems(3) by simp
  note this = step_inv[OF Cons.prems(1) step(1) this] step_emits[OF Cons.prems(1) step(1) this assms(4)]
  moreover have "operations_at a (e # es) = operations_at a [e] @ operations_at a es" by (simp add: operations_at_def)
  ultimately show ?case using Cons.IH[OF _ step(2)] Cons.prems(3) assms(4) by simp
qed (simp add: operations_at_def)

theorem expected_sent:
  assumes "\<forall>i < n. ready (nodes i) \<and> sent (nodes i) = [] \<and> reports (nodes i) = []"
    and "bus_run operate receive sent n es (bus_start nodes) = Some net"
    and "\<forall>e \<in> set es. list_all allowed (operation_of e)" "a < n"
  shows "sent (bn_nodes net a) = bus_expected follow emits (view (nodes a)) (operations_at a es)"
  using run_emits[OF start_inv[OF assms(1)] assms(2-4)] assms(1,4) by (simp add: bus_start_def)

end

end
