(* ===== verification/Can_Controller.thy ===== *)
theory Can_Controller
  imports Bus_Network
begin

text \<open>
  The CAN controller (services/can/CanController.cpp) with its behaviours \<^verbatim>\<open>SimBehaviorTrivial.cpp\<close> and
  \<^verbatim>\<open>SimBehaviorDetailed.cpp\<close>. Without a network simulator the frames of a started controller go to all other controllers; with
  one, everything goes to the simulator. Sent messages, calls of handlers and traced frames are recorded. A
  handler is a number, with the mask of its filter where it has one.
\<close>

section \<open>State\<close>

abbreviation Can_Uninit :: u32 where "Can_Uninit \<equiv> 0"
abbreviation Can_Stopped :: u32 where "Can_Stopped \<equiv> 1"
abbreviation Can_Started :: u32 where "Can_Started \<equiv> 2"
abbreviation Can_Sleep :: u32 where "Can_Sleep \<equiv> 3"
abbreviation Can_NotAvailable :: u32 where "Can_NotAvailable \<equiv> 0"
abbreviation Can_Transmitted :: u32 where "Can_Transmitted \<equiv> 1"

datatype can_message = CanFrameMsg WireCanFrameEvent | CanBaudrateMsg CanConfigureBaudrate | CanModeMsg CanSetControllerMode

text \<open>The events of the handlers; a frame event has time, frame, direction and user context.\<close>

datatype can_event =
    CanFrameEvent u64 WireCanFrame u8 u64
  | CanTransmitEvent CanFrameTransmitEvent
  | CanStateChangeEvent u64 u32
  | CanErrorStateChangeEvent u64 u32

record CanController =
  cc_serviceDescriptor :: ServiceDescriptor
  cc_trivial :: bool
  cc_simulatedLink :: ServiceDescriptor
  cc_controllerState :: u32
  cc_errorState :: u32
  cc_baudRate :: CanConfigureBaudrate
  cc_frameHandlers :: "(nat \<times> u8) Handlers"
  cc_stateChangeHandlers :: "nat Handlers"
  cc_errorStateChangeHandlers :: "nat Handlers"
  cc_frameTransmitHandlers :: "(nat \<times> u32) Handlers"
  cc_replayActive :: bool
  cc_replaySend :: bool
  cc_replayReceive :: bool
  cc_now :: u64
  cc_calls :: "(nat \<times> can_event) list"
  cc_traced :: "(u8 \<times> u64 \<times> can_event) list"
  cc_sent :: "can_message list"

definition CanController_new :: "ServiceDescriptor \<Rightarrow> bool \<Rightarrow> bool \<Rightarrow> bool \<Rightarrow> CanController" where
  "CanController_new descriptor replayActive replaySend replayReceive =
     \<lparr>cc_serviceDescriptor = descriptor, cc_trivial = True, cc_simulatedLink = empty_ServiceDescriptor, cc_controllerState = Can_Uninit,
      cc_errorState = Can_NotAvailable, cc_baudRate = \<lparr>ccb_baudRate = 0, ccb_fdBaudRate = 0, ccb_xlBaudRate = 0\<rparr>,
      cc_frameHandlers = Handlers_empty, cc_stateChangeHandlers = Handlers_empty, cc_errorStateChangeHandlers = Handlers_empty,
      cc_frameTransmitHandlers = Handlers_empty, cc_replayActive = replayActive, cc_replaySend = replaySend,
      cc_replayReceive = replayReceive, cc_now = 0, cc_calls = [], cc_traced = [], cc_sent = []\<rparr>"

section \<open>Handlers\<close>

definition can_handlers_for :: "can_event \<Rightarrow> CanController \<Rightarrow> nat list" where
  "can_handlers_for e c = (case e of
     CanFrameEvent timestamp frame direction userContext \<Rightarrow>
       map fst (filter (\<lambda>(h, mask). direction AND mask \<noteq> 0) (Handlers_InvokeAll (cc_frameHandlers c)))
   | CanTransmitEvent ack \<Rightarrow>
       map fst (filter (\<lambda>(h, mask). cte_status ack AND mask \<noteq> 0) (Handlers_InvokeAll (cc_frameTransmitHandlers c)))
   | CanStateChangeEvent timestamp state \<Rightarrow> Handlers_InvokeAll (cc_stateChangeHandlers c)
   | CanErrorStateChangeEvent timestamp errorState \<Rightarrow> Handlers_InvokeAll (cc_errorStateChangeHandlers c))"

definition can_CallHandlers :: "can_event \<Rightarrow> CanController \<Rightarrow> CanController" where
  "can_CallHandlers e c = c\<lparr>cc_calls := cc_calls c @ map (\<lambda>h. (h, e)) (can_handlers_for e c)\<rparr>"

definition can_AddFrameHandler :: "nat \<Rightarrow> u8 \<Rightarrow> CanController \<Rightarrow> nat \<times> CanController" where
  "can_AddFrameHandler handler directionMask c =
     (let (i, hs) = Handlers_Add (handler, directionMask) (cc_frameHandlers c) in (i, c\<lparr>cc_frameHandlers := hs\<rparr>))"

definition can_RemoveFrameHandler :: "nat \<Rightarrow> CanController \<Rightarrow> CanController" where
  "can_RemoveFrameHandler handlerId c = c\<lparr>cc_frameHandlers := snd (Handlers_Remove handlerId (cc_frameHandlers c))\<rparr>"

definition can_AddStateChangeHandler :: "nat \<Rightarrow> CanController \<Rightarrow> nat \<times> CanController" where
  "can_AddStateChangeHandler handler c =
     (let (i, hs) = Handlers_Add handler (cc_stateChangeHandlers c) in (i, c\<lparr>cc_stateChangeHandlers := hs\<rparr>))"

definition can_RemoveStateChangeHandler :: "nat \<Rightarrow> CanController \<Rightarrow> CanController" where
  "can_RemoveStateChangeHandler handlerId c =
     c\<lparr>cc_stateChangeHandlers := snd (Handlers_Remove handlerId (cc_stateChangeHandlers c))\<rparr>"

definition can_AddErrorStateChangeHandler :: "nat \<Rightarrow> CanController \<Rightarrow> nat \<times> CanController" where
  "can_AddErrorStateChangeHandler handler c =
     (let (i, hs) = Handlers_Add handler (cc_errorStateChangeHandlers c) in (i, c\<lparr>cc_errorStateChangeHandlers := hs\<rparr>))"

definition can_RemoveErrorStateChangeHandler :: "nat \<Rightarrow> CanController \<Rightarrow> CanController" where
  "can_RemoveErrorStateChangeHandler handlerId c =
     c\<lparr>cc_errorStateChangeHandlers := snd (Handlers_Remove handlerId (cc_errorStateChangeHandlers c))\<rparr>"

definition can_AddFrameTransmitHandler :: "nat \<Rightarrow> u32 \<Rightarrow> CanController \<Rightarrow> nat \<times> CanController" where
  "can_AddFrameTransmitHandler handler statusMask c =
     (let (i, hs) = Handlers_Add (handler, statusMask) (cc_frameTransmitHandlers c) in (i, c\<lparr>cc_frameTransmitHandlers := hs\<rparr>))"

definition can_RemoveFrameTransmitHandler :: "nat \<Rightarrow> CanController \<Rightarrow> CanController" where
  "can_RemoveFrameTransmitHandler handlerId c =
     c\<lparr>cc_frameTransmitHandlers := snd (Handlers_Remove handlerId (cc_frameTransmitHandlers c))\<rparr>"

section \<open>Reception\<close>

definition can_AllowReception :: "ServiceDescriptor \<Rightarrow> CanController \<Rightarrow> bool" where
  "can_AllowReception fromDescr c \<longleftrightarrow>
     cc_trivial c \<or> detailed_AllowReception (cc_simulatedLink c) (cc_serviceDescriptor c) fromDescr"

definition ToCanFrameEvent :: "WireCanFrameEvent \<Rightarrow> can_event" where
  "ToCanFrameEvent msg = CanFrameEvent (cfe_timestamp msg) (cfe_frame msg) (cfe_direction msg) (cfe_userContext msg)"

definition can_Trace :: "u8 \<Rightarrow> u64 \<Rightarrow> can_event \<Rightarrow> CanController \<Rightarrow> CanController" where
  "can_Trace direction timestamp e c = c\<lparr>cc_traced := cc_traced c @ [(direction, timestamp, e)]\<rparr>"

definition ReceiveMsg_WireCanFrameEvent :: "ServiceDescriptor \<Rightarrow> WireCanFrameEvent \<Rightarrow> CanController \<Rightarrow> CanController" where
  "ReceiveMsg_WireCanFrameEvent fromDescr msg c =
     (if \<not> can_AllowReception fromDescr c then c
      else if cc_replayReceive c then c
      else let canFrameEvent = ToCanFrameEvent (msg\<lparr>cfe_userContext := visible_context (cfe_direction msg) (cfe_userContext msg)\<rparr>)
           in can_CallHandlers canFrameEvent (can_Trace (cfe_direction msg) (cfe_timestamp msg) canFrameEvent c))"

definition ReceiveMsg_CanFrameTransmitEvent :: "ServiceDescriptor \<Rightarrow> CanFrameTransmitEvent \<Rightarrow> CanController \<Rightarrow> CanController" where
  "ReceiveMsg_CanFrameTransmitEvent fromDescr msg c =
     (if \<not> can_AllowReception fromDescr c then c else can_CallHandlers (CanTransmitEvent msg) c)"

definition ReceiveMsg_CanControllerStatus :: "ServiceDescriptor \<Rightarrow> CanControllerStatus \<Rightarrow> CanController \<Rightarrow> CanController" where
  "ReceiveMsg_CanControllerStatus fromDescr msg c =
     (if \<not> can_AllowReception fromDescr c then c
      else let c = (if cc_controllerState c \<noteq> ccs_controllerState msg
                    then can_CallHandlers (CanStateChangeEvent (ccs_timestamp msg) (ccs_controllerState msg))
                           (c\<lparr>cc_controllerState := ccs_controllerState msg\<rparr>)
                    else c)
           in if cc_errorState c \<noteq> ccs_errorState msg
              then can_CallHandlers (CanErrorStateChangeEvent (ccs_timestamp msg) (ccs_errorState msg))
                     (c\<lparr>cc_errorState := ccs_errorState msg\<rparr>)
              else c)"

section \<open>Sending\<close>

definition can_send :: "can_message \<Rightarrow> CanController \<Rightarrow> CanController" where
  "can_send msg c = c\<lparr>cc_sent := cc_sent c @ [msg]\<rparr>"

definition SendMsg_CanConfigureBaudrate :: "CanConfigureBaudrate \<Rightarrow> CanController \<Rightarrow> CanController" where
  "SendMsg_CanConfigureBaudrate msg c = (if cc_trivial c then c else can_send (CanBaudrateMsg msg) c)"

definition SendMsg_CanSetControllerMode :: "CanSetControllerMode \<Rightarrow> CanController \<Rightarrow> CanController" where
  "SendMsg_CanSetControllerMode msg c =
     (if cc_trivial c
      then ReceiveMsg_CanControllerStatus (cc_serviceDescriptor c)
             \<lparr>ccs_timestamp = cc_now c, ccs_controllerState = csm_mode msg, ccs_errorState = Can_NotAvailable\<rparr> c
      else can_send (CanModeMsg msg) c)"

definition can_trivial_send :: "WireCanFrameEvent \<Rightarrow> CanController \<Rightarrow> CanController" where
  "can_trivial_send msg c =
     (if cc_controllerState c = Can_Started
      then let now = cc_now c; self = cc_serviceDescriptor c;
               copy = msg\<lparr>cfe_timestamp := now, cfe_direction := Direction_RX\<rparr>;
               c = can_send (CanFrameMsg copy) c;
               c = ReceiveMsg_WireCanFrameEvent self (copy\<lparr>cfe_direction := Direction_TX\<rparr>) c;
               ack = \<lparr>cte_canId = cf_canId (cfe_frame msg), cte_timestamp = now, cte_status = Can_Transmitted,
                      cte_userContext = cfe_userContext msg\<rparr>
           in ReceiveMsg_CanFrameTransmitEvent self ack c
      else c)"

definition SendMsg_WireCanFrameEvent :: "WireCanFrameEvent \<Rightarrow> CanController \<Rightarrow> CanController" where
  "SendMsg_WireCanFrameEvent msg c =
     (if cc_trivial c then can_trivial_send msg c
      else can_send (CanFrameMsg msg) (can_Trace (cfe_direction msg) (cfe_timestamp msg) (ToCanFrameEvent msg) c))"

section \<open>Public interface\<close>

definition can_SetBaudRate :: "u32 \<Rightarrow> u32 \<Rightarrow> u32 \<Rightarrow> CanController \<Rightarrow> CanController" where
  "can_SetBaudRate rate fdRate xlRate c =
     (let baudRate = \<lparr>ccb_baudRate = rate, ccb_fdBaudRate = fdRate, ccb_xlBaudRate = xlRate\<rparr>
      in SendMsg_CanConfigureBaudrate baudRate (c\<lparr>cc_baudRate := baudRate\<rparr>))"

text \<open>The flags to cancel transmit requests and to reset error handling are the two lowest bits.\<close>

definition can_Reset :: "CanController \<Rightarrow> CanController" where
  "can_Reset c = SendMsg_CanSetControllerMode \<lparr>csm_flags = 3, csm_mode = Can_Uninit\<rparr> c"

definition ChangeControllerMode :: "u32 \<Rightarrow> CanController \<Rightarrow> CanController" where
  "ChangeControllerMode state c = SendMsg_CanSetControllerMode \<lparr>csm_flags = 0, csm_mode = state\<rparr> c"

definition can_Start :: "CanController \<Rightarrow> CanController" where
  "can_Start c = ChangeControllerMode Can_Started c"

definition can_Stop :: "CanController \<Rightarrow> CanController" where
  "can_Stop c = ChangeControllerMode Can_Stopped c"

definition can_Sleep :: "CanController \<Rightarrow> CanController" where
  "can_Sleep c = ChangeControllerMode Can_Sleep c"

definition can_SendFrame :: "WireCanFrame \<Rightarrow> u64 \<Rightarrow> CanController \<Rightarrow> CanController" where
  "can_SendFrame frame userContext c =
     (if cc_replaySend c then c
      else SendMsg_WireCanFrameEvent
             \<lparr>cfe_timestamp = 0, cfe_frame = frame, cfe_direction = 0, cfe_userContext = userContext\<rparr> c)"

definition can_ReplaySend :: "WireCanFrameEvent \<Rightarrow> CanController \<Rightarrow> CanController" where
  "can_ReplaySend replayMessage c = SendMsg_WireCanFrameEvent (replayMessage\<lparr>cfe_userContext := 0\<rparr>) c"

definition can_ReplayReceive :: "WireCanFrameEvent \<Rightarrow> CanController \<Rightarrow> CanController" where
  "can_ReplayReceive replayMessage c =
     (let msg = \<lparr>cfe_timestamp = cfe_timestamp replayMessage, cfe_frame = cfe_frame replayMessage,
                 cfe_direction = Direction_RX, cfe_userContext = 0\<rparr>
      in can_CallHandlers (ToCanFrameEvent msg) (can_Trace Direction_RX (cfe_timestamp msg) (ToCanFrameEvent msg) c))"

definition can_ReplayMessage :: "WireCanFrameEvent \<Rightarrow> CanController \<Rightarrow> bus_error + CanController" where
  "can_ReplayMessage message c =
     (if \<not> cc_replayActive c then Inr c
      else if cfe_direction message = Direction_TX then Inr (if cc_replaySend c then can_ReplaySend message c else c)
      else if cfe_direction message = Direction_RX then Inr (if cc_replayReceive c then can_ReplayReceive message c else c)
      else Inl UndefinedReplayDirection)"

definition can_on_discovery :: "event_type \<Rightarrow> ServiceDescriptor \<Rightarrow> CanController \<Rightarrow> CanController" where
  "can_on_discovery discoveryType remote c =
     (let (trivial, link) = behavior_on_discovery discoveryType remote (cc_serviceDescriptor c) (cc_trivial c, cc_simulatedLink c)
      in c\<lparr>cc_trivial := trivial, cc_simulatedLink := link\<rparr>)"

section \<open>Operations on a bus\<close>

text \<open>What the application and the time provider do with a controller.\<close>

datatype can_operation =
    CanSetBaudRate u32 u32 u32 | CanReset | CanStart | CanStop | CanSleep
  | CanSendFrame WireCanFrame u64
  | CanAddFrameHandler nat u8 | CanRemoveFrameHandler nat
  | CanAddStateChangeHandler nat | CanRemoveStateChangeHandler nat
  | CanAddErrorStateChangeHandler nat | CanRemoveErrorStateChangeHandler nat
  | CanAddFrameTransmitHandler nat u32 | CanRemoveFrameTransmitHandler nat
  | CanReplay WireCanFrameEvent
  | CanTime u64

fun can_operate :: "can_operation \<Rightarrow> CanController \<Rightarrow> CanController" where
  "can_operate (CanSetBaudRate rate fdRate xlRate) c = can_SetBaudRate rate fdRate xlRate c"
| "can_operate CanReset c = can_Reset c"
| "can_operate CanStart c = can_Start c"
| "can_operate CanStop c = can_Stop c"
| "can_operate CanSleep c = can_Sleep c"
| "can_operate (CanSendFrame frame userContext) c = can_SendFrame frame userContext c"
| "can_operate (CanAddFrameHandler h directionMask) c = snd (can_AddFrameHandler h directionMask c)"
| "can_operate (CanRemoveFrameHandler i) c = can_RemoveFrameHandler i c"
| "can_operate (CanAddStateChangeHandler h) c = snd (can_AddStateChangeHandler h c)"
| "can_operate (CanRemoveStateChangeHandler i) c = can_RemoveStateChangeHandler i c"
| "can_operate (CanAddErrorStateChangeHandler h) c = snd (can_AddErrorStateChangeHandler h c)"
| "can_operate (CanRemoveErrorStateChangeHandler i) c = can_RemoveErrorStateChangeHandler i c"
| "can_operate (CanAddFrameTransmitHandler h statusMask) c = snd (can_AddFrameTransmitHandler h statusMask c)"
| "can_operate (CanRemoveFrameTransmitHandler i) c = can_RemoveFrameTransmitHandler i c"
| "can_operate (CanReplay message) c = (case can_ReplayMessage message c of Inl e \<Rightarrow> c | Inr c' \<Rightarrow> c')"
| "can_operate (CanTime now) c = c\<lparr>cc_now := now\<rparr>"

fun frame_of :: "can_message \<Rightarrow> WireCanFrameEvent list" where
  "frame_of (CanFrameMsg m) = [m]"
| "frame_of _ = []"

definition can_frames :: "CanController \<Rightarrow> WireCanFrameEvent list" where
  "can_frames c = concat (map frame_of (cc_sent c))"

fun is_can_frame :: "can_event \<Rightarrow> bool" where
  "is_can_frame (CanFrameEvent _ _ _ _) = True"
| "is_can_frame _ = False"

fun is_can_rx :: "can_event \<Rightarrow> bool" where
  "is_can_rx (CanFrameEvent timestamp frame direction userContext) \<longleftrightarrow> direction = Direction_RX"
| "is_can_rx _ \<longleftrightarrow> False"

text \<open>The frame events that handler \<open>h\<close> was called with.\<close>

definition can_reports :: "nat \<Rightarrow> CanController \<Rightarrow> can_event list" where
  "can_reports h c = map snd (filter (\<lambda>(k, e). k = h \<and> is_can_frame e) (cc_calls c))"

definition can_rx :: "WireCanFrameEvent \<Rightarrow> can_event" where
  "can_rx m = CanFrameEvent (cfe_timestamp m) (cfe_frame m) Direction_RX 0"

definition can_tx :: "WireCanFrameEvent \<Rightarrow> can_event" where
  "can_tx m = CanFrameEvent (cfe_timestamp m) (cfe_frame m) Direction_TX (cfe_userContext m)"

text \<open>
  What a controller has to send for its operations: nothing but the frames of \<open>SendFrame\<close>, each with the current time, and those only
  while it is started. The view of a controller is whether it is started, and its time.
\<close>

fun can_follow :: "can_operation \<Rightarrow> bool \<times> u64 \<Rightarrow> bool \<times> u64" where
  "can_follow CanStart (started, now) = (True, now)"
| "can_follow CanStop (started, now) = (False, now)"
| "can_follow CanSleep (started, now) = (False, now)"
| "can_follow CanReset (started, now) = (False, now)"
| "can_follow (CanTime time) (started, now) = (started, time)"
| "can_follow _ s = s"

fun can_emits :: "can_operation \<Rightarrow> bool \<times> u64 \<Rightarrow> WireCanFrameEvent list" where
  "can_emits (CanSendFrame frame userContext) (started, now) =
     (if started then [\<lparr>cfe_timestamp = now, cfe_frame = frame, cfe_direction = Direction_RX, cfe_userContext = userContext\<rparr>] else [])"
| "can_emits _ s = []"

definition can_started :: "CanController \<Rightarrow> bool" where
  "can_started c \<longleftrightarrow> cc_controllerState c = Can_Started"

definition can_view :: "CanController \<Rightarrow> bool \<times> u64" where
  "can_view c = (can_started c, cc_now c)"

text \<open>Without network simulator and replay; the handler \<open>h\<close> is registered once, for both directions, under the identifier \<open>i\<close>.\<close>

definition can_ready :: "nat \<Rightarrow> nat \<Rightarrow> CanController \<Rightarrow> bool" where
  "can_ready h i c \<longleftrightarrow> cc_trivial c \<and> \<not> cc_replayActive c \<and> \<not> cc_replaySend c \<and> \<not> cc_replayReceive c \<and>
     filter (\<lambda>e. fst (snd e) = h) (h_entries (cc_frameHandlers c)) = [(i, h, 3)]"

definition can_allowed :: "nat \<Rightarrow> nat \<Rightarrow> can_operation \<Rightarrow> bool" where
  "can_allowed h i op = (case op of
     CanAddFrameHandler k directionMask \<Rightarrow> k \<noteq> h | CanRemoveFrameHandler k \<Rightarrow> k \<noteq> i | _ \<Rightarrow> True)"

lemma can_called_once:
  assumes "can_ready h i c" "direction AND 3 \<noteq> 0"
  shows "filter (\<lambda>k. k = h) (can_handlers_for (CanFrameEvent timestamp frame direction userContext) c) = [h]"
proof -
  have "filter (\<lambda>k. k = h) (can_handlers_for (CanFrameEvent timestamp frame direction userContext) c) =
    map (fst \<circ> snd) (filter (\<lambda>e. direction AND snd (snd e) \<noteq> 0)
      (filter (\<lambda>e. fst (snd e) = h) (h_entries (cc_frameHandlers c))))"
    by (simp add: can_handlers_for_def Handlers_InvokeAll_def filter_map comp_def case_prod_unfold conj_commute)
  then show ?thesis using assms by (simp add: can_ready_def del: filter_filter)
qed

lemma can_reports_call:
  assumes "can_ready h i c"
  shows "is_can_frame e \<Longrightarrow> filter (\<lambda>k. k = h) (can_handlers_for e c) = [h] \<Longrightarrow> can_reports h (can_CallHandlers e c) = can_reports h c @ [e]"
    and "\<not> is_can_frame e \<Longrightarrow> can_reports h (can_CallHandlers e c) = can_reports h c"
  by (simp_all add: can_reports_def can_CallHandlers_def filter_map comp_def)

lemma can_call_keeps [simp]:
  "cc_sent (can_CallHandlers e c) = cc_sent c" "can_ready h i (can_CallHandlers e c) = can_ready h i c"
  "cc_trivial (can_CallHandlers e c) = cc_trivial c"
  "can_frames (can_CallHandlers e c) = can_frames c"
  by (simp_all add: can_CallHandlers_def can_ready_def can_frames_def)

lemma can_fields [simp]:
  "can_ready h i (c\<lparr>cc_controllerState := s\<rparr>) = can_ready h i c" "can_ready h i (c\<lparr>cc_errorState := s\<rparr>) = can_ready h i c"
  "can_ready h i (c\<lparr>cc_baudRate := b\<rparr>) = can_ready h i c" "can_ready h i (c\<lparr>cc_now := t\<rparr>) = can_ready h i c"
  "can_ready h i (c\<lparr>cc_traced := tr\<rparr>) = can_ready h i c" "can_ready h i (c\<lparr>cc_sent := se\<rparr>) = can_ready h i c"
  "can_ready h i (c\<lparr>cc_stateChangeHandlers := hs\<rparr>) = can_ready h i c"
  "can_ready h i (c\<lparr>cc_errorStateChangeHandlers := hs\<rparr>) = can_ready h i c"
  "can_ready h i (c\<lparr>cc_frameTransmitHandlers := ft\<rparr>) = can_ready h i c"
  by (simp_all add: can_ready_def)

lemma ReceiveMsg_WireCanFrameEvent_ready:
  assumes "can_ready h i c" "cfe_direction m \<in> {Direction_RX, Direction_TX}"
  shows "can_ready h i (ReceiveMsg_WireCanFrameEvent fromDescr m c)"
    and "can_frames (ReceiveMsg_WireCanFrameEvent fromDescr m c) = can_frames c"
    and "can_reports h (ReceiveMsg_WireCanFrameEvent fromDescr m c) =
         can_reports h c @ [if cfe_direction m = Direction_RX then can_rx m else can_tx m]"
proof -
  define e where "e = ToCanFrameEvent (m\<lparr>cfe_userContext := visible_context (cfe_direction m) (cfe_userContext m)\<rparr>)"
  have c': "ReceiveMsg_WireCanFrameEvent fromDescr m c = can_CallHandlers e (can_Trace (cfe_direction m) (cfe_timestamp m) e c)"
    using assms(1) by (simp add: ReceiveMsg_WireCanFrameEvent_def can_AllowReception_def can_ready_def e_def Let_def)
  have ready: "can_ready h i (can_Trace (cfe_direction m) (cfe_timestamp m) e c)" using assms(1) by (simp add: can_Trace_def)
  have "cfe_direction m AND 3 \<noteq> 0" using assms(2) by auto
  then have "filter (\<lambda>k. k = h) (can_handlers_for e (can_Trace (cfe_direction m) (cfe_timestamp m) e c)) = [h]"
    using can_called_once[OF ready] by (simp add: e_def ToCanFrameEvent_def)
  moreover have "e = (if cfe_direction m = Direction_RX then can_rx m else can_tx m)"
    using assms(2) by (auto simp: e_def ToCanFrameEvent_def can_rx_def can_tx_def visible_context_def)
  moreover have "is_can_frame e" by (simp add: e_def ToCanFrameEvent_def)
  ultimately show "can_reports h (ReceiveMsg_WireCanFrameEvent fromDescr m c) =
         can_reports h c @ [if cfe_direction m = Direction_RX then can_rx m else can_tx m]"
    using can_reports_call(1)[OF ready] by (simp add: c') (simp add: can_reports_def can_Trace_def)
  show "can_ready h i (ReceiveMsg_WireCanFrameEvent fromDescr m c)" using ready by (simp add: c')
  show "can_frames (ReceiveMsg_WireCanFrameEvent fromDescr m c) = can_frames c" by (simp add: c') (simp add: can_frames_def can_Trace_def)
qed

lemma ReceiveMsg_CanFrameTransmitEvent_ready:
  assumes "can_ready h i c"
  shows "can_ready h i (ReceiveMsg_CanFrameTransmitEvent fromDescr ack c)"
    and "can_frames (ReceiveMsg_CanFrameTransmitEvent fromDescr ack c) = can_frames c"
    and "can_reports h (ReceiveMsg_CanFrameTransmitEvent fromDescr ack c) = can_reports h c"
  using assms by (simp_all add: ReceiveMsg_CanFrameTransmitEvent_def can_reports_call(2))

lemma ReceiveMsg_CanControllerStatus_ready:
  assumes "can_ready h i c"
  shows "can_ready h i (ReceiveMsg_CanControllerStatus fromDescr msg c)"
    and "can_frames (ReceiveMsg_CanControllerStatus fromDescr msg c) = can_frames c"
    and "can_reports h (ReceiveMsg_CanControllerStatus fromDescr msg c) = can_reports h c"
proof -
  have fields: "can_frames (c\<lparr>cc_controllerState := s\<rparr>) = can_frames c" "can_frames (c\<lparr>cc_errorState := s\<rparr>) = can_frames c"
    "can_reports h (c\<lparr>cc_controllerState := s\<rparr>) = can_reports h c" "can_reports h (c\<lparr>cc_errorState := s\<rparr>) = can_reports h c"
    for s and c :: CanController by (simp_all add: can_frames_def can_reports_def)
  show "can_ready h i (ReceiveMsg_CanControllerStatus fromDescr msg c)"
    "can_frames (ReceiveMsg_CanControllerStatus fromDescr msg c) = can_frames c"
    "can_reports h (ReceiveMsg_CanControllerStatus fromDescr msg c) = can_reports h c"
    using assms by (simp_all add: ReceiveMsg_CanControllerStatus_def can_reports_call(2) fields Let_def)
qed

lemma can_trivial_send_ready:
  fixes msg :: WireCanFrameEvent
  assumes "can_ready h i c"
  defines "ms \<equiv> if cc_controllerState c = Can_Started then [msg\<lparr>cfe_timestamp := cc_now c, cfe_direction := Direction_RX\<rparr>] else []"
  shows "can_ready h i (can_trivial_send msg c)"
    and "can_frames (can_trivial_send msg c) = can_frames c @ ms"
    and "can_reports h (can_trivial_send msg c) = can_reports h c @ map can_tx ms"
proof -
  let ?copy = "msg\<lparr>cfe_timestamp := cc_now c, cfe_direction := Direction_RX\<rparr>"
  have sent: "can_ready h i (can_send (CanFrameMsg ?copy) c)" "can_frames (can_send (CanFrameMsg ?copy) c) = can_frames c @ [?copy]"
    "can_reports h (can_send (CanFrameMsg ?copy) c) = can_reports h c"
    using assms by (simp_all add: can_send_def can_frames_def can_reports_def)
  note self = ReceiveMsg_WireCanFrameEvent_ready[OF sent(1), of "?copy\<lparr>cfe_direction := Direction_TX\<rparr>" "cc_serviceDescriptor c"]
  have tx: "can_tx (?copy\<lparr>cfe_direction := Direction_TX\<rparr>) = can_tx ?copy" by (simp add: can_tx_def)
  show "can_ready h i (can_trivial_send msg c)"
    and "can_frames (can_trivial_send msg c) = can_frames c @ ms"
    and "can_reports h (can_trivial_send msg c) = can_reports h c @ map can_tx ms"
    using self sent tx assms(1) ReceiveMsg_CanFrameTransmitEvent_ready[OF self(1)]
    by (simp_all add: can_trivial_send_def Let_def ms_def)
qed

lemma can_mode_ready:
  assumes "can_ready h i c"
  shows "can_ready h i (SendMsg_CanSetControllerMode m c)" "can_frames (SendMsg_CanSetControllerMode m c) = can_frames c"
    "can_reports h (SendMsg_CanSetControllerMode m c) = can_reports h c"
  using assms ReceiveMsg_CanControllerStatus_ready[OF assms]
  by (simp_all add: SendMsg_CanSetControllerMode_def can_ready_def)

lemma can_SendFrame_ready:
  fixes frame :: WireCanFrame and userContext :: u64 and c :: CanController
  assumes "can_ready h i c"
  defines "ms \<equiv> can_emits (CanSendFrame frame userContext) (can_view c)"
  shows "can_ready h i (can_SendFrame frame userContext c)" "can_frames (can_SendFrame frame userContext c) = can_frames c @ ms"
    "can_reports h (can_SendFrame frame userContext c) = can_reports h c @ map can_tx ms"
proof -
  let ?msg = "\<lparr>cfe_timestamp = 0, cfe_frame = frame, cfe_direction = 0, cfe_userContext = userContext\<rparr> :: WireCanFrameEvent"
  have "can_SendFrame frame userContext c = can_trivial_send ?msg c"
    using assms(1) by (simp add: can_SendFrame_def SendMsg_WireCanFrameEvent_def can_ready_def)
  moreover have "ms = (if cc_controllerState c = Can_Started then [?msg\<lparr>cfe_timestamp := cc_now c, cfe_direction := Direction_RX\<rparr>] else [])"
    by (simp add: ms_def can_view_def can_started_def)
  ultimately show "can_ready h i (can_SendFrame frame userContext c)" "can_frames (can_SendFrame frame userContext c) = can_frames c @ ms"
    "can_reports h (can_SendFrame frame userContext c) = can_reports h c @ map can_tx ms"
    using can_trivial_send_ready[OF assms(1), of ?msg] by simp_all
qed

text \<open>The operations change the view as specified.\<close>

lemma can_view_calls [simp]: "can_view (can_CallHandlers e c) = can_view c"
  by (simp add: can_view_def can_started_def can_CallHandlers_def)

lemma can_view_mode:
  assumes "cc_trivial c"
  shows "can_view (SendMsg_CanSetControllerMode m c) = (csm_mode m = Can_Started, cc_now c)"
  using assms
  by (simp add: SendMsg_CanSetControllerMode_def ReceiveMsg_CanControllerStatus_def can_AllowReception_def can_CallHandlers_def
      can_view_def can_started_def Let_def)

lemma can_view_receive: "can_view (ReceiveMsg_WireCanFrameEvent fromDescr m c) = can_view c"
  by (simp add: ReceiveMsg_WireCanFrameEvent_def can_Trace_def Let_def) (simp add: can_view_def can_started_def)

lemma can_view_SendFrame: "cc_trivial c \<Longrightarrow> can_view (can_SendFrame frame userContext c) = can_view c"
  by (simp add: can_SendFrame_def SendMsg_WireCanFrameEvent_def can_trivial_send_def ReceiveMsg_CanFrameTransmitEvent_def can_view_receive
      Let_def) (simp add: can_send_def can_view_def can_started_def)

lemma can_operate_follows:
  assumes "can_ready h i c"
  shows "can_view (can_operate op c) = can_follow op (can_view c)"
proof -
  have tr: "cc_trivial c" "\<not> cc_replayActive c" using assms by (simp_all add: can_ready_def)
  have same: "can_view c' = can_view c" if "cc_controllerState c' = cc_controllerState c" "cc_now c' = cc_now c" for c'
    using that by (simp add: can_view_def can_started_def)
  show ?thesis
    by (cases op)
       (simp_all add: can_Reset_def can_Start_def can_Stop_def can_Sleep_def ChangeControllerMode_def can_view_mode[OF tr(1)]
          can_view_SendFrame[OF tr(1)] can_ReplayMessage_def tr, simp_all add: can_view_def can_started_def can_SetBaudRate_def
          SendMsg_CanConfigureBaudrate_def tr can_AddFrameHandler_def can_RemoveFrameHandler_def can_AddStateChangeHandler_def
          can_RemoveStateChangeHandler_def can_AddErrorStateChangeHandler_def can_RemoveErrorStateChangeHandler_def
          can_AddFrameTransmitHandler_def can_RemoveFrameTransmitHandler_def Handlers_Add_def Let_def)
qed

lemma can_operate_quiet:
  assumes "can_ready h i c" "can_allowed h i op" "\<forall>frame userContext. op \<noteq> CanSendFrame frame userContext"
  shows "can_ready h i (can_operate op c) \<and> can_frames (can_operate op c) = can_frames c \<and>
         can_reports h (can_operate op c) = can_reports h c"
proof -
  have other: "can_frames c' = can_frames c \<and> can_reports h c' = can_reports h c" if "cc_sent c' = cc_sent c" "cc_calls c' = cc_calls c" for c'
    using that by (simp add: can_frames_def can_reports_def)
  show ?thesis
  proof (cases op)
    case (CanAddFrameHandler k directionMask)
    then show ?thesis
      using assms other[of "can_operate op c"]
      by (auto simp: can_AddFrameHandler_def Handlers_Add_def can_ready_def can_allowed_def)
  next
    case (CanRemoveFrameHandler k)
    have "filter (\<lambda>e. fst (snd e) = h) (filter (\<lambda>e. fst e \<noteq> k) (h_entries (cc_frameHandlers c))) =
      filter (\<lambda>e. fst e \<noteq> k) (filter (\<lambda>e. fst (snd e) = h) (h_entries (cc_frameHandlers c)))"
      by (simp add: conj_commute)
    then show ?thesis
      using assms other[of "can_operate op c"] CanRemoveFrameHandler
      by (auto simp: can_RemoveFrameHandler_def Handlers_Remove_def can_ready_def can_allowed_def simp del: filter_filter)
  next
    case (CanReplay message)
    then show ?thesis using assms by (simp add: can_ReplayMessage_def can_ready_def)
  next
    case (CanSetBaudRate rate fdRate xlRate)
    then show ?thesis
      using assms other[of "can_operate op c"]
      by (simp add: can_SetBaudRate_def SendMsg_CanConfigureBaudrate_def can_ready_def Let_def)
  qed (use assms other[of "can_operate op c"] can_mode_ready[OF assms(1)] in
       \<open>simp_all add: can_Reset_def can_Start_def can_Stop_def can_Sleep_def ChangeControllerMode_def
          can_AddStateChangeHandler_def can_RemoveStateChangeHandler_def can_AddErrorStateChangeHandler_def
          can_RemoveErrorStateChangeHandler_def can_AddFrameTransmitHandler_def can_RemoveFrameTransmitHandler_def Handlers_Add_def\<close>)
qed

lemma can_operate_sends:
  assumes "can_ready h i c" "can_allowed h i op"
  shows "can_ready h i (can_operate op c)" "can_frames (can_operate op c) = can_frames c @ can_emits op (can_view c)"
    "can_reports h (can_operate op c) = can_reports h c @ map can_tx (can_emits op (can_view c))"
proof -
  have "can_ready h i (can_operate op c) \<and> can_frames (can_operate op c) = can_frames c @ can_emits op (can_view c) \<and>
      can_reports h (can_operate op c) = can_reports h c @ map can_tx (can_emits op (can_view c))"
  proof (cases "\<exists>frame userContext. op = CanSendFrame frame userContext")
    case True
    then show ?thesis using can_SendFrame_ready[OF assms(1)] by auto
  next
    case False
    then have "can_emits op (can_view c) = []" by (cases op) (auto simp: can_view_def)
    then show ?thesis using can_operate_quiet[OF assms] False by simp
  qed
  then show "can_ready h i (can_operate op c)" "can_frames (can_operate op c) = can_frames c @ can_emits op (can_view c)"
    "can_reports h (can_operate op c) = can_reports h c @ map can_tx (can_emits op (can_view c))" by simp_all
qed

lemma can_emits_rx: "list_all (\<lambda>m. cfe_direction m = Direction_RX) (can_emits op s)"
  by (cases s; cases op) simp_all

text \<open>The messages of controller \<open>i\<close> arrive with its descriptor.\<close>

definition can_receive :: "(nat \<Rightarrow> ServiceDescriptor) \<Rightarrow> nat \<Rightarrow> WireCanFrameEvent \<Rightarrow> CanController \<Rightarrow> CanController" where
  "can_receive descriptors i m c = ReceiveMsg_WireCanFrameEvent (descriptors i) m c"

interpretation can: specified_bus can_operate "can_receive descriptors" can_frames "can_reports h" is_can_rx can_rx can_tx
  "can_ready h i" "can_allowed h i" "\<lambda>m. cfe_direction m = Direction_RX" can_view can_follow can_emits
  for descriptors h i
proof unfold_locales
  fix c :: CanController and op and m :: WireCanFrameEvent and k :: nat
  assume ready: "can_ready h i c"
  show "can_ready h i (can_operate op c)" if "can_allowed h i op" using can_operate_sends[OF ready that] by simp
  show "\<exists>ms. can_frames (can_operate op c) = can_frames c @ ms \<and> list_all (\<lambda>m. cfe_direction m = Direction_RX) ms \<and>
    can_reports h (can_operate op c) = can_reports h c @ map can_tx ms" if "can_allowed h i op"
    using can_operate_sends[OF ready that] can_emits_rx by blast
  show "can_frames (can_operate op c) = can_frames c @ can_emits op (can_view c)" if "can_allowed h i op"
    using can_operate_sends[OF ready that] by simp
  show "can_view (can_operate op c) = can_follow op (can_view c)" by (rule can_operate_follows[OF ready])
  assume m: "cfe_direction m = Direction_RX"
  show "can_ready h i (can_receive descriptors k m c)" "can_frames (can_receive descriptors k m c) = can_frames c"
    "can_reports h (can_receive descriptors k m c) = can_reports h c @ [can_rx m]"
    using ReceiveMsg_WireCanFrameEvent_ready[OF ready, of m "descriptors k"] m by (simp_all add: can_receive_def)
qed (simp_all add: can_rx_def can_tx_def can_receive_def can_view_receive)

section \<open>Properties\<close>

text \<open>
  C10. The frames of a CAN network without simulator and replay, whose controllers receive only while they are started: in every
  interleaving of operations and deliveries, a controller has sent the frames of \<open>SendFrame\<close> that were requested while it was started, in
  this order and with the time of the request, and no others. These are, in order, the frames delivered to any other
  controller followed by those on their way to it; a handler for both directions is called once for every delivered frame
  (without the user context of the sender) and once for every frame sent by its own controller (with the user context), and for
  nothing else.
\<close>

theorem can_bus_delivery:
  assumes "\<forall>k < n. can_ready h i (nodes k) \<and> can_frames (nodes k) = [] \<and> can_reports h (nodes k) = []"
    and "bus_run can_operate (can_receive descriptors) can_frames n es (bus_start nodes) = Some net"
    and "receivers_are can_started can_operate (can_receive descriptors) can_frames n es (bus_start nodes)"
    and "\<forall>e \<in> set es. list_all (can_allowed h i) (operation_of e)"
    and "a < n" "b < n" "a \<noteq> b"
  shows "can_frames (bn_nodes net a) = bus_expected can_follow can_emits (can_view (nodes a)) (operations_at a es) \<and>
         map snd (filter (\<lambda>d. fst d = a) (bn_delivered net b)) @ bn_channel net a b = can_frames (bn_nodes net a) \<and>
         filter is_can_rx (can_reports h (bn_nodes net b)) = map (can_rx \<circ> snd) (bn_delivered net b) \<and>
         filter (\<lambda>e. \<not> is_can_rx e) (can_reports h (bn_nodes net b)) = map can_tx (can_frames (bn_nodes net b))"
  using can.broadcast[OF assms(1,2,4-7)] can.expected_sent[OF assms(1,2,4,5)] by blast

definition sample_can :: "nat \<Rightarrow> CanController" where
  "sample_can k = snd (can_AddFrameHandler 5 3 (CanController_new empty_ServiceDescriptor False False False))"

definition sample_can_frame :: WireCanFrame where
  "sample_can_frame = \<lparr>cf_canId = 17, cf_flags = 0, cf_dlc = 1, cf_sdt = 0, cf_vcid = 0, cf_af = 0, cf_dataField = [1]\<rparr>"

definition sample_can_events :: "can_operation bus_event list" where
  "sample_can_events = [BusOperation 1 CanStart, BusOperation 0 (CanSendFrame sample_can_frame 6), BusOperation 0 CanStart,
     BusOperation 0 (CanSendFrame sample_can_frame 7), BusDelivery 0 1]"

theorem can_bus_delivery_witness:
  "\<exists>net. bus_run can_operate (can_receive (\<lambda>k. empty_ServiceDescriptor)) can_frames 2 sample_can_events (bus_start sample_can) = Some net \<and>
    map snd (bn_delivered net 1) = bus_expected can_follow can_emits (False, 0)
      [CanSendFrame sample_can_frame 6, CanStart, CanSendFrame sample_can_frame 7] \<and>
    filter is_can_rx (can_reports 5 (bn_nodes net 1)) = [CanFrameEvent 0 sample_can_frame Direction_RX 0]"
proof -
  have "map_option (\<lambda>net. (bn_channel net 0 1, bn_delivered net 1))
      (bus_run can_operate (can_receive (\<lambda>k. empty_ServiceDescriptor)) can_frames 2 sample_can_events (bus_start sample_can))
    = Some ([], [(0, \<lparr>cfe_timestamp = 0, cfe_frame = sample_can_frame, cfe_direction = Direction_RX, cfe_userContext = 7\<rparr>)])"
    by code_simp
  then obtain net where net: "bus_run can_operate (can_receive (\<lambda>k. empty_ServiceDescriptor)) can_frames 2 sample_can_events (bus_start sample_can) = Some net"
    "bn_channel net 0 1 = []"
    "bn_delivered net 1 = [(0, \<lparr>cfe_timestamp = 0, cfe_frame = sample_can_frame, cfe_direction = Direction_RX, cfe_userContext = 7\<rparr>)]"
    by (auto simp del: bus_run.simps)
  have start: "\<forall>k < (2 :: nat). can_ready 5 0 (sample_can k) \<and> can_frames (sample_can k) = [] \<and> can_reports 5 (sample_can k) = []"
    by (simp add: sample_can_def can_AddFrameHandler_def CanController_new_def Handlers_Add_def Handlers_empty_def can_ready_def
        can_frames_def can_reports_def)
  have rec: "receivers_are can_started can_operate (can_receive (\<lambda>k. empty_ServiceDescriptor)) can_frames 2 sample_can_events (bus_start sample_can)"
    by code_simp
  have ok: "\<forall>e \<in> set sample_can_events. list_all (can_allowed 5 0) (operation_of e)"
    by (simp add: sample_can_events_def operation_of_def can_allowed_def)
  have view: "can_view (sample_can 0) = (False, 0)" by code_simp
  have "operations_at 0 sample_can_events = [CanSendFrame sample_can_frame 6, CanStart, CanSendFrame sample_can_frame 7]"
    by (simp add: operations_at_def sample_can_events_def)
  note ops = this
  have d: "0 < (2 :: nat)" "1 < (2 :: nat)" "(0 :: nat) \<noteq> 1" by simp_all
  note bus = can_bus_delivery[OF start net(1) rec ok d, unfolded ops view]
  have "map snd (bn_delivered net 1) = can_frames (bn_nodes net 0)"
    using bus[THEN conjunct2, THEN conjunct1] by (simp add: net(2,3) del: One_nat_def)
  then have "map snd (bn_delivered net 1) = bus_expected can_follow can_emits (False, 0)
      [CanSendFrame sample_can_frame 6, CanStart, CanSendFrame sample_can_frame 7]"
    using bus[THEN conjunct1] by (simp only:)
  moreover have "filter is_can_rx (can_reports 5 (bn_nodes net 1)) = [CanFrameEvent 0 sample_can_frame Direction_RX 0]"
    using bus[THEN conjunct2, THEN conjunct2, THEN conjunct1] by (simp add: net(3) can_rx_def del: One_nat_def)
  ultimately show ?thesis using net(1) by blast
qed

text \<open>
  Sending a CAN frame without simulator: in replay or when the controller is not started nothing happens at all; otherwise
  one message goes to the other controllers, every frame handler for sent frames is called with the frame, the current time and the
  user context, and then every transmit handler whose mask has the status \<^verbatim>\<open>Transmitted\<close> is called with the identifier of the
  frame, the time and the user context.
\<close>

theorem can_SendFrame_effect:
  assumes "cc_trivial c" "\<not> cc_replayReceive c"
  shows "can_SendFrame frame userContext c =
     (if cc_replaySend c \<or> cc_controllerState c \<noteq> Can_Started then c
      else let tx = CanFrameEvent (cc_now c) frame Direction_TX userContext;
               ack = \<lparr>cte_canId = cf_canId frame, cte_timestamp = cc_now c, cte_status = Can_Transmitted, cte_userContext = userContext\<rparr>
           in c\<lparr>cc_sent := cc_sent c @ [CanFrameMsg \<lparr>cfe_timestamp = cc_now c, cfe_frame = frame, cfe_direction = Direction_RX,
                                                    cfe_userContext = userContext\<rparr>],
                cc_traced := cc_traced c @ [(Direction_TX, cc_now c, tx)],
                cc_calls := cc_calls c @
                  map (\<lambda>(h, m). (h, tx)) (filter (\<lambda>(h, m). Direction_TX AND m \<noteq> 0) (Handlers_InvokeAll (cc_frameHandlers c))) @
                  map (\<lambda>(h, m). (h, CanTransmitEvent ack))
                    (filter (\<lambda>(h, m). Can_Transmitted AND m \<noteq> 0) (Handlers_InvokeAll (cc_frameTransmitHandlers c)))\<rparr>)"
  using assms
  by (simp add: can_SendFrame_def SendMsg_WireCanFrameEvent_def can_trivial_send_def can_send_def ReceiveMsg_WireCanFrameEvent_def
      ReceiveMsg_CanFrameTransmitEvent_def can_AllowReception_def can_Trace_def can_CallHandlers_def can_handlers_for_def
      ToCanFrameEvent_def visible_context_def Let_def comp_def case_prod_unfold)

theorem can_SendFrame_effect_witness:
  "cc_calls (can_SendFrame sample_can_frame 7 (can_Start (sample_can 0))) = [(5, CanFrameEvent 0 sample_can_frame Direction_TX 7)]"
proof -
  have "cc_trivial (can_Start (sample_can 0))" "\<not> cc_replayReceive (can_Start (sample_can 0))"
    "\<not> cc_replaySend (can_Start (sample_can 0))" "cc_controllerState (can_Start (sample_can 0)) = Can_Started"
    "cc_now (can_Start (sample_can 0)) = 0" "cc_calls (can_Start (sample_can 0)) = []"
    "Handlers_InvokeAll (cc_frameHandlers (can_Start (sample_can 0))) = [(5, 3)]"
    "Handlers_InvokeAll (cc_frameTransmitHandlers (can_Start (sample_can 0))) = []"
    by code_simp+
  then show ?thesis by (subst can_SendFrame_effect) (simp_all add: Let_def)
qed

text \<open>
  The interface documents that a controller must be started to receive; without a simulator a controller that was never
  started, or is asleep, receives all the same.
\<close>

lemma can_receives_when_not_started:
  assumes "can_ready h i c" "cfe_direction m = Direction_RX"
  shows "can_reports h (ReceiveMsg_WireCanFrameEvent fromDescr m (c\<lparr>cc_controllerState := Can_Sleep\<rparr>)) = can_reports h c @ [can_rx m]"
  using ReceiveMsg_WireCanFrameEvent_ready(3)[of h i "c\<lparr>cc_controllerState := Can_Sleep\<rparr>" m fromDescr] assms
  by (simp add: can_reports_def)

end
