(* ===== verification/Ethernet_Controller.thy ===== *)
theory Ethernet_Controller
  imports Bus_Network
begin

text \<open>
  The Ethernet controller (services/ethernet/EthController.cpp) with its behaviours \<^verbatim>\<open>SimBehaviorTrivial.cpp\<close> and
  \<^verbatim>\<open>SimBehaviorDetailed.cpp\<close>. Sent messages, calls of handlers and traced frames are recorded.
\<close>

section \<open>State\<close>

abbreviation Eth_Inactive :: u32 where "Eth_Inactive \<equiv> 0"
abbreviation Eth_LinkDown :: u32 where "Eth_LinkDown \<equiv> 1"
abbreviation Eth_LinkUp :: u32 where "Eth_LinkUp \<equiv> 2"
abbreviation Eth_Transmitted :: u32 where "Eth_Transmitted \<equiv> 1"
abbreviation Eth_ControllerInactive :: u32 where "Eth_ControllerInactive \<equiv> 2"
abbreviation Eth_StatusLinkDown :: u32 where "Eth_StatusLinkDown \<equiv> 4"
abbreviation EthMode_Inactive :: u8 where "EthMode_Inactive \<equiv> 0"
abbreviation EthMode_Active :: u8 where "EthMode_Active \<equiv> 1"

datatype eth_message = EthFrameMsg WireEthernetFrameEvent | EthModeMsg EthernetSetMode

datatype eth_event =
    EthernetFrameEvent u64 WireEthernetFrame u8 u64
  | EthernetTransmitEvent EthernetFrameTransmitEvent
  | EthernetStateChangeEvent u64 u32
  | EthernetBitrateChangeEvent u64 u32

record EthController =
  ec_serviceDescriptor :: ServiceDescriptor
  ec_trivial :: bool
  ec_simulatedLink :: ServiceDescriptor
  ec_ethState :: u32
  ec_ethBitRate :: u32
  ec_frameHandlers :: "(nat \<times> u8) Handlers"
  ec_frameTransmitHandlers :: "(nat \<times> u32) Handlers"
  ec_stateChangeHandlers :: "nat Handlers"
  ec_bitrateChangeHandlers :: "nat Handlers"
  ec_replayActive :: bool
  ec_replaySend :: bool
  ec_replayReceive :: bool
  ec_now :: u64
  ec_calls :: "(nat \<times> eth_event) list"
  ec_traced :: "(u8 \<times> u64 \<times> WireEthernetFrame) list"
  ec_sent :: "eth_message list"

definition EthController_new :: "ServiceDescriptor \<Rightarrow> bool \<Rightarrow> bool \<Rightarrow> bool \<Rightarrow> EthController" where
  "EthController_new descriptor replayActive replaySend replayReceive =
     \<lparr>ec_serviceDescriptor = descriptor, ec_trivial = True, ec_simulatedLink = empty_ServiceDescriptor, ec_ethState = Eth_Inactive,
      ec_ethBitRate = 0, ec_frameHandlers = Handlers_empty, ec_frameTransmitHandlers = Handlers_empty,
      ec_stateChangeHandlers = Handlers_empty, ec_bitrateChangeHandlers = Handlers_empty, ec_replayActive = replayActive,
      ec_replaySend = replaySend, ec_replayReceive = replayReceive, ec_now = 0, ec_calls = [], ec_traced = [], ec_sent = []\<rparr>"

section \<open>Handlers\<close>

definition eth_handlers_for :: "eth_event \<Rightarrow> EthController \<Rightarrow> nat list" where
  "eth_handlers_for e c = (case e of
     EthernetFrameEvent timestamp frame direction userContext \<Rightarrow>
       map fst (filter (\<lambda>(h, mask). direction AND mask \<noteq> 0) (Handlers_InvokeAll (ec_frameHandlers c)))
   | EthernetTransmitEvent ack \<Rightarrow>
       map fst (filter (\<lambda>(h, mask). ete_status ack AND mask \<noteq> 0) (Handlers_InvokeAll (ec_frameTransmitHandlers c)))
   | EthernetStateChangeEvent timestamp state \<Rightarrow> Handlers_InvokeAll (ec_stateChangeHandlers c)
   | EthernetBitrateChangeEvent timestamp bitrate \<Rightarrow> Handlers_InvokeAll (ec_bitrateChangeHandlers c))"

definition eth_CallHandlers :: "eth_event \<Rightarrow> EthController \<Rightarrow> EthController" where
  "eth_CallHandlers e c = c\<lparr>ec_calls := ec_calls c @ map (\<lambda>h. (h, e)) (eth_handlers_for e c)\<rparr>"

definition eth_AddFrameHandler :: "nat \<Rightarrow> u8 \<Rightarrow> EthController \<Rightarrow> nat \<times> EthController" where
  "eth_AddFrameHandler handler directionMask c =
     (let (i, hs) = Handlers_Add (handler, directionMask) (ec_frameHandlers c) in (i, c\<lparr>ec_frameHandlers := hs\<rparr>))"

definition eth_RemoveFrameHandler :: "nat \<Rightarrow> EthController \<Rightarrow> EthController" where
  "eth_RemoveFrameHandler handlerId c = c\<lparr>ec_frameHandlers := snd (Handlers_Remove handlerId (ec_frameHandlers c))\<rparr>"

definition eth_AddFrameTransmitHandler :: "nat \<Rightarrow> u32 \<Rightarrow> EthController \<Rightarrow> nat \<times> EthController" where
  "eth_AddFrameTransmitHandler handler transmitStatusMask c =
     (let (i, hs) = Handlers_Add (handler, transmitStatusMask) (ec_frameTransmitHandlers c)
      in (i, c\<lparr>ec_frameTransmitHandlers := hs\<rparr>))"

definition eth_RemoveFrameTransmitHandler :: "nat \<Rightarrow> EthController \<Rightarrow> EthController" where
  "eth_RemoveFrameTransmitHandler handlerId c =
     c\<lparr>ec_frameTransmitHandlers := snd (Handlers_Remove handlerId (ec_frameTransmitHandlers c))\<rparr>"

definition eth_AddStateChangeHandler :: "nat \<Rightarrow> EthController \<Rightarrow> nat \<times> EthController" where
  "eth_AddStateChangeHandler handler c =
     (let (i, hs) = Handlers_Add handler (ec_stateChangeHandlers c) in (i, c\<lparr>ec_stateChangeHandlers := hs\<rparr>))"

definition eth_RemoveStateChangeHandler :: "nat \<Rightarrow> EthController \<Rightarrow> EthController" where
  "eth_RemoveStateChangeHandler handlerId c =
     c\<lparr>ec_stateChangeHandlers := snd (Handlers_Remove handlerId (ec_stateChangeHandlers c))\<rparr>"

definition eth_AddBitrateChangeHandler :: "nat \<Rightarrow> EthController \<Rightarrow> nat \<times> EthController" where
  "eth_AddBitrateChangeHandler handler c =
     (let (i, hs) = Handlers_Add handler (ec_bitrateChangeHandlers c) in (i, c\<lparr>ec_bitrateChangeHandlers := hs\<rparr>))"

definition eth_RemoveBitrateChangeHandler :: "nat \<Rightarrow> EthController \<Rightarrow> EthController" where
  "eth_RemoveBitrateChangeHandler handlerId c =
     c\<lparr>ec_bitrateChangeHandlers := snd (Handlers_Remove handlerId (ec_bitrateChangeHandlers c))\<rparr>"

section \<open>Reception\<close>

definition eth_AllowReception :: "ServiceDescriptor \<Rightarrow> EthController \<Rightarrow> bool" where
  "eth_AllowReception fromDescr c \<longleftrightarrow>
     ec_trivial c \<or> detailed_AllowReception (ec_simulatedLink c) (ec_serviceDescriptor c) fromDescr"

abbreviation minimumEthernetFrameSizeWithoutFcs :: nat where "minimumEthernetFrameSizeWithoutFcs \<equiv> 60"

text \<open>Short frames are padded with zeros for the handlers.\<close>

definition padded :: "WireEthernetFrame \<Rightarrow> WireEthernetFrame" where
  "padded frame =
     (if length (ef_raw frame) < minimumEthernetFrameSizeWithoutFcs
      then \<lparr>ef_raw = ef_raw frame @ replicate (minimumEthernetFrameSizeWithoutFcs - length (ef_raw frame)) 0\<rparr> else frame)"

definition eth_Trace :: "u8 \<Rightarrow> u64 \<Rightarrow> WireEthernetFrame \<Rightarrow> EthController \<Rightarrow> EthController" where
  "eth_Trace direction timestamp frame c = c\<lparr>ec_traced := ec_traced c @ [(direction, timestamp, frame)]\<rparr>"

text \<open>The first argument is whether the message comes from another endpoint than the controller.\<close>

definition eth_ReceiveMsgInternal :: "bool \<Rightarrow> WireEthernetFrameEvent \<Rightarrow> EthController \<Rightarrow> EthController" where
  "eth_ReceiveMsgInternal fromOther msg c =
     (let frame = padded (efe_frame msg);
          userContext = visible_context (efe_direction msg) (efe_userContext msg);
          c = (if fromOther then eth_Trace (efe_direction msg) (efe_timestamp msg) frame c else c)
      in eth_CallHandlers (EthernetFrameEvent (efe_timestamp msg) frame (efe_direction msg) userContext) c)"

definition ReceiveMsg_WireEthernetFrameEvent ::
  "bool \<Rightarrow> ServiceDescriptor \<Rightarrow> WireEthernetFrameEvent \<Rightarrow> EthController \<Rightarrow> EthController" where
  "ReceiveMsg_WireEthernetFrameEvent fromOther fromDescr msg c =
     (if \<not> eth_AllowReception fromDescr c then c
      else if ec_replayReceive c then c
      else eth_ReceiveMsgInternal fromOther msg c)"

definition ReceiveMsg_EthernetFrameTransmitEvent ::
  "ServiceDescriptor \<Rightarrow> EthernetFrameTransmitEvent \<Rightarrow> EthController \<Rightarrow> EthController" where
  "ReceiveMsg_EthernetFrameTransmitEvent fromDescr msg c =
     (if \<not> eth_AllowReception fromDescr c then c else eth_CallHandlers (EthernetTransmitEvent msg) c)"

definition ReceiveMsg_EthernetStatus :: "ServiceDescriptor \<Rightarrow> EthernetStatus \<Rightarrow> EthController \<Rightarrow> EthController" where
  "ReceiveMsg_EthernetStatus fromDescr msg c =
     (if \<not> eth_AllowReception fromDescr c then c
      else let c = (if es_bitrate msg \<noteq> ec_ethBitRate c
                    then eth_CallHandlers (EthernetBitrateChangeEvent (es_timestamp msg) (es_bitrate msg))
                           (c\<lparr>ec_ethBitRate := es_bitrate msg\<rparr>)
                    else c)
           in if es_state msg \<noteq> ec_ethState c
              then eth_CallHandlers (EthernetStateChangeEvent (es_timestamp msg) (es_state msg)) (c\<lparr>ec_ethState := es_state msg\<rparr>)
              else c)"

section \<open>Sending\<close>

definition ControllerStateToTransmitStatus :: "u32 \<Rightarrow> bus_error + u32" where
  "ControllerStateToTransmitStatus ethernetState =
     (if ethernetState = Eth_LinkUp then Inr Eth_Transmitted
      else if ethernetState = Eth_LinkDown then Inr Eth_StatusLinkDown
      else if ethernetState = Eth_Inactive then Inr Eth_ControllerInactive
      else Inl (UnknownEthernetState ethernetState))"

definition eth_send :: "eth_message \<Rightarrow> EthController \<Rightarrow> EthController" where
  "eth_send msg c = c\<lparr>ec_sent := ec_sent c @ [msg]\<rparr>"

text \<open>An exception leaves the controller as far as it was changed.\<close>

type_synonym eth_result = "(bus_error \<times> EthController) + EthController"

definition eth_trivial_send :: "WireEthernetFrameEvent \<Rightarrow> EthController \<Rightarrow> eth_result" where
  "eth_trivial_send msg c =
     (let state = ec_ethState c; msg = msg\<lparr>efe_timestamp := ec_now c\<rparr>; self = ec_serviceDescriptor c;
          c = (if state = Eth_LinkUp
               then ReceiveMsg_WireEthernetFrameEvent False self (msg\<lparr>efe_direction := Direction_TX\<rparr>)
                      (eth_send (EthFrameMsg (msg\<lparr>efe_direction := Direction_RX\<rparr>)) c)
               else c)
      in case ControllerStateToTransmitStatus state of
           Inl e \<Rightarrow> Inl (e, c)
         | Inr status \<Rightarrow> Inr (ReceiveMsg_EthernetFrameTransmitEvent self
             \<lparr>ete_timestamp = efe_timestamp msg, ete_status = status, ete_userContext = efe_userContext msg\<rparr> c))"

definition SendMsg_WireEthernetFrameEvent :: "WireEthernetFrameEvent \<Rightarrow> EthController \<Rightarrow> eth_result" where
  "SendMsg_WireEthernetFrameEvent msg c =
     (if ec_trivial c then eth_trivial_send msg c else Inr (eth_send (EthFrameMsg msg) c))"

definition SendMsg_EthernetSetMode :: "EthernetSetMode \<Rightarrow> EthController \<Rightarrow> EthController" where
  "SendMsg_EthernetSetMode msg c =
     (if ec_trivial c
      then ReceiveMsg_EthernetStatus (ec_serviceDescriptor c)
             \<lparr>es_timestamp = ec_now c, es_state = (if esm_mode msg = EthMode_Active then Eth_LinkUp else Eth_Inactive), es_bitrate = 0\<rparr> c
      else eth_send (EthModeMsg msg) c)"

section \<open>Public interface\<close>

definition eth_Activate :: "EthController \<Rightarrow> EthController" where
  "eth_Activate c =
     (if ec_ethState c \<noteq> Eth_Inactive then c else SendMsg_EthernetSetMode \<lparr>esm_mode = EthMode_Active\<rparr> c)"

definition eth_Deactivate :: "EthController \<Rightarrow> EthController" where
  "eth_Deactivate c =
     (if ec_ethState c = Eth_Inactive then c else SendMsg_EthernetSetMode \<lparr>esm_mode = EthMode_Inactive\<rparr> c)"

definition eth_SendFrameInternal :: "WireEthernetFrame \<Rightarrow> u64 \<Rightarrow> EthController \<Rightarrow> eth_result" where
  "eth_SendFrameInternal frame userContext c =
     SendMsg_WireEthernetFrameEvent
       \<lparr>efe_timestamp = ec_now c, efe_frame = frame, efe_direction = 0, efe_userContext = userContext\<rparr>
       (eth_Trace Direction_TX (ec_now c) frame c)"

definition eth_SendFrame :: "WireEthernetFrame \<Rightarrow> u64 \<Rightarrow> EthController \<Rightarrow> eth_result" where
  "eth_SendFrame frame userContext c = (if ec_replaySend c then Inr c else eth_SendFrameInternal frame userContext c)"

definition eth_ReplayReceive :: "u64 \<Rightarrow> WireEthernetFrame \<Rightarrow> EthController \<Rightarrow> EthController" where
  "eth_ReplayReceive timestamp frame c =
     eth_ReceiveMsgInternal True
       \<lparr>efe_timestamp = timestamp, efe_frame = frame, efe_direction = Direction_RX, efe_userContext = 0\<rparr> c"

abbreviation Direction_TXRX :: u8 where "Direction_TXRX \<equiv> 3"

definition eth_ReplayMessage :: "u8 \<Rightarrow> u64 \<Rightarrow> WireEthernetFrame \<Rightarrow> EthController \<Rightarrow> eth_result" where
  "eth_ReplayMessage direction timestamp frame c =
     (if \<not> ec_replayActive c then Inr c
      else if direction = Direction_TX then (if ec_replaySend c then eth_SendFrameInternal frame 0 c else Inr c)
      else if direction = Direction_RX then Inr (if ec_replayReceive c then eth_ReplayReceive timestamp frame c else c)
      else if direction = Direction_TXRX
      then let c = (if ec_replayReceive c then eth_ReplayReceive timestamp frame c else c)
           in if ec_replaySend c then eth_SendFrameInternal frame 0 c else Inr c
      else Inl (UndefinedReplayDirection, c))"

definition eth_on_discovery :: "event_type \<Rightarrow> ServiceDescriptor \<Rightarrow> EthController \<Rightarrow> EthController" where
  "eth_on_discovery discoveryType remote c =
     (let (trivial, link) = behavior_on_discovery discoveryType remote (ec_serviceDescriptor c) (ec_trivial c, ec_simulatedLink c)
      in c\<lparr>ec_trivial := trivial, ec_simulatedLink := link\<rparr>)"

section \<open>Operations on a bus\<close>

datatype eth_operation =
    EthActivate | EthDeactivate
  | EthSendFrame WireEthernetFrame u64
  | EthAddFrameHandler nat u8 | EthRemoveFrameHandler nat
  | EthAddFrameTransmitHandler nat u32 | EthRemoveFrameTransmitHandler nat
  | EthAddStateChangeHandler nat | EthRemoveStateChangeHandler nat
  | EthAddBitrateChangeHandler nat | EthRemoveBitrateChangeHandler nat
  | EthReplay u8 u64 WireEthernetFrame
  | EthTime u64

definition left_behind :: "eth_result \<Rightarrow> EthController" where
  "left_behind r = (case r of Inl (e, c) \<Rightarrow> c | Inr c \<Rightarrow> c)"

fun eth_operate :: "eth_operation \<Rightarrow> EthController \<Rightarrow> EthController" where
  "eth_operate EthActivate c = eth_Activate c"
| "eth_operate EthDeactivate c = eth_Deactivate c"
| "eth_operate (EthSendFrame frame userContext) c = left_behind (eth_SendFrame frame userContext c)"
| "eth_operate (EthAddFrameHandler h directionMask) c = snd (eth_AddFrameHandler h directionMask c)"
| "eth_operate (EthRemoveFrameHandler i) c = eth_RemoveFrameHandler i c"
| "eth_operate (EthAddFrameTransmitHandler h statusMask) c = snd (eth_AddFrameTransmitHandler h statusMask c)"
| "eth_operate (EthRemoveFrameTransmitHandler i) c = eth_RemoveFrameTransmitHandler i c"
| "eth_operate (EthAddStateChangeHandler h) c = snd (eth_AddStateChangeHandler h c)"
| "eth_operate (EthRemoveStateChangeHandler i) c = eth_RemoveStateChangeHandler i c"
| "eth_operate (EthAddBitrateChangeHandler h) c = snd (eth_AddBitrateChangeHandler h c)"
| "eth_operate (EthRemoveBitrateChangeHandler i) c = eth_RemoveBitrateChangeHandler i c"
| "eth_operate (EthReplay direction timestamp frame) c = left_behind (eth_ReplayMessage direction timestamp frame c)"
| "eth_operate (EthTime now) c = c\<lparr>ec_now := now\<rparr>"

fun eth_frame_of :: "eth_message \<Rightarrow> WireEthernetFrameEvent list" where
  "eth_frame_of (EthFrameMsg m) = [m]"
| "eth_frame_of _ = []"

definition eth_frames :: "EthController \<Rightarrow> WireEthernetFrameEvent list" where
  "eth_frames c = concat (map eth_frame_of (ec_sent c))"

fun is_eth_frame :: "eth_event \<Rightarrow> bool" where
  "is_eth_frame (EthernetFrameEvent _ _ _ _) = True"
| "is_eth_frame _ = False"

fun is_eth_rx :: "eth_event \<Rightarrow> bool" where
  "is_eth_rx (EthernetFrameEvent timestamp frame direction userContext) \<longleftrightarrow> direction = Direction_RX"
| "is_eth_rx _ \<longleftrightarrow> False"

text \<open>The frame events that handler \<open>h\<close> was called with.\<close>

definition eth_reports :: "nat \<Rightarrow> EthController \<Rightarrow> eth_event list" where
  "eth_reports h c = map snd (filter (\<lambda>(k, e). k = h \<and> is_eth_frame e) (ec_calls c))"

definition eth_rx :: "WireEthernetFrameEvent \<Rightarrow> eth_event" where
  "eth_rx m = EthernetFrameEvent (efe_timestamp m) (padded (efe_frame m)) Direction_RX 0"

definition eth_tx :: "WireEthernetFrameEvent \<Rightarrow> eth_event" where
  "eth_tx m = EthernetFrameEvent (efe_timestamp m) (padded (efe_frame m)) Direction_TX (efe_userContext m)"

text \<open>
  What a controller has to send for its operations: nothing but the frames of \<open>SendFrame\<close>, each with the current time, and those only
  while the link is up. The view of a controller is its state and its time; an inactive controller that is activated has
  its link up.
\<close>

fun eth_follow :: "eth_operation \<Rightarrow> u32 \<times> u64 \<Rightarrow> u32 \<times> u64" where
  "eth_follow EthActivate (state, now) = (if state = Eth_Inactive then Eth_LinkUp else state, now)"
| "eth_follow EthDeactivate (state, now) = (Eth_Inactive, now)"
| "eth_follow (EthTime time) (state, now) = (state, time)"
| "eth_follow _ s = s"

fun eth_emits :: "eth_operation \<Rightarrow> u32 \<times> u64 \<Rightarrow> WireEthernetFrameEvent list" where
  "eth_emits (EthSendFrame frame userContext) (state, now) = (if state = Eth_LinkUp
     then [\<lparr>efe_timestamp = now, efe_frame = frame, efe_direction = Direction_RX, efe_userContext = userContext\<rparr>] else [])"
| "eth_emits _ s = []"

definition eth_view :: "EthController \<Rightarrow> u32 \<times> u64" where
  "eth_view c = (ec_ethState c, ec_now c)"

definition eth_active :: "EthController \<Rightarrow> bool" where
  "eth_active c \<longleftrightarrow> ec_ethState c \<noteq> Eth_Inactive"

text \<open>Without network simulator and replay; the handler \<open>h\<close> is registered once, for both directions, under the identifier \<open>i\<close>.\<close>

definition eth_ready :: "nat \<Rightarrow> nat \<Rightarrow> EthController \<Rightarrow> bool" where
  "eth_ready h i c \<longleftrightarrow> ec_trivial c \<and> \<not> ec_replayActive c \<and> \<not> ec_replaySend c \<and> \<not> ec_replayReceive c \<and>
     filter (\<lambda>e. fst (snd e) = h) (h_entries (ec_frameHandlers c)) = [(i, h, 3)]"

definition eth_allowed :: "nat \<Rightarrow> nat \<Rightarrow> eth_operation \<Rightarrow> bool" where
  "eth_allowed h i op = (case op of
     EthAddFrameHandler k directionMask \<Rightarrow> k \<noteq> h | EthRemoveFrameHandler k \<Rightarrow> k \<noteq> i | _ \<Rightarrow> True)"

lemma eth_called_once:
  assumes "eth_ready h i c" "direction AND 3 \<noteq> 0"
  shows "filter (\<lambda>k. k = h) (eth_handlers_for (EthernetFrameEvent timestamp frame direction userContext) c) = [h]"
proof -
  have "filter (\<lambda>k. k = h) (eth_handlers_for (EthernetFrameEvent timestamp frame direction userContext) c) =
    map (fst \<circ> snd) (filter (\<lambda>e. direction AND snd (snd e) \<noteq> 0)
      (filter (\<lambda>e. fst (snd e) = h) (h_entries (ec_frameHandlers c))))"
    by (simp add: eth_handlers_for_def Handlers_InvokeAll_def filter_map comp_def case_prod_unfold conj_commute)
  then show ?thesis using assms by (simp add: eth_ready_def del: filter_filter)
qed

lemma eth_reports_call:
  "is_eth_frame e \<Longrightarrow> filter (\<lambda>k. k = h) (eth_handlers_for e c) = [h] \<Longrightarrow> eth_reports h (eth_CallHandlers e c) = eth_reports h c @ [e]"
  "\<not> is_eth_frame e \<Longrightarrow> eth_reports h (eth_CallHandlers e c) = eth_reports h c"
  by (simp_all add: eth_reports_def eth_CallHandlers_def filter_map comp_def)

lemma eth_keeps [simp]:
  "eth_ready h i (eth_CallHandlers e c) = eth_ready h i c" "eth_frames (eth_CallHandlers e c) = eth_frames c"
  "eth_ready h i (eth_Trace d t f c) = eth_ready h i c" "eth_frames (eth_Trace d t f c) = eth_frames c"
  "eth_reports h (eth_Trace d t f c) = eth_reports h c" "ec_ethState (eth_Trace d t f c) = ec_ethState c"
  "ec_now (eth_Trace d t f c) = ec_now c" "ec_trivial (eth_Trace d t f c) = ec_trivial c"
  "eth_ready h i (c\<lparr>ec_ethState := s\<rparr>) = eth_ready h i c" "eth_ready h i (c\<lparr>ec_ethBitRate := b\<rparr>) = eth_ready h i c"
  "eth_ready h i (eth_send m c) = eth_ready h i c" "eth_frames (eth_send m c) = eth_frames c @ eth_frame_of m"
  "eth_reports h (eth_send m c) = eth_reports h c"
  by (simp_all add: eth_CallHandlers_def eth_ready_def eth_frames_def eth_reports_def eth_Trace_def eth_send_def)

lemma eth_ReceiveMsgInternal_ready:
  assumes "eth_ready h i c" "efe_direction m \<in> {Direction_RX, Direction_TX}"
  shows "eth_ready h i (eth_ReceiveMsgInternal other m c)" "eth_frames (eth_ReceiveMsgInternal other m c) = eth_frames c"
    "eth_reports h (eth_ReceiveMsgInternal other m c) =
       eth_reports h c @ [if efe_direction m = Direction_RX then eth_rx m else eth_tx m]"
proof -
  have d: "efe_direction m AND 3 \<noteq> 0" using assms(2) by auto
  have once: "filter (\<lambda>k. k = h) (eth_handlers_for (EthernetFrameEvent t f (efe_direction m) u) c') = [h]" if "eth_ready h i c'" for t f u c'
    using eth_called_once[OF that d] .
  show "eth_reports h (eth_ReceiveMsgInternal other m c) =
       eth_reports h c @ [if efe_direction m = Direction_RX then eth_rx m else eth_tx m]"
    using assms by (auto simp: eth_ReceiveMsgInternal_def Let_def eth_reports_call(1) once eth_rx_def eth_tx_def visible_context_def)
  show "eth_ready h i (eth_ReceiveMsgInternal other m c)" "eth_frames (eth_ReceiveMsgInternal other m c) = eth_frames c"
    using assms(1) by (simp_all add: eth_ReceiveMsgInternal_def Let_def)
qed

lemma ReceiveMsg_WireEthernetFrameEvent_ready:
  assumes "eth_ready h i c"
  shows "ReceiveMsg_WireEthernetFrameEvent other fromDescr m c = eth_ReceiveMsgInternal other m c"
  using assms by (simp add: ReceiveMsg_WireEthernetFrameEvent_def eth_AllowReception_def eth_ready_def)

lemma ReceiveMsg_EthernetFrameTransmitEvent_ready [simp]:
  "eth_ready h i (ReceiveMsg_EthernetFrameTransmitEvent fromDescr ack c) = eth_ready h i c"
  "eth_frames (ReceiveMsg_EthernetFrameTransmitEvent fromDescr ack c) = eth_frames c"
  "eth_reports h (ReceiveMsg_EthernetFrameTransmitEvent fromDescr ack c) = eth_reports h c"
  by (simp_all add: ReceiveMsg_EthernetFrameTransmitEvent_def eth_reports_call(2))

lemma ReceiveMsg_EthernetStatus_ready [simp]:
  "eth_ready h i (ReceiveMsg_EthernetStatus fromDescr msg c) = eth_ready h i c"
  "eth_frames (ReceiveMsg_EthernetStatus fromDescr msg c) = eth_frames c"
  "eth_reports h (ReceiveMsg_EthernetStatus fromDescr msg c) = eth_reports h c"
proof -
  have fields: "eth_frames (c\<lparr>ec_ethState := s\<rparr>) = eth_frames c" "eth_frames (c\<lparr>ec_ethBitRate := s\<rparr>) = eth_frames c"
    "eth_reports h (c\<lparr>ec_ethState := s\<rparr>) = eth_reports h c" "eth_reports h (c\<lparr>ec_ethBitRate := s\<rparr>) = eth_reports h c"
    for s and c :: EthController by (simp_all add: eth_frames_def eth_reports_def)
  show "eth_ready h i (ReceiveMsg_EthernetStatus fromDescr msg c) = eth_ready h i c"
    "eth_frames (ReceiveMsg_EthernetStatus fromDescr msg c) = eth_frames c"
    "eth_reports h (ReceiveMsg_EthernetStatus fromDescr msg c) = eth_reports h c"
    by (simp_all add: ReceiveMsg_EthernetStatus_def eth_reports_call(2) fields Let_def)
qed

lemma eth_trivial_send_ready:
  fixes msg :: WireEthernetFrameEvent
  assumes "eth_ready h i c"
  defines "ms \<equiv> if ec_ethState c = Eth_LinkUp then [msg\<lparr>efe_timestamp := ec_now c, efe_direction := Direction_RX\<rparr>] else []"
  shows "eth_ready h i (left_behind (eth_trivial_send msg c)) \<and> eth_frames (left_behind (eth_trivial_send msg c)) = eth_frames c @ ms \<and>
         eth_reports h (left_behind (eth_trivial_send msg c)) = eth_reports h c @ map eth_tx ms"
proof -
  define c' where "c' = (if ec_ethState c = Eth_LinkUp
               then ReceiveMsg_WireEthernetFrameEvent False (ec_serviceDescriptor c) (msg\<lparr>efe_timestamp := ec_now c, efe_direction := Direction_TX\<rparr>)
                      (eth_send (EthFrameMsg (msg\<lparr>efe_timestamp := ec_now c, efe_direction := Direction_RX\<rparr>)) c)
               else c)"
  have "eth_ready h i c' \<and> eth_frames c' = eth_frames c @ ms \<and> eth_reports h c' = eth_reports h c @ map eth_tx ms"
    using assms(1) by (auto simp: c'_def ms_def ReceiveMsg_WireEthernetFrameEvent_ready[of h i] eth_ReceiveMsgInternal_ready eth_tx_def)
  moreover have "eth_trivial_send msg c = (case ControllerStateToTransmitStatus (ec_ethState c) of
      Inl e \<Rightarrow> Inl (e, c')
    | Inr status \<Rightarrow> Inr (ReceiveMsg_EthernetFrameTransmitEvent (ec_serviceDescriptor c)
        \<lparr>ete_timestamp = ec_now c, ete_status = status, ete_userContext = efe_userContext msg\<rparr> c'))"
    unfolding eth_trivial_send_def c'_def Let_def by (auto split: sum.splits)
  ultimately show ?thesis by (simp add: left_behind_def split: sum.splits)
qed

lemma SendMsg_EthernetSetMode_ready:
  assumes "eth_ready h i c"
  shows "eth_ready h i (SendMsg_EthernetSetMode m c)" "eth_frames (SendMsg_EthernetSetMode m c) = eth_frames c"
    "eth_reports h (SendMsg_EthernetSetMode m c) = eth_reports h c"
proof -
  have "SendMsg_EthernetSetMode m c = ReceiveMsg_EthernetStatus (ec_serviceDescriptor c)
     \<lparr>es_timestamp = ec_now c, es_state = (if esm_mode m = EthMode_Active then Eth_LinkUp else Eth_Inactive), es_bitrate = 0\<rparr> c"
    using assms by (simp add: SendMsg_EthernetSetMode_def eth_ready_def)
  then show "eth_ready h i (SendMsg_EthernetSetMode m c)" "eth_frames (SendMsg_EthernetSetMode m c) = eth_frames c"
    "eth_reports h (SendMsg_EthernetSetMode m c) = eth_reports h c" using assms by simp_all
qed

lemma eth_operate_quiet:
  assumes "eth_ready h i c" "eth_allowed h i op" "\<forall>frame userContext. op \<noteq> EthSendFrame frame userContext"
  shows "eth_ready h i (eth_operate op c) \<and> eth_frames (eth_operate op c) = eth_frames c \<and>
         eth_reports h (eth_operate op c) = eth_reports h c"
proof -
  have other: "eth_frames c' = eth_frames c \<and> eth_reports h c' = eth_reports h c" if "ec_sent c' = ec_sent c" "ec_calls c' = ec_calls c" for c'
    using that by (simp add: eth_frames_def eth_reports_def)
  show ?thesis
  proof (cases op)
    case (EthAddFrameHandler k directionMask)
    then show ?thesis
      using assms other[of "eth_operate op c"]
      by (auto simp: eth_AddFrameHandler_def Handlers_Add_def eth_ready_def eth_allowed_def)
  next
    case (EthRemoveFrameHandler k)
    have "filter (\<lambda>e. fst (snd e) = h) (filter (\<lambda>e. fst e \<noteq> k) (h_entries (ec_frameHandlers c))) =
      filter (\<lambda>e. fst e \<noteq> k) (filter (\<lambda>e. fst (snd e) = h) (h_entries (ec_frameHandlers c)))"
      by (simp add: conj_commute)
    then show ?thesis
      using assms other[of "eth_operate op c"] EthRemoveFrameHandler
      by (auto simp: eth_RemoveFrameHandler_def Handlers_Remove_def eth_ready_def eth_allowed_def simp del: filter_filter)
  next
    case (EthReplay direction timestamp frame)
    then show ?thesis using assms by (simp add: eth_ReplayMessage_def eth_ready_def left_behind_def)
  next
    case EthActivate
    then show ?thesis using assms(1) SendMsg_EthernetSetMode_ready[OF assms(1)] by (simp add: eth_Activate_def)
  next
    case EthDeactivate
    then show ?thesis using assms(1) SendMsg_EthernetSetMode_ready[OF assms(1)] by (simp add: eth_Deactivate_def)
  qed (use assms other[of "eth_operate op c"] in
       \<open>simp_all add: eth_ready_def
          eth_AddStateChangeHandler_def eth_RemoveStateChangeHandler_def eth_AddBitrateChangeHandler_def
          eth_RemoveBitrateChangeHandler_def eth_AddFrameTransmitHandler_def eth_RemoveFrameTransmitHandler_def Handlers_Add_def\<close>)
qed

text \<open>The operations change the view as specified.\<close>

lemma left_behind_Inr: "left_behind (Inr c) = c"
  by (simp add: left_behind_def)

lemma eth_view_calls [simp]: "eth_view (eth_CallHandlers e c) = eth_view c" "eth_view (eth_Trace d t f c) = eth_view c"
  "eth_view (eth_send m c) = eth_view c"
  by (simp_all add: eth_view_def eth_CallHandlers_def eth_Trace_def eth_send_def)

lemma eth_view_receive [simp]: "eth_view (ReceiveMsg_WireEthernetFrameEvent other fromDescr m c) = eth_view c"
  "eth_view (ReceiveMsg_EthernetFrameTransmitEvent fromDescr ack c) = eth_view c"
  by (simp_all add: ReceiveMsg_WireEthernetFrameEvent_def ReceiveMsg_EthernetFrameTransmitEvent_def eth_ReceiveMsgInternal_def Let_def)

lemma eth_view_mode:
  assumes "ec_trivial c"
  shows "eth_view (SendMsg_EthernetSetMode m c) = (if esm_mode m = EthMode_Active then Eth_LinkUp else Eth_Inactive, ec_now c)"
  using assms
  by (simp add: SendMsg_EthernetSetMode_def ReceiveMsg_EthernetStatus_def eth_AllowReception_def eth_CallHandlers_def eth_view_def Let_def)

lemma eth_view_send:
  assumes "ec_trivial c"
  shows "eth_view (left_behind (eth_SendFrame frame userContext c)) = eth_view c"
proof -
  have "eth_view (left_behind (eth_trivial_send msg c)) = eth_view c" for msg c
    by (simp add: eth_trivial_send_def left_behind_def Let_def split: sum.split)
  then show ?thesis using assms
    by (simp add: eth_SendFrame_def eth_SendFrameInternal_def SendMsg_WireEthernetFrameEvent_def left_behind_def split: sum.splits)
qed

lemma eth_operate_follows:
  assumes "eth_ready h i c"
  shows "eth_view (eth_operate op c) = eth_follow op (eth_view c)"
proof -
  have tr: "ec_trivial c" "\<not> ec_replayActive c" using assms by (simp_all add: eth_ready_def)
  show ?thesis
    by (cases op)
       (simp_all add: eth_Activate_def eth_Deactivate_def eth_view_mode[OF tr(1)] eth_view_send[OF tr(1)] eth_ReplayMessage_def tr
          left_behind_Inr, simp_all add: eth_view_def eth_AddFrameHandler_def eth_RemoveFrameHandler_def eth_AddStateChangeHandler_def
          eth_RemoveStateChangeHandler_def eth_AddBitrateChangeHandler_def eth_RemoveBitrateChangeHandler_def
          eth_AddFrameTransmitHandler_def eth_RemoveFrameTransmitHandler_def Handlers_Add_def Let_def)
qed

lemma eth_SendFrame_ready:
  fixes frame :: WireEthernetFrame and userContext :: u64 and c :: EthController
  assumes "eth_ready h i c"
  defines "c' \<equiv> eth_operate (EthSendFrame frame userContext) c" and "ms \<equiv> eth_emits (EthSendFrame frame userContext) (eth_view c)"
  shows "eth_ready h i c' \<and> eth_frames c' = eth_frames c @ ms \<and> eth_reports h c' = eth_reports h c @ map eth_tx ms"
proof -
  let ?msg = "\<lparr>efe_timestamp = ec_now c, efe_frame = frame, efe_direction = 0, efe_userContext = userContext\<rparr> :: WireEthernetFrameEvent"
  let ?c = "eth_Trace Direction_TX (ec_now c) frame c"
  have "c' = left_behind (eth_trivial_send ?msg ?c)"
    using assms(1) by (simp add: c'_def eth_SendFrame_def eth_SendFrameInternal_def SendMsg_WireEthernetFrameEvent_def eth_ready_def)
  moreover have "ms = (if ec_ethState ?c = Eth_LinkUp then [?msg\<lparr>efe_timestamp := ec_now ?c, efe_direction := Direction_RX\<rparr>] else [])"
    by (simp add: ms_def eth_view_def)
  ultimately show ?thesis using eth_trivial_send_ready[of h i ?c ?msg] assms(1) by simp
qed

lemma eth_operate_sends:
  assumes "eth_ready h i c" "eth_allowed h i op"
  shows "eth_ready h i (eth_operate op c) \<and> eth_frames (eth_operate op c) = eth_frames c @ eth_emits op (eth_view c) \<and>
     eth_reports h (eth_operate op c) = eth_reports h c @ map eth_tx (eth_emits op (eth_view c))"
proof (cases "\<exists>frame userContext. op = EthSendFrame frame userContext")
  case True
  then show ?thesis using eth_SendFrame_ready[OF assms(1)] by blast
next
  case False
  then have "eth_emits op (eth_view c) = []" by (cases op) (auto simp: eth_view_def)
  then show ?thesis using eth_operate_quiet[OF assms] False by simp
qed

lemma eth_emits_rx: "list_all (\<lambda>m. efe_direction m = Direction_RX) (eth_emits op s)"
  by (cases s; cases op) simp_all

definition eth_receive :: "(nat \<Rightarrow> ServiceDescriptor) \<Rightarrow> nat \<Rightarrow> WireEthernetFrameEvent \<Rightarrow> EthController \<Rightarrow> EthController" where
  "eth_receive descriptors i m c = ReceiveMsg_WireEthernetFrameEvent True (descriptors i) m c"

interpretation eth: specified_bus eth_operate "eth_receive descriptors" eth_frames "eth_reports h" is_eth_rx eth_rx eth_tx
  "eth_ready h i" "eth_allowed h i" "\<lambda>m. efe_direction m = Direction_RX" eth_view eth_follow eth_emits
  for descriptors h i
proof unfold_locales
  fix c :: EthController and op and m :: WireEthernetFrameEvent and k :: nat
  assume ready: "eth_ready h i c"
  show "eth_ready h i (eth_operate op c)" if "eth_allowed h i op" using eth_operate_sends[OF ready that] by blast
  show "\<exists>ms. eth_frames (eth_operate op c) = eth_frames c @ ms \<and> list_all (\<lambda>m. efe_direction m = Direction_RX) ms \<and>
    eth_reports h (eth_operate op c) = eth_reports h c @ map eth_tx ms" if "eth_allowed h i op"
    using eth_operate_sends[OF ready that] eth_emits_rx by blast
  show "eth_frames (eth_operate op c) = eth_frames c @ eth_emits op (eth_view c)" if "eth_allowed h i op"
    using eth_operate_sends[OF ready that] by blast
  show "eth_view (eth_operate op c) = eth_follow op (eth_view c)" by (rule eth_operate_follows[OF ready])
  assume m: "efe_direction m = Direction_RX"
  show "eth_ready h i (eth_receive descriptors k m c)" "eth_frames (eth_receive descriptors k m c) = eth_frames c"
    "eth_reports h (eth_receive descriptors k m c) = eth_reports h c @ [eth_rx m]"
    using eth_ReceiveMsgInternal_ready[OF ready, of m True] m
    by (simp_all add: eth_receive_def ReceiveMsg_WireEthernetFrameEvent_ready[OF ready])
qed (simp_all add: eth_rx_def eth_tx_def eth_receive_def)

section \<open>Properties\<close>

text \<open>
  C11. The frames of an Ethernet network without simulator and replay, whose controllers receive only while they are active: in every
  interleaving of operations and deliveries, a controller has sent the frames of \<open>SendFrame\<close> that were requested while its link was
  up, in this order and with the time of the request, and no others. These are, in order, the frames delivered to any other
  controller followed by those on their way to it; a handler for both directions is called once for every delivered frame and once for
  every frame sent by its own controller, and for nothing else. Every frame it sees, received or sent, is the one given to
  \<open>SendFrame\<close>, extended by zeros to the minimal length of 60 bytes when it is shorter.
\<close>

theorem eth_bus_delivery:
  assumes "\<forall>k < n. eth_ready h i (nodes k) \<and> eth_frames (nodes k) = [] \<and> eth_reports h (nodes k) = []"
    and "bus_run eth_operate (eth_receive descriptors) eth_frames n es (bus_start nodes) = Some net"
    and "receivers_are eth_active eth_operate (eth_receive descriptors) eth_frames n es (bus_start nodes)"
    and "\<forall>e \<in> set es. list_all (eth_allowed h i) (operation_of e)"
    and "a < n" "b < n" "a \<noteq> b"
  shows "eth_frames (bn_nodes net a) = bus_expected eth_follow eth_emits (eth_view (nodes a)) (operations_at a es) \<and>
         map snd (filter (\<lambda>d. fst d = a) (bn_delivered net b)) @ bn_channel net a b = eth_frames (bn_nodes net a) \<and>
         filter is_eth_rx (eth_reports h (bn_nodes net b)) = map (eth_rx \<circ> snd) (bn_delivered net b) \<and>
         filter (\<lambda>e. \<not> is_eth_rx e) (eth_reports h (bn_nodes net b)) = map eth_tx (eth_frames (bn_nodes net b)) \<and>
         (\<forall>m. \<exists>k. eth_rx m = EthernetFrameEvent (efe_timestamp m) \<lparr>ef_raw = ef_raw (efe_frame m) @ replicate k 0\<rparr> Direction_RX 0 \<and>
            eth_tx m = EthernetFrameEvent (efe_timestamp m) \<lparr>ef_raw = ef_raw (efe_frame m) @ replicate k 0\<rparr> Direction_TX (efe_userContext m) \<and>
            60 \<le> length (ef_raw (efe_frame m)) + k \<and> (k = 0 \<or> length (ef_raw (efe_frame m)) + k = 60))"
proof -
  have "\<exists>k. eth_rx m = EthernetFrameEvent (efe_timestamp m) \<lparr>ef_raw = ef_raw (efe_frame m) @ replicate k 0\<rparr> Direction_RX 0 \<and>
            eth_tx m = EthernetFrameEvent (efe_timestamp m) \<lparr>ef_raw = ef_raw (efe_frame m) @ replicate k 0\<rparr> Direction_TX (efe_userContext m) \<and>
            60 \<le> length (ef_raw (efe_frame m)) + k \<and> (k = 0 \<or> length (ef_raw (efe_frame m)) + k = 60)" for m
    by (intro exI[of _ "60 - length (ef_raw (efe_frame m))"]) (simp add: eth_rx_def eth_tx_def padded_def, linarith)
  then show ?thesis using eth.broadcast[OF assms(1,2,4-7)] eth.expected_sent[OF assms(1,2,4,5)] by blast
qed

definition sample_eth :: "nat \<Rightarrow> EthController" where
  "sample_eth k = snd (eth_AddFrameHandler 5 3 (EthController_new empty_ServiceDescriptor False False False))"

definition sample_eth_events :: "eth_operation bus_event list" where
  "sample_eth_events = [BusOperation 1 EthActivate, BusOperation 0 (EthSendFrame \<lparr>ef_raw = [3]\<rparr> 6), BusOperation 0 EthActivate,
     BusOperation 0 (EthSendFrame \<lparr>ef_raw = [1, 2]\<rparr> 7), BusDelivery 0 1]"

theorem eth_bus_delivery_witness:
  "\<exists>net. bus_run eth_operate (eth_receive (\<lambda>k. empty_ServiceDescriptor)) eth_frames 2 sample_eth_events (bus_start sample_eth) = Some net \<and>
    map snd (bn_delivered net 1) = bus_expected eth_follow eth_emits (Eth_Inactive, 0)
      [EthSendFrame \<lparr>ef_raw = [3]\<rparr> 6, EthActivate, EthSendFrame \<lparr>ef_raw = [1, 2]\<rparr> 7] \<and>
    filter is_eth_rx (eth_reports 5 (bn_nodes net 1)) = [EthernetFrameEvent 0 \<lparr>ef_raw = [1, 2] @ replicate 58 0\<rparr> Direction_RX 0]"
proof -
  let ?m = "\<lparr>efe_timestamp = 0, efe_frame = \<lparr>ef_raw = [1, 2]\<rparr>, efe_direction = Direction_RX, efe_userContext = 7\<rparr> :: WireEthernetFrameEvent"
  have "map_option (\<lambda>net. (bn_channel net 0 1, bn_delivered net 1))
      (bus_run eth_operate (eth_receive (\<lambda>k. empty_ServiceDescriptor)) eth_frames 2 sample_eth_events (bus_start sample_eth)) = Some ([], [(0, ?m)])"
    by code_simp
  then obtain net where net: "bus_run eth_operate (eth_receive (\<lambda>k. empty_ServiceDescriptor)) eth_frames 2 sample_eth_events (bus_start sample_eth) = Some net"
    "bn_channel net 0 1 = []" "bn_delivered net 1 = [(0, ?m)]"
    by (auto simp del: bus_run.simps)
  have start: "\<forall>k < (2 :: nat). eth_ready 5 0 (sample_eth k) \<and> eth_frames (sample_eth k) = [] \<and> eth_reports 5 (sample_eth k) = []"
    by (simp add: sample_eth_def eth_AddFrameHandler_def EthController_new_def Handlers_Add_def Handlers_empty_def eth_ready_def
        eth_frames_def eth_reports_def)
  have rec: "receivers_are eth_active eth_operate (eth_receive (\<lambda>k. empty_ServiceDescriptor)) eth_frames 2 sample_eth_events (bus_start sample_eth)"
    by code_simp
  have ok: "\<forall>e \<in> set sample_eth_events. list_all (eth_allowed 5 0) (operation_of e)"
    by (simp add: sample_eth_events_def operation_of_def eth_allowed_def)
  have view: "eth_view (sample_eth 0) = (Eth_Inactive, 0)" by code_simp
  have ops: "operations_at 0 sample_eth_events = [EthSendFrame \<lparr>ef_raw = [3]\<rparr> 6, EthActivate, EthSendFrame \<lparr>ef_raw = [1, 2]\<rparr> 7]"
    by (simp add: operations_at_def sample_eth_events_def)
  have d: "0 < (2 :: nat)" "1 < (2 :: nat)" "(0 :: nat) \<noteq> 1" by simp_all
  note bus = eth_bus_delivery[OF start net(1) rec ok d, unfolded ops view]
  have "map snd (bn_delivered net 1) = eth_frames (bn_nodes net 0)"
    using bus[THEN conjunct2, THEN conjunct1] by (simp add: net(2,3) del: One_nat_def)
  then have "map snd (bn_delivered net 1) = bus_expected eth_follow eth_emits (Eth_Inactive, 0)
      [EthSendFrame \<lparr>ef_raw = [3]\<rparr> 6, EthActivate, EthSendFrame \<lparr>ef_raw = [1, 2]\<rparr> 7]"
    using bus[THEN conjunct1] by (simp only:)
  moreover have "filter is_eth_rx (eth_reports 5 (bn_nodes net 1)) = [EthernetFrameEvent 0 \<lparr>ef_raw = [1, 2] @ replicate 58 0\<rparr> Direction_RX 0]"
    using bus[THEN conjunct2, THEN conjunct2, THEN conjunct1] by (simp add: net(3) eth_rx_def padded_def del: One_nat_def)
  ultimately show ?thesis using net(1) by blast
qed

text \<open>
  The interface documents that a deactivated controller no longer receives messages; without a simulator it does.
\<close>

lemma eth_receives_when_inactive:
  assumes "eth_ready h i c" "efe_direction m = Direction_RX"
  shows "eth_reports h (ReceiveMsg_WireEthernetFrameEvent other fromDescr m (c\<lparr>ec_ethState := Eth_Inactive\<rparr>)) = eth_reports h c @ [eth_rx m]"
  using eth_ReceiveMsgInternal_ready(3)[of h i "c\<lparr>ec_ethState := Eth_Inactive\<rparr>" m other] assms
    ReceiveMsg_WireEthernetFrameEvent_ready[of h i "c\<lparr>ec_ethState := Eth_Inactive\<rparr>" other fromDescr m]
  by (simp add: eth_reports_def)

end
