(* ===== verification/Flexray_Controller.thy ===== *)
theory Flexray_Controller
  imports Bus_Network
begin

text \<open>
  The FlexRay controller (services/flexray/FlexrayController.cpp) and the validation of its parameters
  (services/flexray/Validation.cpp). FlexRay needs a network simulator, so the controller only passes commands, configurations and
  buffer updates to it and its events to the handlers. Sent messages, calls of handlers and traced frames are recorded.
\<close>

section \<open>Validation of parameters\<close>

abbreviation FlexrayChannel_A :: u32 where "FlexrayChannel_A \<equiv> 1"
abbreviation FlexrayChannel_B :: u32 where "FlexrayChannel_B \<equiv> 2"
abbreviation FlexrayChannel_AB :: u32 where "FlexrayChannel_AB \<equiv> 3"
abbreviation FlexrayClockPeriod_T12_5NS :: u32 where "FlexrayClockPeriod_T12_5NS \<equiv> 1"
abbreviation FlexrayClockPeriod_T25NS :: u32 where "FlexrayClockPeriod_T25NS \<equiv> 2"
abbreviation FlexrayClockPeriod_T50NS :: u32 where "FlexrayClockPeriod_T50NS \<equiv> 3"

datatype flexray_error = FrConfigurationError string | FrOutOfRangeError string

text \<open>The conditions are checked in turn, the first one that holds throws its message.\<close>

definition throw_first :: "(bool \<times> string) list \<Rightarrow> flexray_error + unit" where
  "throw_first checks = (case find fst checks of None \<Rightarrow> Inr () | Some (_, message) \<Rightarrow> Inl (FrConfigurationError message))"

definition Validate_FlexrayClusterParameters :: "FlexrayClusterParameters \<Rightarrow> flexray_error + unit" where
  "Validate_FlexrayClusterParameters p = throw_first
     [(fcp_gColdstartAttempts p < 2 \<or> fcp_gColdstartAttempts p > 31, ''gColdstartAttempts must be in range 2 - 31''),
      (fcp_gCycleCountMax p mod 2 \<noteq> 1, ''gCycleCountMax must be an odd value''),
      (fcp_gCycleCountMax p < 7 \<or> fcp_gCycleCountMax p > 63, ''gCycleCountMax must be in range 7, 9, ..., 63''),
      (fcp_gdActionPointOffset p < 1 \<or> fcp_gdActionPointOffset p > 63, ''gdActionPointOffset must be in range 1 - 63''),
      (fcp_gdDynamicSlotIdlePhase p > 2, ''gdDynamicSlotIdlePhase must be in range 0 - 2''),
      (fcp_gdMiniSlot p < 2 \<or> fcp_gdMiniSlot p > 63, ''gdMiniSlot must be in range 2 - 63''),
      (fcp_gdMiniSlotActionPointOffset p < 1 \<or> fcp_gdMiniSlotActionPointOffset p > 31, ''gdMiniSlotActionPointOffset must be in range 1 - 31''),
      (fcp_gdStaticSlot p < 3 \<or> fcp_gdStaticSlot p > 664, ''gdStaticSlot must be in range 3 - 664''),
      (fcp_gdSymbolWindow p > 162, ''gdSymbolWindow must be in range 0 - 162''),
      (fcp_gdSymbolWindowActionPointOffset p < 1 \<or> fcp_gdSymbolWindowActionPointOffset p > 63, ''gdSymbolWindowActionPointOffset must be in range 1 - 63''),
      (fcp_gdTSSTransmitter p < 1 \<or> fcp_gdTSSTransmitter p > 15, ''gdTSSTransmitter must be in range 1 - 15''),
      (fcp_gdWakeupTxActive p < 15 \<or> fcp_gdWakeupTxActive p > 60, ''gdWakeupTxActive must be in range 15 - 60''),
      (fcp_gdWakeupTxIdle p < 45 \<or> fcp_gdWakeupTxIdle p > 180, ''gdWakeupTxIdle must be in range 45 - 180''),
      (fcp_gListenNoise p < 2 \<or> fcp_gListenNoise p > 16, ''gListenNoise must be in range 2 - 16''),
      (fcp_gMacroPerCycle p < 8 \<or> fcp_gMacroPerCycle p > 16000, ''gMacroPerCycle must be in range 8 - 16000''),
      (fcp_gMaxWithoutClockCorrectionFatal p < 1 \<or> fcp_gMaxWithoutClockCorrectionFatal p > 15, ''gMaxWithoutClockCorrectionFatal must be in range 1 - 15''),
      (fcp_gMaxWithoutClockCorrectionPassive p < 1 \<or> fcp_gMaxWithoutClockCorrectionPassive p > 15, ''gMaxWithoutClockCorrectionPassive must be in range 1 - 15''),
      (fcp_gNumberOfMiniSlots p > 7988, ''gNumberOfMiniSlots must be in range 0 - 7988''),
      (fcp_gNumberOfStaticSlots p < 2 \<or> fcp_gNumberOfStaticSlots p > 1023, ''gNumberOfStaticSlots must be in range 2 - 1023''),
      (fcp_gPayloadLengthStatic p > 127, ''gPayloadLengthStatic must be in range 0 - 127''),
      (fcp_gSyncFrameIDCountMax p < 2 \<or> fcp_gSyncFrameIDCountMax p > 15, ''gSyncFrameIDCountMax must be in range 2 - 15'')]"

definition Validate_FlexrayNodeParameters :: "FlexrayNodeParameters \<Rightarrow> flexray_error + unit" where
  "Validate_FlexrayNodeParameters p = throw_first
     [(fnp_pAllowHaltDueToClock p > 1, ''pAllowHaltDueToClock must be 0 or 1''),
      (fnp_pAllowPassiveToActive p > 31, ''pAllowPassiveToActive must be in range 0 - 31''),
      (fnp_pClusterDriftDamping p > 10, ''pClusterDriftDamping must be in range 0 - 10''),
      (sint (fnp_pdAcceptedStartupRange p) < 29 \<or> sint (fnp_pdAcceptedStartupRange p) > 2743, ''pdAcceptedStartupRange must be in range 29 - 2743''),
      (sint (fnp_pdListenTimeout p) < 1926 \<or> sint (fnp_pdListenTimeout p) > 2567692, ''pdListenTimeout must be in range 1926 - 2567692''),
      (fnp_pKeySlotId p > 1023, ''pKeySlotId must be in range 0 - 1023''),
      (fnp_pKeySlotOnlyEnabled p > 1, ''pKeySlotOnlyEnabled must be 0 or 1''),
      (fnp_pKeySlotUsedForStartup p > 1, ''pKeySlotUsedForStartup must be 0 or 1''),
      (fnp_pKeySlotUsedForSync p > 1, ''pKeySlotUsedForSync must be 0 or 1''),
      (fnp_pLatestTx p > 7988, ''pLatestTx must be in range 0 - 7988''),
      (fnp_pMacroInitialOffsetA p < 2 \<or> fnp_pMacroInitialOffsetA p > 68, ''pMacroInitialOffsetA must be in range 2 - 68''),
      (fnp_pMacroInitialOffsetB p < 2 \<or> fnp_pMacroInitialOffsetB p > 68, ''pMacroInitialOffsetB must be in range 2 - 68''),
      (sint (fnp_pMicroInitialOffsetA p) < 0 \<or> sint (fnp_pMicroInitialOffsetA p) > 239, ''pMicroInitialOffsetA must be in range 0 - 239''),
      (sint (fnp_pMicroInitialOffsetB p) < 0 \<or> sint (fnp_pMicroInitialOffsetB p) > 239, ''pMicroInitialOffsetB must be in range 0 - 239''),
      (sint (fnp_pMicroPerCycle p) < 960 \<or> sint (fnp_pMicroPerCycle p) > 1280000, ''pMicroPerCycle must be in range 960 - 1280000''),
      (sint (fnp_pOffsetCorrectionOut p) < 15 \<or> sint (fnp_pOffsetCorrectionOut p) > 16082, ''pOffsetCorrectionOut must be in range 15 - 16082''),
      (fnp_pOffsetCorrectionStart p < 7 \<or> fnp_pOffsetCorrectionStart p > 15999, ''pOffsetCorrectionStart must be in range 7 - 15999''),
      (sint (fnp_pRateCorrectionOut p) < 3 \<or> sint (fnp_pRateCorrectionOut p) > 3846, ''pRateCorrectionOut must be in range 3 - 3846''),
      (fnp_pWakeupChannel p \<noteq> FlexrayChannel_A \<and> fnp_pWakeupChannel p \<noteq> FlexrayChannel_B, ''pWakeupChannel must be either FlexrayChannel A or FlexrayChannel B''),
      (fnp_pWakeupPattern p > 63, ''pWakeupPattern must be in range 0 - 63''),
      (fnp_pSamplesPerMicrotick p < 1 \<or> fnp_pSamplesPerMicrotick p > 2, ''pSamplesPerMicrotick must be 1 or 2'')]"

section \<open>State\<close>

datatype flexray_message =
    FrHostCommand FlexrayHostCommand
  | FrConfig FlexrayControllerConfig
  | FrTxBufferConfig FlexrayTxBufferConfigUpdate
  | FrTxBuffer WireFlexrayTxBufferUpdate

datatype flexray_event =
    FlexrayFrameEvent WireFlexrayFrameEvent
  | FlexrayFrameTransmitEvent WireFlexrayFrameTransmitEvent
  | FlexrayWakeupEvent FlexraySymbolEvent
  | FlexraySymbol FlexraySymbolEvent
  | FlexraySymbolTransmit FlexraySymbolTransmitEvent
  | FlexrayCycleStart FlexrayCycleStartEvent
  | FlexrayPocStatus FlexrayPocStatusEvent

text \<open>The first three members are those of the predefined configuration (\<^verbatim>\<open>_config\<close>).\<close>

record FlexrayController =
  fc_clusterParameters :: "FlexrayClusterParameters option"
  fc_nodeParameters :: "FlexrayNodeParameters option"
  fc_txBufferConfigurations :: "FlexrayTxBufferConfig list"
  fc_serviceDescriptor :: ServiceDescriptor
  fc_bufferConfigs :: "FlexrayTxBufferConfig list"
  fc_simulatedLinkDetected :: bool
  fc_simulatedLink :: ServiceDescriptor
  fc_frameHandlers :: "nat Handlers"
  fc_frameTransmitHandlers :: "nat Handlers"
  fc_wakeupHandlers :: "nat Handlers"
  fc_pocStatusHandlers :: "nat Handlers"
  fc_symbolHandlers :: "nat Handlers"
  fc_symbolTransmitHandlers :: "nat Handlers"
  fc_cycleStartHandlers :: "nat Handlers"
  fc_calls :: "(nat \<times> flexray_event) list"
  fc_traced :: "(u8 \<times> u64 \<times> WireFlexrayFrameEvent) list"
  fc_sent :: "flexray_message list"

definition FlexrayController_new ::
  "FlexrayClusterParameters option \<Rightarrow> FlexrayNodeParameters option \<Rightarrow> FlexrayTxBufferConfig list \<Rightarrow> ServiceDescriptor \<Rightarrow> FlexrayController" where
  "FlexrayController_new clusterParameters nodeParameters txBufferConfigurations descriptor =
     \<lparr>fc_clusterParameters = clusterParameters, fc_nodeParameters = nodeParameters,
      fc_txBufferConfigurations = txBufferConfigurations, fc_serviceDescriptor = descriptor, fc_bufferConfigs = [],
      fc_simulatedLinkDetected = False, fc_simulatedLink = empty_ServiceDescriptor, fc_frameHandlers = Handlers_empty,
      fc_frameTransmitHandlers = Handlers_empty, fc_wakeupHandlers = Handlers_empty, fc_pocStatusHandlers = Handlers_empty,
      fc_symbolHandlers = Handlers_empty, fc_symbolTransmitHandlers = Handlers_empty, fc_cycleStartHandlers = Handlers_empty,
      fc_calls = [], fc_traced = [], fc_sent = []\<rparr>"

section \<open>Behaviour with the simulator\<close>

definition fr_on_discovery :: "event_type \<Rightarrow> ServiceDescriptor \<Rightarrow> FlexrayController \<Rightarrow> FlexrayController" where
  "fr_on_discovery discoveryType remote c =
     (if \<not> fc_simulatedLinkDetected c \<and> discoveryType = ServiceCreated \<and> is_simulated_link (fc_serviceDescriptor c) remote
      then c\<lparr>fc_simulatedLinkDetected := True, fc_simulatedLink := remote\<rparr> else c)"

definition fr_AllowReception :: "ServiceDescriptor \<Rightarrow> FlexrayController \<Rightarrow> bool" where
  "fr_AllowReception fromDescr c \<longleftrightarrow>
     fc_simulatedLinkDetected c \<and> detailed_AllowReception (fc_simulatedLink c) (fc_serviceDescriptor c) fromDescr"

definition fr_handlers_for :: "flexray_event \<Rightarrow> FlexrayController \<Rightarrow> nat list" where
  "fr_handlers_for e c = Handlers_InvokeAll (case e of
     FlexrayFrameEvent m \<Rightarrow> fc_frameHandlers c
   | FlexrayFrameTransmitEvent m \<Rightarrow> fc_frameTransmitHandlers c
   | FlexrayWakeupEvent m \<Rightarrow> fc_wakeupHandlers c
   | FlexraySymbol m \<Rightarrow> fc_symbolHandlers c
   | FlexraySymbolTransmit m \<Rightarrow> fc_symbolTransmitHandlers c
   | FlexrayCycleStart m \<Rightarrow> fc_cycleStartHandlers c
   | FlexrayPocStatus m \<Rightarrow> fc_pocStatusHandlers c)"

definition fr_CallHandlers :: "flexray_event \<Rightarrow> FlexrayController \<Rightarrow> FlexrayController" where
  "fr_CallHandlers e c = c\<lparr>fc_calls := fc_calls c @ map (\<lambda>h. (h, e)) (fr_handlers_for e c)\<rparr>"

definition fr_Trace :: "u8 \<Rightarrow> u64 \<Rightarrow> WireFlexrayFrameEvent \<Rightarrow> FlexrayController \<Rightarrow> FlexrayController" where
  "fr_Trace direction timestamp frame c = c\<lparr>fc_traced := fc_traced c @ [(direction, timestamp, frame)]\<rparr>"

definition fr_SendMsg :: "flexray_message \<Rightarrow> FlexrayController \<Rightarrow> FlexrayController" where
  "fr_SendMsg msg c = c\<lparr>fc_sent := fc_sent c @ [msg]\<rparr>"

section \<open>Public interface\<close>

definition IsClusterParametersConfigurable :: "FlexrayController \<Rightarrow> bool" where
  "IsClusterParametersConfigurable c \<longleftrightarrow> fc_clusterParameters c = None"

definition IsNodeParametersConfigurable :: "FlexrayController \<Rightarrow> bool" where
  "IsNodeParametersConfigurable c \<longleftrightarrow> fc_nodeParameters c = None"

definition IsTxBufferConfigsConfigurable :: "FlexrayController \<Rightarrow> bool" where
  "IsTxBufferConfigsConfigurable c \<longleftrightarrow> fc_txBufferConfigurations c = []"

text \<open>Predefined parameters take precedence over those of the caller.\<close>

definition overridden :: "FlexrayControllerConfig \<Rightarrow> FlexrayController \<Rightarrow> FlexrayControllerConfig" where
  "overridden cfg c =
     (let cfg = (if \<not> IsClusterParametersConfigurable c then cfg\<lparr>fcc_clusterParams := the (fc_clusterParameters c)\<rparr> else cfg);
          cfg = (if \<not> IsNodeParametersConfigurable c then cfg\<lparr>fcc_nodeParams := the (fc_nodeParameters c)\<rparr> else cfg)
      in if \<not> IsTxBufferConfigsConfigurable c then cfg\<lparr>fcc_bufferConfigs := fc_txBufferConfigurations c\<rparr> else cfg)"

definition fr_Configure :: "FlexrayControllerConfig \<Rightarrow> FlexrayController \<Rightarrow> flexray_error + FlexrayController" where
  "fr_Configure config c =
     (let cfg = overridden config c
      in bindE (Validate_FlexrayClusterParameters (fcc_clusterParams cfg)) (\<lambda>_.
         bindE (Validate_FlexrayNodeParameters (fcc_nodeParams cfg)) (\<lambda>_.
           Inr (fr_SendMsg (FrConfig cfg) (c\<lparr>fc_bufferConfigs := fcc_bufferConfigs cfg\<rparr>)))))"

definition ReconfigureTxBuffer :: "u16 \<Rightarrow> FlexrayTxBufferConfig \<Rightarrow> FlexrayController \<Rightarrow> flexray_error + FlexrayController" where
  "ReconfigureTxBuffer txBufferIdx config c =
     (if unat txBufferIdx \<ge> length (fc_bufferConfigs c) then Inl (FrOutOfRangeError ''Unconfigured txBufferIdx!'')
      else if \<not> IsTxBufferConfigsConfigurable c then Inr c
      else Inr (fr_SendMsg (FrTxBufferConfig \<lparr>fcu_txBufferIndex = txBufferIdx, fcu_txBufferConfig = config\<rparr>) c))"

text \<open>Payloads of the wrong length for a static slot only lead to warnings here.\<close>

definition fr_UpdateTxBuffer :: "WireFlexrayTxBufferUpdate \<Rightarrow> FlexrayController \<Rightarrow> flexray_error + FlexrayController" where
  "fr_UpdateTxBuffer update c =
     (if unat (ftu_txBufferIndex update) \<ge> length (fc_bufferConfigs c) then Inl (FrOutOfRangeError ''Unconfigured txBufferIndex!'')
      else Inr (fr_SendMsg (FrTxBuffer update) c))"

definition fr_command :: "u8 \<Rightarrow> FlexrayController \<Rightarrow> FlexrayController" where
  "fr_command command c = fr_SendMsg (FrHostCommand \<lparr>fhc_command = command\<rparr>) c"

definition fr_Run :: "FlexrayController \<Rightarrow> FlexrayController" where "fr_Run c = fr_command 0 c"
definition fr_DeferredHalt :: "FlexrayController \<Rightarrow> FlexrayController" where "fr_DeferredHalt c = fr_command 1 c"
definition fr_Freeze :: "FlexrayController \<Rightarrow> FlexrayController" where "fr_Freeze c = fr_command 2 c"
definition fr_AllowColdstart :: "FlexrayController \<Rightarrow> FlexrayController" where "fr_AllowColdstart c = fr_command 3 c"
definition fr_AllSlots :: "FlexrayController \<Rightarrow> FlexrayController" where "fr_AllSlots c = fr_command 4 c"
definition fr_Wakeup :: "FlexrayController \<Rightarrow> FlexrayController" where "fr_Wakeup c = fr_command 5 c"

section \<open>Reception\<close>

definition fr_receive_if :: "ServiceDescriptor \<Rightarrow> (FlexrayController \<Rightarrow> FlexrayController) \<Rightarrow> FlexrayController \<Rightarrow> FlexrayController" where
  "fr_receive_if fromDescr f c = (if \<not> fr_AllowReception fromDescr c then c else f c)"

definition ReceiveMsg_WireFlexrayFrameEvent :: "ServiceDescriptor \<Rightarrow> WireFlexrayFrameEvent \<Rightarrow> FlexrayController \<Rightarrow> FlexrayController" where
  "ReceiveMsg_WireFlexrayFrameEvent fromDescr msg = fr_receive_if fromDescr
     (\<lambda>c. fr_CallHandlers (FlexrayFrameEvent msg) (fr_Trace Direction_RX (ffe_timestamp msg) msg c))"

definition ReceiveMsg_WireFlexrayFrameTransmitEvent ::
  "ServiceDescriptor \<Rightarrow> WireFlexrayFrameTransmitEvent \<Rightarrow> FlexrayController \<Rightarrow> FlexrayController" where
  "ReceiveMsg_WireFlexrayFrameTransmitEvent fromDescr msg = fr_receive_if fromDescr
     (\<lambda>c. fr_CallHandlers (FlexrayFrameTransmitEvent msg)
            (fr_Trace Direction_TX (fte_timestamp msg)
              \<lparr>ffe_timestamp = fte_timestamp msg, ffe_channel = fte_channel msg, ffe_frame = fte_frame msg\<rparr> c))"

abbreviation Pattern_Wus :: u8 where "Pattern_Wus \<equiv> 1"
abbreviation Pattern_Wudop :: u8 where "Pattern_Wudop \<equiv> 2"

definition ReceiveMsg_FlexraySymbolEvent :: "ServiceDescriptor \<Rightarrow> FlexraySymbolEvent \<Rightarrow> FlexrayController \<Rightarrow> FlexrayController" where
  "ReceiveMsg_FlexraySymbolEvent fromDescr msg = fr_receive_if fromDescr
     (\<lambda>c. fr_CallHandlers (FlexraySymbol msg)
            (if fse_pattern msg \<in> {Pattern_Wus, Pattern_Wudop} then fr_CallHandlers (FlexrayWakeupEvent msg) c else c))"

definition ReceiveMsg_FlexraySymbolTransmitEvent ::
  "ServiceDescriptor \<Rightarrow> FlexraySymbolTransmitEvent \<Rightarrow> FlexrayController \<Rightarrow> FlexrayController" where
  "ReceiveMsg_FlexraySymbolTransmitEvent fromDescr msg = fr_receive_if fromDescr (fr_CallHandlers (FlexraySymbolTransmit msg))"

definition ReceiveMsg_FlexrayCycleStartEvent ::
  "ServiceDescriptor \<Rightarrow> FlexrayCycleStartEvent \<Rightarrow> FlexrayController \<Rightarrow> FlexrayController" where
  "ReceiveMsg_FlexrayCycleStartEvent fromDescr msg = fr_receive_if fromDescr (fr_CallHandlers (FlexrayCycleStart msg))"

definition ReceiveMsg_FlexrayPocStatusEvent ::
  "ServiceDescriptor \<Rightarrow> FlexrayPocStatusEvent \<Rightarrow> FlexrayController \<Rightarrow> FlexrayController" where
  "ReceiveMsg_FlexrayPocStatusEvent fromDescr msg = fr_receive_if fromDescr (fr_CallHandlers (FlexrayPocStatus msg))"

section \<open>Handlers\<close>

definition fr_AddFrameHandler :: "nat \<Rightarrow> FlexrayController \<Rightarrow> nat \<times> FlexrayController" where
  "fr_AddFrameHandler handler c = (let (i, hs) = Handlers_Add handler (fc_frameHandlers c) in (i, c\<lparr>fc_frameHandlers := hs\<rparr>))"

definition fr_RemoveFrameHandler :: "nat \<Rightarrow> FlexrayController \<Rightarrow> FlexrayController" where
  "fr_RemoveFrameHandler handlerId c = c\<lparr>fc_frameHandlers := snd (Handlers_Remove handlerId (fc_frameHandlers c))\<rparr>"

definition fr_AddFrameTransmitHandler :: "nat \<Rightarrow> FlexrayController \<Rightarrow> nat \<times> FlexrayController" where
  "fr_AddFrameTransmitHandler handler c = (let (i, hs) = Handlers_Add handler (fc_frameTransmitHandlers c) in (i, c\<lparr>fc_frameTransmitHandlers := hs\<rparr>))"

definition fr_RemoveFrameTransmitHandler :: "nat \<Rightarrow> FlexrayController \<Rightarrow> FlexrayController" where
  "fr_RemoveFrameTransmitHandler handlerId c = c\<lparr>fc_frameTransmitHandlers := snd (Handlers_Remove handlerId (fc_frameTransmitHandlers c))\<rparr>"

definition fr_AddWakeupHandler :: "nat \<Rightarrow> FlexrayController \<Rightarrow> nat \<times> FlexrayController" where
  "fr_AddWakeupHandler handler c = (let (i, hs) = Handlers_Add handler (fc_wakeupHandlers c) in (i, c\<lparr>fc_wakeupHandlers := hs\<rparr>))"

definition fr_RemoveWakeupHandler :: "nat \<Rightarrow> FlexrayController \<Rightarrow> FlexrayController" where
  "fr_RemoveWakeupHandler handlerId c = c\<lparr>fc_wakeupHandlers := snd (Handlers_Remove handlerId (fc_wakeupHandlers c))\<rparr>"

definition fr_AddPocStatusHandler :: "nat \<Rightarrow> FlexrayController \<Rightarrow> nat \<times> FlexrayController" where
  "fr_AddPocStatusHandler handler c = (let (i, hs) = Handlers_Add handler (fc_pocStatusHandlers c) in (i, c\<lparr>fc_pocStatusHandlers := hs\<rparr>))"

definition fr_RemovePocStatusHandler :: "nat \<Rightarrow> FlexrayController \<Rightarrow> FlexrayController" where
  "fr_RemovePocStatusHandler handlerId c = c\<lparr>fc_pocStatusHandlers := snd (Handlers_Remove handlerId (fc_pocStatusHandlers c))\<rparr>"

definition fr_AddSymbolHandler :: "nat \<Rightarrow> FlexrayController \<Rightarrow> nat \<times> FlexrayController" where
  "fr_AddSymbolHandler handler c = (let (i, hs) = Handlers_Add handler (fc_symbolHandlers c) in (i, c\<lparr>fc_symbolHandlers := hs\<rparr>))"

definition fr_RemoveSymbolHandler :: "nat \<Rightarrow> FlexrayController \<Rightarrow> FlexrayController" where
  "fr_RemoveSymbolHandler handlerId c = c\<lparr>fc_symbolHandlers := snd (Handlers_Remove handlerId (fc_symbolHandlers c))\<rparr>"

definition fr_AddSymbolTransmitHandler :: "nat \<Rightarrow> FlexrayController \<Rightarrow> nat \<times> FlexrayController" where
  "fr_AddSymbolTransmitHandler handler c = (let (i, hs) = Handlers_Add handler (fc_symbolTransmitHandlers c) in (i, c\<lparr>fc_symbolTransmitHandlers := hs\<rparr>))"

definition fr_RemoveSymbolTransmitHandler :: "nat \<Rightarrow> FlexrayController \<Rightarrow> FlexrayController" where
  "fr_RemoveSymbolTransmitHandler handlerId c = c\<lparr>fc_symbolTransmitHandlers := snd (Handlers_Remove handlerId (fc_symbolTransmitHandlers c))\<rparr>"

definition fr_AddCycleStartHandler :: "nat \<Rightarrow> FlexrayController \<Rightarrow> nat \<times> FlexrayController" where
  "fr_AddCycleStartHandler handler c = (let (i, hs) = Handlers_Add handler (fc_cycleStartHandlers c) in (i, c\<lparr>fc_cycleStartHandlers := hs\<rparr>))"

definition fr_RemoveCycleStartHandler :: "nat \<Rightarrow> FlexrayController \<Rightarrow> FlexrayController" where
  "fr_RemoveCycleStartHandler handlerId c = c\<lparr>fc_cycleStartHandlers := snd (Handlers_Remove handlerId (fc_cycleStartHandlers c))\<rparr>"


section \<open>Documented ranges\<close>

text \<open>The ranges that \<^verbatim>\<open>FlexrayDatatypes.hpp\<close> documents for the parameters, as value, lower and upper bound.\<close>

definition within :: "(int \<times> int \<times> int) list \<Rightarrow> bool" where
  "within xs \<longleftrightarrow> list_all (\<lambda>(v, lo, hi). lo \<le> v \<and> v \<le> hi) xs"

definition cluster_documented :: "FlexrayClusterParameters \<Rightarrow> bool" where
  "cluster_documented p \<longleftrightarrow> odd (uint (fcp_gCycleCountMax p)) \<and> within
     [(uint (fcp_gColdstartAttempts p), 2, 31),
      (uint (fcp_gCycleCountMax p), 7, 63),
      (uint (fcp_gdActionPointOffset p), 1, 63),
      (uint (fcp_gdDynamicSlotIdlePhase p), 0, 2),
      (uint (fcp_gdMiniSlot p), 2, 63),
      (uint (fcp_gdMiniSlotActionPointOffset p), 1, 31),
      (uint (fcp_gdStaticSlot p), 3, 664),
      (uint (fcp_gdSymbolWindow p), 0, 162),
      (uint (fcp_gdSymbolWindowActionPointOffset p), 1, 63),
      (uint (fcp_gdTSSTransmitter p), 1, 15),
      (uint (fcp_gdWakeupTxActive p), 15, 60),
      (uint (fcp_gdWakeupTxIdle p), 45, 180),
      (uint (fcp_gListenNoise p), 2, 16),
      (uint (fcp_gMacroPerCycle p), 8, 16000),
      (uint (fcp_gMaxWithoutClockCorrectionFatal p), 1, 15),
      (uint (fcp_gMaxWithoutClockCorrectionPassive p), 1, 15),
      (uint (fcp_gNumberOfMiniSlots p), 0, 7988),
      (uint (fcp_gNumberOfStaticSlots p), 2, 1023),
      (uint (fcp_gPayloadLengthStatic p), 0, 127),
      (uint (fcp_gSyncFrameIDCountMax p), 2, 15)]"

text \<open>The two parameters of an enumeration type with documented values that the validation does not look at.\<close>

definition enumerators_documented :: "FlexrayNodeParameters \<Rightarrow> bool" where
  "enumerators_documented p \<longleftrightarrow> fnp_pChannels p \<in> {FlexrayChannel_A, FlexrayChannel_B, FlexrayChannel_AB} \<and>
     fnp_pdMicrotick p \<in> {FlexrayClockPeriod_T12_5NS, FlexrayClockPeriod_T25NS, FlexrayClockPeriod_T50NS}"

definition node_documented :: "FlexrayNodeParameters \<Rightarrow> bool" where
  "node_documented p \<longleftrightarrow> enumerators_documented p \<and> fnp_pWakeupChannel p \<in> {FlexrayChannel_A, FlexrayChannel_B} \<and> within
     [(uint (fnp_pAllowHaltDueToClock p), 0, 1),
      (uint (fnp_pAllowPassiveToActive p), 0, 31),
      (uint (fnp_pClusterDriftDamping p), 0, 10),
      (sint (fnp_pdAcceptedStartupRange p), 29, 2743),
      (sint (fnp_pdListenTimeout p), 1926, 2567692),
      (uint (fnp_pKeySlotId p), 0, 1023),
      (uint (fnp_pKeySlotOnlyEnabled p), 0, 1),
      (uint (fnp_pKeySlotUsedForStartup p), 0, 1),
      (uint (fnp_pKeySlotUsedForSync p), 0, 1),
      (uint (fnp_pLatestTx p), 0, 7988),
      (uint (fnp_pMacroInitialOffsetA p), 2, 68),
      (uint (fnp_pMacroInitialOffsetB p), 2, 68),
      (sint (fnp_pMicroInitialOffsetA p), 0, 239),
      (sint (fnp_pMicroInitialOffsetB p), 0, 239),
      (sint (fnp_pMicroPerCycle p), 960, 1280000),
      (sint (fnp_pOffsetCorrectionOut p), 15, 16082),
      (uint (fnp_pOffsetCorrectionStart p), 7, 15999),
      (sint (fnp_pRateCorrectionOut p), 3, 3846),
      (uint (fnp_pWakeupPattern p), 0, 63),
      (uint (fnp_pSamplesPerMicrotick p), 1, 2)]"

lemma throw_first_ok: "throw_first checks = Inr () \<longleftrightarrow> list_all (\<lambda>(c, message). \<not> c) checks"
  by (induction checks) (auto simp: throw_first_def)

lemma uint_odd: "(x :: u8) mod 2 = 1 \<longleftrightarrow> odd (uint x)"
  by (simp add: word_uint_eq_iff uint_mod odd_iff_mod_2_eq_one)

lemma Validate_cluster: "Validate_FlexrayClusterParameters p = Inr () \<longleftrightarrow> cluster_documented p"
  by (simp add: Validate_FlexrayClusterParameters_def throw_first_ok cluster_documented_def within_def uint_odd
      word_less_def not_less conj_ac)

lemma Validate_node:
  assumes "enumerators_documented p"
  shows "Validate_FlexrayNodeParameters p = Inr () \<longleftrightarrow> node_documented p"
  using assms
  by (simp add: Validate_FlexrayNodeParameters_def throw_first_ok node_documented_def within_def word_less_def not_less conj_ac)

section \<open>What the simulator receives\<close>

datatype flexray_operation =
    FrConfigure FlexrayControllerConfig
  | FrReconfigureTxBuffer u16 FlexrayTxBufferConfig
  | FrUpdateTxBuffer WireFlexrayTxBufferUpdate
  | FrCommand u8
  | FrReceiveFrame ServiceDescriptor WireFlexrayFrameEvent
  | FrReceiveFrameTransmit ServiceDescriptor WireFlexrayFrameTransmitEvent
  | FrReceiveSymbol ServiceDescriptor FlexraySymbolEvent
  | FrReceiveSymbolTransmit ServiceDescriptor FlexraySymbolTransmitEvent
  | FrReceiveCycleStart ServiceDescriptor FlexrayCycleStartEvent
  | FrReceivePocStatus ServiceDescriptor FlexrayPocStatusEvent
  | FrDiscovery event_type ServiceDescriptor

definition fr_or_unchanged :: "FlexrayController \<Rightarrow> flexray_error + FlexrayController \<Rightarrow> FlexrayController" where
  "fr_or_unchanged c r = (case r of Inl e \<Rightarrow> c | Inr c' \<Rightarrow> c')"

fun fr_operate :: "flexray_operation \<Rightarrow> FlexrayController \<Rightarrow> FlexrayController" where
  "fr_operate (FrConfigure config) c = fr_or_unchanged c (fr_Configure config c)"
| "fr_operate (FrReconfigureTxBuffer idx config) c = fr_or_unchanged c (ReconfigureTxBuffer idx config c)"
| "fr_operate (FrUpdateTxBuffer update) c = fr_or_unchanged c (fr_UpdateTxBuffer update c)"
| "fr_operate (FrCommand command) c = fr_command command c"
| "fr_operate (FrReceiveFrame fromDescr msg) c = ReceiveMsg_WireFlexrayFrameEvent fromDescr msg c"
| "fr_operate (FrReceiveFrameTransmit fromDescr msg) c = ReceiveMsg_WireFlexrayFrameTransmitEvent fromDescr msg c"
| "fr_operate (FrReceiveSymbol fromDescr msg) c = ReceiveMsg_FlexraySymbolEvent fromDescr msg c"
| "fr_operate (FrReceiveSymbolTransmit fromDescr msg) c = ReceiveMsg_FlexraySymbolTransmitEvent fromDescr msg c"
| "fr_operate (FrReceiveCycleStart fromDescr msg) c = ReceiveMsg_FlexrayCycleStartEvent fromDescr msg c"
| "fr_operate (FrReceivePocStatus fromDescr msg) c = ReceiveMsg_FlexrayPocStatusEvent fromDescr msg c"
| "fr_operate (FrDiscovery discoveryType remote) c = fr_on_discovery discoveryType remote c"

text \<open>A configuration that the application gives has documented enumerators.\<close>

definition config_typed :: "FlexrayControllerConfig \<Rightarrow> bool" where
  "config_typed config \<longleftrightarrow> enumerators_documented (fcc_nodeParams config)"

definition operation_typed :: "flexray_operation \<Rightarrow> bool" where
  "operation_typed op = (case op of FrConfigure config \<Rightarrow> config_typed config | _ \<Rightarrow> True)"

definition predefined_typed :: "FlexrayNodeParameters option \<Rightarrow> bool" where
  "predefined_typed p = (case p of None \<Rightarrow> True | Some p \<Rightarrow> enumerators_documented p)"

text \<open>The number of transmit buffers that the messages configure, and whether every message fits what was configured before it.\<close>

fun fr_buffers :: "nat \<Rightarrow> flexray_message \<Rightarrow> nat" where
  "fr_buffers n (FrConfig cfg) = length (fcc_bufferConfigs cfg)"
| "fr_buffers n _ = n"

fun fr_fits :: "nat \<Rightarrow> flexray_message \<Rightarrow> bool" where
  "fr_fits n (FrConfig cfg) \<longleftrightarrow> cluster_documented (fcc_clusterParams cfg) \<and> node_documented (fcc_nodeParams cfg)"
| "fr_fits n (FrTxBufferConfig u) \<longleftrightarrow> unat (fcu_txBufferIndex u) < n"
| "fr_fits n (FrTxBuffer u) \<longleftrightarrow> unat (ftu_txBufferIndex u) < n"
| "fr_fits n (FrHostCommand m) \<longleftrightarrow> True"

fun fr_all_fit :: "nat \<Rightarrow> flexray_message list \<Rightarrow> bool" where
  "fr_all_fit n [] \<longleftrightarrow> True"
| "fr_all_fit n (m # ms) \<longleftrightarrow> fr_fits n m \<and> fr_all_fit (fr_buffers n m) ms"

lemma fr_all_fit_snoc: "fr_all_fit n (ms @ [m]) \<longleftrightarrow> fr_all_fit n ms \<and> fr_fits (foldl fr_buffers n ms) m"
  by (induction ms arbitrary: n) auto

definition fr_inv :: "FlexrayController \<Rightarrow> bool" where
  "fr_inv c \<longleftrightarrow> fr_all_fit 0 (fc_sent c) \<and> length (fc_bufferConfigs c) = foldl fr_buffers 0 (fc_sent c) \<and>
     predefined_typed (fc_nodeParameters c)"

lemma overridden_typed:
  assumes "predefined_typed (fc_nodeParameters c)" "config_typed config"
  shows "enumerators_documented (fcc_nodeParams (overridden config c))"
  using assms
  by (auto simp: overridden_def config_typed_def predefined_typed_def IsNodeParametersConfigurable_def Let_def split: option.splits)

lemma fr_inv_send: "fr_inv c \<Longrightarrow> fr_fits (length (fc_bufferConfigs c)) m \<Longrightarrow> (\<forall>cfg. m \<noteq> FrConfig cfg) \<Longrightarrow> fr_inv (fr_SendMsg m c)"
  by (cases m) (simp_all add: fr_inv_def fr_SendMsg_def fr_all_fit_snoc)

lemma fr_inv_call [simp]: "fr_inv (fr_CallHandlers e c) = fr_inv c" "fr_inv (fr_Trace d t f c) = fr_inv c"
  by (simp_all add: fr_inv_def fr_CallHandlers_def fr_Trace_def)

lemma fr_Configure_inv:
  assumes "fr_inv c" "fr_Configure config c = Inr c'" "config_typed config"
  shows "fr_inv c'"
proof -
  let ?cfg = "overridden config c"
  have "Validate_FlexrayClusterParameters (fcc_clusterParams ?cfg) = Inr ()" "Validate_FlexrayNodeParameters (fcc_nodeParams ?cfg) = Inr ()"
    and c': "c' = fr_SendMsg (FrConfig ?cfg) (c\<lparr>fc_bufferConfigs := fcc_bufferConfigs ?cfg\<rparr>)"
    using assms(2) by (auto simp: fr_Configure_def Let_def bindE_def split: sum.splits)
  moreover have "enumerators_documented (fcc_nodeParams ?cfg)" using assms(1,3) by (simp add: fr_inv_def overridden_typed)
  ultimately have "fr_fits n (FrConfig ?cfg)" for n by (simp add: Validate_cluster Validate_node)
  then show ?thesis using assms(1) by (simp add: c' fr_inv_def fr_SendMsg_def fr_all_fit_snoc)
qed

lemma fr_operate_inv:
  assumes "fr_inv c" "operation_typed op"
  shows "fr_inv (fr_operate op c)"
proof (cases op)
  case (FrConfigure config)
  then show ?thesis using assms fr_Configure_inv by (auto simp: fr_or_unchanged_def operation_typed_def split: sum.splits)
next
  case (FrReconfigureTxBuffer idx config)
  then show ?thesis using assms by (auto simp: ReconfigureTxBuffer_def fr_or_unchanged_def intro: fr_inv_send)
next
  case (FrUpdateTxBuffer update)
  then show ?thesis using assms by (auto simp: fr_UpdateTxBuffer_def fr_or_unchanged_def intro: fr_inv_send)
next
  case (FrCommand command)
  then show ?thesis using assms by (auto simp: fr_command_def intro: fr_inv_send)
next
  case (FrDiscovery discoveryType remote)
  then show ?thesis using assms by (simp add: fr_on_discovery_def fr_inv_def)
qed (use assms in \<open>simp_all add: fr_receive_if_def ReceiveMsg_WireFlexrayFrameEvent_def ReceiveMsg_WireFlexrayFrameTransmitEvent_def
      ReceiveMsg_FlexraySymbolEvent_def ReceiveMsg_FlexraySymbolTransmitEvent_def ReceiveMsg_FlexrayCycleStartEvent_def
      ReceiveMsg_FlexrayPocStatusEvent_def\<close>)

text \<open>
  C12. The FlexRay messages that reach the network simulator, after any operations on a new controller, when the application and the
  predefined configuration give documented enumerators for the channels and the microtick of a node (which the code does not
  check): every configuration has all cluster and node parameters within their documented ranges, and every update refers to a
  transmit buffer of the configuration sent last.
\<close>

theorem flexray_messages_fit:
  assumes "predefined_typed nodeParameters" "list_all operation_typed ops"
  shows "fr_all_fit 0 (fc_sent (fold fr_operate ops (FlexrayController_new clusterParameters nodeParameters txBufferConfigurations descriptor)))"
proof -
  have "fr_inv (fold fr_operate ops c)" if "fr_inv c" for c
    using that assms(2) by (induction ops arbitrary: c) (simp_all add: fr_operate_inv)
  moreover have "fr_inv (FlexrayController_new clusterParameters nodeParameters txBufferConfigurations descriptor)"
    using assms(1) by (simp add: fr_inv_def FlexrayController_new_def)
  ultimately show ?thesis by (simp add: fr_inv_def)
qed

definition sample_cluster :: FlexrayClusterParameters where
  "sample_cluster = \<lparr>fcp_gColdstartAttempts = 8, fcp_gCycleCountMax = 63, fcp_gdActionPointOffset = 2, fcp_gdDynamicSlotIdlePhase = 1,
     fcp_gdMiniSlot = 5, fcp_gdMiniSlotActionPointOffset = 2, fcp_gdStaticSlot = 31, fcp_gdSymbolWindow = 1,
     fcp_gdSymbolWindowActionPointOffset = 1, fcp_gdTSSTransmitter = 9, fcp_gdWakeupTxActive = 60, fcp_gdWakeupTxIdle = 180,
     fcp_gListenNoise = 2, fcp_gMacroPerCycle = 3636, fcp_gMaxWithoutClockCorrectionFatal = 2, fcp_gMaxWithoutClockCorrectionPassive = 2,
     fcp_gNumberOfMiniSlots = 291, fcp_gNumberOfStaticSlots = 70, fcp_gPayloadLengthStatic = 16, fcp_gSyncFrameIDCountMax = 15\<rparr>"

definition sample_node :: FlexrayNodeParameters where
  "sample_node = \<lparr>fnp_pAllowHaltDueToClock = 1, fnp_pAllowPassiveToActive = 0, fnp_pChannels = FlexrayChannel_AB,
     fnp_pClusterDriftDamping = 2, fnp_pdAcceptedStartupRange = 212, fnp_pdListenTimeout = 400162, fnp_pKeySlotId = 10,
     fnp_pKeySlotOnlyEnabled = 0, fnp_pKeySlotUsedForStartup = 1, fnp_pKeySlotUsedForSync = 1, fnp_pLatestTx = 249,
     fnp_pMacroInitialOffsetA = 3, fnp_pMacroInitialOffsetB = 3, fnp_pMicroInitialOffsetA = 6, fnp_pMicroInitialOffsetB = 6,
     fnp_pMicroPerCycle = 200000, fnp_pOffsetCorrectionOut = 127, fnp_pOffsetCorrectionStart = 3632, fnp_pRateCorrectionOut = 81,
     fnp_pWakeupChannel = FlexrayChannel_A, fnp_pWakeupPattern = 33, fnp_pdMicrotick = FlexrayClockPeriod_T25NS,
     fnp_pSamplesPerMicrotick = 2\<rparr>"

definition sample_buffer :: FlexrayTxBufferConfig where
  "sample_buffer = \<lparr>ftc_channels = FlexrayChannel_A, ftc_slotId = 10, ftc_offset = 0, ftc_repetition = 1,
     ftc_hasPayloadPreambleIndicator = False, ftc_headerCrc = 5, ftc_transmissionMode = 0\<rparr>"

definition sample_fr_config :: FlexrayControllerConfig where
  "sample_fr_config = \<lparr>fcc_clusterParams = sample_cluster, fcc_nodeParams = sample_node, fcc_bufferConfigs = [sample_buffer]\<rparr>"

definition sample_fr_ops :: "flexray_operation list" where
  "sample_fr_ops = [FrUpdateTxBuffer \<lparr>ftu_txBufferIndex = 0, ftu_payloadDataValid = True, ftu_payload = [1]\<rparr>, FrConfigure sample_fr_config,
     FrUpdateTxBuffer \<lparr>ftu_txBufferIndex = 0, ftu_payloadDataValid = True, ftu_payload = [2]\<rparr>]"

theorem flexray_messages_fit_witness:
  "fc_sent (fold fr_operate sample_fr_ops (FlexrayController_new None None [] empty_ServiceDescriptor)) =
     [FrConfig sample_fr_config, FrTxBuffer \<lparr>ftu_txBufferIndex = 0, ftu_payloadDataValid = True, ftu_payload = [2]\<rparr>] \<and>
   fr_all_fit 0 (fc_sent (fold fr_operate sample_fr_ops (FlexrayController_new None None [] empty_ServiceDescriptor)))"
proof
  show "fc_sent (fold fr_operate sample_fr_ops (FlexrayController_new None None [] empty_ServiceDescriptor)) =
     [FrConfig sample_fr_config, FrTxBuffer \<lparr>ftu_txBufferIndex = 0, ftu_payloadDataValid = True, ftu_payload = [2]\<rparr>]" by code_simp
  show "fr_all_fit 0 (fc_sent (fold fr_operate sample_fr_ops (FlexrayController_new None None [] empty_ServiceDescriptor)))"
    by (rule flexray_messages_fit)
       (simp_all add: predefined_typed_def sample_fr_ops_def operation_typed_def config_typed_def sample_fr_config_def sample_node_def
          enumerators_documented_def)
qed

text \<open>
  C13. A configuration whose effective parameters (those of the caller unless they are predefined) have documented enumerators for the
  channels and the microtick of the node is refused exactly when one of the effective cluster and node parameters is outside its
  documented range; the controller is unchanged then, and otherwise the effective configuration is sent.
\<close>

theorem flexray_Configure_validates:
  assumes "enumerators_documented (fcc_nodeParams (overridden config c))"
  shows "case fr_Configure config c of
     Inl e \<Rightarrow> \<not> (cluster_documented (fcc_clusterParams (overridden config c)) \<and> node_documented (fcc_nodeParams (overridden config c))) \<and>
       fr_operate (FrConfigure config) c = c
   | Inr c' \<Rightarrow> cluster_documented (fcc_clusterParams (overridden config c)) \<and> node_documented (fcc_nodeParams (overridden config c)) \<and>
       c' = c\<lparr>fc_bufferConfigs := fcc_bufferConfigs (overridden config c), fc_sent := fc_sent c @ [FrConfig (overridden config c)]\<rparr>"
  using Validate_cluster[of "fcc_clusterParams (overridden config c)"] Validate_node[OF assms]
  by (cases "Validate_FlexrayClusterParameters (fcc_clusterParams (overridden config c))";
      cases "Validate_FlexrayNodeParameters (fcc_nodeParams (overridden config c))")
     (auto simp: fr_Configure_def Let_def bindE_def fr_SendMsg_def fr_or_unchanged_def)

theorem flexray_Configure_validates_witness:
  "fr_Configure (sample_fr_config\<lparr>fcc_nodeParams := sample_node\<lparr>fnp_pWakeupPattern := 64\<rparr>\<rparr>) (FlexrayController_new None None [] empty_ServiceDescriptor) =
     Inl (FrConfigurationError ''pWakeupPattern must be in range 0 - 63'') \<and>
   \<not> (cluster_documented sample_cluster \<and> node_documented (sample_node\<lparr>fnp_pWakeupPattern := 64\<rparr>))"
proof
  let ?config = "sample_fr_config\<lparr>fcc_nodeParams := sample_node\<lparr>fnp_pWakeupPattern := 64\<rparr>\<rparr>"
  let ?c = "FlexrayController_new None None [] empty_ServiceDescriptor"
  have o: "overridden ?config ?c = ?config"
    by (simp add: overridden_def FlexrayController_new_def IsClusterParametersConfigurable_def IsNodeParametersConfigurable_def
        IsTxBufferConfigsConfigurable_def)
  show e: "fr_Configure ?config ?c = Inl (FrConfigurationError ''pWakeupPattern must be in range 0 - 63'')" by code_simp
  have "enumerators_documented (fcc_nodeParams (overridden ?config ?c))"
    unfolding o by (simp add: sample_fr_config_def sample_node_def enumerators_documented_def)
  from flexray_Configure_validates[OF this] show "\<not> (cluster_documented sample_cluster \<and> node_documented (sample_node\<lparr>fnp_pWakeupPattern := 64\<rparr>))"
    unfolding o e by (simp add: sample_fr_config_def)
qed

text \<open>The channels of a node and the duration of its microticks are not checked, although their values are documented as well.\<close>

lemma unchecked_channels:
  "Validate_FlexrayNodeParameters (p\<lparr>fnp_pChannels := 0\<rparr>) = Validate_FlexrayNodeParameters p"
  "Validate_FlexrayNodeParameters (p\<lparr>fnp_pdMicrotick := 77\<rparr>) = Validate_FlexrayNodeParameters p"
  by (simp_all add: Validate_FlexrayNodeParameters_def)

end
