(* ===== verification/Spec2Isabelle.thy ===== *)
theory Spec2Isabelle
  imports Bus_Messages VAsio_Handshake VAsio_Link System_Monitor Time_Progress Lifecycle_Flows Subscriber_Discovery Lin_Schedule
    Rpc_Calls Registry Can_Controller Ethernet_Controller Flexray_Controller
begin

text \<open>
  A verification development for SIL Kit, a C++ library that connects participants of a distributed
  simulation (src/SilKit/source). Participants exchange messages of simulated buses and of publish/subscribe and RPC
  services over a peer-to-peer network layer (\<^verbatim>\<open>core/vasio\<close>), and run under a common orchestration
  (\<^verbatim>\<open>services/orchestration\<close>): every participant has a lifecycle that it announces to the others, a
  system monitor that computes the state of the whole system from the announcements, and optionally a
  service that advances virtual time together with the others.

  \<^bold>\<open>How the parts interact.\<close> A service hands a message structure to its serialiser, which writes it into a
  message buffer; \<^verbatim>\<open>SerializedMessage\<close> puts the network headers around it; \<^verbatim>\<open>VAsioPeer\<close> queues the bytes,
  writes them to the socket, and on the other side collects the received bytes in a ring buffer, cuts them into
  frames and hands these to the connection, from where the message reaches the service of the
  receiver. The lifecycle service announces its states through this path; \<^verbatim>\<open>SystemMonitor\<close> receives them, its
  \<^verbatim>\<open>SystemStateTracker\<close> computes the system state, and the lifecycle services of coordinated participants
  react to it. Between some states the lifecycle waits for a barrier of the request/reply service that
  all other participants answer. A running participant with virtual time announces its next simulation step and waits
  until no other participant has an earlier one.

  \<^bold>\<open>Theories.\<close>
  \<^item> Prelude: fixed-width integers, byte lists, errors as sums (\<open>bindE\<close>) and little-endian encodings.
  \<^item> Wire_Buffer: \<^verbatim>\<open>core/internal/MessageBuffer.hpp\<close>, writers and readers over a buffer with a read position,
    including the exception \<^verbatim>\<open>end_of_buffer\<close>. Wire_Codec: the locale \<open>wire_codec\<close>, the contract of a pair of
    streaming operators (what is written is read back, a truncated message is refused, a reader stays in bounds), with
    the laws by which the codecs of structures are composed from those of their fields, and its interpretations for
    the element types.
  \<^item> Bus_Messages, Service_Messages, VAsio_Messages: the structures and serialisers of \<^verbatim>\<open>services/*/*Serdes.cpp\<close>,
    \<^verbatim>\<open>core/requests\<close>, \<^verbatim>\<open>core/service\<close>, and of the network layer for the protocol versions 3.0 and 3.1, each with
    its interpretation of the locale.
  \<^item> Serialized_Message: \<^verbatim>\<open>core/vasio/SerializedMessage.cpp\<close> and its traits. VAsio_Handshake: the versioned
    handshake messages, their conversion to and from version 3.0, and parsing of the registry header.
  \<^item> Ring_Buffer: \<^verbatim>\<open>core/vasio/RingBuffer.cpp\<close>, a refinement of a bounded queue of bytes.
  \<^item> VAsio_Peer: \<^verbatim>\<open>core/vasio/VAsioPeer.cpp\<close>, sending with aggregation, receiving and dispatch. VAsio_Link: two
    connected peers, from a published data message to the listener of the other side.
  \<^item> Orchestration_Types: states and handler lists (\<^verbatim>\<open>util/SynchronizedHandlers.hpp\<close>). System_State:
    \<^verbatim>\<open>SystemStateTracker.cpp\<close>. System_Monitor: \<^verbatim>\<open>SystemMonitor.cpp\<close>.
  \<^item> Request_Reply: \<^verbatim>\<open>core/requests/RequestReplyService.cpp\<close> and the procedure \<^verbatim>\<open>ParticipantReplies.cpp\<close>.
  \<^item> Lifecycle_States, Lifecycle_Machine, Lifecycle_Service: \<^verbatim>\<open>LifecycleStates.cpp\<close>, \<^verbatim>\<open>LifecycleManagement.cpp\<close> and
    \<^verbatim>\<open>LifecycleService.cpp\<close>. A method of a state object is a function to the actions it performs; a stack of actions
    models the nested calls, and the termination proof of \<open>run_actions\<close> shows that the nesting always ends.
    Lifecycle_Properties and Lifecycle_Flows hold the invariants of all runs and the paths of start, stop and abort.
  \<^item> Label_Matching: \<^verbatim>\<open>util/LabelMatching.cpp\<close>. Discovery_Store: the index of services and handlers by labels
    (\<^verbatim>\<open>core/service/SpecificDiscoveryStore.cpp\<close>), with the locale \<open>cluster_items\<close> that treats its services and
    its handlers alike. Service_Discovery: \<^verbatim>\<open>core/service/ServiceDiscovery.cpp\<close> and the discovery of publishers by
    \<^verbatim>\<open>services/pubsub/DataSubscriber.cpp\<close>. Subscriber_Discovery: the invariant that ties cache, index and subscribers.
  \<^item> Lin_Nodes: the table of nodes that a LIN controller keeps, with the locale \<open>keyed_table\<close> for its interface.
    Lin_Controller: \<^verbatim>\<open>services/lin/LinController.cpp\<close> with \<^verbatim>\<open>SimBehaviorTrivial.cpp\<close> and \<^verbatim>\<open>SimBehaviorDetailed.cpp\<close>.
    Lin_Network: any number of controllers with ordered channels between them. Lin_Schedule: one slot of a schedule.
  \<^item> Bus_Network: any number of controllers on a bus without simulator, with ordered channels between them: the locale
    \<open>broadcast_bus\<close> for the delivery of frames, and \<open>specified_bus\<close>, which extends it by what the operations have to send. Can_Controller, Ethernet_Controller: \<^verbatim>\<open>services/can/CanController.cpp\<close> and
    \<^verbatim>\<open>services/ethernet/EthController.cpp\<close> with their behaviours, each with its interpretation of \<open>specified_bus\<close>.
    Flexray_Controller: \<^verbatim>\<open>services/flexray/FlexrayController.cpp\<close> and \<^verbatim>\<open>Validation.cpp\<close>.
  \<^item> Rpc_Services: \<^verbatim>\<open>services/rpc/RpcClient.cpp\<close>, \<^verbatim>\<open>RpcServer.cpp\<close> and \<^verbatim>\<open>RpcServerInternal.cpp\<close>. Rpc_Calls: any
    number of clients and servers with ordered channels between them.
  \<^item> Uri_Parsing: \<^verbatim>\<open>util/Uri.cpp\<close>. Connect_Peers: \<^verbatim>\<open>core/vasio/ConnectPeer.cpp\<close>. Connect_Known:
    \<^verbatim>\<open>core/vasio/ConnectKnownParticipants.cpp\<close> with the fallbacks that \<^verbatim>\<open>VAsioConnection\<close> offers it.
  \<^item> Acceptor_Uris: \<^verbatim>\<open>core/vasio/TransformAcceptorUris.cpp\<close>, the addresses of a participant as the registry advertises them.
    Registry: \<^verbatim>\<open>core/vasio/VAsioRegistry.cpp\<close> with the parts of \<^verbatim>\<open>VAsioConnection.cpp\<close> that it uses, from an
    accepted connection to the loss of a peer, as a step relation.
  \<^item> Time_Configuration: \<^verbatim>\<open>TimeConfiguration.cpp\<close>. Time_Sync: \<^verbatim>\<open>TimeSyncService.cpp\<close> with both policies.
    Time_Simulation: any number of participants with reliable, ordered channels between them, as a step
    function over events in any order. Time_Progress: the same system never runs out of useful events.

  \<^bold>\<open>State and effects.\<close> Objects are records with the members of the C++ class; a method is a function from the
  old to the new record. Exceptions are values of sum types that carry, where the code leaves a changed object behind,
  the changed record. Callbacks of the application are numbers or data and their calls are recorded. Deferred actions
  are data in a queue that a later event executes. Identifiers, clocks and the socket are arguments or events, so that every
  theorem holds for all their values and interleavings. Machine integers of the wire format and of the ring
  buffer keep their width; virtual times are unbounded integers.

  \<^bold>\<open>What is shown.\<close> Serialisers: round trip, refusal of truncated input and reading in bounds for every message.
  Ring buffer: refinement of a queue. Peers: delivery of all messages in order for every interleaving, no lost wake-up, no
  stuck reader. Handshake: compatibility with version 3.0. Tracker and monitor: soundness and completeness of the system
  state, handlers informed. Barrier: exactly one completion. Lifecycle: the graph of announced states, the paths of
  start, stop and abort through the barriers, throwing callbacks. Virtual time: steps in the order of time, equidistant,
  without deadlock. Discovery: the index finds what the plain comparison of labels finds, subscribers are connected to
  exactly the matching publishers. LIN: the tables of all controllers agree with the slaves up to messages on their way, and a frame
  header leads to the same reports in every order of delivery. CAN and Ethernet: what is requested while a controller is
  started (while the link is up) is sent and reaches the handlers of all others once and in order. FlexRay: what is sent is within
  the documented ranges. RPC: every call returns once from every matching server that discovery has told of the client; time steps
  report the calls whose timeout is used up. Registry: a newcomer is told of everyone in its simulation before it is accepted,
  with addresses it can use. Connecting: ends after boundedly many steps, tries every address, and reports what the stages of the participants say.
  Several theorems and lemmas record defects: a participant that comes back after an abort, an inverted guard, an
  entry erased from a copy, a read past the end of a legacy reply, a dispatch that goes on after a shutdown,
  an optional label that hides services, a LIN identifier that is not checked, a check that never fires, the timeout of a call
  that was answered, a participant that is waited for without end, documented conditions of reception that nothing enforces,
  parameters that are not validated, a refused participant that takes the entry of another one with it.

  \<^bold>\<open>Bounds.\<close> No theorem rests on fuel. The dispatch loop of the peer and the action stack of the lifecycle are functions with
  termination proofs; runs are lists of events.

  \<^bold>\<open>Not modelled.\<close> Sockets, the I/O context and timers (the asio library); the parts of the
  connection (\<^verbatim>\<open>VAsioConnection.cpp\<close>) that subscribe to messages and route them to services, and the participant (template wiring);
  data publishers above their serialiser; configuration
  files (a third-party YAML parser), logging, metrics, tracing, the dashboard and the C interface. Threads other than the I/O thread appear as the
  events they cause; locks are left out.
\<close>

section \<open>Serialisers\<close>

text \<open>
  C35. The serialisers of the bus messages (CAN, Ethernet, LIN, FlexRay): what is written is read
  back and consumed entirely, a truncated message is refused with \<^verbatim>\<open>end_of_buffer\<close>, and reading
  arbitrary bytes never leaves the buffer.
\<close>

theorem bus_codecs:
  "codec_correct put_WireCanFrameEvent get_WireCanFrameEvent ok_WireCanFrameEvent \<and>
   codec_correct put_CanFrameTransmitEvent get_CanFrameTransmitEvent (\<lambda>_. True) \<and>
   codec_correct put_CanControllerStatus get_CanControllerStatus (\<lambda>_. True) \<and>
   codec_correct put_CanConfigureBaudrate get_CanConfigureBaudrate (\<lambda>_. True) \<and>
   codec_correct put_CanSetControllerMode get_CanSetControllerMode (\<lambda>_. True) \<and>
   codec_correct put_WireEthernetFrameEvent get_WireEthernetFrameEvent ok_WireEthernetFrameEvent \<and>
   codec_correct put_EthernetFrameTransmitEvent get_EthernetFrameTransmitEvent (\<lambda>_. True) \<and>
   codec_correct put_EthernetStatus get_EthernetStatus (\<lambda>_. True) \<and>
   codec_correct put_EthernetSetMode get_EthernetSetMode (\<lambda>_. True) \<and>
   codec_correct put_LinSendFrameRequest get_LinSendFrameRequest ok_LinSendFrameRequest \<and>
   codec_correct put_LinSendFrameHeaderRequest get_LinSendFrameHeaderRequest (\<lambda>_. True) \<and>
   codec_correct put_LinTransmission get_LinTransmission ok_LinTransmission \<and>
   codec_correct put_LinWakeupPulse get_LinWakeupPulse (\<lambda>_. True) \<and>
   codec_correct put_LinControllerStatusUpdate get_LinControllerStatusUpdate (\<lambda>_. True) \<and>
   codec_correct put_LinFrameResponseUpdate get_LinFrameResponseUpdate ok_LinFrameResponseUpdate \<and>
   codec_correct put_WireFlexrayFrameEvent get_WireFlexrayFrameEvent ok_WireFlexrayFrameEvent \<and>
   codec_correct put_WireFlexrayFrameTransmitEvent get_WireFlexrayFrameTransmitEvent ok_WireFlexrayFrameTransmitEvent \<and>
   codec_correct put_FlexraySymbolEvent get_FlexraySymbolEvent (\<lambda>_. True) \<and>
   codec_correct put_FlexraySymbolTransmitEvent get_FlexraySymbolTransmitEvent (\<lambda>_. True) \<and>
   codec_correct put_FlexrayCycleStartEvent get_FlexrayCycleStartEvent (\<lambda>_. True) \<and>
   codec_correct put_FlexrayHostCommand get_FlexrayHostCommand (\<lambda>_. True) \<and>
   codec_correct put_FlexrayControllerConfig get_FlexrayControllerConfig ok_FlexrayControllerConfig \<and>
   codec_correct put_FlexrayTxBufferConfigUpdate get_FlexrayTxBufferConfigUpdate (\<lambda>_. True) \<and>
   codec_correct put_WireFlexrayTxBufferUpdate get_WireFlexrayTxBufferUpdate ok_WireFlexrayTxBufferUpdate \<and>
   codec_correct put_FlexrayPocStatusEvent get_FlexrayPocStatusEvent (\<lambda>_. True)"
  by (intro conjI WireCanFrameEvent.correct CanFrameTransmitEvent.correct CanControllerStatus.correct
      CanConfigureBaudrate.correct CanSetControllerMode.correct WireEthernetFrameEvent.correct
      EthernetFrameTransmitEvent.correct EthernetStatus.correct EthernetSetMode.correct
      LinSendFrameRequest.correct LinSendFrameHeaderRequest.correct LinTransmission.correct LinWakeupPulse.correct
      LinControllerStatusUpdate.correct LinFrameResponseUpdate.correct WireFlexrayFrameEvent.correct
      WireFlexrayFrameTransmitEvent.correct FlexraySymbolEvent.correct FlexraySymbolTransmitEvent.correct
      FlexrayCycleStartEvent.correct FlexrayHostCommand.correct FlexrayControllerConfig.correct
      FlexrayTxBufferConfigUpdate.correct WireFlexrayTxBufferUpdate.correct FlexrayPocStatusEvent.correct)

text \<open>
  C36. The same for the messages of the other services: publish/subscribe, RPC, orchestration,
  internal requests, service discovery and metrics. The status of a participant arrives with its two times cut to whole
  microseconds, which changes them by less than a microsecond and not at all when they are whole microseconds.
\<close>

theorem service_codecs:
  "codec_correct put_WireDataMessageEvent get_WireDataMessageEvent ok_WireDataMessageEvent \<and>
   codec_correct put_FunctionCall get_FunctionCall ok_FunctionCall \<and>
   codec_correct put_FunctionCallResponse get_FunctionCallResponse ok_FunctionCallResponse \<and>
   codec_correct put_NextSimTask get_NextSimTask (\<lambda>_. True) \<and>
   codec_correct put_SystemCommand get_SystemCommand (\<lambda>_. True) \<and>
   codec_correct_upto received_status put_WireParticipantStatus get_WireParticipantStatus ok_status_strings \<and>
   (\<forall>t. \<bar>sint t - sint (whole_microseconds t)\<bar> < 1000 \<and> (whole_microseconds t = t \<longleftrightarrow> 1000 dvd sint t)) \<and>
   codec_correct put_WorkflowConfiguration get_WorkflowConfiguration ok_WorkflowConfiguration \<and>
   codec_correct put_RequestReplyCall get_RequestReplyCall ok_RequestReplyCall \<and>
   codec_correct put_RequestReplyCallReturn get_RequestReplyCallReturn ok_RequestReplyCallReturn \<and>
   codec_correct put_ParticipantDiscoveryEvent get_ParticipantDiscoveryEvent ok_ParticipantDiscoveryEvent \<and>
   codec_correct put_ServiceDiscoveryEvent get_ServiceDiscoveryEvent ok_ServiceDiscoveryEvent \<and>
   codec_correct put_MetricsUpdate get_MetricsUpdate ok_MetricsUpdate"
  by (intro conjI allI WireDataMessageEvent.correct FunctionCall.correct FunctionCallResponse.correct
      NextSimTask.correct SystemCommand.correct status_correct whole_microseconds_error WorkflowConfiguration.correct
      RequestReplyCall.correct RequestReplyCallReturn.correct ParticipantDiscoveryEvent.correct
      ServiceDiscoveryEvent.correct MetricsUpdate.correct)

text \<open>
  C37. The same for the messages of the network layer that do not depend on the protocol version,
  and for the structures of protocol version 3.0.
\<close>

theorem vasio_codecs:
  "codec_correct put_EndpointAddress get_EndpointAddress (\<lambda>_. True) \<and>
   codec_correct put_RegistryMsgHeader get_RegistryMsgHeader (\<lambda>_. True) \<and>
   codec_correct put_VAsioPeerInfo get_VAsioPeerInfo ok_VAsioPeerInfo \<and>
   codec_correct put_VAsioMsgSubscriber get_VAsioMsgSubscriber ok_VAsioMsgSubscriber \<and>
   codec_correct put_SubscriptionAcknowledge get_SubscriptionAcknowledge ok_SubscriptionAcknowledge \<and>
   codec_correct put_RemoteParticipantConnectRequest get_RemoteParticipantConnectRequest
     ok_RemoteParticipantConnectRequest \<and>
   codec_correct put_ParticipantAnnouncement_v30 get_ParticipantAnnouncement_v30 ok_ParticipantAnnouncement_v30 \<and>
   codec_correct put_ParticipantAnnouncementReply_v30 get_ParticipantAnnouncementReply_v30
     ok_ParticipantAnnouncementReply_v30"
  by (intro conjI EndpointAddress.correct RegistryMsgHeader.correct VAsioPeerInfo.correct
      VAsioMsgSubscriber.correct SubscriptionAcknowledge.correct RemoteParticipantConnectRequest.correct
      ParticipantAnnouncement_v30.correct ParticipantAnnouncementReply_v30.correct)

text \<open>
  Messages that grew a last field: the current form is read back, and the form of an older
  peer, which ends before that field, is read with the default of the field.
\<close>

theorem growing_messages:
  "(\<forall>m. ok_LogMsg m \<longrightarrow> roundtrips put_LogMsg get_LogMsg m \<and>
     (\<exists>b. put_all [put_string (lm_loggerName m), put_int (lm_level m), put_time_point (lm_time m),
            put_SourceLoc (lm_source m), put_string (lm_payload m)] empty_MessageBuffer = Inr b \<and>
          get_LogMsg b = Inr (m\<lparr>lm_keyValues := []\<rparr>, b\<lparr>rPos := length (storage b)\<rparr>))) \<and>
   (\<forall>c. ok_WireLinControllerConfig c \<longrightarrow> roundtrips put_WireLinControllerConfig get_WireLinControllerConfig c \<and>
     (\<exists>b. put_all [put_int (lcc_controllerMode c), put_int (lcc_baudRate c),
            put_vector put_LinFrameResponse (lcc_frameResponses c)] empty_MessageBuffer = Inr b \<and>
          get_WireLinControllerConfig b = Inr (c\<lparr>lcc_simulationMode := 0\<rparr>, b\<lparr>rPos := length (storage b)\<rparr>)))"
  by (intro conjI allI impI LogMsg.fresh WireLinControllerConfig.fresh
      rt_endD[OF LogMsg_legacy] rt_endD[OF WireLinControllerConfig_legacy])

definition sample_lin_config :: WireLinControllerConfig where
  "sample_lin_config = \<lparr>lcc_controllerMode = 1, lcc_baudRate = 20000, lcc_frameResponses = [], lcc_simulationMode = 1\<rparr>"

theorem growing_messages_witness:
  "roundtrips put_WireLinControllerConfig get_WireLinControllerConfig sample_lin_config"
proof -
  have "ok_WireLinControllerConfig sample_lin_config"
    by (simp add: sample_lin_config_def ok_WireLinControllerConfig_def ok_vector_def)
  then show ?thesis using growing_messages by blast
qed

text \<open>
  A \<^verbatim>\<open>system_clock\<close> time point travels in microseconds: the receiver gets it rounded towards the
  epoch, less than a microsecond off, and exactly when it was a whole number of microseconds.
\<close>

theorem time_points_lose_submicroseconds:
  "\<exists>b t'. put_time_point t empty_MessageBuffer = Inr b \<and>
     get_time_point b = Inr (t', b\<lparr>rPos := length (storage b)\<rparr>) \<and>
     \<bar>sint t - sint t'\<bar> < 1000 \<and> \<bar>sint t'\<bar> \<le> \<bar>sint t\<bar> \<and> (t' = t \<longleftrightarrow> 1000 dvd sint t)"
  using time_point_received[of t] microseconds_error[of t] by (metis ok_time_point_def)

end
